(* ===== verification/Prelude.thy ===== *)
theory Prelude
  imports Main "HOL-Library.Word"
begin

text \<open>
  Shared vocabulary of the firmware model: the fixed-width integer types of the C++ code,
  lemma collections, facts on packed flag words, and the generic contracts
  (locales) that several components satisfy: an invariant kept by every operation of a
  component, a relation every operation only moves forward along, and a forward simulation
  between a component and its abstract specification.
\<close>

unbundle bit_operations_syntax

section \<open>Machine integers\<close>

type_synonym u8 = "8 word"
type_synonym u16 = "16 word"
type_synonym u32 = "32 word"
type_synonym u64 = "64 word"

text \<open>\<open>std::int32_t\<close> values are only copied and compared by the modelled code.\<close>

type_synonym i32 = int

lemma word_next_greater: "n + 1 = 0 \<or> n < n + (1 :: 'a::len word)"
  using unatSuc [of n] by (cases "1 + n = 0") (simp_all add: word_less_nat_alt add.commute)

lemma word_next_le:
  assumes "n < (m :: 'a::len word)"
  shows "n < n + 1 \<and> n + 1 \<le> m"
proof -
  have "n + 1 \<noteq> 0" using assms by (metis add.commute add_eq_0_iff not_less word_order.extremum)
  then show ?thesis
    using assms unatSuc [of n] word_next_greater [of n] by (simp add: word_less_nat_alt word_le_nat_alt add.commute)
qed

section \<open>Lemma collections\<close>

named_theorems flag_simps \<open>reading and writing single bits of packed state words\<close>
named_theorems framing_defs \<open>operations of the UART framing layer\<close>

section \<open>Packed flag words\<close>

text \<open>
  The code tests a flag with \<open>(word & (1U << n)) != 0\<close>. The lemmas turn the test into
  \<open>bit word n\<close>, on which the simplifier computes.
\<close>

lemma and_mask_bit:
  fixes w :: "'a::len word"
  shows "(w AND 2 ^ n = 0) = (\<not> bit w n)"
  by (simp add: and_exp_eq_0_iff_not_bit)

lemma flag_tests [flag_simps]:
  fixes w :: "'a::len word"
  shows "(w AND 1 = 0) = (\<not> bit w 0)"
    and "(w AND 2 = 0) = (\<not> bit w 1)"
    and "(w AND 4 = 0) = (\<not> bit w 2)"
    and "(w AND 8 = 0) = (\<not> bit w 3)"
    and "(w AND 16 = 0) = (\<not> bit w 4)"
  using and_mask_bit [of w 0] and_mask_bit [of w 1] and_mask_bit [of w 2]
    and_mask_bit [of w 3] and_mask_bit [of w 4] by simp_all

lemma word_eq_bits:
  fixes v w :: "'a::len word"
  shows "v = w \<longleftrightarrow> (\<forall>n. bit v n = bit w n)"
  by (auto intro: bit_eqI)

section \<open>The invariant contract of a component\<close>

text \<open>
  A component is a state, an initial state and one operation per event. If every operation
  keeps the invariant, every state a sequence of operations reaches has it.
\<close>

locale machine =
  fixes step :: "'s \<Rightarrow> 'e \<Rightarrow> 's"
    and ini :: "'s"
    and inv :: "'s \<Rightarrow> bool"
  assumes inv_ini: "inv ini"
    and inv_step: "inv s \<Longrightarrow> inv (step s e)"
begin

lemma inv_run: "inv s \<Longrightarrow> inv (foldl step s es)"
  by (induction es arbitrary: s) (auto intro: inv_step)

lemma inv_reach: "inv (foldl step ini es)"
  by (rule inv_run [OF inv_ini])

end

text \<open>
  A forward relation: every operation moves the state along a preorder (a latch that is
  never cleared, a counter that never goes back).
\<close>

locale forward_machine = machine +
  fixes fwd :: "'s \<Rightarrow> 's \<Rightarrow> bool"
  assumes fwd_refl: "fwd s s"
    and fwd_trans: "fwd s t \<Longrightarrow> fwd t u \<Longrightarrow> fwd s u"
    and fwd_step: "inv s \<Longrightarrow> fwd s (step s e)"
begin

lemma fwd_run: "inv s \<Longrightarrow> fwd s (foldl step s es)"
proof (induction es arbitrary: s)
  case Nil
  show ?case by (simp add: fwd_refl)
next
  case (Cons e es)
  have "fwd s (step s e)" by (rule fwd_step) (rule Cons.prems)
  moreover have "fwd (step s e) (foldl step (step s e) es)"
    by (rule Cons.IH) (rule inv_step [OF Cons.prems])
  ultimately show ?case by (simp add: fwd_trans)
qed

lemma fwd_between:
  "fwd (foldl step ini es) (foldl step ini (es @ es'))"
  by (simp add: fwd_run inv_reach)

end

text \<open>
  An operation that returns outputs, run over a list of inputs: the outputs are appended in
  order. \<open>simulation\<close> lifts a one-step simulation to whole input streams, \<open>guarded_simulation\<close> to the
  streams whose inputs satisfy a guard.
\<close>

fun run_outputs :: "('s \<Rightarrow> 'i \<Rightarrow> 's \<times> 'o list) \<Rightarrow> 's \<Rightarrow> 'i list \<Rightarrow> 's \<times> 'o list" where
  "run_outputs f s [] = (s, [])"
| "run_outputs f s (x # xs) =
     (let (s', os) = f s x; (s'', os') = run_outputs f s' xs in (s'', os @ os'))"

lemma run_outputs_append:
  "run_outputs f s (xs @ ys) =
     (let (s', os) = run_outputs f s xs; (s'', os') = run_outputs f s' ys in (s'', os @ os'))"
  by (induction xs arbitrary: s) (auto simp: Let_def split: prod.splits)

locale guarded_simulation =
  fixes cstep :: "'s \<Rightarrow> 'i \<Rightarrow> 's \<times> 'o list"
    and astep :: "'a \<Rightarrow> 'i \<Rightarrow> 'a \<times> 'o list"
    and R :: "'s \<Rightarrow> 'a \<Rightarrow> bool"
    and ok :: "'i \<Rightarrow> bool"
  assumes guarded_step:
    "R s a \<Longrightarrow> ok i \<Longrightarrow> R (fst (cstep s i)) (fst (astep a i)) \<and> snd (cstep s i) = snd (astep a i)"
begin

lemma guarded_run:
  "R s a \<Longrightarrow> list_all ok is \<Longrightarrow> R (fst (run_outputs cstep s is)) (fst (run_outputs astep a is))
     \<and> snd (run_outputs cstep s is) = snd (run_outputs astep a is)"
proof (induction "is" arbitrary: s a)
  case Nil
  then show ?case by simp
next
  case (Cons i "is")
  from Cons.prems(2) have oks: "ok i" "list_all ok is" by simp_all
  from guarded_step [OF Cons.prems(1) oks(1)]
  have st: "R (fst (cstep s i)) (fst (astep a i))" and out: "snd (cstep s i) = snd (astep a i)"
    by auto
  from Cons.IH [OF st oks(2)] out show ?case by (simp add: case_prod_unfold Let_def)
qed

end

text \<open>A simulation that no input escapes.\<close>

locale simulation =
  fixes cstep :: "'s \<Rightarrow> 'i \<Rightarrow> 's \<times> 'o list"
    and astep :: "'a \<Rightarrow> 'i \<Rightarrow> 'a \<times> 'o list"
    and R :: "'s \<Rightarrow> 'a \<Rightarrow> bool"
  assumes sim_step:
    "R s a \<Longrightarrow> R (fst (cstep s i)) (fst (astep a i)) \<and> snd (cstep s i) = snd (astep a i)"

sublocale simulation \<subseteq> guarded_simulation cstep astep R "\<lambda>_. True"
  by unfold_locales (use sim_step in blast)

context simulation
begin

lemma sim_run:
  "R s a \<Longrightarrow> R (fst (run_outputs cstep s is)) (fst (run_outputs astep a is))
     \<and> snd (run_outputs cstep s is) = snd (run_outputs astep a is)"
  using guarded_run by (simp add: list_all_iff)

lemma sim_outputs:
  "R s a \<Longrightarrow> snd (run_outputs cstep s is) = snd (run_outputs astep a is)"
  using sim_run by blast

end

end
