(* ===== verification/ControlFraming.thy ===== *)
theory ControlFraming
  imports Prelude
begin

text \<open>
  \<open>firmware/components/control_framing\<close>: the byte-stream framing of the UART control plane.
  \<open>Transport::consume\<close> is \<open>consume\<close>, one byte at a time \<open>consume_byte\<close>; the callback's
  invocations are the list of events returned. The specification \<open>frame_spec_byte\<close> keeps
  the whole current line and classifies it when its line feed arrives; the code is proved to
  refine it.
\<close>

section \<open>Constants and state\<close>

text \<open>\<open>kFramePrefix\<close> is the eight bytes of \<open>"@HIDBOT "\<close>.\<close>

definition kFramePrefix :: "u8 list" where
  "kFramePrefix = [64, 72, 73, 68, 66, 79, 84, 32]"

definition kPrefixLength :: nat where
  "kPrefixLength = 8"

definition kMaxRequestLineBytes :: nat where
  "kMaxRequestLineBytes = 512"

definition kFrameStorageBytes :: nat where
  "kFrameStorageBytes = kMaxRequestLineBytes + 1"

definition kTransportSyncLength :: nat where
  "kTransportSyncLength = 4"

datatype event_kind = Frame | OverlongProtocolFrame | TransportSync

datatype event = Event (kind: event_kind) (payload: "u8 list")

datatype line_state = SeekingPrefix | CollectingFrame | IgnoringLine | DiscardingFrame

record transport =
  line_state :: line_state
  prefix_match_length :: nat
  frame_length :: nat
  consecutive_zeros :: nat
  frame :: "u8 list"

definition transport_init :: transport where
  "transport_init = \<lparr>line_state = SeekingPrefix, prefix_match_length = 0, frame_length = 0,
     consecutive_zeros = 0, frame = replicate kFrameStorageBytes 0\<rparr>"

section \<open>Operations\<close>

definition reset_line :: "transport \<Rightarrow> transport" where
  "reset_line t = t\<lparr>line_state := SeekingPrefix, prefix_match_length := 0, frame_length := 0,
     frame := replicate kFrameStorageBytes 0\<rparr>"

definition transport_reset :: "transport \<Rightarrow> transport" where
  "transport_reset t = (reset_line t)\<lparr>consecutive_zeros := 0\<rparr>"

text \<open>
  A store past the end of \<open>frame_\<close> would be memory corruption in C++ and is a no-op of
  \<open>list_update\<close>; \<open>transport_inv\<close> below shows that no store is past the end.
\<close>

definition push_frame_byte :: "transport \<Rightarrow> u8 \<Rightarrow> transport" where
  "push_frame_byte t b =
     t\<lparr>frame := (frame t)[frame_length t := b], frame_length := frame_length t + 1\<rparr>"

definition frame_payload :: "transport \<Rightarrow> u8 list" where
  "frame_payload t =
     (let n = frame_length t - kPrefixLength;
          n' = (if 0 < n \<and> frame t ! (frame_length t - 1) = 13 then n - 1 else n)
      in take n' (drop kPrefixLength (frame t)))"

definition consume_line_byte :: "transport \<Rightarrow> u8 \<Rightarrow> transport \<times> event list" where
  "consume_line_byte t b =
     (if b = 10 then
        (reset_line t,
         (case line_state t of
            CollectingFrame \<Rightarrow> [Event Frame (frame_payload t)]
          | DiscardingFrame \<Rightarrow> [Event OverlongProtocolFrame []]
          | _ \<Rightarrow> []))
      else
        (case line_state t of
           SeekingPrefix \<Rightarrow>
             (if b \<noteq> kFramePrefix ! prefix_match_length t then
                (t\<lparr>line_state := IgnoringLine\<rparr>, [])
              else
                (let t' = (push_frame_byte t b)
                            \<lparr>prefix_match_length := prefix_match_length t + 1\<rparr>
                 in (if prefix_match_length t' = kPrefixLength
                     then t'\<lparr>line_state := CollectingFrame\<rparr> else t', [])))
         | CollectingFrame \<Rightarrow>
             (if frame_length t < kMaxRequestLineBytes then (push_frame_byte t b, [])
              else (t\<lparr>line_state := DiscardingFrame\<rparr>, []))
         | IgnoringLine \<Rightarrow> (t, [])
         | DiscardingFrame \<Rightarrow> (t, [])))"

text \<open>The body of the loop of \<open>Transport::consume\<close>: withheld NUL bytes, fewer than four, are
  replayed to the line when another byte arrives; the fourth is a synchronisation token.\<close>

definition consume_byte :: "transport \<Rightarrow> u8 \<Rightarrow> transport \<times> event list" where
  "consume_byte t b =
     (if b = 0 then
        (if consecutive_zeros t < kTransportSyncLength then
           (let t' = t\<lparr>consecutive_zeros := consecutive_zeros t + 1\<rparr>
            in if consecutive_zeros t' = kTransportSyncLength
               then (reset_line t', [Event TransportSync []]) else (t', []))
         else (t, []))
      else
        (let (t1, e1) = (if consecutive_zeros t < kTransportSyncLength
                         then run_outputs consume_line_byte t (replicate (consecutive_zeros t) 0)
                         else (t, []));
             (t2, e2) = consume_line_byte (t1\<lparr>consecutive_zeros := 0\<rparr>) b
         in (t2, e1 @ e2)))"

definition consume :: "transport \<Rightarrow> u8 list option \<Rightarrow> transport \<times> event list" where
  "consume t data = (case data of None \<Rightarrow> (t, []) | Some bs \<Rightarrow> run_outputs consume_byte t bs)"

section \<open>Specification\<close>

text \<open>
  The specification of the stream: a line is everything up to a line feed. A line that starts
  with the prefix and fits in 512 bytes is a frame, whose payload is the rest of the line less
  one trailing carriage return; a longer one is reported as overlong; every other line is
  ignored. NUL bytes are withheld; the fourth in a row discards the line and is reported.
\<close>

definition strip_cr :: "u8 list \<Rightarrow> u8 list" where
  "strip_cr p = (if p \<noteq> [] \<and> last p = 13 then butlast p else p)"

definition classify_line :: "u8 list \<Rightarrow> event list" where
  "classify_line l =
     (if take kPrefixLength l \<noteq> kFramePrefix then []
      else if length l \<le> kMaxRequestLineBytes then [Event Frame (strip_cr (drop kPrefixLength l))]
      else [Event OverlongProtocolFrame []])"

fun spec_line_byte :: "u8 list \<Rightarrow> u8 \<Rightarrow> u8 list \<times> event list" where
  "spec_line_byte l b = (if b = 10 then ([], classify_line l) else (l @ [b], []))"

fun spec_byte :: "u8 list \<times> nat \<Rightarrow> u8 \<Rightarrow> (u8 list \<times> nat) \<times> event list" where
  "spec_byte (l, z) b =
     (if b = 0 then
        (if z = 3 then (([], 4), [Event TransportSync []])
         else if z < 3 then ((l, z + 1), []) else ((l, z), []))
      else (let l' = (if z < 4 then l @ replicate z 0 else l);
                (l'', es) = spec_line_byte l' b in ((l'', 0), es)))"

definition holds_line :: "transport \<Rightarrow> u8 list \<Rightarrow> bool" where
  "holds_line t l \<longleftrightarrow>
     length (frame t) = kFrameStorageBytes \<and>
     (case line_state t of
        SeekingPrefix \<Rightarrow> length l < kPrefixLength \<and> l = take (length l) kFramePrefix \<and>
          prefix_match_length t = length l \<and> frame_length t = length l \<and> take (length l) (frame t) = l
      | CollectingFrame \<Rightarrow> kPrefixLength \<le> length l \<and> length l \<le> kMaxRequestLineBytes \<and>
          take kPrefixLength l = kFramePrefix \<and>
          frame_length t = length l \<and> take (length l) (frame t) = l
      | IgnoringLine \<Rightarrow> take kPrefixLength l \<noteq> kFramePrefix \<and> (l \<noteq> take (length l) kFramePrefix)
      | DiscardingFrame \<Rightarrow> kMaxRequestLineBytes < length l \<and> take kPrefixLength l = kFramePrefix)"

text \<open>\<open>holds_line t l\<close>: the transport \<open>t\<close> stands for the unfinished line \<open>l\<close>.\<close>

lemmas framing_consts = kPrefixLength_def kMaxRequestLineBytes_def kFrameStorageBytes_def
  kTransportSyncLength_def

lemma length_kFramePrefix [simp]: "length kFramePrefix = 8"
  by (simp add: kFramePrefix_def)

lemma holds_line_reset: "length (frame t) = kFrameStorageBytes \<Longrightarrow> holds_line (reset_line t) []"
  by (simp add: holds_line_def reset_line_def framing_consts)

lemma take_push: "n < length xs \<Longrightarrow> take (Suc n) (xs[n := b]) = take n xs @ [b]"
  by (simp add: take_Suc_conv_app_nth)

lemma frame_payload_strip:
  assumes "kPrefixLength \<le> length l" "length l \<le> kMaxRequestLineBytes"
    and "frame_length t = length l" "take (length l) (frame t) = l"
    and "length (frame t) = kFrameStorageBytes"
  shows "frame_payload t = strip_cr (drop kPrefixLength l)"
proof -
  have nth: "frame t ! i = l ! i" if "i < length l" for i
    using assms(4) that nth_take [of i "length l" "frame t"] by simp
  have drop: "take (length l - 8) (drop 8 (frame t)) = drop 8 l"
    using assms(4) by (metis drop_take)
  have tk: "take (length l - 8 - 1) (drop 8 (frame t)) = butlast (drop 8 l)"
    using drop by (metis butlast_take diff_le_self length_drop take_all_iff butlast_conv_take take_take min.absorb1)
  show ?thesis
    using assms(1-3,5) nth [of "length l - 1"] drop tk
    by (auto simp: frame_payload_def strip_cr_def framing_consts Let_def last_conv_nth)
qed


lemma prefix_extend:
  assumes "length l < 8" "l = take (length l) kFramePrefix"
  shows "(l @ [b] = take (Suc (length l)) kFramePrefix) = (b = kFramePrefix ! length l)"
  using assms by (metis append_same_eq append1_eq_conv length_kFramePrefix take_Suc_conv_app_nth)

lemma short_line_not_prefix:
  assumes "length l < 8" and ne: "l @ [b] \<noteq> take (Suc (length l)) kFramePrefix"
  shows "take 8 (l @ [b]) \<noteq> kFramePrefix"
proof
  assume "take 8 (l @ [b]) = kFramePrefix"
  with assms(1) have eq: "l @ [b] = kFramePrefix" by simp
  then have "length (l @ [b]) = length kFramePrefix" by (rule arg_cong)
  then have "take (Suc (length l)) kFramePrefix = kFramePrefix" by simp
  with eq ne show False by simp
qed

lemma consume_line_byte_frame_length:
  "length (frame (fst (consume_line_byte t b))) =
     (if b = 10 then kFrameStorageBytes else length (frame t))"
  by (auto simp: consume_line_byte_def reset_line_def push_frame_byte_def Let_def split: line_state.splits)

lemma holds_line_step_event:
  assumes "holds_line t l"
  shows "snd (consume_line_byte t 10) = classify_line l"
proof (cases "line_state t")
  case CollectingFrame
  with assms have "frame_payload t = strip_cr (drop kPrefixLength l)"
    by (intro frame_payload_strip) (auto simp: holds_line_def)
  with assms CollectingFrame show ?thesis
    by (auto simp: consume_line_byte_def classify_line_def holds_line_def)
next
  case SeekingPrefix
  with assms have "take kPrefixLength l \<noteq> kFramePrefix"
    by (auto simp: holds_line_def framing_consts)
  with SeekingPrefix show ?thesis by (simp add: consume_line_byte_def classify_line_def)
qed (use assms in \<open>auto simp: consume_line_byte_def classify_line_def holds_line_def\<close>)

lemma holds_line_step_line:
  assumes "holds_line t l" and "b \<noteq> 10"
  shows "holds_line (fst (consume_line_byte t b)) (l @ [b]) \<and> snd (consume_line_byte t b) = []"
proof (cases "line_state t")
  case SeekingPrefix
  with assms have h: "length l < 8" "l = take (length l) kFramePrefix"
      "prefix_match_length t = length l" "frame_length t = length l" "take (length l) (frame t) = l"
      "length (frame t) = 513"
    by (auto simp: holds_line_def framing_consts)
  show ?thesis
  proof (cases "b = kFramePrefix ! length l")
    case True
    with h have "l @ [b] = take (Suc (length l)) kFramePrefix" by (simp add: prefix_extend)
    moreover have "take (Suc (length l)) ((frame t)[length l := b]) = l @ [b]"
      using h by (simp add: take_push)
    ultimately show ?thesis using h True SeekingPrefix assms(2)
      by (auto simp: consume_line_byte_def push_frame_byte_def holds_line_def framing_consts Let_def)
  next
    case False
    with h have ne: "l @ [b] \<noteq> take (Suc (length l)) kFramePrefix" by (simp add: prefix_extend)
    have "take 8 (l @ [b]) \<noteq> kFramePrefix" by (rule short_line_not_prefix [OF h(1) ne])
    with ne False h SeekingPrefix assms(2) show ?thesis
      by (auto simp: consume_line_byte_def holds_line_def framing_consts Let_def)
  qed
next
  case CollectingFrame
  with assms have h: "8 \<le> length l" "length l \<le> 512" "take 8 l = kFramePrefix"
      "frame_length t = length l" "take (length l) (frame t) = l" "length (frame t) = 513"
    by (auto simp: holds_line_def framing_consts)
  then have "take (Suc (length l)) ((frame t)[length l := b]) = l @ [b]"
    by (simp add: take_push)
  with h CollectingFrame assms(2) show ?thesis
    by (auto simp: consume_line_byte_def push_frame_byte_def holds_line_def framing_consts Let_def)
next
  case IgnoringLine
  with assms have h: "take 8 l \<noteq> kFramePrefix" "l \<noteq> take (length l) kFramePrefix"
    by (auto simp: holds_line_def framing_consts)
  have ne: "l @ [b] \<noteq> take (Suc (length l)) kFramePrefix"
    using h(2) by (metis append_eq_conv_conj append_take_drop_id take_take min.absorb1 le_SucI le_refl)
  have "take 8 (l @ [b]) \<noteq> kFramePrefix"
  proof (cases "length l < 8")
    case True
    then show ?thesis using ne by (rule short_line_not_prefix)
  qed (use h(1) in simp)
  with ne IgnoringLine assms(2) show ?thesis
    using assms(1) by (auto simp: consume_line_byte_def holds_line_def framing_consts)
next
  case DiscardingFrame
  with assms show ?thesis
    by (auto simp: consume_line_byte_def holds_line_def framing_consts)
qed

interpretation line_sim: simulation consume_line_byte spec_line_byte holds_line
proof
  fix t l b assume h: "holds_line t l"
  show "holds_line (fst (consume_line_byte t b)) (fst (spec_line_byte l b)) \<and>
        snd (consume_line_byte t b) = snd (spec_line_byte l b)"
  proof (cases "b = 10")
    case True
    have "holds_line (reset_line t) []"
      using h by (intro holds_line_reset) (simp add: holds_line_def)
    with True holds_line_step_event [OF h] show ?thesis by (simp add: consume_line_byte_def)
  next
    case False
    with holds_line_step_line [OF h] show ?thesis by simp
  qed
qed


lemma consume_line_byte_zeros [simp]:
  "consecutive_zeros (fst (consume_line_byte t b)) = consecutive_zeros t"
  by (auto simp: consume_line_byte_def reset_line_def push_frame_byte_def Let_def
      split: line_state.splits)

lemma holds_line_zeros [simp]: "holds_line (t\<lparr>consecutive_zeros := n\<rparr>) l = holds_line t l"
  by (cases "line_state t") (simp_all add: holds_line_def)

lemma run_spec_line_zeros:
  "run_outputs spec_line_byte l (replicate n 0) = (l @ replicate n 0, [])"
  by (induction n arbitrary: l) (auto simp: replicate_app_Cons_same)

definition holds_stream :: "transport \<Rightarrow> u8 list \<times> nat \<Rightarrow> bool" where
  "holds_stream t a \<longleftrightarrow> consecutive_zeros t = snd a \<and> snd a \<le> 4 \<and> holds_line t (fst a)"

interpretation stream_sim: simulation consume_byte spec_byte holds_stream
proof
  fix t a b assume h: "holds_stream t a"
  obtain l z where a: "a = (l, z)" by (cases a)
  from h a have z: "consecutive_zeros t = z" "z \<le> 4" and hl: "holds_line t l"
    by (auto simp: holds_stream_def)
  show "holds_stream (fst (consume_byte t b)) (fst (spec_byte a b)) \<and>
        snd (consume_byte t b) = snd (spec_byte a b)"
  proof (cases "b = 0")
    case True
    have "holds_line (reset_line t') []" if "frame t' = frame t" for t'
      using hl that by (intro holds_line_reset) (simp add: holds_line_def)
    with True z hl show ?thesis
      by (auto simp: a consume_byte_def holds_stream_def kTransportSyncLength_def reset_line_def)
  next
    case False
    define r where "r = (if z < 4 then run_outputs consume_line_byte t (replicate z 0) else (t, []))"
    define l' where "l' = (if z < 4 then l @ replicate z 0 else l)"
    have r: "holds_line (fst r) l' \<and> snd r = []"
      using line_sim.sim_run [OF hl, of "replicate z 0"] hl
      by (simp add: r_def l'_def run_spec_line_zeros)
    then have r': "holds_line ((fst r)\<lparr>consecutive_zeros := 0\<rparr>) l'" by simp
    have "consume_byte t b = consume_line_byte ((fst r)\<lparr>consecutive_zeros := 0\<rparr>) b"
      using False z(1) r
      by (cases "z < 4") (simp_all add: consume_byte_def r_def kTransportSyncLength_def
          case_prod_unfold Let_def)
    with line_sim.sim_step [OF r', of b] False show ?thesis
      by (simp add: a l'_def holds_stream_def case_prod_unfold Let_def del: spec_line_byte.simps)
  qed
qed

lemma holds_stream_init: "holds_stream transport_init ([], 0)"
  by (simp add: holds_stream_def holds_line_def transport_init_def framing_consts)

lemma consume_events:
  "snd (consume transport_init (Some bs)) = snd (run_outputs spec_byte ([], 0) bs)"
  by (simp add: consume_def stream_sim.sim_outputs [OF holds_stream_init])


section \<open>Memory safety and resynchronisation\<close>

definition transport_inv :: "transport \<Rightarrow> bool" where
  "transport_inv t \<longleftrightarrow>
     length (frame t) = kFrameStorageBytes \<and> frame_length t \<le> kMaxRequestLineBytes \<and>
     prefix_match_length t \<le> kPrefixLength \<and>
     (line_state t = SeekingPrefix \<longrightarrow>
        prefix_match_length t < kPrefixLength \<and> frame_length t = prefix_match_length t) \<and>
     consecutive_zeros t \<le> kTransportSyncLength \<and>
     (consecutive_zeros t = kTransportSyncLength \<longrightarrow>
        t = transport_init\<lparr>consecutive_zeros := kTransportSyncLength\<rparr>)"

lemma consume_line_byte_inv:
  assumes "transport_inv t" "consecutive_zeros t < kTransportSyncLength"
  shows "transport_inv (fst (consume_line_byte t b))"
  using assms
  by (auto simp: transport_inv_def consume_line_byte_def reset_line_def push_frame_byte_def
      framing_consts Let_def split: line_state.splits)

lemma replay_inv:
  assumes "transport_inv t" "consecutive_zeros t < kTransportSyncLength"
  shows "transport_inv (fst (run_outputs consume_line_byte t bs)) \<and>
     consecutive_zeros (fst (run_outputs consume_line_byte t bs)) = consecutive_zeros t"
  using assms
proof (induction bs arbitrary: t)
  case (Cons b bs)
  from Cons.IH [OF consume_line_byte_inv [OF Cons.prems, of b]] Cons.prems(2)
  show ?case by (simp add: case_prod_unfold Let_def)
qed simp

lemma reset_line_init:
  "(reset_line t)\<lparr>consecutive_zeros := n\<rparr> = transport_init\<lparr>consecutive_zeros := n\<rparr>"
  by (simp add: reset_line_def transport_init_def)

lemma reset_line_init_iff:
  "reset_line t = transport_init\<lparr>consecutive_zeros := consecutive_zeros t\<rparr>"
  by (simp add: reset_line_def transport_init_def)

lemma consume_zero:
  "fst (consume_byte t 0) =
     (if consecutive_zeros t < 3 then t\<lparr>consecutive_zeros := consecutive_zeros t + 1\<rparr>
      else if consecutive_zeros t = 3 then transport_init\<lparr>consecutive_zeros := 4\<rparr> else t)"
  by (simp add: consume_byte_def kTransportSyncLength_def Let_def reset_line_init_iff)

lemma consume_byte_inv: "transport_inv t \<Longrightarrow> transport_inv (fst (consume_byte t b))"
proof -
  assume inv: "transport_inv t"
  show ?thesis
  proof (cases "b = 0")
    case True
    have "transport_inv (t\<lparr>consecutive_zeros := consecutive_zeros t + 1\<rparr>)"
      if "consecutive_zeros t < 3"
      using inv that by (simp add: transport_inv_def kTransportSyncLength_def)
    moreover have "transport_inv (transport_init\<lparr>consecutive_zeros := 4\<rparr>)"
      by (simp add: transport_inv_def transport_init_def framing_consts)
    ultimately show ?thesis using inv by (simp add: True consume_zero)
  next
    case False
    define t1 where "t1 = (if consecutive_zeros t < kTransportSyncLength
        then fst (run_outputs consume_line_byte t (replicate (consecutive_zeros t) 0)) else t)"
    have "transport_inv t1" using inv replay_inv by (simp add: t1_def)
    then have "transport_inv (t1\<lparr>consecutive_zeros := 0\<rparr>)"
      by (auto simp: transport_inv_def framing_consts)
    from consume_line_byte_inv [OF this, of b] show ?thesis
      using False by (auto simp: consume_byte_def t1_def Let_def case_prod_unfold framing_consts)
  qed
qed

lemma transport_inv_init: "transport_inv transport_init"
  by (simp add: transport_inv_def transport_init_def framing_consts)

interpretation framing: machine "\<lambda>t b. fst (consume_byte t b)" transport_init transport_inv
  by unfold_locales (auto intro: transport_inv_init consume_byte_inv)

lemma run_outputs_state: "fst (run_outputs f s xs) = foldl (\<lambda>s x. fst (f s x)) s xs"
  by (induction xs arbitrary: s) (auto simp: case_prod_unfold Let_def)

lemma consume_state: "fst (consume t (Some bs)) = foldl (\<lambda>t b. fst (consume_byte t b)) t bs"
  by (simp add: consume_def run_outputs_state)

lemma consume_inv: "transport_inv (fst (consume transport_init (Some bs)))"
  by (simp add: consume_state framing.inv_reach)

lemma four_zeros:
  assumes inv: "transport_inv t"
  shows "fst (consume t (Some [0, 0, 0, 0])) = transport_init\<lparr>consecutive_zeros := 4\<rparr>"
proof (cases "consecutive_zeros t < 4")
  case True
  then have "consecutive_zeros t = 0 \<or> consecutive_zeros t = 1 \<or> consecutive_zeros t = 2 \<or>
      consecutive_zeros t = 3" by arith
  then show ?thesis
    by (elim disjE) (simp_all add: consume_state consume_zero)
next
  case False
  with inv have "consecutive_zeros t = 4"
    unfolding transport_inv_def kTransportSyncLength_def by linarith
  with inv have t: "t = transport_init\<lparr>consecutive_zeros := 4\<rparr>"
    unfolding transport_inv_def kTransportSyncLength_def by blast
  show ?thesis by (subst t) (simp add: consume_state consume_zero)
qed

lemma consume_append:
  "fst (consume t (Some (xs @ ys))) = fst (consume (fst (consume t (Some xs))) (Some ys))"
  by (simp add: consume_state)

text \<open>
  whatever was received before, four NUL bytes bring the framing layer to one
  fixed state with an all-zero buffer: no byte of an unfinished request survives, and the
  decoding of what follows does not depend on what came before.
\<close>

theorem transport_sync_clears:
  "fst (consume transport_init (Some (bs @ [0, 0, 0, 0])))
     = transport_init\<lparr>consecutive_zeros := kTransportSyncLength\<rparr>"
  by (simp add: consume_append four_zeros consume_inv kTransportSyncLength_def)

lemma spec_events:
  assumes "Event k p \<in> set (snd (run_outputs spec_byte a bs))"
  shows "length p \<le> kMaxRequestLineBytes - kPrefixLength"
  using assms
proof (induction bs arbitrary: a)
  case (Cons b bs)
  have st: "length p \<le> kMaxRequestLineBytes - kPrefixLength" if "Event k p \<in> set (snd (spec_byte a b))"
    using that by (cases a) (auto simp: classify_line_def strip_cr_def framing_consts Let_def split: if_splits)
  from Cons.prems have "Event k p \<in> set (snd (spec_byte a b)) \<or>
      Event k p \<in> set (snd (run_outputs spec_byte (fst (spec_byte a b)) bs))"
    by (auto simp: case_prod_unfold Let_def)
  with st Cons.IH show ?case by blast
qed simp


lemma spec_line:
  assumes "0 \<notin> set l" "10 \<notin> set l"
  shows "run_outputs spec_byte (l', 0) l = ((l' @ l, 0), [])"
  using assms by (induction l arbitrary: l') auto

text \<open>
  a stream of complete lines (with no NUL and no line feed inside a line) is decoded
  line by line: a prefixed line of at most 512 bytes yields one frame with the rest of the line
  less one carriage return, a longer one yields one overlong event, every other line nothing.
\<close>

theorem framing_lines:
  assumes "\<forall>l \<in> set ls. 0 \<notin> set l \<and> 10 \<notin> set l"
  shows "snd (consume transport_init (Some (concat (map (\<lambda>l. l @ [10]) ls))))
     = concat (map classify_line ls)"
proof -
  have "run_outputs spec_byte ([], 0) (concat (map (\<lambda>l. l @ [10]) ls))
      = (([], 0), concat (map classify_line ls))"
    using assms
    by (induction ls) (auto simp: run_outputs_append spec_line Let_def case_prod_unfold)
  then show ?thesis by (simp add: consume_events)
qed

text \<open>
  C19: for every byte stream the framing layer reports exactly the events of the line
  specification, although it keeps only a bounded buffer of the current line and withholds NUL
  bytes: the prefix automaton, the 512-byte cut-off and the replay of short NUL runs lose
  nothing and invent nothing.
\<close>

theorem consume_refines_spec:
  "snd (consume transport_init (Some bs)) = snd (run_outputs spec_byte ([], 0) bs)"
  by (rule consume_events)

theorem framing_lines_witness:
  "snd (consume transport_init (Some (concat (map (\<lambda>l. l @ [10])
     [kFramePrefix @ [123, 125, 13], [72, 105], kFramePrefix @ replicate 505 64]))))
   = [Event Frame [123, 125], Event OverlongProtocolFrame []]"
proof -
  have "snd (consume transport_init (Some (concat (map (\<lambda>l. l @ [10])
      [kFramePrefix @ [123, 125, 13], [72, 105], kFramePrefix @ replicate 505 64]))))
    = concat (map classify_line
        [kFramePrefix @ [123, 125, 13], [72, 105], kFramePrefix @ replicate 505 64])"
    by (rule framing_lines) (simp add: kFramePrefix_def)
  also have "\<dots> = [Event Frame [123, 125], Event OverlongProtocolFrame []]"
    by (simp add: classify_line_def strip_cr_def framing_consts) (simp add: kFramePrefix_def)
  finally show ?thesis .
qed


end
