(* ===== verification/HidCapability.thy ===== *)
theory HidCapability
  imports Prelude
begin

text \<open>
  \<open>firmware/components/hid_capability\<close>: report roles, role masks and the table that maps
  each role to its GATT attribute handle. \<open>ReportHandles::values\<close> is a list of three
  handles indexed by the role.
\<close>

section \<open>Roles and masks\<close>

datatype report_role = RoleKeyboardInput | RoleMouseInput | RoleLedOutput

type_synonym report_mask = u8

definition kReportRoleCount :: nat where
  "kReportRoleCount = 3"

fun role_index :: "report_role \<Rightarrow> nat" where
  "role_index RoleKeyboardInput = 0"
| "role_index RoleMouseInput = 1"
| "role_index RoleLedOutput = 2"

definition report_bit :: "report_role \<Rightarrow> report_mask" where
  "report_bit r = push_bit (role_index r) 1"

definition kKeyboardInput :: report_mask where
  "kKeyboardInput = report_bit RoleKeyboardInput"

definition kMouseInput :: report_mask where
  "kMouseInput = report_bit RoleMouseInput"

definition kInputRoles :: report_mask where
  "kInputRoles = kKeyboardInput OR kMouseInput"

definition kKnownRoles :: report_mask where
  "kKnownRoles = kInputRoles OR report_bit RoleLedOutput"

definition is_subset :: "report_mask \<Rightarrow> report_mask \<Rightarrow> bool" where
  "is_subset subset_roles superset_roles \<longleftrightarrow>
     subset_roles AND superset_roles = subset_roles"

definition has_role :: "report_mask \<Rightarrow> report_role \<Rightarrow> bool" where
  "has_role roles r \<longleftrightarrow> roles AND report_bit r \<noteq> 0"

section \<open>Handles\<close>

type_synonym report_handles = "u16 list"

definition no_handles :: report_handles where
  "no_handles = [0, 0, 0]"

definition handle_get :: "report_handles \<Rightarrow> report_role \<Rightarrow> u16" where
  "handle_get h r = h ! role_index r"

definition handle_set :: "report_handles \<Rightarrow> report_role \<Rightarrow> u16 \<Rightarrow> report_handles" where
  "handle_set h r v = h[role_index r := v]"

text \<open>The body of the loop of \<open>valid_handles\<close> at one index; \<open>False\<close> is its \<open>return false\<close>.\<close>

definition valid_handle_at :: "report_mask \<Rightarrow> report_handles \<Rightarrow> nat \<Rightarrow> bool" where
  "valid_handle_at present h i =
     (let p = (present AND push_bit i 1 \<noteq> 0) in
      if p \<noteq> (h ! i \<noteq> 0) then False
      else if \<not> p then True
      else \<not> list_ex (\<lambda>j. h ! j = h ! i) [0..<i])"

definition valid_handles :: "report_mask \<Rightarrow> report_handles \<Rightarrow> bool" where
  "valid_handles present h =
     (if present AND NOT kKnownRoles \<noteq> 0 then False
      else list_all (valid_handle_at present h) [0..<kReportRoleCount])"

definition input_route_definition_valid ::
    "report_mask \<Rightarrow> report_mask \<Rightarrow> report_handles \<Rightarrow> bool" where
  "input_route_definition_valid present required h \<longleftrightarrow>
     present \<noteq> 0 \<and> is_subset present kInputRoles \<and> is_subset required present \<and>
     valid_handles present h"

definition input_route_ready :: "report_mask \<Rightarrow> report_mask \<Rightarrow> report_mask \<Rightarrow> bool" where
  "input_route_ready present required ready \<longleftrightarrow>
     present \<noteq> 0 \<and> is_subset present kInputRoles \<and> is_subset required present \<and>
     is_subset required ready"

section \<open>Facts\<close>

lemmas role_mask_defs = kKeyboardInput_def kMouseInput_def kInputRoles_def kKnownRoles_def
  report_bit_def

lemma is_subset_bits: "is_subset a b \<longleftrightarrow> (\<forall>n. bit a n \<longrightarrow> bit b n)"
  by (auto simp: is_subset_def word_eq_bits bit_and_iff)

lemma is_subset_refl [simp]: "is_subset a a"
  by (simp add: is_subset_def)

lemma is_subset_trans: "is_subset a b \<Longrightarrow> is_subset b c \<Longrightarrow> is_subset a c"
  by (simp add: is_subset_bits)

lemma has_role_bit: "has_role m r = bit m (role_index r)"
  by (cases r) (simp_all add: has_role_def report_bit_def flag_tests)

lemma is_subset_has_role: "is_subset a b \<Longrightarrow> has_role a r \<Longrightarrow> has_role b r"
  by (simp add: is_subset_bits has_role_bit)

lemma input_roles_not_led: "is_subset m kInputRoles \<Longrightarrow> \<not> has_role m RoleLedOutput"
  by (auto simp: is_subset_bits has_role_bit role_mask_defs bit_or_iff bit_simps)

lemma valid_handle_at_role:
  "valid_handle_at p h (role_index r) \<longleftrightarrow>
     (has_role p r \<longleftrightarrow> handle_get h r \<noteq> 0) \<and>
     (has_role p r \<longrightarrow> (\<forall>j < role_index r. h ! j \<noteq> handle_get h r))"
  by (auto simp: valid_handle_at_def handle_get_def has_role_def report_bit_def list_ex_iff Let_def)

lemma valid_handles_roles:
  "valid_handles p h \<longleftrightarrow>
     is_subset p kKnownRoles \<and>
     (\<forall>r. has_role p r \<longleftrightarrow> handle_get h r \<noteq> 0) \<and>
     (\<forall>r r'. has_role p r \<longrightarrow> has_role p r' \<longrightarrow> handle_get h r = handle_get h r' \<longrightarrow> r = r')"
    (is "?L = ?R")
proof -
  have known: "(p AND NOT kKnownRoles = 0) = is_subset p kKnownRoles"
  proof -
    have b: "n < 8" if "bit p n" for n using bit_imp_le_length [OF that] by simp
    show ?thesis by (auto simp: is_subset_bits word_eq_bits bit_and_iff bit_not_iff dest: b)
  qed
  have ix: "list_all P [0..<kReportRoleCount] \<longleftrightarrow> (\<forall>r. P (role_index r))" for P
  proof -
    have "list_all P [0..<kReportRoleCount] \<longleftrightarrow> P 0 \<and> P 1 \<and> P 2"
      by (auto simp: kReportRoleCount_def upt_rec numeral_3_eq_3 eval_nat_numeral)
    also have "\<dots> \<longleftrightarrow> (\<forall>r. P (role_index r))"
      by (metis role_index.simps report_role.exhaust)
    finally show ?thesis .
  qed
  have "?L \<longleftrightarrow> is_subset p kKnownRoles \<and> (\<forall>r. valid_handle_at p h (role_index r))"
    by (simp add: valid_handles_def known ix)
  also have "\<dots> \<longleftrightarrow> ?R"
  proof (intro conj_cong refl iffI)
    assume v: "\<forall>r. valid_handle_at p h (role_index r)"
    have v1: "h ! j \<noteq> handle_get h r" if "has_role p r" "j < role_index r" for r j
      using v that by (simp add: valid_handle_at_role)
    have "r = r'" if "has_role p r" "has_role p r'" "handle_get h r = handle_get h r'" for r r'
      using that v1 [of r' "role_index r"] v1 [of r "role_index r'"]
      by (cases r; cases r') (auto simp: handle_get_def)
    with v show "(\<forall>r. has_role p r = (handle_get h r \<noteq> 0)) \<and>
      (\<forall>r r'. has_role p r \<longrightarrow> has_role p r' \<longrightarrow> handle_get h r = handle_get h r' \<longrightarrow> r = r')"
      by (auto simp: valid_handle_at_role)
  next
    assume v: "(\<forall>r. has_role p r = (handle_get h r \<noteq> 0)) \<and>
      (\<forall>r r'. has_role p r \<longrightarrow> has_role p r' \<longrightarrow> handle_get h r = handle_get h r' \<longrightarrow> r = r')"
    have "h ! j \<noteq> handle_get h r" if hr: "has_role p r" and j: "j < role_index r" for r j
    proof -
      from j obtain r' where r': "role_index r' = j" "r' \<noteq> r"
        by (cases r) (auto simp: less_2_cases_iff
            dest: meta_spec [of _ RoleKeyboardInput] meta_spec [of _ RoleMouseInput])
      with v hr show ?thesis by (metis handle_get_def)
    qed
    with v show "\<forall>r. valid_handle_at p h (role_index r)" by (auto simp: valid_handle_at_role)
  qed
  finally show ?thesis .
qed

end
