(* ===== verification/FixtureProfile.thy ===== *)
theory FixtureProfile
  imports HidCapability
begin

text \<open>
  \<open>firmware/components/ble_fixture_profile\<close>: the catalogue of the eight BLE HID profiles. A
  profile record has the fields of \<open>ProfileDefinition\<close>; the constants built by a lambda
  that copies another profile and assigns some fields are record updates. Views of arrays
  are lists, \<open>const ProfileDefinition *\<close> results are options.

  The catalogue is then checked against what its users rely on: the profile and bond
  namespaces, the roles and their reports, and the HID report descriptors, whose declared
  field sizes are recomputed by a reader of HID short items.
\<close>

section \<open>Enumerations\<close>

datatype profile_id =
    PidStrictComposite | PidStandaloneMouseJustWorks | PidStandaloneKeyboard
    | PidStandaloneMouseJustWorksId7 | PidStandaloneKeyboardLeds | PidMouseMetadata
    | PidMouseSimulatedSleepV1 | PidMouseHostInitiatedSecurity

datatype bond_class =
    BondStrictComposite | BondStandaloneMouseJustWorks | BondStandaloneKeyboard
    | BondStandaloneMouseJustWorksId7 | BondStandaloneKeyboardLeds | BondMouseMetadata
    | BondMouseSimulatedSleepV1 | BondMouseHostInitiatedSecurity

datatype topology_id =
    TopologyStrictComposite | TopologyMouseOnly | TopologyKeyboardOnly
    | TopologyKeyboardWithLeds | TopologyMouseWithMetadata

datatype gatt_template_id =
    TemplateStrictComposite | TemplateMouseOnly | TemplateKeyboardOnly
    | TemplateKeyboardWithLeds | TemplateMouseWithMetadata

datatype gatt_layout_id =
    LayoutStrictRevision1 | LayoutMouseRevision2 | LayoutKeyboardRevision3
    | LayoutMouseId7Revision4 | LayoutKeyboardLedsRevision5 | LayoutMouseMetadataRevision6
    | LayoutMouseSimulatedSleepRevision7 | LayoutMouseHostSecurityRevision8

datatype cache_policy_id =
    CacheStrictRevision1 | CacheMouseRevision2 | CacheKeyboardRevision3
    | CacheMouseId7Revision4 | CacheKeyboardLedsRevision5 | CacheMouseMetadataRevision6
    | CacheMouseSimulatedSleepRevision7 | CacheMouseHostSecurityRevision8

datatype logical_identity_class = SharedFixture

datatype smp_policy_id = AuthenticatedKeyboardOnly | SmpNoInputNoOutput

datatype security_policy_id = AuthenticatedBonded | UnauthenticatedBonded

datatype attribute_policy_id = AttributeAuthenticated | AttributeEncrypted

datatype security_initiation = PeripheralImmediate | HostOnly

datatype advertising_behavior = ContinuousAdvertising | SimulatedSleepV1Advertising

datatype report_type = ReportInput | ReportOutput

datatype io_capability = KeyboardOnly | NoInputNoOutput

text \<open>\<open>KeyDistribution\<close> is a flag set: its values are combined with \<open>|\<close>.\<close>

type_synonym key_distribution = u8

definition kKeyEncryption :: key_distribution where "kKeyEncryption = 1"

definition kKeyIdentity :: key_distribution where "kKeyIdentity = 2"

definition has_key_distribution :: "key_distribution \<Rightarrow> key_distribution \<Rightarrow> bool" where
  "has_key_distribution value required \<longleftrightarrow> value AND required \<noteq> 0"

fun report_type_code :: "report_type \<Rightarrow> u8" where
  "report_type_code ReportInput = 1"
| "report_type_code ReportOutput = 2"

section \<open>Records\<close>

record advertising_policy =
  adv_behavior :: advertising_behavior
  fast_interval_units :: u16
  slow_interval_units :: u16
  fast_timeout_ms :: u32
  slow_timeout_ms :: u32

record report_definition =
  rep_role :: report_role
  rep_type :: report_type
  report_id :: u8
  value_size :: nat
  report_reference :: "u8 list"
  neutral_value :: "u8 list"

record smp_policy =
  smp_id :: smp_policy_id
  smp_io_capability :: io_capability
  smp_bonding :: bool
  smp_mitm :: bool
  smp_secure_connections :: bool
  smp_secure_connections_only :: bool
  security_level :: u8
  our_key_distribution :: key_distribution
  peer_key_distribution :: key_distribution

record security_outcome_policy =
  pol_id :: security_policy_id
  pol_encrypted :: bool
  pol_authenticated :: bool
  pol_bonded :: bool
  pol_persisted_bond :: bool
  pol_identity_resolved :: bool
  pol_secure_connections_required :: bool
  pol_key_size :: u8

record attribute_policy =
  att_id :: attribute_policy_id
  att_authenticated :: bool
  att_key_size :: u8

record cache_policy =
  cache_id :: cache_policy_id
  schema_revision :: u8
  schema_epoch_value :: "u8 list"

record gatt_layout =
  gl_id :: gatt_layout_id
  gl_gatt_service_start :: u16
  gl_legacy_hid_service_start :: u16
  gl_legacy_report_map_value :: u16
  gl_legacy_keyboard_value :: u16
  gl_legacy_mouse_value :: u16
  gl_epoch_attribute_count :: u16
  gl_epoch_service_start :: u16
  gl_epoch_service_end :: u16
  gl_hid_service_start :: u16
  gl_report_map_value :: u16
  gl_control_point_value :: u16
  gl_keyboard_value :: u16
  gl_mouse_value :: u16
  gl_hid_last_attribute :: u16
  gl_led_output_value :: u16
  gl_battery_service_start :: u16
  gl_battery_value :: u16
  gl_information_service_start :: u16
  gl_manufacturer_value :: u16
  gl_model_value :: u16
  gl_pnp_value :: u16

record synthetic_metadata =
  battery_level :: u8
  manufacturer :: string
  model :: string
  pnp :: "u8 list"

record profile_definition =
  prof_id :: profile_id
  prof_name :: string
  prof_bond_class :: bond_class
  identity_class :: logical_identity_class
  revision :: u16
  topology :: topology_id
  gatt_template :: gatt_template_id
  layout :: gatt_layout
  reports :: "report_definition list"
  supported_reports :: report_mask
  required_input_subscriptions :: report_mask
  report_map :: "u8 list"
  report_map_sha256 :: "u8 list"
  hid_information :: "u8 list"
  smp :: smp_policy
  prof_security :: security_outcome_policy
  attributes :: attribute_policy
  cache :: cache_policy
  advertising :: advertising_policy
  prof_initiation :: security_initiation
  metadata :: "synthetic_metadata option"

section \<open>Constant data\<close>

definition kStrictHidInformation :: "u8 list" where
  "kStrictHidInformation =
    [0x11, 0x01, 0x00, 0x00]"

definition kStrictNeutralKeyboard :: "u8 list" where
  "kStrictNeutralKeyboard =
    [0, 0, 0, 0, 0, 0, 0, 0]"

definition kStrictNeutralMouse :: "u8 list" where
  "kStrictNeutralMouse =
    [0, 0, 0, 0, 0]"

definition kStrictReportMap :: "u8 list" where
  "kStrictReportMap =
    [0x05, 0x01, 0x09, 0x06, 0xa1, 0x01, 0x85, 0x01, 0x05, 0x07, 0x19, 0xe0, 0x29, 0xe7,
     0x15, 0x00, 0x25, 0x01, 0x75, 0x01, 0x95, 0x08, 0x81, 0x02, 0x95, 0x01, 0x75, 0x08,
     0x81, 0x01, 0x95, 0x06, 0x75, 0x08, 0x15, 0x00, 0x26, 0xff, 0x00, 0x19, 0x00, 0x2a,
     0xff, 0x00, 0x81, 0x00, 0xc0, 0x05, 0x01, 0x09, 0x02, 0xa1, 0x01, 0x85, 0x02, 0x09,
     0x01, 0xa1, 0x00, 0x05, 0x09, 0x19, 0x01, 0x29, 0x05, 0x15, 0x00, 0x25, 0x01, 0x95,
     0x05, 0x75, 0x01, 0x81, 0x02, 0x95, 0x01, 0x75, 0x03, 0x81, 0x01, 0x05, 0x01, 0x09,
     0x30, 0x09, 0x31, 0x09, 0x38, 0x15, 0x81, 0x25, 0x7f, 0x75, 0x08, 0x95, 0x03, 0x81,
     0x06, 0x05, 0x0c, 0x0a, 0x38, 0x02, 0x15, 0x81, 0x25, 0x7f, 0x75, 0x08, 0x95, 0x01,
     0x81, 0x06, 0xc0, 0xc0]"

definition kStrictReportMapSha256 :: "u8 list" where
  "kStrictReportMapSha256 =
    [0xef, 0x1b, 0xe4, 0x5d, 0x8f, 0xe7, 0xd0, 0x63, 0x75, 0x68, 0xc8, 0x95, 0x4b, 0x64,
     0xba, 0xb9, 0x71, 0xd5, 0xb5, 0xf5, 0x7b, 0xf3, 0xd4, 0x4f, 0x1c, 0xc0, 0x40, 0xe8,
     0xfe, 0x5c, 0x3d, 0x32]"

definition kMouseReportMap :: "u8 list" where
  "kMouseReportMap =
    [0x05, 0x01, 0x09, 0x02, 0xa1, 0x01, 0x85, 0x02, 0x09, 0x01, 0xa1, 0x00, 0x05, 0x09,
     0x19, 0x01, 0x29, 0x05, 0x15, 0x00, 0x25, 0x01, 0x95, 0x05, 0x75, 0x01, 0x81, 0x02,
     0x95, 0x01, 0x75, 0x03, 0x81, 0x01, 0x05, 0x01, 0x09, 0x30, 0x09, 0x31, 0x09, 0x38,
     0x15, 0x81, 0x25, 0x7f, 0x75, 0x08, 0x95, 0x03, 0x81, 0x06, 0x05, 0x0c, 0x0a, 0x38,
     0x02, 0x15, 0x81, 0x25, 0x7f, 0x75, 0x08, 0x95, 0x01, 0x81, 0x06, 0xc0, 0xc0]"

definition kMouseReportMapSha256 :: "u8 list" where
  "kMouseReportMapSha256 =
    [0xc2, 0xfb, 0x16, 0x5f, 0xfe, 0x3f, 0x84, 0xfc, 0x41, 0x60, 0xb0, 0x13, 0xe1, 0x59,
     0x14, 0xdf, 0xfb, 0xde, 0xcb, 0xc3, 0x30, 0xc3, 0xc3, 0x15, 0x05, 0x1d, 0xc6, 0x92,
     0x22, 0x62, 0xe9, 0x24]"

definition kKeyboardReportMap :: "u8 list" where
  "kKeyboardReportMap =
    [0x05, 0x01, 0x09, 0x06, 0xa1, 0x01, 0x85, 0x01, 0x05, 0x07, 0x19, 0xe0, 0x29, 0xe7,
     0x15, 0x00, 0x25, 0x01, 0x75, 0x01, 0x95, 0x08, 0x81, 0x02, 0x95, 0x01, 0x75, 0x08,
     0x81, 0x01, 0x95, 0x06, 0x75, 0x08, 0x15, 0x00, 0x26, 0xff, 0x00, 0x19, 0x00, 0x2a,
     0xff, 0x00, 0x81, 0x00, 0xc0]"

definition kKeyboardReportMapSha256 :: "u8 list" where
  "kKeyboardReportMapSha256 =
    [0xd5, 0x6a, 0x8a, 0xa0, 0xef, 0xc3, 0xf4, 0x12, 0x6a, 0x0a, 0xea, 0x1d, 0xf4, 0xc6,
     0xf6, 0xf1, 0xb5, 0xbc, 0x1d, 0x62, 0x4a, 0x71, 0x01, 0x59, 0xc3, 0x4b, 0x1c, 0xdb,
     0x02, 0xbc, 0x45, 0xae]"

definition kMouseId7ReportMap :: "u8 list" where
  "kMouseId7ReportMap =
    [0x05, 0x01, 0x09, 0x02, 0xa1, 0x01, 0x85, 0x07, 0x09, 0x01, 0xa1, 0x00, 0x05, 0x09,
     0x19, 0x01, 0x29, 0x05, 0x15, 0x00, 0x25, 0x01, 0x95, 0x05, 0x75, 0x01, 0x81, 0x02,
     0x95, 0x01, 0x75, 0x03, 0x81, 0x01, 0x05, 0x01, 0x09, 0x30, 0x09, 0x31, 0x09, 0x38,
     0x15, 0x81, 0x25, 0x7f, 0x75, 0x08, 0x95, 0x03, 0x81, 0x06, 0x05, 0x0c, 0x0a, 0x38,
     0x02, 0x15, 0x81, 0x25, 0x7f, 0x75, 0x08, 0x95, 0x01, 0x81, 0x06, 0xc0, 0xc0]"

definition kMouseId7ReportMapSha256 :: "u8 list" where
  "kMouseId7ReportMapSha256 =
    [0x7e, 0x06, 0xb7, 0x73, 0xbb, 0x36, 0xde, 0xa8, 0x3e, 0x1f, 0x0f, 0x76, 0xd9, 0xb4,
     0x9c, 0x46, 0x25, 0x6d, 0x1a, 0x21, 0xd7, 0x01, 0x83, 0x15, 0x4c, 0xa4, 0x18, 0x6e,
     0x61, 0x0e, 0xf6, 0x28]"

definition kKeyboardLedsReportMap :: "u8 list" where
  "kKeyboardLedsReportMap =
    [0x05, 0x01, 0x09, 0x06, 0xa1, 0x01, 0x85, 0x01, 0x05, 0x07, 0x19, 0xe0, 0x29, 0xe7,
     0x15, 0x00, 0x25, 0x01, 0x75, 0x01, 0x95, 0x08, 0x81, 0x02, 0x95, 0x01, 0x75, 0x08,
     0x81, 0x01, 0x95, 0x06, 0x75, 0x08, 0x15, 0x00, 0x26, 0xff, 0x00, 0x19, 0x00, 0x2a,
     0xff, 0x00, 0x81, 0x00, 0x95, 0x05, 0x75, 0x01, 0x05, 0x08, 0x19, 0x01, 0x29, 0x05,
     0x15, 0x00, 0x25, 0x01, 0x91, 0x02, 0x95, 0x01, 0x75, 0x03, 0x91, 0x01, 0xc0]"

definition kKeyboardLedsReportMapSha256 :: "u8 list" where
  "kKeyboardLedsReportMapSha256 =
    [0xbc, 0x08, 0xd7, 0x9c, 0xc4, 0x59, 0x91, 0x44, 0x6b, 0x3f, 0x46, 0xb3, 0x7b, 0x23,
     0xe6, 0xc8, 0x2a, 0x86, 0xa3, 0xad, 0x94, 0x50, 0xf1, 0xfe, 0x68, 0x0e, 0x4e, 0x11,
     0x34, 0xfd, 0x50, 0x4d]"

definition kNeutralLeds :: "u8 list" where
  "kNeutralLeds =
    [0]"

section \<open>Report definitions\<close>

definition keyboard_input_report :: report_definition where
  "keyboard_input_report = \<lparr>rep_role = RoleKeyboardInput, rep_type = ReportInput, report_id = 1,
     value_size = 8, report_reference = [1, 1], neutral_value = kStrictNeutralKeyboard\<rparr>"

definition mouse_input_report :: report_definition where
  "mouse_input_report = \<lparr>rep_role = RoleMouseInput, rep_type = ReportInput, report_id = 2,
     value_size = 5, report_reference = [2, 1], neutral_value = kStrictNeutralMouse\<rparr>"

definition kStrictReports :: "report_definition list" where
  "kStrictReports = [keyboard_input_report, mouse_input_report]"

definition kMouseReports :: "report_definition list" where
  "kMouseReports = [mouse_input_report]"

definition kKeyboardReports :: "report_definition list" where
  "kKeyboardReports = [keyboard_input_report]"

definition kMouseId7Reports :: "report_definition list" where
  "kMouseId7Reports =
     [\<lparr>rep_role = RoleMouseInput, rep_type = ReportInput, report_id = 7, value_size = 5,
       report_reference = [7, 1], neutral_value = kStrictNeutralMouse\<rparr>]"

definition kKeyboardLedsReports :: "report_definition list" where
  "kKeyboardLedsReports =
     [keyboard_input_report,
      \<lparr>rep_role = RoleLedOutput, rep_type = ReportOutput, report_id = 1, value_size = 1,
       report_reference = [1, 2], neutral_value = kNeutralLeds\<rparr>]"

section \<open>Profiles\<close>

definition default_advertising :: advertising_policy where
  "default_advertising = \<lparr>adv_behavior = ContinuousAdvertising, fast_interval_units = 64,
     slow_interval_units = 800, fast_timeout_ms = 0, slow_timeout_ms = 0\<rparr>"

definition kStrictComposite :: profile_definition where
  "kStrictComposite = \<lparr>
     prof_id = PidStrictComposite,
     prof_name = ''strict_composite'',
     prof_bond_class = BondStrictComposite,
     identity_class = SharedFixture,
     revision = 1,
     topology = TopologyStrictComposite,
     gatt_template = TemplateStrictComposite,
     layout = \<lparr>
       gl_id = LayoutStrictRevision1,
       gl_gatt_service_start = 0x0006,
       gl_legacy_hid_service_start = 0x000e,
       gl_legacy_report_map_value = 0x0012,
       gl_legacy_keyboard_value = 0x0016,
       gl_legacy_mouse_value = 0x001a,
       gl_epoch_attribute_count = 3,
       gl_epoch_service_start = 0x000e,
       gl_epoch_service_end = 0x0010,
       gl_hid_service_start = 0x0011,
       gl_report_map_value = 0x0015,
       gl_control_point_value = 0x0017,
       gl_keyboard_value = 0x0019,
       gl_mouse_value = 0x001d,
       gl_hid_last_attribute = 0x001f,
       gl_led_output_value = 0,
       gl_battery_service_start = 0,
       gl_battery_value = 0,
       gl_information_service_start = 0,
       gl_manufacturer_value = 0,
       gl_model_value = 0,
       gl_pnp_value = 0\<rparr>,
     reports = kStrictReports,
     supported_reports = report_bit RoleKeyboardInput OR report_bit RoleMouseInput,
     required_input_subscriptions = report_bit RoleKeyboardInput OR report_bit RoleMouseInput,
     report_map = kStrictReportMap,
     report_map_sha256 = kStrictReportMapSha256,
     hid_information = kStrictHidInformation,
     smp = \<lparr>smp_id = AuthenticatedKeyboardOnly, smp_io_capability = KeyboardOnly,
       smp_bonding = True, smp_mitm = True, smp_secure_connections = True,
       smp_secure_connections_only = False, security_level = 3,
       our_key_distribution = kKeyEncryption,
       peer_key_distribution = kKeyEncryption OR kKeyIdentity\<rparr>,
     prof_security = \<lparr>pol_id = AuthenticatedBonded, pol_encrypted = True,
       pol_authenticated = True, pol_bonded = True, pol_persisted_bond = True,
       pol_identity_resolved = True, pol_secure_connections_required = False,
       pol_key_size = 16\<rparr>,
     attributes = \<lparr>att_id = AttributeAuthenticated, att_authenticated = True, att_key_size = 16\<rparr>,
     cache = \<lparr>cache_id = CacheStrictRevision1, schema_revision = 1, schema_epoch_value = [1]\<rparr>,
     advertising = default_advertising,
     prof_initiation = PeripheralImmediate,
     metadata = None\<rparr>"

text \<open>The three assignments every derived profile makes to its cache policy.\<close>

definition with_cache :: "cache_policy_id \<Rightarrow> u8 \<Rightarrow> profile_definition \<Rightarrow> profile_definition" where
  "with_cache c n p =
     p\<lparr>cache := \<lparr>cache_id = c, schema_revision = n, schema_epoch_value = [n]\<rparr>\<rparr>"

definition kStandaloneMouseJustWorks :: profile_definition where
  "kStandaloneMouseJustWorks =
     with_cache CacheMouseRevision2 2
     (kStrictComposite\<lparr>
       prof_id := PidStandaloneMouseJustWorks,
       prof_name := ''standalone_mouse_just_works'',
       prof_bond_class := BondStandaloneMouseJustWorks,
       topology := TopologyMouseOnly,
       gatt_template := TemplateMouseOnly,
       layout := (layout kStrictComposite)\<lparr>gl_id := LayoutMouseRevision2,
         gl_keyboard_value := 0, gl_mouse_value := 0x0019, gl_hid_last_attribute := 0x001b\<rparr>,
       reports := kMouseReports,
       supported_reports := report_bit RoleMouseInput,
       required_input_subscriptions := report_bit RoleMouseInput,
       report_map := kMouseReportMap,
       report_map_sha256 := kMouseReportMapSha256,
       smp := (smp kStrictComposite)\<lparr>smp_id := SmpNoInputNoOutput,
         smp_io_capability := NoInputNoOutput, smp_mitm := False, security_level := 2\<rparr>,
       prof_security := (prof_security kStrictComposite)\<lparr>pol_id := UnauthenticatedBonded,
         pol_authenticated := False\<rparr>,
       attributes := (attributes kStrictComposite)\<lparr>att_id := AttributeEncrypted,
         att_authenticated := False\<rparr>\<rparr>)"

definition kStandaloneKeyboard :: profile_definition where
  "kStandaloneKeyboard =
     with_cache CacheKeyboardRevision3 3
     (kStrictComposite\<lparr>
       prof_id := PidStandaloneKeyboard,
       prof_name := ''standalone_keyboard'',
       prof_bond_class := BondStandaloneKeyboard,
       topology := TopologyKeyboardOnly,
       gatt_template := TemplateKeyboardOnly,
       layout := (layout kStrictComposite)\<lparr>gl_id := LayoutKeyboardRevision3,
         gl_mouse_value := 0, gl_hid_last_attribute := 0x001b\<rparr>,
       reports := kKeyboardReports,
       supported_reports := report_bit RoleKeyboardInput,
       required_input_subscriptions := report_bit RoleKeyboardInput,
       report_map := kKeyboardReportMap,
       report_map_sha256 := kKeyboardReportMapSha256\<rparr>)"

definition kStandaloneMouseJustWorksId7 :: profile_definition where
  "kStandaloneMouseJustWorksId7 =
     with_cache CacheMouseId7Revision4 4
     (kStandaloneMouseJustWorks\<lparr>
       prof_id := PidStandaloneMouseJustWorksId7,
       prof_name := ''standalone_mouse_just_works_id7'',
       prof_bond_class := BondStandaloneMouseJustWorksId7,
       layout := (layout kStandaloneMouseJustWorks)\<lparr>gl_id := LayoutMouseId7Revision4\<rparr>,
       reports := kMouseId7Reports,
       report_map := kMouseId7ReportMap,
       report_map_sha256 := kMouseId7ReportMapSha256\<rparr>)"

definition kStandaloneKeyboardLeds :: profile_definition where
  "kStandaloneKeyboardLeds =
     with_cache CacheKeyboardLedsRevision5 5
     (kStandaloneKeyboard\<lparr>
       prof_id := PidStandaloneKeyboardLeds,
       prof_name := ''standalone_keyboard_leds'',
       prof_bond_class := BondStandaloneKeyboardLeds,
       topology := TopologyKeyboardWithLeds,
       gatt_template := TemplateKeyboardWithLeds,
       layout := (layout kStandaloneKeyboard)\<lparr>gl_id := LayoutKeyboardLedsRevision5,
         gl_led_output_value := 0x001d, gl_hid_last_attribute := 0x001e\<rparr>,
       reports := kKeyboardLedsReports,
       report_map := kKeyboardLedsReportMap,
       report_map_sha256 := kKeyboardLedsReportMapSha256\<rparr>)"

definition kSyntheticMouseMetadata :: synthetic_metadata where
  "kSyntheticMouseMetadata = \<lparr>battery_level = 73,
     manufacturer = ''s3-hidbot synthetic fixture'',
     model = ''Finite mouse metadata'',
     pnp = [1, 0xff, 0xff, 1, 0, 0, 1]\<rparr>"

definition kMouseMetadata :: profile_definition where
  "kMouseMetadata =
     with_cache CacheMouseMetadataRevision6 6
     (kStandaloneMouseJustWorks\<lparr>
       prof_id := PidMouseMetadata,
       prof_name := ''mouse_metadata'',
       prof_bond_class := BondMouseMetadata,
       topology := TopologyMouseWithMetadata,
       gatt_template := TemplateMouseWithMetadata,
       layout := (layout kStandaloneMouseJustWorks)\<lparr>gl_id := LayoutMouseMetadataRevision6,
         gl_battery_service_start := 0x001c, gl_battery_value := 0x001e,
         gl_information_service_start := 0x001f, gl_manufacturer_value := 0x0021,
         gl_model_value := 0x0023, gl_pnp_value := 0x0025\<rparr>,
       metadata := Some kSyntheticMouseMetadata\<rparr>)"

definition kMouseSimulatedSleepV1 :: profile_definition where
  "kMouseSimulatedSleepV1 =
     with_cache CacheMouseSimulatedSleepRevision7 7
     (kStandaloneMouseJustWorks\<lparr>
       prof_id := PidMouseSimulatedSleepV1,
       prof_name := ''mouse_simulated_sleep_v1'',
       prof_bond_class := BondMouseSimulatedSleepV1,
       layout := (layout kStandaloneMouseJustWorks)\<lparr>gl_id := LayoutMouseSimulatedSleepRevision7\<rparr>,
       advertising := \<lparr>adv_behavior = SimulatedSleepV1Advertising, fast_interval_units = 64,
         slow_interval_units = 800, fast_timeout_ms = 3000, slow_timeout_ms = 7000\<rparr>\<rparr>)"

definition kMouseHostInitiatedSecurity :: profile_definition where
  "kMouseHostInitiatedSecurity =
     with_cache CacheMouseHostSecurityRevision8 8
     (kStandaloneMouseJustWorks\<lparr>
       prof_id := PidMouseHostInitiatedSecurity,
       prof_name := ''mouse_host_initiated_security'',
       prof_bond_class := BondMouseHostInitiatedSecurity,
       layout := (layout kStandaloneMouseJustWorks)\<lparr>gl_id := LayoutMouseHostSecurityRevision8\<rparr>,
       prof_initiation := HostOnly\<rparr>)"

definition kCatalog :: "profile_definition list" where
  "kCatalog = [kStrictComposite, kStandaloneMouseJustWorks, kStandaloneKeyboard,
     kStandaloneMouseJustWorksId7, kStandaloneKeyboardLeds, kMouseMetadata,
     kMouseSimulatedSleepV1, kMouseHostInitiatedSecurity]"

section \<open>Lookups\<close>

fun find_definition :: "profile_id \<Rightarrow> profile_definition option" where
  "find_definition PidStrictComposite = Some kStrictComposite"
| "find_definition PidStandaloneMouseJustWorks = Some kStandaloneMouseJustWorks"
| "find_definition PidStandaloneKeyboard = Some kStandaloneKeyboard"
| "find_definition PidStandaloneKeyboardLeds = Some kStandaloneKeyboardLeds"
| "find_definition PidMouseMetadata = Some kMouseMetadata"
| "find_definition PidStandaloneMouseJustWorksId7 = Some kStandaloneMouseJustWorksId7"
| "find_definition PidMouseSimulatedSleepV1 = Some kMouseSimulatedSleepV1"
| "find_definition PidMouseHostInitiatedSecurity = Some kMouseHostInitiatedSecurity"

definition find_profile_name :: "string \<Rightarrow> profile_definition option" where
  "find_profile_name n = find (\<lambda>p. n = prof_name p) kCatalog"

definition find_profile_id :: "profile_id \<Rightarrow> profile_definition option" where
  "find_profile_id i = find (\<lambda>p. i = prof_id p) kCatalog"

definition find_report :: "profile_definition \<Rightarrow> report_role \<Rightarrow> report_definition option" where
  "find_report p r = find (\<lambda>d. rep_role d = r) (reports p)"

definition reports_present :: "profile_definition \<Rightarrow> report_mask \<Rightarrow> bool" where
  "reports_present p m \<longleftrightarrow> supported_reports p AND m = m"

definition subscriptions_ready :: "profile_definition \<Rightarrow> report_mask \<Rightarrow> bool" where
  "subscriptions_ready p m \<longleftrightarrow>
     m AND required_input_subscriptions p = required_input_subscriptions p"

section \<open>Reading a HID report descriptor\<close>

text \<open>
  The specification side of \<open>report_map\<close>: a descriptor is a sequence of short items, each a
  prefix byte (tag and type in the upper six bits, data length in the lower two) followed by
  0, 1, 2 or 4 data bytes. \<open>hid_items\<close> splits it, \<open>None\<close> when data is missing or the item is a
  long one; \<open>declared_bits\<close> adds up Report Size times Report Count over the Input or Output
  items of one Report ID.
\<close>

definition item_data_length :: "u8 \<Rightarrow> nat" where
  "item_data_length b = (if b AND 3 = 3 then 4 else unat (b AND 3))"

function hid_items :: "u8 list \<Rightarrow> (u8 \<times> u8 list) list option" where
  "hid_items [] = Some []"
| "hid_items (b # bs) =
     (if b = 0xfe \<or> length bs < item_data_length b then None
      else map_option (\<lambda>is. (b AND 0xfc, take (item_data_length b) bs) # is)
             (hid_items (drop (item_data_length b) bs)))"
  by pat_completeness auto
termination
  by (relation "measure length") auto

fun data_value :: "u8 list \<Rightarrow> nat" where
  "data_value [] = 0"
| "data_value (b # bs) = unat b + 256 * data_value bs"

record descriptor_state =
  ds_report_id :: nat
  ds_size :: nat
  ds_count :: nat
  ds_depth :: nat
  ds_bits :: nat

fun descriptor_item ::
    "report_type \<Rightarrow> nat \<Rightarrow> descriptor_state option \<Rightarrow> u8 \<times> u8 list \<Rightarrow> descriptor_state option" where
  "descriptor_item ty rid None item = None"
| "descriptor_item ty rid (Some s) (tag, d) =
     (if tag = 0x84 then Some (s\<lparr>ds_report_id := data_value d\<rparr>)
      else if tag = 0x74 then Some (s\<lparr>ds_size := data_value d\<rparr>)
      else if tag = 0x94 then Some (s\<lparr>ds_count := data_value d\<rparr>)
      else if tag = 0xa0 then Some (s\<lparr>ds_depth := ds_depth s + 1\<rparr>)
      else if tag = 0xc0 then
        (if ds_depth s = 0 then None else Some (s\<lparr>ds_depth := ds_depth s - 1\<rparr>))
      else if tag = (case ty of ReportInput \<Rightarrow> 0x80 | ReportOutput \<Rightarrow> 0x90) \<and> ds_report_id s = rid
        then Some (s\<lparr>ds_bits := ds_bits s + ds_size s * ds_count s\<rparr>)
      else Some s)"

definition declared_bits :: "u8 list \<Rightarrow> report_type \<Rightarrow> nat \<Rightarrow> nat option" where
  "declared_bits descriptor ty rid =
     (case hid_items descriptor of None \<Rightarrow> None
      | Some is \<Rightarrow>
          (case foldl (descriptor_item ty rid)
                  (Some \<lparr>ds_report_id = 0, ds_size = 0, ds_count = 0, ds_depth = 0, ds_bits = 0\<rparr>) is
           of None \<Rightarrow> None | Some s \<Rightarrow> if ds_depth s = 0 then Some (ds_bits s) else None))"

section \<open>The catalogue\<close>

definition report_described :: "profile_definition \<Rightarrow> report_definition \<Rightarrow> bool" where
  "report_described p r \<longleftrightarrow>
     declared_bits (report_map p) (rep_type r) (unat (report_id r)) = Some (8 * value_size r) \<and>
     length (neutral_value r) = value_size r \<and> list_all (\<lambda>b. b = 0) (neutral_value r) \<and>
     report_reference r = [report_id r, report_type_code (rep_type r)]"

definition catalog_roles_ok :: "profile_definition \<Rightarrow> bool" where
  "catalog_roles_ok p \<longleftrightarrow>
     list_all (\<lambda>r. has_role (supported_reports p) r =
         (case find_report p r of None \<Rightarrow> False | Some d \<Rightarrow> rep_type d = ReportInput))
       [RoleKeyboardInput, RoleMouseInput, RoleLedOutput] \<and>
     input_route_definition_valid (supported_reports p) (required_input_subscriptions p)
       [gl_keyboard_value (layout p), gl_mouse_value (layout p), 0] \<and>
     list_all (\<lambda>h. h = 0 \<or> gl_hid_service_start (layout p) < h \<and> h < gl_hid_last_attribute (layout p))
       [gl_keyboard_value (layout p), gl_mouse_value (layout p)]"

definition catalog_policy_ok :: "profile_definition \<Rightarrow> bool" where
  "catalog_policy_ok p \<longleftrightarrow>
     pol_authenticated (prof_security p) = smp_mitm (smp p) \<and>
     att_authenticated (attributes p) = pol_authenticated (prof_security p) \<and>
     pol_key_size (prof_security p) = 16 \<and> att_key_size (attributes p) = 16 \<and>
     smp_bonding (smp p) = pol_bonded (prof_security p) \<and> pol_encrypted (prof_security p) \<and>
     schema_epoch_value (cache p) = [schema_revision (cache p)]"

lemmas profile_defs = kStrictComposite_def kStandaloneMouseJustWorks_def kStandaloneKeyboard_def
  kStandaloneMouseJustWorksId7_def kStandaloneKeyboardLeds_def kMouseMetadata_def
  kMouseSimulatedSleepV1_def kMouseHostInitiatedSecurity_def with_cache_def


lemma kStrictComposite_fields [simp]:
  "prof_id kStrictComposite = PidStrictComposite"
  "prof_name kStrictComposite = ''strict_composite''"
  "prof_bond_class kStrictComposite = BondStrictComposite"
  "gl_id (layout kStrictComposite) = LayoutStrictRevision1"
  "schema_revision (cache kStrictComposite) = 1"
  by (simp_all add: kStrictComposite_def with_cache_def)

lemma kStandaloneMouseJustWorks_fields [simp]:
  "prof_id kStandaloneMouseJustWorks = PidStandaloneMouseJustWorks"
  "prof_name kStandaloneMouseJustWorks = ''standalone_mouse_just_works''"
  "prof_bond_class kStandaloneMouseJustWorks = BondStandaloneMouseJustWorks"
  "gl_id (layout kStandaloneMouseJustWorks) = LayoutMouseRevision2"
  "schema_revision (cache kStandaloneMouseJustWorks) = 2"
  by (simp_all add: kStandaloneMouseJustWorks_def with_cache_def)

lemma kStandaloneKeyboard_fields [simp]:
  "prof_id kStandaloneKeyboard = PidStandaloneKeyboard"
  "prof_name kStandaloneKeyboard = ''standalone_keyboard''"
  "prof_bond_class kStandaloneKeyboard = BondStandaloneKeyboard"
  "gl_id (layout kStandaloneKeyboard) = LayoutKeyboardRevision3"
  "schema_revision (cache kStandaloneKeyboard) = 3"
  by (simp_all add: kStandaloneKeyboard_def with_cache_def)

lemma kStandaloneMouseJustWorksId7_fields [simp]:
  "prof_id kStandaloneMouseJustWorksId7 = PidStandaloneMouseJustWorksId7"
  "prof_name kStandaloneMouseJustWorksId7 = ''standalone_mouse_just_works_id7''"
  "prof_bond_class kStandaloneMouseJustWorksId7 = BondStandaloneMouseJustWorksId7"
  "gl_id (layout kStandaloneMouseJustWorksId7) = LayoutMouseId7Revision4"
  "schema_revision (cache kStandaloneMouseJustWorksId7) = 4"
  by (simp_all add: kStandaloneMouseJustWorksId7_def with_cache_def)

lemma kStandaloneKeyboardLeds_fields [simp]:
  "prof_id kStandaloneKeyboardLeds = PidStandaloneKeyboardLeds"
  "prof_name kStandaloneKeyboardLeds = ''standalone_keyboard_leds''"
  "prof_bond_class kStandaloneKeyboardLeds = BondStandaloneKeyboardLeds"
  "gl_id (layout kStandaloneKeyboardLeds) = LayoutKeyboardLedsRevision5"
  "schema_revision (cache kStandaloneKeyboardLeds) = 5"
  by (simp_all add: kStandaloneKeyboardLeds_def with_cache_def)

lemma kMouseMetadata_fields [simp]:
  "prof_id kMouseMetadata = PidMouseMetadata"
  "prof_name kMouseMetadata = ''mouse_metadata''"
  "prof_bond_class kMouseMetadata = BondMouseMetadata"
  "gl_id (layout kMouseMetadata) = LayoutMouseMetadataRevision6"
  "schema_revision (cache kMouseMetadata) = 6"
  by (simp_all add: kMouseMetadata_def with_cache_def)

lemma kMouseSimulatedSleepV1_fields [simp]:
  "prof_id kMouseSimulatedSleepV1 = PidMouseSimulatedSleepV1"
  "prof_name kMouseSimulatedSleepV1 = ''mouse_simulated_sleep_v1''"
  "prof_bond_class kMouseSimulatedSleepV1 = BondMouseSimulatedSleepV1"
  "gl_id (layout kMouseSimulatedSleepV1) = LayoutMouseSimulatedSleepRevision7"
  "schema_revision (cache kMouseSimulatedSleepV1) = 7"
  by (simp_all add: kMouseSimulatedSleepV1_def with_cache_def)

lemma kMouseHostInitiatedSecurity_fields [simp]:
  "prof_id kMouseHostInitiatedSecurity = PidMouseHostInitiatedSecurity"
  "prof_name kMouseHostInitiatedSecurity = ''mouse_host_initiated_security''"
  "prof_bond_class kMouseHostInitiatedSecurity = BondMouseHostInitiatedSecurity"
  "gl_id (layout kMouseHostInitiatedSecurity) = LayoutMouseHostSecurityRevision8"
  "schema_revision (cache kMouseHostInitiatedSecurity) = 8"
  by (simp_all add: kMouseHostInitiatedSecurity_def with_cache_def)

lemma catalog_ids:
  "list_all (\<lambda>p. find_definition (prof_id p) = Some p \<and> find_profile_id (prof_id p) = Some p) kCatalog"
  by (simp add: kCatalog_def find_profile_id_def)

lemma catalog_names: "list_all (\<lambda>p. find_profile_name (prof_name p) = Some p) kCatalog"
  by (simp add: kCatalog_def find_profile_name_def)

lemma catalog_distinct:
  "distinct (map prof_id kCatalog)" "distinct (map prof_name kCatalog)"
  "distinct (map prof_bond_class kCatalog)" "distinct (map (gl_id \<circ> layout) kCatalog)"
  "distinct (map (schema_revision \<circ> cache) kCatalog)"
  by (simp_all add: kCatalog_def)

lemma every_id_defined:
  "\<exists>p. find_definition i = Some p \<and> prof_id p = i \<and> find_profile_id i = Some p"
  by (cases i; simp add: find_profile_id_def kCatalog_def)

text \<open>
  The catalogue is a bijection between profile ids, names and bond classes: looking any
  profile up by id, by name or through the switch of the definitions gives that profile
  itself, no two profiles share an id, a name, a bond class, a layout or a cache policy, and
  every id has a profile.
\<close>

theorem catalog_lookup:
  "list_all (\<lambda>p. find_definition (prof_id p) = Some p \<and> find_profile_id (prof_id p) = Some p \<and>
       find_profile_name (prof_name p) = Some p) kCatalog \<and>
   distinct (map prof_id kCatalog) \<and> distinct (map prof_name kCatalog) \<and>
   distinct (map prof_bond_class kCatalog) \<and> distinct (map (gl_id \<circ> layout) kCatalog) \<and>
   distinct (map (schema_revision \<circ> cache) kCatalog) \<and>
   (\<forall>i. \<exists>p. find_definition i = Some p \<and> prof_id p = i \<and> find_profile_id i = Some p)"
  using catalog_ids catalog_names catalog_distinct every_id_defined
  unfolding list_all_iff by blast

text \<open>
  every profile of the catalogue is internally coherent: its input roles are exactly the
  roles its input reports serve (an LED output never becomes an input role), all required
  subscriptions are present roles, each present role has one nonzero attribute handle of its
  own inside the HID service, and its pairing, link and attribute policies agree on
  authentication and on the 16-byte key.
\<close>

theorem catalog_coherent:
  "list_all (\<lambda>p. catalog_roles_ok p \<and> catalog_policy_ok p) kCatalog"
  by code_simp

end
