(* ===== verification/HidSequence.thy ===== *)
theory HidSequence
  imports HidCapability
begin

text \<open>
  \<open>firmware/components/hid_sequence\<close>, the pure part: the key and button state, the grammar of
  a sequence, its parser \<open>parse\<close> with the schedule bound, the decision of a bounded wait and
  the packed status word. The controller that executes a plan is in \<open>SequenceController\<close>.
  Bytes of \<open>keycodes\<close> are natural numbers below 256, the narrowing cast is written \<open>mod 256\<close>.
\<close>

section \<open>Limits and data\<close>

definition kMaximumCodeBytes :: nat where "kMaximumCodeBytes = 320"

definition kMaximumTokens :: nat where "kMaximumTokens = 64"

definition kMaximumDefaultDelayMs :: nat where "kMaximumDefaultDelayMs = 1000"

definition kMaximumWaitMs :: nat where "kMaximumWaitMs = 2000"

definition kMaximumScheduledDurationMs :: nat where "kMaximumScheduledDurationMs = 2500"

definition kExecutionDeadlineMs :: nat where "kExecutionDeadlineMs = 4000"

definition kOperationReadinessMs :: nat where "kOperationReadinessMs = 100"

lemmas sequence_limits = kMaximumCodeBytes_def kMaximumTokens_def kMaximumDefaultDelayMs_def
  kMaximumWaitMs_def kMaximumScheduledDurationMs_def

record hid_state =
  modifiers :: u8
  keycodes :: "nat list"
  mouse_buttons :: u8

datatype operation_kind = DefaultDelay | Wait | KeyPress | KeyRelease | MousePress | MouseRelease

record operation =
  op_kind :: operation_kind
  op_value :: nat

record plan =
  operations :: "operation list"
  scheduled_duration_ms :: nat
  initial_state :: hid_state
  required_roles :: report_mask

section \<open>Key and button state\<close>

definition ordinary_usage :: "nat \<Rightarrow> bool" where
  "ordinary_usage v \<longleftrightarrow> (4 \<le> v \<and> v \<le> 164) \<or> (176 \<le> v \<and> v \<le> 221)"

definition modifier_usage :: "nat \<Rightarrow> bool" where
  "modifier_usage v \<longleftrightarrow> 224 \<le> v \<and> v \<le> 231"

fun button_bit :: "char \<Rightarrow> nat" where
  "button_bit c =
     (if c = CHR ''L'' then 1 else if c = CHR ''R'' then 2 else if c = CHR ''M'' then 4
      else if c = CHR ''B'' then 8 else if c = CHR ''F'' then 16 else 0)"

text \<open>The search loops: the first index with the property, the length when there is none.\<close>

definition first_index :: "('a \<Rightarrow> bool) \<Rightarrow> 'a list \<Rightarrow> nat" where
  "first_index P xs = length (takeWhile (\<lambda>x. \<not> P x) xs)"

text \<open>The loop that moves larger keys up and stores the new one.\<close>

fun insert_shift :: "nat list \<Rightarrow> nat \<Rightarrow> nat \<Rightarrow> nat list" where
  "insert_shift kc 0 u = kc[0 := u mod 256]"
| "insert_shift kc (Suc e) u =
     (if kc ! e > u then insert_shift (kc[Suc e := kc ! e]) e u else kc[Suc e := u mod 256])"

text \<open>The loop that moves the keys after a released one down.\<close>

function remove_shift :: "nat list \<Rightarrow> nat \<Rightarrow> nat list" where
  "remove_shift kc i =
     (if i + 1 < length kc then remove_shift (kc[i := kc ! (i + 1)]) (i + 1) else kc)"
  by pat_completeness auto
termination
  by (relation "measure (\<lambda>(kc, i). length kc - i)") auto

declare remove_shift.simps [simp del]

definition apply_transition :: "operation \<Rightarrow> hid_state \<Rightarrow> hid_state option" where
  "apply_transition op s =
     (if op_kind op = MousePress \<or> op_kind op = MouseRelease then
        (let b = word_of_nat (op_value op) :: u8 in
         Some (if op_kind op = MousePress
               then s\<lparr>mouse_buttons := mouse_buttons s OR b\<rparr>
               else s\<lparr>mouse_buttons := mouse_buttons s AND NOT b\<rparr>))
      else if op_kind op \<noteq> KeyPress \<and> op_kind op \<noteq> KeyRelease then Some s
      else if modifier_usage (op_value op) then
        (let b = push_bit (op_value op - 224) 1 :: u8 in
         Some (if op_kind op = KeyPress
               then s\<lparr>modifiers := modifiers s OR b\<rparr>
               else s\<lparr>modifiers := modifiers s AND NOT b\<rparr>))
      else
        (let kc = keycodes s; found = first_index (\<lambda>k. k = op_value op) kc in
         if op_kind op = KeyPress then
           (if found \<noteq> length kc then Some s
            else let empty = first_index (\<lambda>k. k = 0) kc in
              if empty = length kc then None
              else Some (s\<lparr>keycodes := insert_shift kc empty (op_value op)\<rparr>))
         else if found \<noteq> length kc then
           Some (s\<lparr>keycodes := (remove_shift kc found)[length kc - 1 := 0]\<rparr>)
         else Some s))"

definition is_hid :: "operation_kind \<Rightarrow> bool" where
  "is_hid k \<longleftrightarrow> k = KeyPress \<or> k = KeyRelease \<or> k = MousePress \<or> k = MouseRelease"

section \<open>Parsing\<close>

fun parse_digits :: "nat \<Rightarrow> nat \<Rightarrow> string \<Rightarrow> nat option" where
  "parse_digits maximum acc [] = Some acc"
| "parse_digits maximum acc (c # cs) =
     (if of_char c < (48::nat) \<or> of_char c > (57::nat) then None
      else let parsed = acc * 10 + (of_char c - 48) in
        if parsed > maximum then None else parse_digits maximum parsed cs)"

definition parse_number :: "string \<Rightarrow> nat \<Rightarrow> nat option" where
  "parse_number text maximum =
     (if text = [] \<or> length text > 4 \<or> (length text > 1 \<and> hd text = CHR ''0'') then None
      else parse_digits maximum 0 text)"

definition parse_token :: "string \<Rightarrow> operation option" where
  "parse_token token =
     (if hd token = CHR ''d'' then
        map_option (\<lambda>v. \<lparr>op_kind = DefaultDelay, op_value = v\<rparr>)
          (parse_number (drop 1 token) kMaximumDefaultDelayMs)
      else if hd token = CHR ''w'' then
        map_option (\<lambda>v. \<lparr>op_kind = Wait, op_value = v\<rparr>)
          (parse_number (drop 1 token) kMaximumWaitMs)
      else if length token \<ge> 3 \<and> (take 2 token = ''kp'' \<or> take 2 token = ''kr'') then
        (if length token > 5 then None
         else case parse_number (drop 2 token) 231 of
             None \<Rightarrow> None
           | Some v \<Rightarrow>
               if \<not> ordinary_usage v \<and> \<not> modifier_usage v then None
               else Some \<lparr>op_kind = (if token ! 1 = CHR ''p'' then KeyPress else KeyRelease),
                          op_value = v\<rparr>)
      else if length token = 3 \<and> (take 2 token = ''mp'' \<or> take 2 token = ''mr'') then
        (let b = button_bit (token ! 2) in
         if b = 0 then None
         else Some \<lparr>op_kind = (if token ! 1 = CHR ''p'' then MousePress else MouseRelease),
                    op_value = b\<rparr>)
      else None)"

definition operation_roles :: "operation_kind \<Rightarrow> report_mask" where
  "operation_roles k =
     (if k = KeyPress \<or> k = KeyRelease then kKeyboardInput
      else if k = MousePress \<or> k = MouseRelease then kMouseInput else 0)"

lemma dropWhile_rest_shorter: "dropWhile P xs = y # ys \<Longrightarrow> length ys < length xs"
  by (metis Suc_le_lessD length_Cons length_dropWhile_le)

text \<open>The token loop. The string is what is left from \<open>offset\<close> on.\<close>

function parse_loop :: "string \<Rightarrow> hid_state \<Rightarrow> plan \<Rightarrow> plan option" where
  "parse_loop code simulated candidate =
     (if code = [] then Some candidate
      else if length (operations candidate) = kMaximumTokens then None
      else
        (let token = takeWhile (\<lambda>c. c \<noteq> CHR '';'') code;
             rest = dropWhile (\<lambda>c. c \<noteq> CHR '';'') code
         in if token = [] then None
            else case parse_token token of
                None \<Rightarrow> None
              | Some op \<Rightarrow>
                  (case apply_transition op simulated of
                     None \<Rightarrow> None
                   | Some simulated' \<Rightarrow>
                       (let candidate' = candidate\<lparr>operations := operations candidate @ [op],
                              required_roles := required_roles candidate
                                OR operation_roles (op_kind op)\<rparr>
                        in case rest of
                            [] \<Rightarrow> Some candidate'
                          | _ # rest' \<Rightarrow>
                              if rest' = [] then None
                              else parse_loop rest' simulated' candidate'))))"
  by pat_completeness auto
termination
  by (relation "measure (\<lambda>(code, s, p). length code)")
    (auto dest!: dropWhile_rest_shorter [OF sym])

declare parse_loop.simps [simp del]

text \<open>The schedule loop: the accumulated duration, or \<open>None\<close> past the limit.\<close>

fun schedule :: "operation list \<Rightarrow> nat \<Rightarrow> nat \<Rightarrow> nat option" where
  "schedule [] default_delay duration = Some duration"
| "schedule (op # ops) default_delay duration =
     (let (dd, d) =
        (if op_kind op = DefaultDelay then (op_value op, duration)
         else if op_kind op = Wait then (default_delay, duration + op_value op)
         else if is_hid (op_kind op) \<and> ops \<noteq> [] then (default_delay, duration + default_delay)
         else (default_delay, duration))
      in if d > kMaximumScheduledDurationMs then None else schedule ops dd d)"

definition parse :: "string \<Rightarrow> hid_state \<Rightarrow> plan option" where
  "parse code ini =
     (if code = [] \<or> length code > kMaximumCodeBytes then None
      else case parse_loop code ini \<lparr>operations = [], scheduled_duration_ms = 0,
                 initial_state = ini, required_roles = 0\<rparr> of
          None \<Rightarrow> None
        | Some candidate \<Rightarrow>
            (case schedule (operations candidate) 0 0 of
               None \<Rightarrow> None
             | Some duration \<Rightarrow> Some (candidate\<lparr>scheduled_duration_ms := duration\<rparr>)))"

section \<open>Bounded waits\<close>

record wait_decision =
  wait_complete :: bool
  execution_expired :: bool
  block_us :: u64

definition wait_decision :: "u64 \<Rightarrow> u64 \<Rightarrow> u64 \<Rightarrow> wait_decision" where
  "wait_decision now wait_deadline execution_deadline =
     (if now \<ge> execution_deadline then
        \<lparr>wait_complete = False, execution_expired = True, block_us = 0\<rparr>
      else if now \<ge> wait_deadline then
        \<lparr>wait_complete = True, execution_expired = False, block_us = 0\<rparr>
      else \<lparr>wait_complete = False, execution_expired = False,
            block_us = min (wait_deadline - now) (execution_deadline - now)\<rparr>)"

section \<open>The key array as a sorted set\<close>

text \<open>
  A well-formed key array holds at most six distinct nonzero keys in ascending order, followed
  by zeros. \<open>held\<close> is its set view.
\<close>

definition held :: "nat list \<Rightarrow> nat list" where
  "held kc = takeWhile (\<lambda>k. k \<noteq> 0) kc"

definition keys_wf :: "nat list \<Rightarrow> bool" where
  "keys_wf kc \<longleftrightarrow> length kc = 6 \<and> sorted_wrt (<) (held kc) \<and>
     kc = held kc @ replicate (6 - length (held kc)) 0"

lemma held_append_zeros: "0 \<notin> set ks \<Longrightarrow> held (ks @ replicate n 0) = ks"
  unfolding held_def by (induction ks) (auto simp: takeWhile_replicate)

lemma keys_wfI:
  "sorted_wrt (<) ks \<Longrightarrow> 0 \<notin> set ks \<Longrightarrow> length ks \<le> 6 \<Longrightarrow>
     keys_wf (ks @ replicate (6 - length ks) 0) \<and> held (ks @ replicate (6 - length ks) 0) = ks"
  by (simp add: keys_wf_def held_append_zeros)

lemma keys_wfE:
  assumes "keys_wf kc"
  obtains ks where "kc = ks @ replicate (6 - length ks) 0" "held kc = ks" "sorted_wrt (<) ks"
    "0 \<notin> set ks" "length ks \<le> 6"
proof -
  have "0 \<notin> set (held kc)" unfolding held_def by (auto dest: set_takeWhileD)
  moreover have "length (held kc) \<le> 6"
    using assms length_takeWhile_le [of "\<lambda>k. k \<noteq> 0" kc] by (simp add: keys_wf_def held_def)
  ultimately show ?thesis using that assms unfolding keys_wf_def by blast
qed

lemma first_index_le: "first_index P xs \<le> length xs"
  by (simp add: first_index_def length_takeWhile_le)

lemma first_index_absent: "(first_index P xs = length xs) = (\<forall>x \<in> set xs. \<not> P x)"
  unfolding first_index_def by (metis takeWhile_eq_all_conv takeWhile_eq_take take_all_iff order_refl)

lemma first_index_append_notin: "\<forall>x \<in> set xs. \<not> P x \<Longrightarrow> P y \<Longrightarrow> first_index P (xs @ y # ys) = length xs"
  by (simp add: first_index_def takeWhile_append2)

lemma insert_shift_insort:
  assumes "sorted_wrt (<) ks" "u \<notin> set ks" "u < 256"
  shows "insert_shift (ks @ x # rest) (length ks) u = insort u ks @ rest"
  using assms
proof (induction ks arbitrary: x rest rule: rev_induct)
  case (snoc y ks)
  have s: "sorted_wrt (<) ks" and lt: "\<forall>k \<in> set ks. k < y"
    using snoc.prems(1) by (auto simp: sorted_wrt_append)
  then have sorted: "sorted ks" by (simp add: strict_sorted_imp_sorted)
  have nth: "(ks @ y # x # rest) ! length ks = y" by simp
  show ?case
  proof (cases "u < y")
    case True
    have "insort u (ks @ [y]) = insort u ks @ [y]"
      using True lt by (induction ks) auto
    with True snoc.IH [OF s, of y "y # rest"] snoc.prems show ?thesis
      by (simp add: nth list_update_append)
  next
    case False
    with snoc.prems(2) have "y < u" by auto
    with lt have "\<forall>k \<in> set (ks @ [y]). k < u" by auto
    then have "insort u (ks @ [y]) = ks @ [y, u]"
      by (induction ks) auto
    with False snoc.prems(3) show ?thesis by (simp add: nth list_update_append)
  qed
qed simp

lemma remove_shift_drop:
  "(remove_shift (xs @ u # ys) (length xs))[length xs + length ys := 0] = xs @ ys @ [0]"
proof (induction ys arbitrary: xs u)
  case Nil
  show ?case by (subst remove_shift.simps) (simp add: list_update_append)
next
  case (Cons y ys)
  have "remove_shift (xs @ u # y # ys) (length xs) = remove_shift ((xs @ [y]) @ y # ys) (length (xs @ [y]))"
    by (subst remove_shift.simps) (simp add: list_update_append nth_append)
  with Cons.IH [of "xs @ [y]" y] show ?case by simp
qed

lemma strict_sorted_insort:
  "sorted_wrt (<) ks \<Longrightarrow> u \<notin> set ks \<Longrightarrow> sorted_wrt (<) (insort u (ks::nat list))"
  by (simp add: strict_sorted_iff sorted_insort distinct_insort)

lemma press_key:
  assumes wf: "keys_wf (keycodes s)" and u: "0 < u" "u < 256" "\<not> modifier_usage u"
  shows "apply_transition \<lparr>op_kind = KeyPress, op_value = u\<rparr> s =
     (if u \<in> set (held (keycodes s)) then Some s
      else if length (held (keycodes s)) = 6 then None
      else Some (s\<lparr>keycodes := insort u (held (keycodes s))
                     @ replicate (5 - length (held (keycodes s))) 0\<rparr>))"
proof -
  obtain ks where ks: "keycodes s = ks @ replicate (6 - length ks) 0" "held (keycodes s) = ks"
    "sorted_wrt (<) ks" "0 \<notin> set ks" "length ks \<le> 6" using wf by (rule keys_wfE)
  have found: "(first_index (\<lambda>k. k = u) (keycodes s) = length (keycodes s)) = (u \<notin> set ks)"
    unfolding first_index_absent using u ks(4) by (auto simp: ks(1))
  have empty: "first_index (\<lambda>k. k = 0) (keycodes s) = length ks" (is "?e = _")
  proof (cases "length ks = 6")
    case True
    then have "keycodes s = ks" by (simp add: ks)
    with ks(4) have "?e = length (keycodes s)" by (auto simp: first_index_absent intro!: gr0I)
    with \<open>keycodes s = ks\<close> show ?thesis by simp
  next
    case False
    with ks have "keycodes s = ks @ 0 # replicate (5 - length ks) 0"
      by (simp add: replicate_Suc [symmetric] Suc_diff_le del: replicate_Suc)
    moreover have "first_index (\<lambda>k. k = 0) (ks @ 0 # replicate (5 - length ks) 0) = length ks"
      using ks(4) by (intro first_index_append_notin) (auto intro!: gr0I)
    ultimately show ?thesis by metis
  qed
  have len: "length (keycodes s) = 6" using wf by (simp add: keys_wf_def)
  note found6 = found [unfolded len]
  have ins: "insert_shift (keycodes s) (length ks) u = insort u ks @ replicate (5 - length ks) 0"
    if "u \<notin> set ks" "length ks \<noteq> 6"
  proof -
    have kc: "keycodes s = ks @ 0 # replicate (5 - length ks) 0"
      using ks that by (simp add: replicate_Suc [symmetric] Suc_diff_le del: replicate_Suc)
    show ?thesis unfolding kc using ks(3) that u by (intro insert_shift_insort) auto
  qed
  show ?thesis
    unfolding apply_transition_def Let_def ks(2)
    by (simp add: u(3) len found6 empty ins)
qed

lemma release_key:
  assumes wf: "keys_wf (keycodes s)" and u: "0 < u" "\<not> modifier_usage u"
  shows "apply_transition \<lparr>op_kind = KeyRelease, op_value = u\<rparr> s =
     Some (s\<lparr>keycodes := removeAll u (held (keycodes s))
        @ replicate (6 - length (removeAll u (held (keycodes s)))) 0\<rparr>)"
proof -
  obtain ks where ks: "keycodes s = ks @ replicate (6 - length ks) 0" "held (keycodes s) = ks"
    "sorted_wrt (<) ks" "0 \<notin> set ks" "length ks \<le> 6" using wf by (rule keys_wfE)
  have len: "length (keycodes s) = 6" using wf by (simp add: keys_wf_def)
  have found: "(first_index (\<lambda>k. k = u) (keycodes s) = length (keycodes s)) = (u \<notin> set ks)"
    unfolding first_index_absent using u ks(4) by (auto simp: ks(1))
  show ?thesis
  proof (cases "u \<in> set ks")
    case False
    with found u have "apply_transition \<lparr>op_kind = KeyRelease, op_value = u\<rparr> s = Some s"
      by (simp add: apply_transition_def Let_def)
    with False ks show ?thesis by (simp add: removeAll_id)
  next
    case True
    then obtain as bs where s: "ks = as @ u # bs" and na: "u \<notin> set as"
      by (meson split_list_first)
    have nb: "u \<notin> set bs" using ks(3) s by (auto simp: sorted_wrt_append)
    define zs where "zs = replicate (6 - length ks) (0::nat)"
    have kc: "keycodes s = as @ u # (bs @ zs)" by (simp add: ks(1) [unfolded s] zs_def s)
    have f: "first_index (\<lambda>k. k = u) (keycodes s) = length as"
      unfolding kc using na by (intro first_index_append_notin) auto
    have l5: "length (keycodes s) - 1 = length as + length (bs @ zs)" by (simp add: kc)
    have "(remove_shift (keycodes s) (length as))[length (keycodes s) - 1 := 0] = as @ (bs @ zs) @ [0]"
      unfolding l5 unfolding kc by (rule remove_shift_drop)
    moreover have "zs @ [0] = replicate (6 - length (as @ bs)) 0"
    proof -
      have "6 - length (as @ bs) = Suc (6 - length ks)" using s ks(5) by simp
      then show ?thesis by (simp add: zs_def replicate_append_same)
    qed
    moreover have "removeAll u ks = as @ bs" using s na nb by (simp add: removeAll_id)
    ultimately show ?thesis using found f True u
      by (simp add: apply_transition_def Let_def ks(2))
  qed
qed
end
