(* ===== verification/SequenceGrammar.thy ===== *)
theory SequenceGrammar
  imports HidSequence
begin

text \<open>
  What \<open>hid_sequence::parse\<close> accepts and computes: the grammar as a printer
  (\<open>show_op\<close>, \<open>render\<close>) with its static conditions, and the proof that the parser accepts
  exactly the printed plans that keep at most six keys down and last at most 2500 ms.
\<close>

section \<open>The grammar\<close>

function decimal :: "nat \<Rightarrow> string" where
  "decimal n = (if n < 10 then [char_of (48 + n)] else decimal (n div 10) @ [char_of (48 + n mod 10)])"
  by pat_completeness auto
termination by (relation "measure id") auto

declare decimal.simps [simp del]

fun button_char :: "nat \<Rightarrow> char" where
  "button_char b =
     (if b = 1 then CHR ''L'' else if b = 2 then CHR ''R'' else if b = 4 then CHR ''M''
      else if b = 8 then CHR ''B'' else CHR ''F'')"

fun show_op :: "operation \<Rightarrow> string" where
  "show_op op =
     (case op_kind op of
        DefaultDelay \<Rightarrow> ''d'' @ decimal (op_value op)
      | Wait \<Rightarrow> ''w'' @ decimal (op_value op)
      | KeyPress \<Rightarrow> ''kp'' @ decimal (op_value op)
      | KeyRelease \<Rightarrow> ''kr'' @ decimal (op_value op)
      | MousePress \<Rightarrow> ''mp'' @ [button_char (op_value op)]
      | MouseRelease \<Rightarrow> ''mr'' @ [button_char (op_value op)])"

fun op_ok :: "operation \<Rightarrow> bool" where
  "op_ok op =
     (case op_kind op of
        DefaultDelay \<Rightarrow> op_value op \<le> kMaximumDefaultDelayMs
      | Wait \<Rightarrow> op_value op \<le> kMaximumWaitMs
      | KeyPress \<Rightarrow> ordinary_usage (op_value op) \<or> modifier_usage (op_value op)
      | KeyRelease \<Rightarrow> ordinary_usage (op_value op) \<or> modifier_usage (op_value op)
      | MousePress \<Rightarrow> op_value op \<in> {1, 2, 4, 8, 16}
      | MouseRelease \<Rightarrow> op_value op \<in> {1, 2, 4, 8, 16})"

fun render :: "operation list \<Rightarrow> string" where
  "render [] = []"
| "render [op] = show_op op"
| "render (op # ops) = show_op op @ CHR '';'' # render ops"

fun transitions :: "operation list \<Rightarrow> hid_state \<Rightarrow> hid_state option" where
  "transitions [] s = Some s"
| "transitions (op # ops) s = Option.bind (apply_transition op s) (transitions ops)"

fun roles_of :: "operation list \<Rightarrow> report_mask" where
  "roles_of [] = 0"
| "roles_of (op # ops) = operation_roles (op_kind op) OR roles_of ops"

fun planned_ms :: "operation list \<Rightarrow> nat \<Rightarrow> nat" where
  "planned_ms [] default_delay = 0"
| "planned_ms (op # ops) default_delay =
     (case op_kind op of
        DefaultDelay \<Rightarrow> planned_ms ops (op_value op)
      | Wait \<Rightarrow> op_value op + planned_ms ops default_delay
      | _ \<Rightarrow> (if ops = [] then 0 else default_delay) + planned_ms ops default_delay)"

section \<open>Numbers\<close>

definition digit :: "char \<Rightarrow> bool" where
  "digit c \<longleftrightarrow> 48 \<le> (of_char c::nat) \<and> of_char c \<le> (57::nat)"

definition shift_in :: "nat \<Rightarrow> char \<Rightarrow> nat" where
  "shift_in a c = a * 10 + (of_char c - 48)"

lemma shift_in_grows: "a \<le> foldl shift_in a cs"
proof (induction cs arbitrary: a)
  case (Cons c cs)
  have "a \<le> shift_in a c" by (simp add: shift_in_def)
  also have "\<dots> \<le> foldl shift_in (shift_in a c) cs" by (rule Cons.IH)
  finally show ?case by simp
qed simp

lemma parse_digits_value:
  "acc \<le> m \<Longrightarrow> parse_digits m acc cs =
     (if list_all digit cs \<and> foldl shift_in acc cs \<le> m then Some (foldl shift_in acc cs) else None)"
proof (induction cs arbitrary: acc)
  case (Cons c cs)
  show ?case
  proof (cases "digit c \<and> shift_in acc c \<le> m")
    case True
    then have "parse_digits m acc (c # cs) = parse_digits m (shift_in acc c) cs"
      by (auto simp: Let_def digit_def shift_in_def)
    with Cons.IH [of "shift_in acc c"] True show ?thesis by simp
  next
    case False
    have "\<not> digit c \<or> \<not> foldl shift_in (shift_in acc c) cs \<le> m"
      using False shift_in_grows [of "shift_in acc c" cs] by linarith
    with False show ?thesis by (auto simp: Let_def digit_def [of c] shift_in_def [of acc c])
  qed
qed simp

lemma digit_char: "digit c \<Longrightarrow> char_of (48 + (of_char c - (48::nat))) = c"
  by (simp add: digit_def)

lemma shift_in_snoc: "foldl shift_in a (cs @ [c]) = foldl shift_in a cs * 10 + (of_char c - 48)"
  by (simp add: shift_in_def [of "foldl shift_in a cs"])

lemma char_of_digit:
  "d < (10::nat) \<Longrightarrow> digit (char_of (48 + d))" "d < (10::nat) \<Longrightarrow> of_char (char_of (48 + d)) = 48 + d"
  by (simp_all add: digit_def)

lemma decimal_digits: "list_all digit (decimal n)"
  by (induction n rule: decimal.induct) (subst decimal.simps, simp add: char_of_digit)

lemma decimal_nonempty: "decimal n \<noteq> []"
  by (subst decimal.simps) simp

lemma decimal_value: "foldl shift_in 0 (decimal n) = n"
proof (induction n rule: decimal.induct)
  case (1 n)
  then show ?case
    by (subst decimal.simps) (simp add: shift_in_snoc shift_in_def [of 0] char_of_digit del: foldl_append)
qed

lemma value_pos: "cs \<noteq> [] \<Longrightarrow> list_all digit cs \<Longrightarrow> hd cs \<noteq> CHR ''0'' \<Longrightarrow> 0 < foldl shift_in 0 cs"
proof (cases cs)
  case (Cons c cs')
  assume "list_all digit cs" "hd cs \<noteq> CHR ''0''"
  with Cons have d: "digit c" "c \<noteq> CHR ''0''" by auto
  have "of_char c \<noteq> (48::nat)"
  proof
    assume "of_char c = (48::nat)"
    then have "of_char c = (of_char (CHR ''0'') :: nat)" by simp
    with d(2) show False by (simp only: of_char_eq_iff)
  qed
  with d have "0 < shift_in 0 c" by (simp add: shift_in_def digit_def)
  then show ?thesis using shift_in_grows [of "shift_in 0 c" cs'] Cons by simp
qed simp

lemma decimal_of_value:
  "cs \<noteq> [] \<Longrightarrow> list_all digit cs \<Longrightarrow> length cs > 1 \<longrightarrow> hd cs \<noteq> CHR ''0'' \<Longrightarrow>
     decimal (foldl shift_in 0 cs) = cs"
proof (induction cs rule: rev_induct)
  case (snoc c cs)
  have c: "digit c" using snoc.prems by simp
  have lt: "of_char c - (48::nat) < 10" using c unfolding digit_def by linarith
  show ?case
  proof (cases "cs = []")
    case True
    then show ?thesis using lt c digit_char [OF c] by (subst decimal.simps) (simp add: shift_in_def [of 0])
  next
    case False
    then have "decimal (foldl shift_in 0 cs) = cs" and "0 < foldl shift_in 0 cs"
      using snoc value_pos [of cs] by auto
    then show ?thesis using lt digit_char [OF c]
      by (subst decimal.simps) (simp add: shift_in_snoc del: foldl_append)
  qed
qed simp

lemma decimal_length: "n < 10 ^ k \<Longrightarrow> 0 < k \<Longrightarrow> length (decimal n) \<le> k"
proof (induction k arbitrary: n)
  case (Suc k)
  then show ?case
    by (subst decimal.simps) (cases k, auto)
qed simp

lemma decimal_no_zero: "1 < length (decimal n) \<Longrightarrow> hd (decimal n) \<noteq> CHR ''0''"
proof (induction n rule: decimal.induct)
  case (1 n)
  show ?case
  proof (cases "n < 10")
    case True
    with 1 show ?thesis by (subst (asm) (2) decimal.simps) simp
  next
    case False
    then have e: "decimal n = decimal (n div 10) @ [char_of (48 + n mod 10)]"
      by (subst decimal.simps) simp
    show ?thesis
    proof (cases "n div 10 < 10")
      case True
      then have "hd (decimal n) = char_of (48 + n div 10)" unfolding e by (subst decimal.simps) simp
      moreover have "char_of (48 + n div 10) \<noteq> (CHR ''0'')"
      proof
        assume "char_of (48 + n div 10) = (CHR ''0'')"
        then have "of_char (char_of (48 + n div 10) :: char) = (of_char (CHR ''0'') :: nat)" by simp
        with True False show False by simp
      qed
      ultimately show ?thesis by simp
    next
      case False
      then have "1 < length (decimal (n div 10))"
        by (subst decimal.simps) (simp add: decimal_nonempty)
      with 1 \<open>\<not> n < 10\<close> show ?thesis by (simp add: e decimal_nonempty)
    qed
  qed
qed

lemma parse_number_iff:
  assumes "m < 10000"
  shows "parse_number t m = Some n \<longleftrightarrow> n \<le> m \<and> t = decimal n"
proof
  assume "parse_number t m = Some n"
  then show "n \<le> m \<and> t = decimal n"
    by (auto simp: parse_number_def parse_digits_value decimal_of_value split: if_splits)
next
  assume a: "n \<le> m \<and> t = decimal n"
  then have "length (decimal n) \<le> 4" using assms decimal_length [of n 4] by simp
  with a show "parse_number t m = Some n"
    using decimal_no_zero [of n]
    by (auto simp: parse_number_def parse_digits_value decimal_nonempty decimal_digits decimal_value)
qed

lemmas parse_number_limits =
  parse_number_iff [of kMaximumDefaultDelayMs, unfolded sequence_limits, simplified]
  parse_number_iff [of kMaximumWaitMs, unfolded sequence_limits, simplified]
  parse_number_iff [of 231, simplified]
section \<open>Tokens\<close>

lemma show_op_chars: "CHR '';'' \<notin> set (show_op op)"
proof -
  have "CHR '';'' \<notin> set (decimal n)" for n
    using decimal_digits [of n] by (auto simp: list_all_iff digit_def)
  then show ?thesis by (auto split: operation_kind.splits)
qed

lemma show_op_nonempty: "show_op op \<noteq> []"
  by (auto split: operation_kind.splits)

lemma op_ext: "op = \<lparr>op_kind = k, op_value = v\<rparr> \<longleftrightarrow> op_kind op = k \<and> op_value op = v"
  by (cases op) auto

lemma usage_le: "ordinary_usage v \<or> modifier_usage v \<Longrightarrow> 4 \<le> v \<and> v \<le> 231"
  by (auto simp: ordinary_usage_def modifier_usage_def)

lemma decimal_short: "v \<le> 231 \<Longrightarrow> length (decimal v) \<le> 3"
  using decimal_length [of v 3] by simp

lemma button_char_bit:
  shows "button_bit c \<noteq> 0 \<Longrightarrow> button_bit c \<in> {1, 2, 4, 8, 16} \<and> button_char (button_bit c) = c"
  and "v \<in> {1, 2, 4, 8, 16} \<Longrightarrow> button_bit (button_char v) = v"
  by (auto split: if_splits)

lemma parse_token_shown: "op_ok op \<Longrightarrow> parse_token (show_op op) = Some op"
proof (cases op)
  case (fields k v)
  assume ok: "op_ok op"
  have l: "Suc 0 \<le> length (decimal v)" using decimal_nonempty [of v] by (simp add: Suc_le_eq)
  show ?thesis
  proof (cases k)
    case KeyPress
    with ok fields have u: "ordinary_usage v \<or> modifier_usage v" by simp
    then have "parse_number (decimal v) 231 = Some v"
      using usage_le [OF u] by (simp add: parse_number_limits(3))
    with l u show ?thesis using usage_le [OF u] decimal_short [of v] fields KeyPress
      by (auto simp: parse_token_def)
  next
    case KeyRelease
    with ok fields have u: "ordinary_usage v \<or> modifier_usage v" by simp
    then have "parse_number (decimal v) 231 = Some v"
      using usage_le [OF u] by (simp add: parse_number_limits(3))
    with l u show ?thesis using usage_le [OF u] decimal_short [of v] fields KeyRelease
      by (auto simp: parse_token_def)
  next
    case MousePress
    then show ?thesis using ok fields button_char_bit(2) [of v]
      by (force simp add: parse_token_def Let_def del: button_char.simps button_bit.simps)
  next
    case MouseRelease
    then show ?thesis using ok fields button_char_bit(2) [of v]
      by (force simp add: parse_token_def Let_def del: button_char.simps button_bit.simps)
  qed (use ok fields in \<open>auto simp: parse_token_def parse_number_limits sequence_limits\<close>)
qed

lemma take2_eq: "take 2 t = [a, b] \<Longrightarrow> t = a # b # drop 2 t"
  by (metis append_Cons append_Nil append_take_drop_id)

lemma parse_token_only:
  assumes "parse_token t = Some op" "t \<noteq> []"
  shows "op_ok op \<and> t = show_op op"
proof -
  obtain c t' where t: "t = c # t'" using assms(2) by (cases t) auto
  consider (d) "c = CHR ''d''" | (w) "c = CHR ''w''"
    | (kp) "take 2 t = ''kp''" | (kr) "take 2 t = ''kr''"
    | (mp) "take 2 t = ''mp''" "length t = 3" | (mr) "take 2 t = ''mr''" "length t = 3"
  proof -
    have "hd t = CHR ''d'' \<or> hd t = CHR ''w'' \<or> take 2 t = ''kp'' \<or> take 2 t = ''kr''
        \<or> (take 2 t = ''mp'' \<or> take 2 t = ''mr'') \<and> length t = 3"
      by (rule ccontr) (use assms(1) in \<open>auto simp: parse_token_def\<close>)
    with that t show ?thesis by auto
  qed
  then show ?thesis
  proof cases
    case d
    with assms show ?thesis
      by (auto simp: parse_token_def t parse_number_limits sequence_limits)
  next
    case w
    with assms show ?thesis
      by (auto simp: parse_token_def t parse_number_limits sequence_limits)
  next
    case kp
    from take2_eq [OF kp] obtain r where r: "t = CHR ''k'' # CHR ''p'' # r" by metis
    with assms show ?thesis
      by (auto simp: parse_token_def parse_number_limits split: if_splits option.splits)
  next
    case kr
    from take2_eq [OF kr] obtain r where r: "t = CHR ''k'' # CHR ''r'' # r" by metis
    with assms show ?thesis
      by (auto simp: parse_token_def parse_number_limits split: if_splits option.splits)
  next
    case mp
    from take2_eq [OF mp(1)] obtain r where r: "t = CHR ''m'' # CHR ''p'' # r" by metis
    with mp(2) obtain b where b: "t = [CHR ''m'', CHR ''p'', b]" by (auto simp: length_Suc_conv)
    with assms button_char_bit(1) [of b] show ?thesis
      by (simp add: parse_token_def Let_def split: if_splits del: button_char.simps button_bit.simps)
        auto
  next
    case mr
    from take2_eq [OF mr(1)] obtain r where r: "t = CHR ''m'' # CHR ''r'' # r" by metis
    with mr(2) obtain b where b: "t = [CHR ''m'', CHR ''r'', b]" by (auto simp: length_Suc_conv)
    with assms button_char_bit(1) [of b] show ?thesis
      by (simp add: parse_token_def Let_def split: if_splits del: button_char.simps button_bit.simps)
        auto
  qed
qed

section \<open>The token loop\<close>

lemma render_split:
  assumes "ops \<noteq> []"
  shows "takeWhile (\<lambda>c. c \<noteq> CHR '';'') (render ops) = show_op (hd ops)"
    and "dropWhile (\<lambda>c. c \<noteq> CHR '';'') (render ops) =
      (if tl ops = [] then [] else CHR '';'' # render (tl ops))"
proof -
  have nt: "\<forall>c \<in> set (show_op op). c \<noteq> CHR '';''" for op using show_op_chars [of op] by auto
  obtain op ops' where o: "ops = op # ops'" using assms by (cases ops) auto
  show "takeWhile (\<lambda>c. c \<noteq> CHR '';'') (render ops) = show_op (hd ops)"
    using nt [of op] unfolding o
    by (cases ops') (simp_all add: takeWhile_append2 del: show_op.simps)
  show "dropWhile (\<lambda>c. c \<noteq> CHR '';'') (render ops) =
      (if tl ops = [] then [] else CHR '';'' # render (tl ops))"
    using nt [of op] unfolding o
    by (cases ops') (simp_all add: dropWhile_append2 del: show_op.simps)
qed

lemma render_Cons: "ops \<noteq> [] \<Longrightarrow> render (op # ops) = show_op op @ CHR '';'' # render ops"
  by (cases ops) (simp_all del: show_op.simps)

lemma render_nonempty: "ops \<noteq> [] \<Longrightarrow> render ops \<noteq> []"
  using show_op_nonempty by (cases ops rule: render.cases) (auto simp del: show_op.simps)

lemma parse_token_iff: "t \<noteq> [] \<Longrightarrow> parse_token t = Some op \<longleftrightarrow> op_ok op \<and> t = show_op op"
  using parse_token_shown parse_token_only by metis

definition extend_plan :: "plan \<Rightarrow> operation list \<Rightarrow> plan" where
  "extend_plan p ops = p\<lparr>operations := operations p @ ops,
     required_roles := required_roles p OR roles_of ops\<rparr>"

lemma extend_plan_Nil [simp]: "extend_plan p [] = p"
  by (simp add: extend_plan_def)

lemma extend_plan_Cons:
  "extend_plan p (op # ops) = extend_plan (p\<lparr>operations := operations p @ [op],
     required_roles := required_roles p OR operation_roles (op_kind op)\<rparr>) ops"
  by (simp add: extend_plan_def or.assoc)

lemma operations_extend_plan [simp]: "operations (extend_plan p ops) = operations p @ ops"
  by (simp add: extend_plan_def)

lemma parse_loop_render:
  "\<lbrakk>list_all op_ok ops; transitions ops sim \<noteq> None; length (operations p) + length ops \<le> kMaximumTokens\<rbrakk>
     \<Longrightarrow> parse_loop (render ops) sim p = Some (extend_plan p ops)"
proof (induction ops arbitrary: sim p)
  case Nil
  show ?case by (subst parse_loop.simps) simp
next
  case (Cons op ops)
  obtain s' where s': "apply_transition op sim = Some s'" "transitions ops s' \<noteq> None"
    using Cons.prems(2) by (cases "apply_transition op sim") auto
  define p' where "p' = p\<lparr>operations := operations p @ [op],
     required_roles := required_roles p OR operation_roles (op_kind op)\<rparr>"
  have "length (operations p') + length ops \<le> kMaximumTokens"
    using Cons.prems(3) by (simp add: p'_def)
  with Cons.IH [of s' p'] Cons.prems(1) s'(2)
  have IH: "parse_loop (render ops) s' p' = Some (extend_plan p' ops)" by simp
  have tok: "parse_token (show_op op) = Some op"
    using Cons.prems(1) by (simp add: parse_token_shown del: show_op.simps op_ok.simps)
  have ne: "render (op # ops) \<noteq> []" by (rule render_nonempty) simp
  have len: "length (operations p) \<noteq> kMaximumTokens" using Cons.prems(3) by auto
  have ren: "ops \<noteq> [] \<Longrightarrow> render ops \<noteq> []" by (rule render_nonempty)
  show ?case
    unfolding parse_loop.simps [of "render (op # ops)"] extend_plan_Cons p'_def [symmetric]
      render_split [OF list.distinct(2)]
    using ne len tok s'(1) IH ren
    by (auto simp: show_op_nonempty p'_def [symmetric] Let_def simp del: show_op.simps render.simps)
qed

lemma parse_loop_accepts:
  "\<lbrakk>parse_loop code sim p = Some p'; length (operations p) \<le> kMaximumTokens\<rbrakk> \<Longrightarrow>
     \<exists>ops. code = render ops \<and> list_all op_ok ops \<and> transitions ops sim \<noteq> None
       \<and> length (operations p) + length ops \<le> kMaximumTokens \<and> p' = extend_plan p ops"
proof (induction code sim p rule: parse_loop.induct)
  case (1 code sim p)
  show ?case
  proof (cases "code = []")
    case True
    with 1(2) have "p' = p" by (simp add: parse_loop.simps [of "[]"])
    with True 1(3) show ?thesis by (intro exI [of _ "[]"]) simp
  next
    case False
    define tok rst where "tok = takeWhile (\<lambda>c. c \<noteq> CHR '';'') code"
      and "rst = dropWhile (\<lambda>c. c \<noteq> CHR '';'') code"
    have code: "code = tok @ rst" by (simp add: tok_def rst_def)
    have eq: "parse_loop code sim p = Some p'" by (rule 1(2))
    have lt: "length (operations p) < kMaximumTokens" and tne: "tok \<noteq> []"
      using eq False 1(3) unfolding parse_loop.simps [of code] tok_def
      by (auto split: if_splits)
    obtain op where op: "parse_token tok = Some op"
      using eq False tne lt unfolding parse_loop.simps [of code]
      by (auto simp: tok_def [symmetric] split: option.splits)
    have ok: "op_ok op" "tok = show_op op" using op parse_token_only [OF op tne] by auto
    obtain s' where s': "apply_transition op sim = Some s'"
      using eq False tne lt op unfolding parse_loop.simps [of code]
      by (auto simp: tok_def [symmetric] split: option.splits)
    define q where "q = p\<lparr>operations := operations p @ [op],
       required_roles := required_roles p OR operation_roles (op_kind op)\<rparr>"
    have step: "(case rst of [] \<Rightarrow> Some q | _ # r \<Rightarrow> if r = [] then None else parse_loop r s' q) = Some p'"
      using eq False tne lt op s' unfolding parse_loop.simps [of code]
      by (cases rst) (auto simp: tok_def [symmetric] rst_def [symmetric] q_def Let_def split: if_splits)
    show ?thesis
    proof (cases rst)
      case Nil
      with step code ok s' lt show ?thesis
        by (intro exI [of _ "[op]"]) (simp add: q_def extend_plan_Cons del: show_op.simps op_ok.simps)
    next
      case (Cons c r)
      then have c: "c = CHR '';''" using hd_dropWhile [of "\<lambda>c. c \<noteq> CHR '';''" code] unfolding rst_def by simp
      from step Cons have r: "r \<noteq> []" "parse_loop r s' q = Some p'" by (auto split: if_splits)
      have "\<exists>ops. r = render ops \<and> list_all op_ok ops \<and> transitions ops s' \<noteq> None
          \<and> length (operations q) + length ops \<le> kMaximumTokens \<and> p' = extend_plan q ops"
        using "1.IH" [OF False _ tok_def rst_def tne op s' q_def Cons r(1) r(2)] lt
        by (simp add: q_def del: op_ok.simps)
      then obtain ops where ops: "r = render ops" "list_all op_ok ops" "transitions ops s' \<noteq> None"
        "length (operations q) + length ops \<le> kMaximumTokens" "p' = extend_plan q ops" by blast
      have "ops \<noteq> []" using ops(1) r(1) by auto
      with ops ok s' Cons c code show ?thesis
        by (intro exI [of _ "op # ops"])
          (simp add: render_Cons extend_plan_Cons q_def del: show_op.simps op_ok.simps render.simps)
    qed
  qed
qed

section \<open>The schedule\<close>

lemma schedule_planned:
  "d \<le> kMaximumScheduledDurationMs \<Longrightarrow> schedule ops dd d =
     (if d + planned_ms ops dd \<le> kMaximumScheduledDurationMs then Some (d + planned_ms ops dd) else None)"
proof (induction ops arbitrary: dd d)
  case (Cons op ops)
  show ?case
    using Cons.IH [of d "op_value op"] Cons.IH [of "d + op_value op" dd] Cons.IH [of "d + dd" dd]
      Cons.IH [of d dd] Cons.prems
    by (cases "op_kind op") (auto simp: is_hid_def)
qed simp

section \<open>What the parser accepts\<close>

text \<open>The plan of a printed operation list.\<close>

definition plan_of :: "operation list \<Rightarrow> hid_state \<Rightarrow> plan" where
  "plan_of ops s = \<lparr>operations = ops, scheduled_duration_ms = planned_ms ops 0,
     initial_state = s, required_roles = roles_of ops\<rparr>"

definition admissible :: "operation list \<Rightarrow> hid_state \<Rightarrow> bool" where
  "admissible ops s \<longleftrightarrow> ops \<noteq> [] \<and> length ops \<le> kMaximumTokens \<and> list_all op_ok ops
     \<and> length (render ops) \<le> kMaximumCodeBytes \<and> transitions ops s \<noteq> None
     \<and> planned_ms ops 0 \<le> kMaximumScheduledDurationMs"

lemma parse_iff:
  "parse code s = Some p \<longleftrightarrow> (\<exists>ops. code = render ops \<and> admissible ops s \<and> p = plan_of ops s)"
proof -
  define p0 where "p0 = \<lparr>operations = [], scheduled_duration_ms = 0, initial_state = s, required_roles = 0\<rparr>"
  have ext: "(extend_plan p0 ops)\<lparr>scheduled_duration_ms := planned_ms ops 0\<rparr> = plan_of ops s" for ops
    by (simp add: extend_plan_def p0_def plan_of_def)
  have ops0: "operations p0 = []" by (simp add: p0_def)
  note def = parse_def [of code s, folded p0_def]
  show ?thesis
  proof
    assume "parse code s = Some p"
    then obtain c where c: "code \<noteq> []" "length code \<le> kMaximumCodeBytes" "parse_loop code s p0 = Some c"
      and d: "map_option (\<lambda>d. c\<lparr>scheduled_duration_ms := d\<rparr>) (schedule (operations c) 0 0) = Some p"
      unfolding def by (auto split: if_splits option.splits)
    from parse_loop_accepts [OF c(3)] ops0 obtain ops where ops: "code = render ops" "list_all op_ok ops"
      "transitions ops s \<noteq> None" "length ops \<le> kMaximumTokens" "c = extend_plan p0 ops" by auto
    moreover have "ops \<noteq> []" using c(1) ops(1) by auto
    moreover have "operations c = ops" using ops(5) ops0 by simp
    ultimately show "\<exists>ops. code = render ops \<and> admissible ops s \<and> p = plan_of ops s"
      using d c(2) ext [of ops]
      by (intro exI [of _ ops]) (auto simp: admissible_def schedule_planned split: if_splits)
  next
    assume "\<exists>ops. code = render ops \<and> admissible ops s \<and> p = plan_of ops s"
    then obtain ops where a: "code = render ops" "admissible ops s" "p = plan_of ops s" by blast
    then have "parse_loop code s p0 = Some (extend_plan p0 ops)"
      by (auto simp: admissible_def ops0 intro!: parse_loop_render)
    with a ext [of ops] render_nonempty [of ops] show "parse code s = Some p"
      unfolding def by (auto simp: admissible_def schedule_planned ops0)
  qed
qed
section \<open>Transitions as set updates\<close>

text \<open>
  The abstract state: the usages that are down (keys and modifiers together) and the mouse
  buttons that are down, as button values. A key press fails only when six ordinary keys are
  already down.
\<close>

definition keys_down :: "hid_state \<Rightarrow> nat set" where
  "keys_down s = set (held (keycodes s))
     \<union> {v. modifier_usage v \<and> bit (modifiers s) (v - 224)}"

definition buttons_down :: "hid_state \<Rightarrow> nat set" where
  "buttons_down s = {2 ^ n | n. bit (mouse_buttons s) n}"

definition state_ok :: "hid_state \<Rightarrow> bool" where
  "state_ok s \<longleftrightarrow> keys_wf (keycodes s) \<and> list_all ordinary_usage (held (keycodes s))"

fun abs_transition :: "operation \<Rightarrow> nat set \<times> nat set \<Rightarrow> (nat set \<times> nat set) option" where
  "abs_transition op (K, B) =
     (case op_kind op of
        KeyPress \<Rightarrow>
          (if op_value op \<notin> K \<and> ordinary_usage (op_value op) \<and> card {k \<in> K. ordinary_usage k} = 6
           then None else Some (insert (op_value op) K, B))
      | KeyRelease \<Rightarrow> Some (K - {op_value op}, B)
      | MousePress \<Rightarrow> Some (K, insert (op_value op) B)
      | MouseRelease \<Rightarrow> Some (K, B - {op_value op})
      | _ \<Rightarrow> Some (K, B))"

definition abs_state :: "hid_state \<Rightarrow> nat set \<times> nat set" where
  "abs_state s = (keys_down s, buttons_down s)"

lemma usages_disjoint: "ordinary_usage v \<Longrightarrow> \<not> modifier_usage v"
  by (auto simp: ordinary_usage_def modifier_usage_def)

lemma keys_down_ordinary:
  "state_ok s \<Longrightarrow> {k \<in> keys_down s. ordinary_usage k} = set (held (keycodes s))"
  by (auto simp: keys_down_def state_ok_def list_all_iff usages_disjoint)

lemma held_card: "keys_wf kc \<Longrightarrow> card (set (held kc)) = length (held kc)"
  by (simp add: keys_wf_def strict_sorted_iff distinct_card)

lemma key_ok_bounds: "ordinary_usage v \<Longrightarrow> 0 < v \<and> v < 256"
  by (auto simp: ordinary_usage_def)

text \<open>The pressed or released key array is again well-formed.\<close>

lemma press_held:
  assumes wf: "keys_wf kc" and u: "0 < u" "u \<notin> set (held kc)" "length (held kc) \<noteq> 6"
  defines "kc' \<equiv> insort u (held kc) @ replicate (5 - length (held kc)) 0"
  shows "keys_wf kc' \<and> held kc' = insort u (held kc)"
proof -
  obtain ks where ks: "held kc = ks" "sorted_wrt (<) ks" "0 \<notin> set ks" "length ks \<le> 6"
    using wf by (rule keys_wfE)
  have len: "5 - length ks = 6 - length (insort u ks)" by simp
  have "length (insort u ks) \<le> 6" "0 \<notin> set (insort u ks)"
    using u ks by (auto simp: set_insort_key)
  with strict_sorted_insort [of ks u] u(2) ks(1,2) show ?thesis
    unfolding kc'_def ks(1) len by (intro keys_wfI) auto
qed

lemma release_held:
  fixes u :: nat
  assumes wf: "keys_wf kc"
  defines "kc' \<equiv> removeAll u (held kc) @ replicate (6 - length (removeAll u (held kc))) 0"
  shows "keys_wf kc' \<and> held kc' = removeAll u (held kc)"
proof -
  obtain ks where ks: "held kc = ks" "sorted_wrt (<) ks" "0 \<notin> set ks" "length ks \<le> 6"
    using wf by (rule keys_wfE)
  have "sorted_wrt (<) (removeAll u ks)" using ks(2) by (simp add: removeAll_filter_not_eq sorted_wrt_filter)
  moreover have "length (removeAll u ks) \<le> 6" using ks(4) by (simp add: removeAll_filter_not_eq order_trans [OF length_filter_le])
  ultimately show ?thesis using keys_wfI [of "removeAll u ks"] ks(1,3) unfolding kc'_def by simp
qed

lemma press_ordinary:
  assumes ok: "state_ok s" and u: "ordinary_usage u"
  shows "map_option abs_state (apply_transition \<lparr>op_kind = KeyPress, op_value = u\<rparr> s)
      = abs_transition \<lparr>op_kind = KeyPress, op_value = u\<rparr> (abs_state s)"
    and "apply_transition \<lparr>op_kind = KeyPress, op_value = u\<rparr> s = Some s' \<Longrightarrow> state_ok s'"
proof -
  have wf: "keys_wf (keycodes s)" using ok by (simp add: state_ok_def)
  have nm: "\<not> modifier_usage u" using u by (rule usages_disjoint)
  note tr = press_key [OF wf key_ok_bounds [OF u, THEN conjunct1] key_ok_bounds [OF u, THEN conjunct2] nm]
  have full: "card {k \<in> keys_down s. ordinary_usage k} = length (held (keycodes s))"
    by (simp add: keys_down_ordinary [OF ok] held_card [OF wf])
  have mem: "u \<in> keys_down s \<longleftrightarrow> u \<in> set (held (keycodes s))" using nm by (auto simp: keys_down_def)
  show "map_option abs_state (apply_transition \<lparr>op_kind = KeyPress, op_value = u\<rparr> s)
      = abs_transition \<lparr>op_kind = KeyPress, op_value = u\<rparr> (abs_state s)"
  proof (cases "u \<in> set (held (keycodes s)) \<or> length (held (keycodes s)) = 6")
    case True
    then show ?thesis using u mem by (auto simp: tr abs_state_def full insert_absorb)
  next
    case False
    with press_held [OF wf key_ok_bounds [OF u, THEN conjunct1]]
    have "keys_down (s\<lparr>keycodes := insort u (held (keycodes s))
        @ replicate (5 - length (held (keycodes s))) 0\<rparr>) = insert u (keys_down s)"
      by (auto simp: keys_down_def set_insort_key)
    with False mem show ?thesis by (simp add: tr abs_state_def full) (simp add: buttons_down_def)
  qed
  assume "apply_transition \<lparr>op_kind = KeyPress, op_value = u\<rparr> s = Some s'"
  then show "state_ok s'"
    using ok u press_held [OF wf key_ok_bounds [OF u, THEN conjunct1]]
    by (auto simp: tr state_ok_def list_all_iff set_insort_key split: if_splits)
qed

lemma release_ordinary:
  assumes ok: "state_ok s" and u: "ordinary_usage u"
  shows "map_option abs_state (apply_transition \<lparr>op_kind = KeyRelease, op_value = u\<rparr> s)
      = abs_transition \<lparr>op_kind = KeyRelease, op_value = u\<rparr> (abs_state s)"
    and "apply_transition \<lparr>op_kind = KeyRelease, op_value = u\<rparr> s = Some s' \<Longrightarrow> state_ok s'"
proof -
  have wf: "keys_wf (keycodes s)" using ok by (simp add: state_ok_def)
  have nm: "\<not> modifier_usage u" using u by (rule usages_disjoint)
  note tr = release_key [OF wf key_ok_bounds [OF u, THEN conjunct1] nm]
  show "map_option abs_state (apply_transition \<lparr>op_kind = KeyRelease, op_value = u\<rparr> s)
      = abs_transition \<lparr>op_kind = KeyRelease, op_value = u\<rparr> (abs_state s)"
    using nm release_held [OF wf, of u]
    by (auto simp: tr abs_state_def keys_down_def buttons_down_def)
  assume "apply_transition \<lparr>op_kind = KeyRelease, op_value = u\<rparr> s = Some s'"
  then show "state_ok s'"
    using ok release_held [OF wf, of u] by (auto simp: tr state_ok_def list_all_iff)
qed

lemma modifier_ops:
  assumes m: "modifier_usage u"
  shows "keys_down (s\<lparr>modifiers := modifiers s OR push_bit (u - 224) 1\<rparr>) = insert u (keys_down s)"
    and "state_ok s \<Longrightarrow>
      keys_down (s\<lparr>modifiers := modifiers s AND NOT (push_bit (u - 224) 1)\<rparr>) = keys_down s - {u}"
proof -
  have inj: "modifier_usage v \<Longrightarrow> (v - 224 = u - 224) = (v = u)" for v
    using m by (auto simp: modifier_usage_def)
  have r: "u - 224 < 8" using m by (auto simp: modifier_usage_def)
  have b: "bit (push_bit (u - 224) (1 :: u8)) n = (n = u - 224)" for n
    using r by (auto simp: bit_simps)
  have b2: "bit (2 ^ (u - 224) :: u8) n = (n = u - 224)" for n
    using r by (auto simp: bit_exp_iff)
  have lt: "modifier_usage v \<Longrightarrow> v - 224 < 8" for v by (auto simp: modifier_usage_def)
  show "keys_down (s\<lparr>modifiers := modifiers s OR push_bit (u - 224) 1\<rparr>) = insert u (keys_down s)"
    using m inj by (auto simp: keys_down_def bit_or_iff b b2)
  assume "state_ok s"
  then have "u \<notin> set (held (keycodes s))"
    using m usages_disjoint by (auto simp: state_ok_def list_all_iff)
  with m inj lt show "keys_down (s\<lparr>modifiers := modifiers s AND NOT (push_bit (u - 224) 1)\<rparr>)
      = keys_down s - {u}"
    by (auto simp: keys_down_def bit_and_iff bit_not_iff b b2)
qed

lemma button_value: "v \<in> {1, 2, 4, 8, 16} \<Longrightarrow> \<exists>i < 8. v = (2::nat) ^ i"
  by (auto intro: exI [of _ 0] exI [of _ 1] exI [of _ 2] exI [of _ 3] exI [of _ 4])

lemma button_ops:
  assumes "v \<in> {1, 2, 4, 8, 16}"
  shows "buttons_down (s\<lparr>mouse_buttons := mouse_buttons s OR word_of_nat v\<rparr>) = insert v (buttons_down s)"
    and "buttons_down (s\<lparr>mouse_buttons := mouse_buttons s AND NOT (word_of_nat v)\<rparr>) = buttons_down s - {v}"
proof -
  obtain i where i: "i < 8" "v = 2 ^ i" using button_value [OF assms] by blast
  have b: "bit (word_of_nat v :: u8) n = (n = i)" for n
    using i by (auto simp: bit_exp_iff)
  have b2: "bit (2 ^ i :: u8) n = (n = i)" for n
    using i by (auto simp: bit_exp_iff)
  have lt: "bit (mouse_buttons s) n \<Longrightarrow> n < 8" for n using bit_imp_le_length [of "mouse_buttons s" n] by simp
  show "buttons_down (s\<lparr>mouse_buttons := mouse_buttons s OR word_of_nat v\<rparr>) = insert v (buttons_down s)"
    using i by (auto simp: buttons_down_def bit_or_iff b b2)
  show "buttons_down (s\<lparr>mouse_buttons := mouse_buttons s AND NOT (word_of_nat v)\<rparr>) = buttons_down s - {v}"
    using i lt by (auto simp: buttons_down_def bit_and_iff bit_not_iff b b2)
qed

lemma transition_refines:
  assumes ok: "state_ok s" "op_ok op"
  shows "map_option abs_state (apply_transition op s) = abs_transition op (abs_state s)"
    and "apply_transition op s = Some s' \<Longrightarrow> state_ok s'"
proof -
  obtain k v where op: "op = \<lparr>op_kind = k, op_value = v\<rparr>" by (cases op)
  have kd: "keys_down (s\<lparr>mouse_buttons := b\<rparr>) = keys_down s" for b by (simp add: keys_down_def)
  have bd: "buttons_down (s\<lparr>modifiers := m\<rparr>) = buttons_down s" for m by (simp add: buttons_down_def)
  have "map_option abs_state (apply_transition op s) = abs_transition op (abs_state s)
     \<and> (\<forall>s'. apply_transition op s = Some s' \<longrightarrow> state_ok s')"
  proof (cases "(k = KeyPress \<or> k = KeyRelease) \<and> \<not> modifier_usage v")
    case True
    with ok(2) have "ordinary_usage v" by (auto simp: op)
    with True ok(1) press_ordinary release_ordinary show ?thesis unfolding op by blast
  next
    case False
    with ok modifier_ops [of v s] button_ops [of v s] usages_disjoint [of v] show ?thesis
      by (cases k) (auto simp: op apply_transition_def abs_state_def state_ok_def kd bd Let_def)
  qed
  then show "map_option abs_state (apply_transition op s) = abs_transition op (abs_state s)"
    and "apply_transition op s = Some s' \<Longrightarrow> state_ok s'" by auto
qed

fun abs_transitions :: "operation list \<Rightarrow> nat set \<times> nat set \<Rightarrow> (nat set \<times> nat set) option" where
  "abs_transitions [] a = Some a"
| "abs_transitions (op # ops) a = Option.bind (abs_transition op a) (abs_transitions ops)"

section \<open>Properties\<close>

text \<open>
  C20: The parser accepts a code exactly when it is the canonical text of one to 64 admissible
  operations of at most 320 bytes that never needs a seventh ordinary key and whose scheduled
  waits sum to at most 2500 ms, and the plan it returns is then those operations, that duration,
  the initial state and the union of the roles of the operations.
\<close>

theorem parse_exact:
  "parse code s = Some p \<longleftrightarrow> (\<exists>ops. code = render ops \<and> admissible ops s \<and> p = plan_of ops s)"
  by (rule parse_iff)

text \<open>
  C21: From a well-formed HID state (ordinary keys in ascending order, zeros behind them) any list
  of admissible operations acts on the sets of held keys and buttons as insertion and removal, it
  fails exactly when a seventh ordinary key would be needed, and the state stays well-formed.
\<close>

theorem transitions_refine:
  assumes "state_ok s" "list_all op_ok ops"
  shows "map_option abs_state (transitions ops s) = abs_transitions ops (abs_state s)
    \<and> pred_option state_ok (transitions ops s)"
  using assms
proof (induction ops arbitrary: s)
  case (Cons op ops)
  note tr = transition_refines [OF Cons.prems(1), of op]
  show ?case
  proof (cases "apply_transition op s")
    case None
    with tr(1) Cons.prems(2) show ?thesis by (simp del: op_ok.simps abs_transition.simps)
  next
    case (Some s')
    with tr Cons.prems(2) have "state_ok s'" and "abs_transition op (abs_state s) = Some (abs_state s')"
      by (auto simp del: op_ok.simps abs_transition.simps)
    with Cons.IH [of s'] Cons.prems(2) Some show ?thesis
      by (simp del: op_ok.simps abs_transition.simps)
  qed
qed simp

theorem transitions_refine_witness:
  "let s = \<lparr>modifiers = 2, keycodes = [4, 5, 6, 7, 8, 0], mouse_buttons = 0\<rparr>;
       ops = [\<lparr>op_kind = KeyPress, op_value = 30\<rparr>, \<lparr>op_kind = KeyPress, op_value = 9\<rparr>]
   in transitions ops s = None \<and> abs_transitions ops (abs_state s) = None"
proof -
  let ?s = "\<lparr>modifiers = 2, keycodes = [4, 5, 6, 7, 8, 0], mouse_buttons = 0\<rparr>"
  let ?ops = "[\<lparr>op_kind = KeyPress, op_value = 30\<rparr>, \<lparr>op_kind = KeyPress, op_value = 9\<rparr>]"
  have "state_ok ?s"
    by (simp add: state_ok_def keys_wf_def held_def ordinary_usage_def numeral_eq_Suc)
  moreover have "list_all op_ok ?ops" by (simp add: ordinary_usage_def)
  moreover have n: "transitions ?ops ?s = None" by code_simp
  ultimately have "abs_transitions ?ops (abs_state ?s) = None"
    using transitions_refine [of ?s ?ops] by simp
  with n show ?thesis by (simp add: Let_def)
qed

end
