(* ===== verification/SequenceStatus.thy ===== *)
theory SequenceStatus
  imports HidSequence
begin

text \<open>
  The packed status word of \<open>hid_sequence::Controller\<close>: state, executed count, failed token,
  terminal code and the release-owned flag share one 32-bit atomic. Every field that fits is
  read back unchanged.
\<close>

section \<open>The packed status word\<close>

datatype sequence_state = SAccepted | SRunning | SCompleted | SFailed | SAborted | SOther u32

datatype terminal_code =
    CNone | CHidBusy | CHidNotReady | CHidSafetyPending | CSessionMismatch | CSequenceTimeout
  | CSequenceAborted | COther u32

text \<open>\<open>static_cast\<close> between the enumerations and the word: \<open>SOther\<close> and \<open>COther\<close> are the
  values without an enumerator.\<close>

fun state_bits :: "sequence_state \<Rightarrow> u32" where
  "state_bits SAccepted = 0"
| "state_bits SRunning = 1"
| "state_bits SCompleted = 2"
| "state_bits SFailed = 3"
| "state_bits SAborted = 4"
| "state_bits (SOther w) = w"

fun bits_state :: "u32 \<Rightarrow> sequence_state" where
  "bits_state w = (if w = 0 then SAccepted else if w = 1 then SRunning else if w = 2 then SCompleted
     else if w = 3 then SFailed else if w = 4 then SAborted else SOther w)"

fun code_bits :: "terminal_code \<Rightarrow> u32" where
  "code_bits CNone = 0"
| "code_bits CHidBusy = 1"
| "code_bits CHidNotReady = 2"
| "code_bits CHidSafetyPending = 3"
| "code_bits CSessionMismatch = 4"
| "code_bits CSequenceTimeout = 5"
| "code_bits CSequenceAborted = 6"
| "code_bits (COther w) = w"

fun bits_code :: "u32 \<Rightarrow> terminal_code" where
  "bits_code w = (if w = 0 then CNone else if w = 1 then CHidBusy else if w = 2 then CHidNotReady
     else if w = 3 then CHidSafetyPending else if w = 4 then CSessionMismatch
     else if w = 5 then CSequenceTimeout else if w = 6 then CSequenceAborted else COther w)"

fun state_name :: "sequence_state \<Rightarrow> string" where
  "state_name SAccepted = ''accepted''"
| "state_name SRunning = ''running''"
| "state_name SCompleted = ''completed''"
| "state_name SFailed = ''failed''"
| "state_name SAborted = ''aborted''"
| "state_name (SOther w) = ''failed''"

fun terminal_code_name :: "terminal_code \<Rightarrow> string option" where
  "terminal_code_name CNone = None"
| "terminal_code_name CHidBusy = Some ''HID_BUSY''"
| "terminal_code_name CHidNotReady = Some ''HID_NOT_READY''"
| "terminal_code_name CHidSafetyPending = Some ''HID_SAFETY_PENDING''"
| "terminal_code_name CSessionMismatch = Some ''SESSION_MISMATCH''"
| "terminal_code_name CSequenceTimeout = Some ''SEQUENCE_TIMEOUT''"
| "terminal_code_name CSequenceAborted = Some ''SEQUENCE_ABORTED''"
| "terminal_code_name (COther w) = Some ''SEQUENCE_ABORTED''"

definition kStatusStateMask :: u32 where "kStatusStateMask = 0x7"
definition kStatusExecutedShift :: nat where "kStatusExecutedShift = 3"
definition kStatusExecutedMask :: u32 where "kStatusExecutedMask = 0x7f"
definition kStatusFailurePresent :: u32 where "kStatusFailurePresent = push_bit 10 1"
definition kStatusFailedTokenShift :: nat where "kStatusFailedTokenShift = 11"
definition kStatusFailedTokenMask :: u32 where "kStatusFailedTokenMask = 0x3f"
definition kStatusCodeShift :: nat where "kStatusCodeShift = 17"
definition kStatusCodeMask :: u32 where "kStatusCodeMask = 0xf"
definition kStatusReleaseOwned :: u32 where "kStatusReleaseOwned = push_bit 21 1"

lemmas status_layout = kStatusStateMask_def kStatusExecutedShift_def kStatusExecutedMask_def
  kStatusFailurePresent_def kStatusFailedTokenShift_def kStatusFailedTokenMask_def
  kStatusCodeShift_def kStatusCodeMask_def kStatusReleaseOwned_def

definition encode_status ::
  "sequence_state \<Rightarrow> u8 \<Rightarrow> bool \<Rightarrow> u8 \<Rightarrow> terminal_code \<Rightarrow> bool \<Rightarrow> u32" where
  "encode_status state executed failed_token_present failed_token code release_owned =
     state_bits state
     OR push_bit kStatusExecutedShift (ucast executed AND kStatusExecutedMask)
     OR (if failed_token_present then kStatusFailurePresent else 0)
     OR push_bit kStatusFailedTokenShift (ucast failed_token AND kStatusFailedTokenMask)
     OR push_bit kStatusCodeShift (code_bits code AND kStatusCodeMask)
     OR (if release_owned then kStatusReleaseOwned else 0)"

definition decode_state :: "u32 \<Rightarrow> sequence_state" where
  "decode_state status = bits_state (status AND kStatusStateMask)"

definition decode_executed :: "u32 \<Rightarrow> u8" where
  "decode_executed status = ucast (drop_bit kStatusExecutedShift status AND kStatusExecutedMask)"

definition decode_failed_token_present :: "u32 \<Rightarrow> bool" where
  "decode_failed_token_present status \<longleftrightarrow> status AND kStatusFailurePresent \<noteq> 0"

definition decode_failed_token :: "u32 \<Rightarrow> u8" where
  "decode_failed_token status =
     ucast (drop_bit kStatusFailedTokenShift status AND kStatusFailedTokenMask)"

definition decode_terminal_code :: "u32 \<Rightarrow> terminal_code" where
  "decode_terminal_code status =
     bits_code (drop_bit kStatusCodeShift status AND kStatusCodeMask)"

definition decode_release_owned :: "u32 \<Rightarrow> bool" where
  "decode_release_owned status \<longleftrightarrow> status AND kStatusReleaseOwned \<noteq> 0"

fun terminal_state :: "sequence_state \<Rightarrow> bool" where
  "terminal_state s \<longleftrightarrow> s = SCompleted \<or> s = SFailed \<or> s = SAborted"

text \<open>The enumerators proper.\<close>

fun proper_state :: "sequence_state \<Rightarrow> bool" where
  "proper_state (SOther w) = False"
| "proper_state _ = True"

fun proper_code :: "terminal_code \<Rightarrow> bool" where
  "proper_code (COther w) = False"
| "proper_code _ = True"

lemma state_bits_round: "proper_state s \<Longrightarrow> bits_state (state_bits s) = s"
  by (cases s) auto

lemma code_bits_round: "proper_code c \<Longrightarrow> bits_code (code_bits c) = c"
  by (cases c) auto

lemma state_bits_width: "proper_state s \<Longrightarrow> take_bit 3 (state_bits s) = state_bits s"
  by (cases s) auto

lemma code_bits_width: "proper_code c \<Longrightarrow> take_bit 4 (code_bits c) = code_bits c"
  by (cases c) auto

lemma status_masks:
  fixes w :: u32
  shows "w AND kStatusStateMask = take_bit 3 w" "w AND kStatusExecutedMask = take_bit 7 w"
    "w AND kStatusFailedTokenMask = take_bit 6 w" "w AND kStatusCodeMask = take_bit 4 w"
  by (simp_all add: status_layout take_bit_eq_mask mask_eq_exp_minus_1)

lemma status_flags:
  fixes w :: u32
  shows "(w AND kStatusFailurePresent = 0) = (\<not> bit w 10)"
    "(w AND kStatusReleaseOwned = 0) = (\<not> bit w 21)"
  using and_mask_bit [of w 10] and_mask_bit [of w 21]
  by (simp_all add: status_layout push_bit_eq_mult)

text \<open>The six fields occupy disjoint bit ranges.\<close>

lemma status_fields:
  fixes a e t c :: u32 and p r :: bool
  defines "w \<equiv> take_bit 3 a OR push_bit 3 (take_bit 7 e) OR push_bit 10 (of_bool p)
     OR push_bit 11 (take_bit 6 t) OR push_bit 17 (take_bit 4 c) OR push_bit 21 (of_bool r)"
  shows "take_bit 3 w = take_bit 3 a" "take_bit 7 (drop_bit 3 w) = take_bit 7 e"
    "bit w 10 = p" "take_bit 6 (drop_bit 11 w) = take_bit 6 t"
    "take_bit 4 (drop_bit 17 w) = take_bit 4 c" "bit w 21 = r"
proof -
  have b: "bit w n = (n < 3 \<and> bit a n \<or> 3 \<le> n \<and> n < 10 \<and> bit e (n - 3) \<or> n = 10 \<and> p
     \<or> 11 \<le> n \<and> n < 17 \<and> bit t (n - 11) \<or> 17 \<le> n \<and> n < 21 \<and> bit c (n - 17) \<or> n = 21 \<and> r)" for n
  proof -
    consider "n < 3" | "3 \<le> n" "n < 10" | "n = 10" | "11 \<le> n" "n < 17" | "17 \<le> n" "n < 21"
      | "n = 21" | "22 \<le> n" by linarith
    then show ?thesis unfolding w_def by cases (auto simp: bit_simps bit_of_bool_iff)
  qed
  show "take_bit 3 w = take_bit 3 a" by (rule bit_word_eqI) (auto simp: bit_simps b)
  show "take_bit 7 (drop_bit 3 w) = take_bit 7 e" by (rule bit_word_eqI) (auto simp: bit_simps b)
  show "bit w 10 = p" by (simp add: b)
  show "take_bit 6 (drop_bit 11 w) = take_bit 6 t" by (rule bit_word_eqI) (auto simp: bit_simps b)
  show "take_bit 4 (drop_bit 17 w) = take_bit 4 c" by (rule bit_word_eqI) (auto simp: bit_simps b)
  show "bit w 21 = r" by (simp add: b)
qed

lemma encode_fields:
  assumes "proper_state st"
  shows "encode_status st e p t c r = take_bit 3 (state_bits st) OR push_bit 3 (take_bit 7 (ucast e))
     OR push_bit 10 (of_bool p) OR push_bit 11 (take_bit 6 (ucast t))
     OR push_bit 17 (take_bit 4 (code_bits c)) OR push_bit 21 (of_bool r)"
  by (simp add: encode_status_def status_masks state_bits_width [OF assms])
    (simp add: status_layout)

lemma ucast_small:
  fixes e :: u8
  assumes "uint e < 2 ^ k"
  shows "ucast (take_bit k (ucast e :: u32)) = e"
proof -
  have "uint (take_bit k e) = uint e" using assms by (simp add: unsigned_take_bit_eq take_bit_int_eq_self)
  then have t: "take_bit k e = e" by (simp only: word_uint_eq_iff)
  show ?thesis
  proof (rule bit_word_eqI)
    fix n assume "n < LENGTH(8)"
    then show "bit (ucast (take_bit k (ucast e :: u32)) :: u8) n = bit e n"
      using arg_cong [OF t, of "\<lambda>w. bit w n"] by (auto simp: bit_simps)
  qed
qed

lemma status_word_round:
  assumes "proper_state st"
  shows "decode_state (encode_status st e p t c r) = st"
    and "e < 128 \<Longrightarrow> decode_executed (encode_status st e p t c r) = e"
    and "decode_failed_token_present (encode_status st e p t c r) = p"
    and "t < 64 \<Longrightarrow> decode_failed_token (encode_status st e p t c r) = t"
    and "proper_code c \<Longrightarrow> decode_terminal_code (encode_status st e p t c r) = c"
    and "decode_release_owned (encode_status st e p t c r) = r"
  unfolding encode_fields [OF assms] decode_state_def decode_executed_def
    decode_failed_token_present_def decode_failed_token_def decode_terminal_code_def
    decode_release_owned_def status_masks status_flags
  using assms ucast_small [of e 7] ucast_small [of t 6] word_less_def [of e 128] word_less_def [of t 64]
  by (simp_all only: status_layout status_fields)
    (simp_all add: state_bits_width code_bits_width state_bits_round code_bits_round
      del: bits_state.simps bits_code.simps)
end
