(* ===== verification/SequenceController.thy ===== *)
theory SequenceController
  imports SequenceGrammar SequenceStatus
begin

text \<open>
  \<open>hid_sequence::Controller\<close>: admission, execution, cancellation and the retained status of one
  HID sequence at a time. The backend and the clock are an environment whose answers may depend
  on everything that was called before (\<open>calls\<close>, the log of backend calls). Other tasks call
  \<open>abort\<close>, \<open>abort_for_release\<close>, \<open>retire_owner\<close> and \<open>start\<close> while the worker is in \<open>run\<close>:
  before every access to shared atomics and during every backend call, \<open>yield\<close> lets the
  environment perform any list of the single atomic actions these operations consist of. A
  compare-exchange loop is one atomic action on the word it finally exchanges.
\<close>

section \<open>State\<close>

record authority =
  au_generation :: u32
  authority_epoch :: u32
  release_epoch :: u32
  profile_activation_epoch :: u32
  active_roles :: report_mask
  au_transport :: u8
  route_generation :: u32

datatype admission_result = AdmAccepted | AdmInvalid | AdmBusy | AdmNotReady | AdmSafetyPending
  | AdmUnsupportedOperation

datatype report_result = RepAccepted | RepBusy | RepNotReady | RepSafetyPending | RepAuthorityLost

record status =
  st_sequence_id :: i32
  st_state :: sequence_state
  started :: bool
  executed :: u8
  failed_token_present :: bool
  failed_token :: u8
  st_code :: terminal_code

datatype call =
    Yield
  | ReadClock
  | BeginSequence
  | AuthorityCurrent authority
  | EndSequence authority
  | RevokeSequence
  | KeyboardReport authority u64 u8 "nat list"
  | MouseReport authority u64 u8
  | RequestSafetyRelease

record controller =
  cur_plan :: plan
  cur_authority :: authority
  active_local_owner_id :: u64
  admission_us :: u64
  next_generation :: u32
  reserved_generation :: u32
  runnable_generation :: u32
  canceled_generation :: u32
  status_owner_low :: u32
  status_owner_high :: u32
  status_generation :: u32
  status_word :: u32
  initialized :: bool
  cancel_requested :: bool
  sequence_id :: i32
  calls :: "call list"

definition controller_init :: controller where
  "controller_init =
     \<lparr>cur_plan = \<lparr>operations = [], scheduled_duration_ms = 0,
        initial_state = \<lparr>modifiers = 0, keycodes = replicate 6 0, mouse_buttons = 0\<rparr>,
        required_roles = 0\<rparr>,
      cur_authority = \<lparr>au_generation = 0, authority_epoch = 0, release_epoch = 0,
        profile_activation_epoch = 0, active_roles = 0, au_transport = 0, route_generation = 0\<rparr>,
      active_local_owner_id = 0, admission_us = 0, next_generation = 1, reserved_generation = 0,
      runnable_generation = 0, canceled_generation = 0, status_owner_low = 0,
      status_owner_high = 0, status_generation = 0, status_word = 0, initialized = False,
      cancel_requested = False, sequence_id = 0, calls = []\<rparr>"

section \<open>Single atomic actions\<close>

definition log_call :: "call \<Rightarrow> controller \<Rightarrow> controller" where
  "log_call k c = c\<lparr>calls := calls c @ [k]\<rparr>"

definition allocate_generation :: "controller \<Rightarrow> u32 option \<times> controller" where
  "allocate_generation c =
     (let candidate = next_generation c in
      if candidate = 0 then (None, c)
      else (Some candidate,
            c\<lparr>next_generation := (if candidate = - 1 then 0 else candidate + 1)\<rparr>))"

text \<open>The exchange of \<open>abort_generation\<close> and of \<open>abort_for_release\<close>.\<close>

definition abort_word :: "bool \<Rightarrow> u32 \<Rightarrow> u32" where
  "abort_word release_owned w =
     (if decode_state w = SAccepted \<or> decode_state w = SRunning
      then encode_status SAborted (decode_executed w) True (decode_executed w)
             CSequenceAborted release_owned
      else w)"

definition owner_low :: "u64 \<Rightarrow> u32" where "owner_low w = ucast w"

definition owner_high :: "u64 \<Rightarrow> u32" where "owner_high w = ucast (drop_bit 32 w)"

text \<open>What another task may do in one atomic step while the worker runs.\<close>

datatype action =
    MarkCanceled u32
  | Revoke
  | AbortWord bool
  | RequestCancel
  | RetireGeneration u32
  | Allocate

fun act :: "action \<Rightarrow> controller \<Rightarrow> controller" where
  "act (MarkCanceled g) c = c\<lparr>canceled_generation := g\<rparr>"
| "act Revoke c = log_call RevokeSequence c"
| "act (AbortWord owned) c = c\<lparr>status_word := abort_word owned (status_word c)\<rparr>"
| "act RequestCancel c = c\<lparr>cancel_requested := True\<rparr>"
| "act (RetireGeneration g) c =
     (if status_generation c = g then c\<lparr>status_generation := 0\<rparr> else c)"
| "act Allocate c = snd (allocate_generation c)"

text \<open>The answers of the backend and the clock, and the interference, from the log so far.\<close>

record env =
  begin_answer :: "call list \<Rightarrow> admission_result \<times> hid_state \<times> authority"
  current_answer :: "call list \<Rightarrow> bool"
  report_answer :: "call list \<Rightarrow> report_result"
  clock :: "call list \<Rightarrow> u64"
  others :: "call list \<Rightarrow> action list"

definition perform :: "call \<Rightarrow> env \<Rightarrow> controller \<Rightarrow> controller" where
  "perform k e c = fold act (others e (calls c)) (log_call k c)"

definition yield :: "env \<Rightarrow> controller \<Rightarrow> controller" where
  "yield = perform Yield"

definition now :: "env \<Rightarrow> controller \<Rightarrow> u64 \<times> controller" where
  "now e c = (clock e (calls c), perform ReadClock e c)"

definition authority_current :: "env \<Rightarrow> controller \<Rightarrow> bool \<times> controller" where
  "authority_current e c =
     (current_answer e (calls c), perform (AuthorityCurrent (cur_authority c)) e c)"

definition keyboard_report :: "env \<Rightarrow> u8 \<Rightarrow> nat list \<Rightarrow> controller \<Rightarrow> report_result \<times> controller" where
  "keyboard_report e m kc c = (report_answer e (calls c),
     perform (KeyboardReport (cur_authority c) (active_local_owner_id c) m kc) e c)"

definition mouse_report :: "env \<Rightarrow> u8 \<Rightarrow> controller \<Rightarrow> report_result \<times> controller" where
  "mouse_report e b c = (report_answer e (calls c),
     perform (MouseReport (cur_authority c) (active_local_owner_id c) b) e c)"

section \<open>Admission\<close>

definition initialize :: "bool \<Rightarrow> controller \<Rightarrow> bool \<times> controller" where
  "initialize task_created c =
     (if initialized c then (False, c)
      else if \<not> task_created then (False, c)
      else (True, c\<lparr>initialized := True\<rparr>))"

text \<open>\<open>start\<close> after the reservation: the admission by the backend and the publication.\<close>

definition publish_sequence :: "env \<Rightarrow> u64 \<Rightarrow> i32 \<Rightarrow> u32 \<Rightarrow> plan \<Rightarrow> authority \<Rightarrow> controller \<Rightarrow> controller" where
  "publish_sequence e owner sid generation candidate au c0 =
     (let c1 = c0\<lparr>cur_plan := candidate, cur_authority := au, active_local_owner_id := owner\<rparr>;
          (t, c2) = now e c1;
          c3 = yield e (c2\<lparr>admission_us := t\<rparr>);
          c4 = yield e (c3\<lparr>cancel_requested := (canceled_generation c3 = generation)\<rparr>);
          c5 = yield e (c4\<lparr>status_generation := 0\<rparr>);
          c6 = yield e (c5\<lparr>sequence_id := sid\<rparr>);
          c7 = yield e (c6\<lparr>status_word := encode_status SAccepted 0 False 0 CNone False\<rparr>);
          c8 = yield e (c7\<lparr>status_owner_low := owner_low owner\<rparr>);
          c9 = yield e (c8\<lparr>status_owner_high := owner_high owner\<rparr>);
          c10 = yield e (c9\<lparr>status_generation := generation\<rparr>)
      in c10\<lparr>runnable_generation := generation\<rparr>)"

definition start_reserved ::
  "env \<Rightarrow> u64 \<Rightarrow> i32 \<Rightarrow> string \<Rightarrow> u32 \<Rightarrow> controller \<Rightarrow> admission_result \<times> controller" where
  "start_reserved e owner sid code generation c =
     (let (admission, ini, au) = begin_answer e (calls c);
          c1 = perform BeginSequence e c
      in if admission \<noteq> AdmAccepted then (admission, c1\<lparr>reserved_generation := 0\<rparr>)
         else case parse code ini of
             None \<Rightarrow>
               (let c2 = perform (EndSequence au) e c1
                in (AdmInvalid, c2\<lparr>reserved_generation := 0\<rparr>))
           | Some candidate \<Rightarrow>
               if \<not> is_subset (required_roles candidate) (active_roles au) then
                 (let c2 = perform (EndSequence au) e c1
                  in (AdmUnsupportedOperation, c2\<lparr>reserved_generation := 0\<rparr>))
               else (AdmAccepted, publish_sequence e owner sid generation candidate au c1))"

definition start :: "env \<Rightarrow> u64 \<Rightarrow> i32 \<Rightarrow> string \<Rightarrow> controller \<Rightarrow> admission_result \<times> controller" where
  "start e owner sid code c0 =
     (let c = yield e c0 in
      if \<not> initialized c \<or> owner = 0 then (AdmNotReady, c)
      else case allocate_generation c of
          (None, c1) \<Rightarrow> (AdmNotReady, c1)
        | (Some generation, c1) \<Rightarrow>
            (let c2 = yield e c1 in
             if reserved_generation c2 \<noteq> 0 then (AdmBusy, c2)
             else start_reserved e owner sid code generation
                    (c2\<lparr>reserved_generation := generation\<rparr>)))"

section \<open>Status, abort and retirement\<close>

definition status :: "env \<Rightarrow> u64 \<Rightarrow> i32 \<Rightarrow> controller \<Rightarrow> status option \<times> controller" where
  "status e owner sid c0 =
     (let generation = status_generation c0; c1 = yield e c0;
          low = status_owner_low c1; c2 = yield e c1;
          high = status_owner_high c2; c3 = yield e c2
      in if generation = 0 \<or> owner = 0 \<or> low \<noteq> owner_low owner \<or> high \<noteq> owner_high owner
           \<or> sequence_id c3 \<noteq> sid
         then (None, c3)
         else
           (let c4 = yield e c3; observed = status_word c4; s = decode_state observed;
                terminal = (s = SFailed \<or> s = SAborted); c5 = yield e c4
            in (if status_generation c5 = generation then
                  Some \<lparr>st_sequence_id = sid, st_state = s, started = (s \<noteq> SAccepted),
                    executed = decode_executed observed,
                    failed_token_present = (terminal \<and> decode_failed_token_present observed),
                    failed_token = (if terminal then decode_failed_token observed else 0),
                    st_code = (if terminal then decode_terminal_code observed else CNone)\<rparr>
                else None, c5)))"

definition abort_generation :: "env \<Rightarrow> u32 \<Rightarrow> controller \<Rightarrow> controller" where
  "abort_generation e generation c0 =
     (if generation = 0 \<or> reserved_generation c0 \<noteq> generation then c0
      else
        (let c1 = yield e (c0\<lparr>canceled_generation := generation\<rparr>) in
         if reserved_generation c1 \<noteq> generation then c1
         else
           (let c2 = perform RevokeSequence e c1;
                c3 = (if status_generation c2 = generation
                      then act (AbortWord False) (yield e c2) else c2)
            in (yield e c3)\<lparr>cancel_requested := True\<rparr>)))"

definition abort_sequence :: "env \<Rightarrow> controller \<Rightarrow> controller" where
  "abort_sequence e c0 =
     (let generation = reserved_generation c0; c = yield e c0 in
      if generation = 0 then c\<lparr>cancel_requested := True\<rparr> else abort_generation e generation c)"

definition abort_for_release :: "env \<Rightarrow> controller \<Rightarrow> bool \<times> controller" where
  "abort_for_release e c0 =
     (let generation = reserved_generation c0; c = yield e c0 in
      if generation = 0 then (True, c\<lparr>cancel_requested := True\<rparr>)
      else if status_generation c \<noteq> generation then (False, c)
      else
        (let c1 = yield e c; s = decode_state (status_word c1) in
         if s = SAccepted \<or> s = SRunning then
           (let c2 = yield e (act (AbortWord True) c1);
                c3 = perform RevokeSequence e (c2\<lparr>canceled_generation := generation\<rparr>)
            in (True, c3\<lparr>cancel_requested := True\<rparr>))
         else (s = SCompleted \<or> s = SAborted \<and> decode_release_owned (status_word c1), c1)))"

text \<open>The outer loop of \<open>retire_owner\<close> repeats when the exchange fails.\<close>

partial_function (option) retire_owner :: "env \<Rightarrow> u64 \<Rightarrow> controller \<Rightarrow> controller option" where
  "retire_owner e owner c0 =
     (let generation = status_generation c0; c = yield e c0 in
      if owner = 0 \<or> generation = 0 \<or> status_owner_low c \<noteq> owner_low owner
        \<or> status_owner_high c \<noteq> owner_high owner
      then Some c
      else if status_generation c = generation
        then Some (abort_generation e generation (yield e (c\<lparr>status_generation := 0\<rparr>)))
      else retire_owner e owner c)"

definition active :: "controller \<Rightarrow> bool" where
  "active c \<longleftrightarrow> reserved_generation c \<noteq> 0"

section \<open>The worker\<close>

text \<open>The loop of \<open>wait_local\<close>: \<open>None\<close> when it never ends.\<close>

partial_function (option) wait_loop ::
  "env \<Rightarrow> u64 \<Rightarrow> u64 \<Rightarrow> controller \<Rightarrow> (bool \<times> controller) option" where
  "wait_loop e wait_deadline execution_deadline c =
     (let t = fst (now e c); c1 = snd (now e c);
          canceled = cancel_requested c1;
          current = fst (authority_current e c1);
          c2 = (if canceled then c1 else snd (authority_current e c1))
      in if canceled \<or> \<not> current then Some (False, c2)
         else
           (let d = wait_decision t wait_deadline execution_deadline in
            if execution_expired d then Some (False, c2)
            else if wait_complete d then Some (True, c2)
            else wait_loop e wait_deadline execution_deadline c2))"

definition wait_local :: "env \<Rightarrow> u32 \<Rightarrow> controller \<Rightarrow> (bool \<times> controller) option" where
  "wait_local e milliseconds c =
     (let (t, c1) = now e c in
      wait_loop e (t + ucast milliseconds * 1000)
        (admission_us c1 + word_of_nat kExecutionDeadlineMs * 1000) c1)"

definition send_report :: "env \<Rightarrow> operation_kind \<Rightarrow> hid_state \<Rightarrow> controller \<Rightarrow> report_result \<times> controller" where
  "send_report e k st c =
     (if k = KeyPress \<or> k = KeyRelease then keyboard_report e (modifiers st) (keycodes st) c
      else mouse_report e (mouse_buttons st) c)"

definition report_failure :: "report_result \<Rightarrow> terminal_code" where
  "report_failure r =
     (if r = RepBusy then CHidBusy else if r = RepSafetyPending then CHidSafetyPending
      else if r = RepAuthorityLost then CSessionMismatch else CHidNotReady)"

text \<open>\<open>execute_report\<close>: \<open>*failure\<close> is part of the result. The clock is only read when the
  backend is busy.\<close>

partial_function (option) report_loop ::
  "env \<Rightarrow> operation_kind \<Rightarrow> hid_state \<Rightarrow> u64 \<Rightarrow> terminal_code \<Rightarrow> controller
     \<Rightarrow> (bool \<times> terminal_code \<times> controller) option" where
  "report_loop e k st readiness_deadline failure c =
     (let r = fst (send_report e k st c); c1 = snd (send_report e k st c) in
      if r = RepAccepted then Some (True, failure, c1)
      else if r \<noteq> RepBusy then Some (False, report_failure r, c1)
      else if fst (now e c1) \<ge> readiness_deadline then Some (False, report_failure r, snd (now e c1))
      else Option.bind (wait_local e 1 (snd (now e c1)))
        (\<lambda>w. if fst w then report_loop e k st readiness_deadline failure (snd w)
              else Some (False, failure, snd w)))"

definition execute_report ::
  "env \<Rightarrow> operation_kind \<Rightarrow> hid_state \<Rightarrow> terminal_code \<Rightarrow> controller
     \<Rightarrow> (bool \<times> terminal_code \<times> controller) option" where
  "execute_report e k st failure c =
     (let (t, c1) = now e c in
      report_loop e k st (t + word_of_nat kOperationReadinessMs * 1000) failure c1)"

definition claim_terminal ::
  "env \<Rightarrow> u32 \<Rightarrow> sequence_state \<Rightarrow> u8 \<Rightarrow> u8 \<Rightarrow> terminal_code \<Rightarrow> controller \<Rightarrow> bool \<times> controller" where
  "claim_terminal e generation s done ftoken code c0 =
     (if status_generation c0 \<noteq> generation \<or> \<not> terminal_state s then (False, c0)
      else
        (let c = yield e c0; cur = decode_state (status_word c) in
         if terminal_state cur \<or> cur \<noteq> SRunning then (False, c)
         else (True, c\<lparr>status_word :=
                 encode_status s done (s = SFailed \<or> s = SAborted) ftoken code False\<rparr>)))"

definition publish_running_progress :: "env \<Rightarrow> u32 \<Rightarrow> u8 \<Rightarrow> controller \<Rightarrow> bool \<times> controller" where
  "publish_running_progress e generation done c0 =
     (if status_generation c0 \<noteq> generation then (False, c0)
      else
        (let c = yield e c0 in
         if decode_state (status_word c) = SRunning
         then (True, c\<lparr>status_word := encode_status SRunning done False 0 CNone False\<rparr>)
         else (False, c)))"

text \<open>The test for cancellation and loss of authority that guards each operation.\<close>

definition check_authority :: "env \<Rightarrow> u32 \<Rightarrow> controller \<Rightarrow> bool \<times> bool \<times> controller" where
  "check_authority e generation c0 =
     (let c1 = yield e c0;
          canceled = (cancel_requested c0 \<or> canceled_generation c1 = generation);
          (current, c2) = authority_current e c1
      in (canceled, \<not> current, c2))"

text \<open>The variables of the loop that survive an iteration or a \<open>break\<close>.\<close>

record locals =
  l_current :: hid_state
  default_delay :: nat
  final_state :: sequence_state
  final_code :: terminal_code
  final_token :: u8
  l_executed :: u8
  terminal_published :: bool

definition stop_canceled :: "bool \<Rightarrow> nat \<Rightarrow> locals \<Rightarrow> locals" where
  "stop_canceled canceled index l =
     l\<lparr>final_state := SAborted,
       final_code := (if canceled then CSequenceAborted else CSessionMismatch),
       final_token := word_of_nat index\<rparr>"

definition stop_timeout :: "nat \<Rightarrow> locals \<Rightarrow> locals" where
  "stop_timeout index l =
     l\<lparr>final_state := SFailed, final_code := CSequenceTimeout, final_token := word_of_nat index\<rparr>"

definition past_deadline :: "u64 \<Rightarrow> controller \<Rightarrow> bool" where
  "past_deadline t c \<longleftrightarrow> t - admission_us c \<ge> word_of_nat kExecutionDeadlineMs * 1000"

text \<open>The switch on the operation: the \<open>complete\<close> flag, the locals and the state.\<close>

definition perform_operation ::
  "env \<Rightarrow> operation \<Rightarrow> bool \<Rightarrow> locals \<Rightarrow> controller \<Rightarrow> (bool \<times> locals \<times> controller) option" where
  "perform_operation e op final l c =
     (if op_kind op = DefaultDelay then Some (True, l\<lparr>default_delay := op_value op\<rparr>, c)
      else if op_kind op = Wait then
        map_option (\<lambda>(ok, c'). (ok, l, c')) (wait_local e (word_of_nat (op_value op)) c)
      else
        (let st = (case apply_transition op (l_current l) of Some st \<Rightarrow> st | None \<Rightarrow> l_current l);
             l1 = l\<lparr>l_current := st\<rparr>
         in Option.bind (execute_report e (op_kind op) st (final_code l) c)
             (\<lambda>(ok, code, c1).
                if ok \<and> \<not> final then
                  map_option (\<lambda>(ok', c'). (ok', l1\<lparr>final_code := code\<rparr>, c'))
                    (wait_local e (word_of_nat (default_delay l)) c1)
                else Some (ok, l1\<lparr>final_code := code\<rparr>, c1))))"

text \<open>After an operation that did not complete.\<close>

definition stop_incomplete :: "bool \<Rightarrow> bool \<Rightarrow> nat \<Rightarrow> locals \<Rightarrow> locals" where
  "stop_incomplete canceled lost index l =
     l\<lparr>final_state := (if canceled \<or> lost then SAborted else SFailed),
       final_code := (if canceled then CSequenceAborted else if lost then CSessionMismatch
         else if final_code l = CNone then CSequenceTimeout else final_code l),
       final_token := word_of_nat index\<rparr>"

text \<open>The loop over the operations, \<open>index\<close> counts from the start of the plan.\<close>

fun run_loop :: "env \<Rightarrow> u32 \<Rightarrow> nat \<Rightarrow> operation list \<Rightarrow> locals \<Rightarrow> controller
    \<Rightarrow> (locals \<times> controller) option" where
  "run_loop e generation index [] l c = Some (l, c)"
| "run_loop e generation index (op # ops) l c =
     (let (canceled, lost, c1) = check_authority e generation c in
      if canceled \<or> lost then Some (stop_canceled canceled index l, c1)
      else let (t, c2) = now e c1 in
      if past_deadline t c2 then Some (stop_timeout index l, c2)
      else Option.bind (perform_operation e op (ops = []) l c2) (\<lambda>(complete, l1, c3).
        let (canceled', lost', c4) = check_authority e generation c3 in
        if \<not> complete then Some (stop_incomplete canceled' lost' index l1, c4)
        else if canceled' \<or> lost' then Some (stop_canceled canceled' index l1, c4)
        else let (t', c5) = now e c4 in
        if past_deadline t' c5 then Some (stop_timeout index l1, c5)
        else
          (let l2 = l1\<lparr>l_executed := word_of_nat (index + 1)\<rparr> in
           if ops = [] then
             (let (won, c6) = claim_terminal e generation SCompleted (l_executed l2) 0 CNone c5
              in Some (l2\<lparr>terminal_published := won\<rparr>, c6))
           else
             (let (ok, c6) = publish_running_progress e generation (l_executed l2) c5
              in if ok then run_loop e generation (index + 1) ops l2 c6 else Some (l2, c6)))))"

definition finish_run :: "env \<Rightarrow> u32 \<Rightarrow> controller \<Rightarrow> controller" where
  "finish_run e generation c0 =
     (let c = perform (EndSequence (cur_authority c0)) e c0 in
      if reserved_generation c = generation then c\<lparr>reserved_generation := 0\<rparr> else c)"

definition initial_locals :: "plan \<Rightarrow> locals" where
  "initial_locals p = \<lparr>l_current = initial_state p, default_delay = 0, final_state = SCompleted,
     final_code = CNone, final_token = 0, l_executed = 0, terminal_published = False\<rparr>"

definition publish_outcome :: "env \<Rightarrow> u32 \<Rightarrow> locals \<Rightarrow> controller \<Rightarrow> controller" where
  "publish_outcome e generation l c =
     (let c1 = yield e c;
          c2 = (if \<not> terminal_published l \<and> \<not> terminal_state (decode_state (status_word c1))
                then snd (claim_terminal e generation (final_state l) (l_executed l)
                       (final_token l) (final_code l) c1)
                else c1);
          c3 = yield e c2;
          published = status_word c3
      in if decode_state published \<noteq> SCompleted \<and> \<not> decode_release_owned published
         then perform RequestSafetyRelease e c3 else c3)"

definition run :: "env \<Rightarrow> u32 \<Rightarrow> controller \<Rightarrow> controller option" where
  "run e generation c0 =
     (if status_generation c0 \<noteq> generation then Some (finish_run e generation c0)
      else
        (let c1 = yield e c0; accepted = status_word c1 in
         if accepted \<noteq> encode_status SAccepted 0 False 0 CNone False then
           (let c2 = yield e c1;
                c3 = (if status_generation c2 = generation \<and> decode_state accepted = SAborted
                         \<and> \<not> decode_release_owned accepted
                      then perform RequestSafetyRelease e c2 else c2)
            in Some (finish_run e generation c3))
         else
           (let c2 = c1\<lparr>status_word := encode_status SRunning 0 False 0 CNone False\<rparr> in
            map_option (\<lambda>(l, c3). finish_run e generation (publish_outcome e generation l c3))
              (run_loop e generation 0 (operations (cur_plan c2)) (initial_locals (cur_plan c2)) c2))))"

text \<open>One round of the worker task after it was notified.\<close>

definition task_entry :: "env \<Rightarrow> controller \<Rightarrow> controller option" where
  "task_entry e c =
     (let generation = runnable_generation c; c1 = c\<lparr>runnable_generation := 0\<rparr> in
      if generation \<noteq> 0 then run e generation c1 else Some c1)"

end
