(* ===== verification/SequenceRun.thy ===== *)
theory SequenceRun
  imports SequenceController
begin

text \<open>
  The execution of a sequence under arbitrary backend answers and arbitrary interference: what
  the worker preserves (\<open>keeps\<close>), which reports it sends, how every run ends, and that it ends.
\<close>

section \<open>Forward movement of the status word\<close>

fun state_rank :: "sequence_state \<Rightarrow> nat" where
  "state_rank SAccepted = 0"
| "state_rank SRunning = 1"
| "state_rank _ = 2"

text \<open>A word changes only while its state is accepted or running, and never back.\<close>

definition word_fwd :: "u32 \<Rightarrow> u32 \<Rightarrow> bool" where
  "word_fwd w w' \<longleftrightarrow> w' = w \<or>
     state_rank (decode_state w) < 2 \<and> state_rank (decode_state w) \<le> state_rank (decode_state w')"

text \<open>The cleanup is transferred to another task only by a terminal word.\<close>

definition owned_terminal :: "u32 \<Rightarrow> bool" where
  "owned_terminal w \<longleftrightarrow> \<not> decode_release_owned w \<or> state_rank (decode_state w) = 2"

lemma word_fwd_refl [simp]: "word_fwd w w"
  by (simp add: word_fwd_def)

lemma word_fwd_trans: "word_fwd u v \<Longrightarrow> word_fwd v w \<Longrightarrow> word_fwd u w"
  by (auto simp: word_fwd_def)

lemma state_rank_terminal: "terminal_state s \<Longrightarrow> state_rank s = 2"
  by (cases s) auto

lemma word_fwd_terminal: "word_fwd w w' \<Longrightarrow> state_rank (decode_state w) = 2 \<Longrightarrow> w' = w"
  by (auto simp: word_fwd_def)

lemma abort_word_fwd: "word_fwd w (abort_word b w)"
  by (auto simp: abort_word_def word_fwd_def status_word_round)

lemma abort_word_owned: "owned_terminal w \<Longrightarrow> owned_terminal (abort_word b w)"
  by (simp add: abort_word_def owned_terminal_def status_word_round)

section \<open>What the worker leaves unchanged\<close>

text \<open>
  \<open>keeps P c c'\<close>: \<open>c'\<close> follows from \<open>c\<close> during a run: the plan and its authority stay, the
  reservation stays, the status word moves forward, and every logged call satisfies \<open>P\<close>.
\<close>

definition keeps :: "(call \<Rightarrow> bool) \<Rightarrow> controller \<Rightarrow> controller \<Rightarrow> bool" where
  "keeps P c c' \<longleftrightarrow>
     cur_plan c' = cur_plan c \<and> cur_authority c' = cur_authority c
     \<and> active_local_owner_id c' = active_local_owner_id c \<and> admission_us c' = admission_us c
     \<and> reserved_generation c' = reserved_generation c
     \<and> word_fwd (status_word c) (status_word c')
     \<and> (owned_terminal (status_word c) \<longrightarrow> owned_terminal (status_word c'))
     \<and> (\<exists>ext. calls c' = calls c @ ext \<and> list_all P ext)"

named_theorems keeps_intros \<open>operations of the worker that satisfy \<open>keeps\<close>\<close>

lemma keeps_refl [simp, keeps_intros]: "keeps P c c"
  by (simp add: keeps_def)

lemma keeps_trans [trans]: "keeps P a b \<Longrightarrow> keeps P b c \<Longrightarrow> keeps P a c"
  unfolding keeps_def by (auto elim: word_fwd_trans)

text \<open>The calls other tasks log on the side.\<close>

definition side_ok :: "(call \<Rightarrow> bool) \<Rightarrow> bool" where
  "side_ok P \<longleftrightarrow> P Yield \<and> P ReadClock \<and> P RevokeSequence \<and> (\<forall>a. P (AuthorityCurrent a))"

lemma act_keeps [keeps_intros]: "P RevokeSequence \<Longrightarrow> keeps P c (act a c)"
  by (cases a) (auto simp: keeps_def log_call_def abort_word_fwd abort_word_owned
      allocate_generation_def Let_def)

lemma acts_keep: "P RevokeSequence \<Longrightarrow> keeps P c (fold act as c)"
proof (induction as arbitrary: c)
  case (Cons a as)
  then show ?case using keeps_trans [OF act_keeps [of P c a]] by simp
qed simp

lemma perform_keeps [keeps_intros]: "P k \<Longrightarrow> P RevokeSequence \<Longrightarrow> keeps P c (perform k e c)"
  unfolding perform_def
  by (rule keeps_trans [OF _ acts_keep]) (simp_all add: keeps_def log_call_def)

lemma yield_keeps [keeps_intros]: "side_ok P \<Longrightarrow> keeps P c (yield e c)"
  unfolding yield_def by (rule perform_keeps) (simp_all add: side_ok_def)

lemma now_keeps [keeps_intros]: "side_ok P \<Longrightarrow> keeps P c (snd (now e c))"
  unfolding now_def by (simp add: perform_keeps side_ok_def)

lemma current_keeps [keeps_intros]: "side_ok P \<Longrightarrow> keeps P c (snd (authority_current e c))"
  unfolding authority_current_def by (simp add: perform_keeps side_ok_def)

lemma wait_loop_keeps:
  assumes P: "side_ok P" and w: "wait_loop e wd xd c = Some y"
  shows "keeps P c (snd y)"
proof (rule wait_loop.raw_induct [of "\<lambda>e wd xd c y. keeps P c (snd y)", OF _ w])
  fix wl :: "env \<Rightarrow> u64 \<Rightarrow> u64 \<Rightarrow> controller \<Rightarrow> (bool \<times> controller) option"
    and e wd xd c and y :: "bool \<times> controller"
  assume IH: "\<And>e wd xd c y. wl e wd xd c = Some y \<Longrightarrow> keeps P c (snd y)"
  let ?c1 = "snd (now e c)"
  let ?c2 = "if cancel_requested ?c1 then ?c1 else snd (authority_current e ?c1)"
  have k: "keeps P c ?c2"
    using keeps_trans [OF now_keeps [OF P] current_keeps [OF P]] now_keeps [OF P] by simp
  assume "(let t = fst (now e c); c1 = snd (now e c); canceled = cancel_requested c1;
      current = fst (authority_current e c1);
      c2 = if canceled then c1 else snd (authority_current e c1)
    in if canceled \<or> \<not> current then Some (False, c2)
       else let d = wait_decision t wd xd
         in if execution_expired d then Some (False, c2)
            else if wait_complete d then Some (True, c2) else wl e wd xd c2) = Some y"
  with k IH [of e wd xd ?c2] show "keeps P c (snd y)"
    by (auto simp: Let_def split: if_splits intro: keeps_trans)
qed

lemma wait_keeps: "side_ok P \<Longrightarrow> wait_local e ms c = Some y \<Longrightarrow> keeps P c (snd y)"
  unfolding wait_local_def case_prod_unfold Let_def
  by (rule keeps_trans [OF now_keeps wait_loop_keeps])

text \<open>A report call of the running sequence.\<close>

definition sends_ok :: "(call \<Rightarrow> bool) \<Rightarrow> operation_kind \<Rightarrow> hid_state \<Rightarrow> controller \<Rightarrow> bool" where
  "sends_ok P k st c \<longleftrightarrow>
     P (if k = KeyPress \<or> k = KeyRelease
        then KeyboardReport (cur_authority c) (active_local_owner_id c) (modifiers st) (keycodes st)
        else MouseReport (cur_authority c) (active_local_owner_id c) (mouse_buttons st))"

lemma sends_ok_keeps: "keeps Q c c' \<Longrightarrow> sends_ok P k st c' = sends_ok P k st c"
  by (simp add: sends_ok_def keeps_def)

lemma send_keeps: "side_ok P \<Longrightarrow> sends_ok P k st c \<Longrightarrow> keeps P c (snd (send_report e k st c))"
  by (auto simp: send_report_def keyboard_report_def mouse_report_def sends_ok_def side_ok_def
      intro!: perform_keeps split: if_splits)

lemma report_loop_keeps:
  assumes P: "side_ok P" and w: "report_loop e k st rd fl c = Some y" and s: "sends_ok P k st c"
  shows "keeps P c (snd (snd y))"
proof -
  have "sends_ok P k st c \<longrightarrow> keeps P c (snd (snd y))"
  proof (rule report_loop.raw_induct
      [of "\<lambda>e k st rd fl c y. sends_ok P k st c \<longrightarrow> keeps P c (snd (snd y))", OF _ w])
    fix rl :: "env \<Rightarrow> operation_kind \<Rightarrow> hid_state \<Rightarrow> u64 \<Rightarrow> terminal_code \<Rightarrow> controller
        \<Rightarrow> (bool \<times> terminal_code \<times> controller) option"
      and e k st rd fl c and y :: "bool \<times> terminal_code \<times> controller"
    assume IH: "\<And>e k st rd fl c y. rl e k st rd fl c = Some y \<Longrightarrow>
      sends_ok P k st c \<longrightarrow> keeps P c (snd (snd y))"
    assume b: "(let r = fst (send_report e k st c); c1 = snd (send_report e k st c) in
      if r = RepAccepted then Some (True, fl, c1)
      else if r \<noteq> RepBusy then Some (False, report_failure r, c1)
      else if fst (now e c1) \<ge> rd then Some (False, report_failure r, snd (now e c1))
      else Option.bind (wait_local e 1 (snd (now e c1)))
        (\<lambda>w. if fst w then rl e k st rd fl (snd w) else Some (False, fl, snd w))) = Some y"
    show "sends_ok P k st c \<longrightarrow> keeps P c (snd (snd y))"
    proof
      assume s: "sends_ok P k st c"
      let ?c1 = "snd (send_report e k st c)"
      have k1: "keeps P c ?c1" by (rule send_keeps [OF P s])
      have k2: "keeps P c (snd (now e ?c1))" by (rule keeps_trans [OF k1 now_keeps [OF P]])
      show "keeps P c (snd (snd y))"
      proof (cases "wait_local e 1 (snd (now e ?c1))")
        case None
        with b k1 k2 show ?thesis by (auto simp: Let_def split: if_splits)
      next
        case (Some w)
        then have k3: "keeps P c (snd w)" by (rule keeps_trans [OF k2 wait_keeps [OF P]])
        moreover have "sends_ok P k st (snd w)" using s sends_ok_keeps [OF k3] by simp
        ultimately have "rl e k st rd fl (snd w) = Some y \<Longrightarrow> keeps P c (snd (snd y))"
          using IH keeps_trans by blast
        with b k1 k2 k3 Some show ?thesis by (auto simp: Let_def split: if_splits)
      qed
    qed
  qed
  with s show ?thesis by simp
qed

lemma execute_report_keeps:
  assumes P: "side_ok P" and w: "execute_report e k st fl c = Some y" and s: "sends_ok P k st c"
  shows "keeps P c (snd (snd y))"
proof -
  have k: "keeps P c (snd (now e c))" by (rule now_keeps [OF P])
  with s have "sends_ok P k st (snd (now e c))" by (simp add: sends_ok_keeps)
  with w k show ?thesis
    unfolding execute_report_def case_prod_unfold Let_def
    by (intro keeps_trans [OF k report_loop_keeps [OF P]])
qed

lemma check_authority_keeps: "side_ok P \<Longrightarrow> keeps P c (snd (snd (check_authority e g c)))"
  unfolding check_authority_def
  by (auto simp: Let_def case_prod_unfold intro: keeps_trans yield_keeps current_keeps)

lemma store_keeps:
  assumes "decode_state (status_word c) = SRunning" "proper_state s" "1 \<le> state_rank s"
  shows "keeps P c (c\<lparr>status_word := encode_status s d f t k False\<rparr>)"
  using assms by (simp add: keeps_def word_fwd_def owned_terminal_def status_word_round)

lemma claim_terminal_keeps: "side_ok P \<Longrightarrow> keeps P c (snd (claim_terminal e g s d t k c))"
  unfolding claim_terminal_def
  by (cases s) (auto simp: Let_def intro!: yield_keeps keeps_trans [OF yield_keeps store_keeps])

lemma publish_running_keeps: "side_ok P \<Longrightarrow> keeps P c (snd (publish_running_progress e g d c))"
  unfolding publish_running_progress_def
  by (auto simp: Let_def intro!: yield_keeps keeps_trans [OF yield_keeps store_keeps])

definition next_state :: "operation \<Rightarrow> hid_state \<Rightarrow> hid_state" where
  "next_state op st = (case apply_transition op st of Some st' \<Rightarrow> st' | None \<Rightarrow> st)"

definition op_sends_ok :: "(call \<Rightarrow> bool) \<Rightarrow> operation \<Rightarrow> hid_state \<Rightarrow> controller \<Rightarrow> bool" where
  "op_sends_ok P op st c \<longleftrightarrow> (is_hid (op_kind op) \<longrightarrow> sends_ok P (op_kind op) (next_state op st) c)"

lemma perform_operation_keeps:
  assumes P: "side_ok P" and w: "perform_operation e op fin l c = Some (ok, l', c')"
    and s: "op_sends_ok P op (l_current l) c"
  defines "st \<equiv> next_state op (l_current l)"
  shows "keeps P c c' \<and> l_current l' = st \<and> l_executed l' = l_executed l
    \<and> terminal_published l' = terminal_published l \<and> final_state l' = final_state l"
proof (cases "is_hid (op_kind op)")
  case False
  then have "op_kind op = DefaultDelay \<or> op_kind op = Wait"
    by (cases "op_kind op") (auto simp: is_hid_def)
  moreover from this have "st = l_current l" by (auto simp: st_def next_state_def apply_transition_def)
  ultimately show ?thesis using w wait_keeps [OF P, of e "word_of_nat (op_value op)" c]
    by (auto simp: perform_operation_def)
next
  case True
  then have nk: "op_kind op \<noteq> DefaultDelay" "op_kind op \<noteq> Wait" by (auto simp: is_hid_def)
  have s': "sends_ok P (op_kind op) st c" using s True by (simp add: op_sends_ok_def st_def)
  from w nk obtain ok1 code c1 where x: "execute_report e (op_kind op) st (final_code l) c = Some (ok1, code, c1)"
    and r: "(if ok1 \<and> \<not> fin then
               map_option (\<lambda>(ok', c'). (ok', l\<lparr>l_current := st, final_code := code\<rparr>, c'))
                 (wait_local e (word_of_nat (default_delay l)) c1)
             else Some (ok1, l\<lparr>l_current := st, final_code := code\<rparr>, c1)) = Some (ok, l', c')"
    by (auto simp: perform_operation_def Let_def bind_eq_Some_conv st_def next_state_def split: if_splits)
  have k: "keeps P c c1" using execute_report_keeps [OF P x s'] by simp
  show ?thesis
  proof (cases "ok1 \<and> \<not> fin")
    case True
    with r obtain w where "wait_local e (word_of_nat (default_delay l)) c1 = Some w" "c' = snd w"
      "l' = l\<lparr>l_current := st, final_code := code\<rparr>" by auto
    with keeps_trans [OF k wait_keeps [OF P, of e "word_of_nat (default_delay l)" c1 w]]
    show ?thesis by simp
  next
    case False
    with r k show ?thesis by auto
  qed
qed


lemma op_sends_ok_keeps: "keeps Q c c' \<Longrightarrow> op_sends_ok P op st c' = op_sends_ok P op st c"
  by (simp add: op_sends_ok_def sends_ok_keeps)

text \<open>Every report the loop may still send satisfies \<open>P\<close>.\<close>

fun all_sends_ok :: "(call \<Rightarrow> bool) \<Rightarrow> operation list \<Rightarrow> hid_state \<Rightarrow> controller \<Rightarrow> bool" where
  "all_sends_ok P [] st c = True"
| "all_sends_ok P (op # ops) st c \<longleftrightarrow> op_sends_ok P op st c \<and> all_sends_ok P ops (next_state op st) c"

lemma all_sends_ok_keeps: "keeps Q c c' \<Longrightarrow> all_sends_ok P ops st c' = all_sends_ok P ops st c"
  by (induction ops arbitrary: st) (auto simp: op_sends_ok_keeps)

lemma run_loop_keeps:
  assumes P: "side_ok P"
  shows "run_loop e g i ops l c = Some (l', c') \<Longrightarrow> all_sends_ok P ops (l_current l) c \<Longrightarrow> keeps P c c'"
proof (induction ops arbitrary: i l c)
  case (Cons op ops)
  obtain cn ls c1 where chk: "check_authority e g c = (cn, ls, c1)" by (metis prod_cases3)
  have k1: "keeps P c c1" using check_authority_keeps [OF P, of c e g] by (simp add: chk)
  obtain t c2 where n: "now e c1 = (t, c2)" by fastforce
  have k2: "keeps P c c2" using keeps_trans [OF k1 now_keeps [OF P, of c1 e]] by (simp add: n)
  show ?case
  proof (cases "cn \<or> ls \<or> past_deadline t c2")
    case True
    with Cons.prems(1) k1 k2 show ?thesis by (auto simp: chk n split: if_splits)
  next
    case False
    obtain ok l1 c3 where po: "perform_operation e op (ops = []) l c2 = Some (ok, l1, c3)"
      using Cons.prems(1) False by (auto simp: chk n bind_eq_Some_conv)
    have "op_sends_ok P op (l_current l) c2" using Cons.prems(2) op_sends_ok_keeps [OF k2] by simp
    from perform_operation_keeps [OF P po this]
    have p: "keeps P c2 c3" "l_current l1 = next_state op (l_current l)" by auto
    have k3: "keeps P c c3" by (rule keeps_trans [OF k2 p(1)])
    obtain cn' ls' c4 where chk': "check_authority e g c3 = (cn', ls', c4)" by (metis prod_cases3)
    have k4: "keeps P c c4" using keeps_trans [OF k3 check_authority_keeps [OF P, of c3 e g]] by (simp add: chk')
    obtain t' c5 where n': "now e c4 = (t', c5)" by fastforce
    have k5: "keeps P c c5" using keeps_trans [OF k4 now_keeps [OF P, of c4 e]] by (simp add: n')
    define l2 where "l2 = l1\<lparr>l_executed := word_of_nat (i + 1)\<rparr>"
    obtain won c6 where cl: "claim_terminal e g SCompleted (l_executed l2) 0 CNone c5 = (won, c6)" by fastforce
    have k6: "keeps P c c6" using keeps_trans [OF k5 claim_terminal_keeps [OF P]] cl by (metis snd_conv)
    obtain pok c7 where pr: "publish_running_progress e g (l_executed l2) c5 = (pok, c7)" by fastforce
    have k7: "keeps P c c7" using keeps_trans [OF k5 publish_running_keeps [OF P]] pr by (metis snd_conv)
    have ih: "run_loop e g (i + 1) ops l2 c7 = Some (l', c') \<Longrightarrow> keeps P c c'"
      using Cons.IH [of "i + 1" l2 c7] Cons.prems(2) all_sends_ok_keeps [OF k7] p(2) k7
      by (auto simp: l2_def intro: keeps_trans)
    note cl' = cl [unfolded l2_def, simplified] and pr' = pr [unfolded l2_def, simplified]
      and ih' = ih [unfolded l2_def, simplified]
    from Cons.prems(1) False k4 k5 k6 k7 ih' show ?thesis
      by (auto simp: chk n po chk' n' cl' pr' Let_def split: if_splits)
  qed
qed simp

section \<open>The end of a run\<close>

lemma yield_word: "word_fwd (status_word c) (status_word (perform k e c))"
  using perform_keeps [of "\<lambda>_. True" k c e] by (simp add: keeps_def)

text \<open>Calls that end or begin a sequence, or request the safety release, are not made in the loop.\<close>

fun bracket_call :: "call \<Rightarrow> bool" where
  "bracket_call BeginSequence = True"
| "bracket_call (EndSequence a) = True"
| "bracket_call RequestSafetyRelease = True"
| "bracket_call k = False"

fun report_call :: "call \<Rightarrow> bool" where
  "report_call (KeyboardReport a ow m kc) = True"
| "report_call (MouseReport a ow b) = True"
| "report_call k = False"

text \<open>Nothing but interference: no report and no bracket.\<close>

definition side_call :: "call \<Rightarrow> bool" where
  "side_call k \<longleftrightarrow> \<not> bracket_call k \<and> \<not> report_call k"

lemma side_ok_simps: "side_ok side_call" "side_ok (\<lambda>k. \<not> bracket_call k)"
  by (auto simp: side_ok_def side_call_def)

lemma perform_log:
  "\<exists>ext. calls (perform k e c) = calls c @ k # ext \<and> list_all side_call ext"
proof -
  have "keeps side_call (log_call k c) (perform k e c)"
    unfolding perform_def by (rule acts_keep) (simp add: side_call_def)
  then show ?thesis by (auto simp: keeps_def log_call_def)
qed

definition released_or_settled :: "call list \<Rightarrow> u32 \<Rightarrow> bool" where
  "released_or_settled log w \<longleftrightarrow>
     decode_state w = SCompleted \<or> decode_release_owned w \<or>
     (\<exists>pre post. log = pre @ RequestSafetyRelease # post \<and> list_all side_call post)"

lemma publish_outcome_settles:
  fixes e :: env and g :: u32 and l :: locals and c :: controller
  assumes own: "owned_terminal (status_word c)"
  defines "c' \<equiv> publish_outcome e g l c"
  shows "\<exists>log. calls c' = calls c @ log \<and> list_all (\<lambda>k. \<not> report_call k \<and> (\<forall>a. k \<noteq> EndSequence a)) log
      \<and> released_or_settled log (status_word c')
      \<and> (state_rank (decode_state (status_word c')) = 2 \<or> \<not> decode_release_owned (status_word c'))
      \<and> cur_authority c' = cur_authority c \<and> reserved_generation c' = reserved_generation c"
proof -
  define c1 where "c1 = yield e c"
  define c2 where "c2 = (if \<not> terminal_published l \<and> \<not> terminal_state (decode_state (status_word c1))
    then snd (claim_terminal e g (final_state l) (l_executed l) (final_token l) (final_code l) c1) else c1)"
  define c3 where "c3 = yield e c2"
  have k1: "keeps side_call c c1" unfolding c1_def by (intro yield_keeps side_ok_simps)
  have k2: "keeps side_call c1 c2" unfolding c2_def using claim_terminal_keeps [OF side_ok_simps(1)] by auto
  have k: "keeps side_call c c3"
    unfolding c3_def by (rule keeps_trans [OF keeps_trans [OF k1 k2] yield_keeps [OF side_ok_simps(1)]])
  then obtain ext where ext: "calls c3 = calls c @ ext" "list_all side_call ext"
    and own3: "owned_terminal (status_word c3)" using own by (auto simp: keeps_def)
  have c': "c' = (if decode_state (status_word c3) \<noteq> SCompleted \<and> \<not> decode_release_owned (status_word c3)
    then perform RequestSafetyRelease e c3 else c3)"
    unfolding c'_def publish_outcome_def Let_def c3_def c2_def c1_def by (rule refl)
  show ?thesis
  proof (cases "decode_state (status_word c3) \<noteq> SCompleted \<and> \<not> decode_release_owned (status_word c3)")
    case False
    with c' ext own3 k show ?thesis
      by (intro exI [of _ ext])
        (auto simp: released_or_settled_def owned_terminal_def keeps_def side_call_def list_all_iff)
  next
    case True
    obtain ext' where e': "calls (perform RequestSafetyRelease e c3) = calls c3 @ RequestSafetyRelease # ext'"
      "list_all side_call ext'" using perform_log by blast
    have kk: "keeps (\<lambda>_. True) c3 (perform RequestSafetyRelease e c3)" by (simp add: perform_keeps)
    have "released_or_settled (ext @ RequestSafetyRelease # ext') w" for w
      unfolding released_or_settled_def using e'(2) by blast
    with True c' ext e' k kk own3 show ?thesis
      by (intro exI [of _ "ext @ RequestSafetyRelease # ext'"])
        (auto simp: owned_terminal_def keeps_def side_call_def list_all_iff)
  qed
qed
lemma finish_run_ends:
  assumes "reserved_generation c = g" "g \<noteq> 0"
  shows "\<exists>ext. calls (finish_run e g c) = calls c @ EndSequence (cur_authority c) # ext \<and> list_all side_call ext
      \<and> reserved_generation (finish_run e g c) = 0
      \<and> word_fwd (status_word c) (status_word (finish_run e g c))"
proof -
  obtain ext where ext: "calls (perform (EndSequence (cur_authority c)) e c)
      = calls c @ EndSequence (cur_authority c) # ext" "list_all side_call ext"
    using perform_log by blast
  have k: "keeps (\<lambda>_. True) c (perform (EndSequence (cur_authority c)) e c)" by (simp add: perform_keeps)
  with ext assms show ?thesis by (auto simp: finish_run_def Let_def keeps_def)
qed

text \<open>One run: the calls before the end, then exactly one \<open>EndSequence\<close>.\<close>

definition run_closes :: "controller \<Rightarrow> controller \<Rightarrow> bool" where
  "run_closes c c' \<longleftrightarrow>
     (\<exists>log ext. calls c' = calls c @ log @ EndSequence (cur_authority c) # ext
        \<and> list_all (\<lambda>k. \<forall>a. k \<noteq> EndSequence a) log \<and> list_all side_call ext
        \<and> (list_all (\<lambda>k. \<not> report_call k) log \<or> released_or_settled log (status_word c')))
     \<and> reserved_generation c' = 0"

lemma settled_final:
  assumes s: "released_or_settled log w" and t: "state_rank (decode_state w) = 2 \<or> \<not> decode_release_owned w"
    and f: "word_fwd w w'"
  shows "released_or_settled (pre @ log) w'"
proof -
  consider (d) "decode_state w = SCompleted \<or> decode_release_owned w"
    | (r) pre' post where "log = pre' @ RequestSafetyRelease # post" "list_all side_call post"
    using s unfolding released_or_settled_def by blast
  then show ?thesis
  proof cases
    case d
    with t have "state_rank (decode_state w) = 2" by auto
    with f have "w' = w" by (rule word_fwd_terminal)
    with d show ?thesis by (auto simp: released_or_settled_def)
  next
    case r
    then have "pre @ log = (pre @ pre') @ RequestSafetyRelease # post" by simp
    with r(2) show ?thesis unfolding released_or_settled_def by blast
  qed
qed

lemma all_sends_unbracketed: "all_sends_ok (\<lambda>k. \<not> bracket_call k) ops st c"
  by (induction ops arbitrary: st) (auto simp: op_sends_ok_def sends_ok_def)

lemma not_reports_ext: "list_all side_call ext \<Longrightarrow> list_all (\<lambda>k. \<not> report_call k \<and> (\<forall>a. k \<noteq> EndSequence a)) ext"
  by (auto simp: list_all_iff side_call_def)

lemma quiet_run_closes:
  assumes "reserved_generation c = g" "g \<noteq> 0" and k: "cur_authority c1 = cur_authority c"
    "reserved_generation c1 = reserved_generation c"
    and l: "calls c1 = calls c @ log" "list_all (\<lambda>k. \<not> report_call k \<and> (\<forall>a. k \<noteq> EndSequence a)) log"
  shows "run_closes c (finish_run e g c1)"
proof -
  obtain ext where "calls (finish_run e g c1) = calls c1 @ EndSequence (cur_authority c1) # ext"
    "list_all side_call ext" "reserved_generation (finish_run e g c1) = 0"
    using finish_run_ends [of c1 g e] assms by auto
  with l k show ?thesis unfolding run_closes_def
    by (intro conjI exI [of _ log] exI [of _ ext]) (auto simp: list_all_iff)
qed

lemma run_closes_run:
  assumes r: "run e g c = Some c'" and res: "reserved_generation c = g" "g \<noteq> 0"
  shows "run_closes c c'"
proof (cases "status_generation c \<noteq> g")
  case True
  with r have "c' = finish_run e g c" by (simp add: run_def)
  then show ?thesis using quiet_run_closes [OF res, of c "[]"] by simp
next
  case False
  let ?c1 = "yield e c" and ?acc = "encode_status SAccepted 0 False 0 CNone False"
  have k1: "keeps side_call c ?c1" by (rule yield_keeps [OF side_ok_simps(1)])
  show ?thesis
  proof (cases "status_word ?c1 = ?acc")
    case ne: False
    let ?c2 = "yield e ?c1"
    have k2: "keeps side_call c ?c2" by (rule keeps_trans [OF k1 yield_keeps [OF side_ok_simps(1)]])
    then obtain ext where ext: "calls ?c2 = calls c @ ext" "list_all side_call ext" by (auto simp: keeps_def)
    let ?c3 = "if status_generation ?c2 = g \<and> decode_state (status_word ?c1) = SAborted
         \<and> \<not> decode_release_owned (status_word ?c1) then perform RequestSafetyRelease e ?c2 else ?c2"
    have c': "c' = finish_run e g ?c3" using r False ne by (simp add: run_def Let_def)
    obtain ext' where e': "calls (perform RequestSafetyRelease e ?c2) = calls ?c2 @ RequestSafetyRelease # ext'"
      "list_all side_call ext'" using perform_log by blast
    have k3: "keeps (\<lambda>_. True) c ?c3"
      using k2 keeps_trans [of "\<lambda>_. True" c ?c2 "perform RequestSafetyRelease e ?c2"] perform_keeps [of "\<lambda>_. True"]
      by (auto simp: keeps_def list_all_iff)
    show ?thesis unfolding c'
      using k3 ext e' not_reports_ext [OF ext(2)] not_reports_ext [OF e'(2)]
      by (intro quiet_run_closes [OF res, where log = "if status_generation ?c2 = g
          \<and> decode_state (status_word ?c1) = SAborted \<and> \<not> decode_release_owned (status_word ?c1)
          then ext @ RequestSafetyRelease # ext' else ext"]) (auto simp: keeps_def)
  next
    case acc: True
    define c2 where "c2 = ?c1\<lparr>status_word := encode_status SRunning 0 False 0 CNone False\<rparr>"
    let ?Q = "\<lambda>k. \<not> bracket_call k"
    have d: "decode_state (status_word ?c1) = SAccepted" by (simp add: acc status_word_round)
    have k1': "keeps ?Q c ?c1" by (rule yield_keeps [OF side_ok_simps(2)])
    have k2: "keeps ?Q c c2"
    proof (rule keeps_trans [OF k1'])
      show "keeps ?Q ?c1 c2" using d
        by (simp add: c2_def keeps_def word_fwd_def owned_terminal_def status_word_round)
    qed
    have own2: "owned_terminal (status_word c2)" by (simp add: c2_def owned_terminal_def status_word_round)
    obtain l c3 where loop: "run_loop e g 0 (operations (cur_plan c2)) (initial_locals (cur_plan c2)) c2 = Some (l, c3)"
      and c': "c' = finish_run e g (publish_outcome e g l c3)"
      using r False acc by (auto simp: run_def Let_def c2_def)
    have k23: "keeps ?Q c2 c3"
      by (rule run_loop_keeps [OF side_ok_simps(2) loop all_sends_unbracketed])
    have k3: "keeps ?Q c c3" by (rule keeps_trans [OF k2 k23])
    then obtain ext where ext: "calls c3 = calls c @ ext" "list_all ?Q ext" by (auto simp: keeps_def)
    have own3: "owned_terminal (status_word c3)" using k23 own2 by (simp add: keeps_def)
    let ?c4 = "publish_outcome e g l c3"
    from publish_outcome_settles [OF own3, of e g l] obtain log where
      log: "calls ?c4 = calls c3 @ log" "list_all (\<lambda>k. \<not> report_call k \<and> (\<forall>a. k \<noteq> EndSequence a)) log"
      and set: "released_or_settled log (status_word ?c4)"
      and trm: "state_rank (decode_state (status_word ?c4)) = 2 \<or> \<not> decode_release_owned (status_word ?c4)"
      and same: "cur_authority ?c4 = cur_authority c3" "reserved_generation ?c4 = reserved_generation c3" by blast
    obtain ext' where fin: "calls c' = calls ?c4 @ EndSequence (cur_authority ?c4) # ext'"
      "list_all side_call ext'" "reserved_generation c' = 0" "word_fwd (status_word ?c4) (status_word c')"
      unfolding c' using finish_run_ends [of ?c4 g e] same k3 res by (auto simp: keeps_def)
    have "released_or_settled (ext @ log) (status_word c')" by (rule settled_final [OF set trm fin(4)])
    moreover have "list_all (\<lambda>k. \<forall>a. k \<noteq> EndSequence a) ext" using ext(2) by (auto simp: list_all_iff)
    moreover have "cur_authority ?c4 = cur_authority c" using same k3 by (simp add: keeps_def)
    ultimately show ?thesis unfolding run_closes_def using fin ext(1) log
      by (intro conjI exI [of _ "ext @ log"] exI [of _ ext']) (auto simp: list_all_iff)
  qed
qed

section \<open>The reports of a run\<close>

definition report_of_plan :: "controller \<Rightarrow> call \<Rightarrow> bool" where
  "report_of_plan c k \<longleftrightarrow>
     (case k of
        KeyboardReport a ow m kc \<Rightarrow> a = cur_authority c \<and> ow = active_local_owner_id c \<and>
          (\<exists>n st. n \<le> length (operations (cur_plan c))
             \<and> transitions (take n (operations (cur_plan c))) (initial_state (cur_plan c)) = Some st
             \<and> m = modifiers st \<and> kc = keycodes st)
      | MouseReport a ow b \<Rightarrow> a = cur_authority c \<and> ow = active_local_owner_id c \<and>
          (\<exists>n st. n \<le> length (operations (cur_plan c))
             \<and> transitions (take n (operations (cur_plan c))) (initial_state (cur_plan c)) = Some st
             \<and> b = mouse_buttons st)
      | _ \<Rightarrow> True)"

lemma side_ok_reports: "side_ok (report_of_plan c)"
  by (simp add: side_ok_def report_of_plan_def)

lemma transitions_append: "transitions (xs @ ys) s = Option.bind (transitions xs s) (transitions ys)"
proof (induction xs arbitrary: s)
  case (Cons op xs)
  then show ?case by (cases "apply_transition op s") auto
qed simp

lemma all_sends_plan:
  assumes p: "operations (cur_plan c) = done @ ops"
    and d: "transitions done (initial_state (cur_plan c)) = Some st" and v: "transitions ops st \<noteq> None"
  shows "all_sends_ok (report_of_plan c) ops st c"
  using assms
proof (induction ops arbitrary: "done" st)
  case (Cons op ops)
  obtain st' where st': "apply_transition op st = Some st'" "transitions ops st' \<noteq> None"
    using Cons.prems(3) by (cases "apply_transition op st") auto
  have t: "transitions (done @ [op]) (initial_state (cur_plan c)) = Some st'"
    using Cons.prems(2) st'(1) by (simp add: transitions_append)
  moreover have tk: "take (Suc (length done)) (operations (cur_plan c)) = done @ [op]"
    using Cons.prems(1) by simp
  ultimately have "report_of_plan c (KeyboardReport (cur_authority c) (active_local_owner_id c) (modifiers st') (keycodes st'))"
    "report_of_plan c (MouseReport (cur_authority c) (active_local_owner_id c) (mouse_buttons st'))"
    using Cons.prems(1) by (auto simp: report_of_plan_def intro!: exI [of _ "Suc (length done)"])
  then have "op_sends_ok (report_of_plan c) op st c"
    using st'(1) by (simp add: op_sends_ok_def sends_ok_def next_state_def)
  moreover have "all_sends_ok (report_of_plan c) ops st' c"
    using Cons.IH [of "done @ [op]" st'] Cons.prems(1) t st'(2) by simp
  ultimately show ?case using st'(1) by (simp add: next_state_def)
qed simp

lemma publish_outcome_keeps:
  assumes P: "side_ok P" "P RequestSafetyRelease"
  shows "keeps P c (publish_outcome e g l c)"
proof -
  define c1 where "c1 = yield e c"
  define c2 where "c2 = (if \<not> terminal_published l \<and> \<not> terminal_state (decode_state (status_word c1))
    then snd (claim_terminal e g (final_state l) (l_executed l) (final_token l) (final_code l) c1) else c1)"
  have k1: "keeps P c c1" unfolding c1_def by (rule yield_keeps [OF P(1)])
  have k2: "keeps P c1 c2" unfolding c2_def using claim_terminal_keeps [OF P(1)] by auto
  have k3: "keeps P c (yield e c2)" by (rule keeps_trans [OF keeps_trans [OF k1 k2] yield_keeps [OF P(1)]])
  have k4: "keeps P c (perform RequestSafetyRelease e (yield e c2))"
    by (rule keeps_trans [OF k3 perform_keeps]) (use P in \<open>simp_all add: side_ok_def\<close>)
  show ?thesis using k3 k4
    unfolding publish_outcome_def Let_def c2_def c1_def by (simp split: if_splits)
qed

lemma run_reports_run:
  assumes r: "run e g c = Some c'"
    and v: "transitions (operations (cur_plan c)) (initial_state (cur_plan c)) \<noteq> None"
  shows "\<exists>ext. calls c' = calls c @ ext \<and> list_all (report_of_plan c) ext"
proof -
  let ?P = "report_of_plan c"
  note P = side_ok_reports [of c]
  have fin: "\<exists>ext. calls (finish_run e g x) = calls x @ ext \<and> list_all ?P ext" for x
  proof -
    have "keeps ?P x (perform (EndSequence (cur_authority x)) e x)"
      by (rule perform_keeps) (simp_all add: report_of_plan_def)
    then show ?thesis by (auto simp: finish_run_def Let_def keeps_def)
  qed
  have out: "keeps ?P x (publish_outcome e g l x)" for l x
    by (rule publish_outcome_keeps [OF P]) (simp add: report_of_plan_def)
  have "\<exists>x. keeps ?P c x \<and> c' = finish_run e g x"
  proof (cases "status_generation c = g")
    case False
    with r show ?thesis by (intro exI [of _ c]) (simp add: run_def)
  next
    case True
    let ?c1 = "yield e c"
    have k1: "keeps ?P c ?c1" by (rule yield_keeps [OF P])
    show ?thesis
    proof (cases "status_word ?c1 = encode_status SAccepted 0 False 0 CNone False")
      case False
      have k2: "keeps ?P c (yield e ?c1)" by (rule keeps_trans [OF k1 yield_keeps [OF P]])
      have "keeps ?P c (perform RequestSafetyRelease e (yield e ?c1))"
        by (rule keeps_trans [OF k2 perform_keeps]) (simp_all add: report_of_plan_def)
      with k2 r True False show ?thesis by (auto simp: run_def Let_def)
    next
      case acc: True
      define c2 where "c2 = ?c1\<lparr>status_word := encode_status SRunning 0 False 0 CNone False\<rparr>"
      have "decode_state (status_word ?c1) = SAccepted" by (simp add: acc status_word_round)
      then have "keeps ?P ?c1 c2"
        by (simp add: c2_def keeps_def word_fwd_def owned_terminal_def status_word_round)
      with k1 have k2: "keeps ?P c c2" by (rule keeps_trans)
      obtain l c3 where loop: "run_loop e g 0 (operations (cur_plan c2)) (initial_locals (cur_plan c2)) c2 = Some (l, c3)"
        and c': "c' = finish_run e g (publish_outcome e g l c3)"
        using r True acc by (auto simp: run_def Let_def c2_def)
      have pl: "cur_plan c2 = cur_plan c" using k2 by (simp add: keeps_def)
      have "all_sends_ok ?P (operations (cur_plan c)) (initial_state (cur_plan c)) c"
        using all_sends_plan [of c "[]"] v by simp
      then have "all_sends_ok ?P (operations (cur_plan c2)) (l_current (initial_locals (cur_plan c2))) c2"
        using all_sends_ok_keeps [OF k2] by (simp add: pl initial_locals_def)
      from run_loop_keeps [OF P loop this] have "keeps ?P c c3" using k2 by (blast intro: keeps_trans)
      with out c' show ?thesis by (blast intro: keeps_trans)
    qed
  qed
  then obtain x where x: "keeps ?P c x" "c' = finish_run e g x" by blast
  with fin [of x] show ?thesis by (auto simp: keeps_def)
qed
section \<open>Every run ends\<close>

text \<open>The clock passes the execution deadline after at most \<open>K\<close> backend calls and yields.\<close>

definition deadline_passes :: "env \<Rightarrow> u64 \<Rightarrow> nat \<Rightarrow> bool" where
  "deadline_passes e admission K \<longleftrightarrow>
     (\<forall>l. K \<le> length l \<longrightarrow> clock e l \<ge> admission + word_of_nat kExecutionDeadlineMs * 1000)"

definition later :: "controller \<Rightarrow> controller \<Rightarrow> bool" where
  "later c c' \<longleftrightarrow> admission_us c' = admission_us c \<and> length (calls c) \<le> length (calls c')"

lemma keeps_later: "keeps P c c' \<Longrightarrow> later c c'"
  by (auto simp: keeps_def later_def)

lemma later_trans: "later a b \<Longrightarrow> later b c \<Longrightarrow> later a c"
  by (auto simp: later_def)

lemma side_ok_True: "side_ok (\<lambda>_. True)"
  by (simp add: side_ok_def)

lemma now_grows: "later c (snd (now e c))" "length (calls c) < length (calls (snd (now e c)))"
  using keeps_later [OF now_keeps [OF side_ok_True]] perform_log [of ReadClock e c]
  by (auto simp: now_def)

lemmas later_steps = now_grows(1) keeps_later [OF current_keeps [OF side_ok_True]]
  keeps_later [OF check_authority_keeps [OF side_ok_True]]

lemma wait_loop_ends:
  assumes d: "deadline_passes e adm K" and a: "admission_us c = adm"
    and x: "xd = adm + word_of_nat kExecutionDeadlineMs * 1000"
  shows "\<exists>y. wait_loop e wd xd c = Some y \<and> (K \<le> length (calls c) \<longrightarrow> \<not> fst y)"
  using a
proof (induction "K - length (calls c)" arbitrary: c rule: less_induct)
  case less
  let ?c1 = "snd (now e c)"
  let ?c2 = "if cancel_requested ?c1 then ?c1 else snd (authority_current e ?c1)"
  have l: "later c ?c2" using later_trans [OF now_grows(1) later_steps(2), of c e e] now_grows(1) [of c e] by simp
  have g: "length (calls c) < length (calls ?c2)"
    using now_grows(2) [of c e] keeps_later [OF current_keeps [OF side_ok_True], of ?c1 e]
    by (auto simp: later_def)
  have t: "K \<le> length (calls c) \<Longrightarrow> fst (now e c) \<ge> xd"
    using d x by (simp add: deadline_passes_def now_def)
  show ?case
  proof (cases "K \<le> length (calls c)")
    case True
    then show ?thesis using t by (subst wait_loop.simps) (auto simp: Let_def wait_decision_def)
  next
    case False
    with g have "K - length (calls ?c2) < K - length (calls c)" by linarith
    then obtain y where "wait_loop e wd xd ?c2 = Some y"
      using less.hyps [of ?c2] less.prems l by (auto simp: later_def)
    with False show ?thesis
      by (subst wait_loop.simps) (auto simp: Let_def)
  qed
qed

lemma wait_local_ends:
  assumes d: "deadline_passes e (admission_us c) K"
  shows "\<exists>y. wait_local e ms c = Some y \<and> later c (snd y) \<and> (K \<le> length (calls c) \<longrightarrow> \<not> fst y)"
proof -
  let ?c1 = "snd (now e c)"
  have a: "admission_us ?c1 = admission_us c" using now_grows(1) [of c e] by (simp add: later_def)
  from wait_loop_ends [OF d a refl, of "fst (now e c) + ucast ms * 1000"]
  obtain y where y: "wait_local e ms c = Some y" "K \<le> length (calls ?c1) \<longrightarrow> \<not> fst y"
    by (auto simp: wait_local_def case_prod_unfold a Let_def)
  with now_grows(2) [of c e] keeps_later [OF wait_keeps [OF side_ok_True y(1)]] show ?thesis by auto
qed

lemma report_loop_ends:
  assumes d: "deadline_passes e adm K" and a: "admission_us c = adm"
  shows "\<exists>y. report_loop e k st rd fl c = Some y"
  using a
proof (induction "K - length (calls c)" arbitrary: c rule: less_induct)
  case less
  let ?c1 = "snd (send_report e k st c)"
  let ?c2 = "snd (now e ?c1)"
  have l1: "later c ?c1" by (rule keeps_later [OF send_keeps [OF side_ok_True]]) (simp add: sends_ok_def)
  then have l2: "later c ?c2" by (rule later_trans [OF _ now_grows(1)])
  have g: "length (calls c) < length (calls ?c2)"
    using l1 now_grows(2) [of ?c1 e] by (simp add: later_def)
  have "deadline_passes e (admission_us ?c2) K" using d l2 less.prems by (simp add: later_def)
  from wait_local_ends [OF this, of 1] obtain w where
    w: "wait_local e 1 ?c2 = Some w" "later ?c2 (snd w)" "K \<le> length (calls ?c2) \<longrightarrow> \<not> fst w" by auto
  show ?case
  proof (cases "fst w")
    case False
    with w show ?thesis by (subst report_loop.simps) (auto simp: Let_def)
  next
    case True
    with w have "length (calls ?c2) < K" by auto
    with g w(2) have "K - length (calls (snd w)) < K - length (calls c)" by (auto simp: later_def)
    moreover have "admission_us (snd w) = adm" using l2 w(2) less.prems by (simp add: later_def)
    ultimately obtain y where "report_loop e k st rd fl (snd w) = Some y" using less.hyps by blast
    with w show ?thesis by (cases y) (subst report_loop.simps, auto simp: Let_def)
  qed
qed

lemma perform_operation_ends:
  assumes d: "deadline_passes e (admission_us c) K"
  shows "\<exists>ok l' c'. perform_operation e op fin l c = Some (ok, l', c') \<and> later c c'"
proof -
  obtain w where w: "wait_local e (word_of_nat (op_value op)) c = Some w" "later c (snd w)"
    using wait_local_ends [OF d] by blast
  define st where "st = (case apply_transition op (l_current l) of Some st \<Rightarrow> st | None \<Rightarrow> l_current l)"
  have a: "admission_us (snd (now e c)) = admission_us c" using now_grows(1) [of c e] by (simp add: later_def)
  obtain z where "execute_report e (op_kind op) st (final_code l) c = Some z"
    using report_loop_ends [OF d a] unfolding execute_report_def case_prod_unfold Let_def by blast
  then obtain ok code c1 where
    x: "execute_report e (op_kind op) st (final_code l) c = Some (ok, code, c1)" by (cases z) auto
  have l1: "later c c1"
    using keeps_later [OF execute_report_keeps [OF side_ok_True x]] by (simp add: sends_ok_def)
  then have "deadline_passes e (admission_us c1) K" using d by (simp add: later_def)
  from wait_local_ends [OF this] obtain v where
    v: "wait_local e (word_of_nat (default_delay l)) c1 = Some v" "later c1 (snd v)" by blast
  show ?thesis using w x v l1 later_trans [OF l1 v(2)]
    by (cases w; cases v) (auto simp: perform_operation_def Let_def st_def [symmetric] later_def)
qed

lemma run_loop_ends:
  "deadline_passes e (admission_us c) K \<Longrightarrow> \<exists>l' c'. run_loop e g i ops l c = Some (l', c')"
proof (induction ops arbitrary: i l c)
  case (Cons op ops)
  obtain cn ls c1 where chk: "check_authority e g c = (cn, ls, c1)" by (metis prod_cases3)
  have l1: "later c c1" using later_steps(3) [of c e g] by (simp add: chk)
  obtain t c2 where n: "now e c1 = (t, c2)" by fastforce
  have l2: "later c c2" using later_trans [OF l1] now_grows(1) [of c1 e] by (simp add: n)
  then have "deadline_passes e (admission_us c2) K" using Cons.prems by (simp add: later_def)
  from perform_operation_ends [OF this] obtain ok l1 c3 where
    po: "perform_operation e op (ops = []) l c2 = Some (ok, l1, c3)" "later c2 c3" by blast
  obtain cn' ls' c4 where chk': "check_authority e g c3 = (cn', ls', c4)" by (metis prod_cases3)
  have l4: "later c c4" using later_trans [OF later_trans [OF l2 po(2)]] later_steps(3) [of c3 e g] by (simp add: chk')
  obtain t' c5 where n': "now e c4 = (t', c5)" by fastforce
  have l5: "later c c5" using later_trans [OF l4] now_grows(1) [of c4 e] by (simp add: n')
  define d where "d = (word_of_nat (Suc i) :: u8)"
  obtain won c6 where cl: "claim_terminal e g SCompleted d 0 CNone c5 = (won, c6)" by fastforce
  obtain pok c7 where pr: "publish_running_progress e g d c5 = (pok, c7)" by fastforce
  have "later c c7"
    using later_trans [OF l5 keeps_later [OF publish_running_keeps [OF side_ok_True]]] pr by (metis snd_conv)
  then have "deadline_passes e (admission_us c7) K" using Cons.prems by (simp add: later_def)
  then have "\<exists>l' c'. run_loop e g (Suc i) ops (l1\<lparr>l_executed := d\<rparr>) c7 = Some (l', c')" by (rule Cons.IH)
  then show ?case
    by (auto simp: chk n po(1) chk' n' Let_def d_def [symmetric] cl pr simp del: of_nat_Suc)
qed simp

lemma run_ends:
  assumes d: "deadline_passes e (admission_us c) K"
  shows "\<exists>c'. run e g c = Some c'"
proof -
  let ?c1 = "yield e c"
  let ?c2 = "?c1\<lparr>status_word := encode_status SRunning 0 False 0 CNone False\<rparr>"
  have "later c ?c1" by (rule keeps_later [OF yield_keeps [OF side_ok_True]])
  then have "deadline_passes e (admission_us ?c2) K" using d by (simp add: later_def)
  from run_loop_ends [OF this] obtain l c3 where
    "run_loop e g 0 (operations (cur_plan ?c2)) (initial_locals (cur_plan ?c2)) ?c2 = Some (l, c3)" by blast
  then show ?thesis by (auto simp: run_def Let_def)
qed
section \<open>Admission\<close>

lemma act_fields:
  "cur_plan (act a c) = cur_plan c" "cur_authority (act a c) = cur_authority c"
  "active_local_owner_id (act a c) = active_local_owner_id c"
  "reserved_generation (act a c) = reserved_generation c"
  "runnable_generation (act a c) = runnable_generation c"
  "initialized (act a c) = initialized c"
  by (cases a; simp add: log_call_def allocate_generation_def Let_def)+

lemma perform_fields [simp]:
  "cur_plan (perform k e c) = cur_plan c" "cur_authority (perform k e c) = cur_authority c"
  "active_local_owner_id (perform k e c) = active_local_owner_id c"
  "reserved_generation (perform k e c) = reserved_generation c"
  "runnable_generation (perform k e c) = runnable_generation c"
  "initialized (perform k e c) = initialized c"
proof -
  have f: "cur_plan (fold act as c) = cur_plan c \<and> cur_authority (fold act as c) = cur_authority c
    \<and> active_local_owner_id (fold act as c) = active_local_owner_id c
    \<and> reserved_generation (fold act as c) = reserved_generation c
    \<and> runnable_generation (fold act as c) = runnable_generation c
    \<and> initialized (fold act as c) = initialized c" for as c
    by (induction as arbitrary: c) (simp_all add: act_fields)
  show "cur_plan (perform k e c) = cur_plan c" "cur_authority (perform k e c) = cur_authority c"
    "active_local_owner_id (perform k e c) = active_local_owner_id c"
    "reserved_generation (perform k e c) = reserved_generation c"
    "runnable_generation (perform k e c) = runnable_generation c"
    "initialized (perform k e c) = initialized c"
    using f unfolding perform_def by (simp_all add: log_call_def)
qed

lemma yield_fields [simp]:
  "cur_plan (yield e c) = cur_plan c" "cur_authority (yield e c) = cur_authority c"
  "active_local_owner_id (yield e c) = active_local_owner_id c"
  "reserved_generation (yield e c) = reserved_generation c"
  "runnable_generation (yield e c) = runnable_generation c"
  "initialized (yield e c) = initialized c"
  by (simp_all add: yield_def)

text \<open>The calls of an admission attempt, apart from interference.\<close>

fun own_calls :: "call list \<Rightarrow> call list" where
  "own_calls ks = filter (\<lambda>k. k = BeginSequence \<or> (\<exists>a. k = EndSequence a)) ks"

lemma own_calls_side: "list_all side_call ext \<Longrightarrow> own_calls ext = []"
  by (auto simp: filter_empty_conv list_all_iff side_call_def)

lemma own_calls_append: "own_calls (xs @ ys) = own_calls xs @ own_calls ys"
  by simp

lemma own_calls_perform:
  "own_calls (calls (perform k e c)) = own_calls (calls c) @ own_calls [k]"
proof -
  obtain ext where "calls (perform k e c) = calls c @ k # ext" "list_all side_call ext" using perform_log by blast
  then show ?thesis using own_calls_side [of ext] by simp
qed

lemma own_calls_yield: "own_calls (calls (yield e c)) = own_calls (calls c)"
  by (simp add: yield_def own_calls_perform del: own_calls.simps) simp

lemma own_calls_now: "own_calls (calls (snd (now e c))) = own_calls (calls c)"
  by (simp add: now_def own_calls_perform del: own_calls.simps) simp

lemma publish_fields:
  fixes e :: env and ow :: u64 and sid :: i32 and g :: u32 and p :: plan and au :: authority and c :: controller
  defines "c' \<equiv> publish_sequence e ow sid g p au c"
  shows "cur_plan c' = p" "cur_authority c' = au" "active_local_owner_id c' = ow"
    "reserved_generation c' = reserved_generation c" "runnable_generation c' = g"
    "own_calls (calls c') = own_calls (calls c)"
  unfolding c'_def publish_sequence_def Let_def case_prod_unfold
  by (simp_all add: now_def own_calls_yield own_calls_perform del: own_calls.simps) simp

lemma allocate_fields:
  "allocate_generation c = (r, c') \<Longrightarrow>
     cur_plan c' = cur_plan c \<and> cur_authority c' = cur_authority c \<and> initialized c' = initialized c
     \<and> reserved_generation c' = reserved_generation c \<and> runnable_generation c' = runnable_generation c
     \<and> calls c' = calls c \<and> r \<noteq> Some 0"
  by (auto simp: allocate_generation_def Let_def split: if_splits)

definition admitted :: "u64 \<Rightarrow> string \<Rightarrow> controller \<Rightarrow> controller \<Rightarrow> bool" where
  "admitted owner code c c' \<longleftrightarrow>
     initialized c \<and> owner \<noteq> 0 \<and> reserved_generation c = 0 \<and> reserved_generation c' \<noteq> 0
     \<and> runnable_generation c' = reserved_generation c' \<and> active_local_owner_id c' = owner
     \<and> (\<exists>ini. parse code ini = Some (cur_plan c'))
     \<and> is_subset (required_roles (cur_plan c')) (active_roles (cur_authority c'))
     \<and> own_calls (calls c') = own_calls (calls c) @ [BeginSequence]"

text \<open>A lone \<open>begin_sequence\<close> means that the backend itself refused.\<close>

definition refused :: "env \<Rightarrow> admission_result \<Rightarrow> controller \<Rightarrow> controller \<Rightarrow> bool" where
  "refused e r c c' \<longleftrightarrow>
     reserved_generation c' = reserved_generation c \<and> runnable_generation c' = runnable_generation c
     \<and> cur_plan c' = cur_plan c \<and> cur_authority c' = cur_authority c
     \<and> (own_calls (calls c') = own_calls (calls c)
        \<or> own_calls (calls c') = own_calls (calls c) @ [BeginSequence]
          \<and> (\<exists>l. fst (begin_answer e l) = r)
        \<or> (\<exists>a. own_calls (calls c') = own_calls (calls c) @ [BeginSequence, EndSequence a]))"

lemma start_reserved_cases:
  assumes "start_reserved e owner sid code g c = (r, c')" "reserved_generation c = g" "g \<noteq> 0"
  shows "if r = AdmAccepted then
      reserved_generation c' = g \<and> runnable_generation c' = g \<and> active_local_owner_id c' = owner
      \<and> (\<exists>ini. parse code ini = Some (cur_plan c'))
      \<and> is_subset (required_roles (cur_plan c')) (active_roles (cur_authority c'))
      \<and> own_calls (calls c') = own_calls (calls c) @ [BeginSequence]
    else reserved_generation c' = 0 \<and> runnable_generation c' = runnable_generation c
      \<and> cur_plan c' = cur_plan c \<and> cur_authority c' = cur_authority c
      \<and> (own_calls (calls c') = own_calls (calls c) @ [BeginSequence]
          \<and> (\<exists>l. fst (begin_answer e l) = r)
        \<or> (\<exists>a. own_calls (calls c') = own_calls (calls c) @ [BeginSequence, EndSequence a]))"
proof -
  obtain adm ini au where b: "begin_answer e (calls c) = (adm, ini, au)" by (metis prod_cases3)
  let ?c1 = "perform BeginSequence e c"
  have o1: "own_calls (calls ?c1) = own_calls (calls c) @ [BeginSequence]"
    by (simp add: own_calls_perform del: own_calls.simps) simp
  have o2: "own_calls (calls (perform (EndSequence au) e ?c1)) = own_calls (calls c) @ [BeginSequence, EndSequence au]"
    by (simp add: own_calls_perform o1 del: own_calls.simps) simp
  show ?thesis
  proof (cases "adm = AdmAccepted")
    case False
    with assms b o1 show ?thesis
      by (auto simp: start_reserved_def Let_def intro: exI [of _ "calls c"] simp del: own_calls.simps)
  next
    case acc: True
    show ?thesis
    proof (cases "parse code ini")
      case None
      with acc assms b o2 show ?thesis by (auto simp: start_reserved_def Let_def simp del: own_calls.simps)
    next
      case (Some p)
      with acc assms b o1 o2 show ?thesis
        by (auto simp: start_reserved_def Let_def publish_fields simp del: own_calls.simps split: if_splits)
    qed
  qed
qed

lemma start_cases:
  assumes s: "start e owner sid code c = (r, c')"
  shows "if r = AdmAccepted then admitted owner code c c' else refused e r c c'"
proof -
  let ?c1 = "yield e c"
  show ?thesis
  proof (cases "\<not> initialized ?c1 \<or> owner = 0")
    case True
    with s show ?thesis by (auto simp: start_def refused_def own_calls_yield simp del: own_calls.simps)
  next
    case ok: False
    obtain a c2 where al: "allocate_generation ?c1 = (a, c2)" by fastforce
    note f = allocate_fields [OF al]
    show ?thesis
    proof (cases a)
      case None
      with s ok al f show ?thesis by (auto simp: start_def refused_def own_calls_yield simp del: own_calls.simps)
    next
      case (Some g)
      let ?c3 = "yield e c2"
      show ?thesis
      proof (cases "reserved_generation ?c3 = 0")
        case False
        with s ok al f Some show ?thesis
          by (auto simp: start_def refused_def own_calls_yield simp del: own_calls.simps)
      next
        case True
        have g: "g \<noteq> 0" using f Some by auto
        have sr: "start_reserved e owner sid code g (?c3\<lparr>reserved_generation := g\<rparr>) = (r, c')"
          using s ok al Some True by (simp add: start_def)
        from start_reserved_cases [OF sr _ g] f True ok g show ?thesis
          by (auto simp: admitted_def refused_def own_calls_yield simp del: own_calls.simps split: if_splits)
      qed
    qed
  qed
qed
section \<open>Properties\<close>

text \<open>A backend that accepts everything, a clock that jumps past the deadline, an accepted
  sequence \<open>kp4\<close>.\<close>

definition sample_env :: env where
  "sample_env =
     \<lparr>begin_answer = (\<lambda>_. (AdmAccepted, \<lparr>modifiers = 0, keycodes = replicate 6 0, mouse_buttons = 0\<rparr>,
        (cur_authority controller_init)\<lparr>active_roles := kKeyboardInput\<rparr>)),
      current_answer = (\<lambda>_. True), report_answer = (\<lambda>_. RepAccepted),
      clock = (\<lambda>l. if length l < 100 then 0 else 4000000),
      others = (\<lambda>l. if length l = 9 then [AbortWord False] else [])\<rparr>"

definition sample_plan :: plan where
  "sample_plan = \<lparr>operations = [\<lparr>op_kind = KeyPress, op_value = 4\<rparr>], scheduled_duration_ms = 0,
     initial_state = \<lparr>modifiers = 0, keycodes = replicate 6 0, mouse_buttons = 0\<rparr>,
     required_roles = kKeyboardInput\<rparr>"

definition sample_controller :: controller where
  "sample_controller = controller_init\<lparr>initialized := True, cur_plan := sample_plan,
     reserved_generation := 1, status_generation := 1, status_word := 0\<rparr>"

lemma sample_parse:
  "parse ''kp4'' \<lparr>modifiers = 0, keycodes = replicate 6 0, mouse_buttons = 0\<rparr> = Some sample_plan"
  by code_simp

lemma sample_deadline: "deadline_passes sample_env (admission_us sample_controller) 100"
  by (simp add: deadline_passes_def sample_env_def sample_controller_def controller_init_def
      kExecutionDeadlineMs_def)

text \<open>
  C14: However the backend answers and whatever other tasks do meanwhile, a run that sent any
  report ends completed, or with its cleanup handed to the task that aborted it for release, or
  it requested the safety release after its last report. It calls \<open>end_sequence\<close> exactly once,
  with its authority, last of all, and gives up its reservation.
\<close>

theorem run_always_closes:
  assumes "run e g c = Some c'" "reserved_generation c = g" "g \<noteq> 0"
  shows "run_closes c c'"
  using assms by (rule run_closes_run)

theorem run_always_closes_witness:
  "\<exists>c'. run sample_env 1 sample_controller = Some c' \<and> run_closes sample_controller c'"
proof -
  obtain c' where "run sample_env 1 sample_controller = Some c'"
    using run_ends [OF sample_deadline] by blast
  with run_always_closes [OF this] show ?thesis by (auto simp: sample_controller_def)
qed

text \<open>
  C15: Every report a run sends, repetitions included, carries the authority and the owner of
  the sequence and the HID state after some prefix of the parsed operations.
\<close>

theorem run_reports_follow_plan:
  assumes "run e g c = Some c'" "parse code ini = Some (cur_plan c)"
  shows "\<exists>ext. calls c' = calls c @ ext \<and> list_all (report_of_plan c) ext"
  using assms(2) by (intro run_reports_run [OF assms(1)]) (auto simp: parse_iff plan_of_def admissible_def)

theorem run_reports_follow_plan_witness:
  "\<exists>c'. run sample_env 1 sample_controller = Some c' \<and>
     (\<exists>ext. calls c' = calls sample_controller @ ext \<and> list_all (report_of_plan sample_controller) ext)"
proof -
  obtain c' where "run sample_env 1 sample_controller = Some c'"
    using run_ends [OF sample_deadline] by blast
  moreover have "cur_plan sample_controller = sample_plan" by (simp add: sample_controller_def)
  ultimately show ?thesis using run_reports_follow_plan sample_parse by metis
qed

text \<open>
  C36: A run returns for every plan, every backend and every interference, as soon as the clock
  passes the execution deadline after some number of calls.
\<close>

theorem run_returns:
  assumes "deadline_passes e (admission_us c) K"
  shows "\<exists>c'. run e g c = Some c'"
  using assms by (rule run_ends)

theorem run_returns_witness: "\<exists>c'. run sample_env 1 sample_controller = Some c'"
  by (rule run_returns) (rule sample_deadline)

text \<open>
  \<open>start\<close> accepts a sequence only when the controller is initialised, the owner is set and
  no sequence is reserved; it then reserves a nonzero generation, makes it runnable and stores a
  parsed plan whose roles the backend granted. When it refuses, reservation, plan and authority
  are as before and an admission the backend granted has been ended.
\<close>

theorem start_admits:
  "case start e owner sid code c of (r, c') \<Rightarrow>
     if r = AdmAccepted then admitted owner code c c' else refused e r c c'"
  using start_cases [of e owner sid code c] by (auto split: prod.splits)
end
