(* ===== verification/UsbLifecycle.thy ===== *)
theory UsbLifecycle
  imports Prelude
begin

text \<open>
  \<open>firmware/components/usb_lifecycle\<close>: the USB lifecycle state machine on its packed state byte,
  with the result of \<open>Executor::schedule\<close> as an input. Each operation is one step: a
  compare-exchange loop computes its new byte from the byte it finally replaces. The steps
  refine a specification on plain records, on which the invariants are proved.
\<close>

section \<open>Data\<close>

datatype usb_exposure = Hidden | Exposed

datatype usb_observed = DriverNotInstalled | Disconnected | Attaching | Mounted | Suspended
  | Detaching | ObservedOther u8

datatype executor_action = Install | Uninstall

datatype transition_result = TrAccepted | TrNoOp | TrBusy

datatype lifecycle_operation = OpInstall | OpUninstall | OpRuntime

definition kTinyUsbRuntimeDiagnosticError :: i32 where "kTinyUsbRuntimeDiagnosticError = - 0x7601"
definition kTinyUsbEventQueueOverflowError :: i32 where "kTinyUsbEventQueueOverflowError = - 0x7602"

record usb_error =
  err_present :: bool
  err_operation :: lifecycle_operation
  err_code :: i32

record usb_snapshot =
  sn_desired :: usb_exposure
  sn_observed :: usb_observed
  sn_generation :: u32
  sn_uncertainty_generation :: u32
  sn_safety_pending :: bool
  sn_host_release_uncertain :: bool
  sn_recovery_required :: bool
  sn_last_error :: usb_error

record usb_outcome =
  action_result :: transition_result
  out_snapshot :: "usb_snapshot option"

record usb =
  usb_generation :: u32
  uncertainty_generation :: u32
  last_error_code :: i32
  last_error_operation :: lifecycle_operation
  last_error_present :: bool
  teardown_boundary_started :: bool
  runtime_fault_pending :: bool
  usb_state :: u8

definition kDesiredBit :: u8 where "kDesiredBit = push_bit 0 1"
definition kSafetyPendingBit :: u8 where "kSafetyPendingBit = push_bit 1 1"
definition kUncertainBit :: u8 where "kUncertainBit = push_bit 2 1"
definition kRecoveryRequiredBit :: u8 where "kRecoveryRequiredBit = push_bit 3 1"
definition kObservedShift :: nat where "kObservedShift = 4"

lemmas usb_bits = kDesiredBit_def kSafetyPendingBit_def kUncertainBit_def
  kRecoveryRequiredBit_def kObservedShift_def

text \<open>\<open>static_cast\<close> from and to \<open>ObservedState\<close>.\<close>

fun observed_code :: "usb_observed \<Rightarrow> u8" where
  "observed_code DriverNotInstalled = 0"
| "observed_code Disconnected = 1"
| "observed_code Attaching = 2"
| "observed_code Mounted = 3"
| "observed_code Suspended = 4"
| "observed_code Detaching = 5"
| "observed_code (ObservedOther w) = w"

definition code_observed :: "u8 \<Rightarrow> usb_observed" where
  "code_observed w =
     (if w = 0 then DriverNotInstalled else if w = 1 then Disconnected else if w = 2 then Attaching
      else if w = 3 then Mounted else if w = 4 then Suspended else if w = 5 then Detaching
      else ObservedOther w)"

definition encode_observed :: "usb_observed \<Rightarrow> u8" where
  "encode_observed ob = push_bit 4 (observed_code ob)"

section \<open>Accessors and small updates\<close>

definition usb_desired :: "usb \<Rightarrow> usb_exposure" where
  "usb_desired s = (if usb_state s AND kDesiredBit \<noteq> 0 then Exposed else Hidden)"

definition usb_observed :: "usb \<Rightarrow> usb_observed" where
  "usb_observed s = code_observed (drop_bit kObservedShift (usb_state s))"

definition with_observed :: "u8 \<Rightarrow> usb_observed \<Rightarrow> u8" where
  "with_observed w ob = (w AND (push_bit kObservedShift 1 - 1)) OR encode_observed ob"

definition set_observed :: "usb_observed \<Rightarrow> usb \<Rightarrow> usb" where
  "set_observed ob s = s\<lparr>usb_state := with_observed (usb_state s) ob\<rparr>"

definition set_recovery_required :: "bool \<Rightarrow> usb \<Rightarrow> usb" where
  "set_recovery_required r s =
     s\<lparr>usb_state := (if r then usb_state s OR kRecoveryRequiredBit
                       else usb_state s AND NOT kRecoveryRequiredBit)\<rparr>"

definition advance_generation :: "usb \<Rightarrow> usb" where
  "advance_generation s = s\<lparr>usb_generation := usb_generation s + 1\<rparr>"

definition clear_last_error :: "usb \<Rightarrow> usb" where
  "clear_last_error s = s\<lparr>last_error_code := 0, last_error_operation := OpInstall,
     last_error_present := False\<rparr>"

definition record_error :: "lifecycle_operation \<Rightarrow> i32 \<Rightarrow> usb \<Rightarrow> usb" where
  "record_error op code s = s\<lparr>last_error_code := code, last_error_operation := op,
     last_error_present := True\<rparr>"

definition usb_snapshot :: "usb \<Rightarrow> usb_snapshot" where
  "usb_snapshot s =
     (let w = usb_state s in
      \<lparr>sn_desired = (if w AND kDesiredBit \<noteq> 0 then Exposed else Hidden),
       sn_observed = code_observed (drop_bit kObservedShift w),
       sn_generation = usb_generation s,
       sn_uncertainty_generation = uncertainty_generation s,
       sn_safety_pending = (w AND kSafetyPendingBit \<noteq> 0),
       sn_host_release_uncertain = (w AND kUncertainBit \<noteq> 0),
       sn_recovery_required = (w AND kRecoveryRequiredBit \<noteq> 0),
       sn_last_error = \<lparr>err_present = last_error_present s,
         err_operation = last_error_operation s, err_code = last_error_code s\<rparr>\<rparr>)"

definition initialize_hidden_boot_policy :: "usb \<Rightarrow> usb" where
  "initialize_hidden_boot_policy s =
     (clear_last_error (s\<lparr>usb_generation := 0, uncertainty_generation := 0,
        teardown_boundary_started := False, runtime_fault_pending := False\<rparr>))
       \<lparr>usb_state := encode_observed DriverNotInstalled\<rparr>"

definition usb_init :: usb where
  "usb_init = initialize_hidden_boot_policy
     \<lparr>usb_generation = 0, uncertainty_generation = 0, last_error_code = 0,
      last_error_operation = OpInstall, last_error_present = False,
      teardown_boundary_started = False, runtime_fault_pending = False, usb_state = 0\<rparr>"

section \<open>Control plane requests\<close>

abbreviation "busy_outcome \<equiv> \<lparr>action_result = TrBusy, out_snapshot = None\<rparr>"

text \<open>What an operation returns or hands to the executor.\<close>

datatype usb_output =
    OutScheduled executor_action usb_snapshot
  | OutOutcome usb_outcome
  | OutFlag bool
  | OutGeneration u32

definition request_attach :: "bool \<Rightarrow> usb \<Rightarrow> usb \<times> usb_output list" where
  "request_attach scheduled s =
     (let w = usb_state s;
          previous = code_observed (drop_bit kObservedShift w);
          exposed = (w AND kDesiredBit \<noteq> 0);
          recovery = (w AND kRecoveryRequiredBit \<noteq> 0)
      in if previous = Detaching \<or> recovery then (s, [OutOutcome busy_outcome])
         else if exposed \<and> previous \<noteq> DriverNotInstalled then
           (s, [OutOutcome \<lparr>action_result = TrNoOp, out_snapshot = Some (usb_snapshot s)\<rparr>])
         else if \<not> exposed \<and> previous \<noteq> DriverNotInstalled then (s, [OutOutcome busy_outcome])
         else
           (let nxt = (w OR kDesiredBit) AND NOT kRecoveryRequiredBit;
                s1 = clear_last_error (s\<lparr>usb_state := with_observed nxt Attaching\<rparr>);
                s2 = advance_generation (s1\<lparr>teardown_boundary_started := False\<rparr>);
                accepted = usb_snapshot s2
            in if scheduled then
                 (s2, [OutScheduled Install accepted,
                    OutOutcome \<lparr>action_result = TrAccepted, out_snapshot = Some accepted\<rparr>])
               else
                 (set_recovery_required True (record_error OpInstall (- 1) s2),
                  [OutScheduled Install accepted, OutOutcome busy_outcome])))"

definition request_detach :: "bool \<Rightarrow> usb \<Rightarrow> usb \<times> usb_output list" where
  "request_detach scheduled s =
     (let w = usb_state s;
          previous = code_observed (drop_bit kObservedShift w);
          exposed = (w AND kDesiredBit \<noteq> 0)
      in if previous = Attaching then (s, [OutOutcome busy_outcome])
         else if \<not> exposed \<and> (previous = DriverNotInstalled \<or> previous = Detaching) then
           (s, [OutOutcome \<lparr>action_result = TrNoOp, out_snapshot = Some (usb_snapshot s)\<rparr>])
         else if \<not> exposed \<or> previous = DriverNotInstalled \<or> w AND kRecoveryRequiredBit \<noteq> 0 then
           (s, [OutOutcome busy_outcome])
         else
           (let nxt = (w AND NOT kDesiredBit) OR kSafetyPendingBit;
                s1 = clear_last_error (s\<lparr>usb_state := with_observed nxt Detaching\<rparr>);
                accepted = usb_snapshot s1
            in if scheduled then
                 (s1, [OutScheduled Uninstall accepted,
                    OutOutcome \<lparr>action_result = TrAccepted, out_snapshot = Some accepted\<rparr>])
               else
                 (set_recovery_required True (record_error OpUninstall (- 1) s1),
                  [OutScheduled Uninstall accepted, OutOutcome busy_outcome])))"

section \<open>Completions\<close>

definition complete_install_success :: "usb \<Rightarrow> usb" where
  "complete_install_success s =
     (if usb_desired s = Exposed \<and> usb_observed s = Attaching
      then set_observed Disconnected (set_recovery_required False s) else s)"

definition complete_install_clean_failure :: "i32 \<Rightarrow> usb \<Rightarrow> usb" where
  "complete_install_clean_failure code s =
     (if usb_desired s = Exposed \<and> usb_observed s = Attaching
      then set_observed DriverNotInstalled
        (set_recovery_required False (record_error OpInstall code s)) else s)"

definition complete_install_ambiguous_failure :: "i32 \<Rightarrow> usb \<Rightarrow> usb" where
  "complete_install_ambiguous_failure code s =
     (if usb_desired s = Exposed \<and> usb_observed s = Attaching
      then set_recovery_required True (record_error OpInstall code s) else s)"

definition begin_uninstall :: "usb \<Rightarrow> usb \<times> usb_output list" where
  "begin_uninstall s =
     (let s' = (if usb_desired s = Hidden \<and> usb_observed s = Detaching then
                  (let t = s\<lparr>teardown_boundary_started := True\<rparr> in
                   if \<not> teardown_boundary_started s then advance_generation t else t)
                else s)
      in (s', [OutGeneration (usb_generation s')]))"

definition complete_uninstall_success :: "usb \<Rightarrow> usb" where
  "complete_uninstall_success s =
     (if usb_desired s = Hidden \<and> usb_observed s = Detaching
      then set_observed DriverNotInstalled (set_recovery_required False s) else s)"

definition complete_uninstall_failure :: "i32 \<Rightarrow> usb \<Rightarrow> usb" where
  "complete_uninstall_failure code s =
     (if usb_desired s = Hidden \<and> usb_observed s = Detaching
      then set_recovery_required True (record_error OpUninstall code s) else s)"

section \<open>Runtime faults\<close>

definition begin_runtime_fault :: "i32 \<Rightarrow> usb \<Rightarrow> usb \<times> usb_output list" where
  "begin_runtime_fault code s =
     (if runtime_fault_pending s then (s, [OutFlag False])
      else
        (let s1 = record_error OpRuntime code (s\<lparr>runtime_fault_pending := True\<rparr>);
             s2 = s1\<lparr>teardown_boundary_started := False\<rparr>;
             nxt = (usb_state s2 AND NOT kDesiredBit) OR kSafetyPendingBit
         in (s2\<lparr>usb_state := with_observed nxt Detaching\<rparr>, [OutFlag True])))"

definition update_runtime_fault :: "i32 \<Rightarrow> usb \<Rightarrow> usb" where
  "update_runtime_fault code s =
     (if runtime_fault_pending s then record_error OpRuntime code s else s)"

definition complete_runtime_fault :: "bool \<Rightarrow> usb \<Rightarrow> usb" where
  "complete_runtime_fault driver_uninstalled s =
     (if \<not> runtime_fault_pending s then s
      else
        (let s1 = set_recovery_required True s in
         if driver_uninstalled then set_observed DriverNotInstalled s1 else s1))"

section \<open>Observations\<close>

text \<open>The guards are separate: the store follows them without holding the state.\<close>

definition mount_guard :: "usb \<Rightarrow> bool" where
  "mount_guard s \<longleftrightarrow> \<not> (usb_desired s \<noteq> Exposed \<or> usb_observed s = Detaching
     \<or> sn_recovery_required (usb_snapshot s))"

definition observe_mount :: "usb \<Rightarrow> usb \<times> usb_output list" where
  "observe_mount s =
     (if mount_guard s then (set_observed Mounted s, [OutFlag True]) else (s, [OutFlag False]))"

definition observe_unmount :: "usb \<Rightarrow> usb \<times> usb_output list" where
  "observe_unmount s =
     (if mount_guard s then
        (set_observed Disconnected
           (if usb_observed s \<noteq> Disconnected then advance_generation s else s), [OutFlag True])
      else (s, [OutFlag False]))"

definition observe_suspend :: "usb \<Rightarrow> usb \<times> usb_output list" where
  "observe_suspend s =
     (if usb_desired s \<noteq> Exposed \<or> usb_observed s \<noteq> Mounted
        \<or> sn_recovery_required (usb_snapshot s)
      then (s, [OutFlag False]) else (set_observed Suspended s, [OutFlag True]))"

definition observe_resume :: "usb \<Rightarrow> usb \<times> usb_output list" where
  "observe_resume s =
     (if usb_desired s \<noteq> Exposed \<or> usb_observed s \<noteq> Suspended
        \<or> sn_recovery_required (usb_snapshot s)
      then (s, [OutFlag False]) else (set_observed Mounted s, [OutFlag True]))"

section \<open>Release accounting\<close>

definition mark_release_pending :: "usb \<Rightarrow> usb" where
  "mark_release_pending s = s\<lparr>usb_state := usb_state s OR kSafetyPendingBit\<rparr>"

definition clear_release_pending_if_not_uncertain :: "usb \<Rightarrow> usb \<times> usb_output list" where
  "clear_release_pending_if_not_uncertain s =
     (if usb_state s AND kUncertainBit \<noteq> 0 then (s, [OutFlag False])
      else (s\<lparr>usb_state := usb_state s AND NOT kSafetyPendingBit\<rparr>, [OutFlag True]))"

definition mark_release_confirmed :: "usb \<Rightarrow> usb" where
  "mark_release_confirmed s =
     s\<lparr>usb_state := usb_state s AND NOT (kSafetyPendingBit OR kUncertainBit),
       uncertainty_generation := 0\<rparr>"

definition mark_release_uncertain_for_generation :: "u32 \<Rightarrow> usb \<Rightarrow> usb" where
  "mark_release_uncertain_for_generation g s =
     s\<lparr>usb_state := usb_state s OR (kSafetyPendingBit OR kUncertainBit),
       uncertainty_generation := g\<rparr>"

definition mark_release_uncertain :: "usb \<Rightarrow> usb" where
  "mark_release_uncertain s = mark_release_uncertain_for_generation (usb_generation s) s"

definition accepts_hid :: "bool \<Rightarrow> usb \<Rightarrow> bool" where
  "accepts_hid endpoint_ready s =
     (let c = usb_snapshot s in
      \<not> sn_recovery_required c \<and> sn_desired c = Exposed \<and> sn_observed c = Mounted \<and> endpoint_ready)"

definition has_unresolved_prior_generation :: "usb \<Rightarrow> bool" where
  "has_unresolved_prior_generation s =
     (let c = usb_snapshot s in
      sn_host_release_uncertain c \<and> sn_uncertainty_generation c \<noteq> sn_generation c)"

section \<open>The component as one step function\<close>

datatype usb_event =
    EvAttach bool | EvDetach bool
  | EvInstallSuccess | EvInstallClean i32 | EvInstallAmbiguous i32
  | EvBeginUninstall | EvUninstallSuccess | EvUninstallFailure i32
  | EvRuntimeFault i32 | EvUpdateFault i32 | EvCompleteFault bool
  | EvMount | EvUnmount | EvSuspend | EvResume
  | EvReleasePending | EvClearPending | EvReleaseConfirmed
  | EvReleaseUncertain | EvReleaseUncertainFor u32

fun usb_step :: "usb \<Rightarrow> usb_event \<Rightarrow> usb \<times> usb_output list" where
  "usb_step s (EvAttach r) = request_attach r s"
| "usb_step s (EvDetach r) = request_detach r s"
| "usb_step s EvInstallSuccess = (complete_install_success s, [])"
| "usb_step s (EvInstallClean c) = (complete_install_clean_failure c s, [])"
| "usb_step s (EvInstallAmbiguous c) = (complete_install_ambiguous_failure c s, [])"
| "usb_step s EvBeginUninstall = begin_uninstall s"
| "usb_step s EvUninstallSuccess = (complete_uninstall_success s, [])"
| "usb_step s (EvUninstallFailure c) = (complete_uninstall_failure c s, [])"
| "usb_step s (EvRuntimeFault c) = begin_runtime_fault c s"
| "usb_step s (EvUpdateFault c) = (update_runtime_fault c s, [])"
| "usb_step s (EvCompleteFault d) = (complete_runtime_fault d s, [])"
| "usb_step s EvMount = observe_mount s"
| "usb_step s EvUnmount = observe_unmount s"
| "usb_step s EvSuspend = observe_suspend s"
| "usb_step s EvResume = observe_resume s"
| "usb_step s EvReleasePending = (mark_release_pending s, [])"
| "usb_step s EvClearPending = clear_release_pending_if_not_uncertain s"
| "usb_step s EvReleaseConfirmed = (mark_release_confirmed s, [])"
| "usb_step s EvReleaseUncertain = (mark_release_uncertain s, [])"
| "usb_step s (EvReleaseUncertainFor g) = (mark_release_uncertain_for_generation g s, [])"

lemmas usb_op_defs = request_attach_def request_detach_def complete_install_success_def
  complete_install_clean_failure_def complete_install_ambiguous_failure_def begin_uninstall_def
  complete_uninstall_success_def complete_uninstall_failure_def begin_runtime_fault_def
  update_runtime_fault_def complete_runtime_fault_def mount_guard_def observe_mount_def
  observe_unmount_def observe_suspend_def observe_resume_def mark_release_pending_def
  clear_release_pending_if_not_uncertain_def mark_release_confirmed_def
  mark_release_uncertain_for_generation_def mark_release_uncertain_def set_observed_def
  set_recovery_required_def advance_generation_def clear_last_error_def record_error_def

section \<open>Reading the packed byte\<close>

lemma usb_bit_masks [simp]:
  "bit kDesiredBit n = (n = 0)" "bit kSafetyPendingBit n = (n = 1)"
  "bit kUncertainBit n = (n = 2)" "bit kRecoveryRequiredBit n = (n = 3)"
  by (simp_all only: usb_bits bit_push_bit_iff bit_1_iff) auto

lemma usb_flag_tests [simp]:
  "(w AND kDesiredBit = 0) = (\<not> bit w 0)" "(w AND kSafetyPendingBit = 0) = (\<not> bit w 1)"
  "(w AND kUncertainBit = 0) = (\<not> bit w 2)" "(w AND kRecoveryRequiredBit = 0) = (\<not> bit w 3)"
  using flag_tests [of w] by (simp_all add: usb_bits)

definition flags_only :: "u8 \<Rightarrow> bool" where
  "flags_only m \<longleftrightarrow> drop_bit 4 m = 0"

lemma flags_masks [simp]:
  "flags_only kDesiredBit" "flags_only kSafetyPendingBit" "flags_only kUncertainBit"
  "flags_only kRecoveryRequiredBit" "flags_only (kSafetyPendingBit OR kUncertainBit)"
  by (simp_all add: flags_only_def usb_bits)

lemma observed_flags [simp]:
  "flags_only m \<Longrightarrow> drop_bit 4 (w OR m) = drop_bit 4 w"
  "flags_only m \<Longrightarrow> drop_bit 4 (w AND NOT m) = drop_bit 4 w"
proof -
  assume "flags_only m"
  then have "bit (drop_bit 4 m) n = bit 0 n" for n by (simp add: flags_only_def)
  then have m: "\<not> bit m (4 + n)" for n by (simp add: bit_drop_bit_eq)
  show "drop_bit 4 (w OR m) = drop_bit 4 w"
    by (rule bit_word_eqI) (simp add: bit_drop_bit_eq bit_or_iff m)
  show "drop_bit 4 (w AND NOT m) = drop_bit 4 w"
    by (rule bit_word_eqI) (auto simp: bit_drop_bit_eq bit_and_iff bit_not_iff m dest: bit_imp_le_length)
qed

lemma observed_flags_dist [simp]:
  "flags_only m \<Longrightarrow> drop_bit 4 m = 0"
  "flags_only m \<Longrightarrow> drop_bit 4 w AND drop_bit 4 (NOT m) = drop_bit 4 w"
  "flags_only m \<Longrightarrow> flags_only m' \<Longrightarrow>
     drop_bit 4 w AND (drop_bit 4 (NOT m) AND drop_bit 4 (NOT m')) = drop_bit 4 w"
  using observed_flags(2) [of m w] observed_flags(2) [of m' w]
  by (simp_all add: flags_only_def and.assoc [symmetric])

fun proper_observed :: "usb_observed \<Rightarrow> bool" where
  "proper_observed (ObservedOther w) = False"
| "proper_observed _ = True"

lemma observed_round [simp]: "proper_observed ob \<Longrightarrow> code_observed (observed_code ob) = ob"
  by (cases ob) (auto simp: code_observed_def)

lemma observed_field [simp]: "proper_observed ob \<Longrightarrow> drop_bit 4 (with_observed w ob) = observed_code ob"
  by (cases ob; rule bit_word_eqI)
    (auto simp: with_observed_def encode_observed_def bit_simps usb_bits)

lemma observed_low [simp]: "n < 4 \<Longrightarrow> bit (with_observed w ob) n = bit w n"
proof -
  assume n: "n < 4"
  have "(push_bit kObservedShift 1 - 1 :: u8) = mask 4" by (simp add: usb_bits mask_eq_exp_minus_1)
  with n show ?thesis
    by (auto simp: with_observed_def encode_observed_def bit_simps)
qed

lemma observed_fields:
  "proper_observed ob \<Longrightarrow> bit (with_observed w ob) 0 = bit w 0"
  "proper_observed ob \<Longrightarrow> bit (with_observed w ob) (Suc 0) = bit w (Suc 0)"
  by simp_all

section \<open>Specification\<close>

text \<open>The same component on records: a snapshot and the two latches.\<close>

record usb_spec =
  sp :: usb_snapshot
  sp_boundary :: bool
  sp_fault :: bool

definition spec_of :: "usb \<Rightarrow> usb_spec" where
  "spec_of s = \<lparr>sp = usb_snapshot s, sp_boundary = teardown_boundary_started s,
     sp_fault = runtime_fault_pending s\<rparr>"

definition failed :: "lifecycle_operation \<Rightarrow> i32 \<Rightarrow> usb_snapshot \<Rightarrow> usb_snapshot" where
  "failed op code v = v\<lparr>sn_last_error := \<lparr>err_present = True, err_operation = op, err_code = code\<rparr>\<rparr>"

definition no_error :: usb_error where
  "no_error = \<lparr>err_present = False, err_operation = OpInstall, err_code = 0\<rparr>"

definition on_snapshot :: "(usb_snapshot \<Rightarrow> usb_snapshot) \<Rightarrow> usb_spec \<Rightarrow> usb_spec" where
  "on_snapshot f a = a\<lparr>sp := f (sp a)\<rparr>"

definition installing :: "usb_snapshot \<Rightarrow> bool" where
  "installing v \<longleftrightarrow> sn_desired v = Exposed \<and> sn_observed v = Attaching"

definition tearing_down :: "usb_snapshot \<Rightarrow> bool" where
  "tearing_down v \<longleftrightarrow> sn_desired v = Hidden \<and> sn_observed v = Detaching"

definition live :: "usb_snapshot \<Rightarrow> bool" where
  "live v \<longleftrightarrow> sn_desired v = Exposed \<and> sn_observed v \<noteq> Detaching \<and> \<not> sn_recovery_required v"

fun spec_attach :: "bool \<Rightarrow> usb_spec \<Rightarrow> usb_spec \<times> usb_output list" where
  "spec_attach scheduled a =
     (let v = sp a in
      if sn_observed v = Detaching \<or> sn_recovery_required v then (a, [OutOutcome busy_outcome])
      else if sn_observed v \<noteq> DriverNotInstalled then
        (a, [OutOutcome (if sn_desired v = Exposed
               then \<lparr>action_result = TrNoOp, out_snapshot = Some v\<rparr> else busy_outcome)])
      else
        (let v' = v\<lparr>sn_desired := Exposed, sn_observed := Attaching,
               sn_generation := sn_generation v + 1, sn_last_error := no_error\<rparr>;
             a' = a\<lparr>sp := v', sp_boundary := False\<rparr>
         in if scheduled
            then (a', [OutScheduled Install v', OutOutcome \<lparr>action_result = TrAccepted, out_snapshot = Some v'\<rparr>])
            else (on_snapshot (\<lambda>v. failed OpInstall (- 1) (v\<lparr>sn_recovery_required := True\<rparr>)) a',
                  [OutScheduled Install v', OutOutcome busy_outcome])))"

fun spec_detach :: "bool \<Rightarrow> usb_spec \<Rightarrow> usb_spec \<times> usb_output list" where
  "spec_detach scheduled a =
     (let v = sp a in
      if sn_observed v = Attaching then (a, [OutOutcome busy_outcome])
      else if sn_desired v = Hidden then
        (a, [OutOutcome (if sn_observed v = DriverNotInstalled \<or> sn_observed v = Detaching
               then \<lparr>action_result = TrNoOp, out_snapshot = Some v\<rparr> else busy_outcome)])
      else if sn_observed v = DriverNotInstalled \<or> sn_recovery_required v
        then (a, [OutOutcome busy_outcome])
      else
        (let v' = v\<lparr>sn_desired := Hidden, sn_observed := Detaching, sn_safety_pending := True,
               sn_last_error := no_error\<rparr>;
             a' = a\<lparr>sp := v'\<rparr>
         in if scheduled
            then (a', [OutScheduled Uninstall v', OutOutcome \<lparr>action_result = TrAccepted, out_snapshot = Some v'\<rparr>])
            else (on_snapshot (\<lambda>v. failed OpUninstall (- 1) (v\<lparr>sn_recovery_required := True\<rparr>)) a',
                  [OutScheduled Uninstall v', OutOutcome busy_outcome])))"

definition observe :: "bool \<Rightarrow> (usb_snapshot \<Rightarrow> usb_snapshot) \<Rightarrow> usb_spec \<Rightarrow> usb_spec \<times> usb_output list" where
  "observe accepted f a = (if accepted then on_snapshot f a else a, [OutFlag accepted])"

fun spec_step :: "usb_spec \<Rightarrow> usb_event \<Rightarrow> usb_spec \<times> usb_output list" where
  "spec_step a (EvAttach r) = spec_attach r a"
| "spec_step a (EvDetach r) = spec_detach r a"
| "spec_step a EvInstallSuccess =
     (if installing (sp a)
      then on_snapshot (\<lambda>v. v\<lparr>sn_observed := Disconnected, sn_recovery_required := False\<rparr>) a else a, [])"
| "spec_step a (EvInstallClean c) =
     (if installing (sp a) then on_snapshot (\<lambda>v. failed OpInstall c
        (v\<lparr>sn_observed := DriverNotInstalled, sn_recovery_required := False\<rparr>)) a else a, [])"
| "spec_step a (EvInstallAmbiguous c) =
     (if installing (sp a)
      then on_snapshot (\<lambda>v. failed OpInstall c (v\<lparr>sn_recovery_required := True\<rparr>)) a else a, [])"
| "spec_step a EvBeginUninstall =
     (let a' = (if tearing_down (sp a) then
          (if sp_boundary a then a
           else (on_snapshot (\<lambda>v. v\<lparr>sn_generation := sn_generation v + 1\<rparr>) a)\<lparr>sp_boundary := True\<rparr>)
        else a)
      in (a', [OutGeneration (sn_generation (sp a'))]))"
| "spec_step a EvUninstallSuccess =
     (if tearing_down (sp a) then
        on_snapshot (\<lambda>v. v\<lparr>sn_observed := DriverNotInstalled, sn_recovery_required := False\<rparr>) a
      else a, [])"
| "spec_step a (EvUninstallFailure c) =
     (if tearing_down (sp a)
      then on_snapshot (\<lambda>v. failed OpUninstall c (v\<lparr>sn_recovery_required := True\<rparr>)) a else a, [])"
| "spec_step a (EvRuntimeFault c) =
     (if sp_fault a then (a, [OutFlag False])
      else ((on_snapshot (\<lambda>v. failed OpRuntime c (v\<lparr>sn_desired := Hidden, sn_observed := Detaching,
               sn_safety_pending := True\<rparr>)) a)\<lparr>sp_fault := True, sp_boundary := False\<rparr>,
            [OutFlag True]))"
| "spec_step a (EvUpdateFault c) =
     (if sp_fault a then on_snapshot (failed OpRuntime c) a else a, [])"
| "spec_step a (EvCompleteFault d) =
     (if sp_fault a then on_snapshot (\<lambda>v. v\<lparr>sn_recovery_required := True,
        sn_observed := (if d then DriverNotInstalled else sn_observed v)\<rparr>) a else a, [])"
| "spec_step a EvMount = observe (live (sp a)) (\<lambda>v. v\<lparr>sn_observed := Mounted\<rparr>) a"
| "spec_step a EvUnmount = observe (live (sp a))
     (\<lambda>v. v\<lparr>sn_observed := Disconnected,
        sn_generation := (if sn_observed v = Disconnected then sn_generation v
                          else sn_generation v + 1)\<rparr>) a"
| "spec_step a EvSuspend = observe (live (sp a) \<and> sn_observed (sp a) = Mounted)
     (\<lambda>v. v\<lparr>sn_observed := Suspended\<rparr>) a"
| "spec_step a EvResume = observe (live (sp a) \<and> sn_observed (sp a) = Suspended)
     (\<lambda>v. v\<lparr>sn_observed := Mounted\<rparr>) a"
| "spec_step a EvReleasePending = (on_snapshot (\<lambda>v. v\<lparr>sn_safety_pending := True\<rparr>) a, [])"
| "spec_step a EvClearPending =
     observe (\<not> sn_host_release_uncertain (sp a)) (\<lambda>v. v\<lparr>sn_safety_pending := False\<rparr>) a"
| "spec_step a EvReleaseConfirmed = (on_snapshot (\<lambda>v. v\<lparr>sn_safety_pending := False,
     sn_host_release_uncertain := False, sn_uncertainty_generation := 0\<rparr>) a, [])"
| "spec_step a EvReleaseUncertain = (on_snapshot (\<lambda>v. v\<lparr>sn_safety_pending := True,
     sn_host_release_uncertain := True, sn_uncertainty_generation := sn_generation v\<rparr>) a, [])"
| "spec_step a (EvReleaseUncertainFor g) = (on_snapshot (\<lambda>v. v\<lparr>sn_safety_pending := True,
     sn_host_release_uncertain := True, sn_uncertainty_generation := g\<rparr>) a, [])"

lemmas spec_defs = spec_of_def on_snapshot_def failed_def no_error_def installing_def
  tearing_down_def live_def observe_def

lemma code_observed_numerals:
  "code_observed 0 = DriverNotInstalled" "code_observed 1 = Disconnected" "code_observed 2 = Attaching"
  "code_observed 3 = Mounted" "code_observed 4 = Suspended" "code_observed 5 = Detaching"
  by (simp_all add: code_observed_def)

lemmas usb_views = spec_defs usb_snapshot_def usb_desired_def usb_observed_def Let_def
  bit_or_iff bit_and_iff bit_not_iff kObservedShift_def code_observed_numerals

lemma usb_step_requests:
  "(spec_of (fst (request_attach r s)), snd (request_attach r s)) = spec_attach r (spec_of s)"
  "(spec_of (fst (request_detach r s)), snd (request_detach r s)) = spec_detach r (spec_of s)"
  by (auto simp: usb_op_defs usb_views)

lemma usb_step_spec:
  "spec_of (fst (usb_step s ev)) = fst (spec_step (spec_of s) ev)
   \<and> snd (usb_step s ev) = snd (spec_step (spec_of s) ev)"
proof (cases ev)
  case (EvAttach r)
  then show ?thesis using usb_step_requests(1) [of r s] by (metis fst_conv snd_conv spec_step.simps(1) usb_step.simps(1))
next
  case (EvDetach r)
  then show ?thesis using usb_step_requests(2) [of r s] by (metis fst_conv snd_conv spec_step.simps(2) usb_step.simps(2))
qed (auto simp: usb_op_defs usb_views)

definition usb_refines :: "usb \<Rightarrow> usb_spec \<Rightarrow> bool" where
  "usb_refines s a \<longleftrightarrow> a = spec_of s"

interpretation usb_sim: simulation usb_step spec_step usb_refines
  by unfold_locales (simp add: usb_refines_def usb_step_spec)

section \<open>Invariants\<close>

text \<open>
  The observed state is one of the enumerators, an uncertain release is always pending, and a
  hidden device is not installed or being torn down, and an exposed one has not been torn down.
\<close>

definition spec_inv :: "usb_spec \<Rightarrow> bool" where
  "spec_inv a \<longleftrightarrow>
     proper_observed (sn_observed (sp a))
     \<and> (sn_host_release_uncertain (sp a) \<longrightarrow> sn_safety_pending (sp a))
     \<and> (sn_desired (sp a) = Hidden \<longrightarrow> sn_observed (sp a) = DriverNotInstalled \<or> sn_observed (sp a) = Detaching)
     \<and> (sn_desired (sp a) = Exposed \<longrightarrow> \<not> sp_boundary a)"

text \<open>What no event can undo: a runtime fault stays pending until the next boot.\<close>

definition spec_fwd :: "usb_spec \<Rightarrow> usb_spec \<Rightarrow> bool" where
  "spec_fwd a b \<longleftrightarrow> (sp_fault a \<longrightarrow> sp_fault b)"

definition usb_after :: "usb \<Rightarrow> usb_event \<Rightarrow> usb" where
  "usb_after s ev = fst (usb_step s ev)"

lemma spec_init: "spec_of usb_init = \<lparr>sp = \<lparr>sn_desired = Hidden, sn_observed = DriverNotInstalled,
    sn_generation = 0, sn_uncertainty_generation = 0, sn_safety_pending = False,
    sn_host_release_uncertain = False, sn_recovery_required = False, sn_last_error = no_error\<rparr>,
   sp_boundary = False, sp_fault = False\<rparr>"
  by (simp add: usb_init_def initialize_hidden_boot_policy_def encode_observed_def usb_views
      clear_last_error_def)

lemma spec_step_inv: "spec_inv a \<Longrightarrow> spec_inv (fst (spec_step a ev)) \<and> spec_fwd a (fst (spec_step a ev))"
  by (cases ev) (auto simp: spec_inv_def spec_fwd_def spec_defs Let_def)

lemma exposure_cases: "d \<noteq> Exposed \<Longrightarrow> d = Hidden"
  by (cases d) auto

interpretation usb_machine: forward_machine usb_after usb_init
  "\<lambda>s. spec_inv (spec_of s)" "\<lambda>s t. spec_fwd (spec_of s) (spec_of t)"
proof unfold_locales
  show "spec_inv (spec_of usb_init)" by (simp add: spec_init spec_inv_def)
next
  fix s ev assume "spec_inv (spec_of s)"
  then show "spec_inv (spec_of (usb_after s ev))" and "spec_fwd (spec_of s) (spec_of (usb_after s ev))"
    using spec_step_inv [of "spec_of s" ev] by (simp_all add: usb_after_def usb_step_spec)
qed (auto simp: spec_fwd_def)

text \<open>The generation during a teardown: it advances once, when the teardown begins.\<close>

definition torn_from :: "u32 \<Rightarrow> usb_spec \<Rightarrow> bool" where
  "torn_from g a \<longleftrightarrow> sn_desired (sp a) = Hidden
     \<and> sn_generation (sp a) = (if sp_boundary a then g + 1 else g)"

fun reopens :: "usb_event \<Rightarrow> bool" where
  "reopens (EvAttach r) = True"
| "reopens (EvRuntimeFault c) = True"
| "reopens ev = False"

lemma torn_step: "torn_from g a \<Longrightarrow> \<not> reopens ev \<Longrightarrow> torn_from g (fst (spec_step a ev))"
  by (cases ev) (auto simp: torn_from_def spec_defs Let_def)

lemma torn_run:
  "torn_from g (spec_of s) \<Longrightarrow> list_all (\<lambda>ev. \<not> reopens ev) evs \<Longrightarrow> torn_from g (spec_of (foldl usb_after s evs))"
proof (induction evs arbitrary: s)
  case (Cons ev evs)
  then show ?case using torn_step [of g "spec_of s" ev] by (simp add: usb_after_def usb_step_spec)
qed simp

lemma detach_accepted:
  assumes inv: "spec_inv (spec_of s)"
    and acc: "OutOutcome \<lparr>action_result = TrAccepted, out_snapshot = Some v\<rparr> \<in> set (snd (usb_step s (EvDetach r)))"
  shows "torn_from (usb_generation s) (spec_of (usb_after s (EvDetach r)))
    \<and> sn_generation v = usb_generation s"
proof -
  have b: "sn_desired (sp (spec_of s)) = Exposed \<Longrightarrow> \<not> sp_boundary (spec_of s)" using inv by (simp add: spec_inv_def)
  have g: "sn_generation (sp (spec_of s)) = usb_generation s" by (simp add: spec_of_def usb_snapshot_def Let_def)
  have acc': "OutOutcome \<lparr>action_result = TrAccepted, out_snapshot = Some v\<rparr> \<in> set (snd (spec_detach r (spec_of s)))"
    using acc usb_step_spec [of s "EvDetach r"] by simp
  have "sn_desired (sp (spec_of s)) \<noteq> Hidden" using acc' by (auto simp: Let_def split: if_splits)
  then have "sn_desired (sp (spec_of s)) = Exposed" by (cases "sn_desired (sp (spec_of s))") auto
  with b g acc' show ?thesis
    using usb_step_spec [of s "EvDetach r"]
    by (auto simp: usb_after_def torn_from_def on_snapshot_def Let_def split: if_splits)
qed

section \<open>Properties\<close>

text \<open>
  C26: On every sequence of requests, completions, faults, observations and release marks the
  packed implementation returns the results, generations and scheduled snapshots of the
  record-level specification.
\<close>

theorem usb_refines_spec:
  "snd (run_outputs usb_step usb_init evs) = snd (run_outputs spec_step
     \<lparr>sp = \<lparr>sn_desired = Hidden, sn_observed = DriverNotInstalled, sn_generation = 0,
        sn_uncertainty_generation = 0, sn_safety_pending = False, sn_host_release_uncertain = False,
        sn_recovery_required = False, sn_last_error = no_error\<rparr>,
      sp_boundary = False, sp_fault = False\<rparr> evs)"
  by (rule usb_sim.sim_outputs) (simp add: usb_refines_def spec_init)

text \<open>
  In every reachable state the observed state is a proper enumerator, an uncertain host
  release keeps safety pending, a hidden device is not installed or detaching, the teardown
  boundary is only started on a hidden device, and a runtime fault once pending stays pending.
\<close>

theorem usb_reachable:
  "spec_inv (spec_of (foldl usb_after usb_init evs))
   \<and> spec_fwd (spec_of (foldl usb_after usb_init evs)) (spec_of (foldl usb_after usb_init (evs @ evs')))"
  using usb_machine.inv_reach usb_machine.fwd_between by blast

text \<open>
  After an accepted detach, until the next attach request or runtime fault, the device stays
  hidden and the generation advances exactly once, when the teardown boundary is crossed; the
  snapshot handed to the executor still carries the old generation.
\<close>

theorem detach_advances_once:
  assumes "OutOutcome \<lparr>action_result = TrAccepted, out_snapshot = Some v\<rparr>
      \<in> set (snd (usb_step (foldl usb_after usb_init before) (EvDetach r)))"
    and "list_all (\<lambda>ev. \<not> reopens ev) after"
  shows "let s = foldl usb_after usb_init before;
             t = foldl usb_after usb_init (before @ EvDetach r # after)
         in sn_generation v = usb_generation s \<and> usb_desired t = Hidden
            \<and> usb_generation t = (if teardown_boundary_started t then usb_generation s + 1 else usb_generation s)"
proof -
  let ?s = "foldl usb_after usb_init before"
  from detach_accepted [OF usb_machine.inv_reach assms(1)]
  have "torn_from (usb_generation ?s) (spec_of (usb_after ?s (EvDetach r)))" "sn_generation v = usb_generation ?s"
    by auto
  with torn_run [OF this(1) assms(2)] show ?thesis
    by (simp add: Let_def torn_from_def spec_of_def usb_snapshot_def usb_desired_def)
qed

theorem detach_advances_once_witness:
  "let evs = [EvAttach True, EvInstallSuccess, EvMount, EvDetach True, EvBeginUninstall, EvUnmount,
       EvBeginUninstall, EvUninstallSuccess];
       t = foldl usb_after usb_init evs
   in usb_desired t = Hidden \<and> usb_generation t = 2"
proof -
  let ?b = "[EvAttach True, EvInstallSuccess, EvMount]"
  let ?a = "[EvBeginUninstall, EvUnmount, EvBeginUninstall, EvUninstallSuccess]"
  let ?v = "usb_snapshot (fst (usb_step (foldl usb_after usb_init ?b) (EvDetach True)))"
  have "OutOutcome \<lparr>action_result = TrAccepted, out_snapshot = Some ?v\<rparr>
      \<in> set (snd (usb_step (foldl usb_after usb_init ?b) (EvDetach True)))" by code_simp
  from detach_advances_once [OF this, of ?a]
  have "usb_desired (foldl usb_after usb_init (?b @ EvDetach True # ?a)) = Hidden" by (simp add: Let_def)
  moreover have "usb_generation (foldl usb_after usb_init (?b @ EvDetach True # ?a)) = 2" by code_simp
  ultimately show ?thesis by (simp add: Let_def)
qed

section \<open>A window between guard and store\<close>

text \<open>
  \<open>observe_mount\<close> tests the state and stores the observation in two steps, and
  \<open>begin_runtime_fault\<close> may be called from an interrupt. When the fault falls between the two,
  the store replaces the detaching state the fault has published, and the teardown that follows
  no longer advances the generation.
\<close>

lemma mount_store_after_fault:
  fixes c :: i32
  assumes "mount_guard s" "\<not> runtime_fault_pending s"
  defines "t \<equiv> set_observed Mounted (fst (begin_runtime_fault c s))"
  shows "usb_desired t = Hidden" "usb_observed t = Mounted"
    and "usb_generation (fst (begin_uninstall t)) = usb_generation t"
    and "\<not> spec_inv (spec_of t)"
  using assms by (simp_all add: t_def usb_op_defs usb_views spec_inv_def)
end
