(* ===== verification/BleLifecycle.thy ===== *)
theory BleLifecycle
  imports Prelude
begin

text \<open>
  \<open>firmware/components/ble_lifecycle/ble_lifecycle.cpp\<close>: the BLE lifecycle state machine. Its
  operations are serialised by the control executor, so each is one step. As for USB the packed
  state byte refines a specification on records, on which the invariants are proved.
\<close>

section \<open>Data\<close>

datatype ble_exposure = BHidden | BExposed

datatype ble_observed = Uninitialized | Enabling | Idle | Advertising | Connected | Disabling
  | Fault | BObservedOther u8

datatype ble_operation = BEnable | BDisable | BRuntime

datatype ble_result = BAccepted | BNoOp | BBusy

definition kNoConnection :: u16 where "kNoConnection = 0xffff"

record ble_error =
  be_present :: bool
  be_operation :: ble_operation
  be_code :: i32

record ble_snapshot =
  bs_desired :: ble_exposure
  bs_observed :: ble_observed
  bs_generation :: u32
  bs_stack_ready :: bool
  bs_advertising :: bool
  bs_connected :: bool
  bs_recovery_required :: bool
  bs_last_error :: ble_error

record ble_outcome =
  ble_action_result :: ble_result
  ble_out_snapshot :: "ble_snapshot option"

record ble =
  ble_generation :: u32
  connection_handle :: u16
  ble_error_code :: i32
  ble_error_operation :: ble_operation
  ble_error_present :: bool
  ble_state :: u8
  reset_recovery_used :: bool

definition bDesiredBit :: u8 where "bDesiredBit = push_bit 0 1"
definition bStackReadyBit :: u8 where "bStackReadyBit = push_bit 1 1"
definition bAdvertisingBit :: u8 where "bAdvertisingBit = push_bit 2 1"
definition bConnectedBit :: u8 where "bConnectedBit = push_bit 3 1"
definition bRecoveryBit :: u8 where "bRecoveryBit = push_bit 4 1"
definition bObservedShift :: nat where "bObservedShift = 5"

lemmas ble_bits = bDesiredBit_def bStackReadyBit_def bAdvertisingBit_def bConnectedBit_def
  bRecoveryBit_def bObservedShift_def

fun ble_observed_code :: "ble_observed \<Rightarrow> u8" where
  "ble_observed_code Uninitialized = 0"
| "ble_observed_code Enabling = 1"
| "ble_observed_code Idle = 2"
| "ble_observed_code Advertising = 3"
| "ble_observed_code Connected = 4"
| "ble_observed_code Disabling = 5"
| "ble_observed_code Fault = 6"
| "ble_observed_code (BObservedOther w) = w"

definition code_ble_observed :: "u8 \<Rightarrow> ble_observed" where
  "code_ble_observed w =
     (if w = 0 then Uninitialized else if w = 1 then Enabling else if w = 2 then Idle
      else if w = 3 then Advertising else if w = 4 then Connected else if w = 5 then Disabling
      else if w = 6 then Fault else BObservedOther w)"

section \<open>Publication and snapshot\<close>

definition publish :: "ble_exposure \<Rightarrow> ble_observed \<Rightarrow> bool \<Rightarrow> bool \<Rightarrow> bool \<Rightarrow> bool \<Rightarrow> ble \<Rightarrow> ble" where
  "publish desired ob stack_ready advertising connected recovery s =
     s\<lparr>ble_state := push_bit 5 (ble_observed_code ob)
        OR (if desired = BExposed then bDesiredBit else 0)
        OR (if stack_ready then bStackReadyBit else 0)
        OR (if advertising then bAdvertisingBit else 0)
        OR (if connected then bConnectedBit else 0)
        OR (if recovery then bRecoveryBit else 0)\<rparr>"

definition ble_advance_generation :: "ble \<Rightarrow> ble" where
  "ble_advance_generation s = s\<lparr>ble_generation := ble_generation s + 1\<rparr>"

definition clear_error :: "ble \<Rightarrow> ble" where
  "clear_error s = s\<lparr>ble_error_code := 0, ble_error_operation := BRuntime, ble_error_present := False\<rparr>"

definition set_error :: "ble_operation \<Rightarrow> i32 \<Rightarrow> ble \<Rightarrow> ble" where
  "set_error op code s = s\<lparr>ble_error_code := code, ble_error_operation := op, ble_error_present := True\<rparr>"

definition ble_snapshot :: "ble \<Rightarrow> ble_snapshot" where
  "ble_snapshot s =
     (let w = ble_state s in
      \<lparr>bs_desired = (if w AND bDesiredBit \<noteq> 0 then BExposed else BHidden),
       bs_observed = code_ble_observed (drop_bit bObservedShift w),
       bs_generation = ble_generation s,
       bs_stack_ready = (w AND bStackReadyBit \<noteq> 0),
       bs_advertising = (w AND bAdvertisingBit \<noteq> 0),
       bs_connected = (w AND bConnectedBit \<noteq> 0),
       bs_recovery_required = (w AND bRecoveryBit \<noteq> 0),
       bs_last_error = \<lparr>be_present = ble_error_present s, be_operation = ble_error_operation s,
         be_code = ble_error_code s\<rparr>\<rparr>)"

definition ble_init :: ble where
  "ble_init = publish BHidden Uninitialized False False False False
     \<lparr>ble_generation = 0, connection_handle = kNoConnection, ble_error_code = 0,
      ble_error_operation = BEnable, ble_error_present = False, ble_state = 0,
      reset_recovery_used = False\<rparr>"

section \<open>Operations\<close>

abbreviation "ble_busy \<equiv> \<lparr>ble_action_result = BBusy, ble_out_snapshot = None\<rparr>"

datatype ble_output = BOutcome ble_outcome | BFlag bool

definition begin_enable :: "ble \<Rightarrow> ble \<times> ble_output list" where
  "begin_enable s =
     (let c = ble_snapshot s in
      if bs_recovery_required c \<or> bs_observed c = Fault \<or> bs_observed c = Enabling
        \<or> bs_observed c = Disabling then (s, [BOutcome ble_busy])
      else if bs_desired c = BExposed \<and> (bs_observed c = Advertising \<or> bs_observed c = Connected)
      then (s, [BOutcome \<lparr>ble_action_result = BNoOp, ble_out_snapshot = Some c\<rparr>])
      else if bs_desired c \<noteq> BHidden \<or> bs_observed c \<noteq> Uninitialized \<and> bs_observed c \<noteq> Idle
      then (s, [BOutcome ble_busy])
      else
        (let s1 = clear_error (ble_advance_generation s);
             s2 = publish BExposed Enabling (bs_stack_ready c) False False False
                    (s1\<lparr>reset_recovery_used := False\<rparr>)
         in (s2, [BOutcome \<lparr>ble_action_result = BAccepted, ble_out_snapshot = Some (ble_snapshot s2)\<rparr>])))"

definition begin_disable :: "ble \<Rightarrow> ble \<times> ble_output list" where
  "begin_disable s =
     (let c = ble_snapshot s in
      if bs_recovery_required c \<or> bs_observed c = Fault \<or> bs_observed c = Enabling
        \<or> bs_observed c = Disabling then (s, [BOutcome ble_busy])
      else if bs_desired c = BHidden \<and> (bs_observed c = Uninitialized \<or> bs_observed c = Idle)
      then (s, [BOutcome \<lparr>ble_action_result = BNoOp, ble_out_snapshot = Some c\<rparr>])
      else if bs_desired c \<noteq> BExposed then (s, [BOutcome ble_busy])
      else
        (let s1 = clear_error (ble_advance_generation s);
             s2 = publish BHidden Disabling (bs_stack_ready c) (bs_advertising c) (bs_connected c) False s1
         in (s2, [BOutcome \<lparr>ble_action_result = BAccepted, ble_out_snapshot = Some (ble_snapshot s2)\<rparr>])))"

definition begin_hidden_restart :: "ble \<Rightarrow> ble \<times> ble_output list" where
  "begin_hidden_restart s =
     (let c = ble_snapshot s in
      if bs_desired c \<noteq> BHidden \<or> bs_observed c \<noteq> Idle \<or> \<not> bs_stack_ready c \<or> bs_connected c
        \<or> bs_advertising c \<or> bs_recovery_required c \<or> bs_generation c = - 1
      then (s, [BFlag False])
      else (publish BHidden Disabling False False False False (clear_error (ble_advance_generation s)),
            [BFlag True]))"

definition begin_hidden_initialization :: "u32 \<Rightarrow> ble \<Rightarrow> ble \<times> ble_output list" where
  "begin_hidden_initialization generation s =
     (let c = ble_snapshot s in
      if bs_generation c \<noteq> generation \<or> bs_recovery_required c \<or> bs_desired c \<noteq> BHidden
        \<or> bs_observed c \<noteq> Disabling
      then (s, [BFlag False])
      else (publish BHidden Enabling False False False False (s\<lparr>reset_recovery_used := False\<rparr>),
            [BFlag True]))"

definition complete_hidden_sync :: "u32 \<Rightarrow> ble \<Rightarrow> ble \<times> ble_output list" where
  "complete_hidden_sync generation s =
     (let c = ble_snapshot s in
      if bs_generation c \<noteq> generation \<or> bs_recovery_required c \<or> bs_desired c \<noteq> BHidden
        \<or> bs_observed c \<noteq> Enabling \<and> \<not> (bs_observed c = Idle \<and> reset_recovery_used s)
      then (s, [BFlag False])
      else (publish BHidden Idle True False False False s, [BFlag True]))"

definition complete_sync :: "u32 \<Rightarrow> ble \<Rightarrow> ble \<times> ble_output list" where
  "complete_sync generation s =
     (let c = ble_snapshot s in
      if generation \<noteq> bs_generation c \<or> bs_desired c \<noteq> BExposed \<or> bs_observed c \<noteq> Enabling
      then (s, [BFlag False])
      else (publish (bs_desired c) (bs_observed c) True False False False s, [BFlag True]))"

definition complete_advertising :: "u32 \<Rightarrow> ble \<Rightarrow> ble \<times> ble_output list" where
  "complete_advertising generation s =
     (let c = ble_snapshot s in
      if generation \<noteq> bs_generation c \<or> bs_desired c \<noteq> BExposed
        \<or> bs_observed c \<noteq> Enabling \<and> bs_observed c \<noteq> Advertising
      then (s, [BFlag False])
      else (publish (bs_desired c) Advertising True True False False s, [BFlag True]))"

definition observe_connect :: "u32 \<Rightarrow> u16 \<Rightarrow> ble \<Rightarrow> ble \<times> ble_output list" where
  "observe_connect generation handle s =
     (let c = ble_snapshot s in
      if generation \<noteq> bs_generation c \<or> bs_desired c \<noteq> BExposed \<or> bs_observed c \<noteq> Advertising
      then (s, [BFlag False])
      else (publish (bs_desired c) Connected True False True False (s\<lparr>connection_handle := handle\<rparr>),
            [BFlag True]))"

definition observe_disconnect :: "u32 \<Rightarrow> u16 \<Rightarrow> bool \<Rightarrow> ble \<Rightarrow> ble \<times> ble_output list" where
  "observe_disconnect generation handle expected s =
     (let c = ble_snapshot s in
      if generation \<noteq> bs_generation c \<or> connection_handle s \<noteq> handle then (s, [BFlag False])
      else
        (let s1 = s\<lparr>connection_handle := kNoConnection\<rparr> in
         if expected \<and> bs_desired c = BHidden \<and> bs_observed c = Disabling then (s1, [BFlag True])
         else if bs_desired c \<noteq> BExposed \<or> bs_observed c \<noteq> Connected then (s1, [BFlag False])
         else (publish (bs_desired c) Enabling True False False False (ble_advance_generation s1),
               [BFlag True])))"

definition complete_disable :: "u32 \<Rightarrow> ble \<Rightarrow> ble \<times> ble_output list" where
  "complete_disable generation s =
     (let c = ble_snapshot s in
      if generation \<noteq> bs_generation c \<or> bs_desired c \<noteq> BHidden \<or> bs_observed c \<noteq> Disabling
      then (s, [BFlag False])
      else (publish BHidden Idle (bs_stack_ready c) False False False
              (s\<lparr>connection_handle := kNoConnection\<rparr>), [BFlag True]))"

definition begin_reset_recovery :: "u32 \<Rightarrow> i32 \<Rightarrow> ble \<Rightarrow> ble \<times> ble_output list" where
  "begin_reset_recovery generation reason s =
     (let c = ble_snapshot s in
      if generation \<noteq> bs_generation c \<or> bs_recovery_required c \<or> bs_observed c = Fault
      then (s, [BFlag False])
      else
        (let s1 = set_error BRuntime reason
               ((ble_advance_generation s)\<lparr>connection_handle := kNoConnection\<rparr>);
             s2 = s1\<lparr>reset_recovery_used := True\<rparr>
         in if \<not> reset_recovery_used s1 then
              (publish (bs_desired c) (if bs_desired c = BExposed then Enabling else Idle)
                 False False False False s2, [BFlag True])
            else (publish (bs_desired c) Fault False False False True s2, [BFlag False])))"

definition complete_fault :: "u32 \<Rightarrow> ble_operation \<Rightarrow> i32 \<Rightarrow> ble \<Rightarrow> ble" where
  "complete_fault generation op code s =
     (let c = ble_snapshot s in
      if generation \<noteq> bs_generation c then s
      else publish (bs_desired c) Fault (bs_stack_ready c) False False True
             ((set_error op code s)\<lparr>connection_handle := kNoConnection\<rparr>))"

section \<open>The component as one step function\<close>

datatype ble_event =
    BleEnable | BleDisable | BleHiddenRestart | BleHiddenInit u32 | BleHiddenSync u32
  | BleSync u32 | BleAdvertising u32 | BleConnect u32 u16 | BleDisconnect u32 u16 bool
  | BleDisabled u32 | BleReset u32 i32 | BleFault u32 ble_operation i32

fun ble_step :: "ble \<Rightarrow> ble_event \<Rightarrow> ble \<times> ble_output list" where
  "ble_step s BleEnable = begin_enable s"
| "ble_step s BleDisable = begin_disable s"
| "ble_step s BleHiddenRestart = begin_hidden_restart s"
| "ble_step s (BleHiddenInit g) = begin_hidden_initialization g s"
| "ble_step s (BleHiddenSync g) = complete_hidden_sync g s"
| "ble_step s (BleSync g) = complete_sync g s"
| "ble_step s (BleAdvertising g) = complete_advertising g s"
| "ble_step s (BleConnect g h) = observe_connect g h s"
| "ble_step s (BleDisconnect g h e) = observe_disconnect g h e s"
| "ble_step s (BleDisabled g) = complete_disable g s"
| "ble_step s (BleReset g r) = begin_reset_recovery g r s"
| "ble_step s (BleFault g op c) = (complete_fault g op c s, [])"

section \<open>The packed byte\<close>

fun proper_ble_observed :: "ble_observed \<Rightarrow> bool" where
  "proper_ble_observed (BObservedOther w) = False"
| "proper_ble_observed _ = True"

lemma ble_observed_round [simp]: "proper_ble_observed ob \<Longrightarrow> code_ble_observed (ble_observed_code ob) = ob"
  by (cases ob) (auto simp: code_ble_observed_def)

definition packed :: "u8 \<Rightarrow> bool \<Rightarrow> bool \<Rightarrow> bool \<Rightarrow> bool \<Rightarrow> bool \<Rightarrow> u8" where
  "packed w d st ad co re = push_bit 5 w OR (if d then bDesiredBit else 0)
     OR (if st then bStackReadyBit else 0) OR (if ad then bAdvertisingBit else 0)
     OR (if co then bConnectedBit else 0) OR (if re then bRecoveryBit else 0)"

lemma ble_mask_bits:
  "bit bDesiredBit n = (n = 0)" "bit bStackReadyBit n = (n = 1)" "bit bAdvertisingBit n = (n = 2)"
  "bit bConnectedBit n = (n = 3)" "bit bRecoveryBit n = (n = 4)"
  by (simp_all only: ble_bits bit_push_bit_iff bit_1_iff) auto

lemma ble_flag_tests:
  fixes v :: u8
  shows "(v AND bDesiredBit = 0) = (\<not> bit v 0)" "(v AND bStackReadyBit = 0) = (\<not> bit v 1)"
    "(v AND bAdvertisingBit = 0) = (\<not> bit v 2)" "(v AND bConnectedBit = 0) = (\<not> bit v 3)"
    "(v AND bRecoveryBit = 0) = (\<not> bit v 4)"
  using flag_tests [of v] by (simp_all add: ble_bits)

lemma packed_bits:
  "bit (packed w d st ad co re) n = (if 5 \<le> n then n < 8 \<and> bit w (n - 5) else
     if n = 0 then d else if n = 1 then st else if n = 2 then ad else if n = 3 then co else re)"
proof -
  consider "5 \<le> n" | "n = 0" | "n = 1" | "n = 2" | "n = 3" | "n = 4" by linarith
  then show ?thesis unfolding packed_def
    by cases (simp_all add: bit_or_iff bit_push_bit_iff ble_mask_bits if_distrib [of "\<lambda>v. bit v _"] cong: if_cong)
qed

lemma ble_byte_fields:
  "(packed w d st ad co re AND bDesiredBit = 0) = (\<not> d)"
  "(packed w d st ad co re AND bStackReadyBit = 0) = (\<not> st)"
  "(packed w d st ad co re AND bAdvertisingBit = 0) = (\<not> ad)"
  "(packed w d st ad co re AND bConnectedBit = 0) = (\<not> co)"
  "(packed w d st ad co re AND bRecoveryBit = 0) = (\<not> re)"
  "drop_bit bObservedShift (packed w d st ad co re) = take_bit 3 w"
proof -
  show "drop_bit bObservedShift (packed w d st ad co re) = take_bit 3 w"
    by (rule bit_word_eqI) (auto simp: bit_drop_bit_eq bit_take_bit_iff packed_bits bObservedShift_def)
qed (simp_all add: ble_flag_tests packed_bits)

lemma publish_packed:
  "publish d ob st ad co re s = s\<lparr>ble_state := packed (ble_observed_code ob) (d = BExposed) st ad co re\<rparr>"
  by (simp add: publish_def packed_def)

lemma ble_code_width: "proper_ble_observed ob \<Longrightarrow> take_bit 3 (ble_observed_code ob) = ble_observed_code ob"
  by (cases ob) auto

text \<open>What a snapshot reads after a publication.\<close>

lemma snapshot_publish:
  "proper_ble_observed ob \<Longrightarrow> ble_snapshot (publish d ob st ad co re s) =
     \<lparr>bs_desired = d, bs_observed = ob, bs_generation = ble_generation s, bs_stack_ready = st,
      bs_advertising = ad, bs_connected = co, bs_recovery_required = re,
      bs_last_error = \<lparr>be_present = ble_error_present s, be_operation = ble_error_operation s,
        be_code = ble_error_code s\<rparr>\<rparr>"
  by (cases d) (auto simp: ble_snapshot_def publish_packed Let_def ble_byte_fields ble_code_width)

section \<open>Invariant\<close>

definition ble_inv_snapshot :: "ble_snapshot \<Rightarrow> bool" where
  "ble_inv_snapshot v \<longleftrightarrow>
     (case bs_observed v of
        Uninitialized \<Rightarrow> bs_desired v = BHidden \<and> \<not> bs_advertising v \<and> \<not> bs_connected v
      | Enabling \<Rightarrow> \<not> bs_advertising v \<and> \<not> bs_connected v
      | Idle \<Rightarrow> bs_desired v = BHidden \<and> \<not> bs_advertising v \<and> \<not> bs_connected v
      | Advertising \<Rightarrow> bs_desired v = BExposed \<and> bs_stack_ready v \<and> bs_advertising v \<and> \<not> bs_connected v
      | Connected \<Rightarrow> bs_desired v = BExposed \<and> bs_stack_ready v \<and> \<not> bs_advertising v \<and> bs_connected v
      | Disabling \<Rightarrow> bs_desired v = BHidden \<and> \<not> (bs_advertising v \<and> bs_connected v)
      | Fault \<Rightarrow> \<not> bs_advertising v \<and> \<not> bs_connected v
      | BObservedOther w \<Rightarrow> False)
     \<and> (bs_recovery_required v = (bs_observed v = Fault))"

definition ble_inv :: "ble \<Rightarrow> bool" where
  "ble_inv s \<longleftrightarrow> ble_inv_snapshot (ble_snapshot s)"

text \<open>A fault is final.\<close>

definition ble_fwd :: "ble \<Rightarrow> ble \<Rightarrow> bool" where
  "ble_fwd s t \<longleftrightarrow> (bs_observed (ble_snapshot s) = Fault \<longrightarrow> bs_observed (ble_snapshot t) = Fault)"

definition ble_after :: "ble \<Rightarrow> ble_event \<Rightarrow> ble" where
  "ble_after s ev = fst (ble_step s ev)"

lemma snapshot_updates [simp]:
  "ble_snapshot (s\<lparr>connection_handle := h\<rparr>) = ble_snapshot s"
  "ble_snapshot (s\<lparr>reset_recovery_used := b\<rparr>) = ble_snapshot s"
  by (simp_all add: ble_snapshot_def)

lemma generation_view: "bs_generation (ble_snapshot s) = ble_generation s"
  by (simp add: ble_snapshot_def Let_def)

lemma publish_other [simp]:
  "ble_generation (publish d ob st ad co re s) = ble_generation s"
  "connection_handle (publish d ob st ad co re s) = connection_handle s"
  "reset_recovery_used (publish d ob st ad co re s) = reset_recovery_used s"
  by (simp_all add: publish_def)

lemmas ble_op_defs = begin_enable_def begin_disable_def begin_hidden_restart_def
  begin_hidden_initialization_def complete_hidden_sync_def complete_sync_def
  complete_advertising_def observe_connect_def observe_disconnect_def complete_disable_def
  begin_reset_recovery_def complete_fault_def Let_def

lemma inv_publish [simp]:
  "ble_inv (publish d Uninitialized st ad co re s) = (d = BHidden \<and> \<not> ad \<and> \<not> co \<and> \<not> re)"
  "ble_inv (publish d Enabling st ad co re s) = (\<not> ad \<and> \<not> co \<and> \<not> re)"
  "ble_inv (publish d Idle st ad co re s) = (d = BHidden \<and> \<not> ad \<and> \<not> co \<and> \<not> re)"
  "ble_inv (publish d Advertising st ad co re s) = (d = BExposed \<and> st \<and> ad \<and> \<not> co \<and> \<not> re)"
  "ble_inv (publish d Connected st ad co re s) = (d = BExposed \<and> st \<and> \<not> ad \<and> co \<and> \<not> re)"
  "ble_inv (publish d Disabling st ad co re s) = (d = BHidden \<and> \<not> (ad \<and> co) \<and> \<not> re)"
  "ble_inv (publish d Fault st ad co re s) = (\<not> ad \<and> \<not> co \<and> re)"
  by (auto simp: ble_inv_def snapshot_publish ble_inv_snapshot_def)

lemma ble_invD:
  "ble_inv s \<Longrightarrow> bs_recovery_required (ble_snapshot s) = (bs_observed (ble_snapshot s) = Fault)"
  "ble_inv s \<Longrightarrow> \<not> (bs_advertising (ble_snapshot s) \<and> bs_connected (ble_snapshot s))"
  "ble_inv s \<Longrightarrow> bs_observed (ble_snapshot s) = Idle \<Longrightarrow> bs_desired (ble_snapshot s) = BHidden"
  "ble_inv s \<Longrightarrow> bs_observed (ble_snapshot s) = Disabling \<Longrightarrow> bs_desired (ble_snapshot s) = BHidden"
  by (auto simp: ble_inv_def ble_inv_snapshot_def split: ble_observed.splits)

lemma exposure_other: "(d \<noteq> BExposed) = (d = BHidden)" "(d \<noteq> BHidden) = (d = BExposed)"
  by (cases d; simp)+

lemma inv_updates [simp]:
  "ble_inv (s\<lparr>connection_handle := h\<rparr>) = ble_inv s"
  "ble_inv (s\<lparr>reset_recovery_used := b\<rparr>) = ble_inv s"
  by (simp_all add: ble_inv_def)

lemma ble_step_inv: "ble_inv s \<Longrightarrow> ble_inv (fst (ble_step s ev))"
  using ble_invD [of s] by (cases ev) (auto simp: ble_op_defs exposure_other)

lemma ble_step_fwd: "ble_inv s \<Longrightarrow> ble_fwd s (fst (ble_step s ev))"
  using ble_invD(1) [of s]
  by (cases ev) (auto simp: ble_op_defs ble_fwd_def snapshot_publish)

interpretation ble_machine: forward_machine ble_after ble_init ble_inv ble_fwd
proof unfold_locales
  show "ble_inv ble_init" by (simp add: ble_inv_def ble_init_def snapshot_publish ble_inv_snapshot_def)
next
  fix s ev assume "ble_inv s"
  then show "ble_inv (ble_after s ev)" and "ble_fwd s (ble_after s ev)"
    using ble_step_inv [of s ev] ble_step_fwd [of s ev] by (simp_all add: ble_after_def)
qed (auto simp: ble_fwd_def)

section \<open>Identity of callbacks\<close>

fun event_generation :: "ble_event \<Rightarrow> u32 option" where
  "event_generation (BleHiddenInit g) = Some g"
| "event_generation (BleHiddenSync g) = Some g"
| "event_generation (BleSync g) = Some g"
| "event_generation (BleAdvertising g) = Some g"
| "event_generation (BleConnect g h) = Some g"
| "event_generation (BleDisconnect g h e) = Some g"
| "event_generation (BleDisabled g) = Some g"
| "event_generation (BleReset g r) = Some g"
| "event_generation (BleFault g op c) = Some g"
| "event_generation ev = None"

fun refused_output :: "ble_event \<Rightarrow> ble_output list" where
  "refused_output (BleFault g op c) = []"
| "refused_output ev = [BFlag False]"

lemma stale_event: "event_generation ev = Some g \<Longrightarrow> g \<noteq> ble_generation s \<Longrightarrow> ble_step s ev = (s, refused_output ev)"
  by (cases ev) (auto simp: ble_op_defs generation_view)

section \<open>Reset recovery\<close>

text \<open>The successful reset recoveries of a run of events.\<close>

fun recoveries :: "ble \<Rightarrow> ble_event list \<Rightarrow> nat" where
  "recoveries s [] = 0"
| "recoveries s (ev # evs) =
     (case ev of BleReset g r \<Rightarrow> (if snd (ble_step s ev) = [BFlag True] then 1 else 0) | _ \<Rightarrow> 0)
       + recoveries (ble_after s ev) evs"

fun rearms :: "ble_event \<Rightarrow> bool" where
  "rearms BleEnable = True"
| "rearms (BleHiddenInit g) = True"
| "rearms ev = False"

lemma used_step: "reset_recovery_used s \<Longrightarrow> \<not> rearms ev \<Longrightarrow> reset_recovery_used (ble_after s ev)"
  by (cases ev) (auto simp: ble_after_def ble_op_defs ble_advance_generation_def clear_error_def set_error_def)

lemma no_recovery: "reset_recovery_used s \<Longrightarrow> list_all (\<lambda>ev. \<not> rearms ev) evs \<Longrightarrow> recoveries s evs = 0"
proof (induction evs arbitrary: s)
  case (Cons ev evs)
  have "reset_recovery_used (ble_after s ev)" using Cons.prems by (auto intro: used_step)
  with Cons show ?case
    by (cases ev) (auto simp: ble_op_defs set_error_def ble_advance_generation_def)
qed simp

lemma one_recovery: "list_all (\<lambda>ev. \<not> rearms ev) evs \<Longrightarrow> recoveries s evs \<le> 1"
proof (induction evs arbitrary: s)
  case (Cons ev evs)
  show ?case
  proof (cases "\<exists>g r. ev = BleReset g r \<and> snd (ble_step s ev) = [BFlag True]")
    case True
    then have "reset_recovery_used (ble_after s ev)"
      by (auto simp: ble_after_def ble_op_defs split: if_splits)
    with Cons.prems True show ?thesis by (auto simp: no_recovery)
  next
    case False
    with Cons show ?thesis by (cases ev) auto
  qed
qed simp

section \<open>Properties\<close>

text \<open>
  C27: In every reachable state the flags of the packed byte agree with the observed state
  (advertising and connected only where they belong, recovery required exactly in the fault
  state, hidden while idle or disabling), and the fault state is final.
\<close>

theorem ble_reachable:
  "ble_inv (foldl ble_after ble_init evs)
   \<and> ble_fwd (foldl ble_after ble_init evs) (foldl ble_after ble_init (evs @ evs'))"
  using ble_machine.inv_reach ble_machine.fwd_between by blast

text \<open>An event that carries another generation than the current one changes nothing and is refused.\<close>

theorem ble_stale_inert:
  assumes "event_generation ev = Some g" "g \<noteq> ble_generation s"
  shows "ble_step s ev = (s, refused_output ev)"
  using assms by (rule stale_event)

theorem ble_stale_inert_witness:
  "ble_step (ble_after ble_init BleEnable) (BleReset 0 5) = (ble_after ble_init BleEnable, [BFlag False])"
  using ble_stale_inert [of "BleReset 0 5" 0 "ble_after ble_init BleEnable"]
  by (simp add: ble_after_def) (simp add: ble_op_defs ble_init_def snapshot_publish
      ble_advance_generation_def clear_error_def)

text \<open>Between two enables at most one controller reset is recovered; the next one is a fault.\<close>

theorem one_reset_recovery:
  assumes "list_all (\<lambda>ev. \<not> rearms ev) evs"
  shows "recoveries s evs \<le> 1"
  using assms by (rule one_recovery)

theorem one_reset_recovery_witness:
  "let s = ble_after ble_init BleEnable in
     recoveries s [BleSync 1, BleReset 1 7, BleReset 2 7] \<le> 1
     \<and> bs_observed (ble_snapshot (foldl ble_after s [BleSync 1, BleReset 1 7, BleReset 2 7])) = Fault"
  using one_reset_recovery [of "[BleSync 1, BleReset 1 7, BleReset 2 7]" "ble_after ble_init BleEnable"]
  unfolding Let_def by (intro conjI) (simp, code_simp)
end
