(* ===== verification/StopTransaction.thy ===== *)
theory StopTransaction
  imports Prelude
begin

text \<open>
  \<open>ble_lifecycle/stop_transaction.hpp\<close>: the transaction word that the control owner and the stop
  worker share. Identity and phase are one 64-bit atomic; every operation is one
  compare-exchange on it. \<open>begin\<close> loads the word before its exchange, so the loaded value is an
  argument. \<open>run_stop_sequence\<close> is the order of the reclamation steps.
\<close>

section \<open>Data\<close>

datatype stop_status = StIdle | StRunning | StStopped | StConsumed | StTaskFailure
  | StHostStopFailure | StHostExitFailure | StDeinitFailure | StTimerFailure | StExpired
  | StWrongOwner | StOther u8

fun status_code :: "stop_status \<Rightarrow> u8" where
  "status_code StIdle = 0"
| "status_code StRunning = 1"
| "status_code StStopped = 2"
| "status_code StConsumed = 3"
| "status_code StTaskFailure = 4"
| "status_code StHostStopFailure = 5"
| "status_code StHostExitFailure = 6"
| "status_code StDeinitFailure = 7"
| "status_code StTimerFailure = 8"
| "status_code StExpired = 9"
| "status_code StWrongOwner = 10"
| "status_code (StOther w) = w"

definition code_status :: "u8 \<Rightarrow> stop_status" where
  "code_status w =
     (if w = 0 then StIdle else if w = 1 then StRunning else if w = 2 then StStopped
      else if w = 3 then StConsumed else if w = 4 then StTaskFailure else if w = 5 then StHostStopFailure
      else if w = 6 then StHostExitFailure else if w = 7 then StDeinitFailure
      else if w = 8 then StTimerFailure else if w = 9 then StExpired
      else if w = 10 then StWrongOwner else StOther w)"

definition kMaxId :: u64 where "kMaxId = drop_bit 8 (- 1)"

record stop =
  stop_value :: u64
  next_id :: u64

definition stop_init :: stop where
  "stop_init = \<lparr>stop_value = 0, next_id = 1\<rparr>"

definition pack :: "u64 \<Rightarrow> stop_status \<Rightarrow> u64" where
  "pack i st = push_bit 8 i OR ucast (status_code st)"

definition unpack :: "u64 \<Rightarrow> stop_status" where
  "unpack v = code_status (ucast (v AND 0xff))"

section \<open>Operations\<close>

definition stop_begin :: "u64 \<Rightarrow> stop \<Rightarrow> u64 \<times> stop" where
  "stop_begin observed s =
     (let phase = unpack observed in
      if phase \<noteq> StIdle \<and> phase \<noteq> StConsumed \<or> next_id s = 0 \<or> next_id s > kMaxId then (0, s)
      else
        (let i = next_id s; s1 = s\<lparr>next_id := i + 1\<rparr> in
         if stop_value s1 = observed then (i, s1\<lparr>stop_value := pack i StRunning\<rparr>) else (0, s1)))"

definition stop_complete :: "u64 \<Rightarrow> stop_status \<Rightarrow> stop \<Rightarrow> bool \<times> stop" where
  "stop_complete i r s =
     (if i = 0 \<or> i > kMaxId \<or> status_code r < status_code StStopped \<or> r = StConsumed
        \<or> status_code r \<ge> status_code StExpired
      then (False, s)
      else if stop_value s = pack i StRunning then (True, s\<lparr>stop_value := pack i r\<rparr>)
      else (False, s))"

definition stop_expire :: "u64 \<Rightarrow> stop \<Rightarrow> bool \<times> stop" where
  "stop_expire i s =
     (if i = 0 \<or> i > kMaxId then (False, s)
      else if drop_bit 8 (stop_value s) = i
          \<and> (unpack (stop_value s) = StRunning \<or> unpack (stop_value s) = StStopped)
      then (True, s\<lparr>stop_value := pack i StExpired\<rparr>)
      else (False, s))"

definition stop_consume :: "u64 \<Rightarrow> stop \<Rightarrow> bool \<times> stop" where
  "stop_consume i s =
     (if i = 0 \<or> i > kMaxId then (False, s)
      else if stop_value s = pack i StStopped then (True, s\<lparr>stop_value := pack i StConsumed\<rparr>)
      else (False, s))"

definition stop_status :: "u64 \<Rightarrow> stop \<Rightarrow> stop_status" where
  "stop_status i s =
     (if i \<noteq> 0 \<and> i \<le> kMaxId \<and> drop_bit 8 (stop_value s) = i then unpack (stop_value s)
      else StWrongOwner)"

definition initialization_allowed :: "stop \<Rightarrow> bool" where
  "initialization_allowed s \<longleftrightarrow> (let st = unpack (stop_value s) in st = StIdle \<or> st = StConsumed)"

text \<open>The reclamation steps, with the results of the fallible ones; the calls made are logged.\<close>

datatype stop_call = HostStop | AwaitHostExit | DeleteHostTask | Deinitialize | RetireTimers

definition run_stop_sequence :: "(stop_call \<Rightarrow> bool) \<Rightarrow> stop_status \<times> stop_call list" where
  "run_stop_sequence ok =
     (if \<not> ok HostStop then (StHostStopFailure, [HostStop])
      else if \<not> ok AwaitHostExit then (StHostExitFailure, [HostStop, AwaitHostExit])
      else if \<not> ok Deinitialize then
        (StDeinitFailure, [HostStop, AwaitHostExit, DeleteHostTask, Deinitialize])
      else if \<not> ok RetireTimers then
        (StTimerFailure, [HostStop, AwaitHostExit, DeleteHostTask, Deinitialize, RetireTimers])
      else (StStopped, [HostStop, AwaitHostExit, DeleteHostTask, Deinitialize, RetireTimers]))"

section \<open>The packed word\<close>

fun proper_status :: "stop_status \<Rightarrow> bool" where
  "proper_status (StOther w) = False"
| "proper_status st = True"

lemma status_round: "proper_status st \<Longrightarrow> code_status (status_code st) = st"
  by (cases st) (auto simp: code_status_def)

lemma kMaxId_bits: "(i \<le> kMaxId) = (\<forall>n. bit i n \<longrightarrow> n < 56)"
proof -
  have k: "kMaxId = mask 56"
    by (rule bit_word_eqI) (auto simp: kMaxId_def bit_drop_bit_eq bit_mask_iff)
  have "(i \<le> mask 56) = (take_bit 56 i = i)"
  proof
    assume "i \<le> mask 56"
    then have "uint i \<le> uint (mask 56 :: u64)" by (simp only: word_le_def)
    then have "uint i < 2 ^ 56" by (simp add: mask_eq_exp_minus_1)
    then have "uint (take_bit 56 i) = uint i" by (simp add: unsigned_take_bit_eq take_bit_int_eq_self)
    then show "take_bit 56 i = i" by (simp only: word_uint_eq_iff)
  next
    assume "take_bit 56 i = i"
    then have "i = i AND mask 56" by (simp add: take_bit_eq_mask)
    then show "i \<le> mask 56" by (metis word_and_le1)
  qed
  also have "\<dots> = (\<forall>n. (n < 56 \<and> bit i n) = bit i n)"
    by (simp only: word_eq_bits bit_take_bit_iff)
  also have "\<dots> = (\<forall>n. bit i n \<longrightarrow> n < 56)" by blast
  finally show ?thesis by (simp add: k)
qed

lemma pack_bits: "bit (pack i st) n = (if n < 8 then bit (status_code st) n else n < 64 \<and> bit i (n - 8))"
  by (auto simp: pack_def bit_or_iff bit_push_bit_iff bit_unsigned_iff dest: bit_imp_le_length)

lemma pack_id [simp]: "i \<le> kMaxId \<Longrightarrow> drop_bit 8 (pack i st) = i"
  by (rule bit_word_eqI) (auto simp: bit_drop_bit_eq pack_bits kMaxId_bits dest: bit_imp_le_length)

lemma pack_status [simp]: "proper_status st \<Longrightarrow> unpack (pack i st) = st"
proof -
  assume p: "proper_status st"
  have m: "(0xff :: u64) = mask 8" by (simp add: mask_eq_exp_minus_1)
  have "ucast (pack i st AND 0xff) = status_code st"
    unfolding m by (rule bit_word_eqI) (auto simp: bit_ucast_iff bit_and_iff bit_mask_iff pack_bits)
  then show ?thesis by (simp add: unpack_def status_round p)
qed

lemma pack_inject [simp]:
  "i \<le> kMaxId \<Longrightarrow> j \<le> kMaxId \<Longrightarrow> proper_status st \<Longrightarrow> proper_status st' \<Longrightarrow>
     (pack i st = pack j st') = (i = j \<and> st = st')"
  by (metis pack_id pack_status)

section \<open>Owner and worker together\<close>

text \<open>Any interleaving: \<open>SBegin\<close> carries the word the owner loaded, which may be stale,
  \<open>SComplete\<close> the byte of the result.\<close>

datatype stop_event = SBegin u64 | SComplete u64 u8 | SExpire u64 | SConsume u64

fun stop_step :: "stop \<Rightarrow> stop_event \<Rightarrow> stop" where
  "stop_step s (SBegin v) = snd (stop_begin v s)"
| "stop_step s (SComplete i w) = snd (stop_complete i (code_status w) s)"
| "stop_step s (SExpire i) = snd (stop_expire i s)"
| "stop_step s (SConsume i) = snd (stop_consume i s)"

definition stop_inv :: "stop \<Rightarrow> bool" where
  "stop_inv s \<longleftrightarrow> 1 \<le> next_id s \<and> next_id s \<le> kMaxId + 1
     \<and> (\<exists>i st. stop_value s = pack i st \<and> proper_status st \<and> st \<noteq> StWrongOwner \<and> i < next_id s
          \<and> (i = 0 \<longrightarrow> st = StIdle))"

text \<open>The phases that no operation leaves.\<close>

definition stuck :: "stop_status \<Rightarrow> bool" where
  "stuck st \<longleftrightarrow> st = StTaskFailure \<or> st = StHostStopFailure \<or> st = StHostExitFailure
     \<or> st = StDeinitFailure \<or> st = StTimerFailure \<or> st = StExpired"

definition stop_fwd :: "stop \<Rightarrow> stop \<Rightarrow> bool" where
  "stop_fwd s t \<longleftrightarrow> next_id s \<le> next_id t
     \<and> drop_bit 8 (stop_value s) \<le> drop_bit 8 (stop_value t)
     \<and> (stuck (unpack (stop_value s)) \<longrightarrow> stop_value t = stop_value s)"

lemma kMaxId_value: "kMaxId = 72057594037927935"
  by (simp add: kMaxId_def mask_eq_exp_minus_1)

lemma word_next:
  fixes a b :: u64
  shows "b \<le> kMaxId \<Longrightarrow> a < b + 1 \<Longrightarrow> a \<le> b"
    and "a \<le> b \<Longrightarrow> b \<le> kMaxId \<Longrightarrow> a < b + 1"
    and "b \<le> kMaxId \<Longrightarrow> b \<le> b + 1"
    and "b \<le> kMaxId \<Longrightarrow> b + 1 \<le> kMaxId + 1"
proof -
  have s: "b \<le> kMaxId \<Longrightarrow> unat (b + 1) = unat b + 1"
    using unat_add_lem [of b 1] by (simp add: kMaxId_value word_le_nat_alt)
  show "b \<le> kMaxId \<Longrightarrow> a < b + 1 \<Longrightarrow> a \<le> b" using s by (simp add: word_less_nat_alt word_le_nat_alt)
  show "a \<le> b \<Longrightarrow> b \<le> kMaxId \<Longrightarrow> a < b + 1" using s by (simp add: word_less_nat_alt word_le_nat_alt)
  show "b \<le> kMaxId \<Longrightarrow> b \<le> b + 1" using s by (simp add: word_le_nat_alt)
  show "b \<le> kMaxId \<Longrightarrow> b + 1 \<le> kMaxId + 1" using s by (simp add: word_le_nat_alt kMaxId_value)
qed

lemma complete_result:
  assumes "\<not> (status_code (code_status w) < status_code StStopped \<or> code_status w = StConsumed
    \<or> status_code (code_status w) \<ge> status_code StExpired)"
  shows "proper_status (code_status w) \<and> code_status w \<noteq> StWrongOwner \<and> code_status w \<noteq> StIdle
    \<and> code_status w \<noteq> StRunning"
proof -
  have "10 < w" if o: "code_status w = StOther w'" for w'
  proof (rule ccontr)
    assume "\<not> 10 < w"
    then have "unat w \<le> 10" by (simp add: word_less_nat_alt)
    moreover have "n \<in> {0, 1, 2, 3, 4, 5, 6, 7, 8, 9, 10}" if "n \<le> 10" for n :: nat
      using that by (simp, presburger)
    ultimately have "unat w \<in> {0, 1, 2, 3, 4, 5, 6, 7, 8, 9, 10}" by blast
    then have "w \<in> {0, 1, 2, 3, 4, 5, 6, 7, 8, 9, 10}"
      by (auto simp: word_unat_eq_iff)
    with o show False by (auto simp: code_status_def)
  qed
  moreover have "code_status w = StOther w' \<Longrightarrow> w' = w" for w'
    by (simp add: code_status_def split: if_splits)
  ultimately have "code_status w = StOther w' \<Longrightarrow> w' = w \<and> 9 \<le> w" for w'
    by (force simp: word_less_nat_alt word_le_nat_alt)
  then show ?thesis using assms by (cases "code_status w") auto
qed

lemma stop_invE:
  assumes "stop_inv s"
  obtains i st where "stop_value s = pack i st" "proper_status st" "st \<noteq> StWrongOwner" "i < next_id s"
    "i \<le> kMaxId" "i = 0 \<longrightarrow> st = StIdle" "1 \<le> next_id s" "next_id s \<le> kMaxId + 1"
proof -
  from assms obtain i st where a: "stop_value s = pack i st" "proper_status st" "st \<noteq> StWrongOwner" "i < next_id s"
    "i = 0 \<longrightarrow> st = StIdle" "1 \<le> next_id s" "next_id s \<le> kMaxId + 1" unfolding stop_inv_def by blast
  have "i < kMaxId + 1" using a(4,7) by (rule less_le_trans)
  then have "i \<le> kMaxId" by (rule word_next(1) [OF order_refl])
  with a that show ?thesis by blast
qed

lemma begin_step:
  assumes "stop_inv s"
  shows "stop_inv (snd (stop_begin v s)) \<and> stop_fwd s (snd (stop_begin v s))
    \<and> (fst (stop_begin v s) \<noteq> 0 \<longrightarrow> fst (stop_begin v s) = next_id s
         \<and> next_id (snd (stop_begin v s)) = next_id s + 1 \<and> next_id s \<le> kMaxId)"
proof -
  obtain i st where a: "stop_value s = pack i st" "proper_status st" "st \<noteq> StWrongOwner" "i < next_id s"
    "i \<le> kMaxId" "i = 0 \<longrightarrow> st = StIdle" "1 \<le> next_id s" "next_id s \<le> kMaxId + 1"
    using assms by (rule stop_invE)
  show ?thesis
  proof (cases "unpack v \<noteq> StIdle \<and> unpack v \<noteq> StConsumed \<or> next_id s = 0 \<or> next_id s > kMaxId")
    case True
    with assms show ?thesis by (simp add: stop_begin_def stop_fwd_def Let_def)
  next
    case False
    then have n: "next_id s \<noteq> 0" "next_id s \<le> kMaxId" and u: "unpack v = StIdle \<or> unpack v = StConsumed"
      by auto
    have w: "1 \<le> next_id s + 1" using order_trans [OF a(7) word_next(3) [OF n(2)]] .
    have lt: "i < next_id s + 1" using word_next(2) [OF _ n(2)] a(4) by (simp add: order.strict_implies_order)
    note w4 = word_next(4) [OF n(2)] and w3 = word_next(3) [OF n(2)] and w2 = word_next(2) [OF order_refl n(2)]
    have i1: "stop_inv (s\<lparr>next_id := next_id s + 1\<rparr>)"
      unfolding stop_inv_def using w w4 a lt by auto
    have i2: "stop_inv (s\<lparr>next_id := next_id s + 1, stop_value := pack (next_id s) StRunning\<rparr>)"
      unfolding stop_inv_def using w w4 w2 n(1)
      by (auto intro!: exI [of _ "next_id s"] exI [of _ StRunning])
    have f: "drop_bit 8 (pack i st) \<le> drop_bit 8 (pack (next_id s) StRunning)"
      using a(4,5) n(2) by (simp add: order.strict_implies_order)
    have "stop_value s = v \<Longrightarrow> \<not> stuck (unpack (stop_value s))" using u by (auto simp: stuck_def)
    with False i1 i2 f w3 a(1) n show ?thesis
      by (auto simp: stop_begin_def stop_fwd_def Let_def)
  qed
qed

lemma other_steps:
  assumes inv: "stop_inv s" and ev: "\<And>v. ev \<noteq> SBegin v"
  shows "stop_inv (stop_step s ev) \<and> stop_fwd s (stop_step s ev) \<and> next_id (stop_step s ev) = next_id s"
proof -
  obtain i st where a: "stop_value s = pack i st" "proper_status st" "st \<noteq> StWrongOwner" "i < next_id s"
    "i \<le> kMaxId" "i = 0 \<longrightarrow> st = StIdle" "1 \<le> next_id s" "next_id s \<le> kMaxId + 1"
    using inv by (rule stop_invE)
  have "stop_step s ev = s \<or>
    (\<exists>r. stop_step s ev = s\<lparr>stop_value := pack i r\<rparr> \<and> proper_status r \<and> r \<noteq> StWrongOwner
       \<and> st \<noteq> StIdle \<and> \<not> stuck st)"
  proof (cases ev)
    case (SBegin v)
    with ev show ?thesis by blast
  next
    case (SComplete j w)
    show ?thesis
    proof (cases "stop_complete j (code_status w) s = (False, s)")
      case True
      with SComplete show ?thesis by simp
    next
      case False
      then have v: "stop_value s = pack j StRunning" "j \<le> kMaxId"
        and n: "\<not> (status_code (code_status w) < status_code StStopped \<or> code_status w = StConsumed
          \<or> status_code (code_status w) \<ge> status_code StExpired)"
        and r: "stop_complete j (code_status w) s = (True, s\<lparr>stop_value := pack j (code_status w)\<rparr>)"
        unfolding stop_complete_def by (auto split: if_splits)
      have "i = j \<and> st = StRunning" using v a(1,2,5) by simp
      with complete_result [OF n] r SComplete show ?thesis
        by (intro disjI2 exI [of _ "code_status w"]) (simp add: stuck_def)
    qed
  next
    case (SExpire j)
    with a(1,2,5) show ?thesis
      by (cases "st = StRunning \<or> st = StStopped")
        (auto simp: stop_expire_def stuck_def intro: exI [of _ StExpired])
  next
    case (SConsume j)
    with a(1,2,5) show ?thesis
      by (cases "st = StStopped")
        (auto simp: stop_consume_def stuck_def intro: exI [of _ StConsumed])
  qed
  then show ?thesis
  proof
    assume "stop_step s ev = s"
    with inv show ?thesis by (simp add: stop_fwd_def)
  next
    assume "\<exists>r. stop_step s ev = s\<lparr>stop_value := pack i r\<rparr> \<and> proper_status r \<and> r \<noteq> StWrongOwner
       \<and> st \<noteq> StIdle \<and> \<not> stuck st"
    then obtain r where r: "stop_step s ev = s\<lparr>stop_value := pack i r\<rparr>" "proper_status r" "r \<noteq> StWrongOwner"
      "st \<noteq> StIdle" "\<not> stuck st" by blast
    have "stop_inv (s\<lparr>stop_value := pack i r\<rparr>)"
      unfolding stop_inv_def using a r by (auto intro!: exI [of _ i] exI [of _ r])
    moreover have "stop_fwd s (s\<lparr>stop_value := pack i r\<rparr>)"
      using a r(5) by (simp add: stop_fwd_def)
    ultimately show ?thesis by (simp add: r(1))
  qed
qed

interpretation stop_machine: forward_machine stop_step stop_init stop_inv stop_fwd
proof unfold_locales
  have z: "stop_value stop_init = pack 0 StIdle" by (simp add: stop_init_def pack_def)
  show "stop_inv stop_init"
    unfolding stop_inv_def z by (auto simp: stop_init_def kMaxId_value intro!: exI [of _ 0] exI [of _ StIdle])
next
  fix s ev assume "stop_inv s"
  then have "stop_inv (stop_step s ev) \<and> stop_fwd s (stop_step s ev)"
    using begin_step [of s] other_steps [of s ev] by (cases ev) auto
  then show "stop_inv (stop_step s ev)" and "stop_fwd s (stop_step s ev)" by auto
qed (auto simp: stop_fwd_def)

section \<open>Provenance\<close>

text \<open>The identities handed out along a run.\<close>

fun begun :: "stop \<Rightarrow> stop_event list \<Rightarrow> u64 list" where
  "begun s [] = []"
| "begun s (ev # evs) =
     (case ev of SBegin v \<Rightarrow> if fst (stop_begin v s) \<noteq> 0 then [fst (stop_begin v s)] else [] | _ \<Rightarrow> [])
       @ begun (stop_step s ev) evs"

lemma begun_fresh:
  "stop_inv s \<Longrightarrow> sorted_wrt (<) (begun s evs) \<and> list_all (\<lambda>i. next_id s \<le> i \<and> i \<le> kMaxId) (begun s evs)"
proof (induction evs arbitrary: s)
  case (Cons ev evs)
  note IH = Cons.IH [OF stop_machine.inv_step [OF Cons.prems, of ev]]
  have mono: "next_id s \<le> next_id (stop_step s ev)"
    using stop_machine.fwd_step [OF Cons.prems, of ev] by (simp add: stop_fwd_def)
  show ?case
  proof (cases "\<exists>v. ev = SBegin v \<and> fst (stop_begin v s) \<noteq> 0")
    case False
    then have "begun s (ev # evs) = begun (stop_step s ev) evs" by (cases ev) auto
    with IH mono show ?thesis by (auto simp: list_all_iff intro: order_trans)
  next
    case True
    then obtain v where v: "ev = SBegin v" "fst (stop_begin v s) \<noteq> 0" by blast
    with begin_step [OF Cons.prems, of v]
    have n: "fst (stop_begin v s) = next_id s" "next_id (stop_step s ev) = next_id s + 1" "next_id s \<le> kMaxId" by auto
    have lt: "next_id s < i" if "next_id s + 1 \<le> i" for i
      using word_next(2) [OF order_refl n(3)] that by (rule less_le_trans)
    with IH n v mono show ?thesis by (auto simp: list_all_iff intro: order_trans order.strict_implies_order)
  qed
qed simp

text \<open>A stopped or consumed transaction was reported stopped by the worker, under its identity.\<close>

lemma stopped_reported:
  "unpack (stop_value (foldl stop_step stop_init evs)) \<in> {StStopped, StConsumed} \<Longrightarrow>
     SComplete (drop_bit 8 (stop_value (foldl stop_step stop_init evs))) 2 \<in> set evs"
proof (induction evs rule: rev_induct)
  case Nil
  then show ?case by (simp add: stop_init_def unpack_def code_status_def)
next
  case (snoc ev evs)
  let ?s = "foldl stop_step stop_init evs"
  obtain i st where a: "stop_value ?s = pack i st" "proper_status st" "i \<le> kMaxId" "next_id ?s \<le> kMaxId + 1"
    using stop_machine.inv_reach [of evs] by (rule stop_invE)
  show ?case
  proof (cases "stop_value (stop_step ?s ev) = stop_value ?s")
    case True
    with snoc show ?thesis by auto
  next
    case ch: False
    show ?thesis
    proof (cases ev)
      case (SBegin v)
      with ch have e: "stop_value (stop_step ?s ev) = pack (next_id ?s) StRunning"
        by (auto simp: stop_begin_def Let_def split: if_splits)
      with snoc.prems show ?thesis by simp
    next
      case (SComplete j w)
      with ch have e: "stop_value (stop_step ?s ev) = pack j (code_status w)" "j \<le> kMaxId"
        and n: "\<not> (status_code (code_status w) < status_code StStopped \<or> code_status w = StConsumed
          \<or> status_code (code_status w) \<ge> status_code StExpired)"
        by (auto simp: stop_complete_def split: if_splits)
      from complete_result [OF n] have "proper_status (code_status w)" by blast
      with snoc.prems e n have "code_status w = StStopped" by auto
      then have "w = 2" by (auto simp: code_status_def split: if_splits)
      with SComplete e \<open>proper_status (code_status w)\<close> show ?thesis by simp
    next
      case (SExpire j)
      with ch have e: "stop_value (stop_step ?s ev) = pack j StExpired"
        by (auto simp: stop_expire_def split: if_splits)
      with snoc.prems show ?thesis by simp
    next
      case (SConsume j)
      with ch have e: "stop_value (stop_step ?s ev) = pack j StConsumed" "stop_value ?s = pack j StStopped" "j \<le> kMaxId"
        by (auto simp: stop_consume_def split: if_splits)
      then have "SComplete j 2 \<in> set evs" using snoc.IH by simp
      with e show ?thesis by simp
    qed
  qed
qed

section \<open>Properties\<close>

text \<open>
  C16: Whatever the owner and a late worker do in whatever order, the identity in the word never
  goes back and a failed or expired transaction is never replaced, so no initialisation follows it.
\<close>

theorem stop_fails_closed:
  "stop_fwd (foldl stop_step stop_init evs) (foldl stop_step stop_init (evs @ evs'))
   \<and> sorted_wrt (<) (begun stop_init evs)"
  using stop_machine.fwd_between begun_fresh [OF stop_machine.inv_ini] by blast

text \<open>
  Once a transaction was begun, initialisation is allowed only if the worker reported exactly
  this transaction stopped, which the reclamation sequence returns only after all five steps ran
  in order and every fallible one succeeded.
\<close>

theorem reinit_after_stop:
  "(if unpack (stop_value (foldl stop_step stop_init evs)) \<in> {StStopped, StConsumed}
   then SComplete (drop_bit 8 (stop_value (foldl stop_step stop_init evs))) (status_code StStopped) \<in> set evs
   else initialization_allowed (foldl stop_step stop_init evs)
     = (unpack (stop_value (foldl stop_step stop_init evs)) = StIdle))
   \<and> (fst (run_stop_sequence ok) = StStopped \<longleftrightarrow>
     snd (run_stop_sequence ok) = [HostStop, AwaitHostExit, DeleteHostTask, Deinitialize, RetireTimers]
     \<and> ok HostStop \<and> ok AwaitHostExit \<and> ok Deinitialize \<and> ok RetireTimers)"
  using stopped_reported [of evs]
  by (auto simp: initialization_allowed_def Let_def run_stop_sequence_def)
end
