(* ===== verification/Seqlock.thy ===== *)
theory Seqlock
  imports Prelude
begin

text \<open>
  The single-writer sequence counter that \<open>ble_pairing\<close>, \<open>ble_security\<close> and \<open>hid_route\<close> use to
  publish a record to concurrent readers. The writer adds one to the counter, stores the fields
  and adds one again; a reader accepts what it read when the counter was even before and is
  unchanged afterwards. A memory trace lists the memory after every single store of the writer.
\<close>

section \<open>Traces of a writer\<close>

text \<open>The memory after each of a list of stores, the initial memory first.\<close>

fun memory_trace :: "'m \<Rightarrow> ('m \<Rightarrow> 'm) list \<Rightarrow> 'm list" where
  "memory_trace m [] = [m]"
| "memory_trace m (f # fs) = m # memory_trace (f m) fs"

lemma memory_trace_length: "length (memory_trace m fs) = Suc (length fs)"
  by (induction fs arbitrary: m) auto

lemma memory_trace_nth:
  "i \<le> length fs \<Longrightarrow> memory_trace m fs ! i = foldl (\<lambda>m f. f m) m (take i fs)"
  by (induction fs arbitrary: m i) (auto simp: nth_Cons' take_Cons')

lemma memory_trace_step:
  "i < length fs \<Longrightarrow> memory_trace m fs ! Suc i = (fs ! i) (memory_trace m fs ! i)"
proof (induction fs arbitrary: m i)
  case (Cons f fs)
  then show ?case by (cases i) (cases fs, auto)
qed simp

section \<open>The lock\<close>

locale seqlock =
  fixes seq :: "'m \<Rightarrow> u32"
    and data :: "'m \<Rightarrow> 'd"
    and store :: "'m \<Rightarrow> 'm \<Rightarrow> bool"
  assumes store_cases:
    "store m m' \<Longrightarrow> seq m' = seq m + 1 \<and> data m' = data m
       \<or> seq m' = seq m \<and> (odd (seq m) \<or> data m' = data m)"
begin

definition is_trace :: "'m list \<Rightarrow> bool" where
  "is_trace ms \<longleftrightarrow> (\<forall>i. Suc i < length ms \<longrightarrow> store (ms ! i) (ms ! Suc i))"

text \<open>The number of increments from \<open>i\<close> on.\<close>

lemma counter_run:
  "is_trace ms \<Longrightarrow> i + k < length ms \<Longrightarrow>
     \<exists>d \<le> k. seq (ms ! (i + k)) = seq (ms ! i) + of_nat d
       \<and> (d = 0 \<longrightarrow> even (seq (ms ! i)) \<longrightarrow> data (ms ! (i + k)) = data (ms ! i))"
proof (induction k)
  case (Suc k)
  then obtain d where d: "d \<le> k" "seq (ms ! (i + k)) = seq (ms ! i) + of_nat d"
    "d = 0 \<longrightarrow> even (seq (ms ! i)) \<longrightarrow> data (ms ! (i + k)) = data (ms ! i)" by auto
  have "store (ms ! (i + k)) (ms ! Suc (i + k))" using Suc.prems by (simp add: is_trace_def)
  from store_cases [OF this] show ?case
  proof
    assume "seq (ms ! Suc (i + k)) = seq (ms ! (i + k)) + 1 \<and> data (ms ! Suc (i + k)) = data (ms ! (i + k))"
    with d show ?thesis by (intro exI [of _ "Suc d"]) (simp add: ac_simps)
  next
    assume "seq (ms ! Suc (i + k)) = seq (ms ! (i + k))
      \<and> (odd (seq (ms ! (i + k))) \<or> data (ms ! Suc (i + k)) = data (ms ! (i + k)))"
    with d show ?thesis by (intro exI [of _ d]) auto
  qed
qed auto

text \<open>An even counter that did not change guards all data in between.\<close>

lemma window:
  assumes t: "is_trace ms" and len: "length ms < 2 ^ 32"
    and r: "i \<le> k" "k \<le> j" "j < length ms"
    and s: "even (seq (ms ! i))" "seq (ms ! j) = seq (ms ! i)"
  shows "data (ms ! k) = data (ms ! i)"
proof -
  from counter_run [OF t, of i "k - i"] r obtain d where
    d: "d \<le> k - i" "seq (ms ! k) = seq (ms ! i) + of_nat d"
      "d = 0 \<longrightarrow> even (seq (ms ! i)) \<longrightarrow> data (ms ! k) = data (ms ! i)" by auto
  from counter_run [OF t, of k "j - k"] r obtain d' where
    d': "d' \<le> j - k" "seq (ms ! j) = seq (ms ! k) + of_nat d'" by auto
  have "(of_nat (d + d') :: u32) = 0" using d(2) d'(2) s(2) by (simp add: ac_simps)
  moreover have "d + d' < 2 ^ 32" using d(1) d'(1) r len by linarith
  moreover have "(2::nat) ^ 32 dvd d + d'" if "(of_nat (d + d') :: u32) = 0"
    using that word_of_nat_eq_0_iff [of "d + d'", where 'a = 32] by simp
  ultimately have "d + d' = 0" by (meson nat_dvd_not_less gr0I)
  with d(3) s(1) show ?thesis by simp
qed

text \<open>A list of stores that keep the protocol yields a trace.\<close>

fun stores_ok :: "'m \<Rightarrow> ('m \<Rightarrow> 'm) list \<Rightarrow> bool" where
  "stores_ok m [] = True"
| "stores_ok m (f # fs) \<longleftrightarrow> store m (f m) \<and> stores_ok (f m) fs"

lemma stores_ok_append:
  "stores_ok m (fs @ gs) \<longleftrightarrow> stores_ok m fs \<and> stores_ok (foldl (\<lambda>m f. f m) m fs) gs"
  by (induction fs arbitrary: m) auto

lemma stores_ok_trace: "stores_ok m fs \<Longrightarrow> is_trace (memory_trace m fs)"
proof (induction fs arbitrary: m)
  case (Cons f fs)
  then have ih: "is_trace (memory_trace (f m) fs)" by simp
  have h: "memory_trace (f m) fs ! 0 = f m" by (cases fs) auto
  show ?case
    unfolding is_trace_def
  proof (intro allI impI)
    fix i assume i: "Suc i < length (memory_trace m (f # fs))"
    show "store (memory_trace m (f # fs) ! i) (memory_trace m (f # fs) ! Suc i)"
      using Cons.prems ih i h by (cases i) (auto simp: is_trace_def)
  qed
qed (simp add: is_trace_def)

end

end
