(* ===== verification/BlePairing.thy ===== *)
theory BlePairing
  imports BleLifecycle Seqlock
begin

text \<open>
  \<open>firmware/components/ble_pairing\<close>: the passkey state machine. The executor is the only writer,
  so each operation is one step on the published fields; status readers run concurrently and
  read the fields one by one under the sequence counter (\<open>read_snapshot\<close> on a memory trace).
\<close>

section \<open>Data\<close>

definition kInputTimeoutMs :: u32 where "kInputTimeoutMs = 25000"

datatype live_state = LIdle | LSecuring | LWaitingInput

datatype last_result = RNone | RSucceeded | RSmpFailed | RTimeout | RPeerDisconnected | RStoreFull
  | RStorage | RQueueOverflow | RRepeatPairing | RSecurityPolicy

datatype passkey_result = PkStarted | PkDuplicate | PkStale | PkUnsupported | PkIdExhausted

datatype respond_result = RespAccepted | RespNotPending | RespStaleGeneration
  | RespStaleConnection | RespStalePairingId | RespInvalidSecret | RespInjectionFailed

record pair_snapshot =
  ps_coherent :: bool
  ps_live_state :: live_state
  ps_last_result :: last_result
  ps_generation :: u32
  ps_connection_handle :: u16
  ps_pairing_id :: u32
  ps_pairing_active :: bool
  ps_input_consumed :: bool
  ps_id_exhausted :: bool

record pairing =
  p_sequence :: u32
  p_generation :: u32
  p_connection_handle :: u16
  p_pairing_id :: u32
  p_next_pairing_id :: u32
  p_live_state :: live_state
  p_last_result :: last_result
  p_flags :: u8

definition pairing_init :: pairing where
  "pairing_init = \<lparr>p_sequence = 0, p_generation = 0, p_connection_handle = kNoConnection,
     p_pairing_id = 0, p_next_pairing_id = 1, p_live_state = LIdle, p_last_result = RNone,
     p_flags = 0\<rparr>"

definition kPairingActive :: u8 where "kPairingActive = push_bit 0 1"
definition kInputConsumed :: u8 where "kInputConsumed = push_bit 1 1"
definition kIdExhausted :: u8 where "kIdExhausted = push_bit 2 1"

section \<open>Publication\<close>

text \<open>The stores of \<open>publish\<close>, one by one.\<close>

definition pair_bump :: "pairing \<Rightarrow> pairing" where
  "pair_bump s = s\<lparr>p_sequence := p_sequence s + 1\<rparr>"

definition pair_flags :: "bool \<Rightarrow> bool \<Rightarrow> bool \<Rightarrow> u8" where
  "pair_flags active consumed exhausted =
     (if active then kPairingActive else 0) OR (if consumed then kInputConsumed else 0)
       OR (if exhausted then kIdExhausted else 0)"

definition publish_stores ::
  "live_state \<Rightarrow> last_result \<Rightarrow> u32 \<Rightarrow> u16 \<Rightarrow> u32 \<Rightarrow> bool \<Rightarrow> bool \<Rightarrow> bool \<Rightarrow> (pairing \<Rightarrow> pairing) list" where
  "publish_stores live res g h i active consumed exhausted =
     [pair_bump,
      \<lambda>s. s\<lparr>p_generation := g\<rparr>,
      \<lambda>s. s\<lparr>p_connection_handle := h\<rparr>,
      \<lambda>s. s\<lparr>p_pairing_id := i\<rparr>,
      \<lambda>s. s\<lparr>p_live_state := live\<rparr>,
      \<lambda>s. s\<lparr>p_last_result := res\<rparr>,
      \<lambda>s. s\<lparr>p_flags := pair_flags active consumed exhausted\<rparr>,
      pair_bump]"

definition publish_pairing ::
  "live_state \<Rightarrow> last_result \<Rightarrow> u32 \<Rightarrow> u16 \<Rightarrow> u32 \<Rightarrow> bool \<Rightarrow> bool \<Rightarrow> bool \<Rightarrow> pairing \<Rightarrow> pairing" where
  "publish_pairing live res g h i active consumed exhausted s =
     foldl (\<lambda>m f. f m) s (publish_stores live res g h i active consumed exhausted)"

text \<open>One attempt of \<open>snapshot\<close>: the memories at the eight loads, in order.\<close>

definition read_attempt :: "(nat \<Rightarrow> pairing) \<Rightarrow> pair_snapshot option" where
  "read_attempt at =
     (let before = p_sequence (at 0) in
      if before AND 1 \<noteq> 0 then None
      else
        (let flags = p_flags (at 6);
             r = \<lparr>ps_coherent = True, ps_live_state = p_live_state (at 4),
               ps_last_result = p_last_result (at 5), ps_generation = p_generation (at 1),
               ps_connection_handle = p_connection_handle (at 2),
               ps_pairing_id = p_pairing_id (at 3),
               ps_pairing_active = (flags AND kPairingActive \<noteq> 0),
               ps_input_consumed = (flags AND kInputConsumed \<noteq> 0),
               ps_id_exhausted = (flags AND kIdExhausted \<noteq> 0)\<rparr>
         in if before = p_sequence (at 7) then Some r else None))"

definition incoherent_pair_snapshot :: pair_snapshot where
  "incoherent_pair_snapshot = \<lparr>ps_coherent = False, ps_live_state = LIdle, ps_last_result = RNone,
     ps_generation = 0, ps_connection_handle = kNoConnection, ps_pairing_id = 0,
     ps_pairing_active = False, ps_input_consumed = False, ps_id_exhausted = False\<rparr>"

text \<open>\<open>snapshot\<close>: three attempts, \<open>at a i\<close> is the memory at load \<open>i\<close> of attempt \<open>a\<close>.\<close>

fun read_attempts :: "nat \<Rightarrow> (nat \<Rightarrow> nat \<Rightarrow> pairing) \<Rightarrow> pair_snapshot" where
  "read_attempts 0 at = incoherent_pair_snapshot"
| "read_attempts (Suc n) at =
     (case read_attempt (at 0) of Some r \<Rightarrow> r | None \<Rightarrow> read_attempts n (\<lambda>a. at (Suc a)))"

definition read_snapshot :: "(nat \<Rightarrow> nat \<Rightarrow> pairing) \<Rightarrow> pair_snapshot" where
  "read_snapshot at = read_attempts 3 at"

text \<open>The writer reads its own memory, which does not change meanwhile.\<close>

definition pair_snapshot :: "pairing \<Rightarrow> pair_snapshot" where
  "pair_snapshot s = read_snapshot (\<lambda>a i. s)"

section \<open>Operations\<close>

definition pairing_current :: "u32 \<Rightarrow> u16 \<Rightarrow> pairing \<Rightarrow> bool" where
  "pairing_current g h s =
     (let v = pair_snapshot s in
      ps_coherent v \<and> ps_generation v = g \<and> ps_connection_handle v = h)"

definition pair_begin_connection :: "u32 \<Rightarrow> u16 \<Rightarrow> pairing \<Rightarrow> pairing" where
  "pair_begin_connection g h s =
     (let old = pair_snapshot s in
      publish_pairing LSecuring (ps_last_result old) g h 0 False False (ps_id_exhausted old) s)"

definition begin_passkey_input :: "u32 \<Rightarrow> u16 \<Rightarrow> pairing \<Rightarrow> passkey_result \<times> pairing" where
  "begin_passkey_input g h s =
     (let old = pair_snapshot s in
      if \<not> ps_coherent old \<or> ps_generation old \<noteq> g \<or> ps_connection_handle old \<noteq> h
        \<or> ps_live_state old = LIdle then (PkStale, s)
      else if ps_live_state old = LWaitingInput \<and> ps_pairing_id old \<noteq> 0 then (PkDuplicate, s)
      else if ps_id_exhausted old then
        (PkIdExhausted, publish_pairing LIdle RSecurityPolicy g h 0 False False True s)
      else
        (let i = p_next_pairing_id s in
         if i = 0 then
           (PkIdExhausted, publish_pairing LIdle RSecurityPolicy g h 0 False False True s)
         else
           (let exhausted = (i = - 1);
                s1 = s\<lparr>p_next_pairing_id := (if exhausted then 0 else i + 1)\<rparr>
            in (PkStarted, publish_pairing LWaitingInput RNone g h i True False exhausted s1))))"

definition reject_unsupported_action :: "u32 \<Rightarrow> u16 \<Rightarrow> pairing \<Rightarrow> passkey_result \<times> pairing" where
  "reject_unsupported_action g h s =
     (if \<not> pairing_current g h s then (PkStale, s)
      else (PkUnsupported, publish_pairing LIdle RSecurityPolicy g h 0 False False
              (ps_id_exhausted (pair_snapshot s)) s))"

definition validate_response :: "u32 \<Rightarrow> u16 \<Rightarrow> u32 \<Rightarrow> pairing \<Rightarrow> respond_result" where
  "validate_response g h i s =
     (let v = pair_snapshot s in
      if \<not> ps_coherent v \<or> ps_generation v \<noteq> g then RespStaleGeneration
      else if ps_connection_handle v \<noteq> h then RespStaleConnection
      else if ps_live_state v \<noteq> LWaitingInput \<or> \<not> ps_pairing_active v \<or> ps_input_consumed v
        \<or> ps_pairing_id v = 0 then RespNotPending
      else if ps_pairing_id v = i then RespAccepted else RespStalePairingId)"

definition consume_response :: "u32 \<Rightarrow> u16 \<Rightarrow> u32 \<Rightarrow> pairing \<Rightarrow> pairing" where
  "consume_response g h i s =
     (if validate_response g h i s \<noteq> RespAccepted then s
      else
        (let old = pair_snapshot s in
         publish_pairing LSecuring (ps_last_result old) g h 0 True True (ps_id_exhausted old) s))"

definition pairing_timeout :: "u32 \<Rightarrow> u16 \<Rightarrow> u32 \<Rightarrow> pairing \<Rightarrow> bool \<times> pairing" where
  "pairing_timeout g h i s =
     (if validate_response g h i s \<noteq> RespAccepted then (False, s)
      else (True, publish_pairing LIdle RTimeout g h 0 False False
              (ps_id_exhausted (pair_snapshot s)) s))"

definition pairing_complete :: "u32 \<Rightarrow> u16 \<Rightarrow> last_result \<Rightarrow> pairing \<Rightarrow> bool \<times> pairing" where
  "pairing_complete g h res s =
     (if \<not> pairing_current g h s then (False, s)
      else (True, publish_pairing LIdle res g h 0 False False (ps_id_exhausted (pair_snapshot s)) s))"

definition fail_closed :: "u32 \<Rightarrow> u16 \<Rightarrow> last_result \<Rightarrow> pairing \<Rightarrow> pairing" where
  "fail_closed g h res s =
     publish_pairing LIdle res g h 0 False False (ps_id_exhausted (pair_snapshot s)) s"

definition pairing_disconnect :: "u32 \<Rightarrow> u16 \<Rightarrow> pairing \<Rightarrow> bool \<times> pairing" where
  "pairing_disconnect g h s =
     (if \<not> pairing_current g h s then (False, s)
      else
        (let old = pair_snapshot s;
             res = (if ps_pairing_active old then RPeerDisconnected else ps_last_result old)
         in (True, publish_pairing LIdle res g kNoConnection 0 False False (ps_id_exhausted old) s)))"

definition pairing_disable :: "pairing \<Rightarrow> pairing" where
  "pairing_disable s =
     (let old = pair_snapshot s in
      publish_pairing LIdle RNone (ps_generation old) kNoConnection 0 False False (ps_id_exhausted old) s)"

definition pairing_reset :: "pairing \<Rightarrow> pairing" where
  "pairing_reset s =
     (let old = pair_snapshot s in
      publish_pairing LIdle RNone (ps_generation old) kNoConnection 0 False False (ps_id_exhausted old) s)"

datatype pairing_event =
    PConnect u32 u16 | PPasskey u32 u16 | PUnsupported u32 u16 | PConsume u32 u16 u32
  | PTimeout u32 u16 u32 | PComplete u32 u16 last_result | PFail u32 u16 last_result
  | PDisconnect u32 u16 | PDisable | PReset

fun pairing_step :: "pairing \<Rightarrow> pairing_event \<Rightarrow> pairing" where
  "pairing_step s (PConnect g h) = pair_begin_connection g h s"
| "pairing_step s (PPasskey g h) = snd (begin_passkey_input g h s)"
| "pairing_step s (PUnsupported g h) = snd (reject_unsupported_action g h s)"
| "pairing_step s (PConsume g h i) = consume_response g h i s"
| "pairing_step s (PTimeout g h i) = snd (pairing_timeout g h i s)"
| "pairing_step s (PComplete g h r) = snd (pairing_complete g h r s)"
| "pairing_step s (PFail g h r) = fail_closed g h r s"
| "pairing_step s (PDisconnect g h) = snd (pairing_disconnect g h s)"
| "pairing_step s PDisable = pairing_disable s"
| "pairing_step s PReset = pairing_reset s"

section \<open>The published fields\<close>

lemma counter_odd: "(w AND 1 = 0) = even (w :: u32)"
  using flag_tests(1) [of w] by (simp add: bit_0)


lemma pair_flag_bits:
  "(pair_flags a c x AND kPairingActive = 0) = (\<not> a)"
  "(pair_flags a c x AND kInputConsumed = 0) = (\<not> c)"
  "(pair_flags a c x AND kIdExhausted = 0) = (\<not> x)"
  by (cases a; cases c; cases x; simp add: pair_flags_def kPairingActive_def kInputConsumed_def kIdExhausted_def)+

lemma publish_pairing_eq:
  "publish_pairing live res g h i a c x s =
     s\<lparr>p_sequence := p_sequence s + 2, p_generation := g, p_connection_handle := h,
       p_pairing_id := i, p_live_state := live, p_last_result := res, p_flags := pair_flags a c x\<rparr>"
  by (simp add: publish_pairing_def publish_stores_def pair_bump_def)

lemma own_snapshot:
  "even (p_sequence s) \<Longrightarrow> pair_snapshot s =
     \<lparr>ps_coherent = True, ps_live_state = p_live_state s, ps_last_result = p_last_result s,
      ps_generation = p_generation s, ps_connection_handle = p_connection_handle s,
      ps_pairing_id = p_pairing_id s, ps_pairing_active = (p_flags s AND kPairingActive \<noteq> 0),
      ps_input_consumed = (p_flags s AND kInputConsumed \<noteq> 0),
      ps_id_exhausted = (p_flags s AND kIdExhausted \<noteq> 0)\<rparr>"
  by (simp add: pair_snapshot_def read_snapshot_def numeral_3_eq_3 read_attempt_def Let_def counter_odd)

section \<open>Invariant\<close>

definition exhausted_flag :: "pairing \<Rightarrow> bool" where
  "exhausted_flag s \<longleftrightarrow> p_flags s AND kIdExhausted \<noteq> 0"

text \<open>The next identity as a number, past the last one when exhausted.\<close>

definition next_rank :: "pairing \<Rightarrow> nat" where
  "next_rank s = (if p_next_pairing_id s = 0 then 2 ^ 32 else unat (p_next_pairing_id s))"

definition pairing_inv :: "pairing \<Rightarrow> bool" where
  "pairing_inv s \<longleftrightarrow> even (p_sequence s)
     \<and> exhausted_flag s = (p_next_pairing_id s = 0)
     \<and> unat (p_pairing_id s) < next_rank s
     \<and> (p_pairing_id s \<noteq> 0 \<longleftrightarrow> p_live_state s = LWaitingInput)
     \<and> (p_live_state s = LWaitingInput \<longrightarrow>
          p_flags s AND kPairingActive \<noteq> 0 \<and> p_flags s AND kInputConsumed = 0)"

lemma rank_pos: "0 < next_rank s"
  by (simp add: next_rank_def unat_gt_0)

lemma even_bump [simp]: "even ((w :: u32) + 2) = even w"
  by simp

text \<open>A publication without a pending identity.\<close>

lemma publish_idle_inv:
  assumes "pairing_inv s" "live \<noteq> LWaitingInput" "x = (p_next_pairing_id s = 0)"
  shows "pairing_inv (publish_pairing live res g h 0 a c x s)
    \<and> next_rank (publish_pairing live res g h 0 a c x s) = next_rank s
    \<and> p_pairing_id (publish_pairing live res g h 0 a c x s) = 0"
  using assms rank_pos [of s]
  by (simp add: pairing_inv_def publish_pairing_eq exhausted_flag_def pair_flag_bits next_rank_def unat_gt_0)

lemma publish_started_inv:
  fixes g :: u32 and h :: u16
  assumes inv: "pairing_inv s" and n: "p_next_pairing_id s \<noteq> 0"
  defines "i \<equiv> p_next_pairing_id s"
  defines "s' \<equiv> publish_pairing LWaitingInput RNone g h i True False (i = - 1)
     (s\<lparr>p_next_pairing_id := (if i = - 1 then 0 else i + 1)\<rparr>)"
  shows "pairing_inv s' \<and> next_rank s' = Suc (unat i) \<and> next_rank s = unat i \<and> p_pairing_id s' = i"
proof -
  have m: "unat (- 1 :: u32) = 2 ^ 32 - 1" by (simp add: unsigned_minus_1_eq_mask mask_eq_exp_minus_1)
  have nz: "i \<noteq> - 1 \<Longrightarrow> i + 1 \<noteq> 0" by (metis add.commute add_eq_0_iff)
  have u: "i \<noteq> - 1 \<Longrightarrow> unat (i + 1) = Suc (unat i)"
    using unatSuc [of i] nz by (simp add: add.commute)
  have r: "next_rank s' = Suc (unat i)"
    using nz u m by (auto simp: next_rank_def s'_def publish_pairing_eq)
  with inv n nz show ?thesis
    by (auto simp: pairing_inv_def s'_def publish_pairing_eq exhausted_flag_def pair_flag_bits i_def next_rank_def)
qed

definition retired :: "u32 \<Rightarrow> pairing \<Rightarrow> bool" where
  "retired i s \<longleftrightarrow> p_pairing_id s \<noteq> i \<and> unat i < next_rank s"

lemma own_exhausted:
  "pairing_inv s \<Longrightarrow> ps_id_exhausted (pair_snapshot s) = (p_next_pairing_id s = 0)"
  by (simp add: own_snapshot pairing_inv_def exhausted_flag_def)

lemma own_coherent:
  "pairing_inv s \<Longrightarrow> ps_coherent (pair_snapshot s)"
  "pairing_inv s \<Longrightarrow> ps_live_state (pair_snapshot s) = p_live_state s"
  "pairing_inv s \<Longrightarrow> ps_pairing_id (pair_snapshot s) = p_pairing_id s"
  "pairing_inv s \<Longrightarrow> ps_generation (pair_snapshot s) = p_generation s"
  "pairing_inv s \<Longrightarrow> ps_connection_handle (pair_snapshot s) = p_connection_handle s"
  by (simp_all add: own_snapshot pairing_inv_def)

text \<open>
  Every operation leaves the state, publishes without a pending identity, or starts the next
  identity.
\<close>

definition quiet_publication :: "pairing \<Rightarrow> pairing \<Rightarrow> bool" where
  "quiet_publication s t \<longleftrightarrow> (\<exists>live res g h a c. live \<noteq> LWaitingInput
     \<and> t = publish_pairing live res g h 0 a c (p_next_pairing_id s = 0) s)"

lemma quiet_publications [simp]:
  "quiet_publication s (publish_pairing LIdle res g h 0 a c (p_next_pairing_id s = 0) s)"
  "quiet_publication s (publish_pairing LSecuring res g h 0 a c (p_next_pairing_id s = 0) s)"
  "p_next_pairing_id s = 0 \<Longrightarrow> quiet_publication s (publish_pairing LIdle res g h 0 a c True s)"
  unfolding quiet_publication_def by (metis live_state.distinct)+

lemma pairing_step_cases:
  assumes inv: "pairing_inv s"
  shows "pairing_step s ev = s
    \<or> quiet_publication s (pairing_step s ev)
    \<or> (\<exists>g h. ev = PPasskey g h \<and> fst (begin_passkey_input g h s) = PkStarted
         \<and> p_next_pairing_id s \<noteq> 0 \<and> pairing_step s ev =
         publish_pairing LWaitingInput RNone g h (p_next_pairing_id s) True False (p_next_pairing_id s = - 1)
           (s\<lparr>p_next_pairing_id := (if p_next_pairing_id s = - 1 then 0 else p_next_pairing_id s + 1)\<rparr>))"
proof (cases ev)
  case (PPasskey g h)
  then show ?thesis
    by (auto simp: begin_passkey_input_def Let_def own_exhausted [OF inv] own_coherent [OF inv])
qed (auto simp: pair_begin_connection_def reject_unsupported_action_def consume_response_def
    pairing_timeout_def pairing_complete_def fail_closed_def pairing_disconnect_def
    pairing_disable_def pairing_reset_def Let_def own_exhausted [OF inv])

definition pairing_fwd :: "pairing \<Rightarrow> pairing \<Rightarrow> bool" where
  "pairing_fwd s t \<longleftrightarrow> next_rank s \<le> next_rank t \<and> (\<forall>i. i \<noteq> 0 \<longrightarrow> retired i s \<longrightarrow> retired i t)"

lemma pairing_step_inv:
  assumes inv: "pairing_inv s"
  shows "pairing_inv (pairing_step s ev) \<and> pairing_fwd s (pairing_step s ev)"
proof -
  consider (same) "pairing_step s ev = s"
    | (idle) live res g h a c where "live \<noteq> LWaitingInput"
        "pairing_step s ev = publish_pairing live res g h 0 a c (p_next_pairing_id s = 0) s"
    | (start) g h where "p_next_pairing_id s \<noteq> 0" "pairing_step s ev =
         publish_pairing LWaitingInput RNone g h (p_next_pairing_id s) True False (p_next_pairing_id s = - 1)
           (s\<lparr>p_next_pairing_id := (if p_next_pairing_id s = - 1 then 0 else p_next_pairing_id s + 1)\<rparr>)"
    using pairing_step_cases [OF inv, of ev] unfolding quiet_publication_def by blast
  then show ?thesis
  proof cases
    case same
    with inv show ?thesis by (simp add: pairing_fwd_def)
  next
    case idle
    with publish_idle_inv [OF inv idle(1) refl] show ?thesis by (auto simp: pairing_fwd_def retired_def)
  next
    case start
    with publish_started_inv [OF inv start(1), of g h] show ?thesis
      by (auto simp: pairing_fwd_def retired_def)
  qed
qed

interpretation pairing_machine: forward_machine pairing_step pairing_init pairing_inv pairing_fwd
proof unfold_locales
  show "pairing_inv pairing_init"
    by (simp add: pairing_inv_def pairing_init_def exhausted_flag_def next_rank_def)
next
  fix s ev assume "pairing_inv s"
  then show "pairing_inv (pairing_step s ev)" and "pairing_fwd s (pairing_step s ev)"
    using pairing_step_inv by auto
qed (auto simp: pairing_fwd_def)

section \<open>One response per identity\<close>

lemma validate_pending:
  "pairing_inv s \<Longrightarrow> validate_response g h i s = RespAccepted \<Longrightarrow>
     i \<noteq> 0 \<and> p_pairing_id s = i \<and> p_generation s = g \<and> p_connection_handle s = h"
  by (auto simp: validate_response_def Let_def own_coherent split: if_splits)

lemma consumed_retired:
  assumes inv: "pairing_inv s" and v: "validate_response g h i s = RespAccepted"
  shows "retired i (consume_response g h i s)"
proof -
  note p = validate_pending [OF inv v]
  have "unat i < next_rank s" using inv p by (auto simp: pairing_inv_def)
  with p v show ?thesis
    by (auto simp: retired_def consume_response_def Let_def publish_pairing_eq next_rank_def)
qed

text \<open>The identities started along a run.\<close>

fun pairing_ids :: "pairing \<Rightarrow> pairing_event list \<Rightarrow> u32 list" where
  "pairing_ids s [] = []"
| "pairing_ids s (ev # evs) =
     (case ev of PPasskey g h \<Rightarrow>
        if fst (begin_passkey_input g h s) = PkStarted then [p_pairing_id (pairing_step s ev)] else []
      | _ \<Rightarrow> []) @ pairing_ids (pairing_step s ev) evs"

lemma pairing_ids_fresh:
  "pairing_inv s \<Longrightarrow> sorted_wrt (<) (pairing_ids s evs)
     \<and> list_all (\<lambda>i. next_rank s \<le> unat i) (pairing_ids s evs)"
proof (induction evs arbitrary: s)
  case (Cons ev evs)
  note IH = Cons.IH [OF pairing_machine.inv_step [OF Cons.prems, of ev]]
  have mono: "next_rank s \<le> next_rank (pairing_step s ev)"
    using pairing_step_inv [OF Cons.prems, of ev] by (simp add: pairing_fwd_def)
  show ?case
  proof (cases "\<exists>g h. ev = PPasskey g h \<and> fst (begin_passkey_input g h s) = PkStarted")
    case False
    then have "pairing_ids s (ev # evs) = pairing_ids (pairing_step s ev) evs" by (cases ev) auto
    with IH mono show ?thesis by (auto simp: list_all_iff)
  next
    case True
    then obtain g h where e: "ev = PPasskey g h" "fst (begin_passkey_input g h s) = PkStarted" by blast
    then have n: "p_next_pairing_id s \<noteq> 0" and st: "pairing_step s ev =
         publish_pairing LWaitingInput RNone g h (p_next_pairing_id s) True False (p_next_pairing_id s = - 1)
           (s\<lparr>p_next_pairing_id := (if p_next_pairing_id s = - 1 then 0 else p_next_pairing_id s + 1)\<rparr>)"
      by (auto simp: begin_passkey_input_def Let_def split: if_splits)
    note si = publish_started_inv [OF Cons.prems n, of g h, folded st]
    have lt: "list_all (\<lambda>i. p_pairing_id (pairing_step s ev) < i) (pairing_ids (pairing_step s ev) evs)"
      using IH si by (auto simp: list_all_iff word_less_nat_alt)
    with IH si e show ?thesis by (auto simp: list_all_iff)
  qed
qed simp

section \<open>Concurrent readers\<close>

definition pair_data :: "pairing \<Rightarrow> u32 \<times> u16 \<times> u32 \<times> live_state \<times> last_result \<times> u8" where
  "pair_data s = (p_generation s, p_connection_handle s, p_pairing_id s, p_live_state s, p_last_result s, p_flags s)"

text \<open>The stores of the writer: the counter, the next identity, or a field while the counter is odd.\<close>

definition pair_store :: "pairing \<Rightarrow> pairing \<Rightarrow> bool" where
  "pair_store m m' \<longleftrightarrow> m' = pair_bump m \<or> pair_data m' = pair_data m \<and> p_sequence m' = p_sequence m
     \<or> odd (p_sequence m) \<and> p_sequence m' = p_sequence m"

interpretation pair_lock: seqlock p_sequence pair_data pair_store
  by unfold_locales (auto simp: pair_store_def pair_bump_def pair_data_def)

text \<open>The memories of a list of publications; each one may first store the next identity.\<close>

record publication =
  pub_next :: "u32 option"
  pub_live :: live_state
  pub_result :: last_result
  pub_generation :: u32
  pub_handle :: u16
  pub_id :: u32
  pub_active :: bool
  pub_consumed :: bool
  pub_exhausted :: bool

definition publication_stores :: "publication \<Rightarrow> (pairing \<Rightarrow> pairing) list" where
  "publication_stores p =
     (case pub_next p of Some n \<Rightarrow> [\<lambda>s. s\<lparr>p_next_pairing_id := n\<rparr>] | None \<Rightarrow> [])
       @ publish_stores (pub_live p) (pub_result p) (pub_generation p) (pub_handle p) (pub_id p)
           (pub_active p) (pub_consumed p) (pub_exhausted p)"

definition publish_record :: "publication \<Rightarrow> pairing \<Rightarrow> pairing" where
  "publish_record p s = publish_pairing (pub_live p) (pub_result p) (pub_generation p) (pub_handle p)
     (pub_id p) (pub_active p) (pub_consumed p) (pub_exhausted p)
     (case pub_next p of Some n \<Rightarrow> s\<lparr>p_next_pairing_id := n\<rparr> | None \<Rightarrow> s)"

definition writer_trace :: "pairing \<Rightarrow> publication list \<Rightarrow> pairing list" where
  "writer_trace s ps = memory_trace s (concat (map publication_stores ps))"

lemma foldl_stores: "foldl (\<lambda>m f. f m) s (publication_stores p) = publish_record p s"
  by (simp add: publication_stores_def publish_record_def publish_pairing_def split: option.splits)

lemma publication_length: "length (publication_stores p) = 8 \<or> length (publication_stores p) = 9"
  by (simp add: publication_stores_def publish_stores_def split: option.splits)

lemma publication_ok:
  "even (p_sequence s) \<Longrightarrow> pair_lock.stores_ok s (publication_stores p) \<and> even (p_sequence (publish_record p s))"
  by (auto simp: publication_stores_def publish_stores_def pair_store_def pair_bump_def pair_data_def
      publish_record_def publish_pairing_eq split: option.splits)

lemma publications_ok:
  "even (p_sequence s) \<Longrightarrow> pair_lock.stores_ok s (concat (map publication_stores ps))"
proof (induction ps arbitrary: s)
  case (Cons p ps)
  then show ?case using publication_ok [OF Cons.prems, of p]
    by (simp add: pair_lock.stores_ok_append foldl_stores)
qed simp

lemma writer_is_trace: "even (p_sequence s) \<Longrightarrow> pair_lock.is_trace (writer_trace s ps)"
  unfolding writer_trace_def by (rule pair_lock.stores_ok_trace) (rule publications_ok)

text \<open>The writes of an operation are at most one publication.\<close>

lemma pairing_step_publishes:
  "pairing_inv s \<Longrightarrow> pairing_step s ev = s \<or> (\<exists>p. pairing_step s ev = publish_record p s)"
proof -
  assume inv: "pairing_inv s"
  have q: "quiet_publication s t \<Longrightarrow> \<exists>p. t = publish_record p s" for t
  proof -
    assume "quiet_publication s t"
    then obtain live res g h a c where
      "t = publish_pairing live res g h 0 a c (p_next_pairing_id s = 0) s" unfolding quiet_publication_def by blast
    then have "t = publish_record \<lparr>pub_next = None, pub_live = live, pub_result = res, pub_generation = g,
      pub_handle = h, pub_id = 0, pub_active = a, pub_consumed = c, pub_exhausted = (p_next_pairing_id s = 0)\<rparr> s"
      by (simp add: publish_record_def)
    then show ?thesis by blast
  qed
  have st: "\<exists>p. publish_pairing LWaitingInput RNone g h i True False x (s\<lparr>p_next_pairing_id := n\<rparr>)
      = publish_record p s" for g h i x n
    by (rule exI [of _ "\<lparr>pub_next = Some n, pub_live = LWaitingInput, pub_result = RNone, pub_generation = g,
      pub_handle = h, pub_id = i, pub_active = True, pub_consumed = False, pub_exhausted = x\<rparr>"])
      (simp add: publish_record_def)
  show ?thesis using pairing_step_cases [OF inv, of ev] q st by metis
qed

text \<open>The loads of a reader: times within the trace, in order within an attempt.\<close>

definition reader_times :: "nat \<Rightarrow> (nat \<Rightarrow> nat \<Rightarrow> nat) \<Rightarrow> bool" where
  "reader_times len t \<longleftrightarrow> (\<forall>a i j. i \<le> j \<longrightarrow> t a i \<le> t a j) \<and> (\<forall>a i. t a i < len)"

lemma attempt_coherent:
  assumes e: "even (p_sequence s)" and len: "length (writer_trace s ps) < 2 ^ 32"
    and t: "\<forall>i j. i \<le> j \<longrightarrow> t i \<le> t j" "\<forall>i. t i < length (writer_trace s ps)"
    and r: "read_attempt (\<lambda>i. writer_trace s ps ! t i) = Some r"
  shows "r = pair_snapshot (writer_trace s ps ! t 0) \<and> even (p_sequence (writer_trace s ps ! t 0))"
proof -
  let ?m = "\<lambda>i. writer_trace s ps ! t i"
  have ev: "even (p_sequence (?m 0))" and same: "p_sequence (?m 7) = p_sequence (?m 0)"
    using r by (auto simp: read_attempt_def Let_def counter_odd split: if_splits)
  have d: "pair_data (?m i) = pair_data (?m 0)" if "i \<le> 7" for i
    using t that by (intro pair_lock.window [OF writer_is_trace [OF e] len, where j = "t 7"] ev same) auto
  from d [of 1] d [of 2] d [of 3] d [of 4] d [of 5] d [of 6] r ev same show ?thesis
    by (auto simp: own_snapshot read_attempt_def Let_def pair_data_def counter_odd)
qed

lemma read_coherent:
  assumes e: "even (p_sequence s)" and len: "length (writer_trace s ps) < 2 ^ 32"
    and t: "reader_times (length (writer_trace s ps)) t"
    and c: "ps_coherent (read_attempts n (\<lambda>a i. writer_trace s ps ! t a i))"
  shows "\<exists>k < length (writer_trace s ps). even (p_sequence (writer_trace s ps ! k))
    \<and> read_attempts n (\<lambda>a i. writer_trace s ps ! t a i) = pair_snapshot (writer_trace s ps ! k)"
  using t c
proof (induction n arbitrary: t)
  case 0
  then show ?case by (simp add: incoherent_pair_snapshot_def)
next
  case (Suc n)
  show ?case
  proof (cases "read_attempt (\<lambda>i. writer_trace s ps ! t 0 i)")
    case None
    have "reader_times (length (writer_trace s ps)) (\<lambda>a. t (Suc a))" using Suc.prems(1) by (simp add: reader_times_def)
    from Suc.IH [OF this] Suc.prems(2) None show ?thesis by simp
  next
    case (Some r)
    have "\<forall>i j. i \<le> j \<longrightarrow> t 0 i \<le> t 0 j" "\<forall>i. t 0 i < length (writer_trace s ps)"
      using Suc.prems(1) by (auto simp: reader_times_def)
    from attempt_coherent [OF e len this Some] this(2) Some show ?thesis by auto
  qed
qed

section \<open>Properties\<close>

text \<open>
  C24: An identity whose response was consumed is never accepted again, whatever follows; and the
  identities handed out along any run strictly increase, so none is reused.
\<close>

theorem passkey_one_shot:
  assumes "validate_response g h i (foldl pairing_step pairing_init before) = RespAccepted"
  shows "validate_response g' h' i
      (foldl pairing_step (consume_response g h i (foldl pairing_step pairing_init before)) after) \<noteq> RespAccepted
    \<and> sorted_wrt (<) (pairing_ids pairing_init (before @ after))"
proof -
  let ?s = "foldl pairing_step pairing_init before"
  have inv: "pairing_inv ?s" by (rule pairing_machine.inv_reach)
  have inv': "pairing_inv (consume_response g h i ?s)"
    using pairing_machine.inv_step [OF inv, of "PConsume g h i"] by simp
  have i: "i \<noteq> 0" using validate_pending [OF inv assms] by simp
  have "retired i (foldl pairing_step (consume_response g h i ?s) after)"
    using pairing_machine.fwd_run [OF inv', of after] consumed_retired [OF inv assms] i
    by (simp add: pairing_fwd_def)
  then have "p_pairing_id (foldl pairing_step (consume_response g h i ?s) after) \<noteq> i" by (simp add: retired_def)
  with validate_pending [OF pairing_machine.inv_run [OF inv', of after]] pairing_ids_fresh [OF pairing_machine.inv_ini]
  show ?thesis by blast
qed

theorem passkey_one_shot_witness:
  "validate_response 1 7 1 (foldl pairing_step pairing_init [PConnect 1 7, PPasskey 1 7, PConsume 1 7 1, PConnect 1 7, PPasskey 1 7])
     \<noteq> RespAccepted"
proof -
  have "validate_response 1 7 1 (foldl pairing_step pairing_init [PConnect 1 7, PPasskey 1 7]) = RespAccepted"
    by code_simp
  from passkey_one_shot [OF this, of 1 7 "[PConnect 1 7, PPasskey 1 7]"] show ?thesis by simp
qed


definition sample_publication :: publication where
  "sample_publication = \<lparr>pub_next = Some 2, pub_live = LWaitingInput, pub_result = RNone, pub_generation = 1,
     pub_handle = 7, pub_id = 1, pub_active = True, pub_consumed = False, pub_exhausted = False\<rparr>"

end
