(* ===== verification/BleSecurity.thy ===== *)
theory BleSecurity
  imports FixtureProfile BleLifecycle Seqlock
begin

text \<open>
  \<open>firmware/components/ble_security\<close>: the evidence that gates HID reports on the BLE link
  (\<open>State\<close>, written by the executor under a sequence counter) and the inhibition that host
  callbacks may raise (\<open>ReadinessInhibit\<close>). The names of the C++ class members carry the
  prefixes \<open>sec\<close> and \<open>inh\<close>.
\<close>

section \<open>Evidence\<close>

definition kBondCapacity :: u8 where "kBondCapacity = 3"

datatype store_failure_kind = SfNone | SfCapacityFull | SfRead | SfWrite | SfDelete

record stored_record =
  sr_found :: bool
  sr_identity_matches :: bool
  sr_ltk_present :: bool
  sr_authenticated :: bool
  sr_secure_connections :: bool
  sr_key_size :: u8

record persisted_evidence =
  our_record :: stored_record
  peer_record :: stored_record

record link_evidence =
  lk_encrypted :: bool
  lk_authenticated :: bool
  lk_nimble_bonded :: bool
  lk_secure_connections :: bool
  lk_identity_resolved :: bool
  lk_key_size :: u8

definition record_is_valid :: "stored_record \<Rightarrow> security_outcome_policy \<Rightarrow> bool" where
  "record_is_valid r policy \<longleftrightarrow>
     sr_found r \<and> sr_identity_matches r \<and> sr_ltk_present r
     \<and> sr_authenticated r = pol_authenticated policy \<and> sr_key_size r = pol_key_size policy
     \<and> (\<not> pol_secure_connections_required policy \<or> sr_secure_connections r)"

definition persisted_bond_is_valid :: "persisted_evidence \<Rightarrow> profile_id \<Rightarrow> bool" where
  "persisted_bond_is_valid per pid =
     (case find_definition pid of
        None \<Rightarrow> False
      | Some d \<Rightarrow> record_is_valid (our_record per) (prof_security d)
          \<and> record_is_valid (peer_record per) (prof_security d)
          \<and> sr_secure_connections (our_record per) = sr_secure_connections (peer_record per))"

section \<open>State\<close>

record sec_snapshot =
  ss_profile :: profile_id
  ss_generation :: u32
  ss_connection_handle :: u16
  ss_connected :: bool
  ss_encrypted :: bool
  ss_authenticated :: bool
  ss_nimble_bonded :: bool
  ss_project_verified_bond_persisted :: bool
  ss_secure_connections :: bool
  ss_identity_resolved :: bool
  ss_store_healthy :: bool
  ss_lifecycle_healthy :: bool
  ss_coherent :: bool
  ss_key_size :: u8
  ss_last_store_failure :: store_failure_kind
  ss_last_store_status :: i32

record security =
  sec_profile :: profile_id
  sec_sequence :: u32
  sec_generation :: u32
  sec_handle :: u16
  sec_flags :: u32
  sec_key_size :: u8
  sec_last_failure :: store_failure_kind
  sec_last_status :: i32
  persistent_store_healthy :: bool

definition fConnected :: u32 where "fConnected = push_bit 0 1"
definition fEncrypted :: u32 where "fEncrypted = push_bit 1 1"
definition fAuthenticated :: u32 where "fAuthenticated = push_bit 2 1"
definition fNimbleBonded :: u32 where "fNimbleBonded = push_bit 3 1"
definition fPersisted :: u32 where "fPersisted = push_bit 4 1"
definition fSecureConnections :: u32 where "fSecureConnections = push_bit 5 1"
definition fIdentityResolved :: u32 where "fIdentityResolved = push_bit 6 1"
definition fStoreHealthy :: u32 where "fStoreHealthy = push_bit 7 1"
definition fLifecycleHealthy :: u32 where "fLifecycleHealthy = push_bit 8 1"

lemmas sec_flag_defs = fConnected_def fEncrypted_def fAuthenticated_def fNimbleBonded_def
  fPersisted_def fSecureConnections_def fIdentityResolved_def fStoreHealthy_def fLifecycleHealthy_def

definition security_init :: security where
  "security_init = \<lparr>sec_profile = PidStrictComposite, sec_sequence = 0, sec_generation = 0,
     sec_handle = kNoConnection, sec_flags = fStoreHealthy, sec_key_size = 0,
     sec_last_failure = SfNone, sec_last_status = 0, persistent_store_healthy = True\<rparr>"

text \<open>\<open>begin_write\<close> and \<open>end_write\<close> around the stores of an operation.\<close>

definition sec_write :: "(security \<Rightarrow> security) \<Rightarrow> security \<Rightarrow> security" where
  "sec_write f s =
     (let s1 = f (s\<lparr>sec_sequence := sec_sequence s + 1\<rparr>)
      in s1\<lparr>sec_sequence := sec_sequence s1 + 1\<rparr>)"

definition incoherent_sec_snapshot :: sec_snapshot where
  "incoherent_sec_snapshot = \<lparr>ss_profile = PidStrictComposite, ss_generation = 0,
     ss_connection_handle = kNoConnection, ss_connected = False, ss_encrypted = False,
     ss_authenticated = False, ss_nimble_bonded = False, ss_project_verified_bond_persisted = False,
     ss_secure_connections = False, ss_identity_resolved = False, ss_store_healthy = True,
     ss_lifecycle_healthy = False, ss_coherent = False, ss_key_size = 0,
     ss_last_store_failure = SfNone, ss_last_store_status = 0\<rparr>"

text \<open>One attempt of \<open>snapshot\<close> on the memories at its nine loads.\<close>

definition sec_attempt :: "(nat \<Rightarrow> security) \<Rightarrow> sec_snapshot option" where
  "sec_attempt at =
     (let before = sec_sequence (at 0) in
      if before AND 1 \<noteq> 0 then None
      else
        (let flags = sec_flags (at 4);
             r = \<lparr>ss_profile = sec_profile (at 1), ss_generation = sec_generation (at 2),
               ss_connection_handle = sec_handle (at 3),
               ss_connected = (flags AND fConnected \<noteq> 0),
               ss_encrypted = (flags AND fEncrypted \<noteq> 0),
               ss_authenticated = (flags AND fAuthenticated \<noteq> 0),
               ss_nimble_bonded = (flags AND fNimbleBonded \<noteq> 0),
               ss_project_verified_bond_persisted = (flags AND fPersisted \<noteq> 0),
               ss_secure_connections = (flags AND fSecureConnections \<noteq> 0),
               ss_identity_resolved = (flags AND fIdentityResolved \<noteq> 0),
               ss_store_healthy = (flags AND fStoreHealthy \<noteq> 0),
               ss_lifecycle_healthy = (flags AND fLifecycleHealthy \<noteq> 0),
               ss_coherent = True, ss_key_size = sec_key_size (at 5),
               ss_last_store_failure = sec_last_failure (at 6),
               ss_last_store_status = sec_last_status (at 7)\<rparr>
         in if before = sec_sequence (at 8) then Some r else None))"

fun sec_attempts :: "nat \<Rightarrow> (nat \<Rightarrow> nat \<Rightarrow> security) \<Rightarrow> sec_snapshot" where
  "sec_attempts 0 at = incoherent_sec_snapshot"
| "sec_attempts (Suc n) at =
     (case sec_attempt (at 0) of Some r \<Rightarrow> r | None \<Rightarrow> sec_attempts n (\<lambda>a. at (Suc a)))"

definition sec_snapshot :: "security \<Rightarrow> sec_snapshot" where
  "sec_snapshot s = sec_attempts 3 (\<lambda>a i. s)"

definition sec_identity_matches :: "u32 \<Rightarrow> u16 \<Rightarrow> security \<Rightarrow> bool" where
  "sec_identity_matches g h s =
     (let v = sec_snapshot s in
      \<not> (\<not> ss_coherent v \<or> ss_generation v \<noteq> g \<or> ss_connection_handle v \<noteq> h))"

section \<open>Operations of the executor\<close>

definition sec_begin_connection :: "u32 \<Rightarrow> u16 \<Rightarrow> bool \<Rightarrow> profile_id \<Rightarrow> security \<Rightarrow> security" where
  "sec_begin_connection g h lifecycle_healthy pid s = sec_write (\<lambda>s.
     s\<lparr>sec_profile := pid, sec_generation := g, sec_handle := h,
       sec_flags := fConnected OR (if persistent_store_healthy s then fStoreHealthy else 0)
         OR (if lifecycle_healthy then fLifecycleHealthy else 0),
       sec_key_size := 0, sec_last_failure := SfNone, sec_last_status := 0\<rparr>) s"

definition sec_retire_connection :: "u32 \<Rightarrow> u16 \<Rightarrow> security \<Rightarrow> security" where
  "sec_retire_connection g h s =
     (if \<not> sec_identity_matches g h s then s
      else sec_write (\<lambda>s. s\<lparr>sec_handle := kNoConnection,
        sec_flags := (if persistent_store_healthy s then fStoreHealthy else 0),
        sec_key_size := 0\<rparr>) s)"

definition apply_store_failure :: "u32 \<Rightarrow> u16 \<Rightarrow> store_failure_kind \<Rightarrow> i32 \<Rightarrow> security \<Rightarrow> security" where
  "apply_store_failure g h k st s =
     (if \<not> sec_identity_matches g h s then s
      else sec_write (\<lambda>s. s\<lparr>sec_flags := sec_flags s AND NOT (fPersisted OR fStoreHealthy),
        sec_last_failure := k, sec_last_status := st\<rparr>) s)"

definition apply_persistent_store_failure :: "store_failure_kind \<Rightarrow> i32 \<Rightarrow> security \<Rightarrow> security" where
  "apply_persistent_store_failure k st s = sec_write (\<lambda>s.
     s\<lparr>persistent_store_healthy := False,
       sec_flags := sec_flags s AND NOT (fPersisted OR fStoreHealthy OR fLifecycleHealthy),
       sec_last_failure := k, sec_last_status := st\<rparr>) s"

definition verified_flags :: "sec_snapshot \<Rightarrow> bool \<Rightarrow> link_evidence \<Rightarrow> persisted_evidence \<Rightarrow> u32" where
  "verified_flags v store_ok link per =
     fConnected
     OR (if lk_encrypted link then fEncrypted else 0)
     OR (if lk_authenticated link then fAuthenticated else 0)
     OR (if lk_nimble_bonded link then fNimbleBonded else 0)
     OR (if lk_secure_connections link then fSecureConnections else 0)
     OR (if lk_identity_resolved link then fIdentityResolved else 0)
     OR (if ss_store_healthy v \<and> store_ok then
           fStoreHealthy OR (if persisted_bond_is_valid per (ss_profile v) then fPersisted else 0)
         else 0)
     OR (if ss_lifecycle_healthy v then fLifecycleHealthy else 0)"

definition apply_verification ::
  "u32 \<Rightarrow> u16 \<Rightarrow> link_evidence \<Rightarrow> persisted_evidence \<Rightarrow> security \<Rightarrow> security" where
  "apply_verification g h link per s =
     (let v = sec_snapshot s in
      if \<not> ss_coherent v \<or> \<not> ss_connected v \<or> ss_generation v \<noteq> g \<or> ss_connection_handle v \<noteq> h
      then s
      else sec_write (\<lambda>s. s\<lparr>sec_flags := verified_flags v (persistent_store_healthy s) link per,
        sec_key_size := lk_key_size link\<rparr>) s)"

definition mark_lifecycle_unhealthy :: "u32 \<Rightarrow> security \<Rightarrow> security" where
  "mark_lifecycle_unhealthy g s =
     (let v = sec_snapshot s in
      if \<not> ss_coherent v \<or> ss_generation v \<noteq> g then s
      else sec_write (\<lambda>s. s\<lparr>sec_flags := sec_flags s AND NOT (fLifecycleHealthy OR fPersisted)\<rparr>) s)"

definition security_ready_for_hid :: "u32 \<Rightarrow> u16 \<Rightarrow> security \<Rightarrow> bool" where
  "security_ready_for_hid g h s =
     (let v = sec_snapshot s in
      case find_definition (ss_profile v) of
        None \<Rightarrow> False
      | Some d \<Rightarrow>
          (let policy = prof_security d in
           ss_coherent v \<and> ss_generation v = g \<and> ss_connection_handle v = h \<and> ss_connected v
           \<and> ss_encrypted v = pol_encrypted policy \<and> ss_authenticated v = pol_authenticated policy
           \<and> ss_nimble_bonded v = pol_bonded policy
           \<and> ss_project_verified_bond_persisted v = pol_persisted_bond policy
           \<and> ss_identity_resolved v = pol_identity_resolved policy
           \<and> (\<not> pol_secure_connections_required policy \<or> ss_secure_connections v)
           \<and> ss_key_size v = pol_key_size policy \<and> ss_store_healthy v \<and> ss_lifecycle_healthy v))"

datatype sec_event =
    SConnect u32 u16 bool profile_id | SRetire u32 u16
  | SStoreFailure u32 u16 store_failure_kind i32
  | SPersistentFailure store_failure_kind i32
  | SVerify u32 u16 link_evidence persisted_evidence
  | SUnhealthy u32

fun sec_step :: "security \<Rightarrow> sec_event \<Rightarrow> security" where
  "sec_step s (SConnect g h l p) = sec_begin_connection g h l p s"
| "sec_step s (SRetire g h) = sec_retire_connection g h s"
| "sec_step s (SStoreFailure g h k st) = apply_store_failure g h k st s"
| "sec_step s (SPersistentFailure k st) = apply_persistent_store_failure k st s"
| "sec_step s (SVerify g h link per) = apply_verification g h link per s"
| "sec_step s (SUnhealthy g) = mark_lifecycle_unhealthy g s"

section \<open>Readiness inhibition\<close>

record inhibit =
  inh_generation :: u32
  inh_handle :: u16
  authority_token :: u32
  inhibited_token :: u32
  persistent_store_unhealthy :: bool
  next_authority_token :: u32

definition inhibit_init :: inhibit where
  "inhibit_init = \<lparr>inh_generation = 0, inh_handle = kNoConnection, authority_token = 0,
     inhibited_token = 0, persistent_store_unhealthy = False, next_authority_token = 1\<rparr>"

definition take_token :: "inhibit \<Rightarrow> u32 \<times> inhibit" where
  "take_token s =
     (let token = next_authority_token s; s1 = s\<lparr>next_authority_token := token + 1\<rparr> in
      if token = 0
      then (next_authority_token s1, s1\<lparr>next_authority_token := next_authority_token s1 + 1\<rparr>)
      else (token, s1))"

definition inh_begin_connection :: "u32 \<Rightarrow> u16 \<Rightarrow> inhibit \<Rightarrow> inhibit" where
  "inh_begin_connection g h s =
     (let s1 = s\<lparr>authority_token := 0, inh_generation := g, inh_handle := h\<rparr>;
          (token, s2) = take_token s1
      in s2\<lparr>authority_token := token\<rparr>)"

definition inh_retire_connection :: "u32 \<Rightarrow> u16 \<Rightarrow> inhibit \<Rightarrow> inhibit" where
  "inh_retire_connection g h s =
     (if authority_token s \<noteq> 0 \<and> inh_generation s = g \<and> inh_handle s = h
      then s\<lparr>authority_token := 0\<rparr> else s)"

text \<open>
  \<open>inhibit\<close> of a callback in its two parts: the loads that find the token of the identity, and
  the store of that token, which may come after the executor has moved on.
\<close>

definition inhibit_persistent :: "bool \<Rightarrow> inhibit \<Rightarrow> inhibit" where
  "inhibit_persistent unhealthy s = (if unhealthy then s\<lparr>persistent_store_unhealthy := True\<rparr> else s)"

definition inhibit_find :: "u32 \<Rightarrow> u16 \<Rightarrow> inhibit \<Rightarrow> u32 option" where
  "inhibit_find g h s =
     (if authority_token s = 0 \<or> inh_generation s \<noteq> g \<or> inh_handle s \<noteq> h then None
      else Some (authority_token s))"

definition inhibit_store :: "u32 \<Rightarrow> inhibit \<Rightarrow> bool \<times> inhibit" where
  "inhibit_store token s = (authority_token s = token, s\<lparr>inhibited_token := token\<rparr>)"

definition inhibits :: "u32 \<Rightarrow> u16 \<Rightarrow> inhibit \<Rightarrow> bool" where
  "inhibits g h s \<longleftrightarrow>
     (if persistent_store_unhealthy s then True
      else authority_token s \<noteq> 0 \<and> inh_generation s = g \<and> inh_handle s = h
        \<and> inhibited_token s = authority_token s)"

section \<open>Reading the flags\<close>

lemma sec_masks [simp]:
  "bit fConnected n = (n = 0)" "bit fEncrypted n = (n = 1)" "bit fAuthenticated n = (n = 2)"
  "bit fNimbleBonded n = (n = 3)" "bit fPersisted n = (n = 4)" "bit fSecureConnections n = (n = 5)"
  "bit fIdentityResolved n = (n = 6)" "bit fStoreHealthy n = (n = 7)" "bit fLifecycleHealthy n = (n = 8)"
  by (simp_all only: sec_flag_defs bit_push_bit_iff bit_1_iff) auto

lemma sec_tests [simp]:
  "(w AND fConnected = 0) = (\<not> bit w 0)" "(w AND fEncrypted = 0) = (\<not> bit w 1)"
  "(w AND fAuthenticated = 0) = (\<not> bit w 2)" "(w AND fNimbleBonded = 0) = (\<not> bit w 3)"
  "(w AND fPersisted = 0) = (\<not> bit w 4)" "(w AND fSecureConnections = 0) = (\<not> bit w 5)"
  "(w AND fIdentityResolved = 0) = (\<not> bit w 6)" "(w AND fStoreHealthy = 0) = (\<not> bit w 7)"
  "(w AND fLifecycleHealthy = 0) = (\<not> bit w 8)"
  using flag_tests(1) [of w] by (auto simp: fConnected_def) (auto simp: word_eq_bits bit_and_iff)

lemma sec_counter: "(w AND 1 = 0) = even (w :: u32)"
  using flag_tests(1) [of w] by (simp add: bit_0)

lemma own_sec_snapshot:
  "even (sec_sequence s) \<Longrightarrow> sec_snapshot s =
     \<lparr>ss_profile = sec_profile s, ss_generation = sec_generation s, ss_connection_handle = sec_handle s,
      ss_connected = bit (sec_flags s) 0, ss_encrypted = bit (sec_flags s) 1,
      ss_authenticated = bit (sec_flags s) 2, ss_nimble_bonded = bit (sec_flags s) 3,
      ss_project_verified_bond_persisted = bit (sec_flags s) 4,
      ss_secure_connections = bit (sec_flags s) 5, ss_identity_resolved = bit (sec_flags s) 6,
      ss_store_healthy = bit (sec_flags s) 7, ss_lifecycle_healthy = bit (sec_flags s) 8,
      ss_coherent = True, ss_key_size = sec_key_size s, ss_last_store_failure = sec_last_failure s,
      ss_last_store_status = sec_last_status s\<rparr>"
  by (simp add: sec_snapshot_def numeral_3_eq_3 sec_attempt_def Let_def sec_counter)

lemma verified_bits:
  "bit (verified_flags v ok link per) 0"
  "bit (verified_flags v ok link per) 1 = lk_encrypted link"
  "bit (verified_flags v ok link per) 2 = lk_authenticated link"
  "bit (verified_flags v ok link per) 3 = lk_nimble_bonded link"
  "bit (verified_flags v ok link per) 4 = (ss_store_healthy v \<and> ok \<and> persisted_bond_is_valid per (ss_profile v))"
  "bit (verified_flags v ok link per) 5 = lk_secure_connections link"
  "bit (verified_flags v ok link per) 6 = lk_identity_resolved link"
  "bit (verified_flags v ok link per) 7 = (ss_store_healthy v \<and> ok)"
  "bit (verified_flags v ok link per) 8 = ss_lifecycle_healthy v"
  by (auto simp: verified_flags_def bit_or_iff)

section \<open>Provenance of readiness\<close>

text \<open>
  The persisted flag is set only by a verification, under the present identity, whose evidence
  the other flags still show.
\<close>

definition verified_by :: "link_evidence \<Rightarrow> persisted_evidence \<Rightarrow> security \<Rightarrow> bool" where
  "verified_by link per s \<longleftrightarrow>
     persisted_bond_is_valid per (sec_profile s)
     \<and> bit (sec_flags s) 1 = lk_encrypted link \<and> bit (sec_flags s) 2 = lk_authenticated link
     \<and> bit (sec_flags s) 3 = lk_nimble_bonded link \<and> bit (sec_flags s) 5 = lk_secure_connections link
     \<and> bit (sec_flags s) 6 = lk_identity_resolved link \<and> sec_key_size s = lk_key_size link"

definition sec_inv :: "security \<Rightarrow> bool" where
  "sec_inv s \<longleftrightarrow> even (sec_sequence s)
     \<and> (\<not> persistent_store_healthy s \<longrightarrow> \<not> bit (sec_flags s) 7 \<and> \<not> bit (sec_flags s) 4)"

definition sec_fwd :: "security \<Rightarrow> security \<Rightarrow> bool" where
  "sec_fwd s t \<longleftrightarrow> (\<not> persistent_store_healthy s \<longrightarrow> \<not> persistent_store_healthy t)"

lemma sec_write_fields [simp]:
  "sec_write (\<lambda>s. s\<lparr>sec_handle := a s, sec_flags := b s, sec_key_size := c s\<rparr>) s =
     s\<lparr>sec_sequence := sec_sequence s + 2, sec_handle := a (s\<lparr>sec_sequence := sec_sequence s + 1\<rparr>),
       sec_flags := b (s\<lparr>sec_sequence := sec_sequence s + 1\<rparr>),
       sec_key_size := c (s\<lparr>sec_sequence := sec_sequence s + 1\<rparr>)\<rparr>"
  by (simp add: sec_write_def)

lemmas sec_op_defs = sec_begin_connection_def sec_retire_connection_def apply_store_failure_def
  apply_persistent_store_failure_def apply_verification_def mark_lifecycle_unhealthy_def
  sec_identity_matches_def

lemma sec_step_inv: "sec_inv s \<Longrightarrow> sec_inv (sec_step s ev) \<and> sec_fwd s (sec_step s ev)"
  by (cases ev)
    (auto simp: sec_op_defs sec_inv_def sec_fwd_def sec_write_def own_sec_snapshot Let_def
      bit_or_iff bit_and_iff bit_not_iff verified_bits)

interpretation sec_machine: forward_machine sec_step security_init sec_inv sec_fwd
  by unfold_locales (use sec_step_inv in \<open>auto simp: sec_inv_def security_init_def sec_fwd_def\<close>)

lemma persisted_provenance:
  "bit (sec_flags (foldl sec_step security_init evs)) 4 \<Longrightarrow>
     \<exists>link per. SVerify (sec_generation (foldl sec_step security_init evs))
         (sec_handle (foldl sec_step security_init evs)) link per \<in> set evs
       \<and> verified_by link per (foldl sec_step security_init evs)"
proof (induction evs rule: rev_induct)
  case Nil
  then show ?case by (simp add: security_init_def)
next
  case (snoc ev evs)
  let ?s = "foldl sec_step security_init evs"
  have inv: "sec_inv ?s" by (rule sec_machine.inv_reach)
  have keep: ?case if "bit (sec_flags ?s) 4" "sec_generation (sec_step ?s ev) = sec_generation ?s"
    "sec_handle (sec_step ?s ev) = sec_handle ?s"
    "\<forall>l p. verified_by l p ?s \<longrightarrow> verified_by l p (sec_step ?s ev)"
    using snoc.IH [OF that(1)] that by auto
  show ?case
  proof (cases ev)
    case (SVerify g h link per)
    show ?thesis
    proof (cases "sec_step ?s ev = ?s")
      case True
      with snoc keep show ?thesis by auto
    next
      case False
      with SVerify inv snoc.prems show ?thesis
        by (intro exI [of _ link] exI [of _ per]) (auto simp: sec_op_defs sec_inv_def sec_write_def own_sec_snapshot Let_def verified_by_def
              verified_bits verified_bits(2) [unfolded One_nat_def] split: if_splits)
    qed
  next
    case (SConnect g h l p)
    with snoc.prems show ?thesis
      by (auto simp: sec_op_defs sec_write_def bit_or_iff split: if_splits)
  next
    case (SRetire g h)
    with snoc.prems inv keep show ?thesis
      by (auto simp: sec_op_defs sec_write_def Let_def own_sec_snapshot sec_inv_def split: if_splits)
  next
    case (SStoreFailure g h k st)
    with snoc.prems inv keep show ?thesis
      by (auto simp: sec_op_defs sec_write_def Let_def own_sec_snapshot sec_inv_def bit_and_iff bit_not_iff bit_or_iff split: if_splits)
  next
    case (SPersistentFailure k st)
    with snoc.prems show ?thesis
      by (auto simp: sec_op_defs sec_write_def Let_def bit_and_iff bit_not_iff bit_or_iff)
  next
    case (SUnhealthy g)
    with snoc.prems inv keep show ?thesis
      by (auto simp: sec_op_defs sec_write_def Let_def own_sec_snapshot sec_inv_def bit_and_iff bit_not_iff bit_or_iff split: if_splits)
  qed
qed

text \<open>All profiles demand a persisted bond.\<close>

lemma policy_persisted: "find_definition i = Some d \<Longrightarrow> pol_persisted_bond (prof_security d) \<and> pol_encrypted (prof_security d)"
proof -
  have c: "list_all (\<lambda>p. pol_persisted_bond (prof_security p) \<and> pol_encrypted (prof_security p)) kCatalog"
    by code_simp
  assume "find_definition i = Some d"
  then have "d \<in> set kCatalog" by (cases i) (auto simp: kCatalog_def)
  with c show ?thesis by (simp add: list_all_iff)
qed

definition link_meets :: "link_evidence \<Rightarrow> security_outcome_policy \<Rightarrow> bool" where
  "link_meets link p \<longleftrightarrow> lk_encrypted link = pol_encrypted p \<and> lk_authenticated link = pol_authenticated p
     \<and> lk_nimble_bonded link = pol_bonded p \<and> lk_identity_resolved link = pol_identity_resolved p
     \<and> (\<not> pol_secure_connections_required p \<or> lk_secure_connections link)
     \<and> lk_key_size link = pol_key_size p"

lemma ready_provenance:
  assumes "security_ready_for_hid g h (foldl sec_step security_init evs)"
  shows "\<exists>link per d. SVerify g h link per \<in> set evs
    \<and> find_definition (sec_profile (foldl sec_step security_init evs)) = Some d
    \<and> link_meets link (prof_security d)
    \<and> persisted_bond_is_valid per (sec_profile (foldl sec_step security_init evs))
    \<and> persistent_store_healthy (foldl sec_step security_init evs)"
proof -
  let ?s = "foldl sec_step security_init evs"
  have inv: "sec_inv ?s" by (rule sec_machine.inv_reach)
  then have e: "even (sec_sequence ?s)" by (simp add: sec_inv_def)
  obtain d where d: "find_definition (sec_profile ?s) = Some d"
    using assms own_sec_snapshot [OF e] by (auto simp: security_ready_for_hid_def Let_def split: option.splits)
  note r = assms [unfolded security_ready_for_hid_def own_sec_snapshot [OF e], simplified, unfolded d, simplified Let_def, simplified]
  have "bit (sec_flags ?s) 4" using r policy_persisted [OF d] by simp
  from persisted_provenance [OF this] obtain link per where
    v: "SVerify (sec_generation ?s) (sec_handle ?s) link per \<in> set evs" "verified_by link per ?s" by blast
  have "link_meets link (prof_security d)" using v(2) r by (auto simp: verified_by_def link_meets_def)
  moreover have "persistent_store_healthy ?s" using inv r by (auto simp: sec_inv_def)
  ultimately show ?thesis using v r d by (auto simp: verified_by_def)
qed

section \<open>Late callbacks\<close>

text \<open>
  The executor and the callbacks interleaved: \<open>F\<close> holds what callbacks have found and may store
  at any later time, \<open>n\<close> counts the connections begun.
\<close>

inductive inh_reach :: "nat \<Rightarrow> inhibit \<Rightarrow> (u32 \<times> u32 \<times> u16) set \<Rightarrow> bool" where
  start: "inh_reach 0 inhibit_init {}"
| begin_connection: "inh_reach n s F \<Longrightarrow> inh_reach (Suc n) (inh_begin_connection g h s) F"
| retire: "inh_reach n s F \<Longrightarrow> inh_reach n (inh_retire_connection g h s) F"
| persistent: "inh_reach n s F \<Longrightarrow> inh_reach n (inhibit_persistent b s) F"
| find: "inh_reach n s F \<Longrightarrow> inhibit_find g h s = Some tk \<Longrightarrow> inh_reach n s (insert (tk, g, h) F)"
| store: "inh_reach n s F \<Longrightarrow> (tk, g, h) \<in> F \<Longrightarrow> inh_reach n (snd (inhibit_store tk s)) F"

definition inh_inv :: "nat \<Rightarrow> inhibit \<Rightarrow> (u32 \<times> u32 \<times> u16) set \<Rightarrow> bool" where
  "inh_inv n s F \<longleftrightarrow> unat (next_authority_token s) = Suc n \<and> unat (authority_token s) \<le> n
     \<and> (\<forall>(tk, g, h) \<in> F. tk \<noteq> 0 \<and> unat tk \<le> n
          \<and> (tk = authority_token s \<longrightarrow> inh_generation s = g \<and> inh_handle s = h))
     \<and> (inhibited_token s = 0 \<or> (\<exists>g h. (inhibited_token s, g, h) \<in> F))"

lemma inh_reach_inv: "inh_reach n s F \<Longrightarrow> n < 2 ^ 32 - 1 \<Longrightarrow> inh_inv n s F"
proof (induction rule: inh_reach.induct)
  case start
  then show ?case by (simp add: inh_inv_def inhibit_init_def)
next
  case (begin_connection n s F g h)
  then have inv: "inh_inv n s F" by simp
  let ?t = "next_authority_token s"
  have t: "unat ?t = Suc n" using inv by (simp add: inh_inv_def)
  then have nz: "?t \<noteq> 0" by auto
  have "?t + 1 \<noteq> 0"
  proof
    assume "?t + 1 = 0"
    then have "?t = - 1" by (simp add: eq_neg_iff_add_eq_0)
    then have "unat ?t = 2 ^ 32 - 1" by (simp add: unsigned_minus_1_eq_mask mask_eq_exp_minus_1)
    with t begin_connection.prems show False by simp
  qed
  then have "unat (?t + 1) = Suc (Suc n)" using unatSuc [of ?t] t by (simp add: add.commute)
  with inv nz t show ?case
    by (fastforce simp: inh_inv_def inh_begin_connection_def take_token_def Let_def)
next
  case (find n s F g h tk)
  then show ?case by (auto simp: inh_inv_def inhibit_find_def split: if_splits)
next
  case (store n s F tk g h)
  then show ?case by (auto simp: inh_inv_def inhibit_store_def)
qed (auto simp: inh_inv_def inh_retire_connection_def inhibit_persistent_def)

section \<open>Properties\<close>

text \<open>
  C23: HID is ready on a connection only if a verification of exactly this connection supplied
  link evidence that meets the security policy of the selected profile and a persisted bond valid
  for it, and no persistent store failure has occurred since boot.
\<close>

theorem ready_only_if_verified:
  assumes "security_ready_for_hid g h (foldl sec_step security_init evs)"
  shows "\<exists>link per d. SVerify g h link per \<in> set evs
    \<and> find_definition (sec_profile (foldl sec_step security_init evs)) = Some d
    \<and> link_meets link (prof_security d)
    \<and> persisted_bond_is_valid per (sec_profile (foldl sec_step security_init evs))
    \<and> persistent_store_healthy (foldl sec_step security_init evs)"
  using assms by (rule ready_provenance)

definition sample_record :: stored_record where
  "sample_record = \<lparr>sr_found = True, sr_identity_matches = True, sr_ltk_present = True,
     sr_authenticated = True, sr_secure_connections = True, sr_key_size = 16\<rparr>"

definition sample_sec_events :: "sec_event list" where
  "sample_sec_events = [SConnect 3 7 True PidStrictComposite,
     SVerify 3 7 \<lparr>lk_encrypted = True, lk_authenticated = True, lk_nimble_bonded = True,
       lk_secure_connections = True, lk_identity_resolved = True, lk_key_size = 16\<rparr>
       \<lparr>our_record = sample_record, peer_record = sample_record\<rparr>]"

theorem ready_only_if_verified_witness:
  "\<exists>link per. SVerify 3 7 link per \<in> set sample_sec_events
     \<and> persisted_bond_is_valid per (sec_profile (foldl sec_step security_init sample_sec_events))"
proof -
  have "security_ready_for_hid 3 7 (foldl sec_step security_init sample_sec_events)" by code_simp
  from ready_only_if_verified [OF this] show ?thesis by blast
qed

text \<open>
  A persistent store failure is final: no connection begun, verified or retired afterwards
  makes HID ready again before the next boot.
\<close>

theorem store_failure_final:
  "\<not> security_ready_for_hid g h
     (foldl sec_step security_init (before @ SPersistentFailure k st # after))"
proof
  assume r: "security_ready_for_hid g h (foldl sec_step security_init (before @ SPersistentFailure k st # after))"
  let ?s = "foldl sec_step security_init (before @ [SPersistentFailure k st])"
  have "\<not> persistent_store_healthy ?s"
    by (simp add: apply_persistent_store_failure_def sec_write_def)
  moreover have "sec_fwd ?s (foldl sec_step ?s after)"
    by (rule sec_machine.fwd_run) (rule sec_machine.inv_reach)
  ultimately have "\<not> persistent_store_healthy (foldl sec_step security_init (before @ SPersistentFailure k st # after))"
    by (simp add: sec_fwd_def)
  with ready_provenance [OF r] show False by blast
qed

text \<open>
  Before the token counter wraps, a connection is inhibited only after the store failed for
  good or a callback raised the inhibition of exactly this connection: a store that a callback
  of an earlier connection delays has no effect on it.
\<close>

theorem inhibition_exact:
  assumes "inh_reach n s F" "n < 2 ^ 32 - 1" "inhibits g h s"
  shows "persistent_store_unhealthy s \<or> (authority_token s, g, h) \<in> F"
  using inh_reach_inv [OF assms(1,2)] assms(3)
  by (auto simp: inh_inv_def inhibits_def split: if_splits)

theorem inhibition_exact_witness:
  "\<exists>s F. inh_reach 2 s F \<and> (authority_token s, 1, 7) \<in> F \<and> inhibits 1 7 s"
proof -
  define s1 where "s1 = inh_begin_connection 1 7 (inh_begin_connection 1 7 inhibit_init)"
  have f: "inhibit_find 1 7 s1 = Some 2" unfolding s1_def by code_simp
  have "inh_reach 2 s1 {}"
    unfolding s1_def numeral_2_eq_2 by (intro inh_reach.intros)
  from inh_reach.store [OF inh_reach.find [OF this f], of 2 1 7]
  have r: "inh_reach 2 (snd (inhibit_store 2 s1)) {(2, 1, 7)}" by simp
  have i: "inhibits 1 7 (snd (inhibit_store 2 s1))" and p: "\<not> persistent_store_unhealthy (snd (inhibit_store 2 s1))"
    unfolding s1_def by code_simp+
  from inhibition_exact [OF r _ i] p have "(authority_token (snd (inhibit_store 2 s1)), 1, 7) \<in> {(2, 1, 7)}" by simp
  with r i show ?thesis by blast
qed
end
