(* ===== verification/LifecycleWatchdog.thy ===== *)
theory LifecycleWatchdog
  imports Prelude
begin

text \<open>
  \<open>ble_transport/lifecycle_watchdog.hpp\<close>: who owns the one physical lifecycle timer. Every
  operation is a single compare-exchange on the phase (\<open>begin_timeout\<close> retries one), so a run is any
  sequence of exchanges of any tasks.
\<close>

section \<open>Phases\<close>

datatype purpose = PurposeNone | PurposeSync | PurposeDisconnect

datatype phase = PhNone | SyncArmed | DisconnectArmed | SyncCancelling | DisconnectCancelling
  | SyncFiring | DisconnectFiring

definition armed_phase :: "purpose \<Rightarrow> phase" where
  "armed_phase p = (if p = PurposeSync then SyncArmed
     else if p = PurposeDisconnect then DisconnectArmed else PhNone)"

definition cancelling_phase :: "purpose \<Rightarrow> phase" where
  "cancelling_phase p = (if p = PurposeSync then SyncCancelling
     else if p = PurposeDisconnect then DisconnectCancelling else PhNone)"

definition firing_phase :: "purpose \<Rightarrow> phase" where
  "firing_phase p = (if p = PurposeSync then SyncFiring
     else if p = PurposeDisconnect then DisconnectFiring else PhNone)"

definition armed_purpose :: "phase \<Rightarrow> purpose" where
  "armed_purpose ph = (if ph = SyncArmed then PurposeSync
     else if ph = DisconnectArmed then PurposeDisconnect else PurposeNone)"

fun phase_purpose :: "phase \<Rightarrow> purpose" where
  "phase_purpose SyncArmed = PurposeSync"
| "phase_purpose SyncCancelling = PurposeSync"
| "phase_purpose SyncFiring = PurposeSync"
| "phase_purpose DisconnectArmed = PurposeDisconnect"
| "phase_purpose DisconnectCancelling = PurposeDisconnect"
| "phase_purpose DisconnectFiring = PurposeDisconnect"
| "phase_purpose PhNone = PurposeNone"

section \<open>Operations\<close>

definition exchange_phase :: "phase \<Rightarrow> phase \<Rightarrow> phase \<Rightarrow> bool \<times> phase" where
  "exchange_phase expected desired ph = (if ph = expected then (True, desired) else (False, ph))"

definition try_acquire :: "purpose \<Rightarrow> phase \<Rightarrow> bool \<times> phase" where
  "try_acquire p ph =
     (if p = PurposeNone then (False, ph) else exchange_phase PhNone (armed_phase p) ph)"

definition release_after_arm_failure :: "purpose \<Rightarrow> phase \<Rightarrow> bool \<times> phase" where
  "release_after_arm_failure p = exchange_phase (armed_phase p) PhNone"

definition watchdog_begin_cancel :: "purpose \<Rightarrow> phase \<Rightarrow> bool \<times> phase" where
  "watchdog_begin_cancel p = exchange_phase (armed_phase p) (cancelling_phase p)"

definition complete_cancel :: "purpose \<Rightarrow> phase \<Rightarrow> bool \<times> phase" where
  "complete_cancel p = exchange_phase (cancelling_phase p) PhNone"

text \<open>
  \<open>begin_timeout\<close> is a retry loop. One iteration, with the phase it has \<open>observed\<close>, the phase the
  exchange meets and whether the weak exchange fails spuriously: either the answer and the new
  phase, or the phase observed for the next iteration.
\<close>

definition timeout_attempt :: "phase \<Rightarrow> bool \<Rightarrow> phase \<Rightarrow> purpose option \<times> phase \<times> phase" where
  "timeout_attempt observed spurious ph =
     (let p = armed_purpose observed in
      if p = PurposeNone then (Some PurposeNone, ph, observed)
      else if ph = observed \<and> \<not> spurious then (Some p, firing_phase p, observed)
      else (None, ph, ph))"

text \<open>
  The loop itself, over the phases its successive exchanges meet (other tasks act in between):
  the answer and the phase it stored, or \<open>None\<close> while it still retries.
\<close>

fun begin_timeout :: "phase \<Rightarrow> (bool \<times> phase) list \<Rightarrow> (purpose \<times> phase) option" where
  "begin_timeout observed [] =
     (if armed_purpose observed = PurposeNone then Some (PurposeNone, observed) else None)"
| "begin_timeout observed ((spurious, ph) # met) =
     (case timeout_attempt observed spurious ph of
        (Some p, ph', _) \<Rightarrow> Some (p, ph')
      | (None, _, observed') \<Rightarrow> begin_timeout observed' met)"

definition complete_timeout :: "purpose \<Rightarrow> phase \<Rightarrow> bool \<times> phase" where
  "complete_timeout p = exchange_phase (firing_phase p) PhNone"

definition active_purpose :: "phase \<Rightarrow> purpose" where
  "active_purpose ph = phase_purpose ph"

section \<open>Runs\<close>

datatype watchdog_op = WAcquire purpose | WArmFailed purpose | WCancel purpose
  | WCancelDone purpose | WTimeout phase bool | WTimeoutDone purpose

text \<open>
  An operation, with the purpose it succeeded for. A timeout attempt may have observed any phase,
  however old: every iteration of every \<open>begin_timeout\<close> loop is one of these.
\<close>

fun watchdog_apply :: "watchdog_op \<Rightarrow> phase \<Rightarrow> purpose option \<times> phase" where
  "watchdog_apply (WAcquire p) ph = (let (ok, ph') = try_acquire p ph in (if ok then Some p else None, ph'))"
| "watchdog_apply (WArmFailed p) ph =
     (let (ok, ph') = release_after_arm_failure p ph in (if ok \<and> p \<noteq> PurposeNone then Some p else None, ph'))"
| "watchdog_apply (WCancel p) ph =
     (let (ok, ph') = watchdog_begin_cancel p ph in (if ok \<and> p \<noteq> PurposeNone then Some p else None, ph'))"
| "watchdog_apply (WCancelDone p) ph =
     (let (ok, ph') = complete_cancel p ph in (if ok \<and> p \<noteq> PurposeNone then Some p else None, ph'))"
| "watchdog_apply (WTimeout observed spurious) ph =
     (let (r, ph', _) = timeout_attempt observed spurious ph
      in (if r = Some PurposeNone then None else r, ph'))"
| "watchdog_apply (WTimeoutDone p) ph =
     (let (ok, ph') = complete_timeout p ph in (if ok \<and> p \<noteq> PurposeNone then Some p else None, ph'))"

datatype watchdog_mark = MAcquire | MArmFailed | MCancel | MCancelDone | MTimeout | MTimeoutDone

fun mark_of :: "watchdog_op \<Rightarrow> watchdog_mark" where
  "mark_of (WAcquire p) = MAcquire"
| "mark_of (WArmFailed p) = MArmFailed"
| "mark_of (WCancel p) = MCancel"
| "mark_of (WCancelDone p) = MCancelDone"
| "mark_of (WTimeout observed spurious) = MTimeout"
| "mark_of (WTimeoutDone p) = MTimeoutDone"

fun watchdog_run :: "phase \<Rightarrow> watchdog_op list \<Rightarrow> (watchdog_mark \<times> purpose) list \<times> phase" where
  "watchdog_run ph [] = ([], ph)"
| "watchdog_run ph (x # xs) =
     (let (r, ph1) = watchdog_apply x ph; (ms, ph2) = watchdog_run ph1 xs
      in ((case r of Some p \<Rightarrow> [(mark_of x, p)] | None \<Rightarrow> []) @ ms, ph2))"

section \<open>Exclusive ownership\<close>

text \<open>
  The language of the successes: acquisitions one after the other, each ended by a failed arm, a
  cancel and its completion, or a timeout and its completion, all for the purpose of the
  acquisition. The second argument is what is still open.
\<close>

fun owner_word :: "phase \<Rightarrow> (watchdog_mark \<times> purpose) list \<Rightarrow> phase \<Rightarrow> bool" where
  "owner_word ph [] ph' \<longleftrightarrow> ph' = ph"
| "owner_word ph ((m, p) # ms) ph' \<longleftrightarrow>
     p \<noteq> PurposeNone \<and>
     (case m of
        MAcquire \<Rightarrow> phase_purpose ph = PurposeNone \<and> owner_word (armed_phase p) ms ph'
      | MArmFailed \<Rightarrow> ph = armed_phase p \<and> owner_word PhNone ms ph'
      | MCancel \<Rightarrow> ph = armed_phase p \<and> owner_word (cancelling_phase p) ms ph'
      | MCancelDone \<Rightarrow> ph = cancelling_phase p \<and> owner_word PhNone ms ph'
      | MTimeout \<Rightarrow> ph = armed_phase p \<and> owner_word (firing_phase p) ms ph'
      | MTimeoutDone \<Rightarrow> ph = firing_phase p \<and> owner_word PhNone ms ph')"

lemmas watchdog_defs = exchange_phase_def try_acquire_def release_after_arm_failure_def
  watchdog_begin_cancel_def complete_cancel_def timeout_attempt_def complete_timeout_def
  armed_phase_def cancelling_phase_def firing_phase_def armed_purpose_def

lemma watchdog_op_word:
  "watchdog_apply x ph = (r, ph1) \<Longrightarrow>
     (case r of None \<Rightarrow> ph1 = ph
      | Some p \<Rightarrow> \<forall>ms ph2. owner_word ph1 ms ph2 \<longrightarrow> owner_word ph ((mark_of x, p) # ms) ph2)"
  by (cases x; cases ph)
    (auto simp: watchdog_defs Let_def split: if_splits)

lemma watchdog_run_word: "owner_word ph (fst (watchdog_run ph xs)) (snd (watchdog_run ph xs))"
proof (induction xs arbitrary: ph)
  case (Cons x xs)
  obtain r ph1 where x: "watchdog_apply x ph = (r, ph1)" by fastforce
  show ?case using watchdog_op_word [OF x] Cons.IH [of ph1]
    by (cases r) (auto simp: x Let_def case_prod_unfold)
qed simp

text \<open>Counting the beginnings and the ends of ownership.\<close>

definition count_marks :: "watchdog_mark set \<Rightarrow> (watchdog_mark \<times> purpose) list \<Rightarrow> nat" where
  "count_marks M ms = length (filter (\<lambda>(m, p). m \<in> M) ms)"

lemma count_marks_Cons [simp]:
  "count_marks M [] = 0"
  "count_marks M ((m, p) # ms) = (if m \<in> M then 1 else 0) + count_marks M ms"
  by (auto simp: count_marks_def)

lemma phase_purpose_armed:
  "p \<noteq> PurposeNone \<Longrightarrow> phase_purpose (armed_phase p) = p \<and> phase_purpose (cancelling_phase p) = p
     \<and> phase_purpose (firing_phase p) = p"
  by (cases p) (auto simp: watchdog_defs)

definition owned :: "phase \<Rightarrow> nat" where
  "owned ph = (if phase_purpose ph = PurposeNone then 0 else 1)"

definition undecided :: "phase \<Rightarrow> nat" where
  "undecided ph = (if ph = SyncArmed \<or> ph = DisconnectArmed then 1 else 0)"

lemma owned_phases:
  "p \<noteq> PurposeNone \<Longrightarrow> owned (armed_phase p) = 1 \<and> owned (cancelling_phase p) = 1 \<and> owned (firing_phase p) = 1
     \<and> undecided (armed_phase p) = 1 \<and> undecided (cancelling_phase p) = 0 \<and> undecided (firing_phase p) = 0"
  by (cases p) (auto simp: owned_def undecided_def watchdog_defs)

lemma owner_word_counts:
  "owner_word ph ms ph' \<Longrightarrow>
     owned ph + count_marks {MAcquire} ms = owned ph' + count_marks {MArmFailed, MCancelDone, MTimeoutDone} ms
     \<and> undecided ph + count_marks {MAcquire} ms = undecided ph' + count_marks {MArmFailed, MCancel, MTimeout} ms"
proof (induction ms arbitrary: ph)
  case (Cons a ms)
  obtain m p where a: "a = (m, p)" by fastforce
  have p: "p \<noteq> PurposeNone" using Cons.prems by (simp add: a)
  have n: "owned PhNone = 0" "undecided PhNone = 0" by (simp_all add: owned_def undecided_def)
  have z: "phase_purpose ph = PurposeNone \<Longrightarrow> owned ph = 0 \<and> undecided ph = 0"
    by (cases ph) (auto simp: owned_def undecided_def)
  show ?case
    using Cons.prems Cons.IH owned_phases [OF p] n z
    by (cases m) (fastforce simp: a)+
qed simp

text \<open>A finished loop answers what its last iteration did.\<close>

lemma begin_timeout_attempt:
  "begin_timeout observed met = Some (p, ph') \<Longrightarrow> p \<noteq> PurposeNone \<Longrightarrow>
     \<exists>obs sp ph. (sp, ph) \<in> set met \<and> timeout_attempt obs sp ph = (Some p, ph', obs)
       \<and> ph = armed_phase p \<and> ph' = firing_phase p"
proof (induction observed met rule: begin_timeout.induct)
  case (2 observed spurious ph met)
  obtain r ph1 obs1 where t: "timeout_attempt observed spurious ph = (r, ph1, obs1)"
    by (metis prod_cases3)
  show ?case
  proof (cases r)
    case None
    then have "begin_timeout obs1 met = Some (p, ph')" using "2.prems"(1) t by simp
    then show ?thesis using "2.IH" [of "r" "(ph1, obs1)" ph1 obs1] None t "2.prems"(2) by auto
  next
    case (Some q)
    then have "q = p" "ph1 = ph'" using "2.prems"(1) t by simp_all
    then show ?thesis using Some t "2.prems"(2)
      by (intro exI [of _ observed] exI [of _ spurious] exI [of _ ph])
        (auto simp: timeout_attempt_def armed_purpose_def armed_phase_def Let_def split: if_splits)
  qed
qed (auto split: if_splits)

section \<open>Properties\<close>

text \<open>
  C28: In every interleaving of arming, cancelling and timeout the successful operations form
  whole ownerships of one purpose each: while the timer is owned nobody else acquires it, and each
  ownership is decided by exactly one of a failed arm, a cancel or a timeout.
\<close>

theorem watchdog_exclusive:
  "owner_word PhNone (fst (watchdog_run PhNone xs)) (snd (watchdog_run PhNone xs))
   \<and> count_marks {MAcquire} (fst (watchdog_run PhNone xs))
     = owned (snd (watchdog_run PhNone xs))
       + count_marks {MArmFailed, MCancelDone, MTimeoutDone} (fst (watchdog_run PhNone xs))
   \<and> count_marks {MAcquire} (fst (watchdog_run PhNone xs))
     = undecided (snd (watchdog_run PhNone xs))
       + count_marks {MArmFailed, MCancel, MTimeout} (fst (watchdog_run PhNone xs))"
  using watchdog_run_word [of PhNone xs] owner_word_counts [OF watchdog_run_word [of PhNone xs]]
  by (simp add: owned_def undecided_def)

end
