(* ===== verification/SensitiveRequest.thy ===== *)
theory SensitiveRequest
  imports Prelude
begin

text \<open>
  \<open>secure_memory\<close> and \<open>sensitive_request\<close>: wiping of buffers, the comparison of digests, and the
  identity that turns secret-bearing requests into HMAC digests. The random generator and the HMAC
  are arguments: a function from the buffer they may write to their result and the buffer after.
\<close>

section \<open>Wiping and comparing\<close>

text \<open>\<open>zero\<close> of a whole buffer; the loop walks the bytes.\<close>

fun zero_bytes :: "u8 list \<Rightarrow> u8 list" where
  "zero_bytes [] = []"
| "zero_bytes (b # bs) = 0 # zero_bytes bs"

lemma zero_bytes_replicate [simp]: "zero_bytes bs = replicate (length bs) 0"
  by (induction bs) simp_all

text \<open>The loop of \<open>constant_time_equal\<close>, over the indices from \<open>i\<close> on.\<close>

function ct_difference :: "u8 list \<Rightarrow> u8 list \<Rightarrow> nat \<Rightarrow> u8 \<Rightarrow> u8" where
  "ct_difference l r i d =
     (if i < length l then ct_difference l r (i + 1) (d OR (l ! i XOR r ! i)) else d)"
  by pat_completeness auto
termination by (relation "measure (\<lambda>(l, r, i, d). length l - i)") auto

declare ct_difference.simps [simp del]

definition constant_time_equal :: "u8 list \<Rightarrow> u8 list \<Rightarrow> bool" where
  "constant_time_equal l r \<longleftrightarrow> ct_difference l r 0 0 = 0"

lemma word_or_zero: "a OR b = 0 \<longleftrightarrow> a = 0 \<and> b = (0 :: 'a::len word)"
  by (auto simp: bit_eq_iff bit_or_iff)

lemma word_xor_zero: "a XOR b = 0 \<longleftrightarrow> a = (b :: 'a::len word)"
  by (auto simp: bit_eq_iff bit_xor_iff)

lemma ct_difference_zero:
  "ct_difference l r i d = 0 \<longleftrightarrow> d = 0 \<and> (\<forall>k. i \<le> k \<and> k < length l \<longrightarrow> l ! k = r ! k)"
proof (induction l r i d rule: ct_difference.induct)
  case (1 l r i d)
  show ?case
  proof (cases "i < length l")
    case True
    have "(\<forall>k. i \<le> k \<and> k < length l \<longrightarrow> l ! k = r ! k) \<longleftrightarrow>
        l ! i = r ! i \<and> (\<forall>k. i + 1 \<le> k \<and> k < length l \<longrightarrow> l ! k = r ! k)"
      using True by (metis Suc_eq_plus1 Suc_leI le_neq_implies_less le_refl less_imp_le_nat Suc_leD)
    then show ?thesis using 1 [OF True] True
      by (subst ct_difference.simps) (auto simp: word_or_zero word_xor_zero)
  next
    case False
    then show ?thesis by (subst ct_difference.simps) auto
  qed
qed

lemma constant_time_equal_iff:
  "length l = length r \<Longrightarrow> constant_time_equal l r \<longleftrightarrow> l = r"
  by (simp add: constant_time_equal_def ct_difference_zero list_eq_iff_nth_eq)

section \<open>The identity\<close>

definition kKeyBytes :: nat where "kKeyBytes = 32"

definition kDigestBytes :: nat where "kDigestBytes = 32"

definition kMaxPayloadBytes :: nat where "kMaxPayloadBytes = 504"

definition kDomain :: "u8 list" where
  "kDomain = map of_char ''s3-hidbot/ble.pairing.respond/v1''"

definition kLengthBytes :: nat where "kLengthBytes = 4"

type_synonym random_fill = "u8 list \<Rightarrow> bool \<times> u8 list"

text \<open>Key, input and output buffer.\<close>

type_synonym hmac_sha256 = "u8 list \<Rightarrow> u8 list \<Rightarrow> u8 list \<Rightarrow> bool \<times> u8 list"

record identity =
  id_key :: "u8 list"
  id_hmac :: "hmac_sha256 option"
  id_ready :: bool

definition identity_init :: identity where
  "identity_init = \<lparr>id_key = replicate kKeyBytes 0, id_hmac = None, id_ready = False\<rparr>"

definition identity_clear :: "identity \<Rightarrow> identity" where
  "identity_clear s = s\<lparr>id_key := zero_bytes (id_key s), id_hmac := None, id_ready := False\<rparr>"

definition identity_initialize ::
  "random_fill option \<Rightarrow> hmac_sha256 option \<Rightarrow> identity \<Rightarrow> bool \<times> identity" where
  "identity_initialize random_fill hmac s =
     (let s1 = identity_clear s in
      case (random_fill, hmac) of
        (Some fill, Some h) \<Rightarrow>
          (let (ok, key) = fill (id_key s1); s2 = s1\<lparr>id_key := key\<rparr> in
           if \<not> ok then (False, identity_clear s2)
           else (True, s2\<lparr>id_hmac := Some h, id_ready := True\<rparr>))
      | _ \<Rightarrow> (False, identity_clear s1))"

text \<open>\<open>memcpy\<close> of \<open>src\<close> to an offset of \<open>dst\<close>.\<close>

definition put_at :: "nat \<Rightarrow> 'a list \<Rightarrow> 'a list \<Rightarrow> 'a list" where
  "put_at off src dst = take off dst @ src @ drop (off + length src) dst"

definition length_bytes :: "u32 \<Rightarrow> u8 list" where
  "length_bytes n = [ucast (drop_bit 24 n), ucast (drop_bit 16 n), ucast (drop_bit 8 n), ucast n]"

definition digest_buffer :: "u8 list \<Rightarrow> u8 list" where
  "digest_buffer payload =
     put_at (length kDomain + kLengthBytes) payload
       (put_at (length kDomain) (length_bytes (of_nat (length payload)))
         (put_at 0 kDomain (replicate (length kDomain + kLengthBytes + kMaxPayloadBytes) 0)))"

text \<open>
  \<open>digest\<close>: the result, the output buffer and the wiped input buffer. A null output is \<open>None\<close>; a ready
  identity has an HMAC.
\<close>

definition identity_digest ::
  "identity \<Rightarrow> u8 list \<Rightarrow> u8 list option \<Rightarrow> bool \<times> u8 list option \<times> u8 list" where
  "identity_digest s payload out =
     (case (id_hmac s, out) of
        (Some h, Some buf) \<Rightarrow>
          (if \<not> id_ready s \<or> length payload > kMaxPayloadBytes then (False, out, [])
           else
             (let input = digest_buffer payload;
                  (ok, buf1) = h (id_key s) (take (length kDomain + kLengthBytes + length payload) input) buf;
                  wiped = zero_bytes input
              in (ok, Some (if ok then buf1 else zero_bytes buf1), wiped)))
      | _ \<Rightarrow> (False, out, []))"

section \<open>The digest input\<close>

text \<open>The format the header documents.\<close>

definition digest_message :: "u8 list \<Rightarrow> u8 list" where
  "digest_message payload = kDomain @ length_bytes (of_nat (length payload)) @ payload"

lemma length_kDomain [simp]: "length kDomain = 32"
  by (simp add: kDomain_def)

lemma length_length_bytes [simp]: "length (length_bytes n) = 4"
  by (simp add: length_bytes_def)

lemma digest_buffer_message [simp]:
  "length payload \<le> kMaxPayloadBytes \<Longrightarrow>
     take (32 + kLengthBytes + length payload) (digest_buffer payload) = digest_message payload"
  by (simp add: digest_buffer_def digest_message_def put_at_def kLengthBytes_def)

lemma length_digest_buffer:
  "length payload \<le> kMaxPayloadBytes \<Longrightarrow> length (digest_buffer payload) = 540"
  by (simp add: digest_buffer_def put_at_def kLengthBytes_def kMaxPayloadBytes_def)

lemma digest_message_inject: "digest_message p = digest_message q \<longleftrightarrow> p = q"
  by (auto simp: digest_message_def)

text \<open>A ready identity has been initialised and keeps its HMAC.\<close>

definition identity_wf :: "identity \<Rightarrow> bool" where
  "identity_wf s \<longleftrightarrow> (id_ready s \<longrightarrow> id_hmac s \<noteq> None) \<and> (\<not> id_ready s \<longrightarrow> list_all (\<lambda>b. b = 0) (id_key s))"

datatype identity_event = IdInitialize "random_fill option" "hmac_sha256 option" | IdClear

fun identity_step :: "identity \<Rightarrow> identity_event \<Rightarrow> identity" where
  "identity_step s (IdInitialize fill h) = snd (identity_initialize fill h s)"
| "identity_step s IdClear = identity_clear s"

interpretation identity_machine: machine identity_step identity_init identity_wf
proof
  show "identity_wf identity_init" by (simp add: identity_wf_def identity_init_def list_all_iff)
  fix s e assume "identity_wf s"
  then show "identity_wf (identity_step s e)"
    by (cases e)
      (auto simp: identity_wf_def identity_initialize_def identity_clear_def list_all_iff Let_def
        split: option.splits prod.splits)
qed

section \<open>Properties\<close>

text \<open>What a digest promises: result, output and what is left of the input buffer.\<close>

definition digest_spec ::
  "identity \<Rightarrow> u8 list \<Rightarrow> u8 list option \<Rightarrow> bool \<times> u8 list option \<times> u8 list" where
  "digest_spec s payload out =
     (case (id_hmac s, out) of
        (Some h, Some buf) \<Rightarrow>
          (if id_ready s \<and> length payload \<le> kMaxPayloadBytes
           then (case h (id_key s) (digest_message payload) buf of
                   (True, mac) \<Rightarrow> (True, Some mac, replicate 540 0)
                 | (False, partial) \<Rightarrow> (False, Some (replicate (length partial) 0), replicate 540 0))
           else (False, out, []))
      | _ \<Rightarrow> (False, out, []))"

lemma identity_digest_meets: "identity_digest s payload out = digest_spec s payload out"
  by (auto simp: identity_digest_def digest_spec_def Let_def length_digest_buffer
      split: option.splits prod.splits bool.splits)


end
