(* ===== verification/ControlSession.thy ===== *)
theory ControlSession
  imports SensitiveRequest
begin

text \<open>
  \<open>control_session\<close>: the session of the UART control protocol, its lease, and the fixed-capacity
  caches that make a handshake or a request that is sent again answer with the very bytes of its
  first answer. Buffers are byte lists of their fixed length that are overwritten from the front,
  as \<open>memcpy\<close> does; the union of the two retry caches is a datatype. The random generator and the
  clock are arguments: what they deliver in this call.
\<close>

section \<open>Data\<close>

definition kTokenHexLength :: nat where "kTokenHexLength = 32"

definition kTokenStorageBytes :: nat where "kTokenStorageBytes = kTokenHexLength + 1"

definition kMaxRequestBytes :: nat where "kMaxRequestBytes = 504"

definition kMaxResponseBytes :: nat where "kMaxResponseBytes = 1024"

definition kLeaseMicroseconds :: u64 where "kLeaseMicroseconds = 5000000"

record response_frame =
  resp_bytes :: "u8 list"
  resp_length :: nat

definition empty_response :: response_frame where
  "empty_response = \<lparr>resp_bytes = replicate kMaxResponseBytes 0, resp_length = 0\<rparr>"

datatype hello_result = NewClient | HelloExactRetry | NonceConflict

datatype request_result = AcceptNew | ExactRetry | IdConflict | IdStale | SessionMismatch

record hello_cache =
  hc_valid :: bool
  hc_nonce :: "u8 list"
  hc_request :: "u8 list"
  hc_length :: nat
  hc_epoch :: u32
  hc_response :: response_frame

definition empty_token :: "u8 list" where "empty_token = replicate kTokenStorageBytes 0"

definition empty_request :: "u8 list" where "empty_request = replicate (kMaxRequestBytes + 1) 0"

definition empty_hello_cache :: hello_cache where
  "empty_hello_cache = \<lparr>hc_valid = False, hc_nonce = empty_token, hc_request = empty_request,
     hc_length = 0, hc_epoch = 0, hc_response = empty_response\<rparr>"

record request_cache =
  rc_valid :: bool
  rc_sensitive :: bool
  rc_id :: i32
  rc_request :: "u8 list"
  rc_length :: nat
  rc_digest :: "u8 list"
  rc_epoch :: u32
  rc_response :: response_frame

definition empty_request_cache :: request_cache where
  "empty_request_cache = \<lparr>rc_valid = False, rc_sensitive = False, rc_id = 0, rc_request = empty_request,
     rc_length = 0, rc_digest = replicate kDigestBytes 0, rc_epoch = 0, rc_response = empty_response\<rparr>"

record transition_cache =
  tc_active :: bool
  tc_id :: i32
  tc_session :: "u8 list"
  tc_request :: "u8 list"
  tc_length :: nat
  tc_response :: response_frame

definition empty_transition_cache :: transition_cache where
  "empty_transition_cache = \<lparr>tc_active = False, tc_id = 0, tc_session = empty_token,
     tc_request = empty_request, tc_length = 0, tc_response = empty_response\<rparr>"

text \<open>\<open>RetryCacheStorage\<close> with its \<open>RetryCacheKind\<close>.\<close>

datatype retry_cache = NormalCache request_cache | TransitionCache transition_cache

record session =
  boot_id :: "u8 list"
  current_session :: "u8 list"
  active_session :: bool
  retry_cache :: retry_cache
  session_epoch :: u32
  owner_id :: u64
  next_owner_id :: u64
  has_clock :: bool
  lease_deadline_us :: u64
  hello_cache :: hello_cache

definition session_zero :: session where
  "session_zero = \<lparr>boot_id = empty_token, current_session = empty_token, active_session = False,
     retry_cache = NormalCache empty_request_cache, session_epoch = 0, owner_id = 0,
     next_owner_id = 0, has_clock = False, lease_deadline_us = 0, hello_cache = empty_hello_cache\<rparr>"

section \<open>Bytes\<close>

definition same_token :: "u8 list \<Rightarrow> u8 list \<Rightarrow> bool" where
  "same_token cached v \<longleftrightarrow> length v = kTokenHexLength \<and> take kTokenHexLength cached = v"

definition is_lower_hex_token :: "u8 list \<Rightarrow> bool" where
  "is_lower_hex_token v \<longleftrightarrow> length v = kTokenHexLength
     \<and> list_all (\<lambda>c. 48 \<le> c \<and> c \<le> 57 \<or> 97 \<le> c \<and> c \<le> 102) v"

definition copy_token :: "u8 list \<Rightarrow> u8 list \<Rightarrow> u8 list" where
  "copy_token dst token = put_at kTokenHexLength [0] (put_at 0 (take kTokenHexLength token) dst)"

definition copy_request :: "u8 list \<Rightarrow> u8 list \<Rightarrow> u8 list \<times> nat" where
  "copy_request dst request = (put_at (length request) [0] (put_at 0 request dst), length request)"

definition same_request :: "u8 list \<Rightarrow> nat \<Rightarrow> u8 list \<Rightarrow> bool" where
  "same_request cached n request \<longleftrightarrow> length request = n \<and> take n cached = request"

definition kHexDigits :: "u8 list" where
  "kHexDigits = map of_char ''0123456789abcdef''"

text \<open>The loop of \<open>generate_token\<close>: two digits per random byte.\<close>

fun hex_bytes :: "u8 list \<Rightarrow> u8 list" where
  "hex_bytes [] = []"
| "hex_bytes (b # bs) =
     kHexDigits ! unat (drop_bit 4 b) # kHexDigits ! unat (b AND 0x0f) # hex_bytes bs"

definition generate_token :: "u8 list option \<Rightarrow> u8 list \<Rightarrow> u8 list" where
  "generate_token random out =
     (let bytes = (case random of None \<Rightarrow> replicate (kTokenHexLength div 2) 0 | Some r \<Rightarrow> r)
      in put_at kTokenHexLength [0] (put_at 0 (hex_bytes bytes) out))"

section \<open>Operations\<close>

definition clear_normal_cache :: "session \<Rightarrow> session" where
  "clear_normal_cache s =
     (case retry_cache s of
        NormalCache _ \<Rightarrow> s\<lparr>retry_cache := NormalCache empty_request_cache\<rparr>
      | TransitionCache _ \<Rightarrow> s)"

definition activate_normal_cache :: "session \<Rightarrow> request_cache \<times> session" where
  "activate_normal_cache s =
     (case retry_cache s of
        TransitionCache _ \<Rightarrow> (empty_request_cache, s\<lparr>retry_cache := NormalCache empty_request_cache\<rparr>)
      | NormalCache c \<Rightarrow> (c, s))"

definition clear_hello_cache :: "session \<Rightarrow> session" where
  "clear_hello_cache s = s\<lparr>hello_cache := empty_hello_cache\<rparr>"

definition clear_transition_retry :: "session \<Rightarrow> session" where
  "clear_transition_retry s =
     (case retry_cache s of
        TransitionCache _ \<Rightarrow> s\<lparr>retry_cache := NormalCache empty_request_cache\<rparr>
      | NormalCache _ \<Rightarrow> s)"

definition clear_first :: "u8 list \<Rightarrow> u8 list" where
  "clear_first token = token[0 := 0]"

definition session_initialize :: "u8 list option \<Rightarrow> bool \<Rightarrow> session \<Rightarrow> session" where
  "session_initialize random clock s =
     (let s1 = s\<lparr>has_clock := clock, active_session := False,
            current_session := clear_first (current_session s), session_epoch := 0, owner_id := 0,
            next_owner_id := 1, lease_deadline_us := 0\<rparr>;
          s2 = clear_hello_cache (clear_normal_cache (clear_transition_retry s1))
      in s2\<lparr>boot_id := generate_token random (boot_id s2)\<rparr>)"

definition authority_epoch_matches :: "u32 \<Rightarrow> session \<Rightarrow> bool" where
  "authority_epoch_matches e s \<longleftrightarrow> active_session s \<and> session_epoch s = e"

definition session_now :: "u64 \<Rightarrow> session \<Rightarrow> u64" where
  "session_now t s = (if has_clock s then t else 0)"

definition refresh_lease :: "u64 \<Rightarrow> session \<Rightarrow> bool \<times> session" where
  "refresh_lease t s =
     (if \<not> active_session s then (False, s)
      else (True, s\<lparr>lease_deadline_us := session_now t s + kLeaseMicroseconds\<rparr>))"

definition clear_authority :: "session \<Rightarrow> session" where
  "clear_authority s =
     clear_hello_cache (clear_normal_cache
       (s\<lparr>active_session := False, current_session := clear_first (current_session s),
          session_epoch := 0, owner_id := 0, lease_deadline_us := 0\<rparr>))"

definition service_lease :: "u64 \<Rightarrow> session \<Rightarrow> bool \<times> session" where
  "service_lease t s =
     (if \<not> active_session s \<or> session_now t s < lease_deadline_us s then (False, s)
      else (True, clear_authority s))"

definition revoke_for_takeover :: "session \<Rightarrow> session" where
  "revoke_for_takeover s = clear_authority s"

definition inspect_hello ::
  "u8 list \<Rightarrow> u8 list \<Rightarrow> u32 \<Rightarrow> session \<Rightarrow> hello_result \<times> response_frame option" where
  "inspect_hello nonce request epoch s =
     (let h = hello_cache s in
      if \<not> hc_valid h \<or> hc_epoch h \<noteq> epoch \<or> \<not> same_token (hc_nonce h) nonce then (NewClient, None)
      else if \<not> same_request (hc_request h) (hc_length h) request then (NonceConflict, None)
      else (HelloExactRetry, Some (hc_response h)))"

definition activate_hello ::
  "u8 list \<Rightarrow> u8 list \<Rightarrow> u8 list \<Rightarrow> u32 \<Rightarrow> response_frame \<Rightarrow> u64 \<Rightarrow> session \<Rightarrow> bool \<times> session" where
  "activate_hello nonce request new_session epoch response t s =
     (let owner = next_owner_id s in
      if owner = 0 then (False, s)
      else
        (let s1 = s\<lparr>next_owner_id := if owner = - 1 then 0 else owner + 1,
               current_session := copy_token (current_session s) new_session,
               active_session := True, session_epoch := epoch, owner_id := owner,
               lease_deadline_us := session_now t s + kLeaseMicroseconds\<rparr>;
             s2 = clear_normal_cache s1;
             h = empty_hello_cache\<lparr>hc_valid := True, hc_nonce := copy_token empty_token nonce\<rparr>;
             (bytes, n) = copy_request (hc_request h) request
         in (True, s2\<lparr>hello_cache :=
               h\<lparr>hc_request := bytes, hc_length := n, hc_epoch := epoch, hc_response := response\<rparr>\<rparr>)))"

definition inspect_request ::
  "u8 list \<Rightarrow> i32 \<Rightarrow> u8 list \<Rightarrow> u32 \<Rightarrow> session \<Rightarrow> request_result \<times> response_frame option" where
  "inspect_request token i request epoch s =
     (if \<not> active_session s \<or> session_epoch s \<noteq> epoch \<or> \<not> same_token (current_session s) token
      then (SessionMismatch, None)
      else case retry_cache s of
        TransitionCache _ \<Rightarrow> (AcceptNew, None)
      | NormalCache c \<Rightarrow>
          (if \<not> rc_valid c \<or> rc_epoch c \<noteq> epoch \<or> i > rc_id c then (AcceptNew, None)
           else if i < rc_id c then (IdStale, None)
           else if rc_sensitive c \<or> \<not> same_request (rc_request c) (rc_length c) request
           then (IdConflict, None)
           else (ExactRetry, Some (rc_response c))))"

definition inspect_sensitive_request ::
  "u8 list \<Rightarrow> i32 \<Rightarrow> nat \<Rightarrow> u8 list \<Rightarrow> u32 \<Rightarrow> session \<Rightarrow> request_result \<times> response_frame option" where
  "inspect_sensitive_request token i n digest epoch s =
     (if \<not> active_session s \<or> session_epoch s \<noteq> epoch \<or> \<not> same_token (current_session s) token
      then (SessionMismatch, None)
      else case retry_cache s of
        TransitionCache _ \<Rightarrow> (AcceptNew, None)
      | NormalCache c \<Rightarrow>
          (if \<not> rc_valid c \<or> rc_epoch c \<noteq> epoch \<or> i > rc_id c then (AcceptNew, None)
           else if i < rc_id c then (IdStale, None)
           else if \<not> rc_sensitive c \<or> rc_length c \<noteq> n \<or> \<not> constant_time_equal (rc_digest c) digest
           then (IdConflict, None)
           else (ExactRetry, Some (rc_response c))))"

definition cache_completed_request :: "i32 \<Rightarrow> u8 list \<Rightarrow> u32 \<Rightarrow> response_frame \<Rightarrow> session \<Rightarrow> session" where
  "cache_completed_request i request epoch response s =
     (let (_, s1) = activate_normal_cache s;
          c = empty_request_cache\<lparr>rc_valid := True, rc_sensitive := False, rc_id := i, rc_epoch := epoch\<rparr>;
          (bytes, n) = copy_request (rc_request c) request
      in s1\<lparr>retry_cache := NormalCache (c\<lparr>rc_request := bytes, rc_length := n, rc_response := response\<rparr>)\<rparr>)"

definition cache_completed_sensitive_request ::
  "i32 \<Rightarrow> nat \<Rightarrow> u8 list \<Rightarrow> u32 \<Rightarrow> response_frame \<Rightarrow> session \<Rightarrow> session" where
  "cache_completed_sensitive_request i n digest epoch response s =
     (let (c, s1) = activate_normal_cache (clear_normal_cache s)
      in s1\<lparr>retry_cache := NormalCache (c\<lparr>rc_valid := True, rc_sensitive := True, rc_id := i,
            rc_length := n, rc_digest := digest, rc_epoch := epoch, rc_response := response\<rparr>)\<rparr>)"

definition inspect_transition_retry ::
  "u8 list \<Rightarrow> i32 \<Rightarrow> u8 list \<Rightarrow> session \<Rightarrow> response_frame option" where
  "inspect_transition_retry token i request s =
     (case retry_cache s of
        NormalCache _ \<Rightarrow> None
      | TransitionCache c \<Rightarrow>
          (if \<not> tc_active c \<or> tc_id c \<noteq> i \<or> \<not> same_token (tc_session c) token
              \<or> \<not> same_request (tc_request c) (tc_length c) request then None
           else Some (tc_response c)))"

definition cache_transition_retry ::
  "u8 list \<Rightarrow> i32 \<Rightarrow> u8 list \<Rightarrow> response_frame \<Rightarrow> session \<Rightarrow> session" where
  "cache_transition_retry token i request response s =
     (if length token \<noteq> kTokenHexLength \<or> length request > kMaxRequestBytes \<or> resp_length response = 0
      then s
      else
        (let c = empty_transition_cache\<lparr>tc_id := i, tc_session := copy_token empty_token token\<rparr>;
             (bytes, n) = copy_request (tc_request c) request
         in s\<lparr>retry_cache := TransitionCache
               (c\<lparr>tc_request := bytes, tc_length := n, tc_response := response, tc_active := True\<rparr>)\<rparr>))"

definition revoke_for_lifecycle_invalidation :: "u32 \<Rightarrow> session \<Rightarrow> session" where
  "revoke_for_lifecycle_invalidation epoch s =
     (if active_session s \<and> session_epoch s \<noteq> epoch
         \<or> hc_valid (hello_cache s) \<and> hc_epoch (hello_cache s) \<noteq> epoch
         \<or> (case retry_cache s of
              NormalCache c \<Rightarrow> rc_valid c \<and> rc_epoch c \<noteq> epoch
            | TransitionCache _ \<Rightarrow> False)
      then clear_authority s else s)"

section \<open>Buffers read back\<close>

lemma put_at_0: "put_at 0 src dst = src @ drop (length src) dst"
  by (simp add: put_at_def)

lemma take_copy_token [simp]:
  "length token = kTokenHexLength \<Longrightarrow> take kTokenHexLength (copy_token dst token) = token"
  by (simp add: copy_token_def put_at_def)

lemma take_copy_request:
  "take (length request) (fst (copy_request dst request)) = request"
  by (simp add: copy_request_def put_at_def)

lemma same_token_copy:
  "length token = kTokenHexLength \<Longrightarrow> same_token (copy_token dst token) v \<longleftrightarrow> v = token"
  by (auto simp: same_token_def)

lemma same_request_copy:
  "same_request (fst (copy_request dst request)) (snd (copy_request dst request)) v \<longleftrightarrow> v = request"
  by (auto simp: same_request_def copy_request_def put_at_def)

lemma length_put_at: "off + length src \<le> length dst \<Longrightarrow> length (put_at off src dst) = length dst"
  by (simp add: put_at_def)

lemma length_copy_request:
  "length request \<le> kMaxRequestBytes \<Longrightarrow> length dst = kMaxRequestBytes + 1 \<Longrightarrow>
     length (fst (copy_request dst request)) = kMaxRequestBytes + 1"
  by (simp add: copy_request_def length_put_at)

lemma length_copy_token:
  "length token = kTokenHexLength \<Longrightarrow> length dst = kTokenStorageBytes \<Longrightarrow>
     length (copy_token dst token) = kTokenStorageBytes"
  by (simp add: copy_token_def length_put_at kTokenStorageBytes_def)

section \<open>Specification\<close>

text \<open>The request key the caches compare: the exact bytes, or length and digest.\<close>

datatype request_key = PlainKey "u8 list" | SecretKey nat "u8 list"

record live_session =
  lv_token :: "u8 list"
  lv_epoch :: u32
  lv_owner :: u64
  lv_deadline :: u64

record hello_memo =
  hm_nonce :: "u8 list"
  hm_request :: "u8 list"
  hm_epoch :: u32
  hm_response :: response_frame

datatype retry_memo =
    NoMemo
  | Completed i32 request_key u32 response_frame
  | Transitioned "u8 list" i32 "u8 list" response_frame

record session_spec =
  sp_live :: "live_session option"
  sp_hello :: "hello_memo option"
  sp_retry :: retry_memo
  sp_next :: u64
  sp_clock :: bool

definition spec_initial :: "bool \<Rightarrow> session_spec" where
  "spec_initial clock = \<lparr>sp_live = None, sp_hello = None, sp_retry = NoMemo, sp_next = 1, sp_clock = clock\<rparr>"

definition abs_live :: "session \<Rightarrow> live_session option" where
  "abs_live s = (if active_session s
     then Some \<lparr>lv_token = take kTokenHexLength (current_session s), lv_epoch = session_epoch s,
            lv_owner = owner_id s, lv_deadline = lease_deadline_us s\<rparr>
     else None)"

definition abs_hello :: "hello_cache \<Rightarrow> hello_memo option" where
  "abs_hello h = (if hc_valid h
     then Some \<lparr>hm_nonce = take kTokenHexLength (hc_nonce h), hm_request = take (hc_length h) (hc_request h),
            hm_epoch = hc_epoch h, hm_response = hc_response h\<rparr>
     else None)"

fun abs_retry :: "retry_cache \<Rightarrow> retry_memo" where
  "abs_retry (NormalCache c) =
     (if \<not> rc_valid c then NoMemo
      else Completed (rc_id c)
        (if rc_sensitive c then SecretKey (rc_length c) (rc_digest c)
         else PlainKey (take (rc_length c) (rc_request c)))
        (rc_epoch c) (rc_response c))"
| "abs_retry (TransitionCache c) =
     Transitioned (take kTokenHexLength (tc_session c)) (tc_id c) (take (tc_length c) (tc_request c)) (tc_response c)"

definition session_abs :: "session \<Rightarrow> session_spec" where
  "session_abs s = \<lparr>sp_live = abs_live s, sp_hello = abs_hello (hello_cache s),
     sp_retry = abs_retry (retry_cache s), sp_next = next_owner_id s, sp_clock = has_clock s\<rparr>"

text \<open>The buffers keep their lengths, and what is not active reads as zero.\<close>

fun retry_wf :: "retry_cache \<Rightarrow> bool" where
  "retry_wf (NormalCache c) \<longleftrightarrow>
     length (rc_request c) = kMaxRequestBytes + 1 \<and> length (rc_digest c) = kDigestBytes
     \<and> (rc_sensitive c \<or> rc_length c \<le> kMaxRequestBytes)"
| "retry_wf (TransitionCache c) \<longleftrightarrow>
     tc_active c \<and> length (tc_session c) = kTokenStorageBytes
     \<and> length (tc_request c) = kMaxRequestBytes + 1 \<and> tc_length c \<le> kMaxRequestBytes"

definition session_wf :: "session \<Rightarrow> bool" where
  "session_wf s \<longleftrightarrow>
     length (boot_id s) = kTokenStorageBytes \<and> length (current_session s) = kTokenStorageBytes
     \<and> (active_session s \<or> session_epoch s = 0 \<and> owner_id s = 0 \<and> lease_deadline_us s = 0)
     \<and> length (hc_nonce (hello_cache s)) = kTokenStorageBytes
     \<and> length (hc_request (hello_cache s)) = kMaxRequestBytes + 1
     \<and> hc_length (hello_cache s) \<le> kMaxRequestBytes
     \<and> retry_wf (retry_cache s)"

text \<open>The events of the session, and what they report.\<close>

datatype session_event =
    InspectHello "u8 list" "u8 list" u32
  | ActivateHello "u8 list" "u8 list" "u8 list" u32 response_frame u64
  | InspectPlain "u8 list" i32 "u8 list" u32
  | InspectSecret "u8 list" i32 nat "u8 list" u32
  | CompletePlain i32 "u8 list" u32 response_frame
  | CompleteSecret i32 nat "u8 list" u32 response_frame
  | InspectTransition "u8 list" i32 "u8 list"
  | CacheTransition "u8 list" i32 "u8 list" response_frame
  | ClearTransition
  | RefreshLease u64
  | ServiceLease u64
  | Takeover
  | Invalidate u32
  | QueryOwner u32

datatype session_output =
    OutHello hello_result "response_frame option"
  | OutRequest request_result "response_frame option"
  | OutTransition "response_frame option"
  | OutFlag bool
  | OutOwner bool u32 u64 bool

fun session_step :: "session \<Rightarrow> session_event \<Rightarrow> session \<times> session_output list" where
  "session_step s (InspectHello nonce req e) = (s, [case_prod OutHello (inspect_hello nonce req e s)])"
| "session_step s (ActivateHello nonce req token e resp t) =
     (let (ok, s') = activate_hello nonce req token e resp t s in (s', [OutFlag ok]))"
| "session_step s (InspectPlain token i req e) = (s, [case_prod OutRequest (inspect_request token i req e s)])"
| "session_step s (InspectSecret token i n d e) =
     (s, [case_prod OutRequest (inspect_sensitive_request token i n d e s)])"
| "session_step s (CompletePlain i req e resp) = (cache_completed_request i req e resp s, [])"
| "session_step s (CompleteSecret i n d e resp) = (cache_completed_sensitive_request i n d e resp s, [])"
| "session_step s (InspectTransition token i req) = (s, [OutTransition (inspect_transition_retry token i req s)])"
| "session_step s (CacheTransition token i req resp) = (cache_transition_retry token i req resp s, [])"
| "session_step s ClearTransition = (clear_transition_retry s, [])"
| "session_step s (RefreshLease t) = (let (ok, s') = refresh_lease t s in (s', [OutFlag ok]))"
| "session_step s (ServiceLease t) = (let (ok, s') = service_lease t s in (s', [OutFlag ok]))"
| "session_step s Takeover = (revoke_for_takeover s, [])"
| "session_step s (Invalidate e) = (revoke_for_lifecycle_invalidation e s, [])"
| "session_step s (QueryOwner e) =
     (s, [OutOwner (active_session s) (session_epoch s) (owner_id s) (authority_epoch_matches e s)])"

fun event_ok :: "session_event \<Rightarrow> bool" where
  "event_ok (ActivateHello nonce req token e resp t) \<longleftrightarrow>
     length nonce = kTokenHexLength \<and> length token = kTokenHexLength \<and> length req \<le> kMaxRequestBytes"
| "event_ok (InspectSecret token i n d e) \<longleftrightarrow> length d = kDigestBytes"
| "event_ok (CompletePlain i req e resp) \<longleftrightarrow> length req \<le> kMaxRequestBytes"
| "event_ok (CompleteSecret i n d e resp) \<longleftrightarrow> length d = kDigestBytes"
| "event_ok _ \<longleftrightarrow> True"

text \<open>What each event promises, on the abstract state.\<close>

definition spec_now :: "u64 \<Rightarrow> session_spec \<Rightarrow> u64" where
  "spec_now t a = (if sp_clock a then t else 0)"

definition spec_hello ::
  "u8 list \<Rightarrow> u8 list \<Rightarrow> u32 \<Rightarrow> session_spec \<Rightarrow> hello_result \<times> response_frame option" where
  "spec_hello nonce req e a =
     (case sp_hello a of
        None \<Rightarrow> (NewClient, None)
      | Some m \<Rightarrow>
          if hm_epoch m \<noteq> e \<or> hm_nonce m \<noteq> nonce then (NewClient, None)
          else if hm_request m \<noteq> req then (NonceConflict, None)
          else (HelloExactRetry, Some (hm_response m)))"

definition spec_request ::
  "u8 list \<Rightarrow> i32 \<Rightarrow> request_key \<Rightarrow> u32 \<Rightarrow> session_spec \<Rightarrow> request_result \<times> response_frame option" where
  "spec_request token i key e a =
     (case sp_live a of
        None \<Rightarrow> (SessionMismatch, None)
      | Some v \<Rightarrow>
          if lv_epoch v \<noteq> e \<or> lv_token v \<noteq> token then (SessionMismatch, None)
          else case sp_retry a of
            Completed j key' e' resp \<Rightarrow>
              if e' \<noteq> e \<or> i > j then (AcceptNew, None)
              else if i < j then (IdStale, None)
              else if key \<noteq> key' then (IdConflict, None)
              else (ExactRetry, Some resp)
          | _ \<Rightarrow> (AcceptNew, None))"

fun memo_kept :: "retry_memo \<Rightarrow> retry_memo" where
  "memo_kept (Transitioned token i req resp) = Transitioned token i req resp"
| "memo_kept m = NoMemo"

definition spec_revoke :: "session_spec \<Rightarrow> session_spec" where
  "spec_revoke a = a\<lparr>sp_live := None, sp_hello := None, sp_retry := memo_kept (sp_retry a)\<rparr>"

definition spec_stale :: "u32 \<Rightarrow> session_spec \<Rightarrow> bool" where
  "spec_stale e a \<longleftrightarrow> (case sp_live a of None \<Rightarrow> False | Some v \<Rightarrow> lv_epoch v \<noteq> e)
     \<or> (case sp_hello a of None \<Rightarrow> False | Some m \<Rightarrow> hm_epoch m \<noteq> e)
     \<or> (case sp_retry a of Completed j key e' resp \<Rightarrow> e' \<noteq> e | _ \<Rightarrow> False)"

definition spec_activate ::
  "u8 list \<Rightarrow> u8 list \<Rightarrow> u8 list \<Rightarrow> u32 \<Rightarrow> response_frame \<Rightarrow> u64 \<Rightarrow> session_spec \<Rightarrow> session_spec" where
  "spec_activate nonce req token e resp t a =
     a\<lparr>sp_live := Some \<lparr>lv_token = token, lv_epoch = e, lv_owner = sp_next a,
          lv_deadline = spec_now t a + kLeaseMicroseconds\<rparr>,
        sp_hello := Some \<lparr>hm_nonce = nonce, hm_request = req, hm_epoch = e, hm_response = resp\<rparr>,
        sp_retry := memo_kept (sp_retry a),
        sp_next := sp_next a + 1\<rparr>"

fun session_spec_step :: "session_spec \<Rightarrow> session_event \<Rightarrow> session_spec \<times> session_output list" where
  "session_spec_step a (InspectHello nonce req e) = (a, [case_prod OutHello (spec_hello nonce req e a)])"
| "session_spec_step a (ActivateHello nonce req token e resp t) =
     (if sp_next a = 0 then (a, [OutFlag False])
      else (spec_activate nonce req token e resp t a, [OutFlag True]))"
| "session_spec_step a (InspectPlain token i req e) =
     (a, [case_prod OutRequest (spec_request token i (PlainKey req) e a)])"
| "session_spec_step a (InspectSecret token i n d e) =
     (a, [case_prod OutRequest (spec_request token i (SecretKey n d) e a)])"
| "session_spec_step a (CompletePlain i req e resp) =
     (a\<lparr>sp_retry := Completed i (PlainKey req) e resp\<rparr>, [])"
| "session_spec_step a (CompleteSecret i n d e resp) =
     (a\<lparr>sp_retry := Completed i (SecretKey n d) e resp\<rparr>, [])"
| "session_spec_step a (InspectTransition token i req) =
     (a, [OutTransition (case sp_retry a of
            Transitioned token' j req' resp \<Rightarrow>
              if token = token' \<and> i = j \<and> req = req' then Some resp else None
          | _ \<Rightarrow> None)])"
| "session_spec_step a (CacheTransition token i req resp) =
     (if length token = kTokenHexLength \<and> length req \<le> kMaxRequestBytes \<and> resp_length resp \<noteq> 0
      then (a\<lparr>sp_retry := Transitioned token i req resp\<rparr>, []) else (a, []))"
| "session_spec_step a ClearTransition =
     (a\<lparr>sp_retry := (case sp_retry a of Transitioned _ _ _ _ \<Rightarrow> NoMemo | m \<Rightarrow> m)\<rparr>, [])"
| "session_spec_step a (RefreshLease t) =
     (case sp_live a of
        None \<Rightarrow> (a, [OutFlag False])
      | Some v \<Rightarrow> (a\<lparr>sp_live := Some (v\<lparr>lv_deadline := spec_now t a + kLeaseMicroseconds\<rparr>)\<rparr>, [OutFlag True]))"
| "session_spec_step a (ServiceLease t) =
     (case sp_live a of
        None \<Rightarrow> (a, [OutFlag False])
      | Some v \<Rightarrow> if spec_now t a < lv_deadline v then (a, [OutFlag False]) else (spec_revoke a, [OutFlag True]))"
| "session_spec_step a Takeover = (spec_revoke a, [])"
| "session_spec_step a (Invalidate e) = (if spec_stale e a then spec_revoke a else a, [])"
| "session_spec_step a (QueryOwner e) =
     (a, [case sp_live a of
            None \<Rightarrow> OutOwner False 0 0 False
          | Some v \<Rightarrow> OutOwner True (lv_epoch v) (lv_owner v) (lv_epoch v = e)])"

section \<open>Refinement\<close>

lemma empty_lengths [simp]:
  "length empty_token = kTokenStorageBytes" "length empty_request = kMaxRequestBytes + 1"
  "length (clear_first token) = length token"
  by (simp_all add: empty_token_def empty_request_def clear_first_def)

lemma empty_caches [simp]:
  "hc_valid empty_hello_cache = False" "length (hc_nonce empty_hello_cache) = kTokenStorageBytes"
  "length (hc_request empty_hello_cache) = kMaxRequestBytes + 1" "hc_length empty_hello_cache = 0"
  "rc_valid empty_request_cache = False" "length (rc_request empty_request_cache) = kMaxRequestBytes + 1"
  "length (rc_digest empty_request_cache) = kDigestBytes" "rc_length empty_request_cache = 0"
  "rc_request empty_request_cache = empty_request" "hc_request empty_hello_cache = empty_request"
  "tc_request empty_transition_cache = empty_request"
  by (simp_all add: empty_hello_cache_def empty_request_cache_def empty_transition_cache_def)

lemma abs_hello_empty [simp]: "abs_hello empty_hello_cache = None"
  by (simp add: abs_hello_def)

lemmas session_op_defs = clear_normal_cache_def activate_normal_cache_def clear_hello_cache_def
  clear_transition_retry_def refresh_lease_def clear_authority_def service_lease_def
  revoke_for_takeover_def activate_hello_def cache_completed_request_def
  cache_completed_sensitive_request_def cache_transition_retry_def
  revoke_for_lifecycle_invalidation_def session_now_def

lemmas session_abs_defs = session_abs_def abs_live_def abs_hello_def

lemma clear_authority_abs:
  "session_wf s \<Longrightarrow> session_abs (clear_authority s) = spec_revoke (session_abs s) \<and> session_wf (clear_authority s)"
  by (cases "retry_cache s")
    (auto simp: session_abs_def abs_live_def spec_revoke_def session_wf_def clear_authority_def
      clear_hello_cache_def clear_normal_cache_def)

lemma inspect_hello_abs:
  "session_wf s \<Longrightarrow> inspect_hello nonce req e s = spec_hello nonce req e (session_abs s)"
  by (auto simp: inspect_hello_def spec_hello_def session_abs_def abs_hello_def Let_def same_token_def
      same_request_def session_wf_def kTokenStorageBytes_def)

lemma take_token_eq:
  "length b = kTokenStorageBytes \<Longrightarrow> take kTokenHexLength b = v \<Longrightarrow> length v = kTokenHexLength"
  by (auto simp: kTokenStorageBytes_def)

lemma inspect_request_abs:
  "session_wf s \<Longrightarrow> inspect_request token i req e s = spec_request token i (PlainKey req) e (session_abs s)"
  by (cases "retry_cache s")
    (auto simp: inspect_request_def spec_request_def session_abs_def abs_live_def same_token_def
      same_request_def session_wf_def kTokenStorageBytes_def)

lemma inspect_secret_abs:
  "session_wf s \<Longrightarrow> length d = kDigestBytes \<Longrightarrow>
     inspect_sensitive_request token i n d e s = spec_request token i (SecretKey n d) e (session_abs s)"
  by (cases "retry_cache s")
    (auto simp: inspect_sensitive_request_def spec_request_def session_abs_def abs_live_def same_token_def
      session_wf_def kTokenStorageBytes_def constant_time_equal_iff)

lemma inspect_transition_abs:
  "session_wf s \<Longrightarrow> inspect_transition_retry token i req s =
     (case sp_retry (session_abs s) of
        Transitioned token' j req' resp \<Rightarrow> if token = token' \<and> i = j \<and> req = req' then Some resp else None
      | _ \<Rightarrow> None)"
  by (cases "retry_cache s")
    (auto simp: inspect_transition_retry_def session_abs_def same_token_def same_request_def
      session_wf_def kTokenStorageBytes_def)

lemma activate_hello_abs:
  assumes "session_wf s" "length nonce = kTokenHexLength" "length token = kTokenHexLength"
    and "length req \<le> kMaxRequestBytes"
  shows "case activate_hello nonce req token e resp t s of (ok, s') \<Rightarrow>
    session_wf s' \<and> ok = (sp_next (session_abs s) \<noteq> 0)
    \<and> session_abs s' = (if ok then spec_activate nonce req token e resp t (session_abs s) else session_abs s)"
proof (cases "next_owner_id s = 0")
  case True
  then show ?thesis using assms(1) by (simp add: activate_hello_def session_abs_def Let_def)
next
  case False
  obtain bytes n where cr: "copy_request empty_request req = (bytes, n)" by fastforce
  have bn: "n = length req" "take n bytes = req" "length bytes = kMaxRequestBytes + 1"
    using take_copy_request [of req empty_request] length_copy_request [OF assms(4), of empty_request] cr
    by (auto simp: copy_request_def)
  show ?thesis using assms False bn
    by (cases "retry_cache s")
      (auto simp: activate_hello_def Let_def cr session_abs_def abs_live_def abs_hello_def spec_activate_def
        session_wf_def clear_normal_cache_def length_copy_token spec_now_def session_now_def)
qed

lemma complete_plain_abs:
  assumes "session_wf s" "length req \<le> kMaxRequestBytes"
  shows "session_wf (cache_completed_request i req e resp s)
    \<and> session_abs (cache_completed_request i req e resp s)
      = (session_abs s)\<lparr>sp_retry := Completed i (PlainKey req) e resp\<rparr>"
proof -
  obtain bytes n where cr: "copy_request empty_request req = (bytes, n)" by fastforce
  have bn: "n = length req" "take n bytes = req" "length bytes = kMaxRequestBytes + 1"
    using take_copy_request [of req empty_request] length_copy_request [OF assms(2), of empty_request] cr
    by (auto simp: copy_request_def)
  show ?thesis using assms bn
    by (cases "retry_cache s")
      (auto simp: cache_completed_request_def Let_def cr session_abs_def abs_live_def session_wf_def
        activate_normal_cache_def)
qed

lemma complete_secret_abs:
  assumes "session_wf s" "length d = kDigestBytes"
  shows "session_wf (cache_completed_sensitive_request i n d e resp s)
    \<and> session_abs (cache_completed_sensitive_request i n d e resp s)
      = (session_abs s)\<lparr>sp_retry := Completed i (SecretKey n d) e resp\<rparr>"
  using assms
  by (cases "retry_cache s")
    (auto simp: cache_completed_sensitive_request_def Let_def session_abs_def abs_live_def session_wf_def
      activate_normal_cache_def clear_normal_cache_def)

lemma cache_transition_abs:
  assumes "session_wf s"
  shows "session_wf (cache_transition_retry token i req resp s)
    \<and> session_abs (cache_transition_retry token i req resp s)
      = fst (session_spec_step (session_abs s) (CacheTransition token i req resp))"
proof (cases "length token = kTokenHexLength \<and> length req \<le> kMaxRequestBytes \<and> resp_length resp \<noteq> 0")
  case True
  obtain bytes n where cr: "copy_request empty_request req = (bytes, n)" by fastforce
  have bn: "n = length req" "take n bytes = req" "length bytes = kMaxRequestBytes + 1"
    using True take_copy_request [of req empty_request] length_copy_request [of req empty_request] cr
    by (auto simp: copy_request_def)
  show ?thesis using assms True bn
    by (auto simp: cache_transition_retry_def Let_def cr session_abs_def abs_live_def session_wf_def
        length_copy_token)
next
  case False
  then show ?thesis using assms by (auto simp: cache_transition_retry_def)
qed

lemma clear_transition_abs:
  "session_wf s \<Longrightarrow> session_wf (clear_transition_retry s)
    \<and> session_abs (clear_transition_retry s) = fst (session_spec_step (session_abs s) ClearTransition)"
  by (cases "retry_cache s")
    (auto simp: clear_transition_retry_def session_abs_def abs_live_def session_wf_def)

lemma invalidate_abs:
  "session_wf s \<Longrightarrow> session_wf (revoke_for_lifecycle_invalidation e s)
    \<and> session_abs (revoke_for_lifecycle_invalidation e s) = fst (session_spec_step (session_abs s) (Invalidate e))"
proof -
  assume wf: "session_wf s"
  have "(active_session s \<and> session_epoch s \<noteq> e \<or> hc_valid (hello_cache s) \<and> hc_epoch (hello_cache s) \<noteq> e
      \<or> (case retry_cache s of NormalCache c \<Rightarrow> rc_valid c \<and> rc_epoch c \<noteq> e | TransitionCache _ \<Rightarrow> False))
      = spec_stale e (session_abs s)"
    by (cases "retry_cache s") (auto simp: spec_stale_def session_abs_def abs_live_def abs_hello_def)
  then show ?thesis using clear_authority_abs [OF wf] wf
    by (simp add: revoke_for_lifecycle_invalidation_def)
qed

definition session_refines :: "session \<Rightarrow> session_spec \<Rightarrow> bool" where
  "session_refines s a \<longleftrightarrow> session_wf s \<and> session_abs s = a"

lemma lease_abs:
  "session_wf s \<Longrightarrow> case refresh_lease t s of (ok, s') \<Rightarrow> session_wf s'
     \<and> (session_abs s', [OutFlag ok]) = session_spec_step (session_abs s) (RefreshLease t)"
  "session_wf s \<Longrightarrow> case service_lease t s of (ok, s') \<Rightarrow> session_wf s'
     \<and> (session_abs s', [OutFlag ok]) = session_spec_step (session_abs s) (ServiceLease t)"
  using clear_authority_abs [of s]
  by (auto simp: refresh_lease_def service_lease_def session_abs_def abs_live_def session_wf_def
      spec_now_def session_now_def)

interpretation session_sim: guarded_simulation session_step session_spec_step session_refines event_ok
proof
  fix s a ev
  assume "session_refines s a" and ok: "event_ok ev"
  then have wf: "session_wf s" and a: "session_abs s = a" by (auto simp: session_refines_def)
  show "session_refines (fst (session_step s ev)) (fst (session_spec_step a ev))
      \<and> snd (session_step s ev) = snd (session_spec_step a ev)"
  proof (cases ev)
    case (ActivateHello nonce req token e resp t)
    then show ?thesis
      using activate_hello_abs [OF wf, of nonce token req e resp t] ok a
      by (auto simp: session_refines_def split: prod.splits)
  next
    case (RefreshLease t)
    then show ?thesis using lease_abs(1) [OF wf, of t] a
      by (auto simp: session_refines_def split: prod.splits simp flip: prod.inject)
  next
    case (ServiceLease t)
    then show ?thesis using lease_abs(2) [OF wf, of t] a
      by (auto simp: session_refines_def split: prod.splits simp flip: prod.inject)
  next
    case (QueryOwner e)
    then show ?thesis using wf a
      by (auto simp: session_refines_def session_wf_def session_abs_def abs_live_def authority_epoch_matches_def)
  next
    case (CacheTransition token i req resp)
    then show ?thesis using cache_transition_abs [OF wf, of token i req resp] a
      by (auto simp: session_refines_def)
  next
    case ClearTransition
    then show ?thesis using clear_transition_abs [OF wf] a by (auto simp: session_refines_def)
  next
    case (Invalidate e)
    then show ?thesis using invalidate_abs [OF wf, of e] a by (auto simp: session_refines_def)
  next
    case Takeover
    then show ?thesis using clear_authority_abs [OF wf] a
      by (auto simp: session_refines_def revoke_for_takeover_def)
  next
    case (CompletePlain i req e resp)
    then show ?thesis using complete_plain_abs [OF wf, of req i e resp] ok a
      by (auto simp: session_refines_def)
  next
    case (CompleteSecret i n d e resp)
    then show ?thesis using complete_secret_abs [OF wf, of d i n e resp] ok a
      by (auto simp: session_refines_def)
  next
    case (InspectSecret token i n d e)
    then show ?thesis using inspect_secret_abs [OF wf, of d token i n e] ok a wf
      by (auto simp: session_refines_def)
  next
    case (InspectPlain token i req e)
    then show ?thesis using inspect_request_abs [OF wf, of token i req e] a wf
      by (auto simp: session_refines_def)
  next
    case (InspectHello nonce req e)
    then show ?thesis using inspect_hello_abs [OF wf, of nonce req e] a wf
      by (auto simp: session_refines_def)
  next
    case (InspectTransition token i req)
    then show ?thesis using inspect_transition_abs [OF wf, of token i req] a wf
      by (auto simp: session_refines_def)
  qed
qed

section \<open>Initialisation\<close>

lemma length_hex_bytes [simp]: "length (hex_bytes bs) = 2 * length bs"
  by (induction bs) simp_all

definition hex_char :: "u8 \<Rightarrow> bool" where
  "hex_char c \<longleftrightarrow> 48 \<le> c \<and> c \<le> 57 \<or> 97 \<le> c \<and> c \<le> 102"

lemma hex_digits_ok: "list_all hex_char kHexDigits"
  by code_simp

lemma hex_digit_nth: "n < 16 \<Longrightarrow> hex_char (kHexDigits ! n)"
  using hex_digits_ok by (auto simp: list_all_length kHexDigits_def)

lemma nibble_bounds:
  "unat (drop_bit 4 (b :: u8)) < 16" "unat (b AND 0x0f :: u8) < 16"
proof -
  have "unat (drop_bit 4 b) = unat b div 16" by (simp only: unat_drop_bit_eq) (simp add: drop_bit_eq_div)
  moreover have "unat b < 2 ^ LENGTH(8)" by (rule unsigned_less)
  ultimately show "unat (drop_bit 4 b) < 16" by simp
  have "b AND 0x0f \<le> 0x0f" by (rule word_and_le1)
  then show "unat (b AND 0x0f) < 16" by (simp add: word_le_nat_alt)
qed

lemma hex_bytes_ok: "list_all hex_char (hex_bytes bs)"
  by (induction bs) (simp_all add: hex_digit_nth nibble_bounds)

lemma generate_token_hex:
  "length r = 16 \<Longrightarrow> length out = kTokenStorageBytes \<Longrightarrow>
     is_lower_hex_token (take kTokenHexLength (generate_token (Some r) out))
     \<and> length (generate_token (Some r) out) = kTokenStorageBytes"
  using hex_bytes_ok [of r, unfolded hex_char_def [abs_def]]
  by (simp add: generate_token_def put_at_def is_lower_hex_token_def kTokenHexLength_def
      kTokenStorageBytes_def)

lemma session_zero_wf: "session_wf session_zero"
  by (simp add: session_wf_def session_zero_def)

lemma session_initialize_refines:
  "session_wf s \<Longrightarrow> length r = 16 \<Longrightarrow>
     session_refines (session_initialize (Some r) clock s) (spec_initial clock)
     \<and> is_lower_hex_token (take kTokenHexLength (boot_id (session_initialize (Some r) clock s)))"
  using generate_token_hex [of r "boot_id s"]
  by (cases "retry_cache s")
    (auto simp: session_refines_def session_initialize_def session_abs_def abs_live_def spec_initial_def
      session_wf_def clear_hello_cache_def clear_normal_cache_def clear_transition_retry_def Let_def)

section \<open>Serving requests\<close>

text \<open>
  How the dispatcher uses the session. A handshake of a new client revokes the old session first and
  drops the transition retry last. A request is looked up, executed only when it is new, and
  its response cached. A request that starts a lifecycle transition is looked up in the transition
  cache first; executing it caches its response there and then revokes the session, since the
  transition publishes a new authority epoch.
\<close>

datatype session_use =
    UHello "u8 list" "u8 list" "u8 list" u32 response_frame u64
  | UPlain "u8 list" i32 "u8 list" u32 response_frame u64
  | USecret "u8 list" i32 nat "u8 list" u32 response_frame u64
  | UTransition "u8 list" i32 "u8 list" u32 u32 response_frame u64
  | ULease u64
  | UTakeover
  | UInvalidate u32

datatype served =
    Executed u64 "u8 list" i32 request_key response_frame
  | Replayed "u8 list" i32 request_key response_frame

definition serve_hello ::
  "u8 list \<Rightarrow> u8 list \<Rightarrow> u8 list \<Rightarrow> u32 \<Rightarrow> response_frame \<Rightarrow> u64 \<Rightarrow> session \<Rightarrow> session" where
  "serve_hello nonce req token e resp t s =
     (case fst (inspect_hello nonce req e s) of
        NewClient \<Rightarrow>
          (let s1 = (if active_session s then revoke_for_takeover s else s);
               (ok, s2) = activate_hello nonce req token e resp t s1
           in if ok then clear_transition_retry s2 else s2)
      | HelloExactRetry \<Rightarrow> snd (refresh_lease t s)
      | NonceConflict \<Rightarrow> s)"

definition serve_request ::
  "request_result \<times> response_frame option \<Rightarrow> u8 list \<Rightarrow> i32 \<Rightarrow> request_key \<Rightarrow> response_frame \<Rightarrow>
     u64 \<Rightarrow> (session \<Rightarrow> session) \<Rightarrow> session \<Rightarrow> session \<times> served list" where
  "serve_request found token i key resp t finish s =
     (case found of
        (AcceptNew, _) \<Rightarrow> (finish s, [Executed (owner_id s) token i key resp])
      | (ExactRetry, Some r) \<Rightarrow> (snd (refresh_lease t s), [Replayed token i key r])
      | _ \<Rightarrow> (s, []))"

fun serve :: "session \<Rightarrow> session_use \<Rightarrow> session \<times> served list" where
  "serve s (UHello nonce req token e resp t) = (serve_hello nonce req token e resp t s, [])"
| "serve s (UPlain token i req e resp t) =
     serve_request (inspect_request token i req e s) token i (PlainKey req) resp t
       (\<lambda>s. cache_completed_request i req e resp (snd (refresh_lease t s))) s"
| "serve s (USecret token i n d e resp t) =
     serve_request (inspect_sensitive_request token i n d e s) token i (SecretKey n d) resp t
       (\<lambda>s. cache_completed_sensitive_request i n d e resp (snd (refresh_lease t s))) s"
| "serve s (UTransition token i req e next_epoch resp t) =
     (case inspect_transition_retry token i req s of
        Some r \<Rightarrow> (s, [Replayed token i (PlainKey req) r])
      | None \<Rightarrow>
          serve_request (inspect_request token i req e s) token i (PlainKey req) resp t
            (\<lambda>s. revoke_for_lifecycle_invalidation next_epoch (cache_transition_retry token i req resp s)) s)"
| "serve s (ULease t) = (snd (service_lease t s), [])"
| "serve s UTakeover = (revoke_for_takeover s, [])"
| "serve s (UInvalidate e) = (revoke_for_lifecycle_invalidation e s, [])"

fun use_ok :: "session_use \<Rightarrow> bool" where
  "use_ok (UHello nonce req token e resp t) \<longleftrightarrow>
     length nonce = kTokenHexLength \<and> length token = kTokenHexLength \<and> length req \<le> kMaxRequestBytes"
| "use_ok (UPlain token i req e resp t) \<longleftrightarrow> length req \<le> kMaxRequestBytes"
| "use_ok (USecret token i n d e resp t) \<longleftrightarrow> length d = kDigestBytes"
| "use_ok (UTransition token i req e next_epoch resp t) \<longleftrightarrow> next_epoch \<noteq> e"
| "use_ok _ \<longleftrightarrow> True"

text \<open>
  What the answers have to be, given the past ones: an execution has a later owner or, for the
  owner of a past one, the same token and a greater id; a replay repeats the response of an
  execution of the same request.
\<close>

fun before :: "u64 \<Rightarrow> u8 list \<Rightarrow> i32 \<Rightarrow> served \<Rightarrow> bool" where
  "before ow t i (Executed ow' t' i' k' r') \<longleftrightarrow> ow' < ow \<or> ow' = ow \<and> t' = t \<and> i' < i"
| "before ow t i (Replayed t' i' k' r') \<longleftrightarrow> True"

fun repeats :: "u8 list \<Rightarrow> i32 \<Rightarrow> request_key \<Rightarrow> response_frame \<Rightarrow> served \<Rightarrow> bool" where
  "repeats t i k r (Executed ow' t' i' k' r') \<longleftrightarrow> t' = t \<and> i' = i \<and> k' = k \<and> r' = r"
| "repeats t i k r (Replayed t' i' k' r') \<longleftrightarrow> False"

fun answers_ok :: "served list \<Rightarrow> served list \<Rightarrow> bool" where
  "answers_ok past [] \<longleftrightarrow> True"
| "answers_ok past (Executed ow t i k r # xs) \<longleftrightarrow>
     list_all (before ow t i) past \<and> answers_ok (past @ [Executed ow t i k r]) xs"
| "answers_ok past (Replayed t i k r # xs) \<longleftrightarrow>
     list_ex (repeats t i k r) past \<and> answers_ok (past @ [Replayed t i k r]) xs"

lemma answers_ok_append:
  "answers_ok past (xs @ ys) \<longleftrightarrow> answers_ok past xs \<and> answers_ok (past @ xs) ys"
  by (induction past xs rule: answers_ok.induct) auto

text \<open>The books the session keeps of the past answers.\<close>

fun owner_below :: "u64 \<Rightarrow> served \<Rightarrow> bool" where
  "owner_below n (Executed ow t i k r) \<longleftrightarrow> ow \<noteq> 0 \<and> (n = 0 \<or> ow < n)"
| "owner_below n (Replayed t i k r) \<longleftrightarrow> True"

text \<open>Every execution for the live owner or an earlier one, with the live token and an id up to \<open>hi\<close>.\<close>

fun booked :: "live_session \<Rightarrow> i32 option \<Rightarrow> served \<Rightarrow> bool" where
  "booked v hi (Executed ow t i k r) \<longleftrightarrow>
     ow < lv_owner v \<or> ow = lv_owner v \<and> t = lv_token v \<and> (case hi of None \<Rightarrow> False | Some j \<Rightarrow> i \<le> j)"
| "booked v hi (Replayed t i k r) \<longleftrightarrow> True"

definition live_books :: "live_session \<Rightarrow> retry_memo \<Rightarrow> u64 \<Rightarrow> served list \<Rightarrow> bool" where
  "live_books v m n past \<longleftrightarrow> lv_owner v \<noteq> 0 \<and> (n = 0 \<or> lv_owner v < n) \<and>
     (case m of
        NoMemo \<Rightarrow> list_all (booked v None) past
      | Completed j k e r \<Rightarrow> e = lv_epoch v \<and> list_all (booked v (Some j)) past
          \<and> list_ex (repeats (lv_token v) j k r) past
      | Transitioned _ _ _ _ \<Rightarrow> False)"

fun idle_books :: "retry_memo \<Rightarrow> served list \<Rightarrow> bool" where
  "idle_books NoMemo past \<longleftrightarrow> True"
| "idle_books (Completed j k e r) past \<longleftrightarrow> False"
| "idle_books (Transitioned t i req r) past \<longleftrightarrow> list_ex (repeats t i (PlainKey req) r) past"

definition books :: "session_spec \<Rightarrow> served list \<Rightarrow> bool" where
  "books a past \<longleftrightarrow> list_all (owner_below (sp_next a)) past \<and>
     (case sp_live a of
        None \<Rightarrow> idle_books (sp_retry a) past
      | Some v \<Rightarrow> live_books v (sp_retry a) (sp_next a) past)"

lemma booked_mono: "booked v None x \<Longrightarrow> booked v (Some j) x"
  by (cases x) auto

lemma booked_above: "booked v (Some j) x \<Longrightarrow> j \<le> j' \<Longrightarrow> booked v (Some j') x"
  by (cases x) auto

lemma books_revoke: "books a past \<Longrightarrow> books (spec_revoke a) past"
  by (cases "sp_retry a") (auto simp: books_def spec_revoke_def live_books_def split: option.splits)

lemma booked_deadline [simp]: "booked (v\<lparr>lv_deadline := d\<rparr>) hi = booked v hi"
proof
  show "booked (v\<lparr>lv_deadline := d\<rparr>) hi x = booked v hi x" for x by (cases x) auto
qed

lemma live_books_deadline [simp]:
  "live_books (v\<lparr>lv_deadline := d\<rparr>) m n past \<longleftrightarrow> live_books v m n past"
  by (simp add: live_books_def split: retry_memo.splits)

lemma books_lease: "books a past \<Longrightarrow> books (fst (session_spec_step a (RefreshLease t))) past"
  by (auto simp: books_def split: option.splits)

lemma books_service: "books a past \<Longrightarrow> books (fst (session_spec_step a (ServiceLease t))) past"
  using books_revoke [of a past] by (auto split: option.splits)

lemma books_invalidate: "books a past \<Longrightarrow> books (fst (session_spec_step a (Invalidate e))) past"
  using books_revoke [of a past] by auto

lemma owner_below_booked:
  "n \<noteq> 0 \<Longrightarrow> owner_below n x \<Longrightarrow> lv_owner v = n \<Longrightarrow> booked v None x"
  by (cases x) auto

lemma owner_below_next:
  "n \<noteq> 0 \<Longrightarrow> owner_below n x \<Longrightarrow> owner_below (n + 1) x"
proof (cases x)
  case (Executed ow t i k r)
  assume "n \<noteq> 0" "owner_below n x"
  then have "ow \<noteq> 0" "ow < n" by (auto simp: Executed)
  then show ?thesis using word_next_greater [of n] by (auto simp: Executed)
qed simp

lemma books_activate:
  assumes "books a past" "sp_live a = None" "sp_next a \<noteq> 0"
  shows "books (fst (session_spec_step (spec_activate nonce req token e resp t a) ClearTransition)) past"
proof -
  have below: "list_all (owner_below (sp_next a)) past" using assms by (simp add: books_def)
  have "(case memo_kept m of Transitioned _ _ _ _ \<Rightarrow> NoMemo | m' \<Rightarrow> m') = NoMemo" for m
    by (cases m) auto
  then show ?thesis
    using below assms(3) word_next_greater [of "sp_next a"] owner_below_next owner_below_booked
    by (auto simp: books_def spec_activate_def live_books_def list_all_iff)
qed

text \<open>An accepted request is new: nothing with its id was executed for the live owner.\<close>

lemma booked_before:
  "booked v None x \<Longrightarrow> before (lv_owner v) (lv_token v) i x"
  "booked v (Some j) x \<Longrightarrow> j < i \<Longrightarrow> before (lv_owner v) (lv_token v) i x"
  by (cases x; auto)+

lemma accepted_live:
  assumes "fst (spec_request token i key e a) = AcceptNew" "books a past"
  shows "\<exists>v. sp_live a = Some v \<and> lv_epoch v = e \<and> lv_token v = token
       \<and> lv_owner v \<noteq> 0 \<and> (sp_next a = 0 \<or> lv_owner v < sp_next a)
       \<and> list_all (before (lv_owner v) token i) past \<and> list_all (booked v (Some i)) past"
proof -
  obtain v where v: "sp_live a = Some v" "lv_epoch v = e" "lv_token v = token"
    using assms(1) by (auto simp: spec_request_def split: option.splits if_splits)
  then have lb: "live_books v (sp_retry a) (sp_next a) past" using assms(2) by (simp add: books_def)
  show ?thesis
  proof (cases "sp_retry a")
    case NoMemo
    then show ?thesis using v lb booked_mono booked_before(1) [of v _ i]
      by (auto simp: live_books_def list_all_iff)
  next
    case (Completed j k e' r)
    then have "j < i" using assms(1) v lb
      by (auto simp: spec_request_def live_books_def split: if_splits)
    then show ?thesis using v lb Completed booked_above [of v j _ i] booked_before(2) [of v j _ i]
      by (auto simp: live_books_def list_all_iff)
  next
    case (Transitioned t' i' q r)
    then show ?thesis using lb by (simp add: live_books_def)
  qed
qed

lemma replayed_executed:
  assumes "spec_request token i key e a = (ExactRetry, Some r)" "books a past"
  shows "list_ex (repeats token i key r) past"
  using assms
  by (auto simp: spec_request_def books_def live_books_def split: option.splits if_splits retry_memo.splits)

lemma books_skip: "books a past \<Longrightarrow> books a (past @ [Replayed t i k r])"
  by (cases "sp_retry a") (auto simp: books_def live_books_def split: option.splits)

lemma books_execute:
  assumes "books a past" "sp_live a = Some v" "list_all (booked v (Some i)) past"
  shows "books (a\<lparr>sp_retry := Completed i key (lv_epoch v) r\<rparr>)
           (past @ [Executed (lv_owner v) (lv_token v) i key r])"
  using assms by (auto simp: books_def live_books_def)

lemma books_transition:
  assumes "books a past" "sp_live a = Some v"
    and "sp_retry b = Transitioned (lv_token v) i req r \<or> sp_retry b = sp_retry a"
    and "sp_next b = sp_next a"
  shows "books (spec_revoke b) (past @ [Executed (lv_owner v) (lv_token v) i (PlainKey req) r])"
  using assms by (cases "sp_retry a") (auto simp: books_def spec_revoke_def live_books_def)

lemma session_abs_owner: "abs_live s = Some v \<Longrightarrow> owner_id s = lv_owner v"
  by (auto simp: abs_live_def split: if_splits)

lemma refresh_session:
  "session_wf s \<Longrightarrow> session_wf (snd (refresh_lease t s))
     \<and> session_abs (snd (refresh_lease t s)) = fst (session_spec_step (session_abs s) (RefreshLease t))"
  "session_wf s \<Longrightarrow> session_wf (snd (service_lease t s))
     \<and> session_abs (snd (service_lease t s)) = fst (session_spec_step (session_abs s) (ServiceLease t))"
  using lease_abs [of s t] by (auto split: prod.splits) (metis fst_conv)+

definition session_books :: "session \<Rightarrow> served list \<Rightarrow> bool" where
  "session_books s past \<longleftrightarrow> session_wf s \<and> books (session_abs s) past"

lemma session_books_refresh: "session_books s past \<Longrightarrow> session_books (snd (refresh_lease t s)) past"
  using refresh_session(1) [of s t] books_lease [of "session_abs s" past t] by (simp add: session_books_def)

lemma session_books_hello:
  assumes "session_books s past" "use_ok (UHello nonce req token e resp t)"
  shows "session_books (serve_hello nonce req token e resp t s) past"
proof (cases "fst (inspect_hello nonce req e s)")
  case NewClient
  define s1 where "s1 = (if active_session s then revoke_for_takeover s else s)"
  have s1: "session_wf s1" "books (session_abs s1) past" "sp_live (session_abs s1) = None"
    using assms(1) clear_authority_abs [of s] books_revoke [of "session_abs s" past]
    by (auto simp: s1_def session_books_def revoke_for_takeover_def spec_revoke_def session_abs_def abs_live_def)
  obtain ok s2 where act: "activate_hello nonce req token e resp t s1 = (ok, s2)" by fastforce
  have s2: "session_wf s2" "ok = (sp_next (session_abs s1) \<noteq> 0)"
    "session_abs s2 = (if ok then spec_activate nonce req token e resp t (session_abs s1) else session_abs s1)"
    using activate_hello_abs [OF s1(1), of nonce token req e resp t] assms(2) act by auto
  have "session_books (if ok then clear_transition_retry s2 else s2) past"
    using s1 s2 clear_transition_abs [OF s2(1)] books_activate [OF s1(2,3), of nonce req token e resp t]
    by (auto simp: session_books_def)
  then show ?thesis by (simp add: serve_hello_def NewClient Let_def act flip: s1_def)
next
  case HelloExactRetry
  then show ?thesis using session_books_refresh [OF assms(1)] by (simp add: serve_hello_def)
next
  case NonceConflict
  then show ?thesis using assms(1) by (simp add: serve_hello_def)
qed

text \<open>One look-up and what it leads to, for any way of finishing an execution that keeps the books.\<close>

lemma serve_request_books:
  assumes bk: "session_books s past"
    and found: "found = spec_request token i key e (session_abs s)"
    and fin: "\<And>v. sp_live (session_abs s) = Some v \<Longrightarrow> lv_epoch v = e \<Longrightarrow> lv_token v = token \<Longrightarrow>
       list_all (booked v (Some i)) past \<Longrightarrow>
       session_books (finish s) (past @ [Executed (lv_owner v) token i key resp])"
  shows "case serve_request found token i key resp t finish s of (s', out) \<Rightarrow>
    session_books s' (past @ out) \<and> answers_ok past out"
proof -
  have b: "books (session_abs s) past" using bk by (simp add: session_books_def)
  obtain res r where fr: "found = (res, r)" by fastforce
  show ?thesis
  proof (cases "res = AcceptNew")
    case True
    then have "fst (spec_request token i key e (session_abs s)) = AcceptNew"
      using fr by (simp flip: found)
    then obtain v where v: "sp_live (session_abs s) = Some v" "lv_epoch v = e" "lv_token v = token"
      "list_all (before (lv_owner v) token i) past" "list_all (booked v (Some i)) past"
      using accepted_live b by blast
    have "owner_id s = lv_owner v" using v(1) by (simp add: session_abs_def session_abs_owner)
    then show ?thesis using fin [OF v(1,2,3,5)] v(4) True fr by (simp add: serve_request_def)
  next
    case False
    show ?thesis
    proof (cases "\<exists>x. res = ExactRetry \<and> r = Some x")
      case True
      then obtain x where x: "res = ExactRetry" "r = Some x" by blast
      have "spec_request token i key e (session_abs s) = (ExactRetry, Some x)"
        using fr x by (simp flip: found)
      then have "list_ex (repeats token i key x) past" using b by (rule replayed_executed)
      moreover have "session_books (snd (refresh_lease t s)) (past @ [Replayed token i key x])"
        using session_books_refresh [OF bk, of t] books_skip by (simp add: session_books_def)
      ultimately show ?thesis by (simp add: serve_request_def fr x)
    next
      case False
      then have "serve_request found token i key resp t finish s = (s, [])"
        using \<open>res \<noteq> AcceptNew\<close> by (cases res; cases r) (auto simp: serve_request_def fr)
      then show ?thesis using bk by simp
    qed
  qed
qed

lemma lease_retry:
  "fst (session_spec_step (a\<lparr>sp_retry := m\<rparr>) (RefreshLease t))
     = (fst (session_spec_step a (RefreshLease t)))\<lparr>sp_retry := m\<rparr>"
  by (auto simp: spec_now_def split: option.splits)

lemma finish_completed:
  assumes "session_books s past" "sp_live (session_abs s) = Some v" "list_all (booked v (Some i)) past"
    and "session_wf s'"
    and "session_abs s' = (session_abs (snd (refresh_lease t s)))\<lparr>sp_retry := Completed i key (lv_epoch v) r\<rparr>"
  shows "session_books s' (past @ [Executed (lv_owner v) (lv_token v) i key r])"
proof -
  have wf: "session_wf s" and b: "books (session_abs s) past" using assms(1) by (auto simp: session_books_def)
  have "session_abs s' = fst (session_spec_step
      ((session_abs s)\<lparr>sp_retry := Completed i key (lv_epoch v) r\<rparr>) (RefreshLease t))"
    using assms(5) refresh_session(1) [OF wf, of t] lease_retry [where a = "session_abs s"] by simp
  then show ?thesis
    using books_lease [OF books_execute [OF b assms(2,3), of key r]] assms(4)
    by (simp add: session_books_def)
qed

lemma finish_transition:
  assumes "session_books s past" "sp_live (session_abs s) = Some v" "next_epoch \<noteq> lv_epoch v"
  shows "session_books
      (revoke_for_lifecycle_invalidation next_epoch (cache_transition_retry (lv_token v) i req r s))
      (past @ [Executed (lv_owner v) (lv_token v) i (PlainKey req) r])"
proof -
  have wf: "session_wf s" and b: "books (session_abs s) past" using assms(1) by (auto simp: session_books_def)
  define c where "c = cache_transition_retry (lv_token v) i req r s"
  have c: "session_wf c"
    "session_abs c = fst (session_spec_step (session_abs s) (CacheTransition (lv_token v) i req r))"
    using cache_transition_abs [OF wf, of "lv_token v" i req r] by (auto simp: c_def)
  have live: "sp_live (session_abs c) = Some v" "sp_next (session_abs c) = sp_next (session_abs s)"
    "sp_retry (session_abs c) = Transitioned (lv_token v) i req r
      \<or> sp_retry (session_abs c) = sp_retry (session_abs s)"
    using c(2) assms(2) by auto
  have "spec_stale next_epoch (session_abs c)" using live(1) assms(3) by (simp add: spec_stale_def)
  then show ?thesis
    using invalidate_abs [OF c(1), of next_epoch] books_transition [OF b assms(2) live(3) live(2)]
    by (simp add: session_books_def flip: c_def)
qed

lemma serve_books:
  assumes bk: "session_books s past" and ok: "use_ok x"
  shows "case serve s x of (s', out) \<Rightarrow> session_books s' (past @ out) \<and> answers_ok past out"
proof (cases x)
  case (UHello nonce req token e resp t)
  then show ?thesis using session_books_hello [OF bk] ok by simp
next
  case (UPlain token i req e resp t)
  have wf: "session_wf s" using bk by (simp add: session_books_def)
  have fin: "session_books (cache_completed_request i req e resp (snd (refresh_lease t s)))
      (past @ [Executed (lv_owner v) token i (PlainKey req) resp])"
    if "sp_live (session_abs s) = Some v" "lv_epoch v = e" "lv_token v = token"
      "list_all (booked v (Some i)) past" for v
    using finish_completed [OF bk that(1,4), where t = t and s' = "cache_completed_request i req e resp (snd (refresh_lease t s))"]
      that(2,3) ok complete_plain_abs [of "snd (refresh_lease t s)" req i e resp] refresh_session(1) [OF wf, of t]
    by (simp add: UPlain)
  show ?thesis
    unfolding UPlain serve.simps
    by (rule serve_request_books [OF bk inspect_request_abs [OF wf]]) (rule fin)
next
  case (USecret token i n d e resp t)
  have wf: "session_wf s" and len: "length d = kDigestBytes"
    using bk ok by (simp_all add: session_books_def USecret)
  have fin: "session_books (cache_completed_sensitive_request i n d e resp (snd (refresh_lease t s)))
      (past @ [Executed (lv_owner v) token i (SecretKey n d) resp])"
    if "sp_live (session_abs s) = Some v" "lv_epoch v = e" "lv_token v = token"
      "list_all (booked v (Some i)) past" for v
    using finish_completed [OF bk that(1,4),
        where t = t and s' = "cache_completed_sensitive_request i n d e resp (snd (refresh_lease t s))"] that(2,3) len
      complete_secret_abs [of "snd (refresh_lease t s)" d i n e resp] refresh_session(1) [OF wf, of t]
    by simp
  show ?thesis
    unfolding USecret serve.simps
    by (rule serve_request_books [OF bk inspect_secret_abs [OF wf len]]) (rule fin)
next
  case (UTransition token i req e next_epoch resp t)
  have wf: "session_wf s" and b: "books (session_abs s) past" using bk by (simp_all add: session_books_def)
  show ?thesis
  proof (cases "inspect_transition_retry token i req s")
    case (Some r)
    then have m: "sp_retry (session_abs s) = Transitioned token i req r"
      using inspect_transition_abs [OF wf, of token i req] by (auto split: retry_memo.splits if_splits)
    then have "list_ex (repeats token i (PlainKey req) r) past"
      using b by (auto simp: books_def live_books_def split: option.splits)
    then show ?thesis using Some wf books_skip [OF b] by (simp add: UTransition session_books_def)
  next
    case None
    have fin: "session_books
        (revoke_for_lifecycle_invalidation next_epoch (cache_transition_retry token i req resp s))
        (past @ [Executed (lv_owner v) token i (PlainKey req) resp])"
      if "sp_live (session_abs s) = Some v" "lv_epoch v = e" "lv_token v = token"
        "list_all (booked v (Some i)) past" for v
      using finish_transition [OF bk that(1), of next_epoch i req resp] that(2,3) ok by (simp add: UTransition)
    show ?thesis
      unfolding UTransition serve.simps None option.case
      by (rule serve_request_books [OF bk inspect_request_abs [OF wf]]) (rule fin)
  qed
next
  case (ULease t)
  then show ?thesis using bk refresh_session(2) [of s t] books_service [of "session_abs s" past t]
    by (simp add: session_books_def)
next
  case UTakeover
  then show ?thesis using bk clear_authority_abs [of s] books_revoke [of "session_abs s" past]
    by (simp add: session_books_def revoke_for_takeover_def)
next
  case (UInvalidate e)
  then show ?thesis using bk invalidate_abs [of s e] books_invalidate [of "session_abs s" past e]
    by (simp add: session_books_def)
qed

lemma serve_run_books:
  "session_books s past \<Longrightarrow> list_all use_ok xs \<Longrightarrow> answers_ok past (snd (run_outputs serve s xs))"
proof (induction xs arbitrary: s past)
  case (Cons x xs)
  obtain s' out where so: "serve s x = (s', out)" by fastforce
  have "session_books s' (past @ out)" "answers_ok past out"
    using serve_books [OF Cons.prems(1), of x] Cons.prems(2) so by auto
  then show ?case using Cons.IH [of s' "past @ out"] Cons.prems(2)
    by (simp add: so answers_ok_append case_prod_unfold Let_def)
qed simp

lemma initial_books:
  assumes "length r = 16"
  shows "session_books (session_initialize (Some r) clock session_zero) []"
  using session_initialize_refines [OF session_zero_wf assms, of clock]
  by (simp add: session_refines_def session_books_def books_def spec_initial_def)

section \<open>Properties\<close>

text \<open>
  C8: From its initialisation on, whatever the dispatcher asks in whatever order with requests
  of at most 504 bytes, the session and its fixed-size caches answer as the specification that
  remembers one live session, one handshake and one completed request, and no buffer is overrun.
\<close>

theorem session_refines_spec:
  assumes "length random = 16" "list_all event_ok evs"
  shows "snd (run_outputs session_step (session_initialize (Some random) clock session_zero) evs)
      = snd (run_outputs session_spec_step (spec_initial clock) evs)
    \<and> session_wf (fst (run_outputs session_step (session_initialize (Some random) clock session_zero) evs))
    \<and> is_lower_hex_token (take kTokenHexLength (boot_id (session_initialize (Some random) clock session_zero)))"
  using session_sim.guarded_run [OF _ assms(2)] session_initialize_refines [OF session_zero_wf assms(1), of clock]
  by (auto simp: session_refines_def)

definition sample_token :: "u8 list" where "sample_token = replicate 32 97"

definition sample_response :: response_frame where
  "sample_response = \<lparr>resp_bytes = replicate 1024 7, resp_length = 3\<rparr>"

theorem session_refines_spec_witness:
  "let evs = [ActivateHello sample_token [1, 2] sample_token 5 sample_response 10,
              CompletePlain 3 [9] 5 sample_response, InspectPlain sample_token 3 [9] 5] in
   list_all event_ok evs \<and>
   snd (run_outputs session_step (session_initialize (Some (replicate 16 0)) True session_zero) evs)
     = snd (run_outputs session_spec_step (spec_initial True) evs)"
  using session_refines_spec [of "replicate 16 0"
      "[ActivateHello sample_token [1, 2] sample_token 5 sample_response 10,
        CompletePlain 3 [9] 5 sample_response, InspectPlain sample_token 3 [9] 5]" True]
  by (simp add: sample_token_def kTokenHexLength_def kMaxRequestBytes_def Let_def)

text \<open>
  As long as every accepted lifecycle transition publishes a new authority epoch, no request
  is executed twice: the executions of one session have increasing ids, a session of a later
  handshake has a greater owner, and whatever is replayed is the response of an earlier execution of the very same
  request.
\<close>

theorem requests_execute_once:
  assumes "length random = 16" "list_all use_ok uses"
  shows "answers_ok [] (snd (run_outputs serve (session_initialize (Some random) clock session_zero) uses))"
  using serve_run_books [OF initial_books [OF assms(1)] assms(2)] .

theorem requests_execute_once_witness:
  "let uses = [UHello sample_token [1, 2] sample_token 5 sample_response 10,
               UPlain sample_token 3 [9] 5 sample_response 11,
               UPlain sample_token 3 [9] 5 sample_response 12,
               UTransition sample_token 4 [8] 5 6 sample_response 13,
               UTransition sample_token 4 [8] 6 7 sample_response 14];
       out = snd (run_outputs serve (session_initialize (Some (replicate 16 0)) True session_zero) uses) in
   answers_ok [] out \<and>
   out = [Executed 1 sample_token 3 (PlainKey [9]) sample_response,
          Replayed sample_token 3 (PlainKey [9]) sample_response,
          Executed 1 sample_token 4 (PlainKey [8]) sample_response,
          Replayed sample_token 4 (PlainKey [8]) sample_response]"
proof -
  have "list_all use_ok
     [UHello sample_token [1, 2] sample_token 5 sample_response 10,
      UPlain sample_token 3 [9] 5 sample_response 11,
      UPlain sample_token 3 [9] 5 sample_response 12,
      UTransition sample_token 4 [8] 5 6 sample_response 13,
      UTransition sample_token 4 [8] 6 7 sample_response 14]"
    by code_simp
  from requests_execute_once [OF _ this, of "replicate 16 0" True] show ?thesis
    unfolding Let_def by (intro conjI) (simp, code_simp)
qed

end
