(* ===== verification/BondAssociation.thy ===== *)
theory BondAssociation
  imports BleSecurity
begin

text \<open>
  \<open>ble_transport/bond_association.hpp\<close>: which profile class a durable bond belongs to. The store is
  outside the component: a record of functions from the calls made so far to the answer of the
  next one, so it may fail or change its mind at any time.
\<close>

section \<open>Records\<close>

type_synonym peer = "u8 list"

datatype association_state = AsMissing | AsPending | AsComplete | AsInvalid | AsOther u8

record association =
  as_state :: association_state
  as_class :: bond_class

definition association_default :: association where
  "association_default = \<lparr>as_state = AsMissing, as_class = BondStrictComposite\<rparr>"

fun association_state_code :: "association_state \<Rightarrow> u8" where
  "association_state_code AsMissing = 0"
| "association_state_code AsPending = 1"
| "association_state_code AsComplete = 2"
| "association_state_code AsInvalid = 3"
| "association_state_code (AsOther b) = b"

definition code_association_state :: "u8 \<Rightarrow> association_state" where
  "code_association_state b =
     (if b = 0 then AsMissing else if b = 1 then AsPending else if b = 2 then AsComplete
      else if b = 3 then AsInvalid else AsOther b)"

fun bond_class_code :: "bond_class \<Rightarrow> u8" where
  "bond_class_code BondStrictComposite = 0"
| "bond_class_code BondStandaloneMouseJustWorks = 1"
| "bond_class_code BondStandaloneKeyboard = 2"
| "bond_class_code BondStandaloneMouseJustWorksId7 = 3"
| "bond_class_code BondStandaloneKeyboardLeds = 4"
| "bond_class_code BondMouseMetadata = 5"
| "bond_class_code BondMouseSimulatedSleepV1 = 6"
| "bond_class_code BondMouseHostInitiatedSecurity = 7"

text \<open>\<open>static_cast<BondClass>\<close> of a byte; \<open>None\<close> is a value without an enumerator.\<close>

definition code_bond_class :: "u8 \<Rightarrow> bond_class option" where
  "code_bond_class b =
     (if b = 0 then Some BondStrictComposite
      else if b = 1 then Some BondStandaloneMouseJustWorks
      else if b = 2 then Some BondStandaloneKeyboard
      else if b = 3 then Some BondStandaloneMouseJustWorksId7
      else if b = 4 then Some BondStandaloneKeyboardLeds
      else if b = 5 then Some BondMouseMetadata
      else if b = 6 then Some BondMouseSimulatedSleepV1
      else if b = 7 then Some BondMouseHostInitiatedSecurity
      else None)"

fun association_profile :: "bond_class option \<Rightarrow> profile_definition option" where
  "association_profile (Some BondStandaloneMouseJustWorksId7) = Some kStandaloneMouseJustWorksId7"
| "association_profile (Some BondStrictComposite) = Some kStrictComposite"
| "association_profile (Some BondMouseMetadata) = Some kMouseMetadata"
| "association_profile (Some BondStandaloneKeyboardLeds) = Some kStandaloneKeyboardLeds"
| "association_profile (Some BondStandaloneKeyboard) = Some kStandaloneKeyboard"
| "association_profile (Some BondStandaloneMouseJustWorks) = Some kStandaloneMouseJustWorks"
| "association_profile (Some BondMouseSimulatedSleepV1) = Some kMouseSimulatedSleepV1"
| "association_profile (Some BondMouseHostInitiatedSecurity) = Some kMouseHostInitiatedSecurity"
| "association_profile None = None"

definition encode_association :: "association \<Rightarrow> u32" where
  "encode_association r =
     0xa5010000 OR push_bit 8 (ucast (bond_class_code (as_class r))) OR ucast (association_state_code (as_state r))"

definition decode_association :: "u32 \<Rightarrow> association" where
  "decode_association v =
     (let state = code_association_state (ucast (v AND 0xff));
          cls = code_bond_class (ucast (drop_bit 8 v AND 0xff))
      in if v AND 0xffff0000 \<noteq> 0xa5010000 \<or> (state \<noteq> AsPending \<and> state \<noteq> AsComplete)
            \<or> cls = Some BondStrictComposite \<or> association_profile cls = None
         then association_default\<lparr>as_state := AsInvalid\<rparr>
         else case cls of None \<Rightarrow> association_default\<lparr>as_state := AsInvalid\<rparr>
              | Some c \<Rightarrow> \<lparr>as_state = state, as_class = c\<rparr>)"

section \<open>Decisions\<close>

datatype association_decision = AssocAllowed | AssocIncompatible | AssocIncomplete | AssocStorageFailure

definition association_compatibility :: "association \<Rightarrow> bond_class \<Rightarrow> association_decision" where
  "association_compatibility r selected =
     (if association_profile (Some selected) = None \<or> as_state r = AsInvalid then AssocStorageFailure
      else if as_state r = AsPending then AssocIncomplete
      else let retained = (if as_state r = AsMissing then BondStrictComposite else as_class r)
           in if retained = selected then AssocAllowed else AssocIncompatible)"

record association_creation =
  cr_connection :: u64
  cr_peer :: peer
  cr_class :: bond_class

definition creation_none :: association_creation where
  "creation_none = \<lparr>cr_connection = 0, cr_peer = replicate 7 0, cr_class = BondStrictComposite\<rparr>"

definition creation_owns :: "u64 \<Rightarrow> peer \<Rightarrow> bond_class \<Rightarrow> association_creation \<Rightarrow> bool" where
  "creation_owns i key selected c \<longleftrightarrow>
     i \<noteq> 0 \<and> cr_connection c = i \<and> cr_peer c = key \<and> cr_class c = selected"

definition creation_retire :: "association_creation \<Rightarrow> association_creation" where
  "creation_retire c = creation_none"

text \<open>The calls of a store, with their answers.\<close>

datatype store_call =
    StRead peer int association
  | StProveAbsent peer int
  | StWrite peer association int
  | StPair peer int persisted_evidence

record store =
  st_read :: "store_call list \<Rightarrow> peer \<Rightarrow> int \<times> association"
  st_absent :: "store_call list \<Rightarrow> peer \<Rightarrow> int"
  st_write :: "store_call list \<Rightarrow> peer \<Rightarrow> association \<Rightarrow> int"
  st_pair :: "store_call list \<Rightarrow> peer \<Rightarrow> int \<times> persisted_evidence"

definition store_read :: "store \<Rightarrow> peer \<Rightarrow> store_call list \<Rightarrow> (int \<times> association) \<times> store_call list" where
  "store_read st p log = (let (status, r) = st_read st log p in ((status, r), log @ [StRead p status r]))"

definition store_write :: "store \<Rightarrow> peer \<Rightarrow> association \<Rightarrow> store_call list \<Rightarrow> int \<times> store_call list" where
  "store_write st p r log = (let status = st_write st log p r in (status, log @ [StWrite p r status]))"

text \<open>Write a record and read it back.\<close>

definition write_verified :: "store \<Rightarrow> peer \<Rightarrow> association \<Rightarrow> store_call list \<Rightarrow> bool \<times> store_call list" where
  "write_verified st p r log =
     (let (status, log1) = store_write st p r log in
      if status \<noteq> 0 then (False, log1)
      else let ((status2, r2), log2) = store_read st p log1 in (status2 = 0 \<and> r2 = r, log2))"

definition prepare_association ::
  "store \<Rightarrow> association_creation \<Rightarrow> u64 \<Rightarrow> peer \<Rightarrow> bond_class \<Rightarrow> store_call list \<Rightarrow>
     association_decision \<times> association_creation \<times> store_call list" where
  "prepare_association st claim conn p selected log =
     (let ((status, r), log1) = store_read st p log in
      if status \<noteq> 0 \<or> as_state r = AsInvalid \<or> association_profile (Some selected) = None
      then (AssocStorageFailure, claim, log1)
      else if selected = BondStrictComposite then (association_compatibility r selected, claim, log1)
      else if creation_owns conn p selected claim then
        (if as_state r = AsComplete then AssocIncompatible
         else if as_class r = selected \<and> as_state r = AsPending then AssocAllowed
         else AssocStorageFailure, claim, log1)
      else if as_state r \<noteq> AsMissing then
        (if as_state r = AsPending then AssocIncomplete else AssocIncompatible, claim, log1)
      else if conn = 0 \<or> cr_connection claim \<noteq> 0 then (AssocIncomplete, claim, log1)
      else
        (let absent = st_absent st log1 p; log2 = log1 @ [StProveAbsent p absent] in
         if absent < 0 then (AssocStorageFailure, claim, log2)
         else if absent = 0 then (AssocIncompatible, claim, log2)
         else
           (let (ok, log3) = write_verified st p \<lparr>as_state = AsPending, as_class = selected\<rparr> log2 in
            if \<not> ok then (AssocStorageFailure, claim, log3)
            else (AssocAllowed, \<lparr>cr_connection = conn, cr_peer = p, cr_class = selected\<rparr>, log3))))"

definition complete_association ::
  "store \<Rightarrow> association_creation \<Rightarrow> u64 \<Rightarrow> peer \<Rightarrow> bond_class \<Rightarrow> store_call list \<Rightarrow>
     association_decision \<times> store_call list" where
  "complete_association st claim conn p selected log =
     (if selected = BondStrictComposite then (AssocAllowed, log)
      else if \<not> creation_owns conn p selected claim then (AssocIncomplete, log)
      else
        (let ((status, r), log1) = store_read st p log in
         if status \<noteq> 0 \<or> as_class r \<noteq> selected \<or> (as_state r \<noteq> AsPending \<and> as_state r \<noteq> AsComplete)
         then (AssocStorageFailure, log1)
         else
           (let (pstatus, per) = st_pair st log1 p; log2 = log1 @ [StPair p pstatus per] in
            if pstatus \<noteq> 0 then (AssocStorageFailure, log2)
            else if \<not> sr_found (our_record per) \<or> \<not> sr_found (peer_record per)
            then (if as_state r = AsPending then AssocAllowed else AssocStorageFailure, log2)
            else case association_profile (Some selected) of
              None \<Rightarrow> (AssocStorageFailure, log2)
            | Some d \<Rightarrow>
                if \<not> persisted_bond_is_valid per (prof_id d) then (AssocStorageFailure, log2)
                else if as_state r = AsComplete then (AssocAllowed, log2)
                else
                  (let (ok, log3) = write_verified st p \<lparr>as_state = AsComplete, as_class = selected\<rparr> log2
                   in (if ok then AssocAllowed else AssocStorageFailure, log3)))))"

section \<open>The encoding\<close>

lemma code_association_state_round:
  "code_association_state b = s \<and> s \<in> {AsPending, AsComplete} \<longleftrightarrow>
     b = association_state_code s \<and> s \<in> {AsPending, AsComplete}"
  by (auto simp: code_association_state_def)

lemma code_bond_class_round: "code_bond_class b = Some c \<longleftrightarrow> b = bond_class_code c"
  by (cases c) (auto simp: code_bond_class_def)

lemma association_profile_some [simp]: "association_profile (Some c) \<noteq> None"
  by (cases c) auto

lemma association_profile_class: "association_profile (Some c) = Some d \<Longrightarrow> prof_bond_class d = c"
  by (cases c) (auto simp: profile_defs)

definition association_magic :: u32 where "association_magic = 0xa5010000"

definition low_bytes :: "u8 \<Rightarrow> u8 \<Rightarrow> u32" where
  "low_bytes c b = association_magic OR push_bit 8 (ucast c) OR ucast b"

lemma association_masks:
  "(0xff :: u32) = mask 8" "(0xffff0000 :: u32) = NOT (mask 16)"
  by (simp_all add: mask_eq_exp_minus_1)

lemma bit_association_magic: "bit association_magic n \<Longrightarrow> 16 \<le> n"
proof -
  have "association_magic = push_bit 16 0xa501" by (simp add: association_magic_def push_bit_eq_mult)
  moreover assume "bit association_magic n"
  ultimately have "bit (push_bit 16 0xa501 :: u32) n" by (simp only:)
  then show "16 \<le> n" by (simp only: bit_push_bit_iff)
qed

lemma bit_low_bytes:
  "bit (low_bytes c b) n \<longleftrightarrow>
     bit association_magic n \<or> 8 \<le> n \<and> n < 16 \<and> bit c (n - 8) \<or> n < 8 \<and> bit b n"
proof -
  have "bit c (n - 8) \<Longrightarrow> n < 16" "bit b n \<Longrightarrow> n < 8" if "8 \<le> n \<or> True"
    by (auto dest: bit_imp_le_length)
  then show ?thesis
    by (auto simp: low_bytes_def bit_or_iff bit_push_bit_iff bit_ucast_iff)
qed

lemma low_bytes_fields:
  "ucast (low_bytes c b AND 0xff) = b"
  "ucast (drop_bit 8 (low_bytes c b) AND 0xff) = c"
  "low_bytes c b AND 0xffff0000 = association_magic"
proof -
  show "ucast (low_bytes c b AND 0xff) = b" unfolding association_masks
    by (rule bit_word_eqI)
      (auto simp: bit_low_bytes bit_ucast_iff bit_and_iff bit_mask_iff dest: bit_association_magic)
  show "ucast (drop_bit 8 (low_bytes c b) AND 0xff) = c" unfolding association_masks
    by (rule bit_word_eqI)
      (auto simp: bit_low_bytes bit_ucast_iff bit_and_iff bit_mask_iff bit_drop_bit_eq dest: bit_association_magic)
  show "low_bytes c b AND 0xffff0000 = association_magic" unfolding association_masks
    by (rule bit_word_eqI)
      (auto simp: bit_low_bytes bit_and_iff bit_mask_iff bit_not_iff dest: bit_association_magic)
qed

lemma low_bytes_only:
  assumes "v AND 0xffff0000 = association_magic"
  shows "v = low_bytes (ucast (drop_bit 8 v AND 0xff)) (ucast (v AND 0xff))"
proof (rule bit_word_eqI)
  fix n assume n: "n < LENGTH(32)"
  have "bit (v AND NOT (mask 16)) n = bit association_magic n"
    using assms unfolding association_masks by simp
  then show "bit v n = bit (low_bytes (ucast (drop_bit 8 v AND 0xff)) (ucast (v AND 0xff))) n"
    using n unfolding association_masks
    by (auto simp: bit_low_bytes bit_and_iff bit_not_iff bit_mask_iff bit_ucast_iff bit_drop_bit_eq
        not_less dest: bit_association_magic)
qed

lemma encode_low_bytes:
  "encode_association r = low_bytes (bond_class_code (as_class r)) (association_state_code (as_state r))"
  by (simp add: encode_association_def low_bytes_def association_magic_def)

lemma decode_iff:
  "decode_association v = r \<and> as_state r \<noteq> AsInvalid \<longleftrightarrow>
     v = encode_association r \<and> as_state r \<in> {AsPending, AsComplete} \<and> as_class r \<noteq> BondStrictComposite"
proof
  assume d: "decode_association v = r \<and> as_state r \<noteq> AsInvalid"
  let ?c = "code_bond_class (ucast (drop_bit 8 v AND 0xff))"
  let ?s = "code_association_state (ucast (v AND 0xff))"
  have ok: "v AND 0xffff0000 = association_magic" "?s \<in> {AsPending, AsComplete}" "?c \<noteq> Some BondStrictComposite"
    and "association_profile ?c \<noteq> None"
    using d by (auto simp: decode_association_def association_magic_def Let_def split: if_splits)
  then obtain c where c: "?c = Some c" by (cases ?c) auto
  then have r: "r = \<lparr>as_state = ?s, as_class = c\<rparr>"
    using d ok by (auto simp: decode_association_def association_magic_def Let_def)
  have "ucast (drop_bit 8 v AND 0xff) = bond_class_code c" using c by (simp add: code_bond_class_round)
  moreover have "ucast (v AND 0xff) = association_state_code ?s"
    using code_association_state_round ok(2) by blast
  ultimately have "v = encode_association r"
    using low_bytes_only [OF ok(1)] r by (simp add: encode_low_bytes)
  then show "v = encode_association r \<and> as_state r \<in> {AsPending, AsComplete} \<and> as_class r \<noteq> BondStrictComposite"
    using r ok c by auto
next
  assume e: "v = encode_association r \<and> as_state r \<in> {AsPending, AsComplete} \<and> as_class r \<noteq> BondStrictComposite"
  have "code_association_state (ucast (v AND 0xff)) = as_state r"
    using e code_association_state_round [of "association_state_code (as_state r)" "as_state r"]
    by (simp add: encode_low_bytes low_bytes_fields)
  moreover have "code_bond_class (ucast (drop_bit 8 v AND 0xff)) = Some (as_class r)"
    using e by (simp add: encode_low_bytes low_bytes_fields code_bond_class_round)
  moreover have "v AND 0xffff0000 = association_magic" using e by (simp add: encode_low_bytes low_bytes_fields)
  ultimately show "decode_association v = r \<and> as_state r \<noteq> AsInvalid"
    using e by (auto simp: decode_association_def association_magic_def Let_def)
qed

section \<open>Properties\<close>

text \<open>
  C31: A stored word decodes to a valid record exactly when it is the encoding of that record, and
  only pending and complete records of a class other than the composite one are valid; every other
  word decodes to the invalid record.
\<close>

theorem association_roundtrip:
  "decode_association v = r \<and> as_state r \<noteq> AsInvalid \<longleftrightarrow>
     v = encode_association r \<and> as_state r \<in> {AsPending, AsComplete} \<and> as_class r \<noteq> BondStrictComposite"
  by (rule decode_iff)

text \<open>What a store was asked when a claim for a class other than the composite one was allowed.\<close>

definition fresh_claim_calls :: "peer \<Rightarrow> bond_class \<Rightarrow> store_call list \<Rightarrow> bool" where
  "fresh_claim_calls p selected calls \<longleftrightarrow>
     (\<exists>r absent. as_state r = AsMissing \<and> 0 < absent \<and>
        calls = [StRead p 0 r, StProveAbsent p absent, StWrite p \<lparr>as_state = AsPending, as_class = selected\<rparr> 0,
                 StRead p 0 \<lparr>as_state = AsPending, as_class = selected\<rparr>])"

definition owned_claim_calls :: "peer \<Rightarrow> bond_class \<Rightarrow> store_call list \<Rightarrow> bool" where
  "owned_claim_calls p selected calls \<longleftrightarrow>
     calls = [StRead p 0 \<lparr>as_state = AsPending, as_class = selected\<rparr>]"

lemma prepare_allowed:
  assumes "prepare_association st claim conn p selected log = (AssocAllowed, claim', log')"
    and "selected \<noteq> BondStrictComposite"
  shows "\<exists>calls. log' = log @ calls \<and> creation_owns conn p selected claim'
    \<and> (claim' = claim \<and> owned_claim_calls p selected calls
       \<or> cr_connection claim = 0 \<and> fresh_claim_calls p selected calls)"
proof -
  obtain status r where rd: "st_read st log p = (status, r)" by fastforce
  let ?pend = "\<lparr>as_state = AsPending, as_class = selected\<rparr>"
  have status: "status = 0" "as_state r \<noteq> AsInvalid"
    using assms by (auto simp: prepare_association_def store_read_def rd split: if_splits)
  show ?thesis
  proof (cases "creation_owns conn p selected claim")
    case True
    then have "r = ?pend" "claim' = claim" "log' = log @ [StRead p 0 r]"
      using assms status by (cases r; auto simp: prepare_association_def store_read_def rd split: if_splits)+
    then show ?thesis using True by (auto simp: owned_claim_calls_def)
  next
    case False
    define log1 where "log1 = log @ [StRead p 0 r]"
    define absent where "absent = st_absent st log1 p"
    define log2 where "log2 = log1 @ [StProveAbsent p absent]"
    obtain ok log3 where wv: "write_verified st p ?pend log2 = (ok, log3)" by fastforce
    have m: "as_state r = AsMissing" "conn \<noteq> 0" "cr_connection claim = 0" "0 < absent" "ok"
      "claim' = \<lparr>cr_connection = conn, cr_peer = p, cr_class = selected\<rparr>" "log' = log3"
      using assms False status
      by (auto simp: prepare_association_def store_read_def rd Let_def wv log1_def [symmetric]
          absent_def [symmetric] log2_def [symmetric] split: if_splits)
    have "log3 = log2 @ [StWrite p ?pend 0, StRead p 0 ?pend]"
      using wv m(5) by (auto simp: write_verified_def store_write_def store_read_def Let_def
          split: prod.splits if_splits)
    then have "log' = log @ [StRead p 0 r, StProveAbsent p absent, StWrite p ?pend 0, StRead p 0 ?pend]"
      using m by (simp add: log2_def log1_def)
    then show ?thesis using m by (auto simp: creation_owns_def fresh_claim_calls_def)
  qed
qed

text \<open>What a store was asked when a completion was allowed: nothing durable yet, or a valid pair.\<close>

definition complete_calls :: "peer \<Rightarrow> bond_class \<Rightarrow> store_call list \<Rightarrow> bool" where
  "complete_calls p selected calls \<longleftrightarrow>
     (\<exists>r per d. as_class r = selected \<and> association_profile (Some selected) = Some d \<and>
        (let begun = [StRead p 0 r, StPair p 0 per];
             final = \<lparr>as_state = AsComplete, as_class = selected\<rparr>;
             both = sr_found (our_record per) \<and> sr_found (peer_record per)
         in as_state r = AsPending \<and> \<not> both \<and> calls = begun
            \<or> as_state r = AsComplete \<and> both \<and> persisted_bond_is_valid per (prof_id d) \<and> calls = begun
            \<or> as_state r = AsPending \<and> both \<and> persisted_bond_is_valid per (prof_id d)
              \<and> calls = begun @ [StWrite p final 0, StRead p 0 final]))"

lemma complete_allowed:
  assumes "complete_association st claim conn p selected log = (AssocAllowed, log')"
    and "selected \<noteq> BondStrictComposite"
  shows "creation_owns conn p selected claim \<and> (\<exists>calls. log' = log @ calls \<and> complete_calls p selected calls)"
proof -
  have own: "creation_owns conn p selected claim"
    using assms by (auto simp: complete_association_def split: if_splits)
  obtain status r where rd: "st_read st log p = (status, r)" by fastforce
  have r: "status = 0" "as_class r = selected" "as_state r = AsPending \<or> as_state r = AsComplete"
    using assms own by (auto simp: complete_association_def store_read_def rd split: if_splits)
  define log1 where "log1 = log @ [StRead p 0 r]"
  obtain pstatus per where pr: "st_pair st log1 p = (pstatus, per)" by fastforce
  define log2 where "log2 = log1 @ [StPair p pstatus per]"
  let ?final = "\<lparr>as_state = AsComplete, as_class = selected\<rparr>"
  obtain ok log3 where wv: "write_verified st p ?final log2 = (ok, log3)" by fastforce
  obtain d where d: "association_profile (Some selected) = Some d" by (cases "association_profile (Some selected)") auto
  let ?both = "sr_found (our_record per) \<and> sr_found (peer_record per)"
  have "complete_association st claim conn p selected log =
     (if pstatus \<noteq> 0 then (AssocStorageFailure, log2)
      else if \<not> ?both
      then (if as_state r = AsPending then AssocAllowed else AssocStorageFailure, log2)
      else if \<not> persisted_bond_is_valid per (prof_id d) then (AssocStorageFailure, log2)
      else if as_state r = AsComplete then (AssocAllowed, log2)
      else (if ok then AssocAllowed else AssocStorageFailure, log3))"
    using assms(2) own r wv d pr
    by (auto simp: complete_association_def store_read_def rd log2_def log1_def)
  then have res: "pstatus = 0"
    "\<not> ?both \<and> as_state r = AsPending \<and> log' = log2
     \<or> ?both \<and> persisted_bond_is_valid per (prof_id d) \<and> as_state r = AsComplete \<and> log' = log2
     \<or> ?both \<and> persisted_bond_is_valid per (prof_id d) \<and> as_state r = AsPending \<and> ok \<and> log' = log3"
    using assms(1) r(3) by (auto split: if_splits)
  have log3: "ok \<Longrightarrow> log3 = log2 @ [StWrite p ?final 0, StRead p 0 ?final]"
    using wv by (auto simp: write_verified_def store_write_def store_read_def Let_def split: prod.splits if_splits)
  have l2: "log2 = log @ [StRead p 0 r, StPair p 0 per]" by (simp add: log2_def log1_def res(1))
  have "\<exists>calls. log' = log @ calls \<and> complete_calls p selected calls"
    using res(2)
  proof (elim disjE conjE)
    assume "log' = log3" "ok" "as_state r = AsPending" "sr_found (our_record per)" "sr_found (peer_record per)"
      "persisted_bond_is_valid per (prof_id d)"
    then show ?thesis using r(2) d log3
      by (intro exI [of _ "[StRead p 0 r, StPair p 0 per, StWrite p ?final 0, StRead p 0 ?final]"])
        (auto simp: l2 complete_calls_def Let_def)
  qed (use r(2) d in \<open>auto simp: l2 complete_calls_def Let_def intro!: exI [of _ "[StRead p 0 r, StPair p 0 per]"]\<close>)+
  then show ?thesis using own by blast
qed


definition sample_bond :: stored_record where
  "sample_bond = \<lparr>sr_found = True, sr_identity_matches = True, sr_ltk_present = True,
     sr_authenticated = False, sr_secure_connections = True, sr_key_size = 16\<rparr>"

text \<open>A store that starts without a record and afterwards reads back what was written last.\<close>

fun last_written :: "association \<Rightarrow> store_call list \<Rightarrow> association" where
  "last_written r [] = r"
| "last_written r (StWrite p x status # xs) = last_written x xs"
| "last_written r (x # xs) = last_written r xs"

definition sample_store :: "association \<Rightarrow> store" where
  "sample_store r = \<lparr>st_read = (\<lambda>log p. (0, last_written r log)), st_absent = (\<lambda>log p. 1),
     st_write = (\<lambda>log p x. 0), st_pair = (\<lambda>log p. (0, \<lparr>our_record = sample_bond, peer_record = sample_bond\<rparr>))\<rparr>"


end
