(* ===== verification/ReleaseGrace.thy ===== *)
theory ReleaseGrace
  imports StopTransaction
begin

text \<open>
  \<open>ble_transport/route_release_grace_ownership.hpp\<close>: two timer slots shared by the tasks that arm and
  cancel the grace of a route release and by the timer callbacks. A slot's word packs an incarnation
  that is never reused with a state; every operation is a few atomic steps, which the events
  below interleave freely.
\<close>

section \<open>Slots\<close>

record release_identity =
  ri_authority_epoch :: u32
  ri_route_generation :: u32
  ri_profile_epoch :: u32
  ri_ble_generation :: u32
  ri_connection_handle :: u16
  ri_present_roles :: u8
  ri_subscriptions :: u8
  ri_handles :: "u16 list"
  ri_release_epoch :: u32

definition no_identity :: release_identity where
  "no_identity = \<lparr>ri_authority_epoch = 0, ri_route_generation = 0, ri_profile_epoch = 0,
     ri_ble_generation = 0, ri_connection_handle = 0xffff, ri_present_roles = 0, ri_subscriptions = 0,
     ri_handles = [0, 0, 0], ri_release_epoch = 0\<rparr>"

definition identities_equal :: "release_identity \<Rightarrow> release_identity \<Rightarrow> bool" where
  "identities_equal l r \<longleftrightarrow>
     ri_authority_epoch l = ri_authority_epoch r \<and> ri_route_generation l = ri_route_generation r
     \<and> ri_profile_epoch l = ri_profile_epoch r \<and> ri_ble_generation l = ri_ble_generation r
     \<and> ri_connection_handle l = ri_connection_handle r \<and> ri_present_roles l = ri_present_roles r
     \<and> ri_subscriptions l = ri_subscriptions r \<and> ri_handles l = ri_handles r
     \<and> ri_release_epoch l = ri_release_epoch r"

datatype slot_state = SlotIdle | SlotArming | SlotArmed | SlotCanceling | SlotAwaitingCallback
  | SlotCallbackObserved | SlotCallbackOwned | SlotOther u8

fun slot_code :: "slot_state \<Rightarrow> u8" where
  "slot_code SlotIdle = 0"
| "slot_code SlotArming = 1"
| "slot_code SlotArmed = 2"
| "slot_code SlotCanceling = 3"
| "slot_code SlotAwaitingCallback = 4"
| "slot_code SlotCallbackObserved = 5"
| "slot_code SlotCallbackOwned = 6"
| "slot_code (SlotOther b) = b"

definition code_slot :: "u8 \<Rightarrow> slot_state" where
  "code_slot b = (if b = 0 then SlotIdle else if b = 1 then SlotArming else if b = 2 then SlotArmed
     else if b = 3 then SlotCanceling else if b = 4 then SlotAwaitingCallback
     else if b = 5 then SlotCallbackObserved else if b = 6 then SlotCallbackOwned else SlotOther b)"

definition kSlotCount :: nat where "kSlotCount = 2"

definition kStateMask :: u64 where "kStateMask = 0xff"

definition kMaxIncarnation :: u64 where "kMaxIncarnation = drop_bit 8 (- 1)"

definition slot_pack :: "u64 \<Rightarrow> slot_state \<Rightarrow> u64" where
  "slot_pack n st = push_bit 8 n OR ucast (slot_code st)"

definition state_of :: "u64 \<Rightarrow> slot_state" where
  "state_of w = code_slot (ucast (w AND kStateMask))"

definition with_state :: "u64 \<Rightarrow> slot_state \<Rightarrow> u64" where
  "with_state w st = (w AND NOT kStateMask) OR ucast (slot_code st)"

record slot =
  ownership :: u64
  slot_identity :: release_identity

record grace =
  slots :: "slot list"
  next_incarnation :: u64
  next_slot :: nat

definition grace_init :: grace where
  "grace_init = \<lparr>slots = replicate kSlotCount \<lparr>ownership = slot_pack 0 SlotIdle, slot_identity = no_identity\<rparr>,
     next_incarnation = 1, next_slot = 0\<rparr>"

definition word_at :: "nat \<Rightarrow> grace \<Rightarrow> u64" where
  "word_at i s = ownership (slots s ! i)"

definition put_word :: "nat \<Rightarrow> u64 \<Rightarrow> grace \<Rightarrow> grace" where
  "put_word i w s = s\<lparr>slots := (slots s)[i := (slots s ! i)\<lparr>ownership := w\<rparr>]\<rparr>"

definition put_identity :: "nat \<Rightarrow> release_identity \<Rightarrow> grace \<Rightarrow> grace" where
  "put_identity i r s = s\<lparr>slots := (slots s)[i := (slots s ! i)\<lparr>slot_identity := r\<rparr>]\<rparr>"

text \<open>A compare-exchange of the word of a slot.\<close>

definition cas_word :: "nat \<Rightarrow> u64 \<Rightarrow> u64 \<Rightarrow> grace \<Rightarrow> bool \<times> grace" where
  "cas_word i expected desired s =
     (if word_at i s = expected then (True, put_word i desired s) else (False, s))"

section \<open>Operations\<close>

definition allocate_incarnation :: "grace \<Rightarrow> u64 \<times> grace" where
  "allocate_incarnation s =
     (let n = next_incarnation s in
      if n \<noteq> 0 \<and> n \<le> kMaxIncarnation
      then (n, s\<lparr>next_incarnation := if n = kMaxIncarnation then 0 else n + 1\<rparr>)
      else (0, s))"

text \<open>
  \<open>begin_arm\<close> at one slot, in its two parts: the reservation, whose exchange fails when
  another task was faster (\<open>lost\<close>), and the publication of the identity and the armed word.
\<close>

datatype arm_attempt = ArmBusy | ArmExhausted | ArmLost | ArmReserved u64

definition arm_reserve :: "bool \<Rightarrow> nat \<Rightarrow> grace \<Rightarrow> arm_attempt \<times> grace" where
  "arm_reserve lost i s =
     (let observed = word_at i s in
      if state_of observed \<noteq> SlotIdle then (ArmBusy, s)
      else
        (let (n, s1) = allocate_incarnation s in
         if n = 0 then (ArmExhausted, s1)
         else if lost then (ArmLost, s1)
         else
           (let (ok, s2) = cas_word i observed (slot_pack n SlotArming) s1
            in (if ok then ArmReserved n else ArmLost, s2))))"

definition arm_publish :: "nat \<Rightarrow> u64 \<Rightarrow> release_identity \<Rightarrow> grace \<Rightarrow> grace" where
  "arm_publish i n r s = put_word i (slot_pack n SlotArmed) (put_identity i r s)"

text \<open>The whole call of a task that no other task disturbs: a claim is a slot and its word.\<close>

fun arm_from :: "nat \<Rightarrow> nat \<Rightarrow> release_identity \<Rightarrow> grace \<Rightarrow> (nat \<times> u64) option \<times> grace" where
  "arm_from first 0 r s = (None, s)"
| "arm_from first (Suc left) r s =
     (let i = (first + (kSlotCount - Suc left)) mod kSlotCount in
      case arm_reserve False i s of
        (ArmReserved n, s1) \<Rightarrow> (Some (i, slot_pack n SlotArmed), arm_publish i n r s1)
      | (ArmExhausted, s1) \<Rightarrow> (None, s1)
      | (_, s1) \<Rightarrow> arm_from first left r s1)"

definition begin_arm :: "release_identity \<Rightarrow> grace \<Rightarrow> (nat \<times> u64) option \<times> grace" where
  "begin_arm r s = arm_from (next_slot s mod kSlotCount) kSlotCount r (s\<lparr>next_slot := next_slot s + 1\<rparr>)"

definition abort_arm :: "(nat \<times> u64) option \<Rightarrow> grace \<Rightarrow> grace" where
  "abort_arm claim s =
     (case claim of
        None \<Rightarrow> s
      | Some (i, w) \<Rightarrow> snd (cas_word i w (with_state w SlotIdle) s))"

definition cancel_at :: "release_identity \<Rightarrow> nat \<Rightarrow> grace \<Rightarrow> (nat \<times> u64) option \<times> grace" where
  "cancel_at r i s =
     (let observed = word_at i s in
      if state_of observed \<noteq> SlotArmed \<or> \<not> identities_equal (slot_identity (slots s ! i)) r then (None, s)
      else
        (let canceling = with_state observed SlotCanceling; (ok, s1) = cas_word i observed canceling s
         in (if ok then Some (i, canceling) else None, s1)))"

definition begin_cancel :: "release_identity \<Rightarrow> grace \<Rightarrow> (nat \<times> u64) option \<times> grace" where
  "begin_cancel r s =
     (case cancel_at r 0 s of
        (Some claim, s1) \<Rightarrow> (Some claim, s1)
      | (None, s1) \<Rightarrow> cancel_at r 1 s1)"

definition finish_cancel :: "(nat \<times> u64) option \<Rightarrow> bool \<Rightarrow> grace \<Rightarrow> grace" where
  "finish_cancel claim stopped s =
     (case claim of
        None \<Rightarrow> s
      | Some (i, w) \<Rightarrow>
          (let idle = with_state w SlotIdle in
           if stopped then snd (cas_word i w idle s)
           else
             (let (ok, s1) = cas_word i w (with_state w SlotAwaitingCallback) s in
              if ok then s1
              else snd (cas_word i (with_state w SlotCallbackObserved) idle s1))))"

text \<open>
  \<open>begin_callback\<close>: the exchange that takes an armed slot or settles a cancelled one, and, for a
  taken slot, the read of its identity and its release. A failed exchange starts over.
\<close>

datatype callback_result = CallbackIgnore | CallbackSuppressed | CallbackTaken u64

definition callback_take :: "nat \<Rightarrow> grace \<Rightarrow> callback_result \<times> grace" where
  "callback_take i s =
     (if i \<ge> kSlotCount then (CallbackIgnore, s)
      else
        (let observed = word_at i s in
         case state_of observed of
           SlotArmed \<Rightarrow>
             (let owned = with_state observed SlotCallbackOwned
              in (CallbackTaken owned, put_word i owned s))
         | SlotCanceling \<Rightarrow>
             (CallbackSuppressed, put_word i (with_state observed SlotCallbackObserved) s)
         | SlotAwaitingCallback \<Rightarrow> (CallbackSuppressed, put_word i (with_state observed SlotIdle) s)
         | _ \<Rightarrow> (CallbackIgnore, s)))"

definition callback_release :: "nat \<Rightarrow> u64 \<Rightarrow> grace \<Rightarrow> release_identity \<times> grace" where
  "callback_release i owned s =
     (slot_identity (slots s ! i), put_word i (with_state owned SlotIdle) s)"

datatype callback_claim = ClaimIgnore | ClaimSuppressed | ClaimSignal release_identity

definition begin_callback :: "nat \<Rightarrow> grace \<Rightarrow> callback_claim \<times> grace" where
  "begin_callback i s =
     (case callback_take i s of
        (CallbackIgnore, s1) \<Rightarrow> (ClaimIgnore, s1)
      | (CallbackSuppressed, s1) \<Rightarrow> (ClaimSuppressed, s1)
      | (CallbackTaken owned, s1) \<Rightarrow>
          (let (r, s2) = callback_release i owned s1 in (ClaimSignal r, s2)))"

definition all_idle :: "grace \<Rightarrow> bool" where
  "all_idle s \<longleftrightarrow> length (filter (\<lambda>sl. state_of (ownership sl) = SlotIdle) (slots s)) = kSlotCount"

section \<open>The packed word\<close>

fun proper_slot :: "slot_state \<Rightarrow> bool" where
  "proper_slot (SlotOther b) \<longleftrightarrow> False"
| "proper_slot st \<longleftrightarrow> True"

lemma slot_round: "proper_slot st \<Longrightarrow> code_slot (slot_code st) = st"
  by (cases st) (auto simp: code_slot_def)

lemma kMaxIncarnation_id: "kMaxIncarnation = kMaxId"
  by (simp add: kMaxIncarnation_def kMaxId_def)

lemma kStateMask_mask: "kStateMask = mask 8"
  by (simp add: kStateMask_def mask_eq_exp_minus_1)

lemma slot_pack_bits: "bit (slot_pack n st) k = (if k < 8 then bit (slot_code st) k else k < 64 \<and> bit n (k - 8))"
  by (auto simp: slot_pack_def bit_or_iff bit_push_bit_iff bit_unsigned_iff dest: bit_imp_le_length)

lemma slot_pack_id [simp]: "n \<le> kMaxIncarnation \<Longrightarrow> drop_bit 8 (slot_pack n st) = n"
  unfolding kMaxIncarnation_id
  by (rule bit_word_eqI) (auto simp: bit_drop_bit_eq slot_pack_bits kMaxId_bits dest: bit_imp_le_length)

lemma slot_pack_state [simp]: "proper_slot st \<Longrightarrow> state_of (slot_pack n st) = st"
proof -
  assume p: "proper_slot st"
  have "ucast (slot_pack n st AND kStateMask) = slot_code st"
    unfolding kStateMask_mask
    by (rule bit_word_eqI) (auto simp: bit_ucast_iff bit_and_iff bit_mask_iff slot_pack_bits)
  then show ?thesis by (simp add: state_of_def slot_round p)
qed

lemma with_state_pack [simp]: "with_state (slot_pack n st) st' = slot_pack n st'"
  unfolding with_state_def kStateMask_mask
  by (rule bit_word_eqI)
    (auto simp: bit_or_iff bit_and_iff bit_not_iff bit_mask_iff slot_pack_bits bit_ucast_iff dest: bit_imp_le_length)

lemma slot_pack_inject:
  "n \<le> kMaxIncarnation \<Longrightarrow> m \<le> kMaxIncarnation \<Longrightarrow> proper_slot st \<Longrightarrow> proper_slot st' \<Longrightarrow>
     slot_pack n st = slot_pack m st' \<longleftrightarrow> n = m \<and> st = st'"
  by (metis slot_pack_id slot_pack_state)

section \<open>Interleavings\<close>

datatype grace_note =
    NArmed u64 release_identity
  | NAborted u64
  | NCanceled u64 release_identity
  | NSignaled u64 release_identity

text \<open>The slots, what the tasks hold between two of their steps, and the notes, the latest first.\<close>

record grace_run =
  gr_mem :: grace
  gr_reserved :: "(nat \<times> u64) list"
  gr_taken :: "(nat \<times> u64) list"
  gr_notes :: "grace_note list"

definition grace_start :: grace_run where
  "grace_start = \<lparr>gr_mem = grace_init, gr_reserved = [], gr_taken = [], gr_notes = []\<rparr>"

text \<open>Abort and cancel claims may be used at any time and more than once; \<open>n\<close> is the incarnation.\<close>

datatype grace_event =
    EReserve bool nat
  | EPublish nat u64 release_identity
  | EAbort nat u64
  | ECancel release_identity nat
  | EFinish nat u64 bool
  | ETake nat
  | ERelease nat u64

fun grace_step :: "grace_run \<Rightarrow> grace_event \<Rightarrow> grace_run" where
  "grace_step g (EReserve lost i) =
     (if i \<ge> kSlotCount then g
      else case arm_reserve lost i (gr_mem g) of
        (ArmReserved n, m) \<Rightarrow> g\<lparr>gr_mem := m, gr_reserved := (i, n) # gr_reserved g\<rparr>
      | (_, m) \<Rightarrow> g\<lparr>gr_mem := m\<rparr>)"
| "grace_step g (EPublish i n r) =
     (if (i, n) \<notin> set (gr_reserved g) then g
      else g\<lparr>gr_mem := arm_publish i n r (gr_mem g),
            gr_reserved := filter (\<lambda>x. x \<noteq> (i, n)) (gr_reserved g), gr_notes := NArmed n r # gr_notes g\<rparr>)"
| "grace_step g (EAbort i n) =
     (if i \<ge> kSlotCount \<or> n > kMaxIncarnation then g
      else g\<lparr>gr_mem := abort_arm (Some (i, slot_pack n SlotArmed)) (gr_mem g),
            gr_notes := (if word_at i (gr_mem g) = slot_pack n SlotArmed then [NAborted n] else []) @ gr_notes g\<rparr>)"
| "grace_step g (ECancel r i) =
     (if i \<ge> kSlotCount then g
      else case cancel_at r i (gr_mem g) of
        (Some (j, w), m) \<Rightarrow> g\<lparr>gr_mem := m, gr_notes := NCanceled (drop_bit 8 w) r # gr_notes g\<rparr>
      | (None, m) \<Rightarrow> g\<lparr>gr_mem := m\<rparr>)"
| "grace_step g (EFinish i n stopped) =
     (if i \<ge> kSlotCount \<or> n > kMaxIncarnation then g
      else g\<lparr>gr_mem := finish_cancel (Some (i, slot_pack n SlotCanceling)) stopped (gr_mem g)\<rparr>)"
| "grace_step g (ETake i) =
     (case callback_take i (gr_mem g) of
        (CallbackTaken w, m) \<Rightarrow> g\<lparr>gr_mem := m, gr_taken := (i, drop_bit 8 w) # gr_taken g\<rparr>
      | (_, m) \<Rightarrow> g\<lparr>gr_mem := m\<rparr>)"
| "grace_step g (ERelease i n) =
     (if (i, n) \<notin> set (gr_taken g) then g
      else let (r, m) = callback_release i (slot_pack n SlotCallbackOwned) (gr_mem g)
           in g\<lparr>gr_mem := m, gr_taken := filter (\<lambda>x. x \<noteq> (i, n)) (gr_taken g),
                gr_notes := NSignaled n r # gr_notes g\<rparr>)"

text \<open>
  The order the notes have to have: an incarnation is armed once, is settled at most once, after
  it was armed, and a cancellation or signal carries the identity it was armed with.
\<close>

fun note_arms :: "u64 \<Rightarrow> grace_note \<Rightarrow> bool" where
  "note_arms n (NArmed m r) \<longleftrightarrow> m = n"
| "note_arms n _ \<longleftrightarrow> False"

fun note_settles :: "u64 \<Rightarrow> grace_note \<Rightarrow> bool" where
  "note_settles n (NArmed m r) \<longleftrightarrow> False"
| "note_settles n (NAborted m) \<longleftrightarrow> m = n"
| "note_settles n (NCanceled m r) \<longleftrightarrow> m = n"
| "note_settles n (NSignaled m r) \<longleftrightarrow> m = n"

fun notes_ok :: "grace_note list \<Rightarrow> bool" where
  "notes_ok [] \<longleftrightarrow> True"
| "notes_ok (NArmed n r # l) \<longleftrightarrow> \<not> list_ex (note_arms n) l \<and> notes_ok l"
| "notes_ok (NAborted n # l) \<longleftrightarrow> list_ex (note_arms n) l \<and> \<not> list_ex (note_settles n) l \<and> notes_ok l"
| "notes_ok (NCanceled n r # l) \<longleftrightarrow> NArmed n r \<in> set l \<and> \<not> list_ex (note_settles n) l \<and> notes_ok l"
| "notes_ok (NSignaled n r # l) \<longleftrightarrow> NArmed n r \<in> set l \<and> \<not> list_ex (note_settles n) l \<and> notes_ok l"

section \<open>Invariant\<close>

definition inc_at :: "nat \<Rightarrow> grace \<Rightarrow> u64" where "inc_at i s = drop_bit 8 (word_at i s)"

definition state_at :: "nat \<Rightarrow> grace \<Rightarrow> slot_state" where "state_at i s = state_of (word_at i s)"

definition older :: "u64 \<Rightarrow> u64 \<Rightarrow> bool" where "older n next \<longleftrightarrow> next = 0 \<or> n < next"

definition mem_ok :: "grace \<Rightarrow> bool" where
  "mem_ok s \<longleftrightarrow> length (slots s) = 2 \<and> next_incarnation s \<le> kMaxIncarnation
     \<and> (\<forall>i<2. word_at i s = slot_pack (inc_at i s) (state_at i s) \<and> proper_slot (state_at i s)
          \<and> inc_at i s \<le> kMaxIncarnation \<and> older (inc_at i s) (next_incarnation s)
          \<and> (state_at i s = SlotIdle \<or> inc_at i s \<noteq> 0))
     \<and> (inc_at 0 s \<noteq> inc_at 1 s \<or> inc_at 0 s = 0)"

definition owner_ok :: "grace_run \<Rightarrow> nat \<Rightarrow> bool" where
  "owner_ok g i \<longleftrightarrow>
     (let m = gr_mem g; n = inc_at i m; st = state_at i m; l = gr_notes g in
      (\<forall>k. (i, k) \<in> set (gr_reserved g) \<longleftrightarrow> st = SlotArming \<and> k = n)
      \<and> (\<forall>k. (i, k) \<in> set (gr_taken g) \<longleftrightarrow> st = SlotCallbackOwned \<and> k = n)
      \<and> (st = SlotArming \<longrightarrow> \<not> list_ex (note_arms n) l)
      \<and> (st = SlotArmed \<or> st = SlotCallbackOwned \<longrightarrow>
           NArmed n (slot_identity (slots m ! i)) \<in> set l \<and> \<not> list_ex (note_settles n) l))"

fun note_older :: "u64 \<Rightarrow> grace_note \<Rightarrow> bool" where
  "note_older next (NArmed n r) \<longleftrightarrow> older n next"
| "note_older next _ \<longleftrightarrow> True"

definition grace_inv :: "grace_run \<Rightarrow> bool" where
  "grace_inv g \<longleftrightarrow> mem_ok (gr_mem g) \<and> (\<forall>i<2. owner_ok g i)
     \<and> (\<forall>i k. (i, k) \<in> set (gr_reserved g) \<union> set (gr_taken g) \<longrightarrow> i < 2)
     \<and> list_all (note_older (next_incarnation (gr_mem g))) (gr_notes g) \<and> notes_ok (gr_notes g)"

lemma word_put [simp]:
  "i < length (slots s) \<Longrightarrow> word_at j (put_word i w s) = (if j = i then w else word_at j s)"
  "word_at j (put_identity i r s) = word_at j s"
  "length (slots (put_word i w s)) = length (slots s)"
  "length (slots (put_identity i r s)) = length (slots s)"
  "next_incarnation (put_word i w s) = next_incarnation s"
  "next_incarnation (put_identity i r s) = next_incarnation s"
  by (auto simp: word_at_def put_word_def put_identity_def nth_list_update)
    (metis list_update_beyond not_le nth_list_update_eq nth_list_update_neq slot.select_convs(1) slot.surjective slot.update_convs(2))

lemma identity_put [simp]:
  "slot_identity (slots (put_word i w s) ! j) = slot_identity (slots s ! j)"
  "i < length (slots s) \<Longrightarrow>
     slot_identity (slots (put_identity i r s) ! j) = (if j = i then r else slot_identity (slots s ! j))"
  by (auto simp: put_word_def put_identity_def nth_list_update)
    (metis list_update_beyond not_le nth_list_update_eq nth_list_update_neq slot.select_convs(2) slot.surjective slot.update_convs(1))

lemma mem_okD:
  assumes "mem_ok s" "i < 2"
  shows "length (slots s) = 2" "word_at i s = slot_pack (inc_at i s) (state_at i s)" "proper_slot (state_at i s)"
    "inc_at i s \<le> kMaxIncarnation" "older (inc_at i s) (next_incarnation s)"
    "state_at i s = SlotIdle \<or> inc_at i s \<noteq> 0"
  using assms by (auto simp: mem_ok_def)

lemma inc_distinct:
  "mem_ok s \<Longrightarrow> i < 2 \<Longrightarrow> j < 2 \<Longrightarrow> i \<noteq> j \<Longrightarrow> inc_at i s \<noteq> 0 \<Longrightarrow> inc_at j s \<noteq> inc_at i s"
  by (auto simp: mem_ok_def less_2_cases_iff)

text \<open>A new state for the same incarnation.\<close>

lemma put_state:
  assumes m: "mem_ok s" and i: "i < 2" and st: "proper_slot st'" "st' = SlotIdle \<or> inc_at i s \<noteq> 0"
  defines "s' \<equiv> put_word i (slot_pack (inc_at i s) st') s"
  shows "mem_ok s'" "inc_at j s' = inc_at j s" "state_at j s' = (if j = i then st' else state_at j s)"
proof -
  have len: "i < length (slots s)" using mem_okD(1) [OF m i] i by simp
  show inc: "inc_at j s' = inc_at j s" for j
    using mem_okD(4) [OF m i] by (simp add: s'_def inc_at_def len)
  show st': "state_at j s' = (if j = i then st' else state_at j s)" for j
    using st(1) by (simp add: s'_def state_at_def len)
  show "mem_ok s'"
    using m st i by (auto simp: mem_ok_def inc st') (auto simp: s'_def len)
qed

text \<open>A fresh incarnation.\<close>

lemma put_fresh:
  assumes m: "mem_ok s" and i: "i < 2" and n: "next_incarnation s = n" "n \<noteq> 0"
  defines "s' \<equiv> put_word i (slot_pack n SlotArming)
      (s\<lparr>next_incarnation := if n = kMaxIncarnation then 0 else n + 1\<rparr>)"
  shows "mem_ok s'" "inc_at j s' = (if j = i then n else inc_at j s)"
    "state_at j s' = (if j = i then SlotArming else state_at j s)"
    "older k n \<Longrightarrow> older k (next_incarnation s')" "older n (next_incarnation s')"
proof -
  have len: "i < length (slots s)" using mem_okD(1) [OF m i] i by simp
  have le: "n \<le> kMaxIncarnation" using m n by (simp add: mem_ok_def)
  have wa: "word_at j (s\<lparr>next_incarnation := k\<rparr>) = word_at j s" for j k by (simp add: word_at_def)
  show inc: "inc_at j s' = (if j = i then n else inc_at j s)" for j
    using le by (simp add: s'_def inc_at_def len wa)
  show st: "state_at j s' = (if j = i then SlotArming else state_at j s)" for j
    by (simp add: s'_def state_at_def len wa)
  have up: "n < n + 1 \<and> n + 1 \<le> kMaxIncarnation" if "n \<noteq> kMaxIncarnation"
    using that le word_next_le [of n kMaxIncarnation] by simp
  show o: "older k n \<Longrightarrow> older k (next_incarnation s')" for k
    using up n by (auto simp: s'_def older_def)
  show on: "older n (next_incarnation s')" using up by (auto simp: s'_def older_def)
  have old: "older (inc_at j s) n" if "j < 2" for j using mem_okD(5) [OF m that] n by simp
  have ne: "inc_at 0 s \<noteq> n" "inc_at 1 s \<noteq> n" using old [of 0] old [of 1] n(2) by (auto simp: older_def)
  have next': "next_incarnation s' \<le> kMaxIncarnation" using up by (auto simp: s'_def)
  have slot: "word_at j s' = slot_pack (inc_at j s') (state_at j s') \<and> proper_slot (state_at j s')
      \<and> inc_at j s' \<le> kMaxIncarnation \<and> older (inc_at j s') (next_incarnation s')
      \<and> (state_at j s' = SlotIdle \<or> inc_at j s' \<noteq> 0)" if j: "j < 2" for j
  proof (cases "j = i")
    case True
    then show ?thesis using le on n(2) by (simp add: inc st) (simp add: s'_def len)
  next
    case False
    then show ?thesis using mem_okD [OF m j] o [OF old [OF j]]
      by (simp add: inc st) (simp add: s'_def i wa)
  qed
  have "inc_at 0 s' \<noteq> inc_at 1 s' \<or> inc_at 0 s' = 0"
    using ne i m by (auto simp: inc less_2_cases_iff mem_ok_def)
  then show "mem_ok s'"
    unfolding mem_ok_def using slot next' mem_okD(1) [OF m i] by (simp add: s'_def)
qed

lemma older_fresh_arms:
  "list_all (note_older n) l \<Longrightarrow> n \<noteq> 0 \<Longrightarrow> \<not> list_ex (note_arms n) l"
proof (induction l)
  case (Cons x l)
  then show ?case by (cases x) (auto simp: older_def)
qed simp

lemma note_older_mono:
  "list_all (note_older n) l \<Longrightarrow> (\<And>k. older k n \<Longrightarrow> older k n') \<Longrightarrow> list_all (note_older n') l"
proof (induction l)
  case (Cons x l)
  then show ?case by (cases x) auto
qed simp

lemma arms_mem: "NArmed n r \<in> set l \<Longrightarrow> list_ex (note_arms n) l"
  by (induction l) auto

text \<open>
  A step that gives slot \<open>i\<close> the state \<open>st'\<close> under its old incarnation, with the given notes and
  pending claims.
\<close>

lemma settle_inv:
  assumes inv: "grace_inv g" and i: "i < 2"
    and st: "proper_slot st'" "st' \<noteq> SlotArming" "st' \<noteq> SlotArmed" "st' = SlotIdle \<or> inc_at i (gr_mem g) \<noteq> 0"
      "state_at i (gr_mem g) \<noteq> SlotArming"
    and mem: "gr_mem g' = put_word i (slot_pack (inc_at i (gr_mem g)) st') (gr_mem g)"
    and res: "gr_reserved g' = gr_reserved g"
    and taken: "\<And>j k. (j, k) \<in> set (gr_taken g') \<longleftrightarrow>
        (if j = i then st' = SlotCallbackOwned \<and> k = inc_at i (gr_mem g) else (j, k) \<in> set (gr_taken g))"
    and nts: "gr_notes g' = new @ gr_notes g"
      "\<forall>x\<in>set new. note_settles (inc_at i (gr_mem g)) x"
      "notes_ok (new @ gr_notes g)"
      "st' = SlotCallbackOwned \<Longrightarrow> new = [] \<and> state_at i (gr_mem g) = SlotArmed"
      "new = [] \<or> inc_at i (gr_mem g) \<noteq> 0"
  shows "grace_inv g'"
proof -
  let ?m = "gr_mem g" and ?n = "inc_at i (gr_mem g)"
  have mk: "mem_ok ?m" and own: "\<And>j. j < 2 \<Longrightarrow> owner_ok g j"
    and rng: "\<And>j k. (j, k) \<in> set (gr_reserved g) \<union> set (gr_taken g) \<Longrightarrow> j < 2"
    and old: "list_all (note_older (next_incarnation ?m)) (gr_notes g)"
    using inv by (auto simp: grace_inv_def)
  note p = put_state [OF mk i st(1,4)]
  have only: "\<not> note_arms k x \<and> note_older k' x" if "note_settles k'' x" for k k' k'' x
    using that by (cases x) auto
  have other: "\<not> note_settles k x" if "note_settles ?n x" "k \<noteq> ?n" for k x
    using that by (cases x) auto
  have new_old: "list_all (note_older (next_incarnation (gr_mem g'))) (gr_notes g')"
    using old nts(1,2) only by (auto simp: mem list_all_iff)
  have "owner_ok g' j" if j: "j < 2" for j
  proof (cases "j = i")
    case True
    have t: "(i, k) \<in> set (gr_taken g') \<longleftrightarrow> st' = SlotCallbackOwned \<and> k = ?n" for k
      using taken [of i k] by simp
    have st': "state_at i (gr_mem g') = st'" "inc_at i (gr_mem g') = ?n"
      "slot_identity (slots (gr_mem g') ! i) = slot_identity (slots ?m ! i)"
      by (simp_all add: mem p)
    have o: "\<forall>k. (i, k) \<notin> set (gr_reserved g)"
      "state_at i ?m = SlotArmed \<Longrightarrow>
        NArmed ?n (slot_identity (slots ?m ! i)) \<in> set (gr_notes g) \<and> \<not> list_ex (note_settles ?n) (gr_notes g)"
      using own [OF i] st(5) by (auto simp: owner_ok_def Let_def)
    show ?thesis
      unfolding True owner_ok_def Let_def st' t res
      using o st(2,3) nts(1,4) by auto
  next
    case False
    have t: "(j, k) \<in> set (gr_taken g') \<longleftrightarrow> (j, k) \<in> set (gr_taken g)" for k
      using taken [of j k] False by simp
    have d: "new = [] \<or> inc_at j ?m \<noteq> ?n"
      using inc_distinct [OF mk i j] False nts(5) by auto
    have a: "\<not> list_ex (note_arms (inc_at j ?m)) new" using nts(2) only by (auto simp: list_ex_iff)
    have s: "\<not> list_ex (note_settles (inc_at j ?m)) new" using nts(2) other d by (auto simp: list_ex_iff)
    show ?thesis
      using own [OF j] False nts(1)
      by (auto simp: owner_ok_def Let_def mem p a s t res)
  qed
  moreover have "j < 2" if "(j, k) \<in> set (gr_reserved g') \<union> set (gr_taken g')" for j k
    using that rng [of j k] taken [of j k] res i by (auto split: if_splits)
  ultimately show ?thesis
    using p(1) new_old nts(1,3) unfolding grace_inv_def by (auto simp: mem)
qed

text \<open>The cases of a step.\<close>

lemma inv_mem_only:
  assumes inv: "grace_inv g" and i: "i < 2" and st: "proper_slot st'"
    and from_to: "state_at i (gr_mem g) \<in> {SlotCanceling, SlotAwaitingCallback, SlotCallbackObserved}"
      "st' \<in> {SlotIdle, SlotAwaitingCallback, SlotCallbackObserved}"
  shows "grace_inv (g\<lparr>gr_mem := put_word i (slot_pack (inc_at i (gr_mem g)) st') (gr_mem g)\<rparr>)"
proof (rule settle_inv [where new = "[]", OF inv i st])
  have own: "owner_ok g i" and ok: "notes_ok (gr_notes g)" and mk: "mem_ok (gr_mem g)"
    using inv i by (auto simp: grace_inv_def)
  show "st' = SlotIdle \<or> inc_at i (gr_mem g) \<noteq> 0" using mem_okD(6) [OF mk i] from_to(1) by auto
  show "\<And>j k. ((j, k) \<in> set (gr_taken (g\<lparr>gr_mem := put_word i (slot_pack (inc_at i (gr_mem g)) st') (gr_mem g)\<rparr>)))
      = (if j = i then st' = SlotCallbackOwned \<and> k = inc_at i (gr_mem g) else (j, k) \<in> set (gr_taken g))"
    using own from_to by (auto simp: owner_ok_def Let_def)
qed (use from_to inv in \<open>auto simp: grace_inv_def\<close>)

lemma inv_settle_armed:
  assumes inv: "grace_inv g" and i: "i < 2" and st: "st' \<in> {SlotIdle, SlotCanceling}"
    and from_to: "state_at i (gr_mem g) = SlotArmed"
    and x: "x = NAborted (inc_at i (gr_mem g)) \<or>
      (\<exists>r. x = NCanceled (inc_at i (gr_mem g)) r \<and> r = slot_identity (slots (gr_mem g) ! i))"
  shows "grace_inv (g\<lparr>gr_mem := put_word i (slot_pack (inc_at i (gr_mem g)) st') (gr_mem g), gr_notes := x # gr_notes g\<rparr>)"
proof (rule settle_inv [where new = "[x]" and st' = st', OF inv i])
  have own: "owner_ok g i" and ok: "notes_ok (gr_notes g)" and mk: "mem_ok (gr_mem g)"
    using inv i by (auto simp: grace_inv_def)
  have nz: "inc_at i (gr_mem g) \<noteq> 0" using mem_okD(6) [OF mk i] from_to(1) by auto
  then show "st' = SlotIdle \<or> inc_at i (gr_mem g) \<noteq> 0" "[x] = [] \<or> inc_at i (gr_mem g) \<noteq> 0" by auto
  show "notes_ok ([x] @ gr_notes g)"
    using own x from_to ok arms_mem by (auto simp: owner_ok_def Let_def)
  show "\<And>j k. ((j, k) \<in> set (gr_taken (g\<lparr>gr_mem := put_word i (slot_pack (inc_at i (gr_mem g)) st') (gr_mem g),
        gr_notes := x # gr_notes g\<rparr>)))
      = (if j = i then st' = SlotCallbackOwned \<and> k = inc_at i (gr_mem g) else (j, k) \<in> set (gr_taken g))"
    using own from_to st by (auto simp: owner_ok_def Let_def)
qed (use st x from_to in auto)

lemma grace_invD:
  assumes "grace_inv g"
  shows "mem_ok (gr_mem g)" "i < 2 \<Longrightarrow> owner_ok g i"
    "(i, k) \<in> set (gr_reserved g) \<Longrightarrow> i < 2" "(i, k) \<in> set (gr_taken g) \<Longrightarrow> i < 2"
    "list_all (note_older (next_incarnation (gr_mem g))) (gr_notes g)" "notes_ok (gr_notes g)"
  using assms by (auto simp: grace_inv_def)

lemma owner_okD:
  assumes "owner_ok g i"
  shows "(i, k) \<in> set (gr_reserved g) \<longleftrightarrow> state_at i (gr_mem g) = SlotArming \<and> k = inc_at i (gr_mem g)"
    "(i, k) \<in> set (gr_taken g) \<longleftrightarrow> state_at i (gr_mem g) = SlotCallbackOwned \<and> k = inc_at i (gr_mem g)"
    "state_at i (gr_mem g) = SlotArming \<Longrightarrow> \<not> list_ex (note_arms (inc_at i (gr_mem g))) (gr_notes g)"
    "state_at i (gr_mem g) = SlotArmed \<or> state_at i (gr_mem g) = SlotCallbackOwned \<Longrightarrow>
       NArmed (inc_at i (gr_mem g)) (slot_identity (slots (gr_mem g) ! i)) \<in> set (gr_notes g)
       \<and> \<not> list_ex (note_settles (inc_at i (gr_mem g))) (gr_notes g)"
  using assms by (auto simp: owner_ok_def Let_def)

lemma word_is:
  "mem_ok s \<Longrightarrow> i < 2 \<Longrightarrow> n \<le> kMaxIncarnation \<Longrightarrow> proper_slot st \<Longrightarrow>
     word_at i s = slot_pack n st \<longleftrightarrow> inc_at i s = n \<and> state_at i s = st"
  using mem_okD(2,3,4) [of s i] by (metis slot_pack_inject)

lemma inv_next:
  assumes inv: "grace_inv g" and older: "\<And>k. older k (next_incarnation (gr_mem g)) \<Longrightarrow> older k n'"
    and le: "n' \<le> kMaxIncarnation"
  shows "grace_inv (g\<lparr>gr_mem := (gr_mem g)\<lparr>next_incarnation := n'\<rparr>\<rparr>)"
proof -
  have w: "word_at j ((gr_mem g)\<lparr>next_incarnation := n'\<rparr>) = word_at j (gr_mem g)" for j by (simp add: word_at_def)
  have "mem_ok ((gr_mem g)\<lparr>next_incarnation := n'\<rparr>)"
    using grace_invD(1) [OF inv] older le by (auto simp: mem_ok_def inc_at_def state_at_def w)
  moreover have "owner_ok (g\<lparr>gr_mem := (gr_mem g)\<lparr>next_incarnation := n'\<rparr>\<rparr>) j" if "j < 2" for j
    using grace_invD(2) [OF inv that] by (simp add: owner_ok_def inc_at_def state_at_def w Let_def)
  ultimately show ?thesis
    using inv note_older_mono [OF grace_invD(5) [OF inv] older] by (auto simp: grace_inv_def)
qed

lemma allocate_next:
  assumes "mem_ok s" "allocate_incarnation s = (n, s')"
  obtains n' where "s' = s\<lparr>next_incarnation := n'\<rparr>" "n' \<le> kMaxIncarnation"
    "\<And>k. older k (next_incarnation s) \<Longrightarrow> older k n'"
    "n \<noteq> 0 \<Longrightarrow> next_incarnation s = n \<and> n' = (if n = kMaxIncarnation then 0 else n + 1)"
proof (cases "next_incarnation s = 0 \<or> \<not> next_incarnation s \<le> kMaxIncarnation")
  case True
  then have "next_incarnation s = 0" using assms(1) by (auto simp: mem_ok_def)
  then show ?thesis using assms(2) that [of "next_incarnation s"]
    by (auto simp: allocate_incarnation_def)
next
  case False
  let ?n = "next_incarnation s"
  have up: "?n < ?n + 1 \<and> ?n + 1 \<le> kMaxIncarnation" if "?n \<noteq> kMaxIncarnation"
    using that False word_next_le [of ?n kMaxIncarnation] by (simp add: order_less_le)
  show ?thesis
    using assms(2) False up
    by (intro that [of "if ?n = kMaxIncarnation then 0 else ?n + 1"])
      (auto simp: allocate_incarnation_def Let_def older_def)
qed

lemma inv_reserve: "grace_inv g \<Longrightarrow> grace_inv (grace_step g (EReserve lost i))"
proof (cases "i < 2 \<and> state_at i (gr_mem g) = SlotIdle")
  case False
  then have "grace_step g (EReserve lost i) = g"
    by (simp add: arm_reserve_def kSlotCount_def state_at_def)
  then show "grace_inv g \<Longrightarrow> ?thesis" by simp
next
  case True
  assume inv: "grace_inv g"
  note mk = grace_invD(1) [OF inv]
  have i: "i < 2" and idle: "state_of (word_at i (gr_mem g)) = SlotIdle" using True by (auto simp: state_at_def)
  obtain n s' where al: "allocate_incarnation (gr_mem g) = (n, s')" by fastforce
  from allocate_next [OF mk al] obtain n' where n': "s' = (gr_mem g)\<lparr>next_incarnation := n'\<rparr>"
    "n' \<le> kMaxIncarnation" "\<And>k. older k (next_incarnation (gr_mem g)) \<Longrightarrow> older k n'"
    "n \<noteq> 0 \<Longrightarrow> next_incarnation (gr_mem g) = n \<and> n' = (if n = kMaxIncarnation then 0 else n + 1)" by blast
  show ?thesis
  proof (cases "n = 0 \<or> lost")
    case True
    then have "grace_step g (EReserve lost i) = g\<lparr>gr_mem := (gr_mem g)\<lparr>next_incarnation := n'\<rparr>\<rparr>"
      using i idle al n'(1) by (auto simp: arm_reserve_def Let_def kSlotCount_def)
    then show ?thesis using inv_next [OF inv n'(3,2)] by simp
  next
    case False
    let ?g' = "g\<lparr>gr_mem := put_word i (slot_pack n SlotArming)
        ((gr_mem g)\<lparr>next_incarnation := if n = kMaxIncarnation then 0 else n + 1\<rparr>), gr_reserved := (i, n) # gr_reserved g\<rparr>"
    have nx: "next_incarnation (gr_mem g) = n" "n \<noteq> 0" using n'(4) False by auto
    have "word_at i ((gr_mem g)\<lparr>next_incarnation := n'\<rparr>) = word_at i (gr_mem g)" by (simp add: word_at_def)
    then have step: "grace_step g (EReserve lost i) = ?g'"
      using i idle al n'(1,4) False by (auto simp: arm_reserve_def Let_def kSlotCount_def cas_word_def)
    note p = put_fresh [OF mk i nx]
    have fresh: "\<not> list_ex (note_arms n) (gr_notes g)"
      using older_fresh_arms [of n "gr_notes g"] grace_invD(5) [OF inv] nx by simp
    have "owner_ok ?g' j" if j: "j < 2" for j
      using grace_invD(2) [OF inv j] grace_invD(2) [OF inv i] True fresh
      by (cases "j = i") (auto simp: owner_ok_def Let_def p)
    moreover have "list_all (note_older (next_incarnation (gr_mem ?g'))) (gr_notes ?g')"
      using note_older_mono [OF grace_invD(5) [OF inv], unfolded nx(1), OF p(4)] by simp
    ultimately show ?thesis
      using p(1) i grace_invD(3,4,6) [OF inv] unfolding step by (auto simp: grace_inv_def)
  qed
qed

lemma inv_publish_armed: "grace_inv g \<Longrightarrow> grace_inv (grace_step g (EPublish i n r))"
proof (cases "(i, n) \<in> set (gr_reserved g)")
  case True
  assume inv: "grace_inv g"
  note mk = grace_invD(1) [OF inv]
  have i: "i < 2" using grace_invD(3) [OF inv True] .
  have s: "state_at i (gr_mem g) = SlotArming" "n = inc_at i (gr_mem g)"
    using owner_okD(1) [OF grace_invD(2) [OF inv i]] True by auto
  have nz: "n \<noteq> 0" using mem_okD(6) [OF mk i] s by auto
  have len: "length (slots (gr_mem g)) = 2" using mem_okD(1) [OF mk i] .
  let ?m = "put_identity i r (gr_mem g)"
  have pm: "mem_ok ?m" "inc_at j ?m = inc_at j (gr_mem g)" "state_at j ?m = state_at j (gr_mem g)" for j
    using mk by (auto simp: mem_ok_def inc_at_def state_at_def)
  note p = put_state [OF pm(1) i, of SlotArmed, unfolded pm(2)]
  let ?g' = "grace_step g (EPublish i n r)"
  have mem: "gr_mem ?g' = put_word i (slot_pack (inc_at i (gr_mem g)) SlotArmed) ?m"
    using True by (simp add: arm_publish_def s(2))
  have rest: "gr_reserved ?g' = filter (\<lambda>x. x \<noteq> (i, n)) (gr_reserved g)" "gr_taken ?g' = gr_taken g"
    "gr_notes ?g' = NArmed n r # gr_notes g" using True by auto
  have fresh: "\<not> list_ex (note_arms n) (gr_notes g)"
    using owner_okD(3) [OF grace_invD(2) [OF inv i]] s by simp
  have unsettled: "\<not> list_ex (note_settles n) l" if "notes_ok l" "\<not> list_ex (note_arms n) l" for l
    using that by (induction l rule: notes_ok.induct) (auto dest: arms_mem)
  have st': "state_at j (gr_mem ?g') = (if j = i then SlotArmed else state_at j (gr_mem g))"
    "inc_at j (gr_mem ?g') = inc_at j (gr_mem g)" for j
    using p(2,3) nz s pm unfolding mem by auto
  have ident: "slot_identity (slots (gr_mem ?g') ! j) = (if j = i then r else slot_identity (slots (gr_mem g) ! j))" for j
    unfolding mem using i len by simp
  have "owner_ok ?g' j" if j: "j < 2" for j
  proof (cases "j = i")
    case True
    have "(i, k) \<in> set (gr_reserved ?g') \<longleftrightarrow> False" "(i, k) \<in> set (gr_taken ?g') \<longleftrightarrow> False" for k
      using owner_okD(1,2) [OF grace_invD(2) [OF inv i], of k] s rest by auto
    then show ?thesis
      using unsettled [OF grace_invD(6) [OF inv] fresh] s(2)
      unfolding True owner_ok_def Let_def st' ident rest(3) by simp
  next
    case False
    have ne: "inc_at j (gr_mem g) \<noteq> n" using inc_distinct [OF mk i j] False nz s(2) by auto
    then show ?thesis
      using owner_okD [OF grace_invD(2) [OF inv j]] False
      unfolding owner_ok_def Let_def st' ident rest by auto
  qed
  moreover have "mem_ok (gr_mem ?g')" using p(1) nz s(2) unfolding mem by simp
  moreover have "next_incarnation (gr_mem ?g') = next_incarnation (gr_mem g)" unfolding mem by simp
  moreover have "older n (next_incarnation (gr_mem g))" using mem_okD(5) [OF mk i] s(2) by simp
  ultimately show ?thesis
    using grace_invD(3-6) [OF inv] fresh rest unfolding grace_inv_def by auto
qed simp

lemma inv_abort: "grace_inv g \<Longrightarrow> grace_inv (grace_step g (EAbort i n))"
proof (cases "i < 2 \<and> n \<le> kMaxIncarnation \<and> word_at i (gr_mem g) = slot_pack n SlotArmed")
  case True
  assume inv: "grace_inv g"
  have s: "inc_at i (gr_mem g) = n" "state_at i (gr_mem g) = SlotArmed"
    using word_is [OF grace_invD(1) [OF inv], of i n SlotArmed] True by auto
  have le: "\<not> kMaxIncarnation < n" using True by (auto simp: not_less)
  have "grace_step g (EAbort i n) = g\<lparr>gr_mem := put_word i (slot_pack (inc_at i (gr_mem g)) SlotIdle) (gr_mem g),
      gr_notes := NAborted (inc_at i (gr_mem g)) # gr_notes g\<rparr>"
    using True s le by (simp add: abort_arm_def cas_word_def kSlotCount_def)
  then show ?thesis using inv_settle_armed [OF inv _ _ s(2), of SlotIdle "NAborted (inc_at i (gr_mem g))"] True by simp
next
  case False
  then have "grace_step g (EAbort i n) = g" by (auto simp: abort_arm_def cas_word_def kSlotCount_def)
  then show "grace_inv g \<Longrightarrow> ?thesis" by simp
qed

lemma inv_cancel: "grace_inv g \<Longrightarrow> grace_inv (grace_step g (ECancel r i))"
proof (cases "i < 2 \<and> state_at i (gr_mem g) = SlotArmed \<and> identities_equal (slot_identity (slots (gr_mem g) ! i)) r")
  case True
  assume inv: "grace_inv g"
  note mk = grace_invD(1) [OF inv]
  have i: "i < 2" and s: "state_at i (gr_mem g) = SlotArmed" using True by auto
  have w: "word_at i (gr_mem g) = slot_pack (inc_at i (gr_mem g)) SlotArmed" using mem_okD(2) [OF mk i] s by simp
  have r: "slot_identity (slots (gr_mem g) ! i) = r" using True by (auto simp: identities_equal_def)
  have "grace_step g (ECancel r i) = g\<lparr>gr_mem := put_word i (slot_pack (inc_at i (gr_mem g)) SlotCanceling) (gr_mem g),
      gr_notes := NCanceled (inc_at i (gr_mem g)) r # gr_notes g\<rparr>"
    using True mem_okD(4) [OF mk i] by (simp add: cancel_at_def Let_def w cas_word_def kSlotCount_def)
  then show ?thesis
    using inv_settle_armed [OF inv i _ s, of SlotCanceling "NCanceled (inc_at i (gr_mem g)) r"] r by simp
next
  case False
  then have "grace_step g (ECancel r i) = g" by (auto simp: cancel_at_def state_at_def kSlotCount_def)
  then show "grace_inv g \<Longrightarrow> ?thesis" by simp
qed

lemma inv_finish: "grace_inv g \<Longrightarrow> grace_inv (grace_step g (EFinish i n stopped))"
proof (cases "i < 2 \<and> n \<le> kMaxIncarnation")
  case True
  assume inv: "grace_inv g"
  note mk = grace_invD(1) [OF inv]
  have i: "i < 2" and n: "n \<le> kMaxIncarnation" using True by auto
  note w = word_is [OF mk i n]
  let ?f = "finish_cancel (Some (i, slot_pack n SlotCanceling)) stopped (gr_mem g)"
  have step: "grace_step g (EFinish i n stopped) = g\<lparr>gr_mem := ?f\<rparr>"
    using i n by (auto simp: kSlotCount_def)
  consider (cancel) "inc_at i (gr_mem g) = n" "state_at i (gr_mem g) = SlotCanceling"
    | (observed) "inc_at i (gr_mem g) = n" "state_at i (gr_mem g) = SlotCallbackObserved" "\<not> stopped"
    | (none) "?f = gr_mem g"
    using w [of SlotCanceling] w [of SlotCallbackObserved]
    by (cases stopped; auto simp: finish_cancel_def cas_word_def Let_def split: if_splits)
  then show ?thesis
  proof cases
    case cancel
    then have "?f = put_word i (slot_pack (inc_at i (gr_mem g)) (if stopped then SlotIdle else SlotAwaitingCallback)) (gr_mem g)"
      using w [of SlotCanceling] by (simp add: finish_cancel_def cas_word_def Let_def)
    then show ?thesis using inv_mem_only [OF inv i] cancel step by simp
  next
    case observed
    then have "?f = put_word i (slot_pack (inc_at i (gr_mem g)) SlotIdle) (gr_mem g)"
      using w [of SlotCanceling] w [of SlotCallbackObserved] by (simp add: finish_cancel_def cas_word_def Let_def)
    then show ?thesis using inv_mem_only [OF inv i, of SlotIdle] observed step by simp
  next
    case none
    then show ?thesis using step inv by simp
  qed
next
  case False
  then have "grace_step g (EFinish i n stopped) = g" by (auto simp: kSlotCount_def)
  then show "grace_inv g \<Longrightarrow> ?thesis" by simp
qed

lemma inv_take: "grace_inv g \<Longrightarrow> grace_inv (grace_step g (ETake i))"
proof (cases "i < 2")
  case i: True
  assume inv: "grace_inv g"
  note mk = grace_invD(1) [OF inv]
  let ?n = "inc_at i (gr_mem g)"
  have w: "word_at i (gr_mem g) = slot_pack ?n (state_at i (gr_mem g))" and pr: "proper_slot (state_at i (gr_mem g))"
    and n: "?n \<le> kMaxIncarnation"
    using mem_okD(2,3,4) [OF mk i] by auto
  consider (armed) "state_at i (gr_mem g) = SlotArmed" | (cancel) "state_at i (gr_mem g) = SlotCanceling"
    | (awaiting) "state_at i (gr_mem g) = SlotAwaitingCallback"
    | (other) "state_at i (gr_mem g) \<notin> {SlotArmed, SlotCanceling, SlotAwaitingCallback}" by auto
  then show ?thesis
  proof cases
    case armed
    have step: "grace_step g (ETake i) = g\<lparr>gr_mem := put_word i (slot_pack ?n SlotCallbackOwned) (gr_mem g),
        gr_taken := (i, ?n) # gr_taken g\<rparr>"
      using i n armed by (simp add: callback_take_def Let_def w kSlotCount_def)
    show ?thesis
    proof (rule settle_inv [where new = "[]" and st' = SlotCallbackOwned, OF inv i])
      show "SlotCallbackOwned = SlotIdle \<or> ?n \<noteq> 0" using mem_okD(6) [OF mk i] armed by auto
      show "\<And>j k. ((j, k) \<in> set (gr_taken (grace_step g (ETake i))))
          = (if j = i then SlotCallbackOwned = SlotCallbackOwned \<and> k = ?n else (j, k) \<in> set (gr_taken g))"
        using owner_okD(2) [OF grace_invD(2) [OF inv i]] armed unfolding step by auto
    qed (use armed grace_invD(6) [OF inv] in \<open>simp_all add: step del: grace_step.simps\<close>)
  next
    case cancel
    have "grace_step g (ETake i) = g\<lparr>gr_mem := put_word i (slot_pack ?n SlotCallbackObserved) (gr_mem g)\<rparr>"
      using i cancel by (simp add: callback_take_def Let_def w kSlotCount_def)
    then show ?thesis using inv_mem_only [OF inv i, of SlotCallbackObserved] cancel by simp
  next
    case awaiting
    have "grace_step g (ETake i) = g\<lparr>gr_mem := put_word i (slot_pack ?n SlotIdle) (gr_mem g)\<rparr>"
      using i awaiting by (simp add: callback_take_def Let_def w kSlotCount_def)
    then show ?thesis using inv_mem_only [OF inv i, of SlotIdle] awaiting by simp
  next
    case other
    then have "grace_step g (ETake i) = g"
      by (auto simp: callback_take_def Let_def w pr kSlotCount_def split: slot_state.splits)
    then show ?thesis using inv by simp
  qed
next
  case False
  then have "grace_step g (ETake i) = g" by (simp add: callback_take_def kSlotCount_def)
  then show "grace_inv g \<Longrightarrow> ?thesis" by simp
qed

lemma inv_release: "grace_inv g \<Longrightarrow> grace_inv (grace_step g (ERelease i n))"
proof (cases "(i, n) \<in> set (gr_taken g)")
  case True
  assume inv: "grace_inv g"
  note mk = grace_invD(1) [OF inv]
  have i: "i < 2" using grace_invD(4) [OF inv True] .
  have s: "state_at i (gr_mem g) = SlotCallbackOwned" "n = inc_at i (gr_mem g)"
    using owner_okD(2) [OF grace_invD(2) [OF inv i]] True by auto
  let ?r = "slot_identity (slots (gr_mem g) ! i)"
  have step: "grace_step g (ERelease i n) = g\<lparr>gr_mem := put_word i (slot_pack (inc_at i (gr_mem g)) SlotIdle) (gr_mem g),
      gr_taken := filter (\<lambda>x. x \<noteq> (i, n)) (gr_taken g), gr_notes := NSignaled n ?r # gr_notes g\<rparr>"
    using True by (simp add: callback_release_def s(2))
  show ?thesis
  proof (rule settle_inv [where new = "[NSignaled n ?r]" and st' = SlotIdle, OF inv i])
    show "notes_ok ([NSignaled n ?r] @ gr_notes g)"
      using owner_okD(4) [OF grace_invD(2) [OF inv i]] s grace_invD(6) [OF inv] by simp
    show "[NSignaled n ?r] = [] \<or> inc_at i (gr_mem g) \<noteq> 0" using mem_okD(6) [OF mk i] s by auto
    show "\<And>j k. ((j, k) \<in> set (gr_taken (grace_step g (ERelease i n))))
        = (if j = i then SlotIdle = SlotCallbackOwned \<and> k = inc_at i (gr_mem g) else (j, k) \<in> set (gr_taken g))"
      using owner_okD(2) [OF grace_invD(2) [OF inv i]] s unfolding step by auto
  qed (use s(1) s(2) [symmetric] in \<open>simp_all add: step del: grace_step.simps\<close>)
qed simp

lemma grace_start_inv: "grace_inv grace_start"
proof -
  have w: "word_at i grace_init = slot_pack 0 SlotIdle" if "i < 2" for i
    using that by (simp add: word_at_def grace_init_def kSlotCount_def)
  have "inc_at i grace_init = 0" "state_at i grace_init = SlotIdle" if "i < 2" for i
    using w [OF that] by (simp_all add: inc_at_def state_at_def kMaxIncarnation_def)
  note at = this
  have one: "(1 :: u64) \<le> kMaxIncarnation"
    by (simp only: kMaxIncarnation_id kMaxId_bits) (simp add: bit_1_iff)
  have f: "length (slots grace_init) = 2" "next_incarnation grace_init = 1" "(1 :: u64) \<le> kMaxIncarnation"
    "(0 :: u64) \<le> kMaxIncarnation"
    using one by (simp_all add: grace_init_def kSlotCount_def)
  have "mem_ok grace_init"
    unfolding mem_ok_def f(2) using at [of 0] w f(1,3,4) at by (simp add: older_def)
  then show ?thesis
    using at by (auto simp: grace_inv_def grace_start_def owner_ok_def Let_def)
qed

interpretation grace_machine: machine grace_step grace_start grace_inv
proof
  show "grace_inv grace_start" by (rule grace_start_inv)
  fix g ev assume "grace_inv g"
  then show "grace_inv (grace_step g ev)"
    by (cases ev)
      (simp_all only: inv_reserve inv_publish_armed inv_abort inv_cancel inv_finish inv_take inv_release)
qed

section \<open>Properties\<close>


end
