(* ===== verification/FirmwareIdentity.thy ===== *)
theory FirmwareIdentity
  imports Prelude
begin

text \<open>
  \<open>firmware_identity\<close>: the validation of the version, source revision, image digest and build
  profile, and the construction of the identity record of fixed arrays. A \<open>string_view\<close> is a string;
  \<open>find\<close> returns an optional position, \<open>None\<close> for \<open>npos\<close>. The configured source revision comes from
  a generated header and is an argument.
\<close>

section \<open>String views\<close>

fun index_of :: "char \<Rightarrow> string \<Rightarrow> nat option" where
  "index_of c [] = None"
| "index_of c (x # xs) = (if x = c then Some 0 else map_option Suc (index_of c xs))"

definition find_from :: "char \<Rightarrow> string \<Rightarrow> nat \<Rightarrow> nat option" where
  "find_from c v i = map_option ((+) i) (index_of c (drop i v))"

definition substr :: "string \<Rightarrow> nat \<Rightarrow> nat \<Rightarrow> string" where
  "substr v i n = take n (drop i v)"

lemma index_of_None: "index_of c v = None \<longleftrightarrow> c \<notin> set v"
  by (induction v) auto

lemma index_of_Some:
  "index_of c v = Some i \<Longrightarrow> v = take i v @ c # drop (Suc i) v \<and> c \<notin> set (take i v) \<and> i < length v"
  by (induction v arbitrary: i) (auto split: if_splits)

lemma index_of_nth: "index_of c v = Some i \<Longrightarrow> v ! i = c"
  by (induction v arbitrary: i) (auto split: if_splits)

lemma index_of_append: "c \<notin> set u \<Longrightarrow> index_of c (u @ w) = map_option ((+) (length u)) (index_of c w)"
  by (induction u) (cases "index_of c w"; auto)+

lemma find_from_Some: "find_from c v i = Some j \<Longrightarrow> i \<le> j \<and> j < length v"
  using index_of_Some [of c "drop i v"] by (auto simp: find_from_def)

section \<open>Characters and identifiers\<close>

definition kAppElfSha256Bytes :: nat where "kAppElfSha256Bytes = 32"
definition kAppElfSha256HexChars :: nat where "kAppElfSha256HexChars = 64"
definition kVersionMaxBytes :: nat where "kVersionMaxBytes = 31"
definition kSourceRevisionChars :: nat where "kSourceRevisionChars = 40"
definition kBuildProfileMaxBytes :: nat where "kBuildProfileMaxBytes = 31"

abbreviation ord :: "char \<Rightarrow> nat" where "ord c \<equiv> of_char c"

definition between :: "char \<Rightarrow> char \<Rightarrow> char \<Rightarrow> bool" where
  "between lo hi c \<longleftrightarrow> ord lo \<le> ord c \<and> ord c \<le> ord hi"

definition is_decimal :: "char \<Rightarrow> bool" where
  "is_decimal c \<longleftrightarrow> between CHR ''0'' CHR ''9'' c"

definition is_ascii_alphanumeric :: "char \<Rightarrow> bool" where
  "is_ascii_alphanumeric c \<longleftrightarrow>
     between CHR ''0'' CHR ''9'' c \<or> between CHR ''A'' CHR ''Z'' c \<or> between CHR ''a'' CHR ''z'' c"

definition is_lower_hex :: "char \<Rightarrow> bool" where
  "is_lower_hex c \<longleftrightarrow> between CHR ''0'' CHR ''9'' c \<or> between CHR ''a'' CHR ''f'' c"

definition is_numeric_identifier :: "string \<Rightarrow> bool" where
  "is_numeric_identifier v \<longleftrightarrow>
     (if v = [] then False
      else if length v > 1 \<and> hd v = CHR ''0'' then False
      else list_all is_decimal v)"

text \<open>The loop over the characters, with its two flags.\<close>

fun prerelease_scan :: "bool \<Rightarrow> bool \<Rightarrow> string \<Rightarrow> (bool \<times> bool) option" where
  "prerelease_scan nd lh [] = Some (nd, lh)"
| "prerelease_scan nd lh (c # cs) =
     (if \<not> is_ascii_alphanumeric c \<and> c \<noteq> CHR ''-'' then None
      else prerelease_scan (nd \<or> \<not> is_decimal c)
        (lh \<or> between CHR ''A'' CHR ''Z'' c \<or> between CHR ''a'' CHR ''z'' c \<or> c = CHR ''-'') cs)"

definition is_prerelease_identifier :: "string \<Rightarrow> bool" where
  "is_prerelease_identifier v \<longleftrightarrow>
     (if v = [] then False
      else case prerelease_scan False False v of
        None \<Rightarrow> False
      | Some (has_non_digit, has_letter_or_hyphen) \<Rightarrow>
          if \<not> has_non_digit then is_numeric_identifier v else has_letter_or_hyphen)"

definition is_build_identifier :: "string \<Rightarrow> bool" where
  "is_build_identifier v \<longleftrightarrow>
     (if v = [] then False else list_all (\<lambda>c. is_ascii_alphanumeric c \<or> c = CHR ''-'') v)"

text \<open>The loop over the segments between separators, shared by the dotted lists and the profile name.\<close>

function segment_loop :: "char \<Rightarrow> (string \<Rightarrow> bool) \<Rightarrow> string \<Rightarrow> nat \<Rightarrow> bool" where
  "segment_loop sep ok v start =
     (if start \<ge> length v then False
      else
        (let separator = find_from sep v start;
             segment_end = (case separator of None \<Rightarrow> length v | Some j \<Rightarrow> j);
             segment = substr v start (segment_end - start)
         in if \<not> ok segment then False
            else case separator of None \<Rightarrow> True | Some j \<Rightarrow> segment_loop sep ok v (j + 1)))"
  by pat_completeness auto
termination
  by (relation "measure (\<lambda>(sep, ok, v, start). length v - start)")
    (auto dest!: sym [of "Some _"] find_from_Some)

declare segment_loop.simps [simp del]

definition is_dot_separated :: "string \<Rightarrow> bool \<Rightarrow> bool" where
  "is_dot_separated v prerelease \<longleftrightarrow>
     (if v = [] then False
      else segment_loop CHR ''.'' (if prerelease then is_prerelease_identifier else is_build_identifier) v 0)"

section \<open>The validators\<close>

text \<open>The three numbers of the core; \<open>component\<close> counts from 0 to 2.\<close>

function core_loop :: "string \<Rightarrow> nat \<Rightarrow> nat \<Rightarrow> bool" where
  "core_loop core component core_start =
     (if component \<ge> 3 then True
      else
        (let separator = find_from CHR ''.'' core core_start;
             component_end = (case separator of None \<Rightarrow> length core | Some j \<Rightarrow> j)
         in if \<not> is_numeric_identifier (substr core core_start (component_end - core_start)) then False
            else if component < 2 then
              (case separator of None \<Rightarrow> False | Some j \<Rightarrow> core_loop core (component + 1) (j + 1))
            else if separator \<noteq> None \<or> component_end \<noteq> length core then False
            else core_loop core (component + 1) core_start))"
  by pat_completeness auto
termination
  by (relation "measure (\<lambda>(core, component, start). 3 - component)") auto

declare core_loop.simps [simp del]

definition version_char :: "char \<Rightarrow> bool" where
  "version_char c \<longleftrightarrow> \<not> (ord c > 0x7f \<or> c = CHR '' '' \<or> ord c = 9 \<or> ord c = 10 \<or> ord c = 13)"

definition is_valid_version :: "string \<Rightarrow> bool" where
  "is_valid_version v \<longleftrightarrow>
     (if v = [] \<or> length v > kVersionMaxBytes then False
      else if \<not> list_all version_char v then False
      else
        (let prerelease_separator = find_from CHR ''-'' v 0;
             build_separator = find_from CHR ''+'' v 0;
             core_end = min (case prerelease_separator of None \<Rightarrow> length v | Some i \<Rightarrow> i)
                            (case build_separator of None \<Rightarrow> length v | Some i \<Rightarrow> i);
             core = substr v 0 core_end
         in if \<not> core_loop core 0 0 then False
            else if (case prerelease_separator of
                None \<Rightarrow> False
              | Some p \<Rightarrow>
                  (case build_separator of None \<Rightarrow> True | Some b \<Rightarrow> p < b)
                  \<and> (let prerelease_end = (case build_separator of None \<Rightarrow> length v | Some b \<Rightarrow> b)
                     in \<not> is_dot_separated (substr v (p + 1) (prerelease_end - p - 1)) True))
            then False
            else (case build_separator of
                None \<Rightarrow> True
              | Some b \<Rightarrow> is_dot_separated (substr v (b + 1) (length v)) False)))"

text \<open>A source revision is present or not; its value is a view in either case.\<close>

record source_revision =
  sr_present :: bool
  sr_value :: string

definition is_valid_source_revision :: "source_revision \<Rightarrow> bool" where
  "is_valid_source_revision r \<longleftrightarrow>
     (if \<not> sr_present r then sr_value r = []
      else length (sr_value r) = kSourceRevisionChars \<and> list_all is_lower_hex (sr_value r))"

definition is_all_zero :: "u8 list \<Rightarrow> bool" where
  "is_all_zero raw \<longleftrightarrow> list_all (\<lambda>b. b = 0) raw"

definition is_valid_raw_app_elf_sha256 :: "u8 list \<Rightarrow> bool" where
  "is_valid_raw_app_elf_sha256 raw \<longleftrightarrow> \<not> is_all_zero raw"

definition is_valid_app_elf_sha256 :: "string \<Rightarrow> bool" where
  "is_valid_app_elf_sha256 v \<longleftrightarrow> length v = kAppElfSha256HexChars \<and> list_all is_lower_hex v"

definition is_valid_build_profile :: "string \<Rightarrow> bool" where
  "is_valid_build_profile v \<longleftrightarrow>
     (if v = [] \<or> length v > kBuildProfileMaxBytes then False
      else segment_loop CHR ''-''
        (\<lambda>s. s \<noteq> [] \<and> list_all (\<lambda>c. between CHR ''a'' CHR ''z'' c \<or> between CHR ''0'' CHR ''9'' c) s) v 0)"

section \<open>The identity record\<close>

definition kHex :: string where "kHex = ''0123456789abcdef''"

definition hex_pair :: "u8 \<Rightarrow> char \<times> char" where
  "hex_pair b = (kHex ! unat (drop_bit 4 b AND 0x0f), kHex ! unat (b AND 0x0f))"

text \<open>The loop writes two characters per byte; the array keeps its length.\<close>

definition put_hex :: "u8 list \<Rightarrow> nat \<Rightarrow> string \<Rightarrow> string" where
  "put_hex raw i out = (let (h, l) = hex_pair (raw ! i) in (out[i * 2 := h])[i * 2 + 1 := l])"

definition nul :: char where "nul = CHR 0x00"

definition encode_app_elf_sha256 :: "u8 list \<Rightarrow> string \<Rightarrow> string" where
  "encode_app_elf_sha256 raw out =
     (foldl (\<lambda>o' i. put_hex raw i o') out [0..<length raw])[kAppElfSha256HexChars := nul]"

record identity_record =
  id_version :: string
  id_revision_present :: bool
  id_revision :: string
  id_app_sha :: string
  id_profile :: string

text \<open>\<open>fill\<close> of an array with NUL and \<open>memcpy\<close> to its start.\<close>

definition fill_nul :: "string \<Rightarrow> string" where
  "fill_nul a = replicate (length a) nul"

definition copy_to :: "string \<Rightarrow> string \<Rightarrow> string" where
  "copy_to v a = v @ drop (length v) a"

definition build_identity ::
  "identity_record option \<Rightarrow> string \<Rightarrow> source_revision \<Rightarrow> u8 list \<Rightarrow> string
     \<Rightarrow> bool \<times> identity_record option" where
  "build_identity output v r raw profile =
     (case output of
        None \<Rightarrow> (False, None)
      | Some out \<Rightarrow>
          if \<not> is_valid_version v \<or> \<not> is_valid_source_revision r
             \<or> \<not> is_valid_raw_app_elf_sha256 raw \<or> \<not> is_valid_build_profile profile
          then (False, Some out)
          else
            (let out1 = out\<lparr>id_version := fill_nul (id_version out), id_revision := fill_nul (id_revision out),
                   id_app_sha := fill_nul (id_app_sha out), id_profile := fill_nul (id_profile out)\<rparr>;
                 out2 = out1\<lparr>id_version := copy_to v (id_version out1)\<rparr>;
                 out3 = (if sr_present r
                         then out2\<lparr>id_revision_present := True, id_revision := copy_to (sr_value r) (id_revision out2)\<rparr>
                         else out2\<lparr>id_revision_present := False\<rparr>);
                 out4 = out3\<lparr>id_app_sha := encode_app_elf_sha256 raw (id_app_sha out3)\<rparr>
             in (True, Some (out4\<lparr>id_profile := copy_to profile (id_profile out4)\<rparr>))))"

definition configured_source_revision :: "bool \<Rightarrow> string \<Rightarrow> source_revision" where
  "configured_source_revision available revision =
     (if \<not> available then \<lparr>sr_present = False, sr_value = []\<rparr> else \<lparr>sr_present = True, sr_value = revision\<rparr>)"

section \<open>Splitting\<close>

fun split_on :: "char \<Rightarrow> string \<Rightarrow> string list" where
  "split_on c [] = [[]]"
| "split_on c (x # xs) =
     (if x = c then [] # split_on c xs
      else case split_on c xs of [] \<Rightarrow> [[x]] | s # ss \<Rightarrow> (x # s) # ss)"

fun join :: "char \<Rightarrow> string list \<Rightarrow> string" where
  "join c [] = []"
| "join c [s] = s"
| "join c (s # t # ss) = s @ c # join c (t # ss)"

lemma split_on_nonempty [simp]: "split_on c v \<noteq> []"
  by (induction v) (auto split: list.splits)

lemma join_split: "join c (split_on c v) = v"
proof (induction v)
  case (Cons x xs)
  obtain s ss where "split_on c xs = s # ss" by (meson neq_Nil_conv split_on_nonempty)
  with Cons show ?case by (cases ss) auto
qed simp

lemma split_free: "c \<notin> set v \<Longrightarrow> split_on c v = [v]"
  by (induction v) auto

lemma split_first: "c \<notin> set u \<Longrightarrow> split_on c (u @ c # w) = u # split_on c w"
  by (induction u) auto

lemma split_join: "ss \<noteq> [] \<Longrightarrow> list_all (\<lambda>s. c \<notin> set s) ss \<Longrightarrow> split_on c (join c ss) = ss"
  by (induction c ss rule: join.induct) (auto simp: split_free split_first)

lemma split_index:
  "split_on c v = (case index_of c v of None \<Rightarrow> [v] | Some i \<Rightarrow> take i v # split_on c (drop (Suc i) v))"
proof (cases "index_of c v")
  case None
  then have "c \<notin> set v" by (simp add: index_of_None)
  then show ?thesis using None by (simp add: split_free)
next
  case (Some i)
  then have v: "v = take i v @ c # drop (Suc i) v" and f: "c \<notin> set (take i v)"
    using index_of_Some by blast+
  show ?thesis using Some split_first [OF f, of "drop (Suc i) v"] v by simp
qed

lemma segment_loop_split:
  "\<not> ok [] \<Longrightarrow> segment_loop sep ok v start = list_all ok (split_on sep (drop start v))"
proof (induction sep ok v start rule: segment_loop.induct)
  case (1 sep ok v start)
  show ?case
  proof (cases "index_of sep (drop start v)")
    case None
    then show ?thesis using 1(2)
      by (simp add: segment_loop.simps [of sep ok v start] find_from_def substr_def
        split_index [of sep "drop start v"])
  next
    case (Some i)
    then have i: "i < length (drop start v)" using index_of_Some by blast
    show ?thesis
      using 1 Some i
      by (simp add: segment_loop.simps [of sep ok v start] find_from_def substr_def Let_def
        split_index [of sep "drop start v"] add.commute)
  qed
qed

lemma core_loop_split:
  "k < 3 \<Longrightarrow> core_loop core k start
     \<longleftrightarrow> length (split_on CHR ''.'' (drop start core)) = 3 - k
       \<and> list_all is_numeric_identifier (split_on CHR ''.'' (drop start core))"
proof (induction core k start rule: core_loop.induct)
  case (1 core k start)
  note unfold = core_loop.simps [of core k start] find_from_def substr_def Let_def
    split_index [of "CHR ''.''" "drop start core"]
  show ?case
  proof (cases "index_of CHR ''.'' (drop start core)")
    case None
    then show ?thesis using 1(3) by (cases "k = 2") (auto simp: unfold core_loop.simps [of core 2] core_loop.simps [of core 3])
  next
    case (Some i)
    then show ?thesis
      using 1 by (cases "k = 2") (auto simp: unfold core_loop.simps [of core 2] add.commute)
  qed
qed

text \<open>A string cut at the first occurrence of a character.\<close>

definition cut :: "char \<Rightarrow> string \<Rightarrow> string \<times> string option" where
  "cut c v = (case index_of c v of None \<Rightarrow> (v, None) | Some i \<Rightarrow> (take i v, Some (drop (Suc i) v)))"

lemma index_of_take:
  "index_of c (take j v) = (case index_of c v of None \<Rightarrow> None | Some i \<Rightarrow> if i < j then Some i else None)"
proof (induction v arbitrary: j)
  case (Cons x xs)
  then show ?case by (cases j) (auto split: option.splits)
qed simp

lemma cut_None: "cut c v = (u, None) \<Longrightarrow> v = u \<and> c \<notin> set u"
  by (auto simp: cut_def index_of_None split: option.splits)

lemma cut_Some: "cut c v = (u, Some w) \<Longrightarrow> v = u @ c # w \<and> c \<notin> set u"
  by (auto simp: cut_def dest: index_of_Some split: option.splits)

lemma cut_free: "c \<notin> set u \<Longrightarrow> cut c u = (u, None)"
proof -
  assume "c \<notin> set u"
  then have "index_of c u = None" by (simp add: index_of_None)
  then show ?thesis by (simp add: cut_def)
qed

lemma cut_first: "c \<notin> set u \<Longrightarrow> cut c (u @ c # w) = (u, Some w)"
  by (simp add: cut_def index_of_append)

section \<open>The grammar of semantic versions\<close>

definition digits :: string where "digits = ''0123456789''"

definition letters :: string where
  "letters = ''ABCDEFGHIJKLMNOPQRSTUVWXYZabcdefghijklmnopqrstuvwxyz''"

definition numeric :: "string \<Rightarrow> bool" where
  "numeric s \<longleftrightarrow> s \<noteq> [] \<and> set s \<subseteq> set digits \<and> (hd s = CHR ''0'' \<longrightarrow> s = ''0'')"

definition ident :: "string \<Rightarrow> bool" where
  "ident s \<longleftrightarrow> s \<noteq> [] \<and> set s \<subseteq> set digits \<union> set letters \<union> {CHR ''-''}"

definition prerelease_ident :: "string \<Rightarrow> bool" where
  "prerelease_ident s \<longleftrightarrow> ident s \<and> (set s \<subseteq> set digits \<longrightarrow> numeric s)"

definition optional_part :: "char \<Rightarrow> string list \<Rightarrow> string" where
  "optional_part c ss = (if ss = [] then [] else c # join CHR ''.'' ss)"

definition semver :: "string \<Rightarrow> bool" where
  "semver v \<longleftrightarrow> (\<exists>major minor patch pre build.
     numeric major \<and> numeric minor \<and> numeric patch
     \<and> list_all prerelease_ident pre \<and> list_all ident build
     \<and> v = join CHR ''.'' [major, minor, patch] @ optional_part CHR ''-'' pre @ optional_part CHR ''+'' build)"

lemma between_chars:
  "between lo hi c \<longleftrightarrow> c \<in> set (map char_of [of_char lo..<Suc (of_char hi)])"
proof
  assume "between lo hi c"
  then have "of_char c \<in> set [of_char lo..<Suc (of_char hi)]"
    by (simp only: between_def set_upt atLeastLessThan_iff less_Suc_eq_le)
  then have "char_of (of_char c :: nat) \<in> char_of ` set [of_char lo..<Suc (of_char hi)]" by (rule imageI)
  then show "c \<in> set (map char_of [of_char lo..<Suc (of_char hi)])" by simp
next
  assume "c \<in> set (map char_of [of_char lo..<Suc (of_char hi)])"
  then obtain n where "c = char_of n" "(of_char lo :: nat) \<le> n" "n \<le> of_char hi" by (auto simp: less_Suc_eq_le)
  moreover have "n < 256" using \<open>n \<le> of_char hi\<close> nat_of_char_less_256 [of hi] by linarith
  ultimately show "between lo hi c" by (simp add: between_def of_char_of)
qed

lemma is_decimal_digits: "is_decimal c \<longleftrightarrow> c \<in> set digits"
proof -
  have "map char_of [of_char CHR ''0''..<Suc (of_char CHR ''9'')] = digits" by code_simp
  then show ?thesis by (simp only: is_decimal_def between_chars)
qed

lemma letter_chars:
  "between CHR ''A'' CHR ''Z'' c \<or> between CHR ''a'' CHR ''z'' c \<longleftrightarrow> c \<in> set letters"
proof -
  have "map char_of [of_char CHR ''A''..<Suc (of_char CHR ''Z'')]
    @ map char_of [of_char CHR ''a''..<Suc (of_char CHR ''z'')] = letters" by code_simp
  then have "set letters = set (map char_of [of_char CHR ''A''..<Suc (of_char CHR ''Z'')])
    \<union> set (map char_of [of_char CHR ''a''..<Suc (of_char CHR ''z'')])"
    by (metis set_append)
  then show ?thesis by (simp only: between_chars Un_iff)
qed

lemma alphanumeric_chars: "is_ascii_alphanumeric c \<longleftrightarrow> c \<in> set digits \<or> c \<in> set letters"
  using letter_chars [of c] by (auto simp: is_ascii_alphanumeric_def is_decimal_digits [symmetric] is_decimal_def)

lemma alphabets_disjoint:
  "set digits \<inter> (set letters \<union> {CHR ''-'', CHR ''.'', CHR ''+''}) = {}"
  "set letters \<inter> {CHR ''-'', CHR ''.'', CHR ''+''} = {}"
  by code_simp+

section \<open>Validators and grammar\<close>

lemma numeric_code: "is_numeric_identifier s = numeric s"
proof -
  have "(length s > 1 \<and> hd s = CHR ''0'') = (hd s = CHR ''0'' \<and> s \<noteq> ''0'')" if "s \<noteq> []"
    using that by (cases s) auto
  moreover have "list_all is_decimal s = (set s \<subseteq> set digits)"
    by (auto simp: list_all_iff is_decimal_digits)
  ultimately show ?thesis by (auto simp: is_numeric_identifier_def numeric_def)
qed

lemma numeric_ext: "is_numeric_identifier = numeric"
  by (rule ext) (rule numeric_code)

lemma ident_code: "is_build_identifier s = ident s"
  by (auto simp: is_build_identifier_def ident_def list_all_iff alphanumeric_chars)

lemma prerelease_scan_all:
  "prerelease_scan nd lh s =
     (if set s \<subseteq> set digits \<union> set letters \<union> {CHR ''-''}
      then Some (nd \<or> \<not> set s \<subseteq> set digits, lh \<or> \<not> set s \<subseteq> set digits) else None)"
proof (induction s arbitrary: nd lh)
  case (Cons c s)
  consider "c \<in> set digits" "c \<notin> set letters" "c \<noteq> CHR ''-''"
    | "c \<in> set letters \<or> c = CHR ''-''" "c \<notin> set digits"
    | "c \<notin> set digits" "c \<notin> set letters" "c \<noteq> CHR ''-''"
    using alphabets_disjoint by blast
  then show ?case
    by cases (simp_all add: Cons alphanumeric_chars is_decimal_digits letter_chars disj_assoc [symmetric])
qed simp

lemma prerelease_code: "is_prerelease_identifier s = prerelease_ident s"
  by (auto simp: is_prerelease_identifier_def prerelease_ident_def prerelease_scan_all numeric_code
      ident_def numeric_def)

lemma dot_separated_code:
  "is_dot_separated s pre = list_all (if pre then prerelease_ident else ident) (split_on CHR ''.'' s)"
proof -
  have eq: "is_prerelease_identifier = prerelease_ident" "is_build_identifier = ident"
    by (rule ext, rule prerelease_code) (rule ext, rule ident_code)
  have "\<not> prerelease_ident []" "\<not> ident []" by (simp_all add: prerelease_ident_def ident_def)
  then show ?thesis by (cases s) (simp_all add: is_dot_separated_def eq segment_loop_split)
qed

lemma version_parts:
  "is_valid_version v \<longleftrightarrow> v \<noteq> [] \<and> length v \<le> kVersionMaxBytes \<and> list_all version_char v
     \<and> (let (u, build) = cut CHR ''+'' v; (core, pre) = cut CHR ''-'' u
        in core_loop core 0 0
          \<and> (case pre of None \<Rightarrow> True | Some s \<Rightarrow> is_dot_separated s True)
          \<and> (case build of None \<Rightarrow> True | Some s \<Rightarrow> is_dot_separated s False))"
proof (cases "index_of CHR ''+'' v")
  case None
  then show ?thesis
    by (cases "index_of CHR ''-'' v")
      (auto simp: is_valid_version_def find_from_def substr_def cut_def Let_def not_less dest: index_of_Some)
next
  case (Some j)
  then have j: "j < length v" using index_of_Some by blast
  then show ?thesis
  proof (cases "index_of CHR ''-'' v")
    case None
    then show ?thesis using Some j
      by (simp add: is_valid_version_def find_from_def substr_def cut_def Let_def index_of_take not_less)
  next
    case (Some i)
    moreover have "v ! i = CHR ''-''" "v ! j = CHR ''+''"
      using Some \<open>index_of CHR ''+'' v = Some j\<close> by (simp_all add: index_of_nth)
    then have "i \<noteq> j" by auto
    ultimately show ?thesis using \<open>index_of CHR ''+'' v = Some j\<close> j
      by (auto simp: is_valid_version_def find_from_def substr_def cut_def Let_def index_of_take not_less
          drop_take min_def)
  qed
qed

lemma join_chars: "set (join c ss) \<subseteq> \<Union> (set ` set ss) \<union> {c}"
  by (induction c ss rule: join.induct) auto

definition version_alphabet :: "char set" where
  "version_alphabet = set digits \<union> set letters \<union> {CHR ''-'', CHR ''.'', CHR ''+''}"

lemma version_char_alphabet: "c \<in> version_alphabet \<Longrightarrow> version_char c"
proof -
  have "list_all version_char (digits @ letters @ ''-.+'')" by code_simp
  then show "c \<in> version_alphabet \<Longrightarrow> version_char c" by (auto simp: version_alphabet_def list_all_iff)
qed

lemma numeric_free:
  "numeric s \<Longrightarrow> CHR ''-'' \<notin> set s \<and> CHR ''.'' \<notin> set s \<and> CHR ''+'' \<notin> set s \<and> set s \<subseteq> version_alphabet"
  using alphabets_disjoint by (auto simp: numeric_def version_alphabet_def)

lemma ident_free: "ident s \<Longrightarrow> CHR ''.'' \<notin> set s \<and> CHR ''+'' \<notin> set s \<and> set s \<subseteq> version_alphabet"
  using alphabets_disjoint by (auto simp: ident_def version_alphabet_def)

lemma idents_free:
  assumes "list_all ident ss"
  shows "list_all (\<lambda>s. CHR ''.'' \<notin> set s) ss" "CHR ''+'' \<notin> set (join CHR ''.'' ss)"
    "set (join CHR ''.'' ss) \<subseteq> version_alphabet"
proof -
  show "list_all (\<lambda>s. CHR ''.'' \<notin> set s) ss" using assms ident_free by (auto simp: list_all_iff)
  show "CHR ''+'' \<notin> set (join CHR ''.'' ss)"
    using assms ident_free join_chars [of "CHR ''.''" ss] by (fastforce simp: list_all_iff)
  show "set (join CHR ''.'' ss) \<subseteq> version_alphabet"
    using assms ident_free join_chars [of "CHR ''.''" ss]
    by (fastforce simp: list_all_iff version_alphabet_def)
qed

lemma prerelease_idents: "list_all prerelease_ident ss \<Longrightarrow> list_all ident ss"
  by (auto simp: list_all_iff prerelease_ident_def)

text \<open>A part after its separator, and the list of its identifiers.\<close>

lemma optional_exists:
  "(\<exists>ss. list_all P ss \<and> u = optional_part c ss)
     \<longleftrightarrow> u = [] \<or> (\<exists>w. u = c # w \<and> list_all P (split_on CHR ''.'' w))"
  if "\<And>s. P s \<Longrightarrow> CHR ''.'' \<notin> set s"
proof
  assume "\<exists>ss. list_all P ss \<and> u = optional_part c ss"
  then obtain ss where ss: "list_all P ss" "u = optional_part c ss" by blast
  then have "list_all (\<lambda>s. CHR ''.'' \<notin> set s) ss" using that by (auto simp: list_all_iff)
  then show "u = [] \<or> (\<exists>w. u = c # w \<and> list_all P (split_on CHR ''.'' w))"
    using ss by (auto simp: optional_part_def split_join)
next
  assume "u = [] \<or> (\<exists>w. u = c # w \<and> list_all P (split_on CHR ''.'' w))"
  then show "\<exists>ss. list_all P ss \<and> u = optional_part c ss"
  proof
    assume "u = []"
    then show ?thesis by (intro exI [of _ "[]"]) (simp add: optional_part_def)
  next
    assume "\<exists>w. u = c # w \<and> list_all P (split_on CHR ''.'' w)"
    then obtain w where "u = c # w" "list_all P (split_on CHR ''.'' w)" by blast
    then show ?thesis
      by (intro exI [of _ "split_on CHR ''.'' w"]) (simp add: optional_part_def join_split)
  qed
qed

lemma core_code:
  "core_loop core 0 0 \<longleftrightarrow>
     (\<exists>a b c. numeric a \<and> numeric b \<and> numeric c \<and> core = join CHR ''.'' [a, b, c])"
proof
  assume "core_loop core 0 0"
  then have l: "length (split_on CHR ''.'' core) = 3" "list_all numeric (split_on CHR ''.'' core)"
    by (simp_all add: core_loop_split numeric_ext)
  then obtain a b c where s: "split_on CHR ''.'' core = [a, b, c]"
    by (auto simp: numeral_3_eq_3 length_Suc_conv)
  then show "\<exists>a b c. numeric a \<and> numeric b \<and> numeric c \<and> core = join CHR ''.'' [a, b, c]"
    using l(2) join_split [of "CHR ''.''" core] by (intro exI [of _ a] exI [of _ b] exI [of _ c]) simp
next
  assume "\<exists>a b c. numeric a \<and> numeric b \<and> numeric c \<and> core = join CHR ''.'' [a, b, c]"
  then obtain a b c where n: "numeric a" "numeric b" "numeric c" "core = join CHR ''.'' [a, b, c]" by blast
  then have "split_on CHR ''.'' core = [a, b, c]"
    using split_join [of "[a, b, c]" "CHR ''.''"] numeric_free by (simp del: join.simps)
  then show "core_loop core 0 0" using n by (simp add: core_loop_split numeric_ext)
qed

lemma semver_alphabet: "semver v \<Longrightarrow> v \<noteq> [] \<and> set v \<subseteq> version_alphabet"
proof -
  assume "semver v"
  then obtain a b c pre build where v: "numeric a" "numeric b" "numeric c"
    "list_all prerelease_ident pre" "list_all ident build"
    "v = join CHR ''.'' [a, b, c] @ optional_part CHR ''-'' pre @ optional_part CHR ''+'' build"
    unfolding semver_def by blast
  have "set (optional_part ch ss) \<subseteq> version_alphabet" if "list_all ident ss" "ch \<in> version_alphabet" for ss ch
    using idents_free(3) [OF that(1)] that(2) by (simp add: optional_part_def)
  then show ?thesis
    using v numeric_free prerelease_idents [OF v(4)] by (simp add: version_alphabet_def)
qed

lemma semver_parts:
  "semver v \<longleftrightarrow>
     (let (u, build) = cut CHR ''+'' v; (core, pre) = cut CHR ''-'' u
      in core_loop core 0 0
        \<and> (case pre of None \<Rightarrow> True | Some s \<Rightarrow> is_dot_separated s True)
        \<and> (case build of None \<Rightarrow> True | Some s \<Rightarrow> is_dot_separated s False))" (is "_ = ?parts")
proof
  assume "semver v"
  then obtain a b c pre build where v: "numeric a" "numeric b" "numeric c"
    "list_all prerelease_ident pre" "list_all ident build"
    "v = join CHR ''.'' [a, b, c] @ optional_part CHR ''-'' pre @ optional_part CHR ''+'' build"
    unfolding semver_def by blast
  let ?core = "join CHR ''.'' [a, b, c]" and ?u = "join CHR ''.'' [a, b, c] @ optional_part CHR ''-'' pre"
  have core: "core_loop ?core 0 0" using v(1-3) core_code by blast
  have free: "CHR ''-'' \<notin> set ?core" "CHR ''+'' \<notin> set ?core" using v(1-3) numeric_free by auto
  have plus: "CHR ''+'' \<notin> set ?u"
    using free idents_free(2) [OF prerelease_idents [OF v(4)]] by (simp add: optional_part_def)
  have build: "cut CHR ''+'' v = (?u, if build = [] then None else Some (join CHR ''.'' build))"
    using plus v(6) cut_free [OF plus] cut_first [OF plus] by (simp add: optional_part_def)
  have pre: "cut CHR ''-'' ?u = (?core, if pre = [] then None else Some (join CHR ''.'' pre))"
    using cut_free [OF free(1)] cut_first [OF free(1)] by (simp add: optional_part_def)
  show ?parts
    using core v(4,5) idents_free(1) [OF prerelease_idents [OF v(4)]] idents_free(1) [OF v(5)]
    by (simp add: build pre dot_separated_code split_join del: join.simps)
next
  assume p: ?parts
  obtain u build where u: "cut CHR ''+'' v = (u, build)" by (cases "cut CHR ''+'' v")
  obtain core pre where core: "cut CHR ''-'' u = (core, pre)" by (cases "cut CHR ''-'' u")
  from p have q: "core_loop core 0 0" "case pre of None \<Rightarrow> True | Some s \<Rightarrow> is_dot_separated s True"
    "case build of None \<Rightarrow> True | Some s \<Rightarrow> is_dot_separated s False" by (simp_all add: u core)
  obtain a b c where n: "numeric a" "numeric b" "numeric c" "core = join CHR ''.'' [a, b, c]"
    using q(1) core_code by blast
  have "\<exists>ss. list_all prerelease_ident ss \<and> drop (length core) u = optional_part CHR ''-'' ss"
    using q(2) core ident_free
    by (subst optional_exists) (auto simp: dot_separated_code prerelease_ident_def dest!: cut_None cut_Some split: option.splits)
  moreover have "\<exists>ss. list_all ident ss \<and> drop (length u) v = optional_part CHR ''+'' ss"
    using q(3) u ident_free
    by (subst optional_exists) (auto simp: dot_separated_code dest!: cut_None cut_Some split: option.splits)
  moreover have "u = core @ drop (length core) u"
    using core by (cases pre) (auto dest!: cut_None cut_Some)
  moreover have "v = u @ drop (length u) v"
    using u by (cases build) (auto dest!: cut_None cut_Some)
  ultimately obtain ss ss' where "list_all prerelease_ident ss" "list_all ident ss'"
    "v = (core @ optional_part CHR ''-'' ss) @ optional_part CHR ''+'' ss'" by metis
  then show "semver v" unfolding semver_def using n by (metis append.assoc)
qed

section \<open>The record\<close>

lemma valid_version_code: "is_valid_version v \<longleftrightarrow> length v \<le> 31 \<and> semver v"
proof -
  have "semver v \<Longrightarrow> v \<noteq> [] \<and> list_all version_char v"
    using semver_alphabet [of v] version_char_alphabet by (auto simp: list_all_iff)
  then show ?thesis unfolding version_parts semver_parts [symmetric] kVersionMaxBytes_def by blast
qed

text \<open>The C string in an array and the bytes of a string of hexadecimal digits.\<close>

definition c_string :: "string \<Rightarrow> string" where
  "c_string a = takeWhile (\<lambda>c. c \<noteq> nul) a"

definition hex_value :: "char \<Rightarrow> nat" where
  "hex_value c = (case index_of c kHex of None \<Rightarrow> 0 | Some i \<Rightarrow> i)"

fun decode_hex :: "string \<Rightarrow> u8 list" where
  "decode_hex (h # l # cs) = of_nat (16 * hex_value h + hex_value l) # decode_hex cs"
| "decode_hex _ = []"

fun hex_string :: "u8 list \<Rightarrow> string" where
  "hex_string [] = []"
| "hex_string (b # bs) = fst (hex_pair b) # snd (hex_pair b) # hex_string bs"

lemma hex_string_append: "hex_string (xs @ ys) = hex_string xs @ hex_string ys"
  by (induction xs) auto

lemma hex_string_length: "length (hex_string bs) = 2 * length bs"
  by (induction bs) auto

lemma nibbles: "unat (drop_bit 4 b AND 0x0f) = unat b div 16" "unat (b AND 0x0f) = unat b mod 16" for b :: u8
proof -
  have m: "(0x0f :: u8) = mask 4" by (simp add: mask_eq_exp_minus_1)
  have low: "unat (w AND 0x0f) = unat w mod 16" for w :: u8
  proof -
    have "w AND 0x0f = take_bit 4 w" by (simp only: m take_bit_eq_mask)
    then show ?thesis by (simp only: unsigned_take_bit_eq) (simp add: take_bit_eq_mod)
  qed
  have "unat b < 256" using unsigned_less [of b, where 'a = nat] by simp
  then have "unat b div 16 < 16" by (simp add: div_less_iff_less_mult)
  then show "unat (drop_bit 4 b AND 0x0f) = unat b div 16"
    by (simp only: low unat_drop_bit_eq) (simp add: drop_bit_eq_div)
  show "unat (b AND 0x0f) = unat b mod 16" by (rule low)
qed

lemma kHex_nth: "n < 16 \<Longrightarrow> hex_value (kHex ! n) = n \<and> is_lower_hex (kHex ! n)"
proof -
  have "list_all (\<lambda>n. hex_value (kHex ! n) = n \<and> is_lower_hex (kHex ! n)) [0..<16]" by code_simp
  then show "n < 16 \<Longrightarrow> hex_value (kHex ! n) = n \<and> is_lower_hex (kHex ! n)" by (simp add: list_all_iff)
qed

lemma hex_pair_value:
  "of_nat (16 * hex_value (fst (hex_pair b)) + hex_value (snd (hex_pair b))) = b"
  "is_lower_hex (fst (hex_pair b))" "is_lower_hex (snd (hex_pair b))"
proof -
  have "unat b < 256" using unsigned_less [of b, where 'a = nat] by simp
  then have b: "unat b div 16 < 16" "unat b mod 16 < 16" by (simp_all add: div_less_iff_less_mult)
  have v: "hex_value (fst (hex_pair b)) = unat b div 16" "hex_value (snd (hex_pair b)) = unat b mod 16"
    using kHex_nth [OF b(1)] kHex_nth [OF b(2)] by (simp_all only: hex_pair_def nibbles [of b] fst_conv snd_conv)
  show "of_nat (16 * hex_value (fst (hex_pair b)) + hex_value (snd (hex_pair b))) = b"
    by (simp only: v mult_div_mod_eq) simp
  show "is_lower_hex (fst (hex_pair b))" "is_lower_hex (snd (hex_pair b))"
    using kHex_nth [OF b(1)] kHex_nth [OF b(2)] by (simp_all only: hex_pair_def nibbles [of b] fst_conv snd_conv)
qed

lemma decode_hex_string: "decode_hex (hex_string bs) = bs"
  by (induction bs) (simp_all add: hex_pair_value del: of_nat_add of_nat_mult)

lemma hex_string_lower: "list_all is_lower_hex (hex_string bs)"
  by (induction bs) (simp_all add: hex_pair_value)

lemma put_hex_prefix:
  assumes "length raw * 2 \<le> length out" "n \<le> length raw"
  shows "foldl (\<lambda>o' i. put_hex raw i o') out [0..<n] = hex_string (take n raw) @ drop (2 * n) out"
  using assms(2)
proof (induction n)
  case (Suc n)
  have d: "drop (2 * n) out = out ! (2 * n) # out ! Suc (2 * n) # drop (2 * Suc n) out"
    using Suc.prems assms(1) by (simp add: Cons_nth_drop_Suc)
  have l: "length (hex_string (take n raw)) = 2 * n" using Suc.prems by (simp add: hex_string_length)
  show ?case
    using Suc l by (simp add: put_hex_def case_prod_unfold d take_Suc_conv_app_nth hex_string_append
        list_update_append mult.commute [of n 2] Let_def del: drop_Suc_Cons)
qed simp

lemma encode_hex:
  assumes "length raw = kAppElfSha256Bytes" "length out = 65"
  shows "encode_app_elf_sha256 raw out = hex_string raw @ [nul]"
proof -
  have "drop 64 out = [out ! 64]" using assms(2) Cons_nth_drop_Suc [of 64 out] by simp
  show ?thesis
    using put_hex_prefix [of raw out "length raw"] assms \<open>drop 64 out = [out ! 64]\<close>
    by (simp add: encode_app_elf_sha256_def kAppElfSha256Bytes_def kAppElfSha256HexChars_def
      list_update_append hex_string_length)
qed

lemma c_string_padded: "nul \<notin> set v \<Longrightarrow> c_string (v @ replicate n nul) = v"
  by (induction v) (auto simp: c_string_def takeWhile_eq_Nil_iff)

lemma c_string_copy: "nul \<notin> set v \<Longrightarrow> c_string (copy_to v (fill_nul a)) = v"
  by (simp add: copy_to_def fill_nul_def drop_replicate c_string_padded)

lemma nul_free:
  "semver v \<Longrightarrow> nul \<notin> set v" "list_all is_lower_hex s \<Longrightarrow> nul \<notin> set s"
  "is_valid_build_profile p \<Longrightarrow> nul \<notin> set p"
proof -
  have "\<not> nul \<in> set (digits @ letters @ ''-.+'')" by code_simp
  then show "semver v \<Longrightarrow> nul \<notin> set v" using semver_alphabet [of v] by (auto simp: version_alphabet_def)
  have "\<not> is_lower_hex nul" by code_simp
  then show "list_all is_lower_hex s \<Longrightarrow> nul \<notin> set s" by (auto simp: list_all_iff)
  have b: "\<not> (between CHR ''a'' CHR ''z'' nul \<or> between CHR ''0'' CHR ''9'' nul)" "nul \<noteq> CHR ''-''" by code_simp+
  assume "is_valid_build_profile p"
  then have "list_all (\<lambda>s. s \<noteq> [] \<and> list_all (\<lambda>c. between CHR ''a'' CHR ''z'' c \<or> between CHR ''0'' CHR ''9'' c) s)
      (split_on CHR ''-'' p)"
    by (simp add: is_valid_build_profile_def segment_loop_split split: if_splits)
  then show "nul \<notin> set p"
    using b join_chars [of "CHR ''-''" "split_on CHR ''-'' p"]
    by (auto simp: join_split list_all_iff)
qed

text \<open>The arrays of an identity record have their declared sizes.\<close>

definition identity_arrays :: "identity_record \<Rightarrow> bool" where
  "identity_arrays r \<longleftrightarrow> length (id_version r) = kVersionMaxBytes + 1
     \<and> length (id_revision r) = kSourceRevisionChars + 1
     \<and> length (id_app_sha r) = kAppElfSha256HexChars + 1
     \<and> length (id_profile r) = kBuildProfileMaxBytes + 1"

text \<open>What a record says: the inputs that can be read back from its arrays.\<close>

definition identity_inputs :: "identity_record \<Rightarrow> string \<times> source_revision \<times> u8 list \<times> string" where
  "identity_inputs r =
     (c_string (id_version r), \<lparr>sr_present = id_revision_present r, sr_value = c_string (id_revision r)\<rparr>,
      decode_hex (c_string (id_app_sha r)), c_string (id_profile r))"

section \<open>Properties\<close>

text \<open>
  C34: A version is accepted exactly when it has at most 31 bytes and is a semantic version: three
  numbers without leading zeros, a prerelease list and a build list, both optional.
\<close>

theorem version_is_semver: "is_valid_version v \<longleftrightarrow> length v \<le> 31 \<and> semver v"
  by (rule valid_version_code)

text \<open>
  C33: Building an identity fails exactly when one of its inputs is invalid and then leaves the
  record as it was; otherwise every array keeps its size and the inputs can be read back from it.
\<close>

theorem identity_roundtrip:
  assumes "identity_arrays out" "length raw = kAppElfSha256Bytes"
  shows "case build_identity (Some out) v r raw profile of
      (ok, res) \<Rightarrow>
        ok = (is_valid_version v \<and> is_valid_source_revision r \<and> is_valid_raw_app_elf_sha256 raw
          \<and> is_valid_build_profile profile)
        \<and> (if ok then \<exists>i. res = Some i \<and> identity_arrays i \<and> identity_inputs i = (v, r, raw, profile)
              \<and> is_valid_app_elf_sha256 (c_string (id_app_sha i))
            else res = Some out)"
proof (cases "is_valid_version v \<and> is_valid_source_revision r \<and> is_valid_raw_app_elf_sha256 raw
          \<and> is_valid_build_profile profile")
  case True
  define i where "i = the (snd (build_identity (Some out) v r raw profile))"
  have len: "length v \<le> 31" "length profile \<le> 31" "length (sr_value r) \<le> 40"
    using True by (auto simp: valid_version_code is_valid_build_profile_def kBuildProfileMaxBytes_def
      is_valid_source_revision_def kSourceRevisionChars_def split: if_splits)
  have b: "build_identity (Some out) v r raw profile = (True, Some i)"
    using True by (simp add: i_def build_identity_def Let_def)
  have sha: "id_app_sha i = hex_string raw @ [nul]"
    using True assms encode_hex [of raw "fill_nul (id_app_sha out)"]
    by (simp add: i_def build_identity_def Let_def identity_arrays_def kAppElfSha256HexChars_def fill_nul_def)
  then have "c_string (id_app_sha i) = hex_string raw"
    using c_string_padded [of "hex_string raw" 1] nul_free(2) [OF hex_string_lower] by simp
  moreover have "c_string (id_version i) = v" "c_string (id_profile i) = profile"
    using True nul_free by (simp_all add: i_def build_identity_def Let_def c_string_copy valid_version_code)
  moreover have "id_revision_present i = sr_present r" "c_string (id_revision i) = sr_value r"
    using True nul_free(2) [of "sr_value r"] c_string_copy [of "[]" "id_revision out"]
      c_string_copy [of "sr_value r" "id_revision out"]
    by (auto simp: i_def build_identity_def Let_def is_valid_source_revision_def copy_to_def)
  moreover have "identity_arrays i"
    using True assms(1) len sha assms(2)
    by (simp add: identity_arrays_def hex_string_length kAppElfSha256HexChars_def kAppElfSha256Bytes_def)
      (simp add: i_def build_identity_def Let_def copy_to_def fill_nul_def kVersionMaxBytes_def
        kSourceRevisionChars_def kBuildProfileMaxBytes_def)
  ultimately show ?thesis
    using True hex_string_lower [of raw] assms(2)
    by (simp add: b identity_inputs_def decode_hex_string is_valid_app_elf_sha256_def hex_string_length
      kAppElfSha256HexChars_def kAppElfSha256Bytes_def)
next
  case False
  then show ?thesis by (auto simp: build_identity_def)
qed

lemma identity_roundtrip_witness:
  "let out = \<lparr>id_version = replicate 32 nul, id_revision_present = False, id_revision = replicate 41 nul,
      id_app_sha = replicate 65 nul, id_profile = replicate 32 nul\<rparr>;
       r = \<lparr>sr_present = False, sr_value = []\<rparr>
   in \<exists>i. build_identity (Some out) ''1.0.2-rc.1'' r (replicate 32 7) ''freenove-fnk0099'' = (True, Some i)
        \<and> identity_inputs i = (''1.0.2-rc.1'', r, replicate 32 7, ''freenove-fnk0099'')"
proof -
  let ?out = "\<lparr>id_version = replicate 32 nul, id_revision_present = False, id_revision = replicate 41 nul,
      id_app_sha = replicate 65 nul, id_profile = replicate 32 nul\<rparr>"
  let ?r = "\<lparr>sr_present = False, sr_value = []\<rparr>"
  have a: "identity_arrays ?out" "length (replicate 32 (7::u8)) = kAppElfSha256Bytes" by code_simp+
  have "is_valid_version ''1.0.2-rc.1''" "is_valid_source_revision ?r"
    "is_valid_raw_app_elf_sha256 (replicate 32 7)" "is_valid_build_profile ''freenove-fnk0099''" by code_simp+
  then show ?thesis
    using identity_roundtrip [OF a, of "''1.0.2-rc.1''" ?r "''freenove-fnk0099''"]
    by (auto split: prod.splits)
qed

end
