(* ===== verification/Interleaving.thy ===== *)
theory Interleaving
  imports Prelude
begin

text \<open>
  Programs of atomic steps on a shared memory, run by any number of threads in any interleaving. A
  program is a tree: a result, or a step that computes the rest of the program and the next memory.
  A watcher notes what the steps do to the memory; no program sees its notes. \<open>interleaving\<close> is the
  contract of such a system: roles that one thread at a time holds, a relation that every step of any
  thread respects, and one per role that only its holder may leave.
\<close>

section \<open>Programs\<close>

datatype ('s, 'a) prog = Ret 'a | Step "'s \<Rightarrow> ('s, 'a) prog \<times> 's"

primrec pbind :: "('s, 'a) prog \<Rightarrow> ('a \<Rightarrow> ('s, 'b) prog) \<Rightarrow> ('s, 'b) prog" where
  "pbind (Ret a) k = k a"
| "pbind (Step f) k = Step (map_prod (\<lambda>p. pbind p k) id \<circ> f)"

definition atomic :: "('s \<Rightarrow> 'a \<times> 's) \<Rightarrow> ('s, 'a) prog" where
  "atomic f = Step (\<lambda>s. (Ret (fst (f s)), snd (f s)))"

definition load :: "('s \<Rightarrow> 'a) \<Rightarrow> ('s, 'a) prog" where
  "load f = atomic (\<lambda>s. (f s, s))"

definition store :: "('s \<Rightarrow> 's) \<Rightarrow> ('s, unit) prog" where
  "store f = atomic (\<lambda>s. ((), f s))"

definition pthen :: "('s, unit) prog \<Rightarrow> ('s, 'b) prog \<Rightarrow> ('s, 'b) prog" where
  "pthen p q = pbind p (\<lambda>_. q)"

text \<open>Stores one after the other.\<close>

fun stores :: "('s \<Rightarrow> 's) list \<Rightarrow> ('s, unit) prog" where
  "stores [] = Ret ()"
| "stores (f # fs) = pthen (store f) (stores fs)"

text \<open>A program that nothing disturbs.\<close>

primrec alone :: "('s, 'a) prog \<Rightarrow> 's \<Rightarrow> 'a \<times> 's" where
  "alone (Ret a) = (\<lambda>s. (a, s))"
| "alone (Step f) = (\<lambda>s. case (map_prod alone id \<circ> f) s of (r, s') \<Rightarrow> r s')"

lemma alone_bind: "alone (pbind p k) s = (case alone p s of (a, s') \<Rightarrow> alone (k a) s')"
proof (induction p arbitrary: s)
  case (Step f)
  have "alone (pbind (fst (f s)) k) s' = (case alone (fst (f s)) s' of (a, s'') \<Rightarrow> alone (k a) s'')" for s'
    by (rule Step [of "f s"]) (auto intro: fsts.intros)
  then show ?case by (simp add: case_prod_unfold)
qed simp

lemma alone_atomic [simp]: "alone (atomic f) s = f s"
  by (simp add: atomic_def)

section \<open>Running time\<close>

text \<open>The program returns within so many of its own steps, whatever the memory is at each of them.\<close>

fun within :: "nat \<Rightarrow> ('s, 'a) prog \<Rightarrow> bool" where
  "within n (Ret a) \<longleftrightarrow> True"
| "within 0 (Step f) \<longleftrightarrow> False"
| "within (Suc n) (Step f) \<longleftrightarrow> (\<forall>s. within n (fst (f s)))"

lemma within_mono: "within n p \<Longrightarrow> n \<le> m \<Longrightarrow> within m p"
proof (induction n p arbitrary: m rule: within.induct)
  case (3 n f)
  then show ?case by (cases m) auto
qed auto

lemma within_bind: "within n p \<Longrightarrow> (\<And>a. within k (q a)) \<Longrightarrow> within (n + k) (pbind p q)"
proof (induction n p rule: within.induct)
  case (1 n a)
  then show ?case using within_mono [of k "q a" "n + k"] by simp
qed auto

lemma within_atomic [simp]: "within (Suc n) (atomic f)"
  by (simp add: atomic_def)

section \<open>Threads\<close>

text \<open>The programs of the threads, the memory and the notes. A thread that has returned may start again.\<close>

type_synonym ('s, 'a, 'g) pool = "(nat \<Rightarrow> ('s, 'a) prog) \<times> 's \<times> 'g"

datatype 'o sched = Start nat 'o | Run nat

fun pool_step ::
  "('o \<Rightarrow> ('s, 'a) prog) \<Rightarrow> ('s \<Rightarrow> 's \<Rightarrow> 'g \<Rightarrow> 'g) \<Rightarrow> ('s, 'a, 'g) pool \<Rightarrow> 'o sched \<Rightarrow> ('s, 'a, 'g) pool" where
  "pool_step code watch (ts, s, g) (Start t op) =
     (case ts t of Ret _ \<Rightarrow> (ts(t := code op), s, g) | Step _ \<Rightarrow> (ts, s, g))"
| "pool_step code watch (ts, s, g) (Run t) =
     (case ts t of
        Ret _ \<Rightarrow> (ts, s, g)
      | Step f \<Rightarrow> let (p, s') = f s in (ts(t := p), s', watch s s' g))"

text \<open>A thread that gets enough turns returns.\<close>

definition turns :: "nat \<Rightarrow> 'o sched list \<Rightarrow> nat" where
  "turns t es = length (filter (\<lambda>e. case e of Run u \<Rightarrow> u = t | Start u op \<Rightarrow> False) es)"

definition returned :: "('s, 'a) prog \<Rightarrow> bool" where
  "returned p \<longleftrightarrow> (case p of Ret _ \<Rightarrow> True | Step _ \<Rightarrow> False)"

lemma within_step:
  assumes "within n (fst c t)" "\<And>op. e \<noteq> Start t op"
  shows "within (n - turns t [e]) (fst (pool_step code watch c e) t)"
proof (cases e)
  case (Start u op)
  obtain ts s g where c: "c = (ts, s, g)" by (cases c)
  have "u \<noteq> t" using assms(2) Start by blast
  then show ?thesis using assms(1) Start by (auto simp: c turns_def split: prog.splits)
next
  case (Run u)
  obtain ts s g where c: "c = (ts, s, g)" by (cases c)
  show ?thesis
  proof (cases "u = t")
    case True
    then show ?thesis using assms(1) Run
      by (cases "ts t"; cases n) (auto simp: c turns_def case_prod_unfold Let_def)
  next
    case False
    then show ?thesis using assms(1) Run
      by (cases "ts u") (auto simp: c turns_def case_prod_unfold Let_def)
  qed
qed

lemma within_returns:
  assumes "within n (fst c t)" "\<forall>op. Start t op \<notin> set es" "n \<le> turns t es"
  shows "returned (fst (foldl (pool_step code watch) c es) t)"
  using assms
proof (induction es arbitrary: c n)
  case Nil
  then show ?case by (cases "fst c t") (simp_all add: turns_def returned_def)
next
  case (Cons e es)
  have "within (n - turns t [e]) (fst (pool_step code watch c e) t)"
    using Cons.prems(1,2) by (intro within_step) auto
  moreover have "n - turns t [e] \<le> turns t es" 
    using Cons.prems(3) by (cases e) (simp_all add: turns_def split: if_splits)
  ultimately show ?case using Cons.IH Cons.prems(2) by simp
qed

lemma within_pool:
  assumes "\<And>op. within n (code op)" "\<And>t. within n (fst c t)"
  shows "within n (fst (foldl (pool_step code watch) c es) t)"
  using assms(2)
proof (induction es arbitrary: c)
  case (Cons e es)
  obtain ts s g where c: "c = (ts, s, g)" by (cases c)
  have "within n (fst (pool_step code watch c e) t)" for t
  proof (cases e)
    case (Start u op)
    then show ?thesis using Cons.prems assms(1) by (auto simp: c split: prog.splits)
  next
    case (Run u)
    have "within n (fst (f s))" if "ts u = Step f" for f
      using Cons.prems [of u] that within_mono [of "n - 1" "fst (f s)" n] by (cases n) (auto simp: c)
    then show ?thesis using Cons.prems [of t] Run
      by (cases "ts u") (auto simp: c case_prod_unfold Let_def)
  qed
  then show ?case using Cons.IH by simp
qed simp

section \<open>The contract\<close>

locale interleaving =
  fixes code :: "'o \<Rightarrow> ('s, 'a) prog"
    and watch :: "'s \<Rightarrow> 's \<Rightarrow> 'g \<Rightarrow> 'g"
    and bounded :: "'g \<Rightarrow> bool"
    and inv :: "'s \<times> 'g \<Rightarrow> bool"
    and held :: "'s \<Rightarrow> 'r set"
    and base :: "'s \<times> 'g \<Rightarrow> 's \<times> 'g \<Rightarrow> bool"
    and keep :: "'r \<Rightarrow> 's \<times> 'g \<Rightarrow> 's \<times> 'g \<Rightarrow> bool"
  assumes bounded_before: "bounded (watch s s' g) \<Longrightarrow> bounded g"
    and base_refl: "base x x"
    and base_trans: "base x y \<Longrightarrow> base y z \<Longrightarrow> base x z"
    and keep_refl: "keep r x x"
    and keep_trans: "keep r x y \<Longrightarrow> keep r y z \<Longrightarrow> keep r x z"
    and watch_idle: "watch s s g = g"
begin

text \<open>What a thread with roles \<open>m\<close> may rely on, and what its step may do.\<close>

definition env :: "'r set \<Rightarrow> 's \<times> 'g \<Rightarrow> 's \<times> 'g \<Rightarrow> bool" where
  "env m x y \<longleftrightarrow> base x y \<and> (\<forall>r \<in> m. keep r x y) \<and> m \<subseteq> held (fst y)"

definition guar :: "'r set \<Rightarrow> 's \<times> 'g \<Rightarrow> 's \<times> 'g \<Rightarrow> bool" where
  "guar n x y \<longleftrightarrow> base x y \<and> (\<forall>r \<in> held (fst x) - n. keep r x y \<and> r \<in> held (fst y))"

definition roles :: "'r set \<Rightarrow> 's \<Rightarrow> 's \<Rightarrow> 'r set" where
  "roles m s s' = (m \<inter> held s') \<union> (held s' - held s)"

text \<open>
  \<open>sat p m x post\<close>: from the memory and notes \<open>x\<close> of its last step on, the program keeps the invariant
  and its promises in every environment and ends with \<open>post\<close>.
\<close>

primrec sat :: "('s, 'b) prog \<Rightarrow> 'r set \<Rightarrow> 's \<times> 'g \<Rightarrow> ('b \<Rightarrow> 'r set \<Rightarrow> 's \<times> 'g \<Rightarrow> bool) \<Rightarrow> bool" where
  "sat (Ret a) = (\<lambda>m x post. post a m x)"
| "sat (Step f) = (\<lambda>m x post. \<forall>s g. inv (s, g) \<and> env m x (s, g) \<longrightarrow>
     (case (map_prod sat id \<circ> f) s of (rest, s') \<Rightarrow>
        bounded (watch s s' g) \<longrightarrow>
          inv (s', watch s s' g) \<and> guar m (s, g) (s', watch s s' g)
          \<and> rest (roles m s s') (s', watch s s' g) post))"

lemma sat_bind: "sat (pbind p k) m x post = sat p m x (\<lambda>a m' x'. sat (k a) m' x' post)"
proof (induction p arbitrary: m x)
  case (Step f)
  have "sat (pbind (fst (f s)) k) m' x' post = sat (fst (f s)) m' x' (\<lambda>a m' x'. sat (k a) m' x' post)"
    for s m' x' by (rule Step [of "f s"]) (auto intro: fsts.intros)
  then show ?case by (simp add: case_prod_unfold)
qed simp

lemma sat_mono: "sat p m x post \<Longrightarrow> (\<And>a m x. post a m x \<Longrightarrow> post' a m x) \<Longrightarrow> sat p m x post'"
proof (induction p arbitrary: m x)
  case (Step f)
  have "sat (fst (f s)) m' x' post \<Longrightarrow> sat (fst (f s)) m' x' post'" for s m' x'
    by (rule Step.IH [of "f s"]) (auto intro: fsts.intros Step.prems(2))
  then show ?case using Step.prems(1) by (simp add: case_prod_unfold)
qed simp

lemma sat_atomic:
  "sat (atomic f) m x post \<longleftrightarrow>
     (\<forall>s g. inv (s, g) \<and> env m x (s, g) \<longrightarrow>
       (let s' = snd (f s); g' = watch s s' g in bounded g' \<longrightarrow>
          inv (s', g') \<and> guar m (s, g) (s', g') \<and> post (fst (f s)) (roles m s s') (s', g')))"
  by (simp add: atomic_def Let_def)

lemma sat_atomicI:
  assumes "\<And>s g. inv (s, g) \<Longrightarrow> env m x (s, g) \<Longrightarrow> bounded (watch s (snd (f s)) g) \<Longrightarrow>
    inv (snd (f s), watch s (snd (f s)) g) \<and> guar m (s, g) (snd (f s), watch s (snd (f s)) g)
    \<and> post (fst (f s)) (roles m s (snd (f s))) (snd (f s), watch s (snd (f s)) g)"
  shows "sat (atomic f) m x post"
  using assms by (simp add: sat_atomic Let_def)

lemma guar_idle: "guar m x x"
  by (simp add: guar_def base_refl keep_refl)

lemma roles_idle: "m \<subseteq> held s \<Longrightarrow> roles m s s = m"
  by (auto simp: roles_def)

lemma sat_loadI:
  assumes "\<And>s g. inv (s, g) \<Longrightarrow> env m x (s, g) \<Longrightarrow> bounded g \<Longrightarrow> post (f s) m (s, g)"
  shows "sat (load f) m x post"
  unfolding load_def
  by (rule sat_atomicI) (use assms in \<open>auto simp: guar_idle roles_idle watch_idle env_def\<close>)

lemma env_refl: "m \<subseteq> held (fst x) \<Longrightarrow> env m x x"
  by (simp add: env_def base_refl keep_refl)

lemma env_trans: "env m x y \<Longrightarrow> env m y z \<Longrightarrow> env m x z"
  unfolding env_def using base_trans keep_trans by meson

lemma env_guar: "env m x y \<Longrightarrow> guar n y z \<Longrightarrow> m \<inter> n = {} \<Longrightarrow> env m x z"
  unfolding env_def guar_def using base_trans keep_trans by (meson DiffI disjoint_iff subset_iff)

text \<open>
  A well-behaved pool: every role is held by one thread, and every thread is on its way to its
  postcondition.
\<close>

definition thread_ok ::
  "('a \<Rightarrow> 's \<times> 'g \<Rightarrow> bool) \<Rightarrow> ('s, 'a) prog \<Rightarrow> 'r set \<Rightarrow> 's \<times> 'g \<Rightarrow> bool" where
  "thread_ok post p m y \<longleftrightarrow> (\<exists>x. env m x y \<and> sat p m x (\<lambda>a m x. m = {} \<and> post a x))"

definition pool_ok :: "('a \<Rightarrow> 's \<times> 'g \<Rightarrow> bool) \<Rightarrow> ('s, 'a, 'g) pool \<Rightarrow> bool" where
  "pool_ok post c \<longleftrightarrow> (case c of (ts, s, g) \<Rightarrow> bounded g \<longrightarrow> inv (s, g)
     \<and> (\<exists>own. (\<Union>t. own t) = held s \<and> (\<forall>t u. t \<noteq> u \<longrightarrow> own t \<inter> own u = {})
         \<and> (\<forall>t. thread_ok post (ts t) (own t) (s, g))))"

lemma thread_ok_guar:
  "thread_ok post p m y \<Longrightarrow> guar n y z \<Longrightarrow> m \<inter> n = {} \<Longrightarrow> thread_ok post p m z"
  unfolding thread_ok_def using env_guar by blast

lemma thread_step:
  assumes "thread_ok post (Step f) m (s, g)" "inv (s, g)" "f s = (p, s')" "bounded (watch s s' g)"
  shows "inv (s', watch s s' g) \<and> guar m (s, g) (s', watch s s' g)
    \<and> thread_ok post p (roles m s s') (s', watch s s' g)"
proof -
  obtain x where x: "env m x (s, g)" "sat (Step f) m x (\<lambda>a m x. m = {} \<and> post a x)"
    using assms(1) by (auto simp: thread_ok_def)
  then have "inv (s', watch s s' g) \<and> guar m (s, g) (s', watch s s' g)
    \<and> sat p (roles m s s') (s', watch s s' g) (\<lambda>a m x. m = {} \<and> post a x)"
    using assms(2-4) by (auto dest: spec [of _ s] spec [of _ g])
  moreover have "roles m s s' \<subseteq> held s'" by (auto simp: roles_def)
  ultimately show ?thesis unfolding thread_ok_def using env_refl by (metis fst_conv)
qed

lemma pool_okD:
  assumes "pool_ok post (ts, s, g)" "bounded g"
  obtains own where "(\<Union>t. own t) = held s" "\<And>t u. t \<noteq> u \<Longrightarrow> own t \<inter> own u = {}"
    "\<And>t. thread_ok post (ts t) (own t) (s, g)" "inv (s, g)"
  using assms unfolding pool_ok_def by auto

lemma pool_okI:
  assumes "bounded g \<Longrightarrow> inv (s, g)" "(\<Union>t. own t) = held s" "\<And>t u. t \<noteq> u \<Longrightarrow> own t \<inter> own u = {}"
    "\<And>t. thread_ok post (ts t) (own t) (s, g)"
  shows "pool_ok post (ts, s, g)"
  using assms unfolding pool_ok_def by (simp only: prod.case) blast

lemma step_owners:
  assumes own: "(\<Union>t. own t) = held s" "\<And>t u. t \<noteq> u \<Longrightarrow> own t \<inter> own u = {}"
    and kept: "held s - own t \<subseteq> held s'"
  shows "(\<Union>u. (own(t := roles (own t) s s')) u) = held s'"
    "u \<noteq> v \<Longrightarrow> (own(t := roles (own t) s s')) u \<inter> (own(t := roles (own t) s s')) v = {}"
proof -
  have others: "(\<Union>u\<in>-{t}. own u) = held s - own t"
    using own by (auto simp: disjoint_iff) blast
  have "(\<Union>u. (own(t := roles (own t) s s')) u) = roles (own t) s s' \<union> (\<Union>u\<in>-{t}. own u)"
    by auto
  also have "\<dots> = held s'" using kept own(1) unfolding others by (auto simp: roles_def)
  finally show "(\<Union>u. (own(t := roles (own t) s s')) u) = held s'" .
  have r: "roles (own t) s s' \<inter> own w = {}" if "w \<noteq> t" for w
    using own(1) own(2) [OF that] by (auto simp: roles_def)
  show "u \<noteq> v \<Longrightarrow> (own(t := roles (own t) s s')) u \<inter> (own(t := roles (own t) s s')) v = {}"
    using r [of u] r [of v] own(2) [of u v] by (auto simp: Int_commute)
qed

lemma pool_run:
  assumes ok: "pool_ok post c" and bd: "bounded (snd (snd (pool_step code watch c (Run t))))"
  shows "pool_ok post (pool_step code watch c (Run t))
    \<and> (\<exists>n. guar n (snd c) (snd (pool_step code watch c (Run t))))"
proof -
  obtain ts s g where c: "c = (ts, s, g)" by (cases c)
  show ?thesis
  proof (cases "ts t")
    case (Ret a)
    then show ?thesis using ok guar_idle by (auto simp: c)
  next
    case (Step f)
    obtain p s' where f: "f s = (p, s')" by (cases "f s")
    let ?g = "watch s s' g"
    have eq: "pool_step code watch c (Run t) = (ts(t := p), s', ?g)" using Step by (simp add: c f)
    have b: "bounded ?g" using bd by (simp add: eq)
    from pool_okD [OF ok [unfolded c] bounded_before [OF b]] obtain own where
      own: "(\<Union>t. own t) = held s" "\<And>t u. t \<noteq> u \<Longrightarrow> own t \<inter> own u = {}"
        "\<And>t. thread_ok post (ts t) (own t) (s, g)" "inv (s, g)" by metis
    have st: "inv (s', ?g)" "guar (own t) (s, g) (s', ?g)" "thread_ok post p (roles (own t) s s') (s', ?g)"
      using thread_step [OF own(3) [of t, unfolded Step] own(4) f b] by auto
    have kept: "held s - own t \<subseteq> held s'" using st(2) by (auto simp: guar_def)
    have th: "thread_ok post ((ts(t := p)) u) ((own(t := roles (own t) s s')) u) (s', ?g)" for u
      using st(3) thread_ok_guar [OF own(3) [of u] st(2)] own(2) [of u t] by simp
    have "pool_ok post (ts(t := p), s', ?g)"
      by (rule pool_okI [OF st(1) step_owners(1) [OF own(1,2) kept] step_owners(2) [OF own(1,2) kept] th])
    then show ?thesis using st(2) by (simp only: eq [symmetric] c snd_conv) (metis eq c snd_conv)
  qed
qed

lemma pool_start:
  assumes ok: "pool_ok post c" and code: "\<And>x. inv x \<Longrightarrow> sat (code op) {} x (\<lambda>a m x. m = {} \<and> post a x)"
  shows "pool_ok post (pool_step code watch c (Start t op))"
proof -
  obtain ts s g where c: "c = (ts, s, g)" by (cases c)
  show ?thesis
  proof (cases "ts t")
    case (Ret a)
    have "pool_ok post (ts(t := code op), s, g)"
    proof (cases "bounded g")
      case True
      from pool_okD [OF ok [unfolded c] this] obtain own where
        own: "(\<Union>t. own t) = held s" "\<And>t u. t \<noteq> u \<Longrightarrow> own t \<inter> own u = {}"
          "\<And>t. thread_ok post (ts t) (own t) (s, g)" "inv (s, g)" by metis
      have "own t = {}" using own(3) [of t] Ret by (auto simp: thread_ok_def)
      then have "thread_ok post (code op) (own t) (s, g)"
        using code [OF own(4)] env_refl [of "{}" "(s, g)"] by (auto simp: thread_ok_def)
      then show ?thesis using own by (intro pool_okI) auto
    qed (simp add: pool_ok_def)
    then show ?thesis using Ret by (simp add: c)
  qed (use ok in \<open>simp add: c\<close>)
qed

end

text \<open>Correct operations keep every pool of threads well-behaved.\<close>

locale interleaved = interleaving +
  fixes start :: "'b \<times> 'd"
    and post :: "'c \<Rightarrow> 'b \<times> 'd \<Rightarrow> bool"
    and dead :: "'c"
  assumes start_inv: "inv start"
    and start_free: "held (fst start) = {}"
    and code_sat: "inv x \<Longrightarrow> sat (code op) {} x (\<lambda>a m x. m = {} \<and> post a x)"
    and post_base: "post a x \<Longrightarrow> base x y \<Longrightarrow> post a y"
    and dead_post: "post dead x"
begin

definition boot where
  "boot = ((\<lambda>t. Ret dead), start)"

lemma boot_ok: "pool_ok post boot"
proof -
  have "thread_ok post (Ret dead) {} start"
    unfolding thread_ok_def using env_refl [of "{}" start] dead_post by (intro exI [of _ start]) simp
  then show ?thesis
    unfolding boot_def
    using pool_okI [of "snd start" "fst start" "\<lambda>t. {}" post "\<lambda>t. Ret dead"] start_inv start_free by simp
qed

lemma step_ok:
  assumes "pool_ok post c"
  shows "pool_ok post (pool_step code watch c e)"
proof (cases e)
  case (Start t op)
  then show ?thesis using pool_start [OF assms code_sat] by simp
next
  case (Run t)
  then show ?thesis
  proof (cases "bounded (snd (snd (pool_step code watch c e)))")
    case False
    then show ?thesis by (cases "pool_step code watch c e") (simp add: pool_ok_def)
  qed (use pool_run [OF assms] in simp)
qed

lemma run_ok: "pool_ok post c \<Longrightarrow> pool_ok post (foldl (pool_step code watch) c es)"
proof (induction es arbitrary: c)
  case (Cons e es)
  show ?case using Cons.IH [OF step_ok [OF Cons.prems]] by simp
qed simp

lemma reach_ok: "pool_ok post (foldl (pool_step code watch) boot es)"
  by (rule run_ok [OF boot_ok])

lemma reach_inv: "foldl (pool_step code watch) boot es = (ts, x) \<Longrightarrow> bounded (snd x) \<Longrightarrow> inv x"
  using reach_ok [of es] by (cases x) (simp add: pool_ok_def)

lemma step_guar:
  assumes "pool_ok post c" "bounded (snd (snd (pool_step code watch c e)))"
  shows "\<exists>n. guar n (snd c) (snd (pool_step code watch c e))"
proof (cases e)
  case (Start t op)
  then have "snd (pool_step code watch c e) = snd c" by (cases c; cases "fst c t") auto
  then show ?thesis using guar_idle by metis
qed (use pool_run [OF assms(1)] assms(2) in auto)

lemma bounded_run: "bounded (snd (snd (foldl (pool_step code watch) c es))) \<Longrightarrow> bounded (snd (snd c))"
proof (induction es arbitrary: c)
  case (Cons e es)
  then have "bounded (snd (snd (pool_step code watch c e)))" by simp
  then show ?case
    by (cases c; cases e)
      (auto simp: case_prod_unfold Let_def split: prog.splits dest: bounded_before)
qed simp

lemma run_base:
  "pool_ok post c \<Longrightarrow> bounded (snd (snd (foldl (pool_step code watch) c es)))
     \<Longrightarrow> base (snd c) (snd (foldl (pool_step code watch) c es))"
proof (induction es arbitrary: c)
  case (Cons e es)
  then have "bounded (snd (snd (pool_step code watch c e)))" using bounded_run by simp
  then have "base (snd c) (snd (pool_step code watch c e))"
    using step_guar [OF Cons.prems(1)] by (auto simp: guar_def)
  moreover have "base (snd (pool_step code watch c e)) (snd (foldl (pool_step code watch) c (e # es)))"
    using Cons.IH [OF step_ok [OF Cons.prems(1)]] Cons.prems(2) by simp
  ultimately show ?case by (rule base_trans)
qed (simp add: base_refl)

lemma reach_result:
  assumes "foldl (pool_step code watch) boot es = (ts, x)" "bounded (snd x)" "ts t = Ret a"
  shows "post a x"
proof -
  obtain s g where x: "x = (s, g)" by (cases x)
  have "pool_ok post (ts, s, g)" using reach_ok [of es] assms(1) x by simp
  from pool_okD [OF this] assms(2) x obtain m where "thread_ok post (Ret a) m (s, g)" using assms(3) by (metis snd_conv)
  then show ?thesis unfolding x thread_ok_def using post_base by (auto simp: env_def)
qed

end

end
