(* ===== verification/HidRoute.thy ===== *)
theory HidRoute
  imports Interleaving
begin

text \<open>
  \<open>hid_route\<close>: the output route, its authority generation and the gates that callbacks close without
  waiting. Every operation of \<open>StateMachine\<close> is a program of atomic loads, stores and exchanges on the
  shared fields, which any number of threads interleave under sequential consistency. A loop around
  one compare-exchange (\<open>publish_usb_lifecycle_veto\<close>, \<open>clear_usb_publication\<close>) and the loop that skips
  two reserved tokens are one atomic step each.
\<close>

section \<open>State\<close>

datatype output_route = RouteNone | RouteUsb | RouteBle

datatype route_transition = RouteStable | RouteReleasing

datatype durable_state = DurableNone | DurablePublishing | DurableActive

record route_snapshot =
  sn_desired :: output_route
  sn_active :: output_route
  sn_generation :: u32
  sn_transition :: route_transition
  sn_pending :: bool
  sn_coherent :: bool

datatype claim_result = ClaimedExact | ClaimStale | ClaimPending

record route =
  publication_sequence :: u32
  generation :: u32
  desired :: output_route
  active :: output_route
  transition :: route_transition
  writer_active :: bool
  conditional_token :: u32
  conditional_generation :: u32
  next_conditional_token :: u32
  durable_generation :: u32
  durable_state :: durable_state
  usb_publication_state :: u32

definition route_init :: route where
  "route_init = \<lparr>publication_sequence = 0, generation = 0, desired = RouteNone, active = RouteNone,
     transition = RouteStable, writer_active = False, conditional_token = 0, conditional_generation = 0,
     next_conditional_token = 1, durable_generation = 0, durable_state = DurableNone,
     usb_publication_state = 0\<rparr>"

definition kNoConditionalInvalidationToken :: u32 where "kNoConditionalInvalidationToken = 0"
definition kConditionalPublishing :: u32 where "kConditionalPublishing = - 1"
definition kUsbPublicationSerialMask :: u32 where "kUsbPublicationSerialMask = push_bit 30 1 - 1"
definition kUsbPublicationActive :: u32 where "kUsbPublicationActive = push_bit 30 1"
definition kUsbPublicationVeto :: u32 where "kUsbPublicationVeto = push_bit 31 1"

section \<open>Gates and observation\<close>

definition usb_gate_closed :: "u32 \<Rightarrow> bool" where
  "usb_gate_closed w \<longleftrightarrow> w AND (kUsbPublicationActive OR kUsbPublicationVeto) \<noteq> 0"

definition invalidation_pending_without_usb_publication :: "(route, bool) prog" where
  "invalidation_pending_without_usb_publication =
     pbind (load conditional_token) (\<lambda>token.
     if token \<noteq> kNoConditionalInvalidationToken then Ret True
     else pbind (load durable_state) (\<lambda>st. Ret (st \<noteq> DurableNone)))"

definition invalidation_pending :: "(route, bool) prog" where
  "invalidation_pending =
     pbind (load usb_publication_state) (\<lambda>w.
     if usb_gate_closed w then Ret True else invalidation_pending_without_usb_publication)"

definition sequence_odd :: "u32 \<Rightarrow> bool" where
  "sequence_odd w \<longleftrightarrow> w AND 1 \<noteq> 0"

lemma sequence_odd_iff [simp]: "sequence_odd w \<longleftrightarrow> odd w"
  by (simp add: sequence_odd_def flag_tests bit_0)

fun snapshot_from :: "nat \<Rightarrow> (route, route_snapshot) prog" where
  "snapshot_from 0 =
     pbind (load generation) (\<lambda>n.
     Ret \<lparr>sn_desired = RouteNone, sn_active = RouteNone, sn_generation = n, sn_transition = RouteStable,
          sn_pending = True, sn_coherent = False\<rparr>)"
| "snapshot_from (Suc left) =
     pbind (load publication_sequence) (\<lambda>seq0.
     if sequence_odd seq0 then snapshot_from left
     else
       pbind (load desired) (\<lambda>d. pbind (load active) (\<lambda>a. pbind (load generation) (\<lambda>n.
       pbind (load transition) (\<lambda>t. pbind invalidation_pending (\<lambda>pending.
       pbind (load publication_sequence) (\<lambda>seq1.
       if seq0 = seq1 \<and> \<not> sequence_odd seq1
       then Ret \<lparr>sn_desired = d, sn_active = a, sn_generation = n, sn_transition = t,
                 sn_pending = pending, sn_coherent = True\<rparr>
       else snapshot_from left)))))))"

definition snapshot :: "(route, route_snapshot) prog" where
  "snapshot = snapshot_from 3"

definition route_matches :: "output_route \<Rightarrow> u32 \<Rightarrow> (route, bool) prog" where
  "route_matches r n =
     pbind invalidation_pending (\<lambda>pending.
     if pending then Ret False
     else pbind (load active) (\<lambda>a.
       if a \<noteq> r then Ret False
       else pbind (load generation) (\<lambda>n'. Ret (n' = n))))"

section \<open>The USB publication gate\<close>

definition advance_usb_publication_serial :: "u32 \<Rightarrow> u32" where
  "advance_usb_publication_serial w =
     ((w AND kUsbPublicationSerialMask) + 1) AND kUsbPublicationSerialMask"

definition usb_publication_cut :: "(route, u32) prog" where
  "usb_publication_cut = load usb_publication_state"

definition veto_word :: "u32 \<Rightarrow> u32" where
  "veto_word w =
     (let flags = w AND (kUsbPublicationActive OR kUsbPublicationVeto)
      in advance_usb_publication_serial w OR flags
         OR (if flags AND kUsbPublicationActive \<noteq> 0 then kUsbPublicationVeto else 0))"

definition publish_usb_lifecycle_veto :: "(route, unit) prog" where
  "publish_usb_lifecycle_veto =
     store (\<lambda>s. s\<lparr>usb_publication_state := veto_word (usb_publication_state s)\<rparr>)"

text \<open>A compare-exchange on the USB word.\<close>

definition cas_usb :: "u32 \<Rightarrow> u32 \<Rightarrow> (route, bool) prog" where
  "cas_usb expected to =
     atomic (\<lambda>s. if usb_publication_state s = expected then (True, s\<lparr>usb_publication_state := to\<rparr>)
                 else (False, s))"

definition begin_usb_publication :: "u32 \<Rightarrow> (route, u32 option) prog" where
  "begin_usb_publication expected_cut =
     (if usb_gate_closed expected_cut then Ret None
      else
        (let publication = advance_usb_publication_serial expected_cut OR kUsbPublicationActive
         in pbind (cas_usb expected_cut publication) (\<lambda>ok. Ret (if ok then Some publication else None))))"

definition finish_usb_publication :: "u32 \<Rightarrow> (route, bool) prog" where
  "finish_usb_publication identity = cas_usb identity (advance_usb_publication_serial identity)"

definition clear_usb_publication :: "(route, unit) prog" where
  "clear_usb_publication =
     store (\<lambda>s. if usb_publication_state s AND kUsbPublicationActive \<noteq> 0
                then s\<lparr>usb_publication_state := advance_usb_publication_serial (usb_publication_state s)\<rparr>
                else s)"

section \<open>The writer\<close>

definition tick :: "route \<Rightarrow> route" where
  "tick s = s\<lparr>publication_sequence := publication_sequence s + 1\<rparr>"

definition begin_publication :: "(route, unit) prog" where
  "begin_publication = store tick"

definition end_publication :: "(route, unit) prog" where
  "end_publication = store tick"

definition try_enter_writer :: "(route, bool) prog" where
  "try_enter_writer =
     atomic (\<lambda>s. if writer_active s then (False, s) else (True, s\<lparr>writer_active := True\<rparr>))"

definition leave_writer :: "(route, unit) prog" where
  "leave_writer = store (\<lambda>s. s\<lparr>writer_active := False\<rparr>)"

definition cas_token :: "u32 \<Rightarrow> u32 \<Rightarrow> (route, bool) prog" where
  "cas_token expected to =
     atomic (\<lambda>s. if conditional_token s = expected then (True, s\<lparr>conditional_token := to\<rparr>) else (False, s))"

definition clear_superseded_conditional_invalidation_locked :: "(route, unit) prog" where
  "clear_superseded_conditional_invalidation_locked =
     pbind (load conditional_token) (\<lambda>token.
     if token = kNoConditionalInvalidationToken \<or> token = kConditionalPublishing then Ret ()
     else
       pbind (load conditional_generation) (\<lambda>target. pbind (load generation) (\<lambda>n.
       pbind (load desired) (\<lambda>d. pbind (load active) (\<lambda>a. pbind (load transition) (\<lambda>t.
       if n = target \<and> d = RouteUsb \<and> a = RouteUsb \<and> t = RouteStable then Ret ()
       else pbind (cas_token token kNoConditionalInvalidationToken) (\<lambda>_. Ret ())))))))"

definition put_none :: "(route, unit) prog" where
  "put_none = stores [(\<lambda>s. s\<lparr>desired := RouteNone\<rparr>), (\<lambda>s. s\<lparr>active := RouteNone\<rparr>),
     (\<lambda>s. s\<lparr>generation := generation s + 1\<rparr>), (\<lambda>s. s\<lparr>transition := RouteStable\<rparr>)]"

definition commit_none_locked :: "output_route \<Rightarrow> u32 \<Rightarrow> bool \<Rightarrow> (route, bool) prog" where
  "commit_none_locked expected_route expected_generation require_exact_match =
     pbind (load active) (\<lambda>current_route. pbind (load generation) (\<lambda>current_generation.
     if current_route = RouteNone then Ret False
     else if require_exact_match
       \<and> (current_route \<noteq> expected_route \<or> current_generation \<noteq> expected_generation) then Ret False
     else pthen begin_publication (pthen put_none (pthen end_publication (Ret True)))))"

definition cas_durable :: "durable_state \<Rightarrow> durable_state \<Rightarrow> (route, durable_state) prog" where
  "cas_durable expected to =
     atomic (\<lambda>s. (durable_state s, if durable_state s = expected then s\<lparr>durable_state := to\<rparr> else s))"

text \<open>The two steps of \<open>process_durable_invalidation_locked\<close>: retire the target, drop the request.\<close>

definition retire_target :: "u32 \<Rightarrow> (route, unit) prog" where
  "retire_target target =
     pbind (load generation) (\<lambda>current. pbind (load active) (\<lambda>a.
     if current = target \<and> a \<noteq> RouteNone
     then pbind (load active) (\<lambda>r. pbind (commit_none_locked r target True) (\<lambda>_. Ret ()))
     else Ret ()))"

definition drop_request :: "u32 \<Rightarrow> (route, unit) prog" where
  "drop_request target =
     pbind (load generation) (\<lambda>n. pbind (load active) (\<lambda>a.
     if n \<noteq> target \<or> a = RouteNone
     then pbind (cas_durable DurableActive DurableNone) (\<lambda>_. Ret ())
     else Ret ()))"

definition process_durable_invalidation_locked :: "(route, unit) prog" where
  "process_durable_invalidation_locked =
     pbind (load durable_state) (\<lambda>st.
     if st \<noteq> DurableActive then Ret ()
     else pbind (load durable_generation) (\<lambda>target. pthen (retire_target target) (drop_request target)))"

definition leave_writer_with_handoff :: "(route, unit) prog" where
  "leave_writer_with_handoff =
     pthen process_durable_invalidation_locked
       (pthen clear_superseded_conditional_invalidation_locked leave_writer)"

section \<open>Invalidation requests\<close>

definition publish_durable_invalidation :: "u32 \<Rightarrow> (route, bool) prog" where
  "publish_durable_invalidation n =
     pbind (cas_durable DurableNone DurablePublishing) (\<lambda>observed.
     if observed \<noteq> DurableNone
     then
       if observed \<noteq> DurableActive then Ret False
       else pbind (load durable_generation) (\<lambda>target. Ret (target = n))
     else pthen (stores [(\<lambda>s. s\<lparr>durable_generation := n\<rparr>), (\<lambda>s. s\<lparr>durable_state := DurableActive\<rparr>)])
       (Ret True))"

definition reserved_token :: "u32 \<Rightarrow> bool" where
  "reserved_token w \<longleftrightarrow> w = kNoConditionalInvalidationToken \<or> w = kConditionalPublishing"

definition allocate_conditional_token :: "(route, u32) prog" where
  "allocate_conditional_token =
     atomic (\<lambda>s.
       let t0 = next_conditional_token s;
           t1 = (if reserved_token t0 then t0 + 1 else t0);
           token = (if reserved_token t1 then t1 + 1 else t1)
       in (token, s\<lparr>next_conditional_token := token + 1\<rparr>))"

definition conditional_invalidation_matches :: "u32 \<Rightarrow> u32 \<Rightarrow> (route, bool) prog" where
  "conditional_invalidation_matches n token =
     (if token = kNoConditionalInvalidationToken \<or> token = kConditionalPublishing then Ret False
      else pbind (load conditional_generation) (\<lambda>target.
        if target \<noteq> n then Ret False
        else pbind (load conditional_token) (\<lambda>t. Ret (t = token))))"

text \<open>The caller's token is an argument and, updated, part of the result.\<close>

definition publish_conditional_invalidation :: "u32 \<Rightarrow> u32 \<Rightarrow> (route, bool \<times> u32) prog" where
  "publish_conditional_invalidation n token =
     (if token \<noteq> kNoConditionalInvalidationToken
      then pbind (conditional_invalidation_matches n token) (\<lambda>ok. Ret (ok, token))
      else pbind (cas_token kNoConditionalInvalidationToken kConditionalPublishing) (\<lambda>ok.
        if \<not> ok then Ret (False, token)
        else pbind allocate_conditional_token (\<lambda>t.
          pthen (stores [(\<lambda>s. s\<lparr>conditional_generation := n\<rparr>), (\<lambda>s. s\<lparr>conditional_token := t\<rparr>)])
            (Ret (True, t)))))"

definition cancel_conditional_invalidation :: "u32 \<Rightarrow> u32 \<Rightarrow> (route, bool) prog" where
  "cancel_conditional_invalidation n token =
     pbind (conditional_invalidation_matches n token) (\<lambda>ok.
     if \<not> ok then Ret False else cas_token token kNoConditionalInvalidationToken)"

section \<open>Operations\<close>

text \<open>Leaving the writer and giving a result.\<close>

definition leave_with :: "'a \<Rightarrow> (route, 'a) prog" where
  "leave_with a = pthen leave_writer_with_handoff (Ret a)"

definition put_route :: "output_route \<Rightarrow> (route, unit) prog" where
  "put_route r = stores [(\<lambda>s. s\<lparr>desired := r\<rparr>), (\<lambda>s. s\<lparr>active := r\<rparr>), (\<lambda>s. s\<lparr>transition := RouteStable\<rparr>)]"

definition next_generation :: "(route, u32) prog" where
  "next_generation = atomic (\<lambda>s. (generation s + 1, s\<lparr>generation := generation s + 1\<rparr>))"

text \<open>The route is still selectable: no gate is closed and no route is desired or active.\<close>

definition route_unavailable :: "(route, bool) prog" where
  "route_unavailable =
     pbind invalidation_pending (\<lambda>pending.
     if pending then Ret True
     else pbind (load desired) (\<lambda>d. if d \<noteq> RouteNone then Ret True
       else pbind (load active) (\<lambda>a. if a \<noteq> RouteNone then Ret True
         else pbind (load transition) (\<lambda>t. Ret (t \<noteq> RouteStable)))))"

text \<open>A callback asked for invalidation since the publication began.\<close>

definition publication_lost :: "output_route \<Rightarrow> u32 \<Rightarrow> (route, bool) prog" where
  "publication_lost r identity =
     pbind invalidation_pending_without_usb_publication (\<lambda>pending.
     if pending then Ret True
     else if r = RouteUsb then pbind (load usb_publication_state) (\<lambda>w. Ret (w \<noteq> identity))
     else Ret False)"

text \<open>The last check of a commit reads the route without the writer.\<close>

definition commit_observed :: "output_route \<Rightarrow> u32 \<Rightarrow> (route, bool) prog" where
  "commit_observed r published_generation =
     pbind snapshot (\<lambda>committed.
     Ret (sn_coherent committed \<and> \<not> sn_pending committed \<and> sn_desired committed = r \<and> sn_active committed = r
       \<and> sn_generation committed = published_generation \<and> sn_transition committed = RouteStable))"

definition clear_if_usb :: "output_route \<Rightarrow> (route, unit) prog" where
  "clear_if_usb r = (if r = RouteUsb then clear_usb_publication else Ret ())"

definition commit_publish :: "output_route \<Rightarrow> u32 \<Rightarrow> (route, bool) prog" where
  "commit_publish r identity =
     pthen begin_publication (pbind next_generation (\<lambda>published_generation.
     pbind (publication_lost r identity) (\<lambda>lost.
     if lost
     then pthen (put_route RouteNone) (pthen end_publication (pthen (clear_if_usb r) (leave_with False)))
     else
       pthen (put_route r) (pthen end_publication
         (pbind (if r = RouteUsb then finish_usb_publication identity else Ret True) (\<lambda>finished.
          if \<not> finished
          then pbind (commit_none_locked RouteUsb published_generation True) (\<lambda>_.
            pthen clear_usb_publication (leave_with False))
          else pthen leave_writer_with_handoff (commit_observed r published_generation)))))))"

definition commit_if_none :: "output_route \<Rightarrow> u32 \<Rightarrow> (route, bool) prog" where
  "commit_if_none r expected_cut =
     (if r \<noteq> RouteUsb \<and> r \<noteq> RouteBle then Ret False
      else pbind try_enter_writer (\<lambda>entered.
      if \<not> entered then Ret False
      else pbind route_unavailable (\<lambda>unavailable.
      if unavailable then leave_with False
      else if r = RouteUsb
      then pbind (begin_usb_publication expected_cut) (\<lambda>identity.
        case identity of None \<Rightarrow> leave_with False | Some w \<Rightarrow> commit_publish r w)
      else commit_publish r 0)))"

definition commit_usb_if_none :: "u32 option \<Rightarrow> (route, bool) prog" where
  "commit_usb_if_none expected_cut =
     (case expected_cut of
        None \<Rightarrow> pbind usb_publication_cut (commit_if_none RouteUsb)
      | Some w \<Rightarrow> commit_if_none RouteUsb w)"

definition commit_ble_if_none :: "(route, bool) prog" where
  "commit_ble_if_none = commit_if_none RouteBle 0"

text \<open>The stage-A snapshot of a release is part of the result.\<close>

definition not_releasable :: "output_route \<Rightarrow> (route, bool) prog" where
  "not_releasable r =
     pbind invalidation_pending (\<lambda>pending.
     if pending then Ret True
     else pbind (load desired) (\<lambda>d. if d \<noteq> r then Ret True
       else pbind (load active) (\<lambda>a. if a \<noteq> r then Ret True
         else pbind (load transition) (\<lambda>t. Ret (t \<noteq> RouteStable)))))"

definition begin_release :: "output_route \<Rightarrow> (route, bool \<times> route_snapshot option) prog" where
  "begin_release r =
     pbind try_enter_writer (\<lambda>entered.
     if \<not> entered then Ret (False, None)
     else pbind (not_releasable r) (\<lambda>refused.
     if refused then leave_with (False, None)
     else
       pthen begin_publication
         (pthen (stores [(\<lambda>s. s\<lparr>desired := RouteNone\<rparr>), (\<lambda>s. s\<lparr>transition := RouteReleasing\<rparr>)])
           (pthen end_publication (pbind snapshot (\<lambda>stage_a.
            pthen leave_writer_with_handoff (pbind snapshot (\<lambda>current.
            Ret (sn_coherent stage_a \<and> sn_coherent current \<and> \<not> sn_pending current
                 \<and> sn_desired current = RouteNone \<and> sn_active current = r
                 \<and> sn_generation current = sn_generation stage_a \<and> sn_transition current = RouteReleasing,
              Some stage_a)))))))))"

definition stage_a_matches :: "output_route \<Rightarrow> route_snapshot \<Rightarrow> (route, bool) prog" where
  "stage_a_matches r expected =
     pbind invalidation_pending (\<lambda>pending.
     if pending \<or> \<not> (sn_desired expected = RouteNone \<and> sn_active expected = r
         \<and> sn_transition expected = RouteReleasing) then Ret False
     else pbind (load desired) (\<lambda>d. if d \<noteq> RouteNone then Ret False
       else pbind (load active) (\<lambda>a. if a \<noteq> r then Ret False
         else pbind (load transition) (\<lambda>t. if t \<noteq> RouteReleasing then Ret False
           else pbind (load generation) (\<lambda>n. Ret (n = sn_generation expected))))))"

definition complete_release :: "output_route \<Rightarrow> route_snapshot \<Rightarrow> (route, bool) prog" where
  "complete_release r expected =
     pbind try_enter_writer (\<lambda>entered.
     if \<not> entered then Ret False
     else pbind (stage_a_matches r expected) (\<lambda>matches_stage_a.
     if \<not> matches_stage_a then leave_with False
     else
       pthen begin_publication
         (pthen (stores [(\<lambda>s. s\<lparr>active := RouteNone\<rparr>), (\<lambda>s. s\<lparr>generation := generation s + 1\<rparr>),
                         (\<lambda>s. s\<lparr>transition := RouteStable\<rparr>)])
           (pthen end_publication (pthen leave_writer_with_handoff
             (pbind invalidation_pending (\<lambda>pending. Ret (\<not> pending))))))))"

definition begin_usb_release :: "(route, bool \<times> route_snapshot option) prog" where
  "begin_usb_release = begin_release RouteUsb"

definition complete_usb_release_if_matches :: "route_snapshot \<Rightarrow> (route, bool) prog" where
  "complete_usb_release_if_matches expected = complete_release RouteUsb expected"

definition begin_ble_release :: "(route, bool \<times> route_snapshot option) prog" where
  "begin_ble_release = begin_release RouteBle"

definition complete_ble_release_if_matches :: "route_snapshot \<Rightarrow> (route, bool) prog" where
  "complete_ble_release_if_matches expected = complete_release RouteBle expected"

definition invalidate :: "(route, bool) prog" where
  "invalidate =
     pbind (load generation) (\<lambda>target. pbind (publish_durable_invalidation target) (\<lambda>published.
     if \<not> published then Ret False
     else pbind try_enter_writer (\<lambda>entered.
       if \<not> entered then Ret False
       else pbind (commit_none_locked RouteUsb 0 False) leave_with)))"

definition same_route :: "route_snapshot \<Rightarrow> route_snapshot \<Rightarrow> bool" where
  "same_route a b \<longleftrightarrow> sn_desired a = sn_desired b \<and> sn_active a = sn_active b
     \<and> sn_generation a = sn_generation b \<and> sn_transition a = sn_transition b"

definition invalidate_if_matches :: "route_snapshot \<Rightarrow> (route, bool) prog" where
  "invalidate_if_matches expected =
     (if \<not> sn_coherent expected \<or> sn_active expected = RouteNone then Ret False
      else pbind snapshot (\<lambda>observed.
      if \<not> sn_coherent observed \<or> \<not> same_route observed expected then Ret False
      else pbind (publish_durable_invalidation (sn_generation expected)) (\<lambda>published.
      if \<not> published then Ret False
      else pbind try_enter_writer (\<lambda>entered.
        if \<not> entered then Ret False
        else pbind (commit_none_locked (sn_active expected) (sn_generation expected) True) leave_with))))"

text \<open>
  The claim leaves the writer held when it is exact. The claim object is its expected snapshot and
  token; a caller's token is an argument and part of the result.
\<close>

definition still_exact :: "route_snapshot \<Rightarrow> (route, bool) prog" where
  "still_exact expected =
     pbind (load desired) (\<lambda>d. if d \<noteq> sn_desired expected then Ret False
     else pbind (load active) (\<lambda>a. if a \<noteq> sn_active expected then Ret False
     else pbind (load generation) (\<lambda>n. if n \<noteq> sn_generation expected then Ret False
     else pbind (load transition) (\<lambda>t. Ret (t = sn_transition expected)))))"

definition claim_invalidation_if_matches ::
  "route_snapshot \<Rightarrow> u32 \<Rightarrow> (route, claim_result \<times> u32) prog" where
  "claim_invalidation_if_matches expected token =
     (if \<not> sn_coherent expected \<or> sn_active expected = RouteNone then Ret (ClaimStale, token)
      else pbind snapshot (\<lambda>observed.
      if sn_coherent observed \<and> \<not> same_route observed expected
      then
        if token \<noteq> kNoConditionalInvalidationToken
        then pbind (cancel_conditional_invalidation (sn_generation expected) token)
          (\<lambda>_. Ret (ClaimStale, kNoConditionalInvalidationToken))
        else Ret (ClaimStale, token)
      else pbind (publish_conditional_invalidation (sn_generation expected) token) (\<lambda>(published, token').
      if \<not> published then Ret (ClaimStale, token')
      else pbind try_enter_writer (\<lambda>entered.
      if \<not> entered then Ret (ClaimPending, token')
      else pbind (still_exact expected) (\<lambda>exact.
      if \<not> exact
      then pbind (cancel_conditional_invalidation (sn_generation expected) token')
        (\<lambda>_. leave_with (ClaimStale, kNoConditionalInvalidationToken))
      else Ret (ClaimedExact, token'))))))"

definition retire_invalidation_claim :: "route_snapshot \<Rightarrow> u32 \<Rightarrow> (route, bool \<times> u32) prog" where
  "retire_invalidation_claim expected token =
     pbind (commit_none_locked (sn_active expected) (sn_generation expected) True) (\<lambda>changed.
     if changed
     then pbind (cancel_conditional_invalidation (sn_generation expected) token)
       (\<lambda>_. Ret (True, kNoConditionalInvalidationToken))
     else Ret (False, token))"

definition release_invalidation_claim :: "route_snapshot \<Rightarrow> u32 \<Rightarrow> (route, unit) prog" where
  "release_invalidation_claim expected token =
     pbind (cancel_conditional_invalidation (sn_generation expected) token) (\<lambda>_. leave_writer_with_handoff)"

text \<open>A whole use of a claim: an exact one is retired or not, and released.\<close>

definition with_claim :: "route_snapshot \<Rightarrow> u32 \<Rightarrow> bool \<Rightarrow> (route, claim_result \<times> bool) prog" where
  "with_claim expected token retire =
     pbind (claim_invalidation_if_matches expected token) (\<lambda>(res, token').
     if res \<noteq> ClaimedExact then Ret (res, False)
     else pbind (if retire then retire_invalidation_claim expected token' else Ret (False, token'))
       (\<lambda>(retired, token''). pthen (release_invalidation_claim expected token'') (Ret (res, retired))))"

section \<open>Calls\<close>

datatype route_call =
    CallSnapshot
  | CallMatches output_route u32
  | CallCut
  | CallVeto
  | CallCommitUsb "u32 option"
  | CallCommitBle
  | CallBeginUsbRelease
  | CallCompleteUsbRelease route_snapshot
  | CallBeginBleRelease
  | CallCompleteBleRelease route_snapshot
  | CallInvalidate
  | CallInvalidateIf route_snapshot
  | CallClaim route_snapshot u32 bool
  | CallCancel u32 u32

datatype route_answer =
    AnsNone
  | AnsBool bool
  | AnsSnapshot route_snapshot
  | AnsCut u32
  | AnsCommit output_route bool
  | AnsRelease output_route bool "route_snapshot option"
  | AnsClaim claim_result bool

definition answer :: "('a \<Rightarrow> route_answer) \<Rightarrow> (route, 'a) prog \<Rightarrow> (route, route_answer) prog" where
  "answer f p = pbind p (\<lambda>a. Ret (f a))"

fun route_code :: "route_call \<Rightarrow> (route, route_answer) prog" where
  "route_code CallSnapshot = answer AnsSnapshot snapshot"
| "route_code (CallMatches r n) = answer AnsBool (route_matches r n)"
| "route_code CallCut = answer AnsCut usb_publication_cut"
| "route_code CallVeto = answer (\<lambda>_. AnsNone) publish_usb_lifecycle_veto"
| "route_code (CallCommitUsb c) = answer (AnsCommit RouteUsb) (commit_usb_if_none c)"
| "route_code CallCommitBle = answer (AnsCommit RouteBle) commit_ble_if_none"
| "route_code CallBeginUsbRelease = answer (\<lambda>(ok, sn). AnsRelease RouteUsb ok sn) begin_usb_release"
| "route_code (CallCompleteUsbRelease e) = answer AnsBool (complete_usb_release_if_matches e)"
| "route_code CallBeginBleRelease = answer (\<lambda>(ok, sn). AnsRelease RouteBle ok sn) begin_ble_release"
| "route_code (CallCompleteBleRelease e) = answer AnsBool (complete_ble_release_if_matches e)"
| "route_code CallInvalidate = answer AnsBool invalidate"
| "route_code (CallInvalidateIf e) = answer AnsBool (invalidate_if_matches e)"
| "route_code (CallClaim e token retire) = answer (\<lambda>(res, ok). AnsClaim res ok) (with_claim e token retire)"
| "route_code (CallCancel n token) = answer AnsBool (cancel_conditional_invalidation n token)"

end
