(* ===== verification/RouteAuthority.thy ===== *)
theory RouteAuthority
  imports HidRoute
begin

text \<open>
  The correctness of \<open>hid_route\<close>: what the threads that run its calls promise each other, the rules for
  the steps of a thread that holds the writer, the proof of every call, and what holds in every
  interleaving.
\<close>

section \<open>What the route promises\<close>

text \<open>
  A publication: desired and active route, generation and transition. Publications follow one
  another by selection, lost selection, begin of a release and retirement, and every change of
  the active route takes a new generation.
\<close>

type_synonym route_data = "output_route \<times> output_route \<times> u32 \<times> route_transition"

definition route_data :: "route \<Rightarrow> route_data" where
  "route_data s = (desired s, active s, generation s, transition s)"

inductive route_move :: "route_data \<Rightarrow> route_data \<Rightarrow> bool" where
  select: "r \<noteq> RouteNone \<Longrightarrow> route_move (RouteNone, RouteNone, n, RouteStable) (r, r, n + 1, RouteStable)"
| lost: "route_move (RouteNone, RouteNone, n, RouteStable) (RouteNone, RouteNone, n + 1, RouteStable)"
| release: "r \<noteq> RouteNone \<Longrightarrow> route_move (r, r, n, RouteStable) (RouteNone, r, n, RouteReleasing)"
| retire: "r \<noteq> RouteNone \<Longrightarrow> route_move (d, r, n, t) (RouteNone, RouteNone, n + 1, RouteStable)"

fun route_chain :: "route_data list \<Rightarrow> bool" where
  "route_chain [] \<longleftrightarrow> False"
| "route_chain [d] \<longleftrightarrow> d = (RouteNone, RouteNone, 0, RouteStable)"
| "route_chain (d # e # l) \<longleftrightarrow> route_move e d \<and> route_chain (e # l)"

text \<open>
  The notes of the watcher: the publications, the latest first, how often the generation and the
  publication sequence advanced, the generations whose invalidation was accepted, and whether the
  gate of a vetoed USB publication was ever opened on an active route.
\<close>

record route_notes =
  nt_published :: "route_data list"
  nt_generations :: nat
  nt_ticks :: nat
  nt_accepted :: "u32 set"
  nt_breach :: bool

definition route_watch :: "route \<Rightarrow> route \<Rightarrow> route_notes \<Rightarrow> route_notes" where
  "route_watch s s' g =
     \<lparr>nt_published = (if publication_sequence s' \<noteq> publication_sequence s \<and> \<not> sequence_odd (publication_sequence s')
        then route_data s' # nt_published g else nt_published g),
      nt_generations = (if generation s' \<noteq> generation s then nt_generations g + 1 else nt_generations g),
      nt_ticks = (if publication_sequence s' \<noteq> publication_sequence s then nt_ticks g + 1 else nt_ticks g),
      nt_accepted = (if durable_state s \<noteq> DurableActive \<and> durable_state s' = DurableActive
        then insert (durable_generation s') (nt_accepted g) else nt_accepted g),
      nt_breach = (nt_breach g \<or> bit (usb_publication_state s) 31 \<and> \<not> bit (usb_publication_state s') 31
        \<and> active s' \<noteq> RouteNone)\<rparr>"

text \<open>Neither counter has wrapped.\<close>

definition route_bounded :: "route_notes \<Rightarrow> bool" where
  "route_bounded g \<longleftrightarrow> nt_generations g < 2 ^ 32 \<and> nt_ticks g < 2 ^ 32"

datatype route_role = RouteWriter | DurablePublisher

definition route_held :: "route \<Rightarrow> route_role set" where
  "route_held s = (if writer_active s then {RouteWriter} else {})
     \<union> (if durable_state s = DurablePublishing then {DurablePublisher} else {})"

text \<open>An accepted invalidation still closes the gate, or its generation is no longer active.\<close>

definition accepted_final :: "route \<times> route_notes \<Rightarrow> bool" where
  "accepted_final x \<longleftrightarrow> (\<forall>k \<in> nt_accepted (snd x).
     durable_state (fst x) = DurableActive \<and> durable_generation (fst x) = k
     \<or> active (fst x) = RouteNone \<or> generation (fst x) \<noteq> k)"

definition route_inv :: "route \<times> route_notes \<Rightarrow> bool" where
  "route_inv x \<longleftrightarrow>
     publication_sequence (fst x) = of_nat (nt_ticks (snd x))
     \<and> generation (fst x) = of_nat (nt_generations (snd x))
     \<and> (odd (nt_ticks (snd x)) \<longrightarrow> writer_active (fst x))
     \<and> (even (nt_ticks (snd x)) \<longrightarrow> hd (nt_published (snd x)) = route_data (fst x))
     \<and> route_chain (nt_published (snd x))
     \<and> (\<forall>k \<in> nt_accepted (snd x). unat k \<le> nt_generations (snd x))
     \<and> accepted_final x
     \<and> (durable_state (fst x) = DurableActive \<longrightarrow> durable_generation (fst x) \<in> nt_accepted (snd x))
     \<and> (bit (usb_publication_state (fst x)) 31 \<longrightarrow> bit (usb_publication_state (fst x)) 30)
     \<and> (bit (usb_publication_state (fst x)) 30 \<longrightarrow> writer_active (fst x))
     \<and> \<not> nt_breach (snd x)"

text \<open>What every step respects, and what only the holder of a role may change.\<close>

definition route_base :: "route \<times> route_notes \<Rightarrow> route \<times> route_notes \<Rightarrow> bool" where
  "route_base x y \<longleftrightarrow>
     nt_ticks (snd x) \<le> nt_ticks (snd y) \<and> nt_generations (snd x) \<le> nt_generations (snd y)
     \<and> set (nt_published (snd x)) \<subseteq> set (nt_published (snd y)) \<and> nt_accepted (snd x) \<subseteq> nt_accepted (snd y)
     \<and> (nt_ticks (snd y) = nt_ticks (snd x) \<and> even (nt_ticks (snd x)) \<longrightarrow> route_data (fst y) = route_data (fst x))"

lemma route_base_trans: "route_base x y \<Longrightarrow> route_base y z \<Longrightarrow> route_base x z"
proof -
  assume b: "route_base x y" "route_base y z"
  have "nt_ticks (snd z) = nt_ticks (snd x) \<Longrightarrow>
      nt_ticks (snd y) = nt_ticks (snd x) \<and> nt_ticks (snd z) = nt_ticks (snd y)"
    using b by (simp add: route_base_def)
  then show ?thesis using b unfolding route_base_def by (auto; force)
qed

fun route_keep :: "route_role \<Rightarrow> route \<times> route_notes \<Rightarrow> route \<times> route_notes \<Rightarrow> bool" where
  "route_keep RouteWriter x y \<longleftrightarrow>
     nt_ticks (snd y) = nt_ticks (snd x) \<and> nt_generations (snd y) = nt_generations (snd x)
     \<and> nt_published (snd y) = nt_published (snd x) \<and> route_data (fst y) = route_data (fst x)
     \<and> (durable_state (fst x) = DurableActive \<longrightarrow>
          durable_state (fst y) = DurableActive \<and> durable_generation (fst y) = durable_generation (fst x))
     \<and> (\<forall>k \<in> nt_accepted (snd y) - nt_accepted (snd x).
          durable_state (fst y) = DurableActive \<and> durable_generation (fst y) = k)
     \<and> bit (usb_publication_state (fst y)) 30 = bit (usb_publication_state (fst x)) 30"
| "route_keep DurablePublisher x y \<longleftrightarrow>
     durable_state (fst y) = durable_state (fst x) \<and> durable_generation (fst y) = durable_generation (fst x)"

fun route_post :: "route_answer \<Rightarrow> route \<times> route_notes \<Rightarrow> bool" where
  "route_post (AnsSnapshot sn) x \<longleftrightarrow> sn_coherent sn \<longrightarrow>
     (sn_desired sn, sn_active sn, sn_generation sn, sn_transition sn) \<in> set (nt_published (snd x))"
| "route_post (AnsCommit r ok) x \<longleftrightarrow> ok \<longrightarrow> (\<exists>n. (r, r, n, RouteStable) \<in> set (nt_published (snd x)))"
| "route_post (AnsRelease r ok sn) x \<longleftrightarrow> ok \<longrightarrow>
     (\<exists>a. sn = Some a \<and> (RouteNone, r, sn_generation a, RouteReleasing) \<in> set (nt_published (snd x)))"
| "route_post _ x \<longleftrightarrow> True"

interpretation route_rg: interleaving route_code route_watch route_bounded route_inv route_held
  route_base route_keep
proof
  show "route_bounded (route_watch s s' g) \<Longrightarrow> route_bounded g" for s s' g
    by (auto simp: route_bounded_def route_watch_def split: if_splits)
  show "route_base x x" for x by (simp add: route_base_def)
  show "route_base x y \<Longrightarrow> route_base y z \<Longrightarrow> route_base x z" for x y z
    by (rule route_base_trans)
  show "route_keep r x x" for r x by (cases r) auto
  show "route_keep r x y \<Longrightarrow> route_keep r y z \<Longrightarrow> route_keep r x z" for r x y z
    by (cases r) auto
  show "route_watch s s g = g" for s g by (cases g) (auto simp: route_watch_def)
qed

lemma even_ticks: "even (of_nat n :: u32) = even n"
  by (metis even_of_nat_iff even_take_bit_eq)

lemma serial_bits: "\<not> bit (advance_usb_publication_serial w) 30" "\<not> bit (advance_usb_publication_serial w) 31"
proof -
  have m: "kUsbPublicationSerialMask = mask 30" by (simp add: kUsbPublicationSerialMask_def mask_eq_exp_minus_1)
  show "\<not> bit (advance_usb_publication_serial w) 30" "\<not> bit (advance_usb_publication_serial w) 31"
    by (simp_all add: advance_usb_publication_serial_def m bit_and_iff bit_mask_iff)
qed

lemma usb_flags: "bit kUsbPublicationActive n \<longleftrightarrow> n = 30" "bit kUsbPublicationVeto n \<longleftrightarrow> n = 31"
  unfolding kUsbPublicationActive_def kUsbPublicationVeto_def by (auto simp only: bit_push_bit_iff bit_1_iff) auto

lemma flag_nonzero: "w AND kUsbPublicationActive = 0 \<longleftrightarrow> \<not> bit w 30"
  by (auto simp: word_eq_bits bit_and_iff usb_flags)

lemma gate_bits: "usb_gate_closed w \<longleftrightarrow> bit w 30 \<or> bit w 31"
  by (auto simp: usb_gate_closed_def word_eq_bits bit_and_iff bit_or_iff usb_flags)

lemma veto_bits: "bit (veto_word w) 30 = bit w 30" "bit (veto_word w) 31 = (bit w 30 \<or> bit w 31)"
  by (auto simp: veto_word_def Let_def bit_or_iff bit_and_iff serial_bits usb_flags flag_nonzero)

section \<open>Proof rules\<close>

abbreviation sat where "sat \<equiv> route_rg.sat"
abbreviation env where "env \<equiv> route_rg.env"

text \<open>Steps on the conditional request, which no promise mentions.\<close>

definition core where
  "core s = (publication_sequence s, route_data s, writer_active s, durable_generation s, durable_state s,
     usb_publication_state s)"

lemma core_same:
  assumes "core s' = core s"
  shows "route_watch s s' g = g" "route_inv (s', g) = route_inv (s, g)" "route_held s' = route_held s"
    "route_base x (s', g) = route_base x (s, g)" "route_keep r x (s', g) = route_keep r x (s, g)"
proof -
  have c: "publication_sequence s' = publication_sequence s" "route_data s' = route_data s"
    "writer_active s' = writer_active s" "durable_generation s' = durable_generation s"
    "durable_state s' = durable_state s" "usb_publication_state s' = usb_publication_state s"
    using assms by (simp_all add: core_def)
  then have d: "generation s' = generation s" "active s' = active s" by (simp_all add: route_data_def)
  show "route_watch s s' g = g" by (cases g) (auto simp: route_watch_def c d)
  show "route_inv (s', g) = route_inv (s, g)" by (simp add: route_inv_def accepted_final_def c d)
  show "route_held s' = route_held s" by (simp add: route_held_def c)
  show "route_base x (s', g) = route_base x (s, g)" by (simp add: route_base_def c)
  show "route_keep r x (s', g) = route_keep r x (s, g)" by (cases r) (simp_all add: c)
qed

lemma core_env: "core s' = core s \<Longrightarrow> env m x (s', g) = env m x (s, g)"
proof -
  assume c: "core s' = core s"
  show "env m x (s', g) = env m x (s, g)"
    unfolding route_rg.env_def by (simp only: core_same [OF c] fst_conv)
qed

lemma core_step:
  assumes "\<And>s. core (snd (f s)) = core s"
    and "\<And>s g. route_inv (s, g) \<Longrightarrow> env m x (s, g) \<Longrightarrow> route_bounded g \<Longrightarrow> post (fst (f s)) m (snd (f s), g)"
  shows "sat (atomic f) m x post"
proof (rule route_rg.sat_atomicI)
  fix s g
  assume a: "route_inv (s, g)" "env m x (s, g)" "route_bounded (route_watch s (snd (f s)) g)"
  note c = core_same [OF assms(1) [of s]]
  have "route_rg.guar m (s, g) (snd (f s), g)"
    using route_rg.guar_idle [of m "(s, g)"] by (simp add: route_rg.guar_def c)
  moreover have "route_rg.roles m s (snd (f s)) = m"
    using a(2) by (auto simp: route_rg.roles_def c route_rg.env_def)
  ultimately show "route_inv (snd (f s), route_watch s (snd (f s)) g)
      \<and> route_rg.guar m (s, g) (snd (f s), route_watch s (snd (f s)) g)
      \<and> post (fst (f s)) (route_rg.roles m s (snd (f s))) (snd (f s), route_watch s (snd (f s)) g)"
    using a assms(2) by (simp add: c)
qed

primrec gentle :: "(route, 'a) prog \<Rightarrow> bool" where
  "gentle (Ret a) \<longleftrightarrow> True"
| "gentle (Step f) \<longleftrightarrow> (\<forall>s. case (map_prod gentle id \<circ> f) s of (q, s') \<Rightarrow> core s' = core s \<and> q)"

lemma gentle_bind: "gentle p \<Longrightarrow> (\<And>a. gentle (k a)) \<Longrightarrow> gentle (pbind p k)"
proof (induction p)
  case (Step f)
  have "gentle (fst (f s)) \<Longrightarrow> gentle (pbind (fst (f s)) k)" for s
    by (rule Step.IH [of "f s"]) (auto intro: fsts.intros Step.prems(2))
  then show ?case using Step.prems(1) by (simp add: case_prod_unfold)
qed simp

lemma gentle_atomic: "(\<And>s. core (snd (f s)) = core s) \<Longrightarrow> gentle (atomic f)"
  by (simp add: atomic_def)

lemma gentle_load: "gentle (load f)"
  by (simp add: load_def gentle_atomic)

lemma gentle_sat:
  assumes "gentle p" "m \<subseteq> route_held (fst x)" "\<And>a y. env m x y \<Longrightarrow> post a m y"
  shows "sat p m x post"
  using assms
proof (induction p arbitrary: x)
  case (Ret a)
  then show ?case using route_rg.env_refl [of m x] by simp
next
  case (Step f)
  show ?case
    unfolding route_rg.sat.simps
  proof (intro allI impI, elim conjE)
    fix s g assume a: "route_inv (s, g)" "env m x (s, g)"
    have c: "core (snd (f s)) = core s" "gentle (fst (f s))"
      using Step.prems(1) by (simp_all add: case_prod_unfold)
    have e: "env m x (snd (f s), g)" using a(2) by (simp add: core_env [OF c(1)])
    have "sat (fst (f s)) m (snd (f s), g) post"
    proof (rule Step.IH [of "f s"])
      show "fst (f s) \<in> Basic_BNFs.fsts (f s)" by (simp add: fsts.simps)
      show "m \<subseteq> route_held (fst (snd (f s), g))" using e by (simp add: route_rg.env_def)
      show "\<And>a y. env m (snd (f s), g) y \<Longrightarrow> post a m y"
        using Step.prems(3) route_rg.env_trans [OF e] by blast
    qed (use c in auto)
    moreover have "route_rg.guar m (s, g) (snd (f s), g)"
      using route_rg.guar_idle [of m "(s, g)"] by (simp add: route_rg.guar_def core_same [OF c(1)])
    moreover have "route_rg.roles m s (snd (f s)) = m"
      using a(2) by (auto simp: route_rg.roles_def core_same [OF c(1)] route_rg.env_def)
    ultimately show "case (map_prod sat id \<circ> f) s of (rest, s') \<Rightarrow>
        route_bounded (route_watch s s' g) \<longrightarrow> route_inv (s', route_watch s s' g)
        \<and> route_rg.guar m (s, g) (s', route_watch s s' g)
        \<and> rest (route_rg.roles m s s') (s', route_watch s s' g) post"
      using a(1) by (simp add: case_prod_unfold core_same [OF c(1)])
  qed
qed

text \<open>What the thread that holds the writer knows, and nobody else can change.\<close>

abbreviation wrt :: "route_role set" where "wrt \<equiv> {RouteWriter}"

definition own :: "bool \<Rightarrow> route_data \<Rightarrow> route_data list \<Rightarrow> bool \<Rightarrow> route \<times> route_notes \<Rightarrow> bool" where
  "own ev d ps b x \<longleftrightarrow> even (nt_ticks (snd x)) = ev \<and> route_data (fst x) = d \<and> nt_published (snd x) = ps
     \<and> bit (usb_publication_state (fst x)) 30 = b \<and> writer_active (fst x)"

definition fresh :: "route \<times> route_notes \<Rightarrow> bool" where
  "fresh x \<longleftrightarrow> (generation (fst x) \<in> nt_accepted (snd x) \<longrightarrow>
     durable_state (fst x) = DurableActive \<and> durable_generation (fst x) = generation (fst x))"

definition requested :: "u32 \<Rightarrow> route \<times> route_notes \<Rightarrow> bool" where
  "requested n x \<longleftrightarrow> durable_state (fst x) = DurableActive \<and> durable_generation (fst x) = n"

definition later :: "route \<times> route_notes \<Rightarrow> route \<times> route_notes \<Rightarrow> bool" where
  "later x y \<longleftrightarrow> route_base x y \<and> (\<forall>n. requested n x \<longrightarrow> requested n y)"

lemma later_refl: "later x x"
  by (simp add: later_def route_base_def)

lemma later_route_trans: "later x y \<Longrightarrow> later y z \<Longrightarrow> later x z"
  unfolding later_def using route_base_trans by blast

lemma wrt_envD:
  "env wrt x y \<Longrightarrow> route_base x y \<and> route_keep RouteWriter x y \<and> writer_active (fst y)"
  by (auto simp: route_rg.env_def route_held_def split: if_splits)

lemma own_env: "own ev d ps b x \<Longrightarrow> env wrt x y \<Longrightarrow> own ev d ps b y"
  by (auto simp: own_def dest!: wrt_envD)

lemma later_env: "env wrt x y \<Longrightarrow> later x y"
  by (auto simp: later_def requested_def dest!: wrt_envD)

lemma fresh_env: "fresh x \<Longrightarrow> env wrt x y \<Longrightarrow> fresh y"
  by (auto simp: fresh_def route_data_def dest!: wrt_envD)

lemma own_held: "own ev d ps b x \<Longrightarrow> wrt \<subseteq> route_held (fst x)"
  by (simp add: own_def route_held_def)

lemma wrt_gentle:
  assumes "own ev d ps b x" "gentle p"
    and "\<And>a y. own ev d ps b y \<Longrightarrow> env wrt x y \<Longrightarrow> post a wrt y"
  shows "sat p wrt x post"
  by (rule gentle_sat [OF assms(2) own_held [OF assms(1)]]) (rule assms(3) [OF own_env [OF assms(1)]])

lemma wrt_load:
  assumes "own ev d ps b x"
    and "\<And>y. own ev d ps b y \<Longrightarrow> env wrt x y \<Longrightarrow> route_inv y \<Longrightarrow> route_bounded (snd y) \<Longrightarrow> post (f (fst y)) wrt y"
  shows "sat (load f) wrt x post"
proof (rule route_rg.sat_loadI)
  fix s g assume "route_inv (s, g)" "env wrt x (s, g)" "route_bounded g"
  then show "post (f s) wrt (s, g)" using assms(2) [of "(s, g)"] own_env [OF assms(1)] by simp
qed

lemma wrt_atomic:
  assumes "own ev d ps b x"
    and "\<And>s g s' g'. own ev d ps b (s, g) \<Longrightarrow> env wrt x (s, g) \<Longrightarrow> route_inv (s, g) \<Longrightarrow> s' = snd (f s) \<Longrightarrow>
      g' = route_watch s s' g \<Longrightarrow> route_bounded g' \<Longrightarrow>
      route_inv (s', g') \<and> route_base (s, g) (s', g') \<and> writer_active s'
      \<and> (durable_state s' = DurablePublishing \<longleftrightarrow> durable_state s = DurablePublishing)
      \<and> durable_generation s' = durable_generation s \<and> post (fst (f s)) wrt (s', g')"
  shows "sat (atomic f) wrt x post"
proof (rule route_rg.sat_atomicI)
  fix s g
  assume a: "route_inv (s, g)" "env wrt x (s, g)" "route_bounded (route_watch s (snd (f s)) g)"
  from own_env [OF assms(1) a(2)] have o: "own ev d ps b (s, g)" .
  note st = assms(2) [OF o a(2,1) refl refl a(3)]
  have "route_rg.guar wrt (s, g) (snd (f s), route_watch s (snd (f s)) g)"
    using st by (auto simp: route_rg.guar_def route_held_def split: if_splits)
  moreover have "route_rg.roles wrt s (snd (f s)) = wrt"
    using st o by (auto simp: route_rg.roles_def route_held_def own_def)
  ultimately show "route_inv (snd (f s), route_watch s (snd (f s)) g)
      \<and> route_rg.guar wrt (s, g) (snd (f s), route_watch s (snd (f s)) g)
      \<and> post (fst (f s)) (route_rg.roles wrt s (snd (f s))) (snd (f s), route_watch s (snd (f s)) g)"
    using st by simp
qed

text \<open>The publication sequence.\<close>

lemma tick_ne: "(n :: u32) + 1 \<noteq> n"
  by simp

lemma wrt_begin:
  assumes "own True d ps b x"
    and "\<And>y. own False d ps b y \<Longrightarrow> later x y \<Longrightarrow> route_inv y \<Longrightarrow> ps \<noteq> [] \<and> hd ps = d \<Longrightarrow> post () wrt y"
  shows "sat begin_publication wrt x post"
  unfolding begin_publication_def store_def
proof (rule wrt_atomic [OF assms(1)], goal_cases)
  case (1 s g s' g')
  have s': "s' = tick s" using 1 by simp
  have ev: "even (publication_sequence s)" "even (nt_ticks g)"
    using 1 by (auto simp: own_def route_inv_def even_ticks)
  have g': "g' = g\<lparr>nt_ticks := nt_ticks g + 1\<rparr>"
    using 1(5) ev by (cases g) (auto simp: s' tick_def route_watch_def)
  have inv: "route_inv (s', g')" using 1(1,3) ev
    by (auto simp: s' g' route_inv_def accepted_final_def tick_def own_def add.commute)
  have base: "route_base (s, g) (s', g')" by (simp add: route_base_def g')
  have "later (s, g) (s', g')" using base by (simp add: later_def s' requested_def tick_def)
  then have l: "later x (s', g')" using later_env [OF 1(2)] later_route_trans by blast
  have "ps \<noteq> [] \<and> hd ps = d" using 1(1,3) ev by (cases ps) (auto simp: own_def route_inv_def)
  then have "post () wrt (s', g')"
    using 1(1) ev by (intro assms(2) l inv) (auto simp: own_def s' g' tick_def route_data_def)
  then show ?case using 1(1) inv base by (simp add: s' tick_def own_def)
qed

lemma wrt_end:
  assumes "own False d ps b x" "route_move (hd ps) d" "ps \<noteq> []"
    and "\<And>y. own True d (d # ps) b y \<Longrightarrow> later x y \<Longrightarrow> route_inv y \<Longrightarrow> (fresh x \<Longrightarrow> fresh y) \<Longrightarrow> post () wrt y"
  shows "sat end_publication wrt x post"
  unfolding end_publication_def store_def
proof (rule wrt_atomic [OF assms(1)], goal_cases)
  case (1 s g s' g')
  have s': "s' = tick s" using 1 by simp
  have ev: "odd (publication_sequence s)" "odd (nt_ticks g)"
    using 1 by (auto simp: own_def route_inv_def even_ticks)
  have g': "g' = g\<lparr>nt_ticks := nt_ticks g + 1, nt_published := d # ps\<rparr>"
    using 1(1,5) ev by (cases g) (auto simp: s' tick_def route_watch_def route_data_def own_def)
  have "route_chain (d # ps)" using 1(1,3) assms(2,3) by (cases ps) (auto simp: own_def route_inv_def)
  then have inv: "route_inv (s', g')" using 1(1,3) ev
    by (auto simp: s' g' route_inv_def accepted_final_def tick_def own_def add.commute route_data_def)
  have base: "route_base (s, g) (s', g')" using 1(1) by (auto simp: route_base_def g' own_def)
  have "later (s, g) (s', g')" using base by (simp add: later_def s' requested_def tick_def)
  then have l: "later x (s', g')" using later_env [OF 1(2)] later_route_trans by blast
  have f: "fresh x \<Longrightarrow> fresh (s', g')"
    using fresh_env [OF _ 1(2)] by (auto simp: fresh_def s' g' tick_def)
  have "post () wrt (s', g')"
    using 1(1) ev by (intro assms(4) l inv f) (auto simp: own_def s' g' tick_def route_data_def)
  then show ?case using 1(1) inv base by (simp add: s' tick_def own_def)
qed

text \<open>Stores to the route data while a publication is open.\<close>

definition outside where
  "outside s = (publication_sequence s, writer_active s, durable_state s, durable_generation s,
     usb_publication_state s)"

lemma outside_eq:
  "outside s' = outside s \<Longrightarrow> publication_sequence s' = publication_sequence s \<and> writer_active s' = writer_active s
     \<and> durable_state s' = durable_state s \<and> durable_generation s' = durable_generation s
     \<and> usb_publication_state s' = usb_publication_state s"
  by (simp add: outside_def)

lemma wrt_field:
  assumes "own False d ps b x" "\<And>s. outside (f s) = outside s" "\<And>s. generation (f s) = generation s"
    and "\<And>s. active (f s) = active s \<or> active (f s) = RouteNone \<or> fresh x"
    and "\<And>s. route_data s = d \<Longrightarrow> route_data (f s) = d'"
    and "\<And>y. own False d' ps b y \<Longrightarrow> later x y \<Longrightarrow> route_inv y \<Longrightarrow> (fresh x \<Longrightarrow> fresh y) \<Longrightarrow> post () wrt y"
  shows "sat (store f) wrt x post"
  unfolding store_def
proof (rule wrt_atomic [OF assms(1)], goal_cases)
  case (1 s g s' g')
  have s': "s' = f s" using 1 by simp
  note o = outside_eq [OF assms(2) [of s]]
  have g': "g' = g" using 1(5) o assms(3) [of s] by (cases g) (auto simp: s' route_watch_def)
  have ev: "odd (nt_ticks g)" using 1(1) by (simp add: own_def)
  have "accepted_final (s', g')"
    using assms(4) [of s] fresh_env [OF _ 1(2)] 1(3) o assms(3) [of s]
    by (auto simp: accepted_final_def s' g' route_inv_def fresh_def)
  then have inv: "route_inv (s', g')" using 1(1,3) o ev assms(3) [of s] by (auto simp: s' g' route_inv_def)
  have base: "route_base (s, g) (s', g')" using ev by (simp add: route_base_def g')
  have "later (s, g) (s', g')" using base o by (simp add: later_def s' requested_def)
  then have l: "later x (s', g')" using later_env [OF 1(2)] later_route_trans by blast
  have f: "fresh x \<Longrightarrow> fresh (s', g')"
    using fresh_env [OF _ 1(2)] o assms(3) [of s] by (auto simp: fresh_def s' g')
  have "post () wrt (s', g')"
    using 1(1) assms(5) [of s] o by (intro assms(6) l inv f) (auto simp: own_def s' g')
  then show ?case using 1(1) inv base o by (simp add: s' own_def)
qed

lemma wrt_next:
  assumes "own False (dd, RouteNone, n, t) ps b x" "\<And>s. outside (snd (f s)) = outside s"
    and "\<And>s. generation (snd (f s)) = generation s + 1"
    and "\<And>s. desired (snd (f s)) = desired s \<and> active (snd (f s)) = active s \<and> transition (snd (f s)) = transition s"
    and "\<And>s y. generation s = n \<Longrightarrow> own False (dd, RouteNone, n + 1, t) ps b y \<Longrightarrow> later x y \<Longrightarrow> route_inv y \<Longrightarrow> fresh y
      \<Longrightarrow> post (fst (f s)) wrt y"
  shows "sat (atomic f) wrt x post"
proof (rule wrt_atomic [OF assms(1)], goal_cases)
  case (1 s g s' g')
  have s': "s' = snd (f s)" using 1 by simp
  note o = outside_eq [OF assms(2) [of s]]
  have d: "desired s = dd" "active s = RouteNone" "generation s = n" "transition s = t"
    using 1(1) by (auto simp: own_def route_data_def)
  have d': "desired s' = dd" "active s' = RouteNone" "generation s' = n + 1" "transition s' = t"
    using d assms(3,4) [of s] by (simp_all add: s')
  have g': "g' = g\<lparr>nt_generations := nt_generations g + 1\<rparr>"
    using 1(5) o d d' by (cases g) (auto simp: s' [symmetric] route_watch_def)
  have ev: "odd (nt_ticks g)" using 1(1) by (simp add: own_def)
  have "unat k \<le> nt_generations g + 1" if "k \<in> nt_accepted g" for k
    using 1(3) that by (auto simp: route_inv_def)
  moreover have "n + 1 = of_nat (nt_generations g + 1)" using 1(3) d by (simp add: route_inv_def add.commute)
  ultimately have inv: "route_inv (s', g')" using 1(1,3) o ev d d'
    by (auto simp: s' [symmetric] g' route_inv_def accepted_final_def)
  have base: "route_base (s, g) (s', g')" using ev by (simp add: route_base_def g')
  have "later (s, g) (s', g')" using base o by (simp add: later_def s' requested_def)
  then have l: "later x (s', g')" using later_env [OF 1(2)] later_route_trans by blast
  have "unat (n + 1) = nt_generations g + 1"
    using 1(6) \<open>n + 1 = of_nat (nt_generations g + 1)\<close>
    by (simp add: g' route_bounded_def unsigned_of_nat take_bit_nat_eq_self del: of_nat_add of_nat_Suc)
  then have f: "fresh (s', g')" using 1(3) d' by (auto simp: fresh_def g' route_inv_def)
  have "post (fst (f s)) wrt (s', g')"
    using 1(1) d d' o by (intro assms(5) l inv f) (auto simp: own_def s' [symmetric] g' route_data_def)
  then show ?case using 1(1) inv base o by (simp add: s' own_def)
qed

text \<open>Entering and leaving.\<close>

lemma enter_sat:
  assumes "\<And>y. route_base x y \<Longrightarrow> route_inv y \<Longrightarrow> post False {} y"
    and "\<And>d ps y. own True d ps False y \<Longrightarrow> route_inv y \<Longrightarrow> route_base x y \<Longrightarrow> post True wrt y"
  shows "sat try_enter_writer {} x post"
  unfolding try_enter_writer_def
proof (rule route_rg.sat_atomicI)
  fix s g
  assume a: "route_inv (s, g)" "env {} x (s, g)"
  have b: "route_base x (s, g)" using a(2) by (simp add: route_rg.env_def)
  show "route_inv (snd (if writer_active s then (False, s) else (True, s\<lparr>writer_active := True\<rparr>)),
          route_watch s (snd (if writer_active s then (False, s) else (True, s\<lparr>writer_active := True\<rparr>))) g)
      \<and> route_rg.guar {} (s, g) (snd (if writer_active s then (False, s) else (True, s\<lparr>writer_active := True\<rparr>)),
          route_watch s (snd (if writer_active s then (False, s) else (True, s\<lparr>writer_active := True\<rparr>))) g)
      \<and> post (fst (if writer_active s then (False, s) else (True, s\<lparr>writer_active := True\<rparr>)))
          (route_rg.roles {} s (snd (if writer_active s then (False, s) else (True, s\<lparr>writer_active := True\<rparr>))))
          (snd (if writer_active s then (False, s) else (True, s\<lparr>writer_active := True\<rparr>)),
           route_watch s (snd (if writer_active s then (False, s) else (True, s\<lparr>writer_active := True\<rparr>))) g)"
  proof (cases "writer_active s")
    case True
    then show ?thesis
      using a b assms(1) route_rg.guar_idle [of "{}" "(s, g)"]
      by (simp add: route_rg.watch_idle route_rg.roles_def)
  next
    case False
    let ?s = "s\<lparr>writer_active := True\<rparr>"
    have w: "route_watch s ?s g = g" by (cases g) (auto simp: route_watch_def)
    have ev: "even (nt_ticks g)" "\<not> bit (usb_publication_state s) 30" using a(1) False by (auto simp: route_inv_def)
    have i: "route_inv (?s, g)" using a(1) by (auto simp: route_inv_def accepted_final_def route_data_def)
    have bs: "route_base (s, g) (?s, g)" by (simp add: route_base_def route_data_def)
    have "route_rg.guar {} (s, g) (?s, g)"
      using bs False by (auto simp: route_rg.guar_def route_held_def)
    moreover have "route_rg.roles {} s ?s = wrt" using False by (auto simp: route_rg.roles_def route_held_def)
    moreover have "own True (route_data s) (nt_published g) False (?s, g)"
      using ev by (simp add: own_def route_data_def)
    ultimately show ?thesis using False i assms(2) [OF _ i route_base_trans [OF b bs]] by (simp add: w)
  qed
qed

lemma leave_sat:
  assumes "own True d ps False x" "\<And>y. route_base x y \<Longrightarrow> route_inv y \<Longrightarrow> post () {} y"
  shows "sat leave_writer wrt x post"
  unfolding leave_writer_def store_def
proof (rule route_rg.sat_atomicI)
  fix s g
  assume a: "route_inv (s, g)" "env wrt x (s, g)"
  let ?s = "s\<lparr>writer_active := False\<rparr>"
  from own_env [OF assms(1) a(2)] have o: "own True d ps False (s, g)" .
  have w: "route_watch s ?s g = g" by (cases g) (auto simp: route_watch_def)
  have i: "route_inv (?s, g)" using a(1) o by (auto simp: route_inv_def accepted_final_def route_data_def own_def)
  have bs: "route_base (s, g) (?s, g)" by (simp add: route_base_def route_data_def)
  have b: "route_base x (s, g)" using a(2) by (simp add: route_rg.env_def)
  have "route_rg.guar wrt (s, g) (?s, g)"
    using bs by (auto simp: route_rg.guar_def route_held_def)
  moreover have "route_rg.roles wrt s ?s = {}" by (auto simp: route_rg.roles_def route_held_def)
  ultimately show "route_inv (snd ((), ?s), route_watch s (snd ((), ?s)) g)
      \<and> route_rg.guar wrt (s, g) (snd ((), ?s), route_watch s (snd ((), ?s)) g)
      \<and> post (fst ((), ?s)) (route_rg.roles wrt s (snd ((), ?s))) (snd ((), ?s), route_watch s (snd ((), ?s)) g)"
    using i assms(2) [OF route_base_trans [OF b bs] i] by (simp add: w)
qed

text \<open>The USB word. Its gate opens on an active route only when it was not vetoed.\<close>

lemma wrt_usb:
  assumes "own True d ps b x"
    and "\<And>s. snd (f s) = s \<or> (\<exists>w. snd (f s) = s\<lparr>usb_publication_state := w\<rparr> \<and> bit w 30 = b' \<and> \<not> bit w 31
           \<and> (bit (usb_publication_state s) 31 \<longrightarrow> fst (snd d) = RouteNone))"
    and "\<And>s y. y = snd (f s) \<Longrightarrow> bit (usb_publication_state s) 30 = b \<Longrightarrow>
           bit (usb_publication_state y) 30 = bb (fst (f s))"
    and "\<And>r y. own True d ps (bb r) y \<Longrightarrow> later x y \<Longrightarrow> route_inv y \<Longrightarrow> (fresh x \<Longrightarrow> fresh y) \<Longrightarrow> r \<in> range (fst \<circ> f)
      \<Longrightarrow> post r wrt y"
  shows "sat (atomic f) wrt x post"
proof (rule wrt_atomic [OF assms(1)], goal_cases)
  case (1 s g s' g')
  have d: "fst (snd d) = active s" using 1(1) by (auto simp: own_def route_data_def)
  have same: "publication_sequence s' = publication_sequence s" "writer_active s' = writer_active s"
    "durable_state s' = durable_state s" "durable_generation s' = durable_generation s"
    "generation s' = generation s" "active s' = active s" "route_data s' = route_data s"
    using assms(2) [of s] 1(4) by (auto simp: route_data_def)
  have veto: "bit (usb_publication_state s') 31 \<longrightarrow> bit (usb_publication_state s') 30"
    "bit (usb_publication_state s) 31 \<and> \<not> bit (usb_publication_state s') 31 \<longrightarrow> active s' = RouteNone"
    using assms(2) [of s] 1(3,4) d by (auto simp: route_inv_def)
  have g': "g' = g" using 1(5) same veto by (cases g) (auto simp: route_watch_def)
  have inv: "route_inv (s', g')" using 1(1,3) same veto
    by (auto simp: g' route_inv_def accepted_final_def own_def)
  have base: "route_base (s, g) (s', g')" using same by (simp add: route_base_def g')
  have "later (s, g) (s', g')" using base same by (simp add: later_def requested_def)
  then have l: "later x (s', g')" using later_env [OF 1(2)] later_route_trans by blast
  have fr: "fresh x \<Longrightarrow> fresh (s', g')" using fresh_env [OF _ 1(2)] same by (auto simp: fresh_def g')
  have "own True d ps (bb (fst (f s))) (s', g')"
    using 1(1) same assms(3) [OF 1(4)] by (auto simp: own_def g')
  then have "post (fst (f s)) wrt (s', g')" by (intro assms(4) l inv fr) auto
  then show ?case using 1(1) inv base same by (simp add: own_def)
qed

lemma wrt_begin_usb:
  assumes "own True d ps False x"
    and "\<And>y. own True d ps False y \<Longrightarrow> later x y \<Longrightarrow> post None wrt y"
    and "\<And>w y. own True d ps True y \<Longrightarrow> later x y \<Longrightarrow> route_inv y \<Longrightarrow> \<not> bit w 31 \<Longrightarrow> post (Some w) wrt y"
  shows "sat (begin_usb_publication c) wrt x post"
proof (cases "usb_gate_closed c")
  case True
  then show ?thesis using assms(2) [OF assms(1) later_refl] by (simp add: begin_usb_publication_def)
next
  case False
  let ?w = "advance_usb_publication_serial c OR kUsbPublicationActive"
  have w: "bit ?w 30" "\<not> bit ?w 31" by (simp_all add: bit_or_iff serial_bits usb_flags)
  have c: "\<not> bit c 30" "\<not> bit c 31" using False by (simp_all add: gate_bits)
  have "sat (cas_usb c ?w) wrt x (\<lambda>ok m y. post (if ok then Some ?w else None) m y)"
    unfolding cas_usb_def
    by (rule wrt_usb [where bb = "\<lambda>ok. ok" and b' = True, OF assms(1)])
      (use w c assms(2,3) in \<open>auto split: if_splits\<close>)
  then show ?thesis using False by (simp add: begin_usb_publication_def Let_def route_rg.sat_bind)
qed

lemma wrt_finish_usb:
  assumes "own True d ps True x" "\<not> bit w 31"
    and "\<And>y ok. own True d ps (\<not> ok) y \<Longrightarrow> later x y \<Longrightarrow> post ok wrt y"
  shows "sat (finish_usb_publication w) wrt x post"
  unfolding finish_usb_publication_def cas_usb_def
  by (rule wrt_usb [where bb = "\<lambda>ok. \<not> ok" and b' = False, OF assms(1)])
    (use assms(2,3) serial_bits in \<open>auto split: if_splits\<close>)

lemma wrt_clear_usb:
  assumes "own True (dd, RouteNone, n, t) ps b x"
    and "\<And>y. own True (dd, RouteNone, n, t) ps False y \<Longrightarrow> later x y \<Longrightarrow> post () wrt y"
  shows "sat clear_usb_publication wrt x post"
  unfolding clear_usb_publication_def store_def flag_nonzero
  by (rule wrt_usb [where bb = "\<lambda>_. False" and b' = False, OF assms(1)])
    (use assms(2) serial_bits in \<open>auto split: if_splits\<close>)

text \<open>The durable request is consumed only when its generation is no longer active.\<close>

lemma wrt_consume:
  assumes "own True d ps b x" "requested n x" "fst (snd d) = RouteNone \<or> fst (snd (snd d)) \<noteq> n"
    and "\<And>a y. own True d ps b y \<Longrightarrow> route_base x y \<Longrightarrow> post a wrt y"
  shows "sat (cas_durable DurableActive DurableNone) wrt x post"
  unfolding cas_durable_def
proof (rule wrt_atomic [OF assms(1)], goal_cases)
  case (1 s g s' g')
  have r: "durable_state s = DurableActive" "durable_generation s = n"
    using later_env [OF 1(2)] assms(2) by (auto simp: later_def requested_def)
  have s': "s' = s\<lparr>durable_state := DurableNone\<rparr>" using 1(4) r by simp
  have g': "g' = g" using 1(5) by (cases g) (auto simp: s' route_watch_def)
  have "active s = RouteNone \<or> generation s \<noteq> n" using assms(3) 1(1) by (auto simp: own_def route_data_def)
  then have inv: "route_inv (s', g')" using 1(1,3) r
    by (auto simp: s' g' route_inv_def accepted_final_def own_def route_data_def)
  have base: "route_base (s, g) (s', g')" by (simp add: route_base_def g' s' route_data_def)
  have "own True d ps b (s', g')" using 1(1) by (auto simp: own_def g' s' route_data_def)
  moreover have "route_base x (s', g')"
    using route_base_trans [OF _ base] 1(2) by (auto simp: route_rg.env_def)
  ultimately have "post (fst (durable_state s, s')) wrt (s', g')" by (intro assms(4)) auto
  then show ?case using 1(1) inv base r by (simp add: s' own_def)
qed

section \<open>Programs of the writer\<close>

lemma sat_then: "sat (pthen p q) m x post = sat p m x (\<lambda>_ m y. sat q m y post)"
  by (simp add: pthen_def route_rg.sat_bind)

text \<open>The knowledge of the writer since \<open>z\<close>, carried through its steps.\<close>

definition know ::
  "route \<times> route_notes \<Rightarrow> bool \<Rightarrow> route_data \<Rightarrow> route_data list \<Rightarrow> bool \<Rightarrow> bool \<Rightarrow> route \<times> route_notes \<Rightarrow> bool" where
  "know z ev d ps b fr x \<longleftrightarrow> own ev d ps b x \<and> later z x \<and> (fr \<longrightarrow> fresh x)"

lemma know_I: "own ev d ps b x \<Longrightarrow> know x ev d ps b False x"
  by (simp add: know_def later_refl)

lemma know_own: "know z ev d ps b fr x \<Longrightarrow> own ev d ps b x"
  by (simp add: know_def)

lemma know_step:
  "know z ev d ps b fr x \<Longrightarrow> own ev' d' ps' b' y \<Longrightarrow> later x y \<Longrightarrow> (fr' \<Longrightarrow> fresh y \<or> fr \<and> (fresh x \<longrightarrow> fresh y))
     \<Longrightarrow> know z ev' d' ps' b' fr' y"
  unfolding know_def using later_route_trans by blast

lemma know_env: "know z ev d ps b fr x \<Longrightarrow> env wrt x y \<Longrightarrow> know z ev d ps b fr y"
  unfolding know_def using own_env later_env later_route_trans fresh_env by blast

lemma k_load:
  assumes "know z ev d ps b fr x"
    and "\<And>y. know z ev d ps b fr y \<Longrightarrow> route_inv y \<Longrightarrow> post (f (fst y)) wrt y"
  shows "sat (load f) wrt x post"
  by (rule wrt_load [OF know_own [OF assms(1)]], rule assms(2) [OF know_env [OF assms(1)]])

lemma k_gentle:
  assumes "know z ev d ps b fr x" "gentle p"
    and "\<And>a y. know z ev d ps b fr y \<Longrightarrow> post a wrt y"
  shows "sat p wrt x post"
  by (rule wrt_gentle [OF know_own [OF assms(1)] assms(2)], rule assms(3) [OF know_env [OF assms(1)]])

lemma k_begin:
  assumes "know z True d ps b fr x"
    and "\<And>y. know z False d ps b False y \<Longrightarrow> ps \<noteq> [] \<and> hd ps = d \<Longrightarrow> post () wrt y"
  shows "sat begin_publication wrt x post"
  by (rule wrt_begin [OF know_own [OF assms(1)]], rule assms(2) [OF know_step [OF assms(1)]]) auto

lemma k_end:
  assumes "know z False d ps b fr x" "route_move (hd ps) d" "ps \<noteq> []"
    and "\<And>y. know z True d (d # ps) b fr y \<Longrightarrow> post () wrt y"
  shows "sat end_publication wrt x post"
  by (rule wrt_end [OF know_own [OF assms(1)] assms(2,3)], rule assms(4) [OF know_step [OF assms(1)]]) auto

lemma k_field:
  assumes "know z False d ps b fr x" "\<And>s. outside (f s) = outside s" "\<And>s. generation (f s) = generation s"
    and "\<And>s. active (f s) = active s \<or> active (f s) = RouteNone \<or> fr"
    and "\<And>s. route_data s = d \<Longrightarrow> route_data (f s) = d'"
    and "\<And>y. know z False d' ps b fr y \<Longrightarrow> post () wrt y"
  shows "sat (store f) wrt x post"
proof (rule wrt_field [where d' = d', OF _ assms(2,3) _ assms(5)])
  show "own False d ps b x" using assms(1) by (simp add: know_def)
  show "active (f s) = active s \<or> active (f s) = RouteNone \<or> fresh x" for s
    using assms(1,4) by (auto simp: know_def)
  show "post () wrt y" if "own False d' ps b y" "later x y" "fresh x \<Longrightarrow> fresh y" for y
    using that by (intro assms(6) know_step [OF assms(1)]) auto
qed

lemma k_desired:
  "know z False (dd, r, n, t) ps b fr x \<Longrightarrow> (\<And>y. know z False (d', r, n, t) ps b fr y \<Longrightarrow> post () wrt y)
     \<Longrightarrow> sat (store (\<lambda>s. s\<lparr>desired := d'\<rparr>)) wrt x post"
  by (rule k_field) (auto simp: outside_def route_data_def)

lemma k_transition:
  "know z False (dd, r, n, t) ps b fr x \<Longrightarrow> (\<And>y. know z False (dd, r, n, t') ps b fr y \<Longrightarrow> post () wrt y)
     \<Longrightarrow> sat (store (\<lambda>s. s\<lparr>transition := t'\<rparr>)) wrt x post"
  by (rule k_field) (auto simp: outside_def route_data_def)

lemma k_active:
  "know z False (dd, r, n, t) ps b fr x \<Longrightarrow> r' = RouteNone \<or> fr
     \<Longrightarrow> (\<And>y. know z False (dd, r', n, t) ps b fr y \<Longrightarrow> post () wrt y)
     \<Longrightarrow> sat (store (\<lambda>s. s\<lparr>active := r'\<rparr>)) wrt x post"
  by (rule k_field [where d' = "(dd, r', n, t)"], assumption) (auto simp: outside_def route_data_def)

lemma k_next:
  assumes "know z False (dd, RouteNone, n, t) ps b fr x"
    and "\<And>y. know z False (dd, RouteNone, n + 1, t) ps b True y \<Longrightarrow> post (n + 1) wrt y"
  shows "sat next_generation wrt x post"
  unfolding next_generation_def
proof (rule wrt_next)
  show "own False (dd, RouteNone, n, t) ps b x" using assms(1) by (simp add: know_def)
  show "post (fst (generation s + 1, s\<lparr>generation := generation s + 1\<rparr>)) wrt y"
    if "generation s = n" "own False (dd, RouteNone, n + 1, t) ps b y" "later x y" "fresh y" for s y
    using assms(2) [OF know_step [OF assms(1) that(2,3)]] that by simp
qed (auto simp: outside_def)

lemma k_generation:
  assumes "know z False (dd, RouteNone, n, t) ps b fr x"
    and "\<And>y. know z False (dd, RouteNone, n + 1, t) ps b True y \<Longrightarrow> post () wrt y"
  shows "sat (store (\<lambda>s. s\<lparr>generation := generation s + 1\<rparr>)) wrt x post"
  unfolding store_def
proof (rule wrt_next)
  show "own False (dd, RouteNone, n, t) ps b x" using assms(1) by (simp add: know_def)
  show "post (fst ((), s\<lparr>generation := generation s + 1\<rparr>)) wrt y"
    if "generation s = n" "own False (dd, RouteNone, n + 1, t) ps b y" "later x y" "fresh y" for s y
    using assms(2) [OF know_step [OF assms(1) that(2,3)]] that by simp
qed (auto simp: outside_def)

lemma k_put_none:
  assumes "know z False (dd, r, n, t) ps b fr x"
    and "\<And>y. know z False (RouteNone, RouteNone, n + 1, RouteStable) ps b True y \<Longrightarrow> post () wrt y"
  shows "sat put_none wrt x post"
  unfolding put_none_def stores.simps sat_then route_rg.sat.simps
  by (rule k_desired [OF assms(1)], rule k_active, assumption, simp, rule k_generation, assumption,
      rule k_transition, assumption, rule assms(2))

lemma k_commit_none:
  assumes "know z True (dd, r, n, t) ps b fr x"
    and "\<And>y. r = RouteNone \<or> exact \<and> (r \<noteq> er \<or> n \<noteq> en) \<Longrightarrow> know z True (dd, r, n, t) ps b fr y \<Longrightarrow>
      post False wrt y"
    and "\<And>y. r \<noteq> RouteNone \<Longrightarrow> \<not> exact \<or> r = er \<and> n = en \<Longrightarrow>
      know z True (RouteNone, RouteNone, n + 1, RouteStable) ((RouteNone, RouteNone, n + 1, RouteStable) # ps) b True y
      \<Longrightarrow> post True wrt y"
  shows "sat (commit_none_locked er en exact) wrt x post"
proof -
  let ?p = "pthen begin_publication (pthen put_none (pthen end_publication (Ret True)))"
  have p: "sat ?p wrt u post"
    if "r \<noteq> RouteNone" "\<not> exact \<or> r = er \<and> n = en" "know z True (dd, r, n, t) ps b fr u" for u
    unfolding sat_then route_rg.sat.simps
    by (rule k_begin [OF that(3)], rule k_put_none, assumption, rule k_end, assumption)
      (use that route_move.retire assms(3) in auto)
  show ?thesis
    unfolding commit_none_locked_def route_rg.sat_bind
  proof (rule k_load [OF assms(1)], rule k_load, assumption)
    fix y v assume y: "know z True (dd, r, n, t) ps b fr y" and v: "know z True (dd, r, n, t) ps b fr v"
    have "active (fst y) = r" "generation (fst v) = n" using y v by (auto simp: know_def own_def route_data_def)
    then show "sat (if active (fst y) = RouteNone then Ret False
       else if exact \<and> (active (fst y) \<noteq> er \<or> generation (fst v) \<noteq> en) then Ret False else ?p) wrt v post"
      using assms(2) [OF _ v] p [OF _ _ v] by auto
  qed
qed

lemma k_begin_usb:
  assumes "know z True d ps False fr x"
    and "\<And>y. know z True d ps False False y \<Longrightarrow> post None wrt y"
    and "\<And>w y. know z True d ps True False y \<Longrightarrow> \<not> bit w 31 \<Longrightarrow> post (Some w) wrt y"
  shows "sat (begin_usb_publication c) wrt x post"
  by (rule wrt_begin_usb [OF know_own [OF assms(1)]])
    (blast intro: assms(2,3) know_step [OF assms(1)])+

lemma k_finish_usb:
  assumes "know z True d ps True fr x" "\<not> bit w 31"
    and "\<And>y ok. know z True d ps (\<not> ok) False y \<Longrightarrow> post ok wrt y"
  shows "sat (finish_usb_publication w) wrt x post"
  by (rule wrt_finish_usb [OF know_own [OF assms(1)] assms(2)])
    (blast intro: assms(3) know_step [OF assms(1)])

lemma k_clear_usb:
  assumes "know z True (dd, RouteNone, n, t) ps b fr x"
    and "\<And>y. know z True (dd, RouteNone, n, t) ps False False y \<Longrightarrow> post () wrt y"
  shows "sat clear_usb_publication wrt x post"
  by (rule wrt_clear_usb [OF know_own [OF assms(1)]])
    (blast intro: assms(2) know_step [OF assms(1)])

lemma know_data: "know z ev (dd, r, n, t) ps b fr x \<Longrightarrow>
    desired (fst x) = dd \<and> active (fst x) = r \<and> generation (fst x) = n \<and> transition (fst x) = t"
  by (auto simp: know_def own_def route_data_def)

lemma k_retire_target:
  assumes "know z True d ps False fr x"
    and "\<And>d' ps' fr' y. know z True d' ps' False fr' y \<Longrightarrow> post () wrt y"
  shows "sat (retire_target target) wrt x post"
proof -
  obtain dd r n t where k: "know z True (dd, r, n, t) ps False fr x" using assms(1) by (cases d) auto
  have c: "sat (commit_none_locked e target True) wrt y (\<lambda>_. post ())"
    if "know z True (dd, r, n, t) ps False fr y" for e y
    by (rule k_commit_none [OF that]) (blast intro: assms(2))+
  have a: "sat (load active) wrt y (\<lambda>e m y. sat (commit_none_locked e target True) m y (\<lambda>_. post ()))"
    if "know z True (dd, r, n, t) ps False fr y" for y
    by (rule k_load [OF that]) (rule c)
  show ?thesis
    unfolding retire_target_def route_rg.sat_bind
    by (rule k_load [OF k], rule k_load, assumption)
      (simp add: route_rg.sat_bind a assms(2))
qed

lemma k_drop_request:
  assumes "know z True d ps False fr x" "requested target x"
    and "\<And>d' ps' y. own True d' ps' False y \<Longrightarrow> route_base z y \<Longrightarrow> post () wrt y"
  shows "sat (drop_request target) wrt x post"
  unfolding drop_request_def route_rg.sat_bind
proof (rule k_load [OF know_I [OF know_own [OF assms(1)]]], rule k_load, assumption)
  fix u v
  assume u: "know x True d ps False False u" and v: "know x True d ps False False v"
  have ks: "own True d ps False v" "requested target v" "route_base z v"
    using v assms(2) know_step [OF assms(1) know_own [OF v], of False] by (auto simp: know_def later_def)
  have d: "fst (snd (snd d)) = generation (fst u)" "fst (snd d) = active (fst v)"
    using u v by (auto simp: know_def own_def route_data_def)
  have "sat (cas_durable DurableActive DurableNone) wrt v (\<lambda>_. post ())"
    if "generation (fst u) \<noteq> target \<or> active (fst v) = RouteNone"
    by (rule wrt_consume [OF ks(1,2)]) (use that d assms(3) ks(3) route_base_trans in auto)
  then show "sat (if generation (fst u) \<noteq> target \<or> active (fst v) = RouteNone
      then pbind (cas_durable DurableActive DurableNone) (\<lambda>_. Ret ()) else Ret ()) wrt v post"
    using assms(3) [OF ks(1,3)] by (simp add: route_rg.sat_bind)
qed

lemma process_sat:
  assumes k: "know z True d ps False fr x"
    and post: "\<And>d' ps' y. own True d' ps' False y \<Longrightarrow> route_base z y \<Longrightarrow> post () wrt y"
  shows "sat process_durable_invalidation_locked wrt x post"
  unfolding process_durable_invalidation_locked_def route_rg.sat_bind
proof (rule k_load [OF k])
  fix y assume y: "know z True d ps False fr y"
  define m where "m = durable_generation (fst y)"
  have main: "sat (load durable_generation) wrt y
      (\<lambda>target m x'. sat (pthen (retire_target target) (drop_request target)) m x' post)" if "requested m y"
    unfolding sat_then
  proof (rule k_load [OF know_I [OF know_own [OF y]]], rule k_retire_target, assumption)
    fix u d' ps' fr' v
    assume u: "know y True d ps False False u" and v: "know y True d' ps' False fr' v"
    have r: "requested m u" "requested m v" using u v that by (auto simp: know_def later_def)
    then have "durable_generation (fst u) = m" by (simp add: requested_def)
    moreover have "know z True d' ps' False False v"
      using know_step [OF y know_own [OF v]] v by (auto simp: know_def)
    ultimately show "sat (drop_request (durable_generation (fst u))) wrt v post"
      using k_drop_request r(2) post by simp
  qed
  then show "sat (if durable_state (fst y) \<noteq> DurableActive then Ret ()
      else pbind (load durable_generation) (\<lambda>target. pthen (retire_target target) (drop_request target))) wrt y post"
    using post [of d ps y] y by (simp add: route_rg.sat_bind requested_def m_def know_def later_def)
qed

lemma gentle_tokens:
  "gentle invalidation_pending_without_usb_publication" "gentle invalidation_pending"
  "gentle (conditional_invalidation_matches n token)" "gentle (cancel_conditional_invalidation n token)"
  "gentle clear_superseded_conditional_invalidation_locked" "gentle (publish_conditional_invalidation n token)"
  "gentle (publication_lost r w)" "gentle (still_exact e)"
  unfolding invalidation_pending_def invalidation_pending_without_usb_publication_def
    conditional_invalidation_matches_def cancel_conditional_invalidation_def publication_lost_def still_exact_def
    clear_superseded_conditional_invalidation_locked_def publish_conditional_invalidation_def
    allocate_conditional_token_def cas_token_def pthen_def stores.simps store_def
  by (auto intro!: gentle_bind gentle_load gentle_atomic simp: core_def route_data_def Let_def)

lemma handoff_sat:
  assumes "know z True d ps False fr x" "\<And>y. route_base z y \<Longrightarrow> route_inv y \<Longrightarrow> post () {} y"
  shows "sat leave_writer_with_handoff wrt x post"
  unfolding leave_writer_with_handoff_def sat_then
proof (rule process_sat [OF assms(1)])
  fix d' ps' y assume y: "own True d' ps' False y" "route_base z y"
  show "sat clear_superseded_conditional_invalidation_locked wrt y (\<lambda>_ m y. sat leave_writer m y post)"
  proof (rule wrt_gentle [OF y(1) gentle_tokens(5)], rule leave_sat, assumption)
    fix a u v assume v: "env wrt y u" "route_base u v" "route_inv v"
    then have "route_base z v" using route_base_trans y(2) wrt_envD by blast
    then show "post () {} v" by (rule assms(2)) (rule v(3))
  qed
qed

lemma leave_with_sat:
  assumes "know z True d ps False fr x" "\<And>y. route_base z y \<Longrightarrow> route_inv y \<Longrightarrow> post a {} y"
  shows "sat (leave_with a) wrt x post"
  unfolding leave_with_def sat_then by (rule handoff_sat [OF assms(1)]) (simp add: assms(2))

section \<open>Programs without the writer\<close>

lemma durable_request_step:
  assumes "route_inv (s, g)" "durable_state s \<noteq> DurableActive" "st \<noteq> DurableActive"
    "s' = s\<lparr>durable_state := st, durable_generation := k\<rparr>"
  shows "route_watch s s' g = g" "route_inv (s', g)" "route_base (s, g) (s', g)" "route_keep RouteWriter (s, g) (s', g)"
proof -
  show "route_watch s s' g = g" using assms(2-4) by (cases g) (auto simp: route_watch_def)
  show "route_inv (s', g)" using assms by (auto simp: route_inv_def accepted_final_def route_data_def)
  show "route_base (s, g) (s', g)" "route_keep RouteWriter (s, g) (s', g)"
    using assms(2,4) by (simp_all add: route_base_def route_data_def)
qed

lemma publish_durable_sat:
  assumes le: "unat n \<le> nt_generations (snd x)"
    and post: "\<And>b y. route_base x y \<Longrightarrow> post b {} y"
  shows "sat (publish_durable_invalidation n) {} x post"
proof -
  have accept: "sat (store (\<lambda>s. s\<lparr>durable_state := DurableActive\<rparr>)) {DurablePublisher} y (\<lambda>_ m y. sat (Ret True) m y post)"
    if y: "durable_generation (fst y) = n" "route_base x y" for y
    unfolding store_def
  proof (rule route_rg.sat_atomicI, goal_cases)
    case (1 s g)
    let ?s = "s\<lparr>durable_state := DurableActive\<rparr>" and ?g = "g\<lparr>nt_accepted := insert n (nt_accepted g)\<rparr>"
    have d: "durable_state s = DurablePublishing" "durable_generation s = n"
      using 1(2) y(1) by (auto simp: route_rg.env_def route_held_def split: if_splits)
    have w: "route_watch s ?s g = ?g" using d by (cases g) (auto simp: route_watch_def)
    have "route_base x (s, g)" using 1(2) y(2) route_base_trans by (auto simp: route_rg.env_def)
    then have "unat n \<le> nt_generations g" using le by (simp add: route_base_def)
    then have i: "route_inv (?s, ?g)" using 1(1) d
      by (auto simp: route_inv_def accepted_final_def route_data_def)
    have b: "route_base (s, g) (?s, ?g)" by (auto simp: route_base_def route_data_def)
    have "route_rg.guar {DurablePublisher} (s, g) (?s, ?g)"
      using b d by (auto simp: route_rg.guar_def route_held_def route_data_def split: if_splits)
    moreover have "route_rg.roles {DurablePublisher} s ?s = {}" by (auto simp: route_rg.roles_def route_held_def)
    ultimately show ?case
      using i post [OF route_base_trans [OF \<open>route_base x (s, g)\<close> b]] by (simp add: w)
  qed
  have put: "sat (store (\<lambda>s. s\<lparr>durable_generation := n\<rparr>)) {DurablePublisher} y
      (\<lambda>_ m y. sat (store (\<lambda>s. s\<lparr>durable_state := DurableActive\<rparr>)) m y (\<lambda>_ m y. sat (Ret True) m y post))"
    if y: "route_base x y" for y
    unfolding store_def [of "\<lambda>s. s\<lparr>durable_generation := n\<rparr>"]
  proof (rule route_rg.sat_atomicI, goal_cases)
    case (1 s g)
    let ?s = "s\<lparr>durable_generation := n\<rparr>"
    have d: "durable_state s = DurablePublishing"
      using 1(2) by (auto simp: route_rg.env_def route_held_def split: if_splits)
    note st = durable_request_step [OF 1(1), of DurablePublishing ?s n]
    have e: "route_base x (s, g)" using 1(2) y route_base_trans by (auto simp: route_rg.env_def)
    have "route_rg.guar {DurablePublisher} (s, g) (?s, g)"
      using st d by (auto simp: route_rg.guar_def route_held_def split: if_splits)
    moreover have "route_rg.roles {DurablePublisher} s ?s = {DurablePublisher}"
      using d by (auto simp: route_rg.roles_def route_held_def)
    moreover have "route_base x (?s, g)" using route_base_trans [OF e] st d by simp
    ultimately show ?case using st d accept [of "(?s, g)"] by simp
  qed
  show ?thesis
    unfolding publish_durable_invalidation_def route_rg.sat_bind cas_durable_def
  proof (rule route_rg.sat_atomicI, goal_cases)
    case (1 s g)
    have e: "route_base x (s, g)" using 1(2) by (auto simp: route_rg.env_def)
    show ?case
    proof (cases "durable_state s = DurableNone")
      case True
      let ?s = "s\<lparr>durable_state := DurablePublishing\<rparr>"
      note st = durable_request_step [OF 1(1), of DurablePublishing ?s "durable_generation s"]
      have "route_rg.guar {} (s, g) (?s, g)"
        using st True by (auto simp: route_rg.guar_def route_held_def split: if_splits)
      moreover have "route_rg.roles {} s ?s = {DurablePublisher}"
        using True by (auto simp: route_rg.roles_def route_held_def)
      moreover have "route_base x (?s, g)" using route_base_trans [OF e] st True by simp
      ultimately show ?thesis using st True put [of "(?s, g)"] by (simp add: sat_then)
    next
      case False
      have "sat (if durable_state s \<noteq> DurableActive then Ret False
           else pbind (load durable_generation) (\<lambda>target. Ret (target = n))) {} (s, g) post"
        using post [OF e] post route_base_trans [OF e]
        by (auto simp: route_rg.sat_bind route_rg.env_def intro!: route_rg.sat_loadI)
      then show ?thesis using 1(1) False route_rg.guar_idle [of "{}" "(s, g)"]
        by (simp add: route_rg.watch_idle route_rg.roles_def)
    qed
  qed
qed

text \<open>A coherent snapshot is a publication, and its generation is not ahead of the counter.\<close>

lemma ticks_eq:
  assumes "route_inv x" "route_inv y" "route_bounded (snd x)" "route_bounded (snd y)"
    "publication_sequence (fst x) = publication_sequence (fst y)"
  shows "nt_ticks (snd x) = nt_ticks (snd y)"
proof -
  have "(of_nat (nt_ticks (snd x)) :: u32) = of_nat (nt_ticks (snd y))" using assms by (simp add: route_inv_def)
  then show ?thesis using assms(3,4) by (simp add: word_of_nat_eq_iff take_bit_nat_eq_self route_bounded_def)
qed

lemma base_data:
  "route_base x y \<Longrightarrow> route_base y z \<Longrightarrow> nt_ticks (snd z) = nt_ticks (snd x) \<Longrightarrow> even (nt_ticks (snd x)) \<Longrightarrow>
     route_data (fst y) = route_data (fst x)"
  by (simp add: route_base_def)

definition seen :: "route_snapshot \<Rightarrow> route \<times> route_notes \<Rightarrow> bool" where
  "seen sn x \<longleftrightarrow> sn_coherent sn \<longrightarrow>
     (sn_desired sn, sn_active sn, sn_generation sn, sn_transition sn) \<in> set (nt_published (snd x))
     \<and> unat (sn_generation sn) \<le> nt_generations (snd x)"

lemma snapshot_from_sat:
  assumes "m \<subseteq> route_held (fst x)" "\<And>sn y. env m x y \<Longrightarrow> seen sn y \<Longrightarrow> post sn m y"
  shows "sat (snapshot_from left) m x post"
  using assms
proof (induction left arbitrary: x)
  case 0
  show ?case
    by (simp add: route_rg.sat_bind, rule route_rg.sat_loadI) (auto intro!: 0(2) simp: seen_def)
next
  case (Suc left)
  have retry: "sat (snapshot_from left) m y post" if "env m x y" for y
    using that Suc.prems route_rg.env_trans [OF that]
    by (intro Suc.IH) (auto simp: route_rg.env_def)
  show ?case
    unfolding snapshot_from.simps route_rg.sat_bind
  proof (rule route_rg.sat_loadI, goal_cases)
    case (1 s g)
    show ?case
    proof (cases "odd (publication_sequence s)")
      case True
      then show ?thesis using retry [OF 1(2)] by simp
    next
      case False
      have ev: "even (nt_ticks g)" "hd (nt_published g) = route_data s" "nt_published g \<noteq> []"
        "unat (generation s) \<le> nt_generations g"
        using 1(1,3) False
        by (auto simp: route_inv_def even_ticks route_bounded_def unsigned_of_nat take_bit_nat_eq_self)
      let ?tail = "\<lambda>p d a n t. pbind (load publication_sequence) (\<lambda>seq1.
        if publication_sequence s = seq1 \<and> \<not> sequence_odd seq1
        then Ret \<lparr>sn_desired = d, sn_active = a, sn_generation = n, sn_transition = t,
                  sn_pending = p, sn_coherent = True\<rparr>
        else snapshot_from left)"
      have "sat (pbind (load desired) (\<lambda>d. pbind (load active) (\<lambda>a. pbind (load generation) (\<lambda>n.
         pbind (load transition) (\<lambda>t. pbind invalidation_pending (\<lambda>p. ?tail p d a n t)))))) m (s, g) post"
        unfolding route_rg.sat_bind
      proof (rule route_rg.sat_loadI, rule route_rg.sat_loadI, rule route_rg.sat_loadI, rule route_rg.sat_loadI,
          rule gentle_sat [OF gentle_tokens(2)], simp add: route_rg.env_def, rule route_rg.sat_loadI)
        fix s1 g1 s2 g2 s3 g3 s4 g4 p y s5 g5
        assume e: "env m (s, g) (s1, g1)" "env m (s1, g1) (s2, g2)" "env m (s2, g2) (s3, g3)"
          "env m (s3, g3) (s4, g4)" "env m (s4, g4) y" "env m y (s5, g5)"
          and i: "route_inv (s5, g5)" "route_bounded g5"
        have e5: "env m (s4, g4) (s5, g5)" using route_rg.env_trans e(5,6) by blast
        have b: "route_base (s, g) (s1, g1)" "route_base (s1, g1) (s2, g2)" "route_base (s2, g2) (s3, g3)"
          "route_base (s3, g3) (s4, g4)" "route_base (s4, g4) (s5, g5)"
          using e(1-4) e5 by (simp_all add: route_rg.env_def)
        have all: "env m (s, g) (s5, g5)" using route_rg.env_trans e(1-4) e5 by blast
        have fwd: "route_base (s, g) (s1, g1)" "route_base (s, g) (s2, g2)" "route_base (s, g) (s3, g3)"
          "route_base (s, g) (s4, g4)" "route_base (s, g) (s5, g5)"
          using b route_base_trans by blast+
        have bwd: "route_base (s1, g1) (s5, g5)" "route_base (s2, g2) (s5, g5)" "route_base (s3, g3) (s5, g5)"
          "route_base (s4, g4) (s5, g5)"
          using b route_base_trans by blast+
        have "sat (Ret \<lparr>sn_desired = desired s1, sn_active = active s2, sn_generation = generation s3,
            sn_transition = transition s4, sn_pending = p, sn_coherent = True\<rparr>) m (s5, g5) post"
          if q: "publication_sequence s = publication_sequence s5"
        proof -
          have tk: "nt_ticks (snd (s5, g5)) = nt_ticks (snd (s, g))"
            using ticks_eq [OF 1(1) i(1)] 1(3) i(2) q by simp
          note d = base_data [OF _ _ tk]
          have "route_data s1 = route_data s" "route_data s2 = route_data s" "route_data s3 = route_data s"
            "route_data s4 = route_data s"
            using d [of "(s1, g1)"] d [of "(s2, g2)"] d [of "(s3, g3)"] d [of "(s4, g4)"] ev(1) fwd bwd by simp_all
          then have eqs: "desired s1 = desired s" "active s2 = active s" "generation s3 = generation s"
            "transition s4 = transition s" by (simp_all add: route_data_def)
          have "route_data s \<in> set (nt_published g)" using ev(2,3) hd_in_set by metis
          then have "route_data s \<in> set (nt_published g5)" "unat (generation s) \<le> nt_generations g5"
            using fwd(5) ev(4) by (auto simp: route_base_def)
          then show ?thesis
            using route_rg.env_trans [OF 1(2) all] by (auto intro!: Suc.prems(2) simp: seen_def route_data_def eqs)
        qed
        then show "sat (if publication_sequence s = publication_sequence s5 \<and> \<not> sequence_odd (publication_sequence s5)
          then Ret \<lparr>sn_desired = desired s1, sn_active = active s2, sn_generation = generation s3,
            sn_transition = transition s4, sn_pending = p, sn_coherent = True\<rparr> else snapshot_from left) m (s5, g5) post"
          using retry [OF route_rg.env_trans [OF 1(2) all]] by simp
      qed
      then show ?thesis using False by simp
    qed
  qed
qed

lemma snapshot_sat:
  "m \<subseteq> route_held (fst x) \<Longrightarrow> (\<And>sn y. env m x y \<Longrightarrow> seen sn y \<Longrightarrow> post sn m y) \<Longrightarrow> sat snapshot m x post"
  unfolding snapshot_def by (rule snapshot_from_sat)

lemma free_gentle:
  assumes "gentle p" "\<And>a y. route_base x y \<Longrightarrow> post a {} y"
  shows "sat p {} x post"
  using assms by (intro gentle_sat) (auto simp: route_rg.env_def)

section \<open>The operations keep their promises\<close>

lemma k_bind: "sat p m x (\<lambda>a m' x'. sat (k a) m' x' post) \<Longrightarrow> sat (pbind p k) m x post"
  by (simp add: route_rg.sat_bind)

lemma k_if: "(c \<Longrightarrow> sat p m x post) \<Longrightarrow> (\<not> c \<Longrightarrow> sat q m x post) \<Longrightarrow> sat (if c then p else q) m x post"
  by simp

lemma k_ret: "post a m x \<Longrightarrow> sat (Ret a) m x post"
  by simp

lemma k_value:
  assumes "know z ev d ps b fr x" "\<And>y. know z ev d ps b fr y \<Longrightarrow> f (fst y) = v"
    "\<And>y. know z ev d ps b fr y \<Longrightarrow> post v wrt y"
  shows "sat (load f) wrt x post"
  by (rule k_load [OF assms(1)]) (simp add: assms(2,3))

lemma k_load_desired:
  "know z ev (dd, r, n, t) ps b fr x \<Longrightarrow> (\<And>y. know z ev (dd, r, n, t) ps b fr y \<Longrightarrow> post dd wrt y)
     \<Longrightarrow> sat (load desired) wrt x post"
  by (rule k_value, assumption) (simp_all add: know_data)

lemma k_load_active:
  "know z ev (dd, r, n, t) ps b fr x \<Longrightarrow> (\<And>y. know z ev (dd, r, n, t) ps b fr y \<Longrightarrow> post r wrt y)
     \<Longrightarrow> sat (load active) wrt x post"
  by (rule k_value, assumption) (simp_all add: know_data)

lemma k_load_generation:
  "know z ev (dd, r, n, t) ps b fr x \<Longrightarrow> (\<And>y. know z ev (dd, r, n, t) ps b fr y \<Longrightarrow> post n wrt y)
     \<Longrightarrow> sat (load generation) wrt x post"
  by (rule k_value, assumption) (simp_all add: know_data)

lemma k_load_transition:
  "know z ev (dd, r, n, t) ps b fr x \<Longrightarrow> (\<And>y. know z ev (dd, r, n, t) ps b fr y \<Longrightarrow> post t wrt y)
     \<Longrightarrow> sat (load transition) wrt x post"
  by (rule k_value, assumption) (simp_all add: know_data)

lemmas k_rules = k_bind k_if k_ret k_load_desired k_load_active k_load_generation k_load_transition

lemma k_unavailable:
  assumes "know z True (dd, r, n, t) ps b fr x"
    and "\<And>u y. know z True (dd, r, n, t) ps b fr y \<Longrightarrow>
      (\<not> u \<Longrightarrow> dd = RouteNone \<and> r = RouteNone \<and> t = RouteStable) \<Longrightarrow> post u wrt y"
  shows "sat route_unavailable wrt x post"
  unfolding route_unavailable_def
  by (rule k_bind, rule k_gentle [OF assms(1) gentle_tokens(2)]) (rule k_rules assms(2) | assumption | simp)+

lemma k_not_releasable:
  assumes "know z True (dd, r, n, t) ps b fr x"
    and "\<And>u y. know z True (dd, r, n, t) ps b fr y \<Longrightarrow> (\<not> u \<Longrightarrow> dd = e \<and> r = e \<and> t = RouteStable) \<Longrightarrow> post u wrt y"
  shows "sat (not_releasable e) wrt x post"
  unfolding not_releasable_def
  by (rule k_bind, rule k_gentle [OF assms(1) gentle_tokens(2)]) (rule k_rules assms(2) | assumption | simp)+

lemma k_stage_a:
  assumes "know z True (dd, r, n, t) ps b fr x"
    and "\<And>u y. know z True (dd, r, n, t) ps b fr y \<Longrightarrow> (u \<Longrightarrow> r = e \<and> dd = RouteNone) \<Longrightarrow> post u wrt y"
  shows "sat (stage_a_matches e expected) wrt x post"
  unfolding stage_a_matches_def
  by (rule k_bind, rule k_gentle [OF assms(1) gentle_tokens(2)]) (rule k_rules assms(2) | assumption | simp)+

lemma k_put_route:
  assumes "know z False (dd, RouteNone, n, t) ps b True x"
    and "\<And>y. know z False (r, r, n, RouteStable) ps b True y \<Longrightarrow> post () wrt y"
  shows "sat (put_route r) wrt x post"
  unfolding put_route_def stores.simps sat_then route_rg.sat.simps
  by (rule k_desired [OF assms(1)], rule k_active, assumption, simp, rule k_transition, assumption, rule assms(2))

lemma commit_observed_sat:
  assumes "\<And>ok y. route_base x y \<Longrightarrow> (ok \<longrightarrow> (\<exists>n. (r, r, n, RouteStable) \<in> set (nt_published (snd y)))) \<Longrightarrow> post ok {} y"
  shows "sat (commit_observed r n) {} x post"
  unfolding commit_observed_def route_rg.sat_bind
proof (rule snapshot_sat)
  fix sn y assume y: "env {} x y" "seen sn y"
  then have b: "route_base x y" by (simp add: route_rg.env_def)
  show "sat (Ret (sn_coherent sn \<and> \<not> sn_pending sn \<and> sn_desired sn = r \<and> sn_active sn = r
      \<and> sn_generation sn = n \<and> sn_transition sn = RouteStable)) {} y post"
    by (rule k_ret, rule assms [OF b]) (use y(2) in \<open>auto simp: seen_def\<close>)
qed simp

lemma k_clear_if_usb:
  assumes "know z True (RouteNone, RouteNone, n, t) ps (r = RouteUsb) fr x"
    and "\<And>y. know z True (RouteNone, RouteNone, n, t) ps False False y \<Longrightarrow> post () wrt y"
  shows "sat (clear_if_usb r) wrt x post"
proof (cases "r = RouteUsb")
  case True
  then show ?thesis unfolding clear_if_usb_def if_P [OF True] by (intro k_clear_usb [OF assms(1)]) (rule assms(2))
next
  case False
  then show ?thesis using assms by (simp add: clear_if_usb_def know_def)
qed

lemma commit_publish_sat:
  assumes k: "know z True (RouteNone, RouteNone, n, RouteStable) ps (r = RouteUsb) fr x"
    and r: "r \<noteq> RouteNone" "r = RouteUsb \<Longrightarrow> \<not> bit w 31"
    and post: "\<And>ok y. route_base z y \<Longrightarrow> (ok \<longrightarrow> (\<exists>n. (r, r, n, RouteStable) \<in> set (nt_published (snd y)))) \<Longrightarrow> post ok {} y"
  shows "sat (commit_publish r w) wrt x post"
proof -
  have leave: "sat (leave_with False) wrt y post" if "know z True d ps False fr y" for d ps fr y
    by (rule leave_with_sat [OF that]) (simp add: post)
  have observe: "sat leave_writer_with_handoff wrt y (\<lambda>_ m y. sat (commit_observed r (n + 1)) m y post)"
    if "know z True d ps False fr y" for d ps fr y
    by (rule handoff_sat [OF that], rule commit_observed_sat) (use post route_base_trans in blast)
  have undo: "sat (commit_none_locked RouteUsb (n + 1) True) wrt y
      (\<lambda>_ m y. sat clear_usb_publication m y (\<lambda>_ m y. sat (leave_with False) m y post))"
    if "know z True (RouteUsb, RouteUsb, n + 1, RouteStable) qs b fr y" for qs b fr y
    by (rule k_commit_none [OF that]) (auto intro: k_clear_usb leave)
  have tail: "sat (pbind (if r = RouteUsb then finish_usb_publication w else Ret True) (\<lambda>finished.
        if \<not> finished
        then pbind (commit_none_locked RouteUsb (n + 1) True) (\<lambda>_. pthen clear_usb_publication (leave_with False))
        else pthen leave_writer_with_handoff (commit_observed r (n + 1)))) wrt y post"
    if y: "know z True (r, r, n + 1, RouteStable) qs (r = RouteUsb) fr y" for qs fr y
  proof (cases "r = RouteUsb")
    case True
    have "sat (if \<not> ok
        then pbind (commit_none_locked RouteUsb (n + 1) True) (\<lambda>_. pthen clear_usb_publication (leave_with False))
        else pthen leave_writer_with_handoff (commit_observed r (n + 1))) wrt u post"
      if "know z True (r, r, n + 1, RouteStable) qs (\<not> ok) False u" for ok u
      using that undo observe True by (cases ok) (simp_all add: route_rg.sat_bind sat_then)
    then show ?thesis
      using True y r(2) by (simp add: route_rg.sat_bind) (rule k_finish_usb, assumption, simp, simp)
  next
    case False
    then show ?thesis using y observe by (simp add: route_rg.sat_bind sat_then)
  qed
  have lost: "sat (put_route RouteNone) wrt y (\<lambda>_ m y. sat end_publication m y
      (\<lambda>_ m y. sat (clear_if_usb r) m y (\<lambda>_ m y. sat (leave_with False) m y post)))"
    if "know z False (RouteNone, RouteNone, n + 1, RouteStable) ps (r = RouteUsb) True y"
      "ps \<noteq> [] \<and> hd ps = (RouteNone, RouteNone, n, RouteStable)" for y
    by (rule k_put_route [OF that(1)], rule k_end, assumption)
      (use that(2) in \<open>auto intro: route_move.lost k_clear_if_usb leave\<close>)
  have won: "sat (put_route r) wrt y (\<lambda>_ m y. sat end_publication m y (\<lambda>_ m y. sat (
      pbind (if r = RouteUsb then finish_usb_publication w else Ret True) (\<lambda>finished.
        if \<not> finished
        then pbind (commit_none_locked RouteUsb (n + 1) True) (\<lambda>_. pthen clear_usb_publication (leave_with False))
        else pthen leave_writer_with_handoff (commit_observed r (n + 1)))) m y post))"
    if "know z False (RouteNone, RouteNone, n + 1, RouteStable) ps (r = RouteUsb) True y"
      "ps \<noteq> [] \<and> hd ps = (RouteNone, RouteNone, n, RouteStable)" for y
    by (rule k_put_route [OF that(1)], rule k_end, assumption)
      (use that(2) r(1) tail in \<open>auto intro: route_move.select\<close>)
  show ?thesis
    unfolding commit_publish_def sat_then route_rg.sat_bind
  proof (rule k_begin [OF k], rule k_next, assumption, rule k_gentle [OF _ gentle_tokens(7)], assumption)
    fix y u lost' v
    assume "ps \<noteq> [] \<and> hd ps = (RouteNone, RouteNone, n, RouteStable)"
      "know z False (RouteNone, RouteNone, n + 1, RouteStable) ps (r = RouteUsb) True v"
    then show "sat (if lost' then pthen (put_route RouteNone) (pthen end_publication (pthen (clear_if_usb r) (leave_with False)))
       else pthen (put_route r) (pthen end_publication
         (pbind (if r = RouteUsb then finish_usb_publication w else Ret True) (\<lambda>finished.
          if \<not> finished
          then pbind (commit_none_locked RouteUsb (n + 1) True) (\<lambda>_. pthen clear_usb_publication (leave_with False))
          else pthen leave_writer_with_handoff (commit_observed r (n + 1)))))) wrt v post"
      using lost won by (simp add: sat_then)
  qed
qed

text \<open>A result that only promises what the watcher saw.\<close>

definition ends :: "('a \<Rightarrow> route \<times> route_notes \<Rightarrow> bool) \<Rightarrow> 'a \<Rightarrow> route_role set \<Rightarrow> route \<times> route_notes \<Rightarrow> bool" where
  "ends q a m y \<longleftrightarrow> m = {} \<and> q a y"

lemma k_leave:
  "know z True d ps False fr x \<Longrightarrow> (\<And>y. q a y) \<Longrightarrow> sat (leave_with a) wrt x (ends q)"
  by (rule leave_with_sat) (simp_all add: ends_def)

lemma commit_sat:
  "sat (commit_if_none r c) {} x (ends (\<lambda>ok y. ok \<longrightarrow> (\<exists>n. (r, r, n, RouteStable) \<in> set (nt_published (snd y)))))"
  (is "sat _ _ _ ?post")
proof (cases "r \<noteq> RouteUsb \<and> r \<noteq> RouteBle")
  case True
  then show ?thesis by (simp add: commit_if_none_def ends_def)
next
  case False
  then have r: "r \<noteq> RouteNone" by auto
  have publish: "sat (commit_publish r w) wrt y ?post"
    if "know z True (RouteNone, RouteNone, n, RouteStable) ps (r = RouteUsb) fr y" "r = RouteUsb \<Longrightarrow> \<not> bit w 31"
    for z n ps fr y w
    by (rule commit_publish_sat [OF that(1) r that(2)]) (auto simp: ends_def)
  have choose: "sat (if u then leave_with False
      else if r = RouteUsb
      then pbind (begin_usb_publication c) (\<lambda>identity.
        case identity of None \<Rightarrow> leave_with False | Some w \<Rightarrow> commit_publish r w)
      else commit_publish r 0) wrt y ?post"
    if k: "know z True (dd, a, n, t) ps False fr y"
      and u: "\<not> u \<Longrightarrow> dd = RouteNone \<and> a = RouteNone \<and> t = RouteStable" for z dd a n t ps fr y u
  proof (rule k_if, rule k_leave [OF k], simp, rule k_if)
    assume nu: "\<not> u" and ru: "r = RouteUsb"
    have kk: "know z True (RouteNone, RouteNone, n, RouteStable) ps False fr y" using k u nu by simp
    have some: "sat (case Some w of None \<Rightarrow> leave_with False | Some w \<Rightarrow> commit_publish r w) wrt v ?post"
      if "know z True (RouteNone, RouteNone, n, RouteStable) ps True False v" "\<not> bit w 31" for w v
      using publish [of z n ps False v w] that ru by simp
    show "sat (pbind (begin_usb_publication c) (\<lambda>identity.
        case identity of None \<Rightarrow> leave_with False | Some w \<Rightarrow> commit_publish r w)) wrt y ?post"
      by (rule k_bind, rule k_begin_usb [OF kk]) (simp add: k_leave, rule some)
  next
    assume "\<not> u" "r \<noteq> RouteUsb"
    then show "sat (commit_publish r 0) wrt y ?post" using publish [of z n ps fr y 0] k u by auto
  qed
  show ?thesis
    unfolding commit_if_none_def if_not_P [OF False]
  proof (rule k_bind, rule enter_sat)
    fix d ps y assume y: "own True d ps False y"
    obtain dd a n t where "d = (dd, a, n, t)" by (cases d) auto
    then have "know y True (dd, a, n, t) ps False False y" using know_I [OF y] by simp
    then show "sat (if \<not> True then Ret False else pbind route_unavailable (\<lambda>unavailable.
        if unavailable then leave_with False
        else if r = RouteUsb
        then pbind (begin_usb_publication c) (\<lambda>identity.
          case identity of None \<Rightarrow> leave_with False | Some w \<Rightarrow> commit_publish r w)
        else commit_publish r 0)) wrt y ?post"
      by (simp only: not_True_eq_False if_False) (rule k_bind, rule k_unavailable, assumption, rule choose)
  qed (simp add: ends_def)
qed

lemma begin_release_sat:
  assumes "e \<noteq> RouteNone"
  shows "sat (begin_release e) {} x (ends (\<lambda>(ok, sn) y. ok \<longrightarrow>
     (\<exists>a. sn = Some a \<and> (RouteNone, e, sn_generation a, RouteReleasing) \<in> set (nt_published (snd y)))))"
  (is "sat _ _ _ ?post")
proof -
  let ?res = "\<lambda>stage_a current. (sn_coherent stage_a \<and> sn_coherent current \<and> \<not> sn_pending current
                 \<and> sn_desired current = RouteNone \<and> sn_active current = e
                 \<and> sn_generation current = sn_generation stage_a \<and> sn_transition current = RouteReleasing,
              Some stage_a)"
  have observe: "sat (pbind snapshot (\<lambda>current. Ret (?res a current))) {} y ?post" for a y
    by (rule k_bind, rule snapshot_sat) (auto simp: ends_def seen_def)
  have stage: "sat (pbind snapshot (\<lambda>a. pthen leave_writer_with_handoff (pbind snapshot (\<lambda>current. Ret (?res a current)))))
      wrt y ?post" if k: "know z True d ps False fr y" for z d ps fr y
  proof (rule k_bind, rule snapshot_sat)
    show "wrt \<subseteq> route_held (fst y)" using k own_held know_own by blast
    fix a u assume "env wrt y u"
    from know_env [OF k this]
    show "sat (pthen leave_writer_with_handoff (pbind snapshot (\<lambda>current. Ret (?res a current)))) wrt u ?post"
      unfolding sat_then by (rule handoff_sat) (rule observe)
  qed
  have publish: "sat (pthen begin_publication
         (pthen (stores [(\<lambda>s. s\<lparr>desired := RouteNone\<rparr>), (\<lambda>s. s\<lparr>transition := RouteReleasing\<rparr>)])
           (pthen end_publication (pbind snapshot (\<lambda>a.
            pthen leave_writer_with_handoff (pbind snapshot (\<lambda>current. Ret (?res a current)))))))) wrt y ?post"
    if k: "know z True (e, e, n, RouteStable) ps False fr y" for z n ps fr y
    unfolding stores.simps sat_then route_rg.sat.simps
    by (rule k_begin [OF k], rule k_desired, assumption, rule k_transition, assumption, rule k_end, assumption)
      (use assms route_move.release stage in auto)
  show ?thesis
    unfolding begin_release_def
  proof (rule k_bind, rule enter_sat)
    fix d ps y assume y: "own True d ps False y"
    obtain dd a n t where "d = (dd, a, n, t)" by (cases d) auto
    then have k: "know y True (dd, a, n, t) ps False False y" using know_I [OF y] by simp
    show "sat (if \<not> True then Ret (False, None) else pbind (not_releasable e) (\<lambda>refused.
       if refused then leave_with (False, None)
       else pthen begin_publication
         (pthen (stores [(\<lambda>s. s\<lparr>desired := RouteNone\<rparr>), (\<lambda>s. s\<lparr>transition := RouteReleasing\<rparr>)])
           (pthen end_publication (pbind snapshot (\<lambda>a.
            pthen leave_writer_with_handoff (pbind snapshot (\<lambda>current. Ret (?res a current))))))))) wrt y ?post"
      unfolding not_True_eq_False if_False
    proof (rule k_bind, rule k_not_releasable [OF k], rule k_if)
      fix u v assume v: "know y True (dd, a, n, t) ps False False v"
      show "sat (leave_with (False, None)) wrt v ?post" by (rule k_leave [OF v]) simp
      assume "\<not> u \<Longrightarrow> dd = e \<and> a = e \<and> t = RouteStable" "\<not> u"
      then show "sat (pthen begin_publication
         (pthen (stores [(\<lambda>s. s\<lparr>desired := RouteNone\<rparr>), (\<lambda>s. s\<lparr>transition := RouteReleasing\<rparr>)])
           (pthen end_publication (pbind snapshot (\<lambda>a.
            pthen leave_writer_with_handoff (pbind snapshot (\<lambda>current. Ret (?res a current)))))))) wrt v ?post"
        using publish v by blast
    qed
  qed (simp add: ends_def)
qed

abbreviation fine :: "'a \<Rightarrow> route_role set \<Rightarrow> route \<times> route_notes \<Rightarrow> bool" where
  "fine \<equiv> ends (\<lambda>_ _. True)"

lemma fine_ret: "sat (Ret a) {} x fine"
  by (simp add: ends_def)

lemma k_fine_leave: "know z True d ps False fr x \<Longrightarrow> sat (leave_with a) wrt x fine"
  by (rule k_leave) simp_all

lemma entered:
  assumes "\<And>dd a n t ps y. know y True (dd, a, n, t) ps False False y \<Longrightarrow> sat p wrt y post"
    and "\<And>y. route_base x y \<Longrightarrow> post b {} y"
  shows "sat (pbind try_enter_writer (\<lambda>entered. if \<not> entered then Ret b else p)) {} x post"
proof (rule k_bind, rule enter_sat)
  fix d ps y assume y: "own True d ps False y"
  obtain dd a n t where "d = (dd, a, n, t)" by (cases d) auto
  then show "sat (if \<not> True then Ret b else p) wrt y post" using assms(1) know_I [OF y] by simp
qed (simp add: assms(2))

lemma complete_release_sat:
  assumes "e \<noteq> RouteNone"
  shows "sat (complete_release e expected) {} x fine"
proof -
  have pending: "sat (pbind invalidation_pending (\<lambda>pending. Ret (\<not> pending))) {} y fine" for y
    by (rule k_bind, rule free_gentle [OF gentle_tokens(2)]) (rule fine_ret)
  have leave: "sat (pthen leave_writer_with_handoff (pbind invalidation_pending (\<lambda>pending. Ret (\<not> pending)))) wrt y fine"
    if "know z True d ps False fr y" for z d ps fr y
    unfolding sat_then by (rule handoff_sat [OF that]) (rule pending)
  have publish: "sat (pthen begin_publication
         (pthen (stores [(\<lambda>s. s\<lparr>active := RouteNone\<rparr>), (\<lambda>s. s\<lparr>generation := generation s + 1\<rparr>),
                         (\<lambda>s. s\<lparr>transition := RouteStable\<rparr>)])
           (pthen end_publication (pthen leave_writer_with_handoff
             (pbind invalidation_pending (\<lambda>pending. Ret (\<not> pending))))))) wrt y fine"
    if k: "know z True (RouteNone, e, n, t) ps False fr y" for z n t ps fr y
    unfolding stores.simps sat_then [of begin_publication] sat_then [of end_publication]
      sat_then [of "store f" for f] sat_then [of "pthen p q" for p q] route_rg.sat.simps
    by (rule k_begin [OF k], rule k_active, assumption, simp, rule k_generation, assumption, rule k_transition,
        assumption, rule k_end, assumption) (use assms route_move.retire leave in auto)
  show ?thesis
    unfolding complete_release_def
  proof (rule entered, rule k_bind, rule k_stage_a, assumption, rule k_if, rule k_fine_leave, assumption)
    fix dd a n t ps y u v
    assume "know y True (dd, a, n, t) ps False False v" "u \<Longrightarrow> a = e \<and> dd = RouteNone" "\<not> \<not> u"
    then show "sat (pthen begin_publication
         (pthen (stores [(\<lambda>s. s\<lparr>active := RouteNone\<rparr>), (\<lambda>s. s\<lparr>generation := generation s + 1\<rparr>),
                         (\<lambda>s. s\<lparr>transition := RouteStable\<rparr>)])
           (pthen end_publication (pthen leave_writer_with_handoff
             (pbind invalidation_pending (\<lambda>pending. Ret (\<not> pending))))))) wrt v fine"
      using publish by blast
  qed (simp add: ends_def)
qed

lemma retire_and_leave:
  assumes "know y True (dd, a, n, t) ps False fr y"
  shows "sat (pbind (commit_none_locked er en exact) leave_with) wrt y fine"
  by (rule k_bind, rule k_commit_none [OF assms]) (rule k_fine_leave, assumption)+

lemma invalidate_sat: "sat invalidate {} x fine"
  unfolding invalidate_def
proof (rule k_bind, rule route_rg.sat_loadI, goal_cases)
  case (1 s g)
  have le: "unat (generation s) \<le> nt_generations (snd (s, g))"
    using 1 by (simp add: route_inv_def route_bounded_def unsigned_of_nat take_bit_nat_eq_self)
  show ?case
    by (rule k_bind, rule publish_durable_sat [OF le], rule k_if, rule fine_ret, rule entered,
        rule retire_and_leave, assumption) (simp add: ends_def)
qed

lemma invalidate_if_sat: "sat (invalidate_if_matches expected) {} x fine"
  unfolding invalidate_if_matches_def
proof (rule k_if, rule fine_ret, rule k_bind, rule snapshot_sat, simp, rule k_if, rule fine_ret)
  fix sn y
  assume "seen sn y" "\<not> (\<not> sn_coherent sn \<or> \<not> same_route sn expected)"
  then have le: "unat (sn_generation expected) \<le> nt_generations (snd y)"
    by (simp add: seen_def same_route_def)
  show "sat (pbind (publish_durable_invalidation (sn_generation expected)) (\<lambda>published.
      if \<not> published then Ret False
      else pbind try_enter_writer (\<lambda>entered.
        if \<not> entered then Ret False
        else pbind (commit_none_locked (sn_active expected) (sn_generation expected) True) leave_with))) {} y fine"
    by (rule k_bind, rule publish_durable_sat [OF le], rule k_if, rule fine_ret, rule entered,
        rule retire_and_leave, assumption) (simp add: ends_def)
qed

lemma claim_sat: "sat (with_claim expected token retire) {} x fine"
proof -
  have release: "sat (pthen (release_invalidation_claim expected token'') (Ret a)) wrt y fine"
    if "know z True d ps False fr y" for z d ps fr y token'' a
    unfolding sat_then release_invalidation_claim_def
    by (rule k_bind, rule k_gentle [OF that gentle_tokens(4)], rule handoff_sat, assumption) (simp add: ends_def)
  have retire: "sat (retire_invalidation_claim expected token') wrt y
      (\<lambda>(retired, token'') m y. sat (pthen (release_invalidation_claim expected token'') (Ret (res, retired))) m y fine)"
    if k: "know z True (dd, a, n, t) ps False fr y" for z dd a n t ps fr y token' res
    unfolding retire_invalidation_claim_def
    by (rule k_bind, rule k_commit_none [OF k])
      (auto simp: route_rg.sat_bind intro!: release k_gentle [OF _ gentle_tokens(4)])
  have done': "sat (pbind (if retire then retire_invalidation_claim expected token' else Ret (False, token'))
       (\<lambda>(retired, token''). pthen (release_invalidation_claim expected token'') (Ret (res, retired)))) wrt y fine"
    if k: "know z True (dd, a, n, t) ps False fr y" for z dd a n t ps fr y token' res
    by (cases retire)
      (simp_all add: route_rg.sat_bind case_prod_unfold retire [OF k, unfolded case_prod_unfold] release [OF k])
  let ?rest = "\<lambda>(res, token'). if res \<noteq> ClaimedExact then Ret (res, False)
     else pbind (if retire then retire_invalidation_claim expected token' else Ret (False, token'))
       (\<lambda>(retired, token''). pthen (release_invalidation_claim expected token'') (Ret (res, retired)))"
  have exact: "sat (pbind (pbind (still_exact expected) (\<lambda>exact.
      if \<not> exact
      then pbind (cancel_conditional_invalidation (sn_generation expected) token')
        (\<lambda>_. leave_with (ClaimStale, kNoConditionalInvalidationToken))
      else Ret (ClaimedExact, token'))) ?rest) wrt y fine"
    if k: "know z True (dd, a, n, t) ps False fr y" for z dd a n t ps fr y token'
  proof (simp only: route_rg.sat_bind, rule k_gentle [OF k gentle_tokens(8)], rule k_if)
    fix e v assume v: "know z True (dd, a, n, t) ps False fr v"
    show "sat (pbind (cancel_conditional_invalidation (sn_generation expected) token')
        (\<lambda>_. leave_with (ClaimStale, kNoConditionalInvalidationToken))) wrt v (\<lambda>a m' x'. sat (?rest a) m' x' fine)"
      by (rule k_bind, rule k_gentle [OF v gentle_tokens(4)], rule leave_with_sat, assumption)
        (simp add: ends_def)
    show "sat (Ret (ClaimedExact, token')) wrt v (\<lambda>a m' x'. sat (?rest a) m' x' fine)"
      by (rule k_ret) (simp only: prod.case simp_thms if_False, rule done' [OF v])
  qed
  have stale: "sat (?rest (ClaimStale, w)) {} y fine" "sat (?rest (ClaimPending, w)) {} y fine" for w y
    by (simp_all add: ends_def)
  have enter: "sat (pbind try_enter_writer (\<lambda>entered.
      if \<not> entered then Ret (ClaimPending, token')
      else pbind (still_exact expected) (\<lambda>exact.
      if \<not> exact
      then pbind (cancel_conditional_invalidation (sn_generation expected) token')
        (\<lambda>_. leave_with (ClaimStale, kNoConditionalInvalidationToken))
      else Ret (ClaimedExact, token')))) {} y (\<lambda>a m' x'. sat (?rest a) m' x' fine)" for y token'
    by (rule entered) (use exact stale in \<open>simp_all only: route_rg.sat_bind\<close>)
  show ?thesis
    unfolding with_claim_def claim_invalidation_if_matches_def
  proof (rule k_bind, rule k_if, rule k_ret, rule stale, rule k_bind, rule snapshot_sat, simp, rule k_if, rule k_if)
    fix sn y
    show "sat (pbind (cancel_conditional_invalidation (sn_generation expected) token)
          (\<lambda>_. Ret (ClaimStale, kNoConditionalInvalidationToken))) {} y (\<lambda>a m' x'. sat (?rest a) m' x' fine)"
      by (rule k_bind, rule free_gentle [OF gentle_tokens(4)], rule k_ret, rule stale)
    show "sat (Ret (ClaimStale, token)) {} y (\<lambda>a m' x'. sat (?rest a) m' x' fine)"
      by (rule k_ret, rule stale)
    show "sat (pbind (publish_conditional_invalidation (sn_generation expected) token) (\<lambda>(published, token').
      if \<not> published then Ret (ClaimStale, token')
      else pbind try_enter_writer (\<lambda>entered.
      if \<not> entered then Ret (ClaimPending, token')
      else pbind (still_exact expected) (\<lambda>exact.
      if \<not> exact
      then pbind (cancel_conditional_invalidation (sn_generation expected) token')
        (\<lambda>_. leave_with (ClaimStale, kNoConditionalInvalidationToken))
      else Ret (ClaimedExact, token'))))) {} y (\<lambda>a m' x'. sat (?rest a) m' x' fine)"
    proof (rule k_bind, rule free_gentle [OF gentle_tokens(6)])
      fix q u
      show "sat (case q of (published, token') \<Rightarrow>
        if \<not> published then Ret (ClaimStale, token')
        else pbind try_enter_writer (\<lambda>entered.
        if \<not> entered then Ret (ClaimPending, token')
        else pbind (still_exact expected) (\<lambda>exact.
        if \<not> exact
        then pbind (cancel_conditional_invalidation (sn_generation expected) token')
          (\<lambda>_. leave_with (ClaimStale, kNoConditionalInvalidationToken))
        else Ret (ClaimedExact, token')))) {} u (\<lambda>a m' x'. sat (?rest a) m' x' fine)"
        by (cases q) (simp only: prod.case, rule k_if, rule k_ret, rule stale, rule enter)
    qed
  qed
qed

lemma veto_sat: "sat publish_usb_lifecycle_veto {} x fine"
  unfolding publish_usb_lifecycle_veto_def store_def
proof (rule route_rg.sat_atomicI, goal_cases)
  case (1 s g)
  let ?s = "s\<lparr>usb_publication_state := veto_word (usb_publication_state s)\<rparr>"
  have w: "route_watch s ?s g = g" by (cases g) (auto simp: route_watch_def veto_bits)
  have i: "route_inv (?s, g)" using 1(1) by (auto simp: route_inv_def accepted_final_def route_data_def veto_bits)
  have b: "route_base (s, g) (?s, g)" by (simp add: route_base_def route_data_def)
  have "route_rg.guar {} (s, g) (?s, g)"
    using b by (auto simp: route_rg.guar_def route_held_def route_data_def veto_bits split: if_splits)
  then show ?case using i by (simp add: w ends_def route_rg.roles_def route_held_def)
qed

lemma gentle_matches: "gentle (route_matches r n)"
  unfolding route_matches_def by (auto intro!: gentle_bind gentle_load gentle_tokens)

lemma answer_sat:
  assumes "sat p {} x (ends q)" "\<And>a y. q a y \<Longrightarrow> route_post (f a) y"
  shows "sat (answer f p) {} x (\<lambda>a m x. m = {} \<and> route_post a x)"
  unfolding answer_def
  by (rule k_bind, rule route_rg.sat_mono [OF assms(1)]) (simp add: ends_def assms(2))

lemma gentle_ends: "gentle p \<Longrightarrow> sat p {} x fine"
  by (rule free_gentle) (simp_all add: ends_def)

lemma route_code_sat: "sat (route_code op) {} x (\<lambda>a m x. m = {} \<and> route_post a x)"
proof (cases op)
  case CallSnapshot
  have "sat snapshot {} x (ends (\<lambda>sn y. route_post (AnsSnapshot sn) y))"
    by (rule snapshot_sat) (auto simp: ends_def seen_def)
  then show ?thesis unfolding CallSnapshot route_code.simps by (rule answer_sat)
next
  case (CallMatches r n)
  show ?thesis unfolding CallMatches route_code.simps
    by (rule answer_sat [OF gentle_ends [OF gentle_matches]]) simp
next
  case CallCut
  have "sat usb_publication_cut {} x fine" unfolding usb_publication_cut_def
    by (rule gentle_ends [OF gentle_load])
  then show ?thesis unfolding CallCut route_code.simps by (rule answer_sat) simp
next
  case CallVeto
  show ?thesis unfolding CallVeto route_code.simps by (rule answer_sat [OF veto_sat]) simp
next
  case (CallCommitUsb c)
  have "sat (commit_usb_if_none c) {} x (ends (\<lambda>ok y. ok \<longrightarrow> (\<exists>n. (RouteUsb, RouteUsb, n, RouteStable) \<in> set (nt_published (snd y)))))"
    unfolding commit_usb_if_none_def usb_publication_cut_def
    by (cases c) (auto intro!: commit_sat k_bind route_rg.sat_loadI)
  then show ?thesis unfolding CallCommitUsb route_code.simps by (rule answer_sat) simp
next
  case CallCommitBle
  show ?thesis unfolding CallCommitBle route_code.simps commit_ble_if_none_def
    by (rule answer_sat [OF commit_sat]) simp
next
  case CallBeginUsbRelease
  show ?thesis unfolding CallBeginUsbRelease route_code.simps begin_usb_release_def
    by (rule answer_sat [OF begin_release_sat]) auto
next
  case CallBeginBleRelease
  show ?thesis unfolding CallBeginBleRelease route_code.simps begin_ble_release_def
    by (rule answer_sat [OF begin_release_sat]) auto
next
  case (CallCompleteUsbRelease e)
  show ?thesis unfolding CallCompleteUsbRelease route_code.simps complete_usb_release_if_matches_def
    by (rule answer_sat [OF complete_release_sat]) auto
next
  case (CallCompleteBleRelease e)
  show ?thesis unfolding CallCompleteBleRelease route_code.simps complete_ble_release_if_matches_def
    by (rule answer_sat [OF complete_release_sat]) auto
next
  case CallInvalidate
  show ?thesis unfolding CallInvalidate route_code.simps by (rule answer_sat [OF invalidate_sat]) auto
next
  case (CallInvalidateIf e)
  show ?thesis unfolding CallInvalidateIf route_code.simps by (rule answer_sat [OF invalidate_if_sat]) auto
next
  case (CallClaim e token retire)
  show ?thesis unfolding CallClaim route_code.simps by (rule answer_sat [OF claim_sat]) auto
next
  case (CallCancel n token)
  show ?thesis unfolding CallCancel route_code.simps
    by (rule answer_sat [OF gentle_ends [OF gentle_tokens(4)]]) simp
qed

definition no_notes :: route_notes where
  "no_notes = \<lparr>nt_published = [(RouteNone, RouteNone, 0, RouteStable)], nt_generations = 0, nt_ticks = 0,
     nt_accepted = {}, nt_breach = False\<rparr>"

interpretation route_sys: interleaved route_code route_watch route_bounded route_inv route_held
  route_base route_keep "(route_init, no_notes)" route_post AnsNone
proof
  show "route_inv (route_init, no_notes)"
    by (simp add: route_inv_def route_init_def no_notes_def accepted_final_def route_data_def)
  show "route_held (fst (route_init, no_notes)) = {}" by (simp add: route_held_def route_init_def)
  show "sat (route_code op) {} x (\<lambda>a m x. m = {} \<and> route_post a x)" for op x by (rule route_code_sat)
  show "route_post a x \<Longrightarrow> route_base x y \<Longrightarrow> route_post a y" for a x y
    by (cases a) (auto simp: route_base_def)
qed simp

section \<open>Every interleaving\<close>

definition route_run :: "route_call sched list \<Rightarrow> (route, route_answer, route_notes) pool" where
  "route_run es = foldl (pool_step route_code route_watch) ((\<lambda>t. Ret AnsNone), route_init, no_notes) es"

lemma route_run_boot: "route_run es = foldl (pool_step route_code route_watch) route_sys.boot es"
  by (simp add: route_run_def route_sys.boot_def)

lemma route_reach: "route_run es = (ts, s, g) \<Longrightarrow> route_bounded g \<Longrightarrow> route_inv (s, g)"
  using route_sys.reach_inv [of es ts "(s, g)"] by (simp add: route_run_boot)

lemma route_run_append: "route_run (es @ es') = foldl (pool_step route_code route_watch) (route_run es) es'"
  by (simp add: route_run_def)

lemma route_run_base:
  assumes "route_run es = (ts, s, g)" "route_run (es @ es') = (ts', s', g')" "route_bounded g'"
  shows "route_bounded g" "route_base (s, g) (s', g')"
proof -
  have f: "foldl (pool_step route_code route_watch) (ts, s, g) es' = (ts', s', g')"
    using assms(1,2) by (simp add: route_run_append)
  show "route_bounded g"
    using route_sys.bounded_run [of "(ts, s, g)" es'] assms(3) by (simp add: f)
  have "route_rg.pool_ok route_post (ts, s, g)"
    using route_sys.reach_ok [of es] assms(1) by (simp add: route_run_boot)
  then show "route_base (s, g) (s', g')"
    using route_sys.run_base [of "(ts, s, g)" es'] assms(3) by (simp add: f)
qed

section \<open>Running time of the calls\<close>

lemma within_if: "within n p \<Longrightarrow> within k q \<Longrightarrow> within (max n k) (if c then p else q)"
  using within_mono [of n p "max n k"] within_mono [of k q "max n k"] by simp

lemma within_ret: "within 0 (Ret a)"
  by simp

lemma within_load: "within 1 (load f)"
  by (simp add: load_def)

lemma within_store: "within 1 (store f)"
  by (simp add: store_def)

lemma within_atomic1: "within 1 (atomic f)"
  by simp

lemma within_then: "within n p \<Longrightarrow> within k q \<Longrightarrow> within (n + k) (pthen p q)"
  unfolding pthen_def by (rule within_bind)

lemma within_option: "within n p \<Longrightarrow> (\<And>a. within k (q a)) \<Longrightarrow> within (max n k) (case v of None \<Rightarrow> p | Some a \<Rightarrow> q a)"
  using within_mono [of n p "max n k"] within_mono [of k _ "max n k"] by (cases v) auto

lemma within_pair: "(\<And>a b. within k (q a b)) \<Longrightarrow> within k (case v of (a, b) \<Rightarrow> q a b)"
  by (cases v) auto

lemmas within_rules = within_ret within_load within_store within_atomic1 within_then within_bind within_if
  within_option within_pair

lemmas route_defs = invalidation_pending_def invalidation_pending_without_usb_publication_def route_matches_def
  usb_publication_cut_def publish_usb_lifecycle_veto_def cas_usb_def begin_usb_publication_def
  finish_usb_publication_def clear_usb_publication_def begin_publication_def end_publication_def
  try_enter_writer_def leave_writer_def cas_token_def clear_superseded_conditional_invalidation_locked_def
  put_none_def commit_none_locked_def cas_durable_def retire_target_def drop_request_def
  process_durable_invalidation_locked_def leave_writer_with_handoff_def publish_durable_invalidation_def
  allocate_conditional_token_def conditional_invalidation_matches_def publish_conditional_invalidation_def
  cancel_conditional_invalidation_def leave_with_def put_route_def next_generation_def route_unavailable_def
  publication_lost_def commit_observed_def clear_if_usb_def commit_publish_def commit_if_none_def
  commit_usb_if_none_def commit_ble_if_none_def not_releasable_def begin_release_def stage_a_matches_def
  complete_release_def begin_usb_release_def complete_usb_release_if_matches_def begin_ble_release_def
  complete_ble_release_if_matches_def invalidate_def invalidate_if_matches_def still_exact_def
  claim_invalidation_if_matches_def retire_invalidation_claim_def release_invalidation_claim_def
  with_claim_def answer_def

lemma within_le: "within n p \<Longrightarrow> n \<le> m \<Longrightarrow> within m p"
  by (rule within_mono)

lemma within_snapshot: "within 30 snapshot"
  unfolding snapshot_def numeral_3_eq_3 snapshot_from.simps invalidation_pending_def
    invalidation_pending_without_usb_publication_def
  by (rule within_le, (rule within_rules)+, simp)

lemma within_pending: "within 3 invalidation_pending"
  unfolding invalidation_pending_def invalidation_pending_without_usb_publication_def
  by (rule within_le, (rule within_rules)+, simp)

lemma within_none: "within 8 (commit_none_locked r n e)"
  unfolding commit_none_locked_def begin_publication_def put_none_def end_publication_def stores.simps
  by (rule within_le, (rule within_rules)+, simp)

lemma within_handoff: "within 30 leave_writer_with_handoff"
  unfolding leave_writer_with_handoff_def process_durable_invalidation_locked_def retire_target_def drop_request_def
    clear_superseded_conditional_invalidation_locked_def cas_token_def cas_durable_def leave_writer_def
  by (rule within_le, (rule within_none within_rules)+, simp)

lemma within_cancel: "within 3 (cancel_conditional_invalidation n w)"
  unfolding cancel_conditional_invalidation_def conditional_invalidation_matches_def cas_token_def
  by (rule within_le, (rule within_rules)+, simp)

lemma within_publish: "within 5 (publish_durable_invalidation n)" "within 5 (publish_conditional_invalidation n w)"
  unfolding publish_durable_invalidation_def publish_conditional_invalidation_def cas_durable_def cas_token_def
    allocate_conditional_token_def conditional_invalidation_matches_def stores.simps
  by (rule within_le, (rule within_rules)+, simp)+

lemma within_commit: "within 120 (commit_if_none r c)"
  unfolding commit_if_none_def try_enter_writer_def route_unavailable_def leave_with_def begin_usb_publication_def
    Let_def cas_usb_def commit_publish_def begin_publication_def next_generation_def publication_lost_def
    invalidation_pending_without_usb_publication_def put_route_def end_publication_def clear_if_usb_def
    clear_usb_publication_def finish_usb_publication_def commit_observed_def stores.simps
  by (rule within_le, (rule within_none within_handoff within_snapshot within_pending within_rules)+, simp)

lemma within_release: "within 120 (begin_release r)" "within 120 (complete_release r e)"
  unfolding begin_release_def complete_release_def try_enter_writer_def not_releasable_def stage_a_matches_def
    leave_with_def begin_publication_def end_publication_def stores.simps
  by (rule within_le, (rule within_handoff within_snapshot within_pending within_rules)+, simp)+

lemma within_invalidate: "within 120 invalidate" "within 120 (invalidate_if_matches e)"
  unfolding invalidate_def invalidate_if_matches_def try_enter_writer_def leave_with_def
  by (rule within_le, (rule within_handoff within_snapshot within_none within_publish within_rules)+, simp)+

lemma within_claim: "within 120 (with_claim e w retire)"
  unfolding with_claim_def claim_invalidation_if_matches_def try_enter_writer_def leave_with_def still_exact_def
    retire_invalidation_claim_def release_invalidation_claim_def
  by (rule within_le, (rule within_handoff within_snapshot within_none within_publish within_cancel within_rules)+, simp)

lemma within_answer: "within n p \<Longrightarrow> within n (answer f p)"
  unfolding answer_def using within_bind [of n p 0 "\<lambda>a. Ret (f a)"] by simp

lemma within_simple:
  "within 120 snapshot" "within 120 (route_matches r n)" "within 120 usb_publication_cut"
  "within 120 publish_usb_lifecycle_veto" "within 120 (cancel_conditional_invalidation n w)"
  unfolding route_matches_def usb_publication_cut_def publish_usb_lifecycle_veto_def
  by (rule within_le, (rule within_snapshot within_pending within_cancel within_rules)+, simp)+

lemma within_commit_usb: "within 121 (commit_usb_if_none c)"
  unfolding commit_usb_if_none_def usb_publication_cut_def
  by (rule within_le, (rule within_commit within_rules)+, simp)

lemma within_call: "within 121 (route_code op)"
proof -
  have m: "within 120 p \<Longrightarrow> within 121 (answer f p)" for p :: "(route, 'b) prog" and f
    by (rule within_answer, rule within_le [of 120]) simp_all
  note parts = within_simple within_commit within_release within_invalidate within_claim
  show ?thesis
    by (cases op)
      (simp_all add: parts [THEN m] within_answer [OF within_commit_usb] commit_ble_if_none_def begin_usb_release_def
        begin_ble_release_def complete_usb_release_if_matches_def complete_ble_release_if_matches_def)
qed

section \<open>Properties\<close>







end
