(* ===== verification/ControlJson.thy ===== *)
theory ControlJson
  imports ControlSession FirmwareIdentity FixtureProfile Complex_Main
begin

text \<open>
  The request side of \<open>control_protocol\<close>: the JSON tree of a request, the checks every tree passes
  before it is read, and the validation of the parameters of each command. The parser and the two
  look-up functions of cJSON are not part of the repository: they are the fields of a record \<open>J\<close>. Its
  tree is a datatype with cJSON's kinds of items; a number is the value of its double, \<open>None\<close> when
  not finite; strings keep the zero bytes an escape can put into them. A pointer that may be null is
  an option, a pointer to an item the path of positions that leads to it.
\<close>

section \<open>The tree and the library\<close>

datatype json =
    JNull
  | JBool bool
  | JNumber "rat option"
  | JString string
  | JArray "json list"
  | JObject "(string \<times> json) list"

text \<open>
  \<open>cj_parse\<close>: \<open>cJSON_ParseWithLengthOpts\<close> of the bytes and a zero, everything consumed;
  \<open>cj_find\<close>: \<open>cJSON_GetObjectItemCaseSensitive\<close>, the position of the item among the children;
  \<open>cj_size\<close>: \<open>cJSON_GetArraySize\<close>.
\<close>

record cjson =
  cj_parse :: "u8 list \<Rightarrow> json option"
  cj_find :: "json \<Rightarrow> string \<Rightarrow> nat option"
  cj_size :: "json \<Rightarrow> int"

text \<open>The documented behaviour of the two look-ups on objects and arrays.\<close>

fun children :: "json \<Rightarrow> json list" where
  "children (JArray xs) = xs"
| "children (JObject ms) = map snd ms"
| "children _ = []"

definition cjson_ok :: "cjson \<Rightarrow> bool" where
  "cjson_ok J \<longleftrightarrow>
     (\<forall>ms n. cj_find J (JObject ms) n =
        (if \<exists>m \<in> set ms. c_string (fst m) = n
         then Some (length (takeWhile (\<lambda>m. c_string (fst m) \<noteq> n) ms)) else None))
     \<and> (\<forall>x. cj_size J x = int (length (children x)))"

definition get_item :: "cjson \<Rightarrow> json option \<Rightarrow> string \<Rightarrow> json option" where
  "get_item J item name =
     (case item of None \<Rightarrow> None
      | Some obj \<Rightarrow> map_option (\<lambda>i. children obj ! i) (cj_find J obj name))"

fun is_object :: "json option \<Rightarrow> bool" where
  "is_object (Some (JObject ms)) = True"
| "is_object _ = False"

definition size_of :: "cjson \<Rightarrow> json option \<Rightarrow> int" where
  "size_of J item = (case item of None \<Rightarrow> 0 | Some x \<Rightarrow> cj_size J x)"

section \<open>Checks on the tree\<close>

definition kMaxCommandBytes :: nat where "kMaxCommandBytes = 48"
definition kMaxJsonStringBytes :: nat where "kMaxJsonStringBytes = 64"
definition kMaxJsonObjectMembers :: nat where "kMaxJsonObjectMembers = 8"
definition kMaxJsonArrayMembers :: nat where "kMaxJsonArrayMembers = 8"
definition kMaxJsonDepth :: nat where "kMaxJsonDepth = 4"
definition kMaxSequenceCodeBytes :: nat where "kMaxSequenceCodeBytes = 320"

text \<open>
  \<open>pos\<close> is the path of the item, \<open>long\<close> the path of the one string that may be long; the two list
  functions are the loop over the children with its count.
\<close>

fun is_json_tree_bounded :: "nat list option \<Rightarrow> nat list \<Rightarrow> nat \<Rightarrow> json \<Rightarrow> bool"
  and elements_bounded :: "nat list option \<Rightarrow> nat list \<Rightarrow> nat \<Rightarrow> nat \<Rightarrow> json list \<Rightarrow> bool"
  and members_bounded :: "nat list option \<Rightarrow> nat list \<Rightarrow> nat \<Rightarrow> nat \<Rightarrow> (string \<times> json) list \<Rightarrow> bool" where
  "is_json_tree_bounded long pos depth (JString s) =
     (depth \<le> kMaxJsonDepth
      \<and> length (c_string s) \<le> (if long = Some pos then kMaxSequenceCodeBytes else kMaxJsonStringBytes))"
| "is_json_tree_bounded long pos depth (JArray xs) =
     (depth \<le> kMaxJsonDepth \<and> elements_bounded long pos depth 0 xs)"
| "is_json_tree_bounded long pos depth (JObject ms) =
     (depth \<le> kMaxJsonDepth \<and> members_bounded long pos depth 0 ms)"
| "is_json_tree_bounded long pos depth _ = (depth \<le> kMaxJsonDepth)"
| "elements_bounded long pos depth count [] = True"
| "elements_bounded long pos depth count (x # xs) =
     (if count + 1 > kMaxJsonArrayMembers
         \<or> \<not> is_json_tree_bounded long (pos @ [count]) (depth + 1) x then False
      else elements_bounded long pos depth (count + 1) xs)"
| "members_bounded long pos depth count [] = True"
| "members_bounded long pos depth count ((n, x) # ms) =
     (if count + 1 > kMaxJsonObjectMembers \<or> length (c_string n) > kMaxJsonStringBytes
         \<or> \<not> is_json_tree_bounded long (pos @ [count]) (depth + 1) x then False
      else members_bounded long pos depth (count + 1) ms)"

text \<open>The two loops over pairs of names.\<close>

fun names_differ :: "(string \<times> json) list \<Rightarrow> bool" where
  "names_differ [] = True"
| "names_differ ((n, x) # ms) =
     (list_all (\<lambda>(n', x'). c_string n \<noteq> c_string n') ms \<and> names_differ ms)"

fun object_has_no_duplicate_keys :: "json \<Rightarrow> bool" where
  "object_has_no_duplicate_keys (JObject ms) =
     (names_differ ms \<and> list_all (\<lambda>(n, x). object_has_no_duplicate_keys x) ms)"
| "object_has_no_duplicate_keys (JArray xs) = list_all object_has_no_duplicate_keys xs"
| "object_has_no_duplicate_keys _ = True"

fun object_has_only_fields :: "json option \<Rightarrow> string list \<Rightarrow> bool" where
  "object_has_only_fields (Some (JObject ms)) allowed =
     list_all (\<lambda>(n, x). list_ex (\<lambda>a. c_string n = a) allowed) ms"
| "object_has_only_fields _ allowed = False"

section \<open>Reading fields\<close>

text \<open>
  \<open>is_integer_number\<close>, and the test that always follows it: an integer between two bounds, with
  the conversion of its value.
\<close>

fun is_integer_number :: "json option \<Rightarrow> bool" where
  "is_integer_number (Some (JNumber (Some v))) = (of_int \<lfloor>v\<rfloor> = v)"
| "is_integer_number _ = False"

fun valuedouble :: "json option \<Rightarrow> rat" where
  "valuedouble (Some (JNumber (Some v))) = v"
| "valuedouble _ = 0"

definition integer_between :: "int \<Rightarrow> int \<Rightarrow> json option \<Rightarrow> int option" where
  "integer_between lo hi item =
     (if \<not> is_integer_number item \<or> valuedouble item < of_int lo \<or> valuedouble item > of_int hi then None
      else Some \<lfloor>valuedouble item\<rfloor>)"

definition kInt32Max :: int where "kInt32Max = 2147483647"

definition parse_id :: "cjson \<Rightarrow> json option \<Rightarrow> i32 option" where
  "parse_id J req = integer_between 0 kInt32Max (get_item J req ''id'')"

definition get_bounded_nonempty_string :: "cjson \<Rightarrow> json option \<Rightarrow> string \<Rightarrow> nat \<Rightarrow> string option" where
  "get_bounded_nonempty_string J obj name maximum =
     (case get_item J obj name of
        Some (JString s) \<Rightarrow>
          (if c_string s = [] \<or> length (c_string s) > maximum then None else Some (c_string s))
      | _ \<Rightarrow> None)"

definition bytes :: "string \<Rightarrow> u8 list" where "bytes = map of_char"

section \<open>Parameters of the commands\<close>

definition validate_no_params :: "json option \<Rightarrow> bool" where
  "validate_no_params params = (case params of None \<Rightarrow> True | Some x \<Rightarrow> is_object (Some x) \<and> children x = [])"

definition validate_hello_params :: "cjson \<Rightarrow> json option \<Rightarrow> string option" where
  "validate_hello_params J params =
     (if \<not> is_object params \<or> \<not> object_has_only_fields params [''client_nonce''] then None
      else case get_bounded_nonempty_string J params ''client_nonce'' kTokenHexLength of
        None \<Rightarrow> None
      | Some nonce \<Rightarrow> (if is_lower_hex_token (bytes nonce) then Some nonce else None))"

record pairing_request =
  pr_pairing_id :: u32
  pr_passkey :: string

definition kUint32Max :: int where "kUint32Max = 4294967295"

definition passkey_digit :: "char \<Rightarrow> bool" where
  "passkey_digit c \<longleftrightarrow> \<not> (ord c < ord CHR ''0'' \<or> ord c > ord CHR ''9'')"

definition validate_pairing_respond_params :: "cjson \<Rightarrow> json option \<Rightarrow> pairing_request option" where
  "validate_pairing_respond_params J params =
     (if \<not> is_object params \<or> \<not> object_has_only_fields params [''pairing_id'', ''passkey'']
         \<or> size_of J params \<noteq> 2 then None
      else case integer_between 1 kUint32Max (get_item J params ''pairing_id'') of
        None \<Rightarrow> None
      | Some i \<Rightarrow>
          (case get_bounded_nonempty_string J params ''passkey'' 6 of
             None \<Rightarrow> None
           | Some passkey \<Rightarrow>
               (if length passkey \<noteq> 6 \<or> \<not> list_all passkey_digit passkey then None
                else Some \<lparr>pr_pairing_id = of_int i, pr_passkey = passkey\<rparr>)))"

definition kBondIdHexChars :: nat where "kBondIdHexChars = 32"

text \<open>A \<open>BondId\<close> is its array of 33 characters.\<close>

definition valid_bond_id :: "string \<Rightarrow> bool" where
  "valid_bond_id b \<longleftrightarrow> b ! kBondIdHexChars = nul \<and> is_lower_hex_token (bytes (take kBondIdHexChars b))"

definition validate_bond_remove_params :: "cjson \<Rightarrow> json option \<Rightarrow> string option" where
  "validate_bond_remove_params J params =
     (if \<not> is_object params \<or> \<not> object_has_only_fields params [''bond_id''] \<or> size_of J params \<noteq> 1 then None
      else case get_bounded_nonempty_string J params ''bond_id'' kBondIdHexChars of
        None \<Rightarrow> None
      | Some v \<Rightarrow>
          (if length v \<noteq> kBondIdHexChars \<or> \<not> is_lower_hex_token (bytes v) then None
           else Some (put_at kBondIdHexChars [nul] (put_at 0 v (replicate (kBondIdHexChars + 1) nul)))))"

datatype cp_route = CpNone | CpUsb | CpBle

definition validate_route_set_params :: "cjson \<Rightarrow> json option \<Rightarrow> bool \<Rightarrow> cp_route option" where
  "validate_route_set_params J params allow_ble =
     (if \<not> is_object params \<or> \<not> object_has_only_fields params [''route''] then None
      else case get_bounded_nonempty_string J params ''route'' 4 of
        None \<Rightarrow> None
      | Some v \<Rightarrow>
          (if v = ''none'' then Some CpNone
           else if v = ''usb'' then Some CpUsb
           else if allow_ble \<and> v = ''ble'' then Some CpBle
           else None))"

definition allowed_keyboard_usage :: "u8 \<Rightarrow> bool" where
  "allowed_keyboard_usage usage \<longleftrightarrow> usage \<ge> 0x04 \<and> usage \<le> 0xA4 \<or> usage \<ge> 0xB0 \<and> usage \<le> 0xDD"

record keyboard_request =
  kr_modifiers :: u8
  kr_keycodes :: "u8 list"

text \<open>The loop over the keys, which fills the array of six from \<open>key_index\<close> on.\<close>

fun keyboard_keys :: "int \<Rightarrow> nat \<Rightarrow> json list \<Rightarrow> u8 list \<Rightarrow> u8 list option" where
  "keyboard_keys previous key_index [] codes = Some codes"
| "keyboard_keys previous key_index (key # keys) codes =
     (case integer_between 0 255 (Some key) of
        None \<Rightarrow> None
      | Some v \<Rightarrow>
          (if v \<le> previous \<or> \<not> allowed_keyboard_usage (of_int v) then None
           else keyboard_keys v (key_index + 1) keys (codes[key_index := of_int v])))"

definition validate_keyboard_report_params :: "cjson \<Rightarrow> json option \<Rightarrow> keyboard_request option" where
  "validate_keyboard_report_params J params =
     (if \<not> is_object params \<or> \<not> object_has_only_fields params [''modifiers'', ''keys''] then None
      else case integer_between 0 255 (get_item J params ''modifiers'') of
        None \<Rightarrow> None
      | Some m \<Rightarrow>
          (case get_item J params ''keys'' of
             Some (JArray keys) \<Rightarrow>
               (if cj_size J (JArray keys) < 0 \<or> cj_size J (JArray keys) > 6 then None
                else map_option (\<lambda>codes. \<lparr>kr_modifiers = of_int m, kr_keycodes = codes\<rparr>)
                       (keyboard_keys (- 1) 0 keys (replicate 6 0)))
           | _ \<Rightarrow> None))"

record mouse_request =
  mr_buttons :: u8
  mr_x :: int
  mr_y :: int
  mr_wheel :: int
  mr_pan :: int

text \<open>The \<open>int8_t\<close> fields hold the integers the validation bounds.\<close>

definition validate_mouse_report_params :: "cjson \<Rightarrow> json option \<Rightarrow> mouse_request option" where
  "validate_mouse_report_params J params =
     (if \<not> is_object params
         \<or> \<not> object_has_only_fields params [''buttons'', ''x'', ''y'', ''wheel'', ''pan''] then None
      else
        (case (integer_between 0 31 (get_item J params ''buttons''),
               integer_between (- 127) 127 (get_item J params ''x''),
               integer_between (- 127) 127 (get_item J params ''y''),
               integer_between (- 127) 127 (get_item J params ''wheel''),
               integer_between (- 127) 127 (get_item J params ''pan'')) of
           (Some b, Some x, Some y, Some w, Some p) \<Rightarrow>
             Some \<lparr>mr_buttons = of_int b, mr_x = x, mr_y = y, mr_wheel = w, mr_pan = p\<rparr>
         | _ \<Rightarrow> None))"

definition validate_sequence_start_params :: "cjson \<Rightarrow> json option \<Rightarrow> u8 list \<Rightarrow> string option" where
  "validate_sequence_start_params J params raw_payload =
     (if \<not> is_object params \<or> \<not> object_has_only_fields params [''code'']
         \<or> 92 \<in> set raw_payload then None
      else get_bounded_nonempty_string J params ''code'' kMaxSequenceCodeBytes)"

definition validate_sequence_status_params :: "cjson \<Rightarrow> json option \<Rightarrow> i32 option" where
  "validate_sequence_status_params J params =
     (if \<not> is_object params \<or> \<not> object_has_only_fields params [''sequence_id''] then None
      else integer_between 0 kInt32Max (get_item J params ''sequence_id''))"

text \<open>Whether a byte string occurs in another: \<open>string_view::find\<close> against \<open>npos\<close>.\<close>

fun occurs :: "u8 list \<Rightarrow> u8 list \<Rightarrow> bool" where
  "occurs needle [] = (needle = [])"
| "occurs needle (b # bs) = (take (length needle) (b # bs) = needle \<or> occurs needle bs)"

definition validate_profile_select_params :: "cjson \<Rightarrow> json option \<Rightarrow> u8 list \<Rightarrow> profile_definition option" where
  "validate_profile_select_params J params payload =
     (if occurs (bytes (CHR 0x5c # ''u0000'')) payload \<or> \<not> is_object params
         \<or> \<not> object_has_only_fields params [''profile''] \<or> size_of J params \<noteq> 1 then None
      else case get_bounded_nonempty_string J params ''profile'' 48 of
        None \<Rightarrow> None
      | Some name \<Rightarrow> find_profile_name name)"

end
