(* ===== verification/ControlResponse.thy ===== *)
theory ControlResponse
  imports ControlJson SequenceGrammar BondAssociation
begin

text \<open>
  The response side of \<open>control_protocol\<close>: what the providers answer, and the formatters that print
  it as one line of JSON. \<open>vsnprintf\<close> writes into the fixed array of a response frame: the text as
  far as it fits, and a zero; a text that does not fit makes the frame empty and the formatter
  fails. A session field is \<open>None\<close> for \<open>kUncorrelatableSession\<close>.
\<close>

section \<open>Answers of the providers\<close>

record protocol_metadata =
  md_project :: "string option"
  md_target :: "string option"
  md_idf_version :: "string option"
  md_identity :: "identity_record option"

record usb_status_answer =
  us_mounted :: bool
  us_suspended :: bool
  us_keyboard_ready :: bool
  us_mouse_ready :: bool

datatype usb_exposure_desired = UeHidden | UeExposed

datatype usb_exposure_observed =
  UeDriverNotInstalled | UeDisconnected | UeAttaching | UeMounted | UeSuspended | UeDetaching

datatype usb_exposure_operation = UeInstall | UeUninstall | UeRuntime

record usb_exposure_error =
  ue_present :: bool
  ue_operation :: usb_exposure_operation
  ue_code :: i32

record usb_exposure_status =
  ue_desired :: usb_exposure_desired
  ue_observed :: usb_exposure_observed
  ue_generation :: u32
  ue_mounted :: bool
  ue_suspended :: bool
  ue_keyboard_ready :: bool
  ue_mouse_ready :: bool
  ue_safety_pending :: bool
  ue_host_release_uncertain :: bool
  ue_recovery_required :: bool
  ue_last_error :: usb_exposure_error

datatype action_kind = ActAccepted | ActNoOp | ActBusy

record usb_exposure_outcome =
  uo_result :: action_kind
  uo_snapshot_valid :: bool
  uo_snapshot :: usb_exposure_status

datatype ble_exposure_desired = BeHidden | BeExposed

datatype ble_exposure_observed =
  BeUninitialized | BeEnabling | BeIdle | BeAdvertising | BeConnected | BeDisabling | BeFault

datatype ble_exposure_operation = BeEnable | BeDisable | BeRuntime

record ble_exposure_error =
  be_present :: bool
  be_operation :: ble_exposure_operation
  be_code :: i32

record ble_exposure_status =
  be_desired :: ble_exposure_desired
  be_observed :: ble_exposure_observed
  be_generation :: u32
  be_stack_ready :: bool
  be_advertising :: bool
  be_connected :: bool
  be_recovery_required :: bool
  be_last_error :: ble_exposure_error

datatype ble_action_kind = BaAccepted | BaNoOp | BaBusy

record ble_exposure_outcome =
  bo_result :: ble_action_kind
  bo_snapshot_valid :: bool
  bo_snapshot :: ble_exposure_status

datatype pairing_state = PsIdle | PsSecuring | PsWaitingInput

datatype pairing_result =
    PrNone | PrSucceeded | PrSmpFailed | PrTimeout | PrPeerDisconnected | PrStoreFull | PrStorage
  | PrQueueOverflow | PrRepeatPairing | PrSecurityPolicy

record pairing_status =
  pa_available :: bool
  pa_state :: pairing_state
  pa_generation :: u32
  pa_connected :: bool
  pa_input_pending :: bool
  pa_pairing_id :: u32
  pa_remaining_ms :: u32
  pa_encrypted :: bool
  pa_authenticated :: bool
  pa_bonded :: bool
  pa_secure_connections :: bool
  pa_key_size :: u8
  pa_last_result :: pairing_result

datatype respond_result = RrAccepted | RrNotPending | RrInjectionFailed

record bond_info =
  bi_bond_id :: string
  bi_our_sec :: bool
  bi_peer_sec :: bool
  bi_verified :: bool
  bi_schema_revision_present :: bool
  bi_schema_revision :: u8
  bi_schema_current :: bool
  bi_connected :: bool

datatype bond_list_kind = BlSuccess | BlNotReady | BlStorageFailure

record bond_list =
  bl_kind :: bond_list_kind
  bl_bonds :: "bond_info list"
  bl_count :: u8
  bl_available :: u8
  bl_healthy :: bool

datatype bond_remove_kind = BrSuccess | BrNotReady | BrNotFound | BrAmbiguous | BrBusy | BrStorageFailure

record bond_remove =
  br_kind :: bond_remove_kind
  br_bond_id :: string
  br_remaining :: u8

datatype cp_transition = CpStable | CpReleasing

record route_status =
  rs_desired :: cp_route
  rs_active :: cp_route
  rs_generation :: u32
  rs_transition :: cp_transition
  rs_ready :: bool

datatype route_action = RaAccepted | RaNoOp | RaBusy | RaNotReady | RaSafetyPending

record route_outcome =
  ro_result :: route_action
  ro_snapshot_valid :: bool
  ro_snapshot :: route_status

datatype interface_state = AlreadyUp | ReleaseSubmitted

record release_answer =
  ra_success :: bool
  ra_authority_lost :: bool
  ra_keyboard :: interface_state
  ra_mouse :: interface_state

datatype report_state = AlreadySet | ReportSubmitted

datatype report_failure_kind = RfNone | RfNotReady | RfBusy | RfSafetyPending | RfAuthorityLost | RfUnsupported

record report_answer =
  rp_success :: bool
  rp_authority_lost :: bool
  rp_state :: report_state
  rp_failure :: report_failure_kind

datatype start_answer = SaAccepted | SaInvalid | SaBusy | SaNotReady | SaSafetyPending | SaUnsupported

datatype cp_sequence_state = CsAccepted | CsRunning | CsCompleted | CsFailed | CsAborted

record sequence_answer =
  sq_sequence_id :: i32
  sq_state :: cp_sequence_state
  sq_started :: bool
  sq_executed :: u8
  sq_failed_token_present :: bool
  sq_failed_token :: u8
  sq_code :: "string option"

datatype selection_transition = SelStable | SelInitializing | SelFault

record selection_snapshot =
  sel_selected :: profile_id
  sel_active :: profile_id
  sel_active_present :: bool
  sel_transition :: selection_transition

datatype selection_result = SelNoOp | SelAccepted | SelBusy

record selection_outcome =
  so_result :: selection_result
  so_snapshot :: selection_snapshot

record led_status =
  led_supported :: bool
  led_valid :: bool
  led_leds :: u8

section \<open>Metadata\<close>

definition kMaxMetadataBytes :: nat where "kMaxMetadataBytes = 32"

fun is_bounded_string :: "string option \<Rightarrow> nat \<Rightarrow> bool" where
  "is_bounded_string None maximum = False"
| "is_bounded_string (Some v) maximum = (length (c_string v) \<le> maximum)"

text \<open>
  A plain \<open>char\<close> is compared with \<open>0x20\<close>; it is unsigned on the firmware's target, and nothing
  below depends on the bytes above 0x7f.
\<close>

definition is_safe_metadata_string :: "string option \<Rightarrow> bool" where
  "is_safe_metadata_string v \<longleftrightarrow>
     (if \<not> is_bounded_string v kMaxMetadataBytes then False
      else list_all (\<lambda>c. \<not> (ord c < 0x20 \<or> c = CHR 0x22 \<or> c = CHR 0x5c)) (c_string (the v)))"

definition bounded_array_string :: "string \<Rightarrow> nat \<Rightarrow> string option" where
  "bounded_array_string v maximum =
     (case index_of nul v of
        None \<Rightarrow> None
      | Some n \<Rightarrow> (if n > maximum then None else Some (take n v)))"

definition is_nonzero_hex :: "string \<Rightarrow> bool" where
  "is_nonzero_hex v \<longleftrightarrow> list_ex (\<lambda>c. c \<noteq> CHR ''0'') v"

definition is_valid_identity :: "identity_record option \<Rightarrow> bool" where
  "is_valid_identity identity =
     (case identity of None \<Rightarrow> False
      | Some d \<Rightarrow>
          (case (bounded_array_string (id_version d) kVersionMaxBytes,
                 bounded_array_string (id_revision d) kSourceRevisionChars,
                 bounded_array_string (id_app_sha d) kAppElfSha256HexChars,
                 bounded_array_string (id_profile d) kBuildProfileMaxBytes) of
             (Some version, Some src_rev, Some sha, Some profile) \<Rightarrow>
               is_valid_version version
               \<and> is_valid_source_revision \<lparr>sr_present = id_revision_present d, sr_value = src_rev\<rparr>
               \<and> is_valid_app_elf_sha256 sha \<and> is_nonzero_hex sha \<and> is_valid_build_profile profile
           | _ \<Rightarrow> False))"

section \<open>Printing into a frame\<close>

definition chars :: "u8 list \<Rightarrow> string" where "chars = map (\<lambda>b. char_of (unat b))"

definition dec_word :: "'a::len word \<Rightarrow> string" where "dec_word w = decimal (unat w)"

definition dec_int :: "int \<Rightarrow> string" where
  "dec_int i = (if i < 0 then CHR ''-'' # decimal (nat (- i)) else decimal (nat i))"

text \<open>\<open>vsnprintf\<close> at an offset of the array.\<close>

definition print_at :: "nat \<Rightarrow> string \<Rightarrow> u8 list \<Rightarrow> u8 list" where
  "print_at off txt out = put_at off (bytes (take (kMaxResponseBytes - off - 1) txt) @ [0]) out"

definition format_frame :: "string \<Rightarrow> response_frame \<Rightarrow> bool \<times> response_frame" where
  "format_frame txt frame =
     (let f = frame\<lparr>resp_bytes := print_at 0 txt (resp_bytes frame)\<rparr>
      in if length txt \<ge> kMaxResponseBytes then (False, f\<lparr>resp_length := 0\<rparr>)
         else (True, f\<lparr>resp_length := length txt\<rparr>))"

definition append_frame :: "string \<Rightarrow> response_frame \<Rightarrow> bool \<times> response_frame" where
  "append_frame txt frame =
     (if resp_length frame \<ge> kMaxResponseBytes then (False, frame)
      else
        (let f = frame\<lparr>resp_bytes := print_at (resp_length frame) txt (resp_bytes frame)\<rparr>
         in if length txt \<ge> kMaxResponseBytes - resp_length frame then (False, f\<lparr>resp_length := 0\<rparr>)
            else (True, f\<lparr>resp_length := resp_length frame + length txt\<rparr>)))"

definition format_session_field :: "u8 list option \<Rightarrow> string option" where
  "format_session_field session =
     (case session of
        None \<Rightarrow> Some ''null''
      | Some token \<Rightarrow> (if is_lower_hex_token token then Some (''\"'' @ chars token @ ''\"'') else None))"

text \<open>What every formatter begins with: an empty frame and failure when the session is no token.\<close>

definition with_session ::
  "u8 list option \<Rightarrow> response_frame \<Rightarrow> (string \<Rightarrow> bool \<times> response_frame) \<Rightarrow> bool \<times> response_frame" where
  "with_session session frame print =
     (case format_session_field session of
        None \<Rightarrow> (False, frame\<lparr>resp_length := 0\<rparr>)
      | Some field \<Rightarrow> print field)"

definition quoted :: "string \<Rightarrow> string" where "quoted s = ''\"'' @ s @ ''\"''"

definition success_head :: "i32 \<Rightarrow> string \<Rightarrow> string" where
  "success_head i field =
     ''@HIDBOT {\"type\":\"response\",\"v\":1,\"id\":'' @ dec_int i
     @ '',\"session\":'' @ field @ '',\"ok\":true,\"result\":{''"

definition line_end :: string where "line_end = ''}}'' @ [CHR 0x0a]"

definition make_error ::
  "u8 list option \<Rightarrow> i32 option \<Rightarrow> string \<Rightarrow> string \<Rightarrow> response_frame \<Rightarrow> bool \<times> response_frame" where
  "make_error session i code message frame =
     with_session session frame (\<lambda>field. format_frame
       (''@HIDBOT {\"type\":\"response\",\"v\":1,\"id\":'' @ (case i of None \<Rightarrow> ''null'' | Some n \<Rightarrow> dec_int n)
        @ '',\"session\":'' @ field @ '',\"ok\":false,\"error\":{\"code\":'' @ quoted code
        @ '',\"message\":'' @ quoted message @ line_end) frame)"

definition make_ping :: "u8 list option \<Rightarrow> i32 \<Rightarrow> response_frame \<Rightarrow> bool \<times> response_frame" where
  "make_ping session i frame =
     with_session session frame (\<lambda>field. format_frame
       (success_head i field @ ''\"pong\":true'' @ line_end) frame)"

definition c_text :: "string option \<Rightarrow> string" where "c_text s = c_string (the s)"

definition make_info ::
  "u8 list option \<Rightarrow> i32 \<Rightarrow> protocol_metadata \<Rightarrow> response_frame \<Rightarrow> bool \<times> response_frame" where
  "make_info session i md frame =
     with_session session frame (\<lambda>field.
       let head = success_head i field @ ''\"project\":'' @ quoted (c_text (md_project md))
             @ '',\"target\":'' @ quoted (c_text (md_target md))
             @ '',\"idf_version\":'' @ quoted (c_text (md_idf_version md)) @ '',\"protocol_version\":1''
       in case md_identity md of
            None \<Rightarrow> format_frame (head @ line_end) frame
          | Some d \<Rightarrow>
              (if \<not> is_valid_identity (Some d) then (False, frame\<lparr>resp_length := 0\<rparr>)
               else format_frame (head @ '',\"firmware\":{\"version\":'' @ quoted (c_string (id_version d))
                 @ '',\"source_revision\":''
                 @ (if id_revision_present d then quoted (c_string (id_revision d)) else ''null'')
                 @ '',\"app_elf_sha256\":'' @ quoted (c_string (id_app_sha d))
                 @ '',\"build_profile\":'' @ quoted (c_string (id_profile d)) @ ''}'' @ line_end) frame))"

section \<open>The formatters of the commands\<close>

definition json_bool :: "bool \<Rightarrow> string" where "json_bool b = (if b then ''true'' else ''false'')"

definition make_usb_status ::
  "u8 list option \<Rightarrow> i32 \<Rightarrow> usb_status_answer \<Rightarrow> response_frame \<Rightarrow> bool \<times> response_frame" where
  "make_usb_status session i status frame =
     with_session session frame (\<lambda>field. format_frame
       (success_head i field @ ''\"mounted\":'' @ json_bool (us_mounted status)
        @ '',\"suspended\":'' @ json_bool (us_suspended status)
        @ '',\"keyboard_ready\":'' @ json_bool (us_keyboard_ready status)
        @ '',\"mouse_ready\":'' @ json_bool (us_mouse_ready status) @ line_end) frame)"

definition usb_exposure_desired_json :: "usb_exposure_desired \<Rightarrow> string" where
  "usb_exposure_desired_json d = (if d = UeExposed then ''exposed'' else ''hidden'')"

fun usb_exposure_observed_json :: "usb_exposure_observed \<Rightarrow> string" where
  "usb_exposure_observed_json UeDisconnected = ''disconnected''"
| "usb_exposure_observed_json UeAttaching = ''attaching''"
| "usb_exposure_observed_json UeMounted = ''mounted''"
| "usb_exposure_observed_json UeSuspended = ''suspended''"
| "usb_exposure_observed_json UeDetaching = ''detaching''"
| "usb_exposure_observed_json UeDriverNotInstalled = ''driver_not_installed''"

fun usb_exposure_operation_json :: "usb_exposure_operation \<Rightarrow> string" where
  "usb_exposure_operation_json UeUninstall = ''uninstall''"
| "usb_exposure_operation_json UeRuntime = ''runtime''"
| "usb_exposure_operation_json UeInstall = ''install''"

definition make_usb_exposure_status ::
  "u8 list option \<Rightarrow> i32 \<Rightarrow> usb_exposure_status \<Rightarrow> response_frame \<Rightarrow> bool \<times> response_frame" where
  "make_usb_exposure_status session i status frame =
     with_session session frame (\<lambda>field.
       let head = success_head i field
             @ ''\"desired\":'' @ quoted (usb_exposure_desired_json (ue_desired status))
             @ '',\"observed\":'' @ quoted (usb_exposure_observed_json (ue_observed status))
             @ '',\"generation\":'' @ dec_word (ue_generation status)
             @ '',\"mounted\":'' @ json_bool (ue_mounted status)
             @ '',\"suspended\":'' @ json_bool (ue_suspended status)
             @ '',\"keyboard_ready\":'' @ json_bool (ue_keyboard_ready status)
             @ '',\"mouse_ready\":'' @ json_bool (ue_mouse_ready status)
             @ '',\"safety_pending\":'' @ json_bool (ue_safety_pending status)
             @ '',\"host_release_uncertain\":'' @ json_bool (ue_host_release_uncertain status)
             @ '',\"recovery_required\":'' @ json_bool (ue_recovery_required status);
           last_error = ue_last_error status
       in if \<not> ue_present last_error then format_frame (head @ '',\"last_error\":null'' @ line_end) frame
          else format_frame (head @ '',\"last_error\":{\"operation\":''
            @ quoted (usb_exposure_operation_json (ue_operation last_error))
            @ '',\"code\":'' @ dec_int (ue_code last_error) @ ''}'' @ line_end) frame)"

definition ble_exposure_desired_json :: "ble_exposure_desired \<Rightarrow> string" where
  "ble_exposure_desired_json d = (if d = BeExposed then ''exposed'' else ''hidden'')"

fun ble_exposure_observed_json :: "ble_exposure_observed \<Rightarrow> string" where
  "ble_exposure_observed_json BeEnabling = ''enabling''"
| "ble_exposure_observed_json BeIdle = ''idle''"
| "ble_exposure_observed_json BeAdvertising = ''advertising''"
| "ble_exposure_observed_json BeConnected = ''connected''"
| "ble_exposure_observed_json BeDisabling = ''disabling''"
| "ble_exposure_observed_json BeFault = ''fault''"
| "ble_exposure_observed_json BeUninitialized = ''uninitialized''"

fun ble_exposure_operation_json :: "ble_exposure_operation \<Rightarrow> string" where
  "ble_exposure_operation_json BeEnable = ''enable''"
| "ble_exposure_operation_json BeDisable = ''disable''"
| "ble_exposure_operation_json BeRuntime = ''runtime''"

definition make_ble_exposure_status ::
  "u8 list option \<Rightarrow> i32 \<Rightarrow> ble_exposure_status \<Rightarrow> response_frame \<Rightarrow> bool \<times> response_frame" where
  "make_ble_exposure_status session i status frame =
     with_session session frame (\<lambda>field.
       let head = success_head i field
             @ ''\"desired\":'' @ quoted (ble_exposure_desired_json (be_desired status))
             @ '',\"observed\":'' @ quoted (ble_exposure_observed_json (be_observed status))
             @ '',\"generation\":'' @ dec_word (be_generation status)
             @ '',\"stack_ready\":'' @ json_bool (be_stack_ready status)
             @ '',\"advertising\":'' @ json_bool (be_advertising status)
             @ '',\"connected\":'' @ json_bool (be_connected status)
             @ '',\"recovery_required\":'' @ json_bool (be_recovery_required status);
           last_error = be_last_error status
       in if \<not> be_present last_error then format_frame (head @ '',\"last_error\":null'' @ line_end) frame
          else format_frame (head @ '',\"last_error\":{\"operation\":''
            @ quoted (ble_exposure_operation_json (be_operation last_error))
            @ '',\"code\":'' @ dec_int (be_code last_error) @ ''}'' @ line_end) frame)"

text \<open>\<open>snprintf\<close> into an array of \<open>n\<close> characters.\<close>

definition snprintf :: "nat \<Rightarrow> string \<Rightarrow> string" where "snprintf n txt = take (n - 1) txt"

definition make_profile_status ::
  "u8 list option \<Rightarrow> i32 \<Rightarrow> selection_snapshot \<Rightarrow> response_frame \<Rightarrow> bool \<times> response_frame" where
  "make_profile_status session i status frame =
     (let active = find_profile_id (sel_active status) in
      case (format_session_field session, find_profile_id (sel_selected status)) of
        (Some field, Some selected) \<Rightarrow>
          (if sel_active_present status \<and> active = None then (False, frame)
           else format_frame
             (success_head i field @ ''\"selected\":'' @ quoted (prof_name selected)
              @ '',\"active\":'' @ snprintf 64 (if sel_active_present status
                   then quoted (case active of None \<Rightarrow> [] | Some p \<Rightarrow> prof_name p) else ''null'')
              @ '',\"transition\":'' @ quoted (case sel_transition status of
                   SelFault \<Rightarrow> ''fault'' | SelInitializing \<Rightarrow> ''initializing'' | SelStable \<Rightarrow> ''stable'')
              @ line_end) frame)
      | _ \<Rightarrow> (False, frame))"

definition make_led_status ::
  "u8 list option \<Rightarrow> i32 \<Rightarrow> led_status \<Rightarrow> response_frame \<Rightarrow> bool \<times> response_frame" where
  "make_led_status session i status frame =
     (case format_session_field session of
        None \<Rightarrow> (False, frame)
      | Some field \<Rightarrow>
          (if led_leds status > 31 \<or> \<not> led_supported status \<and> led_valid status
              \<or> \<not> led_valid status \<and> led_leds status \<noteq> 0 then (False, frame)
           else format_frame
             (success_head i field @ ''\"supported\":'' @ json_bool (led_supported status)
              @ '',\"valid\":'' @ json_bool (led_valid status)
              @ '',\"leds\":'' @ dec_word (led_leds status) @ line_end) frame))"

text \<open>\<open>%02x\<close> of every byte.\<close>

definition hex_text :: "u8 list \<Rightarrow> string" where
  "hex_text bs = concat (map (\<lambda>b. [fst (hex_pair b), snd (hex_pair b)]) bs)"

text \<open>Appending after a successful write: the short-circuit \<open>if (!append_frame(...)) return false\<close>.\<close>

definition then_append :: "string \<Rightarrow> bool \<times> response_frame \<Rightarrow> bool \<times> response_frame" where
  "then_append txt r = (if fst r then append_frame txt (snd r) else r)"

text \<open>The first loop over the catalogue: the distinct report maps, each printed when it is found.\<close>

definition same_map :: "profile_definition \<Rightarrow> profile_definition \<Rightarrow> bool" where
  "same_map p u \<longleftrightarrow> report_map_sha256 u = report_map_sha256 p"

fun list_maps :: "profile_definition list \<Rightarrow> profile_definition list \<Rightarrow> bool \<times> response_frame
    \<Rightarrow> profile_definition list \<times> bool \<times> response_frame" where
  "list_maps [] unique r = (unique, r)"
| "list_maps (p # ps) unique r =
     (if list_ex (same_map p) unique then list_maps ps unique r
      else list_maps ps (unique @ [p])
        (then_append ((if unique = [] then [] else '','') @ quoted (hex_text (report_map_sha256 p))) r))"

fun identity_class_code :: "logical_identity_class \<Rightarrow> u8" where
  "identity_class_code SharedFixture = 0"

fun list_profiles :: "profile_definition list \<Rightarrow> profile_definition list \<Rightarrow> bool
    \<Rightarrow> bool \<times> response_frame \<Rightarrow> bool \<times> response_frame" where
  "list_profiles unique [] first r = r"
| "list_profiles unique (p # ps) first r =
     (if \<not> list_ex (same_map p) unique then (False, snd r)
      else list_profiles unique ps False
        (then_append ((if first then [] else '','') @ ''['' @ quoted (prof_name p)
          @ '','' @ dec_word (revision p) @ '','' @ dec_word (schema_revision (cache p))
          @ '','' @ decimal (length (takeWhile (\<lambda>u. \<not> same_map p u) unique))
          @ '','' @ dec_word (bond_class_code (prof_bond_class p))
          @ '','' @ dec_word (identity_class_code (identity_class p)) @ '']'') r))"

definition make_profile_list ::
  "u8 list option \<Rightarrow> i32 \<Rightarrow> response_frame \<Rightarrow> bool \<times> response_frame" where
  "make_profile_list session i frame =
     (case format_session_field session of
        None \<Rightarrow> (False, frame)
      | Some field \<Rightarrow>
          (let r = format_frame (success_head i field
                 @ ''\"fields\":[\"id\",\"rev\",\"schema\",\"map\",\"bond\",\"identity\"],\"maps\":['') frame;
               (unique, r1) = list_maps kCatalog [] r
           in then_append (CHR '']'' # line_end)
                (list_profiles unique kCatalog True (then_append ''],\"profiles\":['' r1))))"

fun output_route_json :: "cp_route \<Rightarrow> string" where
  "output_route_json CpUsb = ''usb''"
| "output_route_json CpBle = ''ble''"
| "output_route_json CpNone = ''none''"

definition route_transition_json :: "cp_transition \<Rightarrow> string" where
  "route_transition_json t = (if t = CpReleasing then ''releasing'' else ''stable'')"

definition make_hid_route_status ::
  "u8 list option \<Rightarrow> i32 \<Rightarrow> route_status \<Rightarrow> response_frame \<Rightarrow> bool \<times> response_frame" where
  "make_hid_route_status session i status frame =
     with_session session frame (\<lambda>field. format_frame
       (success_head i field @ ''\"desired\":'' @ quoted (output_route_json (rs_desired status))
        @ '',\"active\":'' @ quoted (output_route_json (rs_active status))
        @ '',\"generation\":'' @ dec_word (rs_generation status)
        @ '',\"transition\":'' @ quoted (route_transition_json (rs_transition status))
        @ '',\"ready\":'' @ json_bool (rs_ready status) @ line_end) frame)"

definition make_versioned_hid_route_status ::
  "u8 list option \<Rightarrow> i32 \<Rightarrow> route_status \<Rightarrow> bool \<Rightarrow> response_frame \<Rightarrow> bool \<times> response_frame" where
  "make_versioned_hid_route_status session i status route_v2 frame =
     (if \<not> route_v2 \<and> rs_active status = CpBle
      then make_error session (Some i) ''HID_ROUTE_V2_REQUIRED'' ''v2 required'' frame
      else make_hid_route_status session i status frame)"

definition release_state_json :: "interface_state \<Rightarrow> string" where
  "release_state_json s = (if s = ReleaseSubmitted then ''submitted'' else ''already_up'')"

definition make_release_all ::
  "u8 list option \<Rightarrow> i32 \<Rightarrow> release_answer \<Rightarrow> response_frame \<Rightarrow> bool \<times> response_frame" where
  "make_release_all session i res frame =
     with_session session frame (\<lambda>field. format_frame
       (success_head i field @ ''\"keyboard\":'' @ quoted (release_state_json (ra_keyboard res))
        @ '',\"mouse\":'' @ quoted (release_state_json (ra_mouse res)) @ line_end) frame)"

definition legacy_capabilities :: "string list" where
  "legacy_capabilities = [''protocol.hello-v1'', ''system.ping-v1'', ''system.info-v1'', ''usb.status-v1'',
     ''usb.exposure-control-v1'', ''hid.lease-v1'', ''hid.release-all-v1'', ''hid.keyboard-report-v1'',
     ''hid.mouse-report-v1'', ''hid.sequence-v1'', ''hid.output-route-v1'', ''hid.output-route-v2'',
     ''ble.exposure-control-v1'', ''ble.pairing-transaction-v1'', ''ble.bond-administration-v1'',
     ''ble.fixture-profile-v1'', ''ble.led-observation-v1'']"

definition identity_capabilities :: "string list" where
  "identity_capabilities = [''protocol.hello-v1'', ''system.ping-v1'', ''system.info-v1'', ''usb.status-v1'',
     ''usb.exposure-control-v1'', ''hid.lease-v1'', ''hid.release-all-v1'', ''hid.keyboard-report-v1'',
     ''hid.mouse-report-v1'', ''hid.sequence-v1'', ''firmware.identity-v1'', ''hid.output-route-v1'',
     ''hid.output-route-v2'', ''ble.exposure-control-v1'', ''ble.pairing-transaction-v1'',
     ''ble.bond-administration-v1'', ''ble.fixture-profile-v1'', ''ble.led-observation-v1'']"

text \<open>The JSON array the two capability constants spell out.\<close>

fun json_strings :: "string list \<Rightarrow> string" where
  "json_strings [] = []"
| "json_strings [s] = quoted s"
| "json_strings (s # t # ss) = quoted s @ '','' @ json_strings (t # ss)"

definition kLeaseMilliseconds :: u32 where "kLeaseMilliseconds = 5000"

definition make_hello ::
  "u8 list option \<Rightarrow> i32 \<Rightarrow> protocol_metadata \<Rightarrow> string \<Rightarrow> u8 list \<Rightarrow> u8 list \<Rightarrow> response_frame \<Rightarrow> bool \<times> response_frame" where
  "make_hello session i md nonce boot result_session frame =
     (case format_session_field session of
        None \<Rightarrow> (False, frame\<lparr>resp_length := 0\<rparr>)
      | Some field \<Rightarrow>
          (if \<not> is_lower_hex_token (bytes nonce)
              \<or> \<not> is_lower_hex_token (takeWhile (\<lambda>b. b \<noteq> 0) boot)
              \<or> \<not> is_lower_hex_token (takeWhile (\<lambda>b. b \<noteq> 0) result_session)
              \<or> md_identity md \<noteq> None \<and> \<not> is_valid_identity (md_identity md)
           then (False, frame\<lparr>resp_length := 0\<rparr>)
           else format_frame
             (success_head i field @ ''\"project\":'' @ quoted (c_text (md_project md))
              @ '',\"protocol_version\":1,\"client_nonce\":'' @ quoted nonce
              @ '',\"boot_id\":'' @ quoted (chars (takeWhile (\<lambda>b. b \<noteq> 0) boot))
              @ '',\"session\":'' @ quoted (chars (takeWhile (\<lambda>b. b \<noteq> 0) result_session))
              @ '',\"lease_ms\":'' @ dec_word kLeaseMilliseconds
              @ '',\"capabilities\":['' @ json_strings (if md_identity md \<noteq> None then identity_capabilities
                   else legacy_capabilities) @ '']'' @ line_end) frame))"

fun pairing_state_json :: "pairing_state \<Rightarrow> string" where
  "pairing_state_json PsSecuring = ''securing''"
| "pairing_state_json PsWaitingInput = ''waiting_input''"
| "pairing_state_json PsIdle = ''idle''"

fun pairing_last_result_json :: "pairing_result \<Rightarrow> string" where
  "pairing_last_result_json PrSucceeded = ''succeeded''"
| "pairing_last_result_json PrSmpFailed = ''smp_failed''"
| "pairing_last_result_json PrTimeout = ''timeout''"
| "pairing_last_result_json PrPeerDisconnected = ''peer_disconnected''"
| "pairing_last_result_json PrStoreFull = ''store_full''"
| "pairing_last_result_json PrStorage = ''storage''"
| "pairing_last_result_json PrQueueOverflow = ''queue_overflow''"
| "pairing_last_result_json PrRepeatPairing = ''repeat_pairing''"
| "pairing_last_result_json PrSecurityPolicy = ''security_policy''"
| "pairing_last_result_json PrNone = ''none''"

definition make_pairing_status ::
  "u8 list option \<Rightarrow> i32 \<Rightarrow> pairing_status \<Rightarrow> response_frame \<Rightarrow> bool \<times> response_frame" where
  "make_pairing_status session i status frame =
     with_session session frame (\<lambda>field.
       let waiting = (pa_state status = PsWaitingInput);
           link = '',\"encrypted\":'' @ json_bool (pa_encrypted status)
             @ '',\"authenticated\":'' @ json_bool (pa_authenticated status)
             @ '',\"bonded\":'' @ json_bool (pa_bonded status)
             @ '',\"secure_connections\":'' @ json_bool (pa_secure_connections status)
             @ '',\"key_size\":'' @ dec_word (pa_key_size status)
             @ '',\"last_result\":'' @ quoted (pairing_last_result_json (pa_last_result status))
       in if \<not> pa_available status
          then make_error session (Some i) ''INTERNAL_ERROR'' ''pairing status is unavailable'' frame
          else if waiting \<and> (\<not> pa_input_pending status \<or> pa_pairing_id status = 0)
          then (False, frame\<lparr>resp_length := 0\<rparr>)
          else if \<not> waiting then format_frame
            (success_head i field @ ''\"state\":'' @ quoted (pairing_state_json (pa_state status))
             @ '',\"generation\":'' @ dec_word (pa_generation status)
             @ '',\"connected\":'' @ json_bool (pa_connected status)
             @ '',\"pairing_id\":null,\"action\":null,\"remaining_ms\":null'' @ link @ line_end) frame
          else format_frame
            (success_head i field @ ''\"state\":\"waiting_input\",\"generation\":'' @ dec_word (pa_generation status)
             @ '',\"connected\":'' @ json_bool (pa_connected status)
             @ '',\"pairing_id\":'' @ dec_word (pa_pairing_id status)
             @ '',\"action\":\"passkey_input\",\"remaining_ms\":'' @ dec_word (pa_remaining_ms status)
             @ link @ line_end) frame)"

definition make_pairing_respond ::
  "u8 list option \<Rightarrow> i32 \<Rightarrow> u32 \<Rightarrow> response_frame \<Rightarrow> bool \<times> response_frame" where
  "make_pairing_respond session i pairing_id frame =
     with_session session frame (\<lambda>field. format_frame
       (success_head i field @ ''\"accepted\":true,\"pairing_id\":'' @ dec_word pairing_id @ line_end) frame)"

text \<open>\<open>strcmp\<close>: whether the first string comes strictly before the second.\<close>

fun strcmp_less :: "string \<Rightarrow> string \<Rightarrow> bool" where
  "strcmp_less a [] = False"
| "strcmp_less [] (c # cs) = True"
| "strcmp_less (b # bs) (c # cs) = (ord b < ord c \<or> b = c \<and> strcmp_less bs cs)"

definition bond_rejected :: "bond_info option \<Rightarrow> bond_info \<Rightarrow> bool" where
  "bond_rejected previous b \<longleftrightarrow>
     \<not> valid_bond_id (bi_bond_id b) \<or> bi_schema_current b \<and> \<not> bi_schema_revision_present b
     \<or> bi_verified b \<and> (\<not> bi_our_sec b \<or> \<not> bi_peer_sec b)
     \<or> (case previous of None \<Rightarrow> False
        | Some p \<Rightarrow> \<not> strcmp_less (c_string (bi_bond_id p)) (c_string (bi_bond_id b)))"

text \<open>The loop over the bonds: the health it finds, whether it went through, the frame.\<close>

fun bond_entries :: "bond_info option \<Rightarrow> bond_info list \<Rightarrow> bool \<Rightarrow> bool \<times> response_frame
    \<Rightarrow> bool \<times> bool \<times> response_frame" where
  "bond_entries previous [] expected_healthy r = (expected_healthy, r)"
| "bond_entries previous (b # bs) expected_healthy r =
     (if \<not> fst r then (expected_healthy, r)
      else if bond_rejected previous b then (expected_healthy, False, (snd r)\<lparr>resp_length := 0\<rparr>)
      else bond_entries (Some b) bs (expected_healthy \<and> bi_verified b)
        (then_append ('',\"schema_current\":'' @ json_bool (bi_schema_current b)
            @ '',\"connected\":'' @ json_bool (bi_connected b) @ ''}'')
          (then_append (if bi_schema_revision_present b then dec_word (bi_schema_revision b) else ''null'')
            (then_append ((if previous = None then [] else '','') @ ''{\"bond_id\":''
               @ quoted (c_string (bi_bond_id b)) @ '',\"our_sec\":'' @ json_bool (bi_our_sec b)
               @ '',\"peer_sec\":'' @ json_bool (bi_peer_sec b) @ '',\"verified\":'' @ json_bool (bi_verified b)
               @ '',\"schema_revision\":'') r))))"

definition make_bond_list ::
  "u8 list option \<Rightarrow> i32 \<Rightarrow> bond_list \<Rightarrow> response_frame \<Rightarrow> bool \<times> response_frame" where
  "make_bond_list session i res frame =
     with_session session frame (\<lambda>field.
       if bl_count res > 3 \<or> unat (bl_available res) \<noteq> 3 - unat (bl_count res)
       then (False, frame\<lparr>resp_length := 0\<rparr>)
       else
         (let r = format_frame (success_head i field @ ''\"capacity\":3,\"count\":'' @ dec_word (bl_count res)
                @ '',\"available\":'' @ dec_word (bl_available res)
                @ '',\"healthy\":'' @ json_bool (bl_healthy res) @ '',\"bonds\":['') frame;
              (expected_healthy, r1) = bond_entries None (take (unat (bl_count res)) (bl_bonds res)) True r
          in if \<not> fst r1 then r1
             else if bl_healthy res \<noteq> expected_healthy then (False, (snd r1)\<lparr>resp_length := 0\<rparr>)
             else append_frame (CHR '']'' # line_end) (snd r1)))"

definition make_bond_remove ::
  "u8 list option \<Rightarrow> i32 \<Rightarrow> bond_remove \<Rightarrow> response_frame \<Rightarrow> bool \<times> response_frame" where
  "make_bond_remove session i res frame =
     with_session session frame (\<lambda>field.
       if \<not> valid_bond_id (br_bond_id res) \<or> br_remaining res \<ge> 3 then (False, frame\<lparr>resp_length := 0\<rparr>)
       else format_frame
         (success_head i field @ ''\"bond_id\":'' @ quoted (c_string (br_bond_id res))
          @ '',\"removed\":true,\"remaining\":'' @ dec_word (br_remaining res) @ line_end) frame)"

definition make_sequence_start :: "u8 list option \<Rightarrow> i32 \<Rightarrow> response_frame \<Rightarrow> bool \<times> response_frame" where
  "make_sequence_start session i frame =
     (case format_session_field session of
        None \<Rightarrow> (False, frame)
      | Some field \<Rightarrow> format_frame
          (success_head i field @ ''\"sequence_id\":'' @ dec_int i @ '',\"state\":\"accepted\"'' @ line_end) frame)"

fun sequence_state_json :: "cp_sequence_state \<Rightarrow> string" where
  "sequence_state_json CsAccepted = ''accepted''"
| "sequence_state_json CsRunning = ''running''"
| "sequence_state_json CsCompleted = ''completed''"
| "sequence_state_json CsAborted = ''aborted''"
| "sequence_state_json CsFailed = ''failed''"

definition make_sequence_status ::
  "u8 list option \<Rightarrow> i32 \<Rightarrow> sequence_answer \<Rightarrow> response_frame \<Rightarrow> bool \<times> response_frame" where
  "make_sequence_status session i status frame =
     (case format_session_field session of
        None \<Rightarrow> (False, frame)
      | Some field \<Rightarrow>
          (let failed_token = snprintf 16 (if sq_failed_token_present status
                 then dec_word (sq_failed_token status) else ''null'');
               code = snprintf 48 (case sq_code status of None \<Rightarrow> ''null'' | Some c \<Rightarrow> quoted (c_string c))
           in format_frame
             (success_head i field @ ''\"sequence_id\":'' @ dec_int (sq_sequence_id status)
              @ '',\"state\":'' @ quoted (sequence_state_json (sq_state status))
              @ '',\"started\":'' @ json_bool (sq_started status)
              @ '',\"executed\":'' @ dec_word (sq_executed status)
              @ '',\"failed_token\":'' @ failed_token @ '',\"code\":'' @ code @ line_end) frame))"

definition make_report :: "u8 list option \<Rightarrow> i32 \<Rightarrow> report_answer \<Rightarrow> response_frame \<Rightarrow> bool \<times> response_frame" where
  "make_report session i res frame =
     with_session session frame (\<lambda>field. format_frame
       (success_head i field @ ''\"state\":''
        @ quoted (if rp_state res = AlreadySet then ''already_set'' else ''submitted'') @ line_end) frame)"

definition make_keyboard_report ::
  "u8 list option \<Rightarrow> i32 \<Rightarrow> report_answer \<Rightarrow> response_frame \<Rightarrow> bool \<times> response_frame" where
  "make_keyboard_report = make_report"

definition make_mouse_report ::
  "u8 list option \<Rightarrow> i32 \<Rightarrow> report_answer \<Rightarrow> response_frame \<Rightarrow> bool \<times> response_frame" where
  "make_mouse_report = make_report"

text \<open>The two switches over the failure of a report differ in the name they print.\<close>

definition make_report_error ::
  "string \<Rightarrow> u8 list option \<Rightarrow> i32 \<Rightarrow> report_failure_kind \<Rightarrow> response_frame \<Rightarrow> bool \<times> response_frame" where
  "make_report_error name session i failure frame =
     (let (code, message) = (case failure of
            RfBusy \<Rightarrow> (''HID_BUSY'', name @ '' report is busy'')
          | RfSafetyPending \<Rightarrow> (''HID_SAFETY_PENDING'', ''HID safety recovery is pending'')
          | RfAuthorityLost \<Rightarrow> (''SESSION_MISMATCH'', ''request session is not active'')
          | RfUnsupported \<Rightarrow> (''HID_UNSUPPORTED_OPERATION'', ''active HID route has no '' @ name @ '' report role'')
          | _ \<Rightarrow> (''HID_NOT_READY'', name @ '' endpoint is not ready''))
      in make_error session (Some i) code message frame)"

definition make_keyboard_error ::
  "u8 list option \<Rightarrow> i32 \<Rightarrow> report_failure_kind \<Rightarrow> response_frame \<Rightarrow> bool \<times> response_frame" where
  "make_keyboard_error = make_report_error ''keyboard''"

definition make_mouse_error ::
  "u8 list option \<Rightarrow> i32 \<Rightarrow> report_failure_kind \<Rightarrow> response_frame \<Rightarrow> bool \<times> response_frame" where
  "make_mouse_error = make_report_error ''mouse''"

end
