(* ===== verification/ControlProtocol.thy ===== *)
theory ControlProtocol
  imports ControlResponse ControlFraming
begin

text \<open>
  \<open>control_protocol::Protocol\<close>: the dispatcher that turns the frames of the UART link into calls of
  the firmware's providers. The state is the session, the identity of sensitive requests and two
  flags; the calls it makes are logged, and what a provider answers may depend on all calls before,
  so that every behaviour of the rest of the firmware is an environment. \<open>cp_served\<close> is a history of
  the requests whose answers the session recorded or repeated; no operation reads it. The scratch
  buffer that holds the request and later the response is wiped by the code; its contents are the
  arguments and results here.
\<close>

section \<open>Providers and state\<close>

datatype config_entry =
    EOutput | EUsbStatus | EUsbExposureStatus | EUsbAttach | EUsbDetach | ERouteStatus | ELedStatus
  | EProfileStatus | EProfileSelect | EBleExposureStatus | EBleEnable | EBleDisable | EPairingStatus
  | EPairingRespond | EBondList | EBondRemove | ERouteSet | EAuthorityEpoch | ESequenceStart
  | ESequenceStatus | ENow | ELeaseExpired | ESessionTakeover | ESafetyFailure | EReleaseAll
  | EKeyboardReport | EMouseReport | EOwnerRetired

record protocol_config =
  cf_present :: "config_entry \<Rightarrow> bool"
  cf_metadata :: protocol_metadata

datatype cp_call =
    CallOutput "u8 list" | CallEpoch
  | CallUsbStatus | CallUsbExposureStatus | CallUsbAttach | CallUsbDetach
  | CallRouteStatus | CallRouteSet cp_route | CallReleaseAll
  | CallKeyboard u64 keyboard_request | CallMouse u64 mouse_request
  | CallSequenceStart u64 i32 string | CallSequenceStatus u64 i32
  | CallLedStatus | CallProfileStatus | CallProfileSelect profile_id
  | CallBleExposureStatus | CallBleEnable | CallBleDisable
  | CallPairingStatus | CallPairingRespond pairing_request | CallBondList | CallBondRemove string
  | CallLeaseExpired | CallTakeover | CallSafetyFailure | CallOwnerRetired u64

record cp_env =
  en_output :: "cp_call list \<Rightarrow> bool"
  en_epoch :: "cp_call list \<Rightarrow> u32"
  en_clock :: "cp_call list \<Rightarrow> u64"
  en_random :: "cp_call list \<Rightarrow> u8 list"
  en_usb_status :: "cp_call list \<Rightarrow> usb_status_answer"
  en_usb_exposure :: "cp_call list \<Rightarrow> usb_exposure_status"
  en_usb_attach :: "cp_call list \<Rightarrow> usb_exposure_outcome"
  en_usb_detach :: "cp_call list \<Rightarrow> usb_exposure_outcome"
  en_route_status :: "cp_call list \<Rightarrow> route_status"
  en_route_set :: "cp_route \<Rightarrow> cp_call list \<Rightarrow> route_outcome"
  en_release_all :: "cp_call list \<Rightarrow> release_answer"
  en_keyboard :: "cp_call list \<Rightarrow> report_answer"
  en_mouse :: "cp_call list \<Rightarrow> report_answer"
  en_sequence_start :: "cp_call list \<Rightarrow> start_answer"
  en_sequence_status :: "cp_call list \<Rightarrow> sequence_answer option"
  en_led :: "cp_call list \<Rightarrow> led_status"
  en_profile :: "cp_call list \<Rightarrow> selection_snapshot"
  en_profile_select :: "cp_call list \<Rightarrow> selection_outcome"
  en_ble_exposure :: "cp_call list \<Rightarrow> ble_exposure_status"
  en_ble_enable :: "cp_call list \<Rightarrow> ble_exposure_outcome"
  en_ble_disable :: "cp_call list \<Rightarrow> ble_exposure_outcome"
  en_pairing :: "cp_call list \<Rightarrow> pairing_status"
  en_pairing_respond :: "cp_call list \<Rightarrow> respond_result"
  en_bond_list :: "cp_call list \<Rightarrow> bond_list"
  en_bond_remove :: "cp_call list \<Rightarrow> bond_remove"

record protocol =
  cp_config :: protocol_config
  cp_session :: session
  cp_sensitive :: identity
  cp_initialized :: bool
  cp_lease_notified :: bool
  cp_calls :: "cp_call list"
  cp_served :: "served list"

text \<open>A call with its answer, a call of an optional callback, a change of the session.\<close>

definition ask :: "(cp_call list \<Rightarrow> 'a) \<Rightarrow> cp_call \<Rightarrow> protocol \<Rightarrow> 'a \<times> protocol" where
  "ask f c p = (f (cp_calls p), p\<lparr>cp_calls := cp_calls p @ [c]\<rparr>)"

definition notify :: "config_entry \<Rightarrow> cp_call \<Rightarrow> protocol \<Rightarrow> protocol" where
  "notify entry c p = (if cf_present (cp_config p) entry then p\<lparr>cp_calls := cp_calls p @ [c]\<rparr> else p)"

definition on_session :: "(session \<Rightarrow> session) \<Rightarrow> protocol \<Rightarrow> protocol" where
  "on_session f p = p\<lparr>cp_session := f (cp_session p)\<rparr>"

definition record_served :: "served \<Rightarrow> protocol \<Rightarrow> protocol" where
  "record_served x p = p\<lparr>cp_served := cp_served p @ [x]\<rparr>"

definition refresh :: "cp_env \<Rightarrow> protocol \<Rightarrow> protocol" where
  "refresh e p = on_session (\<lambda>s. snd (refresh_lease (en_clock e (cp_calls p)) s)) p"

definition read_epoch :: "cp_env \<Rightarrow> protocol \<Rightarrow> u32 \<times> protocol" where
  "read_epoch e p = ask (en_epoch e) CallEpoch p"

section \<open>Initialisation and services\<close>

definition required_entries :: "config_entry list" where
  "required_entries = [EOutput, EUsbStatus, EUsbExposureStatus, EUsbAttach, EUsbDetach, ERouteStatus,
     ELedStatus, EProfileStatus, EProfileSelect, EBleExposureStatus, EBleEnable, EBleDisable,
     EPairingStatus, EPairingRespond, EBondList, EBondRemove, ERouteSet, EAuthorityEpoch,
     ESequenceStart, ESequenceStatus]"

definition protocol_initialize ::
  "protocol_config \<Rightarrow> bool \<Rightarrow> random_fill option \<Rightarrow> hmac_sha256 option \<Rightarrow> cp_env \<Rightarrow> protocol \<Rightarrow> bool \<times> protocol" where
  "protocol_initialize config random secure_random hmac e p =
     (let md = cf_metadata config in
      if \<not> list_all (cf_present config) required_entries \<or> \<not> random
         \<or> \<not> is_safe_metadata_string (md_project md) \<or> \<not> is_safe_metadata_string (md_target md)
         \<or> \<not> is_safe_metadata_string (md_idf_version md)
         \<or> md_identity md \<noteq> None \<and> \<not> is_valid_identity (md_identity md)
      then (False, p)
      else
        (let (ok, sensitive) = identity_initialize secure_random hmac (cp_sensitive p);
             p1 = p\<lparr>cp_config := config, cp_sensitive := sensitive\<rparr>
         in if \<not> ok then (False, p1)
            else (True, (on_session (clear_transition_retry \<circ>
                session_initialize (Some (en_random e (cp_calls p1))) (cf_present config ENow)) p1)
              \<lparr>cp_initialized := True, cp_lease_notified := False\<rparr>)))"

definition write_frame :: "cp_env \<Rightarrow> response_frame \<Rightarrow> protocol \<Rightarrow> bool \<times> protocol" where
  "write_frame e resp p =
     (if resp_length resp > 0 \<and> resp_length resp \<le> kMaxResponseBytes
      then ask (en_output e) (CallOutput (take (resp_length resp) (resp_bytes resp))) p
      else (False, p))"

text \<open>\<open>if (make_error(...)) write_frame(response)\<close> into a fresh response.\<close>

definition reply_error ::
  "cp_env \<Rightarrow> u8 list option \<Rightarrow> i32 option \<Rightarrow> string \<Rightarrow> string \<Rightarrow> protocol \<Rightarrow> protocol" where
  "reply_error e session i code message p =
     (let (ok, resp) = make_error session i code message empty_response
      in if ok then snd (write_frame e resp p) else p)"

definition replay_control_transition_retry ::
  "cp_env \<Rightarrow> u8 list \<Rightarrow> i32 \<Rightarrow> u8 list \<Rightarrow> protocol \<Rightarrow> bool \<times> protocol" where
  "replay_control_transition_retry e token i request p =
     (case inspect_transition_retry token i request (cp_session p) of
        None \<Rightarrow> (False, p)
      | Some cached \<Rightarrow>
          write_frame e cached (record_served (Replayed token i (PlainKey request) cached) p))"

definition retire_sequence_owner :: "u64 \<Rightarrow> protocol \<Rightarrow> protocol" where
  "retire_sequence_owner owner p =
     (if owner \<noteq> 0 then notify EOwnerRetired (CallOwnerRetired owner) p else p)"

definition on_hid_lifecycle_invalidation :: "cp_env \<Rightarrow> protocol \<Rightarrow> protocol" where
  "on_hid_lifecycle_invalidation e p =
     (if \<not> cp_initialized p then p
      else
        (let (current_epoch, p1) = read_epoch e p;
             retired_epoch = session_epoch (cp_session p1);
             retired_owner = owner_id (cp_session p1);
             authority_retired = (active_session (cp_session p1) \<and> retired_epoch \<noteq> current_epoch);
             p2 = on_session (revoke_for_lifecycle_invalidation current_epoch) p1;
             p3 = (if authority_retired then retire_sequence_owner retired_owner p2 else p2)
         in p3\<lparr>cp_lease_notified := False\<rparr>))"

definition on_hid_safety_failure :: "u64 \<Rightarrow> protocol \<Rightarrow> protocol" where
  "on_hid_safety_failure source_owner p =
     (if \<not> cp_initialized p then p
      else
        (let has_current_owner = active_session (cp_session p);
             source_is_current = (has_current_owner \<and> owner_id (cp_session p) = source_owner);
             p1 = (if source_is_current then on_session revoke_for_takeover p else p);
             p2 = (retire_sequence_owner source_owner p1)\<lparr>cp_lease_notified := False\<rparr>
         in if \<not> has_current_owner \<or> source_is_current then notify ESafetyFailure CallSafetyFailure p2 else p2))"

definition protocol_owner_id :: "protocol \<Rightarrow> u64" where
  "protocol_owner_id p = (if active_session (cp_session p) then owner_id (cp_session p) else 0)"

definition protocol_service :: "cp_env \<Rightarrow> protocol \<Rightarrow> protocol" where
  "protocol_service e p =
     (if \<not> cp_initialized p then p
      else
        (let p1 = on_hid_lifecycle_invalidation e p;
             retired_owner = protocol_owner_id p1;
             (expired, s) = service_lease (en_clock e (cp_calls p1)) (cp_session p1);
             p2 = p1\<lparr>cp_session := s\<rparr>
         in if \<not> expired then p2
            else
              (let p3 = retire_sequence_owner retired_owner p2
               in if \<not> cp_lease_notified p3
                  then notify ELeaseExpired CallLeaseExpired (p3\<lparr>cp_lease_notified := True\<rparr>)
                  else p3)))"

section \<open>The commands\<close>

text \<open>
  What a command leaves: a response with \<open>completed\<close>, \<open>semantically_valid\<close> and \<open>cache_response\<close>, or
  the request is finished. \<open>rq_token\<close> is the session the request names, \<open>rq_session\<close> the current one.
\<close>

datatype outcome = Answer response_frame bool bool bool | Finished

record request_context =
  rq_id :: i32
  rq_payload :: "u8 list"
  rq_token :: "u8 list"
  rq_session :: "u8 list"
  rq_epoch :: u32
  rq_route_v2 :: bool
  rq_params :: "json option"

definition command_error :: "request_context \<Rightarrow> string \<Rightarrow> string \<Rightarrow> bool \<times> response_frame" where
  "command_error rq code message = make_error (Some (rq_session rq)) (Some (rq_id rq)) code message empty_response"

definition invalid_params :: "request_context \<Rightarrow> string \<Rightarrow> outcome" where
  "invalid_params rq message = Answer (snd (command_error rq ''INVALID_PARAMS'' message)) False False True"

definition valid_answer :: "bool \<times> response_frame \<Rightarrow> outcome" where
  "valid_answer r = Answer (snd r) (fst r) True True"

text \<open>A command without parameters that answers what one provider says.\<close>

definition query ::
  "request_context \<Rightarrow> string \<Rightarrow> (cp_call list \<Rightarrow> 'a) \<Rightarrow> cp_call \<Rightarrow>
     (u8 list option \<Rightarrow> i32 \<Rightarrow> 'a \<Rightarrow> response_frame \<Rightarrow> bool \<times> response_frame) \<Rightarrow> protocol \<Rightarrow> outcome \<times> protocol" where
  "query rq message provider c print p =
     (if \<not> validate_no_params (rq_params rq) then (invalid_params rq message, p)
      else
        (let (status, p1) = ask provider c p
         in (valid_answer (print (Some (rq_session rq)) (rq_id rq) status empty_response), p1)))"

text \<open>A command without parameters that asks no provider.\<close>

definition simple_answer :: "request_context \<Rightarrow> string \<Rightarrow> bool \<times> response_frame \<Rightarrow> protocol \<Rightarrow> outcome \<times> protocol" where
  "simple_answer rq message r p =
     (if \<not> validate_no_params (rq_params rq) then (invalid_params rq message, p) else (valid_answer r, p))"

text \<open>An accepted transition: cache the response, revoke, retire, answer.\<close>

definition accept_transition :: "request_context \<Rightarrow> cp_env \<Rightarrow> response_frame \<Rightarrow> protocol \<Rightarrow> outcome \<times> protocol" where
  "accept_transition rq e resp p =
     (let p1 = on_session (cache_transition_retry (rq_token rq) (rq_id rq) (rq_payload rq) resp) p;
          retired_owner = owner_id (cp_session p1);
          (epoch, p2) = read_epoch e p1;
          p3 = on_session (revoke_for_lifecycle_invalidation epoch) p2;
          p4 = (retire_sequence_owner retired_owner p3)\<lparr>cp_lease_notified := False\<rparr>;
          p5 = record_served (Executed retired_owner (rq_token rq) (rq_id rq) (PlainKey (rq_payload rq)) resp) p4
      in (Finished, snd (write_frame e resp p5)))"

definition usb_transition :: "bool \<Rightarrow> request_context \<Rightarrow> cp_env \<Rightarrow> protocol \<Rightarrow> outcome \<times> protocol" where
  "usb_transition attach rq e p =
     (if \<not> validate_no_params (rq_params rq) then
        (invalid_params rq (if attach then ''usb.attach accepts no params'' else ''usb.detach accepts no params''), p)
      else
        (let (action, p1) = (if attach then ask (en_usb_attach e) CallUsbAttach p
                             else ask (en_usb_detach e) CallUsbDetach p)
         in if uo_result action = ActBusy
            then (valid_answer (command_error rq ''HID_BUSY'' ''USB lifecycle transition is active''), p1)
            else
              (let r = (if \<not> uo_snapshot_valid action
                        then command_error rq ''INTERNAL_ERROR'' ''USB lifecycle transition snapshot is unavailable''
                        else make_usb_exposure_status (Some (rq_session rq)) (rq_id rq) (uo_snapshot action) empty_response)
               in if fst r \<and> uo_result action = ActAccepted then accept_transition rq e (snd r) p1
                  else (valid_answer r, p1))))"

definition profile_select :: "cjson \<Rightarrow> request_context \<Rightarrow> cp_env \<Rightarrow> protocol \<Rightarrow> outcome \<times> protocol" where
  "profile_select J rq e p =
     (case validate_profile_select_params J (rq_params rq) (rq_payload rq) of
        None \<Rightarrow> (invalid_params rq ''finite BLE profile ID is required'', p)
      | Some profile \<Rightarrow>
          (let (selected, p1) = ask (en_profile_select e) (CallProfileSelect (prof_id profile)) p
           in if so_result selected = SelBusy
              then (valid_answer (command_error rq ''HID_BUSY'' ''BLE profile selection requires quiescence''), p1)
              else (valid_answer (make_profile_status (Some (rq_session rq)) (rq_id rq)
                      (so_snapshot selected) empty_response), p1)))"

definition ble_exposure :: "bool \<Rightarrow> request_context \<Rightarrow> cp_env \<Rightarrow> protocol \<Rightarrow> outcome \<times> protocol" where
  "ble_exposure enable rq e p =
     (if \<not> validate_no_params (rq_params rq) then
        (invalid_params rq (if enable then ''ble.enable accepts no params'' else ''ble.disable accepts no params''), p)
      else
        (let (action, p1) = (if enable then ask (en_ble_enable e) CallBleEnable p
                             else ask (en_ble_disable e) CallBleDisable p)
         in if bo_result action = BaBusy
            then (valid_answer (command_error rq ''HID_BUSY'' ''control transition is active''), p1)
            else if \<not> bo_snapshot_valid action
            then (valid_answer (command_error rq ''INTERNAL_ERROR'' ''BLE lifecycle snapshot is unavailable''), p1)
            else (valid_answer (make_ble_exposure_status (Some (rq_session rq)) (rq_id rq)
                    (bo_snapshot action) empty_response), p1)))"

definition pairing_respond :: "cjson \<Rightarrow> request_context \<Rightarrow> cp_env \<Rightarrow> protocol \<Rightarrow> outcome \<times> protocol" where
  "pairing_respond J rq e p =
     (case validate_pairing_respond_params J (rq_params rq) of
        None \<Rightarrow> (invalid_params rq ''pairing response params are invalid'', p)
      | Some request \<Rightarrow>
          (let (res, p1) = ask (en_pairing_respond e) (CallPairingRespond request) p
           in (valid_answer (case res of
                 RrAccepted \<Rightarrow> make_pairing_respond (Some (rq_session rq)) (rq_id rq) (pr_pairing_id request) empty_response
               | RrInjectionFailed \<Rightarrow> command_error rq ''BLE_PAIRING_FAILED'' ''pairing response was not accepted''
               | RrNotPending \<Rightarrow> command_error rq ''BLE_PAIRING_NOT_PENDING'' ''pairing input is not pending''), p1)))"

definition bond_list :: "request_context \<Rightarrow> cp_env \<Rightarrow> protocol \<Rightarrow> outcome \<times> protocol" where
  "bond_list rq e p =
     query rq ''ble.bond.list accepts no params'' (en_bond_list e) CallBondList
       (\<lambda>session i res resp. case bl_kind res of
          BlSuccess \<Rightarrow> make_bond_list session i res resp
        | BlStorageFailure \<Rightarrow> command_error rq ''BLE_BOND_STORAGE'' ''bond store is not trustworthy''
        | BlNotReady \<Rightarrow> command_error rq ''BLE_NOT_READY'' ''BLE bond store is not initialized'') p"

definition bond_remove :: "cjson \<Rightarrow> request_context \<Rightarrow> cp_env \<Rightarrow> protocol \<Rightarrow> outcome \<times> protocol" where
  "bond_remove J rq e p =
     (case validate_bond_remove_params J (rq_params rq) of
        None \<Rightarrow> (invalid_params rq ''ble.bond.remove requires one exact bond_id'', p)
      | Some bond_id \<Rightarrow>
          (let (res, p1) = ask (en_bond_remove e) (CallBondRemove bond_id) p
           in (valid_answer (case br_kind res of
                 BrSuccess \<Rightarrow> make_bond_remove (Some (rq_session rq)) (rq_id rq) res empty_response
               | BrNotFound \<Rightarrow> command_error rq ''BLE_BOND_NOT_FOUND'' ''exact bond was not found''
               | BrAmbiguous \<Rightarrow> command_error rq ''BLE_BOND_AMBIGUOUS'' ''bond identifier is not unique''
               | BrBusy \<Rightarrow> command_error rq ''BLE_BOND_BUSY'' ''bond removal is not currently safe''
               | BrStorageFailure \<Rightarrow> command_error rq ''BLE_BOND_STORAGE'' ''bond removal postcondition failed''
               | BrNotReady \<Rightarrow> command_error rq ''BLE_NOT_READY'' ''BLE bond store is not initialized''), p1)))"

definition route_set :: "cjson \<Rightarrow> request_context \<Rightarrow> cp_env \<Rightarrow> protocol \<Rightarrow> outcome \<times> protocol" where
  "route_set J rq e p =
     (case validate_route_set_params J (rq_params rq) (rq_route_v2 rq) of
        None \<Rightarrow> (invalid_params rq (if rq_route_v2 rq then ''invalid route''
                   else ''hid.route.set route must be none or usb''), p)
      | Some desired \<Rightarrow>
          (let (action, p1) = ask (en_route_set e desired) (CallRouteSet desired) p;
               settled = (if \<not> ro_snapshot_valid action
                 then (valid_answer (command_error rq ''INTERNAL_ERROR'' ''HID route snapshot is unavailable''), p1)
                 else
                   (let r = make_versioned_hid_route_status (Some (rq_session rq)) (rq_id rq)
                          (ro_snapshot action) (rq_route_v2 rq) empty_response
                    in if fst r \<and> ro_result action = RaAccepted then accept_transition rq e (snd r) p1
                       else (valid_answer r, p1)))
           in case ro_result action of
                RaBusy \<Rightarrow> (valid_answer (command_error rq ''HID_BUSY'' ''stable none needed''), p1)
              | RaNotReady \<Rightarrow> (valid_answer (command_error rq ''HID_NOT_READY'' ''requested HID route is not ready''), p1)
              | RaSafetyPending \<Rightarrow>
                  (valid_answer (command_error rq ''HID_SAFETY_PENDING'' ''HID safety recovery is pending''), p1)
              | RaAccepted \<Rightarrow> settled
              | RaNoOp \<Rightarrow> settled))"

text \<open>
  The check after a call that may have lost its authority: the epoch is read only if the answer
  does not say so itself.
\<close>

definition authority_gone :: "bool \<Rightarrow> request_context \<Rightarrow> cp_env \<Rightarrow> protocol \<Rightarrow> bool \<times> protocol" where
  "authority_gone lost rq e p =
     (if lost then (True, p) else let (epoch, p1) = read_epoch e p in (epoch \<noteq> rq_epoch rq, p1))"

definition mismatch_answer :: "request_context \<Rightarrow> outcome" where
  "mismatch_answer rq =
     (let r = make_error None (Some (rq_id rq)) ''SESSION_MISMATCH'' ''request session is not active'' empty_response
      in Answer (snd r) (fst r) False False)"

definition optional_ask :: "config_entry \<Rightarrow> (cp_call list \<Rightarrow> 'a) \<Rightarrow> cp_call \<Rightarrow> 'a \<Rightarrow> protocol \<Rightarrow> 'a \<times> protocol" where
  "optional_ask entry f c fallback p = (if cf_present (cp_config p) entry then ask f c p else (fallback, p))"

definition no_release :: release_answer where
  "no_release = \<lparr>ra_success = False, ra_authority_lost = False, ra_keyboard = AlreadyUp, ra_mouse = AlreadyUp\<rparr>"

definition no_report :: report_answer where
  "no_report = \<lparr>rp_success = False, rp_authority_lost = False, rp_state = ReportSubmitted, rp_failure = RfNotReady\<rparr>"

definition release_all :: "request_context \<Rightarrow> cp_env \<Rightarrow> protocol \<Rightarrow> outcome \<times> protocol" where
  "release_all rq e p =
     (if \<not> validate_no_params (rq_params rq) then (invalid_params rq ''hid.release_all accepts no params'', p)
      else
        (let (res, p1) = optional_ask EReleaseAll (en_release_all e) CallReleaseAll no_release p;
             (gone, p2) = authority_gone (ra_authority_lost res) rq e p1
         in if gone then (mismatch_answer rq, p2)
            else if \<not> ra_success res
            then (valid_answer (command_error rq ''HID_SAFETY_PENDING'' ''all-up safety release is pending''), p2)
            else (valid_answer (make_release_all (Some (rq_session rq)) (rq_id rq) res empty_response), p2)))"

definition sequence_start :: "cjson \<Rightarrow> request_context \<Rightarrow> cp_env \<Rightarrow> protocol \<Rightarrow> outcome \<times> protocol" where
  "sequence_start J rq e p =
     (case validate_sequence_start_params J (rq_params rq) (rq_payload rq) of
        None \<Rightarrow> (invalid_params rq ''sequence code is invalid'', p)
      | Some code \<Rightarrow>
          (let (res, p1) = ask (en_sequence_start e)
                 (CallSequenceStart (owner_id (cp_session p)) (rq_id rq) code) p
           in case res of
                SaInvalid \<Rightarrow> (invalid_params rq ''sequence code is invalid'', p1)
              | SaBusy \<Rightarrow> (valid_answer (command_error rq ''HID_BUSY'' ''HID sequence executor is busy''), p1)
              | SaSafetyPending \<Rightarrow>
                  (valid_answer (command_error rq ''HID_SAFETY_PENDING'' ''HID safety recovery is pending''), p1)
              | SaNotReady \<Rightarrow> (valid_answer (command_error rq ''HID_NOT_READY'' ''HID route is not ready''), p1)
              | SaUnsupported \<Rightarrow> (valid_answer (command_error rq ''HID_UNSUPPORTED_OPERATION''
                  ''active HID route lacks a sequence report role''), p1)
              | SaAccepted \<Rightarrow>
                  (valid_answer (make_sequence_start (Some (rq_session rq)) (rq_id rq) empty_response), p1)))"

definition sequence_status :: "cjson \<Rightarrow> request_context \<Rightarrow> cp_env \<Rightarrow> protocol \<Rightarrow> outcome \<times> protocol" where
  "sequence_status J rq e p =
     (case validate_sequence_status_params J (rq_params rq) of
        None \<Rightarrow> (invalid_params rq ''sequence status params are invalid'', p)
      | Some sequence_id \<Rightarrow>
          (let (res, p1) = ask (en_sequence_status e)
                 (CallSequenceStatus (owner_id (cp_session p)) sequence_id) p
           in (valid_answer (case res of
                 None \<Rightarrow> command_error rq ''SEQUENCE_NOT_FOUND'' ''sequence status is not retained''
               | Some status \<Rightarrow>
                   make_sequence_status (Some (rq_session rq)) (rq_id rq) status empty_response), p1)))"

text \<open>What follows a keyboard or a mouse report.\<close>

definition report_outcome ::
  "(u8 list option \<Rightarrow> i32 \<Rightarrow> report_failure_kind \<Rightarrow> response_frame \<Rightarrow> bool \<times> response_frame) \<Rightarrow>
   (u8 list option \<Rightarrow> i32 \<Rightarrow> report_answer \<Rightarrow> response_frame \<Rightarrow> bool \<times> response_frame) \<Rightarrow>
     report_answer \<Rightarrow> request_context \<Rightarrow> cp_env \<Rightarrow> protocol \<Rightarrow> outcome \<times> protocol" where
  "report_outcome print_error print res rq e p =
     (let (gone, p1) = authority_gone (rp_authority_lost res \<or> rp_failure res = RfAuthorityLost) rq e p
      in if gone then (mismatch_answer rq, p1)
         else if \<not> rp_success res
         then (valid_answer (print_error (Some (rq_session rq)) (rq_id rq) (rp_failure res) empty_response), p1)
         else (valid_answer (print (Some (rq_session rq)) (rq_id rq) res empty_response), p1))"

definition cp_keyboard_report :: "cjson \<Rightarrow> request_context \<Rightarrow> cp_env \<Rightarrow> protocol \<Rightarrow> outcome \<times> protocol" where
  "cp_keyboard_report J rq e p =
     (case validate_keyboard_report_params J (rq_params rq) of
        None \<Rightarrow> (invalid_params rq ''keyboard report params are invalid'', p)
      | Some request \<Rightarrow>
          (let (res, p1) = optional_ask EKeyboardReport (en_keyboard e)
                 (CallKeyboard (owner_id (cp_session p)) request) no_report p
           in report_outcome make_keyboard_error make_keyboard_report res rq e p1))"

definition cp_mouse_report :: "cjson \<Rightarrow> request_context \<Rightarrow> cp_env \<Rightarrow> protocol \<Rightarrow> outcome \<times> protocol" where
  "cp_mouse_report J rq e p =
     (case validate_mouse_report_params J (rq_params rq) of
        None \<Rightarrow> (invalid_params rq ''mouse report params are invalid'', p)
      | Some request \<Rightarrow>
          (let (res, p1) = optional_ask EMouseReport (en_mouse e)
                 (CallMouse (owner_id (cp_session p)) request) no_report p
           in report_outcome make_mouse_error make_mouse_report res rq e p1))"

definition unknown_command :: "request_context \<Rightarrow> protocol \<Rightarrow> outcome \<times> protocol" where
  "unknown_command rq p =
     (if \<not> validate_no_params (rq_params rq) then (invalid_params rq ''unknown command accepts no params'', p)
      else
        (let r = command_error rq ''UNKNOWN_COMMAND'' ''command is not registered''
         in (Answer (snd r) (fst r) False True, p)))"

text \<open>The chain of command names.\<close>

definition run_command :: "cjson \<Rightarrow> string \<Rightarrow> request_context \<Rightarrow> cp_env \<Rightarrow> protocol \<Rightarrow> outcome \<times> protocol" where
  "run_command J command rq e p =
     (let session = Some (rq_session rq); i = rq_id rq in
      if command = ''system.ping'' then
        simple_answer rq ''system.ping accepts no params'' (make_ping session i empty_response) p
      else if command = ''system.info'' then
        simple_answer rq ''system.info accepts no params''
          (make_info session i (cf_metadata (cp_config p)) empty_response) p
      else if command = ''usb.status'' then
        query rq ''usb.status accepts no params'' (en_usb_status e) CallUsbStatus make_usb_status p
      else if command = ''usb.exposure.status'' then
        query rq ''usb.exposure.status accepts no params'' (en_usb_exposure e) CallUsbExposureStatus
          make_usb_exposure_status p
      else if command = ''usb.attach'' then usb_transition True rq e p
      else if command = ''usb.detach'' then usb_transition False rq e p
      else if command = ''ble.led.status'' then
        query rq ''BLE LED query accepts no params'' (en_led e) CallLedStatus make_led_status p
      else if command = ''ble.profile.list'' then
        simple_answer rq ''BLE profile query accepts no params'' (make_profile_list session i empty_response) p
      else if command = ''ble.profile.status'' then
        query rq ''BLE profile query accepts no params'' (en_profile e) CallProfileStatus make_profile_status p
      else if command = ''ble.profile.select'' then profile_select J rq e p
      else if command = ''ble.exposure.status'' then
        query rq ''ble.exposure.status accepts no params'' (en_ble_exposure e) CallBleExposureStatus
          make_ble_exposure_status p
      else if command = ''ble.enable'' then ble_exposure True rq e p
      else if command = ''ble.disable'' then ble_exposure False rq e p
      else if command = ''ble.pairing.status'' then
        query rq ''ble.pairing.status accepts no params'' (en_pairing e) CallPairingStatus make_pairing_status p
      else if command = ''ble.pairing.respond'' then pairing_respond J rq e p
      else if command = ''ble.bond.list'' then bond_list rq e p
      else if command = ''ble.bond.remove'' then bond_remove J rq e p
      else if command = ''hid.route.status'' then
        query rq (if rq_route_v2 rq then ''invalid route'' else ''hid.route.status accepts no params'')
          (en_route_status e) CallRouteStatus
          (\<lambda>session i status. make_versioned_hid_route_status session i status (rq_route_v2 rq)) p
      else if command = ''hid.route.set'' then route_set J rq e p
      else if command = ''hid.release_all'' then release_all rq e p
      else if command = ''hid.sequence.start'' then sequence_start J rq e p
      else if command = ''hid.sequence.status'' then sequence_status J rq e p
      else if command = ''hid.keyboard.report'' then cp_keyboard_report J rq e p
      else if command = ''hid.mouse.report'' then cp_mouse_report J rq e p
      else unknown_command rq p)"

section \<open>Handling a frame\<close>

text \<open>The sensitive digest of the request, for the one command that carries a secret.\<close>

definition sensitive_digest :: "bool \<Rightarrow> u8 list \<Rightarrow> protocol \<Rightarrow> bool \<times> u8 list" where
  "sensitive_digest sensitive body p =
     (if \<not> sensitive then (True, replicate kDigestBytes 0)
      else
        (let (ok, out, _) = identity_digest (cp_sensitive p) body (Some (replicate kDigestBytes 0))
         in (ok, the out)))"

definition inspect :: "bool \<Rightarrow> request_context \<Rightarrow> u8 list \<Rightarrow> session \<Rightarrow> request_result \<times> response_frame option" where
  "inspect sensitive rq digest s =
     (if sensitive
      then inspect_sensitive_request (rq_token rq) (rq_id rq) (length (rq_payload rq)) digest (rq_epoch rq) s
      else inspect_request (rq_token rq) (rq_id rq) (rq_payload rq) (rq_epoch rq) s)"

definition request_key_of :: "bool \<Rightarrow> u8 list \<Rightarrow> u8 list \<Rightarrow> request_key" where
  "request_key_of sensitive body digest =
     (if sensitive then SecretKey (length body) digest else PlainKey body)"

text \<open>The end of a command that answered: lease, cache, response.\<close>

definition finish_request ::
  "bool \<Rightarrow> u8 list \<Rightarrow> request_context \<Rightarrow> cp_env \<Rightarrow> response_frame \<Rightarrow> bool \<Rightarrow> bool \<Rightarrow> bool \<Rightarrow> protocol \<Rightarrow> protocol" where
  "finish_request sensitive digest rq e resp completed valid cached p =
     (let p1 = (if valid then refresh e p else p) in
      if \<not> completed then
        snd (write_frame e (if resp_length resp = 0
               then snd (make_error (Some (rq_session rq)) (Some (rq_id rq)) ''INTERNAL_ERROR''
                      ''response serialization failed'' resp)
               else resp) p1)
      else
        (let p2 = (if \<not> cached then p1
               else record_served
                 (Executed (owner_id (cp_session p1)) (rq_token rq) (rq_id rq)
                    (request_key_of sensitive (rq_payload rq) digest) resp)
                 (on_session
                   (if sensitive
                    then cache_completed_sensitive_request (rq_id rq) (length (rq_payload rq)) digest (rq_epoch rq) resp
                    else cache_completed_request (rq_id rq) (rq_payload rq) (rq_epoch rq) resp) p1))
         in snd (write_frame e resp p2)))"

definition execute_request ::
  "cjson \<Rightarrow> string \<Rightarrow> bool \<Rightarrow> u8 list \<Rightarrow> request_context \<Rightarrow> cp_env \<Rightarrow> protocol \<Rightarrow> protocol" where
  "execute_request J command sensitive digest rq e p =
     (case run_command J command rq e p of
        (Finished, p1) \<Rightarrow> p1
      | (Answer resp completed valid cached, p1) \<Rightarrow>
          finish_request sensitive digest rq e resp completed valid cached p1)"

text \<open>From the reading of the epoch on.\<close>

definition serve_fresh ::
  "cjson \<Rightarrow> string \<Rightarrow> bool \<Rightarrow> u8 list \<Rightarrow> i32 \<Rightarrow> u8 list \<Rightarrow> json option \<Rightarrow> cp_env \<Rightarrow> protocol \<Rightarrow> protocol" where
  "serve_fresh J command route_v2 token i body params e p0 =
     (let (epoch, p) = read_epoch e p0;
          sensitive = (command = ''ble.pairing.respond'');
          (digested, digest) = sensitive_digest sensitive body p;
          rq = \<lparr>rq_id = i, rq_payload = body, rq_token = token,
            rq_session = take kTokenHexLength (current_session (cp_session p)), rq_epoch = epoch,
            rq_route_v2 = route_v2, rq_params = params\<rparr>
      in if \<not> digested then reply_error e None (Some i) ''INTERNAL_ERROR'' ''pairing request is unavailable'' p
         else case inspect sensitive rq digest (cp_session p) of
           (SessionMismatch, _) \<Rightarrow>
             reply_error e None (Some i) ''SESSION_MISMATCH'' ''request session is not active'' p
         | (ExactRetry, Some cached) \<Rightarrow>
             snd (write_frame e cached (record_served
               (Replayed token i (request_key_of sensitive body digest) cached) (refresh e p)))
         | (IdConflict, _) \<Rightarrow> reply_error e (Some (rq_session rq)) (Some i) ''REQUEST_ID_CONFLICT''
             ''request id was previously used with different request bytes'' p
         | (IdStale, _) \<Rightarrow> reply_error e (Some (rq_session rq)) (Some i) ''REQUEST_ID_STALE''
             ''request id is older than the last completed request'' p
         | _ \<Rightarrow> execute_request J command sensitive digest rq e p)"

definition plain_command :: "string \<Rightarrow> string \<times> bool" where
  "plain_command command =
     (if command = ''hid.route.v2.status'' then (''hid.route.status'', True)
      else if command = ''hid.route.v2.set'' then (''hid.route.set'', True)
      else (command, False))"

definition is_transition_command :: "string \<Rightarrow> bool" where
  "is_transition_command command \<longleftrightarrow>
     command = ''usb.attach'' \<or> command = ''usb.detach'' \<or> command = ''hid.route.set''"

definition handle_request :: "cjson \<Rightarrow> json \<Rightarrow> u8 list \<Rightarrow> i32 \<Rightarrow> string \<Rightarrow> cp_env \<Rightarrow> protocol \<Rightarrow> protocol" where
  "handle_request J req body i command0 e p =
     (if \<not> object_has_only_fields (Some req) [''v'', ''id'', ''session'', ''cmd'', ''params''] then
        reply_error e None (Some i) ''INVALID_REQUEST'' ''request envelope has unknown fields'' p
      else case get_bounded_nonempty_string J (Some req) ''session'' kTokenHexLength of
        None \<Rightarrow> reply_error e None (Some i) ''INVALID_REQUEST'' ''session must be 32 lowercase hex characters'' p
      | Some session \<Rightarrow>
          (if \<not> is_lower_hex_token (bytes session) then
             reply_error e None (Some i) ''INVALID_REQUEST'' ''session must be 32 lowercase hex characters'' p
           else
             (let params = get_item J (Some req) ''params'' in
              if params \<noteq> None \<and> \<not> is_object params then
                reply_error e None (Some i) ''INVALID_PARAMS'' ''params must be an object'' p
              else
                (let (command, route_v2) = plain_command command0;
                     token = bytes session;
                     (replayed, p1) = (if is_transition_command command
                        then replay_control_transition_retry e token i body p else (False, p))
                 in if replayed then p1
                    else serve_fresh J command route_v2 token i body params e p1))))"

text \<open>The handshake. \<open>output\<close> of \<open>generate_token\<close> is a fresh array.\<close>

definition open_session :: "u8 list \<Rightarrow> string \<Rightarrow> u32 \<Rightarrow> i32 \<Rightarrow> cp_env \<Rightarrow> protocol \<Rightarrow> protocol" where
  "open_session body nonce epoch i e p =
     (let new_session = generate_token (Some (en_random e (cp_calls p))) empty_token;
          (ok, resp) = make_hello (Some (take kTokenHexLength new_session)) i (cf_metadata (cp_config p)) nonce
            (boot_id (cp_session p)) new_session empty_response
      in if \<not> ok then
           snd (write_frame e (snd (make_error None (Some i) ''INTERNAL_ERROR'' ''response serialization failed'' resp)) p)
         else
           (let (activated, s) = activate_hello (bytes nonce) body new_session epoch resp
                  (en_clock e (cp_calls p)) (cp_session p);
                p1 = p\<lparr>cp_session := s\<rparr>
            in if \<not> activated then
                 snd (write_frame e (snd (make_error None (Some i) ''INTERNAL_ERROR''
                   ''local owner identity exhausted'' resp)) p1)
               else snd (write_frame e resp ((on_session clear_transition_retry p1)\<lparr>cp_lease_notified := False\<rparr>))))"

definition retire_for_hello :: "u32 \<Rightarrow> protocol \<Rightarrow> protocol" where
  "retire_for_hello epoch p =
     (if \<not> active_session (cp_session p) then p
      else
        (let retired_owner = owner_id (cp_session p);
             current_epoch_session = authority_epoch_matches epoch (cp_session p);
             p1 = retire_sequence_owner retired_owner (on_session revoke_for_takeover p)
         in if current_epoch_session then notify ESessionTakeover CallTakeover p1 else p1))"

definition handle_hello :: "cjson \<Rightarrow> json \<Rightarrow> u8 list \<Rightarrow> i32 \<Rightarrow> cp_env \<Rightarrow> protocol \<Rightarrow> protocol" where
  "handle_hello J req body i e p0 =
     (if \<not> object_has_only_fields (Some req) [''v'', ''id'', ''cmd'', ''params''] then
        reply_error e None (Some i) ''INVALID_REQUEST'' ''hello envelope has unknown fields'' p0
      else case validate_hello_params J (get_item J (Some req) ''params'') of
        None \<Rightarrow> reply_error e None (Some i) ''INVALID_PARAMS'' ''client_nonce must be 32 lowercase hex characters'' p0
      | Some nonce \<Rightarrow>
          (let (epoch, p) = read_epoch e p0 in
           case inspect_hello (bytes nonce) body epoch (cp_session p) of
             (HelloExactRetry, Some cached) \<Rightarrow> snd (write_frame e cached (refresh e p))
           | (NonceConflict, _) \<Rightarrow> reply_error e None (Some i) ''CLIENT_NONCE_CONFLICT''
               ''client_nonce was previously used with different request bytes'' p
           | _ \<Rightarrow> open_session body nonce epoch i e (retire_for_hello epoch p)))"

text \<open>The path to the code of a sequence, the one string that may be long.\<close>

definition long_sequence_code :: "cjson \<Rightarrow> json \<Rightarrow> nat list option" where
  "long_sequence_code J req =
     (if \<not> is_object (Some req) then None
      else case (get_item J (Some req) ''cmd'', cj_find J req ''params'') of
        (Some (JString c), Some k) \<Rightarrow>
          (if c_string c = ''hid.sequence.start'' \<and> is_object (Some (children req ! k))
           then map_option (\<lambda>n. [k, n]) (cj_find J (children req ! k) ''code'') else None)
      | _ \<Rightarrow> None)"

definition handle_tree :: "cjson \<Rightarrow> json \<Rightarrow> u8 list \<Rightarrow> cp_env \<Rightarrow> protocol \<Rightarrow> protocol" where
  "handle_tree J req body e p =
     (if \<not> is_object (Some req) \<or> \<not> is_json_tree_bounded (long_sequence_code J req) [] 0 req
         \<or> \<not> object_has_no_duplicate_keys req then
        reply_error e None None ''INVALID_REQUEST'' ''request must be a bounded object'' p
      else case parse_id J (Some req) of
        None \<Rightarrow> reply_error e None None ''INVALID_REQUEST'' ''id must be a non-negative int32'' p
      | Some i \<Rightarrow>
          (let version = get_item J (Some req) ''v'' in
           if \<not> is_integer_number version then
             reply_error e None (Some i) ''INVALID_REQUEST'' ''v must be an integer'' p
           else if valuedouble version \<noteq> 1 then
             reply_error e None (Some i) ''UNSUPPORTED_PROTOCOL_VERSION'' ''only protocol version 1 is supported'' p
           else case get_bounded_nonempty_string J (Some req) ''cmd'' kMaxCommandBytes of
             None \<Rightarrow> reply_error e None (Some i) ''INVALID_REQUEST'' ''cmd must be a bounded non-empty string'' p
           | Some command \<Rightarrow>
               (if command = ''protocol.hello'' then handle_hello J req body i e p
                else handle_request J req body i command e p)))"

definition handle_frame :: "cjson \<Rightarrow> u8 list \<Rightarrow> cp_env \<Rightarrow> protocol \<Rightarrow> protocol" where
  "handle_frame J body e p =
     (if length body > kMaxRequestBytes then
        reply_error e None None ''LINE_TOO_LONG'' ''request line exceeds 512 bytes'' p
      else if 0 \<in> set body then
        reply_error e None None ''MALFORMED_JSON'' ''request contains an embedded NUL'' p
      else case cj_parse J body of
        None \<Rightarrow> reply_error e None None ''MALFORMED_JSON'' ''request is not valid JSON'' p
      | Some req \<Rightarrow> handle_tree J req body e p)"

definition handle_framing_event :: "cjson \<Rightarrow> event \<Rightarrow> cp_env \<Rightarrow> protocol \<Rightarrow> protocol" where
  "handle_framing_event J ev e p =
     (if \<not> cp_initialized p then p
      else case kind ev of
        OverlongProtocolFrame \<Rightarrow>
          reply_error e None None ''LINE_TOO_LONG'' ''request line exceeds 512 bytes'' p
      | Frame \<Rightarrow> handle_frame J (payload ev) e p
      | TransportSync \<Rightarrow> p)"

end
