(* ===== verification/ProtocolServing.thy ===== *)
theory ProtocolServing
  imports ControlProtocol
begin

text \<open>
  What the protocol promises about the requests it serves, whatever the frames, the parser and the
  rest of the firmware do. The session's books of past answers are kept by every operation of the
  protocol, so a request is executed at most once and repeated exactly; and a provider is called
  only for a request of the live session that is new.
\<close>

named_theorems protocol_simps \<open>what an operation of the protocol leaves alone\<close>

section \<open>Operations that keep the session\<close>

lemma ask_fields [protocol_simps]:
  "fst (ask f c p) = f (cp_calls p)" "cp_session (snd (ask f c p)) = cp_session p"
  "cp_served (snd (ask f c p)) = cp_served p" "cp_config (snd (ask f c p)) = cp_config p"
  "cp_sensitive (snd (ask f c p)) = cp_sensitive p" "cp_initialized (snd (ask f c p)) = cp_initialized p"
  "cp_calls (snd (ask f c p)) = cp_calls p @ [c]"
  by (simp_all add: ask_def)

lemma notify_fields [protocol_simps]:
  "cp_session (notify y c p) = cp_session p" "cp_served (notify y c p) = cp_served p"
  "cp_config (notify y c p) = cp_config p" "cp_sensitive (notify y c p) = cp_sensitive p"
  "cp_initialized (notify y c p) = cp_initialized p"
  by (simp_all add: notify_def)

lemma on_session_fields [protocol_simps]:
  "cp_session (on_session f p) = f (cp_session p)" "cp_served (on_session f p) = cp_served p"
  "cp_config (on_session f p) = cp_config p" "cp_sensitive (on_session f p) = cp_sensitive p"
  "cp_initialized (on_session f p) = cp_initialized p" "cp_calls (on_session f p) = cp_calls p"
  by (simp_all add: on_session_def)

lemma record_served_fields [protocol_simps]:
  "cp_session (record_served x p) = cp_session p" "cp_served (record_served x p) = cp_served p @ [x]"
  "cp_config (record_served x p) = cp_config p" "cp_sensitive (record_served x p) = cp_sensitive p"
  "cp_initialized (record_served x p) = cp_initialized p" "cp_calls (record_served x p) = cp_calls p"
  by (simp_all add: record_served_def)

lemma refresh_fields [protocol_simps]:
  "cp_session (refresh e p) = snd (refresh_lease (en_clock e (cp_calls p)) (cp_session p))"
  "cp_served (refresh e p) = cp_served p" "cp_config (refresh e p) = cp_config p"
  "cp_sensitive (refresh e p) = cp_sensitive p" "cp_initialized (refresh e p) = cp_initialized p"
  "cp_calls (refresh e p) = cp_calls p"
  by (simp_all add: refresh_def protocol_simps)

lemma read_epoch_fields [protocol_simps]:
  "fst (read_epoch e p) = en_epoch e (cp_calls p)" "cp_session (snd (read_epoch e p)) = cp_session p"
  "cp_served (snd (read_epoch e p)) = cp_served p" "cp_config (snd (read_epoch e p)) = cp_config p"
  "cp_sensitive (snd (read_epoch e p)) = cp_sensitive p"
  "cp_initialized (snd (read_epoch e p)) = cp_initialized p"
  "cp_calls (snd (read_epoch e p)) = cp_calls p @ [CallEpoch]"
  by (simp_all add: read_epoch_def protocol_simps)

lemma write_frame_fields [protocol_simps]:
  "cp_session (snd (write_frame e r p)) = cp_session p" "cp_served (snd (write_frame e r p)) = cp_served p"
  "cp_config (snd (write_frame e r p)) = cp_config p" "cp_sensitive (snd (write_frame e r p)) = cp_sensitive p"
  "cp_initialized (snd (write_frame e r p)) = cp_initialized p"
  by (simp_all add: write_frame_def protocol_simps)

lemma reply_error_fields [protocol_simps]:
  "cp_session (reply_error e x i c m p) = cp_session p" "cp_served (reply_error e x i c m p) = cp_served p"
  "cp_config (reply_error e x i c m p) = cp_config p" "cp_sensitive (reply_error e x i c m p) = cp_sensitive p"
  "cp_initialized (reply_error e x i c m p) = cp_initialized p"
  by (simp_all add: reply_error_def protocol_simps split: prod.split)

lemma retire_owner_fields [protocol_simps]:
  "cp_session (retire_sequence_owner n p) = cp_session p" "cp_served (retire_sequence_owner n p) = cp_served p"
  "cp_config (retire_sequence_owner n p) = cp_config p" "cp_sensitive (retire_sequence_owner n p) = cp_sensitive p"
  "cp_initialized (retire_sequence_owner n p) = cp_initialized p"
  by (simp_all add: retire_sequence_owner_def protocol_simps)

section \<open>What a command does to the session\<close>

text \<open>
  A command leaves the session alone, or it is an accepted transition: its provider accepted, just
  after the epoch was read, and the response was cached before the session was revoked.
\<close>

definition same_books :: "protocol \<Rightarrow> protocol \<Rightarrow> bool" where
  "same_books p q \<longleftrightarrow> cp_session q = cp_session p \<and> cp_served q = cp_served p
     \<and> cp_config q = cp_config p \<and> cp_sensitive q = cp_sensitive p \<and> cp_initialized q = cp_initialized p"

fun transition_accepted :: "cp_env \<Rightarrow> cp_call list \<Rightarrow> cp_call \<Rightarrow> bool" where
  "transition_accepted e L CallUsbAttach = (uo_result (en_usb_attach e L) = ActAccepted)"
| "transition_accepted e L CallUsbDetach = (uo_result (en_usb_detach e L) = ActAccepted)"
| "transition_accepted e L (CallRouteSet r) = (ro_result (en_route_set e r L) = RaAccepted)"
| "transition_accepted e L _ = False"

definition transition_from :: "request_context \<Rightarrow> cp_env \<Rightarrow> protocol \<Rightarrow> protocol \<Rightarrow> bool" where
  "transition_from rq e p q \<longleftrightarrow>
     (\<exists>c resp. transition_accepted e (cp_calls p) c
        \<and> q = snd (accept_transition rq e resp (p\<lparr>cp_calls := cp_calls p @ [c]\<rparr>)))"

definition outcome_ok :: "request_context \<Rightarrow> cp_env \<Rightarrow> protocol \<Rightarrow> outcome \<times> protocol \<Rightarrow> bool" where
  "outcome_ok rq e p r \<longleftrightarrow>
     (case fst r of Answer _ _ _ _ \<Rightarrow> same_books p (snd r) | Finished \<Rightarrow> transition_from rq e p (snd r))"

lemma outcome_answer:
  "same_books p q \<Longrightarrow> outcome_ok rq e p (Answer a b c d, q)"
  "same_books p q \<Longrightarrow> outcome_ok rq e p (valid_answer r, q)"
  "same_books p q \<Longrightarrow> outcome_ok rq e p (invalid_params rq m, q)"
  "same_books p q \<Longrightarrow> outcome_ok rq e p (mismatch_answer rq, q)"
  by (auto simp: outcome_ok_def valid_answer_def invalid_params_def mismatch_answer_def Let_def)

lemma same_books_calls: "same_books p p" "same_books p (p\<lparr>cp_calls := L\<rparr>)"
  by (simp_all add: same_books_def)

lemma accept_transition_finished: "fst (accept_transition rq e resp p) = Finished"
  by (simp add: accept_transition_def case_prod_unfold Let_def)

lemma outcome_transition:
  "transition_accepted e (cp_calls p) c \<Longrightarrow>
     outcome_ok rq e p (accept_transition rq e resp (p\<lparr>cp_calls := cp_calls p @ [c]\<rparr>))"
  unfolding outcome_ok_def accept_transition_finished transition_from_def by auto

lemmas outcome_rules = outcome_answer outcome_transition same_books_calls

lemma query_outcome: "outcome_ok rq e p (query rq m f c print p)"
  by (auto simp: query_def ask_def intro!: outcome_rules)

lemma simple_answer_outcome: "outcome_ok rq e p (simple_answer rq m r p)"
  by (auto simp: simple_answer_def intro!: outcome_rules)

lemma usb_transition_outcome: "outcome_ok rq e p (usb_transition attach rq e p)"
  by (cases attach)
    (auto simp: usb_transition_def ask_def Let_def intro!: outcome_rules split: if_splits)

lemma profile_select_outcome: "outcome_ok rq e p (profile_select J rq e p)"
  by (auto simp: profile_select_def ask_def intro!: outcome_rules split: option.split)

lemma ble_exposure_outcome: "outcome_ok rq e p (ble_exposure enable rq e p)"
  by (cases enable) (auto simp: ble_exposure_def ask_def Let_def intro!: outcome_rules)

lemma pairing_respond_outcome: "outcome_ok rq e p (pairing_respond J rq e p)"
  by (auto simp: pairing_respond_def ask_def intro!: outcome_rules split: option.split)

lemma bond_outcome: "outcome_ok rq e p (bond_list rq e p)" "outcome_ok rq e p (bond_remove J rq e p)"
  by (auto simp: bond_list_def bond_remove_def ask_def query_outcome intro!: outcome_rules split: option.split)

lemma route_set_outcome: "outcome_ok rq e p (route_set J rq e p)"
proof (cases "validate_route_set_params J (rq_params rq) (rq_route_v2 rq)")
  case None
  then show ?thesis by (simp add: route_set_def outcome_rules)
next
  case (Some r)
  show ?thesis
    by (cases "ro_result (en_route_set e r (cp_calls p))")
      (simp_all add: route_set_def Some ask_def Let_def outcome_rules if_distrib if_bool_eq_conj split: if_split)
qed

lemma authority_gone_books: "same_books p (snd (authority_gone lost rq e p))"
  by (simp add: authority_gone_def read_epoch_def ask_def same_books_def Let_def)

lemma optional_ask_books: "same_books p (snd (optional_ask y f c d p))"
  by (simp add: optional_ask_def ask_def same_books_def)

lemma same_books_trans: "same_books p q \<Longrightarrow> same_books q r \<Longrightarrow> same_books p r"
  by (simp add: same_books_def)

lemma optional_gone_books:
  "same_books p (snd (authority_gone lost rq e (snd (optional_ask y f c d p))))"
  by (rule same_books_trans [OF optional_ask_books authority_gone_books])

lemma release_all_outcome: "outcome_ok rq e p (release_all rq e p)"
  by (auto simp: release_all_def case_prod_unfold Let_def intro!: outcome_rules optional_gone_books)

lemma sequence_outcome:
  "outcome_ok rq e p (sequence_start J rq e p)" "outcome_ok rq e p (sequence_status J rq e p)"
  by (auto simp: sequence_start_def sequence_status_def ask_def intro!: outcome_rules
      split: option.split start_answer.split)

lemma report_outcome_books:
  "same_books p q \<Longrightarrow> outcome_ok rq e p (report_outcome f g res rq e q)"
  by (auto simp: report_outcome_def case_prod_unfold Let_def
      intro!: outcome_rules same_books_trans [OF _ authority_gone_books])

lemma reports_outcome:
  "outcome_ok rq e p (cp_keyboard_report J rq e p)" "outcome_ok rq e p (cp_mouse_report J rq e p)"
  by (auto simp: cp_keyboard_report_def cp_mouse_report_def case_prod_unfold Let_def
      intro!: outcome_rules report_outcome_books optional_ask_books split: option.split)

lemma unknown_outcome: "outcome_ok rq e p (unknown_command rq p)"
  by (auto simp: unknown_command_def Let_def intro!: outcome_rules)

lemmas command_outcomes = query_outcome simple_answer_outcome usb_transition_outcome profile_select_outcome
  ble_exposure_outcome pairing_respond_outcome bond_outcome route_set_outcome release_all_outcome
  sequence_outcome reports_outcome unknown_outcome

lemma run_command_outcome: "outcome_ok rq e p (run_command J command rq e p)"
  unfolding run_command_def Let_def by (simp add: command_outcomes)

section \<open>The books\<close>

text \<open>
  What is asked of the environment: sixteen random bytes, a hash that fills its buffer, and that an
  accepted transition has published a new authority epoch when the provider returns.
\<close>

definition env_ok :: "cp_env \<Rightarrow> bool" where
  "env_ok e \<longleftrightarrow> (\<forall>L. length (en_random e L) = 16)
     \<and> (\<forall>L c. transition_accepted e (L @ [CallEpoch]) c \<longrightarrow> en_epoch e (L @ [CallEpoch, c]) \<noteq> en_epoch e L)"

definition hmac_sized :: "identity \<Rightarrow> bool" where
  "hmac_sized s \<longleftrightarrow> (case id_hmac s of None \<Rightarrow> True | Some h \<Rightarrow> \<forall>k m buf. length (snd (h k m buf)) = length buf)"

definition served_inv :: "protocol \<Rightarrow> bool" where
  "served_inv p \<longleftrightarrow> session_books (cp_session p) (cp_served p) \<and> answers_ok [] (cp_served p)
     \<and> hmac_sized (cp_sensitive p)"

lemma served_invD:
  assumes "served_inv p"
  shows "session_books (cp_session p) (cp_served p)" "answers_ok [] (cp_served p)" "hmac_sized (cp_sensitive p)"
    "session_wf (cp_session p)" "books (session_abs (cp_session p)) (cp_served p)"
  using assms by (auto simp: served_inv_def session_books_def)

lemma served_books:
  "served_inv p \<Longrightarrow> cp_served q = cp_served p \<Longrightarrow> cp_sensitive q = cp_sensitive p \<Longrightarrow>
     session_books (cp_session q) (cp_served p) \<Longrightarrow> served_inv q"
  by (simp add: served_inv_def)

lemma served_same:
  "served_inv p \<Longrightarrow> cp_served q = cp_served p \<Longrightarrow> cp_sensitive q = cp_sensitive p \<Longrightarrow>
     cp_session q = cp_session p \<Longrightarrow> served_inv q"
  by (simp add: served_inv_def)

lemma served_same_books: "same_books p q \<Longrightarrow> served_inv p \<Longrightarrow> served_inv q"
  by (rule served_same) (simp_all add: same_books_def)

lemma served_refresh: "served_inv p \<Longrightarrow> served_inv (refresh e p)"
  using served_invD(1) [of p] session_books_refresh served_books [of p "refresh e p"]
  by (simp add: protocol_simps)

lemma served_write: "served_inv p \<Longrightarrow> served_inv (snd (write_frame e r p))"
  by (erule served_same) (simp_all add: protocol_simps)

lemma served_reply: "served_inv p \<Longrightarrow> served_inv (reply_error e x i c m p)"
  by (erule served_same) (simp_all add: protocol_simps)

lemma served_epoch: "served_inv p \<Longrightarrow> served_inv (snd (read_epoch e p))"
  by (erule served_same) (simp_all add: protocol_simps)

lemma served_use:
  assumes "served_inv p" "use_ok u" "serve (cp_session p) u = (s, out)"
    and "cp_session q = s" "cp_served q = cp_served p @ out" "cp_sensitive q = cp_sensitive p"
  shows "served_inv q"
  using serve_books [OF served_invD(1) [OF assms(1)] assms(2)] served_invD [OF assms(1)] assms(3-6)
  by (simp add: served_inv_def answers_ok_append)

lemma served_revoke: "served_inv p \<Longrightarrow> served_inv (on_session revoke_for_takeover p)"
  by (rule served_use [where u = UTakeover]) (simp_all add: protocol_simps)

lemma sensitive_digest_length:
  "hmac_sized (cp_sensitive p) \<Longrightarrow> length (snd (sensitive_digest sensitive body p)) = kDigestBytes"
  by (auto simp: sensitive_digest_def identity_digest_def hmac_sized_def Let_def case_prod_unfold
      split: option.split)

text \<open>A request that is new: it belongs to the live session, and nothing was executed for its id.\<close>

definition fresh_request :: "request_context \<Rightarrow> protocol \<Rightarrow> bool" where
  "fresh_request rq p \<longleftrightarrow> (\<exists>v. sp_live (session_abs (cp_session p)) = Some v
     \<and> lv_epoch v = rq_epoch rq \<and> lv_token v = rq_token rq
     \<and> list_all (before (lv_owner v) (rq_token rq) (rq_id rq)) (cp_served p)
     \<and> list_all (booked v (Some (rq_id rq))) (cp_served p))"

lemma inspect_abs:
  "session_wf s \<Longrightarrow> length digest = kDigestBytes \<Longrightarrow>
     inspect sensitive rq digest s = spec_request (rq_token rq) (rq_id rq)
       (request_key_of sensitive (rq_payload rq) digest) (rq_epoch rq) (session_abs s)"
  by (simp add: inspect_def request_key_of_def inspect_request_abs inspect_secret_abs)

lemma inspect_fresh:
  assumes "served_inv p" "length digest = kDigestBytes" "fst (inspect sensitive rq digest (cp_session p)) = AcceptNew"
  shows "fresh_request rq p"
proof -
  have "fst (spec_request (rq_token rq) (rq_id rq) (request_key_of sensitive (rq_payload rq) digest)
      (rq_epoch rq) (session_abs (cp_session p))) = AcceptNew"
    using assms(3) inspect_abs [OF served_invD(4) [OF assms(1)] assms(2)] by simp
  from accepted_live [OF this served_invD(5) [OF assms(1)]] show ?thesis
    unfolding fresh_request_def by blast
qed

lemma fresh_refresh: "fresh_request rq p \<Longrightarrow> served_inv p \<Longrightarrow> fresh_request rq (refresh e p)"
  using refresh_session(1) [of "cp_session p" "en_clock e (cp_calls p)"] served_invD(4) [of p]
  by (fastforce simp: fresh_request_def protocol_simps)

text \<open>Recording an execution of a fresh request keeps the books.\<close>

lemma served_execute:
  assumes inv: "served_inv p" and fr: "fresh_request rq p"
    and q: "cp_served q = cp_served p @ [Executed (owner_id (cp_session p)) (rq_token rq) (rq_id rq) key r]"
      "cp_sensitive q = cp_sensitive p" "session_wf (cp_session q)"
      "session_abs (cp_session q) = (session_abs (cp_session p))\<lparr>sp_retry := Completed (rq_id rq) key (rq_epoch rq) r\<rparr>"
  shows "served_inv q"
proof -
  obtain v where v: "sp_live (session_abs (cp_session p)) = Some v" "lv_epoch v = rq_epoch rq"
    "lv_token v = rq_token rq" "list_all (before (lv_owner v) (rq_token rq) (rq_id rq)) (cp_served p)"
    "list_all (booked v (Some (rq_id rq))) (cp_served p)"
    using fr unfolding fresh_request_def by blast
  have "owner_id (cp_session p) = lv_owner v" using v(1) by (simp add: session_abs_def session_abs_owner)
  then show ?thesis
    using books_execute [OF served_invD(5) [OF inv] v(1,5), of key r] v served_invD [OF inv] q
    by (simp add: served_inv_def session_books_def answers_ok_append)
qed

lemma finish_served:
  assumes inv: "served_inv p" and fr: "fresh_request rq p"
    and len: "length (rq_payload rq) \<le> kMaxRequestBytes" "length digest = kDigestBytes"
  shows "served_inv (finish_request sensitive digest rq e resp completed valid cached p)"
proof -
  define p1 where "p1 = (if valid then refresh e p else p)"
  have p1: "served_inv p1" "fresh_request rq p1"
    using inv fr served_refresh fresh_refresh by (auto simp: p1_def)
  define q where "q = record_served
      (Executed (owner_id (cp_session p1)) (rq_token rq) (rq_id rq) (request_key_of sensitive (rq_payload rq) digest) resp)
      (on_session (if sensitive
        then cache_completed_sensitive_request (rq_id rq) (length (rq_payload rq)) digest (rq_epoch rq) resp
        else cache_completed_request (rq_id rq) (rq_payload rq) (rq_epoch rq) resp) p1)"
  have "served_inv q"
    using complete_plain_abs [OF served_invD(4) [OF p1(1)] len(1)] complete_secret_abs [OF served_invD(4) [OF p1(1)] len(2)]
    by (intro served_execute [OF p1])
      (auto simp: q_def protocol_simps request_key_of_def)
  then show ?thesis using p1(1) by (auto simp: finish_request_def Let_def p1_def q_def intro!: served_write)
qed

lemma transition_served:
  assumes inv: "served_inv p" and fr: "fresh_request rq p" and tr: "transition_from rq e p q"
    and epoch: "rq_epoch rq = en_epoch e L" "cp_calls p = L @ [CallEpoch]" and env: "env_ok e"
  shows "served_inv q"
proof -
  obtain v where v: "sp_live (session_abs (cp_session p)) = Some v" "lv_epoch v = rq_epoch rq"
    "lv_token v = rq_token rq" "list_all (before (lv_owner v) (rq_token rq) (rq_id rq)) (cp_served p)"
    using fr unfolding fresh_request_def by blast
  obtain c resp where c: "transition_accepted e (L @ [CallEpoch]) c"
    "q = snd (accept_transition rq e resp (p\<lparr>cp_calls := L @ [CallEpoch, c]\<rparr>))"
    using tr epoch(2) unfolding transition_from_def by auto
  have new: "en_epoch e (L @ [CallEpoch, c]) \<noteq> lv_epoch v" using c(1) env v(2) epoch(1) by (simp add: env_ok_def)
  have own: "owner_id (cp_session p) = lv_owner v" using v(1) by (simp add: session_abs_def session_abs_owner)
  have cached: "owner_id (cache_transition_retry t i b r s) = owner_id s" for t i b r s
    by (simp add: cache_transition_retry_def Let_def case_prod_unfold)
  have "cp_session q = revoke_for_lifecycle_invalidation (en_epoch e (L @ [CallEpoch, c]))
      (cache_transition_retry (lv_token v) (rq_id rq) (rq_payload rq) resp (cp_session p))"
    and "cp_served q = cp_served p @ [Executed (lv_owner v) (lv_token v) (rq_id rq) (PlainKey (rq_payload rq)) resp]"
    and "cp_sensitive q = cp_sensitive p"
    by (simp_all add: c(2) accept_transition_def case_prod_unfold Let_def protocol_simps v(3) cached own)
  then show ?thesis
    using finish_transition [OF served_invD(1) [OF inv] v(1) new, of "rq_id rq" "rq_payload rq" resp]
      served_invD [OF inv] v(3,4)
    by (simp add: served_inv_def answers_ok_append)
qed

section \<open>Every operation keeps the books\<close>

lemma fresh_same: "cp_session q = cp_session p \<Longrightarrow> cp_served q = cp_served p \<Longrightarrow> fresh_request rq q = fresh_request rq p"
  by (simp add: fresh_request_def)

lemma execute_served:
  assumes inv: "served_inv p" and fr: "fresh_request rq p"
    and len: "length (rq_payload rq) \<le> kMaxRequestBytes" "length digest = kDigestBytes"
    and epoch: "rq_epoch rq = en_epoch e L" "cp_calls p = L @ [CallEpoch]" and env: "env_ok e"
  shows "served_inv (execute_request J command sensitive digest rq e p)"
proof -
  have ok: "outcome_ok rq e p (run_command J command rq e p)" by (rule run_command_outcome)
  obtain oc p1 where r: "run_command J command rq e p = (oc, p1)" by fastforce
  show ?thesis
  proof (cases oc)
    case (Answer resp completed valid cached)
    then have sb: "same_books p p1" using ok r by (simp add: outcome_ok_def)
    then have "fresh_request rq p1" using fr fresh_same [of p1 p rq] by (simp add: same_books_def)
    from finish_served [OF served_same_books [OF sb inv] this len]
    show ?thesis by (simp add: execute_request_def r Answer)
  next
    case Finished
    then have "transition_from rq e p p1" using ok r by (simp add: outcome_ok_def)
    from transition_served [OF inv fr this epoch env] show ?thesis by (simp add: execute_request_def r Finished)
  qed
qed

lemma replay_served:
  assumes inv: "served_inv p" and len: "length digest = kDigestBytes"
    and res: "inspect sensitive rq digest (cp_session p) = (ExactRetry, Some r)"
    and q: "cp_session q = snd (refresh_lease t (cp_session p))" "cp_sensitive q = cp_sensitive p"
      "cp_served q = cp_served p @ [Replayed (rq_token rq) (rq_id rq) (request_key_of sensitive (rq_payload rq) digest) r]"
  shows "served_inv q"
proof -
  have "spec_request (rq_token rq) (rq_id rq) (request_key_of sensitive (rq_payload rq) digest)
      (rq_epoch rq) (session_abs (cp_session p)) = (ExactRetry, Some r)"
    using res inspect_abs [OF served_invD(4) [OF inv] len] by simp
  from replayed_executed [OF this served_invD(5) [OF inv]]
  have "list_ex (repeats (rq_token rq) (rq_id rq) (request_key_of sensitive (rq_payload rq) digest) r) (cp_served p)" .
  moreover have "session_books (snd (refresh_lease t (cp_session p))) (cp_served p)"
    using session_books_refresh served_invD(1) [OF inv] by blast
  ultimately show ?thesis using served_invD [OF inv] books_skip q
    by (simp add: served_inv_def session_books_def answers_ok_append)
qed

text \<open>The request a frame serves, and how the session decides what happens to it.\<close>

definition served_context :: "u8 list \<Rightarrow> bool \<Rightarrow> i32 \<Rightarrow> u8 list \<Rightarrow> json option \<Rightarrow> cp_env \<Rightarrow> protocol \<Rightarrow> request_context" where
  "served_context token v2 i body params e p =
     \<lparr>rq_id = i, rq_payload = body, rq_token = token,
      rq_session = take kTokenHexLength (current_session (cp_session p)), rq_epoch = en_epoch e (cp_calls p),
      rq_route_v2 = v2, rq_params = params\<rparr>"

lemma serve_fresh_form:
  assumes "p1 = snd (read_epoch e p)" "sens = (command = ''ble.pairing.respond'')"
    "rq = served_context token v2 i body params e p"
    "sensitive_digest sens body p1 = (dok, digest)" "inspect sens rq digest (cp_session p1) = (res, c)"
  shows "serve_fresh J command v2 token i body params e p =
      (if \<not> dok then reply_error e None (Some i) ''INTERNAL_ERROR'' ''pairing request is unavailable'' p1
       else case (res, c) of
         (SessionMismatch, _) \<Rightarrow>
           reply_error e None (Some i) ''SESSION_MISMATCH'' ''request session is not active'' p1
       | (ExactRetry, Some cached) \<Rightarrow>
           snd (write_frame e cached (record_served
             (Replayed token i (request_key_of sens body digest) cached) (refresh e p1)))
       | (IdConflict, _) \<Rightarrow> reply_error e (Some (rq_session rq)) (Some i) ''REQUEST_ID_CONFLICT''
           ''request id was previously used with different request bytes'' p1
       | (IdStale, _) \<Rightarrow> reply_error e (Some (rq_session rq)) (Some i) ''REQUEST_ID_STALE''
           ''request id is older than the last completed request'' p1
       | _ \<Rightarrow> execute_request J command sens digest rq e p1)"
proof -
  have ep: "read_epoch e p = (en_epoch e (cp_calls p), p1)" by (simp add: assms(1) prod_eq_iff protocol_simps)
  have rq: "\<lparr>rq_id = i, rq_payload = body, rq_token = token,
      rq_session = take kTokenHexLength (current_session (cp_session p1)), rq_epoch = en_epoch e (cp_calls p),
      rq_route_v2 = v2, rq_params = params\<rparr> = rq"
    by (simp add: assms(1,3) served_context_def protocol_simps)
  show ?thesis
    unfolding serve_fresh_def Let_def ep prod.case assms(2) [symmetric] assms(4) rq assms(5) by simp
qed

lemma serve_fresh_served:
  assumes inv: "served_inv p" and len: "length body \<le> kMaxRequestBytes" and env: "env_ok e"
  shows "served_inv (serve_fresh J command v2 token i body params e p)"
proof -
  define p1 where "p1 = snd (read_epoch e p)"
  define sens where "sens = (command = ''ble.pairing.respond'')"
  obtain dok digest where d: "sensitive_digest sens body p1 = (dok, digest)" by fastforce
  define rq where "rq = served_context token v2 i body params e p"
  have p1: "served_inv p1" using served_epoch [OF inv] by (simp add: p1_def)
  have dl: "length digest = kDigestBytes"
    using sensitive_digest_length [OF served_invD(3) [OF p1], of sens body] d by simp
  obtain res c where ins: "inspect sens rq digest (cp_session p1) = (res, c)" by fastforce
  note form = serve_fresh_form [OF p1_def sens_def rq_def d ins, of J]
  have fresh: "served_inv (execute_request J command sens digest rq e p1)"
    if "fst (inspect sens rq digest (cp_session p1)) = AcceptNew"
    by (rule execute_served [OF p1 inspect_fresh [OF p1 dl that] _ dl, where L = "cp_calls p"])
      (simp_all add: rq_def served_context_def len env p1_def protocol_simps)
  have replay: "served_inv (snd (write_frame e r (record_served
      (Replayed token i (request_key_of sens body digest) r) (refresh e p1))))"
    if "res = ExactRetry" "c = Some r" for r
    by (rule replay_served [OF p1 dl, where sensitive = sens and rq = rq and r = r])
      (simp add: ins that, simp_all add: protocol_simps rq_def served_context_def)
  have none: "c \<noteq> None" if "res = ExactRetry"
    using ins that by (auto simp: inspect_def inspect_request_def inspect_sensitive_request_def
        split: if_splits retry_cache.splits)
  show ?thesis
    unfolding form using fresh replay none ins p1 served_reply
    by (cases res; cases c) (auto split: if_splits)
qed

lemma replay_transition_served:
  assumes inv: "served_inv p"
  shows "served_inv (snd (replay_control_transition_retry e token i body p))"
proof (cases "inspect_transition_retry token i body (cp_session p)")
  case None
  then show ?thesis using inv by (simp add: replay_control_transition_retry_def)
next
  case (Some r)
  have "serve (cp_session p) (UTransition token i body 0 1 r 0) = (cp_session p, [Replayed token i (PlainKey body) r])"
    by (simp add: Some)
  then show ?thesis
    by (rule served_use [OF inv, rotated]) (simp_all add: replay_control_transition_retry_def Some protocol_simps)
qed

lemma handle_request_served:
  assumes "served_inv p" "length body \<le> kMaxRequestBytes" "env_ok e"
  shows "served_inv (handle_request J req body i command e p)"
  using assms replay_transition_served serve_fresh_served served_reply
  by (auto simp: handle_request_def Let_def case_prod_unfold split: option.split)

text \<open>A new session: the old one is revoked first, as the session's own handshake does.\<close>

lemma retire_for_hello_fields:
  "cp_session (retire_for_hello epoch p) =
     (if active_session (cp_session p) then revoke_for_takeover (cp_session p) else cp_session p)"
  "cp_served (retire_for_hello epoch p) = cp_served p" "cp_sensitive (retire_for_hello epoch p) = cp_sensitive p"
  "cp_config (retire_for_hello epoch p) = cp_config p" "cp_initialized (retire_for_hello epoch p) = cp_initialized p"
  by (simp_all add: retire_for_hello_def Let_def protocol_simps)

lemma activate_hello_take:
  "activate_hello nonce req (take kTokenHexLength token) epoch resp t s = activate_hello nonce req token epoch resp t s"
  by (simp add: activate_hello_def copy_token_def Let_def)

lemma open_session_served:
  assumes inv: "served_inv p" and new: "fst (inspect_hello (bytes nonce) body epoch (cp_session p)) = NewClient"
    and len: "length body \<le> kMaxRequestBytes" "length nonce = kTokenHexLength" and env: "env_ok e"
  shows "served_inv (open_session body nonce epoch i e (retire_for_hello epoch p))"
proof -
  define p1 where "p1 = retire_for_hello epoch p"
  define token where "token = generate_token (Some (en_random e (cp_calls p1))) empty_token"
  have "length (en_random e (cp_calls p1)) = 16" using env by (simp add: env_ok_def)
  then have "is_lower_hex_token (take kTokenHexLength token)"
    using generate_token_hex [of "en_random e (cp_calls p1)" empty_token] by (simp add: token_def)
  then have tl: "length (take kTokenHexLength token) = kTokenHexLength" unfolding is_lower_hex_token_def by blast
  have p1: "served_inv p1"
  proof (cases "active_session (cp_session p)")
    case True
    then show ?thesis using served_books [OF inv, of p1] served_invD(1) [OF served_revoke [OF inv]]
      by (simp add: p1_def retire_for_hello_fields protocol_simps)
  next
    case False
    then show ?thesis by (intro served_same [OF inv]) (simp_all add: p1_def retire_for_hello_fields)
  qed
  obtain ok resp where mh: "make_hello (Some (take kTokenHexLength token)) i (cf_metadata (cp_config p1)) nonce
      (boot_id (cp_session p1)) token empty_response = (ok, resp)" by fastforce
  obtain act s where ac: "activate_hello (bytes nonce) body token epoch resp (en_clock e (cp_calls p1)) (cp_session p1)
      = (act, s)" by fastforce
  have served: "session_books (if act then clear_transition_retry s else s) (cp_served p)"
    using session_books_hello [OF served_invD(1) [OF inv], of "bytes nonce" body "take kTokenHexLength token"
        epoch resp "en_clock e (cp_calls p1)"] tl len new ac
    by (simp add: serve_hello_def Let_def activate_hello_take bytes_def p1_def retire_for_hello_fields)
  have form: "open_session body nonce epoch i e p1 =
      (if \<not> ok then
         snd (write_frame e (snd (make_error None (Some i) ''INTERNAL_ERROR'' ''response serialization failed'' resp)) p1)
       else if \<not> act then
         snd (write_frame e (snd (make_error None (Some i) ''INTERNAL_ERROR''
           ''local owner identity exhausted'' resp)) (p1\<lparr>cp_session := s\<rparr>))
       else snd (write_frame e resp
         ((on_session clear_transition_retry (p1\<lparr>cp_session := s\<rparr>))\<lparr>cp_lease_notified := False\<rparr>)))"
    by (simp add: open_session_def Let_def ac mh flip: token_def)
  have "served_inv (p1\<lparr>cp_session := s\<rparr>)" if "\<not> act"
    using served_books [OF inv] served that by (simp add: p1_def retire_for_hello_fields)
  moreover have "served_inv ((on_session clear_transition_retry (p1\<lparr>cp_session := s\<rparr>))\<lparr>cp_lease_notified := False\<rparr>)" if act
    using served_books [OF inv] served that by (simp add: p1_def retire_for_hello_fields protocol_simps)
  ultimately show ?thesis using p1 served_write unfolding p1_def [symmetric] form by auto
qed

lemma handle_hello_served:
  assumes "served_inv p" "length body \<le> kMaxRequestBytes" "env_ok e"
  shows "served_inv (handle_hello J req body i e p)"
proof -
  define p1 where "p1 = snd (read_epoch e p)"
  have p1: "served_inv p1" using served_epoch [OF assms(1)] by (simp add: p1_def)
  have ep: "read_epoch e p = (en_epoch e (cp_calls p), p1)" by (simp add: p1_def prod_eq_iff protocol_simps)
  have none: "inspect_hello n body x s \<noteq> (HelloExactRetry, None)" for n x s
    by (auto simp: inspect_hello_def Let_def split: if_splits)
  have opened: "served_inv (open_session body nonce epoch i e (retire_for_hello epoch p1))"
    if "validate_hello_params J params = Some nonce" "inspect_hello (bytes nonce) body epoch (cp_session p1) = (NewClient, c)"
    for params nonce epoch c
    using that
    by (intro open_session_served [OF p1 _ assms(2) _ assms(3)])
      (auto simp: validate_hello_params_def is_lower_hex_token_def bytes_def split: if_splits option.splits)
  show ?thesis
    using assms(1) p1 served_reply served_write served_refresh opened none
    by (auto simp: handle_hello_def ep split: option.split prod.split hello_result.split)
qed

lemma handle_frame_served:
  assumes "served_inv p" "env_ok e"
  shows "served_inv (handle_frame J body e p)"
  using assms served_reply handle_hello_served handle_request_served
  by (auto simp: handle_frame_def handle_tree_def Let_def split: option.split)

lemma invalidation_served:
  assumes "served_inv p"
  shows "served_inv (on_hid_lifecycle_invalidation e p)"
proof (cases "cp_initialized p")
  case True
  show ?thesis
    by (rule served_use [OF assms, where u = "UInvalidate (en_epoch e (cp_calls p))" and out = "[]"])
      (simp_all add: on_hid_lifecycle_invalidation_def True case_prod_unfold Let_def protocol_simps)
qed (simp add: on_hid_lifecycle_invalidation_def assms)

lemma safety_failure_served:
  assumes "served_inv p"
  shows "served_inv (on_hid_safety_failure owner p)"
proof (cases "cp_initialized p")
  case True
  define q where "q = (if active_session (cp_session p) \<and> owner_id (cp_session p) = owner
    then on_session revoke_for_takeover p else p)"
  have "served_inv q" using assms served_revoke by (simp add: q_def)
  then show ?thesis
    by (rule served_same)
      (auto simp: on_hid_safety_failure_def True Let_def q_def protocol_simps)
qed (simp add: on_hid_safety_failure_def assms)

lemma service_served:
  assumes "served_inv p"
  shows "served_inv (protocol_service e p)"
proof (cases "cp_initialized p")
  case True
  define q where "q = on_hid_lifecycle_invalidation e p"
  have q: "served_inv q" using invalidation_served [OF assms] by (simp add: q_def)
  have sv: "serve (cp_session q) (ULease (en_clock e (cp_calls q)))
      = (snd (service_lease (en_clock e (cp_calls q)) (cp_session q)), [])" by simp
  show ?thesis
    by (rule served_use [OF q _ sv])
      (simp_all add: protocol_service_def True case_prod_unfold Let_def protocol_simps flip: q_def)
qed (simp add: protocol_service_def assms)

section \<open>Runs\<close>

text \<open>What reaches the protocol: events of the framing layer, notifications, the periodic service.\<close>

datatype protocol_event =
    PeFraming event | PeInvalidation | PeSafetyFailure u64 | PeService

fun protocol_step :: "cjson \<Rightarrow> cp_env \<Rightarrow> protocol \<Rightarrow> protocol_event \<Rightarrow> protocol" where
  "protocol_step J e p (PeFraming ev) = handle_framing_event J ev e p"
| "protocol_step J e p PeInvalidation = on_hid_lifecycle_invalidation e p"
| "protocol_step J e p (PeSafetyFailure owner) = on_hid_safety_failure owner p"
| "protocol_step J e p PeService = protocol_service e p"

definition protocol_zero :: "protocol_config \<Rightarrow> protocol" where
  "protocol_zero config = \<lparr>cp_config = config, cp_session = session_zero, cp_sensitive = identity_init,
     cp_initialized = False, cp_lease_notified = False, cp_calls = [], cp_served = []\<rparr>"

text \<open>The state after \<open>initialize\<close>.\<close>

definition protocol_start ::
  "protocol_config \<Rightarrow> bool \<Rightarrow> random_fill option \<Rightarrow> hmac_sha256 option \<Rightarrow> cp_env \<Rightarrow> protocol" where
  "protocol_start config random fill hmac e = snd (protocol_initialize config random fill hmac e (protocol_zero config))"

lemma protocol_step_served: "env_ok e \<Longrightarrow> served_inv p \<Longrightarrow> served_inv (protocol_step J e p ev)"
  by (cases ev)
    (auto simp: handle_framing_event_def handle_frame_served served_reply invalidation_served
      safety_failure_served service_served split: event_kind.split)

definition hmac_option_sized :: "hmac_sha256 option \<Rightarrow> bool" where
  "hmac_option_sized hmac \<longleftrightarrow> (case hmac of None \<Rightarrow> True | Some h \<Rightarrow> \<forall>k m buf. length (snd (h k m buf)) = length buf)"

lemma zero_served: "served_inv (protocol_zero config)"
  by (simp add: served_inv_def protocol_zero_def session_books_def session_zero_wf books_def hmac_sized_def
      identity_init_def)
    (simp add: session_zero_def session_abs_def abs_live_def empty_request_cache_def)

lemma identity_initialize_sized:
  "hmac_option_sized hmac \<Longrightarrow> hmac_sized (snd (identity_initialize fill hmac s))"
  by (auto simp: identity_initialize_def identity_clear_def hmac_sized_def hmac_option_sized_def Let_def
      split: option.splits prod.splits)

lemma start_served:
  assumes env: "env_ok e" and hmac: "hmac_option_sized hmac"
  shows "served_inv (protocol_start config random fill hmac e)"
proof -
  let ?r = "en_random e []" and ?c = "cf_present config ENow"
  have "length ?r = 16" using env by (simp add: env_ok_def)
  from initial_books [OF this, of ?c]
  have b: "session_books (session_initialize (Some ?r) ?c session_zero) []" .
  have c: "clear_transition_retry (session_initialize (Some ?r) ?c session_zero) = session_initialize (Some ?r) ?c session_zero"
    by (simp add: session_initialize_def clear_transition_retry_def clear_hello_cache_def clear_normal_cache_def
        Let_def session_zero_def)
  show ?thesis
    using zero_served [of config] b identity_initialize_sized [OF hmac, of fill identity_init]
    by (auto simp: protocol_start_def protocol_initialize_def Let_def case_prod_unfold served_inv_def c
        on_session_def protocol_zero_def)
qed

interpretation protocol_machine: machine "protocol_step J e" "protocol_start config random fill hmac e"
  "\<lambda>p. env_ok e \<and> hmac_option_sized hmac \<longrightarrow> served_inv p"
  by unfold_locales (auto simp: start_served protocol_step_served)

end
