(* ===== verification/ResponseLines.thy ===== *)
theory ResponseLines
  imports ControlResponse
begin

text \<open>
  Every formatter of the control protocol leaves a response frame that is empty or holds one line:
  the frame prefix, an object without control characters, and a line feed at the end only. The
  strings that come from outside are the metadata, the identity and the identifiers the formatters
  check themselves, and the code of a sequence status.
\<close>

section \<open>Text without control characters\<close>

definition plain :: "string \<Rightarrow> bool" where "plain s \<longleftrightarrow> list_all (\<lambda>c. 32 \<le> ord c) s"

named_theorems plain_rules \<open>printed pieces have no control characters\<close>

lemma plain_nil [plain_rules]: "plain []" by (simp add: plain_def)

lemma plain_literals: "plain (c # s) \<longleftrightarrow> 32 \<le> ord c \<and> plain s" by (simp add: plain_def)

lemma plain_append_iff: "plain (s @ t) \<longleftrightarrow> plain s \<and> plain t" by (simp add: plain_def)

lemma plain_append [plain_rules]: "plain s \<Longrightarrow> plain t \<Longrightarrow> plain (s @ t)" by (simp add: plain_def)

lemma plain_if [plain_rules]: "(b \<Longrightarrow> plain s) \<Longrightarrow> (\<not> b \<Longrightarrow> plain t) \<Longrightarrow> plain (if b then s else t)" by simp

lemma plain_take: "plain s \<Longrightarrow> plain (take n s)"
  unfolding plain_def by (meson in_set_takeD list_all_iff)

lemma plain_quoted [plain_rules]: "plain s \<Longrightarrow> plain (quoted s)" by (simp add: plain_def quoted_def)

lemma plain_bool [plain_rules]: "plain (json_bool b)" by (simp add: plain_def json_bool_def)

lemma plain_decimal [plain_rules]: "plain (decimal n)"
  using decimal_digits [of n] by (auto simp: plain_def digit_def list_all_iff)

lemma plain_word [plain_rules]: "plain (dec_word w)" by (simp add: dec_word_def plain_decimal)

lemma plain_int [plain_rules]: "plain (dec_int i)"
  using plain_decimal [of "nat i"] plain_decimal [of "nat (- i)"] by (simp add: dec_int_def plain_def)

lemma plain_snprintf [plain_rules]: "plain s \<Longrightarrow> plain (snprintf n s)" by (simp add: snprintf_def plain_take)

lemma ord_char_of: "n < 256 \<Longrightarrow> ord (char_of (n::nat)) = n" by simp

lemma plain_token: "is_lower_hex_token t \<Longrightarrow> plain (chars t)"
  unfolding is_lower_hex_token_def plain_def chars_def list_all_iff
  by (auto simp: word_le_nat_alt unsigned_less [where 'a = nat and 'b = 8, simplified] dest!: bspec)

lemma plain_usb_exposure_observed_json [plain_rules]: "plain (usb_exposure_observed_json x)" by (cases x) (simp_all add: plain_def)

lemma plain_usb_exposure_operation_json [plain_rules]: "plain (usb_exposure_operation_json x)" by (cases x) (simp_all add: plain_def)

lemma plain_ble_exposure_observed_json [plain_rules]: "plain (ble_exposure_observed_json x)" by (cases x) (simp_all add: plain_def)

lemma plain_ble_exposure_operation_json [plain_rules]: "plain (ble_exposure_operation_json x)" by (cases x) (simp_all add: plain_def)

lemma plain_output_route_json [plain_rules]: "plain (output_route_json x)" by (cases x) (simp_all add: plain_def)

lemma plain_pairing_state_json [plain_rules]: "plain (pairing_state_json x)" by (cases x) (simp_all add: plain_def)

lemma plain_pairing_last_result_json [plain_rules]: "plain (pairing_last_result_json x)" by (cases x) (simp_all add: plain_def)

lemma plain_sequence_state_json [plain_rules]: "plain (sequence_state_json x)" by (cases x) (simp_all add: plain_def)

lemma plain_flags [plain_rules]:
  "plain (usb_exposure_desired_json d)" "plain (ble_exposure_desired_json b)" "plain (route_transition_json t)"
  "plain (release_state_json i)"
  by (simp_all add: plain_def usb_exposure_desired_json_def ble_exposure_desired_json_def
      route_transition_json_def release_state_json_def)

lemma plain_hex [plain_rules]: "plain (hex_text bs)"
proof -
  have h: "32 \<le> ord (kHex ! n)" if "n < 16" for n
  proof -
    have "list_all (\<lambda>c. 32 \<le> ord c) kHex" by (simp add: kHex_def)
    then show ?thesis using that by (simp add: list_all_length kHex_def)
  qed
  have "unat (drop_bit 4 b AND 0x0f) < 16" "unat (b AND 0x0f) < 16" for b :: u8
    using word_and_le1 [of "drop_bit 4 b" 15] word_and_le1 [of b 15] by (simp_all add: word_le_nat_alt)
  then show ?thesis using h by (induction bs) (simp_all add: plain_def hex_text_def hex_pair_def)
qed

lemma plain_catalog: "p \<in> set kCatalog \<Longrightarrow> plain (prof_name p)"
proof -
  have "list_all (\<lambda>p. plain (prof_name p)) kCatalog" by (simp add: kCatalog_def plain_def)
  then show "p \<in> set kCatalog \<Longrightarrow> plain (prof_name p)" by (simp add: list_all_iff)
qed

lemma plain_found [plain_rules]: "find_profile_id x = Some p \<Longrightarrow> plain (prof_name p)"
  unfolding find_profile_id_def find_Some_iff by (metis nth_mem plain_catalog)

lemma plain_metadata: "is_safe_metadata_string m \<Longrightarrow> plain (c_text m)"
  by (auto simp: is_safe_metadata_string_def c_text_def plain_def list_all_iff not_less split: if_splits)

lemma plain_version: "is_valid_version v \<Longrightarrow> plain v"
proof -
  have "list_all (\<lambda>c. 32 \<le> ord c) (digits @ letters @ ''-.+'')" by code_simp
  then have "c \<in> version_alphabet \<Longrightarrow> 32 \<le> ord c" for c by (auto simp: version_alphabet_def list_all_iff)
  then show "is_valid_version v \<Longrightarrow> plain v"
    using semver_alphabet [of v] by (auto simp: valid_version_code plain_def list_all_iff)
qed

lemma plain_lower_hex: "list_all is_lower_hex v \<Longrightarrow> plain v"
  by (auto simp: plain_def is_lower_hex_def between_def list_all_iff dest!: bspec)

lemma plain_build_profile: "is_valid_build_profile v \<Longrightarrow> plain v"
proof -
  assume "is_valid_build_profile v"
  then have "list_all (\<lambda>s. s \<noteq> [] \<and> list_all (\<lambda>c. between CHR ''a'' CHR ''z'' c \<or> between CHR ''0'' CHR ''9'' c) s)
      (split_on CHR ''-'' v)"
    by (simp add: is_valid_build_profile_def segment_loop_split split: if_splits)
  then have "\<forall>s \<in> set (split_on CHR ''-'' v). \<forall>c \<in> set s. 32 \<le> ord c"
    by (auto simp: list_all_iff between_def dest!: bspec)
  moreover have "set v \<subseteq> \<Union> (set ` set (split_on CHR ''-'' v)) \<union> {CHR ''-''}"
    using join_chars [of "CHR ''-''" "split_on CHR ''-'' v"] by (simp add: join_split)
  ultimately show "plain v" by (fastforce simp: plain_def list_all_iff)
qed

lemma bounded_c_string: "bounded_array_string v n = Some u \<Longrightarrow> c_string v = u"
proof -
  assume "bounded_array_string v n = Some u"
  then obtain k where k: "index_of nul v = Some k" "u = take k v"
    by (auto simp: bounded_array_string_def split: option.splits if_splits)
  have "v = take k v @ nul # drop (Suc k) v" "nul \<notin> set (take k v)" using index_of_Some [OF k(1)] by auto
  then have "takeWhile (\<lambda>c. c \<noteq> nul) v = take k v @ takeWhile (\<lambda>c. c \<noteq> nul) (nul # drop (Suc k) v)"
    using takeWhile_append2 [of "take k v" "\<lambda>c. c \<noteq> nul" "nul # drop (Suc k) v"] by fastforce
  then have "takeWhile (\<lambda>c. c \<noteq> nul) v = take k v" by simp
  then show "c_string v = u" by (simp add: c_string_def k(2))
qed

lemma plain_identity:
  assumes "is_valid_identity (Some d)"
  shows "plain (c_string (id_version d))" "id_revision_present d \<Longrightarrow> plain (c_string (id_revision d))"
    "plain (c_string (id_app_sha d))" "plain (c_string (id_profile d))"
proof -
  obtain a b c f where i: "bounded_array_string (id_version d) kVersionMaxBytes = Some a"
    "bounded_array_string (id_revision d) kSourceRevisionChars = Some b"
    "bounded_array_string (id_app_sha d) kAppElfSha256HexChars = Some c"
    "bounded_array_string (id_profile d) kBuildProfileMaxBytes = Some f"
    using assms
    by (cases "bounded_array_string (id_version d) kVersionMaxBytes";
        cases "bounded_array_string (id_revision d) kSourceRevisionChars";
        cases "bounded_array_string (id_app_sha d) kAppElfSha256HexChars";
        cases "bounded_array_string (id_profile d) kBuildProfileMaxBytes") (simp_all add: is_valid_identity_def)
  have "is_valid_version a" "is_valid_source_revision \<lparr>sr_present = id_revision_present d, sr_value = b\<rparr>"
    "is_valid_app_elf_sha256 c" "is_valid_build_profile f"
    using assms by (simp_all add: is_valid_identity_def i)
  then show "plain (c_string (id_version d))" "id_revision_present d \<Longrightarrow> plain (c_string (id_revision d))"
    "plain (c_string (id_app_sha d))" "plain (c_string (id_profile d))"
    using i [THEN bounded_c_string] plain_version plain_lower_hex plain_build_profile
    by (simp_all add: is_valid_source_revision_def is_valid_app_elf_sha256_def)
qed

lemma chars_bytes [simp]: "chars (bytes s) = s"
proof -
  have "unat (of_char c :: u8) = ord c" for c
    using unat_of_nat [where 'a = 8, of "ord c"] by (simp add: of_nat_of_char)
  then show ?thesis by (simp add: chars_def bytes_def map_idI)
qed

lemma plain_bond_id:
  assumes "valid_bond_id b"
  shows "plain (c_string b)"
proof -
  let ?t = "take kBondIdHexChars b"
  have h: "is_lower_hex_token (bytes ?t)" and z: "b ! kBondIdHexChars = nul"
    using assms by (auto simp: valid_bond_id_def)
  have n: "kBondIdHexChars \<le> length b" using h by (auto simp: is_lower_hex_token_def bytes_def kBondIdHexChars_def kTokenHexLength_def)
  have p: "plain ?t" using plain_token [OF h] by simp
  then have "c \<noteq> nul" if "c \<in> set ?t" for c using that by (auto simp: plain_def list_all_iff nul_def)
  then have "c_string b = ?t @ takeWhile (\<lambda>c. c \<noteq> nul) (drop kBondIdHexChars b)"
    unfolding c_string_def by (subst append_take_drop_id [of kBondIdHexChars b, symmetric], subst takeWhile_append2) auto
  also have "takeWhile (\<lambda>c. c \<noteq> nul) (drop kBondIdHexChars b) = []"
  proof (cases "drop kBondIdHexChars b")
    case (Cons c cs)
    then have "kBondIdHexChars < length b" by (metis drop_eq_Nil2 leI list.distinct(1))
    then have "c = nul" using z Cons Cons_nth_drop_Suc [of kBondIdHexChars b] by simp
    then show ?thesis using Cons by simp
  qed simp
  finally show ?thesis using p by simp
qed

section \<open>Lines\<close>

definition kLinePrefix :: string where "kLinePrefix = ''@HIDBOT {''"

text \<open>Text up to the end of the object, and a whole line.\<close>

definition closes :: "string \<Rightarrow> bool" where
  "closes t \<longleftrightarrow> (\<exists>s. plain s \<and> t = s @ ''}}'' @ [CHR 0x0a])"

definition line_text :: "string \<Rightarrow> bool" where
  "line_text t \<longleftrightarrow> (\<exists>s. plain s \<and> t = kLinePrefix @ s @ ''}}'' @ [CHR 0x0a])"

definition response_line :: "u8 list \<Rightarrow> bool" where
  "response_line bs \<longleftrightarrow> (\<exists>s. plain s \<and> bs = bytes (kLinePrefix @ s @ ''}}'' @ [CHR 0x0a]) \<and> length bs < kMaxResponseBytes)"

definition frame_holds :: "response_frame \<Rightarrow> string \<Rightarrow> bool" where
  "frame_holds f txt \<longleftrightarrow> length (resp_bytes f) = kMaxResponseBytes \<and> resp_length f = length txt
     \<and> length txt < kMaxResponseBytes \<and> take (length txt) (resp_bytes f) = bytes txt"

definition line_frame :: "response_frame \<Rightarrow> bool" where
  "line_frame f \<longleftrightarrow> length (resp_bytes f) = kMaxResponseBytes
     \<and> (resp_length f = 0 \<or> (\<exists>txt. frame_holds f txt \<and> line_text txt))"

lemma closes_end: "closes line_end"
  by (auto simp: closes_def line_end_def intro!: exI [of _ "[]"] plain_nil)

lemma closes_append: "plain s \<Longrightarrow> closes t \<Longrightarrow> closes (s @ t)"
  by (auto simp: closes_def) (metis append_assoc plain_append)

lemma line_head: "plain field \<Longrightarrow> closes t \<Longrightarrow> line_text (success_head i field @ t)"
  unfolding line_text_def closes_def success_head_def kLinePrefix_def
  by (elim exE conjE, rule_tac x = "''\"type\":\"response\",\"v\":1,\"id\":'' @ dec_int i
     @ '',\"session\":'' @ field @ '',\"ok\":true,\"result\":{'' @ s" in exI)
    (simp_all add: plain_append_iff plain_int plain_literals plain_nil)

lemma line_error:
  "plain i \<Longrightarrow> plain field \<Longrightarrow> plain code \<Longrightarrow> plain message \<Longrightarrow>
     line_text (''@HIDBOT {\"type\":\"response\",\"v\":1,\"id\":'' @ i @ '',\"session\":'' @ field
        @ '',\"ok\":false,\"error\":{\"code\":'' @ quoted code @ '',\"message\":'' @ quoted message @ line_end)"
  unfolding line_text_def kLinePrefix_def line_end_def
  by (rule exI [of _ "''\"type\":\"response\",\"v\":1,\"id\":'' @ i @ '',\"session\":'' @ field
        @ '',\"ok\":false,\"error\":{\"code\":'' @ quoted code @ '',\"message\":'' @ quoted message"])
    (simp_all add: plain_append_iff plain_quoted plain_literals plain_nil)

lemma line_frame_empty [simp]: "line_frame empty_response"
  by (simp add: line_frame_def empty_response_def)

lemma line_frame_cleared: "line_frame f \<Longrightarrow> line_frame (f\<lparr>resp_length := 0\<rparr>)"
  by (simp add: line_frame_def)

lemma length_bytes_text [simp]: "length (bytes s) = length s" by (simp add: bytes_def)

lemma length_print_at:
  "length out = kMaxResponseBytes \<Longrightarrow> off < kMaxResponseBytes \<Longrightarrow> length (print_at off txt out) = kMaxResponseBytes"
  by (simp add: print_at_def put_at_def)

lemma print_at_prefix:
  "length out = kMaxResponseBytes \<Longrightarrow> off + length txt < kMaxResponseBytes \<Longrightarrow>
     take (off + length txt) (print_at off txt out) = take off out @ bytes txt"
  by (simp add: print_at_def put_at_def)

lemma format_holds:
  "length (resp_bytes f) = kMaxResponseBytes \<Longrightarrow> length txt < kMaxResponseBytes \<Longrightarrow>
     format_frame txt f = (True, f\<lparr>resp_bytes := print_at 0 txt (resp_bytes f), resp_length := length txt\<rparr>)
     \<and> frame_holds (snd (format_frame txt f)) txt"
  using print_at_prefix [of "resp_bytes f" 0 "txt"]
  by (simp add: format_frame_def frame_holds_def Let_def length_print_at kMaxResponseBytes_def)

lemma format_line:
  assumes "line_frame f" "line_text txt"
  shows "line_frame (snd (format_frame txt f))"
proof (cases "length txt < kMaxResponseBytes")
  case True
  then show ?thesis using format_holds [of f "txt"] assms by (auto simp: line_frame_def frame_holds_def)
next
  case False
  then show ?thesis using assms(1)
    by (simp add: format_frame_def Let_def line_frame_def length_print_at kMaxResponseBytes_def)
qed

lemma with_session_line:
  assumes "line_frame f" "\<And>field. plain field \<Longrightarrow> line_frame (snd (print field))"
  shows "line_frame (snd (with_session session f print))"
proof (cases session)
  case None
  have "plain ''null''" by (simp add: plain_def)
  then show ?thesis using assms(2) None by (simp add: with_session_def format_session_field_def)
next
  case (Some token)
  show ?thesis
  proof (cases "is_lower_hex_token token")
    case True
    have "plain (''\"'' @ chars token @ ''\"'')" using plain_token [OF True] by (simp add: plain_def)
    then show ?thesis using assms(2) Some True by (simp add: with_session_def format_session_field_def)
  next
    case False
    then show ?thesis using line_frame_cleared [OF assms(1)] Some
      by (simp add: with_session_def format_session_field_def)
  qed
qed

lemma session_field_plain: "format_session_field session = Some field \<Longrightarrow> plain field"
  using plain_token by (auto simp: format_session_field_def plain_def split: option.splits if_splits)

section \<open>The formatters\<close>

named_theorems line_rules \<open>formatters leave an empty frame or a line\<close>

lemma line_if:
  "(b \<Longrightarrow> line_frame (snd x)) \<Longrightarrow> (\<not> b \<Longrightarrow> line_frame (snd y)) \<Longrightarrow> line_frame (snd (if b then x else y))"
  by simp

lemma line_failed: "line_frame f \<Longrightarrow> line_frame (snd (False, f\<lparr>resp_length := 0\<rparr>))"
  by (simp add: line_frame_cleared)

lemmas line_intros = line_if line_failed with_session_line format_line line_head line_frame_cleared closes_append closes_end plain_rules

lemmas literal_simps = plain_literals plain_nil

lemma make_error_line [line_rules]:
  "line_frame f \<Longrightarrow> plain code \<Longrightarrow> plain message \<Longrightarrow> line_frame (snd (make_error session i code message f))"
  unfolding make_error_def
  by (intro with_session_line format_line line_error)
    (cases i; simp add: literal_simps plain_rules)+

lemma make_ping_line [line_rules]: "line_frame f \<Longrightarrow> line_frame (snd (make_ping session i f))"
  unfolding make_ping_def by (intro line_intros) (simp_all add: literal_simps)

lemma make_usb_status_line [line_rules]: "line_frame f \<Longrightarrow> line_frame (snd (make_usb_status session i status f))"
  unfolding make_usb_status_def by (intro line_intros) (simp_all add: literal_simps)

text \<open>The metadata and the identity that \<open>initialize\<close> accepts.\<close>

definition metadata_ok :: "protocol_metadata \<Rightarrow> bool" where
  "metadata_ok md \<longleftrightarrow> is_safe_metadata_string (md_project md) \<and> is_safe_metadata_string (md_target md)
     \<and> is_safe_metadata_string (md_idf_version md)"

lemma make_info_line [line_rules]:
  assumes "line_frame f" "metadata_ok md"
  shows "line_frame (snd (make_info session i md f))"
proof -
  have m: "plain (c_text (md_project md))" "plain (c_text (md_target md))" "plain (c_text (md_idf_version md))"
    using assms(2) plain_metadata by (auto simp: metadata_ok_def)
  show ?thesis
  proof (cases "md_identity md")
    case None
    show ?thesis unfolding make_info_def None option.case Let_def append_assoc
      by (intro assms(1) m line_intros) (simp_all add: literal_simps)
  next
    case (Some d)
    show ?thesis
    proof (cases "is_valid_identity (Some d)")
      case True
      show ?thesis unfolding make_info_def Some option.case Let_def append_assoc
        using True plain_identity [OF True]
        by (auto simp del: append_Cons append_Nil intro!: assms(1) m line_intros) (simp_all add: literal_simps)
    next
      case False
      then show ?thesis unfolding make_info_def Some
        by (intro with_session_line) (simp_all add: Let_def assms(1) line_frame_cleared)
    qed
  qed
qed

lemma make_usb_exposure_line [line_rules]:
  "line_frame f \<Longrightarrow> line_frame (snd (make_usb_exposure_status session i status f))"
  unfolding make_usb_exposure_status_def Let_def append_assoc
  by (intro line_intros) (simp_all add: literal_simps)

lemma make_ble_exposure_line [line_rules]:
  "line_frame f \<Longrightarrow> line_frame (snd (make_ble_exposure_status session i status f))"
  unfolding make_ble_exposure_status_def Let_def append_assoc
  by (intro line_intros) (simp_all add: literal_simps)

lemma make_profile_status_line [line_rules]:
  assumes "line_frame f"
  shows "line_frame (snd (make_profile_status session i status f))"
proof (cases "format_session_field session")
  case None
  then show ?thesis using assms by (simp add: make_profile_status_def)
next
  case (Some field)
  note field = session_field_plain [OF this]
  show ?thesis
  proof (cases "find_profile_id (sel_selected status)")
    case None
    then show ?thesis using assms Some by (simp add: make_profile_status_def)
  next
    case (Some p)
    have active: "plain (case find_profile_id (sel_active status) of None \<Rightarrow> [] | Some p \<Rightarrow> prof_name p)"
      by (simp add: plain_found plain_nil split: option.split)
    have transition: "plain (case sel_transition status of
        SelFault \<Rightarrow> ''fault'' | SelInitializing \<Rightarrow> ''initializing'' | SelStable \<Rightarrow> ''stable'')"
      by (simp add: literal_simps split: selection_transition.split)
    have "line_frame (snd (format_frame
        (success_head i field @ ''\"selected\":'' @ quoted (prof_name p)
         @ '',\"active\":'' @ snprintf 64 (if sel_active_present status
              then quoted (case find_profile_id (sel_active status) of None \<Rightarrow> [] | Some p \<Rightarrow> prof_name p) else ''null'')
         @ '',\"transition\":'' @ quoted (case sel_transition status of
              SelFault \<Rightarrow> ''fault'' | SelInitializing \<Rightarrow> ''initializing'' | SelStable \<Rightarrow> ''stable'')
         @ line_end) f))"
      by (intro line_intros assms field active transition plain_found [OF Some]) (simp_all add: literal_simps)
    then show ?thesis
      using assms Some \<open>format_session_field session = Some field\<close> by (simp add: make_profile_status_def Let_def)
  qed
qed

lemma make_led_line [line_rules]:
  assumes "line_frame f"
  shows "line_frame (snd (make_led_status session i status f))"
proof (cases "format_session_field session")
  case (Some field)
  have "line_frame (snd (format_frame
      (success_head i field @ ''\"supported\":'' @ json_bool (led_supported status)
       @ '',\"valid\":'' @ json_bool (led_valid status) @ '',\"leds\":'' @ dec_word (led_leds status) @ line_end) f))"
    by (intro line_intros assms session_field_plain [OF Some]) (simp_all add: literal_simps)
  then show ?thesis using assms Some by (simp add: make_led_status_def)
qed (simp add: make_led_status_def assms)

lemma make_route_line [line_rules]:
  "line_frame f \<Longrightarrow> line_frame (snd (make_hid_route_status session i status f))"
  unfolding make_hid_route_status_def by (intro line_intros) (simp_all add: literal_simps)

lemma make_versioned_route_line [line_rules]:
  "line_frame f \<Longrightarrow> line_frame (snd (make_versioned_hid_route_status session i status v2 f))"
  by (simp add: make_versioned_hid_route_status_def line_rules literal_simps)

lemma make_release_line [line_rules]: "line_frame f \<Longrightarrow> line_frame (snd (make_release_all session i res f))"
  unfolding make_release_all_def by (intro line_intros) (simp_all add: literal_simps)

lemma capabilities_plain: "plain (json_strings identity_capabilities)" "plain (json_strings legacy_capabilities)"
  by (simp_all add: identity_capabilities_def legacy_capabilities_def quoted_def literal_simps)

lemma make_hello_line [line_rules]:
  assumes "line_frame f" "metadata_ok md"
  shows "line_frame (snd (make_hello session i md nonce boot res f))"
proof (cases "format_session_field session")
  case (Some field)
  let ?t = "\<lambda>b. takeWhile (\<lambda>x. x \<noteq> 0) b"
  show ?thesis
  proof (cases "is_lower_hex_token (bytes nonce) \<and> is_lower_hex_token (?t boot) \<and> is_lower_hex_token (?t res)
      \<and> (md_identity md = None \<or> is_valid_identity (md_identity md))")
    case True
    then have pieces: "plain nonce" "plain (chars (?t boot))" "plain (chars (?t res))"
      using plain_token [of "bytes nonce"] plain_token by auto
    have m: "plain (c_text (md_project md))" using assms(2) plain_metadata by (auto simp: metadata_ok_def)
    have "line_frame (snd (format_frame
        (success_head i field @ ''\"project\":'' @ quoted (c_text (md_project md))
              @ '',\"protocol_version\":1,\"client_nonce\":'' @ quoted nonce
              @ '',\"boot_id\":'' @ quoted (chars (?t boot))
              @ '',\"session\":'' @ quoted (chars (?t res))
              @ '',\"lease_ms\":'' @ dec_word kLeaseMilliseconds
              @ '',\"capabilities\":['' @ json_strings (if md_identity md \<noteq> None then identity_capabilities
                   else legacy_capabilities) @ '']'' @ line_end) f))"
      by (intro line_intros assms(1) pieces m session_field_plain [OF Some])
        (simp_all add: literal_simps capabilities_plain)
    then show ?thesis using True Some by (auto simp: make_hello_def)
  next
    case False
    then show ?thesis using Some line_frame_cleared [OF assms(1)] by (auto simp: make_hello_def)
  qed
qed (simp add: make_hello_def assms line_frame_cleared)

lemma make_pairing_line [line_rules]:
  assumes "line_frame f"
  shows "line_frame (snd (make_pairing_status session i status f))"
  unfolding make_pairing_status_def Let_def append_assoc
  by (intro line_intros assms make_error_line) (simp_all add: literal_simps)

lemma make_pairing_respond_line [line_rules]:
  "line_frame f \<Longrightarrow> line_frame (snd (make_pairing_respond session i n f))"
  unfolding make_pairing_respond_def by (intro line_intros) (simp_all add: literal_simps)

lemma make_bond_remove_line [line_rules]:
  "line_frame f \<Longrightarrow> line_frame (snd (make_bond_remove session i res f))"
  unfolding make_bond_remove_def
  by (intro line_intros plain_bond_id) (simp_all add: literal_simps)

lemma make_sequence_start_line [line_rules]:
  assumes "line_frame f"
  shows "line_frame (snd (make_sequence_start session i f))"
proof (cases "format_session_field session")
  case (Some field)
  have "line_frame (snd (format_frame
      (success_head i field @ ''\"sequence_id\":'' @ dec_int i @ '',\"state\":\"accepted\"'' @ line_end) f))"
    by (intro line_intros assms session_field_plain [OF Some]) (simp_all add: literal_simps)
  then show ?thesis using Some by (simp add: make_sequence_start_def)
qed (simp add: make_sequence_start_def assms)

definition code_plain :: "sequence_answer \<Rightarrow> bool" where
  "code_plain status \<longleftrightarrow> (case sq_code status of None \<Rightarrow> True | Some c \<Rightarrow> plain (c_string c))"

lemma make_sequence_status_line [line_rules]:
  assumes "line_frame f" "code_plain status"
  shows "line_frame (snd (make_sequence_status session i status f))"
proof (cases "format_session_field session")
  case (Some field)
  have code: "plain (case sq_code status of None \<Rightarrow> ''null'' | Some c \<Rightarrow> quoted (c_string c))"
    using assms(2) by (auto simp: code_plain_def plain_quoted literal_simps split: option.splits)
  have "line_frame (snd (format_frame
      (success_head i field @ ''\"sequence_id\":'' @ dec_int (sq_sequence_id status)
       @ '',\"state\":'' @ quoted (sequence_state_json (sq_state status))
       @ '',\"started\":'' @ json_bool (sq_started status)
       @ '',\"executed\":'' @ dec_word (sq_executed status)
       @ '',\"failed_token\":'' @ snprintf 16 (if sq_failed_token_present status
            then dec_word (sq_failed_token status) else ''null'')
       @ '',\"code\":'' @ snprintf 48 (case sq_code status of None \<Rightarrow> ''null'' | Some c \<Rightarrow> quoted (c_string c))
       @ line_end) f))"
    by (intro line_intros assms(1) code session_field_plain [OF Some]) (simp_all add: literal_simps)
  then show ?thesis using Some by (simp add: make_sequence_status_def Let_def)
qed (simp add: make_sequence_status_def assms)

lemma make_report_line [line_rules]:
  "line_frame f \<Longrightarrow> line_frame (snd (make_keyboard_report session i res f))"
  "line_frame f \<Longrightarrow> line_frame (snd (make_mouse_report session i res f))"
  unfolding make_keyboard_report_def make_mouse_report_def make_report_def
  by (intro line_intros; simp add: literal_simps)+

lemma make_report_error_line [line_rules]:
  "line_frame f \<Longrightarrow> line_frame (snd (make_keyboard_error session i failure f))"
  "line_frame f \<Longrightarrow> line_frame (snd (make_mouse_error session i failure f))"
  unfolding make_keyboard_error_def make_mouse_error_def make_report_error_def
  by (cases failure; simp add: make_error_line literal_simps)+

section \<open>Responses written in pieces\<close>

text \<open>A piece-wise response is still open, or it failed and is empty.\<close>

definition open_frame :: "bool \<times> response_frame \<Rightarrow> bool" where
  "open_frame r \<longleftrightarrow> length (resp_bytes (snd r)) = kMaxResponseBytes
     \<and> (if fst r then \<exists>s. plain s \<and> frame_holds (snd r) (kLinePrefix @ s) else resp_length (snd r) = 0)"

lemma append_holds:
  assumes "frame_holds f t"
  shows "append_frame u f = (False, f\<lparr>resp_bytes := print_at (length t) u (resp_bytes f), resp_length := 0\<rparr>)
    \<or> fst (append_frame u f) \<and> frame_holds (snd (append_frame u f)) (t @ u)"
  using assms print_at_prefix [of "resp_bytes f" "length t" u]
  by (auto simp: append_frame_def frame_holds_def Let_def length_print_at bytes_def)

lemma append_open:
  assumes "open_frame r" "plain u"
  shows "open_frame (then_append u r)"
proof (cases "fst r")
  case True
  then obtain s where s: "plain s" "frame_holds (snd r) (kLinePrefix @ s)" using assms(1) by (auto simp: open_frame_def)
  have sz: "length (resp_bytes (snd r)) = kMaxResponseBytes" "length (kLinePrefix @ s) < kMaxResponseBytes"
    using s(2) by (auto simp: frame_holds_def)
  have "plain (s @ u)" using s(1) assms(2) by (rule plain_append)
  then show ?thesis
    using append_holds [OF s(2), of u] True sz
    by (auto simp: then_append_def open_frame_def length_print_at frame_holds_def intro!: exI [of _ "s @ u"])
next
  case False
  then show ?thesis using assms(1) by (simp add: then_append_def)
qed

lemma append_closes:
  assumes "open_frame r" "closes u"
  shows "line_frame (snd (then_append u r))"
proof (cases "fst r")
  case True
  then obtain s where s: "plain s" "frame_holds (snd r) (kLinePrefix @ s)" using assms(1) by (auto simp: open_frame_def)
  have sz: "length (resp_bytes (snd r)) = kMaxResponseBytes" "length (kLinePrefix @ s) < kMaxResponseBytes"
    using s(2) by (auto simp: frame_holds_def)
  obtain v where v: "plain v" "u = v @ ''}}'' @ [CHR 0x0a]" using assms(2) by (auto simp: closes_def)
  have "line_text ((kLinePrefix @ s) @ u)"
    unfolding line_text_def by (intro exI [of _ "s @ v"]) (simp add: v plain_append [OF s(1) v(1)])
  then show ?thesis
    using append_holds [OF s(2), of u] True sz
    by (auto simp: then_append_def line_frame_def length_print_at frame_holds_def
        intro!: exI [of _ "kLinePrefix @ s @ u"])
next
  case False
  then show ?thesis using assms(1) by (simp add: then_append_def line_frame_def open_frame_def)
qed

text \<open>The opening of a piece-wise response.\<close>

lemma format_open:
  assumes "line_frame f" "plain field" "plain t"
  shows "open_frame (format_frame (success_head i field @ t) f)"
proof -
  let ?s = "''\"type\":\"response\",\"v\":1,\"id\":'' @ dec_int i @ '',\"session\":'' @ field @ '',\"ok\":true,\"result\":{'' @ t"
  have e: "success_head i field @ t = kLinePrefix @ ?s" by (simp add: success_head_def kLinePrefix_def)
  have p: "plain ?s" by (intro plain_append plain_int assms(2,3)) (simp_all add: literal_simps)
  have sz: "length (resp_bytes f) = kMaxResponseBytes" using assms(1) by (simp add: line_frame_def)
  show ?thesis
  proof (cases "length (success_head i field @ t) < kMaxResponseBytes")
    case True
    note h = format_holds [OF sz True]
    have "length (resp_bytes (snd (format_frame (success_head i field @ t) f))) = kMaxResponseBytes"
      using conjunct2 [OF h] by (simp only: frame_holds_def)
    moreover have "fst (format_frame (success_head i field @ t) f)" using conjunct1 [OF h] by (metis fst_conv)
    ultimately show ?thesis unfolding open_frame_def using conjunct2 [OF h] p unfolding e by auto
  next
    case False
    then show ?thesis using sz by (simp add: open_frame_def format_frame_def Let_def length_print_at kMaxResponseBytes_def)
  qed
qed

lemma list_maps_open:
  assumes "open_frame r"
  shows "open_frame (snd (list_maps ps unique r))"
  using assms
proof (induction ps unique r rule: list_maps.induct)
  case (2 p ps unique r)
  have "plain ((if unique = [] then [] else '','') @ quoted (hex_text (report_map_sha256 p)))"
    by (intro plain_rules) (simp_all add: literal_simps)
  from append_open [OF 2(3) this] 2 show ?case by simp
qed simp

lemma list_maps_keeps: "u \<in> set unique \<Longrightarrow> u \<in> set (fst (list_maps ps unique r))"
  by (induction ps unique r rule: list_maps.induct) auto

lemma list_maps_covers: "p \<in> set ps \<Longrightarrow> list_ex (same_map p) (fst (list_maps ps unique r))"
proof (induction ps unique r rule: list_maps.induct)
  case (2 q ps unique r)
  have "list_ex (same_map q) (fst (list_maps (q # ps) unique r))"
  proof (cases "list_ex (same_map q) unique")
    case True
    then obtain u where "u \<in> set unique" "same_map q u" by (auto simp: list_ex_iff)
    then show ?thesis using True list_maps_keeps [of u unique ps r] by (auto simp: list_ex_iff)
  next
    case False
    let ?r = "then_append ((if unique = [] then [] else '','') @ quoted (hex_text (report_map_sha256 q))) r"
    have "q \<in> set (fst (list_maps ps (unique @ [q]) ?r))" by (rule list_maps_keeps) simp
    then have "list_ex (same_map q) (fst (list_maps ps (unique @ [q]) ?r))"
      unfolding list_ex_iff by (rule bexI [rotated]) (simp add: same_map_def)
    then show ?thesis using False by simp
  qed
  then show ?case using 2 by auto
qed simp

lemma list_profiles_open:
  "open_frame r \<Longrightarrow> list_all (\<lambda>p. plain (prof_name p) \<and> list_ex (same_map p) unique) ps \<Longrightarrow>
     open_frame (list_profiles unique ps first r)"
proof (induction unique ps first r rule: list_profiles.induct)
  case (2 unique p ps first r)
  have "plain ((if first then [] else '','') @ ''['' @ quoted (prof_name p)
          @ '','' @ dec_word (revision p) @ '','' @ dec_word (schema_revision (cache p))
          @ '','' @ decimal (length (takeWhile (\<lambda>u. \<not> same_map p u) unique))
          @ '','' @ dec_word (bond_class_code (prof_bond_class p))
          @ '','' @ dec_word (identity_class_code (identity_class p)) @ '']'')"
    using 2(3) by (intro plain_append plain_if plain_quoted plain_word plain_decimal) (simp_all add: literal_simps)
  from append_open [OF 2(2) this] 2 show ?case by simp
qed simp

lemma make_profile_list_line [line_rules]:
  assumes "line_frame f"
  shows "line_frame (snd (make_profile_list session i f))"
proof (cases "format_session_field session")
  case (Some field)
  let ?r = "format_frame (success_head i field
      @ ''\"fields\":[\"id\",\"rev\",\"schema\",\"map\",\"bond\",\"identity\"],\"maps\":['') f"
  obtain unique r1 where m: "list_maps kCatalog [] ?r = (unique, r1)"
    by (cases "list_maps kCatalog [] ?r")
  have "open_frame ?r"
    by (intro format_open assms session_field_plain [OF Some]) (simp add: literal_simps)
  from list_maps_open [OF this, of kCatalog "[]"] have "open_frame r1" by (simp add: m)
  then have o: "open_frame (then_append ''],\"profiles\":['' r1)"
    by (intro append_open) (simp_all add: literal_simps)
  have "list_all (\<lambda>p. plain (prof_name p) \<and> list_ex (same_map p) unique) kCatalog"
    using list_maps_covers [of _ kCatalog "[]" ?r] plain_catalog by (simp add: m list_all_iff)
  from list_profiles_open [OF o this, of True]
  have l: "open_frame (list_profiles unique kCatalog True (then_append ''],\"profiles\":['' r1))" .
  have "closes (CHR '']'' # line_end)" using closes_append [of "'']''", OF _ closes_end] by (simp add: literal_simps)
  from append_closes [OF l this] show ?thesis by (simp add: make_profile_list_def Some m)
qed (simp add: make_profile_list_def assms)

lemma bond_entries_open:
  "open_frame r \<Longrightarrow> open_frame (snd (bond_entries previous bs healthy r))"
proof (induction previous bs healthy r rule: bond_entries.induct)
  case (2 previous b bs healthy r)
  show ?case
  proof (cases "fst r")
    case True
    show ?thesis
    proof (cases "bond_rejected previous b")
      case False
      then have "plain (c_string (bi_bond_id b))" by (auto simp: bond_rejected_def intro: plain_bond_id)
      then have "open_frame
        (then_append ('',\"schema_current\":'' @ json_bool (bi_schema_current b)
            @ '',\"connected\":'' @ json_bool (bi_connected b) @ ''}'')
          (then_append (if bi_schema_revision_present b then dec_word (bi_schema_revision b) else ''null'')
            (then_append ((if previous = None then [] else '','') @ ''{\"bond_id\":''
               @ quoted (c_string (bi_bond_id b)) @ '',\"our_sec\":'' @ json_bool (bi_our_sec b)
               @ '',\"peer_sec\":'' @ json_bool (bi_peer_sec b) @ '',\"verified\":'' @ json_bool (bi_verified b)
               @ '',\"schema_revision\":'') r)))"
        by (intro append_open 2(2) plain_append plain_if plain_quoted plain_word plain_bool)
          (simp_all add: literal_simps)
      from 2(1) [OF _ False this] True False show ?thesis by simp
    qed (use 2(2) True in \<open>simp add: open_frame_def\<close>)
  qed (use 2(2) in simp)
qed simp

lemma make_bond_list_line [line_rules]:
  assumes "line_frame f"
  shows "line_frame (snd (make_bond_list session i res f))"
  unfolding make_bond_list_def Let_def
proof (rule with_session_line [OF assms])
  fix field assume field: "plain field"
  let ?r = "format_frame (success_head i field @ ''\"capacity\":3,\"count\":'' @ dec_word (bl_count res)
      @ '',\"available\":'' @ dec_word (bl_available res)
      @ '',\"healthy\":'' @ json_bool (bl_healthy res) @ '',\"bonds\":['') f"
  obtain h r1 where e: "bond_entries None (take (unat (bl_count res)) (bl_bonds res)) True ?r = (h, r1)"
    by (cases "bond_entries None (take (unat (bl_count res)) (bl_bonds res)) True ?r")
  have "open_frame ?r"
    by (intro format_open assms field plain_append plain_word plain_bool) (simp_all add: literal_simps)
  from bond_entries_open [OF this, of None "take (unat (bl_count res)) (bl_bonds res)" True]
  have o: "open_frame r1" unfolding e snd_conv .
  have "closes (CHR '']'' # line_end)" using closes_append [of "'']''", OF _ closes_end] by (simp add: literal_simps)
  from append_closes [OF o this] o
  show "line_frame (snd (if bl_count res > 3 \<or> unat (bl_available res) \<noteq> 3 - unat (bl_count res)
       then (False, f\<lparr>resp_length := 0\<rparr>)
       else
         (case bond_entries None (take (unat (bl_count res)) (bl_bonds res)) True ?r of
            (expected_healthy, r1) \<Rightarrow> if \<not> fst r1 then r1
             else if bl_healthy res \<noteq> expected_healthy then (False, (snd r1)\<lparr>resp_length := 0\<rparr>)
             else append_frame (CHR '']'' # line_end) (snd r1))))"
    unfolding e prod.case
    by (cases "fst r1")
      (use line_frame_cleared [OF assms] in \<open>simp_all add: then_append_def open_frame_def line_frame_def\<close>)
qed

end
