(* ===== verification/ProtocolCalls.thy ===== *)
theory ProtocolCalls
  imports ProtocolServing ResponseLines
begin

text \<open>
  What leaves the protocol: the calls it makes and the bytes it writes. Every call carries arguments
  in the range its provider expects, every output is one response line, and a frame makes at most one
  call to a provider, for a new request of the live session.
\<close>

section \<open>Calls in range\<close>

fun keyboard_request_ok :: "keyboard_request \<Rightarrow> bool" where
  "keyboard_request_ok r \<longleftrightarrow> (\<exists>ks. kr_keycodes r = ks @ replicate (6 - length ks) 0 \<and> length ks \<le> 6
     \<and> sorted_wrt (<) ks \<and> list_all allowed_keyboard_usage ks)"

fun mouse_request_ok :: "mouse_request \<Rightarrow> bool" where
  "mouse_request_ok r \<longleftrightarrow> mr_buttons r \<le> 31
     \<and> list_all (\<lambda>v. \<bar>v\<bar> \<le> 127) [mr_x r, mr_y r, mr_wheel r, mr_pan r]"

fun call_ok :: "cp_call \<Rightarrow> bool" where
  "call_ok (CallOutput bs) \<longleftrightarrow> response_line bs"
| "call_ok (CallKeyboard owner r) \<longleftrightarrow> keyboard_request_ok r"
| "call_ok (CallMouse owner r) \<longleftrightarrow> mouse_request_ok r"
| "call_ok (CallSequenceStart owner i code) \<longleftrightarrow> 0 \<le> i \<and> i \<le> kInt32Max
     \<and> code \<noteq> [] \<and> length code \<le> kMaxSequenceCodeBytes \<and> nul \<notin> set code"
| "call_ok (CallSequenceStatus owner i) \<longleftrightarrow> 0 \<le> i \<and> i \<le> kInt32Max"
| "call_ok (CallPairingRespond r) \<longleftrightarrow> pr_pairing_id r \<noteq> 0 \<and> length (pr_passkey r) = 6
     \<and> list_all (\<lambda>c. 48 \<le> ord c \<and> ord c \<le> 57) (pr_passkey r)"
| "call_ok (CallBondRemove b) \<longleftrightarrow> length b = kBondIdHexChars + 1 \<and> valid_bond_id b"
| "call_ok _ \<longleftrightarrow> True"

text \<open>The calls that reach a provider of the firmware.\<close>

fun provider_call :: "cp_call \<Rightarrow> bool" where
  "provider_call (CallOutput bs) \<longleftrightarrow> False"
| "provider_call CallEpoch \<longleftrightarrow> False"
| "provider_call CallLeaseExpired \<longleftrightarrow> False"
| "provider_call CallTakeover \<longleftrightarrow> False"
| "provider_call CallSafetyFailure \<longleftrightarrow> False"
| "provider_call (CallOwnerRetired n) \<longleftrightarrow> False"
| "provider_call _ \<longleftrightarrow> True"

section \<open>Validated parameters\<close>

lemma c_string_clean: "nul \<notin> set (c_string s)"
  by (auto simp: c_string_def dest: set_takeWhileD)

lemma bounded_stringD:
  assumes "get_bounded_nonempty_string J x n k = Some v"
  shows "v \<noteq> []" "length v \<le> k" "nul \<notin> set v"
  using assms c_string_clean by (auto simp: get_bounded_nonempty_string_def split: option.splits json.splits if_splits)

lemma integer_betweenD: "integer_between lo hi x = Some i \<Longrightarrow> lo \<le> i \<and> i \<le> hi"
  unfolding integer_between_def by (auto split: if_splits simp: le_floor_iff floor_le_iff not_less)

text \<open>The loop over the keys: ascending allowed usages, stored from the index on.\<close>

lemma usage_of_int: "0 \<le> i \<Longrightarrow> i \<le> 255 \<Longrightarrow> uint (of_int i :: u8) = i"
  by (simp add: word_of_int_eq_iff take_bit_int_eq_self_iff uint_word_of_int_eq)

lemma keyboard_keys_ok:
  "keyboard_keys prev n keys codes = Some out \<Longrightarrow> - 1 \<le> prev \<Longrightarrow> codes = pre @ replicate (length keys + m) 0 \<Longrightarrow>
     length pre = n \<Longrightarrow>
     \<exists>ks. out = pre @ ks @ replicate m 0 \<and> length ks = length keys \<and> sorted_wrt (<) ks
       \<and> list_all (\<lambda>k. prev < uint k \<and> allowed_keyboard_usage k) ks"
proof (induction prev n keys codes arbitrary: pre rule: keyboard_keys.induct)
  case (2 prev n key keys codes)
  obtain v where v: "integer_between 0 255 (Some key) = Some v" "prev < v" "allowed_keyboard_usage (of_int v)"
    and rest: "keyboard_keys v (n + 1) keys (codes[n := of_int v]) = Some out"
    using 2(2) by (auto split: option.splits if_splits)
  have vr: "0 \<le> v" "v \<le> 255" using integer_betweenD [OF v(1)] by auto
  have upd: "codes[n := of_int v] = (pre @ [of_int v]) @ replicate (length keys + m) 0"
    using 2(4,5) by (simp add: list_update_append)
  obtain ks where ks: "out = (pre @ [of_int v]) @ ks @ replicate m 0" "length ks = length keys"
    "sorted_wrt (<) ks" "list_all (\<lambda>k. v < uint k \<and> allowed_keyboard_usage k) ks"
    using 2(1) [OF v(1) _ rest _ upd] v vr 2(5) by auto
  have u: "uint (of_int v :: u8) = v" using vr by (rule usage_of_int)
  have "sorted_wrt (<) (of_int v # ks)" using ks(3,4) u by (auto simp: word_less_def list_all_iff)
  moreover have "list_all (\<lambda>k. prev < uint k \<and> allowed_keyboard_usage k) (of_int v # ks)"
    using ks(4) v u by (auto simp: list_all_iff)
  ultimately show ?case using ks(1,2) by (intro exI [of _ "of_int v # ks"]) simp
qed simp

lemma keyboard_params_ok:
  assumes J: "cjson_ok J" and some: "validate_keyboard_report_params J params = Some r"
  shows "keyboard_request_ok r"
proof -
  obtain m keys out where k: "\<not> cj_size J (JArray keys) > 6" "keyboard_keys (- 1) 0 keys (replicate 6 0) = Some out"
    "r = \<lparr>kr_modifiers = m, kr_keycodes = out\<rparr>"
    using some by (auto simp: validate_keyboard_report_params_def split: if_splits option.splits json.splits)
  have n: "length keys \<le> 6" using k(1) J by (simp add: cjson_ok_def)
  obtain ks where "out = [] @ ks @ replicate (6 - length keys) 0" "length ks = length keys" "sorted_wrt (<) ks"
    "list_all (\<lambda>k. - 1 < uint k \<and> allowed_keyboard_usage k) ks"
    using keyboard_keys_ok [OF k(2), of "[]" "6 - length keys"] n by auto
  then show ?thesis using n k(3) by (auto simp: list_all_iff intro!: exI [of _ ks])
qed

lemma mouse_params_ok:
  assumes "validate_mouse_report_params J params = Some r"
  shows "mouse_request_ok r"
proof -
  obtain b x y w p where f: "integer_between 0 31 (get_item J params ''buttons'') = Some b"
    "integer_between (- 127) 127 (get_item J params ''x'') = Some x"
    "integer_between (- 127) 127 (get_item J params ''y'') = Some y"
    "integer_between (- 127) 127 (get_item J params ''wheel'') = Some w"
    "integer_between (- 127) 127 (get_item J params ''pan'') = Some p"
    and r: "r = \<lparr>mr_buttons = of_int b, mr_x = x, mr_y = y, mr_wheel = w, mr_pan = p\<rparr>"
    using assms by (auto simp: validate_mouse_report_params_def split: if_splits option.splits)
  have b: "0 \<le> b" "b \<le> 31" using integer_betweenD [OF f(1)] by auto
  then have "uint (of_int b :: u8) = b" by (intro usage_of_int) auto
  then have "(of_int b :: u8) \<le> 31" using b by (simp add: word_le_def)
  then show ?thesis using f(2-5) [THEN integer_betweenD] r by auto
qed

lemma passkey_digits: "passkey_digit c \<Longrightarrow> 48 \<le> ord c \<and> ord c \<le> 57"
  by (simp add: passkey_digit_def)

lemma pairing_params_ok:
  assumes "validate_pairing_respond_params J params = Some r"
  shows "call_ok (CallPairingRespond r)"
proof -
  obtain i v where f: "integer_between 1 kUint32Max (get_item J params ''pairing_id'') = Some i"
    "length v = 6" "list_all passkey_digit v" "r = \<lparr>pr_pairing_id = of_int i, pr_passkey = v\<rparr>"
    using assms by (auto simp: validate_pairing_respond_params_def split: if_splits option.splits)
  have i: "1 \<le> i" "i \<le> 4294967295" using integer_betweenD [OF f(1)] by (auto simp: kUint32Max_def)
  then have "uint (of_int i :: u32) = i"
    by (simp add: uint_word_of_int_eq take_bit_int_eq_self_iff)
  then have "(of_int i :: u32) \<noteq> 0" using i by (metis uint_0_iff not_one_le_zero)
  moreover have "list_all (\<lambda>c. 48 \<le> ord c \<and> ord c \<le> 57) v" using f(3) passkey_digits unfolding list_all_iff by blast
  ultimately show ?thesis using f(2,4) by simp
qed

lemma bond_params_ok:
  assumes "validate_bond_remove_params J params = Some b"
  shows "call_ok (CallBondRemove b)"
proof -
  obtain v where v: "length v = kBondIdHexChars" "is_lower_hex_token (bytes v)"
    "b = put_at kBondIdHexChars [nul] (put_at 0 v (replicate (kBondIdHexChars + 1) nul))"
    using assms by (auto simp: validate_bond_remove_params_def split: if_splits option.splits)
  then have "b = v @ [nul]" by (simp add: put_at_def)
  then show ?thesis using v(1,2) by (simp add: valid_bond_id_def nth_append)
qed

lemma sequence_params_ok:
  "validate_sequence_start_params J params raw = Some code \<Longrightarrow> 0 \<le> i \<Longrightarrow> i \<le> kInt32Max \<Longrightarrow>
     call_ok (CallSequenceStart owner i code)"
  "validate_sequence_status_params J params = Some n \<Longrightarrow> call_ok (CallSequenceStatus owner n)"
  using bounded_stringD integer_betweenD
  by (fastforce simp: validate_sequence_start_params_def validate_sequence_status_params_def split: if_splits)+

section \<open>What a step adds\<close>

text \<open>
  A step keeps the configuration, keeps lines in the caches, and adds calls in range with at most
  \<open>k\<close> calls of providers.
\<close>

definition caches_ok :: "session \<Rightarrow> bool" where
  "caches_ok s \<longleftrightarrow> line_frame (hc_response (hello_cache s))
     \<and> (case retry_cache s of NormalCache c \<Rightarrow> line_frame (rc_response c) | TransitionCache c \<Rightarrow> line_frame (tc_response c))"

definition adds :: "nat \<Rightarrow> cp_call list \<Rightarrow> cp_call list \<Rightarrow> bool" where
  "adds k L M \<longleftrightarrow> (\<exists>ext. M = L @ ext \<and> list_all call_ok ext \<and> length (filter provider_call ext) \<le> k)"

lemma adds_refl [simp]: "adds k L L" by (simp add: adds_def)

lemma adds_trans:
  assumes "adds j L M" "adds k M N"
  shows "adds (j + k) L N"
proof -
  obtain x y where "M = L @ x" "list_all call_ok x" "length (filter provider_call x) \<le> j"
    "N = M @ y" "list_all call_ok y" "length (filter provider_call y) \<le> k"
    using assms by (auto simp: adds_def)
  then show ?thesis by (auto simp: adds_def intro!: exI [of _ "x @ y"])
qed

lemma adds_call: "call_ok c \<Longrightarrow> adds (if provider_call c then 1 else 0) L (L @ [c])"
  by (auto simp: adds_def)

definition moves :: "nat \<Rightarrow> protocol \<Rightarrow> protocol \<Rightarrow> bool" where
  "moves k p q \<longleftrightarrow> cp_config q = cp_config p \<and> cp_initialized q = cp_initialized p
     \<and> (caches_ok (cp_session p) \<longrightarrow> caches_ok (cp_session q) \<and> adds k (cp_calls p) (cp_calls q))"

lemma moves_refl [simp]: "moves k p p" by (simp add: moves_def)

lemma moves_trans: "moves j p q \<Longrightarrow> moves k q r \<Longrightarrow> moves (j + k) p r"
  by (auto simp: moves_def intro: adds_trans)

lemma moves_zero_trans: "moves k p q \<Longrightarrow> moves 0 q r \<Longrightarrow> moves k p r" "moves 0 p q \<Longrightarrow> moves k q r \<Longrightarrow> moves k p r"
  using moves_trans [of k p q 0 r] moves_trans [of 0 p q k r] by simp_all

lemma moves_mono: "moves j p q \<Longrightarrow> j \<le> k \<Longrightarrow> moves k p q"
  using moves_trans [of j p q "k - j" q] by simp

named_theorems moves_rules \<open>steps without calls of providers\<close>

lemma moves_ask: "call_ok c \<Longrightarrow> moves 1 p (snd (ask f c p))"
  using adds_call [of c "cp_calls p"] adds_trans [of 0 "cp_calls p" "cp_calls p @ [c]" 1 "cp_calls p @ [c]"]
  by (auto simp: moves_def ask_def split: if_splits)

lemmas moves_asked = moves_ask moves_ask [unfolded One_nat_def]

lemma moves_plain: "call_ok c \<Longrightarrow> \<not> provider_call c \<Longrightarrow> moves 0 p (snd (ask f c p))"
  using adds_call [of c "cp_calls p"] by (simp add: moves_def ask_def)

lemma moves_notify: "call_ok c \<Longrightarrow> \<not> provider_call c \<Longrightarrow> moves 0 p (notify y c p)"
  using adds_call [of c "cp_calls p"] by (simp add: moves_def notify_def)

lemma moves_epoch [moves_rules]: "moves 0 p (snd (read_epoch e p))"
  by (simp add: read_epoch_def moves_plain)

lemma moves_session: "(caches_ok (cp_session p) \<Longrightarrow> caches_ok (f (cp_session p))) \<Longrightarrow> moves 0 p (on_session f p)"
  by (simp add: moves_def protocol_simps)

lemma moves_set: "(caches_ok (cp_session p) \<Longrightarrow> caches_ok s) \<Longrightarrow> moves 0 p (p\<lparr>cp_session := s\<rparr>)"
  by (simp add: moves_def)

lemma moves_flags [moves_rules]: "moves 0 p (p\<lparr>cp_lease_notified := b\<rparr>)" "moves 0 p (record_served x p)"
  by (simp_all add: moves_def record_served_def)

lemma moves_retire [moves_rules]: "moves 0 p (retire_sequence_owner n p)"
  by (simp add: retire_sequence_owner_def moves_notify)

lemma frame_line: "line_frame f \<Longrightarrow> 0 < resp_length f \<Longrightarrow> response_line (take (resp_length f) (resp_bytes f))"
  unfolding line_frame_def frame_holds_def line_text_def response_line_def by fastforce

lemma moves_write: "line_frame r \<Longrightarrow> moves 0 p (snd (write_frame e r p))"
  by (auto simp: write_frame_def frame_line intro!: moves_plain)

text \<open>A cached frame is a line while the caches hold lines.\<close>

lemma moves_write_cached: "(caches_ok (cp_session p) \<Longrightarrow> line_frame r) \<Longrightarrow> moves 0 p (snd (write_frame e r p))"
  by (cases "caches_ok (cp_session p)") (simp_all add: moves_write, simp add: moves_def protocol_simps)

lemma moves_error: "plain c \<Longrightarrow> plain m \<Longrightarrow> moves 0 p (reply_error e x i c m p)"
  using make_error_line [of empty_response c m x i]
  by (auto simp: reply_error_def Let_def split: prod.split intro!: moves_write)

section \<open>The session keeps lines in its caches\<close>

lemma caches_empty: "line_frame (hc_response empty_hello_cache)" "line_frame (rc_response empty_request_cache)"
  "line_frame (tc_response empty_transition_cache)"
  by (simp_all add: empty_hello_cache_def empty_request_cache_def empty_transition_cache_def)

lemma caches_authority: "caches_ok s \<Longrightarrow> caches_ok (clear_authority s)"
  by (auto simp: caches_ok_def clear_authority_def clear_hello_cache_def clear_normal_cache_def caches_empty
      split: retry_cache.splits)

lemma caches_sessions:
  "caches_ok s \<Longrightarrow> caches_ok (revoke_for_takeover s)"
  "caches_ok s \<Longrightarrow> caches_ok (revoke_for_lifecycle_invalidation epoch s)"
  "caches_ok s \<Longrightarrow> caches_ok (snd (service_lease t s))"
  "caches_ok s \<Longrightarrow> caches_ok (snd (refresh_lease t s))"
  "caches_ok s \<Longrightarrow> caches_ok (clear_transition_retry s)"
  by (auto simp: revoke_for_takeover_def revoke_for_lifecycle_invalidation_def service_lease_def caches_authority,
      auto simp: caches_ok_def refresh_lease_def clear_transition_retry_def caches_empty split: retry_cache.splits)

lemma caches_complete:
  "caches_ok s \<Longrightarrow> line_frame r \<Longrightarrow> caches_ok (cache_completed_request i body epoch r s)"
  "caches_ok s \<Longrightarrow> line_frame r \<Longrightarrow> caches_ok (cache_completed_sensitive_request i n d epoch r s)"
  "caches_ok s \<Longrightarrow> line_frame r \<Longrightarrow> caches_ok (cache_transition_retry token i body r s)"
  by (auto simp: caches_ok_def cache_completed_request_def cache_completed_sensitive_request_def
      cache_transition_retry_def activate_normal_cache_def clear_normal_cache_def Let_def case_prod_unfold
      split: retry_cache.splits)

lemma caches_activate:
  "caches_ok s \<Longrightarrow> line_frame r \<Longrightarrow> caches_ok (snd (activate_hello nonce body token epoch r t s))"
  by (auto simp: caches_ok_def activate_hello_def clear_normal_cache_def Let_def case_prod_unfold caches_empty
      split: retry_cache.splits)

lemma caches_cached:
  "caches_ok s \<Longrightarrow> inspect_hello nonce body epoch s = (x, Some r) \<Longrightarrow> line_frame r"
  "caches_ok s \<Longrightarrow> inspect_transition_retry token i body s = Some r \<Longrightarrow> line_frame r"
  "caches_ok s \<Longrightarrow> inspect sensitive rq digest s = (y, Some r) \<Longrightarrow> line_frame r"
  by (auto simp: caches_ok_def inspect_hello_def inspect_transition_retry_def inspect_def inspect_request_def
      inspect_sensitive_request_def Let_def split: if_splits retry_cache.splits)

section \<open>The commands\<close>

definition outcome_moves :: "protocol \<Rightarrow> outcome \<times> protocol \<Rightarrow> bool" where
  "outcome_moves p r \<longleftrightarrow> moves 1 p (snd r) \<and> (case fst r of Answer f _ _ _ \<Rightarrow> line_frame f | Finished \<Rightarrow> True)"

lemma command_error_line: "plain c \<Longrightarrow> plain m \<Longrightarrow> line_frame (snd (command_error rq c m))"
  by (simp add: command_error_def make_error_line)

lemma outcome_moves_rules:
  "moves 1 p q \<Longrightarrow> line_frame (snd x) \<Longrightarrow> outcome_moves p (valid_answer x, q)"
  "moves 1 p q \<Longrightarrow> plain m \<Longrightarrow> outcome_moves p (invalid_params rq m, q)"
  "moves 1 p q \<Longrightarrow> outcome_moves p (mismatch_answer rq, q)"
  by (simp_all add: outcome_moves_def valid_answer_def invalid_params_def mismatch_answer_def Let_def
      command_error_line make_error_line literal_simps)

lemma moves_accept:
  assumes "moves 1 p q" "line_frame resp"
  shows "outcome_moves p (accept_transition rq e resp q)"
proof -
  define p1 where "p1 = on_session (cache_transition_retry (rq_token rq) (rq_id rq) (rq_payload rq) resp) q"
  define p2 where "p2 = snd (read_epoch e p1)"
  define p3 where "p3 = on_session (revoke_for_lifecycle_invalidation (fst (read_epoch e p1))) p2"
  define p4 where "p4 = retire_sequence_owner (owner_id (cp_session p1)) p3"
  define p5 where "p5 = record_served (Executed (owner_id (cp_session p1)) (rq_token rq) (rq_id rq) (PlainKey (rq_payload rq)) resp)
    (p4\<lparr>cp_lease_notified := False\<rparr>)"
  have "moves 0 q p1" unfolding p1_def by (intro moves_session caches_complete assms)
  moreover have "moves 0 p1 p2" by (simp add: p2_def moves_epoch)
  moreover have "moves 0 p2 p3" unfolding p3_def by (intro moves_session caches_sessions)
  moreover have "moves 0 p3 p4" by (simp add: p4_def moves_retire)
  moreover have "moves 0 p4 p5" unfolding p5_def by (intro moves_zero_trans(1) [OF moves_flags(1) moves_flags(2)])
  moreover have "moves 0 p5 (snd (write_frame e resp p5))" using assms(2) by (rule moves_write)
  ultimately have "moves 1 p (snd (write_frame e resp p5))" using assms(1) moves_zero_trans(1) by blast
  then show ?thesis
    by (simp add: outcome_moves_def accept_transition_def Let_def case_prod_unfold p1_def p2_def p3_def p4_def p5_def)
qed

lemma query_moves:
  assumes "call_ok c" "plain m" "\<And>s. line_frame (snd (print (Some (rq_session rq)) (rq_id rq) s empty_response))"
  shows "outcome_moves p (query rq m f c print p)"
  using assms by (auto simp: query_def case_prod_unfold Let_def intro!: outcome_moves_rules moves_ask)

lemma simple_answer_moves: "plain m \<Longrightarrow> line_frame (snd r) \<Longrightarrow> outcome_moves p (simple_answer rq m r p)"
  by (auto simp: simple_answer_def intro!: outcome_moves_rules)

lemma usb_transition_moves: "outcome_moves p (usb_transition attach rq e p)"
proof (cases "validate_no_params (rq_params rq)")
  case True
  define r where "r = (if attach then ask (en_usb_attach e) CallUsbAttach p else ask (en_usb_detach e) CallUsbDetach p)"
  define a where "a = (if \<not> uo_snapshot_valid (fst r)
      then command_error rq ''INTERNAL_ERROR'' ''USB lifecycle transition snapshot is unavailable''
      else make_usb_exposure_status (Some (rq_session rq)) (rq_id rq) (uo_snapshot (fst r)) empty_response)"
  have m: "moves 1 p (snd r)" by (simp add: r_def moves_asked)
  have l: "line_frame (snd a)" by (simp add: a_def command_error_line make_usb_exposure_line literal_simps)
  have "usb_transition attach rq e p =
      (if uo_result (fst r) = ActBusy
       then (valid_answer (command_error rq ''HID_BUSY'' ''USB lifecycle transition is active''), snd r)
       else if fst a \<and> uo_result (fst r) = ActAccepted then accept_transition rq e (snd a) (snd r)
       else (valid_answer a, snd r))"
    by (simp add: usb_transition_def True case_prod_unfold Let_def flip: r_def a_def)
  then show ?thesis
    using m l moves_accept by (auto simp: command_error_line literal_simps intro!: outcome_moves_rules)
qed (simp add: usb_transition_def outcome_moves_rules literal_simps)

lemma profile_select_moves: "outcome_moves p (profile_select J rq e p)"
  by (auto simp: profile_select_def case_prod_unfold Let_def command_error_line make_profile_status_line literal_simps
      intro!: outcome_moves_rules moves_ask split: option.split)

lemma ble_exposure_moves: "outcome_moves p (ble_exposure enable rq e p)"
  by (cases enable)
    (auto simp: ble_exposure_def case_prod_unfold Let_def command_error_line make_ble_exposure_line literal_simps
      intro!: outcome_moves_rules moves_ask)

lemma pairing_respond_moves: "outcome_moves p (pairing_respond J rq e p)"
proof (cases "validate_pairing_respond_params J (rq_params rq)")
  case (Some r)
  show ?thesis
    unfolding pairing_respond_def Some option.case case_prod_unfold Let_def
    by (intro outcome_moves_rules moves_ask pairing_params_ok [OF Some])
      (simp add: command_error_line make_pairing_respond_line literal_simps split: respond_result.split)
qed (simp add: pairing_respond_def outcome_moves_rules literal_simps)

lemma bond_moves: "outcome_moves p (bond_list rq e p)" "outcome_moves p (bond_remove J rq e p)"
proof -
  show "outcome_moves p (bond_list rq e p)"
    unfolding bond_list_def
    by (intro query_moves) (simp_all add: command_error_line make_bond_list_line literal_simps split: bond_list_kind.split)
  show "outcome_moves p (bond_remove J rq e p)"
  proof (cases "validate_bond_remove_params J (rq_params rq)")
    case (Some b)
    show ?thesis
      unfolding bond_remove_def Some option.case case_prod_unfold Let_def
      by (intro outcome_moves_rules moves_ask bond_params_ok [OF Some])
        (simp add: command_error_line make_bond_remove_line literal_simps split: bond_remove_kind.split)
  qed (simp add: bond_remove_def outcome_moves_rules literal_simps)
qed

lemma route_set_moves: "outcome_moves p (route_set J rq e p)"
proof (cases "validate_route_set_params J (rq_params rq) (rq_route_v2 rq)")
  case (Some d)
  define r where "r = ask (en_route_set e d) (CallRouteSet d) p"
  define a where "a = (if \<not> ro_snapshot_valid (fst r)
      then command_error rq ''INTERNAL_ERROR'' ''HID route snapshot is unavailable''
      else make_versioned_hid_route_status (Some (rq_session rq)) (rq_id rq) (ro_snapshot (fst r)) (rq_route_v2 rq)
        empty_response)"
  have m: "moves 1 p (snd r)" by (simp add: r_def moves_asked)
  have l: "line_frame (snd a)" by (simp add: a_def command_error_line make_versioned_route_line literal_simps)
  have settled: "outcome_moves p (if \<not> ro_snapshot_valid (fst r)
      then (valid_answer (command_error rq ''INTERNAL_ERROR'' ''HID route snapshot is unavailable''), snd r)
      else (let r' = make_versioned_hid_route_status (Some (rq_session rq)) (rq_id rq) (ro_snapshot (fst r))
              (rq_route_v2 rq) empty_response
            in if fst r' \<and> ro_result (fst r) = RaAccepted then accept_transition rq e (snd r') (snd r)
               else (valid_answer r', snd r)))"
    using m l moves_accept outcome_moves_rules by (simp add: a_def Let_def split: if_splits)
  show ?thesis
    using settled m
    by (cases "ro_result (fst r)")
      (simp_all add: route_set_def Some case_prod_unfold Let_def command_error_line literal_simps outcome_moves_rules
        flip: r_def)
qed (simp add: route_set_def outcome_moves_rules literal_simps)

lemma moves_gone: "moves 0 p (snd (authority_gone lost rq e p))"
  by (simp add: authority_gone_def case_prod_unfold Let_def moves_epoch)

lemma moves_optional: "call_ok c \<Longrightarrow> moves 1 p (snd (optional_ask y f c d p))"
  by (simp add: optional_ask_def moves_asked)

lemma release_all_moves: "outcome_moves p (release_all rq e p)"
  by (auto simp: release_all_def case_prod_unfold Let_def command_error_line make_release_line literal_simps
      intro!: outcome_moves_rules moves_zero_trans(1) [OF moves_optional moves_gone])

lemma report_outcome_moves:
  assumes "moves 1 p q" "\<And>x. line_frame (snd (f (Some (rq_session rq)) (rq_id rq) x empty_response))"
    "\<And>x. line_frame (snd (g (Some (rq_session rq)) (rq_id rq) x empty_response))"
  shows "outcome_moves p (report_outcome f g res rq e q)"
  using assms
  by (auto simp: report_outcome_def case_prod_unfold Let_def
      intro!: outcome_moves_rules moves_zero_trans(1) [OF _ moves_gone])

lemma reports_moves:
  assumes "cjson_ok J"
  shows "outcome_moves p (cp_keyboard_report J rq e p)" "outcome_moves p (cp_mouse_report J rq e p)"
  using keyboard_params_ok [OF assms, of "rq_params rq"] mouse_params_ok [of J "rq_params rq"]
  by (auto simp: cp_keyboard_report_def cp_mouse_report_def case_prod_unfold Let_def literal_simps make_report_line
      make_report_error_line simp del: keyboard_request_ok.simps mouse_request_ok.simps
      intro!: outcome_moves_rules report_outcome_moves moves_optional split: option.split)

text \<open>The code of a sequence status has no control characters.\<close>

definition codes_plain :: "cp_env \<Rightarrow> bool" where
  "codes_plain e \<longleftrightarrow> (\<forall>L s. en_sequence_status e L = Some s \<longrightarrow> code_plain s)"

lemma sequence_moves:
  assumes "codes_plain e" "0 \<le> rq_id rq" "rq_id rq \<le> kInt32Max"
  shows "outcome_moves p (sequence_start J rq e p)" "outcome_moves p (sequence_status J rq e p)"
proof -
  show "outcome_moves p (sequence_start J rq e p)"
  proof (cases "validate_sequence_start_params J (rq_params rq) (rq_payload rq)")
    case (Some code)
    define r where "r = ask (en_sequence_start e) (CallSequenceStart (owner_id (cp_session p)) (rq_id rq) code) p"
    have "moves 1 p (snd r)"
      unfolding r_def by (intro moves_ask sequence_params_ok(1) [OF Some assms(2,3)])
    then show ?thesis
      by (cases "fst r")
        (simp_all add: sequence_start_def Some case_prod_unfold Let_def command_error_line make_sequence_start_line
          literal_simps outcome_moves_rules flip: r_def)
  qed (simp add: sequence_start_def outcome_moves_rules literal_simps)
  show "outcome_moves p (sequence_status J rq e p)"
  proof (cases "validate_sequence_status_params J (rq_params rq)")
    case (Some n)
    define r where "r = ask (en_sequence_status e) (CallSequenceStatus (owner_id (cp_session p)) n) p"
    have m: "moves 1 p (snd r)"
      unfolding r_def by (intro moves_ask sequence_params_ok(2) [OF Some])
    have "fst r = Some s \<Longrightarrow> code_plain s" for s using assms(1) by (auto simp: r_def codes_plain_def protocol_simps)
    with m show ?thesis
      by (cases "fst r")
        (simp_all add: sequence_status_def Some case_prod_unfold Let_def command_error_line make_sequence_status_line
          literal_simps outcome_moves_rules flip: r_def)
  qed (simp add: sequence_status_def outcome_moves_rules literal_simps)
qed

lemma unknown_moves: "outcome_moves p (unknown_command rq p)"
  by (simp add: unknown_command_def Let_def outcome_moves_rules literal_simps,
      simp add: outcome_moves_def command_error_line literal_simps)

section \<open>A frame\<close>

definition context_ok :: "cjson \<Rightarrow> cp_env \<Rightarrow> bool" where
  "context_ok J e \<longleftrightarrow> cjson_ok J \<and> codes_plain e"

lemma run_command_moves:
  assumes "context_ok J e" "metadata_ok (cf_metadata (cp_config p))" "0 \<le> rq_id rq" "rq_id rq \<le> kInt32Max"
  shows "outcome_moves p (run_command J command rq e p)"
proof -
  note ctx = assms(1) [unfolded context_ok_def, THEN conjunct1] assms(1) [unfolded context_ok_def, THEN conjunct2]
  note commands = usb_transition_moves profile_select_moves ble_exposure_moves pairing_respond_moves bond_moves
    route_set_moves release_all_moves reports_moves [OF ctx(1)] sequence_moves [OF ctx(2) assms(3,4)] unknown_moves
  have answers:
    "outcome_moves p (simple_answer rq ''system.ping accepts no params''
       (make_ping (Some (rq_session rq)) (rq_id rq) empty_response) p)"
    "outcome_moves p (simple_answer rq ''system.info accepts no params''
       (make_info (Some (rq_session rq)) (rq_id rq) (cf_metadata (cp_config p)) empty_response) p)"
    "outcome_moves p (simple_answer rq ''BLE profile query accepts no params''
       (make_profile_list (Some (rq_session rq)) (rq_id rq) empty_response) p)"
    by (intro simple_answer_moves; simp add: make_ping_line make_info_line make_profile_list_line assms(2) literal_simps)+
  have queries:
    "outcome_moves p (query rq ''usb.status accepts no params'' (en_usb_status e) CallUsbStatus make_usb_status p)"
    "outcome_moves p (query rq ''usb.exposure.status accepts no params'' (en_usb_exposure e) CallUsbExposureStatus
       make_usb_exposure_status p)"
    "outcome_moves p (query rq ''BLE LED query accepts no params'' (en_led e) CallLedStatus make_led_status p)"
    "outcome_moves p (query rq ''BLE profile query accepts no params'' (en_profile e) CallProfileStatus
       make_profile_status p)"
    "outcome_moves p (query rq ''ble.exposure.status accepts no params'' (en_ble_exposure e) CallBleExposureStatus
       make_ble_exposure_status p)"
    "outcome_moves p (query rq ''ble.pairing.status accepts no params'' (en_pairing e) CallPairingStatus
       make_pairing_status p)"
    "outcome_moves p (query rq (if rq_route_v2 rq then ''invalid route'' else ''hid.route.status accepts no params'')
       (en_route_status e) CallRouteStatus
       (\<lambda>session i status. make_versioned_hid_route_status session i status (rq_route_v2 rq)) p)"
    by (intro query_moves; simp add: make_usb_status_line make_usb_exposure_line make_led_line make_profile_status_line
        make_ble_exposure_line make_pairing_line make_versioned_route_line literal_simps)+
  show ?thesis
    unfolding run_command_def Let_def by (simp only: commands answers queries if_split_asm split: if_split) simp
qed

lemma finish_moves:
  assumes "line_frame resp"
  shows "moves 0 p (finish_request sensitive digest rq e resp completed valid cached p)"
proof -
  define p1 where "p1 = (if valid then refresh e p else p)"
  define p2 where "p2 = (if \<not> cached then p1
     else record_served
       (Executed (owner_id (cp_session p1)) (rq_token rq) (rq_id rq)
          (request_key_of sensitive (rq_payload rq) digest) resp)
       (on_session
         (if sensitive
          then cache_completed_sensitive_request (rq_id rq) (length (rq_payload rq)) digest (rq_epoch rq) resp
          else cache_completed_request (rq_id rq) (rq_payload rq) (rq_epoch rq) resp) p1))"
  have p1: "moves 0 p p1" by (simp add: p1_def refresh_def moves_session caches_sessions)
  have "moves 0 p1 p2"
    using assms by (auto simp: p2_def intro!: moves_zero_trans(1) [OF moves_session moves_flags(2)] caches_complete)
  then have p2: "moves 0 p p2" using p1 moves_zero_trans(1) by blast
  have failed: "line_frame (if resp_length resp = 0
      then snd (make_error (Some (rq_session rq)) (Some (rq_id rq)) ''INTERNAL_ERROR'' ''response serialization failed'' resp)
      else resp)"
    using assms by (simp add: make_error_line literal_simps)
  show ?thesis
    using moves_zero_trans(1) [OF p1 moves_write [OF failed]] moves_zero_trans(1) [OF p2 moves_write [OF assms]]
    by (simp add: finish_request_def Let_def flip: p1_def p2_def)
qed

lemma execute_moves:
  assumes "outcome_moves p (run_command J command rq e p)"
  shows "moves 1 p (execute_request J command sensitive digest rq e p)"
proof -
  obtain oc p1 where r: "run_command J command rq e p = (oc, p1)" by fastforce
  show ?thesis
  proof (cases oc)
    case (Answer resp completed valid cached)
    then have "moves 1 p p1" "line_frame resp" using assms r by (simp_all add: outcome_moves_def)
    from moves_zero_trans(1) [OF this(1) finish_moves [OF this(2)]]
    show ?thesis by (simp add: execute_request_def r Answer)
  next
    case Finished
    then show ?thesis using assms by (simp add: execute_request_def r outcome_moves_def)
  qed
qed

lemma serve_fresh_moves:
  fixes command :: string and token body :: "u8 list" and params :: "json option" and v2 :: bool
  assumes ctx: "context_ok J e" "metadata_ok (cf_metadata (cp_config p))" "0 \<le> i" "i \<le> kInt32Max"
  defines "p1 \<equiv> snd (read_epoch e p)"
  defines "sens \<equiv> command = ''ble.pairing.respond''"
  defines "rq \<equiv> served_context token v2 i body params e p"
  shows "moves 0 p (serve_fresh J command v2 token i body params e p)
    \<or> moves 1 p (serve_fresh J command v2 token i body params e p)
       \<and> fst (inspect sens rq (snd (sensitive_digest sens body p1)) (cp_session p1)) = AcceptNew"
proof -
  obtain dok digest where d: "sensitive_digest sens body p1 = (dok, digest)" by fastforce
  obtain res c where ins: "inspect sens rq digest (cp_session p1) = (res, c)" by fastforce
  have s1: "cp_session p1 = cp_session p" "cp_config p1 = cp_config p" by (simp_all add: p1_def protocol_simps)
  note form = serve_fresh_form [OF p1_def [THEN meta_eq_to_obj_eq] sens_def [THEN meta_eq_to_obj_eq]
      rq_def [THEN meta_eq_to_obj_eq] d ins, of J]
  have p1: "moves 0 p p1" by (simp add: p1_def moves_epoch)
  have replay: "moves 0 p1 (snd (write_frame e r (record_served
      (Replayed token i (request_key_of sens body digest) r) (refresh e p1))))" if "c = Some r" for r
  proof -
    have "moves 0 p1 (refresh e p1)" by (simp add: refresh_def moves_session caches_sessions)
    then have a: "moves 0 p1 (record_served (Replayed token i (request_key_of sens body digest) r) (refresh e p1))"
      using moves_flags(2) moves_zero_trans(1) by blast
    have l: "caches_ok (cp_session p1) \<Longrightarrow> line_frame r" using caches_cached(3) ins that by blast
    show ?thesis
    proof (cases "caches_ok (cp_session p1)")
      case True
      show ?thesis by (rule moves_zero_trans(1) [OF a moves_write [OF l [OF True]]])
    qed (simp add: moves_def protocol_simps)
  qed
  have none: "c \<noteq> None" if "res = ExactRetry"
    using ins that by (auto simp: inspect_def inspect_request_def inspect_sensitive_request_def
        split: if_splits retry_cache.splits)
  have "moves 1 p1 (execute_request J command sens digest rq e p1)"
    using ctx by (intro execute_moves run_command_moves) (simp_all add: s1 rq_def served_context_def)
  note run = moves_zero_trans(2) [OF p1 this]
  have quiet: "moves 0 p (serve_fresh J command v2 token i body params e p)" if "\<not> dok \<or> res \<noteq> AcceptNew"
  proof (rule moves_zero_trans(2) [OF p1])
    show "moves 0 p1 (serve_fresh J command v2 token i body params e p)"
      unfolding form using that none replay
      by (cases res; cases c) (auto simp: literal_simps intro!: moves_error)
  qed
  show ?thesis
  proof (cases "\<not> dok \<or> res \<noteq> AcceptNew")
    case False
    then have "serve_fresh J command v2 token i body params e p = execute_request J command sens digest rq e p1"
      unfolding form by (cases c) simp_all
    then show ?thesis using run False ins by (simp add: d)
  qed (simp add: quiet)
qed

text \<open>
  A request that may act: it names the live session, the authority epoch of the session is still
  current, and everything executed for this owner had a smaller id.
\<close>

definition admitted_live :: "u8 list \<Rightarrow> i32 \<Rightarrow> cp_env \<Rightarrow> protocol \<Rightarrow> bool" where
  "admitted_live token i e p \<longleftrightarrow> active_session (cp_session p)
     \<and> take kTokenHexLength (current_session (cp_session p)) = token
     \<and> session_epoch (cp_session p) = en_epoch e (cp_calls p)
     \<and> list_all (before (owner_id (cp_session p)) token i) (cp_served p)"

lemma accepted_admitted:
  fixes e :: cp_env
  assumes inv: "served_inv p"
  defines "p1 \<equiv> snd (read_epoch e p)"
  assumes acc: "fst (inspect sens (served_context token v2 i body params e p)
      (snd (sensitive_digest sens body p1)) (cp_session p1)) = AcceptNew"
  shows "admitted_live token i e p"
proof -
  have p1: "served_inv p1" "cp_session p1 = cp_session p" "cp_served p1 = cp_served p"
    using served_epoch [OF inv] by (simp_all add: p1_def protocol_simps)
  have "length (snd (sensitive_digest sens body p1)) = kDigestBytes"
    by (rule sensitive_digest_length [OF served_invD(3) [OF p1(1)]])
  from inspect_fresh [OF p1(1) this acc] obtain v where v: "abs_live (cp_session p) = Some v"
    "lv_epoch v = en_epoch e (cp_calls p)" "lv_token v = token"
    "list_all (before (lv_owner v) token i) (cp_served p)"
    by (auto simp: fresh_request_def served_context_def session_abs_def p1(2,3))
  then show ?thesis by (auto simp: admitted_live_def abs_live_def split: if_splits)
qed

lemma serve_admitted:
  assumes "context_ok J e" "metadata_ok (cf_metadata (cp_config p))" "0 \<le> i" "i \<le> kInt32Max" "served_inv p"
  shows "moves 0 p (serve_fresh J command v2 token i body params e p)
    \<or> moves 1 p (serve_fresh J command v2 token i body params e p) \<and> admitted_live token i e p"
  using serve_fresh_moves [OF assms(1-4), where command = command and token = token and body = body
      and params = params and ?v2.0 = v2] accepted_admitted [OF assms(5)] by blast

text \<open>A retained transition means that no session is live.\<close>

lemma transition_not_live:
  assumes "served_inv p" "inspect_transition_retry token i body (cp_session p) = Some r"
  shows "\<not> active_session (cp_session p)"
proof
  assume "active_session (cp_session p)"
  then obtain v where "sp_live (session_abs (cp_session p)) = Some v" by (simp add: session_abs_def abs_live_def)
  then have "live_books v (abs_retry (retry_cache (cp_session p))) (next_owner_id (cp_session p)) (cp_served p)"
    using served_invD(5) [OF assms(1)] by (simp add: books_def session_abs_def)
  then show False
    using assms(2) by (auto simp: inspect_transition_retry_def live_books_def split: retry_cache.splits)
qed

lemma replay_moves: "moves 0 p (snd (replay_control_transition_retry e token i body p))"
proof (cases "inspect_transition_retry token i body (cp_session p)")
  case (Some r)
  let ?q = "record_served (Replayed token i (PlainKey body) r) p"
  have "moves 0 p (snd (write_frame e r ?q))" if "caches_ok (cp_session p)"
    using caches_cached(2) [OF that Some] moves_zero_trans(1) [OF moves_flags(2) moves_write] by blast
  then show ?thesis
    by (cases "caches_ok (cp_session p)")
      (simp_all add: replay_control_transition_retry_def Some, simp add: moves_def protocol_simps)
qed (simp add: replay_control_transition_retry_def)

lemma served_by_request:
  fixes token body :: "u8 list"
  assumes "context_ok J e" "metadata_ok (cf_metadata (cp_config p))" "0 \<le> i" "i \<le> kInt32Max" "served_inv p"
  defines "r \<equiv> replay_control_transition_retry e token i body p"
  shows "moves 0 p (serve_fresh J command v2 token i body params e (snd r))
    \<or> moves 1 p (serve_fresh J command v2 token i body params e (snd r)) \<and> admitted_live token i e p"
proof (cases "inspect_transition_retry token i body (cp_session p)")
  case None
  then show ?thesis using serve_admitted [OF assms(1-5)] by (simp add: r_def replay_control_transition_retry_def)
next
  case (Some x)
  have same: "cp_session (snd r) = cp_session p" "cp_config (snd r) = cp_config p"
    by (simp_all add: r_def replay_control_transition_retry_def Some protocol_simps)
  have "served_inv (snd r)" unfolding r_def by (rule replay_transition_served [OF assms(5)])
  from serve_admitted [OF assms(1) _ assms(3,4) this, where command = command and ?v2.0 = v2 and token = token
      and body = body and params = params]
  have "moves 0 (snd r) (serve_fresh J command v2 token i body params e (snd r))"
    using transition_not_live [OF assms(5) Some] assms(2) by (auto simp: same admitted_live_def)
  moreover have "moves 0 p (snd r)" by (simp add: r_def replay_moves)
  ultimately show ?thesis using moves_zero_trans(1) by blast
qed

lemma handle_request_moves:
  assumes "context_ok J e" "metadata_ok (cf_metadata (cp_config p))" "0 \<le> i" "i \<le> kInt32Max" "served_inv p"
  shows "moves 0 p (handle_request J req body i command e p)
    \<or> moves 1 p (handle_request J req body i command e p)
       \<and> (case get_bounded_nonempty_string J (Some req) ''session'' kTokenHexLength of
            None \<Rightarrow> False | Some token \<Rightarrow> admitted_live (bytes token) i e p)"
proof (cases "object_has_only_fields (Some req) [''v'', ''id'', ''session'', ''cmd'', ''params'']")
  case fields: True
  show ?thesis
  proof (cases "get_bounded_nonempty_string J (Some req) ''session'' kTokenHexLength")
    case (Some session)
    define params where "params = get_item J (Some req) ''params''"
    obtain cmd v2 where c: "plain_command command = (cmd, v2)" by fastforce
    define r where "r = replay_control_transition_retry e (bytes session) i body p"
    have form: "handle_request J req body i command e p =
        (if \<not> is_lower_hex_token (bytes session) then
           reply_error e None (Some i) ''INVALID_REQUEST'' ''session must be 32 lowercase hex characters'' p
         else if params \<noteq> None \<and> \<not> is_object params then
           reply_error e None (Some i) ''INVALID_PARAMS'' ''params must be an object'' p
         else if is_transition_command cmd
         then (if fst r then snd r else serve_fresh J cmd v2 (bytes session) i body params e (snd r))
         else serve_fresh J cmd v2 (bytes session) i body params e p)"
      by (simp add: handle_request_def fields Some Let_def c case_prod_unfold flip: params_def r_def)
    have replayed: "moves 0 p (snd r)" by (simp add: r_def replay_moves)
    show ?thesis
      unfolding form
      using replayed served_by_request [OF assms, where token = "bytes session" and body = body and command = cmd
          and ?v2.0 = v2 and params = params, folded r_def]
        serve_admitted [OF assms, where token = "bytes session" and body = body and command = cmd
          and ?v2.0 = v2 and params = params]
        moves_error [of "''INVALID_REQUEST''" "''session must be 32 lowercase hex characters''"]
        moves_error [of "''INVALID_PARAMS''" "''params must be an object''"]
      by (cases "params = None") (simp_all add: Some literal_simps)
  qed (simp add: handle_request_def fields moves_error literal_simps)
qed (simp add: handle_request_def moves_error literal_simps)

lemma open_session_moves:
  assumes "metadata_ok (cf_metadata (cp_config p))"
  shows "moves 0 p (open_session body nonce epoch i e p)"
proof -
  define token where "token = generate_token (Some (en_random e (cp_calls p))) empty_token"
  obtain ok resp where mh: "make_hello (Some (take kTokenHexLength token)) i (cf_metadata (cp_config p)) nonce
      (boot_id (cp_session p)) token empty_response = (ok, resp)" by fastforce
  obtain act s where ac: "activate_hello (bytes nonce) body token epoch resp (en_clock e (cp_calls p)) (cp_session p)
      = (act, s)" by fastforce
  have line: "line_frame resp"
    using make_hello_line [OF line_frame_empty assms, of "Some (take kTokenHexLength token)" i nonce
        "boot_id (cp_session p)" token] by (simp add: mh)
  have failed: "line_frame (snd (make_error None (Some i) ''INTERNAL_ERROR'' ''response serialization failed'' resp))"
    "line_frame (snd (make_error None (Some i) ''INTERNAL_ERROR'' ''local owner identity exhausted'' resp))"
    by (simp_all add: make_error_line line literal_simps)
  have s: "moves 0 p (p\<lparr>cp_session := s\<rparr>)"
    using caches_activate [OF _ line, of "cp_session p" "bytes nonce" body token epoch "en_clock e (cp_calls p)"]
    by (intro moves_set) (simp add: ac)
  have "moves 0 (p\<lparr>cp_session := s\<rparr>) ((on_session clear_transition_retry (p\<lparr>cp_session := s\<rparr>))\<lparr>cp_lease_notified := False\<rparr>)"
    by (rule moves_zero_trans(1) [OF moves_session moves_flags(1)]) (rule caches_sessions)
  from moves_zero_trans(1) [OF moves_zero_trans(1) [OF s this] moves_write [OF line]]
    moves_zero_trans(1) [OF s moves_write [OF failed(2)]] moves_write [OF failed(1)]
  show ?thesis by (simp add: open_session_def Let_def ac mh flip: token_def)
qed

lemma retire_for_hello_moves: "moves 0 p (retire_for_hello epoch p)"
proof -
  have "moves 0 p (retire_sequence_owner n (on_session revoke_for_takeover p))" for n
    by (rule moves_zero_trans(1) [OF moves_session moves_retire]) (rule caches_sessions)
  then show ?thesis
    by (auto simp: retire_for_hello_def Let_def intro: moves_zero_trans(1) [OF _ moves_notify])
qed

lemma handle_hello_moves:
  assumes "metadata_ok (cf_metadata (cp_config p))"
  shows "moves 0 p (handle_hello J req body i e p)"
proof -
  define p1 where "p1 = snd (read_epoch e p)"
  have ep: "read_epoch e p = (en_epoch e (cp_calls p), p1)" by (simp add: p1_def prod_eq_iff protocol_simps)
  have p1: "moves 0 p p1" by (simp add: p1_def moves_epoch)
  have hello: "moves 0 p (open_session body nonce epoch i e (retire_for_hello epoch p1))" for nonce epoch
  proof -
    have "cp_config (retire_for_hello epoch p1) = cp_config p"
      by (simp add: retire_for_hello_fields p1_def protocol_simps)
    then have "moves 0 (retire_for_hello epoch p1) (open_session body nonce epoch i e (retire_for_hello epoch p1))"
      using assms by (intro open_session_moves) simp
    then show ?thesis using p1 retire_for_hello_moves moves_zero_trans(1) by blast
  qed
  have cached: "moves 0 p (snd (write_frame e r (refresh e p1)))"
    if "inspect_hello n body x (cp_session p1) = (y, Some r)" for n x y r
  proof (cases "caches_ok (cp_session p1)")
    case True
    have "moves 0 p1 (refresh e p1)" by (simp add: refresh_def moves_session caches_sessions)
    from moves_zero_trans(1) [OF moves_zero_trans(1) [OF p1 this] moves_write [OF caches_cached(1) [OF True that]]]
    show ?thesis .
  qed (simp add: moves_def protocol_simps p1_def)
  have err: "moves 0 p (reply_error e x y c m p1)" if "plain c" "plain m" for x y c m
    using p1 moves_error [OF that] moves_zero_trans(1) by blast
  show ?thesis
  proof (cases "object_has_only_fields (Some req) [''v'', ''id'', ''cmd'', ''params'']")
    case True
    show ?thesis
    proof (cases "validate_hello_params J (get_item J (Some req) ''params'')")
      case (Some nonce)
      obtain h c where ih: "inspect_hello (bytes nonce) body (en_epoch e (cp_calls p)) (cp_session p1) = (h, c)" by fastforce
      show ?thesis
        using hello [of nonce "en_epoch e (cp_calls p)"] cached [of "bytes nonce" "en_epoch e (cp_calls p)" h]
        by (cases h; cases c) (simp_all add: handle_hello_def True Some ep ih err literal_simps)
    qed (simp add: handle_hello_def True moves_error literal_simps)
  qed (simp add: handle_hello_def moves_error literal_simps)
qed

text \<open>The request of a frame, when it is one that may act.\<close>

definition request_admitted :: "cjson \<Rightarrow> u8 list \<Rightarrow> cp_env \<Rightarrow> protocol \<Rightarrow> bool" where
  "request_admitted J body e p \<longleftrightarrow>
     (case cj_parse J body of None \<Rightarrow> False | Some req \<Rightarrow>
       (case (parse_id J (Some req), get_bounded_nonempty_string J (Some req) ''session'' kTokenHexLength) of
          (Some i, Some token) \<Rightarrow> admitted_live (bytes token) i e p
        | _ \<Rightarrow> False))"

lemma handle_frame_moves:
  assumes ctx: "context_ok J e" "metadata_ok (cf_metadata (cp_config p))" "served_inv p"
  shows "moves 0 p (handle_frame J body e p) \<or> moves 1 p (handle_frame J body e p) \<and> request_admitted J body e p"
proof (cases "length body \<le> kMaxRequestBytes \<and> 0 \<notin> set body")
  case True
  show ?thesis
  proof (cases "cj_parse J body")
    case (Some req)
    have frame: "handle_frame J body e p = handle_tree J req body e p" using True by (simp add: handle_frame_def Some)
    show ?thesis
    proof (cases "parse_id J (Some req)")
      case None
      then show ?thesis unfolding frame handle_tree_def by (simp add: moves_error literal_simps)
    next
      case (Some i)
      have i: "0 \<le> i" "i \<le> kInt32Max" using integer_betweenD [of 0 kInt32Max _ i] Some by (auto simp: parse_id_def)
      have adm: "request_admitted J body e p =
          (case get_bounded_nonempty_string J (Some req) ''session'' kTokenHexLength of
             None \<Rightarrow> False | Some token \<Rightarrow> admitted_live (bytes token) i e p)"
        using \<open>cj_parse J body = Some req\<close> Some by (simp add: request_admitted_def split: option.split)
      have err: "moves 0 p (reply_error e x y c m p)" if "plain c" "plain m" for x y c m
        using that by (rule moves_error)
      show ?thesis
      proof (cases "get_bounded_nonempty_string J (Some req) ''cmd'' kMaxCommandBytes")
        case None
        then show ?thesis unfolding frame handle_tree_def Some Let_def by (simp add: err literal_simps)
      next
        case cmd: (Some command)
        show ?thesis
          unfolding frame handle_tree_def Some Let_def adm cmd option.case
          using handle_request_moves [OF ctx(1,2) i ctx(3), of req body command] handle_hello_moves [OF ctx(2)]
          by (simp add: err literal_simps)
      qed
    qed
  qed (use True in \<open>simp add: handle_frame_def moves_error literal_simps\<close>)
qed (auto simp: handle_frame_def moves_error literal_simps)

section \<open>Runs\<close>

definition protocol_inv :: "protocol \<Rightarrow> bool" where
  "protocol_inv p \<longleftrightarrow> served_inv p \<and> caches_ok (cp_session p) \<and> list_all call_ok (cp_calls p)
     \<and> (cp_initialized p \<longrightarrow> metadata_ok (cf_metadata (cp_config p)))"

lemma moves_inv: "moves k p q \<Longrightarrow> served_inv q \<Longrightarrow> protocol_inv p \<Longrightarrow> protocol_inv q"
  by (auto simp: protocol_inv_def moves_def adds_def)

lemma invalidation_moves: "moves 0 p (on_hid_lifecycle_invalidation e p)"
proof (cases "cp_initialized p")
  case True
  define p1 where "p1 = snd (read_epoch e p)"
  define p2 where "p2 = on_session (revoke_for_lifecycle_invalidation (fst (read_epoch e p))) p1"
  have "moves 0 p p2"
    unfolding p1_def p2_def by (rule moves_zero_trans(1) [OF moves_epoch moves_session]) (rule caches_sessions)
  then have "moves 0 p (retire_sequence_owner n p2)" "moves 0 p p2" for n
    using moves_zero_trans(1) moves_retire by blast+
  then show ?thesis
    by (auto simp: on_hid_lifecycle_invalidation_def True Let_def case_prod_unfold simp flip: p1_def p2_def
        intro!: moves_zero_trans(1) [OF _ moves_flags(1)])
qed (simp add: on_hid_lifecycle_invalidation_def)

lemma safety_failure_moves: "moves 0 p (on_hid_safety_failure owner p)"
proof (cases "cp_initialized p")
  case True
  define settle where "settle q = (retire_sequence_owner owner q)\<lparr>cp_lease_notified := False\<rparr>" for q
  have s: "moves 0 p (settle q)" if "moves 0 p q" for q
    unfolding settle_def using that moves_retire moves_flags(1) moves_zero_trans(1) by blast
  have n: "moves 0 p (notify ESafetyFailure CallSafetyFailure (settle q))" if "moves 0 p q" for q
    by (rule moves_zero_trans(1) [OF s [OF that] moves_notify]) simp_all
  have "moves 0 p (on_session revoke_for_takeover p)" by (intro moves_session caches_sessions)
  then show ?thesis using s n by (simp add: on_hid_safety_failure_def True Let_def flip: settle_def)
qed (simp add: on_hid_safety_failure_def)

lemma service_moves: "moves 0 p (protocol_service e p)"
proof (cases "cp_initialized p")
  case True
  define p1 where "p1 = on_hid_lifecycle_invalidation e p"
  define r where "r = service_lease (en_clock e (cp_calls p1)) (cp_session p1)"
  have p2: "moves 0 p (p1\<lparr>cp_session := snd r\<rparr>)"
    using invalidation_moves by (auto simp: p1_def r_def intro!: moves_zero_trans(1) [OF _ moves_set] caches_sessions)
  then have p3: "moves 0 p (retire_sequence_owner n (p1\<lparr>cp_session := snd r\<rparr>))" for n
    using moves_zero_trans(1) moves_retire by blast
  have "moves 0 p (notify ELeaseExpired CallLeaseExpired
      ((retire_sequence_owner n (p1\<lparr>cp_session := snd r\<rparr>))\<lparr>cp_lease_notified := True\<rparr>))" for n
    by (rule moves_zero_trans(1) [OF moves_zero_trans(1) [OF p3 moves_flags(1)] moves_notify]) simp_all
  then show ?thesis
    using p2 p3 by (simp add: protocol_service_def True Let_def case_prod_unfold flip: p1_def r_def)
qed (simp add: protocol_service_def)

lemma step_moves:
  assumes "context_ok J e" "protocol_inv p"
  shows "\<exists>k. moves k p (protocol_step J e p ev)"
proof (cases ev)
  case (PeFraming f)
  have frame: "\<exists>k. moves k p (handle_frame J body e p)" if "cp_initialized p" for body
    using handle_frame_moves [OF assms(1), of p body] assms(2) that by (auto simp: protocol_inv_def)
  then show ?thesis
    using moves_error [of "''LINE_TOO_LONG''" "''request line exceeds 512 bytes''"] moves_refl
    by (cases "event.kind f") (auto simp: PeFraming handle_framing_event_def literal_simps intro: exI [of _ 0])
qed (auto intro: invalidation_moves safety_failure_moves service_moves)

lemma start_inv:
  assumes "env_ok e" "hmac_option_sized hmac"
  shows "protocol_inv (protocol_start config random fill hmac e)"
proof -
  have z: "caches_ok (cp_session (protocol_zero config))" "cp_calls (protocol_zero config) = []"
    "\<not> cp_initialized (protocol_zero config)"
    by (simp_all add: protocol_zero_def session_zero_def caches_ok_def caches_empty)
  have i: "caches_ok s \<Longrightarrow> caches_ok (clear_transition_retry (session_initialize r c s))" for r c s
    by (auto simp: caches_ok_def session_initialize_def clear_transition_retry_def clear_normal_cache_def
        clear_hello_cache_def Let_def caches_empty split: retry_cache.splits)
  have "caches_ok (cp_session (protocol_start config random fill hmac e))
      \<and> cp_calls (protocol_start config random fill hmac e) = []
      \<and> (cp_initialized (protocol_start config random fill hmac e)
           \<longrightarrow> metadata_ok (cf_metadata (cp_config (protocol_start config random fill hmac e))))"
    using z i
    by (simp add: protocol_start_def protocol_initialize_def Let_def case_prod_unfold protocol_simps metadata_ok_def)
  then show ?thesis using start_served [OF assms] by (simp add: protocol_inv_def)
qed

interpretation call_machine: machine "protocol_step J e" "protocol_start config random fill hmac e"
  "\<lambda>p. context_ok J e \<and> env_ok e \<and> hmac_option_sized hmac \<longrightarrow> protocol_inv p"
proof unfold_locales
  show "context_ok J e \<and> env_ok e \<and> hmac_option_sized hmac \<longrightarrow> protocol_inv (protocol_start config random fill hmac e)"
    by (simp add: start_inv)
next
  fix p ev
  assume "context_ok J e \<and> env_ok e \<and> hmac_option_sized hmac \<longrightarrow> protocol_inv p"
  then show "context_ok J e \<and> env_ok e \<and> hmac_option_sized hmac \<longrightarrow> protocol_inv (protocol_step J e p ev)"
    using step_moves [of J e p ev] moves_inv protocol_step_served [of e p J ev] by (auto simp: protocol_inv_def)
qed

section \<open>Properties\<close>

text \<open>A firmware in which every transition is accepted and publishes a new epoch.\<close>

definition sample_env :: cp_env where
  "sample_env =
     (let usb = \<lparr>ue_desired = UeHidden, ue_observed = UeDisconnected, ue_generation = 1, ue_mounted = False,
            ue_suspended = False, ue_keyboard_ready = False, ue_mouse_ready = False, ue_safety_pending = False,
            ue_host_release_uncertain = False, ue_recovery_required = False,
            ue_last_error = \<lparr>ue_present = False, ue_operation = UeInstall, ue_code = 0\<rparr>\<rparr>;
          ble = \<lparr>be_desired = BeHidden, be_observed = BeIdle, be_generation = 1, be_stack_ready = True,
            be_advertising = False, be_connected = False, be_recovery_required = False,
            be_last_error = \<lparr>be_present = False, be_operation = BeEnable, be_code = 0\<rparr>\<rparr>;
          route = \<lparr>rs_desired = CpNone, rs_active = CpNone, rs_generation = 1, rs_transition = CpStable, rs_ready = False\<rparr>;
          profile = \<lparr>sel_selected = PidStrictComposite, sel_active = PidStrictComposite, sel_active_present = True,
            sel_transition = SelStable\<rparr>
      in \<lparr>en_output = \<lambda>L. True, en_epoch = \<lambda>L. of_nat (length L), en_clock = \<lambda>L. of_nat (length L),
           en_random = \<lambda>L. replicate 16 7,
           en_usb_status = \<lambda>L. \<lparr>us_mounted = False, us_suspended = False, us_keyboard_ready = False, us_mouse_ready = False\<rparr>,
           en_usb_exposure = \<lambda>L. usb,
           en_usb_attach = \<lambda>L. \<lparr>uo_result = ActAccepted, uo_snapshot_valid = True, uo_snapshot = usb\<rparr>,
           en_usb_detach = \<lambda>L. \<lparr>uo_result = ActAccepted, uo_snapshot_valid = True, uo_snapshot = usb\<rparr>,
           en_route_status = \<lambda>L. route,
           en_route_set = \<lambda>r L. \<lparr>ro_result = RaAccepted, ro_snapshot_valid = True, ro_snapshot = route\<rparr>,
           en_release_all = \<lambda>L. no_release, en_keyboard = \<lambda>L. no_report, en_mouse = \<lambda>L. no_report,
           en_sequence_start = \<lambda>L. SaAccepted, en_sequence_status = \<lambda>L. None,
           en_led = \<lambda>L. \<lparr>led_supported = False, led_valid = False, led_leds = 0\<rparr>, en_profile = \<lambda>L. profile,
           en_profile_select = \<lambda>L. \<lparr>so_result = SelNoOp, so_snapshot = profile\<rparr>,
           en_ble_exposure = \<lambda>L. ble,
           en_ble_enable = \<lambda>L. \<lparr>bo_result = BaNoOp, bo_snapshot_valid = True, bo_snapshot = ble\<rparr>,
           en_ble_disable = \<lambda>L. \<lparr>bo_result = BaNoOp, bo_snapshot_valid = True, bo_snapshot = ble\<rparr>,
           en_pairing = \<lambda>L. \<lparr>pa_available = True, pa_state = PsIdle, pa_generation = 0, pa_connected = False,
             pa_input_pending = False, pa_pairing_id = 0, pa_remaining_ms = 0, pa_encrypted = False,
             pa_authenticated = False, pa_bonded = False, pa_secure_connections = False, pa_key_size = 0,
             pa_last_result = PrNone\<rparr>,
           en_pairing_respond = \<lambda>L. RrNotPending,
           en_bond_list = \<lambda>L. \<lparr>bl_kind = BlNotReady, bl_bonds = [], bl_count = 0, bl_available = 3, bl_healthy = True\<rparr>,
           en_bond_remove = \<lambda>L. \<lparr>br_kind = BrNotReady, br_bond_id = [], br_remaining = 0\<rparr>\<rparr>)"

lemma sample_env_ok: "env_ok sample_env" "codes_plain sample_env"
proof -
  have "(of_nat (length L + 2) :: u32) \<noteq> of_nat (length L)" for L :: "cp_call list" by simp
  then show "env_ok sample_env" unfolding env_ok_def sample_env_def Let_def by simp
  show "codes_plain sample_env" by (simp add: codes_plain_def sample_env_def Let_def)
qed

text \<open>A library whose parser accepts one text, a tree without members.\<close>

definition sample_cjson :: cjson where
  "sample_cjson =
     \<lparr>cj_parse = \<lambda>b. if b = bytes ''{}'' then Some (JObject []) else None,
      cj_find = \<lambda>x n. (case x of
        JObject ms \<Rightarrow> (if list_ex (\<lambda>m. c_string (fst m) = n) ms
          then Some (length (takeWhile (\<lambda>m. c_string (fst m) \<noteq> n) ms)) else None)
      | _ \<Rightarrow> None),
      cj_size = \<lambda>x. int (length (children x))\<rparr>"

lemma sample_cjson_ok: "cjson_ok sample_cjson"
  by (auto simp: cjson_ok_def sample_cjson_def list_ex_iff)

definition sample_config :: protocol_config where
  "sample_config = \<lparr>cf_present = \<lambda>x. True, cf_metadata = \<lparr>md_project = Some ''hidbot'', md_target = Some ''esp32s3'',
     md_idf_version = Some ''v5'', md_identity = None\<rparr>\<rparr>"

definition sample_start :: protocol where
  "sample_start =
     protocol_start sample_config True (Some (\<lambda>k. (True, k))) (Some (\<lambda>k m out. (True, out))) sample_env"

definition sample_events :: "protocol_event list" where
  "sample_events = [PeService, PeFraming (Event Frame (bytes ''{}'')), PeInvalidation, PeSafetyFailure 3]"



text \<open>
  C6: On every run, every call the protocol makes is in the range its receiver expects. What is
  written is one response line of fewer than 1024 bytes: the frame prefix, an object without control
  characters, one line feed at the end. Keyboard requests hold at most six ascending allowed usages
  and zeros, mouse requests bounded movements, passkeys six digits with a pairing id other than zero,
  bond and sequence identifiers and codes their documented form. The library finds the first member
  of a name and counts the children, and the codes of sequence states have no control characters.
\<close>

theorem calls_typed:
  assumes "cjson_ok J" "codes_plain e" "env_ok e" "hmac_option_sized hmac"
  shows "list_all call_ok (cp_calls (foldl (protocol_step J e) (protocol_start config random fill hmac e) evs))"
  using call_machine.inv_reach [of J e hmac config random fill evs] assms
  by (simp add: context_ok_def protocol_inv_def)

lemma calls_typed_witness:
  "list_all call_ok (cp_calls (foldl (protocol_step sample_cjson sample_env) sample_start sample_events))"
  unfolding sample_start_def
  by (rule calls_typed) (simp_all add: sample_env_ok sample_cjson_ok hmac_option_sized_def)


lemma sample_initialized: "cp_initialized sample_start"
proof -
  have "list_all (cf_present sample_config) required_entries" by (simp add: sample_config_def required_entries_def)
  moreover have "is_safe_metadata_string (Some ''hidbot'')" "is_safe_metadata_string (Some ''esp32s3'')"
    "is_safe_metadata_string (Some ''v5'')"
    by (simp_all add: is_safe_metadata_string_def kMaxMetadataBytes_def c_string_def nul_def)
  ultimately show ?thesis
    by (simp add: sample_start_def protocol_start_def protocol_initialize_def Let_def sample_config_def
        identity_initialize_def)
qed


end
