(* ===== verification/UartTransport.thy ===== *)
theory UartTransport
  imports ProtocolCalls
begin

text \<open>
  \<open>uart_control_transport\<close>: the task that reads the console UART and drives the framing layer and
  the protocol, and the two notifications other tasks and callbacks post to it. The receive task is
  cut into the pieces between which the other tasks may run: an access to the atomic flag, a critical
  section, an operation of the protocol, which only this task calls. \<open>ua_todo\<close> holds the pieces left of the
  current pass of its loop. \<open>ua_read\<close> and \<open>ua_fed\<close> are histories that no operation reads: the bytes
  given to the framing layer and the operations of the protocol.
\<close>

section \<open>A deferred failure\<close>

record deferred_failure =
  df_owner :: u64
  df_pending :: bool

definition no_failure :: deferred_failure where
  "no_failure = \<lparr>df_owner = 0, df_pending = False\<rparr>"

definition deferred_publish :: "u64 \<Rightarrow> u64 \<Rightarrow> deferred_failure \<Rightarrow> deferred_failure" where
  "deferred_publish source current d =
     (if \<not> df_pending d \<or> df_owner d = source \<or> source \<noteq> 0 \<and> source = current
      then d\<lparr>df_owner := source, df_pending := True\<rparr> else d)"

definition deferred_take :: "deferred_failure \<Rightarrow> (bool \<times> u64) \<times> deferred_failure" where
  "deferred_take d =
     (if \<not> df_pending d then ((False, 0), d) else ((True, df_owner d), d\<lparr>df_owner := 0, df_pending := False\<rparr>))"

definition discard_if_not_current :: "u64 \<Rightarrow> deferred_failure \<Rightarrow> deferred_failure" where
  "discard_if_not_current current d =
     (if df_pending d \<and> df_owner d \<noteq> current then d\<lparr>df_owner := 0, df_pending := False\<rparr> else d)"

section \<open>Writing a frame\<close>

definition kMaxLogicalMachineFrameBytes :: nat where "kMaxLogicalMachineFrameBytes = 1023"

text \<open>The results of \<open>fflush\<close> and \<open>fileno\<close>, and of \<open>write\<close> as a function of the length.\<close>

definition write_machine :: "bool \<Rightarrow> int \<Rightarrow> (nat \<Rightarrow> int) \<Rightarrow> u8 list \<Rightarrow> bool" where
  "write_machine flushed fd write_call data =
     (if data = [] \<or> length data > kMaxLogicalMachineFrameBytes then False
      else
        (let written = (if flushed \<and> fd \<ge> 0 then write_call (length data) else - 1)
         in written = int (length data)))"

section \<open>The receive task\<close>

datatype rx_piece =
    RxPending | RxTake | RxInvalidate | RxPublish | RxDiscard | RxFailure u64 | RxService
  | RxConsume "u8 list" | RxEvent event

record uart =
  ua_transport :: transport
  ua_protocol :: protocol
  ua_invalidation :: bool
  ua_owner :: u64
  ua_failure :: deferred_failure
  ua_started :: bool
  ua_todo :: "rx_piece list"
  ua_read :: "u8 list"
  ua_fed :: "protocol_event list"

definition publish_current_local_owner :: "uart \<Rightarrow> uart" where
  "publish_current_local_owner u = u\<lparr>ua_owner := protocol_owner_id (ua_protocol u)\<rparr>"

definition feed :: "cjson \<Rightarrow> cp_env \<Rightarrow> protocol_event \<Rightarrow> uart \<Rightarrow> uart" where
  "feed J e ev u = u\<lparr>ua_protocol := protocol_step J e (ua_protocol u) ev, ua_fed := ua_fed u @ [ev]\<rparr>"

text \<open>The pieces of one pass: notifications, service, then the bytes, if any, and notifications again.\<close>

definition rx_pass :: "u8 list \<Rightarrow> rx_piece list" where
  "rx_pass buffer = [RxPending, RxService, RxPublish] @ (if buffer = [] then [] else [RxConsume buffer, RxPending])"

fun rx_run :: "cjson \<Rightarrow> cp_env \<Rightarrow> rx_piece \<Rightarrow> uart \<Rightarrow> rx_piece list \<times> uart" where
  "rx_run J e RxPending u =
     (if ua_invalidation u then ([RxInvalidate, RxPublish, RxDiscard], u\<lparr>ua_invalidation := False\<rparr>)
      else ([RxTake], u))"
| "rx_run J e RxTake u =
     (let ((pending, owner), d) = deferred_take (ua_failure u)
      in (if pending then [RxFailure owner, RxPublish] else [], u\<lparr>ua_failure := d\<rparr>))"
| "rx_run J e RxInvalidate u = ([], feed J e PeInvalidation u)"
| "rx_run J e RxPublish u = ([], publish_current_local_owner u)"
| "rx_run J e RxDiscard u = ([], u\<lparr>ua_failure := discard_if_not_current (ua_owner u) (ua_failure u)\<rparr>)"
| "rx_run J e (RxFailure owner) u = ([], feed J e (PeSafetyFailure owner) u)"
| "rx_run J e RxService u = ([], feed J e PeService u)"
| "rx_run J e (RxConsume buffer) u =
     (let (t, evs) = consume (ua_transport u) (Some buffer)
      in (concat (map (\<lambda>ev. [RxEvent ev, RxPublish]) evs),
          u\<lparr>ua_transport := t, ua_read := ua_read u @ buffer\<rparr>))"
| "rx_run J e (RxEvent ev) u = ([], feed J e (PeFraming ev) u)"

text \<open>
  One step of the task: at the head of the loop it reads, \<open>got\<close> being the bytes \<open>uart_read_bytes\<close>
  delivers, otherwise it runs the next piece.
\<close>

definition rx_step :: "cjson \<Rightarrow> cp_env \<Rightarrow> u8 list \<Rightarrow> uart \<Rightarrow> uart" where
  "rx_step J e got u =
     (case ua_todo u of
        [] \<Rightarrow> u\<lparr>ua_todo := rx_pass got\<rparr>
      | x # rest \<Rightarrow> (let (pieces, v) = rx_run J e x u in v\<lparr>ua_todo := pieces @ rest\<rparr>))"

text \<open>The notifications of the other tasks.\<close>

definition uart_on_lifecycle_invalidation :: "uart \<Rightarrow> uart" where
  "uart_on_lifecycle_invalidation u = (if ua_started u then u\<lparr>ua_invalidation := True\<rparr> else u)"

definition uart_on_safety_failure :: "u64 \<Rightarrow> uart \<Rightarrow> uart" where
  "uart_on_safety_failure source u =
     (if ua_started u then u\<lparr>ua_failure := deferred_publish source (ua_owner u) (ua_failure u)\<rparr> else u)"

datatype uart_event = UaRx "u8 list" | UaInvalidation | UaFailure u64 | UaStarted

fun uart_step :: "cjson \<Rightarrow> cp_env \<Rightarrow> uart \<Rightarrow> uart_event \<Rightarrow> uart" where
  "uart_step J e u (UaRx got) = rx_step J e got u"
| "uart_step J e u UaInvalidation = uart_on_lifecycle_invalidation u"
| "uart_step J e u (UaFailure owner) = uart_on_safety_failure owner u"
| "uart_step J e u UaStarted = u\<lparr>ua_started := True\<rparr>"

section \<open>Start\<close>

datatype start_result = StartOk | StartInvalidArg | StartNoMem | StartDriver i32

definition uart_zero :: uart where
  "uart_zero = \<lparr>ua_transport = transport_init,
     ua_protocol = protocol_zero \<lparr>cf_present = \<lambda>x. False, cf_metadata =
       \<lparr>md_project = None, md_target = None, md_idf_version = None, md_identity = None\<rparr>\<rparr>,
     ua_invalidation = False, ua_owner = 0, ua_failure = no_failure, ua_started = False,
     ua_todo = [], ua_read = [], ua_fed = []\<rparr>"

text \<open>
  Output and clock of the configuration become the transport's own. \<open>installed\<close>, \<open>driver\<close> and
  \<open>created\<close> are the answers of ESP-IDF and FreeRTOS; the flag \<open>s_started\<close> is set last, when the task
  may already run, by the event \<open>UaStarted\<close>.
\<close>

definition uart_start ::
  "protocol_config option \<Rightarrow> random_fill \<Rightarrow> hmac_sha256 \<Rightarrow> cp_env \<Rightarrow> bool \<Rightarrow> i32 \<Rightarrow> bool \<Rightarrow> uart \<Rightarrow> start_result \<times> uart" where
  "uart_start config fill hmac e installed driver created u =
     (if ua_started u then (StartOk, u)
      else case config of None \<Rightarrow> (StartInvalidArg, u)
      | Some c \<Rightarrow>
          (let configured = c\<lparr>cf_present := (cf_present c)(EOutput := True, ENow := True)\<rparr>;
               (ok, p) = protocol_initialize configured True (Some fill) (Some hmac) e (ua_protocol u);
               u1 = u\<lparr>ua_protocol := p\<rparr>
           in if \<not> ok then (StartInvalidArg, u1)
              else
                (let u2 = publish_current_local_owner u1
                 in if \<not> installed \<and> driver \<noteq> 0 then (StartDriver driver, u2)
                    else if \<not> created then (StartNoMem, u2)
                    else (StartOk, u2))))"

section \<open>What a run feeds to the protocol\<close>

text \<open>Every operation of the protocol is followed by the publication of its owner.\<close>

fun feeds :: "rx_piece \<Rightarrow> bool" where
  "feeds RxInvalidate = True"
| "feeds (RxFailure n) = True"
| "feeds RxService = True"
| "feeds (RxEvent ev) = True"
| "feeds _ = False"

fun publishes :: "rx_piece list \<Rightarrow> bool" where
  "publishes [] = True"
| "publishes (x # xs) = ((feeds x \<longrightarrow> xs \<noteq> [] \<and> hd xs = RxPublish) \<and> publishes xs)"

lemma publishes_append: "publishes xs \<Longrightarrow> publishes ys \<Longrightarrow> publishes (xs @ ys)"
  by (induction xs) (auto simp: neq_Nil_conv)

lemma publishes_events: "publishes (concat (map (\<lambda>ev. [RxEvent ev, RxPublish]) evs))"
  by (induction evs) auto

text \<open>Framing events: fed to the protocol, and waiting in the current pass.\<close>

fun fed_events :: "protocol_event list \<Rightarrow> event list" where
  "fed_events [] = []"
| "fed_events (PeFraming ev # ps) = ev # fed_events ps"
| "fed_events (p # ps) = fed_events ps"

fun waiting_events :: "rx_piece list \<Rightarrow> event list" where
  "waiting_events [] = []"
| "waiting_events (RxEvent ev # xs) = ev # waiting_events xs"
| "waiting_events (x # xs) = waiting_events xs"

lemma fed_append [simp]: "fed_events (xs @ ys) = fed_events xs @ fed_events ys"
  by (induction xs rule: fed_events.induct) auto

lemma waiting_append [simp]: "waiting_events (xs @ ys) = waiting_events xs @ waiting_events ys"
  by (induction xs rule: waiting_events.induct) auto

lemma waiting_new: "waiting_events (concat (map (\<lambda>ev. [RxEvent ev, RxPublish]) evs)) = evs"
  by (induction evs) auto

text \<open>Bytes are only taken up when no event waits.\<close>

fun consumes_last :: "rx_piece list \<Rightarrow> bool" where
  "consumes_last [] = True"
| "consumes_last (RxConsume b # xs) = (waiting_events xs = [] \<and> consumes_last xs)"
| "consumes_last (x # xs) = consumes_last xs"

lemma consumes_append:
  "consumes_last xs \<Longrightarrow> consumes_last ys \<Longrightarrow> (list_all (\<lambda>x. \<forall>b. x \<noteq> RxConsume b) xs \<or> waiting_events ys = []) \<Longrightarrow>
     consumes_last (xs @ ys)"
  by (induction xs rule: consumes_last.induct) auto

definition uart_inv :: "cjson \<Rightarrow> cp_env \<Rightarrow> protocol \<Rightarrow> uart \<Rightarrow> bool" where
  "uart_inv J e p0 u \<longleftrightarrow>
     ua_protocol u = foldl (protocol_step J e) p0 (ua_fed u)
     \<and> ua_transport u = fst (consume transport_init (Some (ua_read u)))
     \<and> fed_events (ua_fed u) @ waiting_events (ua_todo u) = snd (consume transport_init (Some (ua_read u)))
     \<and> consumes_last (ua_todo u) \<and> publishes (ua_todo u)
     \<and> (ua_owner u = protocol_owner_id (ua_protocol u) \<or> ua_todo u \<noteq> [] \<and> hd (ua_todo u) = RxPublish)"

lemma consume_more:
  "consume t (Some (xs @ ys)) =
     (let (t1, e1) = consume t (Some xs); (t2, e2) = consume t1 (Some ys) in (t2, e1 @ e2))"
  by (simp add: consume_def run_outputs_append)

lemma rx_step_inv:
  assumes inv: "uart_inv J e p0 u"
  shows "uart_inv J e p0 (rx_step J e got u)"
proof (cases "ua_todo u")
  case Nil
  then show ?thesis using inv by (auto simp: uart_inv_def rx_step_def rx_pass_def)
next
  case (Cons x rest)
  note i = inv [unfolded uart_inv_def Cons]
  show ?thesis
  proof (cases x)
    case (RxConsume b)
    obtain t evs where c: "consume (ua_transport u) (Some b) = (t, evs)" by fastforce
    obtain t0 e0 where c0: "consume transport_init (Some (ua_read u)) = (t0, e0)" by fastforce
    have t0: "ua_transport u = t0" using i c0 by simp
    have more: "consume transport_init (Some (ua_read u @ b)) = (t, e0 @ evs)"
      using c by (simp add: consume_more c0 t0)
    have step: "rx_step J e got u = u\<lparr>ua_transport := t, ua_read := ua_read u @ b,
        ua_todo := concat (map (\<lambda>ev. [RxEvent ev, RxPublish]) evs) @ rest\<rparr>"
      by (simp add: rx_step_def Cons RxConsume c)
    have rest: "waiting_events rest = []" "fed_events (ua_fed u) = e0" "consumes_last rest" "publishes rest"
      "ua_owner u = protocol_owner_id (ua_protocol u)" "ua_protocol u = foldl (protocol_step J e) p0 (ua_fed u)"
      using i c0 by (auto simp: RxConsume)
    have "consumes_last (concat (map (\<lambda>ev. [RxEvent ev, RxPublish]) evs))" by (induction evs) auto
    then have "consumes_last (concat (map (\<lambda>ev. [RxEvent ev, RxPublish]) evs) @ rest)"
      using rest by (simp add: consumes_append)
    moreover have "publishes (concat (map (\<lambda>ev. [RxEvent ev, RxPublish]) evs) @ rest)"
      using rest(4) publishes_events by (simp add: publishes_append)
    ultimately show ?thesis
      unfolding uart_inv_def step
      by (simp del: map_eq_conv add: more rest(1,2,5) waiting_new rest(6) [symmetric])
  qed (use i in \<open>auto simp: uart_inv_def rx_step_def Cons feed_def publish_current_local_owner_def deferred_take_def
        Let_def neq_Nil_conv split: if_splits\<close>)
qed

lemma uart_step_inv: "uart_inv J e p0 u \<Longrightarrow> uart_inv J e p0 (uart_step J e u ev)"
  by (cases ev)
    (simp_all add: rx_step_inv, auto simp: uart_inv_def uart_on_lifecycle_invalidation_def uart_on_safety_failure_def)

definition uart_boot ::
  "protocol_config option \<Rightarrow> random_fill \<Rightarrow> hmac_sha256 \<Rightarrow> cp_env \<Rightarrow> bool \<Rightarrow> i32 \<Rightarrow> bool \<Rightarrow> uart" where
  "uart_boot config fill hmac e installed driver created =
     snd (uart_start config fill hmac e installed driver created uart_zero)"

lemma boot_fields:
  "ua_fed (uart_boot c f h e i d k) = []" "ua_todo (uart_boot c f h e i d k) = []"
  "ua_read (uart_boot c f h e i d k) = []" "ua_transport (uart_boot c f h e i d k) = transport_init"
  by (simp_all add: uart_boot_def uart_start_def uart_zero_def publish_current_local_owner_def Let_def
      case_prod_unfold split: option.split)

lemma boot_owner:
  "fst (uart_start c f h e i d k uart_zero) = StartOk \<Longrightarrow>
     ua_owner (uart_boot c f h e i d k) = protocol_owner_id (ua_protocol (uart_boot c f h e i d k))"
  by (auto simp: uart_boot_def uart_start_def uart_zero_def publish_current_local_owner_def Let_def
      case_prod_unfold split: option.splits if_splits)

interpretation uart_machine: machine "uart_step J e" "uart_boot c f h e i d k"
  "\<lambda>u. fst (uart_start c f h e i d k uart_zero) = StartOk \<longrightarrow>
     uart_inv J e (ua_protocol (uart_boot c f h e i d k)) u"
  by unfold_locales (auto simp: uart_step_inv, simp add: uart_inv_def boot_fields boot_owner consume_def)

section \<open>The protocol behind the transport\<close>

definition configured :: "protocol_config \<Rightarrow> protocol_config" where
  "configured c = c\<lparr>cf_present := (cf_present c)(EOutput := True, ENow := True)\<rparr>"

lemma boot_protocol:
  assumes "fst (uart_start config f h e i d k uart_zero) = StartOk"
  shows "\<exists>c. config = Some c
     \<and> ua_protocol (uart_boot config f h e i d k) = protocol_start (configured c) True (Some f) (Some h) e"
proof -
  obtain c where c: "config = Some c" using assms by (auto simp: uart_start_def uart_zero_def split: option.splits)
  have ok: "fst (protocol_initialize (configured c) True (Some f) (Some h) e (ua_protocol uart_zero))"
    using assms by (auto simp: uart_start_def uart_zero_def c Let_def case_prod_unfold configured_def split: if_splits)
  have same: "snd (protocol_initialize (configured c) True (Some f) (Some h) e (ua_protocol uart_zero))
      = protocol_start (configured c) True (Some f) (Some h) e"
    using ok by (auto simp: protocol_start_def protocol_initialize_def uart_zero_def protocol_zero_def Let_def
        case_prod_unfold on_session_def split: if_splits)
  have "ua_protocol (uart_boot config f h e i d k)
      = snd (protocol_initialize (configured c) True (Some f) (Some h) e (ua_protocol uart_zero))"
    by (simp add: uart_boot_def uart_start_def uart_zero_def c Let_def case_prod_unfold
        publish_current_local_owner_def configured_def)
  then show ?thesis using c same by simp
qed

lemma uart_protocol_inv:
  assumes "context_ok J e" "env_ok e" "hmac_option_sized (Some h)"
    and start: "fst (uart_start config f h e i d k uart_zero) = StartOk"
  shows "protocol_inv (ua_protocol (foldl (uart_step J e) (uart_boot config f h e i d k) evs))"
proof -
  let ?u = "foldl (uart_step J e) (uart_boot config f h e i d k) evs"
  obtain c where "ua_protocol (uart_boot config f h e i d k) = protocol_start (configured c) True (Some f) (Some h) e"
    using boot_protocol [OF start] by blast
  then have "ua_protocol ?u
      = foldl (protocol_step J e) (protocol_start (configured c) True (Some f) (Some h) e) (ua_fed ?u)"
    using uart_machine.inv_reach [of config f h e i d k J evs] start by (simp add: uart_inv_def)
  then show ?thesis
    using call_machine.inv_reach [of J e "Some h" "configured c" True "Some f" "ua_fed ?u"] assms(1-3) by simp
qed

section \<open>A failure of the current owner\<close>

definition failure_kept :: "u64 \<Rightarrow> nat \<Rightarrow> uart \<Rightarrow> bool" where
  "failure_kept n since u \<longleftrightarrow> df_pending (ua_failure u) \<and> df_owner (ua_failure u) = n
     \<or> RxFailure n \<in> set (ua_todo u) \<or> PeSafetyFailure n \<in> set (drop since (ua_fed u))"

lemma kept_step:
  assumes kept: "failure_kept n since u" and owner: "ua_owner u = n" "since \<le> length (ua_fed u)"
  shows "failure_kept n since (uart_step J e u ev) \<and> since \<le> length (ua_fed (uart_step J e u ev))"
proof (cases ev)
  case (UaRx got)
  show ?thesis
  proof (cases "ua_todo u")
    case Nil
    then show ?thesis using kept owner(2) by (auto simp: UaRx rx_step_def failure_kept_def)
  next
    case (Cons x rest)
    then show ?thesis
      using kept owner
      by (cases x) (auto simp: UaRx rx_step_def failure_kept_def feed_def publish_current_local_owner_def
          deferred_take_def discard_if_not_current_def case_prod_unfold Let_def)
  qed
qed (use kept owner in \<open>auto simp: failure_kept_def uart_on_lifecycle_invalidation_def uart_on_safety_failure_def
      deferred_publish_def\<close>)

lemma fed_step: "length (ua_fed u) \<le> length (ua_fed (uart_step J e u ev))"
proof (cases ev)
  case (UaRx got)
  show ?thesis
  proof (cases "ua_todo u")
    case (Cons y ys)
    then show ?thesis
      by (cases y)
        (auto simp: UaRx rx_step_def feed_def publish_current_local_owner_def case_prod_unfold Let_def)
  qed (simp add: UaRx rx_step_def)
qed (simp_all add: uart_on_lifecycle_invalidation_def uart_on_safety_failure_def)

lemma fed_run: "length (ua_fed u) \<le> length (ua_fed (foldl (uart_step J e) u evs))"
  by (induction evs arbitrary: u) (auto intro: le_trans [OF fed_step])

lemma kept_run:
  "failure_kept n since u \<Longrightarrow> since \<le> length (ua_fed u) \<Longrightarrow>
     (\<forall>m < length evs. ua_owner (foldl (uart_step J e) u (take m evs)) = n) \<Longrightarrow>
     failure_kept n since (foldl (uart_step J e) u evs)"
proof (induction evs rule: rev_induct)
  case (snoc ev evs)
  have "\<forall>m < length evs. ua_owner (foldl (uart_step J e) u (take m evs)) = n" using snoc.prems(3) by auto
  note before = snoc.IH [OF snoc.prems(1,2) this]
  have owner: "ua_owner (foldl (uart_step J e) u evs) = n" using snoc.prems(3) by (auto dest: spec [of _ "length evs"])
  show ?case using kept_step [OF before owner le_trans [OF snoc.prems(2) fed_run]] by simp
qed simp

section \<open>Properties\<close>

definition sample_uart :: uart where
  "sample_uart = uart_boot (Some sample_config) (\<lambda>k. (True, k)) (\<lambda>k m out. (True, out)) sample_env True 0 True"

lemma sample_uart_starts:
  "fst (uart_start (Some sample_config) (\<lambda>k. (True, k)) (\<lambda>k m out. (True, out)) sample_env True 0 True uart_zero) = StartOk"
proof -
  have "list_all (cf_present (configured sample_config)) required_entries"
    by (simp add: sample_config_def required_entries_def configured_def)
  moreover have "is_safe_metadata_string (Some ''hidbot'')" "is_safe_metadata_string (Some ''esp32s3'')"
    "is_safe_metadata_string (Some ''v5'')"
    by (simp_all add: is_safe_metadata_string_def kMaxMetadataBytes_def c_string_def nul_def)
  ultimately show ?thesis
    by (simp add: uart_start_def uart_zero_def protocol_initialize_def Let_def sample_config_def configured_def
        identity_initialize_def)
qed







end
