(* ===== verification/RuntimeState.thy ===== *)
theory RuntimeState
  imports HidRoute UsbLifecycle HidCapability
begin

text \<open>
  \<open>firmware/components/hid_runtime\<close>: the shared memory of \<open>StateMachine\<close> and the small operations on it. Every
  operation is a program of atomic steps that the tasks and callbacks interleave. A load, a store, an
  exchange and a loop around one compare-exchange are one step each; the calls into \<open>hid_route\<close> are the
  programs of that component on its part of the memory; a call of \<open>usb_lifecycle\<close> is one step. A section
  under a \<open>TicketMetadataLock\<close> is one step.
\<close>

section \<open>Programs on part of a memory, conditions\<close>

primrec plift :: "('m \<Rightarrow> 's) \<Rightarrow> ('s \<Rightarrow> 'm \<Rightarrow> 'm) \<Rightarrow> ('s, 'a) prog \<Rightarrow> ('m, 'a) prog" where
  "plift get put (Ret a) = Ret a"
| "plift get put (Step f) =
     Step (\<lambda>m. map_prod id (\<lambda>s'. put s' m) ((map_prod (plift get put) id \<circ> f) (get m)))"

definition pmap :: "('a \<Rightarrow> 'b) \<Rightarrow> ('s, 'a) prog \<Rightarrow> ('s, 'b) prog" where
  "pmap f p = pbind p (\<lambda>a. Ret (f a))"

definition pif :: "('s, bool) prog \<Rightarrow> ('s, 'a) prog \<Rightarrow> ('s, 'a) prog \<Rightarrow> ('s, 'a) prog" where
  "pif c p q = pbind c (\<lambda>b. if b then p else q)"

text \<open>A disjunction and a conjunction, evaluated from the left as far as needed.\<close>

fun pany :: "('s, bool) prog list \<Rightarrow> ('s, bool) prog" where
  "pany [] = Ret False"
| "pany (p # ps) = pif p (Ret True) (pany ps)"

fun pall :: "('s, bool) prog list \<Rightarrow> ('s, bool) prog" where
  "pall [] = Ret True"
| "pall (p # ps) = pif p (pall ps) (Ret False)"

definition pnot :: "('s, bool) prog \<Rightarrow> ('s, bool) prog" where
  "pnot p = pmap Not p"

text \<open>A body for each of some values, one after the other.\<close>

fun pfor :: "'i list \<Rightarrow> ('i \<Rightarrow> ('s, unit) prog) \<Rightarrow> ('s, unit) prog" where
  "pfor [] body = Ret ()"
| "pfor (i # is) body = pthen (body i) (pfor is body)"

text \<open>A section under a lock.\<close>

definition locked :: "('s, 'a) prog \<Rightarrow> ('s, 'a) prog" where
  "locked p = atomic (alone p)"

section \<open>Data\<close>

datatype interface = KeyboardIf | MouseIf

datatype report_kind = UnsafeKeyboard | UnsafeMouse | SafetyKeyboard | SafetyMouse

datatype hid_transport = TransportUsb | TransportBle

text \<open>The enumerations of keyboard and mouse tickets have the same members; one type stands for both.\<close>

datatype ticket_state = TkFree | TkWriting | TkWritingCanceled | TkPublished | TkClaimed | TkSubmitted
  | TkNotReady | TkCanceled

datatype ticket_outcome = ToNone | ToSubmitted | ToNotReady | ToBusy | ToSafetyPending | ToAuthorityLost

datatype begin_result = BrAlreadySet | BrPublished | BrNotReady | BrBusy | BrSafetyPending | BrAuthorityLost
  | BrUnsupportedOperation

datatype release_interface_state = RiUnresolved | RiAlreadyUp | RiSubmitted | RiPending | RiCanceled

datatype release_state = RsInactive | RsAdmitting | RsOpen | RsSuccessCommitting | RsSucceeded | RsFailed
  | RsCanceled | RsTimedOut | RsFinalizedSuccess | RsFinalizedFailure

datatype mailbox_state = MbEmpty | MbWriting | MbReady | MbExecuting | MbCanceled

record status_snapshot =
  st_mounted :: bool
  st_suspended :: bool
  st_keyboard_ready :: bool
  st_mouse_ready :: bool

record work_token =
  wt_authority_epoch :: u32
  wt_route_generation :: u32
  wt_transport_generation :: u32
  wt_profile_activation_epoch :: u32
  wt_ticket_id :: u64
  wt_release_epoch :: u32
  wt_sequence_generation :: u32
  wt_originating_local_owner_id :: u64
  wt_connection_handle :: u16
  wt_characteristic_handle :: u16
  wt_transport :: hid_transport
  wt_report_kind :: report_kind

record report_ticket =
  tk_state :: ticket_state
  tk_transport_generation :: u32
  tk_authority_epoch :: u32
  tk_route_generation :: u32
  tk_transport :: hid_transport
  tk_profile_activation_epoch :: u32
  tk_ticket_id :: u64
  tk_release_epoch :: u32
  tk_sequence_generation :: u32
  tk_originating_local_owner_id :: u64
  tk_connection_handle :: u16
  tk_characteristic_handle :: u16
  tk_ble_action_pending :: bool
  tk_outcome :: ticket_outcome
  tk_report :: "u8 list"

text \<open>The fields that \<open>InterfaceState\<close> has twice: for the mailbox slot and for the report in flight.\<close>

record report_work =
  rw_transport_generation :: u32
  rw_authority_epoch :: u32
  rw_route_generation :: u32
  rw_transport :: hid_transport
  rw_ticket_id :: u64
  rw_release_epoch :: u32
  rw_release_id :: u64
  rw_sequence_generation :: u32
  rw_originating_local_owner_id :: u64
  rw_kind :: report_kind
  rw_length :: u8
  rw_report :: "u8 list"

record interface_state =
  if_slot_state :: mailbox_state
  if_slot :: report_work
  if_in_flight :: bool
  if_work :: report_work
  if_safety_required :: bool
  if_host_state_uncertain :: bool
  if_logical_state_held :: bool
  if_confirmed_sequence :: u32
  if_confirmed_low :: u32
  if_confirmed_high :: u32
  if_confirmed_mouse_buttons :: u8
  if_modifiers :: u8
  if_keycodes :: "u8 list"
  if_buttons :: u8

record sequence_authority =
  sq_generation :: u32
  sq_authority_epoch :: u32
  sq_release_epoch :: u32
  sq_profile_activation_epoch :: u32
  sq_active_roles :: report_mask
  sq_transport :: hid_transport
  sq_route_generation :: u32

record ble_activation =
  ba_expected_authority_epoch :: u32
  ba_expected_route_generation :: u32
  ba_ble_generation :: u32
  ba_connection_handle :: u16
  ba_profile_activation_epoch :: u32
  ba_present_roles :: report_mask
  ba_required_input_subscriptions :: report_mask
  ba_report_handles :: report_handles

record ble_authority =
  bl_authority_epoch :: u32
  bl_route_generation :: u32
  bl_ble_generation :: u32
  bl_connection_handle :: u16
  bl_profile_activation_epoch :: u32
  bl_present_roles :: report_mask
  bl_required_input_subscriptions :: report_mask
  bl_report_handles :: report_handles
  bl_active :: bool
  bl_releasing :: bool
  bl_release_epoch :: u32
  bl_coherent :: bool

record release_ticket =
  ra_id :: u64
  ra_transport_generation :: u32
  ra_authority_epoch :: u32
  ra_route_generation :: u32
  ra_transport :: hid_transport
  ra_release_epoch :: u32
  ra_profile_activation_epoch :: u32
  ra_connection_handle :: u16
  ra_present_roles :: report_mask
  ra_required_input_subscriptions :: report_mask
  ra_report_handles :: report_handles
  ra_keyboard :: release_interface_state
  ra_mouse :: release_interface_state
  ra_state :: release_state
  ra_ble_continuity_lost :: bool

definition kNoBleConnection :: u16 where "kNoBleConnection = 0xffff"

text \<open>
  A report handed to a transport stack: the ticket it belongs to (none for a mailbox report), the
  interface, the transport, the bytes and whether the stack accepted it. The history is the world
  outside; no program reads it.
\<close>

record submission =
  su_ticket :: "u64 option"
  su_interface :: interface
  su_transport :: hid_transport
  su_report :: "u8 list"
  su_accepted :: bool

text \<open>
  The memory of one \<open>StateMachine\<close>. \<open>rt_holders\<close> lists the \<open>ScopedConflictingAdmission\<close> objects that are
  acquired, each with its serial number and its \<open>safety\<close> argument.
\<close>

record runtime =
  rt_usb :: usb
  rt_route :: route
  rt_next_ticket_id :: u32
  rt_next_public_ticket_id :: u64
  rt_authority_epoch :: u32
  rt_release_epoch :: u32
  rt_request_generation :: u32
  rt_request_authority_epoch :: u32
  rt_request_epoch :: u32
  rt_status_bits :: u8
  rt_sof_heartbeat :: u32
  rt_release_requested :: bool
  rt_sequence_generation :: u32
  rt_next_sequence_generation :: u32
  rt_next_profile_activation_epoch :: u32
  rt_reconciler_active :: bool
  rt_gate :: u32
  rt_ble_sequence :: u32
  rt_ble :: ble_authority
  rt_ifs :: "interface \<Rightarrow> interface_state"
  rt_release :: release_ticket
  rt_next_release_id :: u64
  rt_tickets :: "interface \<Rightarrow> report_ticket"
  rt_sent :: "submission list"
  rt_holders :: "(nat \<times> bool) list"
  rt_next_holder :: nat

definition no_work :: report_work where
  "no_work = \<lparr>rw_transport_generation = 0, rw_authority_epoch = 0, rw_route_generation = 0,
     rw_transport = TransportUsb, rw_ticket_id = 0, rw_release_epoch = 0, rw_release_id = 0,
     rw_sequence_generation = 0, rw_originating_local_owner_id = 0, rw_kind = UnsafeKeyboard,
     rw_length = 0, rw_report = replicate 8 0\<rparr>"

definition interface_init :: interface_state where
  "interface_init = \<lparr>if_slot_state = MbEmpty, if_slot = no_work, if_in_flight = False, if_work = no_work,
     if_safety_required = False, if_host_state_uncertain = False, if_logical_state_held = False,
     if_confirmed_sequence = 0, if_confirmed_low = 0, if_confirmed_high = 0, if_confirmed_mouse_buttons = 0,
     if_modifiers = 0, if_keycodes = replicate 6 0, if_buttons = 0\<rparr>"

definition ticket_init :: "nat \<Rightarrow> report_ticket" where
  "ticket_init n = \<lparr>tk_state = TkFree, tk_transport_generation = 0, tk_authority_epoch = 0,
     tk_route_generation = 0, tk_transport = TransportUsb, tk_profile_activation_epoch = 0, tk_ticket_id = 0,
     tk_release_epoch = 0, tk_sequence_generation = 0, tk_originating_local_owner_id = 0,
     tk_connection_handle = kNoBleConnection, tk_characteristic_handle = 0, tk_ble_action_pending = False,
     tk_outcome = ToNone, tk_report = replicate n 0\<rparr>"

definition ble_init :: ble_authority where
  "ble_init = \<lparr>bl_authority_epoch = 0, bl_route_generation = 0, bl_ble_generation = 0,
     bl_connection_handle = kNoBleConnection, bl_profile_activation_epoch = 0, bl_present_roles = 0,
     bl_required_input_subscriptions = 0, bl_report_handles = no_handles, bl_active = False,
     bl_releasing = False, bl_release_epoch = 0, bl_coherent = True\<rparr>"

definition release_init :: release_ticket where
  "release_init = \<lparr>ra_id = 0, ra_transport_generation = 0, ra_authority_epoch = 0, ra_route_generation = 0,
     ra_transport = TransportUsb, ra_release_epoch = 0, ra_profile_activation_epoch = 0,
     ra_connection_handle = kNoBleConnection, ra_present_roles = 0, ra_required_input_subscriptions = 0,
     ra_report_handles = no_handles, ra_keyboard = RiUnresolved, ra_mouse = RiUnresolved,
     ra_state = RsInactive, ra_ble_continuity_lost = False\<rparr>"

fun report_size :: "interface \<Rightarrow> nat" where
  "report_size KeyboardIf = 8"
| "report_size MouseIf = 5"

definition runtime_init :: runtime where
  "runtime_init = \<lparr>rt_usb = usb_init, rt_route = route_init, rt_next_ticket_id = 1,
     rt_next_public_ticket_id = 1, rt_authority_epoch = 0, rt_release_epoch = 0, rt_request_generation = 0,
     rt_request_authority_epoch = 0, rt_request_epoch = 0, rt_status_bits = 0, rt_sof_heartbeat = 0,
     rt_release_requested = False, rt_sequence_generation = 0, rt_next_sequence_generation = 1,
     rt_next_profile_activation_epoch = 1, rt_reconciler_active = False, rt_gate = 0, rt_ble_sequence = 0,
     rt_ble = ble_init, rt_ifs = (\<lambda>i. interface_init), rt_release = release_init, rt_next_release_id = 1,
     rt_tickets = (\<lambda>i. ticket_init (report_size i)), rt_sent = [], rt_holders = [], rt_next_holder = 0\<rparr>"

section \<open>Access\<close>

abbreviation both :: "interface list" where "both \<equiv> [KeyboardIf, MouseIf]"

definition put_if :: "interface \<Rightarrow> (interface_state \<Rightarrow> interface_state) \<Rightarrow> runtime \<Rightarrow> runtime" where
  "put_if i f m = m\<lparr>rt_ifs := (rt_ifs m)(i := f (rt_ifs m i))\<rparr>"

definition put_ticket :: "interface \<Rightarrow> (report_ticket \<Rightarrow> report_ticket) \<Rightarrow> runtime \<Rightarrow> runtime" where
  "put_ticket i f m = m\<lparr>rt_tickets := (rt_tickets m)(i := f (rt_tickets m i))\<rparr>"

definition load_if :: "interface \<Rightarrow> (interface_state \<Rightarrow> 'a) \<Rightarrow> (runtime, 'a) prog" where
  "load_if i f = load (\<lambda>m. f (rt_ifs m i))"

definition store_if :: "interface \<Rightarrow> (interface_state \<Rightarrow> interface_state) \<Rightarrow> (runtime, unit) prog" where
  "store_if i f = store (put_if i f)"

definition load_ticket :: "interface \<Rightarrow> (report_ticket \<Rightarrow> 'a) \<Rightarrow> (runtime, 'a) prog" where
  "load_ticket i f = load (\<lambda>m. f (rt_tickets m i))"

definition store_ticket :: "interface \<Rightarrow> (report_ticket \<Rightarrow> report_ticket) \<Rightarrow> (runtime, unit) prog" where
  "store_ticket i f = store (put_ticket i f)"

definition on_route :: "(route, 'a) prog \<Rightarrow> (runtime, 'a) prog" where
  "on_route p = plift rt_route (\<lambda>r m. m\<lparr>rt_route := r\<rparr>) p"

definition load_usb :: "(usb \<Rightarrow> 'a) \<Rightarrow> (runtime, 'a) prog" where
  "load_usb f = load (\<lambda>m. f (rt_usb m))"

definition store_usb :: "(usb \<Rightarrow> usb) \<Rightarrow> (runtime, unit) prog" where
  "store_usb f = store (\<lambda>m. m\<lparr>rt_usb := f (rt_usb m)\<rparr>)"

text \<open>An operation of \<open>usb_lifecycle\<close> that returns a flag.\<close>

definition usb_flag :: "(usb \<Rightarrow> usb \<times> usb_output list) \<Rightarrow> (runtime, bool) prog" where
  "usb_flag f = atomic (\<lambda>m. (OutFlag True \<in> set (snd (f (rt_usb m))), m\<lparr>rt_usb := fst (f (rt_usb m))\<rparr>))"

text \<open>\<open>fetch_add(1)\<close> on an epoch.\<close>

definition bump_authority :: "(runtime, unit) prog" where
  "bump_authority = store (\<lambda>m. m\<lparr>rt_authority_epoch := rt_authority_epoch m + 1\<rparr>)"

definition bump_release :: "(runtime, u32) prog" where
  "bump_release = atomic (\<lambda>m. (rt_release_epoch m, m\<lparr>rt_release_epoch := rt_release_epoch m + 1\<rparr>))"

section \<open>The sleep quiescence gate\<close>

definition kAdmissionMask :: u32 where "kAdmissionMask = 0x1fffffff"
definition kGateClaimed :: u32 where "kGateClaimed = 0x20000000"
definition kGateConflict :: u32 where "kGateConflict = 0x40000000"
definition kGateCommitted :: u32 where "kGateCommitted = 0x80000000"
definition kGateControlMask :: u32 where "kGateControlMask = 0xe0000000"

datatype admission = Acquired nat | Refused u32 | Aborted

definition acquire :: "bool \<Rightarrow> u32 \<Rightarrow> runtime \<Rightarrow> admission \<times> runtime" where
  "acquire safety w m = (Acquired (rt_next_holder m),
     m\<lparr>rt_gate := w, rt_holders := (rt_next_holder m, safety) # rt_holders m, rt_next_holder := rt_next_holder m + 1\<rparr>)"

definition admission_step :: "bool \<Rightarrow> runtime \<Rightarrow> admission \<times> runtime" where
  "admission_step safety m =
     (let observed = rt_gate m; control = observed AND kGateControlMask in
      if observed AND kAdmissionMask = kAdmissionMask
      then (if safety then Aborted else Refused 0, m)
      else if control = 0 then acquire safety (observed + 1) m
      else if \<not> safety then (Refused observed, m)
      else if control = kGateClaimed \<or> control = (kGateClaimed OR kGateConflict)
      then acquire safety ((observed + 1) OR kGateConflict) m
      else acquire safety (observed + 1) m)"

definition try_admission :: "bool \<Rightarrow> (runtime, admission) prog" where
  "try_admission safety = atomic (admission_step safety)"

text \<open>An ordinary admission that meets a claim tries once to mark the conflict.\<close>

definition mark_conflict :: "u32 \<Rightarrow> (runtime, unit) prog" where
  "mark_conflict observed =
     (if observed AND kGateControlMask = kGateClaimed
      then store (\<lambda>m. if rt_gate m = observed then m\<lparr>rt_gate := observed OR kGateConflict\<rparr> else m)
      else Ret ())"

definition leave_admission :: "nat \<Rightarrow> (runtime, unit) prog" where
  "leave_admission n =
     store (\<lambda>m. m\<lparr>rt_gate := rt_gate m - 1, rt_holders := filter (\<lambda>h. fst h \<noteq> n) (rt_holders m)\<rparr>)"

text \<open>
  The body of a function whose first statement constructs a \<open>ScopedConflictingAdmission\<close>. After
  \<open>std::abort\<close> nothing runs; the call then returns its refusal.
\<close>

definition scoped :: "bool \<Rightarrow> 'a \<Rightarrow> (runtime, 'a) prog \<Rightarrow> (runtime, 'a) prog" where
  "scoped safety refused body =
     pbind (try_admission safety) (\<lambda>a. case a of
       Acquired n \<Rightarrow> pbind body (\<lambda>r. pthen (leave_admission n) (Ret r))
     | Refused observed \<Rightarrow> pthen (mark_conflict observed) (Ret refused)
     | Aborted \<Rightarrow> Ret refused)"

section \<open>Helpers\<close>

definition unsafe_report_holds_state :: "report_kind \<Rightarrow> u8 list \<Rightarrow> u8 \<Rightarrow> bool" where
  "unsafe_report_holds_state kind report len =
     (if kind = UnsafeKeyboard then
        (if len < 8 then True
         else if report ! 0 \<noteq> 0 then True
         else list_ex (\<lambda>k. report ! k \<noteq> 0) [2..<8])
      else if kind = UnsafeMouse then len < 5 \<or> report ! 0 AND 0x1f \<noteq> 0
      else False)"

definition same_work_token :: "work_token \<Rightarrow> work_token \<Rightarrow> bool" where
  "same_work_token l r \<longleftrightarrow>
     wt_authority_epoch l = wt_authority_epoch r \<and> wt_route_generation l = wt_route_generation r
     \<and> wt_transport l = wt_transport r \<and> wt_transport_generation l = wt_transport_generation r
     \<and> wt_profile_activation_epoch l = wt_profile_activation_epoch r \<and> wt_ticket_id l = wt_ticket_id r
     \<and> wt_release_epoch l = wt_release_epoch r \<and> wt_sequence_generation l = wt_sequence_generation r
     \<and> wt_originating_local_owner_id l = wt_originating_local_owner_id r
     \<and> wt_connection_handle l = wt_connection_handle r
     \<and> wt_characteristic_handle l = wt_characteristic_handle r \<and> wt_report_kind l = wt_report_kind r"

text \<open>\<open>allocate_generation\<close> on the counter that \<open>get\<close> reads.\<close>

definition allocate_generation :: "(runtime \<Rightarrow> u32) \<Rightarrow> (u32 \<Rightarrow> runtime \<Rightarrow> runtime) \<Rightarrow> (runtime, u32 option) prog" where
  "allocate_generation get put =
     atomic (\<lambda>m. if get m = 0 then (None, m)
       else (Some (get m), put (if get m = - 1 then 0 else get m + 1) m))"

definition allocate_profile_activation :: "(runtime, u32 option) prog" where
  "allocate_profile_activation =
     allocate_generation rt_next_profile_activation_epoch (\<lambda>n m. m\<lparr>rt_next_profile_activation_epoch := n\<rparr>)"

definition release_transaction_active :: "release_state \<Rightarrow> bool" where
  "release_transaction_active s \<longleftrightarrow> s = RsAdmitting \<or> s = RsOpen \<or> s = RsSuccessCommitting \<or> s = RsSucceeded
     \<or> s = RsFailed"

definition allocate_public_ticket_id :: "(runtime, u64 option) prog" where
  "allocate_public_ticket_id =
     locked (atomic (\<lambda>m. if rt_next_public_ticket_id m = 0 then (None, m)
       else (Some (rt_next_public_ticket_id m),
         m\<lparr>rt_next_public_ticket_id :=
             (if rt_next_public_ticket_id m = - 1 then 0 else rt_next_public_ticket_id m + 1)\<rparr>)))"

section \<open>The confirmed reports\<close>

text \<open>Four bytes of a report, the first one lowest.\<close>

definition pack_bytes :: "u8 list \<Rightarrow> u32" where
  "pack_bytes bs = foldr (\<lambda>b w. ucast b OR push_bit 8 w) bs 0"

definition unpack_bytes :: "u32 \<Rightarrow> u8 list" where
  "unpack_bytes w = map (\<lambda>k. ucast (drop_bit (8 * k) w)) [0..<4]"

definition write_confirmed_keyboard :: "u8 list \<Rightarrow> (runtime, unit) prog" where
  "write_confirmed_keyboard report =
     pthen (store_if KeyboardIf (\<lambda>s. s\<lparr>if_confirmed_sequence := if_confirmed_sequence s + 1\<rparr>))
      (pthen (store_if KeyboardIf (\<lambda>s. s\<lparr>if_confirmed_low := pack_bytes (take 4 report)\<rparr>))
       (pthen (store_if KeyboardIf (\<lambda>s. s\<lparr>if_confirmed_high := pack_bytes (take 4 (drop 4 report))\<rparr>))
         (store_if KeyboardIf (\<lambda>s. s\<lparr>if_confirmed_sequence := if_confirmed_sequence s + 1\<rparr>))))"

text \<open>
  The code reads again while a write is under way; the model has one step for the read and also
  allows it in the middle of a write.
\<close>

definition read_confirmed_keyboard :: "(runtime, u8 list) prog" where
  "read_confirmed_keyboard =
     load_if KeyboardIf (\<lambda>s. unpack_bytes (if_confirmed_low s) @ unpack_bytes (if_confirmed_high s))"

definition confirmed_keyboard_equals :: "u8 list \<Rightarrow> (runtime, bool) prog" where
  "confirmed_keyboard_equals report = pmap (\<lambda>r. r = take 8 report) read_confirmed_keyboard"

definition write_confirmed_mouse :: "u8 \<Rightarrow> (runtime, unit) prog" where
  "write_confirmed_mouse buttons =
     store_if MouseIf (\<lambda>s. s\<lparr>if_confirmed_mouse_buttons := buttons AND 0x1f\<rparr>)"

definition read_confirmed_mouse :: "(runtime, u8) prog" where
  "read_confirmed_mouse = load_if MouseIf if_confirmed_mouse_buttons"

fun write_confirmed_up :: "interface \<Rightarrow> (runtime, unit) prog" where
  "write_confirmed_up KeyboardIf = write_confirmed_keyboard (replicate 8 0)"
| "write_confirmed_up MouseIf = write_confirmed_mouse 0"

definition reset_details :: "interface_state \<Rightarrow> interface_state" where
  "reset_details s = s\<lparr>if_modifiers := 0, if_keycodes := replicate 6 0, if_buttons := 0\<rparr>"

definition clear_interface :: "interface \<Rightarrow> (runtime, unit) prog" where
  "clear_interface i =
     pthen (store_if i (\<lambda>s. s\<lparr>if_slot_state := MbEmpty\<rparr>))
      (pthen (store_if i (\<lambda>s. s\<lparr>if_in_flight := False\<rparr>))
       (pthen (store_if i (\<lambda>s. s\<lparr>if_safety_required := False\<rparr>))
        (pthen (store_if i (\<lambda>s. s\<lparr>if_host_state_uncertain := False\<rparr>))
         (pthen (store_if i (\<lambda>s. s\<lparr>if_logical_state_held := False\<rparr>))
          (pthen (write_confirmed_up i) (store_if i reset_details))))))"

section \<open>What the fences read\<close>

definition kMountedBit :: u8 where "kMountedBit = push_bit 0 1"
definition kSuspendedBit :: u8 where "kSuspendedBit = push_bit 1 1"
definition kKeyboardReadyBit :: u8 where "kKeyboardReadyBit = push_bit 2 1"
definition kMouseReadyBit :: u8 where "kMouseReadyBit = push_bit 3 1"

definition status_of :: "u8 \<Rightarrow> status_snapshot" where
  "status_of bits = \<lparr>st_mounted = (bits AND kMountedBit \<noteq> 0), st_suspended = (bits AND kSuspendedBit \<noteq> 0),
     st_keyboard_ready = (bits AND kKeyboardReadyBit \<noteq> 0), st_mouse_ready = (bits AND kMouseReadyBit \<noteq> 0)\<rparr>"

definition runtime_status :: "(runtime, status_snapshot) prog" where
  "runtime_status = load (\<lambda>m. status_of (rt_status_bits m))"

fun interface_ready :: "interface \<Rightarrow> status_snapshot \<Rightarrow> bool" where
  "interface_ready KeyboardIf s = st_keyboard_ready s"
| "interface_ready MouseIf s = st_mouse_ready s"

definition attach_generation :: "(runtime, u32) prog" where
  "attach_generation = load_usb usb_generation"

definition authority_epoch :: "(runtime, u32) prog" where
  "authority_epoch = load rt_authority_epoch"

definition release_epoch :: "(runtime, u32) prog" where
  "release_epoch = load rt_release_epoch"

definition release_requested :: "(runtime, bool) prog" where
  "release_requested = load rt_release_requested"

definition sequence_active :: "(runtime, bool) prog" where
  "sequence_active = load (\<lambda>m. rt_sequence_generation m \<noteq> 0)"

definition release_producers_blocked :: "(runtime, bool) prog" where
  "release_producers_blocked = load (\<lambda>m. release_transaction_active (ra_state (rt_release m)))"

definition any_safety_required :: "(runtime, bool) prog" where
  "any_safety_required = pany [load_if KeyboardIf if_safety_required, load_if MouseIf if_safety_required]"

definition mounted_and_active :: "interface \<Rightarrow> (runtime, bool) prog" where
  "mounted_and_active i =
     pbind runtime_status (\<lambda>s.
     pall [pnot (load_usb has_unresolved_prior_generation),
           load_usb (accepts_hid (st_mounted s \<and> \<not> st_suspended s \<and> interface_ready i s))])"

text \<open>The retained tuple of the BLE route, published under a sequence counter.\<close>

definition load_ble :: "(ble_authority \<Rightarrow> 'a) \<Rightarrow> (runtime, 'a) prog" where
  "load_ble f = load (\<lambda>m. f (rt_ble m))"

definition store_ble :: "(ble_authority \<Rightarrow> ble_authority) \<Rightarrow> (runtime, unit) prog" where
  "store_ble f = store (\<lambda>m. m\<lparr>rt_ble := f (rt_ble m)\<rparr>)"

definition ble_tick :: "(runtime, unit) prog" where
  "ble_tick = store (\<lambda>m. m\<lparr>rt_ble_sequence := rt_ble_sequence m + 1\<rparr>)"

definition no_ble :: ble_authority where
  "no_ble = ble_init\<lparr>bl_coherent := False\<rparr>"

fun ble_snapshot_from :: "nat \<Rightarrow> (runtime, ble_authority) prog" where
  "ble_snapshot_from 0 = Ret no_ble"
| "ble_snapshot_from (Suc left) =
     pbind (load rt_ble_sequence) (\<lambda>prior.
     if sequence_odd prior then ble_snapshot_from left
     else
       pbind (load_ble bl_authority_epoch) (\<lambda>ae. pbind (load_ble bl_route_generation) (\<lambda>rg.
       pbind (load_ble bl_ble_generation) (\<lambda>bg. pbind (load_ble bl_connection_handle) (\<lambda>ch.
       pbind (load_ble bl_profile_activation_epoch) (\<lambda>pe. pbind (load_ble bl_present_roles) (\<lambda>pr.
       pbind (load_ble bl_required_input_subscriptions) (\<lambda>rs. pbind (load_ble bl_active) (\<lambda>ac.
       pbind (load_ble bl_releasing) (\<lambda>re. pbind (load_ble bl_release_epoch) (\<lambda>ep.
       pbind (load_ble (\<lambda>b. bl_report_handles b ! 0)) (\<lambda>h0. pbind (load_ble (\<lambda>b. bl_report_handles b ! 1)) (\<lambda>h1.
       pbind (load_ble (\<lambda>b. bl_report_handles b ! 2)) (\<lambda>h2.
       pbind (load rt_ble_sequence) (\<lambda>after.
       if prior = after \<and> \<not> sequence_odd after
       then Ret \<lparr>bl_authority_epoch = ae, bl_route_generation = rg, bl_ble_generation = bg,
          bl_connection_handle = ch, bl_profile_activation_epoch = pe, bl_present_roles = pr,
          bl_required_input_subscriptions = rs, bl_report_handles = [h0, h1, h2], bl_active = ac,
          bl_releasing = re, bl_release_epoch = ep, bl_coherent = True\<rparr>
       else ble_snapshot_from left)))))))))))))))"

definition ble_snapshot :: "(runtime, ble_authority) prog" where
  "ble_snapshot = ble_snapshot_from 3"

definition unsafe_route_active :: "u32 \<Rightarrow> hid_transport \<Rightarrow> (runtime, bool) prog" where
  "unsafe_route_active n t =
     (if t = TransportUsb then on_route (route_matches RouteUsb n)
      else pbind ble_snapshot (\<lambda>ble.
        pall [Ret (bl_coherent ble \<and> bl_active ble \<and> bl_route_generation ble = n),
              pmap (\<lambda>e. bl_authority_epoch ble = e) authority_epoch,
              on_route (route_matches RouteBle n)]))"

fun unsafe_kind :: "interface \<Rightarrow> report_kind" where
  "unsafe_kind KeyboardIf = UnsafeKeyboard"
| "unsafe_kind MouseIf = UnsafeMouse"

fun interface_role :: "interface \<Rightarrow> report_role" where
  "interface_role KeyboardIf = RoleKeyboardInput"
| "interface_role MouseIf = RoleMouseInput"

definition ble_tuple_current :: "interface \<Rightarrow> work_token \<Rightarrow> ble_authority \<Rightarrow> bool" where
  "ble_tuple_current i t ble \<longleftrightarrow>
     bl_coherent ble \<and> bl_active ble \<and> bl_authority_epoch ble = wt_authority_epoch t
     \<and> bl_route_generation ble = wt_route_generation t \<and> bl_ble_generation ble = wt_transport_generation t
     \<and> bl_profile_activation_epoch ble = wt_profile_activation_epoch t
     \<and> has_role (bl_present_roles ble) (interface_role i)
     \<and> bl_connection_handle ble = wt_connection_handle t
     \<and> handle_get (bl_report_handles ble) (interface_role i) \<noteq> 0
     \<and> handle_get (bl_report_handles ble) (interface_role i) = wt_characteristic_handle t"

definition unsafe_work_current :: "interface \<Rightarrow> work_token \<Rightarrow> (runtime, bool) prog" where
  "unsafe_work_current i t =
     pbind (load rt_sequence_generation) (\<lambda>current_sequence.
     pif (pany [Ret (wt_report_kind t \<noteq> unsafe_kind i),
                pmap (\<lambda>e. wt_authority_epoch t \<noteq> e) authority_epoch,
                pmap (\<lambda>e. wt_release_epoch t \<noteq> e) release_epoch,
                Ret (if wt_sequence_generation t = 0 then current_sequence \<noteq> 0
                     else wt_sequence_generation t \<noteq> current_sequence),
                pnot (unsafe_route_active (wt_route_generation t) (wt_transport t))])
       (Ret False)
       (if wt_transport t = TransportUsb
        then pall [pmap (\<lambda>n. wt_transport_generation t = n) attach_generation, mounted_and_active i]
        else pmap (ble_tuple_current i t) ble_snapshot))"

text \<open>A published sequence still has its authority.\<close>

definition sequence_authority_current :: "sequence_authority \<Rightarrow> (runtime, bool) prog" where
  "sequence_authority_current sq =
     pif (pany [Ret (sq_generation sq = 0),
                load (\<lambda>m. rt_sequence_generation m \<noteq> sq_generation sq),
                pmap (\<lambda>e. e \<noteq> sq_authority_epoch sq) authority_epoch,
                pmap (\<lambda>e. e \<noteq> sq_release_epoch sq) release_epoch,
                release_producers_blocked, release_requested, any_safety_required])
       (Ret False)
       (if sq_transport sq = TransportUsb
        then pall [Ret (sq_profile_activation_epoch sq = 0 \<and> sq_active_roles sq = kInputRoles),
                   unsafe_route_active (sq_route_generation sq) TransportUsb]
        else pbind ble_snapshot (\<lambda>ble.
          pall [Ret (bl_coherent ble \<and> bl_active ble \<and> bl_authority_epoch ble = sq_authority_epoch sq
                  \<and> bl_route_generation ble = sq_route_generation sq
                  \<and> bl_profile_activation_epoch ble = sq_profile_activation_epoch sq
                  \<and> bl_present_roles ble = sq_active_roles sq),
                unsafe_route_active (sq_route_generation sq) TransportBle]))"

end
