(* ===== verification/RuntimeTickets.thy ===== *)
theory RuntimeTickets
  imports RuntimeState
begin

text \<open>
  The report tickets of \<open>hid_runtime\<close>: one per interface, written by a producer, published, claimed by the
  owner of its transport, handed to the transport stack once and finalized by the producer. The code
  has every function twice, for the keyboard and the mouse ticket; here one definition takes the
  interface. What the stacks answer to a submission is an argument of the operation.
\<close>

section \<open>Cancellation\<close>

definition cancel_release_ticket :: "(runtime, unit) prog" where
  "cancel_release_ticket =
     locked (store (\<lambda>m. if ra_state (rt_release m) = RsAdmitting \<or> ra_state (rt_release m) = RsOpen
       then m\<lparr>rt_release := (rt_release m)\<lparr>ra_state := RsCanceled, ra_keyboard := RiCanceled, ra_mouse := RiCanceled\<rparr>\<rparr>
       else m))"

definition canceled_ticket :: "ticket_outcome \<Rightarrow> report_ticket \<Rightarrow> report_ticket" where
  "canceled_ticket outcome t =
     (if tk_state t = TkWriting then t\<lparr>tk_outcome := outcome, tk_state := TkWritingCanceled\<rparr>
      else if tk_state t = TkPublished then t\<lparr>tk_outcome := outcome, tk_state := TkCanceled\<rparr>
      else t)"

definition cancel_ticket :: "interface \<Rightarrow> ticket_outcome \<Rightarrow> (runtime, unit) prog" where
  "cancel_ticket i outcome = locked (store_ticket i (canceled_ticket outcome))"

definition cancel_keyboard_ticket :: "ticket_outcome \<Rightarrow> (runtime, unit) prog" where
  "cancel_keyboard_ticket = cancel_ticket KeyboardIf"

definition cancel_mouse_ticket :: "ticket_outcome \<Rightarrow> (runtime, unit) prog" where
  "cancel_mouse_ticket = cancel_ticket MouseIf"

definition cancel_tickets :: "ticket_outcome \<Rightarrow> (runtime, unit) prog" where
  "cancel_tickets outcome = pthen (cancel_keyboard_ticket outcome) (cancel_mouse_ticket outcome)"

definition retire_unsafe_route_authority :: "(runtime, unit) prog" where
  "retire_unsafe_route_authority =
     pthen cancel_release_ticket
      (pthen (cancel_tickets ToAuthorityLost) (pthen bump_authority (pbind bump_release (\<lambda>_. Ret ()))))"

section \<open>Work that is still pending\<close>

definition ticket_active :: "report_ticket \<Rightarrow> bool" where
  "ticket_active t \<longleftrightarrow> tk_state t = TkWriting \<or> tk_state t = TkPublished \<or> tk_state t = TkClaimed"

definition slot_busy :: "mailbox_state \<Rightarrow> bool" where
  "slot_busy s \<longleftrightarrow> s = MbWriting \<or> s = MbReady \<or> s = MbExecuting"

definition known_all_up :: "interface \<Rightarrow> (runtime, bool) prog" where
  "known_all_up i =
     pif (load_ticket i ticket_active) (Ret False)
      (pif (pany [load_if i if_logical_state_held, load_if i if_in_flight, load_if i if_safety_required,
                  load_if i if_host_state_uncertain]) (Ret False)
        (pnot (load_if i (\<lambda>s. slot_busy (if_slot_state s)))))"

definition release_interface_work_pending :: "interface \<Rightarrow> (runtime, bool) prog" where
  "release_interface_work_pending i =
     pany [load_if i (\<lambda>s. slot_busy (if_slot_state s)), load_if i if_in_flight,
           locked (load_ticket i (\<lambda>t. tk_ble_action_pending t \<or> ticket_active t))]"

section \<open>Beginning a report\<close>

definition ticket_terminal :: "report_ticket \<Rightarrow> bool" where
  "ticket_terminal t \<longleftrightarrow> tk_state t = TkFree \<or> tk_state t = TkSubmitted \<or> tk_state t = TkNotReady
     \<or> tk_state t = TkCanceled \<and> \<not> tk_ble_action_pending t"

text \<open>The second look at the ticket: a terminal one becomes free.\<close>

definition reap_ticket :: "interface \<Rightarrow> (runtime, bool) prog" where
  "reap_ticket i =
     locked (pbind (load_ticket i id) (\<lambda>t.
       if tk_state t = TkSubmitted \<or> tk_state t = TkNotReady \<or> tk_state t = TkCanceled
       then if tk_state t = TkCanceled \<and> tk_ble_action_pending t then Ret False
         else pthen (store_ticket i (\<lambda>t. t\<lparr>tk_state := TkFree\<rparr>)) (Ret True)
       else Ret (tk_state t = TkFree)))"

definition reserve_ticket ::
    "interface \<Rightarrow> (u64 \<Rightarrow> report_ticket \<Rightarrow> report_ticket) \<Rightarrow> (runtime, begin_result + u64) prog" where
  "reserve_ticket i fill =
     locked (pif (load_ticket i (\<lambda>t. tk_state t \<noteq> TkFree)) (Ret (Inl BrBusy))
       (pthen (store_ticket i (\<lambda>t. t\<lparr>tk_state := TkWriting\<rparr>))
         (pbind allocate_public_ticket_id (\<lambda>n. case n of
            None \<Rightarrow> pthen (store_ticket i (\<lambda>t. t\<lparr>tk_state := TkFree\<rparr>)) (Ret (Inl BrNotReady))
          | Some ticket_id \<Rightarrow> pthen (store_ticket i (fill ticket_id)) (Ret (Inr ticket_id))))))"

fun refusal_of :: "ticket_outcome \<Rightarrow> begin_result" where
  "refusal_of ToAuthorityLost = BrAuthorityLost"
| "refusal_of ToBusy = BrBusy"
| "refusal_of ToSafetyPending = BrSafetyPending"
| "refusal_of _ = BrNotReady"

definition safety_debt :: "(runtime, bool) prog" where
  "safety_debt = pany [release_producers_blocked, release_requested, any_safety_required]"

text \<open>The last section of \<open>begin_keyboard_report\<close>: publish the written ticket or cancel it.\<close>

definition publish_section ::
    "interface \<Rightarrow> work_token \<Rightarrow> bool \<Rightarrow> bool \<Rightarrow> bool \<Rightarrow> (runtime, begin_result \<times> u64) prog" where
  "publish_section i token sequence_conflict stale_sequence final_fence_failed =
     pbind (load_ticket i id) (\<lambda>t.
       if tk_ticket_id t \<noteq> wt_ticket_id token then Ret (BrAuthorityLost, 0)
       else if tk_state t = TkWritingCanceled
       then pbind (pany [Ret stale_sequence, pmap (\<lambda>e. wt_authority_epoch token \<noteq> e) authority_epoch,
                         pnot (unsafe_route_active (wt_route_generation token) (wt_transport token))]) (\<lambda>lost.
         let outcome = (if lost then ToAuthorityLost else tk_outcome t) in
         pthen (store_ticket i (\<lambda>t. t\<lparr>tk_outcome := outcome, tk_state := TkCanceled\<rparr>))
           (Ret (if outcome = ToAuthorityLost then BrAuthorityLost else BrSafetyPending, 0)))
       else if tk_state t \<noteq> TkWriting then Ret (BrAuthorityLost, 0)
       else if final_fence_failed
       then pbind (pany [pmap (\<lambda>e. wt_authority_epoch token \<noteq> e) authority_epoch,
                         pnot (unsafe_route_active (wt_route_generation token) (wt_transport token))]) (\<lambda>authority_lost.
         pbind safety_debt (\<lambda>safety.
         let outcome = (if sequence_conflict then (if stale_sequence then ToAuthorityLost else ToBusy)
                        else if authority_lost then ToAuthorityLost
                        else if safety then ToSafetyPending else ToNotReady) in
         pthen (store_ticket i (\<lambda>t. t\<lparr>tk_outcome := outcome, tk_state := TkCanceled\<rparr>)) (Ret (refusal_of outcome, 0))))
       else pthen (store_ticket i (\<lambda>t. t\<lparr>tk_state := TkPublished\<rparr>)) (Ret (BrPublished, wt_ticket_id token)))"

definition publish_ticket ::
    "interface \<Rightarrow> work_token \<Rightarrow> bool \<Rightarrow> bool \<Rightarrow> bool \<Rightarrow> (runtime, begin_result \<times> u64) prog" where
  "publish_ticket i token sequence_conflict stale_sequence final_fence_failed =
     locked (publish_section i token sequence_conflict stale_sequence final_fence_failed)"

definition fill_ticket :: "work_token \<Rightarrow> u8 list \<Rightarrow> u64 \<Rightarrow> report_ticket \<Rightarrow> report_ticket" where
  "fill_ticket token report ticket_id t =
     t\<lparr>tk_transport_generation := wt_transport_generation token, tk_authority_epoch := wt_authority_epoch token,
       tk_route_generation := wt_route_generation token, tk_transport := wt_transport token,
       tk_profile_activation_epoch := wt_profile_activation_epoch token, tk_ticket_id := ticket_id,
       tk_release_epoch := wt_release_epoch token, tk_sequence_generation := wt_sequence_generation token,
       tk_originating_local_owner_id := wt_originating_local_owner_id token,
       tk_connection_handle := wt_connection_handle token,
       tk_characteristic_handle := wt_characteristic_handle token, tk_ble_action_pending := False,
       tk_report := report, tk_outcome := ToNone\<rparr>"

text \<open>The fences between writing a ticket and publishing it.\<close>

definition finish_begin ::
    "interface \<Rightarrow> work_token \<Rightarrow> sequence_authority \<Rightarrow> (runtime, begin_result \<times> u64) prog" where
  "finish_begin i token0 sq =
     pbind (load_ticket i tk_profile_activation_epoch) (\<lambda>pe. pbind (load_ticket i tk_connection_handle) (\<lambda>ch.
     pbind (load_ticket i tk_characteristic_handle) (\<lambda>ah.
     let token = token0\<lparr>wt_profile_activation_epoch := pe, wt_connection_handle := ch,
                        wt_characteristic_handle := ah\<rparr> in
     pbind (pall [Ret (sq_generation sq = 0), sequence_active]) (\<lambda>ordinary_sequence_conflict.
     pbind (pall [Ret (sq_generation sq \<noteq> 0), pnot (sequence_authority_current sq)]) (\<lambda>stale_sequence.
     let sequence_conflict = (ordinary_sequence_conflict \<or> stale_sequence) in
     pbind (pany [Ret sequence_conflict, pnot (unsafe_work_current i token),
                  pmap (\<lambda>e. wt_release_epoch token \<noteq> e) release_epoch, release_producers_blocked,
                  release_requested, any_safety_required, load_if i if_in_flight,
                  load_if i (\<lambda>s. if_slot_state s \<noteq> MbEmpty)]) (\<lambda>final_fence_failed.
     publish_ticket i token sequence_conflict stale_sequence final_fence_failed))))))"

definition write_ticket ::
    "interface \<Rightarrow> u8 list \<Rightarrow> sequence_authority \<Rightarrow> u64 \<Rightarrow> bool \<Rightarrow> route_snapshot \<Rightarrow> ble_authority
      \<Rightarrow> (runtime, begin_result \<times> u64) prog" where
  "write_ticket i report sq owner usb_route rt ble =
     pbind (if usb_route then attach_generation else Ret (bl_ble_generation ble)) (\<lambda>gen.
     pbind authority_epoch (\<lambda>epoch. pbind release_epoch (\<lambda>rel.
     let token = \<lparr>wt_authority_epoch = epoch, wt_route_generation = route_snapshot.sn_generation rt,
           wt_transport_generation = gen,
           wt_profile_activation_epoch = (if usb_route then 0 else bl_profile_activation_epoch ble),
           wt_ticket_id = 0, wt_release_epoch = rel, wt_sequence_generation = sq_generation sq,
           wt_originating_local_owner_id = owner,
           wt_connection_handle = (if usb_route then kNoBleConnection else bl_connection_handle ble),
           wt_characteristic_handle =
             (if usb_route then 0 else handle_get (bl_report_handles ble) (interface_role i)),
           wt_transport = (if usb_route then TransportUsb else TransportBle),
           wt_report_kind = unsafe_kind i\<rparr> in
     pbind (reserve_ticket i (fill_ticket token report)) (\<lambda>r. case r of
       Inl refused \<Rightarrow> Ret (refused, 0)
     | Inr ticket_id \<Rightarrow> finish_begin i (token\<lparr>wt_ticket_id := ticket_id\<rparr>) sq))))"

text \<open>
  \<open>begin_keyboard_report\<close> and \<open>begin_mouse_report\<close>: \<open>already\<close> is the test for a report that would change
  nothing. The result has the ticket id, 0 unless the report is published.
\<close>

definition begin_report ::
    "interface \<Rightarrow> u8 list \<Rightarrow> (runtime, bool) prog \<Rightarrow> sequence_authority \<Rightarrow> u64 \<Rightarrow> (runtime, begin_result \<times> u64) prog" where
  "begin_report i report already sq owner =
     scoped False (BrBusy, 0)
      (pif (pall [Ret (sq_generation sq = 0), sequence_active]) (Ret (BrBusy, 0))
      (pif (pall [Ret (sq_generation sq \<noteq> 0), pnot (sequence_authority_current sq)]) (Ret (BrAuthorityLost, 0))
      (pif (pnot (locked (load_ticket i ticket_terminal))) (Ret (BrBusy, 0))
      (pbind runtime_status (\<lambda>st. pbind (on_route snapshot) (\<lambda>rt. pbind ble_snapshot (\<lambda>ble.
       pbind (pall [Ret (sn_coherent rt \<and> sn_active rt = RouteUsb \<and> \<not> st_suspended st \<and> st_mounted st
                        \<and> interface_ready i st),
                    unsafe_route_active (route_snapshot.sn_generation rt) TransportUsb]) (\<lambda>usb_route.
       pbind (pall [Ret (sn_coherent rt \<and> bl_coherent ble \<and> bl_active ble \<and> sn_active rt = RouteBle
                        \<and> bl_route_generation ble = route_snapshot.sn_generation rt),
                    pmap (\<lambda>e. bl_authority_epoch ble = e) authority_epoch,
                    unsafe_route_active (route_snapshot.sn_generation rt) TransportBle]) (\<lambda>ble_route.
       if \<not> usb_route \<and> \<not> ble_route then Ret (BrNotReady, 0)
       else pif safety_debt (Ret (BrSafetyPending, 0))
        (if ble_route \<and> \<not> has_role (bl_present_roles ble) (interface_role i)
         then Ret (BrUnsupportedOperation, 0)
         else pif (pnot (reap_ticket i)) (Ret (BrBusy, 0))
          (pif (pany [load_if i if_in_flight, load_if i (\<lambda>s. if_slot_state s \<noteq> MbEmpty)]) (Ret (BrBusy, 0))
            (pif already (Ret (BrAlreadySet, 0)) (write_ticket i report sq owner usb_route rt ble)))))))))))))"

definition begin_keyboard_report ::
    "u8 \<Rightarrow> u8 list \<Rightarrow> sequence_authority \<Rightarrow> u64 \<Rightarrow> (runtime, begin_result \<times> u64) prog" where
  "begin_keyboard_report modifiers keycodes sq owner =
     (let report = [modifiers, 0] @ keycodes;
          desired_all_up = (modifiers = 0 \<and> keycodes = replicate 6 0)
      in begin_report KeyboardIf report
        (pall [Ret (\<not> desired_all_up), confirmed_keyboard_equals report,
               pnot (load_if KeyboardIf if_host_state_uncertain), pnot (load_if KeyboardIf if_safety_required)])
        sq owner)"

definition begin_mouse_report ::
    "u8 \<Rightarrow> u8 \<Rightarrow> u8 \<Rightarrow> u8 \<Rightarrow> u8 \<Rightarrow> sequence_authority \<Rightarrow> u64 \<Rightarrow> (runtime, begin_result \<times> u64) prog" where
  "begin_mouse_report buttons x y vertical horizontal sq owner =
     (let no_relative_delta = (x = 0 \<and> y = 0 \<and> vertical = 0 \<and> horizontal = 0)
      in begin_report MouseIf [buttons AND 0x1f, x, y, vertical, horizontal]
        (pall [Ret no_relative_delta, pmap (\<lambda>b. buttons AND 0x1f = b) read_confirmed_mouse,
               pnot (load_if MouseIf if_host_state_uncertain), pnot (load_if MouseIf if_safety_required)])
        sq owner)"

section \<open>Looking at, cancelling and finalizing a ticket\<close>

type_synonym report_snapshot = "ticket_state \<times> ticket_outcome \<times> u64"

definition snapshot_ticket :: "report_ticket \<Rightarrow> report_snapshot" where
  "snapshot_ticket t = (tk_state t, tk_outcome t, tk_ticket_id t)"

definition report_snapshot_now :: "interface \<Rightarrow> (runtime, report_snapshot) prog" where
  "report_snapshot_now i = locked (load_ticket i snapshot_ticket)"

definition report_snapshot :: "interface \<Rightarrow> u64 \<Rightarrow> (runtime, report_snapshot option) prog" where
  "report_snapshot i ticket_id =
     (if ticket_id = 0 then Ret None
      else locked (load_ticket i (\<lambda>t. if tk_ticket_id t \<noteq> ticket_id then None else Some (snapshot_ticket t))))"

definition cancel_report :: "interface \<Rightarrow> u64 \<Rightarrow> (runtime, bool) prog" where
  "cancel_report i ticket_id =
     locked (pbind (load_ticket i id) (\<lambda>t.
       if ticket_id = 0 \<or> tk_ticket_id t \<noteq> ticket_id then Ret False
       else if tk_state t \<noteq> TkPublished then Ret False
       else pthen (store_ticket i (\<lambda>t. t\<lparr>tk_outcome := ToNotReady, tk_state := TkCanceled\<rparr>)) (Ret True)))"

definition cancel_keyboard_report :: "u64 \<Rightarrow> (runtime, bool) prog" where
  "cancel_keyboard_report = cancel_report KeyboardIf"

definition cancel_mouse_report :: "u64 \<Rightarrow> (runtime, bool) prog" where
  "cancel_mouse_report = cancel_report MouseIf"

definition finalize_report :: "interface \<Rightarrow> u64 \<Rightarrow> (runtime, bool) prog" where
  "finalize_report i ticket_id =
     (if ticket_id = 0 then Ret False
      else locked (pbind (load_ticket i id) (\<lambda>t.
        if tk_ticket_id t \<noteq> ticket_id then Ret False
        else if tk_state t \<noteq> TkSubmitted \<and> tk_state t \<noteq> TkNotReady \<and> tk_state t \<noteq> TkCanceled then Ret False
        else if tk_state t = TkCanceled \<and> tk_ble_action_pending t then Ret False
        else pthen (store_ticket i (\<lambda>t. t\<lparr>tk_state := TkFree\<rparr>)) (Ret True))))"

definition finalize_keyboard_report :: "u64 \<Rightarrow> (runtime, bool) prog" where
  "finalize_keyboard_report = finalize_report KeyboardIf"

definition finalize_mouse_report :: "u64 \<Rightarrow> (runtime, bool) prog" where
  "finalize_mouse_report = finalize_report MouseIf"

section \<open>Tokens\<close>

definition ticket_token :: "interface \<Rightarrow> report_ticket \<Rightarrow> work_token" where
  "ticket_token i t = \<lparr>wt_authority_epoch = tk_authority_epoch t, wt_route_generation = tk_route_generation t,
     wt_transport_generation = tk_transport_generation t,
     wt_profile_activation_epoch = tk_profile_activation_epoch t, wt_ticket_id = tk_ticket_id t,
     wt_release_epoch = tk_release_epoch t, wt_sequence_generation = tk_sequence_generation t,
     wt_originating_local_owner_id = tk_originating_local_owner_id t,
     wt_connection_handle = tk_connection_handle t, wt_characteristic_handle = tk_characteristic_handle t,
     wt_transport = tk_transport t, wt_report_kind = unsafe_kind i\<rparr>"

definition no_token :: work_token where
  "no_token = \<lparr>wt_authority_epoch = 0, wt_route_generation = 0, wt_transport_generation = 0,
     wt_profile_activation_epoch = 0, wt_ticket_id = 0, wt_release_epoch = 0, wt_sequence_generation = 0,
     wt_originating_local_owner_id = 0, wt_connection_handle = kNoBleConnection,
     wt_characteristic_handle = 0, wt_transport = TransportUsb, wt_report_kind = UnsafeKeyboard\<rparr>"

definition current_report_token :: "interface \<Rightarrow> (runtime, work_token) prog" where
  "current_report_token i = locked (load_ticket i (ticket_token i))"

definition report_token_matches :: "interface \<Rightarrow> work_token \<Rightarrow> (runtime, bool) prog" where
  "report_token_matches i token =
     locked (load_ticket i (\<lambda>t. wt_ticket_id token \<noteq> 0 \<and> same_work_token (ticket_token i t) token))"

definition published_report_token :: "interface \<Rightarrow> (runtime, work_token) prog" where
  "published_report_token i =
     locked (load_ticket i (\<lambda>t. if tk_state t = TkPublished then ticket_token i t else no_token))"

definition mark_ble_report_scheduled :: "interface \<Rightarrow> work_token \<Rightarrow> (runtime, bool) prog" where
  "mark_ble_report_scheduled i token =
     locked (pbind (load_ticket i id) (\<lambda>t.
       if wt_transport token \<noteq> TransportBle \<or> wt_ticket_id token = 0
         \<or> \<not> same_work_token (ticket_token i t) token then Ret False
       else if tk_ble_action_pending t then Ret False
       else pthen (store_ticket i (\<lambda>t. t\<lparr>tk_ble_action_pending := True\<rparr>))
         (pbind (load_ticket i id) (\<lambda>t.
          if tk_state t \<noteq> TkPublished \<or> \<not> same_work_token (ticket_token i t) token
          then pthen (store_ticket i (\<lambda>t. t\<lparr>tk_ble_action_pending := False\<rparr>)) (Ret False)
          else Ret True))))"

definition abandon_ble_report :: "interface \<Rightarrow> work_token \<Rightarrow> (runtime, unit) prog" where
  "abandon_ble_report i token =
     locked (pbind (load_ticket i id) (\<lambda>t.
       if wt_ticket_id token = 0 \<or> \<not> same_work_token (ticket_token i t) token then Ret ()
       else store_ticket i (\<lambda>t. t\<lparr>tk_ble_action_pending := False\<rparr>)))"

definition ble_work_token_current :: "interface \<Rightarrow> work_token \<Rightarrow> (runtime, bool) prog" where
  "ble_work_token_current i token =
     pif (pany [Ret (wt_transport token \<noteq> TransportBle \<or> wt_ticket_id token = 0),
                pnot (unsafe_work_current i token)]) (Ret False)
      (locked (load_ticket i (\<lambda>t. (tk_state t = TkPublished \<or> tk_state t = TkClaimed)
         \<and> same_work_token (ticket_token i t) token)))"

section \<open>Handing a report to the stack\<close>

definition hand_over :: "submission \<Rightarrow> (runtime, unit) prog" where
  "hand_over su = store (\<lambda>m. m\<lparr>rt_sent := rt_sent m @ [su]\<rparr>)"

text \<open>A claimed ticket reaches its terminal state.\<close>

definition terminalize ::
    "interface \<Rightarrow> (report_ticket \<Rightarrow> bool) \<Rightarrow> ticket_outcome \<Rightarrow> ticket_state \<Rightarrow> (runtime, bool) prog" where
  "terminalize i matches outcome terminal_state =
     locked (pbind (load_ticket i id) (\<lambda>t.
       if \<not> matches t \<or> tk_state t \<noteq> TkClaimed then Ret False
       else pthen (store_ticket i (\<lambda>t. t\<lparr>tk_outcome := outcome, tk_state := terminal_state\<rparr>)) (Ret True)))"

definition claim_usb_ticket :: "interface \<Rightarrow> (runtime, report_ticket option) prog" where
  "claim_usb_ticket i =
     locked (pbind (load_ticket i id) (\<lambda>t.
       if tk_state t \<noteq> TkPublished \<or> tk_transport t \<noteq> TransportUsb then Ret None
       else pthen (store_ticket i (\<lambda>t. t\<lparr>tk_state := TkClaimed\<rparr>)) (Ret (Some t))))"

definition sequence_changed :: "report_ticket \<Rightarrow> (runtime, bool) prog" where
  "sequence_changed t =
     (if tk_sequence_generation t = 0 then sequence_active
      else load (\<lambda>m. rt_sequence_generation m \<noteq> tk_sequence_generation t))"

fun put_details :: "interface \<Rightarrow> u8 list \<Rightarrow> interface_state \<Rightarrow> interface_state" where
  "put_details KeyboardIf report s = s\<lparr>if_modifiers := report ! 0, if_keycodes := take 6 (drop 2 report)\<rparr>"
| "put_details MouseIf report s = s\<lparr>if_buttons := report ! 0 AND 0x1f\<rparr>"

text \<open>\<open>memcpy\<close> of a report to the start of a buffer.\<close>

definition copy_report :: "u8 list \<Rightarrow> u8 list \<Rightarrow> u8 list" where
  "copy_report src dst = src @ drop (length src) dst"

definition ticket_work :: "interface \<Rightarrow> report_ticket \<Rightarrow> u32 \<Rightarrow> u32 \<Rightarrow> report_work \<Rightarrow> report_work" where
  "ticket_work i t gen epoch w =
     w\<lparr>rw_transport_generation := gen, rw_authority_epoch := epoch, rw_route_generation := tk_route_generation t,
       rw_transport := tk_transport t, rw_ticket_id := tk_ticket_id t, rw_release_epoch := tk_release_epoch t,
       rw_release_id := 0, rw_sequence_generation := tk_sequence_generation t,
       rw_originating_local_owner_id := tk_originating_local_owner_id t, rw_kind := unsafe_kind i,
       rw_length := of_nat (report_size i), rw_report := copy_report (tk_report t) (rw_report w)\<rparr>"

text \<open>The last section of \<open>process_keyboard_ticket\<close>, after TinyUSB accepted the report.\<close>

definition record_accepted :: "interface \<Rightarrow> report_ticket \<Rightarrow> u32 \<Rightarrow> u32 \<Rightarrow> (runtime, bool) prog" where
  "record_accepted i t current_generation current_authority_epoch =
     pthen (store_if i (\<lambda>s. s\<lparr>if_work := ticket_work i t current_generation current_authority_epoch (if_work s)\<rparr>))
      (pthen (store_if i (\<lambda>s. s\<lparr>if_in_flight := True\<rparr>))
       (pthen (store_if i (put_details i (tk_report t)))
        (pthen (store_if i (\<lambda>s. s\<lparr>if_logical_state_held :=
            unsafe_report_holds_state (unsafe_kind i) (tk_report t) (of_nat (report_size i))\<rparr>))
          (terminalize i (\<lambda>u. tk_ticket_id u = tk_ticket_id t) ToSubmitted TkSubmitted))))"

definition submit_usb_ticket :: "interface \<Rightarrow> bool \<Rightarrow> report_ticket \<Rightarrow> u32 \<Rightarrow> u32 \<Rightarrow> (runtime, bool) prog" where
  "submit_usb_ticket i accepted t current_generation current_authority_epoch =
     (let mine = (\<lambda>u. tk_ticket_id u = tk_ticket_id t) in
     pthen (hand_over \<lparr>su_ticket = Some (tk_ticket_id t), su_interface = i, su_transport = TransportUsb,
         su_report = tk_report t, su_accepted = accepted\<rparr>)
      (if \<not> accepted then pbind (terminalize i mine ToNotReady TkNotReady) (\<lambda>_. Ret False)
       else record_accepted i t current_generation current_authority_epoch))"

definition process_usb_ticket :: "interface \<Rightarrow> bool \<Rightarrow> u32 \<Rightarrow> u32 \<Rightarrow> (runtime, bool) prog" where
  "process_usb_ticket i accepted current_generation current_authority_epoch =
     pbind (claim_usb_ticket i) (\<lambda>claimed. case claimed of
       None \<Rightarrow> Ret False
     | Some t \<Rightarrow>
         let mine = (\<lambda>u. tk_ticket_id u = tk_ticket_id t) in
         pbind (pany [Ret (tk_transport_generation t \<noteq> current_generation),
                      Ret (tk_authority_epoch t \<noteq> current_authority_epoch), sequence_changed t]) (\<lambda>authority_lost.
         pbind (pany [pmap (\<lambda>e. tk_release_epoch t \<noteq> e) release_epoch, safety_debt]) (\<lambda>safety_pending.
         pbind (pany [pnot (mounted_and_active i),
                      pnot (unsafe_route_active (tk_route_generation t) (tk_transport t))]) (\<lambda>not_ready.
         pbind (pany [load_if i if_in_flight, load_if i (\<lambda>s. if_slot_state s \<noteq> MbEmpty)]) (\<lambda>busy.
         if authority_lost \<or> safety_pending \<or> not_ready \<or> busy
         then pbind (terminalize i mine
             (if authority_lost then ToAuthorityLost else if safety_pending then ToSafetyPending
              else if busy then ToBusy else ToNotReady) TkCanceled) (\<lambda>_. Ret False)
         else
           pif (pany [pmap (\<lambda>n. tk_transport_generation t \<noteq> n) attach_generation,
                      pmap (\<lambda>e. tk_authority_epoch t \<noteq> e) authority_epoch,
                      pmap (\<lambda>e. tk_release_epoch t \<noteq> e) release_epoch, sequence_changed t,
                      pnot (unsafe_route_active (tk_route_generation t) (tk_transport t)),
                      pnot (mounted_and_active i), safety_debt])
             (pbind (pany [pmap (\<lambda>n. tk_transport_generation t \<noteq> n) attach_generation,
                           pmap (\<lambda>e. tk_authority_epoch t \<noteq> e) authority_epoch]) (\<lambda>lost.
              pbind (terminalize i mine (if lost then ToAuthorityLost else ToSafetyPending) TkCanceled) (\<lambda>_. Ret False)))
             (submit_usb_ticket i accepted t current_generation current_authority_epoch))))))"

definition process_keyboard_ticket :: "bool \<Rightarrow> u32 \<Rightarrow> u32 \<Rightarrow> (runtime, bool) prog" where
  "process_keyboard_ticket = process_usb_ticket KeyboardIf"

definition process_mouse_ticket :: "bool \<Rightarrow> u32 \<Rightarrow> u32 \<Rightarrow> (runtime, bool) prog" where
  "process_mouse_ticket = process_usb_ticket MouseIf"

section \<open>The BLE route\<close>

text \<open>The two tuples agree on every field that identifies the route.\<close>

definition same_ble_route :: "ble_authority \<Rightarrow> ble_authority \<Rightarrow> bool" where
  "same_ble_route a b \<longleftrightarrow> bl_authority_epoch a = bl_authority_epoch b
     \<and> bl_route_generation a = bl_route_generation b \<and> bl_ble_generation a = bl_ble_generation b
     \<and> bl_connection_handle a = bl_connection_handle b
     \<and> bl_profile_activation_epoch a = bl_profile_activation_epoch b
     \<and> bl_present_roles a = bl_present_roles b
     \<and> bl_required_input_subscriptions a = bl_required_input_subscriptions b
     \<and> bl_report_handles a = bl_report_handles b \<and> bl_release_epoch a = bl_release_epoch b"

definition retire_ble_route_if_matches :: "ble_authority \<Rightarrow> bool \<Rightarrow> interface \<Rightarrow> (runtime, bool) prog" where
  "retire_ble_route_if_matches expected report_state_uncertain uncertain_interface =
     pbind ble_snapshot (\<lambda>current. pbind (on_route snapshot) (\<lambda>rt.
     let exact = (bl_coherent expected \<and> bl_active expected \<and> \<not> bl_releasing expected \<and> bl_coherent current
           \<and> bl_active current \<and> same_ble_route current expected \<and> sn_coherent rt \<and> \<not> sn_pending rt
           \<and> sn_active rt = RouteBle \<and> route_snapshot.sn_desired rt = RouteBle \<and> sn_transition rt = RouteStable
           \<and> route_snapshot.sn_generation rt = bl_route_generation expected) in
     if \<not> exact then Ret False
     else pbind (on_route begin_ble_release) (\<lambda>(begun, stage_a).
     if \<not> begun then Ret False
     else
       pthen retire_unsafe_route_authority (pbind release_epoch (\<lambda>retirement_epoch.
       pthen ble_tick
        (pthen (store_ble (\<lambda>b. b\<lparr>bl_active := False\<rparr>))
        (pthen (store_ble (\<lambda>b. b\<lparr>bl_releasing := True\<rparr>))
        (pthen (store_ble (\<lambda>b. b\<lparr>bl_release_epoch := retirement_epoch\<rparr>))
        (pthen ble_tick
        (pthen (if report_state_uncertain
                then pthen (store_if uncertain_interface (\<lambda>s. s\<lparr>if_host_state_uncertain := True\<rparr>))
                  (store_if uncertain_interface (\<lambda>s. s\<lparr>if_safety_required := True\<rparr>))
                else Ret ())
        (pthen (pfor both (\<lambda>i. pif (pany [load_if i if_logical_state_held, load_if i if_host_state_uncertain])
                  (store_if i (\<lambda>s. s\<lparr>if_safety_required := True\<rparr>)) (Ret ())))
          (Ret True)))))))))))) "

text \<open>The claim of \<open>process_ble_report\<close>: the payload when the ticket was published and scheduled.\<close>

definition claim_ble_ticket :: "interface \<Rightarrow> work_token \<Rightarrow> (runtime, u8 list option) prog" where
  "claim_ble_ticket i token =
     locked (pbind (load_ticket i id) (\<lambda>t.
       if \<not> same_work_token (ticket_token i t) token then Ret None
       else if \<not> tk_ble_action_pending t then Ret None
       else if tk_state t = TkCanceled
       then pthen (store_ticket i (\<lambda>t. t\<lparr>tk_ble_action_pending := False\<rparr>)) (Ret None)
       else if tk_state t \<noteq> TkPublished then Ret None
       else pthen (store_ticket i (\<lambda>t. t\<lparr>tk_state := TkClaimed, tk_ble_action_pending := False\<rparr>))
         (Ret (Some (tk_report t)))))"

datatype ble_submit_result = BleStackAccepted | BleNotReady | BleStale | BleResourceFailure | BleStackRejected

fun confirm_payload :: "interface \<Rightarrow> u8 list \<Rightarrow> (runtime, unit) prog" where
  "confirm_payload KeyboardIf payload =
     pthen (write_confirmed_keyboard payload)
       (store_if KeyboardIf (\<lambda>s. s\<lparr>if_logical_state_held := unsafe_report_holds_state UnsafeKeyboard payload 8\<rparr>))"
| "confirm_payload MouseIf payload =
     pbind (load_if MouseIf if_buttons) (\<lambda>buttons.
     pthen (write_confirmed_mouse buttons) (store_if MouseIf (\<lambda>s. s\<lparr>if_logical_state_held := (buttons \<noteq> 0)\<rparr>)))"

definition submit_ble_ticket ::
    "interface \<Rightarrow> work_token \<Rightarrow> ble_submit_result \<Rightarrow> u8 list \<Rightarrow> (runtime, bool) prog" where
  "submit_ble_ticket i token result payload =
     (let mine = (\<lambda>u. same_work_token (ticket_token i u) token) in
     pthen (hand_over \<lparr>su_ticket = Some (wt_ticket_id token), su_interface = i, su_transport = TransportBle,
         su_report = payload, su_accepted = (result = BleStackAccepted)\<rparr>)
      (if result \<noteq> BleStackAccepted
       then pbind ble_snapshot (\<lambda>route_authority.
         pbind (retire_ble_route_if_matches route_authority
             (result = BleResourceFailure \<or> result = BleStackRejected) i) (\<lambda>_.
         pbind (terminalize i mine ToAuthorityLost TkCanceled) (\<lambda>_. Ret False)))
       else
         pthen (store_if i (\<lambda>s. s\<lparr>if_host_state_uncertain := False\<rparr>))
          (pthen (store_if i (put_details i payload))
           (pthen (confirm_payload i payload) (terminalize i mine ToSubmitted TkSubmitted)))))"

definition process_ble_report :: "interface \<Rightarrow> work_token \<Rightarrow> ble_submit_result \<Rightarrow> (runtime, bool) prog" where
  "process_ble_report i token result =
     (if wt_transport token \<noteq> TransportBle \<or> wt_ticket_id token = 0 then Ret False
      else pbind (claim_ble_ticket i token) (\<lambda>claimed. case claimed of
        None \<Rightarrow> Ret False
      | Some payload \<Rightarrow>
          let mine = (\<lambda>u. same_work_token (ticket_token i u) token);
              fence = pany [pnot (ble_work_token_current i token), safety_debt];
              fail = pbind (terminalize i mine ToAuthorityLost TkCanceled) (\<lambda>_. Ret False)
          in pif fence fail (pif fence fail (submit_ble_ticket i token result payload))))"

end
