(* ===== verification/RuntimeRelease.thy ===== *)
theory RuntimeRelease
  imports RuntimeTickets
begin

text \<open>
  The release side of \<open>hid_runtime\<close>: requests to release everything, the public release transaction and
  its BLE continuity, and the interface outcomes. A snapshot of the release ticket is the ticket; the
  flags that \<open>ReleaseAllSnapshot\<close> derives from its state are functions of it. \<open>fuel\<close> bounds the rounds of
  the reconciler's loops; every finite run of the code is a run with enough fuel.
\<close>

section \<open>Release requests\<close>

definition request_identity_is :: "u32 \<Rightarrow> u32 \<Rightarrow> u32 \<Rightarrow> (runtime, bool) prog list" where
  "request_identity_is gen epoch rel =
     [load (\<lambda>m. rt_request_generation m = gen), load (\<lambda>m. rt_request_authority_epoch m = epoch),
      load (\<lambda>m. rt_request_epoch m = rel)]"

definition request_current :: "u32 \<Rightarrow> u32 \<Rightarrow> u32 \<Rightarrow> (runtime, bool) prog list" where
  "request_current gen epoch rel =
     request_identity_is gen epoch rel
     @ [pmap (\<lambda>n. n = gen) attach_generation, pmap (\<lambda>e. e = epoch) authority_epoch,
        pmap (\<lambda>e. e = rel) release_epoch]"

definition active_release_request_is_current :: "u32 \<Rightarrow> u32 \<Rightarrow> u32 \<Rightarrow> (runtime, bool) prog" where
  "active_release_request_is_current gen epoch rel = pall (release_requested # request_current gen epoch rel)"

definition release_request_is_current :: "u32 \<Rightarrow> u32 \<Rightarrow> u32 \<Rightarrow> (runtime, bool) prog" where
  "release_request_is_current gen epoch rel = pall (pnot release_requested # request_current gen epoch rel)"

abbreviation us_desired where "us_desired \<equiv> usb_snapshot.sn_desired"
abbreviation us_observed where "us_observed \<equiv> usb_snapshot.sn_observed"
abbreviation us_recovery where "us_recovery \<equiv> usb_snapshot.sn_recovery_required"
abbreviation us_uncertain where "us_uncertain \<equiv> usb_snapshot.sn_host_release_uncertain"

definition load_lifecycle :: "(usb_snapshot \<Rightarrow> 'a) \<Rightarrow> (runtime, 'a) prog" where
  "load_lifecycle f = load_usb (\<lambda>u. f (usb_snapshot u))"

definition unavailable_usb_transport_is_clean :: "(runtime, bool) prog" where
  "unavailable_usb_transport_is_clean =
     pbind runtime_status (\<lambda>st. pbind (load_lifecycle id) (\<lambda>lc.
     pall [Ret ((us_observed lc = DriverNotInstalled \<or> us_observed lc = Disconnected)
             \<and> \<not> st_mounted st \<and> \<not> st_suspended st \<and> \<not> us_recovery lc \<and> \<not> us_uncertain lc),
           known_all_up KeyboardIf, known_all_up MouseIf]))"

definition zero_work_refused :: "u32 \<Rightarrow> u32 \<Rightarrow> u32 \<Rightarrow> bool \<Rightarrow> (runtime, bool) prog" where
  "zero_work_refused gen epoch rel require_unavailable =
     pany [pnot (release_request_is_current gen epoch rel), pnot (known_all_up KeyboardIf),
           pnot (known_all_up MouseIf), load_lifecycle us_uncertain, load_lifecycle us_recovery,
           pall [Ret require_unavailable, pnot unavailable_usb_transport_is_clean]]"

definition reconcile_zero_work_release :: "u32 \<Rightarrow> u32 \<Rightarrow> u32 \<Rightarrow> bool \<Rightarrow> (runtime, unit) prog" where
  "reconcile_zero_work_release gen epoch rel require_unavailable =
     pif (zero_work_refused gen epoch rel require_unavailable) (Ret ())
      (pif (zero_work_refused gen epoch rel require_unavailable) (Ret ())
        (pbind (usb_flag clear_release_pending_if_not_uncertain) (\<lambda>_.
         pbind (load_lifecycle id) (\<lambda>after_clear.
         pif (pany [release_requested, pnot (known_all_up KeyboardIf), pnot (known_all_up MouseIf),
                    Ret (us_uncertain after_clear \<or> us_recovery after_clear)])
           (store_usb mark_release_pending) (Ret ())))))"

text \<open>One round of the reconciler's inner loop; \<open>False\<close> is its \<open>break\<close>.\<close>

definition set_requested :: "bool \<Rightarrow> (runtime, unit) prog" where
  "set_requested b = store (\<lambda>m. m\<lparr>rt_release_requested := b\<rparr>)"

definition reassert_release :: "(runtime, unit) prog" where
  "reassert_release =
     pbind attach_generation (\<lambda>gen. pbind authority_epoch (\<lambda>epoch. pbind release_epoch (\<lambda>rel.
     pif (pall (request_identity_is gen epoch rel))
       (pthen (set_requested True) (store_usb mark_release_pending)) (Ret ()))))"

definition reconcile_round :: "(runtime, bool) prog" where
  "reconcile_round =
     pbind (load rt_request_generation) (\<lambda>gen. pbind (load rt_request_authority_epoch) (\<lambda>epoch.
     pbind (load rt_request_epoch) (\<lambda>rel.
     pif (pnot (active_release_request_is_current gen epoch rel)) (Ret False)
      (pthen (set_requested False)
        (pif (pnot (release_request_is_current gen epoch rel))
          (pthen reassert_release (Ret True))
          (pthen (reconcile_zero_work_release gen epoch rel True) (Ret True)))))))"

fun reconcile_rounds :: "nat \<Rightarrow> (runtime, unit) prog" where
  "reconcile_rounds 0 = Ret ()"
| "reconcile_rounds (Suc left) =
     pif (pall [release_requested, unavailable_usb_transport_is_clean])
       (pif reconcile_round (reconcile_rounds left) (Ret ())) (Ret ())"

definition enter_reconciler :: "(runtime, bool) prog" where
  "enter_reconciler =
     atomic (\<lambda>m. if rt_reconciler_active m then (False, m) else (True, m\<lparr>rt_reconciler_active := True\<rparr>))"

fun reconcile_entered :: "nat \<Rightarrow> nat \<Rightarrow> (runtime, unit) prog" where
  "reconcile_entered rounds 0 = Ret ()"
| "reconcile_entered rounds (Suc left) =
     pthen (reconcile_rounds rounds)
      (pthen (store (\<lambda>m. m\<lparr>rt_reconciler_active := False\<rparr>))
        (pif (pany [pnot release_requested, pnot unavailable_usb_transport_is_clean]) (Ret ())
          (pif enter_reconciler (reconcile_entered rounds left) (Ret ()))))"

definition reconcile_unavailable_zero_work_release :: "nat \<Rightarrow> (runtime, unit) prog" where
  "reconcile_unavailable_zero_work_release fuel =
     pif enter_reconciler (reconcile_entered fuel fuel) (Ret ())"

definition put_release :: "(release_ticket \<Rightarrow> release_ticket) \<Rightarrow> (runtime, unit) prog" where
  "put_release f = store (\<lambda>m. m\<lparr>rt_release := f (rt_release m)\<rparr>)"

definition fail_release_locked :: "u64 \<Rightarrow> bool \<Rightarrow> (runtime, bool) prog" where
  "fail_release_locked expected_id continuity_lost =
     pbind (load rt_release) (\<lambda>r.
     if expected_id = 0 \<or> expected_id \<noteq> ra_id r then Ret False
     else if ra_state r \<noteq> RsAdmitting \<and> ra_state r \<noteq> RsOpen then Ret False
     else pthen (put_release (\<lambda>r. r\<lparr>ra_ble_continuity_lost := continuity_lost, ra_state := RsFailed\<rparr>)) (Ret True))"

definition publish_release_request :: "(runtime, unit) prog" where
  "publish_release_request =
     pthen (store (\<lambda>m. m\<lparr>rt_sequence_generation := 0\<rparr>))
      (pbind attach_generation (\<lambda>gen. pthen (store (\<lambda>m. m\<lparr>rt_request_generation := gen\<rparr>))
      (pbind authority_epoch (\<lambda>epoch. pthen (store (\<lambda>m. m\<lparr>rt_request_authority_epoch := epoch\<rparr>))
      (pthen (locked
         (pbind (load (\<lambda>m. ra_id (rt_release m))) (\<lambda>rid. pbind (fail_release_locked rid False) (\<lambda>_.
          pbind ble_snapshot (\<lambda>ble.
          pbind (if bl_releasing ble then Ret (bl_release_epoch ble)
                 else pmap (\<lambda>e. e + 1) bump_release) (\<lambda>request_epoch.
          store (\<lambda>m. m\<lparr>rt_request_epoch := request_epoch\<rparr>)))))))
      (pthen (cancel_tickets ToSafetyPending)
      (pthen (store_usb mark_release_pending) (set_requested True))))))))"

definition request_release_all :: "nat \<Rightarrow> (runtime, unit) prog" where
  "request_release_all fuel =
     scoped True () (pthen publish_release_request (reconcile_unavailable_zero_work_release fuel))"

section \<open>The release ticket\<close>

definition ra_active :: "release_ticket \<Rightarrow> bool" where
  "ra_active r \<longleftrightarrow> release_transaction_active (ra_state r)"

definition ra_failed :: "release_ticket \<Rightarrow> bool" where
  "ra_failed r \<longleftrightarrow> ra_state r = RsFailed \<or> ra_state r = RsFinalizedFailure \<or> ra_state r = RsTimedOut"

definition ra_finalized :: "release_ticket \<Rightarrow> bool" where
  "ra_finalized r \<longleftrightarrow> ra_state r = RsTimedOut \<or> ra_state r = RsFinalizedSuccess \<or> ra_state r = RsFinalizedFailure"

definition ra_success_committed :: "release_ticket \<Rightarrow> bool" where
  "ra_success_committed r \<longleftrightarrow> ra_state r = RsSucceeded \<or> ra_state r = RsFinalizedSuccess"

definition release_all_snapshot_locked :: "(runtime, release_ticket) prog" where
  "release_all_snapshot_locked = load rt_release"

definition release_all_snapshot :: "(runtime, release_ticket) prog" where
  "release_all_snapshot = locked release_all_snapshot_locked"

definition outcome_complete :: "release_interface_state \<Rightarrow> bool" where
  "outcome_complete s \<longleftrightarrow> s = RiAlreadyUp \<or> s = RiSubmitted"

definition release_terminal :: "release_ticket \<Rightarrow> release_state" where
  "release_terminal r =
     (if ra_state r = RsSucceeded then RsFinalizedSuccess
      else if ra_state r = RsFailed then RsFinalizedFailure
      else if ra_state r = RsAdmitting \<or> ra_state r = RsOpen then
        (if ra_state r = RsOpen \<and> ra_transport r = TransportUsb \<and> outcome_complete (ra_keyboard r)
           \<and> outcome_complete (ra_mouse r)
         then RsFinalizedSuccess else RsTimedOut)
      else ra_state r)"

definition finalize_release_all :: "u64 \<Rightarrow> (runtime, release_ticket) prog" where
  "finalize_release_all expected_id =
     locked (pbind (load rt_release) (\<lambda>r.
       if expected_id = 0 \<or> ra_id r \<noteq> expected_id
       then Ret (release_init\<lparr>ra_id := expected_id, ra_state := RsCanceled\<rparr>)
       else pthen (put_release (\<lambda>r. r\<lparr>ra_state := release_terminal r\<rparr>)) release_all_snapshot_locked))"

fun set_release_outcome :: "interface \<Rightarrow> release_interface_state \<Rightarrow> release_ticket \<Rightarrow> release_ticket" where
  "set_release_outcome KeyboardIf s r = r\<lparr>ra_keyboard := s\<rparr>"
| "set_release_outcome MouseIf s r = r\<lparr>ra_mouse := s\<rparr>"

fun release_outcome :: "interface \<Rightarrow> release_ticket \<Rightarrow> release_interface_state" where
  "release_outcome KeyboardIf r = ra_keyboard r"
| "release_outcome MouseIf r = ra_mouse r"

definition set_release_outcome_locked :: "interface \<Rightarrow> release_interface_state \<Rightarrow> (runtime, unit) prog" where
  "set_release_outcome_locked i s = put_release (set_release_outcome i s)"

definition note_usb_release_outcome ::
    "u64 \<Rightarrow> interface \<Rightarrow> u32 \<Rightarrow> u32 \<Rightarrow> u32 \<Rightarrow> release_interface_state \<Rightarrow> (runtime, unit) prog" where
  "note_usb_release_outcome expected_id i gen epoch rel outcome =
     locked (pbind (load rt_release) (\<lambda>r.
       if expected_id = 0 \<or> ra_id r \<noteq> expected_id \<or> (ra_state r \<noteq> RsAdmitting \<and> ra_state r \<noteq> RsOpen)
         \<or> ra_transport r \<noteq> TransportUsb \<or> ra_transport_generation r \<noteq> gen \<or> ra_authority_epoch r \<noteq> epoch
         \<or> ra_release_epoch r \<noteq> rel
       then Ret ()
       else if outcome = RiPending
       then pthen (set_release_outcome_locked i outcome) (pbind (fail_release_locked (ra_id r) False) (\<lambda>_. Ret ()))
       else if release_outcome i r = RiUnresolved then set_release_outcome_locked i outcome
       else Ret ()))"

text \<open>\<open>release_ticket_matches_locked\<close>: the expected ticket is the current, still active BLE one.\<close>

definition release_matches :: "release_ticket \<Rightarrow> release_ticket \<Rightarrow> bool" where
  "release_matches expected r \<longleftrightarrow>
     \<not> (ra_id expected = 0 \<or> ra_id expected \<noteq> ra_id r \<or> \<not> release_transaction_active (ra_state r)
        \<or> ra_transport expected \<noteq> TransportBle \<or> \<not> ra_active expected \<or> ra_transport r \<noteq> TransportBle
        \<or> ra_transport_generation r \<noteq> ra_transport_generation expected
        \<or> ra_authority_epoch r \<noteq> ra_authority_epoch expected
        \<or> ra_route_generation r \<noteq> ra_route_generation expected
        \<or> ra_release_epoch r \<noteq> ra_release_epoch expected
        \<or> ra_profile_activation_epoch r \<noteq> ra_profile_activation_epoch expected
        \<or> ra_connection_handle r \<noteq> ra_connection_handle expected
        \<or> ra_present_roles r \<noteq> ra_present_roles expected
        \<or> ra_required_input_subscriptions r \<noteq> ra_required_input_subscriptions expected
        \<or> ra_report_handles r \<noteq> ra_report_handles expected)"

definition same_ble_tuple :: "ble_authority \<Rightarrow> release_ticket \<Rightarrow> bool" where
  "same_ble_tuple b r \<longleftrightarrow> bl_authority_epoch b = ra_authority_epoch r
     \<and> bl_route_generation b = ra_route_generation r \<and> bl_ble_generation b = ra_transport_generation r
     \<and> bl_connection_handle b = ra_connection_handle r \<and> bl_present_roles b = ra_present_roles r
     \<and> bl_required_input_subscriptions b = ra_required_input_subscriptions r
     \<and> bl_report_handles b = ra_report_handles r"

definition stable_route :: "output_route \<Rightarrow> route_snapshot \<Rightarrow> bool" where
  "stable_route r rt \<longleftrightarrow> sn_coherent rt \<and> \<not> sn_pending rt \<and> route_snapshot.sn_desired rt = r \<and> sn_active rt = r
     \<and> sn_transition rt = RouteStable"

definition release_phase_matches :: "ble_authority \<Rightarrow> release_ticket \<Rightarrow> u32 \<Rightarrow> bool" where
  "release_phase_matches expected r current_epoch =
     (if ra_state r = RsSucceeded
      then bl_release_epoch expected = ra_release_epoch r \<and> bl_profile_activation_epoch expected \<noteq> 0
        \<and> bl_profile_activation_epoch expected \<noteq> ra_profile_activation_epoch r
      else if ra_state r = RsAdmitting
      then bl_profile_activation_epoch expected = ra_profile_activation_epoch r
        \<and> (bl_release_epoch expected = ra_release_epoch r
             \<and> (current_epoch = ra_release_epoch r \<or> current_epoch = ra_release_epoch r + 1)
           \<or> bl_release_epoch expected \<noteq> ra_release_epoch r \<and> current_epoch = ra_release_epoch r)
      else if ra_state r = RsSuccessCommitting
      then bl_release_epoch expected \<noteq> ra_release_epoch r
             \<and> bl_profile_activation_epoch expected = ra_profile_activation_epoch r
           \<or> bl_release_epoch expected = ra_release_epoch r \<and> bl_profile_activation_epoch expected \<noteq> 0
             \<and> bl_profile_activation_epoch expected \<noteq> ra_profile_activation_epoch r
      else ra_state r = RsOpen \<and> current_epoch = ra_release_epoch r
        \<and> bl_release_epoch expected \<noteq> ra_release_epoch r
        \<and> bl_profile_activation_epoch expected = ra_profile_activation_epoch r)"

definition continuity_matches_locked :: "ble_authority \<Rightarrow> (runtime, bool) prog" where
  "continuity_matches_locked expected =
     pbind (load rt_release) (\<lambda>r.
     pif (pany [Ret (\<not> release_matches r r \<or> ra_state r = RsCanceled \<or> ra_failed r \<or> ra_ble_continuity_lost r
                  \<or> \<not> bl_coherent expected \<or> \<not> bl_active expected \<or> bl_releasing expected
                  \<or> \<not> same_ble_tuple expected r),
                pmap (\<lambda>e. e \<noteq> ra_authority_epoch r) authority_epoch]) (Ret False)
      (pbind (on_route snapshot) (\<lambda>rt.
       if \<not> stable_route RouteBle rt \<or> route_snapshot.sn_generation rt \<noteq> ra_route_generation r then Ret False
       else pmap (release_phase_matches expected r) release_epoch)))"

definition ble_release_all_route_continuity_matches :: "ble_authority \<Rightarrow> (runtime, bool) prog" where
  "ble_release_all_route_continuity_matches expected = locked (continuity_matches_locked expected)"

definition note_ble_route_continuity_loss :: "ble_authority \<Rightarrow> (runtime, unit) prog" where
  "note_ble_route_continuity_loss expected =
     scoped True ()
      (locked (pbind (load rt_release) (\<lambda>r.
        if \<not> release_matches r r \<or> \<not> bl_coherent expected \<or> \<not> bl_active expected
          \<or> bl_profile_activation_epoch expected \<noteq> ra_profile_activation_epoch r \<or> \<not> same_ble_tuple expected r
        then Ret ()
        else pbind (fail_release_locked (ra_id r) True) (\<lambda>_. Ret ()))))"

section \<open>Releasing over BLE\<close>

datatype ble_release_action = BaNotApplicable | BaWaitForOldWork | BaAlreadyUp | BaSubmitNeutral

definition expected_open :: "release_ticket \<Rightarrow> release_ticket \<Rightarrow> bool" where
  "expected_open expected r \<longleftrightarrow> release_matches expected r \<and> ra_state expected = RsOpen \<and> ra_state r = RsOpen"

definition prepare_ble_release_all_interface ::
    "release_ticket \<Rightarrow> interface \<Rightarrow> (runtime, ble_release_action) prog" where
  "prepare_ble_release_all_interface expected i =
     locked (pbind (load rt_release) (\<lambda>r.
       if \<not> expected_open expected r then Ret BaNotApplicable
       else if outcome_complete (release_outcome i r) then Ret BaAlreadyUp
       else pif (pany [Ret (release_outcome i r \<noteq> RiUnresolved), release_interface_work_pending i])
         (Ret BaWaitForOldWork)
         (pif (known_all_up i) (pthen (set_release_outcome_locked i RiAlreadyUp) (Ret BaAlreadyUp))
           (Ret BaSubmitNeutral))))"

definition complete_ble_release_all_interface :: "release_ticket \<Rightarrow> interface \<Rightarrow> (runtime, bool) prog" where
  "complete_ble_release_all_interface expected i =
     locked (pbind (load rt_release) (\<lambda>r.
       pif (pany [Ret (\<not> expected_open expected r), release_interface_work_pending i]) (Ret False)
        (pthen (store_if i reset_details)
         (pthen (store_if i (\<lambda>s. s\<lparr>if_logical_state_held := False\<rparr>))
          (pthen (store_if i (\<lambda>s. s\<lparr>if_host_state_uncertain := False\<rparr>))
           (pthen (store_if i (\<lambda>s. s\<lparr>if_safety_required := False\<rparr>))
            (pthen (write_confirmed_up i)
             (pthen (set_release_outcome_locked i RiSubmitted) (Ret True)))))))))"

definition fail_ble_release_all :: "release_ticket \<Rightarrow> interface \<Rightarrow> (runtime, unit) prog" where
  "fail_ble_release_all expected i =
     locked (pbind (load rt_release) (\<lambda>r.
       pif (pany [Ret (\<not> release_matches expected r), pnot (fail_release_locked (ra_id expected) False)]) (Ret ())
        (pthen (store_if i (\<lambda>s. s\<lparr>if_host_state_uncertain := True\<rparr>))
         (pthen (store_if i (\<lambda>s. s\<lparr>if_safety_required := True\<rparr>)) (set_release_outcome_locked i RiPending)))))"

definition commit_ble_release_all :: "release_ticket \<Rightarrow> (runtime, bool) prog" where
  "commit_ble_release_all expected =
     pif (locked (pbind (load rt_release) (\<lambda>r.
        pif (pany [Ret (\<not> expected_open expected r), release_interface_work_pending KeyboardIf,
                   release_interface_work_pending MouseIf, pnot (known_all_up KeyboardIf),
                   pnot (known_all_up MouseIf)]) (Ret True)
         (pbind ble_snapshot (\<lambda>current.
          pany [Ret (\<not> outcome_complete (ra_keyboard r) \<or> \<not> outcome_complete (ra_mouse r)),
                pnot (continuity_matches_locked current)])))))
      (Ret False)
      (locked (pbind (load rt_release) (\<lambda>r.
        pif (pany [Ret (\<not> release_matches expected r \<or> ra_state r \<noteq> RsOpen),
                   pnot (pbind ble_snapshot continuity_matches_locked)]) (Ret False)
         (pbind allocate_profile_activation (\<lambda>next_activation. case next_activation of
            None \<Rightarrow> pbind (fail_release_locked (ra_id expected) False) (\<lambda>_. Ret False)
          | Some n \<Rightarrow>
              pthen (put_release (\<lambda>r. r\<lparr>ra_state := RsSuccessCommitting\<rparr>))
               (pthen ble_tick
                (pthen (store_ble (\<lambda>b. b\<lparr>bl_profile_activation_epoch := n\<rparr>))
                 (pthen (store_ble (\<lambda>b. b\<lparr>bl_release_epoch := ra_release_epoch expected\<rparr>))
                  (pthen ble_tick
                   (pthen (put_release (\<lambda>r. r\<lparr>ra_state := RsSucceeded\<rparr>)) (Ret True)))))))))))"

section \<open>Beginning a release\<close>

definition ble_route_normal_authority_matches :: "ble_authority \<Rightarrow> (runtime, bool) prog" where
  "ble_route_normal_authority_matches expected =
     pbind ble_snapshot (\<lambda>current.
     pall [Ret (bl_coherent expected \<and> bl_active expected \<and> \<not> bl_releasing expected \<and> bl_coherent current
             \<and> bl_active current \<and> \<not> bl_releasing current \<and> same_ble_route current expected),
           pmap (\<lambda>e. e = bl_authority_epoch expected) authority_epoch,
           pmap (\<lambda>e. e = bl_release_epoch expected) release_epoch])"

definition next_release_after :: "u64 \<Rightarrow> u64" where
  "next_release_after n = (if n = - 1 then 0 else n + 1)"

definition begin_release_ticket :: "bool \<Rightarrow> ble_authority \<Rightarrow> u32 \<Rightarrow> (runtime, u64) prog" where
  "begin_release_ticket ble_explicit ble route_generation =
     pbind (load rt_next_release_id) (\<lambda>rid.
     pthen (store (\<lambda>m. m\<lparr>rt_next_release_id := next_release_after rid\<rparr>))
      (pbind (if ble_explicit then Ret (bl_ble_generation ble) else attach_generation) (\<lambda>gen.
       pbind authority_epoch (\<lambda>epoch. pbind (load rt_request_epoch) (\<lambda>request_epoch.
       pthen (put_release (\<lambda>r. \<lparr>ra_id = rid, ra_transport_generation = gen, ra_authority_epoch = epoch,
           ra_route_generation = route_generation,
           ra_transport = (if ble_explicit then TransportBle else TransportUsb),
           ra_release_epoch = (if ble_explicit then bl_release_epoch ble else request_epoch),
           ra_profile_activation_epoch = (if ble_explicit then bl_profile_activation_epoch ble else 0),
           ra_connection_handle = (if ble_explicit then bl_connection_handle ble else kNoBleConnection),
           ra_present_roles = (if ble_explicit then bl_present_roles ble else 0),
           ra_required_input_subscriptions =
             (if ble_explicit then bl_required_input_subscriptions ble else 0),
           ra_report_handles = (if ble_explicit then bl_report_handles ble else no_handles),
           ra_keyboard = RiUnresolved, ra_mouse = RiUnresolved, ra_state = RsAdmitting,
           ra_ble_continuity_lost = False\<rparr>))
        (pthen (if ble_explicit
                then pthen (store (\<lambda>m. m\<lparr>rt_sequence_generation := 0\<rparr>))
                  (pbind bump_release (\<lambda>e. put_release (\<lambda>r. r\<lparr>ra_release_epoch := e + 1\<rparr>)))
                else Ret ())
          (Ret rid)))))))"

text \<open>Whether the admission section returns at once (with an id), lost its BLE route, or admitted.\<close>

datatype release_admission = RaReturn u64 | RaLost | RaAdmitted u64

definition admit_release :: "bool \<Rightarrow> ble_authority \<Rightarrow> u32 \<Rightarrow> (runtime, release_admission) prog" where
  "admit_release ble_explicit ble route_generation =
     locked (pif release_producers_blocked (pmap RaReturn (load (\<lambda>m. ra_id (rt_release m))))
      (pif (load (\<lambda>m. rt_next_release_id m = 0)) (Ret (RaReturn 0))
       (pif (pall [Ret ble_explicit, pnot (ble_route_normal_authority_matches ble)]) (Ret RaLost)
         (pmap RaAdmitted (begin_release_ticket ble_explicit ble route_generation)))))"

definition scan_usb_interface :: "interface \<Rightarrow> (runtime, unit) prog" where
  "scan_usb_interface i =
     pbind (load_if i if_slot_state) (\<lambda>slot_state. pbind (load_ticket i ticket_active) (\<lambda>public_ticket_active.
     pbind (pany [load_if i if_safety_required, load_if i if_in_flight,
                  Ret (slot_busy slot_state \<or> public_ticket_active)]) (\<lambda>existing_safety.
     pthen (if public_ticket_active then store_if i (\<lambda>s. s\<lparr>if_safety_required := True\<rparr>) else Ret ())
      (pif (pany [Ret existing_safety, pnot (mounted_and_active i)])
        (pthen (pif (pall [pnot (mounted_and_active i),
                           pany [load_if i if_logical_state_held, load_if i if_host_state_uncertain]])
                 (store_if i (\<lambda>s. s\<lparr>if_safety_required := True\<rparr>)) (Ret ()))
          (set_release_outcome_locked i RiPending))
        (Ret ())))))"

definition scan_interface :: "u64 \<Rightarrow> bool \<Rightarrow> interface \<Rightarrow> (runtime, unit) prog" where
  "scan_interface rid ble_explicit i =
     locked (pbind (load rt_release) (\<lambda>r.
       if ra_id r \<noteq> rid \<or> ra_state r \<noteq> RsAdmitting then Ret ()
       else pif (known_all_up i) (set_release_outcome_locked i RiAlreadyUp)
         (if ble_explicit then store_if i (\<lambda>s. s\<lparr>if_safety_required := True\<rparr>) else scan_usb_interface i)))"

definition open_release :: "u64 \<Rightarrow> (runtime, unit) prog" where
  "open_release rid =
     locked (put_release (\<lambda>r. if ra_id r = rid \<and> ra_state r = RsAdmitting then r\<lparr>ra_state := RsOpen\<rparr> else r))"

definition begin_release_all :: "nat \<Rightarrow> (runtime, u64) prog" where
  "begin_release_all fuel =
     scoped True 0
      (pbind (locked (pif release_producers_blocked (pmap (\<lambda>n. Inl n) (load (\<lambda>m. ra_id (rt_release m))))
                       (pmap Inr (load (\<lambda>m. rt_next_release_id m = 0))))) (\<lambda>first. case first of
         Inl rid \<Rightarrow> Ret rid
       | Inr exhausted \<Rightarrow>
         if exhausted then pthen (request_release_all fuel) (Ret 0)
         else
           pbind (on_route snapshot) (\<lambda>rt. pbind ble_snapshot (\<lambda>ble.
           pbind (pall [Ret (stable_route RouteBle rt), ble_route_normal_authority_matches ble]) (\<lambda>ble_explicit.
           pthen (if ble_explicit then Ret () else request_release_all fuel)
            (pbind (admit_release ble_explicit ble (route_snapshot.sn_generation rt)) (\<lambda>admitted. case admitted of
               RaReturn rid \<Rightarrow> Ret rid
             | RaLost \<Rightarrow> pthen (request_release_all fuel) (Ret 0)
             | RaAdmitted rid \<Rightarrow>
                 pthen (if ble_explicit then cancel_tickets ToSafetyPending else Ret ())
                  (pthen (pfor both (scan_interface rid ble_explicit))
                   (pthen (open_release rid) (Ret rid))))))))))"

end
