(* ===== verification/RuntimeLifecycle.thy ===== *)
theory RuntimeLifecycle
  imports RuntimeRelease
begin

text \<open>
  The lifecycle side of \<open>hid_runtime\<close>: USB callbacks and requests, the route, the sleep claim, the
  mailbox slots, \<open>execute\<close> on the SOF of TinyUSB, the completion callbacks and the sequence ownership.
\<close>

section \<open>Status bits and lifecycle callbacks\<close>

definition put_status :: "(u8 \<Rightarrow> u8) \<Rightarrow> (runtime, unit) prog" where
  "put_status f = store (\<lambda>m. m\<lparr>rt_status_bits := f (rt_status_bits m)\<rparr>)"

fun ready_bit :: "interface \<Rightarrow> u8" where
  "ready_bit KeyboardIf = kKeyboardReadyBit"
| "ready_bit MouseIf = kMouseReadyBit"

definition set_ready :: "interface \<Rightarrow> bool \<Rightarrow> (runtime, unit) prog" where
  "set_ready i ready =
     pif (pall [Ret ready, load (\<lambda>m. rt_status_bits m AND kMountedBit \<noteq> 0),
                load (\<lambda>m. rt_status_bits m AND kSuspendedBit = 0)])
       (put_status (\<lambda>w. w OR ready_bit i)) (put_status (\<lambda>w. w AND NOT (ready_bit i)))"

definition note_sof_activity :: "(runtime, unit) prog" where
  "note_sof_activity = store (\<lambda>m. m\<lparr>rt_sof_heartbeat := rt_sof_heartbeat m + 1\<rparr>)"

definition sof_heartbeat :: "(runtime, u32) prog" where
  "sof_heartbeat = load rt_sof_heartbeat"

text \<open>The prologue of every boundary of the authority: tickets of all kinds are cancelled first.\<close>

definition cancel_all :: "(runtime, unit) prog" where
  "cancel_all = pthen cancel_release_ticket (cancel_tickets ToAuthorityLost)"

definition advance_epochs :: "(runtime, unit) prog" where
  "advance_epochs =
     pthen bump_authority (pbind ble_snapshot (\<lambda>ble.
       if bl_releasing ble then Ret () else pbind bump_release (\<lambda>_. Ret ())))"

definition drop_request_identity :: "(runtime, unit) prog" where
  "drop_request_identity =
     pthen (store (\<lambda>m. m\<lparr>rt_request_generation := 0\<rparr>))
      (pthen (store (\<lambda>m. m\<lparr>rt_request_authority_epoch := 0\<rparr>))
       (pthen (store (\<lambda>m. m\<lparr>rt_request_epoch := 0\<rparr>)) (set_requested False)))"

definition put_slot_state :: "interface \<Rightarrow> mailbox_state \<Rightarrow> (runtime, unit) prog" where
  "put_slot_state i st = store_if i (\<lambda>s. s\<lparr>if_slot_state := st\<rparr>)"

definition put_in_flight :: "interface \<Rightarrow> bool \<Rightarrow> (runtime, unit) prog" where
  "put_in_flight i b = store_if i (\<lambda>s. s\<lparr>if_in_flight := b\<rparr>)"

definition put_safety :: "interface \<Rightarrow> bool \<Rightarrow> (runtime, unit) prog" where
  "put_safety i b = store_if i (\<lambda>s. s\<lparr>if_safety_required := b\<rparr>)"

definition put_uncertain :: "interface \<Rightarrow> bool \<Rightarrow> (runtime, unit) prog" where
  "put_uncertain i b = store_if i (\<lambda>s. s\<lparr>if_host_state_uncertain := b\<rparr>)"

definition put_held :: "interface \<Rightarrow> bool \<Rightarrow> (runtime, unit) prog" where
  "put_held i b = store_if i (\<lambda>s. s\<lparr>if_logical_state_held := b\<rparr>)"

text \<open>The compare-exchange from ready to canceled.\<close>

definition cancel_queued :: "interface \<Rightarrow> (runtime, unit) prog" where
  "cancel_queued i =
     store_if i (\<lambda>s. if if_slot_state s = MbReady then s\<lparr>if_slot_state := MbCanceled\<rparr> else s)"

definition safety_kind :: "report_kind \<Rightarrow> bool" where
  "safety_kind k \<longleftrightarrow> k = SafetyKeyboard \<or> k = SafetyMouse"

definition work_holds_state :: "report_work \<Rightarrow> bool" where
  "work_holds_state w \<longleftrightarrow> \<not> safety_kind (rw_kind w)
     \<and> unsafe_report_holds_state (rw_kind w) (rw_report w) (rw_length w)"

definition keyboard_held :: "interface_state \<Rightarrow> bool" where
  "keyboard_held s \<longleftrightarrow> if_modifiers s \<noteq> 0 \<or> if_keycodes s \<noteq> replicate 6 0"

definition preserve_suspend_safety :: "interface \<Rightarrow> (runtime, unit) prog" where
  "preserve_suspend_safety i =
     pbind (load_if i (\<lambda>s. keyboard_held s \<or> if_buttons s \<noteq> 0)) (\<lambda>held.
     pbind (load_if i (\<lambda>s. if_slot_state s = MbReady \<and> work_holds_state (if_slot s))) (\<lambda>queued_unsafe.
     pbind (load_if i if_in_flight) (\<lambda>in_flight.
     pthen (pif (pany [Ret (held \<or> queued_unsafe \<or> in_flight), load_if i if_host_state_uncertain,
                       load_if i if_safety_required]) (put_safety i True) (Ret ()))
      (pthen (if in_flight then pthen (put_uncertain i True) (put_in_flight i False) else Ret ())
        (cancel_queued i)))))"

text \<open>What an interface remembers of a host that may hold keys.\<close>

definition debt_loads :: "interface \<Rightarrow> (runtime, bool) prog list" where
  "debt_loads i = [load_if i if_logical_state_held, load_if i if_in_flight, load_if i if_host_state_uncertain]"

definition refresh_barrier :: "interface \<Rightarrow> (runtime, unit) prog" where
  "refresh_barrier i =
     pthen (put_slot_state i MbEmpty) (pthen (put_in_flight i False)
      (pthen (put_safety i True) (pthen (put_uncertain i True) (put_held i False))))"

definition keep_ble_state :: "interface \<Rightarrow> (runtime, unit) prog" where
  "keep_ble_state i =
     pthen (put_slot_state i MbEmpty)
      (pbind (pany (debt_loads i)) (\<lambda>needs_safety.
       pthen (put_in_flight i False) (if needs_safety then put_safety i True else Ret ())))"

definition on_mount :: "nat \<Rightarrow> (runtime, unit) prog" where
  "on_mount fuel =
     scoped True ()
      (pif (pnot (usb_flag observe_mount)) (Ret ())
       (pbind ble_snapshot (\<lambda>ble. pbind (on_route snapshot) (\<lambda>rt.
        pthen cancel_all (pthen bump_authority
         (pthen (if bl_releasing ble then Ret () else pbind bump_release (\<lambda>_. Ret ()))
          (pbind (pany (concat (map (\<lambda>i. debt_loads i @ [load_if i if_safety_required]) both))) (\<lambda>retained.
           let preserved = (bl_coherent ble \<and> bl_active ble \<or> \<not> sn_coherent rt \<or> sn_active rt = RouteBle
             \<or> route_snapshot.sn_desired rt = RouteBle \<or> retained) in
           pthen (pif (load_usb has_unresolved_prior_generation)
                   (pthen (pfor both refresh_barrier) (request_release_all fuel))
                   (if preserved then pfor both keep_ble_state else pfor both clear_interface))
            (pthen drop_request_identity (pthen (put_status (\<lambda>_. kMountedBit))
              (pif (pnot (load_lifecycle us_uncertain)) (store_usb mark_release_confirmed) (Ret ()))))))))))))"

definition invalidate_usb_route :: "(runtime, unit) prog" where
  "invalidate_usb_route =
     pbind (on_route snapshot) (\<lambda>rt.
     if sn_coherent rt \<and> sn_active rt = RouteUsb
     then pbind (on_route (invalidate_if_matches rt)) (\<lambda>_. Ret ()) else Ret ())"

definition unmount_interface :: "interface \<Rightarrow> (runtime, bool) prog" where
  "unmount_interface i =
     pbind (pany (debt_loads i)) (\<lambda>needs_safety.
     pthen (put_slot_state i MbEmpty) (pthen (put_in_flight i False)
      (pthen (if needs_safety
              then pthen (put_safety i True) (pthen (put_uncertain i True) (put_held i False))
              else clear_interface i)
        (Ret needs_safety))))"

definition on_unmount :: "(runtime, unit) prog" where
  "on_unmount =
     scoped True ()
      (pbind attach_generation (\<lambda>retired_generation.
       pif (pnot (usb_flag observe_unmount))
        (pif (load_lifecycle (\<lambda>lc. us_observed lc = Detaching)) (put_status (\<lambda>_. 0)) (Ret ()))
        (pthen (on_route publish_usb_lifecycle_veto)
         (pthen invalidate_usb_route (pthen cancel_all (pthen advance_epochs (pthen (put_status (\<lambda>_. 0))
          (pbind (unmount_interface KeyboardIf) (\<lambda>k. pbind (unmount_interface MouseIf) (\<lambda>m.
           pthen (if k \<or> m then store_usb (mark_release_uncertain_for_generation retired_generation) else Ret ())
             drop_request_identity))))))))))"

definition on_suspend :: "(runtime, unit) prog" where
  "on_suspend =
     scoped True ()
      (pif (pnot (usb_flag observe_suspend)) (Ret ())
       (pthen (on_route publish_usb_lifecycle_veto)
        (pthen invalidate_usb_route (pthen cancel_all (pthen advance_epochs
         (pthen (preserve_suspend_safety KeyboardIf) (pthen (preserve_suspend_safety MouseIf)
           (put_status (\<lambda>w. (w OR kSuspendedBit) AND NOT (kKeyboardReadyBit OR kMouseReadyBit))))))))))"

definition on_resume :: "(runtime, unit) prog" where
  "on_resume =
     scoped True ()
      (pif (pnot (usb_flag observe_resume)) (Ret ())
       (pthen cancel_all (pthen bump_authority (put_status (\<lambda>w. w AND NOT kSuspendedBit)))))"

section \<open>The link watchdog\<close>

record watchdog_snapshot =
  wd_attach_generation :: u32
  wd_authority_epoch :: u32
  wd_route_generation :: u32
  wd_sof_heartbeat :: u32

definition mounted_exposed :: "usb_snapshot \<Rightarrow> status_snapshot \<Rightarrow> bool" where
  "mounted_exposed lc st \<longleftrightarrow> us_desired lc = Exposed \<and> us_observed lc = Mounted \<and> \<not> us_recovery lc
     \<and> st_mounted st \<and> \<not> st_suspended st"

definition usb_link_watchdog_snapshot :: "(runtime, bool \<times> watchdog_snapshot) prog" where
  "usb_link_watchdog_snapshot =
     pbind (load_lifecycle id) (\<lambda>lc. pbind runtime_status (\<lambda>st. pbind (on_route snapshot) (\<lambda>rt.
     pbind authority_epoch (\<lambda>authority. pbind sof_heartbeat (\<lambda>beat.
     Ret (mounted_exposed lc st \<and> stable_route RouteUsb rt,
       \<lparr>wd_attach_generation = usb_snapshot.sn_generation lc, wd_authority_epoch = authority,
        wd_route_generation = route_snapshot.sn_generation rt, wd_sof_heartbeat = beat\<rparr>))))))"

datatype stall_result = StallApplied | StallStale | StallPending

definition withdraw_conditional :: "watchdog_snapshot \<Rightarrow> u32 \<Rightarrow> (runtime, stall_result \<times> u32) prog" where
  "withdraw_conditional expected token =
     (if token \<noteq> kNoConditionalInvalidationToken
      then pbind (on_route (cancel_conditional_invalidation (wd_route_generation expected) token))
        (\<lambda>_. Ret (StallStale, kNoConditionalInvalidationToken))
      else Ret (StallStale, token))"

text \<open>The external authority of the expectation is gone: lifecycle, epoch, heartbeat.\<close>

definition stall_replaced :: "watchdog_snapshot \<Rightarrow> (runtime, bool) prog" where
  "stall_replaced expected =
     pbind (load_lifecycle id) (\<lambda>lc. pbind runtime_status (\<lambda>st.
     pany [Ret (usb_snapshot.sn_generation lc \<noteq> wd_attach_generation expected \<or> \<not> mounted_exposed lc st),
           pmap (\<lambda>e. e \<noteq> wd_authority_epoch expected) authority_epoch,
           pmap (\<lambda>b. b \<noteq> wd_sof_heartbeat expected) sof_heartbeat]))"

definition apply_stall :: "(runtime, unit) prog" where
  "apply_stall =
     pthen cancel_all (pthen advance_epochs
      (pthen (preserve_suspend_safety KeyboardIf) (pthen (preserve_suspend_safety MouseIf)
        (put_status (\<lambda>w. w AND NOT (kKeyboardReadyBit OR kMouseReadyBit))))))"

definition drop_claim :: "route_snapshot \<Rightarrow> u32 \<Rightarrow> (runtime, stall_result \<times> u32) prog" where
  "drop_claim rt token =
     pthen (on_route (release_invalidation_claim rt token)) (Ret (StallStale, kNoConditionalInvalidationToken))"

text \<open>The claim object is released when it goes out of scope, at the end of an applied stall.\<close>

definition on_usb_link_stall :: "watchdog_snapshot \<Rightarrow> u32 \<Rightarrow> (runtime, stall_result \<times> u32) prog" where
  "on_usb_link_stall expected token =
     scoped True (StallStale, token)
      (pbind (load_lifecycle id) (\<lambda>lc. pbind runtime_status (\<lambda>st. pbind (on_route snapshot) (\<lambda>rt.
       pif (pany [Ret (usb_snapshot.sn_generation lc \<noteq> wd_attach_generation expected \<or> \<not> mounted_exposed lc st),
                  pmap (\<lambda>e. e \<noteq> wd_authority_epoch expected) authority_epoch,
                  pmap (\<lambda>b. b \<noteq> wd_sof_heartbeat expected) sof_heartbeat])
         (withdraw_conditional expected token)
         (if \<not> sn_coherent rt
          then if sn_pending rt \<and> token \<noteq> kNoConditionalInvalidationToken then Ret (StallPending, token)
            else withdraw_conditional expected token
          else if route_snapshot.sn_desired rt \<noteq> RouteUsb \<or> sn_active rt \<noteq> RouteUsb
            \<or> sn_transition rt \<noteq> RouteStable \<or> route_snapshot.sn_generation rt \<noteq> wd_route_generation expected
          then withdraw_conditional expected token
          else pbind (on_route (claim_invalidation_if_matches rt token)) (\<lambda>(res, token').
            if res = ClaimPending then Ret (StallPending, token')
            else if res \<noteq> ClaimedExact then withdraw_conditional expected token'
            else pif (stall_replaced expected) (drop_claim rt token')
              (pbind (on_route (retire_invalidation_claim rt token')) (\<lambda>(retired, token'').
               if \<not> retired then drop_claim rt token''
               else pthen apply_stall
                 (pthen (on_route (release_invalidation_claim rt token''))
                   (Ret (StallApplied, kNoConditionalInvalidationToken)))))))))))"

section \<open>USB lifecycle requests\<close>

definition outcome_of :: "usb_output list \<Rightarrow> usb_outcome" where
  "outcome_of outs = (case last outs of OutOutcome oc \<Rightarrow> oc | _ \<Rightarrow> busy_outcome)"

definition usb_request :: "(usb \<Rightarrow> usb \<times> usb_output list) \<Rightarrow> (runtime, usb_outcome) prog" where
  "usb_request f = atomic (\<lambda>m. (outcome_of (snd (f (rt_usb m))), m\<lparr>rt_usb := fst (f (rt_usb m))\<rparr>))"

definition no_status :: status_snapshot where
  "no_status = status_of 0"

definition request_usb_attach :: "bool \<Rightarrow> (runtime, usb_outcome \<times> status_snapshot) prog" where
  "request_usb_attach scheduled =
     pbind runtime_status (\<lambda>st. pbind (usb_request (request_attach scheduled)) (\<lambda>oc.
     if action_result oc \<noteq> TrAccepted then Ret (oc, st)
     else pthen cancel_all (pthen advance_epochs (pthen (put_status (\<lambda>_. 0)) (Ret (oc, no_status))))))"

text \<open>An interface at the boundary where a transport is taken away but not yet gone.\<close>

definition retire_interface :: "interface \<Rightarrow> (runtime, unit) prog" where
  "retire_interface i =
     pthen (pif (pany (debt_loads i)) (pthen (put_safety i True) (put_uncertain i True)) (Ret ()))
      (pthen (put_in_flight i False) (cancel_queued i))"

definition request_usb_detach :: "bool \<Rightarrow> (runtime, usb_outcome \<times> status_snapshot) prog" where
  "request_usb_detach scheduled =
     pbind attach_generation (\<lambda>_. pbind runtime_status (\<lambda>st. pbind (usb_request (request_detach scheduled)) (\<lambda>oc.
     if action_result oc \<noteq> TrAccepted then Ret (oc, st)
     else pthen cancel_all (pthen advance_epochs (pthen (pfor both retire_interface) (Ret (oc, st)))))))"

definition mark_lifecycle_detach_uncertain :: "u32 \<Rightarrow> (runtime, unit) prog" where
  "mark_lifecycle_detach_uncertain old_generation =
     scoped True ()
      (pthen (pfor both (\<lambda>i. pthen (put_safety i True) (pthen (put_uncertain i True)
          (pthen (put_in_flight i False) (put_slot_state i MbEmpty)))))
        (store_usb (mark_release_uncertain_for_generation old_generation)))"

definition on_driver_uninstalled :: "(runtime, unit) prog" where
  "on_driver_uninstalled =
     scoped True ()
      (pthen cancel_all (pthen (put_status (\<lambda>_. 0))
       (pthen (pif (pnot (load_lifecycle us_uncertain)) (pfor both clear_interface) (pfor both refresh_barrier))
         drop_request_identity)))"

definition begin_usb_runtime_fault :: "i32 \<Rightarrow> (runtime, bool) prog" where
  "begin_usb_runtime_fault code =
     scoped True False
      (pif (pnot (usb_flag (begin_runtime_fault code))) (Ret False)
       (pthen (on_route publish_usb_lifecycle_veto)
        (pthen (put_status (\<lambda>w. w AND NOT (kKeyboardReadyBit OR kMouseReadyBit))) (Ret True))))"

definition commit_usb_runtime_fault_shutdown :: "(runtime, unit) prog" where
  "commit_usb_runtime_fault_shutdown =
     pthen invalidate_usb_route (pthen cancel_all (pthen advance_epochs (pfor both retire_interface)))"

definition complete_usb_detach_route_invalidation :: "route_snapshot \<Rightarrow> (runtime, unit) prog" where
  "complete_usb_detach_route_invalidation old_route =
     pbind (on_route (invalidate_if_matches old_route)) (\<lambda>_. Ret ())"

text \<open>The lifecycle results that are only passed on.\<close>

datatype usb_completion = UcInstallSuccess | UcInstallCleanFailure i32 | UcInstallAmbiguousFailure i32
  | UcUninstallSuccess | UcUninstallFailure i32 | UcUpdateFault i32 | UcCompleteFault bool

fun complete_usb :: "usb_completion \<Rightarrow> (runtime, unit) prog" where
  "complete_usb UcInstallSuccess = store_usb complete_install_success"
| "complete_usb (UcInstallCleanFailure c) = store_usb (complete_install_clean_failure c)"
| "complete_usb (UcInstallAmbiguousFailure c) = store_usb (complete_install_ambiguous_failure c)"
| "complete_usb UcUninstallSuccess = store_usb complete_uninstall_success"
| "complete_usb (UcUninstallFailure c) = store_usb (complete_uninstall_failure c)"
| "complete_usb (UcUpdateFault c) = store_usb (update_runtime_fault c)"
| "complete_usb (UcCompleteFault d) = store_usb (complete_runtime_fault d)"

definition begin_usb_uninstall :: "(runtime, u32) prog" where
  "begin_usb_uninstall =
     atomic (\<lambda>m. (usb_generation (fst (begin_uninstall (rt_usb m))),
       m\<lparr>rt_usb := fst (begin_uninstall (rt_usb m))\<rparr>))"

definition detach_debt :: "interface \<Rightarrow> (runtime, bool) prog" where
  "detach_debt i =
     pif (pall [known_all_up i, pnot (load_if i if_in_flight), pnot (load_if i if_host_state_uncertain)])
       (Ret False) (pthen (put_safety i True) (Ret True))"

datatype safety_result = SafetyClean | SafetyPending | SafetyUncertain

definition begin_safety :: "nat \<Rightarrow> (runtime, safety_result) prog" where
  "begin_safety fuel =
     pbind (detach_debt KeyboardIf) (\<lambda>k. pbind (detach_debt MouseIf) (\<lambda>m.
     if \<not> k \<and> \<not> m then pthen (store_usb mark_release_confirmed) (Ret SafetyClean)
     else pthen (request_release_all fuel) (Ret SafetyPending)))"

definition begin_lifecycle_detach_safety :: "nat \<Rightarrow> (runtime, safety_result) prog" where
  "begin_lifecycle_detach_safety fuel =
     pbind (load_lifecycle id) (\<lambda>lc.
     if us_desired lc \<noteq> Hidden \<or> us_observed lc \<noteq> Detaching then Ret SafetyUncertain
     else begin_safety fuel)"

definition begin_route_release_safety :: "nat \<Rightarrow> route_snapshot \<Rightarrow> (runtime, safety_result) prog" where
  "begin_route_release_safety fuel stage_a =
     pbind (on_route snapshot) (\<lambda>rt. pbind (load_lifecycle id) (\<lambda>lc.
     if \<not> sn_coherent rt \<or> sn_pending rt \<or> route_snapshot.sn_desired rt \<noteq> RouteNone \<or> sn_active rt \<noteq> RouteUsb
       \<or> sn_transition rt \<noteq> RouteReleasing
       \<or> route_snapshot.sn_generation rt \<noteq> route_snapshot.sn_generation stage_a
       \<or> us_desired lc \<noteq> Exposed \<or> us_observed lc \<noteq> Mounted
     then Ret SafetyUncertain
     else begin_safety fuel))"

definition lifecycle_detach_safety_clean :: "(runtime, bool) prog" where
  "lifecycle_detach_safety_clean =
     pall [pnot any_safety_required, pnot (load_if KeyboardIf if_in_flight), pnot (load_if MouseIf if_in_flight),
           pnot (load_if KeyboardIf if_host_state_uncertain), pnot (load_if MouseIf if_host_state_uncertain)]"

section \<open>The sleep claim\<close>

definition profile_switch_quiescent :: "(runtime, bool) prog" where
  "profile_switch_quiescent =
     pall [pnot sequence_active, pnot release_producers_blocked, pnot release_requested,
           known_all_up KeyboardIf, known_all_up MouseIf, pnot (release_interface_work_pending KeyboardIf),
           pnot (release_interface_work_pending MouseIf), lifecycle_detach_safety_clean]"

definition cas_gate :: "u32 \<Rightarrow> u32 \<Rightarrow> (runtime, bool) prog" where
  "cas_gate expected to =
     atomic (\<lambda>m. if rt_gate m = expected then (True, m\<lparr>rt_gate := to\<rparr>) else (False, m))"

definition release_sleep_quiescence :: "(runtime, unit) prog" where
  "release_sleep_quiescence = store (\<lambda>m. m\<lparr>rt_gate := rt_gate m AND kAdmissionMask\<rparr>)"

definition claim_sleep_quiescence :: "u32 \<Rightarrow> u32 \<Rightarrow> (runtime, bool) prog" where
  "claim_sleep_quiescence expected_authority_epoch expected_route_generation =
     pif (pnot (cas_gate 0 kGateClaimed)) (Ret False)
      (pbind (on_route snapshot) (\<lambda>rt.
       pif (pany [pmap (\<lambda>e. e \<noteq> expected_authority_epoch) authority_epoch,
                  Ret (route_snapshot.sn_generation rt \<noteq> expected_route_generation \<or> \<not> stable_route RouteNone rt),
                  pnot profile_switch_quiescent])
         (pthen release_sleep_quiescence (Ret False)) (Ret True)))"

definition commit_sleep_quiescence :: "(runtime, bool) prog" where
  "commit_sleep_quiescence = cas_gate kGateClaimed kGateCommitted"

end
