(* ===== verification/RuntimeExecution.thy ===== *)
theory RuntimeExecution
  imports RuntimeLifecycle
begin

text \<open>
  The work of \<open>hid_runtime\<close>: route requests, the mailbox slots, \<open>execute\<close> on the SOF of TinyUSB, the
  completion callbacks, the sequence ownership, and the call table of the component.
\<close>

section \<open>The route\<close>

text \<open>The tuple keeps its coherence mark: only snapshots are incoherent.\<close>

definition publish_ble_route_authority :: "ble_activation \<Rightarrow> u32 \<Rightarrow> u32 \<Rightarrow> (runtime, unit) prog" where
  "publish_ble_route_authority act epoch route_generation =
     pthen ble_tick
      (pthen (stores (map (\<lambda>f m. m\<lparr>rt_ble := f (rt_ble m)\<rparr>)
         [\<lambda>b. b\<lparr>bl_authority_epoch := epoch\<rparr>, \<lambda>b. b\<lparr>bl_route_generation := route_generation\<rparr>,
          \<lambda>b. b\<lparr>bl_ble_generation := ba_ble_generation act\<rparr>,
          \<lambda>b. b\<lparr>bl_connection_handle := ba_connection_handle act\<rparr>,
          \<lambda>b. b\<lparr>bl_profile_activation_epoch := ba_profile_activation_epoch act\<rparr>,
          \<lambda>b. b\<lparr>bl_present_roles := ba_present_roles act\<rparr>,
          \<lambda>b. b\<lparr>bl_required_input_subscriptions := ba_required_input_subscriptions act\<rparr>,
          \<lambda>b. b\<lparr>bl_report_handles := (bl_report_handles b)[0 := ba_report_handles act ! 0]\<rparr>,
          \<lambda>b. b\<lparr>bl_report_handles := (bl_report_handles b)[1 := ba_report_handles act ! 1]\<rparr>,
          \<lambda>b. b\<lparr>bl_report_handles := (bl_report_handles b)[2 := ba_report_handles act ! 2]\<rparr>,
          \<lambda>b. b\<lparr>bl_active := True\<rparr>, \<lambda>b. b\<lparr>bl_releasing := False\<rparr>]))
       (pbind release_epoch (\<lambda>rel. pthen (store_ble (\<lambda>b. b\<lparr>bl_release_epoch := rel\<rparr>)) ble_tick)))"

definition clear_ble_route_authority :: "(runtime, unit) prog" where
  "clear_ble_route_authority =
     pthen ble_tick
      (pthen (stores (map (\<lambda>f m. m\<lparr>rt_ble := f (rt_ble m)\<rparr>)
         [\<lambda>b. b\<lparr>bl_active := False\<rparr>, \<lambda>b. b\<lparr>bl_releasing := False\<rparr>, \<lambda>b. b\<lparr>bl_release_epoch := 0\<rparr>,
          \<lambda>b. b\<lparr>bl_authority_epoch := 0\<rparr>, \<lambda>b. b\<lparr>bl_route_generation := 0\<rparr>, \<lambda>b. b\<lparr>bl_ble_generation := 0\<rparr>,
          \<lambda>b. b\<lparr>bl_connection_handle := kNoBleConnection\<rparr>, \<lambda>b. b\<lparr>bl_profile_activation_epoch := 0\<rparr>,
          \<lambda>b. b\<lparr>bl_present_roles := 0\<rparr>, \<lambda>b. b\<lparr>bl_required_input_subscriptions := 0\<rparr>,
          \<lambda>b. b\<lparr>bl_report_handles := (bl_report_handles b)[0 := 0]\<rparr>,
          \<lambda>b. b\<lparr>bl_report_handles := (bl_report_handles b)[1 := 0]\<rparr>,
          \<lambda>b. b\<lparr>bl_report_handles := (bl_report_handles b)[2 := 0]\<rparr>]))
       ble_tick)"

record route_status =
  rs_route :: route_snapshot
  rs_ready :: bool

datatype route_result = RtAccepted | RtNoOp | RtBusy | RtNotReady | RtSafetyPending

text \<open>A transition outcome: the result, whether to go on asynchronously, and the snapshot if valid.\<close>

type_synonym route_outcome = "route_result \<times> bool \<times> route_status option"

definition busy_route :: route_outcome where
  "busy_route = (RtBusy, False, None)"

definition usb_status_ready :: "usb_snapshot \<Rightarrow> status_snapshot \<Rightarrow> bool" where
  "usb_status_ready lc st \<longleftrightarrow> us_desired lc = Exposed \<and> us_observed lc = Mounted \<and> st_mounted st
     \<and> \<not> st_suspended st \<and> st_keyboard_ready st \<and> st_mouse_ready st"

definition route_usb_ready :: "route_snapshot \<Rightarrow> usb_snapshot \<Rightarrow> status_snapshot \<Rightarrow> (runtime, bool) prog" where
  "route_usb_ready rt lc st =
     pall [Ret (stable_route RouteUsb rt \<and> usb_status_ready lc st), pnot any_safety_required,
           Ret (\<not> usb_snapshot.sn_safety_pending lc \<and> \<not> us_uncertain lc \<and> \<not> us_recovery lc)]"

text \<open>
  What \<open>route_status_snapshot\<close> compares of two lifecycle snapshots: neither the last error nor the
  uncertainty generation.
\<close>

definition same_lifecycle :: "usb_snapshot \<Rightarrow> usb_snapshot \<Rightarrow> bool" where
  "same_lifecycle a b \<longleftrightarrow> us_desired a = us_desired b \<and> us_observed a = us_observed b
     \<and> usb_snapshot.sn_generation a = usb_snapshot.sn_generation b
     \<and> usb_snapshot.sn_safety_pending a = usb_snapshot.sn_safety_pending b
     \<and> us_uncertain a = us_uncertain b \<and> us_recovery a = us_recovery b"

fun route_status_from :: "nat \<Rightarrow> route_snapshot \<Rightarrow> (runtime, route_status) prog" where
  "route_status_from 0 fallback = Ret \<lparr>rs_route = fallback, rs_ready = False\<rparr>"
| "route_status_from (Suc left) fallback =
     pbind (on_route snapshot) (\<lambda>rt0. pbind (load_lifecycle id) (\<lambda>lc0. pbind runtime_status (\<lambda>st0.
     pbind (load_lifecycle id) (\<lambda>lc1. pbind runtime_status (\<lambda>st1. pbind (on_route snapshot) (\<lambda>rt1.
     if sn_coherent rt0 \<and> sn_coherent rt1 \<and> same_route rt0 rt1 \<and> sn_pending rt0 = sn_pending rt1
       \<and> same_lifecycle lc0 lc1 \<and> st0 = st1
     then pmap (\<lambda>ready. \<lparr>rs_route = rt1, rs_ready = ready\<rparr>) (route_usb_ready rt1 lc1 st1)
     else route_status_from left rt1))))))"

definition route_status_snapshot :: "(runtime, route_status) prog" where
  "route_status_snapshot = pbind (on_route snapshot) (route_status_from 3)"

definition lifecycle_debt :: "usb_snapshot \<Rightarrow> bool" where
  "lifecycle_debt lc \<longleftrightarrow> usb_snapshot.sn_safety_pending lc \<or> us_uncertain lc"

definition request_route_usb :: "(runtime, route_outcome) prog" where
  "request_route_usb =
     pbind (on_route usb_publication_cut) (\<lambda>cut. pbind route_status_snapshot (\<lambda>prior.
     pbind (load_lifecycle id) (\<lambda>lc.
     let rt = rs_route prior in
     if route_snapshot.sn_desired rt = RouteUsb \<and> sn_active rt = RouteUsb \<and> sn_transition rt = RouteStable
     then Ret (if rs_ready prior then RtNoOp else if lifecycle_debt lc then RtSafetyPending else RtNotReady,
       False, Some prior)
     else if \<not> stable_route RouteNone rt then Ret busy_route
     else pbind runtime_status (\<lambda>st.
       pif (pany [Ret (lifecycle_debt lc), any_safety_required]) (Ret (RtSafetyPending, False, Some prior))
        (if \<not> usb_status_ready lc st \<or> us_recovery lc then Ret (RtNotReady, False, Some prior)
         else pthen retire_unsafe_route_authority
          (pbind (on_route (commit_usb_if_none (Some cut))) (\<lambda>committed.
           pmap (\<lambda>after. (if committed then RtAccepted else RtNotReady, False, Some after))
             route_status_snapshot))))))) "

definition route_only :: "route_snapshot \<Rightarrow> bool \<Rightarrow> route_status" where
  "route_only rt ready = \<lparr>rs_route = rt, rs_ready = ready\<rparr>"

definition refuse_ble :: "(runtime, route_outcome) prog" where
  "refuse_ble = pmap (\<lambda>rt. (RtNotReady, False, Some (route_only rt False))) (on_route snapshot)"

definition request_route_ble :: "ble_activation \<Rightarrow> (runtime, route_outcome) prog" where
  "request_route_ble act =
     pbind (on_route snapshot) (\<lambda>prior.
     pif (pany [Ret (ba_connection_handle act = kNoBleConnection
             \<or> \<not> input_route_definition_valid (ba_present_roles act) (ba_required_input_subscriptions act)
                  (ba_report_handles act)),
           pmap (\<lambda>e. ba_expected_authority_epoch act \<noteq> e) authority_epoch,
           Ret (ba_expected_route_generation act \<noteq> route_snapshot.sn_generation prior)])
       (Ret (RtNotReady, False, Some (route_only prior False)))
      (if \<not> stable_route RouteNone prior then Ret busy_route
       else pif (pany [release_requested, any_safety_required])
         (Ret (RtSafetyPending, False, Some (route_only prior False)))
        (pbind allocate_profile_activation (\<lambda>allocated. case allocated of
           None \<Rightarrow> Ret (RtNotReady, False, Some (route_only prior False))
         | Some pe \<Rightarrow>
           pthen retire_unsafe_route_authority
            (pif (pnot (on_route commit_ble_if_none)) refuse_ble
             (pbind (on_route snapshot) (\<lambda>rt.
              if \<not> stable_route RouteBle rt
              then pbind (on_route (invalidate_if_matches rt)) (\<lambda>_. refuse_ble)
              else pbind authority_epoch (\<lambda>epoch.
                pthen (publish_ble_route_authority (act\<lparr>ba_profile_activation_epoch := pe\<rparr>) epoch
                    (route_snapshot.sn_generation rt))
                  (Ret (RtAccepted, False, Some (route_only rt True)))))))))))"

definition ble_route_release_matches :: "ble_authority \<Rightarrow> (runtime, bool) prog" where
  "ble_route_release_matches expected =
     pbind ble_snapshot (\<lambda>current. pbind (on_route snapshot) (\<lambda>rt.
     pall [Ret (bl_coherent expected \<and> bl_releasing expected \<and> \<not> bl_active expected \<and> bl_coherent current
             \<and> bl_releasing current \<and> \<not> bl_active current \<and> same_ble_route current expected),
           pmap (\<lambda>e. e = bl_release_epoch expected) release_epoch,
           Ret (sn_coherent rt \<and> \<not> sn_pending rt \<and> route_snapshot.sn_desired rt = RouteNone \<and> sn_active rt = RouteBle
             \<and> sn_transition rt = RouteReleasing
             \<and> route_snapshot.sn_generation rt = bl_route_generation expected)]))"

definition complete_ble_route_release_if_matches :: "nat \<Rightarrow> ble_authority \<Rightarrow> (runtime, bool) prog" where
  "complete_ble_route_release_if_matches fuel expected =
     pif (pnot (ble_route_release_matches expected)) (Ret False)
      (pbind (on_route snapshot) (\<lambda>rt.
       pif (pnot (on_route (complete_ble_release_if_matches rt))) (Ret False)
        (pbind (pany [load_lifecycle us_uncertain, load_usb has_unresolved_prior_generation]) (\<lambda>preserve.
         pthen clear_ble_route_authority (pbind bump_release (\<lambda>_.
          pthen (pfor both clear_interface) (pthen cancel_release_ticket (pthen drop_request_identity
           (pthen (if preserve
                   then pthen (pfor both (\<lambda>i. pthen (put_safety i True) (put_uncertain i True)))
                     (request_release_all fuel)
                   else store_usb mark_release_confirmed)
             (Ret True)))))))))) "

definition release_usb_interface :: "interface \<Rightarrow> (runtime, bool) prog" where
  "release_usb_interface i =
     pbind (pany [pnot (known_all_up i), load_if i if_in_flight, load_if i if_host_state_uncertain]) (\<lambda>needs_safety.
     pthen (if needs_safety then pthen (put_safety i True) (put_uncertain i True) else Ret ())
      (pthen (put_in_flight i False) (pthen (cancel_queued i) (Ret needs_safety))))"

definition request_route_none :: "(runtime, route_outcome) prog" where
  "request_route_none =
     pbind route_status_snapshot (\<lambda>prior.
     let rt = rs_route prior in
     if route_snapshot.sn_desired rt = RouteNone \<and> sn_active rt = RouteNone \<and> sn_transition rt = RouteStable
     then Ret (RtNoOp, False, Some prior)
     else if \<not> sn_coherent rt \<or> sn_pending rt \<or> sn_transition rt \<noteq> RouteStable then Ret busy_route
     else if route_snapshot.sn_desired rt = RouteBle \<and> sn_active rt = RouteBle
     then pbind ble_snapshot (\<lambda>authority.
       pif (pnot (retire_ble_route_if_matches authority False KeyboardIf)) (Ret busy_route)
         (pmap (\<lambda>after. (RtAccepted, True, Some after)) route_status_snapshot))
     else if route_snapshot.sn_desired rt \<noteq> RouteUsb \<or> sn_active rt \<noteq> RouteUsb then Ret busy_route
     else pbind (on_route begin_usb_release) (\<lambda>(begun, stage). case stage of
         None \<Rightarrow> Ret busy_route
       | Some stage_a \<Rightarrow>
         if \<not> begun then Ret busy_route
         else pthen retire_unsafe_route_authority
          (pbind (release_usb_interface KeyboardIf) (\<lambda>k. pbind (release_usb_interface MouseIf) (\<lambda>m.
           pthen (if k \<or> m then Ret ()
                  else pthen (store_usb mark_release_confirmed)
                    (pbind (on_route (complete_usb_release_if_matches stage_a)) (\<lambda>_. Ret ())))
             (Ret (RtAccepted, k \<or> m, Some (route_only stage_a False))))))))"

definition complete_route_release :: "route_snapshot \<Rightarrow> (runtime, unit) prog" where
  "complete_route_release stage_a =
     pbind (on_route (complete_usb_release_if_matches stage_a)) (\<lambda>_. Ret ())"

definition terminalize_route_release_schedule_failure :: "route_snapshot \<Rightarrow> (runtime, unit) prog" where
  "terminalize_route_release_schedule_failure stage_a =
     pbind attach_generation (\<lambda>gen.
     pthen (mark_lifecycle_detach_uncertain gen) (complete_route_release stage_a))"

section \<open>The mailbox slots\<close>

definition take_slot :: "interface \<Rightarrow> (runtime, bool) prog" where
  "take_slot i =
     atomic (\<lambda>m. if if_slot_state (rt_ifs m i) = MbEmpty
       then (True, put_if i (\<lambda>s. s\<lparr>if_slot_state := MbWriting\<rparr>) m) else (False, m))"

definition next_mailbox_id :: "(runtime, u64) prog" where
  "next_mailbox_id = atomic (\<lambda>m. (ucast (rt_next_ticket_id m), m\<lparr>rt_next_ticket_id := rt_next_ticket_id m + 1\<rparr>))"

definition write_slot :: "interface \<Rightarrow> (report_work \<Rightarrow> report_work) \<Rightarrow> (runtime, unit) prog" where
  "write_slot i f = store_if i (\<lambda>s. s\<lparr>if_slot := f (if_slot s)\<rparr>)"

definition queue_report :: "interface \<Rightarrow> report_kind \<Rightarrow> u8 list \<Rightarrow> u8 \<Rightarrow> (runtime, bool) prog" where
  "queue_report i kind report len =
     scoped False False
      (pif (pany [Ret (len = 0 \<or> len > 8), pnot (mounted_and_active i),
                  pall [Ret (\<not> safety_kind kind), sequence_active]]) (Ret False)
       (pbind attach_generation (\<lambda>gen. pbind authority_epoch (\<lambda>epoch. pbind (on_route snapshot) (\<lambda>rt.
        pbind release_epoch (\<lambda>rel.
        let n = route_snapshot.sn_generation rt in
        pif (pall [Ret (\<not> safety_kind kind), pany [safety_debt, pnot (unsafe_route_active n TransportUsb)]])
          (Ret False)
         (pif (pany [load_if i if_safety_required, load_if i if_in_flight]) (Ret False)
          (pif (pnot (take_slot i)) (Ret False)
           (pbind next_mailbox_id (\<lambda>ticket_id.
            pthen (write_slot i (\<lambda>w. w\<lparr>rw_transport_generation := gen, rw_authority_epoch := epoch,
                rw_route_generation := n, rw_transport := TransportUsb, rw_ticket_id := ticket_id,
                rw_release_epoch := rel, rw_release_id := 0, rw_sequence_generation := 0,
                rw_originating_local_owner_id := 0, rw_kind := kind, rw_length := len,
                rw_report := copy_report (take (unat len) report) (rw_report w)\<rparr>))
             (pif (pany [pall [Ret (\<not> safety_kind kind), release_producers_blocked], release_requested,
                         pmap (\<lambda>e. e \<noteq> rel) release_epoch, pmap (\<lambda>g. g \<noteq> gen) attach_generation,
                         pmap (\<lambda>e. e \<noteq> epoch) authority_epoch,
                         pall [Ret (\<not> safety_kind kind),
                               pany [sequence_active, pnot (unsafe_route_active n TransportUsb)]],
                         pnot (mounted_and_active i)])
               (pthen (put_slot_state i MbEmpty) (Ret False))
               (pthen (put_slot_state i MbReady) (Ret True)))))))))))))"

definition queue_keyboard_report :: "u8 \<Rightarrow> u8 list \<Rightarrow> (runtime, bool) prog" where
  "queue_keyboard_report modifiers keycodes = queue_report KeyboardIf UnsafeKeyboard ([modifiers, 0] @ keycodes) 8"

definition queue_mouse_report :: "u8 \<Rightarrow> u8 \<Rightarrow> u8 \<Rightarrow> u8 \<Rightarrow> u8 \<Rightarrow> (runtime, bool) prog" where
  "queue_mouse_report buttons x y vertical horizontal =
     queue_report MouseIf UnsafeMouse [buttons AND 0x1f, x, y, vertical, horizontal] 5"

definition safety_transport_active :: "interface \<Rightarrow> (runtime, bool) prog" where
  "safety_transport_active i =
     pbind runtime_status (\<lambda>st. pbind (load_lifecycle id) (\<lambda>lc.
     Ret (st_mounted st \<and> \<not> st_suspended st \<and> interface_ready i st \<and> \<not> us_recovery lc
       \<and> (us_desired lc = Exposed \<and> us_observed lc = Mounted
          \<or> us_desired lc = Hidden \<and> us_observed lc = Detaching))))"

fun safety_kind_of :: "interface \<Rightarrow> report_kind" where
  "safety_kind_of KeyboardIf = SafetyKeyboard"
| "safety_kind_of MouseIf = SafetyMouse"

text \<open>The sequence generation of the slot is left as it was.\<close>

definition queue_safety :: "interface \<Rightarrow> (runtime, bool) prog" where
  "queue_safety i =
     pif (pany [pnot (load_if i if_safety_required), load_if i if_in_flight]) (Ret False)
      (pif (pnot (take_slot i)) (Ret False)
       (pbind attach_generation (\<lambda>gen. pbind authority_epoch (\<lambda>epoch. pbind (on_route snapshot) (\<lambda>rt.
        pbind next_mailbox_id (\<lambda>ticket_id.
        pthen (write_slot i (\<lambda>w. w\<lparr>rw_transport_generation := gen, rw_authority_epoch := epoch,
            rw_route_generation := route_snapshot.sn_generation rt, rw_transport := TransportUsb,
            rw_ticket_id := ticket_id\<rparr>))
         (pthen (locked (pbind release_epoch (\<lambda>rel. pbind (load rt_release) (\<lambda>r.
            write_slot i (\<lambda>w. w\<lparr>rw_release_epoch := rel,
              rw_release_id := (if ra_active r \<and> ra_transport r = TransportUsb \<and> ra_transport_generation r = gen
                \<and> ra_authority_epoch r = epoch \<and> ra_release_epoch r = rel then ra_id r else 0)\<rparr>)))))
          (pthen (write_slot i (\<lambda>w. w\<lparr>rw_originating_local_owner_id := 0, rw_kind := safety_kind_of i,
              rw_length := of_nat (report_size i),
              rw_report := copy_report (replicate (report_size i) 0) (rw_report w)\<rparr>))
           (pif (pany [pmap (\<lambda>g. g \<noteq> gen) attach_generation, pmap (\<lambda>e. e \<noteq> epoch) authority_epoch,
                       pnot (safety_transport_active i)])
             (pthen (put_slot_state i MbEmpty) (Ret False))
             (pthen (put_slot_state i MbReady) (Ret True)))))))))))"

section \<open>Execution on a start of frame\<close>

text \<open>The report of a slot that TinyUSB accepted.\<close>

definition slot_accepted :: "interface \<Rightarrow> report_work \<Rightarrow> u32 \<Rightarrow> u32 \<Rightarrow> (runtime, unit) prog" where
  "slot_accepted i w current_generation current_authority_epoch =
     pthen (store_if i (\<lambda>s. s\<lparr>if_work := w\<lparr>rw_transport_generation := current_generation,
         rw_authority_epoch := current_authority_epoch,
         rw_report := copy_report (take (unat (rw_length w)) (rw_report w)) (rw_report (if_work s))\<rparr>\<rparr>))
      (pthen (put_in_flight i True)
       (pthen (if rw_kind w = UnsafeKeyboard
               then pthen (store_if i (put_details KeyboardIf (rw_report w)))
                 (put_held i (unsafe_report_holds_state UnsafeKeyboard (rw_report w) (rw_length w)))
               else if rw_kind w = UnsafeMouse
               then pthen (store_if i (put_details MouseIf (rw_report w)))
                 (put_held i (unsafe_report_holds_state UnsafeMouse (rw_report w) (rw_length w)))
               else pthen (store_if i reset_details) (put_held i False))
        (pthen (if safety_kind (rw_kind w)
                then note_usb_release_outcome (rw_release_id w) i current_generation current_authority_epoch
                  (rw_release_epoch w) RiSubmitted
                else Ret ())
          (put_slot_state i MbEmpty))))"

definition submit_slot :: "interface \<Rightarrow> bool \<Rightarrow> report_work \<Rightarrow> u32 \<Rightarrow> u32 \<Rightarrow> (runtime, bool) prog" where
  "submit_slot i accepted w current_generation current_authority_epoch =
     pthen (hand_over \<lparr>su_ticket = None, su_interface = i, su_transport = TransportUsb,
         su_report = take (unat (rw_length w)) (rw_report w), su_accepted = accepted\<rparr>)
      (if \<not> accepted
       then pthen (put_slot_state i MbEmpty)
         (pthen (if safety_kind (rw_kind w)
                 then note_usb_release_outcome (rw_release_id w) i current_generation current_authority_epoch
                   (rw_release_epoch w) RiPending
                 else Ret ())
           (Ret False))
       else pthen (slot_accepted i w current_generation current_authority_epoch) (Ret True))"

definition slot_ready_loads :: "interface \<Rightarrow> report_work \<Rightarrow> (runtime, bool) prog" where
  "slot_ready_loads i w =
     (if safety_kind (rw_kind w) then safety_transport_active i else mounted_and_active i)"

definition execute_ready_slot :: "interface \<Rightarrow> bool \<Rightarrow> u32 \<Rightarrow> u32 \<Rightarrow> (runtime, bool) prog" where
  "execute_ready_slot i accepted current_generation current_authority_epoch =
     pbind (load_if i if_slot) (\<lambda>w.
     let unsafe = \<not> safety_kind (rw_kind w) in
     pbind (pall [Ret unsafe, pany [pmap (\<lambda>e. rw_release_epoch w \<noteq> e) release_epoch, sequence_active,
                pnot (unsafe_route_active (rw_route_generation w) (rw_transport w))]]) (\<lambda>stale_unsafe.
     pbind (pany [load_if i if_safety_required, release_requested]) (\<lambda>safety_now.
     pbind any_safety_required (\<lambda>any_safety_pending.
     pif (pany [Ret (rw_transport_generation w \<noteq> current_generation \<or> rw_authority_epoch w \<noteq> current_authority_epoch),
                pnot (slot_ready_loads i w), Ret (stale_unsafe \<or> (safety_now \<or> any_safety_pending) \<and> unsafe)])
       (pthen (if unsafe \<and> (safety_now \<or> unsafe_report_holds_state (rw_kind w) (rw_report w) (rw_length w))
               then put_safety i True else Ret ())
         (pthen (put_slot_state i MbEmpty) (Ret False)))
       (pif (pany [pmap (\<lambda>g. rw_transport_generation w \<noteq> g) attach_generation,
                   pmap (\<lambda>e. rw_authority_epoch w \<noteq> e) authority_epoch,
                   pall [Ret unsafe, pany [sequence_active,
                     pnot (unsafe_route_active (rw_route_generation w) (rw_transport w))]],
                   pnot (slot_ready_loads i w), load_if i (\<lambda>s. if_slot_state s \<noteq> MbExecuting)])
         (pthen (put_slot_state i MbEmpty) (Ret False))
         (submit_slot i accepted w current_generation current_authority_epoch))))))"

text \<open>One round of the submission loop; \<open>True\<close> is its \<open>break\<close>.\<close>

definition start_slot :: "interface \<Rightarrow> (runtime, bool) prog" where
  "start_slot i =
     atomic (\<lambda>m. if if_slot_state (rt_ifs m i) = MbReady
       then (True, put_if i (\<lambda>s. s\<lparr>if_slot_state := MbExecuting\<rparr>) m) else (False, m))"

definition execute_slot :: "interface \<Rightarrow> bool \<Rightarrow> u32 \<Rightarrow> u32 \<Rightarrow> (runtime, bool) prog" where
  "execute_slot i accepted current_generation current_authority_epoch =
     pif (load_if i (\<lambda>s. if_slot_state s = MbCanceled)) (pthen (put_slot_state i MbEmpty) (Ret False))
      (pthen (pif (pall [pnot (load_if i if_in_flight), load_if i if_safety_required,
                         load_if i (\<lambda>s. if_slot_state s = MbEmpty)])
               (pbind (queue_safety i) (\<lambda>_. Ret ())) (Ret ()))
        (pif (pnot (start_slot i)) (Ret False)
          (execute_ready_slot i accepted current_generation current_authority_epoch)))"

definition publish_release_debt :: "interface \<Rightarrow> (runtime, unit) prog" where
  "publish_release_debt i =
     pbind (load_if i (\<lambda>s. if i = KeyboardIf then keyboard_held s else if_buttons s \<noteq> 0)) (\<lambda>held.
     pbind (load_if i (\<lambda>s. if_slot_state s = MbReady \<and> work_holds_state (if_slot s))) (\<lambda>queued_unsafe.
     pbind (load_if i (\<lambda>s. if_in_flight s \<and> work_holds_state (if_work s))) (\<lambda>in_flight_unsafe.
     pif (pany [Ret held, load_if i if_host_state_uncertain, load_if i if_safety_required,
                Ret (queued_unsafe \<or> in_flight_unsafe)]) (put_safety i True) (Ret ()))))"

text \<open>The answers of TinyUSB to the submissions of one frame, by their place in the code.\<close>

record submit_answers =
  an_keyboard_ticket :: bool
  an_mouse_ticket :: bool
  an_slot :: "interface \<Rightarrow> bool"

definition take_release_request :: "(runtime, bool) prog" where
  "take_release_request = atomic (\<lambda>m. (rt_release_requested m, m\<lparr>rt_release_requested := False\<rparr>))"

definition execute :: "submit_answers \<Rightarrow> (runtime, unit) prog" where
  "execute an =
     pbind runtime_status (\<lambda>st.
     if \<not> st_mounted st \<or> st_suspended st then Ret ()
     else pbind attach_generation (\<lambda>gen. pbind authority_epoch (\<lambda>epoch. pbind take_release_request (\<lambda>requested.
       pbind (if requested then load rt_request_generation else Ret 0) (\<lambda>request_generation.
       pbind (if requested then load rt_request_authority_epoch else Ret 0) (\<lambda>request_authority_epoch.
       pbind (if requested then load rt_request_epoch else Ret 0) (\<lambda>request_release_epoch.
       pbind (pall [Ret (requested \<and> request_generation = gen \<and> request_authority_epoch = epoch),
                    pmap (\<lambda>e. request_release_epoch = e) release_epoch]) (\<lambda>for_current_attach.
       pthen (if for_current_attach then pfor both publish_release_debt else Ret ())
        (pif (process_keyboard_ticket (an_keyboard_ticket an) gen epoch) (Ret ())
         (pif (process_mouse_ticket (an_mouse_ticket an) gen epoch) (Ret ())
          (pthen (pif (execute_slot KeyboardIf (an_slot an KeyboardIf) gen epoch) (Ret ())
                   (pbind (execute_slot MouseIf (an_slot an MouseIf) gen epoch) (\<lambda>_. Ret ())))
            (if for_current_attach then reconcile_zero_work_release gen epoch request_release_epoch False
             else Ret ())))))))))))) "

section \<open>Completion callbacks\<close>

definition work_token_of :: "report_work \<Rightarrow> work_token" where
  "work_token_of w = no_token\<lparr>wt_authority_epoch := rw_authority_epoch w,
     wt_route_generation := rw_route_generation w, wt_transport_generation := rw_transport_generation w,
     wt_ticket_id := rw_ticket_id w, wt_release_epoch := rw_release_epoch w,
     wt_sequence_generation := rw_sequence_generation w,
     wt_originating_local_owner_id := rw_originating_local_owner_id w, wt_transport := rw_transport w\<rparr>"

definition in_flight_token :: "interface \<Rightarrow> (runtime, work_token) prog" where
  "in_flight_token i = load_if i (\<lambda>s. work_token_of (if_work s))"

definition work_has_token :: "report_work \<Rightarrow> work_token \<Rightarrow> bool" where
  "work_has_token w t \<longleftrightarrow> rw_transport_generation w = wt_transport_generation t
     \<and> rw_authority_epoch w = wt_authority_epoch t \<and> rw_route_generation w = wt_route_generation t
     \<and> rw_transport w = wt_transport t \<and> rw_ticket_id w = wt_ticket_id t
     \<and> rw_release_epoch w = wt_release_epoch t
     \<and> rw_originating_local_owner_id w = wt_originating_local_owner_id t"

definition completion_foreign :: "interface \<Rightarrow> work_token \<Rightarrow> (runtime, bool) prog" where
  "completion_foreign i token =
     pbind (load_if i if_work) (\<lambda>w.
     pany [pnot (load_if i if_in_flight), pmap (\<lambda>g. rw_transport_generation w \<noteq> g) attach_generation,
           pmap (\<lambda>e. rw_authority_epoch w \<noteq> e) authority_epoch,
           pall [Ret (\<not> safety_kind (rw_kind w)),
                 pnot (unsafe_route_active (rw_route_generation w) (rw_transport w))],
           Ret (\<not> work_has_token w token)])"

text \<open>A report pointer may be null; a length comes with it.\<close>

definition report_complete_for_token ::
    "interface \<Rightarrow> work_token \<Rightarrow> u8 list option \<Rightarrow> u16 \<Rightarrow> (runtime, bool) prog" where
  "report_complete_for_token i token report len =
     pif (completion_foreign i token) (Ret False)
      (pbind (load_if i if_work) (\<lambda>w.
       if report \<noteq> None \<and> len \<noteq> ucast (rw_length w) then Ret False
       else if report \<noteq> None \<and> take (unat len) (the report) \<noteq> take (unat len) (rw_report w) then Ret False
       else
         pthen (if safety_kind (rw_kind w)
                then pthen (put_safety i False) (pthen (put_uncertain i False) (pthen (store_if i reset_details)
                  (if rw_kind w = SafetyKeyboard then write_confirmed_keyboard (rw_report w)
                   else write_confirmed_mouse 0)))
                else pthen (put_uncertain i False)
                  (if rw_kind w = UnsafeKeyboard then write_confirmed_keyboard (rw_report w)
                   else write_confirmed_mouse (rw_report w ! 0)))
          (pthen (put_in_flight i False)
           (pthen (pif (pall [Ret (safety_kind (rw_kind w)), pnot any_safety_required])
                    (store_usb mark_release_confirmed) (Ret ()))
             (Ret True)))))"

definition report_complete :: "interface \<Rightarrow> u8 list option \<Rightarrow> u16 \<Rightarrow> (runtime, bool) prog" where
  "report_complete i report len =
     pbind (in_flight_token i) (\<lambda>token. report_complete_for_token i token report len)"

text \<open>The second component is the owner that \<open>originating_local_owner_id\<close> receives, 0 on refusal.\<close>

definition report_failed_for_token ::
    "interface \<Rightarrow> work_token \<Rightarrow> u8 list option \<Rightarrow> u16 \<Rightarrow> (runtime, bool \<times> u64) prog" where
  "report_failed_for_token i token report len =
     pif (completion_foreign i token) (Ret (False, 0))
      (pbind (load_if i if_work) (\<lambda>w.
       if report \<noteq> None \<and> len = ucast (rw_length w)
         \<and> take (unat len) (the report) \<noteq> take (unat len) (rw_report w) then Ret (False, 0)
       else
         pthen (put_uncertain i True) (pthen (put_safety i True) (pthen (store_usb mark_release_uncertain)
          (pthen (if safety_kind (rw_kind w)
                  then note_usb_release_outcome (rw_release_id w) i (rw_transport_generation w)
                    (rw_authority_epoch w) (rw_release_epoch w) RiPending
                  else Ret ())
            (pthen (put_in_flight i False) (Ret (True, wt_originating_local_owner_id token))))))))"

definition report_failed :: "interface \<Rightarrow> u8 list option \<Rightarrow> u16 \<Rightarrow> (runtime, bool \<times> u64) prog" where
  "report_failed i report len =
     pbind (in_flight_token i) (\<lambda>token. report_failed_for_token i token report len)"

section \<open>Sequence ownership\<close>

datatype sequence_admission = SaAccepted | SaBusy | SaNotReady | SaSafetyPending

definition claim_sequence :: "u32 \<Rightarrow> (runtime, bool) prog" where
  "claim_sequence n =
     atomic (\<lambda>m. if rt_sequence_generation m = 0 then (True, m\<lparr>rt_sequence_generation := n\<rparr>) else (False, m))"

definition end_sequence_generation :: "u32 \<Rightarrow> (runtime, unit) prog" where
  "end_sequence_generation n =
     store (\<lambda>m. if rt_sequence_generation m = n then m\<lparr>rt_sequence_generation := 0\<rparr> else m)"

definition end_sequence :: "sequence_authority \<Rightarrow> (runtime, unit) prog" where
  "end_sequence sq = end_sequence_generation (sq_generation sq)"

definition revoke_sequence :: "(runtime, unit) prog" where
  "revoke_sequence = scoped True () (store (\<lambda>m. m\<lparr>rt_sequence_generation := 0\<rparr>))"

definition sequence_safety :: "(runtime, bool) prog" where
  "sequence_safety =
     pany [release_producers_blocked, release_requested, any_safety_required,
           load_if KeyboardIf if_host_state_uncertain, load_if MouseIf if_host_state_uncertain]"

definition sequence_work :: "(runtime, bool) prog" where
  "sequence_work =
     pany [load_if KeyboardIf if_in_flight, load_if MouseIf if_in_flight,
           load_if KeyboardIf (\<lambda>s. if_slot_state s \<noteq> MbEmpty), load_if MouseIf (\<lambda>s. if_slot_state s \<noteq> MbEmpty)]"

definition ticket_busy :: "report_ticket \<Rightarrow> bool" where
  "ticket_busy t \<longleftrightarrow> tk_state t = TkWriting \<or> tk_state t = TkWritingCanceled \<or> tk_state t = TkPublished
     \<or> tk_state t = TkClaimed"

text \<open>The confirmed state: modifiers, key codes and buttons.\<close>

type_synonym confirmed_state = "u8 \<times> u8 list \<times> u8"

definition usb_sequence_ready :: "status_snapshot \<Rightarrow> route_snapshot \<Rightarrow> bool" where
  "usb_sequence_ready st rt \<longleftrightarrow> sn_coherent rt \<and> sn_active rt = RouteUsb \<and> st_mounted st \<and> \<not> st_suspended st
     \<and> st_keyboard_ready st \<and> st_mouse_ready st"

definition begin_sequence ::
    "(runtime, sequence_admission \<times> (confirmed_state \<times> sequence_authority) option) prog" where
  "begin_sequence =
     scoped False (SaBusy, None)
      (pbind (allocate_generation rt_next_sequence_generation (\<lambda>n m. m\<lparr>rt_next_sequence_generation := n\<rparr>)) (\<lambda>allocated.
       case allocated of None \<Rightarrow> Ret (SaNotReady, None) | Some n \<Rightarrow>
       pif (pnot (claim_sequence n)) (Ret (SaBusy, None))
        (let refuse = (\<lambda>r. pthen (end_sequence_generation n) (Ret (r, None))) in
         pbind authority_epoch (\<lambda>epoch. pbind runtime_status (\<lambda>st. pbind (on_route snapshot) (\<lambda>rt.
         pbind ble_snapshot (\<lambda>ble.
         let rg = route_snapshot.sn_generation rt in
         pbind (pall [Ret (usb_sequence_ready st rt), unsafe_route_active rg TransportUsb]) (\<lambda>usb_ready.
         pbind (pall [Ret (sn_coherent rt \<and> bl_coherent ble \<and> bl_active ble \<and> sn_active rt = RouteBle
                        \<and> bl_route_generation ble = rg \<and> bl_authority_epoch ble = epoch),
                      unsafe_route_active rg TransportBle]) (\<lambda>ble_ready.
         if \<not> usb_ready \<and> \<not> ble_ready then refuse SaNotReady
         else pif sequence_safety (refuse SaSafetyPending)
          (pif (pany [load_ticket KeyboardIf ticket_busy, load_ticket MouseIf ticket_busy, sequence_work])
            (refuse SaBusy)
           (pbind read_confirmed_keyboard (\<lambda>keyboard. pbind read_confirmed_mouse (\<lambda>buttons.
            pbind runtime_status (\<lambda>st'. pbind (on_route snapshot) (\<lambda>rt'.
            pbind (pall [Ret (usb_ready \<and> route_snapshot.sn_generation rt' = rg \<and> usb_sequence_ready st' rt'),
                         unsafe_route_active rg TransportUsb]) (\<lambda>usb_still_ready.
            pbind (pall [Ret ble_ready, ble_route_normal_authority_matches ble]) (\<lambda>ble_still_ready.
            pif (pany [pmap (\<lambda>e. e \<noteq> epoch) authority_epoch, Ret (\<not> usb_still_ready \<and> \<not> ble_still_ready)])
              (refuse SaNotReady)
             (pif sequence_safety (refuse SaSafetyPending)
              (pif sequence_work (refuse SaBusy)
               (pbind release_epoch (\<lambda>rel.
                let admitted = \<lparr>sq_generation = n, sq_authority_epoch = epoch, sq_release_epoch = rel,
                  sq_profile_activation_epoch = (if usb_ready then 0 else bl_profile_activation_epoch ble),
                  sq_active_roles = (if usb_ready then kInputRoles else bl_present_roles ble),
                  sq_transport = (if usb_ready then TransportUsb else TransportBle),
                  sq_route_generation = rg\<rparr> in
                pif (pnot (sequence_authority_current admitted)) (refuse SaSafetyPending)
                  (Ret (SaAccepted,
                    Some ((keyboard ! 0, take 6 (drop 2 keyboard), buttons), admitted))))))))))))))))))))))))"

section \<open>Calls\<close>

datatype ticket_call =
    RcBeginKeyboard u8 "u8 list" sequence_authority u64
  | RcBeginMouse u8 u8 u8 u8 u8 sequence_authority u64
  | RcSnapshotNow interface
  | RcSnapshot interface u64
  | RcCancelReport interface u64
  | RcFinalizeReport interface u64
  | RcToken interface
  | RcTokenMatches interface work_token
  | RcPublishedToken interface
  | RcMarkScheduled interface work_token
  | RcAbandon interface work_token
  | RcBleCurrent interface work_token
  | RcProcessBle interface work_token ble_submit_result

datatype work_call =
    RcExecute submit_answers
  | RcComplete interface "u8 list option" u16
  | RcCompleteFor interface work_token "u8 list option" u16
  | RcFailed interface "u8 list option" u16
  | RcFailedFor interface work_token "u8 list option" u16
  | RcQueueKeyboard u8 "u8 list"
  | RcQueueMouse u8 u8 u8 u8 u8
  | RcBeginSequence
  | RcSequenceCurrent sequence_authority
  | RcEndSequence sequence_authority
  | RcRevokeSequence

datatype callback_call =
    RcMount nat
  | RcUnmount
  | RcSuspend
  | RcResume
  | RcReady interface bool
  | RcSof
  | RcWatchdogSnapshot
  | RcStall watchdog_snapshot u32
  | RcDriverUninstalled
  | RcRuntimeFault i32
  | RcFaultShutdown
  | RcDetachUncertain u32

datatype exposure_call =
    RcAttach bool
  | RcDetach bool
  | RcUsbCompletion usb_completion
  | RcBeginUninstall
  | RcDetachSafety nat
  | RcRouteSafety nat route_snapshot
  | RcDetachRoute route_snapshot

datatype routing_call =
    RcRouteStatus
  | RcRouteUsb
  | RcRouteBle ble_activation
  | RcRouteNone
  | RcRetireBle ble_authority bool interface
  | RcBleMatches ble_authority
  | RcBleReleaseMatches ble_authority
  | RcCompleteBle nat ble_authority
  | RcRouteScheduleFailure route_snapshot
  | RcCompleteRoute route_snapshot

datatype release_call =
    RcRequestRelease nat
  | RcBeginRelease nat
  | RcReleaseSnapshot
  | RcFinalizeRelease u64
  | RcContinuity ble_authority
  | RcContinuityLoss ble_authority
  | RcPrepareBle release_ticket interface
  | RcCompleteBleInterface release_ticket interface
  | RcFailBle release_ticket interface
  | RcCommitBle release_ticket

datatype sleep_call =
    RcClaimSleep u32 u32
  | RcCommitSleep
  | RcReleaseSleep
  | RcQuiescent

datatype runtime_call =
    RcTicket ticket_call
  | RcWork work_call
  | RcCallback callback_call
  | RcExposure exposure_call
  | RcRouting routing_call
  | RcRelease release_call
  | RcSleep sleep_call

text \<open>The answers the properties look at; every other call answers \<open>RaDone\<close>.\<close>

datatype runtime_answer =
    RaDone
  | RaBegun interface "u8 list" begin_result u64
  | RaCanceled u64 bool
  | RaSnapshot "report_snapshot option"
  | RaProcessed u64 bool
  | RaSleepCommitted bool

definition answer_done :: "(runtime, 'a) prog \<Rightarrow> (runtime, runtime_answer) prog" where
  "answer_done p = pmap (\<lambda>_. RaDone) p"

fun ticket_code :: "ticket_call \<Rightarrow> (runtime, runtime_answer) prog" where
  "ticket_code (RcBeginKeyboard modifiers keycodes sq owner) =
     pmap (\<lambda>(r, n). RaBegun KeyboardIf ([modifiers, 0] @ keycodes) r n) (begin_keyboard_report modifiers keycodes sq owner)"
| "ticket_code (RcBeginMouse b x y v h sq owner) =
     pmap (\<lambda>(r, n). RaBegun MouseIf [b AND 0x1f, x, y, v, h] r n) (begin_mouse_report b x y v h sq owner)"
| "ticket_code (RcSnapshotNow i) = pmap (\<lambda>s. RaSnapshot (Some s)) (report_snapshot_now i)"
| "ticket_code (RcSnapshot i n) = pmap RaSnapshot (report_snapshot i n)"
| "ticket_code (RcCancelReport i n) =
     pmap (RaCanceled n) (case i of KeyboardIf \<Rightarrow> cancel_keyboard_report n | MouseIf \<Rightarrow> cancel_mouse_report n)"
| "ticket_code (RcFinalizeReport i n) =
     answer_done (case i of KeyboardIf \<Rightarrow> finalize_keyboard_report n | MouseIf \<Rightarrow> finalize_mouse_report n)"
| "ticket_code (RcToken i) = answer_done (current_report_token i)"
| "ticket_code (RcTokenMatches i t) = answer_done (report_token_matches i t)"
| "ticket_code (RcPublishedToken i) = answer_done (published_report_token i)"
| "ticket_code (RcMarkScheduled i t) = answer_done (mark_ble_report_scheduled i t)"
| "ticket_code (RcAbandon i t) = answer_done (abandon_ble_report i t)"
| "ticket_code (RcBleCurrent i t) = answer_done (ble_work_token_current i t)"
| "ticket_code (RcProcessBle i t r) = pmap (RaProcessed (wt_ticket_id t)) (process_ble_report i t r)"

fun work_code :: "work_call \<Rightarrow> (runtime, runtime_answer) prog" where
  "work_code (RcExecute an) = answer_done (execute an)"
| "work_code (RcComplete i r n) = answer_done (report_complete i r n)"
| "work_code (RcCompleteFor i t r n) = answer_done (report_complete_for_token i t r n)"
| "work_code (RcFailed i r n) = answer_done (report_failed i r n)"
| "work_code (RcFailedFor i t r n) = answer_done (report_failed_for_token i t r n)"
| "work_code (RcQueueKeyboard m k) = answer_done (queue_keyboard_report m k)"
| "work_code (RcQueueMouse b x y v h) = answer_done (queue_mouse_report b x y v h)"
| "work_code RcBeginSequence = answer_done begin_sequence"
| "work_code (RcSequenceCurrent sq) = answer_done (sequence_authority_current sq)"
| "work_code (RcEndSequence sq) = answer_done (end_sequence sq)"
| "work_code RcRevokeSequence = answer_done revoke_sequence"

fun callback_code :: "callback_call \<Rightarrow> (runtime, runtime_answer) prog" where
  "callback_code (RcMount fuel) = answer_done (on_mount fuel)"
| "callback_code RcUnmount = answer_done on_unmount"
| "callback_code RcSuspend = answer_done on_suspend"
| "callback_code RcResume = answer_done on_resume"
| "callback_code (RcReady i b) = answer_done (set_ready i b)"
| "callback_code RcSof = answer_done note_sof_activity"
| "callback_code RcWatchdogSnapshot = answer_done usb_link_watchdog_snapshot"
| "callback_code (RcStall e t) = answer_done (on_usb_link_stall e t)"
| "callback_code RcDriverUninstalled = answer_done on_driver_uninstalled"
| "callback_code (RcRuntimeFault c) = answer_done (begin_usb_runtime_fault c)"
| "callback_code RcFaultShutdown = answer_done commit_usb_runtime_fault_shutdown"
| "callback_code (RcDetachUncertain n) = answer_done (mark_lifecycle_detach_uncertain n)"

fun exposure_code :: "exposure_call \<Rightarrow> (runtime, runtime_answer) prog" where
  "exposure_code (RcAttach b) = answer_done (request_usb_attach b)"
| "exposure_code (RcDetach b) = answer_done (request_usb_detach b)"
| "exposure_code (RcUsbCompletion c) = answer_done (complete_usb c)"
| "exposure_code RcBeginUninstall = answer_done begin_usb_uninstall"
| "exposure_code (RcDetachSafety fuel) = answer_done (begin_lifecycle_detach_safety fuel)"
| "exposure_code (RcRouteSafety fuel r) = answer_done (begin_route_release_safety fuel r)"
| "exposure_code (RcDetachRoute r) = answer_done (complete_usb_detach_route_invalidation r)"

fun routing_code :: "routing_call \<Rightarrow> (runtime, runtime_answer) prog" where
  "routing_code RcRouteStatus = answer_done route_status_snapshot"
| "routing_code RcRouteUsb = answer_done request_route_usb"
| "routing_code (RcRouteBle a) = answer_done (request_route_ble a)"
| "routing_code RcRouteNone = answer_done request_route_none"
| "routing_code (RcRetireBle e b i) = answer_done (retire_ble_route_if_matches e b i)"
| "routing_code (RcBleMatches e) = answer_done (ble_route_normal_authority_matches e)"
| "routing_code (RcBleReleaseMatches e) = answer_done (ble_route_release_matches e)"
| "routing_code (RcCompleteBle fuel e) = answer_done (complete_ble_route_release_if_matches fuel e)"
| "routing_code (RcRouteScheduleFailure r) = answer_done (terminalize_route_release_schedule_failure r)"
| "routing_code (RcCompleteRoute r) = answer_done (complete_route_release r)"

fun release_code :: "release_call \<Rightarrow> (runtime, runtime_answer) prog" where
  "release_code (RcRequestRelease fuel) = answer_done (request_release_all fuel)"
| "release_code (RcBeginRelease fuel) = answer_done (begin_release_all fuel)"
| "release_code RcReleaseSnapshot = answer_done release_all_snapshot"
| "release_code (RcFinalizeRelease n) = answer_done (finalize_release_all n)"
| "release_code (RcContinuity e) = answer_done (ble_release_all_route_continuity_matches e)"
| "release_code (RcContinuityLoss e) = answer_done (note_ble_route_continuity_loss e)"
| "release_code (RcPrepareBle e i) = answer_done (prepare_ble_release_all_interface e i)"
| "release_code (RcCompleteBleInterface e i) = answer_done (complete_ble_release_all_interface e i)"
| "release_code (RcFailBle e i) = answer_done (fail_ble_release_all e i)"
| "release_code (RcCommitBle e) = answer_done (commit_ble_release_all e)"

fun sleep_code :: "sleep_call \<Rightarrow> (runtime, runtime_answer) prog" where
  "sleep_code (RcClaimSleep e n) = answer_done (claim_sleep_quiescence e n)"
| "sleep_code RcCommitSleep = pmap RaSleepCommitted commit_sleep_quiescence"
| "sleep_code RcReleaseSleep = answer_done release_sleep_quiescence"
| "sleep_code RcQuiescent = answer_done profile_switch_quiescent"

fun runtime_code :: "runtime_call \<Rightarrow> (runtime, runtime_answer) prog" where
  "runtime_code (RcTicket c) = ticket_code c"
| "runtime_code (RcWork c) = work_code c"
| "runtime_code (RcCallback c) = callback_code c"
| "runtime_code (RcExposure c) = exposure_code c"
| "runtime_code (RcRouting c) = routing_code c"
| "runtime_code (RcRelease c) = release_code c"
| "runtime_code (RcSleep c) = sleep_code c"

end
