(* ===== verification/TicketRules.thy ===== *)
theory TicketRules
  imports RuntimeExecution
begin

text \<open>
  What the tasks and callbacks of \<open>hid_runtime\<close> promise each other about the report tickets and the sleep
  gate, and the rules for the parts of a program that touch neither: what only reads, what changes other
  state, and what only cancels tickets.
\<close>

section \<open>Notes\<close>

text \<open>
  The watcher notes every ticket that is begun (interface, id, transport, bytes) and every id that ended
  without and with an accepted report.
\<close>

type_synonym begun_ticket = "interface \<times> u64 \<times> hid_transport \<times> u8 list"

record ticket_notes =
  tn_begun :: "begun_ticket set"
  tn_closed :: "u64 set"
  tn_submitted :: "u64 set"

abbreviation ticket_of :: "interface \<Rightarrow> runtime \<Rightarrow> report_ticket" where
  "ticket_of i s \<equiv> rt_tickets s i"

abbreviation id_of :: "interface \<Rightarrow> runtime \<Rightarrow> u64" where
  "id_of i s \<equiv> tk_ticket_id (ticket_of i s)"

abbreviation phase_of :: "interface \<Rightarrow> runtime \<Rightarrow> ticket_state" where
  "phase_of i s \<equiv> tk_state (ticket_of i s)"

definition describe :: "interface \<Rightarrow> runtime \<Rightarrow> begun_ticket" where
  "describe i s = (i, id_of i s, tk_transport (ticket_of i s), tk_report (ticket_of i s))"

definition entered :: "runtime \<Rightarrow> runtime \<Rightarrow> ticket_state set \<Rightarrow> interface set" where
  "entered s s' phases = {i. phase_of i s \<notin> phases \<and> phase_of i s' \<in> phases}"

definition ticket_watch :: "runtime \<Rightarrow> runtime \<Rightarrow> ticket_notes \<Rightarrow> ticket_notes" where
  "ticket_watch s s' g =
     \<lparr>tn_begun = tn_begun g \<union> (\<lambda>i. describe i s') ` entered s s' {TkWriting},
      tn_closed = tn_closed g \<union> (\<lambda>i. id_of i s') ` entered s s' {TkCanceled, TkNotReady},
      tn_submitted = tn_submitted g \<union> (\<lambda>i. id_of i s') ` entered s s' {TkSubmitted}\<rparr>"

text \<open>No counter wraps: ticket ids end at the last one and the gate refuses at its full count.\<close>

definition unbounded :: "ticket_notes \<Rightarrow> bool" where
  "unbounded g \<longleftrightarrow> True"

definition ticket_entries :: "runtime \<Rightarrow> submission list" where
  "ticket_entries s = filter (\<lambda>e. su_ticket e \<noteq> None) (rt_sent s)"

definition sent_of :: "u64 \<Rightarrow> runtime \<Rightarrow> submission list" where
  "sent_of n s = filter (\<lambda>e. su_ticket e = Some n) (rt_sent s)"

definition issued :: "u64 \<Rightarrow> runtime \<Rightarrow> bool" where
  "issued n s \<longleftrightarrow> n \<noteq> 0 \<and> (rt_next_public_ticket_id s = 0 \<or> n < rt_next_public_ticket_id s)"

section \<open>The invariant\<close>

definition describes :: "submission \<Rightarrow> begun_ticket \<Rightarrow> bool" where
  "describes e b \<longleftrightarrow> (\<exists>n. su_ticket e = Some n \<and> b = (su_interface e, n, su_transport e, su_report e))"

definition begun_ids :: "ticket_notes \<Rightarrow> u64 set" where
  "begun_ids g = (fst \<circ> snd) ` tn_begun g"

definition busy_phase :: "ticket_state \<Rightarrow> bool" where
  "busy_phase p \<longleftrightarrow> p = TkWriting \<or> p = TkWritingCanceled \<or> p = TkPublished \<or> p = TkClaimed"

text \<open>One ticket against the history.\<close>

definition ticket_ok :: "runtime \<Rightarrow> ticket_notes \<Rightarrow> interface \<Rightarrow> bool" where
  "ticket_ok s g i \<longleftrightarrow>
     (id_of i s = 0 \<longrightarrow> phase_of i s = TkFree)
     \<and> (id_of i s \<noteq> 0 \<longrightarrow> describe i s \<in> tn_begun g)
     \<and> (busy_phase (phase_of i s) \<longrightarrow> id_of i s \<notin> tn_closed g \<and> id_of i s \<notin> tn_submitted g)
     \<and> (busy_phase (phase_of i s) \<and> phase_of i s \<noteq> TkClaimed \<longrightarrow> sent_of (id_of i s) s = [])
     \<and> (phase_of i s = TkSubmitted \<longrightarrow> id_of i s \<in> tn_submitted g)
     \<and> (phase_of i s = TkCanceled \<or> phase_of i s = TkNotReady \<longrightarrow> id_of i s \<in> tn_closed g)"

definition running :: "u64 \<Rightarrow> runtime \<Rightarrow> bool" where
  "running n s \<longleftrightarrow> (\<exists>i. id_of i s = n \<and> busy_phase (phase_of i s))"

definition history_ok :: "runtime \<Rightarrow> ticket_notes \<Rightarrow> bool" where
  "history_ok s g \<longleftrightarrow>
     (\<forall>n \<in> begun_ids g. issued n s \<and> length (sent_of n s) \<le> 1
        \<and> (n \<in> tn_closed g \<or> n \<in> tn_submitted g \<or> running n s)
        \<and> (n \<in> tn_closed g \<longrightarrow> (\<forall>e \<in> set (sent_of n s). \<not> su_accepted e))
        \<and> (n \<in> tn_submitted g \<longrightarrow> (\<exists>e \<in> set (sent_of n s). su_accepted e)))
     \<and> (\<forall>b \<in> tn_begun g. \<forall>c \<in> tn_begun g. fst (snd b) = fst (snd c) \<longrightarrow> b = c)
     \<and> tn_closed g \<union> tn_submitted g \<subseteq> begun_ids g
     \<and> (\<forall>e \<in> set (ticket_entries s). \<exists>b \<in> tn_begun g. describes e b)"

definition gate_count :: "runtime \<Rightarrow> nat" where "gate_count s = unat (take_bit 29 (rt_gate s))"

definition gate_control :: "runtime \<Rightarrow> nat" where "gate_control s = unat (drop_bit 29 (rt_gate s))"

text \<open>The control field: 1 is a claim, 3 a claim in conflict, 4 a committed claim.\<close>

definition gate_ok :: "runtime \<Rightarrow> bool" where
  "gate_ok s \<longleftrightarrow>
     gate_count s = length (rt_holders s)
     \<and> gate_control s \<in> {0, 1, 3, 4}
     \<and> distinct (map fst (rt_holders s)) \<and> (\<forall>h \<in> set (rt_holders s). fst h < rt_next_holder s)
     \<and> (gate_control s = 1 \<longrightarrow> rt_holders s = [])
     \<and> (gate_control s \<noteq> 0 \<longrightarrow> (\<forall>h \<in> set (rt_holders s). snd h))"

definition runtime_inv :: "runtime \<times> ticket_notes \<Rightarrow> bool" where
  "runtime_inv x \<longleftrightarrow> (\<forall>i. ticket_ok (fst x) (snd x) i) \<and> history_ok (fst x) (snd x) \<and> gate_ok (fst x)
     \<and> (id_of KeyboardIf (fst x) = id_of MouseIf (fst x) \<longrightarrow> id_of KeyboardIf (fst x) = 0)"

section \<open>Roles\<close>

datatype runtime_role = Writer interface | Claimer interface | Admitted nat

definition runtime_held :: "runtime \<Rightarrow> runtime_role set" where
  "runtime_held s = Writer ` {i. phase_of i s = TkWriting \<or> phase_of i s = TkWritingCanceled}
     \<union> Claimer ` {i. phase_of i s = TkClaimed} \<union> Admitted ` set (map fst (rt_holders s))"

definition runtime_base :: "runtime \<times> ticket_notes \<Rightarrow> runtime \<times> ticket_notes \<Rightarrow> bool" where
  "runtime_base x y \<longleftrightarrow> (\<forall>n. issued n (fst x) \<longrightarrow> issued n (fst y))
     \<and> tn_begun (snd x) \<subseteq> tn_begun (snd y) \<and> tn_closed (snd x) \<subseteq> tn_closed (snd y)
     \<and> tn_submitted (snd x) \<subseteq> tn_submitted (snd y)
     \<and> set (ticket_entries (fst x)) \<subseteq> set (ticket_entries (fst y))
     \<and> (\<forall>n \<in> tn_closed (snd x) \<union> tn_submitted (snd x). sent_of n (fst y) = sent_of n (fst x))"

text \<open>What a ticket says besides its phase, outcome and BLE mark; and all of it but the mark.\<close>

definition ticket_core :: "report_ticket \<Rightarrow> report_ticket" where
  "ticket_core t = t\<lparr>tk_ble_action_pending := False\<rparr>"

definition ticket_payload :: "report_ticket \<Rightarrow> report_ticket" where
  "ticket_payload t = t\<lparr>tk_ble_action_pending := False, tk_state := TkFree, tk_outcome := ToNone\<rparr>"

fun runtime_keep :: "runtime_role \<Rightarrow> runtime \<times> ticket_notes \<Rightarrow> runtime \<times> ticket_notes \<Rightarrow> bool" where
  "runtime_keep (Writer i) x y \<longleftrightarrow>
     ticket_payload (ticket_of i (fst y)) = ticket_payload (ticket_of i (fst x))"
| "runtime_keep (Claimer i) x y \<longleftrightarrow>
     ticket_core (ticket_of i (fst y)) = ticket_core (ticket_of i (fst x))
     \<and> sent_of (id_of i (fst y)) (fst y) = sent_of (id_of i (fst x)) (fst x)"
| "runtime_keep (Admitted n) x y \<longleftrightarrow>
     (\<forall>b. (n, b) \<in> set (rt_holders (fst x)) \<longrightarrow> (n, b) \<in> set (rt_holders (fst y)))"

interpretation rr: interleaving runtime_code ticket_watch unbounded runtime_inv runtime_held
  runtime_base runtime_keep
proof
  show "unbounded (ticket_watch s s' g) \<Longrightarrow> unbounded g" for s s' g
    by (simp add: unbounded_def)
  show "runtime_base x x" for x by (simp add: runtime_base_def)
  show "runtime_base x z" if xy: "runtime_base x y" and yz: "runtime_base y z" for x y z
  proof -
    have "sent_of n (fst z) = sent_of n (fst x)" if n: "n \<in> tn_closed (snd x) \<union> tn_submitted (snd x)" for n
    proof -
      have "n \<in> tn_closed (snd y) \<union> tn_submitted (snd y)" using n xy unfolding runtime_base_def by blast
      then have "sent_of n (fst z) = sent_of n (fst y)" using yz unfolding runtime_base_def by blast
      also have "\<dots> = sent_of n (fst x)" using n xy unfolding runtime_base_def by blast
      finally show ?thesis .
    qed
    then show ?thesis using xy yz unfolding runtime_base_def by blast
  qed
  show "runtime_keep r x x" for r x by (cases r) auto
  show "runtime_keep r x y \<Longrightarrow> runtime_keep r y z \<Longrightarrow> runtime_keep r x z" for r x y z
    by (cases r) auto
  show "ticket_watch s s g = g" for s g by (cases g) (auto simp: ticket_watch_def entered_def)
qed

section \<open>Steps that leave the tickets to their owners\<close>

text \<open>A ticket moves by cancellation only.\<close>

definition slides :: "report_ticket \<Rightarrow> report_ticket \<Rightarrow> bool" where
  "slides t t' \<longleftrightarrow> ticket_core t' = ticket_core t \<or> (\<exists>outcome. ticket_core t' = ticket_core (canceled_ticket outcome t))"

definition tame :: "runtime \<Rightarrow> runtime \<Rightarrow> bool" where
  "tame s s' \<longleftrightarrow> (\<forall>i. slides (ticket_of i s) (ticket_of i s'))
     \<and> rt_next_public_ticket_id s' = rt_next_public_ticket_id s \<and> ticket_entries s' = ticket_entries s
     \<and> rt_gate s' = rt_gate s \<and> rt_holders s' = rt_holders s \<and> rt_next_holder s' = rt_next_holder s"

lemma canceled_core: "ticket_core (canceled_ticket outcome t) = canceled_ticket outcome (ticket_core t)"
  by (simp add: canceled_ticket_def ticket_core_def)

lemma canceled_twice: "canceled_ticket p (canceled_ticket q t) = canceled_ticket q t"
  by (simp add: canceled_ticket_def)

lemma slides_trans: "slides t u \<Longrightarrow> slides u v \<Longrightarrow> slides t v"
  unfolding slides_def canceled_core by (elim disjE exE) (auto simp: canceled_twice intro: exI)

lemma tame_refl: "tame s s"
  by (simp add: tame_def slides_def)

lemma tame_trans: "tame s t \<Longrightarrow> tame t u \<Longrightarrow> tame s u"
  using slides_trans unfolding tame_def by fastforce

lemma slides_facts:
  assumes "slides t t'"
  shows "tk_ticket_id t' = tk_ticket_id t" "tk_transport t' = tk_transport t" "tk_report t' = tk_report t"
    "ticket_payload t' = ticket_payload t"
    "tk_state t' = tk_state t \<or> tk_state t = TkWriting \<and> tk_state t' = TkWritingCanceled
       \<or> tk_state t = TkPublished \<and> tk_state t' = TkCanceled"
    "tk_state t = TkClaimed \<Longrightarrow> ticket_core t' = ticket_core t"
proof -
  have core: "ticket_core a = ticket_core b \<Longrightarrow> tk_ticket_id a = tk_ticket_id b \<and> tk_transport a = tk_transport b
      \<and> tk_report a = tk_report b \<and> ticket_payload a = ticket_payload b \<and> tk_state a = tk_state b" for a b
    by (cases a; cases b) (simp add: ticket_core_def ticket_payload_def)
  have canc: "tk_ticket_id (canceled_ticket p t) = tk_ticket_id t \<and> tk_transport (canceled_ticket p t) = tk_transport t
      \<and> tk_report (canceled_ticket p t) = tk_report t \<and> ticket_payload (canceled_ticket p t) = ticket_payload t" for p
    by (simp add: canceled_ticket_def ticket_payload_def)
  show "tk_ticket_id t' = tk_ticket_id t" "tk_transport t' = tk_transport t" "tk_report t' = tk_report t"
    "ticket_payload t' = ticket_payload t"
    using assms core [of t' t] core [of t' "canceled_ticket p t" for p] canc unfolding slides_def by metis+
  show "tk_state t' = tk_state t \<or> tk_state t = TkWriting \<and> tk_state t' = TkWritingCanceled
       \<or> tk_state t = TkPublished \<and> tk_state t' = TkCanceled"
    using assms core [of t' t] core [of t' "canceled_ticket p t" for p] unfolding slides_def
    by (auto simp: canceled_ticket_def split: if_splits)
  show "tk_state t = TkClaimed \<Longrightarrow> ticket_core t' = ticket_core t"
    using assms unfolding slides_def by (auto simp: canceled_ticket_def)
qed

lemma sent_of_entries: "ticket_entries s' = ticket_entries s \<Longrightarrow> sent_of n s' = sent_of n s"
proof -
  have "sent_of n s = filter (\<lambda>e. su_ticket e = Some n) (ticket_entries s)" for s
    unfolding sent_of_def ticket_entries_def filter_filter by (rule filter_cong) auto
  then show "ticket_entries s' = ticket_entries s \<Longrightarrow> sent_of n s' = sent_of n s" by simp
qed

text \<open>The two interfaces never share an id.\<close>

lemma ids_apart:
  assumes "runtime_inv (s, g)" "i \<noteq> j" "id_of i s = id_of j s"
  shows "id_of i s = 0"
proof -
  have k: "id_of KeyboardIf s = id_of MouseIf s \<longrightarrow> id_of KeyboardIf s = 0"
    using assms(1) unfolding runtime_inv_def fst_conv snd_conv by blast
  show ?thesis
  proof (cases i)
    case KeyboardIf
    then have "j = MouseIf" using assms(2) by (cases j) auto
    then show ?thesis using k assms(3) unfolding KeyboardIf by metis
  next
    case MouseIf
    then have "j = KeyboardIf" using assms(2) by (cases j) auto
    then show ?thesis using k assms(3) unfolding MouseIf by metis
  qed
qed

lemma inv_parts:
  assumes "runtime_inv (s, g)"
  shows "ticket_ok s g i" "history_ok s g" "gate_ok s"
  using assms unfolding runtime_inv_def fst_conv snd_conv by blast+

lemma tame_ticket:
  assumes "tame s s'"
  shows "id_of i s' = id_of i s" "describe i s' = describe i s"
    "phase_of i s' = phase_of i s \<or> phase_of i s = TkWriting \<and> phase_of i s' = TkWritingCanceled
       \<or> phase_of i s = TkPublished \<and> phase_of i s' = TkCanceled"
proof -
  have "slides (ticket_of i s) (ticket_of i s')" using assms by (simp only: tame_def)
  note f = slides_facts [OF this]
  show "id_of i s' = id_of i s" by (rule f(1))
  show "describe i s' = describe i s" by (simp only: describe_def f(1-3))
  show "phase_of i s' = phase_of i s \<or> phase_of i s = TkWriting \<and> phase_of i s' = TkWritingCanceled
       \<or> phase_of i s = TkPublished \<and> phase_of i s' = TkCanceled" by (rule f(5))
qed

text \<open>The ids a step closes by cancelling a published ticket.\<close>

definition cut_ids :: "runtime \<Rightarrow> runtime \<Rightarrow> u64 set" where
  "cut_ids s s' = {id_of i s |i. phase_of i s = TkPublished \<and> phase_of i s' = TkCanceled}"

lemma tame_watch:
  assumes "tame s s'"
  shows "tn_begun (ticket_watch s s' g) = tn_begun g" "tn_submitted (ticket_watch s s' g) = tn_submitted g"
    "tn_closed (ticket_watch s s' g) = tn_closed g \<union> cut_ids s s'"
proof -
  have e1: "entered s s' {TkWriting} = {}" 
    unfolding entered_def using tame_ticket(3) [OF assms] by (metis (mono_tags, lifting) empty_Collect_eq singletonD singletonI ticket_state.distinct)
  have e2: "entered s s' {TkSubmitted} = {}"
    unfolding entered_def using tame_ticket(3) [OF assms] by (metis (mono_tags, lifting) empty_Collect_eq singletonD singletonI ticket_state.distinct)
  have e3: "entered s s' {TkCanceled, TkNotReady} = {i. phase_of i s = TkPublished \<and> phase_of i s' = TkCanceled}"
  proof (rule set_eqI)
    fix i
    show "i \<in> entered s s' {TkCanceled, TkNotReady} \<longleftrightarrow> i \<in> {i. phase_of i s = TkPublished \<and> phase_of i s' = TkCanceled}"
      unfolding entered_def using tame_ticket(3) [OF assms, of i] by auto
  qed
  show "tn_begun (ticket_watch s s' g) = tn_begun g" "tn_submitted (ticket_watch s s' g) = tn_submitted g"
    by (simp_all add: ticket_watch_def e1 e2)
  show "tn_closed (ticket_watch s s' g) = tn_closed g \<union> cut_ids s s'"
    by (auto simp: ticket_watch_def e3 cut_ids_def tame_ticket(1) [OF assms])
qed

lemma tame_sent:
  assumes "tame s s'"
  shows "sent_of n s' = sent_of n s" "ticket_entries s' = ticket_entries s" "issued n s' = issued n s"
proof -
  show "ticket_entries s' = ticket_entries s" "issued n s' = issued n s"
    using assms by (simp_all add: tame_def issued_def)
  then show "sent_of n s' = sent_of n s" by (intro sent_of_entries)
qed

lemma cut_facts:
  assumes inv: "runtime_inv (s, g)" and tame: "tame s s'" and n: "n \<in> cut_ids s s'"
  shows "n \<noteq> 0" "n \<in> begun_ids g" "sent_of n s = []" "n \<notin> tn_submitted g"
    "id_of i s = n \<Longrightarrow> phase_of i s = TkPublished \<and> phase_of i s' = TkCanceled"
proof -
  from n obtain j where j: "n = id_of j s" "phase_of j s = TkPublished" "phase_of j s' = TkCanceled"
    unfolding cut_ids_def by blast
  have ok: "ticket_ok s g j" by (rule inv_parts(1) [OF inv])
  show nz: "n \<noteq> 0" using ok j(1,2) unfolding ticket_ok_def by force
  have "describe j s \<in> tn_begun g" using ok nz j(1) unfolding ticket_ok_def by blast
  then show "n \<in> begun_ids g" unfolding begun_ids_def describe_def j(1) by force
  have b: "busy_phase (phase_of j s)" "phase_of j s \<noteq> TkClaimed" by (simp_all add: busy_phase_def j(2))
  show "sent_of n s = []" "n \<notin> tn_submitted g" using ok b unfolding ticket_ok_def j(1) by blast+
  show "phase_of i s = TkPublished \<and> phase_of i s' = TkCanceled" if "id_of i s = n"
  proof (cases "i = j")
    case False
    then have "id_of i s = 0" using ids_apart [OF inv False] that j(1) by simp
    then show ?thesis using nz that by simp
  qed (use j in simp)
qed

lemma tame_ticket_ok:
  assumes inv: "runtime_inv (s, g)" and tame: "tame s s'"
  shows "ticket_ok s' (ticket_watch s s' g) i"
proof -
  have ok: "ticket_ok s g i" by (rule inv_parts(1) [OF inv])
  note facts = tame_watch [OF tame] tame_ticket(1,2) [OF tame] tame_sent [OF tame]
  have cut: "id_of i s \<in> cut_ids s s' \<Longrightarrow> phase_of i s = TkPublished \<and> phase_of i s' = TkCanceled"
    using cut_facts(5) [OF inv tame] by blast
  show ?thesis
  proof (cases "id_of i s \<in> cut_ids s s'")
    case True
    then have p: "phase_of i s' = TkCanceled" using cut by blast
    show ?thesis using ok True cut_facts(1) [OF inv tame True]
      unfolding ticket_ok_def facts p by (simp add: busy_phase_def)
  next
    case False
    have "phase_of i s' = phase_of i s \<or> phase_of i s = TkWriting \<and> phase_of i s' = TkWritingCanceled"
      using tame_ticket(3) [OF tame, of i] False unfolding cut_ids_def by blast
    then show ?thesis
    proof
      assume p: "phase_of i s' = phase_of i s"
      show ?thesis using ok False unfolding ticket_ok_def facts p by simp
    next
      assume p: "phase_of i s = TkWriting \<and> phase_of i s' = TkWritingCanceled"
      then have p': "phase_of i s = TkWriting" "phase_of i s' = TkWritingCanceled" by simp_all
      show ?thesis using ok False unfolding ticket_ok_def facts p' by (simp add: busy_phase_def)
    qed
  qed
qed

lemma tame_running:
  assumes "tame s s'" "running n s"
  shows "running n s' \<or> n \<in> cut_ids s s'"
proof -
  obtain i where i: "id_of i s = n" "busy_phase (phase_of i s)" using assms(2) unfolding running_def by blast
  from tame_ticket(3) [OF assms(1), of i] show ?thesis
  proof (elim disjE conjE)
    assume "phase_of i s' = phase_of i s"
    then show ?thesis using i tame_ticket(1) [OF assms(1), of i] unfolding running_def by metis
  next
    assume "phase_of i s' = TkWritingCanceled"
    then have "busy_phase (phase_of i s')" by (simp add: busy_phase_def)
    then show ?thesis using i tame_ticket(1) [OF assms(1), of i] unfolding running_def by metis
  next
    assume "phase_of i s = TkPublished" "phase_of i s' = TkCanceled"
    then show ?thesis using i unfolding cut_ids_def by blast
  qed
qed

lemma tame_history:
  assumes inv: "runtime_inv (s, g)" and tame: "tame s s'"
  shows "history_ok s' (ticket_watch s s' g)"
proof -
  have h: "history_ok s g" by (rule inv_parts(2) [OF inv])
  note facts = tame_watch [OF tame] tame_sent [OF tame]
  have b: "begun_ids (ticket_watch s s' g) = begun_ids g" by (simp add: begun_ids_def facts)
  have each: "issued n s \<and> length (sent_of n s) \<le> 1
      \<and> (n \<in> tn_closed g \<union> cut_ids s s' \<or> n \<in> tn_submitted g \<or> running n s')
      \<and> (n \<in> tn_closed g \<union> cut_ids s s' \<longrightarrow> (\<forall>e \<in> set (sent_of n s). \<not> su_accepted e))
      \<and> (n \<in> tn_submitted g \<longrightarrow> (\<exists>e \<in> set (sent_of n s). su_accepted e))" if "n \<in> begun_ids g" for n
  proof -
    have o: "issued n s \<and> length (sent_of n s) \<le> 1
      \<and> (n \<in> tn_closed g \<or> n \<in> tn_submitted g \<or> running n s)
      \<and> (n \<in> tn_closed g \<longrightarrow> (\<forall>e \<in> set (sent_of n s). \<not> su_accepted e))
      \<and> (n \<in> tn_submitted g \<longrightarrow> (\<exists>e \<in> set (sent_of n s). su_accepted e))"
      using h that unfolding history_ok_def by blast
    have "n \<in> cut_ids s s' \<longrightarrow> sent_of n s = []" using cut_facts(3) [OF inv tame] by blast
    then show ?thesis using o tame_running [OF tame, of n] by auto
  qed
  have "tn_closed g \<union> cut_ids s s' \<union> tn_submitted g \<subseteq> begun_ids g"
    using h cut_facts(2) [OF inv tame] unfolding history_ok_def by blast
  then show ?thesis using h each unfolding history_ok_def b facts by blast
qed

lemma tame_inv:
  assumes inv: "runtime_inv (s, g)" and tame: "tame s s'"
  shows "runtime_inv (s', ticket_watch s s' g)"
proof -
  have "gate_ok s'"
    using inv_parts(3) [OF inv] tame by (simp add: gate_ok_def gate_count_def gate_control_def tame_def)
  moreover have "id_of KeyboardIf s' = id_of MouseIf s' \<longrightarrow> id_of KeyboardIf s' = 0"
    using ids_apart [OF inv, of KeyboardIf MouseIf] unfolding tame_ticket(1) [OF tame] by blast
  ultimately show ?thesis using tame_ticket_ok [OF inv tame] tame_history [OF inv tame]
    unfolding runtime_inv_def fst_conv snd_conv by blast
qed

lemma tame_held:
  assumes "tame s s'"
  shows "runtime_held s' = runtime_held s"
proof -
  have "(phase_of i s' = TkWriting \<or> phase_of i s' = TkWritingCanceled) =
      (phase_of i s = TkWriting \<or> phase_of i s = TkWritingCanceled)"
    "(phase_of i s' = TkClaimed) = (phase_of i s = TkClaimed)" for i
    using tame_ticket(3) [OF assms, of i] by (elim disjE; simp)+
  then show ?thesis using assms by (simp add: runtime_held_def tame_def)
qed

lemma tame_keep:
  assumes "tame s s'" "r \<in> runtime_held s"
  shows "runtime_keep r (s, g) (s', g')"
proof (cases r)
  case (Writer i)
  have "slides (ticket_of i s) (ticket_of i s')" using assms(1) by (simp only: tame_def)
  then show ?thesis using slides_facts(4) Writer by simp
next
  case (Claimer i)
  have s: "slides (ticket_of i s) (ticket_of i s')" using assms(1) by (simp only: tame_def)
  have "phase_of i s = TkClaimed" using assms(2) Claimer by (auto simp: runtime_held_def)
  then have "ticket_core (ticket_of i s') = ticket_core (ticket_of i s)" by (rule slides_facts(6) [OF s])
  then show ?thesis using Claimer tame_ticket(1) [OF assms(1), of i] tame_sent(1) [OF assms(1)] by simp
next
  case (Admitted n)
  then show ?thesis using assms(1) by (simp add: tame_def)
qed

lemma tame_base: "tame s s' \<Longrightarrow> runtime_base (s, g) (s', ticket_watch s s' g)"
  unfolding runtime_base_def by (simp add: tame_watch tame_sent)

section \<open>Programs of tame steps\<close>

primrec gentle :: "('s \<Rightarrow> 's \<Rightarrow> bool) \<Rightarrow> ('s, 'a) prog \<Rightarrow> bool" where
  "gentle R (Ret a) = True"
| "gentle R (Step f) = (\<forall>s. case (map_prod (gentle R) id \<circ> f) s of (ok, s') \<Rightarrow> R s s' \<and> ok)"

abbreviation easy :: "(runtime, 'a) prog \<Rightarrow> bool" where "easy \<equiv> gentle tame"

named_theorems easy_rules \<open>programs of tame steps\<close>

lemma gently_bind: "gentle R p \<Longrightarrow> (\<And>a. gentle R (k a)) \<Longrightarrow> gentle R (pbind p k)"
proof (induction p)
  case (Step f)
  have "gentle R (pbind (fst (f s)) k)" for s
    using Step.prems(1) by (intro Step.IH [of "f s" "fst (f s)"] Step.prems(2)) (auto simp: case_prod_unfold intro: fsts.intros)
  then show ?case using Step.prems(1) by (simp add: case_prod_unfold)
qed simp

lemma gently_atomic: "gentle R (atomic f) \<longleftrightarrow> (\<forall>s. R s (snd (f s)))"
  by (simp add: atomic_def)

lemma easy_ret [easy_rules]: "easy (Ret a)"
  by simp

lemma easy_bind [easy_rules]: "easy p \<Longrightarrow> (\<And>a. easy (k a)) \<Longrightarrow> easy (pbind p k)"
  by (rule gently_bind)

lemma easy_then [easy_rules]: "easy p \<Longrightarrow> easy q \<Longrightarrow> easy (pthen p q)"
  unfolding pthen_def by (rule gently_bind)

lemma easy_map [easy_rules]: "easy p \<Longrightarrow> easy (pmap f p)"
  unfolding pmap_def by (rule gently_bind) simp_all

lemma easy_pif [easy_rules]: "easy c \<Longrightarrow> easy p \<Longrightarrow> easy q \<Longrightarrow> easy (pif c p q)"
  unfolding pif_def by (rule gently_bind) simp_all

lemma easy_not [easy_rules]: "easy p \<Longrightarrow> easy (pnot p)"
  unfolding pnot_def by (rule easy_map)

lemma easy_any_nil [easy_rules]: "easy (pany [])"
  by simp

lemma easy_any_cons [easy_rules]: "easy p \<Longrightarrow> easy (pany ps) \<Longrightarrow> easy (pany (p # ps))"
  by (simp add: easy_pif)

lemma easy_all_nil [easy_rules]: "easy (pall [])"
  by simp

lemma easy_all_cons [easy_rules]: "easy p \<Longrightarrow> easy (pall ps) \<Longrightarrow> easy (pall (p # ps))"
  by (simp add: easy_pif)

lemma easy_for [easy_rules]: "(\<And>i. easy (body i)) \<Longrightarrow> easy (pfor is body)"
  by (induction "is") (simp_all add: easy_then)

lemma easy_if [easy_rules]: "easy p \<Longrightarrow> easy q \<Longrightarrow> easy (if b then p else q)"
  by simp

lemma easy_option [easy_rules]: "easy p \<Longrightarrow> (\<And>a. easy (q a)) \<Longrightarrow> easy (case v of None \<Rightarrow> p | Some a \<Rightarrow> q a)"
  by (cases v) simp_all

lemma easy_sum [easy_rules]: "(\<And>a. easy (p a)) \<Longrightarrow> (\<And>a. easy (q a)) \<Longrightarrow> easy (case v of Inl a \<Rightarrow> p a | Inr a \<Rightarrow> q a)"
  by (cases v) simp_all

lemma easy_pair [easy_rules]: "(\<And>a b. easy (p a b)) \<Longrightarrow> easy (case v of (a, b) \<Rightarrow> p a b)"
  by (cases v) simp

lemma easy_let [easy_rules]: "(\<And>a. easy (p a)) \<Longrightarrow> easy (let a = v in p a)"
  by simp

lemma easy_atomic: "(\<And>s. tame s (snd (f s))) \<Longrightarrow> easy (atomic f)"
  by (simp add: gently_atomic)

lemma easy_load [easy_rules]: "easy (load f)" "easy (load_if i h)" "easy (load_ticket i k)" "easy (load_usb u)"
    "easy (load_ble b)" "easy (load_lifecycle l)"
  unfolding load_if_def load_ticket_def load_usb_def load_ble_def load_lifecycle_def load_def
  by (rule easy_atomic, simp add: tame_refl)+

text \<open>Steps on state that no promise mentions.\<close>

definition same_promises :: "runtime \<Rightarrow> runtime \<Rightarrow> bool" where
  "same_promises s s' \<longleftrightarrow> rt_tickets s' = rt_tickets s
     \<and> rt_next_public_ticket_id s' = rt_next_public_ticket_id s \<and> rt_sent s' = rt_sent s
     \<and> rt_gate s' = rt_gate s \<and> rt_holders s' = rt_holders s \<and> rt_next_holder s' = rt_next_holder s"

lemma same_tame: "same_promises s s' \<Longrightarrow> tame s s'"
  by (simp add: same_promises_def tame_def slides_def ticket_entries_def)

lemma easy_same: "(\<And>s. same_promises s (snd (f s))) \<Longrightarrow> easy (atomic f)"
  using easy_atomic same_tame by blast

lemma easy_store: "(\<And>s. same_promises s (f s)) \<Longrightarrow> easy (store f)"
  unfolding store_def by (rule easy_same) simp

lemma same_frames:
  "same_promises s (put_if i f s)" "same_promises s (s\<lparr>rt_usb := u\<rparr>)" "same_promises s (s\<lparr>rt_route := r\<rparr>)"
  "same_promises s (s\<lparr>rt_ble := b\<rparr>)" "same_promises s (s\<lparr>rt_ble_sequence := n\<rparr>)"
  "same_promises s (s\<lparr>rt_release := a\<rparr>)" "same_promises s (s\<lparr>rt_authority_epoch := n\<rparr>)"
  "same_promises s (s\<lparr>rt_release_epoch := n\<rparr>)" "same_promises s (s\<lparr>rt_request_generation := n\<rparr>)"
  "same_promises s (s\<lparr>rt_request_authority_epoch := n\<rparr>)" "same_promises s (s\<lparr>rt_request_epoch := n\<rparr>)"
  "same_promises s (s\<lparr>rt_status_bits := w\<rparr>)" "same_promises s (s\<lparr>rt_sof_heartbeat := n\<rparr>)"
  "same_promises s (s\<lparr>rt_release_requested := c\<rparr>)" "same_promises s (s\<lparr>rt_sequence_generation := n\<rparr>)"
  "same_promises s (s\<lparr>rt_next_sequence_generation := n\<rparr>)"
  "same_promises s (s\<lparr>rt_next_profile_activation_epoch := n\<rparr>)" "same_promises s (s\<lparr>rt_reconciler_active := c\<rparr>)"
  "same_promises s (s\<lparr>rt_next_release_id := d\<rparr>)" "same_promises s (s\<lparr>rt_next_ticket_id := n\<rparr>)" "same_promises s s"
  by (simp_all add: same_promises_def put_if_def)

lemma gentle_lift:
  assumes "\<And>m s. R m (put s m)"
  shows "gentle R (plift get put p)"
proof (induction p)
  case (Step f)
  have "gentle R (plift get put (fst (f s)))" for s by (rule Step.IH [of "f s"]) (auto intro: fsts.intros)
  then show ?case using assms by (simp add: case_prod_unfold)
qed simp

lemma easy_route [easy_rules]: "easy (on_route p)"
  unfolding on_route_def by (rule gentle_lift) (rule same_tame, rule same_frames)

lemma gentle_alone:
  assumes "gentle R p" "\<And>s. R s s" "\<And>s t u. R s t \<Longrightarrow> R t u \<Longrightarrow> R s u"
  shows "R s (snd (alone p s))"
  using assms(1)
proof (induction p arbitrary: s)
  case (Step f)
  have f: "R s (snd (f s))" "gentle R (fst (f s))" using Step.prems by (simp_all add: case_prod_unfold)
  have "R (snd (f s)) (snd (alone (fst (f s)) (snd (f s))))"
    by (rule Step.IH [of "f s"]) (auto intro: fsts.intros f(2))
  moreover have "snd (alone (Step f) s) = snd (alone (fst (f s)) (snd (f s)))" by (simp add: case_prod_unfold)
  ultimately show ?case using assms(3) [OF f(1)] by metis
qed (simp add: assms(2))

lemma easy_locked [easy_rules]: "easy p \<Longrightarrow> easy (locked p)"
  unfolding locked_def by (rule easy_atomic) (erule gentle_alone, auto intro: tame_refl tame_trans)

section \<open>Decent programs\<close>

text \<open>A program that keeps every promise, whatever roles its thread has, and gives none away.\<close>

definition decent :: "(runtime, 'a) prog \<Rightarrow> bool" where
  "decent p \<longleftrightarrow> (\<forall>m x. m \<subseteq> runtime_held (fst x) \<longrightarrow> rr.sat p m x (\<lambda>a m' y. m' = m \<and> rr.env m x y))"

lemma decentD: "decent p \<Longrightarrow> m \<subseteq> runtime_held (fst x) \<Longrightarrow> rr.sat p m x (\<lambda>a m' y. m' = m \<and> rr.env m x y)"
  unfolding decent_def by blast

lemma env_held: "rr.env m x y \<Longrightarrow> m \<subseteq> runtime_held (fst y)"
  by (simp add: rr.env_def)

text \<open>After a decent part, the rest runs with the same roles.\<close>

lemma sat_after:
  assumes "decent p" "m \<subseteq> runtime_held (fst x)" "\<And>a y. rr.env m x y \<Longrightarrow> rr.sat (k a) m y post"
  shows "rr.sat (pbind p k) m x post"
  unfolding rr.sat_bind by (rule rr.sat_mono [OF decentD [OF assms(1,2)]]) (use assms(3) in blast)

lemma sat_weaken_env:
  assumes "rr.env m x y" "rr.sat p m y (\<lambda>a m' z. m' = m \<and> rr.env m y z)"
  shows "rr.sat p m y (\<lambda>a m' z. m' = m \<and> rr.env m x z)"
  by (rule rr.sat_mono [OF assms(2)]) (use rr.env_trans [OF assms(1)] in blast)

lemma decent_bind:
  assumes "decent p" "\<And>a. decent (k a)"
  shows "decent (pbind p k)"
  unfolding decent_def
proof (intro allI impI)
  fix m and x :: "runtime \<times> ticket_notes" assume m: "m \<subseteq> runtime_held (fst x)"
  show "rr.sat (pbind p k) m x (\<lambda>a m' y. m' = m \<and> rr.env m x y)"
  proof (rule sat_after [OF assms(1) m])
    fix a y assume e: "rr.env m x y"
    show "rr.sat (k a) m y (\<lambda>a m' y. m' = m \<and> rr.env m x y)"
      by (rule sat_weaken_env [OF e decentD [OF assms(2) env_held [OF e]]])
  qed
qed

lemma tame_step:
  assumes "runtime_inv (s, g)" "tame s s'" "m \<subseteq> runtime_held s"
  shows "rr.guar n (s, g) (s', ticket_watch s s' g)" "rr.env m (s, g) (s', ticket_watch s s' g)"
    "rr.roles m s s' = m"
proof -
  note h = tame_held [OF assms(2)]
  show "rr.guar n (s, g) (s', ticket_watch s s' g)" "rr.env m (s, g) (s', ticket_watch s s' g)"
    using tame_base [OF assms(2), of g] tame_keep [OF assms(2)] assms(3) unfolding rr.guar_def rr.env_def fst_conv h by blast+
  show "rr.roles m s s' = m" using assms(3) unfolding rr.roles_def h by blast
qed

lemma decent_ret: "decent (Ret a)"
  by (simp add: decent_def rr.env_refl)

lemma easy_decent: "easy p \<Longrightarrow> decent p"
proof (induction p)
  case (Step f)
  have ih: "decent (fst (f s))" and t: "tame s (snd (f s))" for s
    using Step.prems by (auto simp: case_prod_unfold intro!: Step.IH [of "f s"] intro: fsts.intros)
  show ?case
    unfolding decent_def
  proof (intro allI impI)
    fix m and x :: "runtime \<times> ticket_notes"
    have "runtime_inv (snd (f s), ticket_watch s (snd (f s)) g)
        \<and> rr.guar m (s, g) (snd (f s), ticket_watch s (snd (f s)) g)
        \<and> rr.sat (fst (f s)) (rr.roles m s (snd (f s))) (snd (f s), ticket_watch s (snd (f s)) g)
            (\<lambda>a m' y. m' = m \<and> rr.env m x y)"
      if a: "runtime_inv (s, g)" "rr.env m x (s, g)" for s g
    proof -
      have m: "m \<subseteq> runtime_held s" using env_held [OF a(2)] by simp
      note st = tame_step [OF a(1) t m]
      have e: "rr.env m x (snd (f s), ticket_watch s (snd (f s)) g)" by (rule rr.env_trans [OF a(2) st(2)])
      have "rr.sat (fst (f s)) m (snd (f s), ticket_watch s (snd (f s)) g) (\<lambda>a m' y. m' = m \<and> rr.env m x y)"
        by (rule sat_weaken_env [OF e decentD [OF ih env_held [OF e]]])
      then show ?thesis using tame_inv [OF a(1) t] st(1,3) by simp
    qed
    then show "rr.sat (Step f) m x (\<lambda>a m' y. m' = m \<and> rr.env m x y)"
      by (simp add: case_prod_unfold)
  qed
qed (simp add: decent_ret)

section \<open>The gate word\<close>

lemma gate_split: "v = w \<longleftrightarrow> take_bit 29 v = take_bit 29 w \<and> drop_bit 29 v = drop_bit 29 (w :: u32)"
  by (metis bits_ident)

lemma gate_and_count: "w AND kAdmissionMask = take_bit 29 w"
proof -
  have "kAdmissionMask = mask 29" by (simp add: kAdmissionMask_def mask_eq_exp_minus_1)
  then show ?thesis by (simp add: take_bit_eq_mask)
qed

lemma drop_lt: "drop_bit 29 (w :: u32) AND 7 = drop_bit 29 w"
proof -
  have "(7 :: u32) = mask 3" by (simp add: mask_eq_exp_minus_1)
  moreover have "take_bit 3 (drop_bit 29 w) = drop_bit 29 w"
    by (rule bit_eqI) (auto simp: bit_take_bit_iff bit_drop_bit_eq dest: bit_imp_le_length)
  ultimately show ?thesis by (simp add: take_bit_eq_mask)
qed

lemma gate_and_control:
  "take_bit 29 (w AND kGateControlMask) = 0" "drop_bit 29 (w AND kGateControlMask) = drop_bit 29 w"
proof -
  have "take_bit 29 kGateControlMask = 0" "drop_bit 29 kGateControlMask = 7" by (simp_all add: kGateControlMask_def)
  then show "take_bit 29 (w AND kGateControlMask) = 0" "drop_bit 29 (w AND kGateControlMask) = drop_bit 29 w"
    by (simp_all add: take_bit_and drop_bit_and drop_lt)
qed

lemma gate_constants:
  "take_bit 29 kGateClaimed = 0" "drop_bit 29 kGateClaimed = 1" "take_bit 29 kGateConflict = 0"
  "drop_bit 29 kGateConflict = 2" "take_bit 29 kGateCommitted = 0" "drop_bit 29 kGateCommitted = 4"
  by (simp_all add: kGateClaimed_def kGateConflict_def kGateCommitted_def)

lemma unat_small: "unat w = 0 \<longleftrightarrow> w = 0" "unat w = 1 \<longleftrightarrow> w = 1" "unat w = 3 \<longleftrightarrow> w = (3 :: u32)" "unat w = 4 \<longleftrightarrow> w = (4 :: u32)"
  by (simp_all add: word_unat_eq_iff)

lemma gate_tests:
  "w AND kGateControlMask = 0 \<longleftrightarrow> unat (drop_bit 29 w) = 0"
  "w AND kGateControlMask = kGateClaimed \<longleftrightarrow> unat (drop_bit 29 w) = 1"
  "w AND kGateControlMask = (kGateClaimed OR kGateConflict) \<longleftrightarrow> unat (drop_bit 29 w) = 3"
proof -
  have t: "w AND kGateControlMask = v \<longleftrightarrow> take_bit 29 v = 0 \<and> drop_bit 29 w = drop_bit 29 v" for v
    unfolding gate_split [of "w AND kGateControlMask" v] gate_and_control by auto
  show "w AND kGateControlMask = 0 \<longleftrightarrow> unat (drop_bit 29 w) = 0"
    "w AND kGateControlMask = kGateClaimed \<longleftrightarrow> unat (drop_bit 29 w) = 1"
    "w AND kGateControlMask = (kGateClaimed OR kGateConflict) \<longleftrightarrow> unat (drop_bit 29 w) = 3"
    unfolding t unat_small take_bit_or drop_bit_or gate_constants by simp_all
qed

lemma gate_nat: "unat (drop_bit 29 (w :: u32)) = unat w div 2 ^ 29" "unat (take_bit 29 w) = unat w mod 2 ^ 29"
  using drop_bit_eq_div [of 29 "unat w"] take_bit_eq_mod [of 29 "unat w"]
  by (simp_all only: unat_drop_bit_eq unsigned_take_bit_eq)

lemma gate_unat: "unat w = unat (drop_bit 29 w) * 2 ^ 29 + unat (take_bit 29 (w :: u32))"
  unfolding gate_nat by simp

lemma gate_parts:
  assumes "unat (w :: u32) = k * 2 ^ 29 + c" "c < 2 ^ 29"
  shows "unat (take_bit 29 w) = c" "unat (drop_bit 29 w) = k"
  using assms unfolding gate_nat by simp_all

lemma count_lt: "unat (take_bit 29 (w :: u32)) < 2 ^ 29"
  unfolding gate_nat by simp

lemma control_lt: "unat (drop_bit 29 (w :: u32)) < 8"
proof -
  have "unat w < 2 ^ LENGTH(32)" by (rule unsigned_less)
  then show ?thesis unfolding gate_nat by simp
qed

lemma gate_inc:
  assumes "w AND kAdmissionMask \<noteq> kAdmissionMask"
  shows "unat (take_bit 29 (w + 1)) = unat (take_bit 29 w) + 1" "unat (drop_bit 29 (w + 1)) = unat (drop_bit 29 w)"
proof -
  let ?c = "unat (take_bit 29 w)" and ?k = "unat (drop_bit 29 w)"
  have "unat kAdmissionMask = 2 ^ 29 - 1" by (simp add: kAdmissionMask_def)
  then have c: "?c < 2 ^ 29 - 1"
    using assms count_lt [of w] unfolding gate_and_count word_unat_eq_iff by linarith
  have w: "unat w = ?k * 2 ^ 29 + ?c" by (rule gate_unat)
  then have "unat w + 1 < 2 ^ 32" using c control_lt [of w] by simp
  then have "unat (w + 1) = unat w + 1" by (simp add: unat_word_ariths)
  then have "unat (w + 1) = ?k * 2 ^ 29 + (?c + 1)" using w by simp
  from gate_parts [OF this] c show "unat (take_bit 29 (w + 1)) = ?c + 1" "unat (drop_bit 29 (w + 1)) = ?k" by auto
qed

lemma gate_dec:
  assumes "unat (take_bit 29 (w :: u32)) \<noteq> 0"
  shows "unat (take_bit 29 (w - 1)) = unat (take_bit 29 w) - 1" "unat (drop_bit 29 (w - 1)) = unat (drop_bit 29 w)"
proof -
  let ?c = "unat (take_bit 29 w)" and ?k = "unat (drop_bit 29 w)"
  have w: "unat w = ?k * 2 ^ 29 + ?c" by (rule gate_unat)
  then have "w \<noteq> 0" using assms by auto
  then have "unat (w - 1) = unat w - 1" by (rule unat_minus_one)
  then have "unat (w - 1) = ?k * 2 ^ 29 + (?c - 1)" using w assms by simp
  from gate_parts [OF this] count_lt [of w] show "unat (take_bit 29 (w - 1)) = ?c - 1" "unat (drop_bit 29 (w - 1)) = ?k"
    by auto
qed

text \<open>Marking the conflict leaves the count and makes a claim a claim in conflict.\<close>

lemma gate_conflict:
  "take_bit 29 (w OR kGateConflict) = take_bit 29 w"
  "unat (drop_bit 29 w) = 1 \<or> unat (drop_bit 29 w) = 3 \<Longrightarrow> unat (drop_bit 29 (w OR kGateConflict)) = 3"
  unfolding take_bit_or drop_bit_or gate_constants unat_small by auto

end
