(* ===== verification/TicketCalls.thy ===== *)
theory TicketCalls
  imports TicketRules
begin

text \<open>
  Every call of \<open>hid_runtime\<close> keeps the promises of \<open>TicketRules\<close>: the programs of tame steps, the
  scoped admissions, and the steps with which producers and transport owners move their tickets.
\<close>

section \<open>Programs of tame steps\<close>

lemma easy_cancel [easy_rules]: "easy (cancel_ticket i outcome)"
proof -
  have "tame s (put_ticket i (canceled_ticket outcome) s)" for s
    by (auto simp: tame_def put_ticket_def slides_def ticket_entries_def)
  then show ?thesis
    unfolding cancel_ticket_def store_ticket_def store_def by (intro easy_locked easy_atomic) simp
qed

lemma easy_stores [easy_rules]:
  "easy (store_if i f)" "easy (store_usb u)" "easy (store_ble b)" "easy ble_tick" "easy (put_release r)"
  "easy (put_status w)" "easy bump_authority" "easy (set_requested c)" "easy note_sof_activity"
  "easy (end_sequence_generation n)"
  unfolding store_if_def store_usb_def store_ble_def ble_tick_def put_release_def put_status_def bump_authority_def
    set_requested_def note_sof_activity_def end_sequence_generation_def
  by (rule easy_store, simp add: same_frames)+

lemma easy_exchanges [easy_rules]:
  "easy bump_release" "easy (usb_flag f)" "easy (usb_request q)" "easy enter_reconciler" "easy allocate_profile_activation"
  "easy begin_usb_uninstall" "easy (take_slot i)" "easy (start_slot i)" "easy next_mailbox_id"
  "easy take_release_request" "easy (claim_sequence n)"
  "easy (allocate_generation rt_next_sequence_generation (\<lambda>n m. m\<lparr>rt_next_sequence_generation := n\<rparr>))"
  unfolding bump_release_def usb_flag_def usb_request_def enter_reconciler_def allocate_profile_activation_def
    allocate_generation_def begin_usb_uninstall_def take_slot_def start_slot_def next_mailbox_id_def
    take_release_request_def claim_sequence_def
  by (rule easy_same, simp add: same_frames)+

lemma easy_plain_stores [easy_rules]:
  "easy (store (\<lambda>m. m\<lparr>rt_sequence_generation := n\<rparr>))" "easy (store (\<lambda>m. m\<lparr>rt_request_generation := n\<rparr>))"
  "easy (store (\<lambda>m. m\<lparr>rt_request_authority_epoch := n\<rparr>))" "easy (store (\<lambda>m. m\<lparr>rt_request_epoch := n\<rparr>))"
  "easy (store (\<lambda>m. m\<lparr>rt_reconciler_active := c\<rparr>))" "easy (store (\<lambda>m. m\<lparr>rt_next_release_id := d\<rparr>))"
  by (rule easy_store, simp add: same_frames)+

lemma easy_ble_stores [easy_rules]: "easy (stores (map (\<lambda>f m. m\<lparr>rt_ble := f (rt_ble m)\<rparr>) fs))"
proof (induction fs)
  case (Cons f fs)
  have "easy (store (\<lambda>m. m\<lparr>rt_ble := f (rt_ble m)\<rparr>))" by (rule easy_store) (simp add: same_frames)
  then show ?case using Cons by (simp add: easy_then)
qed simp

lemma easy_status [easy_rules]:
  "easy runtime_status" "easy attach_generation" "easy authority_epoch" "easy release_epoch" "easy release_requested"
  "easy sequence_active" "easy release_producers_blocked" "easy sof_heartbeat" "easy read_confirmed_keyboard"
  "easy read_confirmed_mouse" "easy release_all_snapshot_locked"
  unfolding runtime_status_def attach_generation_def authority_epoch_def release_epoch_def release_requested_def
    sequence_active_def release_producers_blocked_def sof_heartbeat_def read_confirmed_keyboard_def
    read_confirmed_mouse_def release_all_snapshot_locked_def
  by (rule easy_rules)+

lemma easy_ble_snapshot [easy_rules]: "easy ble_snapshot"
  unfolding ble_snapshot_def numeral_3_eq_3 ble_snapshot_from.simps by (intro easy_rules)

lemma easy_fences [easy_rules]:
  "easy any_safety_required" "easy safety_debt" "easy (mounted_and_active i)" "easy (unsafe_route_active n t)"
  unfolding any_safety_required_def safety_debt_def mounted_and_active_def unsafe_route_active_def
  by (intro easy_rules)+

lemma easy_work [easy_rules]:
  "easy (unsafe_work_current i w)" "easy (sequence_authority_current sq)" "easy (confirmed_keyboard_equals r)"
  "easy (write_confirmed_keyboard r)" "easy (write_confirmed_mouse b)"
  unfolding unsafe_work_current_def sequence_authority_current_def confirmed_keyboard_equals_def
    write_confirmed_keyboard_def write_confirmed_mouse_def
  by (intro easy_rules)+

lemma easy_write_up [easy_rules]: "easy (write_confirmed_up i)"
  by (cases i) (simp_all add: easy_work)

lemma easy_confirm [easy_rules]: "easy (confirm_payload i p)"
  by (cases i) (auto intro!: easy_rules)

lemma easy_clear [easy_rules]: "easy (clear_interface i)"
  unfolding clear_interface_def by (intro easy_rules)

lemma easy_cancel_release [easy_rules]: "easy cancel_release_ticket"
  unfolding cancel_release_ticket_def by (intro easy_locked easy_store) (simp add: same_frames)

lemma easy_cancels [easy_rules]:
  "easy (cancel_keyboard_ticket oc)" "easy (cancel_mouse_ticket oc)" "easy (cancel_tickets oc)"
  "easy retire_unsafe_route_authority" "easy cancel_all" "easy advance_epochs"
  unfolding cancel_keyboard_ticket_def cancel_mouse_ticket_def cancel_tickets_def retire_unsafe_route_authority_def
    cancel_all_def advance_epochs_def
  by (intro easy_rules)+

lemma easy_looks [easy_rules]:
  "easy (known_all_up i)" "easy (release_interface_work_pending i)" "easy (report_snapshot_now i)"
  "easy (report_snapshot i n)" "easy (current_report_token i)" "easy (report_token_matches i w)"
  "easy (published_report_token i)" "easy (ble_work_token_current i w)" "easy (sequence_changed t)"
  unfolding known_all_up_def release_interface_work_pending_def report_snapshot_now_def report_snapshot_def
    current_report_token_def report_token_matches_def published_report_token_def ble_work_token_current_def
    sequence_changed_def
  by (intro easy_rules)+

text \<open>The BLE mark belongs to no promise.\<close>

lemma tame_mark: "tame s (put_ticket i (\<lambda>t. t\<lparr>tk_ble_action_pending := b\<rparr>) s)"
  by (auto simp: tame_def put_ticket_def slides_def ticket_core_def ticket_entries_def)

lemma easy_mark [easy_rules]: "easy (store_ticket i (\<lambda>t. t\<lparr>tk_ble_action_pending := b\<rparr>))"
  unfolding store_ticket_def store_def by (rule easy_atomic) (simp add: tame_mark)

lemma easy_ble_marks [easy_rules]: "easy (mark_ble_report_scheduled i w)" "easy (abandon_ble_report i w)"
  unfolding mark_ble_report_scheduled_def abandon_ble_report_def by (intro easy_rules)+

lemma easy_retire_ble [easy_rules]: "easy (retire_ble_route_if_matches e b i)"
  unfolding retire_ble_route_if_matches_def by (intro easy_rules)

subsection \<open>Releases\<close>

lemma easy_requests [easy_rules]:
  "easy (active_release_request_is_current n e r)" "easy (release_request_is_current n e r)"
  "easy unavailable_usb_transport_is_clean" "easy (zero_work_refused n e r b)" "easy (reconcile_zero_work_release n e r b)"
  "easy reassert_release" "easy reconcile_round"
  unfolding active_release_request_is_current_def release_request_is_current_def unavailable_usb_transport_is_clean_def
    zero_work_refused_def reconcile_zero_work_release_def reassert_release_def reconcile_round_def request_current_def
    request_identity_is_def append.simps
  by (intro easy_rules)+

lemma easy_rounds [easy_rules]: "easy (reconcile_rounds n)"
  by (induction n) (simp_all add: easy_rules)

lemma easy_entered [easy_rules]: "easy (reconcile_entered r n)"
  by (induction n) (simp_all add: easy_rules)

lemma easy_reconcile [easy_rules]: "easy (reconcile_unavailable_zero_work_release fuel)"
  unfolding reconcile_unavailable_zero_work_release_def by (intro easy_rules)

lemma easy_release_parts [easy_rules]:
  "easy (fail_release_locked n b)" "easy publish_release_request" "easy release_all_snapshot"
  "easy (finalize_release_all n)" "easy (set_release_outcome_locked i st)"
  "easy (note_usb_release_outcome n i g e r st)" "easy (continuity_matches_locked bl)"
  "easy (ble_release_all_route_continuity_matches bl)" "easy (prepare_ble_release_all_interface t i)"
  "easy (complete_ble_release_all_interface t i)" "easy (fail_ble_release_all t i)" "easy (commit_ble_release_all t)"
  "easy (ble_route_normal_authority_matches bl)" "easy (begin_release_ticket b bl n')" "easy (admit_release b bl n')"
  "easy (scan_usb_interface i)" "easy (scan_interface n b i)" "easy (open_release n)"
  unfolding fail_release_locked_def publish_release_request_def release_all_snapshot_def finalize_release_all_def
    set_release_outcome_locked_def note_usb_release_outcome_def continuity_matches_locked_def
    ble_release_all_route_continuity_matches_def prepare_ble_release_all_interface_def
    complete_ble_release_all_interface_def fail_ble_release_all_def commit_ble_release_all_def
    ble_route_normal_authority_matches_def begin_release_ticket_def admit_release_def scan_usb_interface_def
    scan_interface_def open_release_def
  by (intro easy_rules)+

subsection \<open>Lifecycle and execution\<close>

lemma easy_interface_stores [easy_rules]:
  "easy (put_slot_state i st)" "easy (put_in_flight i b)" "easy (put_safety i b)" "easy (put_uncertain i b)"
  "easy (put_held i b)" "easy (cancel_queued i)" "easy (write_slot i f)" "easy drop_request_identity"
  unfolding put_slot_state_def put_in_flight_def put_safety_def put_uncertain_def put_held_def cancel_queued_def
    write_slot_def drop_request_identity_def
  by (intro easy_rules)+

lemma easy_debt [easy_rules]: "easy (pany (debt_loads i))"
  unfolding debt_loads_def by (intro easy_rules)

lemma easy_interfaces [easy_rules]:
  "easy (preserve_suspend_safety i)" "easy (refresh_barrier i)" "easy (keep_ble_state i)" "easy invalidate_usb_route"
  "easy (unmount_interface i)" "easy (retire_interface i)" "easy (detach_debt i)" "easy lifecycle_detach_safety_clean"
  "easy profile_switch_quiescent" "easy (release_usb_interface i)" "easy (set_ready i b)"
  "easy usb_link_watchdog_snapshot" "easy (withdraw_conditional wd n)" "easy (stall_replaced wd)" "easy apply_stall"
  "easy (drop_claim rt n)" "easy (request_usb_attach b)" "easy (request_usb_detach b)"
  "easy commit_usb_runtime_fault_shutdown" "easy (complete_usb_detach_route_invalidation rt)"
  "easy (complete_route_release rt)"
  unfolding preserve_suspend_safety_def refresh_barrier_def keep_ble_state_def invalidate_usb_route_def
    unmount_interface_def retire_interface_def detach_debt_def lifecycle_detach_safety_clean_def
    profile_switch_quiescent_def release_usb_interface_def set_ready_def usb_link_watchdog_snapshot_def
    withdraw_conditional_def stall_replaced_def apply_stall_def drop_claim_def request_usb_attach_def
    request_usb_detach_def commit_usb_runtime_fault_shutdown_def complete_usb_detach_route_invalidation_def
    complete_route_release_def
  by (intro easy_rules)+

lemma easy_completion [easy_rules]: "easy (complete_usb c)"
  by (cases c) (simp_all add: easy_rules)

lemma easy_routes [easy_rules]:
  "easy (publish_ble_route_authority a e n)" "easy clear_ble_route_authority" "easy (route_usb_ready rt lc st)"
  "easy refuse_ble" "easy (request_route_ble a)" "easy (ble_route_release_matches bl)"
  unfolding publish_ble_route_authority_def clear_ble_route_authority_def route_usb_ready_def refuse_ble_def
    request_route_ble_def ble_route_release_matches_def
  by (intro easy_rules)+

lemma easy_status_from [easy_rules]: "easy (route_status_from n rt)"
  by (induction n arbitrary: rt) (auto intro!: easy_rules)

lemma easy_route_status [easy_rules]: "easy route_status_snapshot"
  unfolding route_status_snapshot_def by (intro easy_rules)

lemma easy_route_requests [easy_rules]: "easy request_route_usb" "easy request_route_none"
  unfolding request_route_usb_def request_route_none_def by (intro easy_rules)+

lemma easy_execution [easy_rules]:
  "easy (safety_transport_active i)" "easy (queue_safety i)" "easy (slot_accepted i w g e)" "easy (slot_ready_loads i w)"
  "easy (publish_release_debt i)" "easy (in_flight_token i)" "easy (completion_foreign i k)"
  "easy (report_complete_for_token i k r n)" "easy (report_complete i r n)" "easy (report_failed_for_token i k r n)"
  "easy (report_failed i r n)" "easy (end_sequence sq)" "easy sequence_safety" "easy sequence_work"
  unfolding safety_transport_active_def queue_safety_def slot_accepted_def slot_ready_loads_def
    publish_release_debt_def in_flight_token_def completion_foreign_def report_complete_for_token_def report_complete_def
    report_failed_for_token_def report_failed_def end_sequence_def sequence_safety_def sequence_work_def
  by (intro easy_rules)+

text \<open>A mailbox report has no ticket.\<close>

lemma easy_hand_slot: "su_ticket su = None \<Longrightarrow> easy (hand_over su)"
  unfolding hand_over_def store_def by (rule easy_atomic) (simp add: tame_def slides_def ticket_entries_def)

lemma easy_submit_slot [easy_rules]: "easy (submit_slot i b w g e)"
  unfolding submit_slot_def by (intro easy_rules easy_hand_slot) simp

lemma easy_slots [easy_rules]: "easy (execute_ready_slot i b g e)" "easy (execute_slot i b g e)"
  unfolding execute_ready_slot_def execute_slot_def by (intro easy_rules)+

section \<open>Admissions\<close>

text \<open>A step on the gate alone.\<close>

lemma gate_step:
  assumes inv: "runtime_inv (s, g)" and same: "rt_tickets s' = rt_tickets s" "rt_sent s' = rt_sent s"
      "rt_next_public_ticket_id s' = rt_next_public_ticket_id s"
    and gate: "gate_ok s'"
  shows "ticket_watch s s' g = g" "runtime_inv (s', g)" "runtime_base (s, g) (s', g)"
    "runtime_held s' - range Admitted = runtime_held s - range Admitted"
    "r \<notin> range Admitted \<Longrightarrow> runtime_keep r (s, g) (s', g')"
proof -
  have "entered s s' phases = {}" for phases by (auto simp: entered_def same)
  then show w: "ticket_watch s s' g = g" by (cases g) (simp add: ticket_watch_def)
  have e: "sent_of n s' = sent_of n s" "ticket_entries s' = ticket_entries s" "issued n s' = issued n s"
    "running n s' = running n s" "describe i s' = describe i s" for n i
    by (simp_all add: sent_of_def ticket_entries_def issued_def running_def describe_def same)
  have "ticket_ok s' g i \<and> history_ok s' g" for i
    using inv_parts(1,2) [OF inv] by (simp add: ticket_ok_def history_ok_def e same)
  moreover have "id_of KeyboardIf s' = id_of MouseIf s' \<longrightarrow> id_of KeyboardIf s' = 0"
    using ids_apart [OF inv, of KeyboardIf MouseIf] unfolding same by blast
  ultimately show "runtime_inv (s', g)" using gate unfolding runtime_inv_def fst_conv snd_conv by blast
  show "runtime_base (s, g) (s', g)" by (simp add: runtime_base_def e)
  show "runtime_held s' - range Admitted = runtime_held s - range Admitted"
    by (auto simp: runtime_held_def same)
  show "r \<notin> range Admitted \<Longrightarrow> runtime_keep r (s, g) (s', g')" by (cases r) (auto simp: same e)
qed

lemma held_admitted: "Admitted n \<in> runtime_held s \<longleftrightarrow> n \<in> fst ` set (rt_holders s)"
  by (auto simp: runtime_held_def)

lemma held_split:
  "runtime_held s = (runtime_held s - range Admitted) \<union> Admitted ` fst ` set (rt_holders s)"
  by (auto simp: runtime_held_def)

lemma env_less: "rr.env m x y \<Longrightarrow> n \<subseteq> m \<Longrightarrow> rr.env n x y"
  unfolding rr.env_def by blast

definition acquired_gate :: "bool \<Rightarrow> runtime \<Rightarrow> u32 \<Rightarrow> bool" where
  "acquired_gate safety s w \<longleftrightarrow>
     (unat (drop_bit 29 (rt_gate s)) = 0 \<and> w = rt_gate s + 1
      \<or> safety \<and> (unat (drop_bit 29 (rt_gate s)) = 1 \<or> unat (drop_bit 29 (rt_gate s)) = 3)
          \<and> w = (rt_gate s + 1) OR kGateConflict
      \<or> safety \<and> unat (drop_bit 29 (rt_gate s)) = 4 \<and> w = rt_gate s + 1)
     \<and> rt_gate s AND kAdmissionMask \<noteq> kAdmissionMask"

lemma acquire_gate:
  assumes "gate_ok s" "acquired_gate safety s w"
  shows "gate_ok (snd (acquire safety w s))"
proof -
  have full: "rt_gate s AND kAdmissionMask \<noteq> kAdmissionMask" using assms(2) by (simp add: acquired_gate_def)
  note inc = gate_inc [OF full]
  have c: "unat (take_bit 29 w) = gate_count s + 1"
    using assms(2) inc(1) unfolding acquired_gate_def gate_count_def by (elim conjE disjE) (simp_all only: gate_conflict(1))
  have k: "unat (drop_bit 29 w) = (if gate_control s = 1 then 3 else gate_control s)"
    using assms(2) inc(2) gate_conflict(2) [of "rt_gate s + 1"] unfolding acquired_gate_def gate_control_def
    by (elim conjE disjE) simp_all
  have saf: "gate_control s \<noteq> 0 \<longrightarrow> safety" using assms(2) by (auto simp: acquired_gate_def gate_control_def)
  have n: "gate_count (snd (acquire safety w s)) = gate_count s + 1"
    "gate_control (snd (acquire safety w s)) = (if gate_control s = 1 then 3 else gate_control s)"
    "rt_holders (snd (acquire safety w s)) = (rt_next_holder s, safety) # rt_holders s"
    "rt_next_holder (snd (acquire safety w s)) = rt_next_holder s + 1"
    using c k by (simp_all add: acquire_def gate_count_def gate_control_def)
  have d: "distinct (map fst (rt_holders s)) \<and> (\<forall>h \<in> set (rt_holders s). fst h < rt_next_holder s)"
    using assms(1) by (simp add: gate_ok_def)
  then have "rt_next_holder s \<notin> fst ` set (rt_holders s)" by auto
  then show ?thesis
    using assms(1) saf d unfolding gate_ok_def n by (auto split: if_splits)
qed

lemma admission_sat:
  assumes "m \<subseteq> runtime_held (fst x)"
  shows "rr.sat (try_admission safety) m x (\<lambda>a m' y. rr.env m x y \<and> m' \<subseteq> runtime_held (fst y)
    \<and> (case a of Acquired n \<Rightarrow> m' = insert (Admitted n) m \<and> Admitted n \<notin> m | _ \<Rightarrow> m' = m))"
  unfolding try_admission_def
proof (rule rr.sat_atomicI)
  fix s g
  assume inv: "runtime_inv (s, g)" and env: "rr.env m x (s, g)"
  let ?f = "admission_step safety"
  have m: "m \<subseteq> runtime_held s" using env_held [OF env] by simp
  note gate = inv_parts(3) [OF inv]
  have cases: "(\<exists>r. ?f s = (r, s) \<and> (\<forall>n. r \<noteq> Acquired n)) \<or> (\<exists>w. acquired_gate safety s w \<and> ?f s = acquire safety w s)"
    using gate by (auto simp: admission_step_def acquired_gate_def gate_tests Let_def gate_ok_def gate_control_def)
  show "runtime_inv (snd (?f s), ticket_watch s (snd (?f s)) g)
      \<and> rr.guar m (s, g) (snd (?f s), ticket_watch s (snd (?f s)) g)
      \<and> rr.env m x (snd (?f s), ticket_watch s (snd (?f s)) g)
      \<and> rr.roles m s (snd (?f s)) \<subseteq> runtime_held (fst (snd (?f s), ticket_watch s (snd (?f s)) g))
      \<and> (case fst (?f s) of Acquired n \<Rightarrow> rr.roles m s (snd (?f s)) = insert (Admitted n) m \<and> Admitted n \<notin> m
         | _ \<Rightarrow> rr.roles m s (snd (?f s)) = m)"
    using cases
  proof (elim disjE exE conjE)
    fix r assume r: "?f s = (r, s)" "\<forall>n. r \<noteq> Acquired n"
    show ?thesis
      using r(2) inv env m unfolding r(1) fst_conv snd_conv rr.watch_idle
      by (auto simp: rr.guar_idle rr.roles_idle split: admission.splits)
  next
    fix w assume w: "acquired_gate safety s w" "?f s = acquire safety w s"
    let ?s = "snd (acquire safety w s)" and ?n = "rt_next_holder s"
    have st: "rt_tickets ?s = rt_tickets s" "rt_sent ?s = rt_sent s"
      "rt_next_public_ticket_id ?s = rt_next_public_ticket_id s" "rt_holders ?s = (?n, safety) # rt_holders s"
      by (simp_all add: acquire_def)
    note step = gate_step [OF inv st(1-3) acquire_gate [OF gate w(1)]]
    have fresh: "Admitted ?n \<notin> runtime_held s"
      using gate unfolding held_admitted gate_ok_def by auto
    have held: "runtime_held ?s = insert (Admitted ?n) (runtime_held s)"
      using step(4) held_split [of ?s] held_split [of s] unfolding st(4) by auto
    have keep: "runtime_keep r (s, g) (?s, g)" for r
    proof (cases "r \<in> range Admitted")
      case True
      then show ?thesis by (auto simp: st(4))
    qed (rule step(5))
    have e: "rr.env m (s, g) (?s, g)" using step(3) keep m held unfolding rr.env_def fst_conv by blast
    have guar: "rr.guar m (s, g) (?s, g)" using step(3) keep held unfolding rr.guar_def fst_conv by blast
    have roles: "rr.roles m s ?s = insert (Admitted ?n) m" using m fresh unfolding rr.roles_def held by blast
    have a: "fst (acquire safety w s) = Acquired ?n" by (simp add: acquire_def)
    have sub: "insert (Admitted ?n) m \<subseteq> runtime_held ?s" "Admitted ?n \<notin> m" using m fresh held by blast+
    note e' = rr.env_trans [OF env e]
    show ?thesis
      unfolding w(2) step(1) roles a fst_conv admission.case
      by (intro conjI refl step(2) guar e' sub)
  qed
qed

lemma length_remove:
  assumes "distinct (map fst hs)" "n \<in> fst ` set hs"
  shows "length (filter (\<lambda>h. fst h \<noteq> n) hs) = length hs - 1" "hs \<noteq> []"
  using assms
proof (induction hs)
  case (Cons h hs)
  { case 1
    show ?case
    proof (cases "fst h = n")
      case True
      then have "filter (\<lambda>h. fst h \<noteq> n) hs = hs" using 1 by (intro filter_True) (auto simp: image_iff)
      then show ?thesis using True by simp
    next
      case False
      then show ?thesis using Cons 1 by (cases hs) auto
    qed
  next
    case 2
    then show ?case by simp }
qed simp_all

lemma leave_admission_sat:
  assumes n: "Admitted n \<in> m" and held_m: "m \<subseteq> runtime_held (fst x)"
  shows "rr.sat (leave_admission n) m x
    (\<lambda>a m' y. m' = m - {Admitted n} \<and> rr.env (m - {Admitted n}) x y)"
  unfolding leave_admission_def store_def
proof (rule rr.sat_atomicI)
  fix s g
  assume inv: "runtime_inv (s, g)" and env: "rr.env m x (s, g)"
  let ?s = "s\<lparr>rt_gate := rt_gate s - 1, rt_holders := filter (\<lambda>h. fst h \<noteq> n) (rt_holders s)\<rparr>"
  have m: "m \<subseteq> runtime_held s" using env_held [OF env] by simp
  then have "n \<in> fst ` set (rt_holders s)" using n unfolding held_admitted [symmetric] by blast
  note gate = inv_parts(3) [OF inv]
  have d: "distinct (map fst (rt_holders s))" using gate by (simp add: gate_ok_def)
  note len = length_remove [OF d \<open>n \<in> fst ` set (rt_holders s)\<close>]
  have c: "unat (take_bit 29 (rt_gate s)) = length (rt_holders s)" using gate by (simp add: gate_ok_def gate_count_def)
  then have "unat (take_bit 29 (rt_gate s)) \<noteq> 0" using len(2) by simp
  note dec = gate_dec [OF this]
  have "gate_control s \<noteq> 1" using gate len(2) by (auto simp: gate_ok_def)
  then have ok: "gate_ok ?s"
    using gate len(1) dec c unfolding gate_ok_def gate_count_def gate_control_def
    by (simp add: distinct_map_filter)
  have "rt_tickets ?s = rt_tickets s" "rt_sent ?s = rt_sent s"
    "rt_next_public_ticket_id ?s = rt_next_public_ticket_id s" by simp_all
  note step = gate_step [OF inv this ok]
  have "r \<in> runtime_held ?s \<longleftrightarrow> r \<in> runtime_held s \<and> r \<noteq> Admitted n" for r
    by (cases r) (auto simp: runtime_held_def image_iff, force)
  then have held: "runtime_held ?s = runtime_held s - {Admitted n}" by blast
  have keep: "runtime_keep r (s, g) (?s, g)" if "r \<noteq> Admitted n" for r
  proof (cases "r \<in> range Admitted")
    case True
    then show ?thesis using that by auto
  qed (rule step(5))
  have e: "rr.env (m - {Admitted n}) (s, g) (?s, g)" using step(3) keep m held unfolding rr.env_def fst_conv by blast
  have "rr.guar m (s, g) (?s, g)" using step(3) keep held n unfolding rr.guar_def fst_conv by blast
  moreover have "rr.roles m s ?s = m - {Admitted n}" using m unfolding rr.roles_def held by blast
  ultimately show "runtime_inv (snd ((), ?s), ticket_watch s (snd ((), ?s)) g)
      \<and> rr.guar m (s, g) (snd ((), ?s), ticket_watch s (snd ((), ?s)) g)
      \<and> rr.roles m s (snd ((), ?s)) = m - {Admitted n}
      \<and> rr.env (m - {Admitted n}) x (snd ((), ?s), ticket_watch s (snd ((), ?s)) g)"
    unfolding snd_conv step(1) by (intro conjI step(2) rr.env_trans [OF env_less [OF env] e]) blast+
qed

text \<open>Steps on the gate word that leave the holders.\<close>

lemma gate_word_decent:
  assumes "\<And>s. gate_ok s \<Longrightarrow> \<exists>w. snd (f s) = s\<lparr>rt_gate := w\<rparr> \<and> gate_ok (s\<lparr>rt_gate := w\<rparr>)"
  shows "decent (atomic f)"
  unfolding decent_def
proof (intro allI impI rr.sat_atomicI)
  fix m x s g
  assume m: "m \<subseteq> runtime_held (fst x)" and inv: "runtime_inv (s, g)" and env: "rr.env m x (s, g)"
  from assms [OF inv_parts(3) [OF inv]] obtain w where w: "snd (f s) = s\<lparr>rt_gate := w\<rparr>" "gate_ok (s\<lparr>rt_gate := w\<rparr>)"
    by blast
  let ?s = "s\<lparr>rt_gate := w\<rparr>"
  have "rt_tickets ?s = rt_tickets s" "rt_sent ?s = rt_sent s" "rt_next_public_ticket_id ?s = rt_next_public_ticket_id s"
    by simp_all
  note step = gate_step [OF inv this w(2)]
  have held: "runtime_held ?s = runtime_held s" by (simp add: runtime_held_def)
  have keep: "runtime_keep r (s, g) (?s, g)" for r
    by (cases "r \<in> range Admitted") (auto intro: step(5))
  have ms: "m \<subseteq> runtime_held s" using env_held [OF env] by simp
  have e: "rr.env m (s, g) (?s, g)" "rr.guar m (s, g) (?s, g)"
    using step(3) keep ms held unfolding rr.env_def rr.guar_def fst_conv by blast+
  have "rr.roles m s ?s = m" using ms unfolding rr.roles_def held by blast
  then show "runtime_inv (snd (f s), ticket_watch s (snd (f s)) g)
      \<and> rr.guar m (s, g) (snd (f s), ticket_watch s (snd (f s)) g)
      \<and> rr.roles m s (snd (f s)) = m \<and> rr.env m x (snd (f s), ticket_watch s (snd (f s)) g)"
    unfolding w(1) step(1) by (intro conjI step(2) e(2) rr.env_trans [OF env e(1)])
qed

lemma conflict_decent: "decent (mark_conflict w)"
proof (cases "w AND kGateControlMask = kGateClaimed")
  case True
  then have w: "unat (drop_bit 29 w) = 1" by (simp only: gate_tests)
  have "\<exists>v. snd ((), if rt_gate s = w then s\<lparr>rt_gate := w OR kGateConflict\<rparr> else s) = s\<lparr>rt_gate := v\<rparr>
      \<and> gate_ok (s\<lparr>rt_gate := v\<rparr>)" if ok: "gate_ok s" for s
  proof (cases "rt_gate s = w")
    case True
    have "gate_ok (s\<lparr>rt_gate := w OR kGateConflict\<rparr>)"
      using ok gate_conflict(2) [OF disjI1 [OF w]] w True
      by (simp add: gate_ok_def gate_count_def gate_control_def gate_constants)
    then show ?thesis using True by auto
  next
    case False
    then show ?thesis using ok by (intro exI [of _ "rt_gate s"]) simp
  qed
  then show ?thesis unfolding mark_conflict_def store_def if_P [OF True] by (rule gate_word_decent)
qed (simp add: mark_conflict_def decent_ret)

lemma cas_decent:
  assumes "to = kGateClaimed \<and> from = 0 \<or> to = kGateCommitted \<and> from = kGateClaimed"
  shows "decent (cas_gate from to)"
  unfolding cas_gate_def
proof (rule gate_word_decent)
  fix s assume ok: "gate_ok s"
  show "\<exists>w. snd (if rt_gate s = from then (True, s\<lparr>rt_gate := to\<rparr>) else (False, s)) = s\<lparr>rt_gate := w\<rparr>
      \<and> gate_ok (s\<lparr>rt_gate := w\<rparr>)"
  proof (cases "rt_gate s = from")
    case True
    have "take_bit 29 from = 0" "take_bit 29 to = 0" "unat (drop_bit 29 to) = 1 \<or> unat (drop_bit 29 to) = 4"
      using assms by (auto simp: gate_constants)
    then have "gate_ok (s\<lparr>rt_gate := to\<rparr>)"
      using ok True by (auto simp: gate_ok_def gate_count_def gate_control_def)
    then show ?thesis using True by auto
  next
    case False
    then show ?thesis using ok by (intro exI [of _ "rt_gate s"]) simp
  qed
qed

lemma release_sleep_decent: "decent release_sleep_quiescence"
  unfolding release_sleep_quiescence_def store_def
proof (rule gate_word_decent)
  fix s assume ok: "gate_ok s"
  have "take_bit 29 (rt_gate s AND kAdmissionMask) = take_bit 29 (rt_gate s)"
    "drop_bit 29 (rt_gate s AND kAdmissionMask) = 0"
    unfolding gate_and_count by (simp_all add: drop_bit_take_bit)
  then have "gate_ok (s\<lparr>rt_gate := rt_gate s AND kAdmissionMask\<rparr>)"
    using ok by (simp add: gate_ok_def gate_count_def gate_control_def)
  then show "\<exists>w. snd ((), s\<lparr>rt_gate := rt_gate s AND kAdmissionMask\<rparr>) = s\<lparr>rt_gate := w\<rparr> \<and> gate_ok (s\<lparr>rt_gate := w\<rparr>)"
    by auto
qed

text \<open>A body with its result under an admission.\<close>

lemma scoped_sat:
  assumes m: "m \<subseteq> runtime_held (fst x)"
    and body: "\<And>m' y. rr.env m x y \<Longrightarrow> m' \<subseteq> runtime_held (fst y) \<Longrightarrow>
      rr.sat body m' y (\<lambda>a m'' z. m'' = m' \<and> rr.env m' y z \<and> Q a z)"
    and stays: "\<And>a y z. Q a y \<Longrightarrow> runtime_base y z \<Longrightarrow> Q a z" and refused: "\<And>y. Q refused y"
  shows "rr.sat (scoped safety refused body) m x (\<lambda>a m' y. m' = m \<and> rr.env m x y \<and> Q a y)"
  unfolding scoped_def rr.sat_bind
proof (rule rr.sat_mono [OF admission_sat [OF m]])
  let ?k = "\<lambda>a. case a of Acquired n \<Rightarrow> pbind body (\<lambda>r. pthen (leave_admission n) (Ret r))
     | Refused w \<Rightarrow> pthen (mark_conflict w) (Ret refused) | Aborted \<Rightarrow> Ret refused"
  let ?post = "\<lambda>a m' y. m' = m \<and> rr.env m x y \<and> Q a y"
  fix a m' y
  assume a: "rr.env m x y \<and> m' \<subseteq> runtime_held (fst y)
    \<and> (case a of Acquired n \<Rightarrow> m' = insert (Admitted n) m \<and> Admitted n \<notin> m | _ \<Rightarrow> m' = m)"
  then have e: "rr.env m x y" and m': "m' \<subseteq> runtime_held (fst y)" by simp_all
  show "rr.sat (?k a) m' y ?post"
  proof (cases a)
    case (Acquired n)
    then have n: "m' = insert (Admitted n) m" "Admitted n \<notin> m" using a by auto
    have "rr.sat (pbind body (\<lambda>r. pthen (leave_admission n) (Ret r))) m' y ?post"
      unfolding rr.sat_bind
    proof (rule rr.sat_mono [OF body [OF e m']])
      fix r m'' z assume z: "m'' = m' \<and> rr.env m' y z \<and> Q r z"
      have "m \<subseteq> m'" using n by blast
      then have xz: "rr.env m x z" using rr.env_trans [OF e] env_less z by blast
      have "Admitted n \<in> m'" using n by blast
      note leave = leave_admission_sat [OF this env_held [OF conjunct1 [OF conjunct2 [OF z]]]]
      have rest: "m' - {Admitted n} = m" using n by blast
      show "rr.sat (pthen (leave_admission n) (Ret r)) m'' z ?post"
        unfolding conjunct1 [OF z] pthen_def rr.sat_bind rr.sat.simps
      proof (rule rr.sat_mono [OF leave])
        fix u m3 w assume w: "m3 = m' - {Admitted n} \<and> rr.env (m' - {Admitted n}) z w"
        then have zw: "rr.env m z w" unfolding rest by blast
        then have "runtime_base z w" by (simp add: rr.env_def)
        then have "Q r w" using stays z by blast
        then show "m3 = m \<and> rr.env m x w \<and> Q r w" using w rest rr.env_trans [OF xz zw] by simp
      qed
    qed
    then show ?thesis by (simp add: Acquired)
  next
    case (Refused w)
    have e': "m' = m" using a Refused by simp
    have d: "decent (pthen (mark_conflict w) (Ret refused))"
      unfolding pthen_def by (rule decent_bind [OF conflict_decent decent_ret])
    have "rr.sat (pthen (mark_conflict w) (Ret refused)) m y ?post"
      unfolding pthen_def rr.sat_bind rr.sat.simps
      by (rule rr.sat_mono [OF decentD [OF conflict_decent env_held [OF e]]]) (use rr.env_trans [OF e] refused in blast)
    then show ?thesis by (simp add: Refused e')
  next
    case Aborted
    then show ?thesis using a refused by simp
  qed
qed

lemma scoped_decent:
  assumes "decent body"
  shows "decent (scoped safety refused body)"
  unfolding decent_def
proof (intro allI impI)
  fix m and x :: "runtime \<times> ticket_notes" assume m: "m \<subseteq> runtime_held (fst x)"
  have body: "rr.sat body m' y (\<lambda>a m'' z. m'' = m' \<and> rr.env m' y z \<and> True)" if "m' \<subseteq> runtime_held (fst y)" for m' y
    by (rule rr.sat_mono [OF decentD [OF assms that]]) simp
  show "rr.sat (scoped safety refused body) m x (\<lambda>a m' y. m' = m \<and> rr.env m x y)"
    by (rule rr.sat_mono [OF scoped_sat [where Q = "\<lambda>a y. True", OF m body]]) simp_all
qed

end
