(* ===== verification/TicketMoves.thy ===== *)
theory TicketMoves
  imports TicketCalls
begin

text \<open>
  The steps that move a ticket of \<open>hid_runtime\<close>: its phases, what a move means for the history, and the
  producers and transport owners that make the moves.
\<close>

section \<open>A ticket moves\<close>

text \<open>A step that changes one ticket, but not what it says.\<close>

definition moved :: "interface \<Rightarrow> ticket_state \<Rightarrow> runtime \<Rightarrow> runtime \<Rightarrow> bool" where
  "moved i p s s' \<longleftrightarrow> describe i s' = describe i s \<and> phase_of i s' = p
     \<and> (\<forall>j. j \<noteq> i \<longrightarrow> ticket_of j s' = ticket_of j s)
     \<and> rt_next_public_ticket_id s' = rt_next_public_ticket_id s \<and> rt_sent s' = rt_sent s
     \<and> rt_gate s' = rt_gate s \<and> rt_holders s' = rt_holders s \<and> rt_next_holder s' = rt_next_holder s"

text \<open>The moves of a ticket, with what was handed over for it.\<close>

definition moves :: "ticket_state \<Rightarrow> ticket_state \<Rightarrow> submission list \<Rightarrow> bool" where
  "moves p p' es \<longleftrightarrow>
     (p = TkWriting \<or> p = TkWritingCanceled) \<and> p' = TkCanceled
     \<or> p = TkWriting \<and> p' = TkPublished \<or> p = TkPublished \<and> p' = TkClaimed
     \<or> p = TkClaimed \<and> p' = TkSubmitted \<and> (\<exists>e \<in> set es. su_accepted e)
     \<or> p = TkClaimed \<and> (p' = TkCanceled \<or> p' = TkNotReady) \<and> (\<forall>e \<in> set es. \<not> su_accepted e)
     \<or> (p = TkSubmitted \<or> p = TkNotReady \<or> p = TkCanceled) \<and> p' = TkFree"

lemma moved_facts:
  assumes "moved i p s s'"
  shows "id_of j s' = id_of j s" "describe j s' = describe j s" "phase_of j s' = (if j = i then p else phase_of j s)"
    "sent_of n s' = sent_of n s" "ticket_entries s' = ticket_entries s" "issued n s' = issued n s" "gate_ok s' = gate_ok s"
proof -
  have i: "describe i s' = describe i s" "phase_of i s' = p" and j: "j \<noteq> i \<longrightarrow> ticket_of j s' = ticket_of j s" for j
    using assms by (simp_all add: moved_def)
  show d: "describe j s' = describe j s" for j using i(1) j [of j] by (cases "j = i") (simp_all add: describe_def)
  show "id_of j s' = id_of j s" using d [of j] by (simp add: describe_def)
  show "phase_of j s' = (if j = i then p else phase_of j s)" using i(2) j [of j] by simp
  show "sent_of n s' = sent_of n s" "ticket_entries s' = ticket_entries s" "issued n s' = issued n s" "gate_ok s' = gate_ok s"
    using assms by (simp_all add: moved_def sent_of_def ticket_entries_def issued_def gate_ok_def gate_count_def gate_control_def)
qed

lemma moves_phases:
  assumes "moves p p' es"
  shows "p' \<noteq> TkWriting" "p' \<noteq> TkWritingCanceled" "p \<noteq> p'" "p \<noteq> TkFree"
    "busy_phase p' \<Longrightarrow> busy_phase p \<and> p \<noteq> TkClaimed"
    "p' = TkCanceled \<or> p' = TkNotReady \<Longrightarrow> busy_phase p"
    "p' = TkSubmitted \<Longrightarrow> p = TkClaimed \<and> (\<exists>e \<in> set es. su_accepted e)"
    "p' = TkCanceled \<or> p' = TkNotReady \<Longrightarrow> p \<noteq> TkClaimed \<or> (\<forall>e \<in> set es. \<not> su_accepted e)"
    "busy_phase p \<Longrightarrow> \<not> busy_phase p' \<Longrightarrow> p' = TkCanceled \<or> p' = TkNotReady \<or> p' = TkSubmitted"
    "p' = TkSubmitted \<or> p' = TkCanceled \<or> p' = TkNotReady \<or> p' = TkFree \<or> busy_phase p'"
  using assms unfolding moves_def busy_phase_def by (elim disjE conjE; simp)+

lemma moved_watch:
  assumes "moved i p s s'" "moves (phase_of i s) p es"
  shows "tn_begun (ticket_watch s s' g) = tn_begun g"
    "tn_closed (ticket_watch s s' g) =
       tn_closed g \<union> (if p = TkCanceled \<or> p = TkNotReady then {id_of i s} else {})"
    "tn_submitted (ticket_watch s s' g) = tn_submitted g \<union> (if p = TkSubmitted then {id_of i s} else {})"
proof -
  note f = moved_facts(1,3) [OF assms(1)]
  have e: "entered s s' {TkWriting} = {}"
    using moves_phases(1) [OF assms(2)] by (auto simp: entered_def f split: if_splits)
  have c: "entered s s' {TkCanceled, TkNotReady} = (if p = TkCanceled \<or> p = TkNotReady then {i} else {})"
    using moves_phases(6) [OF assms(2)] by (auto simp: entered_def f busy_phase_def split: if_splits)
  have u: "entered s s' {TkSubmitted} = (if p = TkSubmitted then {i} else {})"
    using moves_phases(7) [OF assms(2)] by (auto simp: entered_def f split: if_splits)
  show "tn_begun (ticket_watch s s' g) = tn_begun g" by (simp add: ticket_watch_def e)
  show "tn_closed (ticket_watch s s' g) =
       tn_closed g \<union> (if p = TkCanceled \<or> p = TkNotReady then {id_of i s} else {})"
    by (simp add: ticket_watch_def c f)
  show "tn_submitted (ticket_watch s s' g) = tn_submitted g \<union> (if p = TkSubmitted then {id_of i s} else {})"
    by (simp add: ticket_watch_def u f)
qed

text \<open>The moving ticket before the step.\<close>

lemma mover:
  assumes inv: "runtime_inv (s, g)" and mv: "moves (phase_of i s) p (sent_of (id_of i s) s)"
  shows "id_of i s \<noteq> 0" "id_of i s \<in> begun_ids g" "j \<noteq> i \<Longrightarrow> id_of j s \<noteq> id_of i s"
    "busy_phase (phase_of i s) \<Longrightarrow> id_of i s \<notin> tn_closed g \<and> id_of i s \<notin> tn_submitted g"
    "busy_phase (phase_of i s) \<Longrightarrow> phase_of i s \<noteq> TkClaimed \<Longrightarrow> sent_of (id_of i s) s = []"
proof -
  have ok: "ticket_ok s g i" by (rule inv_parts(1) [OF inv])
  show nz: "id_of i s \<noteq> 0" using ok moves_phases(4) [OF mv] unfolding ticket_ok_def by blast
  then have "describe i s \<in> tn_begun g" using ok unfolding ticket_ok_def by blast
  then show "id_of i s \<in> begun_ids g" unfolding begun_ids_def describe_def by force
  show "j \<noteq> i \<Longrightarrow> id_of j s \<noteq> id_of i s" using ids_apart [OF inv, of i j] nz by metis
  show "busy_phase (phase_of i s) \<Longrightarrow> id_of i s \<notin> tn_closed g \<and> id_of i s \<notin> tn_submitted g"
    "busy_phase (phase_of i s) \<Longrightarrow> phase_of i s \<noteq> TkClaimed \<Longrightarrow> sent_of (id_of i s) s = []"
    using ok unfolding ticket_ok_def by blast+
qed

lemma moved_ticket_ok:
  assumes inv: "runtime_inv (s, g)" and md: "moved i p s s'" and mv: "moves (phase_of i s) p (sent_of (id_of i s) s)"
  shows "ticket_ok s' (ticket_watch s s' g) j"
proof -
  have ok: "ticket_ok s g j" by (rule inv_parts(1) [OF inv])
  note w = moved_watch [OF md mv] and m = mover [OF inv mv] and ph = moves_phases [OF mv]
  note f = moved_facts [OF md]
  show ?thesis
  proof (cases "j = i")
    case False
    have "id_of j s \<noteq> id_of i s" by (rule m(3) [OF False])
    then show ?thesis using ok unfolding ticket_ok_def w f if_not_P [OF False] by simp
  next
    case True
    have d: "describe i s \<in> tn_begun g" using ok m(1) unfolding True ticket_ok_def by blast
    consider (busy) "busy_phase p" | (sub) "p = TkSubmitted" | (closed) "p = TkCanceled \<or> p = TkNotReady" | (free) "p = TkFree"
      using ph(10) by blast
    then show ?thesis
    proof cases
      case busy
      then have "p \<noteq> TkCanceled" "p \<noteq> TkNotReady" "p \<noteq> TkSubmitted" by (auto simp: busy_phase_def)
      then show ?thesis using m(1,4,5) ph(5) [OF busy] d unfolding ticket_ok_def w f True by simp
    qed (use m(1) d in \<open>auto simp: ticket_ok_def w f True busy_phase_def\<close>)
  qed
qed

lemma moved_running:
  assumes inv: "runtime_inv (s, g)" and md: "moved i p s s'" and mv: "moves (phase_of i s) p (sent_of (id_of i s) s)"
    and r: "running n s"
  shows "running n s' \<or> n = id_of i s \<and> (p = TkCanceled \<or> p = TkNotReady \<or> p = TkSubmitted)"
proof -
  note f = moved_facts [OF md]
  obtain j where j: "id_of j s = n" "busy_phase (phase_of j s)" using r unfolding running_def by blast
  show ?thesis
  proof (cases "busy_phase (phase_of j s')")
    case True
    then show ?thesis using j(1) f(1) [of j] unfolding running_def by metis
  next
    case False
    then have "j = i" using j(2) f(3) [of j] by metis
    then show ?thesis using moves_phases(9) [OF mv] j False f(3) [of j] by auto
  qed
qed

lemma moved_history:
  assumes inv: "runtime_inv (s, g)" and md: "moved i p s s'" and mv: "moves (phase_of i s) p (sent_of (id_of i s) s)"
  shows "history_ok s' (ticket_watch s s' g)"
proof -
  have h: "history_ok s g" by (rule inv_parts(2) [OF inv])
  note w = moved_watch [OF md mv] and m = mover [OF inv mv] and ph = moves_phases [OF mv]
  note f = moved_facts [OF md]
  let ?g = "ticket_watch s s' g"
  have b: "begun_ids ?g = begun_ids g" by (simp add: begun_ids_def w)
  have each: "issued n s \<and> length (sent_of n s) \<le> 1
      \<and> (n \<in> tn_closed ?g \<or> n \<in> tn_submitted ?g \<or> running n s')
      \<and> (n \<in> tn_closed ?g \<longrightarrow> (\<forall>e \<in> set (sent_of n s). \<not> su_accepted e))
      \<and> (n \<in> tn_submitted ?g \<longrightarrow> (\<exists>e \<in> set (sent_of n s). su_accepted e))" if n: "n \<in> begun_ids g" for n
  proof -
    have o: "issued n s \<and> length (sent_of n s) \<le> 1
      \<and> (n \<in> tn_closed g \<or> n \<in> tn_submitted g \<or> running n s)
      \<and> (n \<in> tn_closed g \<longrightarrow> (\<forall>e \<in> set (sent_of n s). \<not> su_accepted e))
      \<and> (n \<in> tn_submitted g \<longrightarrow> (\<exists>e \<in> set (sent_of n s). su_accepted e))"
      using h n unfolding history_ok_def by blast
    have c: "\<forall>e \<in> set (sent_of n s). \<not> su_accepted e" if "n \<in> tn_closed ?g"
    proof (cases "n \<in> tn_closed g")
      case False
      then have n: "n = id_of i s" and p: "p = TkCanceled \<or> p = TkNotReady" using that w(2) by (auto split: if_splits)
      from ph(8) [OF p] show ?thesis using m(5) [OF ph(6) [OF p]] n by auto
    qed (use o in blast)
    have u: "\<exists>e \<in> set (sent_of n s). su_accepted e" if "n \<in> tn_submitted ?g"
    proof (cases "n \<in> tn_submitted g")
      case False
      then have "n = id_of i s" "p = TkSubmitted" using that w(3) by (auto split: if_splits)
      then show ?thesis using ph(7) by simp
    qed (use o in blast)
    have "n \<in> tn_closed ?g \<or> n \<in> tn_submitted ?g \<or> running n s'"
      using o moved_running [OF inv md mv, of n] unfolding w by auto
    then show ?thesis using o c u by blast
  qed
  have "tn_closed ?g \<union> tn_submitted ?g \<subseteq> begun_ids g"
    using h m(2) unfolding history_ok_def w by (simp split: if_splits)
  then show ?thesis using h each unfolding history_ok_def b f w(1) by blast
qed

lemma moved_inv:
  assumes inv: "runtime_inv (s, g)" and md: "moved i p s s'" and mv: "moves (phase_of i s) p (sent_of (id_of i s) s)"
  shows "runtime_inv (s', ticket_watch s s' g)"
proof -
  have "id_of KeyboardIf s' = id_of MouseIf s' \<longrightarrow> id_of KeyboardIf s' = 0"
    using ids_apart [OF inv, of KeyboardIf MouseIf] unfolding moved_facts(1) [OF md] by blast
  moreover have "gate_ok s'" using inv_parts(3) [OF inv] unfolding moved_facts(7) [OF md] .
  ultimately show ?thesis using moved_ticket_ok [OF inv md mv] moved_history [OF inv md mv]
    unfolding runtime_inv_def fst_conv snd_conv by blast
qed

text \<open>What the step means for the roles.\<close>

abbreviation of_ticket :: "interface \<Rightarrow> runtime_role set" where
  "of_ticket i \<equiv> {Writer i, Claimer i}"

lemma held_writer: "Writer i \<in> runtime_held s \<longleftrightarrow> phase_of i s = TkWriting \<or> phase_of i s = TkWritingCanceled"
  and held_claimer: "Claimer i \<in> runtime_held s \<longleftrightarrow> phase_of i s = TkClaimed"
  by (auto simp: runtime_held_def)

lemma moved_held:
  assumes "moved i p s s'" "moves (phase_of i s) p es"
  shows "runtime_held s' = (runtime_held s - of_ticket i) \<union> (if p = TkClaimed then {Claimer i} else {})"
proof (rule set_eqI)
  fix r
  have "rt_holders s' = rt_holders s" using assms(1) by (simp add: moved_def)
  then show "r \<in> runtime_held s' \<longleftrightarrow> r \<in> (runtime_held s - of_ticket i) \<union> (if p = TkClaimed then {Claimer i} else {})"
    using moves_phases(1,2) [OF assms(2)] moved_facts(3) [OF assms(1)]
    by (cases r) (auto simp: held_writer held_claimer held_admitted)
qed

lemma moved_keep:
  assumes "moved i p s s'" "r \<notin> of_ticket i"
  shows "runtime_keep r (s, g) (s', g')"
proof (cases r)
  case (Admitted n)
  then show ?thesis using assms(1) by (simp add: moved_def)
qed (use assms in \<open>auto simp: moved_def moved_facts(4) [OF assms(1)]\<close>)

lemma moved_step:
  assumes inv: "runtime_inv (s, g)" and md: "moved i p s s'" and mv: "moves (phase_of i s) p (sent_of (id_of i s) s)"
    and m: "m \<subseteq> runtime_held s" "runtime_held s \<inter> of_ticket i \<subseteq> m"
  shows "rr.guar m (s, g) (s', ticket_watch s s' g)"
    "rr.env (m - of_ticket i) (s, g) (s', ticket_watch s s' g)"
    "rr.roles m s s' = (m - of_ticket i) \<union> (if p = TkClaimed then {Claimer i} else {})"
proof -
  note h = moved_held [OF md mv]
  have b: "runtime_base (s, g) (s', ticket_watch s s' g)"
    unfolding runtime_base_def by (auto simp: moved_watch [OF md mv] moved_facts [OF md])
  show "rr.guar m (s, g) (s', ticket_watch s s' g)"
    using b moved_keep [OF md] m(2) unfolding rr.guar_def fst_conv h by blast
  show "rr.env (m - of_ticket i) (s, g) (s', ticket_watch s s' g)"
    using b moved_keep [OF md] m(1) unfolding rr.env_def fst_conv h by blast
  have "Claimer i \<notin> runtime_held s" if "p = TkClaimed"
    using moves_phases(3) [OF mv] that held_claimer by auto
  then show "rr.roles m s s' = (m - of_ticket i) \<union> (if p = TkClaimed then {Claimer i} else {})"
    using m(1) unfolding rr.roles_def h by (auto split: if_splits)
qed


section \<open>Sections under the lock\<close>

lemma alone_steps:
  "alone (Ret a) s = (a, s)" "alone (load f) s = (f s, s)" "alone (store h) s = ((), h s)"
  "alone (load_ticket i k) m = (k (ticket_of i m), m)" "alone (store_ticket i u) m = ((), put_ticket i u m)"
  "alone (pthen p q) s = (case alone p s of (a, s') \<Rightarrow> alone q s')"
  "alone (pif c q r) s = (case alone c s of (b, s') \<Rightarrow> alone (if b then q else r) s')"
  by (simp_all add: load_def store_def load_ticket_def store_ticket_def pthen_def pif_def alone_bind)

abbreviation calm :: "(runtime, 'a) prog \<Rightarrow> bool" where "calm \<equiv> gentle same_promises"

lemma same_promises_refl: "same_promises s s"
  by (simp add: same_promises_def)

lemma same_promises_trans: "same_promises s t \<Longrightarrow> same_promises t u \<Longrightarrow> same_promises s u"
  by (simp add: same_promises_def)

lemma calm_alone: "calm p \<Longrightarrow> same_promises s (snd (alone p s))"
  by (erule gentle_alone) (rule same_promises_refl, erule (1) same_promises_trans)

lemma calm_load: "calm (load f)"
  by (simp add: load_def gently_atomic same_promises_refl)

lemma calm_route: "calm (on_route p)"
  unfolding on_route_def by (rule gentle_lift) (rule same_frames)

lemma calm_if: "calm p \<Longrightarrow> calm q \<Longrightarrow> calm (if b then p else q)"
  by simp

lemma calm_ret: "calm (Ret a)"
  by simp

lemmas calm_rules = gently_bind calm_load calm_route calm_if calm_ret

lemma calm_fences:
  "calm authority_epoch" "calm (unsafe_route_active n t)" "calm safety_debt"
  unfolding authority_epoch_def unsafe_route_active_def safety_debt_def ble_snapshot_def numeral_3_eq_3
    ble_snapshot_from.simps pall.simps pany.simps pif_def pmap_def load_ble_def release_producers_blocked_def
    release_requested_def any_safety_required_def load_if_def
  by (intro calm_rules)+

lemma calm_not: "calm p \<Longrightarrow> calm (pnot p)"
  unfolding pnot_def pmap_def by (intro calm_rules)

lemma calm_lost:
  "calm (pany [Ret b, pmap (\<lambda>e. wt_authority_epoch t \<noteq> e) authority_epoch, pnot (unsafe_route_active n h)])"
  "calm (pany [pmap (\<lambda>e. wt_authority_epoch t \<noteq> e) authority_epoch, pnot (unsafe_route_active n h)])"
  unfolding pany.simps pif_def pmap_def by (intro calm_rules calm_not calm_fences)+

text \<open>Setting the phase of a ticket after a calm part.\<close>

definition moving :: "(report_ticket \<Rightarrow> report_ticket) \<Rightarrow> ticket_state \<Rightarrow> bool" where
  "moving u p \<longleftrightarrow> (\<forall>t. tk_ticket_id (u t) = tk_ticket_id t \<and> tk_transport (u t) = tk_transport t
     \<and> tk_report (u t) = tk_report t \<and> tk_state (u t) = p)"

lemma moving_updates:
  "moving (\<lambda>t. t\<lparr>tk_state := p\<rparr>) p" "moving (\<lambda>t. t\<lparr>tk_outcome := oc, tk_state := p\<rparr>) p"
  "moving (\<lambda>t. t\<lparr>tk_state := p, tk_ble_action_pending := b\<rparr>) p"
  by (simp_all add: moving_def)

lemma moved_put: "moving u p \<Longrightarrow> same_promises s s1 \<Longrightarrow> moved i p s (put_ticket i u s1)"
  by (simp add: moved_def moving_def put_ticket_def describe_def same_promises_def)

lemma moved_same: "moving u p \<Longrightarrow> moved i p s (put_ticket i u s)"
  by (rule moved_put [OF _ same_promises_refl])

section \<open>Freeing a ticket\<close>

lemma free_decent:
  assumes "\<And>s. snd (f s) = s \<or> moved i TkFree s (snd (f s))
    \<and> (phase_of i s = TkSubmitted \<or> phase_of i s = TkNotReady \<or> phase_of i s = TkCanceled)"
  shows "decent (atomic f)"
  unfolding decent_def
proof (intro allI impI rr.sat_atomicI)
  fix m x s g
  assume m: "m \<subseteq> runtime_held (fst x)" and inv: "runtime_inv (s, g)" and env: "rr.env m x (s, g)"
  have ms: "m \<subseteq> runtime_held s" using env_held [OF env] by simp
  let ?s = "snd (f s)"
  from assms [of s] show "runtime_inv (?s, ticket_watch s ?s g) \<and> rr.guar m (s, g) (?s, ticket_watch s ?s g)
      \<and> rr.roles m s ?s = m \<and> rr.env m x (?s, ticket_watch s ?s g)"
  proof
    assume "?s = s"
    then show ?thesis using inv env ms by (simp only: rr.watch_idle rr.guar_idle rr.roles_idle)
  next
    assume a: "moved i TkFree s ?s \<and> (phase_of i s = TkSubmitted \<or> phase_of i s = TkNotReady \<or> phase_of i s = TkCanceled)"
    then have mv: "moves (phase_of i s) TkFree (sent_of (id_of i s) s)" by (simp add: moves_def)
    have n: "runtime_held s \<inter> of_ticket i = {}" using a by (auto simp: held_writer held_claimer)
    then have "m - of_ticket i = m" using ms by blast
    moreover have "runtime_held s \<inter> of_ticket i \<subseteq> m" using n by blast
    ultimately show ?thesis
      using moved_step [OF inv conjunct1 [OF a] mv ms] moved_inv [OF inv conjunct1 [OF a] mv] rr.env_trans [OF env]
      by simp
  qed
qed

lemma freeing_decent: "decent (reap_ticket i)" "decent (finalize_report i n)"
proof -
  note mf = moved_same [OF moving_updates(1) [of TkFree]]
  show "decent (reap_ticket i)"
    unfolding reap_ticket_def locked_def
    by (rule free_decent [where i = i]) (simp add: alone_bind alone_steps mf)
  show "decent (finalize_report i n)"
    unfolding finalize_report_def locked_def
    by (simp add: decent_ret) (intro impI free_decent [where i = i], auto simp: alone_bind alone_steps mf)
qed

section \<open>The moves of producers and owners\<close>

text \<open>One step that moves the ticket, by a thread that has the role the ticket is in.\<close>

lemma move_sat_step:
  assumes inv: "runtime_inv (s, g)" and env: "rr.env m x (s, g)"
    and md: "moved i p s s'" and mv: "moves (phase_of i s) p (sent_of (id_of i s) s)"
    and own: "runtime_held s \<inter> of_ticket i \<subseteq> m"
  shows "runtime_inv (s', ticket_watch s s' g)" "rr.guar m (s, g) (s', ticket_watch s s' g)"
    "rr.roles m s s' = (m - of_ticket i) \<union> (if p = TkClaimed then {Claimer i} else {})"
    "rr.env (m - of_ticket i) x (s', ticket_watch s s' g)"
    "rr.roles m s s' \<subseteq> runtime_held s'"
proof -
  have ms: "m \<subseteq> runtime_held s" using env_held [OF env] by simp
  note st = moved_step [OF inv md mv ms own]
  show "runtime_inv (s', ticket_watch s s' g)" by (rule moved_inv [OF inv md mv])
  show "rr.guar m (s, g) (s', ticket_watch s s' g)" by (rule st(1))
  show "rr.roles m s s' = (m - of_ticket i) \<union> (if p = TkClaimed then {Claimer i} else {})" by (rule st(3))
  have "m - of_ticket i \<subseteq> m" by blast
  then show "rr.env (m - of_ticket i) x (s', ticket_watch s s' g)" by (rule rr.env_trans [OF env_less [OF env] st(2)])
  show "rr.roles m s s' \<subseteq> runtime_held s'" unfolding rr.roles_def by blast
qed

lemma begun_now:
  assumes "runtime_inv (s, g)" "id_of i s \<noteq> 0"
  shows "describe i s \<in> tn_begun g" "id_of i s \<in> begun_ids g"
proof -
  show d: "describe i s \<in> tn_begun g" using inv_parts(1) [OF assms(1), of i] assms(2) by (simp add: ticket_ok_def)
  then show "id_of i s \<in> begun_ids g" unfolding begun_ids_def describe_def by force
qed

text \<open>Publishing or cancelling the written ticket.\<close>

lemma publish_cases:
  fixes s :: runtime and conflict stale fence :: bool
  assumes n: "id_of i s = wt_ticket_id token" and ph: "phase_of i s = TkWriting \<or> phase_of i s = TkWritingCanceled"
  defines "r \<equiv> alone (publish_section i token conflict stale fence) s"
  shows "\<exists>p. moved i p s (snd r) \<and> (p = TkCanceled \<or> phase_of i s = TkWriting \<and> p = TkPublished)
    \<and> (fst (fst r) = BrPublished \<longrightarrow> snd (fst r) = wt_ticket_id token)"
proof -
  have canc: "moved i TkCanceled s (put_ticket i (\<lambda>t. t\<lparr>tk_outcome := oc, tk_state := TkCanceled\<rparr>) s1)"
    if "same_promises s s1" for oc s1
    by (rule moved_put [OF moving_updates(2) that])
  have ref: "refusal_of oc \<noteq> BrPublished" for oc by (cases oc) simp_all
  have ref': "(if oc = ToAuthorityLost then BrAuthorityLost else BrSafetyPending) \<noteq> BrPublished" for oc by simp
  let ?h = "wt_transport token" and ?n = "wt_route_generation token"
  note eval = publish_section_def alone_bind alone_steps prod.case id_apply Let_def fst_conv snd_conv
  show ?thesis
  proof (cases "phase_of i s = TkWriting")
    case False
    then have w: "phase_of i s = TkWritingCanceled" using ph by blast
    obtain l s1 where l: "alone (pany [Ret stale, pmap (\<lambda>e. wt_authority_epoch token \<noteq> e) authority_epoch,
        pnot (unsafe_route_active ?n ?h)]) s = (l, s1)" by fastforce
    have s1: "same_promises s s1" using calm_alone [OF calm_lost(1) [of stale token ?n ?h], of s] unfolding l by simp
    have t: "(tk_ticket_id (ticket_of i s) \<noteq> wt_ticket_id token) = False" "(phase_of i s = TkWritingCanceled) = True"
      using n w by simp_all
    show ?thesis
      unfolding r_def eval t if_True if_False l using canc [OF s1] ref' by blast
  next
    case w: True
    have t: "(tk_ticket_id (ticket_of i s) \<noteq> wt_ticket_id token) = False" "(phase_of i s = TkWritingCanceled) = False"
      "(phase_of i s \<noteq> TkWriting) = False"
      using n w by simp_all
    show ?thesis
    proof (cases fence)
      case True
      obtain l s1 where l: "alone (pany [pmap (\<lambda>e. wt_authority_epoch token \<noteq> e) authority_epoch,
          pnot (unsafe_route_active ?n ?h)]) s = (l, s1)" by fastforce
      obtain d s2 where d: "alone safety_debt s1 = (d, s2)" by fastforce
      have "same_promises s s1" "same_promises s1 s2"
        using calm_alone [OF calm_lost(2) [of token ?n ?h], of s] calm_alone [OF calm_fences(3), of s1]
        unfolding l d by simp_all
      then have s2: "same_promises s s2" by (rule same_promises_trans)
      have f: "fence = True" using True by simp
      show ?thesis
        unfolding r_def eval t f if_True if_False l d using canc [OF s2] ref by blast
    next
      case False
      then have f: "fence = False" by simp
      show ?thesis
        unfolding r_def eval t f if_True if_False using moved_same [OF moving_updates(1), of i TkPublished s] w by blast
    qed
  qed
qed

lemma payload_says:
  "ticket_payload t = ticket_payload u \<Longrightarrow> tk_ticket_id t = tk_ticket_id u"
  "ticket_payload t = ticket_payload u \<Longrightarrow> tk_report t = tk_report u"
  by (cases t; cases u; simp add: ticket_payload_def)+

text \<open>The producer's last step.\<close>

lemma publish_sat:
  assumes w: "Writer i \<in> m" and m: "m \<subseteq> runtime_held (fst x)" and n: "id_of i (fst x) = wt_ticket_id token"
    and rep: "tk_report (ticket_of i (fst x)) = report"
  shows "rr.sat (publish_ticket i token conflict stale fence) m x
    (\<lambda>r m' y. m' = m - of_ticket i \<and> rr.env (m - of_ticket i) x y
      \<and> (fst r = BrPublished \<longrightarrow> (\<exists>h. (i, snd r, h, report) \<in> tn_begun (snd y))))"
  unfolding publish_ticket_def locked_def
proof (rule rr.sat_atomicI)
  fix s g
  assume inv: "runtime_inv (s, g)" and env: "rr.env m x (s, g)"
  have ph: "phase_of i s = TkWriting \<or> phase_of i s = TkWritingCanceled"
    using env_held [OF env] w held_writer by auto
  have "runtime_keep (Writer i) x (s, g)" using env w unfolding rr.env_def by blast
  then have pp: "ticket_payload (ticket_of i s) = ticket_payload (ticket_of i (fst x))" by simp
  have k: "id_of i s = wt_ticket_id token" "tk_report (ticket_of i s) = report"
    using payload_says [OF pp] n rep by simp_all
  let ?r = "alone (publish_section i token conflict stale fence) s"
  let ?s = "snd ?r" and ?g = "ticket_watch s (snd ?r) g"
  from publish_cases [OF k(1) ph, of conflict stale fence] obtain p where
    md: "moved i p s ?s" and p: "p = TkCanceled \<or> phase_of i s = TkWriting \<and> p = TkPublished"
      and res: "fst (fst ?r) = BrPublished \<longrightarrow> snd (fst ?r) = wt_ticket_id token" by blast
  have mv: "moves (phase_of i s) p (sent_of (id_of i s) s)" using p ph by (auto simp: moves_def)
  have "Claimer i \<notin> runtime_held s" using ph held_claimer by auto
  then have own: "runtime_held s \<inter> of_ticket i \<subseteq> m" using w by blast
  have pc: "p \<noteq> TkClaimed" using p by auto
  note st = move_sat_step [OF inv env md mv own, unfolded if_not_P [OF pc] Un_empty_right]
  have "describe i s \<in> tn_begun ?g"
    using begun_now(1) [OF inv mover(1) [OF inv mv]] moved_watch(1) [OF md mv] by simp
  then have b: "fst (fst ?r) = BrPublished \<longrightarrow> (\<exists>h. (i, snd (fst ?r), h, report) \<in> tn_begun (snd (?s, ?g)))"
    using res unfolding describe_def k by auto
  show "runtime_inv (?s, ?g) \<and> rr.guar m (s, g) (?s, ?g) \<and> rr.roles m s ?s = m - of_ticket i
      \<and> rr.env (m - of_ticket i) x (?s, ?g)
      \<and> (fst (fst ?r) = BrPublished \<longrightarrow> (\<exists>h. (i, snd (fst ?r), h, report) \<in> tn_begun (snd (?s, ?g))))"
    by (intro conjI st(1-4) b)
qed

section \<open>A new ticket\<close>

text \<open>The step that writes a new ticket under the next id.\<close>

definition renewed :: "interface \<Rightarrow> runtime \<Rightarrow> runtime \<Rightarrow> bool" where
  "renewed i s s' \<longleftrightarrow> phase_of i s = TkFree \<and> rt_next_public_ticket_id s \<noteq> 0
     \<and> id_of i s' = rt_next_public_ticket_id s \<and> phase_of i s' = TkWriting
     \<and> (\<forall>j. j \<noteq> i \<longrightarrow> ticket_of j s' = ticket_of j s)
     \<and> rt_next_public_ticket_id s' =
         (if rt_next_public_ticket_id s = - 1 then 0 else rt_next_public_ticket_id s + 1)
     \<and> rt_sent s' = rt_sent s \<and> rt_gate s' = rt_gate s \<and> rt_holders s' = rt_holders s
     \<and> rt_next_holder s' = rt_next_holder s"

lemma next_id:
  assumes "n \<noteq> (- 1 :: u64)"
  shows "n < n + 1" "k < n \<Longrightarrow> k < n + 1"
proof -
  have "unat n \<noteq> 2 ^ 64 - 1" using assms unfolding word_unat_eq_iff by (simp add: unsigned_minus_1_eq_mask mask_eq_exp_minus_1)
  moreover have "unat n < 2 ^ LENGTH(64)" by (rule unsigned_less)
  ultimately have "unat n + 1 < 2 ^ 64" by simp
  then have u: "unat (n + 1) = unat n + 1" by (simp add: unat_word_ariths)
  show "n < n + 1" "k < n \<Longrightarrow> k < n + 1" unfolding word_less_nat_alt u by simp_all
qed

lemma renewed_issued:
  assumes "renewed i s s'"
  shows "\<not> issued (rt_next_public_ticket_id s) s" "issued (rt_next_public_ticket_id s) s'" "issued k s \<Longrightarrow> issued k s'"
  using assms next_id by (auto simp: renewed_def issued_def)

lemma fresh_id:
  assumes inv: "runtime_inv (s, g)" and r: "\<not> issued n s"
  shows "n \<notin> begun_ids g" "n \<notin> tn_closed g" "n \<notin> tn_submitted g" "sent_of n s = []" "n \<noteq> 0 \<Longrightarrow> id_of j s \<noteq> n"
proof -
  have h: "history_ok s g" by (rule inv_parts(2) [OF inv])
  show b: "n \<notin> begun_ids g" using h r unfolding history_ok_def by blast
  then show "n \<notin> tn_closed g" "n \<notin> tn_submitted g" using h unfolding history_ok_def by blast+
  have "su_ticket e \<noteq> Some n" if "e \<in> set (rt_sent s)" for e
  proof
    assume n: "su_ticket e = Some n"
    then have "e \<in> set (ticket_entries s)" using that by (simp add: ticket_entries_def)
    then obtain c where "c \<in> tn_begun g" "describes e c" using h unfolding history_ok_def by blast
    then have "n \<in> begun_ids g" using n unfolding begun_ids_def describes_def by force
    then show False using b by simp
  qed
  then show "sent_of n s = []" unfolding sent_of_def by simp
  show "id_of j s \<noteq> n" if "n \<noteq> 0" using begun_now(2) [OF inv, of j] b that by metis
qed

lemma renewed_watch:
  assumes "renewed i s s'"
  shows "tn_begun (ticket_watch s s' g) = insert (describe i s') (tn_begun g)"
    "tn_closed (ticket_watch s s' g) = tn_closed g" "tn_submitted (ticket_watch s s' g) = tn_submitted g"
proof -
  have p: "phase_of i s = TkFree" "phase_of i s' = TkWriting" "j \<noteq> i \<Longrightarrow> phase_of j s' = phase_of j s" for j
    using assms by (simp_all add: renewed_def)
  have "phases \<inter> {TkWriting} = {} \<Longrightarrow> entered s s' phases = {}" for phases
  proof -
    assume ph: "phases \<inter> {TkWriting} = {}"
    have "\<not> (phase_of j s \<notin> phases \<and> phase_of j s' \<in> phases)" for j
      using p ph by (cases "j = i") auto
    then show "entered s s' phases = {}" by (simp add: entered_def)
  qed
  moreover have "entered s s' {TkWriting} = {i}"
  proof (rule set_eqI)
    fix j show "j \<in> entered s s' {TkWriting} \<longleftrightarrow> j \<in> {i}" using p by (cases "j = i") (auto simp: entered_def)
  qed
  ultimately show "tn_begun (ticket_watch s s' g) = insert (describe i s') (tn_begun g)"
    "tn_closed (ticket_watch s s' g) = tn_closed g" "tn_submitted (ticket_watch s s' g) = tn_submitted g"
    by (simp_all add: ticket_watch_def)
qed

lemma renewed_inv:
  assumes inv: "runtime_inv (s, g)" and rn: "renewed i s s'"
  shows "runtime_inv (s', ticket_watch s s' g)"
proof -
  let ?n = "rt_next_public_ticket_id s" and ?g = "ticket_watch s s' g"
  note w = renewed_watch [OF rn] and is' = renewed_issued [OF rn]
  note fr = fresh_id [OF inv is'(1)]
  have nz: "?n \<noteq> 0" and idi: "id_of i s' = ?n" and pi: "phase_of i s' = TkWriting" "phase_of i s = TkFree"
    and other: "\<And>j. j \<noteq> i \<Longrightarrow> ticket_of j s' = ticket_of j s"
    using rn by (simp_all add: renewed_def)
  have e: "sent_of n s' = sent_of n s" "ticket_entries s' = ticket_entries s" for n
    using rn by (simp_all add: renewed_def sent_of_def ticket_entries_def)
  have b: "begun_ids ?g = insert ?n (begun_ids g)" by (simp add: begun_ids_def w describe_def idi)
  have h: "history_ok s g" by (rule inv_parts(2) [OF inv])
  have tk: "ticket_ok s' ?g j" for j
  proof (cases "j = i")
    case True
    then show ?thesis using nz fr by (simp add: ticket_ok_def w e idi pi busy_phase_def)
  next
    case False
    then show ?thesis using inv_parts(1) [OF inv, of j] other [OF False]
      by (simp add: ticket_ok_def w e describe_def)
  qed
  have run: "running k s'" if "running k s" for k
  proof -
    from that obtain j where j: "id_of j s = k" "busy_phase (phase_of j s)" unfolding running_def by blast
    then have "j \<noteq> i" using pi(2) by (auto simp: busy_phase_def)
    then show ?thesis using j other [of j] unfolding running_def by metis
  qed
  have new: "running ?n s'" using idi pi(1) unfolding running_def busy_phase_def by blast
  have each: "issued k s' \<and> length (sent_of k s) \<le> 1 \<and> (k \<in> tn_closed g \<or> k \<in> tn_submitted g \<or> running k s')
      \<and> (k \<in> tn_closed g \<longrightarrow> (\<forall>e \<in> set (sent_of k s). \<not> su_accepted e))
      \<and> (k \<in> tn_submitted g \<longrightarrow> (\<exists>e \<in> set (sent_of k s). su_accepted e))" if "k \<in> insert ?n (begun_ids g)" for k
  proof (cases "k = ?n")
    case True
    then show ?thesis using is'(2) fr new by simp
  next
    case False
    then have "k \<in> begun_ids g" using that by blast
    then show ?thesis using h is'(3) [of k] run [of k] unfolding history_ok_def by blast
  qed
  have u: "\<forall>b \<in> tn_begun ?g. \<forall>c \<in> tn_begun ?g. fst (snd b) = fst (snd c) \<longrightarrow> b = c"
  proof -
    have nb: "fst (snd b) \<noteq> ?n" if "b \<in> tn_begun g" for b using fr(1) that unfolding begun_ids_def by force
    have d: "fst (snd (describe i s')) = ?n" by (simp add: describe_def idi)
    have hu: "\<forall>b \<in> tn_begun g. \<forall>c \<in> tn_begun g. fst (snd b) = fst (snd c) \<longrightarrow> b = c"
      using h unfolding history_ok_def by blast
    show ?thesis
    proof (intro ballI impI)
      fix b c assume bc: "b \<in> tn_begun ?g" "c \<in> tn_begun ?g" "fst (snd b) = fst (snd c)"
      then show "b = c" unfolding w using nb d hu by (metis insert_iff)
    qed
  qed
  have "tn_closed g \<union> tn_submitted g \<subseteq> insert ?n (begun_ids g)" using h unfolding history_ok_def by blast
  moreover have "\<forall>e \<in> set (ticket_entries s). \<exists>b \<in> tn_begun ?g. describes e b"
    using h unfolding history_ok_def w by blast
  ultimately have "history_ok s' ?g" using each u unfolding history_ok_def b e w(2,3) by blast
  moreover have "gate_ok s'"
    using inv_parts(3) [OF inv] rn by (simp add: renewed_def gate_ok_def gate_count_def gate_control_def)
  moreover have "id_of KeyboardIf s' = id_of MouseIf s' \<longrightarrow> id_of KeyboardIf s' = 0"
  proof -
    have m: "id_of j s' \<noteq> ?n" if "j \<noteq> i" for j unfolding other [OF that] by (rule fr(5) [OF nz])
    show ?thesis
    proof (cases i)
      case KeyboardIf
      then show ?thesis using m [of MouseIf] idi by (metis interface.distinct(1))
    next
      case MouseIf
      then show ?thesis using m [of KeyboardIf] idi by (metis interface.distinct(1))
    qed
  qed
  ultimately show ?thesis using tk unfolding runtime_inv_def fst_conv snd_conv by blast
qed

end
