(* ===== verification/TicketOwners.thy ===== *)
theory TicketOwners
  imports TicketMoves
begin

text \<open>
  The producers that begin a report of \<open>hid_runtime\<close> and the transport owners that hand it to its stack: each
  of their programs keeps every promise and gives its roles back.
\<close>

section \<open>Beginning a report\<close>

lemma renewed_held:
  assumes "renewed i s s'"
  shows "runtime_held s' = insert (Writer i) (runtime_held s)" "runtime_held s \<inter> of_ticket i = {}"
proof -
  have other: "\<And>j. j \<noteq> i \<Longrightarrow> ticket_of j s' = ticket_of j s" and p: "phase_of i s' = TkWriting" "phase_of i s = TkFree"
    and hs: "rt_holders s' = rt_holders s"
    using assms by (simp_all add: renewed_def)
  show "runtime_held s \<inter> of_ticket i = {}" using p by (auto simp: held_writer held_claimer)
  have w: "Writer j \<in> runtime_held s' \<longleftrightarrow> j = i \<or> Writer j \<in> runtime_held s" for j
    using other [of j] p by (cases "j = i") (auto simp: held_writer)
  have c: "Claimer j \<in> runtime_held s' \<longleftrightarrow> Claimer j \<in> runtime_held s" for j
    using other [of j] p by (cases "j = i") (auto simp: held_claimer)
  show "runtime_held s' = insert (Writer i) (runtime_held s)"
  proof (rule set_eqI)
    fix r show "r \<in> runtime_held s' \<longleftrightarrow> r \<in> insert (Writer i) (runtime_held s)"
      using w c hs by (cases r) (auto simp: held_admitted)
  qed
qed

lemma renewed_base: "renewed i s s' \<Longrightarrow> runtime_base (s, g) (s', ticket_watch s s' g)"
proof -
  assume rn: "renewed i s s'"
  then have "ticket_entries s' = ticket_entries s" "sent_of n s' = sent_of n s" for n
    by (simp_all add: renewed_def ticket_entries_def sent_of_def)
  then show ?thesis
    using renewed_issued(3) [OF rn] unfolding runtime_base_def by (auto simp: renewed_watch [OF rn])
qed

lemma renewed_keep:
  assumes "renewed i s s'" "r \<in> runtime_held s"
  shows "runtime_keep r (s, g) (s', g')"
proof (cases r)
  case (Admitted n)
  then show ?thesis using assms(1) by (simp add: renewed_def)
qed (use assms(1) assms(2) renewed_held(2) [OF assms(1)] in \<open>auto simp: renewed_def sent_of_def\<close>)

text \<open>What \<open>reserve_ticket\<close> did.\<close>

lemma locked_alone:
  fixes p :: "('s, 'a) prog"
  shows "locked p = atomic (alone (locked p))"
proof -
  have "alone (atomic f) = f" for f :: "'s \<Rightarrow> 'a \<times> 's" by (rule ext) simp
  then show ?thesis by (simp add: locked_def)
qed

lemma reserve_cases:
  fixes s :: runtime and i :: interface
  assumes "\<And>n t. tk_state (fill n t) = tk_state t \<and> tk_ticket_id (fill n t) = n \<and> tk_report (fill n t) = report"
  defines "r \<equiv> alone (reserve_ticket i fill) s"
  shows "(\<exists>b. fst r = Inl b \<and> b \<noteq> BrPublished) \<and> tame s (snd r)
    \<or> fst r = Inr (rt_next_public_ticket_id s) \<and> renewed i s (snd r)
      \<and> tk_report (ticket_of i (snd r)) = report"
proof -
  have undo: "phase_of i s = TkFree \<Longrightarrow> tame s (put_ticket i (\<lambda>t. t\<lparr>tk_state := TkFree\<rparr>) (put_ticket i (\<lambda>t. t\<lparr>tk_state := TkWriting\<rparr>) s))"
    by (auto simp: tame_def put_ticket_def slides_def ticket_core_def ticket_entries_def)
  show ?thesis
  proof (cases "phase_of i s = TkFree")
    case False
    then show ?thesis
      by (simp add: r_def reserve_ticket_def locked_def alone_steps tame_refl)
  next
    case free: True
    show ?thesis
    proof (cases "rt_next_public_ticket_id s = 0")
      case True
      then show ?thesis using free undo [OF free]
        by (simp add: r_def reserve_ticket_def allocate_public_ticket_id_def locked_def alone_steps alone_bind put_ticket_def)
    next
      case False
      then show ?thesis using free assms(1)
        by (simp add: r_def reserve_ticket_def allocate_public_ticket_id_def locked_def alone_steps alone_bind
            put_ticket_def renewed_def)
    qed
  qed
qed

lemma reserve_sat:
  assumes m: "m \<subseteq> runtime_held (fst x)" and fill: "\<And>n t. tk_state (fill n t) = tk_state t \<and> tk_ticket_id (fill n t) = n \<and> tk_report (fill n t) = report"
  shows "rr.sat (reserve_ticket i fill) m x (\<lambda>r m' y. case r of
      Inl b \<Rightarrow> b \<noteq> BrPublished \<and> m' = m \<and> rr.env m x y
    | Inr n \<Rightarrow> m' = insert (Writer i) m \<and> m \<inter> of_ticket i = {} \<and> rr.env m x y \<and> m' \<subseteq> runtime_held (fst y)
        \<and> id_of i (fst y) = n \<and> tk_report (ticket_of i (fst y)) = report)"
proof -
  let ?f = "alone (reserve_ticket i fill)"
  have "rr.sat (atomic ?f) m x (\<lambda>r m' y. case r of
      Inl b \<Rightarrow> b \<noteq> BrPublished \<and> m' = m \<and> rr.env m x y
    | Inr n \<Rightarrow> m' = insert (Writer i) m \<and> m \<inter> of_ticket i = {} \<and> rr.env m x y \<and> m' \<subseteq> runtime_held (fst y)
        \<and> id_of i (fst y) = n \<and> tk_report (ticket_of i (fst y)) = report)" (is "rr.sat _ _ _ ?post")
  proof (rule rr.sat_atomicI)
    fix s g
    assume inv: "runtime_inv (s, g)" and env: "rr.env m x (s, g)"
    have ms: "m \<subseteq> runtime_held s" using env_held [OF env] by simp
    let ?s = "snd (?f s)" and ?g = "ticket_watch s (snd (?f s)) g"
    from reserve_cases [OF fill, of i s]
    show "runtime_inv (?s, ?g) \<and> rr.guar m (s, g) (?s, ?g) \<and> ?post (fst (?f s)) (rr.roles m s ?s) (?s, ?g)"
    proof (elim disjE conjE exE)
      fix b assume b: "fst (?f s) = Inl b" and nb: "b \<noteq> BrPublished" and t: "tame s ?s"
      note st = tame_step [OF inv t ms]
      show ?thesis unfolding b sum.case by (intro conjI tame_inv [OF inv t] nb st rr.env_trans [OF env])
    next
      assume n: "fst (?f s) = Inr (rt_next_public_ticket_id s)" and rn: "renewed i s ?s"
        and rp: "tk_report (ticket_of i ?s) = report"
      note h = renewed_held [OF rn]
      have keep: "\<forall>r \<in> runtime_held s. runtime_keep r (s, g) (?s, ?g)" using renewed_keep [OF rn] by blast
      have g: "rr.guar m (s, g) (?s, ?g)" "rr.env m (s, g) (?s, ?g)"
        using renewed_base [OF rn] keep ms unfolding rr.guar_def rr.env_def fst_conv h by blast+
      have r: "rr.roles m s ?s = insert (Writer i) m" "m \<inter> of_ticket i = {}" "insert (Writer i) m \<subseteq> runtime_held ?s"
        using ms h(2) unfolding rr.roles_def h(1) by blast+
      have "id_of i ?s = rt_next_public_ticket_id s" using rn by (simp add: renewed_def)
      note idr = this
      show ?thesis
        unfolding n sum.case fst_conv r(1)
        by (intro conjI renewed_inv [OF inv rn] g refl r(2,3) idr rp rr.env_trans [OF env g(2)])
    qed
  qed
  moreover have "atomic ?f = reserve_ticket i fill" unfolding reserve_ticket_def by (rule locked_alone [symmetric])
  ultimately show ?thesis by simp
qed

text \<open>Rules for a program with a part that keeps every promise in front.\<close>

lemma sat_easy:
  assumes "easy p" "rr.env m x y" "\<And>a z. rr.env m x z \<Longrightarrow> rr.sat (k a) m z post"
  shows "rr.sat (pbind p k) m y post"
  using assms(3) rr.env_trans [OF assms(2)]
  by (intro sat_after [OF easy_decent [OF assms(1)] env_held [OF assms(2)]]) blast

lemma sat_easy_pif:
  assumes "easy c" "rr.env m x y" "\<And>z. rr.env m x z \<Longrightarrow> rr.sat p m z post" "\<And>z. rr.env m x z \<Longrightarrow> rr.sat q m z post"
  shows "rr.sat (pif c p q) m y post"
  unfolding pif_def using assms(3,4) by (intro sat_easy [OF assms(1,2)]) simp

lemma sat_easy_then:
  assumes "easy p" "rr.env m x y" "\<And>z. rr.env m x z \<Longrightarrow> rr.sat q m z post"
  shows "rr.sat (pthen p q) m y post"
  unfolding pthen_def using assms(3) by (intro sat_easy [OF assms(1,2)])

lemma sat_easy_map:
  assumes "rr.sat p m y (\<lambda>a. post (f a))"
  shows "rr.sat (pmap f p) m y post"
  using assms by (simp add: pmap_def rr.sat_bind)

lemma sat_if:
  assumes "b \<Longrightarrow> rr.sat p m y post" "\<not> b \<Longrightarrow> rr.sat q m y post"
  shows "rr.sat (if b then p else q) m y post"
  using assms by simp

lemma sat_ret: "post a m y \<Longrightarrow> rr.sat (Ret a) m y post"
  by simp

text \<open>From the memory where the program began.\<close>

lemma sat_from:
  assumes "rr.env m x y" "n \<subseteq> m" "rr.sat p m y (\<lambda>a m' z. P a m' \<and> rr.env n y z \<and> Q a z)"
  shows "rr.sat p m y (\<lambda>a m' z. P a m' \<and> rr.env n x z \<and> Q a z)"
  using rr.env_trans [OF env_less [OF assms(1,2)]] by (intro rr.sat_mono [OF assms(3)]) blast

lemma writer_keeps:
  assumes "rr.env m x y" "Writer i \<in> m"
  shows "id_of i (fst y) = id_of i (fst x)" "tk_report (ticket_of i (fst y)) = tk_report (ticket_of i (fst x))"
proof -
  have "runtime_keep (Writer i) x y" using assms unfolding rr.env_def by blast
  then have "ticket_payload (ticket_of i (fst y)) = ticket_payload (ticket_of i (fst x))" by simp
  from payload_says [OF this]
  show "id_of i (fst y) = id_of i (fst x)" "tk_report (ticket_of i (fst y)) = tk_report (ticket_of i (fst x))" .
qed

definition published :: "interface \<Rightarrow> u8 list \<Rightarrow> begin_result \<times> u64 \<Rightarrow> runtime \<times> ticket_notes \<Rightarrow> bool" where
  "published i report r y \<longleftrightarrow> (fst r = BrPublished \<longrightarrow> (\<exists>h. (i, snd r, h, report) \<in> tn_begun (snd y)))"

lemma finish_sat:
  assumes w: "Writer i \<in> m" and m: "m \<subseteq> runtime_held (fst x)" and n: "id_of i (fst x) = wt_ticket_id token"
    and rep: "tk_report (ticket_of i (fst x)) = report"
  shows "rr.sat (finish_begin i token sq) m x
    (\<lambda>r m' y. m' = m - of_ticket i \<and> rr.env (m - of_ticket i) x y \<and> published i report r y)"
proof -
  have last: "rr.sat (publish_ticket i t c st f) m y
      (\<lambda>r m' z. m' = m - of_ticket i \<and> rr.env (m - of_ticket i) x z \<and> published i report r z)"
    if e: "rr.env m x y" and t: "wt_ticket_id t = wt_ticket_id token" for t c st f y
  proof (rule sat_from [OF e])
    show "m - of_ticket i \<subseteq> m" by blast
    show "rr.sat (publish_ticket i t c st f) m y
      (\<lambda>r m' z. m' = m - of_ticket i \<and> rr.env (m - of_ticket i) y z \<and> published i report r z)"
      unfolding published_def using writer_keeps [OF e w] n t rep by (intro publish_sat w env_held [OF e]) simp_all
  qed
  show ?thesis
    unfolding finish_begin_def Let_def
    by (rule sat_easy, (intro easy_rules)[1], rule rr.env_refl [OF m])
      (rule sat_easy, (intro easy_rules)[1], assumption,
        (rule sat_easy, (intro easy_rules)[1], assumption)+, rule last, assumption, simp)
qed

lemma fill_keeps: "tk_state (fill_ticket token report n t) = tk_state t \<and> tk_ticket_id (fill_ticket token report n t) = n
    \<and> tk_report (fill_ticket token report n t) = report"
  by (simp add: fill_ticket_def)

lemma write_sat:
  assumes m: "m \<subseteq> runtime_held (fst x)"
  shows "rr.sat (write_ticket i report sq owner usb rt ble) m x
    (\<lambda>r m' y. m' = m \<and> rr.env m x y \<and> published i report r y)"
proof -
  have last: "rr.sat (pbind (reserve_ticket i (fill_ticket t report)) (\<lambda>r. case r of
        Inl refused \<Rightarrow> Ret (refused, 0) | Inr n \<Rightarrow> finish_begin i (t\<lparr>wt_ticket_id := n\<rparr>) sq)) m y
      (\<lambda>r m' z. m' = m \<and> rr.env m x z \<and> published i report r z)"
    if e: "rr.env m x y" for t y
    unfolding rr.sat_bind
  proof (rule rr.sat_mono [OF reserve_sat [OF env_held [OF e] fill_keeps]])
    fix r m' z
    assume r: "case r of Inl b \<Rightarrow> b \<noteq> BrPublished \<and> m' = m \<and> rr.env m y z
      | Inr n \<Rightarrow> m' = insert (Writer i) m \<and> m \<inter> of_ticket i = {} \<and> rr.env m y z \<and> m' \<subseteq> runtime_held (fst z)
          \<and> id_of i (fst z) = n \<and> tk_report (ticket_of i (fst z)) = report"
    show "rr.sat (case r of Inl refused \<Rightarrow> Ret (refused, 0) | Inr n \<Rightarrow> finish_begin i (t\<lparr>wt_ticket_id := n\<rparr>) sq) m' z
        (\<lambda>r m' z. m' = m \<and> rr.env m x z \<and> published i report r z)"
    proof (cases r)
      case (Inl b)
      then show ?thesis using r rr.env_trans [OF e] by (simp add: published_def)
    next
      case (Inr n)
      then have m': "m' = insert (Writer i) m" "m' \<subseteq> runtime_held (fst z)" "id_of i (fst z) = n" "rr.env m y z" "tk_report (ticket_of i (fst z)) = report"
        and apart: "m \<inter> of_ticket i = {}" using r by auto
      have m: "m' - of_ticket i = m" using m'(1) apart by blast
      have "Writer i \<in> m'" using m'(1) by blast
      then have f: "rr.sat (finish_begin i (t\<lparr>wt_ticket_id := n\<rparr>) sq) m' z
          (\<lambda>r m' y. m' = m \<and> rr.env m z y \<and> published i report r y)"
        using finish_sat [of i m' z "t\<lparr>wt_ticket_id := n\<rparr>" report sq] m'(2,3,5) unfolding m by simp
      show ?thesis
        unfolding Inr sum.case
        by (rule rr.sat_mono [OF f]) (use rr.env_trans [OF rr.env_trans [OF e m'(4)]] in blast)
    qed
  qed
  show ?thesis
    unfolding write_ticket_def Let_def
    by (rule sat_easy, (intro easy_rules)[1], rule rr.env_refl [OF m])
      ((rule sat_easy, (intro easy_rules)[1], assumption)+, rule last, assumption)
qed

lemma published_stays: "published i report r y \<Longrightarrow> runtime_base y z \<Longrightarrow> published i report r z"
  unfolding published_def runtime_base_def by blast

lemma begin_sat:
  assumes m: "m \<subseteq> runtime_held (fst x)" and already: "easy already"
  shows "rr.sat (begin_report i report already sq owner) m x
    (\<lambda>r m' y. m' = m \<and> rr.env m x y \<and> published i report r y)"
proof -
  define post where "post m' y r m'' z \<longleftrightarrow> m'' = m' \<and> rr.env m' y z \<and> published i report r z" for m' y r m'' z
  have refuse: "rr.sat (Ret (b, 0)) m' z (post m' y)" if "rr.env m' y z" "b \<noteq> BrPublished" for m' y b z
    using that by (simp add: published_def post_def)
  have last: "rr.sat (write_ticket i report sq owner usb rt ble) m' z (post m' y)" if e: "rr.env m' y z"
    for m' y usb rt ble z
    unfolding post_def
    by (rule rr.sat_mono [OF write_sat [OF env_held [OF e]]]) (use rr.env_trans [OF e] in blast)
  have reap: "rr.sat (pif (pnot (reap_ticket i)) p q) m' z (post m' y)"
    if e: "rr.env m' y z" and p: "\<And>z. rr.env m' y z \<Longrightarrow> rr.sat p m' z (post m' y)"
      and q: "\<And>z. rr.env m' y z \<Longrightarrow> rr.sat q m' z (post m' y)" for m' y p q z
  proof -
    have "decent (pnot (reap_ticket i))"
      unfolding pnot_def pmap_def by (intro decent_bind freeing_decent decent_ret)
    then show ?thesis
      unfolding pif_def using p q rr.env_trans [OF e] by (intro sat_after [OF _ env_held [OF e]]) (simp_all split: if_splits)
  qed
  show ?thesis
    unfolding begin_report_def
  proof (rule scoped_sat [OF m], goal_cases)
    case (1 m' y)
    show ?case
      unfolding post_def [symmetric, abs_def]
      by (rule sat_easy_pif, (intro easy_rules)[1], rule rr.env_refl [OF 1(2)])
        ((rule reap refuse last sat_easy_pif sat_easy sat_if | assumption | (intro easy_rules already; fail) | (simp; fail))+)
  next
    case (2 a y z)
    then show ?case by (rule published_stays)
  qed (simp add: published_def)
qed

section \<open>Handing a report to its stack\<close>

text \<open>A thread knows of the ticket it claimed what it says and what was handed over for it.\<close>

definition claimed :: "interface \<Rightarrow> report_ticket \<Rightarrow> submission list \<Rightarrow> runtime \<times> ticket_notes \<Rightarrow> bool" where
  "claimed i t es y \<longleftrightarrow> ticket_core (ticket_of i (fst y)) = ticket_core (t\<lparr>tk_state := TkClaimed\<rparr>)
     \<and> sent_of (tk_ticket_id t) (fst y) = es"

lemma core_facts:
  assumes "ticket_core u = ticket_core (t\<lparr>tk_state := TkClaimed\<rparr>)"
  shows "tk_ticket_id u = tk_ticket_id t" "tk_transport u = tk_transport t" "tk_report u = tk_report t"
    "tk_state u = TkClaimed" "ticket_token i u = ticket_token i t"
  using assms by (cases u; cases t; simp add: ticket_core_def ticket_token_def)+

lemma claimed_env:
  assumes "claimed i t es x" "rr.env m x y" "Claimer i \<in> m"
  shows "claimed i t es y"
proof -
  have k: "runtime_keep (Claimer i) x y" using assms(2,3) unfolding rr.env_def by blast
  have "id_of i (fst x) = tk_ticket_id t"
    using assms(1) core_facts(1) unfolding claimed_def by blast
  then show ?thesis using k assms(1) core_facts(1) unfolding claimed_def runtime_keep.simps by metis
qed

text \<open>The terminal move.\<close>

definition settled :: "ticket_state \<Rightarrow> u64 \<Rightarrow> runtime \<times> ticket_notes \<Rightarrow> bool" where
  "settled p n y \<longleftrightarrow> (p = TkSubmitted \<longrightarrow> n \<in> tn_submitted (snd y))"

lemma terminalize_sat:
  assumes w: "Claimer i \<in> m" and m: "m \<subseteq> runtime_held (fst x)" and cl: "claimed i t es x"
    and mine: "\<And>u. ticket_core u = ticket_core (t\<lparr>tk_state := TkClaimed\<rparr>) \<Longrightarrow> matches u"
    and p: "p = TkSubmitted \<and> (\<exists>e \<in> set es. su_accepted e)
      \<or> (p = TkCanceled \<or> p = TkNotReady) \<and> (\<forall>e \<in> set es. \<not> su_accepted e)"
  shows "rr.sat (terminalize i matches oc p) m x
    (\<lambda>r m' y. m' = m - of_ticket i \<and> rr.env (m - of_ticket i) x y \<and> r \<and> settled p (tk_ticket_id t) y)"
  unfolding terminalize_def locked_def
proof (rule rr.sat_atomicI)
  fix s g
  assume inv: "runtime_inv (s, g)" and env: "rr.env m x (s, g)"
  have c: "claimed i t es (s, g)" by (rule claimed_env [OF cl env w])
  then have core: "ticket_core (ticket_of i s) = ticket_core (t\<lparr>tk_state := TkClaimed\<rparr>)"
    and es: "sent_of (id_of i s) s = es" using core_facts(1) unfolding claimed_def by auto
  let ?u = "\<lambda>t. t\<lparr>tk_outcome := oc, tk_state := p\<rparr>"
  let ?f = "alone (pbind (load_ticket i id) (\<lambda>t.
       if \<not> matches t \<or> tk_state t \<noteq> TkClaimed then Ret False
       else pthen (store_ticket i ?u) (Ret True)))"
  have f: "?f s = (True, put_ticket i ?u s)"
    using mine [OF core] core_facts(4) [OF core] by (simp add: alone_bind alone_steps)
  have md: "moved i p s (put_ticket i ?u s)" by (rule moved_same [OF moving_updates(2)])
  have mv: "moves (phase_of i s) p (sent_of (id_of i s) s)" using p core_facts(4) [OF core] es by (auto simp: moves_def)
  have "Writer i \<notin> runtime_held s" using core_facts(4) [OF core] held_writer by auto
  then have own: "runtime_held s \<inter> of_ticket i \<subseteq> m" using w by blast
  have pc: "p \<noteq> TkClaimed" using p by auto
  note st = move_sat_step [OF inv env md mv own, unfolded if_not_P [OF pc] Un_empty_right]
  have "settled p (tk_ticket_id t) (put_ticket i ?u s, ticket_watch s (put_ticket i ?u s) g)"
    using core_facts(1) [OF core] unfolding settled_def snd_conv moved_watch(3) [OF md mv] by simp
  then show "runtime_inv (snd (?f s), ticket_watch s (snd (?f s)) g)
      \<and> rr.guar m (s, g) (snd (?f s), ticket_watch s (snd (?f s)) g)
      \<and> rr.roles m s (snd (?f s)) = m - of_ticket i
      \<and> rr.env (m - of_ticket i) x (snd (?f s), ticket_watch s (snd (?f s)) g)
      \<and> fst (?f s) \<and> settled p (tk_ticket_id t) (snd (?f s), ticket_watch s (snd (?f s)) g)"
    unfolding f fst_conv snd_conv by (intro conjI st(1-4) TrueI)
qed

lemma claim_step:
  assumes inv: "runtime_inv (s, g)" and env: "rr.env m x (s, g)" and m: "m \<subseteq> runtime_held s"
    and md: "moved i TkClaimed s s'" and ph: "phase_of i s = TkPublished"
  shows "runtime_inv (s', ticket_watch s s' g)" "rr.guar m (s, g) (s', ticket_watch s s' g)"
    "rr.roles m s s' = insert (Claimer i) m" "rr.env m x (s', ticket_watch s s' g)"
    "insert (Claimer i) m \<subseteq> runtime_held s'" "m \<inter> of_ticket i = {}" "sent_of (id_of i s) s' = []"
proof -
  have mv: "moves (phase_of i s) TkClaimed (sent_of (id_of i s) s)" by (simp add: moves_def ph)
  have own: "runtime_held s \<inter> of_ticket i = {}" using ph by (auto simp: held_writer held_claimer)
  then show apart: "m \<inter> of_ticket i = {}" using m by blast
  have e: "m - of_ticket i = m" using apart by blast
  have own': "runtime_held s \<inter> of_ticket i \<subseteq> m" using own by blast
  note st = move_sat_step [OF inv env md mv own', unfolded e]
  show "runtime_inv (s', ticket_watch s s' g)" "rr.guar m (s, g) (s', ticket_watch s s' g)"
    "rr.env m x (s', ticket_watch s s' g)" by (rule st)+
  show r: "rr.roles m s s' = insert (Claimer i) m" using st(3) by simp
  show "insert (Claimer i) m \<subseteq> runtime_held s'" using st(5) unfolding r .
  have "sent_of (id_of i s) s = []" using mover(5) [OF inv mv] by (simp add: ph busy_phase_def)
  then show "sent_of (id_of i s) s' = []" by (simp add: moved_facts(4) [OF md])
qed

text \<open>The submission itself.\<close>

lemma sent_append: "sent_of n (s\<lparr>rt_sent := rt_sent s @ [su]\<rparr>) = sent_of n s @ (if su_ticket su = Some n then [su] else [])"
  by (simp add: sent_of_def)

lemma handed_inv:
  assumes inv: "runtime_inv (s, g)" and ph: "phase_of i s = TkClaimed" and es: "sent_of (id_of i s) s = []"
    and su: "su_ticket su = Some (id_of i s)" "describes su (describe i s)"
  shows "runtime_inv (s\<lparr>rt_sent := rt_sent s @ [su]\<rparr>, g)" "\<And>j. j \<noteq> i \<Longrightarrow> phase_of j s = TkClaimed \<Longrightarrow> id_of j s \<noteq> id_of i s"
    "id_of i s \<notin> tn_closed g \<union> tn_submitted g"
proof -
  let ?s = "s\<lparr>rt_sent := rt_sent s @ [su]\<rparr>" and ?n = "id_of i s"
  have ok: "ticket_ok s g i" and h: "history_ok s g" by (rule inv_parts [OF inv])+
  have nz: "?n \<noteq> 0" using ok ph unfolding ticket_ok_def by force
  have b: "describe i s \<in> tn_begun g" "?n \<in> begun_ids g" by (rule begun_now [OF inv nz])+
  have apart: "id_of j s \<noteq> ?n" if "j \<noteq> i" for j using ids_apart [OF inv, of i j] nz that by metis
  then show "\<And>j. j \<noteq> i \<Longrightarrow> phase_of j s = TkClaimed \<Longrightarrow> id_of j s \<noteq> ?n" by blast
  have busy: "busy_phase (phase_of i s)" by (simp add: ph busy_phase_def)
  then have open_id: "?n \<notin> tn_closed g" "?n \<notin> tn_submitted g" using ok unfolding ticket_ok_def by blast+
  then show "?n \<notin> tn_closed g \<union> tn_submitted g" by blast
  have sent: "sent_of k ?s = sent_of k s" if "k \<noteq> ?n" for k using that su(1) by (simp add: sent_append)
  have entries: "set (ticket_entries ?s) = insert su (set (ticket_entries s))" using su(1) by (simp add: ticket_entries_def)
  have tk: "ticket_ok ?s g j" for j
  proof (cases "j = i")
    case True
    then show ?thesis using ok ph by (simp add: ticket_ok_def describe_def busy_phase_def)
  next
    case False
    then show ?thesis using inv_parts(1) [OF inv, of j] sent [OF apart [OF False]]
      by (simp add: ticket_ok_def describe_def)
  qed
  have each: "issued k ?s \<and> length (sent_of k ?s) \<le> 1 \<and> (k \<in> tn_closed g \<or> k \<in> tn_submitted g \<or> running k ?s)
      \<and> (k \<in> tn_closed g \<longrightarrow> (\<forall>e \<in> set (sent_of k ?s). \<not> su_accepted e))
      \<and> (k \<in> tn_submitted g \<longrightarrow> (\<exists>e \<in> set (sent_of k ?s). su_accepted e))" if k: "k \<in> begun_ids g" for k
  proof -
    have o: "issued k s \<and> length (sent_of k s) \<le> 1 \<and> (k \<in> tn_closed g \<or> k \<in> tn_submitted g \<or> running k s)
      \<and> (k \<in> tn_closed g \<longrightarrow> (\<forall>e \<in> set (sent_of k s). \<not> su_accepted e))
      \<and> (k \<in> tn_submitted g \<longrightarrow> (\<exists>e \<in> set (sent_of k s). su_accepted e))"
      using h k unfolding history_ok_def by blast
    have same: "issued k ?s = issued k s" "running k ?s = running k s" by (simp_all add: issued_def running_def)
    show ?thesis
    proof (cases "k = ?n")
      case True
      then show ?thesis using o open_id es unfolding same sent_append by simp
    next
      case False
      show ?thesis using o unfolding same sent [OF False] by blast
    qed
  qed
  have "\<forall>e \<in> set (ticket_entries ?s). \<exists>b \<in> tn_begun g. describes e b"
    using h b(1) su(2) unfolding history_ok_def entries by blast
  then have "history_ok ?s g" using h each unfolding history_ok_def by blast
  moreover have "gate_ok ?s" using inv_parts(3) [OF inv] by (simp add: gate_ok_def gate_count_def gate_control_def)
  moreover have "id_of KeyboardIf ?s = id_of MouseIf ?s \<longrightarrow> id_of KeyboardIf ?s = 0"
    using ids_apart [OF inv, of KeyboardIf MouseIf] by simp
  ultimately show "runtime_inv (?s, g)" using tk unfolding runtime_inv_def fst_conv snd_conv by blast
qed

lemma hand_sat:
  assumes w: "Claimer i \<in> m" and m: "m \<subseteq> runtime_held (fst x)" and cl: "claimed i t [] x"
    and su: "su_ticket su = Some (tk_ticket_id t)" "su_interface su = i" "su_transport su = tk_transport t"
      "su_report su = tk_report t"
  shows "rr.sat (hand_over su) m x
    (\<lambda>u m' y. m' = m \<and> rr.env (m - of_ticket i) x y \<and> m \<subseteq> runtime_held (fst y) \<and> claimed i t [su] y)"
  unfolding hand_over_def store_def
proof (rule rr.sat_atomicI)
  fix s g
  assume inv: "runtime_inv (s, g)" and env: "rr.env m x (s, g)"
  have ms: "m \<subseteq> runtime_held s" using env_held [OF env] by simp
  have c: "claimed i t [] (s, g)" by (rule claimed_env [OF cl env w])
  then have core: "ticket_core (ticket_of i s) = ticket_core (t\<lparr>tk_state := TkClaimed\<rparr>)" unfolding claimed_def by simp
  note f = core_facts [OF core]
  have es: "sent_of (id_of i s) s = []" using c f(1) unfolding claimed_def by simp
  have d: "describes su (describe i s)" "su_ticket su = Some (id_of i s)"
    using su f by (simp_all add: describes_def describe_def)
  let ?s = "s\<lparr>rt_sent := rt_sent s @ [su]\<rparr>"
  note hi = handed_inv [OF inv f(4) es d(2,1)]
  have idle: "ticket_watch s ?s g = g"
  proof -
    have "entered s ?s phases = {}" for phases by (simp add: entered_def)
    then show ?thesis by (cases g) (simp add: ticket_watch_def)
  qed
  have held: "runtime_held ?s = runtime_held s" by (simp add: runtime_held_def)
  have "su_ticket su \<noteq> Some n" if "n \<in> tn_closed g \<union> tn_submitted g" for n
    using hi(3) that d(2) by auto
  then have base: "runtime_base (s, g) (?s, g)"
    by (auto simp: runtime_base_def issued_def ticket_entries_def sent_append)
  have keep: "runtime_keep r (s, g) (?s, g)" if "r \<in> runtime_held s" "r \<notin> of_ticket i" for r
  proof (cases r)
    case (Claimer j)
    then have "id_of j s \<noteq> id_of i s" using hi(2) [of j] that held_claimer by blast
    then show ?thesis using d(2) by (simp add: Claimer sent_append)
  qed simp_all
  have "Writer i \<notin> runtime_held s" using f(4) held_writer by auto
  then have g: "rr.guar m (s, g) (?s, g)" "rr.env (m - of_ticket i) (s, g) (?s, g)"
    using base keep ms w unfolding rr.guar_def rr.env_def fst_conv held by blast+
  have r: "rr.roles m s ?s = m" using ms unfolding rr.roles_def held by blast
  have "claimed i t [su] (?s, g)" using c su(1) by (simp add: claimed_def sent_append)
  then show "runtime_inv (snd ((), ?s), ticket_watch s (snd ((), ?s)) g)
      \<and> rr.guar m (s, g) (snd ((), ?s), ticket_watch s (snd ((), ?s)) g)
      \<and> rr.roles m s (snd ((), ?s)) = m
      \<and> rr.env (m - of_ticket i) x (snd ((), ?s), ticket_watch s (snd ((), ?s)) g)
      \<and> m \<subseteq> runtime_held (fst (snd ((), ?s), ticket_watch s (snd ((), ?s)) g))
      \<and> claimed i t [su] (snd ((), ?s), ticket_watch s (snd ((), ?s)) g)"
    unfolding snd_conv idle fst_conv held
    by (intro conjI hi(1) g(1) r ms rr.env_trans [OF env_less [OF env] g(2)]) blast+
qed

text \<open>The owner's first step.\<close>

definition claim_post :: "interface \<Rightarrow> runtime_role set \<Rightarrow> runtime \<times> ticket_notes \<Rightarrow> report_ticket \<Rightarrow>
    runtime_role set \<Rightarrow> runtime \<times> ticket_notes \<Rightarrow> bool" where
  "claim_post i m x t m' y \<longleftrightarrow> m' = insert (Claimer i) m \<and> m \<inter> of_ticket i = {} \<and> rr.env m x y
     \<and> m' \<subseteq> runtime_held (fst y) \<and> claimed i t [] y"

lemma claim_usb_sat:
  assumes m: "m \<subseteq> runtime_held (fst x)"
  shows "rr.sat (claim_usb_ticket i) m x (\<lambda>r m' y. case r of
      None \<Rightarrow> m' = m \<and> rr.env m x y
    | Some t \<Rightarrow> tk_transport t = TransportUsb \<and> claim_post i m x t m' y)" (is "rr.sat _ _ _ ?post")
  unfolding claim_usb_ticket_def locked_def
proof (rule rr.sat_atomicI)
  fix s g
  assume inv: "runtime_inv (s, g)" and env: "rr.env m x (s, g)"
  have ms: "m \<subseteq> runtime_held s" using env_held [OF env] by simp
  let ?u = "\<lambda>t. t\<lparr>tk_state := TkClaimed\<rparr>" and ?t = "ticket_of i s"
  let ?f = "alone (pbind (load_ticket i id) (\<lambda>t. if tk_state t \<noteq> TkPublished \<or> tk_transport t \<noteq> TransportUsb then Ret None
       else pthen (store_ticket i ?u) (Ret (Some t))))"
  show "runtime_inv (snd (?f s), ticket_watch s (snd (?f s)) g)
      \<and> rr.guar m (s, g) (snd (?f s), ticket_watch s (snd (?f s)) g)
      \<and> ?post (fst (?f s)) (rr.roles m s (snd (?f s))) (snd (?f s), ticket_watch s (snd (?f s)) g)"
  proof (cases "phase_of i s = TkPublished \<and> tk_transport ?t = TransportUsb")
    case False
    then have f: "?f s = (None, s)" by (simp add: alone_bind alone_steps)
    show ?thesis
      unfolding f fst_conv snd_conv rr.watch_idle option.case
      by (intro conjI inv rr.guar_idle rr.roles_idle ms env)
  next
    case True
    then have f: "?f s = (Some ?t, put_ticket i ?u s)" by (simp add: alone_bind alone_steps)
    note st = claim_step [OF inv env ms moved_same [OF moving_updates(1)] conjunct1 [OF True]]
    have "claimed i ?t [] (put_ticket i ?u s, ticket_watch s (put_ticket i ?u s) g)"
      using st(7) by (simp add: claimed_def put_ticket_def)
    then show ?thesis
      unfolding f fst_conv snd_conv option.case claim_post_def st(3)
      by (intro conjI st refl conjunct2 [OF True])
  qed
qed

lemma claim_ble_sat:
  assumes m: "m \<subseteq> runtime_held (fst x)"
  shows "rr.sat (claim_ble_ticket i token) m x (\<lambda>r m' y. case r of
      None \<Rightarrow> m' = m \<and> rr.env m x y
    | Some payload \<Rightarrow> \<exists>t. same_work_token (ticket_token i t) token \<and> payload = tk_report t \<and> claim_post i m x t m' y)"
    (is "rr.sat _ _ _ ?post")
  unfolding claim_ble_ticket_def locked_def
proof (rule rr.sat_atomicI)
  fix s g
  assume inv: "runtime_inv (s, g)" and env: "rr.env m x (s, g)"
  have ms: "m \<subseteq> runtime_held s" using env_held [OF env] by simp
  let ?u = "\<lambda>t. t\<lparr>tk_state := TkClaimed, tk_ble_action_pending := False\<rparr>" and ?t = "ticket_of i s"
  let ?v = "\<lambda>t. t\<lparr>tk_ble_action_pending := False\<rparr>"
  let ?f = "alone (pbind (load_ticket i id) (\<lambda>t.
       if \<not> same_work_token (ticket_token i t) token then Ret None
       else if \<not> tk_ble_action_pending t then Ret None
       else if tk_state t = TkCanceled then pthen (store_ticket i ?v) (Ret None)
       else if tk_state t \<noteq> TkPublished then Ret None
       else pthen (store_ticket i ?u) (Ret (Some (tk_report t)))))"
  have "fst (?f s) = None \<and> tame s (snd (?f s))
    \<or> same_work_token (ticket_token i ?t) token \<and> phase_of i s = TkPublished
      \<and> ?f s = (Some (tk_report ?t), put_ticket i ?u s)"
    using tame_mark [of s i False] tame_refl [of s]
    by (cases "same_work_token (ticket_token i ?t) token"; cases "tk_ble_action_pending ?t"; cases "phase_of i s")
      (simp_all add: alone_bind alone_steps)
  then show "runtime_inv (snd (?f s), ticket_watch s (snd (?f s)) g)
      \<and> rr.guar m (s, g) (snd (?f s), ticket_watch s (snd (?f s)) g)
      \<and> ?post (fst (?f s)) (rr.roles m s (snd (?f s))) (snd (?f s), ticket_watch s (snd (?f s)) g)"
  proof (elim disjE conjE)
    assume n: "fst (?f s) = None" and t: "tame s (snd (?f s))"
    note st = tame_step [OF inv t ms]
    show ?thesis
      unfolding n option.case by (intro conjI tame_inv [OF inv t] st rr.env_trans [OF env])
  next
    assume w: "same_work_token (ticket_token i ?t) token" and p: "phase_of i s = TkPublished"
      and f: "?f s = (Some (tk_report ?t), put_ticket i ?u s)"
    note st = claim_step [OF inv env ms moved_same [OF moving_updates(3)] p]
    have "claimed i ?t [] (put_ticket i ?u s, ticket_watch s (put_ticket i ?u s) g)"
      using st(7) by (simp add: claimed_def put_ticket_def ticket_core_def)
    then show ?thesis
      unfolding f fst_conv snd_conv option.case claim_post_def st(3)
      by (intro conjI st exI [of _ ?t] w refl)
  qed
qed

section \<open>The transport owners\<close>

text \<open>A result \<open>True\<close> is an accepted report.\<close>

definition processed :: "u64 \<Rightarrow> bool \<Rightarrow> runtime \<times> ticket_notes \<Rightarrow> bool" where
  "processed n r y \<longleftrightarrow> (r \<longrightarrow> n \<in> tn_submitted (snd y))"

text \<open>What is left after a claim: the thread gives the ticket back in a terminal phase.\<close>

lemma settle_sat:
  assumes w: "Claimer i \<in> m" and m: "m \<subseteq> runtime_held (fst x)" and cl: "claimed i t es x" and apart: "m - of_ticket i = m0"
    and mine: "\<And>u. ticket_core u = ticket_core (t\<lparr>tk_state := TkClaimed\<rparr>) \<Longrightarrow> matches u"
    and p: "(p = TkCanceled \<or> p = TkNotReady) \<and> (\<forall>e \<in> set es. \<not> su_accepted e)"
  shows "rr.sat (pbind (terminalize i matches oc p) (\<lambda>_. Ret False)) m x
    (\<lambda>r m' y. m' = m0 \<and> rr.env m0 x y \<and> processed (tk_ticket_id t) r y)"
  unfolding rr.sat_bind rr.sat.simps apart [symmetric]
  by (rule rr.sat_mono [OF terminalize_sat [OF w m cl mine]]) (use p in \<open>auto simp: processed_def\<close>)

lemma success_sat:
  assumes w: "Claimer i \<in> m" and m: "m \<subseteq> runtime_held (fst x)" and cl: "claimed i t es x" and apart: "m - of_ticket i = m0"
    and mine: "\<And>u. ticket_core u = ticket_core (t\<lparr>tk_state := TkClaimed\<rparr>) \<Longrightarrow> matches u"
    and p: "\<exists>e \<in> set es. su_accepted e"
  shows "rr.sat (terminalize i matches oc TkSubmitted) m x
    (\<lambda>r m' y. m' = m0 \<and> rr.env m0 x y \<and> processed (tk_ticket_id t) r y)"
  unfolding apart [symmetric]
  by (rule rr.sat_mono [OF terminalize_sat [OF w m cl mine]]) (use p in \<open>auto simp: processed_def settled_def\<close>)

lemma mine_usb: "ticket_core u = ticket_core (t\<lparr>tk_state := TkClaimed\<rparr>) \<Longrightarrow> tk_ticket_id u = tk_ticket_id t"
  by (rule core_facts(1))

lemma sat_base:
  assumes "rr.env m0 x y" "rr.sat p m y (\<lambda>r m' z. m' = m0 \<and> rr.env m0 y z \<and> Q r z)"
  shows "rr.sat p m y (\<lambda>r m' z. m' = m0 \<and> rr.env m0 x z \<and> Q r z)"
  by (rule rr.sat_mono [OF assms(2)]) (use rr.env_trans [OF assms(1)] in blast)

lemma submit_usb_sat:
  assumes w: "Claimer i \<in> m" and m: "m \<subseteq> runtime_held (fst x)" and cl: "claimed i t [] x" and apart: "m - of_ticket i = m0"
    and usb: "tk_transport t = TransportUsb"
  shows "rr.sat (submit_usb_ticket i accepted t gen epoch) m x
    (\<lambda>r m' y. m' = m0 \<and> rr.env m0 x y \<and> processed (tk_ticket_id t) r y)"
  unfolding submit_usb_ticket_def Let_def pthen_def [of "hand_over e" for e] rr.sat_bind
proof (rule rr.sat_mono [OF hand_sat [OF w m cl]])
  let ?su = "\<lparr>su_ticket = Some (tk_ticket_id t), su_interface = i, su_transport = TransportUsb,
         su_report = tk_report t, su_accepted = accepted\<rparr>"
  show "su_ticket ?su = Some (tk_ticket_id t)" "su_interface ?su = i" "su_transport ?su = tk_transport t"
    "su_report ?su = tk_report t" by (simp_all add: usb)
  fix u m' y assume "m' = m \<and> rr.env (m - of_ticket i) x y \<and> m \<subseteq> runtime_held (fst y) \<and> claimed i t [?su] y"
  then have m': "m' = m" and e: "rr.env m0 x y" and my: "m \<subseteq> runtime_held (fst y)" and cy: "claimed i t [?su] y"
    unfolding apart by simp_all
  have last: "rr.sat (terminalize i (\<lambda>u. tk_ticket_id u = tk_ticket_id t) ToSubmitted TkSubmitted) m z
      (\<lambda>r m' z. m' = m0 \<and> rr.env m0 y z \<and> processed (tk_ticket_id t) r z)"
    if z: "rr.env m y z" and a: accepted for z
  proof -
    have f: "rr.sat (terminalize i (\<lambda>u. tk_ticket_id u = tk_ticket_id t) ToSubmitted TkSubmitted) m z
        (\<lambda>r m' y. m' = m0 \<and> rr.env m0 z y \<and> processed (tk_ticket_id t) r y)"
      by (rule success_sat [OF w env_held [OF z] claimed_env [OF cy z w] apart mine_usb]) (use a in simp_all)
    have "m0 \<subseteq> m" using apart by blast
    then show ?thesis by (rule sat_base [OF env_less [OF z] f])
  qed
  show "rr.sat (if \<not> accepted then pbind (terminalize i (\<lambda>u. tk_ticket_id u = tk_ticket_id t) ToNotReady TkNotReady)
        (\<lambda>_. Ret False) else record_accepted i t gen epoch) m' y
      (\<lambda>r m' y. m' = m0 \<and> rr.env m0 x y \<and> processed (tk_ticket_id t) r y)"
    unfolding m'
  proof (rule sat_base [OF e], rule sat_if)
    assume a: "\<not> accepted"
    show "rr.sat (pbind (terminalize i (\<lambda>u. tk_ticket_id u = tk_ticket_id t) ToNotReady TkNotReady)
        (\<lambda>_. Ret False)) m y (\<lambda>r m' z. m' = m0 \<and> rr.env m0 y z \<and> processed (tk_ticket_id t) r z)"
      by (rule settle_sat [OF w my cy apart mine_usb]) (use a in simp_all)
  next
    assume "\<not> \<not> accepted"
    then have acc: accepted by simp
    show "rr.sat (record_accepted i t gen epoch) m y
        (\<lambda>r m' z. m' = m0 \<and> rr.env m0 y z \<and> processed (tk_ticket_id t) r z)"
      unfolding record_accepted_def
      by (rule sat_easy_then, (intro easy_rules)[1], rule rr.env_refl [OF my])
        ((rule sat_easy_then last acc | assumption | (intro easy_rules; fail))+)
  qed
qed

lemma process_usb_sat:
  assumes m: "m \<subseteq> runtime_held (fst x)"
  shows "rr.sat (process_usb_ticket i accepted gen epoch) m x (\<lambda>r m' y. m' = m \<and> rr.env m x y)"
  unfolding process_usb_ticket_def rr.sat_bind
proof (rule rr.sat_mono [OF claim_usb_sat [OF m]], goal_cases)
  case (1 r m' y)
  show ?case
  proof (cases r)
    case None
    then show ?thesis using 1 by simp
  next
    case (Some t)
    then have usb: "tk_transport t = TransportUsb" and "claim_post i m x t m' y" using 1 by simp_all
    then have m': "m' = insert (Claimer i) m" "m' \<subseteq> runtime_held (fst y)"
      and apart: "m \<inter> of_ticket i = {}" and e: "rr.env m x y" and cy: "claimed i t [] y"
      unfolding claim_post_def by blast+
    have w: "Claimer i \<in> m'" and ap: "m' - of_ticket i = m" and sub: "m \<subseteq> m'" using m'(1) apart by blast+
    define post where "post r m'' z \<longleftrightarrow> m'' = m \<and> rr.env m y z" for r :: bool and m'' z
    have settle: "rr.sat (pbind (terminalize i (\<lambda>u. tk_ticket_id u = tk_ticket_id t) oc TkCanceled) (\<lambda>_. Ret False)) m' z post"
      if z: "rr.env m' y z" for oc z
    proof -
      have f: "rr.sat (pbind (terminalize i (\<lambda>u. tk_ticket_id u = tk_ticket_id t) oc TkCanceled) (\<lambda>_. Ret False)) m' z
          (\<lambda>r m' y. m' = m \<and> rr.env m z y \<and> processed (tk_ticket_id t) r y)"
        by (rule settle_sat [OF w env_held [OF z] claimed_env [OF cy z w] ap mine_usb]) simp_all
      show ?thesis
        unfolding post_def by (rule rr.sat_mono [OF f]) (use rr.env_trans [OF env_less [OF z sub]] in blast)
    qed
    have submit: "rr.sat (submit_usb_ticket i accepted t gen epoch) m' z post" if z: "rr.env m' y z" for z
      unfolding post_def
      by (rule rr.sat_mono [OF submit_usb_sat [OF w env_held [OF z] claimed_env [OF cy z w] ap usb]])
        (use rr.env_trans [OF env_less [OF z sub]] in blast)
    have some: "rr.sat (case r of None \<Rightarrow> Ret False | Some t \<Rightarrow> p t) m' y (\<lambda>r m'' z. m'' = m \<and> rr.env m x z)"
      if "rr.sat (p t) m' y post" for p
      unfolding Some option.case using rr.env_trans [OF e] by (intro rr.sat_mono [OF that]) (simp add: post_def)
    show ?thesis
    proof (rule some, goal_cases)
      case 1
      show ?case
        unfolding Let_def
        by (rule sat_easy, (intro easy_rules)[1], rule rr.env_refl [OF m'(2)])
          ((rule settle submit sat_easy_pif sat_easy sat_if | assumption | (intro easy_rules; fail))+)
    qed
  qed
qed

lemma mine_ble:
  assumes "same_work_token (ticket_token i t) token" "ticket_core u = ticket_core (t\<lparr>tk_state := TkClaimed\<rparr>)"
  shows "same_work_token (ticket_token i u) token"
  using assms(1) core_facts(5) [OF assms(2)] by simp

lemma token_says:
  assumes "same_work_token (ticket_token i t) token"
  shows "tk_ticket_id t = wt_ticket_id token" "tk_transport t = wt_transport token"
  using assms by (simp_all add: same_work_token_def ticket_token_def)

lemma submit_ble_sat:
  assumes w: "Claimer i \<in> m" and m: "m \<subseteq> runtime_held (fst x)" and cl: "claimed i t [] x" and apart: "m - of_ticket i = m0"
    and tok: "same_work_token (ticket_token i t) token" "wt_transport token = TransportBle" "payload = tk_report t"
  shows "rr.sat (submit_ble_ticket i token result payload) m x
    (\<lambda>r m' y. m' = m0 \<and> rr.env m0 x y \<and> processed (wt_ticket_id token) r y)"
  unfolding submit_ble_ticket_def Let_def pthen_def [of "hand_over e" for e] rr.sat_bind
proof (rule rr.sat_mono [OF hand_sat [OF w m cl]])
  note says = token_says [OF tok(1)]
  let ?su = "\<lparr>su_ticket = Some (wt_ticket_id token), su_interface = i, su_transport = TransportBle,
         su_report = payload, su_accepted = (result = BleStackAccepted)\<rparr>"
  let ?mine = "\<lambda>u. same_work_token (ticket_token i u) token"
  show "su_ticket ?su = Some (tk_ticket_id t)" "su_interface ?su = i" "su_transport ?su = tk_transport t"
    "su_report ?su = tk_report t" by (simp_all add: says tok(2,3))
  fix u m' y assume "m' = m \<and> rr.env (m - of_ticket i) x y \<and> m \<subseteq> runtime_held (fst y) \<and> claimed i t [?su] y"
  then have m': "m' = m" and e: "rr.env m0 x y" and my: "m \<subseteq> runtime_held (fst y)" and cy: "claimed i t [?su] y"
    unfolding apart by simp_all
  have sub: "m0 \<subseteq> m" using apart by blast
  let ?post = "\<lambda>r m' z. m' = m0 \<and> rr.env m0 y z \<and> processed (wt_ticket_id token) r z"
  have good: "rr.sat (terminalize i ?mine ToSubmitted TkSubmitted) m z ?post"
    if z: "rr.env m y z" and a: "result = BleStackAccepted" for z
  proof -
    have f: "rr.sat (terminalize i ?mine ToSubmitted TkSubmitted) m z
        (\<lambda>r m' y. m' = m0 \<and> rr.env m0 z y \<and> processed (tk_ticket_id t) r y)"
      by (rule success_sat [OF w env_held [OF z] claimed_env [OF cy z w] apart mine_ble [OF tok(1)]]) (use a in simp_all)
    show ?thesis unfolding says(1) [symmetric] by (rule sat_base [OF env_less [OF z sub] f])
  qed
  have bad: "rr.sat (pbind (terminalize i ?mine ToAuthorityLost TkCanceled) (\<lambda>_. Ret False)) m z ?post"
    if z: "rr.env m y z" and a: "result \<noteq> BleStackAccepted" for z
  proof -
    have f: "rr.sat (pbind (terminalize i ?mine ToAuthorityLost TkCanceled) (\<lambda>_. Ret False)) m z
        (\<lambda>r m' y. m' = m0 \<and> rr.env m0 z y \<and> processed (tk_ticket_id t) r y)"
      by (rule settle_sat [OF w env_held [OF z] claimed_env [OF cy z w] apart mine_ble [OF tok(1)]]) (use a in simp_all)
    show ?thesis unfolding says(1) [symmetric] by (rule sat_base [OF env_less [OF z sub] f])
  qed
  show "rr.sat (if result \<noteq> BleStackAccepted
       then pbind ble_snapshot (\<lambda>route_authority.
         pbind (retire_ble_route_if_matches route_authority
             (result = BleResourceFailure \<or> result = BleStackRejected) i) (\<lambda>_.
         pbind (terminalize i ?mine ToAuthorityLost TkCanceled) (\<lambda>_. Ret False)))
       else
         pthen (store_if i (\<lambda>s. s\<lparr>if_host_state_uncertain := False\<rparr>))
          (pthen (store_if i (put_details i payload))
           (pthen (confirm_payload i payload) (terminalize i ?mine ToSubmitted TkSubmitted)))) m' y
      (\<lambda>r m' y. m' = m0 \<and> rr.env m0 x y \<and> processed (wt_ticket_id token) r y)"
    unfolding m'
  proof (rule sat_base [OF e], rule sat_if)
    assume no: "result \<noteq> BleStackAccepted"
    show "rr.sat (pbind ble_snapshot (\<lambda>route_authority.
         pbind (retire_ble_route_if_matches route_authority
             (result = BleResourceFailure \<or> result = BleStackRejected) i) (\<lambda>_.
         pbind (terminalize i ?mine ToAuthorityLost TkCanceled) (\<lambda>_. Ret False)))) m y ?post"
      by (rule sat_easy, (intro easy_rules)[1], rule rr.env_refl [OF my])
        ((rule bad no sat_easy | assumption | (intro easy_rules; fail))+)
  next
    assume "\<not> result \<noteq> BleStackAccepted"
    then have yes: "result = BleStackAccepted" by simp
    show "rr.sat (pthen (store_if i (\<lambda>s. s\<lparr>if_host_state_uncertain := False\<rparr>))
          (pthen (store_if i (put_details i payload))
           (pthen (confirm_payload i payload) (terminalize i ?mine ToSubmitted TkSubmitted)))) m y ?post"
      by (rule sat_easy_then, (intro easy_rules)[1], rule rr.env_refl [OF my])
        ((rule sat_easy_then good yes | assumption | (intro easy_rules; fail))+)
  qed
qed

lemma process_ble_sat:
  assumes m: "m \<subseteq> runtime_held (fst x)"
  shows "rr.sat (process_ble_report i token result) m x
    (\<lambda>r m' y. m' = m \<and> rr.env m x y \<and> processed (wt_ticket_id token) r y)"
  unfolding process_ble_report_def
proof (rule sat_if)
  assume "wt_transport token \<noteq> TransportBle \<or> wt_ticket_id token = 0"
  show "rr.sat (Ret False) m x (\<lambda>r m' y. m' = m \<and> rr.env m x y \<and> processed (wt_ticket_id token) r y)"
    using rr.env_refl [OF m] by (simp add: processed_def)
next
  assume "\<not> (wt_transport token \<noteq> TransportBle \<or> wt_ticket_id token = 0)"
  then have ble: "wt_transport token = TransportBle" by simp
  let ?mine = "\<lambda>u. same_work_token (ticket_token i u) token"
  let ?fence = "pany [pnot (ble_work_token_current i token), safety_debt]"
  let ?fail = "pbind (terminalize i ?mine ToAuthorityLost TkCanceled) (\<lambda>_. Ret False)"
  show "rr.sat (pbind (claim_ble_ticket i token) (\<lambda>claimed. case claimed of
        None \<Rightarrow> Ret False
      | Some payload \<Rightarrow> let mine = ?mine; fence = ?fence;
              fail = pbind (terminalize i mine ToAuthorityLost TkCanceled) (\<lambda>_. Ret False)
          in pif fence fail (pif fence fail (submit_ble_ticket i token result payload)))) m x
      (\<lambda>r m' y. m' = m \<and> rr.env m x y \<and> processed (wt_ticket_id token) r y)"
    unfolding rr.sat_bind Let_def
  proof (rule rr.sat_mono [OF claim_ble_sat [OF m]], goal_cases)
    case (1 r m' y)
    show ?case
    proof (cases r)
      case None
      then show ?thesis using 1 by (simp add: processed_def)
    next
      case (Some payload)
      then obtain t where tok: "same_work_token (ticket_token i t) token" "payload = tk_report t"
        and "claim_post i m x t m' y" using 1 by auto
      then have m': "m' = insert (Claimer i) m" "m' \<subseteq> runtime_held (fst y)"
        and apart: "m \<inter> of_ticket i = {}" and e: "rr.env m x y" and cy: "claimed i t [] y"
        unfolding claim_post_def by blast+
      have w: "Claimer i \<in> m'" and ap: "m' - of_ticket i = m" and sub: "m \<subseteq> m'" using m'(1) apart by blast+
      note says = token_says [OF tok(1)]
      let ?post = "\<lambda>r m'' z. m'' = m \<and> rr.env m y z \<and> processed (wt_ticket_id token) r z"
      have fail: "rr.sat ?fail m' z ?post" if z: "rr.env m' y z" for z
      proof -
        have f: "rr.sat ?fail m' z (\<lambda>r m' y. m' = m \<and> rr.env m z y \<and> processed (tk_ticket_id t) r y)"
          by (rule settle_sat [OF w env_held [OF z] claimed_env [OF cy z w] ap mine_ble [OF tok(1)]]) simp_all
        show ?thesis unfolding says(1) [symmetric] by (rule sat_base [OF env_less [OF z sub] f])
      qed
      have submit: "rr.sat (submit_ble_ticket i token result payload) m' z ?post" if z: "rr.env m' y z" for z
        by (rule sat_base [OF env_less [OF z sub]
            submit_ble_sat [OF w env_held [OF z] claimed_env [OF cy z w] ap tok(1) ble tok(2)]])
      have "rr.sat (pif ?fence ?fail (pif ?fence ?fail (submit_ble_ticket i token result payload))) m' y ?post"
        by (rule sat_easy_pif, (intro easy_rules)[1], rule rr.env_refl [OF m'(2)])
          ((rule fail submit sat_easy_pif | assumption | (intro easy_rules; fail))+)
      then have "rr.sat (pif ?fence ?fail (pif ?fence ?fail (submit_ble_ticket i token result payload))) m' y
          (\<lambda>r m'' z. m'' = m \<and> rr.env m x z \<and> processed (wt_ticket_id token) r z)"
        by (rule sat_base [OF e])
      then show ?thesis unfolding Some rr.sat_bind by (simp only: option.case rr.sat_bind)
    qed
  qed
qed

end
