(* ===== verification/TicketRuntime.thy ===== *)
theory TicketRuntime
  imports TicketOwners
begin

text \<open>
  The call table of \<open>hid_runtime\<close> against the contract: every call keeps every promise, from any number of
  tasks and callbacks in any interleaving, and what follows for the tickets and the sleep gate.
\<close>

section \<open>Every call\<close>

named_theorems decent_rules \<open>programs that keep every promise\<close>

lemmas [decent_rules] = decent_bind decent_ret scoped_decent conflict_decent release_sleep_decent freeing_decent

lemma decent_then [decent_rules]: "decent p \<Longrightarrow> decent q \<Longrightarrow> decent (pthen p q)"
  unfolding pthen_def by (rule decent_bind)

lemma decent_map [decent_rules]: "decent p \<Longrightarrow> decent (pmap f p)"
  unfolding pmap_def by (intro decent_bind decent_ret)

lemma decent_done [decent_rules]: "decent p \<Longrightarrow> decent (answer_done p)"
  unfolding answer_done_def by (rule decent_map)

lemma decent_pif [decent_rules]: "decent c \<Longrightarrow> decent p \<Longrightarrow> decent q \<Longrightarrow> decent (pif c p q)"
  unfolding pif_def by (intro decent_bind) simp_all

lemma decent_not [decent_rules]: "decent p \<Longrightarrow> decent (pnot p)"
  unfolding pnot_def by (rule decent_map)

lemma decent_if [decent_rules]: "decent p \<Longrightarrow> decent q \<Longrightarrow> decent (if b then p else q)"
  by simp

lemma decent_sum [decent_rules]:
  "(\<And>a. decent (p a)) \<Longrightarrow> (\<And>a. decent (q a)) \<Longrightarrow> decent (case v of Inl a \<Rightarrow> p a | Inr a \<Rightarrow> q a)"
  by (cases v) simp_all

lemma decent_option [decent_rules]:
  "decent p \<Longrightarrow> (\<And>a. decent (q a)) \<Longrightarrow> decent (case v of None \<Rightarrow> p | Some a \<Rightarrow> q a)"
  by (cases v) simp_all

lemma decent_admission [decent_rules]:
  "(\<And>a. decent (p a)) \<Longrightarrow> decent q \<Longrightarrow> (\<And>a. decent (r a)) \<Longrightarrow>
    decent (case v of RaReturn a \<Rightarrow> p a | RaLost \<Rightarrow> q | RaAdmitted a \<Rightarrow> r a)"
  by (cases v) simp_all

text \<open>Calls that contain a scoped admission, the gate or a ticket.\<close>

lemma decent_releases [decent_rules]:
  "decent (request_release_all fuel)" "decent (note_ble_route_continuity_loss e)" "decent (begin_safety fuel)"
  unfolding request_release_all_def note_ble_route_continuity_loss_def begin_safety_def
  by (intro decent_rules easy_decent easy_rules)+

lemma decent_begin_release [decent_rules]: "decent (begin_release_all fuel)"
  unfolding begin_release_all_def by (intro decent_rules) ((intro easy_decent easy_rules)+)

lemma decent_plain_callbacks [decent_rules]:
  "decent on_unmount" "decent on_suspend" "decent on_resume" "decent (on_usb_link_stall e n)"
  "decent (mark_lifecycle_detach_uncertain n)" "decent on_driver_uninstalled" "decent (begin_usb_runtime_fault c)"
  unfolding on_unmount_def on_suspend_def on_resume_def on_usb_link_stall_def mark_lifecycle_detach_uncertain_def
    on_driver_uninstalled_def begin_usb_runtime_fault_def
  by (intro scoped_decent easy_decent easy_rules)+

lemma easy_mount_debt [easy_rules]:
  "easy (pany (concat (map (\<lambda>i. debt_loads i @ [load_if i if_safety_required]) both)))"
  unfolding debt_loads_def by (simp add: easy_rules)

lemma decent_mount [decent_rules]: "decent (on_mount fuel)"
  unfolding on_mount_def Let_def by (intro decent_rules) ((intro easy_decent easy_rules)+)

lemma decent_safety [decent_rules]:
  "decent (begin_lifecycle_detach_safety fuel)" "decent (begin_route_release_safety fuel r)"
  unfolding begin_lifecycle_detach_safety_def begin_route_release_safety_def
  by (intro decent_rules; (intro easy_decent easy_rules)?)+

lemma decent_routing [decent_rules]:
  "decent (complete_ble_route_release_if_matches fuel e)" "decent (terminalize_route_release_schedule_failure r)"
  unfolding complete_ble_route_release_if_matches_def terminalize_route_release_schedule_failure_def
  by (intro decent_rules; (intro easy_decent easy_rules)?)+

lemma decent_work [decent_rules]:
  "decent (queue_report i k r n)" "decent begin_sequence" "decent revoke_sequence"
  unfolding queue_report_def begin_sequence_def revoke_sequence_def Let_def
  by (intro scoped_decent easy_decent easy_rules)+

lemma decent_sleep [decent_rules]: "decent (claim_sleep_quiescence e n)" "decent commit_sleep_quiescence"
  unfolding claim_sleep_quiescence_def commit_sleep_quiescence_def
  by (intro decent_rules cas_decent; (simp; fail)?; (intro easy_decent easy_rules)?)+

lemma decent_process [decent_rules]: "decent (process_usb_ticket i b n e)"
  unfolding decent_def using process_usb_sat by blast

lemma decent_execute [decent_rules]: "decent (execute an)"
  unfolding execute_def process_keyboard_ticket_def process_mouse_ticket_def
  by (intro decent_rules) ((intro easy_decent easy_rules)+)

text \<open>What a producer reads about a ticket that has ended.\<close>

fun snapshot_true :: "report_snapshot \<Rightarrow> runtime \<times> ticket_notes \<Rightarrow> bool" where
  "snapshot_true (p, oc, n) y \<longleftrightarrow> (p = TkSubmitted \<longrightarrow> n \<in> tn_submitted (snd y))
     \<and> (p = TkCanceled \<or> p = TkNotReady \<longrightarrow> n \<in> tn_closed (snd y))"

lemma ticket_snapshot_sat:
  assumes m: "m \<subseteq> runtime_held (fst x)"
    and f: "\<And>t. f t = Some (snapshot_ticket t) \<or> f t = None"
  shows "rr.sat (locked (load_ticket i f)) m x
    (\<lambda>r m' y. m' = m \<and> rr.env m x y \<and> (\<forall>sn. r = Some sn \<longrightarrow> snapshot_true sn y))"
proof -
  have "locked (load_ticket i f) = load (\<lambda>s. f (ticket_of i s))"
    unfolding locked_def load_def by (rule arg_cong [where f = atomic]) (rule ext, simp add: alone_steps)
  moreover have "rr.sat (load (\<lambda>s. f (ticket_of i s))) m x
    (\<lambda>r m' y. m' = m \<and> rr.env m x y \<and> (\<forall>sn. r = Some sn \<longrightarrow> snapshot_true sn y))"
  proof (rule rr.sat_loadI)
    fix s g assume inv: "runtime_inv (s, g)" and env: "rr.env m x (s, g)"
    have "snapshot_true (snapshot_ticket (ticket_of i s)) (s, g)"
      using inv_parts(1) [OF inv, of i] by (simp add: snapshot_ticket_def ticket_ok_def)
    then show "m = m \<and> rr.env m x (s, g) \<and> (\<forall>sn. f (ticket_of i s) = Some sn \<longrightarrow> snapshot_true sn (s, g))"
      using env f [of "ticket_of i s"] by auto
  qed
  ultimately show ?thesis by simp
qed

text \<open>Cancelling one ticket, with the answer: nothing was handed over for it.\<close>

definition withdrawn :: "u64 \<Rightarrow> runtime \<times> ticket_notes \<Rightarrow> bool" where
  "withdrawn n y \<longleftrightarrow> n \<in> tn_closed (snd y) \<and> sent_of n (fst y) = []"

lemma cancel_sat:
  assumes m: "m \<subseteq> runtime_held (fst x)"
  shows "rr.sat (cancel_report i n) m x
    (\<lambda>r m' y. m' = m \<and> rr.env m x y \<and> (r \<longrightarrow> withdrawn n y))"
  unfolding cancel_report_def locked_def
proof (rule rr.sat_atomicI)
  fix s g
  assume inv: "runtime_inv (s, g)" and env: "rr.env m x (s, g)"
  have ms: "m \<subseteq> runtime_held s" using env_held [OF env] by simp
  let ?u = "\<lambda>t. t\<lparr>tk_outcome := ToNotReady, tk_state := TkCanceled\<rparr>"
  let ?f = "alone (pbind (load_ticket i id) (\<lambda>t. if n = 0 \<or> tk_ticket_id t \<noteq> n then Ret False
       else if tk_state t \<noteq> TkPublished then Ret False else pthen (store_ticket i ?u) (Ret True)))"
  let ?s = "snd (?f s)" and ?g = "ticket_watch s (snd (?f s)) g"
  show "runtime_inv (?s, ?g) \<and> rr.guar m (s, g) (?s, ?g) \<and> rr.roles m s ?s = m \<and> rr.env m x (?s, ?g)
      \<and> (fst (?f s) \<longrightarrow> withdrawn n (?s, ?g))"
  proof (cases "n \<noteq> 0 \<and> id_of i s = n \<and> phase_of i s = TkPublished")
    case False
    then have f: "?f s = (False, s)" by (auto simp: alone_bind alone_steps)
    show ?thesis
      unfolding f fst_conv snd_conv rr.watch_idle by (simp add: inv rr.guar_idle rr.roles_idle [OF ms] env)
  next
    case True
    then have f: "?f s = (True, put_ticket i ?u s)" by (simp add: alone_bind alone_steps)
    have md: "moved i TkCanceled s (put_ticket i ?u s)" by (rule moved_same [OF moving_updates(2)])
    have "?u (ticket_of i s) = canceled_ticket ToNotReady (ticket_of i s)" using True by (simp add: canceled_ticket_def)
    then have t: "tame s (put_ticket i ?u s)"
      by (auto simp: tame_def put_ticket_def slides_def ticket_entries_def)
    have c: "n \<in> cut_ids s (put_ticket i ?u s)" using True by (auto simp: cut_ids_def put_ticket_def)
    have "withdrawn n (put_ticket i ?u s, ticket_watch s (put_ticket i ?u s) g)"
      using c cut_facts(3) [OF inv t c] unfolding withdrawn_def fst_conv snd_conv tame_watch(3) [OF t] tame_sent [OF t]
      by blast
    then show ?thesis
      unfolding f fst_conv snd_conv
      by (intro conjI impI tame_inv [OF inv t] tame_step [OF inv t ms] rr.env_trans [OF env])
  qed
qed

section \<open>The call table\<close>

fun runtime_post :: "runtime_answer \<Rightarrow> runtime \<times> ticket_notes \<Rightarrow> bool" where
  "runtime_post (RaBegun i report r n) x = published i report (r, n) x"
| "runtime_post (RaCanceled n b) x = (b \<longrightarrow> withdrawn n x)"
| "runtime_post (RaProcessed n b) x = processed n b x"
| "runtime_post (RaSnapshot (Some sn)) x = snapshot_true sn x"
| "runtime_post _ x = True"

lemma runtime_post_stays:
  assumes "runtime_post a x" "runtime_base x y"
  shows "runtime_post a y"
proof (cases a)
  case (RaSnapshot v)
  then show ?thesis using assms unfolding runtime_base_def by (cases v) auto
qed (use assms published_stays in \<open>auto simp: processed_def withdrawn_def runtime_base_def\<close>)

definition correct :: "(runtime, runtime_answer) prog \<Rightarrow> bool" where
  "correct p \<longleftrightarrow> (\<forall>x. rr.sat p {} x (\<lambda>a m y. m = {} \<and> runtime_post a y))"

lemma correct_map:
  assumes "\<And>x. rr.sat p {} x (\<lambda>r m y. m = {} \<and> rr.env {} x y \<and> Q r y)" "\<And>r y. Q r y \<Longrightarrow> runtime_post (f r) y"
  shows "correct (pmap f p)"
  unfolding correct_def
proof
  fix x show "rr.sat (pmap f p) {} x (\<lambda>a m y. m = {} \<and> runtime_post a y)"
    by (rule sat_easy_map, rule rr.sat_mono [OF assms(1)]) (use assms(2) in blast)
qed

lemma correct_decent: "decent p \<Longrightarrow> (\<And>r y. runtime_post (f r) y) \<Longrightarrow> correct (pmap f p)"
proof -
  assume d: "decent p" and f: "\<And>r y. runtime_post (f r) y"
  have "rr.sat p {} x (\<lambda>r m y. m = {} \<and> rr.env {} x y \<and> True)" for x
    using decentD [OF d, of "{}" x] by simp
  then show ?thesis by (rule correct_map) (rule f)
qed

lemma correct_done: "decent p \<Longrightarrow> correct (answer_done p)"
  unfolding answer_done_def by (rule correct_decent) simp_all

lemma correct_easy: "easy p \<Longrightarrow> correct (answer_done p)"
  by (intro correct_done easy_decent)

lemma correct_cancel: "correct (pmap (RaCanceled n) (cancel_report i n))"
  by (rule correct_map [OF cancel_sat]) simp_all

lemma correct_begin:
  assumes "easy already"
  shows "correct (pmap (\<lambda>(r, n). RaBegun i report r n) (begin_report i report already sq owner))"
  by (rule correct_map [OF begin_sat]) (use assms in auto)

lemma snapshot_post: "\<forall>sn. r = Some sn \<longrightarrow> snapshot_true sn y \<Longrightarrow> runtime_post (RaSnapshot r) y"
  by (cases r) simp_all

lemma correct_tickets: "correct (ticket_code c)"
proof (cases c)
  case (RcBeginKeyboard modifiers keycodes sq owner)
  show ?thesis
    unfolding RcBeginKeyboard ticket_code.simps begin_keyboard_report_def Let_def by (rule correct_begin) (intro easy_rules)
next
  case (RcBeginMouse b x y v h sq owner)
  show ?thesis
    unfolding RcBeginMouse ticket_code.simps begin_mouse_report_def Let_def by (rule correct_begin) (intro easy_rules)
next
  case (RcCancelReport i n)
  show ?thesis
    unfolding RcCancelReport ticket_code.simps cancel_keyboard_report_def cancel_mouse_report_def
    using correct_cancel by (cases i) simp_all
next
  case (RcFinalizeReport i n)
  show ?thesis
    unfolding RcFinalizeReport ticket_code.simps finalize_keyboard_report_def finalize_mouse_report_def
    by (rule correct_done) (cases i; simp add: freeing_decent)
next
  case (RcSnapshotNow i)
  have "pmap (\<lambda>s. RaSnapshot (Some s)) (report_snapshot_now i) =
      pmap RaSnapshot (locked (load_ticket i (\<lambda>t. Some (snapshot_ticket t))))"
    by (simp add: report_snapshot_now_def pmap_def locked_def atomic_def load_ticket_def load_def fun_eq_iff)
  then show ?thesis
    unfolding RcSnapshotNow ticket_code.simps
    by (simp only:) (rule correct_map [OF ticket_snapshot_sat snapshot_post], simp_all only: empty_subsetI simp_thms)
next
  case (RcSnapshot i n)
  show ?thesis
  proof (cases "n = 0")
    case True
    then show ?thesis unfolding RcSnapshot ticket_code.simps
      by (simp add: report_snapshot_def pmap_def correct_def)
  next
    case False
    have c: "correct (pmap RaSnapshot (locked (load_ticket i
        (\<lambda>t. if tk_ticket_id t \<noteq> n then None else Some (snapshot_ticket t)))))"
      by (rule correct_map [OF ticket_snapshot_sat snapshot_post]) simp_all
    show ?thesis
      unfolding RcSnapshot ticket_code.simps report_snapshot_def if_not_P [OF False] by (rule c)
  qed
next
  case (RcProcessBle i t r)
  show ?thesis unfolding RcProcessBle ticket_code.simps by (rule correct_map [OF process_ble_sat]) simp_all
qed (simp_all only: ticket_code.simps, (rule correct_easy, (intro easy_rules; fail)
    | rule correct_decent, rule easy_decent, (intro easy_rules; fail), simp)+)

lemma correct_work: "correct (work_code c)"
  unfolding queue_keyboard_report_def queue_mouse_report_def
  by (cases c; simp only: work_code.simps queue_keyboard_report_def queue_mouse_report_def;
      (rule correct_easy, (intro easy_rules; fail) | rule correct_done, (intro decent_rules; fail)))

lemma correct_callbacks: "correct (callback_code c)"
  by (cases c; simp only: callback_code.simps;
      (rule correct_easy, (intro easy_rules; fail) | rule correct_done, (intro decent_rules; fail)))

lemma correct_exposure: "correct (exposure_code c)"
  by (cases c; simp only: exposure_code.simps;
      (rule correct_easy, (intro easy_rules; fail) | rule correct_done, (intro decent_rules; fail)))

lemma correct_routing: "correct (routing_code c)"
  by (cases c; simp only: routing_code.simps;
      (rule correct_easy, (intro easy_rules; fail) | rule correct_done, (intro decent_rules; fail)))

lemma correct_releases: "correct (release_code c)"
  by (cases c; simp only: release_code.simps;
      (rule correct_easy, (intro easy_rules; fail) | rule correct_done, (intro decent_rules; fail)))

lemma correct_sleep: "correct (sleep_code c)"
  by (cases c; simp only: sleep_code.simps;
      (rule correct_easy, (intro easy_rules; fail) | rule correct_done, (intro decent_rules; fail)
       | rule correct_decent, (intro decent_rules; fail), simp))

lemma runtime_correct: "correct (runtime_code op)"
  by (cases op; simp only: runtime_code.simps correct_tickets correct_work correct_callbacks correct_exposure
      correct_routing correct_releases correct_sleep)

definition no_tickets :: ticket_notes where
  "no_tickets = \<lparr>tn_begun = {}, tn_closed = {}, tn_submitted = {}\<rparr>"

interpretation runtime_sys: interleaved runtime_code ticket_watch unbounded runtime_inv runtime_held
  runtime_base runtime_keep "(runtime_init, no_tickets)" runtime_post RaDone
proof
  show "runtime_inv (runtime_init, no_tickets)"
    by (simp add: runtime_inv_def runtime_init_def no_tickets_def ticket_ok_def history_ok_def gate_ok_def
        gate_count_def gate_control_def ticket_init_def begun_ids_def ticket_entries_def busy_phase_def)
  show "runtime_held (fst (runtime_init, no_tickets)) = {}"
    by (simp add: runtime_held_def runtime_init_def ticket_init_def)
  show "rr.sat (runtime_code op) {} x (\<lambda>a m x. m = {} \<and> runtime_post a x)" for op x
    using runtime_correct unfolding correct_def by blast
  show "runtime_post a x \<Longrightarrow> runtime_base x y \<Longrightarrow> runtime_post a y" for a x y
    by (rule runtime_post_stays)
  show "runtime_post RaDone x" for x by simp
qed

section \<open>Every interleaving\<close>

definition runtime_run :: "runtime_call sched list \<Rightarrow> (runtime, runtime_answer, ticket_notes) pool" where
  "runtime_run es = foldl (pool_step runtime_code ticket_watch) ((\<lambda>t. Ret RaDone), runtime_init, no_tickets) es"

lemma runtime_run_boot: "runtime_run es = foldl (pool_step runtime_code ticket_watch) runtime_sys.boot es"
  by (simp add: runtime_run_def runtime_sys.boot_def)

lemma runtime_reach: "runtime_run es = (ts, s, g) \<Longrightarrow> runtime_inv (s, g)"
  using runtime_sys.reach_inv [of es ts "(s, g)"] by (simp add: runtime_run_boot unbounded_def)

lemma runtime_result: "runtime_run es = (ts, s, g) \<Longrightarrow> ts t = Ret a \<Longrightarrow> runtime_post a (s, g)"
  using runtime_sys.reach_result [of es ts "(s, g)" t a] by (simp add: runtime_run_boot unbounded_def)

lemma runtime_later:
  assumes "runtime_run es = (ts, s, g)" "runtime_run (es @ es') = (ts', s', g')"
  shows "runtime_base (s, g) (s', g')"
proof -
  have f: "foldl (pool_step runtime_code ticket_watch) (ts, s, g) es' = (ts', s', g')"
    using assms by (simp add: runtime_run_def)
  have "rr.pool_ok runtime_post (ts, s, g)"
    using runtime_sys.reach_ok [of es] assms(1) by (simp add: runtime_run_boot)
  then show ?thesis using runtime_sys.run_base [of "(ts, s, g)" es'] by (simp add: f unbounded_def)
qed

end
