(* ===== verification/TicketProperties.thy ===== *)
theory TicketProperties
  imports TicketRuntime
begin

text \<open>
  What every interleaving of the calls of \<open>hid_runtime\<close> does with a report and with the sleep gate, and an
  example run: a BLE route comes up, a keyboard report is begun, scheduled, handed over and looked at.
\<close>

section \<open>Calls that nothing disturbs\<close>

text \<open>A thread that runs alone reaches the result of its call.\<close>

lemma pool_alone:
  "\<exists>n g'. foldl (pool_step code watch) (ts(t := p), s, g) (replicate n (Run t)) =
     (ts(t := Ret (fst (alone p s))), snd (alone p s), g')"
proof (induction p arbitrary: s g)
  case (Ret a)
  show ?case by (rule exI [of _ 0]) simp
next
  case (Step f)
  let ?g = "watch s (snd (f s)) g"
  have "\<exists>n g'. foldl (pool_step code watch) (ts(t := fst (f s)), snd (f s), ?g) (replicate n (Run t)) =
      (ts(t := Ret (fst (alone (fst (f s)) (snd (f s))))), snd (alone (fst (f s)) (snd (f s))), g')"
    by (rule Step.IH [of "f s"]) (auto intro: fsts.intros)
  then obtain n g' where "foldl (pool_step code watch) (ts(t := fst (f s)), snd (f s), ?g) (replicate n (Run t)) =
      (ts(t := Ret (fst (alone (fst (f s)) (snd (f s))))), snd (alone (fst (f s)) (snd (f s))), g')" by blast
  then have "foldl (pool_step code watch) (ts(t := Step f), s, g) (replicate (Suc n) (Run t)) =
      (ts(t := Ret (fst (alone (Step f) s))), snd (alone (Step f) s), g')"
    by (simp add: case_prod_unfold Let_def)
  then show ?case by blast
qed

lemma call_alone:
  assumes "runtime_run es = (ts, s, g)" "ts t = Ret a" "alone (runtime_code op) s = (r, s')"
  shows "\<exists>es' g'. runtime_run (es @ es') = (ts(t := Ret r), s', g')"
proof -
  obtain n g' where n: "foldl (pool_step runtime_code ticket_watch) (ts(t := runtime_code op), s, g) (replicate n (Run t)) =
     (ts(t := Ret r), s', g')"
    using pool_alone [of runtime_code ticket_watch ts t "runtime_code op" s g] assms(3) by auto
  have "runtime_run (es @ Start t op # replicate n (Run t)) = (ts(t := Ret r), s', g')"
    using assms(1,2) n unfolding runtime_run_def by simp
  then show ?thesis by blast
qed

lemma alone_route:
  fixes s :: runtime
  shows "alone (plift rt_route (\<lambda>r m. m\<lparr>rt_route := r\<rparr>) p) s =
    (fst (alone p (rt_route s)), s\<lparr>rt_route := snd (alone p (rt_route s))\<rparr>)"
proof (induction p arbitrary: s)
  case (Step f)
  have "alone (plift rt_route (\<lambda>r m. m\<lparr>rt_route := r\<rparr>) (fst (f r))) s =
      (fst (alone (fst (f r)) (rt_route s)), s\<lparr>rt_route := snd (alone (fst (f r)) (rt_route s))\<rparr>)" for r and s :: runtime
    using Step.IH [of "f r" "fst (f r)" s] by (auto intro: fsts.intros)
  then show ?case by (simp add: case_prod_unfold)
qed simp

lemma exec_route: "alone p (rt_route s) = (a, r) \<Longrightarrow> alone (on_route p) s = (a, s\<lparr>rt_route := r\<rparr>)"
  by (simp add: on_route_def alone_route)

lemma exec_prog:
  "alone (pmap f p) s = (case alone p s of (a, s') \<Rightarrow> (f a, s'))"
  "alone (pnot q) s = (case alone q s of (b, s') \<Rightarrow> (\<not> b, s'))"
  "alone (pany []) s = (False, s)" 
  "alone (pany (q # qs)) s = (case alone q s of (b, s') \<Rightarrow> if b then (True, s') else alone (pany qs) s')"
  "alone (pall []) s = (True, s)" 
  "alone (pall (q # qs)) s = (case alone q s of (b, s') \<Rightarrow> if b then alone (pall qs) s' else (False, s'))"
  "alone (locked p) s = alone p s"
  by (simp_all add: pmap_def pnot_def locked_def alone_bind alone_steps split: prod.splits)

lemma exec_loads:
  "alone (load_if i h) s = (h (rt_ifs s i), s)" "alone (store_if i k) s = ((), put_if i k s)"
  "alone (load_usb u) s = (u (rt_usb s), s)" "alone (load_ble b) s = (b (rt_ble s), s)"
  "alone (store_ble c) s = ((), s\<lparr>rt_ble := c (rt_ble s)\<rparr>)" 
  by (simp_all add: load_if_def store_if_def load_usb_def load_ble_def store_ble_def alone_steps)
lemma exec_ble:
  assumes "\<not> sequence_odd (rt_ble_sequence s)" "length (bl_report_handles (rt_ble s)) = 3"
  shows "alone ble_snapshot s = ((rt_ble s)\<lparr>bl_coherent := True\<rparr>, s)"
proof -
  obtain a b c where "bl_report_handles (rt_ble s) = [a, b, c]"
    using assms(2) by (auto simp: numeral_3_eq_3 length_Suc_conv)
  then show ?thesis using assms(1) 
    by (simp add: ble_snapshot_def numeral_3_eq_3 alone_bind alone_steps exec_loads)
qed
definition route1 :: route where
 "route1 = route_init\<lparr>publication_sequence := 2, generation := 1, desired := RouteBle,
         active := RouteBle\<rparr>"

definition no_sequence :: sequence_authority where
 "no_sequence = \<lparr>sq_generation = 0, sq_authority_epoch = 0, sq_release_epoch = 0, sq_profile_activation_epoch = 0, sq_active_roles = 0, sq_transport = TransportUsb, sq_route_generation = 0\<rparr>"
definition demo_activation :: ble_activation where
  "demo_activation = \<lparr>ba_expected_authority_epoch = 0, ba_expected_route_generation = 0, ba_ble_generation = 1, ba_connection_handle = 5, ba_profile_activation_epoch = 0, ba_present_roles = kInputRoles, ba_required_input_subscriptions = kInputRoles, ba_report_handles = [3, 4, 0]\<rparr>"

definition demo_tuple :: ble_authority where
  "demo_tuple = \<lparr>bl_authority_epoch = 1, bl_route_generation = 1, bl_ble_generation = 1,
         bl_connection_handle = 5, bl_profile_activation_epoch = 1,
         bl_present_roles = 3, bl_required_input_subscriptions = 3,
         bl_report_handles = [3, 4, 0], bl_active = True, bl_releasing = False,
         bl_release_epoch = 1, bl_coherent = True\<rparr>"

definition demo_ready :: runtime where
  "demo_ready = runtime_init\<lparr>rt_route := route1, rt_authority_epoch := 1, rt_release_epoch := 1,
     rt_next_profile_activation_epoch := 2, rt_ble_sequence := 2, rt_ble := demo_tuple\<rparr>"

lemma route_facts:
  "alone snapshot route_init = (\<lparr>route_snapshot.sn_desired = RouteNone, sn_active = RouteNone, sn_generation = 0, sn_transition = RouteStable, sn_pending = False, sn_coherent = True\<rparr>, route_init)"
  "alone snapshot route1 = (\<lparr>route_snapshot.sn_desired = RouteBle, sn_active = RouteBle, sn_generation = 1, sn_transition = RouteStable, sn_pending = False, sn_coherent = True\<rparr>, route1)"
  "alone commit_ble_if_none route_init = (True, route1)"
 "alone (route_matches RouteBle 1) route1 = (True, route1)"
 "alone (route_matches RouteUsb 1) route1 = (False, route1)"
 by code_simp+

lemmas exec = alone_bind alone_steps exec_prog exec_loads exec_route exec_ble


lemma init_fields:
  "rt_route runtime_init = route_init" "rt_authority_epoch runtime_init = 0" "rt_release_epoch runtime_init = 0"
  "rt_next_profile_activation_epoch runtime_init = 1" "rt_ble_sequence runtime_init = 0" "rt_ble runtime_init = ble_init"
  "rt_ifs runtime_init i = interface_init" "rt_release runtime_init = release_init"
  "rt_tickets runtime_init i = ticket_init (report_size i)" "rt_release_requested runtime_init = False"
  "rt_sent runtime_init = []" "rt_holders runtime_init = []" "rt_next_holder runtime_init = 0" "rt_gate runtime_init = 0"
  "rt_sequence_generation runtime_init = 0" "rt_next_public_ticket_id runtime_init = 1" "rt_status_bits runtime_init = 0"
  by (simp_all add: runtime_init_def)

lemma demo_handles: "input_route_definition_valid kInputRoles kInputRoles [3, 4, 0]" "kInputRoles = 3"
  by code_simp+


lemma put_same: "f (rt_tickets s i) = rt_tickets s i \<Longrightarrow> put_ticket i f s = s"
  by (simp add: put_ticket_def fun_upd_idem)

lemma canceled_same: "tk_state t \<noteq> TkWriting \<Longrightarrow> tk_state t \<noteq> TkPublished \<Longrightarrow> canceled_ticket oc t = t"
  by (simp add: canceled_ticket_def)


lemma exec_retire: 
  assumes "\<And>i. tk_state (rt_tickets s i) = TkFree" "ra_state (rt_release s) = RsInactive"
  shows "alone retire_unsafe_route_authority s =
    ((), s\<lparr>rt_authority_epoch := rt_authority_epoch s + 1, rt_release_epoch := rt_release_epoch s + 1\<rparr>)"
  using assms
  by (simp add: retire_unsafe_route_authority_def exec cancel_release_ticket_def cancel_tickets_def
    cancel_keyboard_ticket_def cancel_mouse_ticket_def cancel_ticket_def put_same canceled_same bump_authority_def bump_release_def)

lemma exec_publish: "alone (publish_ble_route_authority a e n) s = 
   ((), s\<lparr>rt_ble_sequence := rt_ble_sequence s + 1 + 1, rt_ble := (rt_ble s)\<lparr>bl_authority_epoch := e, bl_route_generation := n,
     bl_ble_generation := ba_ble_generation a, bl_connection_handle := ba_connection_handle a, bl_profile_activation_epoch := ba_profile_activation_epoch a,
     bl_present_roles := ba_present_roles a, bl_required_input_subscriptions := ba_required_input_subscriptions a,
     bl_report_handles := (bl_report_handles (rt_ble s))[0 := ba_report_handles a ! 0, 1 := ba_report_handles a ! 1, 2 := ba_report_handles a ! 2],
     bl_active := True, bl_releasing := False, bl_release_epoch := rt_release_epoch s\<rparr>\<rparr>)"
  by (simp add: exec publish_ble_route_authority_def ble_tick_def stores.simps release_epoch_def)

lemma exec_safety: "alone any_safety_required s = (if_safety_required (rt_ifs s KeyboardIf) \<or> if_safety_required (rt_ifs s MouseIf), s)"
  by (simp add: any_safety_required_def exec)

lemma exec_allocate: "rt_next_profile_activation_epoch s = 1 \<Longrightarrow> alone allocate_profile_activation s = (Some 1, s\<lparr>rt_next_profile_activation_epoch := 2\<rparr>)"
  by (simp add: allocate_profile_activation_def allocate_generation_def)

lemma exec_epochs: "alone authority_epoch s = (rt_authority_epoch s, s)" "alone release_epoch s = (rt_release_epoch s, s)"
   "alone release_requested s = (rt_release_requested s, s)"
  by (simp_all add: authority_epoch_def release_epoch_def release_requested_def exec)

lemma route_free: "tk_state (ticket_init n) = TkFree" "ra_state release_init = RsInactive" "if_safety_required interface_init = False"
   by (simp_all add: ticket_init_def release_init_def interface_init_def)

lemma demo_route: "alone (request_route_ble demo_activation) runtime_init = 
    ((RtAccepted, False, Some (route_only \<lparr>route_snapshot.sn_desired = RouteBle, sn_active = RouteBle, sn_generation = 1, sn_transition = RouteStable, sn_pending = False, sn_coherent = True\<rparr> True)), demo_ready)"
  apply (simp add: request_route_ble_def exec init_fields route_facts demo_activation_def demo_handles(1) kNoBleConnection_def
    exec_epochs exec_safety exec_allocate exec_retire exec_publish stable_route_def route_free)
  apply (simp add: demo_ready_def demo_tuple_def demo_handles(2) ble_init_def no_handles_def)
  done

lemma ready_fields:
  "rt_route demo_ready = route1" "rt_authority_epoch demo_ready = 1" "rt_release_epoch demo_ready = 1"
  "rt_ble_sequence demo_ready = 2" "rt_ble demo_ready = demo_tuple"
  "rt_ifs demo_ready i = interface_init" "rt_release demo_ready = release_init"
  "rt_tickets demo_ready i = ticket_init (report_size i)" "rt_release_requested demo_ready = False"
  "rt_sent demo_ready = []" "rt_holders demo_ready = []" "rt_next_holder demo_ready = 0" "rt_gate demo_ready = 0"
  "rt_sequence_generation demo_ready = 0" "rt_next_public_ticket_id demo_ready = 1" "rt_status_bits demo_ready = 0"
  by (simp_all add: demo_ready_def init_fields)

lemma exec_debt: "alone safety_debt s = (release_transaction_active (ra_state (rt_release s)) \<or> rt_release_requested s
    \<or> if_safety_required (rt_ifs s KeyboardIf) \<or> if_safety_required (rt_ifs s MouseIf), s)"
  by (simp add: safety_debt_def exec exec_safety exec_epochs release_producers_blocked_def)

lemma exec_look: "rt_route s = r \<Longrightarrow> alone p r = (a, r) \<Longrightarrow> alone (on_route p) s = (a, s)"
  using exec_route [of p s a r] by (cases s) simp

lemma exec_usb_route: "rt_route s = route1 \<Longrightarrow> alone (unsafe_route_active 1 TransportUsb) s = (False, s)"
  unfolding unsafe_route_active_def by (simp add: exec_look [OF _ route_facts(5)])

lemma exec_ble_route: "rt_route s = route1 \<Longrightarrow> rt_ble s = demo_tuple \<Longrightarrow> rt_ble_sequence s = 2 \<Longrightarrow> rt_authority_epoch s = 1 \<Longrightarrow>
    alone (unsafe_route_active 1 TransportBle) s = (True, s)"
  by (simp add: unsafe_route_active_def exec route_facts exec_epochs demo_tuple_def)

lemma exec_tuple: "rt_ble s = demo_tuple \<Longrightarrow> rt_ble_sequence s = 2 \<Longrightarrow> alone ble_snapshot s = (demo_tuple, s)"
  by (simp add: exec_ble demo_tuple_def)

lemma exec_status: "alone runtime_status s = (status_of (rt_status_bits s), s)"
  by (simp add: runtime_status_def exec)

definition demo_ticket :: report_ticket where
  "demo_ticket = \<lparr>tk_state = TkPublished, tk_transport_generation = 1, tk_authority_epoch = 1,
     tk_route_generation = 1, tk_transport = TransportBle, tk_profile_activation_epoch = 1, tk_ticket_id = 1,
     tk_release_epoch = 1, tk_sequence_generation = 0, tk_originating_local_owner_id = 7, tk_connection_handle = 5,
     tk_characteristic_handle = 3, tk_ble_action_pending = False, tk_outcome = ToNone,
     tk_report = [2, 0, 4, 0, 0, 0, 0, 0]\<rparr>"

definition demo_published :: runtime where
  "demo_published = demo_ready\<lparr>rt_tickets := (rt_tickets demo_ready)(KeyboardIf := demo_ticket), rt_next_public_ticket_id := 2,
     rt_next_holder := 1\<rparr>"

lemma demo_roles: "has_role 3 RoleKeyboardInput" "handle_get [3, 4, 0] RoleKeyboardInput = 3" by code_simp+

lemma exec_free: "tk_state (rt_tickets s KeyboardIf) = TkFree \<Longrightarrow> alone (reap_ticket KeyboardIf) s = (True, s)"
  by (simp add: reap_ticket_def exec)

lemma exec_sequence: "alone sequence_active s = (rt_sequence_generation s \<noteq> 0, s)"
  by (simp add: sequence_active_def exec)

lemma exec_admission: "rt_gate s = 0 \<Longrightarrow> alone (try_admission safety) s =
   (Acquired (rt_next_holder s), s\<lparr>rt_gate := 1, rt_holders := (rt_next_holder s, safety) # rt_holders s, rt_next_holder := rt_next_holder s + 1\<rparr>)"
  by (simp add: try_admission_def admission_step_def acquire_def kAdmissionMask_def)

lemma exec_leave: "alone (leave_admission n) s = ((), s\<lparr>rt_gate := rt_gate s - 1, rt_holders := filter (\<lambda>h. fst h \<noteq> n) (rt_holders s)\<rparr>)"
  by (simp add: leave_admission_def exec)

lemma exec_work: "rt_route s = route1 \<Longrightarrow> rt_ble s = demo_tuple \<Longrightarrow> rt_ble_sequence s = 2 \<Longrightarrow> rt_authority_epoch s = 1 \<Longrightarrow>
    rt_release_epoch s = 1 \<Longrightarrow> rt_sequence_generation s = 0 \<Longrightarrow> alone (unsafe_work_current KeyboardIf (ticket_token KeyboardIf demo_ticket)) s = (True, s)"
  by (simp add: unsafe_work_current_def exec exec_epochs exec_ble_route exec_tuple ticket_token_def demo_ticket_def ble_tuple_current_def)
     (simp add: demo_tuple_def demo_roles)


definition demo_snapshot :: route_snapshot where
  "demo_snapshot = \<lparr>route_snapshot.sn_desired = RouteBle, sn_active = RouteBle, sn_generation = 1, sn_transition = RouteStable, sn_pending = False, sn_coherent = True\<rparr>"

definition demo_held :: runtime where
  "demo_held = demo_ready\<lparr>rt_gate := 1, rt_holders := [(0, False)], rt_next_holder := 1\<rparr>"

lemma held_fields:
  "rt_route demo_held = route1" "rt_authority_epoch demo_held = 1" "rt_release_epoch demo_held = 1"
  "rt_ble_sequence demo_held = 2" "rt_ble demo_held = demo_tuple"
  "rt_ifs demo_held i = interface_init" "rt_release demo_held = release_init"
  "rt_tickets demo_held i = ticket_init (report_size i)" "rt_release_requested demo_held = False"
  "rt_sent demo_held = []" 
  "rt_sequence_generation demo_held = 0" "rt_next_public_ticket_id demo_held = 1" "rt_status_bits demo_held = 0"
  by (simp_all add: demo_held_def ready_fields)

definition demo_token0 :: work_token where
  "demo_token0 = (ticket_token KeyboardIf demo_ticket)\<lparr>wt_ticket_id := 0\<rparr>"

definition demo_writing :: runtime where
  "demo_writing = demo_held\<lparr>rt_tickets := (rt_tickets demo_held)(KeyboardIf := demo_ticket\<lparr>tk_state := TkWriting\<rparr>), rt_next_public_ticket_id := 2\<rparr>"

lemma demo_reserve: "alone (reserve_ticket KeyboardIf (fill_ticket demo_token0 [2, 0, 4, 0, 0, 0, 0, 0])) demo_held = (Inr 1, demo_writing)"
  by (simp add: reserve_ticket_def exec held_fields ticket_init_def allocate_public_ticket_id_def put_ticket_def
    fill_ticket_def demo_token0_def demo_ticket_def ticket_token_def demo_writing_def)

lemma writing_fields:
  "rt_route demo_writing = route1" "rt_authority_epoch demo_writing = 1" "rt_release_epoch demo_writing = 1"
  "rt_ble_sequence demo_writing = 2" "rt_ble demo_writing = demo_tuple"
  "rt_ifs demo_writing i = interface_init" "rt_release demo_writing = release_init"
  "rt_tickets demo_writing KeyboardIf = demo_ticket\<lparr>tk_state := TkWriting\<rparr>" "rt_release_requested demo_writing = False"
  "rt_sequence_generation demo_writing = 0" 
  by (simp_all add: demo_writing_def held_fields)

lemma exec_publish_ticket: 
  "tk_state (rt_tickets s i) = TkWriting \<Longrightarrow> tk_ticket_id (rt_tickets s i) = wt_ticket_id t \<Longrightarrow>
   alone (publish_ticket i t c st False) s = ((BrPublished, wt_ticket_id t), put_ticket i (\<lambda>t. t\<lparr>tk_state := TkPublished\<rparr>) s)"
  by (simp add: publish_ticket_def publish_section_def exec)

lemma token_again: "demo_token0\<lparr>wt_ticket_id := 1, wt_profile_activation_epoch := 1, wt_connection_handle := 5,
      wt_characteristic_handle := 3\<rparr> = ticket_token KeyboardIf demo_ticket"
  by (simp add: demo_token0_def ticket_token_def demo_ticket_def)

lemma ticket_fields: "tk_profile_activation_epoch demo_ticket = 1" "tk_connection_handle demo_ticket = 5" "tk_characteristic_handle demo_ticket = 3"
    "tk_ticket_id demo_ticket = 1" "wt_ticket_id (ticket_token KeyboardIf demo_ticket) = 1" "wt_release_epoch (ticket_token KeyboardIf demo_ticket) = 1"
    "sq_generation no_sequence = 0" "if_in_flight interface_init = False" "if_slot_state interface_init = MbEmpty" "if_safety_required interface_init = False"
     "ra_state release_init = RsInactive" "release_transaction_active RsInactive = False"
  by (simp_all add: demo_ticket_def ticket_token_def no_sequence_def interface_init_def release_init_def release_transaction_active_def)

lemma token_epoch: "wt_release_epoch demo_token0 = 1" by (simp add: demo_token0_def ticket_fields)

lemma demo_finish: "alone (finish_begin KeyboardIf (demo_token0\<lparr>wt_ticket_id := 1\<rparr>) no_sequence) demo_writing =
   ((BrPublished, 1), put_ticket KeyboardIf (\<lambda>t. t\<lparr>tk_state := TkPublished\<rparr>) demo_writing)"
  by (simp add: finish_begin_def Let_def exec writing_fields ticket_fields token_again exec_sequence exec_work exec_epochs
    release_producers_blocked_def exec_safety exec_publish_ticket token_epoch)


lemma tuple_fields: "bl_authority_epoch demo_tuple = 1" "bl_route_generation demo_tuple = 1" "bl_ble_generation demo_tuple = 1"
  "bl_connection_handle demo_tuple = 5" "bl_profile_activation_epoch demo_tuple = 1" "bl_present_roles demo_tuple = 3"
  "bl_report_handles demo_tuple = [3, 4, 0]" "bl_active demo_tuple" "bl_coherent demo_tuple" "\<not> bl_releasing demo_tuple"
  "bl_release_epoch demo_tuple = 1"
  by (simp_all add: demo_tuple_def)

lemma demo_write: "alone (write_ticket KeyboardIf [2, 0, 4, 0, 0, 0, 0, 0] no_sequence 7 False demo_snapshot demo_tuple) demo_held =
   ((BrPublished, 1), put_ticket KeyboardIf (\<lambda>t. t\<lparr>tk_state := TkPublished\<rparr>) demo_writing)"
proof -
  have t: "\<lparr>wt_authority_epoch = 1, wt_route_generation = 1, wt_transport_generation = 1,
           wt_profile_activation_epoch = 1,
           wt_ticket_id = 0, wt_release_epoch = 1, wt_sequence_generation = 0,
           wt_originating_local_owner_id = 7,
           wt_connection_handle = 5,
           wt_characteristic_handle = 3,
           wt_transport = TransportBle,
           wt_report_kind = UnsafeKeyboard\<rparr> = demo_token0"
   by (simp add: demo_token0_def ticket_token_def demo_ticket_def)
  have f: "alone (finish_begin KeyboardIf \<lparr>wt_authority_epoch = 1, wt_route_generation = 1,
           wt_transport_generation = 1, wt_profile_activation_epoch = 1,
           wt_ticket_id = 1, wt_release_epoch = 1,
           wt_sequence_generation = 0, wt_originating_local_owner_id = 7,
           wt_connection_handle = 5, wt_characteristic_handle = 3,
           wt_transport = TransportBle, wt_report_kind = UnsafeKeyboard\<rparr> no_sequence) demo_writing =
     ((BrPublished, 1), put_ticket KeyboardIf (\<lambda>t. t\<lparr>tk_state := TkPublished\<rparr>) demo_writing)"
    using demo_finish unfolding demo_token0_def ticket_token_def demo_ticket_def by simp
  have n: "route_snapshot.sn_generation demo_snapshot = 1" by (simp add: demo_snapshot_def)
  show ?thesis
    by (simp add: write_ticket_def exec held_fields exec_epochs n tuple_fields demo_roles ticket_fields t demo_reserve f)
qed

lemma status_off: "st_mounted (status_of 0) = False" by (simp add: status_of_def kMountedBit_def)

lemma admission_ready: "alone (try_admission False) demo_ready = (Acquired 0, demo_held)"
  by (simp add: exec_admission ready_fields demo_held_def)

lemma look_route: "rt_route s = route1 \<Longrightarrow> alone (on_route snapshot) s = (demo_snapshot, s)"
  unfolding demo_snapshot_def by (rule exec_look [OF _ route_facts(2)])

lemma snapshot_fields: "route_snapshot.sn_generation demo_snapshot = 1" "sn_active demo_snapshot = RouteBle" "sn_coherent demo_snapshot"
  by (simp_all add: demo_snapshot_def)

lemmas exec_plain = alone_bind alone_steps exec_prog exec_loads

lemma demo_confirmed: "alone (confirmed_keyboard_equals [2, 0, 4, 0, 0, 0, 0, 0]) demo_held = (False, demo_held)"
proof -
  have c: "if_confirmed_low interface_init = 0" "if_confirmed_high interface_init = 0" by (simp_all add: interface_init_def)
  have "unpack_bytes 0 = [0, 0, 0, 0]" by code_simp
  then show ?thesis by (simp add: confirmed_keyboard_equals_def read_confirmed_keyboard_def exec_plain held_fields c)
qed

lemma demo_begin: "alone (begin_keyboard_report 2 [4, 0, 0, 0, 0, 0] no_sequence 7) demo_ready = ((BrPublished, 1), demo_published)"
proof -
  have e: "snd (alone (leave_admission 0) (put_ticket KeyboardIf (\<lambda>t. t\<lparr>tk_state := TkPublished\<rparr>) demo_writing)) = demo_published"
    by (simp add: exec_leave put_ticket_def demo_writing_def demo_held_def demo_published_def demo_ticket_def ready_fields)
  have "alone (leave_admission 0) (put_ticket KeyboardIf (\<lambda>t. t\<lparr>tk_state := TkPublished\<rparr>) demo_writing) = ((), demo_published)"
    using e by (cases "alone (leave_admission 0) (put_ticket KeyboardIf (\<lambda>t. t\<lparr>tk_state := TkPublished\<rparr>) demo_writing)") simp
  then show ?thesis
  by (simp add: begin_keyboard_report_def begin_report_def scoped_def Let_def exec_plain admission_ready ticket_fields held_fields
    exec_sequence exec_status exec_tuple exec_usb_route exec_ble_route exec_epochs exec_debt ticket_terminal_def ticket_init_def exec_free
    look_route status_off snapshot_fields tuple_fields demo_roles demo_confirmed demo_write)
qed

definition demo_token :: work_token where "demo_token = ticket_token KeyboardIf demo_ticket"

definition demo_scheduled :: runtime where
  "demo_scheduled = put_ticket KeyboardIf (\<lambda>t. t\<lparr>tk_ble_action_pending := True\<rparr>) demo_published"

lemma published_fields:
  "rt_route demo_published = route1" "rt_authority_epoch demo_published = 1" "rt_release_epoch demo_published = 1"
  "rt_ble_sequence demo_published = 2" "rt_ble demo_published = demo_tuple"
  "rt_ifs demo_published i = interface_init" "rt_release demo_published = release_init"
  "rt_tickets demo_published KeyboardIf = demo_ticket" "rt_release_requested demo_published = False"
  "rt_sequence_generation demo_published = 0" "rt_sent demo_published = []" "rt_next_public_ticket_id demo_published = 2"
  "rt_gate demo_published = 0" "rt_holders demo_published = []"
  by (simp_all add: demo_published_def ready_fields)

lemma token_same: "same_work_token demo_token demo_token" by (simp add: same_work_token_def)

lemma token_facts: "ticket_token KeyboardIf demo_ticket = demo_token" "ticket_token KeyboardIf (demo_ticket\<lparr>tk_ble_action_pending := b\<rparr>) = demo_token"
  "ticket_token KeyboardIf (demo_ticket\<lparr>tk_ble_action_pending := b, tk_state := p\<rparr>) = demo_token"
  "ticket_token KeyboardIf (demo_ticket\<lparr>tk_state := p, tk_ble_action_pending := b\<rparr>) = demo_token"
  "wt_transport demo_token = TransportBle" "wt_ticket_id demo_token = 1"
  by (simp_all add: demo_token_def ticket_token_def demo_ticket_def)

lemma ticket_states: "tk_state demo_ticket = TkPublished" "tk_ble_action_pending demo_ticket = False" "tk_report demo_ticket = [2, 0, 4, 0, 0, 0, 0, 0]"
  by (simp_all add: demo_ticket_def)

lemma demo_mark: "alone (mark_ble_report_scheduled KeyboardIf demo_token) demo_published = (True, demo_scheduled)"
  by (simp add: mark_ble_report_scheduled_def exec_plain published_fields token_facts token_same ticket_states put_ticket_def demo_scheduled_def)

definition demo_claimed :: runtime where
  "demo_claimed = put_ticket KeyboardIf (\<lambda>t. t\<lparr>tk_state := TkClaimed, tk_ble_action_pending := False\<rparr>) demo_scheduled"

lemma demo_claim: "alone (claim_ble_ticket KeyboardIf demo_token) demo_scheduled = (Some [2, 0, 4, 0, 0, 0, 0, 0], demo_claimed)"
  by (simp add: claim_ble_ticket_def exec_plain published_fields token_facts token_same ticket_states put_ticket_def demo_scheduled_def demo_claimed_def)

lemma claimed_fields:
  "rt_route demo_claimed = route1" "rt_authority_epoch demo_claimed = 1" "rt_release_epoch demo_claimed = 1"
  "rt_ble_sequence demo_claimed = 2" "rt_ble demo_claimed = demo_tuple"
  "rt_ifs demo_claimed i = interface_init" "rt_release demo_claimed = release_init"
  "rt_tickets demo_claimed KeyboardIf = demo_ticket\<lparr>tk_state := TkClaimed\<rparr>" "rt_release_requested demo_claimed = False"
  "rt_sequence_generation demo_claimed = 0" "rt_sent demo_claimed = []" "rt_next_public_ticket_id demo_claimed = 2"
  by (simp_all add: demo_claimed_def demo_scheduled_def put_ticket_def published_fields demo_ticket_def)

lemma token_work: "rt_route s = route1 \<Longrightarrow> rt_ble s = demo_tuple \<Longrightarrow> rt_ble_sequence s = 2 \<Longrightarrow> rt_authority_epoch s = 1 \<Longrightarrow>
    rt_release_epoch s = 1 \<Longrightarrow> rt_sequence_generation s = 0 \<Longrightarrow> alone (unsafe_work_current KeyboardIf demo_token) s = (True, s)"
  unfolding demo_token_def by (rule exec_work)

lemma demo_process: "\<exists>s'. alone (process_ble_report KeyboardIf demo_token BleStackAccepted) demo_scheduled = (True, s')
    \<and> rt_sent s' = [\<lparr>su_ticket = Some 1, su_interface = KeyboardIf, su_transport = TransportBle, su_report = [2, 0, 4, 0, 0, 0, 0, 0], su_accepted = True\<rparr>]
    \<and> snapshot_ticket (rt_tickets s' KeyboardIf) = (TkSubmitted, ToSubmitted, 1)"
proof -
  have t: "ticket_token KeyboardIf (demo_ticket\<lparr>tk_state := TkClaimed\<rparr>) = demo_token" by (simp add: demo_token_def ticket_token_def demo_ticket_def)
  have f: "alone (ble_work_token_current KeyboardIf demo_token) demo_claimed = (True, demo_claimed)"
    by (simp add: ble_work_token_current_def exec_plain token_facts token_work claimed_fields t token_same)
  have h: "tk_ticket_id demo_ticket = 1" by (simp add: demo_ticket_def)
  show ?thesis
    by (simp add: process_ble_report_def Let_def exec_plain demo_claim token_facts f exec_debt claimed_fields ticket_fields submit_ble_ticket_def
      hand_over_def put_if_def write_confirmed_keyboard_def terminalize_def t token_same put_ticket_def snapshot_ticket_def h)
qed

lemma demo_cancel: "alone (cancel_keyboard_report 1) demo_published =
    (True, put_ticket KeyboardIf (\<lambda>t. t\<lparr>tk_outcome := ToNotReady, tk_state := TkCanceled\<rparr>) demo_published)"
  by (simp add: cancel_keyboard_report_def cancel_report_def exec_plain published_fields ticket_fields ticket_states)

lemma demo_sleep: "\<exists>s'. alone (claim_sleep_quiescence 0 0) runtime_init = (True, s') \<and> rt_gate s' = kGateClaimed"
proof -
  have l: "alone (on_route snapshot) s = (\<lparr>route_snapshot.sn_desired = RouteNone, sn_active = RouteNone, sn_generation = 0,
      sn_transition = RouteStable, sn_pending = False, sn_coherent = True\<rparr>, s)" if "rt_route s = route_init" for s
    by (rule exec_look [OF that route_facts(1)])
  have i: "if_logical_state_held interface_init = False" "if_host_state_uncertain interface_init = False" by (simp_all add: interface_init_def)
  have t: "tk_state (ticket_init n) = TkFree" "tk_ble_action_pending (ticket_init n) = False" for n by (simp_all add: ticket_init_def)
  show ?thesis
    by (simp add: claim_sleep_quiescence_def exec_plain cas_gate_def init_fields l exec_epochs stable_route_def profile_switch_quiescent_def
      exec_sequence release_producers_blocked_def ticket_fields known_all_up_def release_interface_work_pending_def
      lifecycle_detach_safety_clean_def exec_safety i t ticket_active_def slot_busy_def)
qed

section \<open>The example run\<close>

lemma demo_runs:
  "\<exists>es ts g. runtime_run es = (ts, demo_ready, g) \<and> ts 0 = Ret RaDone"
  "\<exists>es ts g. runtime_run es = (ts, demo_published, g) \<and> ts 0 = Ret (RaBegun KeyboardIf [2, 0, 4, 0, 0, 0, 0, 0] BrPublished 1)"
  "\<exists>es ts g. runtime_run es = (ts, demo_scheduled, g) \<and> ts 0 = Ret RaDone"
proof -
  have "runtime_run [] = ((\<lambda>t. Ret RaDone), runtime_init, no_tickets)" by (simp add: runtime_run_def)
  note start = call_alone [OF this, where t = 0 and a = RaDone]
  show r: "\<exists>es ts g. runtime_run es = (ts, demo_ready, g) \<and> ts 0 = Ret RaDone"
    using start [of "RcRouting (RcRouteBle demo_activation)" RaDone demo_ready]
    by (fastforce simp: answer_done_def exec_prog demo_route)
  have b: "alone (runtime_code (RcTicket (RcBeginKeyboard 2 [4, 0, 0, 0, 0, 0] no_sequence 7))) demo_ready =
      (RaBegun KeyboardIf [2, 0, 4, 0, 0, 0, 0, 0] BrPublished 1, demo_published)"
    by (simp add: exec_prog demo_begin)
  show p: "\<exists>es ts g. runtime_run es = (ts, demo_published, g) \<and> ts 0 = Ret (RaBegun KeyboardIf [2, 0, 4, 0, 0, 0, 0, 0] BrPublished 1)"
    using r call_alone [OF _ _ b, where t = 0] by (metis fun_upd_same)
  have m: "alone (runtime_code (RcTicket (RcMarkScheduled KeyboardIf demo_token))) demo_published = (RaDone, demo_scheduled)"
    by (simp add: answer_done_def exec_prog demo_mark)
  show "\<exists>es ts g. runtime_run es = (ts, demo_scheduled, g) \<and> ts 0 = Ret RaDone"
    using p call_alone [OF _ _ m, where t = 0] by (metis fun_upd_same)
qed

lemma ended_facts:
  assumes "runtime_inv (s, g)"
  shows "n \<in> tn_closed g \<Longrightarrow> \<forall>e \<in> set (sent_of n s). \<not> su_accepted e"
    "n \<in> tn_submitted g \<Longrightarrow> \<exists>e. sent_of n s = [e] \<and> su_accepted e"
proof -
  have h: "history_ok s g" by (rule inv_parts(2) [OF assms])
  show "n \<in> tn_closed g \<Longrightarrow> \<forall>e \<in> set (sent_of n s). \<not> su_accepted e" using h unfolding history_ok_def by blast
  assume n: "n \<in> tn_submitted g"
  then have "length (sent_of n s) \<le> 1" "\<exists>e \<in> set (sent_of n s). su_accepted e" using h unfolding history_ok_def by blast+
  then show "\<exists>e. sent_of n s = [e] \<and> su_accepted e" by (cases "sent_of n s") auto
qed

definition demo_entry :: submission where
  "demo_entry = \<lparr>su_ticket = Some 1, su_interface = KeyboardIf, su_transport = TransportBle,
     su_report = [2, 0, 4, 0, 0, 0, 0, 0], su_accepted = True\<rparr>"

text \<open>The published report is scheduled and processed; the producer looks at it.\<close>

lemma demo_end:
  obtains es ts g es1 ts1 s1 g1 es2 ts2 g2
  where "runtime_run es = (ts, demo_published, g)" "ts 0 = Ret (RaBegun KeyboardIf [2, 0, 4, 0, 0, 0, 0, 0] BrPublished 1)"
    "runtime_run (es @ es1) = (ts1, s1, g1)" "ts1 0 = Ret (RaProcessed 1 True)" "sent_of 1 s1 = [demo_entry]"
    "runtime_run ((es @ es1) @ es2) = (ts2, s1, g2)" "ts2 0 = Ret (RaSnapshot (Some (TkSubmitted, ToSubmitted, 1)))"
proof -
  obtain es ts g where e: "runtime_run es = (ts, demo_published, g)"
      "ts 0 = Ret (RaBegun KeyboardIf [2, 0, 4, 0, 0, 0, 0, 0] BrPublished 1)" using demo_runs(2) by blast
  have m: "alone (runtime_code (RcTicket (RcMarkScheduled KeyboardIf demo_token))) demo_published = (RaDone, demo_scheduled)"
    by (simp add: answer_done_def exec_prog demo_mark)
  obtain ea ga where a: "runtime_run (es @ ea) = (ts(0 := Ret RaDone), demo_scheduled, ga)"
    using call_alone [OF e m] by blast
  obtain s1 where s1: "alone (process_ble_report KeyboardIf demo_token BleStackAccepted) demo_scheduled = (True, s1)"
    "rt_sent s1 = [demo_entry]" "snapshot_ticket (rt_tickets s1 KeyboardIf) = (TkSubmitted, ToSubmitted, 1)"
    using demo_process unfolding demo_entry_def by blast
  have p: "alone (runtime_code (RcTicket (RcProcessBle KeyboardIf demo_token BleStackAccepted))) demo_scheduled = (RaProcessed 1 True, s1)"
    by (simp add: exec_prog s1(1) token_facts)
  obtain eb gb where b: "runtime_run ((es @ ea) @ eb) = (ts(0 := Ret (RaProcessed 1 True)), s1, gb)"
    using call_alone [OF a _ p, where t = 0 and a = RaDone] by auto
  have l: "alone (runtime_code (RcTicket (RcSnapshotNow KeyboardIf))) s1 = (RaSnapshot (Some (TkSubmitted, ToSubmitted, 1)), s1)"
    by (simp add: exec_prog report_snapshot_now_def exec_plain s1(3))
  obtain ec gc where c: "runtime_run (((es @ ea) @ eb) @ ec) = (ts(0 := Ret (RaSnapshot (Some (TkSubmitted, ToSubmitted, 1)))), s1, gc)"
    using call_alone [OF b _ l, where t = 0 and a = "RaProcessed 1 True"] by auto
  have d: "sent_of 1 s1 = [demo_entry]" by (simp add: sent_of_def s1(2) demo_entry_def)
  show thesis
    by (rule that [OF e, of "ea @ eb" "ts(0 := Ret (RaProcessed 1 True))" s1 gb ec
      "ts(0 := Ret (RaSnapshot (Some (TkSubmitted, ToSubmitted, 1))))" gc]) (use b c d in simp_all)
qed

section \<open>Properties\<close>

text \<open>
  C1: A report that a producer published is handed to a transport stack at most once, whatever the other
  tasks and callbacks do from then on, and with exactly the bytes of the call on its interface.
\<close>

theorem ticket_delivery:
  assumes "runtime_run es = (ts, s, g)" "ts t = Ret (RaBegun i report BrPublished n)"
    "runtime_run (es @ es') = (ts', s', g')"
  shows "length (sent_of n s') \<le> 1 \<and> (\<forall>e \<in> set (sent_of n s'). su_interface e = i \<and> su_report e = report)"
proof -
  obtain h where "(i, n, h, report) \<in> tn_begun g"
    using runtime_result [OF assms(1,2)] by (auto simp: published_def)
  then have b: "(i, n, h, report) \<in> tn_begun g'" using runtime_later [OF assms(1,3)] by (auto simp: runtime_base_def)
  then have "n \<in> begun_ids g'" unfolding begun_ids_def by force
  have hist: "history_ok s' g'" by (rule inv_parts(2) [OF runtime_reach [OF assms(3)]])
  have "su_interface e = i \<and> su_report e = report" if e: "e \<in> set (sent_of n s')" for e
  proof -
    have "e \<in> set (ticket_entries s')" "su_ticket e = Some n" using e by (simp_all add: sent_of_def ticket_entries_def)
    then obtain c where c: "c \<in> tn_begun g'" "describes e c" using hist unfolding history_ok_def by blast
    then have n: "fst (snd c) = fst (snd (i, n, h, report))" using \<open>su_ticket e = Some n\<close> by (auto simp: describes_def)
    have u: "\<forall>b \<in> tn_begun g'. \<forall>c \<in> tn_begun g'. fst (snd b) = fst (snd c) \<longrightarrow> b = c"
      using hist unfolding history_ok_def by blast
    have "c = (i, n, h, report)" by (rule mp [OF bspec [OF bspec [OF u c(1)] b] n])
    then show ?thesis using c(2) by (simp add: describes_def)
  qed
  then show ?thesis using hist \<open>n \<in> begun_ids g'\<close> unfolding history_ok_def by blast
qed

lemma ticket_delivery_witness:
  "\<exists>es es' ts ts' s s' g g'. runtime_run es = (ts, s, g)
     \<and> ts 0 = Ret (RaBegun KeyboardIf [2, 0, 4, 0, 0, 0, 0, 0] BrPublished 1) \<and> runtime_run (es @ es') = (ts', s', g')
     \<and> sent_of 1 s' = [demo_entry] \<and> length (sent_of 1 s') \<le> 1
     \<and> (\<forall>e \<in> set (sent_of 1 s'). su_interface e = KeyboardIf \<and> su_report e = [2, 0, 4, 0, 0, 0, 0, 0])"
proof (rule demo_end)
  fix es ts g es1 ts1 s1 g1
  assume r: "runtime_run es = (ts, demo_published, g)" "ts 0 = Ret (RaBegun KeyboardIf [2, 0, 4, 0, 0, 0, 0, 0] BrPublished 1)"
    "runtime_run (es @ es1) = (ts1, s1, g1)" "sent_of 1 s1 = [demo_entry]"
  show ?thesis
    using r ticket_delivery [OF r(1,2,3)] by blast
qed

text \<open>
  C10: A report whose cancellation succeeded never reaches a stack.
\<close>

theorem cancel_final:
  assumes "runtime_run es = (ts, s, g)" "ts t = Ret (RaCanceled n True)" "runtime_run (es @ es') = (ts', s', g')"
  shows "sent_of n s' = []"
  using runtime_result [OF assms(1,2)] runtime_later [OF assms(1,3)] by (auto simp: withdrawn_def runtime_base_def)

lemma cancel_final_witness:
  "\<exists>es ts s g. runtime_run es = (ts, s, g) \<and> ts 0 = Ret (RaCanceled 1 True) \<and> sent_of 1 s = []"
proof -
  obtain es ts g where e: "runtime_run es = (ts, demo_published, g)"
      "ts 0 = Ret (RaBegun KeyboardIf [2, 0, 4, 0, 0, 0, 0, 0] BrPublished 1)" using demo_runs(2) by blast
  obtain s where "alone (runtime_code (RcTicket (RcCancelReport KeyboardIf 1))) demo_published = (RaCanceled 1 True, s)"
    by (simp add: exec_prog demo_cancel)
  from call_alone [OF e this] obtain es' g' where "runtime_run (es @ es') = (ts(0 := Ret (RaCanceled 1 True)), s, g')" by blast
  from this cancel_final [OF this, of 0 1 "[]"] show ?thesis
    by (intro exI conjI) (assumption, simp_all)
qed

text \<open>
  C18: A report that the BLE worker reports as processed was accepted by the stack, once and for all.
\<close>

theorem processed_accepted:
  assumes "runtime_run es = (ts, s, g)" "ts t = Ret (RaProcessed n True)" "runtime_run (es @ es') = (ts', s', g')"
  shows "\<exists>e. sent_of n s' = [e] \<and> su_accepted e"
proof -
  have "n \<in> tn_submitted g'"
    using runtime_result [OF assms(1,2)] runtime_later [OF assms(1,3)] by (auto simp: processed_def runtime_base_def)
  then show ?thesis using ended_facts(2) [OF runtime_reach [OF assms(3)]] by blast
qed

lemma processed_accepted_witness:
  "\<exists>es ts s g e. runtime_run es = (ts, s, g) \<and> ts 0 = Ret (RaProcessed 1 True) \<and> sent_of 1 s = [e] \<and> su_accepted e"
proof (rule demo_end)
  fix es ts g es1 ts1 s1 g1
  assume r: "runtime_run (es @ es1) = (ts1, s1, g1)" "ts1 0 = Ret (RaProcessed 1 True)"
  have "\<exists>e. sent_of 1 s1 = [e] \<and> su_accepted e" using processed_accepted [OF r, of "[]" ts1 s1 g1] r(1) by simp
  then show ?thesis using r by blast
qed

text \<open>
  C11: A producer that reads a terminal state of its report reads what the stack answered, for good.
\<close>

theorem snapshot_tells:
  assumes "runtime_run es = (ts, s, g)" "ts t = Ret (RaSnapshot (Some (p, oc, n)))"
    "p = TkSubmitted \<or> p = TkCanceled \<or> p = TkNotReady" "runtime_run (es @ es') = (ts', s', g')"
  shows "(\<exists>e \<in> set (sent_of n s'). su_accepted e) \<longleftrightarrow> p = TkSubmitted"
proof -
  have "(p = TkSubmitted \<longrightarrow> n \<in> tn_submitted g') \<and> (p \<noteq> TkSubmitted \<longrightarrow> n \<in> tn_closed g')"
    using runtime_result [OF assms(1,2)] runtime_later [OF assms(1,4)] assms(3) by (auto simp: runtime_base_def)
  then show ?thesis using ended_facts [OF runtime_reach [OF assms(4)]] by (metis list.set_intros(1))
qed

lemma snapshot_tells_witness:
  "\<exists>es ts s g. runtime_run es = (ts, s, g) \<and> ts 0 = Ret (RaSnapshot (Some (TkSubmitted, ToSubmitted, 1)))
     \<and> (\<exists>e \<in> set (sent_of 1 s). su_accepted e)"
proof (rule demo_end)
  fix es es1 es2 ts2 s1 g2
  assume r: "runtime_run ((es @ es1) @ es2) = (ts2, s1, g2)" "ts2 0 = Ret (RaSnapshot (Some (TkSubmitted, ToSubmitted, 1)))"
  from snapshot_tells [OF r, of "[]"] r show ?thesis by auto
qed

text \<open>
  C12: The sleep gate counts the admissions; while it is claimed without a conflict no admitted operation is
  under way, and while it is claimed or committed at all only safety operations are.
\<close>

theorem sleep_gate_exclusive:
  assumes "runtime_run es = (ts, s, g)"
  shows "unat (rt_gate s AND kAdmissionMask) = length (rt_holders s)
    \<and> (rt_gate s AND kGateControlMask = kGateClaimed \<longrightarrow> rt_holders s = [])
    \<and> (rt_gate s AND kGateControlMask \<noteq> 0 \<longrightarrow> (\<forall>h \<in> set (rt_holders s). snd h))"
  using inv_parts(3) [OF runtime_reach [OF assms]] unfolding gate_ok_def gate_count_def gate_control_def gate_tests gate_and_count
  by auto

lemma sleep_gate_exclusive_witness:
  "\<exists>es ts s g. runtime_run es = (ts, s, g) \<and> rt_gate s = kGateClaimed \<and> rt_holders s = []"
proof -
  have r: "runtime_run [] = ((\<lambda>t. Ret RaDone), runtime_init, no_tickets)" by (simp add: runtime_run_def)
  obtain s where s: "alone (claim_sleep_quiescence 0 0) runtime_init = (True, s)" "rt_gate s = kGateClaimed"
    using demo_sleep by blast
  have "alone (runtime_code (RcSleep (RcClaimSleep 0 0))) runtime_init = (RaDone, s)"
    by (simp add: answer_done_def exec_prog s(1))
  from call_alone [OF r _ this, where t = 0 and a = RaDone] obtain es g where
    e: "runtime_run es = ((\<lambda>t. Ret RaDone)(0 := Ret RaDone), s, g)" by auto
  have "kGateClaimed AND kGateControlMask = kGateClaimed" by (simp add: kGateClaimed_def kGateControlMask_def)
  then have "rt_holders s = []" using sleep_gate_exclusive [OF e] s(2) by simp
  then show ?thesis using e s(2) by blast
qed

end
