(* ===== verification/BondRecovery.thy ===== *)
theory BondRecovery
  imports BondAssociation "HOL-Library.List_Lexorder" "HOL-Library.Multiset"
begin

text \<open>
  \<open>ble_transport/persistent_store_recovery.hpp\<close> and the keys of \<open>ble_transport/ble_transport.cpp\<close>: the
  identities of bonded peers, the keys under which the firmware keeps its own records of them, and the
  plan that removes records without a bond at start-up. The plan is shown to be exactly the sorted list of
  the records without a bond, and the keys to stand for one identity each.
\<close>

section \<open>Identities\<close>

datatype store_identity = StoreIdentity (si_type: u8) (si_value: "u8 list")

definition same_identity :: "store_identity \<Rightarrow> store_identity \<Rightarrow> bool" where
  "same_identity left right \<longleftrightarrow> si_type left = si_type right \<and> si_value left = si_value right"

definition valid_identity :: "store_identity \<Rightarrow> bool" where
  "valid_identity i = (if si_type i > 1 then False else if si_type i \<noteq> 0 then True else list_ex (\<lambda>b. b \<noteq> 0) (si_value i))"

text \<open>The array of an identity has six bytes.\<close>

abbreviation sized :: "store_identity \<Rightarrow> bool" where "sized i \<equiv> length (si_value i) = 6"

fun bytes_less :: "u8 list \<Rightarrow> u8 list \<Rightarrow> bool" where
  "bytes_less (x # xs) (y # ys) = (if x \<noteq> y then x < y else bytes_less xs ys)"
| "bytes_less _ _ = False"

definition identity_less :: "store_identity \<Rightarrow> store_identity \<Rightarrow> bool" where
  "identity_less left right =
     (if si_type left \<noteq> si_type right then si_type left < si_type right
      else bytes_less (si_value left) (si_value right))"

instantiation store_identity :: linorder
begin

definition less_eq_store_identity :: "store_identity \<Rightarrow> store_identity \<Rightarrow> bool" where
  "less_eq_store_identity a b \<longleftrightarrow> si_type a < si_type b \<or> si_type a = si_type b \<and> si_value a \<le> si_value b"

definition less_store_identity :: "store_identity \<Rightarrow> store_identity \<Rightarrow> bool" where
  "less_store_identity a b \<longleftrightarrow> si_type a < si_type b \<or> si_type a = si_type b \<and> si_value a < si_value b"

instance
  by standard (auto simp: less_eq_store_identity_def less_store_identity_def store_identity.expand)

end

lemma same_identity_eq: "same_identity a b \<longleftrightarrow> a = b"
  by (auto simp: same_identity_def store_identity.expand)

lemma bytes_less_lex: "length xs = length ys \<Longrightarrow> bytes_less xs ys \<longleftrightarrow> xs < ys"
  by (induction xs ys rule: bytes_less.induct) auto

lemma identity_less_lex: "sized a \<Longrightarrow> sized b \<Longrightarrow> identity_less a b \<longleftrightarrow> a < b"
  by (auto simp: identity_less_def less_store_identity_def bytes_less_lex)

section \<open>Keys\<close>

definition kSchemaKeyHex :: string where "kSchemaKeyHex = ''0123456789abcdef''"

definition key_hex :: "u8 \<Rightarrow> string" where
  "key_hex b = [kSchemaKeyHex ! unat (drop_bit 4 b), kSchemaKeyHex ! unat (b AND 0x0f)]"

text \<open>The key of an identity, without the NUL that ends it.\<close>

definition schema_key :: "store_identity \<Rightarrow> string" where
  "schema_key i = CHR ''r'' # key_hex (si_type i) @ concat (map key_hex (si_value i))"

definition lower_hex_value :: "char \<Rightarrow> int" where
  "lower_hex_value c =
     (if of_char CHR ''0'' \<le> (of_char c :: int) \<and> (of_char c :: int) \<le> of_char CHR ''9''
      then of_char c - of_char CHR ''0''
      else if of_char CHR ''a'' \<le> (of_char c :: int) \<and> (of_char c :: int) \<le> of_char CHR ''f''
      then of_char c - of_char CHR ''a'' + 10 else - 1)"

text \<open>A C string is the characters before its NUL; \<open>key[index]\<close> of one that is long enough.\<close>

abbreviation c_string :: "string \<Rightarrow> string" where "c_string s \<equiv> takeWhile (\<lambda>c. c \<noteq> CHR 0x00) s"

definition char_at :: "string \<Rightarrow> nat \<Rightarrow> char" where
  "char_at key n = (if n < length (c_string key) then c_string key ! n else CHR 0x00)"

definition hex_byte :: "int \<Rightarrow> int \<Rightarrow> u8" where
  "hex_byte high low = word_of_int (push_bit 4 high OR low)"

fun parse_bytes :: "string \<Rightarrow> nat list \<Rightarrow> u8 list option" where
  "parse_bytes key [] = Some []"
| "parse_bytes key (n # ns) =
     (let high = lower_hex_value (char_at key (3 + n * 2)); low = lower_hex_value (char_at key (4 + n * 2)) in
      if high < 0 \<or> low < 0 then None else map_option ((#) (hex_byte high low)) (parse_bytes key ns))"

definition parse_canonical_schema_key :: "string option \<Rightarrow> store_identity option" where
  "parse_canonical_schema_key k = (case k of None \<Rightarrow> None | Some key \<Rightarrow>
     if char_at key 0 \<noteq> CHR ''r'' then None
     else if list_ex (\<lambda>n. char_at key n = CHR 0x00) [1..<15] then None
     else if char_at key 15 \<noteq> CHR 0x00 then None
     else let type_high = lower_hex_value (char_at key 1); type_low = lower_hex_value (char_at key 2) in
       if type_high < 0 \<or> type_low < 0 then None
       else case parse_bytes key [0..<6] of None \<Rightarrow> None | Some value \<Rightarrow>
         let identity = StoreIdentity (hex_byte type_high type_low) value in
         if valid_identity identity then Some identity else None)"

definition parse_schema_key :: "string \<Rightarrow> store_identity option" where
  "parse_schema_key key = (case parse_canonical_schema_key (Some key) of None \<Rightarrow> None
     | Some identity \<Rightarrow> if c_string key = schema_key identity then Some identity else None)"

section \<open>Sets of identities\<close>

text \<open>A set is an array, as long as its capacity, and the number of its elements.\<close>

record identity_set =
  is_identities :: "store_identity list"
  is_count :: nat
  is_trustworthy :: bool

definition kSchemaRecoveryCapacity :: nat where "kSchemaRecoveryCapacity = 16"

fun entries_valid :: "store_identity list \<Rightarrow> bool" where
  "entries_valid [] = True"
| "entries_valid (left # rest) = (valid_identity left \<and> \<not> list_ex (same_identity left) rest \<and> entries_valid rest)"

definition entries :: "identity_set \<Rightarrow> store_identity list" where
  "entries s = take (is_count s) (is_identities s)"

definition valid_set :: "identity_set \<Rightarrow> bool" where
  "valid_set s \<longleftrightarrow> is_trustworthy s \<and> is_count s \<le> length (is_identities s) \<and> entries_valid (entries s)"

definition contains :: "identity_set \<Rightarrow> store_identity \<Rightarrow> bool" where
  "contains s i = list_ex (\<lambda>x. same_identity x i) (entries s)"

definition same_set :: "identity_set \<Rightarrow> identity_set \<Rightarrow> bool" where
  "same_set left right \<longleftrightarrow> valid_set left \<and> valid_set right \<and> is_count left = is_count right
     \<and> list_all (contains right) (entries left)"

section \<open>The recovery plan\<close>

datatype recovery_plan_kind = PlanReady | PlanStorageFailure

record recovery_plan =
  rp_kind :: recovery_plan_kind
  rp_orphans :: "store_identity list"
  rp_orphan_count :: nat

definition no_plan :: recovery_plan where
  "no_plan = \<lparr>rp_kind = PlanStorageFailure,
     rp_orphans = replicate kSchemaRecoveryCapacity (StoreIdentity 0 (replicate 6 0)), rp_orphan_count = 0\<rparr>"

fun collect_orphans :: "identity_set \<Rightarrow> identity_set \<Rightarrow> store_identity list \<Rightarrow> recovery_plan \<Rightarrow> recovery_plan option" where
  "collect_orphans our peer [] plan = Some plan"
| "collect_orphans our peer (i # is) plan =
     (if contains our i \<noteq> contains peer i then None
      else if \<not> contains our i
      then collect_orphans our peer is (plan\<lparr>rp_orphans := (rp_orphans plan)[rp_orphan_count plan := i],
             rp_orphan_count := rp_orphan_count plan + 1\<rparr>)
      else collect_orphans our peer is plan)"

definition exchange :: "nat \<Rightarrow> nat \<Rightarrow> store_identity list \<Rightarrow> store_identity list" where
  "exchange left right ids =
     (if identity_less (ids ! right) (ids ! left) then ids[left := ids ! right, right := ids ! left] else ids)"

definition sort_orphans :: "nat \<Rightarrow> store_identity list \<Rightarrow> store_identity list" where
  "sort_orphans n ids = fold (\<lambda>left. fold (exchange left) [left + 1..<n]) [0..<n] ids"

definition make_recovery_plan ::
    "identity_set \<Rightarrow> identity_set \<Rightarrow> identity_set \<Rightarrow> identity_set \<Rightarrow> identity_set \<Rightarrow> recovery_plan" where
  "make_recovery_plan persistent_our persistent_peer restored_our restored_peer schemas =
     (if \<not> valid_set persistent_our \<or> \<not> valid_set persistent_peer \<or> \<not> valid_set restored_our
        \<or> \<not> valid_set restored_peer \<or> \<not> valid_set schemas \<or> \<not> same_set persistent_our restored_our
        \<or> \<not> same_set persistent_peer restored_peer then no_plan
      else if \<not> list_all (contains persistent_peer) (entries persistent_our) then no_plan
      else if \<not> list_all (contains persistent_our) (entries persistent_peer) then no_plan
      else case collect_orphans persistent_our persistent_peer (entries schemas) no_plan of None \<Rightarrow> no_plan
        | Some plan \<Rightarrow> plan\<lparr>rp_orphans := sort_orphans (rp_orphan_count plan) (rp_orphans plan), rp_kind := PlanReady\<rparr>)"

text \<open>The deletion of the orphans in order, with the status and the number of the deleted ones.\<close>

fun delete_orphans :: "(store_identity \<Rightarrow> 'w \<Rightarrow> i32 \<times> 'w) \<Rightarrow> store_identity list \<Rightarrow> nat \<Rightarrow> 'w \<Rightarrow> (i32 \<times> nat) \<times> 'w" where
  "delete_orphans delete [] n w = ((0, n), w)"
| "delete_orphans delete (i # is) n w =
     (case delete i w of (status, w') \<Rightarrow>
        if status \<noteq> 0 then ((status, n), w') else delete_orphans delete is (n + 1) w')"

definition run_orphan_recovery ::
    "recovery_plan \<Rightarrow> (store_identity \<Rightarrow> 'w \<Rightarrow> i32 \<times> 'w) \<Rightarrow> 'w \<Rightarrow> (i32 \<times> nat) \<times> 'w" where
  "run_orphan_recovery plan delete w =
     (if rp_kind plan \<noteq> PlanReady \<or> rp_orphan_count plan > length (rp_orphans plan) then ((- 1, 0), w)
      else delete_orphans delete (take (rp_orphan_count plan) (rp_orphans plan)) 0 w)"

section \<open>Keys stand for identities\<close>

lemma hex_digit_value:
  assumes "(n :: nat) < 16"
  shows "lower_hex_value (kSchemaKeyHex ! n) = int n" "kSchemaKeyHex ! n \<noteq> CHR 0x00"
proof -
  have "list_all (\<lambda>n. lower_hex_value (kSchemaKeyHex ! n) = int n \<and> kSchemaKeyHex ! n \<noteq> CHR 0x00) [0..<16]" by code_simp
  then show "lower_hex_value (kSchemaKeyHex ! n) = int n" "kSchemaKeyHex ! n \<noteq> CHR 0x00"
    using assms by (simp_all add: list_all_iff)
qed

lemma byte_nibbles: "unat (drop_bit 4 (b :: u8)) < 16" "unat (b AND 0x0f) < 16"
proof -
  have "unat b < 256" using unsigned_less [of b] by simp
  then show "unat (drop_bit 4 b) < 16" by (simp add: drop_bit_eq_div unat_div)
  have "unat (b AND mask 4) < 2 ^ 4" using take_bit_nat_less_exp [of 4 "unat b"] by (simp add: take_bit_eq_mask [symmetric] unsigned_take_bit_eq)
  then show "unat (b AND 0x0f) < 16" by (simp add: mask_eq_exp_minus_1)
qed

lemma hex_byte_nibbles: "hex_byte (uint (drop_bit 4 b)) (uint (b AND 0x0f)) = b"
proof -
  have "word_of_int (push_bit 4 (uint (drop_bit 4 b)) OR uint (b AND mask 4)) = b"
  proof (rule bit_word_eqI)
    fix n assume "n < LENGTH(8)"
    then show "bit (word_of_int (push_bit 4 (uint (drop_bit 4 b)) OR uint (b AND mask 4)) :: u8) n = bit b n"
      by (auto simp: bit_word_of_int_iff bit_or_iff bit_push_bit_iff bit_uint_iff bit_drop_bit_eq bit_and_iff bit_mask_iff not_less)
  qed
  then show ?thesis by (simp add: hex_byte_def mask_eq_exp_minus_1)
qed

lemma length_key_hex: "length (key_hex b) = 2"
  by (simp add: key_hex_def)

lemma length_schema_key: "sized i \<Longrightarrow> length (schema_key i) = 15"
  by (simp add: schema_key_def length_concat comp_def length_key_hex sum_list_triv)

lemma key_hex_no_nul: "CHR 0x00 \<notin> set (key_hex b)"
  using hex_digit_value(2) [OF byte_nibbles(1) [of b]] hex_digit_value(2) [OF byte_nibbles(2) [of b]] by (auto simp: key_hex_def)

lemma c_string_schema_key: "c_string (schema_key i) = schema_key i"
  by (rule takeWhile_eq_all_conv [THEN iffD2]) (use key_hex_no_nul in \<open>auto simp: schema_key_def\<close>)

text \<open>The bytes of a key that is long enough are read where they were written.\<close>

lemma concat_pair_nth:
  "n < length bs \<Longrightarrow> concat (map key_hex bs) ! (n * 2) = key_hex (bs ! n) ! 0
     \<and> concat (map key_hex bs) ! (Suc (n * 2)) = key_hex (bs ! n) ! 1"
proof (induction bs arbitrary: n)
  case (Cons b bs)
  then show ?case by (cases n) (simp_all add: nth_append length_key_hex)
qed simp

lemma schema_key_nth:
  assumes "c_string key = schema_key i" "sized i"
  shows "char_at key 0 = CHR ''r''" "char_at key (Suc 0) = key_hex (si_type i) ! 0" "char_at key 2 = key_hex (si_type i) ! 1"
    "n < 6 \<Longrightarrow> char_at key (3 + n * 2) = key_hex (si_value i ! n) ! 0"
    "n < 6 \<Longrightarrow> char_at key (4 + n * 2) = key_hex (si_value i ! n) ! 1"
    "char_at key 15 = CHR 0x00" "n < 15 \<Longrightarrow> char_at key n \<noteq> CHR 0x00"
proof -
  have l: "length (c_string key) = 15" using assms length_schema_key by simp
  have k: "schema_key i = [CHR ''r'', key_hex (si_type i) ! 0, key_hex (si_type i) ! 1] @ concat (map key_hex (si_value i))"
    by (simp add: schema_key_def key_hex_def)
  show "char_at key 0 = CHR ''r''" "char_at key (Suc 0) = key_hex (si_type i) ! 0" "char_at key 2 = key_hex (si_type i) ! 1"
    using l by (simp_all add: char_at_def assms(1) k numeral_2_eq_2)
  show "char_at key 15 = CHR 0x00" by (simp add: char_at_def l)
  show "char_at key n \<noteq> CHR 0x00" if "n < 15"
    using that l nth_mem [of n "c_string key"] set_takeWhileD [of _ "\<lambda>c. c \<noteq> CHR 0x00" key] by (auto simp: char_at_def)
  show "char_at key (3 + n * 2) = key_hex (si_value i ! n) ! 0" "char_at key (4 + n * 2) = key_hex (si_value i ! n) ! 1" if "n < 6"
    using that l concat_pair_nth [of n "si_value i"] assms(2) by (simp_all add: char_at_def assms(1) k)
qed

lemma key_hex_values:
  "lower_hex_value (key_hex b ! 0) = uint (drop_bit 4 b)" "lower_hex_value (key_hex b ! Suc 0) = uint (b AND 0x0f)"
  by (simp_all add: key_hex_def hex_digit_value(1) byte_nibbles)

lemma parse_bytes_of:
  assumes "\<And>n. n \<in> set ns \<Longrightarrow> char_at key (3 + n * 2) = key_hex (f n) ! 0 \<and> char_at key (4 + n * 2) = key_hex (f n) ! 1"
  shows "parse_bytes key ns = Some (map f ns)"
  using assms by (induction ns) (simp_all add: key_hex_values hex_byte_nibbles)

lemma parse_bytes_length: "parse_bytes key ns = Some bs \<Longrightarrow> length bs = length ns"
  by (induction ns arbitrary: bs) (auto simp: Let_def split: if_splits)

lemma parse_schema_key_iff:
  "parse_schema_key key = Some i \<longleftrightarrow> valid_identity i \<and> length (si_value i) = 6 \<and> c_string key = schema_key i"
proof
  assume "parse_schema_key key = Some i"
  then have c: "parse_canonical_schema_key (Some key) = Some i" "c_string key = schema_key i"
    by (auto simp: parse_schema_key_def split: option.splits if_splits)
  from c(1) have "valid_identity i \<and> length (si_value i) = 6"
    by (auto simp: parse_canonical_schema_key_def Let_def dest!: parse_bytes_length split: option.splits if_splits)
  with c(2) show "valid_identity i \<and> length (si_value i) = 6 \<and> c_string key = schema_key i" by simp
next
  assume a: "valid_identity i \<and> length (si_value i) = 6 \<and> c_string key = schema_key i"
  then have s: "sized i" and k: "c_string key = schema_key i" by simp_all
  note at = schema_key_nth [OF k s]
  have b: "parse_bytes key [0..<6] = Some (map (\<lambda>n. si_value i ! n) [0..<6])"
    by (rule parse_bytes_of) (simp add: at(4,5))
  have m: "map (\<lambda>n. si_value i ! n) [0..<6] = si_value i" using s by (metis map_nth)
  have nul: "list_ex (\<lambda>n. char_at key n = CHR 0x00) [Suc 0..<15] = False" using at(7) by (auto simp: list_ex_iff)
  have "parse_canonical_schema_key (Some key) = Some i"
    using a by (simp add: parse_canonical_schema_key_def nul at(1,2,3,6) key_hex_values hex_byte_nibbles b m)
  then show "parse_schema_key key = Some i" by (simp add: parse_schema_key_def k)
qed

text \<open>
  C30: A key parses to an identity exactly when it is the key of that identity, so two peers never share a
  record and a record that is found belongs to one peer.
\<close>

theorem schema_key_roundtrip:
  "parse_schema_key key = Some i \<longleftrightarrow> valid_identity i \<and> length (si_value i) = 6 \<and> c_string key = schema_key i"
  by (rule parse_schema_key_iff)

section \<open>The order of the plan\<close>

lemma exchange_facts:
  assumes "left < right" "right < length ids"
  shows "length (exchange left right ids) = length ids" "mset (exchange left right ids) = mset ids"
    "take left (exchange left right ids) = take left ids" "right < n \<Longrightarrow> drop n (exchange left right ids) = drop n ids"
  using assms by (auto simp: exchange_def mset_swap)

text \<open>A pass of the inner loop moves the least of the elements it visits to \<open>left\<close>.\<close>

lemma inner_pass:
  assumes "left < n" "n \<le> length ids" "list_all sized ids"
  shows "let out = fold (exchange left) [left + 1..<n] ids in
    length out = length ids \<and> mset out = mset ids \<and> take left out = take left ids \<and> drop n out = drop n ids
    \<and> (\<forall>k. left \<le> k \<longrightarrow> k < n \<longrightarrow> out ! left \<le> out ! k)"
  using assms(1,2)
proof (induction n)
  case (Suc n)
  show ?case
  proof (cases "left = n")
    case True
    then show ?thesis by (auto simp: less_Suc_eq)
  next
    case False
    define out where "out = fold (exchange left) [left + 1..<n] ids"
    have l: "left < n" using False Suc.prems by simp
    have ih: "length out = length ids" "mset out = mset ids" "take left out = take left ids" "drop n out = drop n ids"
        "\<And>k. left \<le> k \<Longrightarrow> k < n \<Longrightarrow> out ! left \<le> out ! k"
      using Suc.IH [OF l] Suc.prems by (simp_all add: out_def Let_def)
    have step: "fold (exchange left) [left + 1..<Suc n] ids = exchange left n out"
      using l by (simp add: out_def)
    have n: "n < length out" using ih(1) Suc.prems by simp
    have d: "drop (Suc n) out = drop (Suc n) ids" using ih(4) by (metis drop_Suc drop_drop plus_1_eq_Suc)
    have sz: "sized (out ! k)" if "k < length out" for k
      using that assms(3) nth_mem [OF that] mset_eq_setD [OF ih(2)] by (simp add: list_all_iff)
    have least: "exchange left n out ! left \<le> exchange left n out ! k" if k: "left \<le> k" "k < Suc n" for k
    proof (cases "out ! n < out ! left")
      case True
      then have x: "exchange left n out = out[left := out ! n, n := out ! left]"
        using identity_less_lex [OF sz [OF n] sz [of left]] l n by (simp add: exchange_def)
      have a: "exchange left n out ! left = out ! n" "exchange left n out ! n = out ! left"
          "k \<noteq> left \<Longrightarrow> k \<noteq> n \<Longrightarrow> exchange left n out ! k = out ! k"
        using l n by (simp_all add: x)
      have "k < n \<Longrightarrow> out ! n \<le> out ! k" using ih(5) [OF k(1)] True by simp
      then show ?thesis using a k True by (cases "k = n"; cases "k = left") simp_all
    next
      case False
      then have x: "exchange left n out = out"
        using identity_less_lex [OF sz [OF n] sz [of left]] l n by (simp add: exchange_def)
      show ?thesis using k False ih(5) [of k] by (cases "k = n") (auto simp: x)
    qed
    show ?thesis
      unfolding step Let_def using exchange_facts [OF l n] ih d least by simp
  qed
qed simp

lemma middle_set:
  assumes "length out = length (ids :: 'a list)" "mset out = mset ids" "take l out = take l ids" "drop n out = drop n ids"
  shows "mset (drop l (take n out)) = mset (drop l (take n ids))"
proof -
  have split: "mset xs = mset (take l xs) + (mset (drop l (take n xs)) + mset (drop n xs))" if "l \<le> n" for xs :: "'a list"
  proof -
    have "xs = take l xs @ drop l (take n xs) @ drop n xs"
      using that by (metis append.assoc append_take_drop_id min.absorb1 take_take)
    then show ?thesis by (metis mset_append)
  qed
  show ?thesis
  proof (cases "l \<le> n")
    case True
    show ?thesis using split [OF True, of out] split [OF True, of ids] assms by simp
  qed simp
qed

text \<open>After \<open>left\<close> passes the first \<open>left\<close> elements are sorted and none of the later ones is below them.\<close>

lemma outer_passes:
  assumes "n \<le> length ids" "list_all sized ids" "left \<le> n"
  shows "let out = fold (\<lambda>left. fold (exchange left) [left + 1..<n]) [0..<left] ids in
    length out = length ids \<and> mset out = mset ids \<and> drop n out = drop n ids \<and> sorted (take left out)
    \<and> (\<forall>x \<in> set (take left out). \<forall>y \<in> set (drop left (take n out)). x \<le> y)"
  using assms(3)
proof (induction left)
  case (Suc left)
  define out where "out = fold (\<lambda>left. fold (exchange left) [left + 1..<n]) [0..<left] ids"
  define nxt where "nxt = fold (exchange left) [left + 1..<n] out"
  have ih: "length out = length ids" "mset out = mset ids" "drop n out = drop n ids" "sorted (take left out)"
      "\<And>x y. x \<in> set (take left out) \<Longrightarrow> y \<in> set (drop left (take n out)) \<Longrightarrow> x \<le> y"
    using Suc by (simp_all add: out_def Let_def)
  have sz: "list_all sized out" using assms(2) mset_eq_setD [OF ih(2)] by (simp add: list_all_iff)
  have l: "left < n" "n \<le> length out" using Suc.prems assms(1) ih(1) by simp_all
  have p: "length nxt = length out" "mset nxt = mset out" "take left nxt = take left out" "drop n nxt = drop n out"
      "\<And>k. left \<le> k \<Longrightarrow> k < n \<Longrightarrow> nxt ! left \<le> nxt ! k"
    using inner_pass [OF l sz] by (simp_all add: nxt_def Let_def)
  have mid: "set (drop left (take n nxt)) = set (drop left (take n out))"
    by (rule mset_eq_setD) (rule middle_set [OF p(1,2,3,4)])
  have at: "nxt ! left \<in> set (drop left (take n nxt))"
    using l p(1) by (metis (no_types, lifting) drop_eq_Nil hd_drop_conv_nth hd_in_set length_take min.absorb2 not_le nth_take)
  have t: "take (Suc left) nxt = take left out @ [nxt ! left]"
    using l p(1,3) by (simp add: take_Suc_conv_app_nth)
  have rest: "set (drop (Suc left) (take n nxt)) \<subseteq> set (drop left (take n nxt))"
    by (rule set_drop_subset_set_drop) simp
  have above: "nxt ! left \<le> y" if "y \<in> set (drop left (take n nxt))" for y
    using that p(5) l p(1) by (auto simp: in_set_conv_nth)
  have step: "fold (\<lambda>left. fold (exchange left) [left + 1..<n]) [0..<Suc left] ids = nxt"
    by (simp add: out_def nxt_def)
  show ?case
    unfolding step Let_def using ih p(1,2,4) rest
    by (auto simp: t sorted_append intro: ih(5) above dest: subsetD simp flip: mid intro: at)
qed simp

lemma sort_orphans_sorts:
  assumes "n \<le> length ids" "list_all sized ids"
  shows "length (sort_orphans n ids) = length ids" "take n (sort_orphans n ids) = sort (take n ids)"
proof -
  let ?out = "sort_orphans n ids"
  have o: "length ?out = length ids" "mset ?out = mset ids" "drop n ?out = drop n ids" "sorted (take n ?out)"
    using outer_passes [OF assms, of n] by (simp_all add: sort_orphans_def Let_def)
  have "mset (take n ?out) = mset (take n ids)" using middle_set [OF o(1,2), of 0 n] o(3) by simp
  then show "take n ?out = sort (take n ids)" using o(4) by (simp add: properties_for_sort)
  show "length ?out = length ids" by (rule o)
qed

section \<open>The plan is exact\<close>

abbreviation members :: "identity_set \<Rightarrow> store_identity set" where "members s \<equiv> set (entries s)"

lemma contains_iff: "contains s i \<longleftrightarrow> i \<in> members s"
  by (auto simp: contains_def list_ex_iff same_identity_eq)

lemma entries_valid_iff: "entries_valid xs \<longleftrightarrow> distinct xs \<and> list_all valid_identity xs"
  by (induction xs) (auto simp: list_ex_iff same_identity_eq)

lemma valid_set_facts:
  assumes "valid_set s"
  shows "distinct (entries s)" "length (entries s) = is_count s" "card (members s) = is_count s"
  using assms by (simp_all add: valid_set_def entries_valid_iff entries_def distinct_card)

lemma same_set_iff:
  assumes "valid_set l" "valid_set r"
  shows "same_set l r \<longleftrightarrow> members l = members r"
proof
  assume "same_set l r"
  then have "is_count l = is_count r" "members l \<subseteq> members r"
    by (auto simp: same_set_def list_all_iff contains_iff)
  then show "members l = members r"
    using valid_set_facts(3) [OF assms(1)] valid_set_facts(3) [OF assms(2)] by (simp add: card_subset_eq)
next
  assume "members l = members r"
  then show "same_set l r"
    using assms valid_set_facts(3) [OF assms(1)] valid_set_facts(3) [OF assms(2)]
    by (simp add: same_set_def list_all_iff contains_iff)
qed

text \<open>What the plan holds after some of the records.\<close>

lemma collect_orphans_filter:
  assumes "members our = members peer" "rp_orphan_count plan + length is \<le> length (rp_orphans plan)"
    "list_all sized (rp_orphans plan)" "list_all sized is"
  shows "\<exists>p. collect_orphans our peer is plan = Some p \<and> length (rp_orphans p) = length (rp_orphans plan)
    \<and> rp_orphan_count p \<le> length (rp_orphans p) \<and> list_all sized (rp_orphans p)
    \<and> take (rp_orphan_count p) (rp_orphans p) =
        take (rp_orphan_count plan) (rp_orphans plan) @ filter (\<lambda>i. i \<notin> members our) is"
  using assms(2-)
proof (induction "is" arbitrary: plan)
  case Nil
  then show ?case by simp
next
  case (Cons i "is")
  show ?case
  proof (cases "i \<in> members our")
    case True
    then show ?thesis using Cons by (simp add: contains_iff assms(1))
  next
    case False
    let ?plan = "plan\<lparr>rp_orphans := (rp_orphans plan)[rp_orphan_count plan := i], rp_orphan_count := rp_orphan_count plan + 1\<rparr>"
    have "collect_orphans our peer (i # is) plan = collect_orphans our peer is ?plan"
      using False by (simp add: contains_iff assms(1))
    moreover have "take (rp_orphan_count ?plan) (rp_orphans ?plan) = take (rp_orphan_count plan) (rp_orphans plan) @ [i]"
      using Cons.prems by (simp add: take_Suc_conv_app_nth)
    moreover have "list_all sized (rp_orphans ?plan)"
      using Cons.prems by (auto simp: list_all_iff dest!: set_update_subset_insert [THEN subsetD])
    ultimately show ?thesis
      using Cons.IH [of ?plan] Cons.prems False by simp
  qed
qed

lemma recovery_plan_sorted:
  assumes "length (is_identities schemas) \<le> kSchemaRecoveryCapacity" "list_all sized (is_identities schemas)"
  shows "let plan = make_recovery_plan our peer our' peer' schemas in
    (rp_kind plan = PlanReady \<longleftrightarrow> list_all valid_set [our, peer, our', peer', schemas]
       \<and> members our = members our' \<and> members peer = members peer' \<and> members our = members peer)
    \<and> (rp_kind plan = PlanReady \<longrightarrow> rp_orphan_count plan \<le> length (rp_orphans plan)
       \<and> take (rp_orphan_count plan) (rp_orphans plan) = sorted_list_of_set (members schemas - members our))"
proof (cases "list_all valid_set [our, peer, our', peer', schemas]")
  case False
  then show ?thesis by (auto simp: make_recovery_plan_def no_plan_def Let_def)
next
  case True
  then have v: "valid_set our" "valid_set peer" "valid_set our'" "valid_set peer'" "valid_set schemas" by simp_all
  have halves: "list_all (contains peer) (entries our) \<longleftrightarrow> members our \<subseteq> members peer"
      "list_all (contains our) (entries peer) \<longleftrightarrow> members peer \<subseteq> members our"
    by (auto simp: list_all_iff contains_iff)
  show ?thesis
  proof (cases "members our = members our' \<and> members peer = members peer' \<and> members our = members peer")
    case False
    then show ?thesis
      using v by (auto simp: make_recovery_plan_def no_plan_def Let_def same_set_iff halves)
  next
    case eq: True
    have len: "length (entries schemas) \<le> length (rp_orphans no_plan)"
      using assms(1) by (simp add: entries_def no_plan_def)
    have small: "list_all sized (rp_orphans no_plan)" "list_all sized (entries schemas)"
      using assms(2) by (auto simp: no_plan_def entries_def list_all_iff dest: in_set_takeD)
    obtain p where p: "collect_orphans our peer (entries schemas) no_plan = Some p" "rp_orphan_count p \<le> length (rp_orphans p)"
        "list_all sized (rp_orphans p)"
        "take (rp_orphan_count p) (rp_orphans p) = filter (\<lambda>i. i \<notin> members our) (entries schemas)"
      using collect_orphans_filter [OF _ _ small, of our peer] eq len by (auto simp: no_plan_def)
    let ?n = "rp_orphan_count p"
    have plan: "make_recovery_plan our peer our' peer' schemas =
        p\<lparr>rp_orphans := sort_orphans ?n (rp_orphans p), rp_kind := PlanReady\<rparr>"
      using v by (simp add: make_recovery_plan_def same_set_iff halves p(1)) (use eq in auto)
    have d: "distinct (filter (\<lambda>i. i \<notin> members our) (entries schemas))"
      using valid_set_facts(1) [OF v(5)] by simp
    have s: "set (filter (\<lambda>i. i \<notin> members our) (entries schemas)) = members schemas - members our" by auto
    have "take ?n (sort_orphans ?n (rp_orphans p)) = sort (take ?n (rp_orphans p))"
      by (rule sort_orphans_sorts(2)) (rule p)+
    then have "take ?n (sort_orphans ?n (rp_orphans p)) = sorted_list_of_set (members schemas - members our)"
      using sorted_list_of_set_sort_remdups [of "filter (\<lambda>i. i \<notin> members our) (entries schemas)"]
      unfolding s p(4) distinct_remdups_id [OF d] by (simp only:)
    moreover have "rp_orphan_count p \<le> length (sort_orphans ?n (rp_orphans p))"
      using p(2) sort_orphans_sorts(1) [OF p(2,3)] by simp
    ultimately show ?thesis using True eq by (simp add: plan) (use eq in auto)
  qed
qed

text \<open>
  C29: The plan is accepted exactly when the five inventories are well-formed, the restored bonds are the
  persistent ones and every bond has both halves; it then lists exactly the records without a bond, each
  once and in the order of the identities, whatever the order of the inventories.
\<close>

theorem recovery_plan_exact:
  assumes "length (is_identities schemas) \<le> kSchemaRecoveryCapacity" "list_all sized (is_identities schemas)"
  shows "let plan = make_recovery_plan our peer our' peer' schemas in
    (rp_kind plan = PlanReady \<longleftrightarrow> list_all valid_set [our, peer, our', peer', schemas]
       \<and> members our = members our' \<and> members peer = members peer' \<and> members our = members peer)
    \<and> (rp_kind plan = PlanReady \<longrightarrow> rp_orphan_count plan \<le> length (rp_orphans plan)
       \<and> take (rp_orphan_count plan) (rp_orphans plan) = sorted_list_of_set (members schemas - members our))"
  using assms by (rule recovery_plan_sorted)

definition peer_a :: store_identity where "peer_a = StoreIdentity 0 [1, 2, 3, 4, 5, 6]"
definition peer_b :: store_identity where "peer_b = StoreIdentity 1 [6, 5, 4, 3, 2, 1]"
definition peer_c :: store_identity where "peer_c = StoreIdentity 0 [9, 2, 3, 4, 5, 6]"

definition one_bond :: identity_set where
  "one_bond = \<lparr>is_identities = [peer_a, peer_b, peer_b], is_count = 1, is_trustworthy = True\<rparr>"

definition three_records :: identity_set where
  "three_records = \<lparr>is_identities = [peer_b, peer_c, peer_a] @ replicate 13 peer_a, is_count = 3, is_trustworthy = True\<rparr>"

lemma recovery_plan_exact_witness:
  "let plan = make_recovery_plan one_bond one_bond one_bond one_bond three_records in
     rp_kind plan = PlanReady \<and> take (rp_orphan_count plan) (rp_orphans plan) = sorted_list_of_set {peer_b, peer_c}"
proof -
  have e: "entries one_bond = [peer_a]" "entries three_records = [peer_b, peer_c, peer_a]"
    by (simp_all add: entries_def one_bond_def three_records_def)
  have v: "valid_set one_bond" "valid_set three_records" by code_simp+
  have m: "{peer_b, peer_c, peer_a} - {peer_a} = {peer_b, peer_c}" by (auto simp: peer_a_def peer_b_def peer_c_def)
  have "length (is_identities three_records) \<le> kSchemaRecoveryCapacity" "list_all sized (is_identities three_records)"
    by code_simp+
  from recovery_plan_exact [OF this, of one_bond one_bond one_bond one_bond] show ?thesis
    using v by (simp add: e m Let_def)
qed

section \<open>Carrying out the plan\<close>

text \<open>The records are deleted in the order of the plan, up to the first that cannot be deleted.\<close>

lemma delete_orphans_prefix:
  assumes "delete_orphans delete is n w = ((status, completed), w')"
  shows "n \<le> completed \<and> completed \<le> n + length is \<and> (status = 0 \<longleftrightarrow> completed = n + length is)
    \<and> w' = fold (\<lambda>i w. snd (delete i w)) (take (completed - n + (if status = 0 then 0 else 1)) is) w"
  using assms
proof (induction "is" arbitrary: n w)
  case (Cons i "is")
  obtain s v where d: "delete i w = (s, v)" by (cases "delete i w")
  show ?case
  proof (cases "s = 0")
    case True
    with Cons.prems d have "delete_orphans delete is (n + 1) v = ((status, completed), w')" by simp
    from Cons.IH [OF this] show ?thesis by (auto simp: d Suc_diff_le)
  qed (use Cons.prems d in auto)
qed simp

end
