(* ===== verification/BondDeletion.thy ===== *)
theory BondDeletion
  imports BondRecovery "HOL-Library.State_Monad"
begin

text \<open>
  \<open>ble_transport/bond_delete_transaction.hpp\<close>: the journaled deletion of a bond, over the store
  \<open>PersistentDeleteStore\<close> of \<open>ble_transport/ble_transport.cpp\<close>. The flash storage NVS is outside the
  repository: a record of operations on a world that may fail at any call. A power cut is a suffix of
  calls that fail without an effect, so what holds however the storage fails also holds at every cut.
\<close>

section \<open>The flash storage\<close>

text \<open>
  A handle is the name of its namespace. \<open>nv_get_blob\<close> has the capacity of the buffer, \<open>nv_blob_size\<close> is the
  call without a buffer, \<open>nv_entries\<close> stands for the loop over an iterator: the keys visited, each with its
  type, and the status that ended the iteration.
\<close>

datatype nvs_type = TypeBlob | TypeU8 | TypeU32 | TypeOther

record 'w nvs =
  nv_open :: "string \<Rightarrow> bool \<Rightarrow> ('w, i32) state"
  nv_get_blob :: "string \<Rightarrow> string \<Rightarrow> nat \<Rightarrow> ('w, i32 \<times> u8 list) state"
  nv_blob_size :: "string \<Rightarrow> string \<Rightarrow> ('w, i32 \<times> nat) state"
  nv_get_u8 :: "string \<Rightarrow> string \<Rightarrow> ('w, i32 \<times> u8) state"
  nv_get_u32 :: "string \<Rightarrow> string \<Rightarrow> ('w, i32 \<times> u32) state"
  nv_set_blob :: "string \<Rightarrow> string \<Rightarrow> u8 list \<Rightarrow> ('w, i32) state"
  nv_set_u32 :: "string \<Rightarrow> string \<Rightarrow> u32 \<Rightarrow> ('w, i32) state"
  nv_erase_key :: "string \<Rightarrow> string \<Rightarrow> ('w, i32) state"
  nv_commit :: "string \<Rightarrow> ('w, i32) state"
  nv_entries :: "string \<Rightarrow> ('w, (string \<times> nvs_type) list \<times> i32) state"

text \<open>Two of the codes of ESP-IDF, \<open>ESP_ERR_NVS_NOT_FOUND\<close> and \<open>ESP_ERR_INVALID_STATE\<close>.\<close>

definition kNotFound :: i32 where "kNotFound = 0x1102"
definition kInvalidState :: i32 where "kInvalidState = 0x103"

section \<open>Slots and receipts\<close>

definition kDeleteNamespace :: string where "kDeleteNamespace = ''hid_bond_tx''"
definition kDeleteKey :: string where "kDeleteKey = ''delete_v1''"
definition kDeleteBondNamespace :: string where "kDeleteBondNamespace = ''nimble_bond''"
definition kSchemaNamespace :: string where "kSchemaNamespace = ''hid_schema''"
definition kAssociationNamespace :: string where "kAssociationNamespace = ''hid_assoc''"
definition kDeleteInvalid :: i32 where "kDeleteInvalid = - 1"

definition absence_status :: "i32 \<Rightarrow> i32 \<Rightarrow> i32 \<Rightarrow> i32" where
  "absence_status status absent invalid = (if status = absent then 0 else if status = 0 then invalid else status)"

definition deletion_intent :: "store_identity \<Rightarrow> u8 list" where
  "deletion_intent i = [1, si_type i] @ si_value i"

definition decode_intent :: "u8 list \<Rightarrow> store_identity option" where
  "decode_intent bytes =
     (if bytes ! 0 \<noteq> 1 then None
      else let i = StoreIdentity (bytes ! 1) (take 6 (drop 2 bytes)) in if valid_identity i then Some i else None)"

record delete_category =
  dc_prefix :: string
  dc_count :: nat
  dc_size :: nat
  dc_offset :: nat

definition kDeleteCategories :: "delete_category list" where
  "kDeleteCategories =
     [\<lparr>dc_prefix = ''cccd_sec_'', dc_count = 15, dc_size = 16, dc_offset = 0\<rparr>,
      \<lparr>dc_prefix = ''rpa_rec_'', dc_count = 3, dc_size = 14, dc_offset = 7\<rparr>,
      \<lparr>dc_prefix = ''csfc_sec_'', dc_count = 3, dc_size = 8, dc_offset = 0\<rparr>,
      \<lparr>dc_prefix = ''our_sec_'', dc_count = 3, dc_size = 88, dc_offset = 0\<rparr>,
      \<lparr>dc_prefix = ''peer_sec_'', dc_count = 3, dc_size = 88, dc_offset = 0\<rparr>]"

text \<open>\<open>"%s%u"\<close>; no category has more than fifteen slots.\<close>

definition slot_key :: "delete_category \<Rightarrow> nat \<Rightarrow> string" where
  "slot_key c n =
     dc_prefix c @ (if n < 10 then [char_of (48 + n)] else [char_of (48 + n div 10), char_of (48 + n mod 10)])"

definition category_keys :: "delete_category \<Rightarrow> string list" where
  "category_keys c = map (slot_key c) [1..<dc_count c + 1]"

definition delete_slots :: "(delete_category \<times> string) list" where
  "delete_slots = concat (map (\<lambda>c. map (Pair c) (category_keys c)) kDeleteCategories)"

text \<open>Whether a key is acceptable in the namespace, and whether a category recognises it.\<close>

fun deletion_slot :: "delete_category list \<Rightarrow> string \<Rightarrow> bool \<times> bool" where
  "deletion_slot [] key = (True, False)"
| "deletion_slot (c # cs) key =
     (if take (length (dc_prefix c)) key \<noteq> dc_prefix c then deletion_slot cs key
      else (key \<in> set (category_keys c), True))"

definition deletion_identity :: "u8 list \<Rightarrow> store_identity" where
  "deletion_identity bytes = StoreIdentity (bytes ! 0) (take 6 (drop 1 bytes))"

section \<open>The store\<close>

record delete_read =
  dr_status :: i32
  dr_present :: bool
  dr_size :: nat

text \<open>The interface that the deletion uses; a read also returns the buffer.\<close>

record 'w delete_store =
  ds_read :: "string \<Rightarrow> string \<Rightarrow> nat \<Rightarrow> ('w, delete_read \<times> u8 list) state"
  ds_write :: "string \<Rightarrow> string \<Rightarrow> u8 list \<Rightarrow> ('w, i32) state"
  ds_erase :: "string \<Rightarrow> string \<Rightarrow> ('w, i32) state"
  ds_validate_layout :: "('w, i32) state"
  ds_delete_schema :: "store_identity \<Rightarrow> ('w, i32) state"
  ds_verify_schema_absent :: "store_identity \<Rightarrow> ('w, i32) state"

text \<open>A zeroed buffer after bytes were written to its start.\<close>

definition buffer_of :: "nat \<Rightarrow> u8 list \<Rightarrow> u8 list" where
  "buffer_of capacity d = take capacity (d @ replicate (capacity - length d) 0)"

definition persistent_read :: "'w nvs \<Rightarrow> string \<Rightarrow> string \<Rightarrow> nat \<Rightarrow> ('w, delete_read \<times> u8 list) state" where
  "persistent_read nvs ns key capacity = do {
     status \<leftarrow> nv_open nvs ns False;
     if status = kNotFound then State_Monad.return (\<lparr>dr_status = 0, dr_present = False, dr_size = 0\<rparr>, buffer_of capacity [])
     else if status \<noteq> 0 then State_Monad.return (\<lparr>dr_status = status, dr_present = False, dr_size = 0\<rparr>, buffer_of capacity [])
     else do {
       (status, d) \<leftarrow> nv_get_blob nvs ns key capacity;
       State_Monad.return
         (if status = kNotFound then \<lparr>dr_status = 0, dr_present = False, dr_size = 0\<rparr>
          else \<lparr>dr_status = status, dr_present = (status = 0), dr_size = length d\<rparr>, buffer_of capacity d)}}"

definition persistent_write :: "'w nvs \<Rightarrow> string \<Rightarrow> string \<Rightarrow> u8 list \<Rightarrow> ('w, i32) state" where
  "persistent_write nvs ns key bytes = do {
     status \<leftarrow> nv_open nvs ns True;
     if status \<noteq> 0 then State_Monad.return status
     else do {
       status \<leftarrow> nv_set_blob nvs ns key bytes;
       if status = 0 then nv_commit nvs ns else State_Monad.return status}}"

definition persistent_erase :: "'w nvs \<Rightarrow> string \<Rightarrow> string \<Rightarrow> ('w, i32) state" where
  "persistent_erase nvs ns key = do {
     status \<leftarrow> nv_open nvs ns True;
     if status \<noteq> 0 then State_Monad.return status
     else do {
       status \<leftarrow> nv_erase_key nvs ns key;
       if status = 0 then nv_commit nvs ns else State_Monad.return status}}"

definition entry_refused :: "string \<times> nvs_type \<Rightarrow> bool" where
  "entry_refused e = (case deletion_slot kDeleteCategories (fst e) of
     (accepted, recognized) \<Rightarrow> \<not> accepted \<or> (recognized \<and> snd e \<noteq> TypeBlob))"

definition validate_layout :: "'w nvs \<Rightarrow> ('w, i32) state" where
  "validate_layout nvs = do {
     status \<leftarrow> nv_open nvs kDeleteBondNamespace False;
     if status = kNotFound then State_Monad.return 0
     else if status \<noteq> 0 then State_Monad.return status
     else do {
       (entries, ended) \<leftarrow> nv_entries nvs kDeleteBondNamespace;
       State_Monad.return
         (if list_ex entry_refused entries then kInvalidState
          else if ended = kNotFound then 0 else ended)}}"

text \<open>A key that is not there counts as deleted.\<close>

definition delete_record :: "'w nvs \<Rightarrow> string \<Rightarrow> string \<Rightarrow> ('w, i32) state" where
  "delete_record nvs ns key = do {
     status \<leftarrow> nv_open nvs ns True;
     if status = kNotFound then State_Monad.return 0
     else if status \<noteq> 0 then State_Monad.return status
     else do {
       status \<leftarrow> nv_erase_key nvs ns key;
       if status = kNotFound then State_Monad.return 0
       else if status = 0 then nv_commit nvs ns else State_Monad.return status}}"

definition delete_schema_revision :: "'w nvs \<Rightarrow> store_identity \<Rightarrow> ('w, i32) state" where
  "delete_schema_revision nvs i = delete_record nvs kSchemaNamespace (schema_key i)"

definition read_schema_revision :: "'w nvs \<Rightarrow> store_identity \<Rightarrow> ('w, i32 \<times> u8) state" where
  "read_schema_revision nvs i = do {
     status \<leftarrow> nv_open nvs kSchemaNamespace False;
     if status = 0 then nv_get_u8 nvs kSchemaNamespace (schema_key i) else State_Monad.return (status, 0)}"

definition delete_schema_revision_verified :: "'w nvs \<Rightarrow> store_identity \<Rightarrow> ('w, i32) state" where
  "delete_schema_revision_verified nvs i = do {
     status \<leftarrow> delete_schema_revision nvs i;
     if status \<noteq> 0 then State_Monad.return status
     else do {
       (status, revision) \<leftarrow> read_schema_revision nvs i;
       State_Monad.return (absence_status status kNotFound kInvalidState)}}"

definition read_association :: "'w nvs \<Rightarrow> store_identity \<Rightarrow> ('w, i32 \<times> association) state" where
  "read_association nvs i = do {
     status \<leftarrow> nv_open nvs kAssociationNamespace False;
     (status, word) \<leftarrow> (if status = 0 then nv_get_u32 nvs kAssociationNamespace (schema_key i)
       else State_Monad.return (status, 0));
     State_Monad.return
       (if status = kNotFound then (0, association_default)
        else if status \<noteq> 0 then (status, association_default) else (0, decode_association word))}"

definition association_absence :: "i32 \<times> association \<Rightarrow> i32" where
  "association_absence read =
     (if fst read \<noteq> 0 then fst read else if as_state (snd read) = AsMissing then 0 else kInvalidState)"

definition delete_association_verified :: "'w nvs \<Rightarrow> store_identity \<Rightarrow> ('w, i32) state" where
  "delete_association_verified nvs i = do {
     status \<leftarrow> delete_record nvs kAssociationNamespace (schema_key i);
     if status \<noteq> 0 then State_Monad.return status
     else do {
       read \<leftarrow> read_association nvs i;
       State_Monad.return (association_absence read)}}"

definition delete_schema :: "'w nvs \<Rightarrow> store_identity \<Rightarrow> ('w, i32) state" where
  "delete_schema nvs i = do {
     status \<leftarrow> delete_schema_revision_verified nvs i;
     if status \<noteq> 0 then State_Monad.return status else delete_association_verified nvs i}"

definition verify_schema_absent :: "'w nvs \<Rightarrow> store_identity \<Rightarrow> ('w, i32) state" where
  "verify_schema_absent nvs i = do {
     (status, revision) \<leftarrow> read_schema_revision nvs i;
     let status = absence_status status kNotFound kInvalidState;
     if status \<noteq> 0 then State_Monad.return status
     else do {
       read \<leftarrow> read_association nvs i;
       State_Monad.return (association_absence read)}}"

definition persistent_store :: "'w nvs \<Rightarrow> 'w delete_store" where
  "persistent_store nvs = \<lparr>ds_read = persistent_read nvs, ds_write = persistent_write nvs, ds_erase = persistent_erase nvs,
     ds_validate_layout = validate_layout nvs, ds_delete_schema = delete_schema nvs,
     ds_verify_schema_absent = verify_schema_absent nvs\<rparr>"

section \<open>The transaction\<close>

text \<open>The receipt: a status, and the identity when one is there.\<close>

definition read_delete_intent :: "'w delete_store \<Rightarrow> ('w, i32 \<times> store_identity option) state" where
  "read_delete_intent st = do {
     (read, bytes) \<leftarrow> ds_read st kDeleteNamespace kDeleteKey 8;
     State_Monad.return
       (if dr_status read \<noteq> 0 then (dr_status read, None)
        else if \<not> dr_present read then (0, None)
        else case decode_intent bytes of
            Some i \<Rightarrow> if dr_size read = 8 then (0, Some i) else (kDeleteInvalid, None)
          | None \<Rightarrow> (kDeleteInvalid, None))}"

definition begin_delete_intent :: "'w delete_store \<Rightarrow> store_identity \<Rightarrow> ('w, i32) state" where
  "begin_delete_intent st i =
     (if \<not> valid_identity i then State_Monad.return kDeleteInvalid
      else do {
        (status, old) \<leftarrow> read_delete_intent st;
        if status \<noteq> 0 then State_Monad.return status
        else if old \<noteq> None then State_Monad.return kDeleteInvalid
        else do {
          status \<leftarrow> ds_write st kDeleteNamespace kDeleteKey (deletion_intent i);
          if status \<noteq> 0 then State_Monad.return status
          else do {
            (status, old) \<leftarrow> read_delete_intent st;
            State_Monad.return
              (if status \<noteq> 0 then status
               else case old of None \<Rightarrow> kDeleteInvalid | Some j \<Rightarrow> if same_identity j i then 0 else kDeleteInvalid)}}})"

text \<open>
  One slot: a failure, or whether it holds a record of the target. A record of a resolvable address whose
  alias is the target, but whose identity is not, is refused.
\<close>

definition slot_owned :: "delete_category \<Rightarrow> store_identity \<Rightarrow> delete_read \<Rightarrow> u8 list \<Rightarrow> i32 + bool" where
  "slot_owned c target read bytes =
     (let identity = deletion_identity (drop (dc_offset c) bytes); ours = same_identity identity target;
          alias_overlap = (dc_offset c = 7 \<and> \<not> ours \<and> same_identity (deletion_identity bytes) target) in
      if dr_status read \<noteq> 0 then Inl (dr_status read)
      else if \<not> dr_present read then Inr False
      else if dr_size read \<noteq> dc_size c \<or> \<not> valid_identity identity \<or> alias_overlap then Inl kDeleteInvalid
      else Inr ours)"

fun scan_slots ::
    "'w delete_store \<Rightarrow> store_identity \<Rightarrow> (delete_category \<times> string) list \<Rightarrow> ('w, i32 + bool list) state" where
  "scan_slots st target [] = State_Monad.return (Inr [])"
| "scan_slots st target ((c, key) # slots) = do {
     (read, bytes) \<leftarrow> ds_read st kDeleteBondNamespace key 88;
     case slot_owned c target read bytes of
       Inl status \<Rightarrow> State_Monad.return (Inl status)
     | Inr ours \<Rightarrow> do {
         rest \<leftarrow> scan_slots st target slots;
         State_Monad.return (map_sum id ((#) ours) rest)}}"

definition target_delete_scan :: "'w delete_store \<Rightarrow> store_identity \<Rightarrow> ('w, i32 + bool list) state" where
  "target_delete_scan st target =
     (if \<not> valid_identity target then State_Monad.return (Inl kDeleteInvalid)
      else do {
        status \<leftarrow> ds_validate_layout st;
        if status \<noteq> 0 then State_Monad.return (Inl status) else scan_slots st target delete_slots})"

definition verify_durable_target_absent :: "'w delete_store \<Rightarrow> store_identity \<Rightarrow> ('w, i32) state" where
  "verify_durable_target_absent st target = do {
     scanned \<leftarrow> target_delete_scan st target;
     case scanned of
       Inl status \<Rightarrow> State_Monad.return status
     | Inr selected \<Rightarrow>
         if list_ex id selected then State_Monad.return kDeleteInvalid else ds_verify_schema_absent st target}"

fun erase_selected :: "'w delete_store \<Rightarrow> ((delete_category \<times> string) \<times> bool) list \<Rightarrow> ('w, i32) state" where
  "erase_selected st [] = State_Monad.return 0"
| "erase_selected st (((c, key), selected) # slots) =
     (if \<not> selected then erase_selected st slots
      else do {
        status \<leftarrow> ds_erase st kDeleteBondNamespace key;
        if status \<noteq> 0 then State_Monad.return status else erase_selected st slots})"

definition complete_durable_target :: "'w delete_store \<Rightarrow> store_identity \<Rightarrow> ('w, i32) state" where
  "complete_durable_target st target = do {
     scanned \<leftarrow> target_delete_scan st target;
     case scanned of
       Inl status \<Rightarrow> State_Monad.return status
     | Inr selected \<Rightarrow> do {
         status \<leftarrow> erase_selected st (zip delete_slots selected);
         if status \<noteq> 0 then State_Monad.return status
         else do {
           status \<leftarrow> ds_delete_schema st target;
           if status \<noteq> 0 then State_Monad.return status else verify_durable_target_absent st target}}}"

definition finish_delete_intent :: "'w delete_store \<Rightarrow> store_identity \<Rightarrow> ('w, i32) state" where
  "finish_delete_intent st target = do {
     (status, pending) \<leftarrow> read_delete_intent st;
     if status \<noteq> 0 then State_Monad.return status
     else if \<not> (case pending of None \<Rightarrow> False | Some i \<Rightarrow> same_identity i target) then State_Monad.return kDeleteInvalid
     else do {
       status \<leftarrow> verify_durable_target_absent st target;
       if status \<noteq> 0 then State_Monad.return status
       else do {
         status \<leftarrow> ds_erase st kDeleteNamespace kDeleteKey;
         if status \<noteq> 0 then State_Monad.return status
         else do {
           (status, pending) \<leftarrow> read_delete_intent st;
           State_Monad.return (if status \<noteq> 0 then status else if pending \<noteq> None then kDeleteInvalid else 0)}}}}"

definition resume_exact_deletion :: "'w delete_store \<Rightarrow> ('w, i32) state" where
  "resume_exact_deletion st = do {
     (status, pending) \<leftarrow> read_delete_intent st;
     if status \<noteq> 0 then State_Monad.return status
     else case pending of
         None \<Rightarrow> State_Monad.return 0
       | Some target \<Rightarrow> do {
           status \<leftarrow> complete_durable_target st target;
           if status \<noteq> 0 then State_Monad.return status else finish_delete_intent st target}}"

definition run_journaled_removal ::
    "'w delete_store \<Rightarrow> store_identity \<Rightarrow> ('w, i32) state \<Rightarrow> ('w, i32) state \<Rightarrow> ('w, i32) state" where
  "run_journaled_removal st target remove_ram verify_ram = do {
     scanned \<leftarrow> target_delete_scan st target;
     case scanned of
       Inl status \<Rightarrow> State_Monad.return status
     | Inr selected \<Rightarrow> do {
         status \<leftarrow> begin_delete_intent st target;
         if status \<noteq> 0 then State_Monad.return status
         else do {
           status \<leftarrow> remove_ram;
           if status \<noteq> 0 then State_Monad.return status
           else do {
             status \<leftarrow> complete_durable_target st target;
             if status \<noteq> 0 then State_Monad.return status
             else do {
               status \<leftarrow> verify_ram;
               if status \<noteq> 0 then State_Monad.return status else finish_delete_intent st target}}}}}"

text \<open>The removal from the stack's own store, the firmware's record first.\<close>

datatype removal_stage = SchemaDelete | PeerDelete | Postcondition | RemovalComplete

definition run_schema_first_removal ::
    "('w, i32) state \<Rightarrow> ('w, i32) state \<Rightarrow> ('w, i32) state \<Rightarrow> ('w, removal_stage \<times> i32) state" where
  "run_schema_first_removal erase_schema delete_peer verify = do {
     status \<leftarrow> erase_schema;
     if status \<noteq> 0 then State_Monad.return (SchemaDelete, status)
     else do {
       status \<leftarrow> delete_peer;
       if status \<noteq> 0 then State_Monad.return (PeerDelete, status)
       else do {
         status \<leftarrow> verify;
         State_Monad.return (if status \<noteq> 0 then (Postcondition, status) else (RemovalComplete, 0))}}}"

text \<open>What the transport passes as the removal from memory; \<open>delete_peer\<close> is NimBLE's.\<close>

definition remove_from_stack :: "'w nvs \<Rightarrow> (store_identity \<Rightarrow> ('w, i32) state) \<Rightarrow> store_identity \<Rightarrow> ('w, i32) state" where
  "remove_from_stack nvs delete_peer target = do {
     (stage, status) \<leftarrow> run_schema_first_removal (delete_schema_revision_verified nvs target) (delete_peer target)
       (State_Monad.return 0);
     State_Monad.return status}"

end
