(* ===== verification/BondJournal.thy ===== *)
theory BondJournal
  imports BondDeletion
begin

text \<open>
  What the journaled deletion of \<open>BondDeletion\<close> does to the flash, however the flash fails: \<open>nvs_ok\<close> and
  \<open>nvs_live\<close> state the documented behaviour of NVS, \<open>store_ok\<close> and \<open>store_live\<close> are the contract of
  \<open>PersistentDeleteStore\<close> that follows, and \<open>results\<close> carries a postcondition through a program.
\<close>

section \<open>Durable contents\<close>

datatype nvs_item = NvBlob "u8 list" | NvU8 u8 | NvU32 u32 | NvOther

fun item_type :: "nvs_item \<Rightarrow> nvs_type" where
  "item_type (NvBlob d) = TypeBlob"
| "item_type (NvU8 b) = TypeU8"
| "item_type (NvU32 w) = TypeU32"
| "item_type NvOther = TypeOther"

lemma item_type_iff:
  "item_type x = TypeBlob \<longleftrightarrow> (\<exists>d. x = NvBlob d)" "item_type x = TypeU8 \<longleftrightarrow> (\<exists>b. x = NvU8 b)"
  "item_type x = TypeU32 \<longleftrightarrow> (\<exists>w. x = NvU32 w)"
  by (cases x; simp)+

type_synonym contents = "string \<Rightarrow> string \<Rightarrow> nvs_item option"

definition put_item :: "string \<Rightarrow> string \<Rightarrow> nvs_item option \<Rightarrow> contents \<Rightarrow> contents" where
  "put_item ns key x c = c(ns := (c ns)(key := x))"

section \<open>Postconditions of programs\<close>

text \<open>Run on any world with contents \<open>c\<close>, the program ends with a result and contents that satisfy \<open>Q\<close>.\<close>

definition results :: "('w \<Rightarrow> contents) \<Rightarrow> ('w, 'a) state \<Rightarrow> contents \<Rightarrow> ('a \<Rightarrow> contents \<Rightarrow> bool) \<Rightarrow> bool" where
  "results durable m c Q \<longleftrightarrow> (\<forall>w. durable w = c \<longrightarrow> Q (fst (run_state m w)) (durable (snd (run_state m w))))"

lemma results_run: "results durable m (durable w) Q \<Longrightarrow> run_state m w = (a, w') \<Longrightarrow> Q a (durable w')"
  unfolding results_def by (metis fst_conv snd_conv)

lemma results_return [intro]: "Q a c \<Longrightarrow> results durable (State_Monad.return a) c Q"
  by (simp add: results_def)

lemma results_bind: "results durable m c (\<lambda>a c'. results durable (k a) c' Q) \<Longrightarrow> results durable (m \<bind> k) c Q"
  by (simp add: results_def split_beta)

lemma results_mono: "results durable m c P \<Longrightarrow> (\<And>a c'. P a c' \<Longrightarrow> Q a c') \<Longrightarrow> results durable m c Q"
  by (auto simp: results_def)

lemma results_both: "results durable m c P \<Longrightarrow> results durable m c Q \<Longrightarrow> results durable m c (\<lambda>a c'. P a c' \<and> Q a c')"
  by (simp add: results_def)

lemma results_if: "(b \<Longrightarrow> results durable m c Q) \<Longrightarrow> (\<not> b \<Longrightarrow> results durable n c Q) \<Longrightarrow> results durable (if b then m else n) c Q"
  by simp

lemma results_imp: "results durable m c (\<lambda>a c'. p \<longrightarrow> Q a c') \<longleftrightarrow> (p \<longrightarrow> results durable m c Q)"
  by (auto simp: results_def)

text \<open>The next call, by what is known of it.\<close>

lemma results_call:
  "results durable m c P \<Longrightarrow> (\<And>a c'. P a c' \<Longrightarrow> results durable (k a) c' Q) \<Longrightarrow> results durable (m \<bind> k) c Q"
  by (rule results_bind) (erule results_mono, blast)

text \<open>A call whose status ends the program when it is not 0.\<close>

lemma results_check:
  assumes "results durable m c P" "\<And>s c'. P s c' \<Longrightarrow> s \<noteq> 0 \<Longrightarrow> Q s c'" "\<And>c'. P 0 c' \<Longrightarrow> results durable n c' Q"
  shows "results durable (m \<bind> (\<lambda>s. if s \<noteq> 0 then State_Monad.return s else n)) c Q"
  by (rule results_call [OF assms(1)]) (use assms in \<open>auto simp: results_return\<close>)

section \<open>The documented behaviour of the flash storage\<close>

text \<open>
  Every operation may fail. A failing write or deletion may or may not have taken effect; one that
  succeeds has, once it is committed. Reading changes nothing, tells a key that is not there from a
  failure, and never misreports. A namespace that cannot be found is empty; an iteration that ends with
  "not found" has visited every key.
\<close>

definition nvs_ok :: "'w nvs \<Rightarrow> ('w \<Rightarrow> contents) \<Rightarrow> bool" where
  "nvs_ok n durable \<longleftrightarrow>
     (\<forall>ns rw c. results durable (nv_open n ns rw) c (\<lambda>s c'. c' = c \<and> (s = kNotFound \<longrightarrow> c ns = Map.empty)))
     \<and> (\<forall>ns key cap c. results durable (nv_get_blob n ns key cap) c (\<lambda>r c'. c' = c
         \<and> (fst r = 0 \<longrightarrow> c ns key = Some (NvBlob (snd r)) \<and> length (snd r) \<le> cap)
         \<and> (fst r = kNotFound \<longrightarrow> (\<forall>d. c ns key \<noteq> Some (NvBlob d)))))
     \<and> (\<forall>ns key c. results durable (nv_get_u8 n ns key) c (\<lambda>r c'. c' = c
         \<and> (fst r = 0 \<longrightarrow> c ns key = Some (NvU8 (snd r)))
         \<and> (fst r = kNotFound \<longrightarrow> (\<forall>x. c ns key \<noteq> Some (NvU8 x)))))
     \<and> (\<forall>ns key c. results durable (nv_get_u32 n ns key) c (\<lambda>r c'. c' = c
         \<and> (fst r = 0 \<longrightarrow> c ns key = Some (NvU32 (snd r)))
         \<and> (fst r = kNotFound \<longrightarrow> (\<forall>x. c ns key \<noteq> Some (NvU32 x)))))
     \<and> (\<forall>ns key d c. results durable (nv_set_blob n ns key d) c (\<lambda>s c1. c1 \<in> {c, put_item ns key (Some (NvBlob d)) c}
         \<and> results durable (nv_commit n ns) c1 (\<lambda>t c2. c2 \<in> {c, put_item ns key (Some (NvBlob d)) c}
             \<and> (s = 0 \<and> t = 0 \<longrightarrow> c2 = put_item ns key (Some (NvBlob d)) c))))
     \<and> (\<forall>ns key c. results durable (nv_erase_key n ns key) c (\<lambda>s c1. c1 \<in> {c, put_item ns key None c}
         \<and> (s = kNotFound \<longrightarrow> c ns key = None)
         \<and> results durable (nv_commit n ns) c1 (\<lambda>t c2. c2 \<in> {c, put_item ns key None c}
             \<and> (s = 0 \<and> t = 0 \<longrightarrow> c2 = put_item ns key None c))))
     \<and> (\<forall>ns c. results durable (nv_entries n ns) c (\<lambda>r c'. c' = c \<and> snd r \<noteq> 0
         \<and> (snd r = kNotFound \<longrightarrow> set (fst r) = {(key, item_type x) | key x. c ns key = Some x})))
     \<and> (\<forall>ns key c. results durable (nv_blob_size n ns key) c (\<lambda>r c'. c' = c
         \<and> (fst r = 0 \<longrightarrow> (\<exists>d. c ns key = Some (NvBlob d) \<and> length d = snd r))
         \<and> (fst r = kNotFound \<longrightarrow> (\<forall>d. c ns key \<noteq> Some (NvBlob d)))))
     \<and> (\<forall>ns key x c. results durable (nv_set_u32 n ns key x) c (\<lambda>s c1. c1 \<in> {c, put_item ns key (Some (NvU32 x)) c}
         \<and> results durable (nv_commit n ns) c1 (\<lambda>t c2. c2 \<in> {c, put_item ns key (Some (NvU32 x)) c}
             \<and> (s = 0 \<and> t = 0 \<longrightarrow> c2 = put_item ns key (Some (NvU32 x)) c))))"

text \<open>A storage without failures.\<close>

definition nvs_live :: "'w nvs \<Rightarrow> ('w \<Rightarrow> contents) \<Rightarrow> bool" where
  "nvs_live n durable \<longleftrightarrow>
     (\<forall>ns rw c. results durable (nv_open n ns rw) c (\<lambda>s c'. s = 0 \<or> \<not> rw \<and> s = kNotFound))
     \<and> (\<forall>ns key cap c. results durable (nv_get_blob n ns key cap) c (\<lambda>r c'.
         (c ns key = None \<longrightarrow> fst r = kNotFound) \<and> (\<forall>b. c ns key = Some (NvBlob b) \<and> length b \<le> cap \<longrightarrow> fst r = 0)))
     \<and> (\<forall>ns key c. results durable (nv_get_u8 n ns key) c (\<lambda>r c'. c ns key = None \<longrightarrow> fst r = kNotFound))
     \<and> (\<forall>ns key c. results durable (nv_get_u32 n ns key) c (\<lambda>r c'. c ns key = None \<longrightarrow> fst r = kNotFound))
     \<and> (\<forall>ns key d c. results durable (nv_set_blob n ns key d) c (\<lambda>s c'. s = 0))
     \<and> (\<forall>ns key c. results durable (nv_erase_key n ns key) c (\<lambda>s c'. s = (if c ns key = None then kNotFound else 0)))
     \<and> (\<forall>ns c. results durable (nv_commit n ns) c (\<lambda>s c'. s = 0))
     \<and> (\<forall>ns c. results durable (nv_entries n ns) c (\<lambda>r c'. snd r = kNotFound))"

section \<open>The contract of the store\<close>

text \<open>Every key that a category recognises is one of its slots and holds a blob.\<close>

definition layout_ok :: "contents \<Rightarrow> bool" where
  "layout_ok c \<longleftrightarrow> (\<forall>key x. c kDeleteBondNamespace key = Some x \<longrightarrow>
     fst (deletion_slot kDeleteCategories key) \<and> (snd (deletion_slot kDeleteCategories key) \<longrightarrow> (\<exists>d. x = NvBlob d)))"

text \<open>The keys of the target in the two namespaces of the firmware.\<close>

definition schema_records :: "store_identity \<Rightarrow> (string \<times> string) set" where
  "schema_records i = {(kSchemaNamespace, schema_key i), (kAssociationNamespace, schema_key i)}"

definition read_ok :: "string \<Rightarrow> string \<Rightarrow> nat \<Rightarrow> contents \<Rightarrow> delete_read \<times> u8 list \<Rightarrow> bool" where
  "read_ok ns key cap c rb \<longleftrightarrow> dr_status (fst rb) = 0 \<longrightarrow>
     (if dr_present (fst rb)
      then \<exists>d. c ns key = Some (NvBlob d) \<and> length d \<le> cap \<and> dr_size (fst rb) = length d \<and> snd rb = buffer_of cap d
      else \<forall>d. c ns key \<noteq> Some (NvBlob d))"

definition pruned :: "(string \<times> string) set \<Rightarrow> contents \<Rightarrow> contents \<Rightarrow> bool" where
  "pruned R c c' \<longleftrightarrow> (\<forall>ns key. c' ns key = c ns key \<or> (ns, key) \<in> R \<and> c' ns key = None)"

definition absent :: "(string \<times> string) set \<Rightarrow> contents \<Rightarrow> bool" where
  "absent R c \<longleftrightarrow> (\<forall>(ns, key) \<in> R. c ns key = None)"

definition store_ok :: "'w delete_store \<Rightarrow> ('w \<Rightarrow> contents) \<Rightarrow> bool" where
  "store_ok st durable \<longleftrightarrow>
     (\<forall>ns key cap c. results durable (ds_read st ns key cap) c (\<lambda>rb c'. c' = c \<and> read_ok ns key cap c rb))
     \<and> (\<forall>ns key d c. results durable (ds_write st ns key d) c (\<lambda>s c'. c' \<in> {c, put_item ns key (Some (NvBlob d)) c}
         \<and> (s = 0 \<longrightarrow> c' = put_item ns key (Some (NvBlob d)) c)))
     \<and> (\<forall>ns key c. results durable (ds_erase st ns key) c (\<lambda>s c'. c' \<in> {c, put_item ns key None c}
         \<and> (s = 0 \<longrightarrow> c' = put_item ns key None c)))
     \<and> (\<forall>c. results durable (ds_validate_layout st) c (\<lambda>s c'. c' = c \<and> (s = 0 \<longrightarrow> layout_ok c)))
     \<and> (\<forall>i c. results durable (ds_delete_schema st i) c (\<lambda>s c'. pruned (schema_records i) c c'
         \<and> (s = 0 \<longrightarrow> absent (schema_records i) c')))
     \<and> (\<forall>i c. results durable (ds_verify_schema_absent st i) c (\<lambda>s c'. c' = c))"

definition store_live :: "'w delete_store \<Rightarrow> ('w \<Rightarrow> contents) \<Rightarrow> bool" where
  "store_live st durable \<longleftrightarrow>
     (\<forall>ns key cap c. results durable (ds_read st ns key cap) c (\<lambda>rb c'.
         c ns key = None \<or> (\<exists>d. c ns key = Some (NvBlob d) \<and> length d \<le> cap) \<longrightarrow> dr_status (fst rb) = 0))
     \<and> (\<forall>ns key c. results durable (ds_erase st ns key) c (\<lambda>s c'. c ns key \<noteq> None \<longrightarrow> s = 0))
     \<and> (\<forall>c. results durable (ds_validate_layout st) c (\<lambda>s c'. layout_ok c \<longrightarrow> s = 0))
     \<and> (\<forall>i c. results durable (ds_delete_schema st i) c (\<lambda>s c'. s = 0))
     \<and> (\<forall>i c. results durable (ds_verify_schema_absent st i) c (\<lambda>s c'. absent (schema_records i) c \<longrightarrow> s = 0))"

section \<open>The persistent store keeps the contract\<close>

lemma nvs_call:
  assumes "nvs_ok n durable"
  shows "results durable (nv_open n ns rw) c (\<lambda>s c'. c' = c \<and> (s = kNotFound \<longrightarrow> c ns = Map.empty))"
    "results durable (nv_get_blob n ns key cap) c (\<lambda>r c'. c' = c
       \<and> (fst r = 0 \<longrightarrow> c ns key = Some (NvBlob (snd r)) \<and> length (snd r) \<le> cap)
       \<and> (fst r = kNotFound \<longrightarrow> (\<forall>d. c ns key \<noteq> Some (NvBlob d))))"
    "results durable (nv_get_u8 n ns key) c (\<lambda>r c'. c' = c
       \<and> (fst r = 0 \<longrightarrow> c ns key = Some (NvU8 (snd r)))
       \<and> (fst r = kNotFound \<longrightarrow> (\<forall>x. c ns key \<noteq> Some (NvU8 x))))"
    "results durable (nv_get_u32 n ns key) c (\<lambda>r c'. c' = c
       \<and> (fst r = 0 \<longrightarrow> c ns key = Some (NvU32 (snd r)))
       \<and> (fst r = kNotFound \<longrightarrow> (\<forall>x. c ns key \<noteq> Some (NvU32 x))))"
    "results durable (nv_set_blob n ns key d) c (\<lambda>s c1. c1 \<in> {c, put_item ns key (Some (NvBlob d)) c}
       \<and> results durable (nv_commit n ns) c1 (\<lambda>t c2. c2 \<in> {c, put_item ns key (Some (NvBlob d)) c}
           \<and> (s = 0 \<and> t = 0 \<longrightarrow> c2 = put_item ns key (Some (NvBlob d)) c)))"
    "results durable (nv_erase_key n ns key) c (\<lambda>s c1. c1 \<in> {c, put_item ns key None c}
       \<and> (s = kNotFound \<longrightarrow> c ns key = None)
       \<and> results durable (nv_commit n ns) c1 (\<lambda>t c2. c2 \<in> {c, put_item ns key None c}
           \<and> (s = 0 \<and> t = 0 \<longrightarrow> c2 = put_item ns key None c)))"
    "results durable (nv_entries n ns) c (\<lambda>r c'. c' = c \<and> snd r \<noteq> 0
       \<and> (snd r = kNotFound \<longrightarrow> set (fst r) = {(key, item_type x) | key x. c ns key = Some x}))"
    "results durable (nv_blob_size n ns key) c (\<lambda>r c'. c' = c
       \<and> (fst r = 0 \<longrightarrow> (\<exists>d. c ns key = Some (NvBlob d) \<and> length d = snd r))
       \<and> (fst r = kNotFound \<longrightarrow> (\<forall>d. c ns key \<noteq> Some (NvBlob d))))"
    "results durable (nv_set_u32 n ns key x) c (\<lambda>s c1. c1 \<in> {c, put_item ns key (Some (NvU32 x)) c}
       \<and> results durable (nv_commit n ns) c1 (\<lambda>t c2. c2 \<in> {c, put_item ns key (Some (NvU32 x)) c}
           \<and> (s = 0 \<and> t = 0 \<longrightarrow> c2 = put_item ns key (Some (NvU32 x)) c)))"
  using assms unfolding nvs_ok_def by simp_all

lemma kNotFound_fails [simp]: "kNotFound \<noteq> 0" "0 \<noteq> kNotFound" "kInvalidState \<noteq> 0"
  by (simp_all add: kNotFound_def kInvalidState_def)

lemma persistent_read_ok:
  assumes "nvs_ok n durable"
  shows "results durable (persistent_read n ns key cap) c (\<lambda>rb c'. c' = c \<and> read_ok ns key cap c rb)"
  unfolding persistent_read_def
proof (rule results_call [OF nvs_call(1) [OF assms]])
  fix s c' assume "c' = c \<and> (s = kNotFound \<longrightarrow> c ns = Map.empty)"
  then show "results durable (if s = kNotFound
      then State_Monad.return (\<lparr>dr_status = 0, dr_present = False, dr_size = 0\<rparr>, buffer_of cap [])
      else if s \<noteq> 0 then State_Monad.return (\<lparr>dr_status = s, dr_present = False, dr_size = 0\<rparr>, buffer_of cap [])
      else nv_get_blob n ns key cap \<bind> (\<lambda>(s, d). State_Monad.return
        (if s = kNotFound then \<lparr>dr_status = 0, dr_present = False, dr_size = 0\<rparr>
         else \<lparr>dr_status = s, dr_present = (s = 0), dr_size = length d\<rparr>, buffer_of cap d))) c'
      (\<lambda>rb c'. c' = c \<and> read_ok ns key cap c rb)"
    by (auto intro!: results_call [OF nvs_call(2) [OF assms]] results_return simp: read_ok_def)
qed

lemma persistent_write_ok:
  assumes "nvs_ok n durable"
  shows "results durable (persistent_write n ns key d) c (\<lambda>s c'. c' \<in> {c, put_item ns key (Some (NvBlob d)) c}
    \<and> (s = 0 \<longrightarrow> c' = put_item ns key (Some (NvBlob d)) c))"
  unfolding persistent_write_def
  by (rule results_check [OF nvs_call(1) [OF assms]])
    (auto intro!: results_call [OF nvs_call(5) [OF assms]] results_return elim: results_mono)

lemma persistent_erase_ok:
  assumes "nvs_ok n durable"
  shows "results durable (persistent_erase n ns key) c (\<lambda>s c'. c' \<in> {c, put_item ns key None c}
    \<and> (s = 0 \<longrightarrow> c' = put_item ns key None c))"
  unfolding persistent_erase_def
  by (rule results_check [OF nvs_call(1) [OF assms]])
    (auto intro!: results_call [OF nvs_call(6) [OF assms]] results_return elim: results_mono)

lemma validate_layout_ok:
  assumes "nvs_ok n durable"
  shows "results durable (validate_layout n) c (\<lambda>s c'. c' = c \<and> (s = 0 \<longrightarrow> layout_ok c))"
  unfolding validate_layout_def
proof (rule results_call [OF nvs_call(1) [OF assms]])
  fix s c' assume "c' = c \<and> (s = kNotFound \<longrightarrow> c kDeleteBondNamespace = Map.empty)"
  then have c: "c' = c" and empty: "s = kNotFound \<Longrightarrow> layout_ok c" by (auto simp: layout_ok_def)
  have checked: "layout_ok c"
    if "set es = {(key, item_type x) | key x. c kDeleteBondNamespace key = Some x}"
      "\<not> list_ex entry_refused es" for es
  proof -
    have "(key, item_type x) \<in> set es" if "c kDeleteBondNamespace key = Some x" for key x
      using that unfolding \<open>set es = _\<close> by blast
    with that(2) show ?thesis by (fastforce simp: layout_ok_def list_ex_iff entry_refused_def case_prod_unfold item_type_iff)
  qed
  have iterated: "results durable (nv_entries n kDeleteBondNamespace \<bind> (\<lambda>(entries, ended). State_Monad.return
         (if list_ex entry_refused entries then kInvalidState else if ended = kNotFound then 0 else ended))) c
       (\<lambda>s c'. c' = c \<and> (s = 0 \<longrightarrow> layout_ok c))"
    by (rule results_call [OF nvs_call(7) [OF assms]]) (auto intro!: results_return checked split: if_splits)
  show "results durable (if s = kNotFound then State_Monad.return 0 else if s \<noteq> 0 then State_Monad.return s
      else nv_entries n kDeleteBondNamespace \<bind> (\<lambda>(entries, ended). State_Monad.return
         (if list_ex entry_refused entries then kInvalidState
          else if ended = kNotFound then 0 else ended))) c' (\<lambda>s c'. c' = c \<and> (s = 0 \<longrightarrow> layout_ok c))"
    unfolding c using iterated by (auto intro: results_return empty)
qed

lemma put_item_same [simp]: "put_item ns key x c ns' key' = (if ns' = ns \<and> key' = key then x else c ns' key')"
  by (simp add: put_item_def)

lemma delete_record_ok:
  assumes "nvs_ok n durable"
  shows "results durable (delete_record n ns key) c (\<lambda>s c'. c' \<in> {c, put_item ns key None c} \<and> (s = 0 \<longrightarrow> c' ns key = None))"
  unfolding delete_record_def
  by (rule results_call [OF nvs_call(1) [OF assms]])
    (auto intro!: results_call [OF nvs_call(6) [OF assms]] results_return, (erule results_mono, auto)+)

lemma read_schema_revision_ok:
  assumes "nvs_ok n durable"
  shows "results durable (read_schema_revision n i) c (\<lambda>r c'. c' = c)"
  unfolding read_schema_revision_def
  by (rule results_call [OF nvs_call(1) [OF assms]]) (auto intro: results_return results_mono [OF nvs_call(3) [OF assms]])

lemma read_association_ok:
  assumes "nvs_ok n durable"
  shows "results durable (read_association n i) c (\<lambda>r c'. c' = c)"
  unfolding read_association_def
  by (rule results_call [OF nvs_call(1) [OF assms]])
    (auto intro!: results_bind results_return intro: results_mono [OF nvs_call(4) [OF assms]])

lemma namespaces [simp]:
  "kSchemaNamespace \<noteq> kAssociationNamespace" "kAssociationNamespace \<noteq> kSchemaNamespace"
  "kDeleteNamespace \<noteq> kDeleteBondNamespace" "kDeleteBondNamespace \<noteq> kDeleteNamespace"
  "kDeleteNamespace \<noteq> kSchemaNamespace" "kSchemaNamespace \<noteq> kDeleteNamespace"
  "kDeleteNamespace \<noteq> kAssociationNamespace" "kAssociationNamespace \<noteq> kDeleteNamespace"
  "kDeleteBondNamespace \<noteq> kSchemaNamespace" "kSchemaNamespace \<noteq> kDeleteBondNamespace"
  "kDeleteBondNamespace \<noteq> kAssociationNamespace" "kAssociationNamespace \<noteq> kDeleteBondNamespace"
  by (simp_all add: kSchemaNamespace_def kAssociationNamespace_def kDeleteNamespace_def kDeleteBondNamespace_def)

lemma delete_schema_revision_ok:
  assumes "nvs_ok n durable"
  shows "results durable (delete_schema_revision_verified n i) c
    (\<lambda>s c'. c' \<in> {c, put_item kSchemaNamespace (schema_key i) None c} \<and> (s = 0 \<longrightarrow> c' kSchemaNamespace (schema_key i) = None))"
  unfolding delete_schema_revision_verified_def delete_schema_revision_def
  by (rule results_check [OF delete_record_ok [OF assms]])
    (auto intro!: results_call [OF read_schema_revision_ok [OF assms]] results_return)

lemma delete_association_ok:
  assumes "nvs_ok n durable"
  shows "results durable (delete_association_verified n i) c
    (\<lambda>s c'. c' \<in> {c, put_item kAssociationNamespace (schema_key i) None c} \<and> (s = 0 \<longrightarrow> c' kAssociationNamespace (schema_key i) = None))"
  unfolding delete_association_verified_def
  by (rule results_check [OF delete_record_ok [OF assms]])
    (auto intro!: results_call [OF read_association_ok [OF assms]] results_return)

lemma delete_schema_ok:
  assumes "nvs_ok n durable"
  shows "results durable (delete_schema n i) c (\<lambda>s c'. pruned (schema_records i) c c' \<and> (s = 0 \<longrightarrow> absent (schema_records i) c'))"
  unfolding delete_schema_def
  by (rule results_check [OF delete_schema_revision_ok [OF assms]])
    (auto intro!: results_mono [OF delete_association_ok [OF assms]] simp: pruned_def absent_def schema_records_def split: if_splits)

lemma verify_schema_absent_ok:
  assumes "nvs_ok n durable"
  shows "results durable (verify_schema_absent n i) c (\<lambda>s c'. c' = c)"
  unfolding verify_schema_absent_def Let_def
  by (rule results_call [OF read_schema_revision_ok [OF assms]])
    (auto intro!: results_call [OF read_association_ok [OF assms]] results_return)

lemma persistent_store_ok: "nvs_ok n durable \<Longrightarrow> store_ok (persistent_store n) durable"
  unfolding store_ok_def persistent_store_def
  by (simp add: persistent_read_ok persistent_write_ok persistent_erase_ok validate_layout_ok delete_schema_ok
      verify_schema_absent_ok del: insert_iff)

section \<open>Without failures it finishes\<close>

lemma live_call:
  assumes "nvs_ok n durable" "nvs_live n durable"
  shows "results durable (nv_open n ns rw) c (\<lambda>s c'. c' = c \<and> (s = 0 \<or> \<not> rw \<and> s = kNotFound \<and> c ns = Map.empty))"
    "results durable (nv_get_blob n ns key cap) c (\<lambda>r c'. c' = c \<and> (c ns key = None \<longrightarrow> fst r = kNotFound)
       \<and> (\<forall>b. c ns key = Some (NvBlob b) \<and> length b \<le> cap \<longrightarrow> fst r = 0))"
    "results durable (nv_get_u8 n ns key) c (\<lambda>r c'. c' = c \<and> (c ns key = None \<longrightarrow> fst r = kNotFound))"
    "results durable (nv_get_u32 n ns key) c (\<lambda>r c'. c' = c \<and> (c ns key = None \<longrightarrow> fst r = kNotFound))"
    "results durable (nv_erase_key n ns key) c (\<lambda>s c1. s = (if c ns key = None then kNotFound else 0)
       \<and> results durable (nv_commit n ns) c1 (\<lambda>t c2. t = 0))"
    "results durable (nv_entries n ns) c (\<lambda>r c'. c' = c \<and> snd r = kNotFound
       \<and> set (fst r) = {(key, item_type x) | key x. c ns key = Some x})"
proof -
  note live = assms(2) [unfolded nvs_live_def]
  have l1: "results durable (nv_open n ns rw) c (\<lambda>s c'. s = 0 \<or> \<not> rw \<and> s = kNotFound)" by (rule live [THEN conjunct1, THEN spec, THEN spec, THEN spec])
  have l2: "results durable (nv_get_blob n ns key cap) c (\<lambda>r c'. (c ns key = None \<longrightarrow> fst r = kNotFound)
       \<and> (\<forall>b. c ns key = Some (NvBlob b) \<and> length b \<le> cap \<longrightarrow> fst r = 0))" by (rule live [THEN conjunct2, THEN conjunct1, THEN spec, THEN spec, THEN spec, THEN spec])
  have l3: "results durable (nv_get_u8 n ns key) c (\<lambda>r c'. c ns key = None \<longrightarrow> fst r = kNotFound)" by (rule live [THEN conjunct2, THEN conjunct2, THEN conjunct1, THEN spec, THEN spec, THEN spec])
  have l4: "results durable (nv_get_u32 n ns key) c (\<lambda>r c'. c ns key = None \<longrightarrow> fst r = kNotFound)" by (rule live [THEN conjunct2, THEN conjunct2, THEN conjunct2, THEN conjunct1, THEN spec, THEN spec, THEN spec])
  have l5: "results durable (nv_erase_key n ns key) c (\<lambda>s c'. s = (if c ns key = None then kNotFound else 0))" by (rule live [THEN conjunct2, THEN conjunct2, THEN conjunct2, THEN conjunct2, THEN conjunct2, THEN conjunct1, THEN spec, THEN spec, THEN spec])
  have l6: "results durable (nv_commit n ns) c (\<lambda>s c'. s = 0)" for c by (rule live [THEN conjunct2, THEN conjunct2, THEN conjunct2, THEN conjunct2, THEN conjunct2, THEN conjunct2, THEN conjunct1, THEN spec, THEN spec])
  have l7: "results durable (nv_entries n ns) c (\<lambda>r c'. snd r = kNotFound)" by (rule live [THEN conjunct2, THEN conjunct2, THEN conjunct2, THEN conjunct2, THEN conjunct2, THEN conjunct2, THEN conjunct2, THEN spec, THEN spec])
  show "results durable (nv_open n ns rw) c (\<lambda>s c'. c' = c \<and> (s = 0 \<or> \<not> rw \<and> s = kNotFound \<and> c ns = Map.empty))"
    by (rule results_mono [OF results_both [OF nvs_call(1) [OF assms(1)] l1]]) auto
  show "results durable (nv_get_blob n ns key cap) c (\<lambda>r c'. c' = c \<and> (c ns key = None \<longrightarrow> fst r = kNotFound)
       \<and> (\<forall>b. c ns key = Some (NvBlob b) \<and> length b \<le> cap \<longrightarrow> fst r = 0))"
    by (rule results_mono [OF results_both [OF nvs_call(2) [OF assms(1)] l2]]) (elim conjE, intro conjI, assumption+)
  show "results durable (nv_get_u8 n ns key) c (\<lambda>r c'. c' = c \<and> (c ns key = None \<longrightarrow> fst r = kNotFound))"
    by (rule results_mono [OF results_both [OF nvs_call(3) [OF assms(1)] l3]]) (elim conjE, intro conjI, assumption+)
  show "results durable (nv_get_u32 n ns key) c (\<lambda>r c'. c' = c \<and> (c ns key = None \<longrightarrow> fst r = kNotFound))"
    by (rule results_mono [OF results_both [OF nvs_call(4) [OF assms(1)] l4]]) (elim conjE, intro conjI, assumption+)
  show "results durable (nv_erase_key n ns key) c (\<lambda>s c1. s = (if c ns key = None then kNotFound else 0)
       \<and> results durable (nv_commit n ns) c1 (\<lambda>t c2. t = 0))"
    by (rule results_mono [OF l5]) (intro conjI, assumption, rule l6)
  show "results durable (nv_entries n ns) c (\<lambda>r c'. c' = c \<and> snd r = kNotFound
       \<and> set (fst r) = {(key, item_type x) | key x. c ns key = Some x})"
    by (rule results_mono [OF results_both [OF nvs_call(7) [OF assms(1)] l7]]) simp
qed

lemma live_absence: "absence_status kNotFound kNotFound invalid = 0" "absence_status 0 kNotFound invalid = invalid"
  by (simp_all add: absence_status_def)

lemma persistent_read_live:
  assumes "nvs_ok n durable" "nvs_live n durable"
    and "c ns key = None \<or> (\<exists>d. c ns key = Some (NvBlob d) \<and> length d \<le> cap)"
  shows "results durable (persistent_read n ns key cap) c (\<lambda>rb c'. dr_status (fst rb) = 0)"
proof -
  have got: "results durable (nv_get_blob n ns key cap \<bind> (\<lambda>(s, d). State_Monad.return
        (if s = kNotFound then \<lparr>dr_status = 0, dr_present = False, dr_size = 0\<rparr>
         else \<lparr>dr_status = s, dr_present = (s = 0), dr_size = length d\<rparr>, buffer_of cap d))) c
      (\<lambda>rb c'. dr_status (fst rb) = 0)"
    by (rule results_call [OF live_call(2) [OF assms(1,2)]]) (use assms(3) in \<open>auto intro!: results_return\<close>)
  show ?thesis
    unfolding persistent_read_def
    by (rule results_call [OF live_call(1) [OF assms(1,2)]]) (use got in \<open>auto intro: results_return\<close>)
qed

lemma persistent_erase_live:
  assumes "nvs_ok n durable" "nvs_live n durable" "c ns key \<noteq> None"
  shows "results durable (persistent_erase n ns key) c (\<lambda>s c'. s = 0)"
proof -
  have erased: "results durable (nv_erase_key n ns key \<bind> (\<lambda>s. if s = 0 then nv_commit n ns else State_Monad.return s)) c
      (\<lambda>s c'. s = 0)"
    by (rule results_call [OF live_call(5) [OF assms(1,2)]]) (use assms(3) in auto)
  show ?thesis
    unfolding persistent_erase_def
    by (rule results_call [OF live_call(1) [OF assms(1,2)]]) (use erased in auto)
qed

lemma layout_ok_entries:
  assumes "layout_ok c" "set es = {(key, item_type x) | key x. c kDeleteBondNamespace key = Some x}"
  shows "\<not> list_ex entry_refused es"
proof
  assume "list_ex entry_refused es"
  then obtain e where e: "e \<in> set es" "entry_refused e" by (auto simp: list_ex_iff)
  then obtain key x where "e = (key, item_type x)" "c kDeleteBondNamespace key = Some x" using assms(2) by blast
  with e(2) assms(1) show False by (fastforce simp: layout_ok_def entry_refused_def case_prod_unfold item_type_iff)
qed

lemma validate_layout_live:
  assumes "nvs_ok n durable" "nvs_live n durable" "layout_ok c"
  shows "results durable (validate_layout n) c (\<lambda>s c'. s = 0)"
proof -
  have iterated: "results durable (nv_entries n kDeleteBondNamespace \<bind> (\<lambda>(entries, ended). State_Monad.return
         (if list_ex entry_refused entries then kInvalidState else if ended = kNotFound then 0 else ended))) c
       (\<lambda>s c'. s = 0)"
    by (rule results_call [OF live_call(6) [OF assms(1,2)]]) (auto intro!: results_return dest: layout_ok_entries [OF assms(3)])
  show ?thesis
    unfolding validate_layout_def
    by (rule results_call [OF live_call(1) [OF assms(1,2)]]) (use iterated in \<open>auto intro: results_return\<close>)
qed

lemma delete_record_live:
  assumes "nvs_ok n durable" "nvs_live n durable"
  shows "results durable (delete_record n ns key) c (\<lambda>s c'. s = 0)"
proof -
  have erased: "results durable (nv_erase_key n ns key \<bind> (\<lambda>s. if s = kNotFound then State_Monad.return 0
        else if s = 0 then nv_commit n ns else State_Monad.return s)) c (\<lambda>s c'. s = 0)"
    by (rule results_call [OF live_call(5) [OF assms]]) (auto intro!: results_return split: if_splits)
  show ?thesis
    unfolding delete_record_def
    by (rule results_call [OF live_call(1) [OF assms]]) (use erased in \<open>auto intro: results_return\<close>)
qed

lemma read_schema_revision_live:
  assumes "nvs_ok n durable" "nvs_live n durable" "c kSchemaNamespace (schema_key i) = None"
  shows "results durable (read_schema_revision n i) c (\<lambda>r c'. c' = c \<and> fst r = kNotFound)"
  unfolding read_schema_revision_def
  by (rule results_call [OF live_call(1) [OF assms(1,2)]])
    (use assms(3) in \<open>auto intro: results_return results_mono [OF live_call(3) [OF assms(1,2)]]\<close>)

lemma read_association_live:
  assumes "nvs_ok n durable" "nvs_live n durable" "c kAssociationNamespace (schema_key i) = None"
  shows "results durable (read_association n i) c (\<lambda>r c'. c' = c \<and> association_absence r = 0)"
proof -
  have got: "results durable (nv_get_u32 n kAssociationNamespace (schema_key i) \<bind> (\<lambda>(status, word). State_Monad.return
       (if status = kNotFound then (0, association_default)
        else if status \<noteq> 0 then (status, association_default) else (0, decode_association word)))) c
      (\<lambda>r c'. c' = c \<and> association_absence r = 0)"
    by (rule results_call [OF live_call(4) [OF assms(1,2)]])
      (use assms(3) in \<open>auto intro!: results_return simp: association_absence_def association_default_def\<close>)
  show ?thesis
    unfolding read_association_def
    by (rule results_call [OF live_call(1) [OF assms(1,2)]])
      (use got in \<open>auto intro!: results_bind results_return simp: association_absence_def association_default_def results_def\<close>)
qed

lemma verify_schema_absent_live:
  assumes "nvs_ok n durable" "nvs_live n durable" "absent (schema_records i) c"
  shows "results durable (verify_schema_absent n i) c (\<lambda>s c'. s = 0)"
proof -
  have none: "c kSchemaNamespace (schema_key i) = None" "c kAssociationNamespace (schema_key i) = None"
    using assms(3) by (simp_all add: absent_def schema_records_def)
  show ?thesis
    unfolding verify_schema_absent_def Let_def
    by (rule results_call [OF read_schema_revision_live [where c = c and i = i, OF assms(1,2) none(1)]])
      (auto simp: live_absence intro!: results_call [OF read_association_live [where c = c and i = i, OF assms(1,2) none(2)]] results_return)
qed

lemma delete_schema_live:
  assumes "nvs_ok n durable" "nvs_live n durable"
  shows "results durable (delete_schema n i) c (\<lambda>s c'. s = 0)"
proof -
  have removed: "results durable (delete_record n ns key) c (\<lambda>s c'. s = 0 \<and> c' ns key = None)" for ns key c
    by (rule results_mono [OF results_both [OF delete_record_live [OF assms] delete_record_ok [OF assms(1)]]]) auto
  have revision: "results durable (delete_schema_revision_verified n i) c (\<lambda>s c'. s = 0)" for c
    unfolding delete_schema_revision_verified_def delete_schema_revision_def
    by (rule results_call [OF removed])
      (auto intro!: results_call [OF read_schema_revision_live [OF assms]] results_return simp: live_absence)
  have association: "results durable (delete_association_verified n i) c (\<lambda>s c'. s = 0)" for c
    unfolding delete_association_verified_def
    by (rule results_call [OF removed]) (auto intro!: results_call [OF read_association_live [OF assms]] results_return)
  show ?thesis
    unfolding delete_schema_def by (rule results_call [OF revision]) (simp add: association)
qed

lemma persistent_store_live: "nvs_ok n durable \<Longrightarrow> nvs_live n durable \<Longrightarrow> store_live (persistent_store n) durable"
  unfolding store_live_def persistent_store_def results_imp
  by (intro conjI allI impI) (simp_all add: persistent_read_live persistent_erase_live validate_layout_live
      delete_schema_live verify_schema_absent_live)

end
