(* ===== verification/BondRemoval.thy ===== *)
theory BondRemoval
  imports BondJournal
begin

text \<open>
  The journaled deletion over any store that keeps the contract of \<open>BondJournal\<close>: what an interrupted
  removal leaves, and that resuming it after any number of interrupted boots finishes it.
\<close>

section \<open>The records of a peer\<close>

definition receipt :: "contents \<Rightarrow> nvs_item option" where
  "receipt c = c kDeleteNamespace kDeleteKey"

text \<open>A slot with a record of the target, and a slot that the scan accepts.\<close>

definition slot_holds :: "contents \<Rightarrow> store_identity \<Rightarrow> delete_category \<times> string \<Rightarrow> bool" where
  "slot_holds c target slot = (case c kDeleteBondNamespace (snd slot) of
     Some (NvBlob d) \<Rightarrow> same_identity (deletion_identity (drop (dc_offset (fst slot)) (buffer_of 88 d))) target
   | _ \<Rightarrow> False)"

definition slot_fits :: "contents \<Rightarrow> store_identity \<Rightarrow> delete_category \<times> string \<Rightarrow> bool" where
  "slot_fits c target slot = (case c kDeleteBondNamespace (snd slot) of
     Some (NvBlob d) \<Rightarrow> length d = dc_size (fst slot)
       \<and> valid_identity (deletion_identity (drop (dc_offset (fst slot)) (buffer_of 88 d)))
       \<and> \<not> (dc_offset (fst slot) = 7 \<and> \<not> slot_holds c target slot
             \<and> same_identity (deletion_identity (buffer_of 88 d)) target)
   | _ \<Rightarrow> True)"

definition scan_ok :: "contents \<Rightarrow> store_identity \<Rightarrow> bool" where
  "scan_ok c target \<longleftrightarrow> valid_identity target \<and> layout_ok c \<and> list_all (slot_fits c target) delete_slots"

definition held_slots :: "contents \<Rightarrow> store_identity \<Rightarrow> (string \<times> string) set" where
  "held_slots c target = (\<lambda>slot. (kDeleteBondNamespace, snd slot)) ` set (filter (slot_holds c target) delete_slots)"

definition records :: "contents \<Rightarrow> store_identity \<Rightarrow> (string \<times> string) set" where
  "records c target = schema_records target \<union> held_slots c target"

definition gone :: "store_identity \<Rightarrow> contents \<Rightarrow> bool" where
  "gone target c \<longleftrightarrow> absent (schema_records target) c \<and> held_slots c target = {}"

text \<open>Nothing but records of the target and the receipt differs, and a record can only have been removed.\<close>

definition kept :: "store_identity \<Rightarrow> contents \<Rightarrow> contents \<Rightarrow> bool" where
  "kept target c c' \<longleftrightarrow> (\<forall>ns key. (ns, key) \<noteq> (kDeleteNamespace, kDeleteKey) \<longrightarrow> c' ns key = c ns key
     \<or> c' ns key = None \<and> (ns, key) \<in> records c target)"

section \<open>Scanning\<close>

lemma store_call:
  assumes "store_ok st durable"
  shows "results durable (ds_read st ns key cap) c (\<lambda>rb c'. c' = c \<and> read_ok ns key cap c rb)"
    "results durable (ds_write st ns key d) c (\<lambda>s c'. c' \<in> {c, put_item ns key (Some (NvBlob d)) c}
       \<and> (s = 0 \<longrightarrow> c' = put_item ns key (Some (NvBlob d)) c))"
    "results durable (ds_erase st ns key) c (\<lambda>s c'. c' \<in> {c, put_item ns key None c} \<and> (s = 0 \<longrightarrow> c' = put_item ns key None c))"
    "results durable (ds_validate_layout st) c (\<lambda>s c'. c' = c \<and> (s = 0 \<longrightarrow> layout_ok c))"
    "results durable (ds_delete_schema st i) c (\<lambda>s c'. pruned (schema_records i) c c' \<and> (s = 0 \<longrightarrow> absent (schema_records i) c'))"
    "results durable (ds_verify_schema_absent st i) c (\<lambda>s c'. c' = c)"
  using assms unfolding store_ok_def by simp_all

lemma slot_content:
  "c kDeleteBondNamespace key = Some (NvBlob d) \<Longrightarrow> slot_holds c target (cat, key)
     = same_identity (deletion_identity (drop (dc_offset cat) (buffer_of 88 d))) target"
  "\<forall>d. c kDeleteBondNamespace key \<noteq> Some (NvBlob d) \<Longrightarrow> \<not> slot_holds c target (cat, key) \<and> slot_fits c target (cat, key)"
  by (auto simp: slot_holds_def slot_fits_def split: option.splits nvs_item.splits)

text \<open>What a slot is found to be, from the buffer and from the flash.\<close>

lemma slot_owned_reads:
  assumes "read_ok kDeleteBondNamespace key 88 c (read, bytes)" "dr_status read = 0"
  shows "slot_owned cat target read bytes =
    (if slot_fits c target (cat, key) then Inr (slot_holds c target (cat, key)) else Inl kDeleteInvalid)"
proof (cases "dr_present read")
  case True
  with assms obtain d where d: "c kDeleteBondNamespace key = Some (NvBlob d)" "dr_size read = length d" "bytes = buffer_of 88 d"
    by (auto simp: read_ok_def)
  have fits: "slot_fits c target (cat, key) \<longleftrightarrow> length d = dc_size cat
      \<and> valid_identity (deletion_identity (drop (dc_offset cat) (buffer_of 88 d)))
      \<and> \<not> (dc_offset cat = 7 \<and> \<not> slot_holds c target (cat, key) \<and> same_identity (deletion_identity (buffer_of 88 d)) target)"
    by (simp add: slot_fits_def d)
  show ?thesis unfolding slot_owned_def Let_def fits slot_content(1) [where c = c and key = key and d = d, OF d(1)] using d(2,3) assms(2) True by simp
next
  case False
  with assms have "\<forall>d. c kDeleteBondNamespace key \<noteq> Some (NvBlob d)" by (simp add: read_ok_def)
  then show ?thesis using assms(2) False slot_content(2) [of c key target cat] by (simp add: slot_owned_def)
qed

lemma slot_owned_fails: "dr_status read \<noteq> 0 \<Longrightarrow> slot_owned cat target read bytes = Inl (dr_status read)"
  by (simp add: slot_owned_def Let_def)

text \<open>A scan fails with a status, or has found exactly the target's slots among acceptable ones.\<close>

definition scanned :: "contents \<Rightarrow> store_identity \<Rightarrow> (delete_category \<times> string) list \<Rightarrow> i32 + bool list \<Rightarrow> bool" where
  "scanned c target slots r = (case r of Inl s \<Rightarrow> s \<noteq> 0
     | Inr sel \<Rightarrow> sel = map (slot_holds c target) slots \<and> list_all (slot_fits c target) slots)"

lemma kDeleteInvalid_fails [simp]: "kDeleteInvalid \<noteq> 0" by (simp add: kDeleteInvalid_def)

lemma scan_slots_ok:
  assumes "store_ok st durable"
  shows "results durable (scan_slots st target slots) c (\<lambda>r c'. c' = c \<and> scanned c target slots r)"
proof (induction slots)
  case (Cons slot slots)
  obtain cat key where slot: "slot = (cat, key)" by (cases slot)
  have tail: "results durable (scan_slots st target slots \<bind> (\<lambda>rest. State_Monad.return (map_sum id ((#) ours) rest))) c
      (\<lambda>r c'. c' = c \<and> scanned c target ((cat, key) # slots) r)"
    if "slot_fits c target (cat, key)" "ours = slot_holds c target (cat, key)" for ours
    by (rule results_call [OF Cons.IH], rule results_return) (use that in \<open>auto simp: scanned_def split: sum.splits\<close>)
  have head: "results durable (case slot_owned cat target read bytes of
        Inl status \<Rightarrow> State_Monad.return (Inl status)
      | Inr ours \<Rightarrow> scan_slots st target slots \<bind> (\<lambda>rest. State_Monad.return (map_sum id ((#) ours) rest))) c
      (\<lambda>r c'. c' = c \<and> scanned c target ((cat, key) # slots) r)"
    if "read_ok kDeleteBondNamespace key 88 c (read, bytes)" for read bytes
    using slot_owned_reads [OF that, of cat target] tail slot_owned_fails [of read cat target bytes]
    by (cases "dr_status read = 0"; cases "slot_fits c target (cat, key)") (auto intro!: results_return simp: scanned_def)
  show ?case
    unfolding slot scan_slots.simps
    by (rule results_call [OF store_call(1) [OF assms]]) (use head in \<open>auto simp: split_paired_all\<close>)
qed (auto intro: results_return simp: scanned_def)

lemma target_delete_scan_ok:
  assumes "store_ok st durable"
  shows "results durable (target_delete_scan st target) c (\<lambda>r c'. c' = c \<and> scanned c target delete_slots r
    \<and> (\<forall>sel. r = Inr sel \<longrightarrow> scan_ok c target))"
proof (cases "valid_identity target")
  case True
  have "results durable (scan_slots st target delete_slots) c (\<lambda>r c'. c' = c \<and> scanned c target delete_slots r
      \<and> (\<forall>sel. r = Inr sel \<longrightarrow> scan_ok c target))" if "layout_ok c"
    by (rule results_mono [OF scan_slots_ok [OF assms]]) (auto simp: scan_ok_def scanned_def True that split: sum.splits)
  then show ?thesis
    unfolding target_delete_scan_def using True
    by (auto intro!: results_call [OF store_call(4) [OF assms]] results_return simp: scanned_def)
qed (auto simp: target_delete_scan_def scanned_def intro!: results_return)

section \<open>Deleting the target's records\<close>

text \<open>A failed scan ends the program; otherwise the selection is the target's slots.\<close>

lemma results_scan:
  assumes "store_ok st durable" "\<And>s. s \<noteq> 0 \<Longrightarrow> Q s c"
    and "scan_ok c target \<Longrightarrow> results durable (f (map (slot_holds c target) delete_slots)) c Q"
  shows "results durable (target_delete_scan st target \<bind> (\<lambda>r. case r of
    Inl status \<Rightarrow> State_Monad.return status | Inr selected \<Rightarrow> f selected)) c Q"
  by (rule results_call [OF target_delete_scan_ok [OF assms(1)]])
    (use assms(2,3) in \<open>auto simp: scanned_def intro!: results_return split: sum.splits\<close>)

lemma verify_durable_target_ok:
  assumes "store_ok st durable"
  shows "results durable (verify_durable_target_absent st target) c (\<lambda>s c'. c' = c \<and> (s = 0 \<longrightarrow> held_slots c target = {} \<and> scan_ok c target))"
proof -
  have none: "held_slots c target = {}" if "\<not> list_ex id (map (slot_holds c target) delete_slots)"
    using that by (auto simp: held_slots_def list_ex_iff)
  show ?thesis
    unfolding verify_durable_target_absent_def
    by (rule results_scan [OF assms])
      (use none in \<open>auto intro!: results_return results_mono [OF store_call(6) [OF assms]]\<close>)
qed

text \<open>The records behind the selected slots.\<close>

definition chosen :: "((delete_category \<times> string) \<times> bool) list \<Rightarrow> (string \<times> string) set" where
  "chosen zs = (\<lambda>z. (kDeleteBondNamespace, snd (fst z))) ` set (filter snd zs)"

lemma chosen_held: "chosen (zip slots (map (slot_holds c target) slots)) =
    (\<lambda>slot. (kDeleteBondNamespace, snd slot)) ` set (filter (slot_holds c target) slots)"
  by (induction slots) (auto simp: chosen_def)

lemma pruned_trans: "pruned R c c1 \<Longrightarrow> pruned S c1 c2 \<Longrightarrow> pruned (R \<union> S) c c2"
  unfolding pruned_def by (metis UnCI)

lemma pruned_refl [simp]: "pruned R c c" by (simp add: pruned_def)

lemma erase_selected_ok:
  assumes "store_ok st durable"
  shows "results durable (erase_selected st zs) c (\<lambda>s c'. pruned (chosen zs) c c' \<and> (s = 0 \<longrightarrow> absent (chosen zs) c'))"
proof (induction zs arbitrary: c)
  case Nil
  then show ?case by (auto simp: chosen_def absent_def intro!: results_return)
next
  case (Cons z zs)
  obtain cat key sel where z: "z = ((cat, key), sel)" by (metis surj_pair)
  show ?case
  proof (cases sel)
    case True
    have chosen: "chosen (z # zs) = insert (kDeleteBondNamespace, key) (chosen zs)" by (simp add: chosen_def z True)
    let ?c = "put_item kDeleteBondNamespace key None c"
    have mid: "pruned (chosen (((cat, key), True) # zs)) c ?c" using chosen True by (simp add: pruned_def z)
    have "results durable (erase_selected st zs) ?c
        (\<lambda>s c'. pruned (chosen (z # zs)) c c' \<and> (s = 0 \<longrightarrow> absent (chosen (z # zs)) c'))"
    proof (rule results_mono [OF Cons.IH])
      fix s c' assume s: "pruned (chosen zs) ?c c' \<and> (s = 0 \<longrightarrow> absent (chosen zs) c')"
      have "pruned {(kDeleteBondNamespace, key)} c ?c" by (simp add: pruned_def)
      with s have p: "pruned (chosen (z # zs)) c c'" using pruned_trans unfolding chosen by fastforce
      have "c' kDeleteBondNamespace key = None" using s unfolding pruned_def by (metis put_item_same)
      with s p show "pruned (chosen (z # zs)) c c' \<and> (s = 0 \<longrightarrow> absent (chosen (z # zs)) c')"
        by (simp add: chosen absent_def)
    qed
    then show ?thesis
      unfolding z erase_selected.simps using True
      by (auto intro!: results_check [OF store_call(3) [OF assms]] intro: mid simp: z)
  next
    case False
    have "chosen (z # zs) = chosen zs" by (simp add: chosen_def z False)
    then show ?thesis using Cons.IH False by (simp add: z)
  qed
qed

lemma held_iff: "(ns, key) \<in> held_slots c target \<longleftrightarrow> ns = kDeleteBondNamespace \<and> (\<exists>cat. (cat, key) \<in> set delete_slots \<and> slot_holds c target (cat, key))"
  by (force simp: held_slots_def)

lemma slot_holds_pruned: "pruned R c c' \<Longrightarrow> slot_holds c' target slot \<Longrightarrow> slot_holds c target slot"
  unfolding pruned_def slot_holds_def by (metis option.simps(4))

lemma held_pruned: "pruned R c c' \<Longrightarrow> held_slots c' target \<subseteq> held_slots c target"
  using slot_holds_pruned by (fastforce simp: held_slots_def)

lemma complete_durable_target_ok:
  assumes "store_ok st durable"
  shows "results durable (complete_durable_target st target) c (\<lambda>s c'. pruned (records c target) c c' \<and> (s = 0 \<longrightarrow> gone target c'))"
proof -
  let ?zs = "zip delete_slots (map (slot_holds c target) delete_slots)"
  have chosen: "chosen ?zs = held_slots c target" by (simp add: chosen_held held_slots_def)
  have last: "results durable (verify_durable_target_absent st target) c2
      (\<lambda>s c'. pruned (records c target) c c' \<and> (s = 0 \<longrightarrow> gone target c'))"
    if "pruned (records c target) c c2" "absent (schema_records target) c2" for c2
    by (rule results_mono [OF verify_durable_target_ok [OF assms]]) (use that in \<open>auto simp: gone_def\<close>)
  have schema: "results durable (ds_delete_schema st target \<bind> (\<lambda>status. if status \<noteq> 0 then State_Monad.return status
        else verify_durable_target_absent st target)) c1
      (\<lambda>s c'. pruned (records c target) c c' \<and> (s = 0 \<longrightarrow> gone target c'))" if "pruned (held_slots c target) c c1" for c1
    by (rule results_check [OF store_call(5) [OF assms]])
      (use pruned_trans [OF that] last in \<open>auto simp: records_def Un_commute\<close>)
  have erased: "pruned (records c target) c c1" if "pruned (held_slots c target) c c1" for c1
    using that by (auto simp: pruned_def records_def)
  show ?thesis
    unfolding complete_durable_target_def
    by (rule results_scan [OF assms])
      (auto simp: chosen intro!: results_check [OF erase_selected_ok [OF assms]] intro: schema erased)
qed

lemma read_delete_intent_ok:
  assumes "store_ok st durable"
  shows "results durable (read_delete_intent st) c (\<lambda>r c'. c' = c)"
  unfolding read_delete_intent_def
  by (rule results_call [OF store_call(1) [OF assms]]) (auto intro!: results_return)

lemma begin_delete_intent_ok:
  assumes "store_ok st durable"
  shows "results durable (begin_delete_intent st i) c
    (\<lambda>s c'. c' \<in> {c, put_item kDeleteNamespace kDeleteKey (Some (NvBlob (deletion_intent i))) c}
      \<and> (s = 0 \<longrightarrow> c' = put_item kDeleteNamespace kDeleteKey (Some (NvBlob (deletion_intent i))) c))"
    (is "results _ _ _ ?Q")
proof -
  have checked: "results durable (read_delete_intent st \<bind> (\<lambda>(status, old). State_Monad.return
      (if status \<noteq> 0 then status
       else case old of None \<Rightarrow> kDeleteInvalid | Some j \<Rightarrow> if same_identity j i then 0 else kDeleteInvalid)))
      (put_item kDeleteNamespace kDeleteKey (Some (NvBlob (deletion_intent i))) c) ?Q"
    by (rule results_call [OF read_delete_intent_ok [OF assms]]) (auto intro!: results_return)
  have written: "results durable (ds_write st kDeleteNamespace kDeleteKey (deletion_intent i) \<bind> (\<lambda>status.
      if status \<noteq> 0 then State_Monad.return status
      else read_delete_intent st \<bind> (\<lambda>(status, old). State_Monad.return
        (if status \<noteq> 0 then status
         else case old of None \<Rightarrow> kDeleteInvalid | Some j \<Rightarrow> if same_identity j i then 0 else kDeleteInvalid)))) c ?Q"
    by (rule results_check [OF store_call(2) [OF assms]]) (use checked in auto)
  show ?thesis
  proof (cases "valid_identity i")
    case True
    then show ?thesis
      unfolding begin_delete_intent_def if_not_P [OF not_not [THEN iffD2, OF True]]
      by (intro results_call [OF read_delete_intent_ok [OF assms]]) (use written in \<open>auto intro!: results_return\<close>)
  qed (auto simp: begin_delete_intent_def intro!: results_return)
qed

text \<open>Once the target is gone, the last step removes the receipt.\<close>

lemma finish_delete_intent_ok:
  assumes "store_ok st durable"
  shows "results durable (finish_delete_intent st target) c (\<lambda>s c'. c' \<in> {c, put_item kDeleteNamespace kDeleteKey None c}
    \<and> (s = 0 \<longrightarrow> c' = put_item kDeleteNamespace kDeleteKey None c))" (is "results _ _ _ ?Q")
proof -
  have checked: "results durable (read_delete_intent st \<bind> (\<lambda>(status, pending).
      State_Monad.return (if status \<noteq> 0 then status else if pending \<noteq> None then kDeleteInvalid else 0)))
      (put_item kDeleteNamespace kDeleteKey None c) ?Q"
    by (rule results_call [OF read_delete_intent_ok [OF assms]]) (auto intro!: results_return)
  have erased: "results durable (ds_erase st kDeleteNamespace kDeleteKey \<bind> (\<lambda>status.
      if status \<noteq> 0 then State_Monad.return status
      else read_delete_intent st \<bind> (\<lambda>(status, pending).
        State_Monad.return (if status \<noteq> 0 then status else if pending \<noteq> None then kDeleteInvalid else 0)))) c ?Q"
    by (rule results_check [OF store_call(3) [OF assms]]) (use checked in auto)
  have verified: "results durable (verify_durable_target_absent st target \<bind> (\<lambda>status.
      if status \<noteq> 0 then State_Monad.return status
      else ds_erase st kDeleteNamespace kDeleteKey \<bind> (\<lambda>status.
      if status \<noteq> 0 then State_Monad.return status
      else read_delete_intent st \<bind> (\<lambda>(status, pending).
        State_Monad.return (if status \<noteq> 0 then status else if pending \<noteq> None then kDeleteInvalid else 0))))) c ?Q"
    by (rule results_check [OF verify_durable_target_ok [OF assms]]) (use erased in auto)
  show ?thesis
    unfolding finish_delete_intent_def
    by (rule results_call [OF read_delete_intent_ok [OF assms]]) (use verified in \<open>auto intro!: results_return\<close>)
qed

section \<open>The removal and its resumption\<close>

lemma kept_refl [simp]: "kept target c c" by (simp add: kept_def)

lemma slot_holds_kept: "kept target c c' \<Longrightarrow> slot_holds c' i slot \<Longrightarrow> slot_holds c i slot"
  unfolding kept_def slot_holds_def by (metis namespaces(4) option.simps(4) prod.inject)

lemma kept_trans:
  assumes "kept target c c1" "kept target c1 c2"
  shows "kept target c c2"
proof -
  have "records c1 target \<subseteq> records c target"
    using slot_holds_kept [OF assms(1)] by (fastforce simp: records_def held_slots_def)
  then show ?thesis using assms unfolding kept_def by (metis subsetD)
qed

lemma pruned_kept: "pruned (records c target) c c' \<Longrightarrow> kept target c c'"
  by (auto simp: pruned_def kept_def)

lemma receipt_not_record: "(kDeleteNamespace, kDeleteKey) \<notin> records c target"
  by (auto simp: records_def schema_records_def held_slots_def)

lemma pruned_receipt: "pruned (records c target) c c' \<Longrightarrow> receipt c' = receipt c"
  using receipt_not_record by (auto simp: pruned_def receipt_def)

lemma receipt_put: "kept target c (put_item kDeleteNamespace kDeleteKey x c)" "receipt (put_item kDeleteNamespace kDeleteKey x c) = x"
  "gone target (put_item kDeleteNamespace kDeleteKey x c) = gone target c"
  by (auto simp: kept_def receipt_def gone_def absent_def schema_records_def held_slots_def slot_holds_def)

lemma scan_ok_kept:
  assumes "kept target c c'" "scan_ok c target"
  shows "scan_ok c' target"
proof -
  have same: "c' kDeleteBondNamespace key = c kDeleteBondNamespace key \<or> c' kDeleteBondNamespace key = None" for key
    using assms(1) unfolding kept_def by (metis namespaces(4) prod.inject)
  have "layout_ok c'" using assms(2) same unfolding scan_ok_def layout_ok_def by (metis option.simps(3))
  moreover have "slot_fits c' target slot" if "slot_fits c target slot" for slot
    using that same [of "snd slot"] by (auto simp: slot_fits_def slot_holds_def split: option.splits nvs_item.splits)
  ultimately show ?thesis using assms(2) unfolding scan_ok_def list_all_iff by blast
qed

text \<open>An accepted deletion on its way: the receipt is there, or the target's records are gone and so is the receipt.\<close>

definition journaled :: "store_identity \<Rightarrow> contents \<Rightarrow> contents \<Rightarrow> bool" where
  "journaled target c0 c \<longleftrightarrow> kept target c0 c \<and> scan_ok c target
     \<and> (receipt c = Some (NvBlob (deletion_intent target)) \<or> receipt c = None \<and> gone target c)"

definition finished :: "store_identity \<Rightarrow> contents \<Rightarrow> bool" where
  "finished target c \<longleftrightarrow> receipt c = None \<and> gone target c"

lemma journaled_pruned:
  assumes "journaled target c0 c" "pruned (records c target) c c'" "receipt c \<noteq> None"
  shows "journaled target c0 c'"
  using assms kept_trans [OF _ pruned_kept] scan_ok_kept [OF pruned_kept] pruned_receipt unfolding journaled_def by metis

lemma journaled_receipt_erased:
  assumes "journaled target c0 c" "gone target c"
  shows "journaled target c0 (put_item kDeleteNamespace kDeleteKey None c)" "finished target (put_item kDeleteNamespace kDeleteKey None c)"
  using assms receipt_put kept_trans scan_ok_kept unfolding journaled_def finished_def by metis+

text \<open>From the receipt on, whatever fails.\<close>

lemma finish_journaled:
  assumes "store_ok st durable" "journaled target c0 c" "gone target c"
  shows "results durable (finish_delete_intent st target) c (\<lambda>s c'. journaled target c0 c' \<and> (s = 0 \<longrightarrow> finished target c'))"
  by (rule results_mono [OF finish_delete_intent_ok [OF assms(1)]]) (use assms journaled_receipt_erased in auto)

lemma complete_journaled:
  assumes "store_ok st durable" "journaled target c0 c" "receipt c \<noteq> None"
  shows "results durable (complete_durable_target st target) c
    (\<lambda>s c'. journaled target c0 c' \<and> receipt c' \<noteq> None \<and> (s = 0 \<longrightarrow> gone target c'))"
  by (rule results_mono [OF complete_durable_target_ok [OF assms(1)]])
    (use journaled_pruned [OF assms(2) _ assms(3)] pruned_receipt assms(3) in fastforce)

lemma removal_journaled:
  assumes "store_ok st durable"
    and ram: "\<And>c. results durable remove_ram c (\<lambda>s c'. kept target c c' \<and> receipt c' = receipt c)"
    and check: "\<And>c. results durable verify_ram c (\<lambda>s c'. c' = c)"
  shows "results durable (run_journaled_removal st target remove_ram verify_ram) c0
    (\<lambda>s c'. (c' = c0 \<or> journaled target c0 c') \<and> (s = 0 \<longrightarrow> journaled target c0 c' \<and> finished target c'))" (is "results _ _ _ ?Q")
proof -
  let ?put = "put_item kDeleteNamespace kDeleteKey (Some (NvBlob (deletion_intent target))) c0"
  have verified: "results durable (verify_ram \<bind> (\<lambda>status. if status \<noteq> 0 then State_Monad.return status
      else finish_delete_intent st target)) c ?Q" if "journaled target c0 c" "gone target c" for c
    by (rule results_check [OF check])
      (use that in \<open>auto intro: results_mono [OF finish_journaled [OF assms(1)]]\<close>)
  have completed: "results durable (complete_durable_target st target \<bind> (\<lambda>status. if status \<noteq> 0 then State_Monad.return status
      else verify_ram \<bind> (\<lambda>status. if status \<noteq> 0 then State_Monad.return status
      else finish_delete_intent st target))) c ?Q" if "journaled target c0 c" "receipt c \<noteq> None" for c
    by (rule results_check [OF complete_journaled [OF assms(1) that]]) (use verified in auto)
  have removed: "results durable (remove_ram \<bind> (\<lambda>status. if status \<noteq> 0 then State_Monad.return status
      else complete_durable_target st target \<bind> (\<lambda>status. if status \<noteq> 0 then State_Monad.return status
      else verify_ram \<bind> (\<lambda>status. if status \<noteq> 0 then State_Monad.return status
      else finish_delete_intent st target)))) ?put ?Q" if ok: "scan_ok c0 target"
  proof -
    have after: "journaled target c0 c \<and> receipt c \<noteq> None" if "kept target ?put c" "receipt c = receipt ?put" for c
      using that kept_trans [OF receipt_put(1)] scan_ok_kept ok receipt_put(2) unfolding journaled_def by (metis option.simps(3))
    show ?thesis by (rule results_check [OF ram]) (use after completed in auto)
  qed
  have begun: "journaled target c0 ?put" if "scan_ok c0 target"
    using that receipt_put(1,2) scan_ok_kept unfolding journaled_def by metis
  have receipt: "results durable (begin_delete_intent st target) c0
      (\<lambda>s c'. (s \<noteq> 0 \<longrightarrow> c' = c0 \<or> c' = ?put) \<and> (s = 0 \<longrightarrow> c' = ?put))"
    by (rule results_mono [OF begin_delete_intent_ok [OF assms(1)]]) blast
  show ?thesis
    unfolding run_journaled_removal_def
    by (rule results_scan [OF assms(1)], simp, rule results_check [OF receipt]) (auto simp: begun removed)
qed

lemma buffer_intent: "sized i \<Longrightarrow> buffer_of 8 (deletion_intent i) = deletion_intent i" "sized i \<Longrightarrow> length (deletion_intent i) = 8"
  by (simp_all add: buffer_of_def deletion_intent_def)

lemma decode_intent_intent: "sized i \<Longrightarrow> valid_identity i \<Longrightarrow> decode_intent (deletion_intent i) = Some i"
  by (cases i) (simp add: decode_intent_def deletion_intent_def Let_def)

text \<open>A receipt on its way is read back exactly.\<close>

lemma read_receipt:
  assumes "store_ok st durable" "sized target" "journaled target c0 c"
  shows "results durable (read_delete_intent st) c
    (\<lambda>r c'. c' = c \<and> (fst r = 0 \<longrightarrow> snd r = (if receipt c = None then None else Some target)))"
proof -
  have valid: "valid_identity target" using assms(3) by (simp add: journaled_def scan_ok_def)
  have stored: "receipt c = None \<or> receipt c = Some (NvBlob (deletion_intent target))" using assms(3) by (auto simp: journaled_def)
  show ?thesis
    unfolding read_delete_intent_def
    by (rule results_call [OF store_call(1) [OF assms(1)]])
      (use stored in \<open>auto intro!: results_return simp: read_ok_def receipt_def buffer_intent decode_intent_intent assms(2) valid
        split: if_splits\<close>)
qed

lemma resume_journaled:
  assumes "store_ok st durable" "sized target" "journaled target c0 c"
  shows "results durable (resume_exact_deletion st) c (\<lambda>s c'. journaled target c0 c' \<and> (s = 0 \<longrightarrow> finished target c'))"
proof -
  have completed: "results durable (complete_durable_target st target \<bind> (\<lambda>status. if status \<noteq> 0 then State_Monad.return status
      else finish_delete_intent st target)) c (\<lambda>s c'. journaled target c0 c' \<and> (s = 0 \<longrightarrow> finished target c'))"
    if "receipt c \<noteq> None"
    by (rule results_check [OF complete_journaled [OF assms(1,3) that]]) (auto intro: finish_journaled [OF assms(1)])
  have over: "finished target c" if "receipt c = None" using that assms(3) by (auto simp: journaled_def finished_def)
  show ?thesis
    unfolding resume_exact_deletion_def
    by (rule results_call [OF read_receipt [OF assms]]) (use assms(3) completed over in \<open>auto intro!: results_return\<close>)
qed

end
