(* ===== verification/BondResume.thy ===== *)
theory BondResume
  imports BondRemoval
begin

text \<open>
  The removal of a bond on the firmware's own store, life anywhere, and the boots that resume it. The
  properties are instantiated on a flash over an association list whose power may go after any number
  of operations.
\<close>

section \<open>Without failures a journaled deletion finishes\<close>

lemma store_live_call:
  assumes "store_ok st durable" "store_live st durable"
  shows "c ns key = None \<or> (\<exists>d. c ns key = Some (NvBlob d) \<and> length d \<le> cap) \<Longrightarrow>
      results durable (ds_read st ns key cap) c (\<lambda>rb c'. c' = c \<and> read_ok ns key cap c rb \<and> dr_status (fst rb) = 0)"
    "c ns key \<noteq> None \<Longrightarrow> results durable (ds_erase st ns key) c (\<lambda>s c'. s = 0 \<and> c' = put_item ns key None c)"
    "layout_ok c \<Longrightarrow> results durable (ds_validate_layout st) c (\<lambda>s c'. s = 0 \<and> c' = c)"
    "results durable (ds_delete_schema st i) c (\<lambda>s c'. s = 0 \<and> pruned (schema_records i) c c' \<and> absent (schema_records i) c')"
    "absent (schema_records i) c \<Longrightarrow> results durable (ds_verify_schema_absent st i) c (\<lambda>s c'. s = 0 \<and> c' = c)"
proof -
  note live = assms(2) [unfolded store_live_def results_imp]
  have l1: "c ns key = None \<or> (\<exists>d. c ns key = Some (NvBlob d) \<and> length d \<le> cap) \<Longrightarrow>
      results durable (ds_read st ns key cap) c (\<lambda>rb c'. dr_status (fst rb) = 0)"
    by (rule live [THEN conjunct1, THEN spec, THEN spec, THEN spec, THEN spec, THEN mp])
  have l2: "c ns key \<noteq> None \<Longrightarrow> results durable (ds_erase st ns key) c (\<lambda>s c'. s = 0)"
    by (rule live [THEN conjunct2, THEN conjunct1, THEN spec, THEN spec, THEN spec, THEN mp])
  have l3: "layout_ok c \<Longrightarrow> results durable (ds_validate_layout st) c (\<lambda>s c'. s = 0)"
    by (rule live [THEN conjunct2, THEN conjunct2, THEN conjunct1, THEN spec, THEN mp])
  have l4: "results durable (ds_delete_schema st i) c (\<lambda>s c'. s = 0)"
    by (rule live [THEN conjunct2, THEN conjunct2, THEN conjunct2, THEN conjunct1, THEN spec, THEN spec])
  have l5: "absent (schema_records i) c \<Longrightarrow> results durable (ds_verify_schema_absent st i) c (\<lambda>s c'. s = 0)"
    by (rule live [THEN conjunct2, THEN conjunct2, THEN conjunct2, THEN conjunct2, THEN spec, THEN spec, THEN mp])
  show "c ns key = None \<or> (\<exists>d. c ns key = Some (NvBlob d) \<and> length d \<le> cap) \<Longrightarrow>
      results durable (ds_read st ns key cap) c (\<lambda>rb c'. c' = c \<and> read_ok ns key cap c rb \<and> dr_status (fst rb) = 0)"
    by (rule results_mono [OF results_both [OF store_call(1) [OF assms(1)] l1]]) simp_all
  show "c ns key \<noteq> None \<Longrightarrow> results durable (ds_erase st ns key) c (\<lambda>s c'. s = 0 \<and> c' = put_item ns key None c)"
    by (rule results_mono [OF results_both [OF store_call(3) [OF assms(1)] l2]]) simp_all
  show "layout_ok c \<Longrightarrow> results durable (ds_validate_layout st) c (\<lambda>s c'. s = 0 \<and> c' = c)"
    by (rule results_mono [OF results_both [OF store_call(4) [OF assms(1)] l3]]) simp_all
  show "results durable (ds_delete_schema st i) c (\<lambda>s c'. s = 0 \<and> pruned (schema_records i) c c' \<and> absent (schema_records i) c')"
    by (rule results_mono [OF results_both [OF store_call(5) [OF assms(1)] l4]]) simp_all
  show "absent (schema_records i) c \<Longrightarrow> results durable (ds_verify_schema_absent st i) c (\<lambda>s c'. s = 0 \<and> c' = c)"
    by (rule results_mono [OF results_both [OF store_call(6) [OF assms(1)] l5]]) simp_all
qed

text \<open>A call that succeeds lets the program go on.\<close>

lemma results_checked:
  assumes "results durable m c P" "\<And>s c'. P s c' \<Longrightarrow> s = 0 \<and> results durable n c' Q"
  shows "results durable (m \<bind> (\<lambda>s. if s \<noteq> 0 then State_Monad.return s else n)) c Q"
  by (rule results_call [OF assms(1)]) (use assms(2) in auto)

lemma slot_keys: "list_all (\<lambda>slot. dc_size (fst slot) \<le> 88) delete_slots" "distinct (map snd delete_slots)"
  "list_all (\<lambda>slot. deletion_slot kDeleteCategories (snd slot) = (True, True)) delete_slots"
  subgoal by code_simp
  subgoal by code_simp
  subgoal by code_simp
  done

text \<open>An acceptable slot can be read.\<close>

lemma slot_readable:
  assumes "layout_ok c" "slot_fits c target (cat, key)" "(cat, key) \<in> set delete_slots"
  shows "c kDeleteBondNamespace key = None \<or> (\<exists>d. c kDeleteBondNamespace key = Some (NvBlob d) \<and> length d \<le> 88)"
proof (cases "c kDeleteBondNamespace key")
  case (Some x)
  have "deletion_slot kDeleteCategories key = (True, True)" "dc_size cat \<le> 88"
    using slot_keys(1,3) assms(3) by (auto simp: list_all_iff)
  moreover from this have "\<exists>d. x = NvBlob d" using assms(1) Some unfolding layout_ok_def by fastforce
  ultimately show ?thesis using assms(2) Some by (auto simp: slot_fits_def)
qed simp

lemma scan_slots_live:
  assumes "store_ok st durable" "store_live st durable" "layout_ok c"
    and "set slots \<subseteq> set delete_slots" "list_all (slot_fits c target) slots"
  shows "results durable (scan_slots st target slots) c (\<lambda>r c'. c' = c \<and> r = Inr (map (slot_holds c target) slots))"
  using assms(4,5)
proof (induction slots)
  case (Cons slot slots)
  obtain cat key where slot: "slot = (cat, key)" by (cases slot)
  have tail: "results durable (scan_slots st target slots \<bind> (\<lambda>rest. State_Monad.return (map_sum id ((#) ours) rest))) c
      (\<lambda>r c'. c' = c \<and> r = Inr (ours # map (slot_holds c target) slots))" for ours
    by (rule results_call [OF Cons.IH]) (use Cons.prems in \<open>auto intro!: results_return\<close>)
  have head: "results durable (case slot_owned cat target read bytes of
        Inl status \<Rightarrow> State_Monad.return (Inl status)
      | Inr ours \<Rightarrow> scan_slots st target slots \<bind> (\<lambda>rest. State_Monad.return (map_sum id ((#) ours) rest))) c
      (\<lambda>r c'. c' = c \<and> r = Inr (map (slot_holds c target) ((cat, key) # slots)))"
    if "read_ok kDeleteBondNamespace key 88 c (read, bytes)" "dr_status read = 0" for read bytes
    using slot_owned_reads [OF that, of cat target] tail Cons.prems(2) slot by simp
  have "c kDeleteBondNamespace key = None \<or> (\<exists>d. c kDeleteBondNamespace key = Some (NvBlob d) \<and> length d \<le> 88)"
    by (rule slot_readable [OF assms(3)]) (use Cons.prems slot in auto)
  note readable = store_live_call(1) [where c = c and ns = kDeleteBondNamespace and key = key and cap = 88, OF assms(1,2) this]
  show ?case
    unfolding slot scan_slots.simps
    by (rule results_call [OF readable]) (use head in \<open>auto simp: split_paired_all\<close>)
qed (auto intro: results_return)

lemma results_scan_live:
  assumes "store_ok st durable" "store_live st durable" "scan_ok c target"
    and "results durable (f (map (slot_holds c target) delete_slots)) c Q"
  shows "results durable (target_delete_scan st target \<bind> (\<lambda>r. case r of
    Inl status \<Rightarrow> State_Monad.return status | Inr selected \<Rightarrow> f selected)) c Q"
proof (rule results_call)
  have ok: "valid_identity target" "layout_ok c" "list_all (slot_fits c target) delete_slots"
    using assms(3) by (simp_all add: scan_ok_def)
  show "results durable (target_delete_scan st target) c (\<lambda>r c'. c' = c \<and> r = Inr (map (slot_holds c target) delete_slots))"
    unfolding target_delete_scan_def using ok
    by (auto intro!: results_call [OF store_live_call(3) [OF assms(1,2)]] scan_slots_live [OF assms(1,2)])
qed (use assms(4) in auto)

lemma verify_durable_target_live:
  assumes "store_ok st durable" "store_live st durable" "scan_ok c target" "gone target c"
  shows "results durable (verify_durable_target_absent st target) c (\<lambda>s c'. s = 0 \<and> c' = c)"
proof -
  have none: "\<not> list_ex id (map (slot_holds c target) delete_slots)" "absent (schema_records target) c"
    using assms(4) by (auto simp: gone_def held_slots_def list_ex_iff)
  show ?thesis
    unfolding verify_durable_target_absent_def
    by (rule results_scan_live [OF assms(1-3)]) (use none store_live_call(5) [OF assms(1,2)] in auto)
qed

lemma erase_selected_live:
  assumes "store_ok st durable" "store_live st durable"
    and "distinct (map (snd \<circ> fst) zs)" "\<And>z. z \<in> set zs \<Longrightarrow> snd z \<Longrightarrow> c kDeleteBondNamespace (snd (fst z)) \<noteq> None"
  shows "results durable (erase_selected st zs) c (\<lambda>s c'. s = 0)"
  using assms(3,4)
proof (induction zs arbitrary: c)
  case (Cons z zs)
  obtain cat key sel where z: "z = ((cat, key), sel)" by (metis surj_pair)
  show ?case
  proof (cases sel)
    case True
    have rest: "results durable (erase_selected st zs) (put_item kDeleteBondNamespace key None c) (\<lambda>s c'. s = 0)"
      by (rule Cons.IH) (use Cons.prems z in \<open>force+\<close>)
    have "c kDeleteBondNamespace key \<noteq> None" using Cons.prems(2) [of z] z True by simp
    then show ?thesis
      unfolding z erase_selected.simps using True
      by (auto intro!: results_checked [OF store_live_call(2) [OF assms(1,2)]] rest)
  next
    case False
    then show ?thesis using Cons z by simp
  qed
qed (auto intro: results_return)

lemma held_gone_pruned:
  assumes "pruned (held_slots c target) c c1" "absent (held_slots c target) c1"
  shows "held_slots c1 target = {}"
proof -
  have False if "(ns, key) \<in> held_slots c1 target" for ns key
  proof -
    from that obtain cat where k: "ns = kDeleteBondNamespace" "(cat, key) \<in> set delete_slots" "slot_holds c1 target (cat, key)"
      by (auto simp: held_iff)
    then have "(ns, key) \<in> held_slots c target" using slot_holds_pruned [OF assms(1)] by (auto simp: held_iff)
    then have "c1 ns key = None" using assms(2) by (auto simp: absent_def)
    with k show False by (simp add: slot_holds_def)
  qed
  then show ?thesis by auto
qed

lemma held_schema_pruned: "pruned (schema_records target) c c' \<Longrightarrow> held_slots c target = {} \<Longrightarrow> held_slots c' target = {}"
  using held_pruned by blast

lemma complete_durable_target_live:
  assumes "store_ok st durable" "store_live st durable" "scan_ok c target"
  shows "results durable (complete_durable_target st target) c (\<lambda>s c'. s = 0)"
proof -
  let ?zs = "zip delete_slots (map (slot_holds c target) delete_slots)"
  have chosen: "chosen ?zs = held_slots c target" by (simp add: chosen_held held_slots_def)
  have last: "results durable (verify_durable_target_absent st target) c' (\<lambda>s c'. s = 0)"
    if "scan_ok c' target" "gone target c'" for c'
    by (rule results_mono [OF verify_durable_target_live [OF assms(1,2) that]]) simp
  have schema: "results durable (ds_delete_schema st target \<bind> (\<lambda>status. if status \<noteq> 0 then State_Monad.return status
        else verify_durable_target_absent st target)) c1 (\<lambda>s c'. s = 0)"
    if c1: "pruned (held_slots c target) c c1" "absent (held_slots c target) c1" for c1
  proof (rule results_checked [OF store_live_call(4) [OF assms(1,2)]], intro conjI)
    fix s c2 assume c2: "s = 0 \<and> pruned (schema_records target) c1 c2 \<and> absent (schema_records target) c2"
    then have "pruned (records c target) c c2" using pruned_trans [OF c1(1)] by (auto simp: records_def Un_commute)
    then have "scan_ok c2 target" using scan_ok_kept [OF pruned_kept] assms(3) by blast
    moreover have "gone target c2" using c2 held_schema_pruned [OF _ held_gone_pruned [OF c1]] by (simp add: gone_def)
    ultimately show "results durable (verify_durable_target_absent st target) c2 (\<lambda>s c'. s = 0)" by (rule last)
  qed simp
  have keys: "map (snd \<circ> fst) ?zs = map snd delete_slots" by (simp flip: map_map)
  have there: "c kDeleteBondNamespace (snd (fst z)) \<noteq> None" if "z \<in> set ?zs" "snd z" for z
    using that by (auto simp: zip_map2 zip_same_conv_map slot_holds_def split: option.splits)
  have erased: "results durable (erase_selected st ?zs) c
      (\<lambda>s c'. s = 0 \<and> pruned (held_slots c target) c c' \<and> absent (held_slots c target) c')"
    by (rule results_mono [OF results_both [OF erase_selected_live [OF assms(1,2)] erase_selected_ok [OF assms(1)]]])
      (use slot_keys(2) there in \<open>auto simp: keys chosen\<close>)
  show ?thesis
    unfolding complete_durable_target_def
    by (rule results_scan_live [OF assms], rule results_checked [OF erased]) (use schema in auto)
qed

lemma read_receipt_live:
  assumes "store_ok st durable" "store_live st durable" "sized target" "journaled target c0 c"
  shows "results durable (read_delete_intent st) c (\<lambda>r c'. c' = c \<and> r = (0, if receipt c = None then None else Some target))"
proof -
  have stored: "receipt c = None \<or> receipt c = Some (NvBlob (deletion_intent target))" using assms(4) by (auto simp: journaled_def)
  then have fits: "c kDeleteNamespace kDeleteKey = None
      \<or> (\<exists>d. c kDeleteNamespace kDeleteKey = Some (NvBlob d) \<and> length d \<le> 8)"
    using buffer_intent(2) [OF assms(3)] by (auto simp: receipt_def)
  note readable = store_live_call(1) [where c = c and ns = kDeleteNamespace and key = kDeleteKey and cap = 8, OF assms(1,2) this]
  have "valid_identity target" using assms(4) by (simp add: journaled_def scan_ok_def)
  then show ?thesis
    unfolding read_delete_intent_def
    by (intro results_call [OF readable])
      (use stored assms(3) in \<open>auto intro!: results_return simp: read_ok_def receipt_def buffer_intent decode_intent_intent
        split: if_splits\<close>)
qed

lemma finish_live:
  assumes "store_ok st durable" "store_live st durable" "sized target" "journaled target c0 c" "receipt c \<noteq> None" "gone target c"
  shows "results durable (finish_delete_intent st target) c (\<lambda>s c'. s = 0)"
proof -
  let ?c = "put_item kDeleteNamespace kDeleteKey None c"
  have read: "results durable (read_delete_intent st) c (\<lambda>r c'. c' = c \<and> r = (0, Some target))"
    by (rule results_mono [OF read_receipt_live [OF assms(1-4)]]) (use assms(5) in simp)
  have "journaled target c0 ?c" "receipt ?c = None" using journaled_receipt_erased [OF assms(4,6)] by (simp_all add: finished_def)
  then have reread: "results durable (read_delete_intent st) ?c (\<lambda>r c'. c' = ?c \<and> r = (0, None))"
    by (intro results_mono [OF read_receipt_live [OF assms(1-3)]]) simp_all
  have "c kDeleteNamespace kDeleteKey \<noteq> None" using assms(5) by (simp add: receipt_def)
  note erase = store_live_call(2) [where c = c and ns = kDeleteNamespace and key = kDeleteKey, OF assms(1,2) this]
  have "scan_ok c target" using assms(4) by (simp add: journaled_def)
  note verify = verify_durable_target_live [OF assms(1,2) this assms(6)]
  have last: "results durable (read_delete_intent st \<bind> (\<lambda>(status, pending). State_Monad.return
        (if status \<noteq> 0 then status else if pending \<noteq> None then kDeleteInvalid else 0))) ?c (\<lambda>s c'. s = 0)"
    by (rule results_call [OF reread]) (auto intro: results_return)
  have rest: "results durable (verify_durable_target_absent st target \<bind> (\<lambda>status. if status \<noteq> 0 then State_Monad.return status
      else ds_erase st kDeleteNamespace kDeleteKey \<bind> (\<lambda>status. if status \<noteq> 0 then State_Monad.return status
      else read_delete_intent st \<bind> (\<lambda>(status, pending). State_Monad.return
        (if status \<noteq> 0 then status else if pending \<noteq> None then kDeleteInvalid else 0))))) c (\<lambda>s c'. s = 0)"
    by (rule results_checked [OF verify], elim conjE, intro conjI, assumption, hypsubst, rule results_checked [OF erase])
      (use last in auto)
  show ?thesis
    unfolding finish_delete_intent_def
    by (rule results_call [OF read]) (use rest in \<open>auto simp: same_identity_def\<close>)
qed

lemma resume_live:
  assumes "store_ok st durable" "store_live st durable" "sized target" "journaled target c0 c"
  shows "results durable (resume_exact_deletion st) c (\<lambda>s c'. s = 0 \<and> journaled target c0 c' \<and> finished target c')"
proof -
  have completed: "results durable (complete_durable_target st target \<bind> (\<lambda>status. if status \<noteq> 0 then State_Monad.return status
      else finish_delete_intent st target)) c (\<lambda>s c'. s = 0)" if r: "receipt c \<noteq> None"
  proof (rule results_checked)
    have "scan_ok c target" using assms(4) by (simp add: journaled_def)
    then show "results durable (complete_durable_target st target) c
        (\<lambda>s c'. s = 0 \<and> journaled target c0 c' \<and> receipt c' \<noteq> None \<and> (s = 0 \<longrightarrow> gone target c'))"
      by (intro results_both complete_durable_target_live assms complete_journaled r)
  qed (use finish_live [OF assms(1-3)] in auto)
  have ended: "results durable (resume_exact_deletion st) c (\<lambda>s c'. s = 0)"
    unfolding resume_exact_deletion_def
    by (rule results_call [OF read_receipt_live [OF assms]]) (use completed in \<open>auto intro!: results_return\<close>)
  show ?thesis
    by (rule results_mono [OF results_both [OF ended resume_journaled [OF assms(1,3,4)]]]) simp
qed

end
