(* ===== verification/BondFlash.thy ===== *)
theory BondFlash
  imports BondResume
begin

text \<open>
  The removal of a bond on the firmware's own store, cut anywhere, and the boots that resume it. The
  properties are instantiated on a flash over an association list whose power may go after any number
  of operations.
\<close>

section \<open>A flash that can lose its power\<close>

text \<open>The stored items and the number of writes and deletions until the power goes.\<close>

type_synonym flash = "((string \<times> string) \<times> nvs_item) list \<times> nat option"

definition stored :: "flash \<Rightarrow> contents" where
  "stored w ns key = map_of (fst w) (ns, key)"

text \<open>A changing operation; a lasting flash never loses its power.\<close>

definition flash_write ::
    "bool \<Rightarrow> (((string \<times> string) \<times> nvs_item) list \<Rightarrow> ((string \<times> string) \<times> nvs_item) list) \<Rightarrow> (flash, i32) state" where
  "flash_write lasting f = State (\<lambda>(items, life). if lasting then (0, f items, life) else case life of
     None \<Rightarrow> (0, f items, None)
   | Some 0 \<Rightarrow> (- 1, items, Some 0)
   | Some (Suc n) \<Rightarrow> (0, f items, Some n))"

definition flash_read :: "(contents \<Rightarrow> 'a) \<Rightarrow> (flash, 'a) state" where
  "flash_read f = State (\<lambda>w. (f (stored w), w))"

definition blob_of :: "nat \<Rightarrow> nvs_item option \<Rightarrow> i32 \<times> u8 list" where
  "blob_of cap x = (case x of Some (NvBlob d) \<Rightarrow> if length d \<le> cap then (0, d) else (0x110c, []) | _ \<Rightarrow> (kNotFound, []))"

definition flash_nvs :: "bool \<Rightarrow> flash nvs" where
  "flash_nvs lasting = \<lparr>nv_open = \<lambda>ns rw. State_Monad.return 0,
     nv_get_blob = \<lambda>ns key cap. flash_read (\<lambda>c. blob_of cap (c ns key)),
     nv_blob_size = \<lambda>ns key. flash_read (\<lambda>c. case c ns key of Some (NvBlob d) \<Rightarrow> (0, length d) | _ \<Rightarrow> (kNotFound, 0)),
     nv_get_u8 = \<lambda>ns key. flash_read (\<lambda>c. case c ns key of Some (NvU8 x) \<Rightarrow> (0, x) | _ \<Rightarrow> (kNotFound, 0)),
     nv_get_u32 = \<lambda>ns key. flash_read (\<lambda>c. case c ns key of Some (NvU32 x) \<Rightarrow> (0, x) | _ \<Rightarrow> (kNotFound, 0)),
     nv_set_blob = \<lambda>ns key d. flash_write lasting (\<lambda>items. ((ns, key), NvBlob d) # items),
     nv_set_u32 = \<lambda>ns key x. flash_write lasting (\<lambda>items. ((ns, key), NvU32 x) # items),
     nv_erase_key = \<lambda>ns key. do {
       x \<leftarrow> flash_read (\<lambda>c. c ns key);
       if x = None then State_Monad.return kNotFound
       else flash_write lasting (filter (\<lambda>item. fst item \<noteq> (ns, key)))},
     nv_commit = \<lambda>ns. State_Monad.return 0,
     nv_entries = \<lambda>ns. State (\<lambda>w. ((map (\<lambda>item. (snd (fst item), item_type (the (stored w ns (snd (fst item))))))
       (filter (\<lambda>item. fst (fst item) = ns) (fst w)), kNotFound), w))\<rparr>"

lemma stored_put: "stored (((ns, key), x) # items, life) = put_item ns key (Some x) (stored (items, p))"
  by (auto simp: stored_def put_item_def fun_eq_iff)

lemma stored_erase: "stored (filter (\<lambda>item. fst item \<noteq> (ns, key)) items, life) = put_item ns key None (stored (items, p))"
proof (intro ext)
  fix ns' key'
  have "map_of (filter (\<lambda>item. fst item \<noteq> (ns, key)) items) k = (if k = (ns, key) then None else map_of items k)" for k
    by (induction items) auto
  then show "stored (filter (\<lambda>item. fst item \<noteq> (ns, key)) items, life) ns' key' = put_item ns key None (stored (items, p)) ns' key'"
    by (simp add: stored_def)
qed

lemma stored_entries: "set (map (\<lambda>item. (snd (fst item), item_type (the (stored w ns (snd (fst item))))))
      (filter (\<lambda>item. fst (fst item) = ns) (fst w))) = {(key, item_type x) | key x. stored w ns key = Some x}" (is "?l = ?r")
proof
  have there: "\<exists>x. stored w ns key = Some x" if "((ns, key), y) \<in> set (fst w)" for key y
    using that by (metis weak_map_of_SomeI stored_def)
  show "?l \<subseteq> ?r" using there by fastforce
  show "?r \<subseteq> ?l"
  proof
    fix e assume "e \<in> ?r"
    then obtain key x where e: "e = (key, item_type x)" "stored w ns key = Some x" by auto
    then have "((ns, key), x) \<in> set (fst w)" by (simp add: stored_def map_of_SomeD)
    then show "e \<in> ?l" using e by force
  qed
qed

lemma flash_write_results:
  assumes "\<And>items p q. stored (f items, p) = put_item ns key x (stored (items, q))"
  shows "results stored (flash_write lasting f) c
    (\<lambda>s c'. c' \<in> {c, put_item ns key x c} \<and> (s = 0 \<longrightarrow> c' = put_item ns key x c) \<and> s \<noteq> kNotFound)"
proof -
  have "snd_w \<in> {stored w, put_item ns key x (stored w)} \<and> (s = 0 \<longrightarrow> snd_w = put_item ns key x (stored w)) \<and> s \<noteq> kNotFound"
    if "s = fst (run_state (flash_write lasting f) w)" "snd_w = stored (snd (run_state (flash_write lasting f) w))" for s snd_w w
  proof -
    obtain items life where eq: "w = (items, life)" by (cases w)
    have keep: "stored (items, p) = stored w" for p by (simp add: eq stored_def fun_eq_iff)
    have put: "stored (f items, p) = put_item ns key x (stored w)" for p using assms keep by metis
    show ?thesis using that keep put by (auto simp: eq flash_write_def kNotFound_def split: option.splits nat.splits)
  qed
  then show ?thesis by (auto simp: results_def)
qed

lemma flash_read_results: "results stored (flash_read f) c (\<lambda>r c'. r = f c \<and> c' = c)"
  by (simp add: results_def flash_read_def)

lemma blob_of_ok:
  "fst (blob_of cap x) = 0 \<Longrightarrow> x = Some (NvBlob (snd (blob_of cap x))) \<and> length (snd (blob_of cap x)) \<le> cap"
  "fst (blob_of cap x) = kNotFound \<Longrightarrow> x \<noteq> Some (NvBlob d)"
  "blob_of cap None = (kNotFound, [])" "length d \<le> cap \<Longrightarrow> fst (blob_of cap (Some (NvBlob d))) = 0"
  by (auto simp: blob_of_def kNotFound_def split: option.splits nvs_item.splits if_splits)

lemma flash_ok: "nvs_ok (flash_nvs lasting) stored"
  unfolding nvs_ok_def
proof (intro conjI allI)
  fix ns key c cap rw d
  show "results stored (nv_open (flash_nvs lasting) ns rw) c (\<lambda>s c'. c' = c \<and> (s = kNotFound \<longrightarrow> c ns = Map.empty))"
    by (simp add: flash_nvs_def results_def)
  show "results stored (nv_get_blob (flash_nvs lasting) ns key cap) c (\<lambda>r c'. c' = c
      \<and> (fst r = 0 \<longrightarrow> c ns key = Some (NvBlob (snd r)) \<and> length (snd r) \<le> cap)
      \<and> (fst r = kNotFound \<longrightarrow> (\<forall>d. c ns key \<noteq> Some (NvBlob d))))"
    unfolding flash_nvs_def nvs.simps by (rule results_mono [OF flash_read_results]) (use blob_of_ok in blast)
  show "results stored (nv_get_u8 (flash_nvs lasting) ns key) c (\<lambda>r c'. c' = c
      \<and> (fst r = 0 \<longrightarrow> c ns key = Some (NvU8 (snd r))) \<and> (fst r = kNotFound \<longrightarrow> (\<forall>x. c ns key \<noteq> Some (NvU8 x))))"
    unfolding flash_nvs_def nvs.simps
    by (rule results_mono [OF flash_read_results]) (auto split: option.splits nvs_item.splits)
  show "results stored (nv_get_u32 (flash_nvs lasting) ns key) c (\<lambda>r c'. c' = c
      \<and> (fst r = 0 \<longrightarrow> c ns key = Some (NvU32 (snd r))) \<and> (fst r = kNotFound \<longrightarrow> (\<forall>x. c ns key \<noteq> Some (NvU32 x))))"
    unfolding flash_nvs_def nvs.simps
    by (rule results_mono [OF flash_read_results]) (auto split: option.splits nvs_item.splits)
  show "results stored (nv_set_blob (flash_nvs lasting) ns key d) c (\<lambda>s c1. c1 \<in> {c, put_item ns key (Some (NvBlob d)) c}
      \<and> results stored (nv_commit (flash_nvs lasting) ns) c1 (\<lambda>t c2. c2 \<in> {c, put_item ns key (Some (NvBlob d)) c}
          \<and> (s = 0 \<and> t = 0 \<longrightarrow> c2 = put_item ns key (Some (NvBlob d)) c)))"
    unfolding flash_nvs_def nvs.simps
    by (rule results_mono [OF flash_write_results [OF stored_put]]) (auto intro!: results_return)
  show "results stored (nv_erase_key (flash_nvs lasting) ns key) c (\<lambda>s c1. c1 \<in> {c, put_item ns key None c}
      \<and> (s = kNotFound \<longrightarrow> c ns key = None)
      \<and> results stored (nv_commit (flash_nvs lasting) ns) c1 (\<lambda>t c2. c2 \<in> {c, put_item ns key None c}
          \<and> (s = 0 \<and> t = 0 \<longrightarrow> c2 = put_item ns key None c)))"
    unfolding flash_nvs_def nvs.simps
    by (rule results_call [OF flash_read_results])
      (auto intro!: results_return results_mono [OF flash_write_results [OF stored_erase]])
  show "results stored (nv_entries (flash_nvs lasting) ns) c (\<lambda>r c'. c' = c \<and> snd r \<noteq> 0
      \<and> (snd r = kNotFound \<longrightarrow> set (fst r) = {(key, item_type x) | key x. c ns key = Some x}))"
    unfolding flash_nvs_def nvs.simps results_def by (simp only: state.sel fst_conv snd_conv stored_entries) simp
next
  fix ns key c x
  show "results stored (nv_blob_size (flash_nvs lasting) ns key) c (\<lambda>r c'. c' = c
      \<and> (fst r = 0 \<longrightarrow> (\<exists>d. c ns key = Some (NvBlob d) \<and> length d = snd r))
      \<and> (fst r = kNotFound \<longrightarrow> (\<forall>d. c ns key \<noteq> Some (NvBlob d))))"
    unfolding flash_nvs_def nvs.simps
    by (rule results_mono [OF flash_read_results]) (auto split: option.splits nvs_item.splits)
  show "results stored (nv_set_u32 (flash_nvs lasting) ns key x) c (\<lambda>s c1. c1 \<in> {c, put_item ns key (Some (NvU32 x)) c}
      \<and> results stored (nv_commit (flash_nvs lasting) ns) c1 (\<lambda>t c2. c2 \<in> {c, put_item ns key (Some (NvU32 x)) c}
          \<and> (s = 0 \<and> t = 0 \<longrightarrow> c2 = put_item ns key (Some (NvU32 x)) c)))"
    unfolding flash_nvs_def nvs.simps
    by (rule results_mono [OF flash_write_results [OF stored_put]]) (auto intro!: results_return)
qed

lemma flash_live: "nvs_live (flash_nvs True) stored"
  unfolding nvs_live_def
proof (intro conjI allI)
  fix ns key c cap rw d
  have writes: "results stored (flash_write True f) c (\<lambda>s c'. s = 0)" for f c
    by (simp add: results_def flash_write_def split_beta)
  show "results stored (nv_open (flash_nvs True) ns rw) c (\<lambda>s c'. s = 0 \<or> \<not> rw \<and> s = kNotFound)"
    by (simp add: flash_nvs_def results_def)
  show "results stored (nv_get_blob (flash_nvs True) ns key cap) c (\<lambda>r c'. (c ns key = None \<longrightarrow> fst r = kNotFound)
      \<and> (\<forall>b. c ns key = Some (NvBlob b) \<and> length b \<le> cap \<longrightarrow> fst r = 0))"
    unfolding flash_nvs_def nvs.simps by (rule results_mono [OF flash_read_results]) (auto simp: blob_of_ok)
  show "results stored (nv_get_u8 (flash_nvs True) ns key) c (\<lambda>r c'. c ns key = None \<longrightarrow> fst r = kNotFound)"
    unfolding flash_nvs_def nvs.simps by (rule results_mono [OF flash_read_results]) simp
  show "results stored (nv_get_u32 (flash_nvs True) ns key) c (\<lambda>r c'. c ns key = None \<longrightarrow> fst r = kNotFound)"
    unfolding flash_nvs_def nvs.simps by (rule results_mono [OF flash_read_results]) simp
  show "results stored (nv_set_blob (flash_nvs True) ns key d) c (\<lambda>s c'. s = 0)"
    unfolding flash_nvs_def nvs.simps by (rule writes)
  show "results stored (nv_erase_key (flash_nvs True) ns key) c (\<lambda>s c'. s = (if c ns key = None then kNotFound else 0))"
    unfolding flash_nvs_def nvs.simps
    by (rule results_call [OF flash_read_results]) (auto intro!: results_return results_mono [OF writes])
  show "results stored (nv_commit (flash_nvs True) ns) c (\<lambda>s c'. s = 0)" "results stored (nv_entries (flash_nvs True) ns) c (\<lambda>r c'. snd r = kNotFound)"
    by (simp_all add: flash_nvs_def results_def)
qed

section \<open>The removal of a bond\<close>

text \<open>What NimBLE's deletion of a peer must leave, and the last check, which only reads.\<close>

definition peer_deletion_ok :: "('w \<Rightarrow> contents) \<Rightarrow> (store_identity \<Rightarrow> ('w, i32) state) \<Rightarrow> bool" where
  "peer_deletion_ok durable delete_peer \<longleftrightarrow>
     (\<forall>i c. results durable (delete_peer i) c (\<lambda>s c'. kept i c c' \<and> receipt c' = receipt c))"

definition only_reads :: "('w \<Rightarrow> contents) \<Rightarrow> ('w, i32) state \<Rightarrow> bool" where
  "only_reads durable m \<longleftrightarrow> (\<forall>c. results durable m c (\<lambda>s c'. c' = c))"

lemma remove_from_stack_ok:
  assumes "nvs_ok nvs durable" "peer_deletion_ok durable delete_peer"
  shows "results durable (remove_from_stack nvs delete_peer target) c (\<lambda>s c'. kept target c c' \<and> receipt c' = receipt c)"
proof -
  have revision: "results durable (delete_schema_revision_verified nvs target) c (\<lambda>s c'. kept target c c' \<and> receipt c' = receipt c)" for c
    by (rule results_mono [OF delete_schema_revision_ok [OF assms(1)]])
      (auto simp: kept_def receipt_def records_def schema_records_def)
  have peer: "results durable (delete_peer target \<bind> (\<lambda>status. if status \<noteq> 0 then State_Monad.return (PeerDelete, status)
      else State_Monad.return 0 \<bind> (\<lambda>status. State_Monad.return
        (if status \<noteq> 0 then (Postcondition, status) else (RemovalComplete, 0))))) c1
      (\<lambda>r c'. kept target c c' \<and> receipt c' = receipt c)" if "kept target c c1 \<and> receipt c1 = receipt c" for c1
    by (rule results_call [OF assms(2) [unfolded peer_deletion_ok_def, THEN spec, THEN spec]])
      (use that kept_trans in \<open>auto simp: results_def\<close>)
  have all: "results durable (run_schema_first_removal (delete_schema_revision_verified nvs target) (delete_peer target)
      (State_Monad.return 0)) c (\<lambda>r c'. kept target c c' \<and> receipt c' = receipt c)"
    unfolding run_schema_first_removal_def
    by (rule results_call [OF revision]) (use peer in \<open>auto intro!: results_return\<close>)
  show ?thesis
    unfolding remove_from_stack_def by (rule results_call [OF all]) (auto intro: results_return)
qed

text \<open>Boots: each resumes the deletion, in any world that has the contents the last one left.\<close>

inductive boots :: "'w nvs \<Rightarrow> ('w \<Rightarrow> contents) \<Rightarrow> contents \<Rightarrow> contents \<Rightarrow> bool"
  for nvs :: "'w nvs" and durable :: "'w \<Rightarrow> contents" and c :: contents where
  boots_none: "boots nvs durable c c"
| boots_next: "boots nvs durable c (durable w) \<Longrightarrow>
    boots nvs durable c (durable (snd (run_state (resume_exact_deletion (persistent_store nvs)) w)))"

lemma results_snd: "results durable m (durable w) Q \<Longrightarrow> Q (fst (run_state m w)) (durable (snd (run_state m w)))"
  by (simp add: results_def)

lemma boots_journaled:
  assumes "boots nvs durable c c'" "nvs_ok nvs durable" "sized target" "journaled target c0 c"
  shows "journaled target c0 c'"
  using assms(1)
proof induction
  case (boots_next w)
  then show ?case using results_snd [OF resume_journaled [OF persistent_store_ok [OF assms(2)] assms(3)]] by blast
qed (rule assms(4))

text \<open>Without a receipt there is nothing to resume.\<close>

lemma resume_nothing:
  assumes "store_ok st durable" "receipt c = None"
  shows "results durable (resume_exact_deletion st) c (\<lambda>s c'. c' = c)"
proof -
  have none: "results durable (read_delete_intent st) c (\<lambda>r c'. c' = c \<and> snd r = None)"
    unfolding read_delete_intent_def
    by (rule results_call [OF store_call(1) [OF assms(1)]])
      (use assms(2) in \<open>auto intro!: results_return simp: read_ok_def receipt_def split: if_splits option.splits\<close>)
  show ?thesis
    unfolding resume_exact_deletion_def by (rule results_call [OF none]) (auto intro!: results_return)
qed

lemma resume_nothing_live:
  assumes "store_ok st durable" "store_live st durable" "receipt c = None"
  shows "results durable (resume_exact_deletion st) c (\<lambda>s c'. s = 0)"
proof -
  have "c kDeleteNamespace kDeleteKey = None \<or> (\<exists>d. c kDeleteNamespace kDeleteKey = Some (NvBlob d) \<and> length d \<le> 8)"
    using assms(3) by (simp add: receipt_def)
  note readable = store_live_call(1) [where c = c and ns = kDeleteNamespace and key = kDeleteKey and cap = 8, OF assms(1,2) this]
  have none: "results durable (read_delete_intent st) c (\<lambda>r c'. r = (0, None))"
    unfolding read_delete_intent_def
    by (rule results_call [OF readable])
      (use assms(3) in \<open>auto intro!: results_return simp: read_ok_def receipt_def split: if_splits option.splits\<close>)
  show ?thesis
    unfolding resume_exact_deletion_def by (rule results_call [OF none]) (auto intro!: results_return)
qed

lemma boots_nothing:
  assumes "boots nvs durable c c'" "nvs_ok nvs durable" "receipt c = None"
  shows "c' = c"
  using assms(1)
proof induction
  case (boots_next w)
  then show ?case using results_snd [OF resume_nothing [OF persistent_store_ok [OF assms(2)]], of w] assms(3) by simp
qed simp

lemma removal_leaves:
  assumes "nvs_ok nvs durable" "peer_deletion_ok durable delete_peer" "only_reads durable verify_ram"
    and "run_state (run_journaled_removal (persistent_store nvs) target (remove_from_stack nvs delete_peer target) verify_ram) w
      = (s, w')"
  shows "durable w' = durable w \<or> journaled target (durable w) (durable w')"
    "s = 0 \<Longrightarrow> journaled target (durable w) (durable w') \<and> finished target (durable w')"
proof -
  have "results durable (run_journaled_removal (persistent_store nvs) target (remove_from_stack nvs delete_peer target) verify_ram)
      (durable w) (\<lambda>s c'. (c' = durable w \<or> journaled target (durable w) c')
         \<and> (s = 0 \<longrightarrow> journaled target (durable w) c' \<and> finished target c'))"
    using assms(3) unfolding only_reads_def
    by (intro removal_journaled persistent_store_ok remove_from_stack_ok assms(1,2)) simp
  from results_run [OF this assms(4)] show "durable w' = durable w \<or> journaled target (durable w) (durable w')"
    "s = 0 \<Longrightarrow> journaled target (durable w) (durable w') \<and> finished target (durable w')" by simp_all
qed


text \<open>
  C3: A removal that was cut anywhere, followed by any number of boots that were cut as well, is finished
  by the first boot whose flash does not fail: it succeeds, the receipt and all of the target's records
  are gone and nothing else has changed. A removal that changed nothing leaves nothing to resume.
\<close>

theorem deletion_recovers:
  assumes "nvs_ok nvs durable" "peer_deletion_ok durable delete_peer" "only_reads durable verify_ram"
    and "sized target" "receipt (durable w) = None"
    and "boots nvs durable (durable (snd (run_state (run_journaled_removal (persistent_store nvs) target
      (remove_from_stack nvs delete_peer target) verify_ram) w))) (durable w')"
    and "nvs_ok later durable" "nvs_live later durable"
  shows "case run_state (resume_exact_deletion (persistent_store later)) w' of (s, w'') \<Rightarrow>
    s = 0 \<and> receipt (durable w'') = None \<and> kept target (durable w) (durable w'')
    \<and> (if durable (snd (run_state (run_journaled_removal (persistent_store nvs) target
        (remove_from_stack nvs delete_peer target) verify_ram) w)) = durable w
      then durable w'' = durable w else gone target (durable w''))"
proof -
  let ?cut = "durable (snd (run_state (run_journaled_removal (persistent_store nvs) target
      (remove_from_stack nvs delete_peer target) verify_ram) w))"
  note later = persistent_store_ok [OF assms(7)] persistent_store_live [OF assms(7,8)]
  have left: "?cut = durable w \<or> journaled target (durable w) ?cut"
    by (rule removal_leaves(1) [OF assms(1-3)]) (rule surjective_pairing)
  show ?thesis
  proof (cases "?cut = durable w")
    case True
    then have same: "durable w' = durable w" using boots_nothing [OF assms(6,1)] assms(5) by simp
    show ?thesis
      using results_snd [OF resume_nothing [OF later(1)], where w = w'] results_snd [OF resume_nothing_live [OF later], where w = w']
        same True assms(5) by (simp add: case_prod_unfold)
  next
    case False
    with left have "journaled target (durable w) (durable w')" using boots_journaled [OF assms(6,1,4)] by blast
    note resumed = results_snd [OF resume_live [OF later assms(4) this]]
    show ?thesis
      using resumed False
      by (simp add: case_prod_unfold journaled_def finished_def)
  qed
qed

text \<open>A bond whose removal is cut after three changes.\<close>

definition some_peer :: store_identity where "some_peer = StoreIdentity 0 [1, 2, 3, 4, 5, 6]"

definition some_flash :: flash where
  "some_flash = ([((kDeleteBondNamespace, ''peer_sec_1''), NvBlob ([0, 1, 2, 3, 4, 5, 6] @ replicate 81 0)),
     ((kDeleteBondNamespace, ''peer_sec_2''), NvBlob ([1, 1, 2, 3, 4, 5, 6] @ replicate 81 0)),
     ((kSchemaNamespace, schema_key some_peer), NvU8 3)], Some 2)"

definition cut_flash :: flash where
  "cut_flash = snd (run_state (run_journaled_removal (persistent_store (flash_nvs False)) some_peer
     (remove_from_stack (flash_nvs False) (\<lambda>i. State_Monad.return 0) some_peer) (State_Monad.return 0)) some_flash)"

lemma idle_peer_deletion: "peer_deletion_ok stored (\<lambda>i. State_Monad.return 0)"
  by (auto simp: peer_deletion_ok_def intro: results_return)

lemma idle_check: "only_reads stored (State_Monad.return 0)"
  by (auto simp: only_reads_def intro: results_return)

text \<open>The receipt and the schema record were written and erased, the security record is still there.\<close>

lemma cut_evaluated:
  "receipt (stored cut_flash) = Some (NvBlob [1, 0, 1, 2, 3, 4, 5, 6])
    \<and> stored cut_flash kDeleteBondNamespace ''peer_sec_1'' \<noteq> None \<and> stored cut_flash kSchemaNamespace (schema_key some_peer) = None"
  by code_simp


theorem deletion_recovers_witness:
  "case run_state (resume_exact_deletion (persistent_store (flash_nvs True)))
      (snd (run_state (resume_exact_deletion (persistent_store (flash_nvs False))) cut_flash)) of (s, w'') \<Rightarrow>
    s = 0 \<and> receipt (stored w'') = None \<and> kept some_peer (stored some_flash) (stored w'')
    \<and> (if stored cut_flash = stored some_flash then stored w'' = stored some_flash else gone some_peer (stored w''))"
  unfolding cut_flash_def
  by (rule deletion_recovers [OF flash_ok idle_peer_deletion idle_check _ _ boots_next [OF boots_none] flash_ok flash_live])
    (simp_all add: some_peer_def some_flash_def receipt_def stored_def kDeleteNamespace_def kDeleteBondNamespace_def kSchemaNamespace_def)

end
