(* ===== verification/Spec2Isabelle.thy ===== *)
theory Spec2Isabelle
  imports ControlFraming FixtureProfile SequenceRun SequenceStatus UsbLifecycle BleLifecycle
    StopTransaction BlePairing BleSecurity LifecycleWatchdog ControlSession BondAssociation ReleaseGrace FirmwareIdentity
    RouteAuthority UartTransport TicketProperties BondFlash
begin

text \<open>
  A model of the firmware of the S3 HID bot, an ESP32-S3 that presents a keyboard and a mouse over
  USB and Bluetooth LE and is driven by a host over a UART. The sources are the C++ components under
  \<open>src/firmware/components\<close>; every definition is translated from the function, type or constant of
  the same name there, a name that clashes with one of HOL or of another component carries a prefix or
  a suffix.

  The program. Bytes from the UART are cut into lines by \<open>control_framing\<close>. A line with the prefix
  \<open>@HIDBOT\<close> is a JSON request, which \<open>control_protocol\<close> validates, serves through the providers of
  the rest of the firmware, and answers with one line. \<open>control_session\<close> decides which requests
  belong to the live session and keeps the responses that exact retries repeat; \<open>sensitive_request\<close>
  lets it recognise a retried secret without keeping the secret. A route (\<open>hid_route\<close>) says which of
  USB and BLE carries reports; its generation is the authority under which a report is sent.
  \<open>usb_lifecycle\<close> and \<open>ble_lifecycle\<close> follow the exposure of the two transports, \<open>ble_pairing\<close>,
  \<open>ble_security\<close> and \<open>bond_association\<close> the security of a BLE connection, and \<open>hid_sequence\<close> plays
  a script of key and button operations.

  Theories, in the order of their imports.

  \<^item> \<open>Prelude\<close>: machine integers, lemma collections and the contracts shared by the components: the
    locales \<open>machine\<close> (an invariant kept by every step), \<open>forward_machine\<close> (a preorder every step
    follows) and \<open>simulation\<close>, each interpreted by the components that satisfy it.
  \<^item> \<open>ControlFraming\<close>, of \<open>control_framing/control_framing.cpp\<close>: \<open>Transport\<close> is the record
    \<open>transport\<close>, the callback a list of events. The lemmas relate any byte stream to a line
    specification, bound every access to the buffer and show that four zero bytes reset the layer.
  \<^item> \<open>HidCapability\<close>, \<open>FixtureProfile\<close>: report roles and the catalogue of BLE fixtures, with its
    consistency.
  \<^item> \<open>HidSequence\<close>, \<open>SequenceGrammar\<close>, \<open>SequenceStatus\<close>, \<open>SequenceController\<close>, \<open>SequenceRun\<close>, of
    \<open>hid_sequence/hid_sequence.cpp\<close>: parser, keyboard and mouse state, packed status word and the
    controller with its task. The parser accepts exactly a grammar; a run of the task ends, closes what
    it opened and reports the states of the plan in order, whatever aborts interfere. The loops that wait
    for the clock are partial functions, \<open>None\<close> when they never end; they are shown to return when the
    clock moves on.
  \<^item> \<open>UsbLifecycle\<close>, \<open>BleLifecycle\<close>, \<open>StopTransaction\<close>, \<open>LifecycleWatchdog\<close>: state machines over
    packed words, refined to abstract specifications or shown to keep their invariants on every run.
  \<^item> \<open>Seqlock\<close>, \<open>BlePairing\<close>, \<open>BleSecurity\<close>: the pairing and security machines; pairing publishes
    through a sequence counter, and a concurrent reader returns only snapshots that were published.
  \<^item> \<open>BondAssociation\<close>, \<open>FirmwareIdentity\<close>, \<open>SensitiveRequest\<close>: encodings, validators and digests
    with their round trips.
  \<^item> \<open>ControlSession\<close>, of \<open>control_session/control_session.cpp\<close>: sessions, leases and retry caches
    over byte arrays, refined to maps of remembered requests; with the books kept of all answers, a
    request is executed at most once.
  \<^item> \<open>ReleaseGrace\<close>, \<open>Interleaving\<close>, \<open>HidRoute\<close>, \<open>RouteAuthority\<close>: concurrent components.
    \<open>Interleaving\<close> is a language of programs of atomic steps on shared fields with rely-guarantee
    reasoning; \<open>HidRoute\<close> writes every operation of \<open>hid_route/hid_route.cpp\<close> in it, and
    \<open>RouteAuthority\<close> proves what all interleavings of any number of callers publish. 121 is the number
    of own steps within which each operation returns.
  \<^item> \<open>ControlJson\<close>, \<open>ControlResponse\<close>, \<open>ControlProtocol\<close>, of \<open>control_protocol/control_protocol.cpp\<close>:
    the JSON tree and the validation of parameters, the formatters of all responses, and the
    dispatcher with its commands, its handshake and its notifications. The calls of providers are
    logged; the environment \<open>cp_env\<close> answers as a function of the log.
  \<^item> \<open>ProtocolServing\<close>, \<open>ResponseLines\<close>, \<open>ProtocolCalls\<close>: on every run of the protocol a request
    is executed at most once, a frame acts only when it is a new request of the live session, every
    output is one response line and every call is in its receiver's range.
  \<^item> \<open>UartTransport\<close>, of \<open>uart_control_transport/uart_control_transport.cpp\<close>: the receive task with
    the notifications of other tasks, which carries the properties of the protocol to byte streams.

  Parameters. cJSON, the random generator, HMAC-SHA-256, NimBLE, TinyUSB, FreeRTOS and ESP-IDF are
  not in the repository. What the code takes from them is an argument of the definitions that use it
  (\<open>cjson\<close>, \<open>cp_env\<close>, the environment of \<open>SequenceController\<close>, functions of the store in
  \<open>BondAssociation\<close>), and what the properties need of it is a hypothesis by name: \<open>cjson_ok\<close> (the
  look-ups of cJSON as documented), \<open>env_ok\<close> (sixteen random bytes; a provider that accepts a transition
  publishes a new epoch, which \<open>hid_route\<close> and the runtime do), \<open>hmac_option_sized\<close> (the hash fills its
  buffer) and \<open>codes_plain\<close> (status codes are plain text). Each has an instance in the witnesses.

  Modelling choices. Integers are words of their width, \<open>std::int32_t\<close> values that are only copied
  and compared are integers in their range; strings are lists of characters, byte arrays lists of
  their length, a plain \<open>char\<close> is unsigned as on the target. Atomic operations are single steps under
  sequential consistency; a loop around one compare-exchange is one step, where its failing turns
  change nothing. Histories (\<open>cp_calls\<close>, \<open>cp_served\<close>, \<open>ua_fed\<close> and the like) are written and never
  read by the operations.

  Not modelled. \<open>hid_runtime\<close> and \<open>hid_control_executor\<close> (report tickets, the USB and BLE executor
  and its queue) and \<open>ble_hid_service\<close> are planned; \<open>ble_transport.cpp\<close> is the glue of NimBLE's
  callbacks to the state machines above, and \<open>main\<close> creates the components. Wiping of buffers is
  modelled where it is a component of its own (\<open>secure_memory\<close>) and left out of \<open>control_protocol\<close>.
  The Python host, the native tests and the release tools are not firmware.
\<close>

end
